(* ===== verification/Prelude.thy ===== *)
theory Prelude
  imports Main "HOL-Library.Word"
begin

text \<open>
  What every component of the model shares: Go's \<open>error\<close> values and fallible results, Go's
  \<open>time.Time\<close> and \<open>time.Duration\<close>, truncating integer division and the wrap-around of
  64-bit arithmetic, decimal printing, the FNV-1a hash, and generic lemmas on result values and
  on tables kept as lists of rows.
\<close>

section \<open>Errors and results\<close>

text \<open>
  A Go function that returns \<open>(T, error)\<close> is a function into \<open>go_error + 'a\<close>. The sentinel
  errors the program compares with \<open>errors.Is\<close> are constructors of their own, an error built by
  \<open>errors.New\<close> or \<open>fmt.Errorf\<close> without \<open>%w\<close> is \<open>ErrText\<close>, and \<open>fmt.Errorf\<close> with \<open>%w\<close>
  is \<open>Wrapped\<close>, which keeps the identity of what it wraps. The error types that are found with
  \<open>errors.As\<close>, \<open>*outbox.Failure\<close>, \<open>*monitor.LifecycleError\<close> and \<open>*outbound.Error\<close> (reason, class,
  host, port and cause), carry their fields.
\<close>

datatype sentinel =
    SlotHeld | RunLeaseLost | ConfirmationHeld | ManualTargetNotFound | ManualTargetUnconfigured
  | ManualCapacity | ContextDone
  | HealthPayloadInvalid | HealthOrganizationMismatch
  | IncidentPayloadInvalid | IncidentOrganizationMismatch | IncidentConflict | IncidentVersionGap
  | AlertPayloadInvalid | AlertOrganizationMismatch
  | OutboxLeaseLost
  | MonitorConcurrentUpdate
  | MaintenanceMonitorNotFound | MaintenanceOverlap | MaintenanceConcurrentUpdate
  | MaintenanceWindowEnded
  | WebhookNameConflict | WebhookNotFound | WebhookConcurrentUpdate | WebhookEnabledLimit
  | RotationInProgress | PendingSecretMissing | RetiringSecretMissing | RetiringSecretInUse
  | WebhookSecretChanged | DeliveryLeaseLost | DeliveryInvalid | KeyringUnavailable | SecretAuthentication
  | ContextCanceled | DeadlineExceeded
  | SetupAlreadyCompleted | DuplicateEmail | UserMissing
  | PageConcurrentUpdate | PageMonitorUnavailable | PageAlreadyPublished | PageDraftMissing

datatype go_error =
    ErrText string | ErrIs sentinel | Wrapped string go_error
  | OutboxFailure string bool | LifecycleError string string
  | OutboundFailure string string string int "go_error option"

type_synonym 'a result = "go_error + 'a"

fun errors_is :: "go_error \<Rightarrow> sentinel \<Rightarrow> bool" where
  "errors_is (ErrIs s) t = (s = t)"
| "errors_is (ErrText m) t = False"
| "errors_is (Wrapped m e) t = errors_is e t"
| "errors_is (OutboxFailure c p) t = False"
| "errors_is (LifecycleError c m) t = False"
| "errors_is (OutboundFailure r c h p None) t = False"
| "errors_is (OutboundFailure r c h p (Some e)) t = errors_is e t"

fun is_ok :: "'a result \<Rightarrow> bool" where
  "is_ok (Inr x) = True"
| "is_ok (Inl e) = False"

lemma is_ok_iff: "is_ok r \<longleftrightarrow> (\<exists>x. r = Inr x)"
  by (cases r) auto

lemma if_Inl_eq_Inr [simp]: "((if b then Inl e else r) = Inr x) \<longleftrightarrow> (\<not> b \<and> r = Inr x)"
  by auto

text \<open>Sequencing of fallible steps: the first error is the result of the whole.\<close>

definition and_then :: "'a result \<Rightarrow> ('a \<Rightarrow> 'b result) \<Rightarrow> 'b result" where
  "and_then r f = (case r of Inl e \<Rightarrow> Inl e | Inr x \<Rightarrow> f x)"

lemma and_then_simps [simp]: "and_then (Inl e) f = Inl e" "and_then (Inr x) f = f x"
  by (simp_all add: and_then_def)

lemma and_then_Inr: "and_then r f = Inr y \<longleftrightarrow> (\<exists>x. r = Inr x \<and> f x = Inr y)"
  by (cases r) simp_all

lemma and_then_cong [cong]: "r = r' \<Longrightarrow> and_then r f = and_then r' f"
  by simp

text \<open>What a use case reports of a field it refuses: \<open>ValidationFailure\<close> of several packages.\<close>

record validation_failure =
  vfCode :: string
  vfField :: string
  vfMessage :: string

text \<open>The facts that unfold the operations of a store, and those that describe their results.\<close>

named_theorems store_simps

section \<open>Integers\<close>

text \<open>Go's \<open>/\<close> and \<open>%\<close> on signed integers truncate toward zero.\<close>

definition go_div :: "int \<Rightarrow> int \<Rightarrow> int" where
  "go_div a b = sgn a * sgn b * (\<bar>a\<bar> div \<bar>b\<bar>)"

definition go_mod :: "int \<Rightarrow> int \<Rightarrow> int" where
  "go_mod a b = a - go_div a b * b"

text \<open>Two's complement wrap-around of an \<open>int64\<close>.\<close>

definition wrap64 :: "int \<Rightarrow> int" where
  "wrap64 x = (x + 2 ^ 63) mod 2 ^ 64 - 2 ^ 63"

definition fits64 :: "int \<Rightarrow> bool" where
  "fits64 x \<longleftrightarrow> - (2 ^ 63) \<le> x \<and> x < 2 ^ 63"

lemma wrap64_id [simp]: "fits64 x \<Longrightarrow> wrap64 x = x"
  by (auto simp: wrap64_def fits64_def)

lemma fits64_wrap64 [simp]: "fits64 (wrap64 x)"
  by (simp add: wrap64_def fits64_def)

lemma go_div_pos: "0 \<le> a \<Longrightarrow> 0 < b \<Longrightarrow> go_div a b = a div b"
  by (cases "a = 0") (simp_all add: go_div_def)

lemma go_mod_pos: "0 \<le> a \<Longrightarrow> 0 < b \<Longrightarrow> go_mod a b = a mod b"
  by (simp add: go_mod_def go_div_pos minus_div_mult_eq_mod)

lemma go_div_neg: "a < 0 \<Longrightarrow> 0 < b \<Longrightarrow> go_div a b = - ((- a) div b)"
  by (simp add: go_div_def)

lemma div_window: "0 < (d :: int) \<Longrightarrow> a div d * d \<le> a \<and> a < a div d * d + d"
  using div_mult_mod_eq [of a d] pos_mod_bound [of d a] pos_mod_sign [of d a] by linarith

section \<open>Time\<close>

text \<open>
  A \<open>time.Time\<close> is an instant and a location. \<open>nanos\<close> counts nanoseconds from the Unix
  epoch. The zero \<open>Time\<close> is midnight of January 1 of year 1. The location is \<open>time.UTC\<close> or
  one with a fixed offset in seconds; a location of offset 0 need not be \<open>time.UTC\<close>.
  A \<open>time.Duration\<close> is an \<open>int64\<close> of nanoseconds. Instants are kept unbounded: Go keeps
  their seconds in 64 bits, which covers 292 billion years.
\<close>

type_synonym duration = int

datatype go_location = UTC | Fixed int

record go_time =
  nanos :: int
  zone :: go_location

definition second :: duration where "second = 1000000000"
definition minute :: duration where "minute = 60 * second"
definition hour :: duration where "hour = 60 * minute"

lemmas duration_defs = second_def minute_def hour_def

definition zero_nanos :: int where
  "zero_nanos = - 62135596800000000000"

definition zero_time :: go_time where
  "zero_time = \<lparr>nanos = zero_nanos, zone = UTC\<rparr>"

definition is_zero :: "go_time \<Rightarrow> bool" where
  "is_zero t \<longleftrightarrow> nanos t = zero_nanos"

definition before :: "go_time \<Rightarrow> go_time \<Rightarrow> bool" where
  "before a b \<longleftrightarrow> nanos a < nanos b"

definition after :: "go_time \<Rightarrow> go_time \<Rightarrow> bool" where
  "after a b \<longleftrightarrow> nanos b < nanos a"

definition time_equal :: "go_time \<Rightarrow> go_time \<Rightarrow> bool" where
  "time_equal a b \<longleftrightarrow> nanos a = nanos b"

definition to_utc :: "go_time \<Rightarrow> go_time" where
  "to_utc t = t\<lparr>zone := UTC\<rparr>"

fun zone_offset :: "go_location \<Rightarrow> int" where
  "zone_offset UTC = 0"
| "zone_offset (Fixed n) = n"

definition time_add :: "go_time \<Rightarrow> duration \<Rightarrow> go_time" where
  "time_add t d = t\<lparr>nanos := nanos t + d\<rparr>"

text \<open>\<open>Time.Sub\<close> saturates at the bounds of a \<open>Duration\<close>.\<close>

definition time_sub :: "go_time \<Rightarrow> go_time \<Rightarrow> duration" where
  "time_sub a b = max (- (2 ^ 63)) (min (2 ^ 63 - 1) (nanos a - nanos b))"

definition unix :: "go_time \<Rightarrow> int" where
  "unix t = nanos t div 1000000000"

definition unix_milli :: "go_time \<Rightarrow> int" where
  "unix_milli t = nanos t div 1000000"

definition time_unix :: "int \<Rightarrow> go_time" where
  "time_unix s = \<lparr>nanos = s * 1000000000, zone = UTC\<rparr>"

text \<open>
  The packages test for a persisted UTC instant in two ways: \<open>run\<close>, \<open>incident\<close>, \<open>alert\<close>,
  \<open>monitor\<close> and \<open>webhook\<close> accept a zone offset of zero, \<open>health\<close> and \<open>maintenance\<close> require
  the location \<open>time.UTC\<close> itself.
\<close>

definition is_utc :: "go_time \<Rightarrow> bool" where
  "is_utc t \<longleftrightarrow> \<not> is_zero t \<and> zone_offset (zone t) = 0"

definition is_utc_location :: "go_time \<Rightarrow> bool" where
  "is_utc_location t \<longleftrightarrow> \<not> is_zero t \<and> zone t = UTC"

lemmas time_defs = is_zero_def before_def after_def time_equal_def to_utc_def time_add_def
  zero_time_def

lemma nanos_to_utc [simp]: "nanos (to_utc t) = nanos t"
  by (simp add: to_utc_def)

lemma zone_to_utc [simp]: "zone (to_utc t) = UTC"
  by (simp add: to_utc_def)

lemma to_utc_idem [simp]: "to_utc (to_utc t) = to_utc t"
  by (simp add: to_utc_def)

lemma to_utc_id: "zone t = UTC \<Longrightarrow> to_utc t = t"
  by (simp add: to_utc_def)

lemma is_zero_zero_time [simp]: "is_zero zero_time"
  by (simp add: is_zero_def zero_time_def)

lemma not_is_utc_zero_time [simp]: "\<not> is_utc zero_time"
  by (simp add: is_utc_def)

lemma is_utc_location_is_utc: "is_utc_location t \<Longrightarrow> is_utc t"
  by (simp add: is_utc_def is_utc_location_def)

lemma is_utc_to_utc [simp]: "is_utc (to_utc t) \<longleftrightarrow> \<not> is_zero t"
  by (simp add: is_utc_def is_zero_def)

lemma is_utc_location_to_utc [simp]: "is_utc_location (to_utc t) \<longleftrightarrow> \<not> is_zero t"
  by (simp add: is_utc_location_def is_zero_def)

lemma is_zero_to_utc [simp]: "is_zero (to_utc t) \<longleftrightarrow> is_zero t"
  by (simp add: is_zero_def)

lemma nanos_time_add [simp]: "nanos (time_add t d) = nanos t + d"
  by (simp add: time_add_def)

lemma zone_time_add [simp]: "zone (time_add t d) = zone t"
  by (simp add: time_add_def)

section \<open>Decimal printing and FNV-1a\<close>

definition digit_char :: "nat \<Rightarrow> char" where
  "digit_char d = char_of (48 + d)"

fun nat_dec :: "nat \<Rightarrow> string" where
  "nat_dec n = (if n < 10 then [digit_char n] else nat_dec (n div 10) @ [digit_char (n mod 10)])"

declare nat_dec.simps [simp del]

definition int_dec :: "int \<Rightarrow> string" where
  "int_dec i = (if i < 0 then CHR ''-'' # nat_dec (nat (- i)) else nat_dec (nat i))"

type_synonym u64 = "64 word"

definition fnv_step :: "u64 \<Rightarrow> char \<Rightarrow> u64" where
  "fnv_step h c = (xor h (of_nat (of_char c))) * 1099511628211"

definition fnv64a :: "string \<Rightarrow> u64" where
  "fnv64a s = foldl fnv_step 14695981039346656037 s"

section \<open>Tables\<close>

text \<open>
  A table is a list of rows. \<open>UPDATE ... WHERE p\<close> maps a function over the rows that satisfy
  \<open>p\<close>, \<open>DELETE ... WHERE p\<close> filters them out, and the number of affected rows is the number
  that satisfied \<open>p\<close>.
\<close>

definition sql_update :: "('r \<Rightarrow> bool) \<Rightarrow> ('r \<Rightarrow> 'r) \<Rightarrow> 'r list \<Rightarrow> 'r list" where
  "sql_update p f rows = map (\<lambda>r. if p r then f r else r) rows"

definition sql_delete :: "('r \<Rightarrow> bool) \<Rightarrow> 'r list \<Rightarrow> 'r list" where
  "sql_delete p rows = filter (\<lambda>r. \<not> p r) rows"

definition sql_exists :: "('r \<Rightarrow> bool) \<Rightarrow> 'r list \<Rightarrow> bool" where
  "sql_exists p rows = list_ex p rows"

text \<open>A unique index: no two rows at different positions carry the same key, when both are indexed.\<close>

fun unique_on :: "('r \<Rightarrow> 'k option) \<Rightarrow> 'r list \<Rightarrow> bool" where
  "unique_on key [] = True"
| "unique_on key (r # rs) =
     ((case key r of None \<Rightarrow> True | Some k \<Rightarrow> (\<forall>r' \<in> set rs. key r' \<noteq> Some k)) \<and> unique_on key rs)"

lemma set_sql_update: "set (sql_update p f rows) = (\<lambda>r. if p r then f r else r) ` set rows"
  by (simp add: sql_update_def)

lemma set_sql_delete [simp]: "set (sql_delete p rows) = {r \<in> set rows. \<not> p r}"
  by (simp add: sql_delete_def)

lemma sql_exists_iff [simp]: "sql_exists p rows \<longleftrightarrow> (\<exists>r \<in> set rows. p r)"
  by (simp add: sql_exists_def list_ex_iff)

lemma in_sql_update: "x \<in> set (sql_update p f rows) \<longleftrightarrow> (\<exists>r \<in> set rows. x = (if p r then f r else r))"
  by (auto simp: sql_update_def)

lemma unique_on_single [simp]: "unique_on key [r]"
  by (simp split: option.split)

lemma unique_on_distinct: "unique_on (\<lambda>r. Some (f r)) rows \<Longrightarrow> distinct rows"
  by (induction rows) auto

lemma unique_on_append:
  "unique_on key (xs @ ys) \<longleftrightarrow> unique_on key xs \<and> unique_on key ys \<and>
     (\<forall>x \<in> set xs. \<forall>y \<in> set ys. key x = None \<or> key x \<noteq> key y)"
  by (induction xs) (auto split: option.splits)

lemma unique_on_sql_update:
  assumes "unique_on key rows" and "\<And>r. r \<in> set rows \<Longrightarrow> p r \<Longrightarrow> key (f r) = key r"
  shows "unique_on key (sql_update p f rows)"
  using assms by (induction rows) (auto simp: sql_update_def split: option.splits)

lemma unique_on_sql_delete: "unique_on key rows \<Longrightarrow> unique_on key (sql_delete p rows)"
  by (induction rows) (auto simp: sql_delete_def split: option.splits)

lemma unique_onD:
  assumes "unique_on key rows" and "r \<in> set rows" and "r' \<in> set rows"
    and "key r = Some k" and "key r' = Some k"
  shows "r = r'"
  using assms by (induction rows) (auto split: option.splits)

lemma unique_on_sql_update_drop:
  assumes "unique_on key rows" and "\<And>r. p r \<Longrightarrow> key (f r) = key r \<or> key (f r) = None"
  shows "unique_on key (sql_update p f rows)"
  using assms(1)
proof (induction rows)
  case (Cons r rows)
  have k: "key (if p x then f x else x) = key x \<or> key (if p x then f x else x) = None" for x
    using assms(2) [of x] by simp
  have "\<forall>y \<in> set (sql_update p f rows). key y \<noteq> Some a" if "\<forall>y \<in> set rows. key y \<noteq> Some a" for a
  proof
    fix y assume "y \<in> set (sql_update p f rows)"
    then obtain x where "x \<in> set rows" "y = (if p x then f x else x)" by (auto simp: in_sql_update)
    then show "key y \<noteq> Some a" using that k [of x] by auto
  qed
  then show ?case using Cons k [of r] by (auto simp: sql_update_def split: option.splits)
qed (simp add: sql_update_def)

text \<open>The first row that satisfies a predicate.\<close>

lemma find_holds: "find P xs = Some w \<Longrightarrow> w \<in> set xs \<and> P w"
  by (auto simp: find_Some_iff)

lemma find_append_Some: "find P xs = Some w \<Longrightarrow> find P (xs @ ys) = Some w"
  by (induction xs) auto

lemma find_append_None: "find P xs = None \<Longrightarrow> find P (xs @ ys) = find P ys"
  by (induction xs) (auto split: if_splits)

lemma find_sql_update_outside:
  assumes "\<And>x. p x \<Longrightarrow> \<not> P x \<and> \<not> P (f x)"
  shows "find P (sql_update p f xs) = find P xs"
  using assms by (induction xs) (auto simp: sql_update_def)

lemma find_sql_update_hit:
  assumes "\<And>x. p x \<Longrightarrow> P (f x) = P x" and "find P xs = Some w" and "p w"
  shows "find P (sql_update p f xs) = Some (f w)"
  using assms by (induction xs) (auto simp: sql_update_def split: if_splits)

lemma find_unique:
  assumes "unique_on (\<lambda>x. Some (key x)) xs" and "x \<in> set xs" and "P x"
    and "\<And>y. P y \<Longrightarrow> key y = key x"
  shows "find P xs = Some x"
  using assms(1,2)
proof (induction xs)
  case (Cons a xs)
  show ?case
  proof (cases "P a")
    case True
    then have "key a = key x" by (rule assms(4))
    then have "a = x" using Cons.prems by auto
    then show ?thesis using True by simp
  next
    case False
    then show ?thesis using Cons assms(3) by auto
  qed
qed simp

lemma find_none_same: "(\<And>y. y \<in> set xs \<Longrightarrow> \<not> P y) \<Longrightarrow> find P xs = None"
  by (simp add: find_None_iff)

end
