(* ===== verification/Json.thy ===== *)
theory Json
  imports Prelude
begin

text \<open>
  What the program uses of \<open>encoding/json\<close>: documents, the encoding of event structs field by
  field and the decoding of a document into a struct. An instant is an RFC 3339 text in the
  document; it is kept as a leaf of its own, \<open>JInstant\<close>, which only a \<open>time.Time\<close> field reads.
  A decoder matches field names without regard to ASCII case, lets a later field override an
  earlier one, ignores names it does not know and leaves a field at its zero value when the
  document has none or has \<open>null\<close>, as \<open>json.Unmarshal\<close> does.
\<close>

section \<open>Documents\<close>

datatype json =
    JNull | JBool bool | JNum int | JStr string | JInstant go_time
  | JArr "json list" | JObj "(string \<times> json) list"

text \<open>
  \<open>Time.MarshalJSON\<close> refuses years outside 0 to 9999. An offset of zero prints as \<open>Z\<close> and reads
  back as \<open>time.UTC\<close>.
\<close>

definition year_in_range :: "go_time \<Rightarrow> bool" where
  "year_in_range t \<longleftrightarrow> - 62167219200000000000 \<le> nanos t \<and> nanos t < 253402300800000000000"

definition json_instant :: "go_time \<Rightarrow> json option" where
  "json_instant t =
     (if year_in_range t then
        Some (JInstant (if zone_offset (zone t) = 0 then to_utc t else t))
      else None)"

section \<open>Length of the encoded text\<close>

text \<open>
  The number of bytes \<open>json.Marshal\<close> writes, for texts of ASCII characters: control characters,
  quotes and the three characters HTML gives a meaning are escaped.
\<close>

definition json_char_len :: "char \<Rightarrow> nat" where
  "json_char_len c =
     (if c \<in> {CHR ''\"'', CHR 0x5C, CHR 0x08, CHR 0x09, CHR 0x0A, CHR 0x0C, CHR 0x0D} then 2
      else if of_char c < (32 :: nat) \<or> c \<in> {CHR ''<'', CHR ''>'', CHR ''&''} then 6 else 1)"

definition json_str_len :: "string \<Rightarrow> nat" where
  "json_str_len s = 2 + sum_list (map json_char_len s)"

fun fraction_digits :: "nat \<Rightarrow> nat \<Rightarrow> nat" where
  "fraction_digits 0 n = 0"
| "fraction_digits (Suc k) n = (if n mod 10 = 0 then fraction_digits k (n div 10) else Suc k)"

definition json_instant_len :: "go_time \<Rightarrow> nat" where
  "json_instant_len t =
     (let frac = fraction_digits 9 (nat (nanos t mod 1000000000))
      in 2 + 19 + (if frac = 0 then 0 else 1 + frac) + (if zone_offset (zone t) = 0 then 1 else 6))"

fun json_len :: "json \<Rightarrow> nat" where
  "json_len JNull = 4"
| "json_len (JBool b) = (if b then 4 else 5)"
| "json_len (JNum n) = length (int_dec n)"
| "json_len (JStr s) = json_str_len s"
| "json_len (JInstant t) = json_instant_len t"
| "json_len (JArr xs) = 2 + (length xs - 1) + sum_list (map json_len xs)"
| "json_len (JObj fs) =
     2 + (length fs - 1) + sum_list (map (\<lambda>(k, v). json_str_len k + 1 + json_len v) fs)"

section \<open>Decoding a struct\<close>

definition ascii_lower :: "char \<Rightarrow> char" where
  "ascii_lower c = (let n = of_char c :: nat in if 65 \<le> n \<and> n \<le> 90 then char_of (n + 32) else c)"

definition same_field :: "string \<Rightarrow> string \<Rightarrow> bool" where
  "same_field a b \<longleftrightarrow> map ascii_lower a = map ascii_lower b"

fun as_string :: "json \<Rightarrow> string option" where
  "as_string (JStr s) = Some s"
| "as_string j = None"

fun as_int64 :: "json \<Rightarrow> int option" where
  "as_int64 (JNum n) = (if fits64 n then Some n else None)"
| "as_int64 j = None"

fun as_instant :: "json \<Rightarrow> go_time option" where
  "as_instant (JInstant t) = Some t"
| "as_instant j = None"

fun decode_field :: "(json \<Rightarrow> 'a option) \<Rightarrow> string \<Rightarrow> 'a \<Rightarrow> (string \<times> json) list \<Rightarrow> 'a option" where
  "decode_field conv name x [] = Some x"
| "decode_field conv name x ((k, v) # fs) =
     (if \<not> same_field k name then decode_field conv name x fs
      else if v = JNull then decode_field conv name x fs
      else case conv v of None \<Rightarrow> None | Some y \<Rightarrow> decode_field conv name y fs)"

abbreviation field_string :: "string \<Rightarrow> (string \<times> json) list \<Rightarrow> string option" where
  "field_string name fs \<equiv> decode_field as_string name '''' fs"

abbreviation field_int :: "string \<Rightarrow> (string \<times> json) list \<Rightarrow> int option" where
  "field_int name fs \<equiv> decode_field as_int64 name 0 fs"

abbreviation field_instant :: "string \<Rightarrow> (string \<times> json) list \<Rightarrow> go_time option" where
  "field_instant name fs \<equiv> decode_field as_instant name zero_time fs"

text \<open>The fields of the document a struct is decoded from: an object's, or none for \<open>null\<close>.\<close>

fun struct_fields :: "json \<Rightarrow> (string \<times> json) list option" where
  "struct_fields (JObj fs) = Some fs"
| "struct_fields JNull = Some []"
| "struct_fields j = None"

section \<open>Lemmas\<close>

lemma json_instant_Some:
  "json_instant t = Some j \<longleftrightarrow> year_in_range t \<and> j = JInstant (if zone_offset (zone t) = 0 then to_utc t else t)"
  by (auto simp: json_instant_def)

lemma json_instant_utc: "zone t = UTC \<Longrightarrow> year_in_range t \<Longrightarrow> json_instant t = Some (JInstant t)"
  by (simp add: json_instant_def to_utc_id)

text \<open>Field names are compared one character at a time, so that unequal names are told apart early.\<close>

lemma same_field_simps [simp]:
  "same_field [] []" "\<not> same_field [] (y # ys)" "\<not> same_field (x # xs) []"
  "same_field (x # xs) (y # ys) = (if ascii_lower x = ascii_lower y then same_field xs ys else False)"
  by (simp_all add: same_field_def)

lemma same_field_refl [simp]: "same_field k k"
  by (simp add: same_field_def)

lemma decode_field_other [simp]:
  "\<not> same_field k name \<Longrightarrow> decode_field conv name x ((k, v) # fs) = decode_field conv name x fs"
  by simp

lemma decode_field_hit [simp]:
  "conv v = Some y \<Longrightarrow> v \<noteq> JNull \<Longrightarrow> decode_field conv name x ((name, v) # fs) = decode_field conv name y fs"
  by simp

end
