(* ===== verification/RunDomain.thy ===== *)
theory RunDomain
  imports Prelude
begin

text \<open>
  The Run of \<open>internal/run/run.go\<close>: slot identity, the three representable states of a Run
  (claimed under a lease, finished, skipped), the operations that build and change one, the
  constructor that re-validates a stored row, and the lease arithmetic.
\<close>

section \<open>Data\<close>

text \<open>Go's \<open>Kind\<close> and \<open>Outcome\<close> are string types: every other text is an \<open>Other\<close> value.\<close>

datatype run_kind = KindScheduled | KindConfirmation | KindManual | KindOther string

datatype run_outcome =
    OutcomeNone | OutcomePassed | OutcomeFailed | OutcomeErrored | OutcomeTimedOut
  | OutcomeCancelled | OutcomeSkipped | OutcomeOther string

fun kind_text :: "run_kind \<Rightarrow> string" where
  "kind_text KindScheduled = ''scheduled''"
| "kind_text KindConfirmation = ''confirmation''"
| "kind_text KindManual = ''manual''"
| "kind_text (KindOther s) = s"

fun outcome_text :: "run_outcome \<Rightarrow> string" where
  "outcome_text OutcomeNone = ''''"
| "outcome_text OutcomePassed = ''passed''"
| "outcome_text OutcomeFailed = ''failed''"
| "outcome_text OutcomeErrored = ''errored''"
| "outcome_text OutcomeTimedOut = ''timedout''"
| "outcome_text OutcomeCancelled = ''cancelled''"
| "outcome_text OutcomeSkipped = ''skipped''"
| "outcome_text (OutcomeOther s) = s"

record slot =
  slOrganizationID :: string
  slMonitorID :: string
  slRevisionNumber :: int
  slLocation :: string
  slScheduledFor :: go_time

record confirmation_cause =
  ccCandidateID :: string
  ccTriggeringRunID :: string
  ccTriggeringScheduledFor :: go_time
  ccCausationEventID :: string
  ccPolicyVersion :: string

record run =
  rID :: string
  rSlot :: slot
  rKind :: run_kind
  rConfirmation :: "confirmation_cause option"
  rOutcome :: run_outcome
  rStartedAt :: go_time
  rFinishedAt :: go_time
  rLeaseHolder :: string
  rLeaseExpiresAt :: go_time

definition MaxLocationLength :: nat where "MaxLocationLength = 63"
definition MaxLeaseHolderLength :: nat where "MaxLeaseHolderLength = 128"

section \<open>Validation\<close>

definition slot_validate :: "slot \<Rightarrow> unit result" where
  "slot_validate s =
     (if slOrganizationID s = '''' \<or> slMonitorID s = '''' then
        Inl (ErrText ''a Run slot requires Organization and Monitor identity'')
      else if slRevisionNumber s < 1 then Inl (ErrText ''revision numbers start at 1'')
      else if slLocation s = '''' \<or> length (slLocation s) > MaxLocationLength then
        Inl (ErrText ''a Probe Location identifier is 1 to 63 bytes'')
      else if \<not> is_utc (slScheduledFor s) then
        Inl (ErrText ''a Run slot requires a UTC scheduled instant'')
      else Inr ())"

definition valid_kind :: "run_kind \<Rightarrow> bool" where
  "valid_kind k \<longleftrightarrow> k = KindScheduled \<or> k = KindConfirmation \<or> k = KindManual"

fun valid_execution_outcome :: "run_outcome \<Rightarrow> bool" where
  "valid_execution_outcome OutcomePassed = True"
| "valid_execution_outcome OutcomeFailed = True"
| "valid_execution_outcome OutcomeErrored = True"
| "valid_execution_outcome OutcomeTimedOut = True"
| "valid_execution_outcome OutcomeCancelled = True"
| "valid_execution_outcome _ = False"

definition cause_validate :: "confirmation_cause \<Rightarrow> unit result" where
  "cause_validate c =
     (if ccCandidateID c = '''' \<or> ccTriggeringRunID c = '''' \<or> ccCausationEventID c = ''''
         \<or> ccPolicyVersion c = '''' then
        Inl (ErrText ''a confirmation Run requires candidate, triggering Run, causation event, and policy identity'')
      else if \<not> is_utc (ccTriggeringScheduledFor c) then
        Inl (ErrText ''a confirmation Run requires the triggering Run partition key'')
      else Inr ())"

section \<open>Operations\<close>

definition blank_run :: "string \<Rightarrow> slot \<Rightarrow> run_kind \<Rightarrow> run" where
  "blank_run i s k = \<lparr>rID = i, rSlot = s, rKind = k, rConfirmation = None, rOutcome = OutcomeNone,
     rStartedAt = zero_time, rFinishedAt = zero_time, rLeaseHolder = '''', rLeaseExpiresAt = zero_time\<rparr>"

definition run_claim ::
  "string \<Rightarrow> slot \<Rightarrow> run_kind \<Rightarrow> string \<Rightarrow> go_time \<Rightarrow> run result" where
  "run_claim i s k holder expires =
     (if i = '''' then Inl (ErrText ''a Run requires an identifier'')
      else case slot_validate s of Inl e \<Rightarrow> Inl e | Inr _ \<Rightarrow>
        if \<not> valid_kind k then Inl (ErrText ''unknown Run kind'')
        else if k = KindConfirmation then
          Inl (ErrText ''a confirmation Run requires causal identity'')
        else if holder = '''' \<or> length holder > MaxLeaseHolderLength then
          Inl (ErrText ''a lease holder token is 1 to 128 bytes'')
        else if \<not> is_utc expires then Inl (ErrText ''a lease requires a UTC expiry'')
        else Inr ((blank_run i s k)\<lparr>rLeaseHolder := holder, rLeaseExpiresAt := expires\<rparr>))"

definition run_claim_confirmation ::
  "string \<Rightarrow> slot \<Rightarrow> confirmation_cause \<Rightarrow> string \<Rightarrow> go_time \<Rightarrow> run result" where
  "run_claim_confirmation i s cause holder expires =
     (if i = '''' then Inl (ErrText ''a Run requires an identifier'')
      else case slot_validate s of Inl e \<Rightarrow> Inl e | Inr _ \<Rightarrow>
        case cause_validate cause of Inl e \<Rightarrow> Inl e | Inr _ \<Rightarrow>
        if holder = '''' \<or> length holder > MaxLeaseHolderLength then
          Inl (ErrText ''a lease holder token is 1 to 128 bytes'')
        else if \<not> is_utc expires then Inl (ErrText ''a lease requires a UTC expiry'')
        else Inr ((blank_run i s KindConfirmation)\<lparr>rConfirmation := Some cause,
               rLeaseHolder := holder, rLeaseExpiresAt := expires\<rparr>))"

definition run_skip :: "string \<Rightarrow> slot \<Rightarrow> run_kind \<Rightarrow> run result" where
  "run_skip i s k =
     (if i = '''' then Inl (ErrText ''a Run requires an identifier'')
      else case slot_validate s of Inl e \<Rightarrow> Inl e | Inr _ \<Rightarrow>
        if \<not> valid_kind k then Inl (ErrText ''unknown Run kind'')
        else Inr ((blank_run i s k)\<lparr>rOutcome := OutcomeSkipped\<rparr>))"

definition in_flight :: "run \<Rightarrow> bool" where
  "in_flight r \<longleftrightarrow> rOutcome r = OutcomeNone"

definition renew_lease :: "run \<Rightarrow> go_time \<Rightarrow> run result" where
  "renew_lease r expires =
     (if \<not> in_flight r then
        Inl (ErrText ''a Run that has recorded its outcome holds no lease'')
      else if \<not> is_utc expires then Inl (ErrText ''a lease requires a UTC expiry'')
      else if \<not> after expires (rLeaseExpiresAt r) then
        Inl (ErrText ''a lease renewal must extend the current expiry'')
      else Inr (r\<lparr>rLeaseExpiresAt := expires\<rparr>))"

definition run_complete :: "run \<Rightarrow> run_outcome \<Rightarrow> go_time \<Rightarrow> go_time \<Rightarrow> run result" where
  "run_complete r outcome started finished =
     (if \<not> in_flight r then Inl (ErrText ''a Run records its outcome once'')
      else if \<not> valid_execution_outcome outcome then
        Inl (ErrText ''unknown Run execution outcome'')
      else if \<not> is_utc started \<or> \<not> is_utc finished then
        Inl (ErrText ''persisted timestamps must be UTC'')
      else if before finished started then
        Inl (ErrText ''a Run cannot finish before it started'')
      else Inr (r\<lparr>rOutcome := outcome, rStartedAt := started, rFinishedAt := finished,
             rLeaseHolder := '''', rLeaseExpiresAt := zero_time\<rparr>))"

text \<open>\<open>RestoreWithCause\<close>, and \<open>Restore\<close>, which supplies no cause.\<close>

definition restore_cause_check :: "run_kind \<Rightarrow> confirmation_cause option \<Rightarrow> unit result" where
  "restore_cause_check k cause =
     (if k = KindConfirmation then
        (case cause of None \<Rightarrow> Inl (ErrText ''a confirmation Run requires causal identity'')
         | Some c \<Rightarrow> cause_validate c)
      else if cause \<noteq> None then
        Inl (ErrText ''only a confirmation Run carries confirmation causation'')
      else Inr ())"

definition restore_state ::
  "run \<Rightarrow> run_outcome \<Rightarrow> go_time \<Rightarrow> go_time \<Rightarrow> string \<Rightarrow> go_time \<Rightarrow> run result" where
  "restore_state base outcome started finished holder expires =
     (let leased = (holder \<noteq> '''' \<or> \<not> is_zero expires)
      in if outcome = OutcomeNone then
           (if \<not> leased then Inl (ErrText ''a Run with no outcome must hold a lease'')
            else if holder = '''' \<or> \<not> is_utc expires then
              Inl (ErrText ''a held lease requires a holder and a UTC expiry'')
            else if \<not> is_zero started \<or> \<not> is_zero finished then
              Inl (ErrText ''a Run in flight has no execution instants'')
            else Inr (base\<lparr>rLeaseHolder := holder, rLeaseExpiresAt := expires\<rparr>))
         else if leased then
           Inl (ErrText ''a Run that recorded its outcome holds no lease'')
         else if outcome = OutcomeSkipped then
           (if \<not> is_zero started \<or> \<not> is_zero finished then
              Inl (ErrText ''a skipped Run never executed and has no execution instants'')
            else Inr (base\<lparr>rOutcome := outcome\<rparr>))
         else if \<not> valid_execution_outcome outcome then Inl (ErrText ''unknown Run outcome'')
         else if \<not> is_utc started \<or> \<not> is_utc finished then
           Inl (ErrText ''an executed Run requires UTC execution instants'')
         else if before finished started then
           Inl (ErrText ''a Run cannot finish before it started'')
         else Inr (base\<lparr>rOutcome := outcome, rStartedAt := started, rFinishedAt := finished\<rparr>))"

definition restore_with_cause ::
  "string \<Rightarrow> slot \<Rightarrow> run_kind \<Rightarrow> run_outcome \<Rightarrow> go_time \<Rightarrow> go_time \<Rightarrow> string \<Rightarrow> go_time \<Rightarrow>
   confirmation_cause option \<Rightarrow> run result" where
  "restore_with_cause i s k outcome started finished holder expires cause =
     (if i = '''' then Inl (ErrText ''a Run requires an identifier'')
      else case slot_validate s of Inl e \<Rightarrow> Inl e | Inr _ \<Rightarrow>
      if \<not> valid_kind k then Inl (ErrText ''unknown Run kind'')
      else case restore_cause_check k cause of Inl e \<Rightarrow> Inl e | Inr _ \<Rightarrow>
        restore_state ((blank_run i s k)\<lparr>rConfirmation := cause\<rparr>) outcome started finished
          holder expires)"

definition restore ::
  "string \<Rightarrow> slot \<Rightarrow> run_kind \<Rightarrow> run_outcome \<Rightarrow> go_time \<Rightarrow> go_time \<Rightarrow> string \<Rightarrow> go_time \<Rightarrow>
   run result" where
  "restore i s k outcome started finished holder expires =
     restore_with_cause i s k outcome started finished holder expires None"

definition restore_row :: "run \<Rightarrow> run result" where
  "restore_row r = restore_with_cause (rID r) (rSlot r) (rKind r) (rOutcome r) (rStartedAt r)
     (rFinishedAt r) (rLeaseHolder r) (rLeaseExpiresAt r) (rConfirmation r)"

definition misfired :: "go_time \<Rightarrow> go_time \<Rightarrow> duration \<Rightarrow> bool" where
  "misfired scheduled_for now interval =
     (if interval \<le> 0 then False else time_sub now scheduled_for > interval)"

definition LeaseMargin :: duration where "LeaseMargin = 30 * second"
definition MaxLeaseDuration :: duration where "MaxLeaseDuration = 15 * minute"

definition lease_duration :: "duration \<Rightarrow> duration" where
  "lease_duration ceiling =
     (let c = (if ceiling < 0 then 0 else ceiling);
          d = wrap64 (c + LeaseMargin)
      in if d > MaxLeaseDuration then MaxLeaseDuration else d)"

section \<open>Well-formed Runs\<close>

text \<open>
  The three states the package comment names. A claimed Run has a lease and no outcome, a
  finished Run an outcome, ordered instants and no lease, a skipped Run only its outcome.
\<close>

definition claimed_state :: "run \<Rightarrow> bool" where
  "claimed_state r \<longleftrightarrow> rOutcome r = OutcomeNone \<and> rLeaseHolder r \<noteq> '''' \<and> is_utc (rLeaseExpiresAt r)
     \<and> rStartedAt r = zero_time \<and> rFinishedAt r = zero_time"

definition no_lease :: "run \<Rightarrow> bool" where
  "no_lease r \<longleftrightarrow> rLeaseHolder r = '''' \<and> rLeaseExpiresAt r = zero_time"

definition finished_state :: "run \<Rightarrow> bool" where
  "finished_state r \<longleftrightarrow> valid_execution_outcome (rOutcome r) \<and> no_lease r
     \<and> is_utc (rStartedAt r) \<and> is_utc (rFinishedAt r) \<and> \<not> before (rFinishedAt r) (rStartedAt r)"

definition skipped_state :: "run \<Rightarrow> bool" where
  "skipped_state r \<longleftrightarrow> rOutcome r = OutcomeSkipped \<and> no_lease r
     \<and> rStartedAt r = zero_time \<and> rFinishedAt r = zero_time"

fun cause_matches_kind :: "run_kind \<Rightarrow> confirmation_cause option \<Rightarrow> bool" where
  "cause_matches_kind k None = (k \<noteq> KindConfirmation)"
| "cause_matches_kind k (Some c) = (k = KindConfirmation \<and> is_ok (cause_validate c))"

definition run_wf :: "run \<Rightarrow> bool" where
  "run_wf r \<longleftrightarrow> rID r \<noteq> '''' \<and> is_ok (slot_validate (rSlot r)) \<and> valid_kind (rKind r)
     \<and> cause_matches_kind (rKind r) (rConfirmation r) \<and> (claimed_state r \<or> finished_state r \<or> skipped_state r)"

lemmas run_state_defs = claimed_state_def finished_state_def skipped_state_def no_lease_def

text \<open>One step of a Run's life: its lease is renewed or its outcome is recorded.\<close>

inductive run_step :: "run \<Rightarrow> run \<Rightarrow> bool" where
  renewed: "renew_lease r t = Inr r' \<Longrightarrow> run_step r r'"
| completed: "run_complete r outcome started finished = Inr r' \<Longrightarrow> run_step r r'"

inductive run_reachable :: "run \<Rightarrow> bool" where
  claimed: "run_claim i s k holder t = Inr r \<Longrightarrow> run_reachable r"
| claimed_confirmation: "run_claim_confirmation i s c holder t = Inr r \<Longrightarrow> run_reachable r"
| skipped: "run_skip i s k = Inr r \<Longrightarrow> k \<noteq> KindConfirmation \<Longrightarrow> run_reachable r"
| step: "run_reachable r \<Longrightarrow> run_step r r' \<Longrightarrow> run_reachable r'"

inductive_simps run_step_simps: "run_step r r'"

section \<open>Lemmas\<close>

lemma not_is_zero_utc: "is_utc t \<Longrightarrow> \<not> is_zero t"
  by (simp add: is_utc_def)

lemma run_claim_Inr:
  "run_claim i s k holder t = Inr r \<longleftrightarrow>
     i \<noteq> '''' \<and> is_ok (slot_validate s) \<and> valid_kind k \<and> k \<noteq> KindConfirmation \<and> holder \<noteq> ''''
     \<and> length holder \<le> MaxLeaseHolderLength \<and> is_utc t
     \<and> r = (blank_run i s k)\<lparr>rLeaseHolder := holder, rLeaseExpiresAt := t\<rparr>"
  by (cases "slot_validate s") (auto simp: run_claim_def)

lemma run_claim_confirmation_Inr:
  "run_claim_confirmation i s c holder t = Inr r \<longleftrightarrow>
     i \<noteq> '''' \<and> is_ok (slot_validate s) \<and> is_ok (cause_validate c) \<and> holder \<noteq> ''''
     \<and> length holder \<le> MaxLeaseHolderLength \<and> is_utc t
     \<and> r = (blank_run i s KindConfirmation)\<lparr>rConfirmation := Some c,
             rLeaseHolder := holder, rLeaseExpiresAt := t\<rparr>"
  by (cases "slot_validate s"; cases "cause_validate c") (auto simp: run_claim_confirmation_def)

lemma run_skip_Inr:
  "run_skip i s k = Inr r \<longleftrightarrow> i \<noteq> '''' \<and> is_ok (slot_validate s) \<and> valid_kind k
     \<and> r = (blank_run i s k)\<lparr>rOutcome := OutcomeSkipped\<rparr>"
  by (cases "slot_validate s") (auto simp: run_skip_def)

lemma renew_lease_Inr:
  "renew_lease r t = Inr r' \<longleftrightarrow> in_flight r \<and> is_utc t \<and> after t (rLeaseExpiresAt r)
     \<and> r' = r\<lparr>rLeaseExpiresAt := t\<rparr>"
  by (auto simp: renew_lease_def)

lemma run_complete_Inr:
  "run_complete r outcome started finished = Inr r' \<longleftrightarrow>
     in_flight r \<and> valid_execution_outcome outcome \<and> is_utc started \<and> is_utc finished
     \<and> \<not> before finished started
     \<and> r' = r\<lparr>rOutcome := outcome, rStartedAt := started, rFinishedAt := finished,
              rLeaseHolder := '''', rLeaseExpiresAt := zero_time\<rparr>"
  by (auto simp: run_complete_def)

lemmas run_operation_Inr = run_claim_Inr run_claim_confirmation_Inr run_skip_Inr renew_lease_Inr
  run_complete_Inr

lemma renew_lease_wf: "renew_lease r t = Inr r' \<Longrightarrow> run_wf r \<Longrightarrow> run_wf r'"
  by (simp add: renew_lease_Inr run_wf_def run_state_defs in_flight_def)

lemma run_complete_wf:
  "run_complete r outcome started finished = Inr r' \<Longrightarrow> run_wf r \<Longrightarrow> run_wf r'"
  by (simp add: run_complete_Inr run_wf_def run_state_defs)

lemma run_step_wf: "run_step r r' \<Longrightarrow> run_wf r \<Longrightarrow> run_wf r'"
  by (auto simp: run_step_simps intro: renew_lease_wf run_complete_wf)

lemma run_reachable_wf: "run_reachable r \<Longrightarrow> run_wf r"
proof (induction rule: run_reachable.induct)
  case (step r r')
  then show ?case by (blast intro: run_step_wf)
qed (auto simp: run_operation_Inr run_wf_def run_state_defs blank_run_def
       valid_kind_def)

lemma restore_cause_check_ok:
  "is_ok (restore_cause_check k cause) = cause_matches_kind k cause"
  by (cases cause) (auto simp: restore_cause_check_def)

lemma restore_with_cause_Inr:
  "restore_with_cause i s k outcome started finished holder expires cause = Inr r \<longleftrightarrow>
     i \<noteq> '''' \<and> is_ok (slot_validate s) \<and> valid_kind k \<and> is_ok (restore_cause_check k cause)
     \<and> restore_state ((blank_run i s k)\<lparr>rConfirmation := cause\<rparr>) outcome started finished
          holder expires = Inr r"
  by (cases "slot_validate s"; cases "restore_cause_check k cause")
    (auto simp: restore_with_cause_def)

lemma restore_state_ok:
  assumes b: "rOutcome b = OutcomeNone" "no_lease b" "rStartedAt b = zero_time"
      "rFinishedAt b = zero_time"
    and ok: "restore_state b outcome started finished holder expires = Inr r"
  shows "claimed_state r \<or> finished_state r \<or> skipped_state r"
proof -
  consider "outcome = OutcomeNone" | "outcome = OutcomeSkipped"
    | "outcome \<noteq> OutcomeNone" "outcome \<noteq> OutcomeSkipped" by blast
  then show ?thesis
  proof cases
    case 1
    with b ok have "claimed_state r"
      by (auto simp: restore_state_def claimed_state_def)
    then show ?thesis by simp
  next
    case 2
    with b ok have "skipped_state r"
      by (auto simp: restore_state_def skipped_state_def no_lease_def)
    then show ?thesis by simp
  next
    case 3
    with b ok have "finished_state r"
      by (auto simp: restore_state_def finished_state_def no_lease_def)
    then show ?thesis by simp
  qed
qed

lemma restore_state_frame:
  "restore_state b outcome started finished holder expires = Inr r \<Longrightarrow>
   rID r = rID b \<and> rSlot r = rSlot b \<and> rKind r = rKind b \<and> rConfirmation r = rConfirmation b"
  by (auto simp: restore_state_def Let_def split: if_split_asm)

lemma restore_row_wf: "run_wf r \<Longrightarrow> restore_row r = Inr r"
  by (cases r)
    (auto simp: restore_row_def restore_with_cause_Inr restore_cause_check_ok restore_state_def
      run_wf_def run_state_defs blank_run_def not_is_zero_utc)

lemma wf_restore_row:
  assumes "restore_row r = Inr r'"
  shows "run_wf r'"
proof -
  let ?b = "(blank_run (rID r) (rSlot r) (rKind r))\<lparr>rConfirmation := rConfirmation r\<rparr>"
  have st: "restore_state ?b (rOutcome r) (rStartedAt r) (rFinishedAt r) (rLeaseHolder r)
      (rLeaseExpiresAt r) = Inr r'"
    using assms by (simp add: restore_row_def restore_with_cause_Inr)
  have "claimed_state r' \<or> finished_state r' \<or> skipped_state r'"
    by (rule restore_state_ok [OF _ _ _ _ st]) (simp_all add: blank_run_def no_lease_def)
  then show ?thesis
    using assms restore_state_frame [OF st]
    by (simp add: run_wf_def restore_row_def restore_with_cause_Inr restore_cause_check_ok
        blank_run_def)
qed

lemma slot_validate_ok:
  "is_ok (slot_validate s) \<longleftrightarrow> slOrganizationID s \<noteq> '''' \<and> slMonitorID s \<noteq> ''''
     \<and> 1 \<le> slRevisionNumber s \<and> slLocation s \<noteq> '''' \<and> length (slLocation s) \<le> MaxLocationLength
     \<and> is_utc (slScheduledFor s)"
  by (auto simp: slot_validate_def)

lemma lease_duration_min:
  assumes "0 \<le> c" and "c < 2 ^ 63 - LeaseMargin"
  shows "lease_duration c = min (c + LeaseMargin) MaxLeaseDuration"
proof -
  have "fits64 (c + LeaseMargin)"
    using assms by (simp add: fits64_def LeaseMargin_def second_def)
  then show ?thesis
    using assms(1) by (simp add: lease_duration_def Let_def min_def)
qed

lemma no_step_after_outcome: "\<not> in_flight r \<Longrightarrow> \<not> run_step r r'"
  by (auto simp: run_step_simps run_operation_Inr)

section \<open>Properties\<close>

text \<open>
  Every Run that the constructors build and that lease renewal and completion produce is in
  exactly one of the three states of the package comment, carries confirmation causation exactly
  when it is a confirmation Run, and reading its row back yields the same Run.
\<close>

theorem run_lifecycle_invariant:
  assumes "run_reachable r"
  shows "run_wf r \<and> restore_row r = Inr r"
  using run_reachable_wf [OF assms] restore_row_wf by blast

definition sample_time :: go_time where
  "sample_time = \<lparr>nanos = 1750000000000000000, zone = UTC\<rparr>"

definition sample_slot :: slot where
  "sample_slot = \<lparr>slOrganizationID = ''org'', slMonitorID = ''mon'', slRevisionNumber = 1,
     slLocation = ''local'', slScheduledFor = sample_time\<rparr>"

definition sample_claimed :: run where
  "sample_claimed = (blank_run ''run'' sample_slot KindScheduled)
     \<lparr>rLeaseHolder := ''holder'', rLeaseExpiresAt := sample_time\<rparr>"

definition sample_finished :: run where
  "sample_finished = (blank_run ''run'' sample_slot KindScheduled)
     \<lparr>rOutcome := OutcomePassed, rStartedAt := sample_time, rFinishedAt := sample_time\<rparr>"

lemma sample_time_utc [simp]: "is_utc sample_time" "is_utc_location sample_time"
  "\<not> is_zero sample_time"
  by (simp_all add: is_utc_def is_utc_location_def is_zero_def sample_time_def zero_nanos_def)

lemma sample_slot_ok [simp]: "is_ok (slot_validate sample_slot)"
  by (simp add: slot_validate_def sample_slot_def MaxLocationLength_def)

lemma sample_claim:
  "run_claim ''run'' sample_slot KindScheduled ''holder'' sample_time = Inr sample_claimed"
  by (simp add: run_claim_Inr sample_claimed_def valid_kind_def MaxLeaseHolderLength_def)

lemma sample_complete:
  "run_complete sample_claimed OutcomePassed sample_time sample_time = Inr sample_finished"
  by (simp add: run_complete_Inr sample_claimed_def sample_finished_def in_flight_def before_def
      blank_run_def)

theorem run_lifecycle_invariant_witness:
  "run_reachable sample_finished \<and> run_wf sample_finished
     \<and> restore_row sample_finished = Inr sample_finished"
proof -
  have r: "run_reachable sample_finished"
    by (rule run_reachable.step [OF run_reachable.claimed [OF sample_claim]
          run_step.completed [OF sample_complete]])
  show ?thesis using r run_lifecycle_invariant [OF r] by simp
qed

text \<open>
  Restoring a stored row accepts exactly the well-formed Runs and returns them unchanged: every
  combination of lease, outcome, instants and causation outside the three states is rejected.
\<close>

theorem restore_accepts_exactly_wf: "restore_row r = Inr r \<longleftrightarrow> run_wf r"
  using restore_row_wf wf_restore_row by blast

text \<open>
  For every execution ceiling whose sum with the margin fits a \<open>Duration\<close>, the lease lasts at
  least the margin and at most fifteen minutes, and it outlives an execution bounded by the
  ceiling exactly when the ceiling is below fifteen minutes.
\<close>

theorem lease_duration_bounds:
  assumes "0 \<le> c" and "c < 2 ^ 63 - LeaseMargin"
  shows "LeaseMargin \<le> lease_duration c \<and> lease_duration c \<le> MaxLeaseDuration
    \<and> (c < lease_duration c \<longleftrightarrow> c < MaxLeaseDuration)"
  using assms(1)
  by (auto simp: lease_duration_min [OF assms] LeaseMargin_def MaxLeaseDuration_def duration_defs)

theorem lease_duration_bounds_witness:
  "60 * second < lease_duration (60 * second) \<and> \<not> 3600 * second < lease_duration (3600 * second)"
  using lease_duration_bounds [of "60 * second"] lease_duration_bounds [of "3600 * second"]
  by (simp add: LeaseMargin_def MaxLeaseDuration_def duration_defs)

end
