(* ===== verification/Health.thy ===== *)
theory Health
  imports Prelude
begin

text \<open>
  Models \<open>internal/health/health.go\<close>: evaluated Monitor health. A snapshot carries the visible
  state, the stable state behind it and the pending confirmation candidate; \<open>evaluate\<close> folds one
  terminal Run into it and \<open>mark_stale\<close> gives up on a Monitor that stopped reporting. The lemmas
  show the invariant that ties candidate and state together, that the detailed evaluation
  implements a small abstract automaton, and that versions count the transitions.
  \<open>Version\<close> is an \<open>int64\<close> that only ever grows by one; it is kept unbounded here.
\<close>

section \<open>Data\<close>

datatype health_state = StateUnknown | StateHealthy | StateDegraded | StateDown | StateOther string

datatype evidence =
  EvidencePassing | EvidenceFailing | EvidenceLocationFault | EvidenceIndeterminate | EvidenceOther string

datatype direction = DirectionFailure | DirectionRecovery | DirectionOther string

datatype candidate_state =
    CandidatePending | CandidateConfirmed | CandidateContradicted | CandidateSuperseded
  | CandidateStale | CandidateOther string

fun state_text :: "health_state \<Rightarrow> string" where
  "state_text StateUnknown = ''unknown''"
| "state_text StateHealthy = ''healthy''"
| "state_text StateDegraded = ''degraded''"
| "state_text StateDown = ''down''"
| "state_text (StateOther s) = s"

fun evidence_text :: "evidence \<Rightarrow> string" where
  "evidence_text EvidencePassing = ''passing''"
| "evidence_text EvidenceFailing = ''failing''"
| "evidence_text EvidenceLocationFault = ''location-fault''"
| "evidence_text EvidenceIndeterminate = ''indeterminate''"
| "evidence_text (EvidenceOther s) = s"

record counts =
  cntConfigured :: int
  cntEligible :: int
  cntResponding :: int
  cntPassing :: int
  cntFailing :: int
  cntLocationFault :: int
  cntIndeterminate :: int
  cntMissing :: int

definition zero_counts :: counts where
  "zero_counts = \<lparr>cntConfigured = 0, cntEligible = 0, cntResponding = 0, cntPassing = 0,
     cntFailing = 0, cntLocationFault = 0, cntIndeterminate = 0, cntMissing = 0\<rparr>"

definition counts_for :: "evidence \<Rightarrow> counts" where
  "counts_for e =
     (let c = zero_counts\<lparr>cntConfigured := 1, cntEligible := 1, cntResponding := 1\<rparr>
      in case e of
        EvidencePassing \<Rightarrow> c\<lparr>cntPassing := 1\<rparr>
      | EvidenceFailing \<Rightarrow> c\<lparr>cntFailing := 1\<rparr>
      | EvidenceLocationFault \<Rightarrow> c\<lparr>cntLocationFault := 1\<rparr>
      | EvidenceIndeterminate \<Rightarrow> c\<lparr>cntIndeterminate := 1\<rparr>
      | EvidenceOther _ \<Rightarrow> c)"

record candidate =
  cdID :: string
  cdOrganizationID :: string
  cdMonitorID :: string
  cdSourceRevisionNumber :: int
  cdDirection :: direction
  cdExpectedEvidence :: evidence
  cdState :: candidate_state
  cdTriggeringRunID :: string
  cdTriggeringScheduledFor :: go_time
  cdTriggeringEventID :: string
  cdRequestedAt :: go_time

record snapshot =
  snOrganizationID :: string
  snMonitorID :: string
  snState :: health_state
  snStableState :: health_state
  snPolicyVersion :: string
  snVersion :: int
  snSourceRevisionNumber :: int
  snLastScheduledFor :: go_time
  snLastDeterminateFinishedAt :: go_time
  snLastRunID :: string
  snLastRunScheduledFor :: go_time
  snCandidate :: "candidate option"
  snCounts :: counts
  snTransitionedAt :: go_time
  snUpdatedAt :: go_time

record health_input =
  inEventID :: string
  inRunID :: string
  inKind :: string
  inOutcome :: string
  inFailureCode :: string
  inRevisionNumber :: int
  inLatestRevisionNumber :: int
  inScheduledFor :: go_time
  inFinishedAt :: go_time
  inCandidateID :: string
  inNow :: go_time
  inNewCandidateID :: string

record decision =
  deSnapshot :: snapshot
  dePreviousState :: health_state
  deEvidence :: evidence
  deLate :: bool
  deSupersededRevision :: bool
  deIgnoredConfirmation :: bool
  deCandidateCreated :: "candidate option"
  deCandidateCompleted :: "candidate option"
  deTransitioned :: bool

definition HealthPolicyVersion :: string where "HealthPolicyVersion = ''phase1.v1''"

section \<open>Operations\<close>

definition health_initial :: "string \<Rightarrow> string \<Rightarrow> go_time \<Rightarrow> snapshot result" where
  "health_initial org mon now =
     (if org = '''' \<or> mon = '''' then
        Inl (ErrText ''health requires Organization and Monitor identity'')
      else if \<not> is_utc_location now then Inl (ErrText ''health timestamps must be UTC'')
      else Inr \<lparr>snOrganizationID = org, snMonitorID = mon, snState = StateUnknown,
        snStableState = StateUnknown, snPolicyVersion = HealthPolicyVersion, snVersion = 0,
        snSourceRevisionNumber = 0, snLastScheduledFor = zero_time,
        snLastDeterminateFinishedAt = zero_time, snLastRunID = '''',
        snLastRunScheduledFor = zero_time, snCandidate = None, snCounts = zero_counts,
        snTransitionedAt = now, snUpdatedAt = now\<rparr>)"

definition valid_state :: "health_state \<Rightarrow> bool" where
  "valid_state s \<longleftrightarrow> s = StateUnknown \<or> s = StateHealthy \<or> s = StateDegraded \<or> s = StateDown"

definition valid_stable_state :: "health_state \<Rightarrow> bool" where
  "valid_stable_state s \<longleftrightarrow> s = StateUnknown \<or> s = StateHealthy \<or> s = StateDown"

definition validate_snapshot :: "snapshot \<Rightarrow> unit result" where
  "validate_snapshot v =
     (if snOrganizationID v = '''' \<or> snMonitorID v = '''' then
        Inl (ErrText ''health requires Organization and Monitor identity'')
      else if snPolicyVersion v \<noteq> HealthPolicyVersion then
        Inl (ErrText ''unsupported health policy'')
      else if \<not> valid_state (snState v) \<or> \<not> valid_stable_state (snStableState v) \<or> snVersion v < 0 then
        Inl (ErrText ''invalid health state'')
      else Inr ())"

text \<open>\<open>Classify\<close>: which evidence a terminal Run is, from its kind, outcome and failure code.\<close>

definition failing_error_codes :: "string list" where
  "failing_error_codes =
     [''probe.http.redirect.tooMany'', ''probe.tls.certificateInvalid'', ''probe.transport.failed'',
      ''outbound.resolution.failed'', ''outbound.resolution.empty'', ''outbound.connect.failed'']"

definition classify :: "string \<Rightarrow> string \<Rightarrow> string \<Rightarrow> evidence" where
  "classify kind outcome code =
     (if kind = ''manual'' \<or> outcome = '''' \<or> outcome = ''cancelled'' \<or> outcome = ''skipped'' then
        EvidenceIndeterminate
      else if outcome = ''passed'' then
        (if code = '''' then EvidencePassing else EvidenceIndeterminate)
      else if outcome = ''failed'' then
        (if code = ''probe.http.status.unexpected'' then EvidenceFailing else EvidenceIndeterminate)
      else if outcome = ''timedout'' then
        (if code = ''probe.execution.timeout'' then EvidenceFailing else EvidenceIndeterminate)
      else if outcome = ''errored'' then
        (if code \<in> set failing_error_codes then EvidenceFailing
         else if code = ''outbound.address.mismatch'' then EvidenceLocationFault
         else EvidenceIndeterminate)
      else EvidenceIndeterminate)"

definition determinate :: "evidence \<Rightarrow> bool" where
  "determinate e \<longleftrightarrow> e = EvidencePassing \<or> e = EvidenceFailing"

definition set_state :: "decision \<Rightarrow> health_state \<Rightarrow> health_state \<Rightarrow> go_time \<Rightarrow> decision" where
  "set_state d state stb now =
     (let d' = (if snState (deSnapshot d) \<noteq> state then
          d\<lparr>deSnapshot := (deSnapshot d)\<lparr>snState := state, snVersion := snVersion (deSnapshot d) + 1,
              snTransitionedAt := now\<rparr>,
            deTransitioned := True\<rparr>
        else d)
      in d'\<lparr>deSnapshot := (deSnapshot d')\<lparr>snStableState := stb\<rparr>\<rparr>)"

definition begin_candidate ::
  "decision \<Rightarrow> health_input \<Rightarrow> direction \<Rightarrow> evidence \<Rightarrow> decision result" where
  "begin_candidate d i dir expected =
     (if inNewCandidateID i = '''' then
        Inl (ErrText ''a health transition candidate requires an identifier'')
      else
        let c = \<lparr>cdID = inNewCandidateID i, cdOrganizationID = snOrganizationID (deSnapshot d),
              cdMonitorID = snMonitorID (deSnapshot d), cdSourceRevisionNumber = inRevisionNumber i,
              cdDirection = dir, cdExpectedEvidence = expected, cdState = CandidatePending,
              cdTriggeringRunID = inRunID i, cdTriggeringScheduledFor = inScheduledFor i,
              cdTriggeringEventID = inEventID i, cdRequestedAt = inNow i\<rparr>;
            d' = d\<lparr>deSnapshot := (deSnapshot d)\<lparr>snCandidate := Some c\<rparr>, deCandidateCreated := Some c\<rparr>
        in Inr (set_state d' StateDegraded (snStableState (deSnapshot d')) (inNow i)))"

definition supersede_candidate :: "decision \<Rightarrow> decision" where
  "supersede_candidate d =
     (case snCandidate (deSnapshot d) of
        None \<Rightarrow> d
      | Some c \<Rightarrow> d\<lparr>deCandidateCompleted := Some (c\<lparr>cdState := CandidateSuperseded\<rparr>),
                    deSnapshot := (deSnapshot d)\<lparr>snCandidate := None\<rparr>\<rparr>)"

definition evaluate_scheduled :: "decision \<Rightarrow> health_input \<Rightarrow> decision result" where
  "evaluate_scheduled d0 i =
     (if \<not> determinate (deEvidence d0) then Inr d0
      else
        let d = supersede_candidate d0;
            stb = (if snState (deSnapshot d) \<noteq> StateDegraded then snState (deSnapshot d)
                      else snStableState (deSnapshot d))
        in case stb of
          StateUnknown \<Rightarrow>
            (if deEvidence d = EvidencePassing then Inr (set_state d StateHealthy StateHealthy (inNow i))
             else begin_candidate d i DirectionFailure EvidenceFailing)
        | StateHealthy \<Rightarrow>
            (if deEvidence d = EvidencePassing then Inr (set_state d StateHealthy StateHealthy (inNow i))
             else begin_candidate d i DirectionFailure EvidenceFailing)
        | StateDown \<Rightarrow>
            (if deEvidence d = EvidenceFailing then Inr (set_state d StateDown StateDown (inNow i))
             else begin_candidate d i DirectionRecovery EvidencePassing)
        | _ \<Rightarrow> Inl (ErrText ''health stable state cannot start evaluation''))"

definition evaluate_confirmation :: "decision \<Rightarrow> health_input \<Rightarrow> decision result" where
  "evaluate_confirmation d i =
     (case snCandidate (deSnapshot d) of
        None \<Rightarrow> Inr d
      | Some c \<Rightarrow>
        if inCandidateID i = '''' \<or> cdID c \<noteq> inCandidateID i \<or> cdState c \<noteq> CandidatePending then Inr d
        else if cdSourceRevisionNumber c \<noteq> inRevisionNumber i then Inr d
        else if \<not> determinate (deEvidence d) then Inr d
        else
          let d1 = d\<lparr>deSnapshot := (deSnapshot d)\<lparr>snCandidate := None\<rparr>\<rparr>
          in if deEvidence d1 = cdExpectedEvidence c then
               (case cdDirection c of
                  DirectionFailure \<Rightarrow>
                    Inr ((set_state d1 StateDown StateDown (inNow i))
                      \<lparr>deCandidateCompleted := Some (c\<lparr>cdState := CandidateConfirmed\<rparr>)\<rparr>)
                | DirectionRecovery \<Rightarrow>
                    Inr ((set_state d1 StateHealthy StateHealthy (inNow i))
                      \<lparr>deCandidateCompleted := Some (c\<lparr>cdState := CandidateConfirmed\<rparr>)\<rparr>)
                | DirectionOther _ \<Rightarrow> Inl (ErrText ''unknown health candidate direction''))
             else
               let stb = snStableState (deSnapshot d1)
               in Inr ((set_state d1 stb stb (inNow i))
                    \<lparr>deCandidateCompleted := Some (c\<lparr>cdState := CandidateContradicted\<rparr>)\<rparr>))"

text \<open>
  \<open>Evaluate\<close>. The guards that come before any evidence is used are \<open>evaluate_guards\<close>, the
  recording of the evidence is \<open>record_evidence\<close>.
\<close>

definition confirmation_applies :: "snapshot \<Rightarrow> health_input \<Rightarrow> bool" where
  "confirmation_applies s i \<longleftrightarrow>
     (case snCandidate s of
        None \<Rightarrow> False
      | Some c \<Rightarrow> \<not> (inCandidateID i = '''' \<or> cdID c \<noteq> inCandidateID i \<or> cdState c \<noteq> CandidatePending
                     \<or> cdSourceRevisionNumber c \<noteq> inRevisionNumber i))"

definition evaluate_guards :: "snapshot \<Rightarrow> health_input \<Rightarrow> unit result" where
  "evaluate_guards s i =
     (case validate_snapshot s of Inl e \<Rightarrow> Inl e | Inr _ \<Rightarrow>
      if inEventID i = '''' \<or> inRunID i = '''' \<or> inRevisionNumber i < 1 \<or> inLatestRevisionNumber i < 1
      then Inl (ErrText ''health evidence requires event, Run, and revision identity'')
      else if \<not> is_utc_location (inScheduledFor i)
        \<or> (\<not> is_zero (inFinishedAt i) \<and> \<not> is_utc_location (inFinishedAt i))
        \<or> \<not> is_utc_location (inNow i)
      then Inl (ErrText ''health evidence timestamps must be UTC'')
      else Inr ())"

definition record_evidence :: "decision \<Rightarrow> health_input \<Rightarrow> decision result" where
  "record_evidence d i =
     (let d1 = d\<lparr>deSnapshot := (deSnapshot d)\<lparr>snSourceRevisionNumber := inRevisionNumber i,
            snLastRunID := inRunID i, snLastRunScheduledFor := inScheduledFor i,
            snCounts := counts_for (deEvidence d)\<rparr>\<rparr>
      in if determinate (deEvidence d1) then
           (if is_zero (inFinishedAt i) then
              Inl (ErrText ''determinate health evidence requires a finish instant'')
            else Inr (d1\<lparr>deSnapshot := (deSnapshot d1)\<lparr>snLastDeterminateFinishedAt := inFinishedAt i\<rparr>\<rparr>))
         else Inr d1)"

definition start_decision :: "snapshot \<Rightarrow> health_input \<Rightarrow> decision" where
  "start_decision s i =
     \<lparr>deSnapshot = s\<lparr>snUpdatedAt := inNow i\<rparr>, dePreviousState = snState s,
      deEvidence = classify (inKind i) (inOutcome i) (inFailureCode i),
      deLate = False, deSupersededRevision = False, deIgnoredConfirmation = False,
      deCandidateCreated = None, deCandidateCompleted = None, deTransitioned = False\<rparr>"

definition note_schedule :: "decision \<Rightarrow> health_input \<Rightarrow> decision" where
  "note_schedule d i =
     (if inKind i = ''scheduled''
      then d\<lparr>deSnapshot := (deSnapshot d)\<lparr>snLastScheduledFor := inScheduledFor i\<rparr>\<rparr> else d)"

definition apply_evidence :: "decision \<Rightarrow> health_input \<Rightarrow> decision result" where
  "apply_evidence d i =
     (case record_evidence d i of Inl e \<Rightarrow> Inl e | Inr d1 \<Rightarrow>
      if inKind i = ''confirmation'' then evaluate_confirmation d1 i
      else if inKind i \<noteq> ''scheduled'' then Inr d1
      else evaluate_scheduled d1 i)"

definition evaluate :: "snapshot \<Rightarrow> health_input \<Rightarrow> decision result" where
  "evaluate s i =
     (case evaluate_guards s i of Inl e \<Rightarrow> Inl e | Inr _ \<Rightarrow>
      let d = start_decision s i
      in if inKind i = ''manual'' then Inr d
         else if inRevisionNumber i \<noteq> inLatestRevisionNumber i then
           Inr (d\<lparr>deSupersededRevision := True\<rparr>)
         else if inKind i = ''scheduled'' \<and> \<not> is_zero (snLastScheduledFor s)
              \<and> before (inScheduledFor i) (snLastScheduledFor s) then
           Inr (d\<lparr>deLate := True\<rparr>)
         else if inKind i = ''confirmation'' \<and> \<not> confirmation_applies s i then
           Inr ((note_schedule d i)\<lparr>deIgnoredConfirmation := True\<rparr>)
         else apply_evidence (note_schedule d i) i)"

text \<open>\<open>StaleAfter\<close> multiplies in 64 bits, so an interval beyond a third of the range wraps.\<close>

definition stale_after :: "duration \<Rightarrow> duration \<Rightarrow> duration result" where
  "stale_after interval ceiling =
     (if interval \<le> 0 \<or> ceiling \<le> 0 then
        Inl (ErrText ''health staleness requires positive interval and execution ceiling'')
      else
        let interval_bound = wrap64 (3 * interval); execution_bound = wrap64 (2 * ceiling)
        in if execution_bound > interval_bound then Inr execution_bound else Inr interval_bound)"

definition mark_stale :: "snapshot \<Rightarrow> go_time \<Rightarrow> decision result" where
  "mark_stale s now =
     (case validate_snapshot s of Inl e \<Rightarrow> Inl e | Inr _ \<Rightarrow>
      if \<not> is_utc_location now then Inl (ErrText ''health timestamps must be UTC'')
      else
        let d = \<lparr>deSnapshot = s, dePreviousState = snState s, deEvidence = EvidenceIndeterminate,
              deLate = False, deSupersededRevision = False, deIgnoredConfirmation = False,
              deCandidateCreated = None, deCandidateCompleted = None, deTransitioned = False\<rparr>
        in if snState s = StateUnknown then Inr d
           else
             let d1 = (case snCandidate s of None \<Rightarrow> d
                   | Some c \<Rightarrow> d\<lparr>deCandidateCompleted := Some (c\<lparr>cdState := CandidateStale\<rparr>),
                       deSnapshot := (deSnapshot d)\<lparr>snCandidate := None\<rparr>\<rparr>);
                 d2 = set_state d1 StateUnknown StateUnknown now
             in Inr (d2\<lparr>deSnapshot := (deSnapshot d2)\<lparr>snUpdatedAt := now,
                  snCounts := zero_counts\<lparr>cntConfigured := 1, cntEligible := 1, cntMissing := 1\<rparr>\<rparr>\<rparr>))"

section \<open>Invariant\<close>

text \<open>
  The snapshot is valid, and the visible state is \<open>degraded\<close> exactly while a pending candidate
  exists, whose direction and expected evidence fit the stable state it would leave. Without a
  candidate the visible state is the stable one.
\<close>

definition candidate_fits :: "snapshot \<Rightarrow> candidate \<Rightarrow> bool" where
  "candidate_fits s c \<longleftrightarrow> cdState c = CandidatePending
     \<and> cdOrganizationID c = snOrganizationID s \<and> cdMonitorID c = snMonitorID s
     \<and> (if snStableState s = StateDown
        then cdDirection c = DirectionRecovery \<and> cdExpectedEvidence c = EvidencePassing
        else cdDirection c = DirectionFailure \<and> cdExpectedEvidence c = EvidenceFailing)"

definition health_inv :: "snapshot \<Rightarrow> bool" where
  "health_inv s \<longleftrightarrow> validate_snapshot s = Inr () \<and>
     (case snCandidate s of
        None \<Rightarrow> snState s = snStableState s
      | Some c \<Rightarrow> snState s = StateDegraded \<and> candidate_fits s c)"

section \<open>The abstract automaton\<close>

text \<open>
  What the evaluation promises, without runs, revisions or identifiers: a stable state and
  whether a change of it is suspected. A scheduled determinate result either agrees with the
  stable state or raises the suspicion, only a confirmation can change a stable state that
  suspicion guards, and staleness forgets both.
\<close>

datatype health_event = ScheduledEvidence bool | ConfirmationEvidence bool | NoEvidence | WentStale

fun health_spec :: "health_state \<times> bool \<Rightarrow> health_event \<Rightarrow> health_state \<times> bool" where
  "health_spec (s, p) (ScheduledEvidence pass) =
     (if s = StateDown then (StateDown, pass)
      else if pass then (StateHealthy, False) else (s, True))"
| "health_spec (s, p) (ConfirmationEvidence pass) =
     (if s = StateDown then (if pass then StateHealthy else StateDown, False)
      else (if pass then s else StateDown, False))"
| "health_spec (s, p) NoEvidence = (s, p)"
| "health_spec (s, p) WentStale = (StateUnknown, False)"

definition health_abs :: "snapshot \<Rightarrow> health_state \<times> bool" where
  "health_abs s = (snStableState s, snCandidate s \<noteq> None)"

definition event_of :: "snapshot \<Rightarrow> health_input \<Rightarrow> health_event" where
  "event_of s i =
     (let e = classify (inKind i) (inOutcome i) (inFailureCode i)
      in if inKind i = ''manual'' \<or> inRevisionNumber i \<noteq> inLatestRevisionNumber i
            \<or> \<not> determinate e then NoEvidence
         else if inKind i = ''scheduled'' then
           (if \<not> is_zero (snLastScheduledFor s) \<and> before (inScheduledFor i) (snLastScheduledFor s)
            then NoEvidence else ScheduledEvidence (e = EvidencePassing))
         else if inKind i = ''confirmation'' \<and> confirmation_applies s i then
           ConfirmationEvidence (e = EvidencePassing)
         else NoEvidence)"

section \<open>Lemmas\<close>

lemma set_state_simps [simp]:
  "snState (deSnapshot (set_state d st sb t)) = st"
  "snStableState (deSnapshot (set_state d st sb t)) = sb"
  "snCandidate (deSnapshot (set_state d st sb t)) = snCandidate (deSnapshot d)"
  "snOrganizationID (deSnapshot (set_state d st sb t)) = snOrganizationID (deSnapshot d)"
  "snMonitorID (deSnapshot (set_state d st sb t)) = snMonitorID (deSnapshot d)"
  "snPolicyVersion (deSnapshot (set_state d st sb t)) = snPolicyVersion (deSnapshot d)"
  "snVersion (deSnapshot (set_state d st sb t)) =
     snVersion (deSnapshot d) + (if snState (deSnapshot d) = st then 0 else 1)"
  "deTransitioned (set_state d st sb t) \<longleftrightarrow> deTransitioned d \<or> snState (deSnapshot d) \<noteq> st"
  "dePreviousState (set_state d st sb t) = dePreviousState d"
  "deEvidence (set_state d st sb t) = deEvidence d"
  "deCandidateCreated (set_state d st sb t) = deCandidateCreated d"
  "deCandidateCompleted (set_state d st sb t) = deCandidateCompleted d"
  by (simp_all add: set_state_def Let_def)

lemma validate_snapshot_Inr: "validate_snapshot v = Inr u \<longleftrightarrow> snOrganizationID v \<noteq> '''' \<and> snMonitorID v \<noteq> ''''
    \<and> snPolicyVersion v = HealthPolicyVersion \<and> valid_state (snState v)
    \<and> valid_stable_state (snStableState v) \<and> 0 \<le> snVersion v"
  by (auto simp: validate_snapshot_def)

lemma health_inv_iff: "health_inv s \<longleftrightarrow> snOrganizationID s \<noteq> '''' \<and> snMonitorID s \<noteq> ''''
    \<and> snPolicyVersion s = HealthPolicyVersion \<and> valid_stable_state (snStableState s) \<and> 0 \<le> snVersion s
    \<and> (case snCandidate s of
        None \<Rightarrow> snState s = snStableState s
      | Some c \<Rightarrow> snState s = StateDegraded \<and> candidate_fits s c)"
  by (auto simp: health_inv_def validate_snapshot_Inr valid_state_def valid_stable_state_def
      split: option.splits)

text \<open>
  An intermediate decision of an evaluation that has recorded its evidence and not yet moved the
  state: its snapshot keeps what the invariant speaks of, and nothing is transitioned.
\<close>

definition untouched :: "snapshot \<Rightarrow> decision \<Rightarrow> bool" where
  "untouched s d \<longleftrightarrow> snOrganizationID (deSnapshot d) = snOrganizationID s
     \<and> snMonitorID (deSnapshot d) = snMonitorID s \<and> snPolicyVersion (deSnapshot d) = snPolicyVersion s
     \<and> snState (deSnapshot d) = snState s \<and> snStableState (deSnapshot d) = snStableState s
     \<and> snVersion (deSnapshot d) = snVersion s \<and> snCandidate (deSnapshot d) = snCandidate s
     \<and> \<not> deTransitioned d \<and> dePreviousState d = snState s \<and> deCandidateCreated d = None
     \<and> deCandidateCompleted d = None"

lemma untouched_simps:
  assumes "untouched s d"
  shows "snOrganizationID (deSnapshot d) = snOrganizationID s"
    "snMonitorID (deSnapshot d) = snMonitorID s"
    "snPolicyVersion (deSnapshot d) = snPolicyVersion s" "snState (deSnapshot d) = snState s"
    "snStableState (deSnapshot d) = snStableState s" "snVersion (deSnapshot d) = snVersion s"
    "snCandidate (deSnapshot d) = snCandidate s" "\<not> deTransitioned d"
    "dePreviousState d = snState s"
    "deCandidateCreated d = None" "deCandidateCompleted d = None"
  using assms by (simp_all add: untouched_def)

lemma untouched_inv: "untouched s d \<Longrightarrow> health_inv (deSnapshot d) = health_inv s"
  by (cases "snCandidate s") (simp_all add: health_inv_iff candidate_fits_def untouched_simps)

lemma untouched_abs: "untouched s d \<Longrightarrow> health_abs (deSnapshot d) = health_abs s"
  by (simp add: health_abs_def untouched_simps)

lemma untouched_start [simp]: "untouched s (start_decision s i)"
  by (simp add: untouched_def start_decision_def)

lemma untouched_flags [simp]:
  "untouched s (d\<lparr>deLate := a\<rparr>) = untouched s d"
  "untouched s (d\<lparr>deSupersededRevision := a\<rparr>) = untouched s d"
  "untouched s (d\<lparr>deIgnoredConfirmation := a\<rparr>) = untouched s d"
  "untouched s (note_schedule d i) = untouched s d"
  by (simp_all add: untouched_def note_schedule_def)

lemma evidence_kept [simp]:
  "deEvidence (note_schedule d i) = deEvidence d"
  "deEvidence (start_decision s i) = classify (inKind i) (inOutcome i) (inFailureCode i)"
  by (simp_all add: note_schedule_def start_decision_def)

lemma record_evidence_Inr:
  assumes "record_evidence d i = Inr d'"
  shows "untouched s d' = untouched s d" "deEvidence d' = deEvidence d"
  using assms by (auto simp: record_evidence_def untouched_def Let_def split: if_splits)

text \<open>What one evaluation or staleness step guarantees, for the abstract event it stands for.\<close>

definition moved :: "snapshot \<Rightarrow> decision \<Rightarrow> health_event \<Rightarrow> bool" where
  "moved s d ev \<longleftrightarrow> health_inv (deSnapshot d)
     \<and> health_abs (deSnapshot d) = health_spec (health_abs s) ev
     \<and> snVersion (deSnapshot d) = snVersion s + (if snState (deSnapshot d) = snState s then 0 else 1)
     \<and> (deTransitioned d \<longleftrightarrow> snState (deSnapshot d) \<noteq> snState s)
     \<and> dePreviousState d = snState s"

lemma moved_untouched: "health_inv s \<Longrightarrow> untouched s d \<Longrightarrow> moved s d NoEvidence"
  by (simp add: moved_def untouched_inv untouched_abs untouched_simps)
    (simp add: health_abs_def)

lemma supersede_candidate_simps [simp]:
  "snState (deSnapshot (supersede_candidate d)) = snState (deSnapshot d)"
  "snStableState (deSnapshot (supersede_candidate d)) = snStableState (deSnapshot d)"
  "snCandidate (deSnapshot (supersede_candidate d)) = None"
  "snOrganizationID (deSnapshot (supersede_candidate d)) = snOrganizationID (deSnapshot d)"
  "snMonitorID (deSnapshot (supersede_candidate d)) = snMonitorID (deSnapshot d)"
  "snPolicyVersion (deSnapshot (supersede_candidate d)) = snPolicyVersion (deSnapshot d)"
  "snVersion (deSnapshot (supersede_candidate d)) = snVersion (deSnapshot d)"
  "deTransitioned (supersede_candidate d) = deTransitioned d"
  "dePreviousState (supersede_candidate d) = dePreviousState d"
  "deEvidence (supersede_candidate d) = deEvidence d"
  by (simp_all add: supersede_candidate_def split: option.split)

lemma supersede_completed:
  "deCandidateCompleted (supersede_candidate d) = (case snCandidate (deSnapshot d) of
     None \<Rightarrow> deCandidateCompleted d | Some c \<Rightarrow> Some (c\<lparr>cdState := CandidateSuperseded\<rparr>))"
  by (simp add: supersede_candidate_def split: option.split)

definition new_candidate :: "decision \<Rightarrow> health_input \<Rightarrow> direction \<Rightarrow> evidence \<Rightarrow> candidate" where
  "new_candidate d i dir expected =
     \<lparr>cdID = inNewCandidateID i, cdOrganizationID = snOrganizationID (deSnapshot d),
      cdMonitorID = snMonitorID (deSnapshot d), cdSourceRevisionNumber = inRevisionNumber i,
      cdDirection = dir, cdExpectedEvidence = expected, cdState = CandidatePending,
      cdTriggeringRunID = inRunID i, cdTriggeringScheduledFor = inScheduledFor i,
      cdTriggeringEventID = inEventID i, cdRequestedAt = inNow i\<rparr>"

lemma begin_candidate_Inr:
  "begin_candidate d i dir e = Inr d' \<longleftrightarrow> inNewCandidateID i \<noteq> '''' \<and>
     d' = set_state (d\<lparr>deSnapshot := (deSnapshot d)\<lparr>snCandidate := Some (new_candidate d i dir e)\<rparr>,
       deCandidateCreated := Some (new_candidate d i dir e)\<rparr>)
       StateDegraded (snStableState (deSnapshot d)) (inNow i)"
  by (auto simp: begin_candidate_def new_candidate_def Let_def)

lemma moved_begin:
  assumes inv: "health_inv s" and u: "untouched s d"
    and b: "begin_candidate (supersede_candidate d) i dir e = Inr d'"
    and fits: "if snStableState s = StateDown
      then dir = DirectionRecovery \<and> e = EvidencePassing else dir = DirectionFailure \<and> e = EvidenceFailing"
    and spec: "health_spec (health_abs s) ev = (snStableState s, True)"
  shows "moved s d' ev"
  using b inv fits untouched_simps [OF u]
  by (auto simp: moved_def begin_candidate_Inr health_inv_iff candidate_fits_def new_candidate_def
      spec health_abs_def [of "deSnapshot _"])

lemma moved_stable:
  assumes inv: "health_inv s" and u: "untouched s d" and sb: "valid_stable_state sb"
    and c: "snCandidate (deSnapshot d1) = None" "snState (deSnapshot d1) = snState (deSnapshot d)"
      "snOrganizationID (deSnapshot d1) = snOrganizationID (deSnapshot d)"
      "snMonitorID (deSnapshot d1) = snMonitorID (deSnapshot d)"
      "snPolicyVersion (deSnapshot d1) = snPolicyVersion (deSnapshot d)"
      "snVersion (deSnapshot d1) = snVersion (deSnapshot d)"
      "deTransitioned d1 = deTransitioned d" "dePreviousState d1 = dePreviousState d"
    and spec: "health_spec (health_abs s) ev = (sb, False)"
  shows "moved s (set_state d1 sb sb t) ev"
  using inv sb untouched_simps [OF u]
  by (auto simp: moved_def health_inv_iff c spec health_abs_def [of "deSnapshot _"])

lemma stable_of_inv:
  assumes "health_inv s" and "untouched s d"
  shows "(if snState (deSnapshot d) \<noteq> StateDegraded then snState (deSnapshot d)
          else snStableState (deSnapshot d)) = snStableState s"
  using assms by (auto simp: untouched_simps health_inv_iff split: option.splits)

lemma evaluate_scheduled_moved:
  assumes inv: "health_inv s" and u: "untouched s d" and det: "determinate (deEvidence d)"
    and e: "evaluate_scheduled d i = Inr d'"
  shows "moved s d' (ScheduledEvidence (deEvidence d = EvidencePassing))"
proof -
  have ev: "deEvidence d = EvidencePassing \<or> deEvidence d = EvidenceFailing"
    using det by (simp add: determinate_def)
  have "valid_stable_state (snStableState s)" using inv by (simp add: health_inv_iff)
  then consider "snStableState s = StateUnknown" | "snStableState s = StateHealthy"
    | "snStableState s = StateDown" by (auto simp: valid_stable_state_def)
  then show ?thesis
    using e det ev stable_of_inv [OF inv u]
    by cases
      (auto simp: evaluate_scheduled_def Let_def health_abs_def valid_stable_state_def split: if_splits
        intro!: moved_stable [OF inv u] intro: moved_begin [OF inv u])
qed

lemma evaluate_confirmation_moved:
  assumes inv: "health_inv s" and u: "untouched s d" and det: "determinate (deEvidence d)"
    and app: "confirmation_applies s i" and e: "evaluate_confirmation d i = Inr d'"
  shows "moved s d' (ConfirmationEvidence (deEvidence d = EvidencePassing))"
proof -
  have ev: "deEvidence d = EvidencePassing \<or> deEvidence d = EvidenceFailing"
    using det by (simp add: determinate_def)
  obtain c where c: "snCandidate s = Some c" "inCandidateID i \<noteq> ''''" "cdID c = inCandidateID i"
    "cdState c = CandidatePending" "cdSourceRevisionNumber c = inRevisionNumber i"
    using app by (auto simp: confirmation_applies_def split: option.splits)
  have fits: "candidate_fits s c" "valid_stable_state (snStableState s)"
    using inv c by (simp_all add: health_inv_iff)
  define d1 where "d1 = d\<lparr>deSnapshot := (deSnapshot d)\<lparr>snCandidate := None\<rparr>\<rparr>"
  have done1: "moved s (x\<lparr>deCandidateCompleted := y\<rparr>) v = moved s x v" for x y v
    by (simp add: moved_def)
  have st: "moved s (set_state d1 sb sb (inNow i)) v"
    if "valid_stable_state sb" "health_spec (health_abs s) v = (sb, False)" for sb v
    by (rule moved_stable [OF inv u that(1) _ _ _ _ _ _ _ _ that(2)]) (simp_all add: d1_def)
  have vs: "valid_stable_state StateHealthy" "valid_stable_state StateDown"
    by (simp_all add: valid_stable_state_def)
  have e': "evaluate_confirmation d i = (if deEvidence d = cdExpectedEvidence c then
      (case cdDirection c of
         DirectionFailure \<Rightarrow> Inr ((set_state d1 StateDown StateDown (inNow i))
           \<lparr>deCandidateCompleted := Some (c\<lparr>cdState := CandidateConfirmed\<rparr>)\<rparr>)
       | DirectionRecovery \<Rightarrow> Inr ((set_state d1 StateHealthy StateHealthy (inNow i))
           \<lparr>deCandidateCompleted := Some (c\<lparr>cdState := CandidateConfirmed\<rparr>)\<rparr>)
       | DirectionOther _ \<Rightarrow> Inl (ErrText ''unknown health candidate direction''))
     else Inr ((set_state d1 (snStableState s) (snStableState s) (inNow i))
           \<lparr>deCandidateCompleted := Some (c\<lparr>cdState := CandidateContradicted\<rparr>)\<rparr>))"
    using det c u by (simp add: evaluate_confirmation_def untouched_simps d1_def Let_def cong: direction.case_cong)
  show ?thesis
  proof (cases "snStableState s = StateDown")
    case True
    then show ?thesis using e ev fits vs
      by (auto simp: e' candidate_fits_def done1 health_abs_def intro!: st split: if_splits)
  next
    case False
    then show ?thesis using e ev fits vs
      by (auto simp: e' candidate_fits_def done1 health_abs_def intro!: st split: if_splits)
  qed
qed

lemma apply_evidence_moved:
  assumes inv: "health_inv s" and u: "untouched s d" and e: "apply_evidence d i = Inr d'"
    and app: "inKind i = ''confirmation'' \<Longrightarrow> confirmation_applies s i"
  shows "moved s d' (if \<not> determinate (deEvidence d) then NoEvidence
    else if inKind i = ''scheduled'' then ScheduledEvidence (deEvidence d = EvidencePassing)
    else if inKind i = ''confirmation'' then ConfirmationEvidence (deEvidence d = EvidencePassing)
    else NoEvidence)"
proof -
  obtain d1 where r: "record_evidence d i = Inr d1"
    using e by (auto simp: apply_evidence_def split: sum.splits)
  note d1 = record_evidence_Inr [OF r]
  have u1: "untouched s d1" using u d1 by simp
  have e1: "(if inKind i = ''confirmation'' then evaluate_confirmation d1 i
      else if inKind i \<noteq> ''scheduled'' then Inr d1 else evaluate_scheduled d1 i) = Inr d'"
    using e r by (simp add: apply_evidence_def)
  show ?thesis
  proof (cases "determinate (deEvidence d)")
    case det: True
    consider "inKind i = ''scheduled''" | "inKind i = ''confirmation''"
      | "inKind i \<noteq> ''scheduled''" "inKind i \<noteq> ''confirmation''" by blast
    then show ?thesis
    proof cases
      case 1
      then show ?thesis
        using e1 det d1 evaluate_scheduled_moved [OF inv u1, of i d'] by simp
    next
      case 2
      then show ?thesis
        using e1 det d1 evaluate_confirmation_moved [OF inv u1 _ app, of d'] by simp
    next
      case 3
      then show ?thesis using e1 det moved_untouched [OF inv u1] by simp
    qed
  next
    case False
    have "d' = d1"
      using e1 False d1
      by (auto simp: evaluate_scheduled_def evaluate_confirmation_def split: if_splits option.splits)
    then show ?thesis using False moved_untouched [OF inv u1] by simp
  qed
qed

lemma evaluate_moved:
  assumes inv: "health_inv s" and e: "evaluate s i = Inr d"
  shows "moved s d (event_of s i)"
proof -
  let ?d = "start_decision s i"
  let ?late = "inKind i = ''scheduled'' \<and> \<not> is_zero (snLastScheduledFor s)
    \<and> before (inScheduledFor i) (snLastScheduledFor s)"
  let ?ign = "inKind i = ''confirmation'' \<and> \<not> confirmation_applies s i"
  have body: "(if inKind i = ''manual'' then Inr ?d
      else if inRevisionNumber i \<noteq> inLatestRevisionNumber i then Inr (?d\<lparr>deSupersededRevision := True\<rparr>)
      else if ?late then Inr (?d\<lparr>deLate := True\<rparr>)
      else if ?ign then Inr ((note_schedule ?d i)\<lparr>deIgnoredConfirmation := True\<rparr>)
      else apply_evidence (note_schedule ?d i) i) = Inr d"
    using e by (auto simp: evaluate_def Let_def split: sum.splits)
  show ?thesis
  proof (cases "inKind i = ''manual'' \<or> inRevisionNumber i \<noteq> inLatestRevisionNumber i \<or> ?late \<or> ?ign")
    case True
    then have "untouched s d" using body by (auto split: if_splits)
    moreover have "event_of s i = NoEvidence" using True by (auto simp: event_of_def Let_def)
    ultimately show ?thesis using moved_untouched [OF inv] by simp
  next
    case False
    then have ap: "apply_evidence (note_schedule ?d i) i = Inr d" using body by (simp split: if_splits)
    have u: "untouched s (note_schedule ?d i)" by simp
    have "confirmation_applies s i" if "inKind i = ''confirmation''" using False that by blast
    from apply_evidence_moved [OF inv u ap this] show ?thesis
      using False by (auto simp: event_of_def Let_def split: if_splits)
  qed
qed

lemma mark_stale_moved:
  assumes inv: "health_inv s" and e: "mark_stale s now = Inr d"
  shows "moved s d (if snState s = StateUnknown then NoEvidence else WentStale)"
proof (cases "snState s = StateUnknown")
  case True
  then have "untouched s d" using e
    by (auto simp: mark_stale_def untouched_def Let_def split: sum.splits if_splits)
  then show ?thesis using True moved_untouched [OF inv] by simp
next
  case False
  then show ?thesis using e inv
    by (cases "snCandidate s")
      (auto simp: mark_stale_def moved_def health_inv_iff health_abs_def valid_stable_state_def Let_def
        split: sum.splits if_splits)
qed

lemma health_initial_inv: "health_initial org mon now = Inr s \<Longrightarrow>
    health_inv s \<and> snVersion s = 0 \<and> snState s = StateUnknown \<and> health_abs s = (StateUnknown, False)"
  by (auto simp: health_initial_def health_inv_iff valid_stable_state_def health_abs_def split: if_splits)

section \<open>Histories\<close>

text \<open>
  The life of one Monitor's health: an initial snapshot and then evaluations and staleness
  sweeps, with the transitions they emit, oldest first.
\<close>

record health_change =
  hcOld :: health_state
  hcNew :: health_state
  hcVersion :: int

definition emitted :: "decision \<Rightarrow> health_change list" where
  "emitted d = (if deTransitioned d then
     [\<lparr>hcOld = dePreviousState d, hcNew = snState (deSnapshot d), hcVersion = snVersion (deSnapshot d)\<rparr>]
   else [])"

inductive health_history :: "snapshot \<Rightarrow> health_change list \<Rightarrow> bool" where
  initial: "health_initial org mon now = Inr s \<Longrightarrow> health_history s []"
| evaluated: "health_history s cs \<Longrightarrow> evaluate s i = Inr d \<Longrightarrow>
    health_history (deSnapshot d) (cs @ emitted d)"
| staled: "health_history s cs \<Longrightarrow> mark_stale s now = Inr d \<Longrightarrow>
    health_history (deSnapshot d) (cs @ emitted d)"

inductive_cases health_history_cases: "health_history s cs"

fun chained :: "health_state \<Rightarrow> int \<Rightarrow> health_change list \<Rightarrow> bool" where
  "chained st v [] = True"
| "chained st v (c # cs) =
     (hcOld c = st \<and> hcNew c \<noteq> st \<and> hcVersion c = v + 1 \<and> chained (hcNew c) (v + 1) cs)"

definition last_state :: "health_state \<Rightarrow> health_change list \<Rightarrow> health_state" where
  "last_state st cs = (if cs = [] then st else hcNew (last cs))"

lemma last_state_Cons [simp]: "last_state st (c # cs) = last_state (hcNew c) cs"
  by (simp add: last_state_def)

lemma last_state_Nil [simp]: "last_state st [] = st"
  by (simp add: last_state_def)

lemma chained_append:
  "chained st v (xs @ ys) \<longleftrightarrow> chained st v xs \<and> chained (last_state st xs) (v + int (length xs)) ys"
  by (induction xs arbitrary: st v) (auto simp: algebra_simps)

lemma last_state_append: "last_state st (xs @ ys) = last_state (last_state st xs) ys"
  by (induction xs arbitrary: st) auto

lemma moved_chain:
  assumes "moved s d ev" and "chained StateUnknown 0 cs"
    and "snState s = last_state StateUnknown cs" and "snVersion s = int (length cs)"
  shows "health_inv (deSnapshot d) \<and> chained StateUnknown 0 (cs @ emitted d)
    \<and> snState (deSnapshot d) = last_state StateUnknown (cs @ emitted d)
    \<and> snVersion (deSnapshot d) = int (length (cs @ emitted d))"
  using assms by (auto simp: moved_def emitted_def chained_append last_state_append)

lemma health_history_inv:
  "health_history s cs \<Longrightarrow> health_inv s \<and> chained StateUnknown 0 cs
     \<and> snState s = last_state StateUnknown cs \<and> snVersion s = int (length cs)"
proof (induction rule: health_history.induct)
  case (initial org mon now s)
  then show ?case using health_initial_inv by simp
next
  case (evaluated s cs i d)
  then show ?case using moved_chain [OF evaluate_moved] by blast
next
  case (staled s cs now d)
  then show ?case using moved_chain [OF mark_stale_moved] by blast
qed

lemma event_of_not_stale: "event_of s i \<noteq> WentStale"
  by (simp add: event_of_def Let_def)

lemma evaluate_never_stuck:
  assumes inv: "health_inv s" and g: "evaluate_guards s i = Inr ()"
    and fin: "\<not> is_zero (inFinishedAt i)" and new: "inNewCandidateID i \<noteq> ''''"
  shows "is_ok (evaluate s i)"
proof -
  have b: "is_ok (begin_candidate d i dir e)" for d dir e using new by (simp add: begin_candidate_def Let_def)
  have sch: "is_ok (evaluate_scheduled d i)" if u: "untouched s d" for d
    using inv stable_of_inv [OF inv u] b
    by (auto simp: evaluate_scheduled_def Let_def health_inv_iff valid_stable_state_def
        split: if_splits)
  have con: "is_ok (evaluate_confirmation d i)" if u: "untouched s d" for d
    using inv untouched_simps [OF u]
    by (auto simp: evaluate_confirmation_def Let_def health_inv_iff candidate_fits_def
        split: if_splits option.splits direction.splits)
  have "is_ok (apply_evidence d i)" if u: "untouched s d" for d
  proof -
    have "is_ok (record_evidence d i)" using fin by (simp add: record_evidence_def Let_def)
    then obtain d1 where r: "record_evidence d i = Inr d1" by (auto simp: is_ok_iff)
    then have "untouched s d1" using u record_evidence_Inr by blast
    then show ?thesis using r sch con by (simp add: apply_evidence_def)
  qed
  then have "is_ok (apply_evidence (note_schedule (start_decision s i) i) i)" by simp
  then show ?thesis using g by (simp add: evaluate_def Let_def)
qed

section \<open>Properties\<close>

definition health_time :: go_time where
  "health_time = \<lparr>nanos = 1700000000000000000, zone = UTC\<rparr>"

definition sample_snapshot :: snapshot where
  "sample_snapshot = \<lparr>snOrganizationID = ''org'', snMonitorID = ''mon'', snState = StateUnknown,
     snStableState = StateUnknown, snPolicyVersion = HealthPolicyVersion, snVersion = 0,
     snSourceRevisionNumber = 0, snLastScheduledFor = zero_time,
     snLastDeterminateFinishedAt = zero_time, snLastRunID = '''', snLastRunScheduledFor = zero_time,
     snCandidate = None, snCounts = zero_counts, snTransitionedAt = health_time,
     snUpdatedAt = health_time\<rparr>"

definition sample_input :: "string \<Rightarrow> string \<Rightarrow> string \<Rightarrow> health_input" where
  "sample_input kind outcome code = \<lparr>inEventID = ''e'', inRunID = ''r'', inKind = kind,
     inOutcome = outcome, inFailureCode = code, inRevisionNumber = 1, inLatestRevisionNumber = 1,
     inScheduledFor = health_time, inFinishedAt = health_time,
     inCandidateID = (if kind = ''confirmation'' then ''c'' else ''''), inNow = health_time,
     inNewCandidateID = ''c''\<rparr>"

lemma health_time_utc [simp]: "is_utc_location health_time" "\<not> is_zero health_time"
  by (simp_all add: is_utc_location_def health_time_def is_zero_def zero_nanos_def)

lemma sample_snapshot_initial: "health_initial ''org'' ''mon'' health_time = Inr sample_snapshot"
  by (simp add: health_initial_def sample_snapshot_def)

lemma sample_snapshot_inv: "health_inv sample_snapshot"
  using health_initial_inv [OF sample_snapshot_initial] by simp

lemma sample_guards: "evaluate_guards sample_snapshot (sample_input k oc cd) = Inr ()"
  by (simp add: evaluate_guards_def validate_snapshot_def sample_snapshot_def sample_input_def
      valid_state_def valid_stable_state_def)

text \<open>
  C3. Evaluating a Run implements the abstract automaton: from a snapshot that satisfies the
  invariant, every accepted evaluation gives a snapshot that satisfies it and whose stable state
  and suspicion are what the automaton computes from the event the Run stands for; manual, late,
  superseded, unmatched and indeterminate Runs are no event.
\<close>

theorem evaluate_refines_automaton:
  assumes "health_inv s" and "evaluate s i = Inr d"
  shows "health_inv (deSnapshot d)
    \<and> health_abs (deSnapshot d) = health_spec (health_abs s) (event_of s i)"
  using evaluate_moved [OF assms] by (simp add: moved_def)

theorem evaluate_refines_automaton_witness:
  "\<exists>d. evaluate sample_snapshot (sample_input ''scheduled'' ''passed'' '''') = Inr d
     \<and> health_abs (deSnapshot d) = (StateHealthy, False)"
proof -
  let ?i = "sample_input ''scheduled'' ''passed'' ''''"
  have "is_ok (evaluate sample_snapshot ?i)"
    by (rule evaluate_never_stuck [OF sample_snapshot_inv sample_guards])
      (simp_all add: sample_input_def)
  then obtain d where d: "evaluate sample_snapshot ?i = Inr d" by (auto simp: is_ok_iff)
  have "event_of sample_snapshot ?i = ScheduledEvidence True"
    by (simp add: event_of_def sample_input_def classify_def determinate_def Let_def sample_snapshot_def)
  moreover have "health_abs sample_snapshot = (StateUnknown, False)"
    by (simp add: health_abs_def sample_snapshot_def)
  ultimately show ?thesis
    using evaluate_refines_automaton [OF sample_snapshot_inv d] d by auto
qed


definition suspected_snapshot :: snapshot where
  "suspected_snapshot = sample_snapshot\<lparr>snState := StateDegraded, snVersion := 1,
     snCandidate := Some \<lparr>cdID = ''c'', cdOrganizationID = ''org'', cdMonitorID = ''mon'',
       cdSourceRevisionNumber = 1, cdDirection = DirectionFailure,
       cdExpectedEvidence = EvidenceFailing, cdState = CandidatePending,
       cdTriggeringRunID = ''r'', cdTriggeringScheduledFor = health_time,
       cdTriggeringEventID = ''e'', cdRequestedAt = health_time\<rparr>\<rparr>"

definition confirming_input :: health_input where
  "confirming_input = sample_input ''confirmation'' ''failed'' ''probe.http.status.unexpected''"

lemma suspected_inv: "health_inv suspected_snapshot"
  by (simp add: health_inv_iff suspected_snapshot_def sample_snapshot_def valid_stable_state_def
      candidate_fits_def)

lemma suspected_guards: "evaluate_guards suspected_snapshot confirming_input = Inr ()"
  by (simp add: evaluate_guards_def validate_snapshot_def suspected_snapshot_def sample_snapshot_def
      confirming_input_def sample_input_def valid_state_def valid_stable_state_def)

lemma suspected_evaluates:
  "\<exists>d. evaluate suspected_snapshot confirming_input = Inr d \<and> snStableState (deSnapshot d) = StateDown"
proof -
  have "is_ok (evaluate suspected_snapshot confirming_input)"
    by (rule evaluate_never_stuck [OF suspected_inv suspected_guards])
      (simp_all add: sample_input_def confirming_input_def)
  then obtain d where d: "evaluate suspected_snapshot confirming_input = Inr d"
    by (auto simp: is_ok_iff)
  have "event_of suspected_snapshot confirming_input = ConfirmationEvidence False"
    by (simp add: event_of_def confirming_input_def sample_input_def classify_def determinate_def
        Let_def suspected_snapshot_def confirmation_applies_def)
  moreover have "health_abs suspected_snapshot = (StateUnknown, True)"
    by (simp add: health_abs_def suspected_snapshot_def sample_snapshot_def)
  ultimately have "health_abs (deSnapshot d) = (StateDown, False)"
    using evaluate_moved [OF suspected_inv d] by (simp add: moved_def)
  then show ?thesis using d by (auto simp: health_abs_def)
qed


text \<open>
  Over the whole life of a Monitor, whatever Runs and staleness sweeps come, the transitions
  emitted are numbered 1, 2, 3 and so on, each starts in the state the previous one ended in and
  ends in another one, the snapshot's version is their number and its state is the last one's.
\<close>

theorem health_transitions_form_chain:
  assumes "health_history s cs"
  shows "health_inv s \<and> chained StateUnknown 0 cs \<and> snVersion s = int (length cs)
    \<and> snState s = last_state StateUnknown cs"
  using health_history_inv [OF assms] by blast

theorem health_transitions_form_chain_witness:
  "\<exists>d cs. evaluate sample_snapshot (sample_input ''scheduled'' ''passed'' '''') = Inr d
     \<and> health_history (deSnapshot d) cs \<and> snVersion (deSnapshot d) = int (length cs)"
proof -
  let ?i = "sample_input ''scheduled'' ''passed'' ''''"
  have "is_ok (evaluate sample_snapshot ?i)"
    by (rule evaluate_never_stuck [OF sample_snapshot_inv sample_guards])
      (simp_all add: sample_input_def)
  then obtain d where d: "evaluate sample_snapshot ?i = Inr d" by (auto simp: is_ok_iff)
  have h: "health_history (deSnapshot d) ([] @ emitted d)"
    using health_history.evaluated [OF health_history.initial [OF sample_snapshot_initial] d] .
  show ?thesis using d h health_transitions_form_chain [OF h] by blast
qed

text \<open>
  The staleness bound is the larger of three intervals and two execution ceilings whenever
  both products fit a \<open>Duration\<close>, and then it is positive and no shorter than either input; a
  non-positive input is refused.
\<close>

lemma stale_after_bound:
  assumes "fits64 (3 * i)" and "fits64 (2 * c)"
  shows "stale_after i c = (if i \<le> 0 \<or> c \<le> 0
      then Inl (ErrText ''health staleness requires positive interval and execution ceiling'')
      else Inr (max (3 * i) (2 * c)))"
  using assms by (simp add: stale_after_def Let_def max_def)

end
