(* ===== verification/Events.thy ===== *)
theory Events
  imports Json RunDomain Health
begin

text \<open>
  The internal fact events: \<open>RunRecordedV1\<close> (\<open>internal/run/events.go\<close>, read by
  \<open>internal/health/service.go\<close>), \<open>ConfirmationRequestedV1\<close> and \<open>HealthTransitionedV1\<close>
  (\<open>internal/health/service.go\<close>, read by \<open>cmd/probehive/events.go\<close> and
  \<open>internal/incident/incident.go\<close>) and \<open>IncidentTransitionedV1\<close> (\<open>internal/incident/incident.go\<close>,
  read by \<open>internal/alert/alert.go\<close>), with their JSON encodings and decodings.
\<close>

definition TopicRunRecordedV1 :: string where
  "TopicRunRecordedV1 = ''run.recorded.v1''"
definition TopicConfirmationRequestedV1 :: string where
  "TopicConfirmationRequestedV1 = ''run.confirmation.requested.v1''"
definition TopicHealthTransitionedV1 :: string where
  "TopicHealthTransitionedV1 = ''health.transitioned.v1''"
definition TopicIncidentTransitionedV1 :: string where
  "TopicIncidentTransitionedV1 = ''incident.transitioned.v1''"

record run_recorded =
  rrEventID :: string
  rrOrganizationID :: string
  rrOccurredAt :: go_time
  rrAggregateType :: string
  rrAggregateID :: string
  rrAggregateVersion :: int
  rrRunID :: string
  rrMonitorID :: string
  rrRevisionNumber :: int
  rrLocation :: string
  rrScheduledFor :: go_time
  rrKind :: string
  rrOutcome :: string

record confirmation_requested =
  cqEventID :: string
  cqOrganizationID :: string
  cqOccurredAt :: go_time
  cqAggregateType :: string
  cqAggregateID :: string
  cqAggregateVersion :: int
  cqCausationID :: string
  cqCandidateID :: string
  cqMonitorID :: string
  cqRevisionNumber :: int
  cqLocation :: string
  cqTriggeringRunID :: string
  cqTriggeringScheduledFor :: go_time
  cqRequestedFor :: go_time
  cqExpectedEvidence :: string
  cqPolicyVersion :: string

record health_transitioned =
  htEventID :: string
  htOrganizationID :: string
  htOccurredAt :: go_time
  htAggregateType :: string
  htAggregateID :: string
  htAggregateVersion :: int
  htCausationID :: string
  htTransitionID :: string
  htMonitorID :: string
  htOldState :: string
  htNewState :: string
  htPolicyVersion :: string

record incident_transitioned =
  itEventID :: string
  itOrganizationID :: string
  itOccurredAt :: go_time
  itAggregateType :: string
  itAggregateID :: string
  itAggregateVersion :: int
  itCausationID :: string
  itIncidentID :: string
  itMonitorID :: string
  itTransition :: string

section \<open>Encoding\<close>

definition encode_run_recorded :: "run_recorded \<Rightarrow> json option" where
  "encode_run_recorded e =
     (case json_instant (rrOccurredAt e) of None \<Rightarrow> None | Some occurred \<Rightarrow>
      case json_instant (rrScheduledFor e) of None \<Rightarrow> None | Some scheduled \<Rightarrow>
      Some (JObj [(''eventId'', JStr (rrEventID e)), (''organizationId'', JStr (rrOrganizationID e)),
        (''occurredAt'', occurred), (''aggregateType'', JStr (rrAggregateType e)),
        (''aggregateId'', JStr (rrAggregateID e)), (''aggregateVersion'', JNum (rrAggregateVersion e)),
        (''runId'', JStr (rrRunID e)), (''monitorId'', JStr (rrMonitorID e)),
        (''revisionNumber'', JNum (rrRevisionNumber e)), (''location'', JStr (rrLocation e)),
        (''scheduledFor'', scheduled), (''kind'', JStr (rrKind e)), (''outcome'', JStr (rrOutcome e))]))"

definition encode_confirmation_requested :: "confirmation_requested \<Rightarrow> json option" where
  "encode_confirmation_requested e =
     (case json_instant (cqOccurredAt e) of None \<Rightarrow> None | Some occurred \<Rightarrow>
      case json_instant (cqTriggeringScheduledFor e) of None \<Rightarrow> None | Some scheduled \<Rightarrow>
      case json_instant (cqRequestedFor e) of None \<Rightarrow> None | Some requested \<Rightarrow>
      Some (JObj [(''eventId'', JStr (cqEventID e)), (''organizationId'', JStr (cqOrganizationID e)),
        (''occurredAt'', occurred), (''aggregateType'', JStr (cqAggregateType e)),
        (''aggregateId'', JStr (cqAggregateID e)), (''aggregateVersion'', JNum (cqAggregateVersion e)),
        (''causationId'', JStr (cqCausationID e)), (''candidateId'', JStr (cqCandidateID e)),
        (''monitorId'', JStr (cqMonitorID e)), (''revisionNumber'', JNum (cqRevisionNumber e)),
        (''location'', JStr (cqLocation e)), (''triggeringRunId'', JStr (cqTriggeringRunID e)),
        (''triggeringScheduledFor'', scheduled), (''requestedFor'', requested),
        (''expectedEvidence'', JStr (cqExpectedEvidence e)),
        (''policyVersion'', JStr (cqPolicyVersion e))]))"

text \<open>The causation identifier is omitted when empty.\<close>

definition encode_health_transitioned :: "health_transitioned \<Rightarrow> json option" where
  "encode_health_transitioned e =
     (case json_instant (htOccurredAt e) of None \<Rightarrow> None | Some occurred \<Rightarrow>
      Some (JObj ([(''eventId'', JStr (htEventID e)), (''organizationId'', JStr (htOrganizationID e)),
        (''occurredAt'', occurred), (''aggregateType'', JStr (htAggregateType e)),
        (''aggregateId'', JStr (htAggregateID e)), (''aggregateVersion'', JNum (htAggregateVersion e))]
        @ (if htCausationID e = '''' then [] else [(''causationId'', JStr (htCausationID e))])
        @ [(''transitionId'', JStr (htTransitionID e)), (''monitorId'', JStr (htMonitorID e)),
        (''oldState'', JStr (htOldState e)), (''newState'', JStr (htNewState e)),
        (''policyVersion'', JStr (htPolicyVersion e))])))"

definition encode_incident_transitioned :: "incident_transitioned \<Rightarrow> json option" where
  "encode_incident_transitioned e =
     (case json_instant (itOccurredAt e) of None \<Rightarrow> None | Some occurred \<Rightarrow>
      Some (JObj [(''eventId'', JStr (itEventID e)), (''organizationId'', JStr (itOrganizationID e)),
        (''occurredAt'', occurred), (''aggregateType'', JStr (itAggregateType e)),
        (''aggregateId'', JStr (itAggregateID e)), (''aggregateVersion'', JNum (itAggregateVersion e)),
        (''causationId'', JStr (itCausationID e)), (''incidentId'', JStr (itIncidentID e)),
        (''monitorId'', JStr (itMonitorID e)), (''transition'', JStr (itTransition e))]))"

section \<open>Decoding\<close>

definition decode_run_recorded :: "json \<Rightarrow> run_recorded option" where
  "decode_run_recorded j =
     (Option.bind (struct_fields j) (\<lambda>fs.
      Option.bind (field_string ''eventId'' fs) (\<lambda>a.
      Option.bind (field_string ''organizationId'' fs) (\<lambda>b.
      Option.bind (field_instant ''occurredAt'' fs) (\<lambda>c.
      Option.bind (field_string ''aggregateType'' fs) (\<lambda>d.
      Option.bind (field_string ''aggregateId'' fs) (\<lambda>e.
      Option.bind (field_int ''aggregateVersion'' fs) (\<lambda>f.
      Option.bind (field_string ''runId'' fs) (\<lambda>g.
      Option.bind (field_string ''monitorId'' fs) (\<lambda>h.
      Option.bind (field_int ''revisionNumber'' fs) (\<lambda>i.
      Option.bind (field_string ''location'' fs) (\<lambda>k.
      Option.bind (field_instant ''scheduledFor'' fs) (\<lambda>l.
      Option.bind (field_string ''kind'' fs) (\<lambda>m.
      Option.bind (field_string ''outcome'' fs) (\<lambda>n.
      Some \<lparr>rrEventID = a, rrOrganizationID = b, rrOccurredAt = c, rrAggregateType = d,
        rrAggregateID = e, rrAggregateVersion = f, rrRunID = g, rrMonitorID = h,
        rrRevisionNumber = i, rrLocation = k, rrScheduledFor = l, rrKind = m, rrOutcome = n\<rparr>)))))))))))))))"

definition decode_confirmation_requested :: "json \<Rightarrow> confirmation_requested option" where
  "decode_confirmation_requested j =
     (Option.bind (struct_fields j) (\<lambda>fs.
      Option.bind (field_string ''eventId'' fs) (\<lambda>a.
      Option.bind (field_string ''organizationId'' fs) (\<lambda>b.
      Option.bind (field_instant ''occurredAt'' fs) (\<lambda>c.
      Option.bind (field_string ''aggregateType'' fs) (\<lambda>d.
      Option.bind (field_string ''aggregateId'' fs) (\<lambda>e.
      Option.bind (field_int ''aggregateVersion'' fs) (\<lambda>f.
      Option.bind (field_string ''causationId'' fs) (\<lambda>g.
      Option.bind (field_string ''candidateId'' fs) (\<lambda>h.
      Option.bind (field_string ''monitorId'' fs) (\<lambda>i.
      Option.bind (field_int ''revisionNumber'' fs) (\<lambda>k.
      Option.bind (field_string ''location'' fs) (\<lambda>l.
      Option.bind (field_string ''triggeringRunId'' fs) (\<lambda>m.
      Option.bind (field_instant ''triggeringScheduledFor'' fs) (\<lambda>n.
      Option.bind (field_instant ''requestedFor'' fs) (\<lambda>q.
      Option.bind (field_string ''expectedEvidence'' fs) (\<lambda>r.
      Option.bind (field_string ''policyVersion'' fs) (\<lambda>s.
      Some \<lparr>cqEventID = a, cqOrganizationID = b, cqOccurredAt = c, cqAggregateType = d,
        cqAggregateID = e, cqAggregateVersion = f, cqCausationID = g, cqCandidateID = h,
        cqMonitorID = i, cqRevisionNumber = k, cqLocation = l, cqTriggeringRunID = m,
        cqTriggeringScheduledFor = n, cqRequestedFor = q, cqExpectedEvidence = r,
        cqPolicyVersion = s\<rparr>))))))))))))))))))"

definition decode_health_transitioned :: "json \<Rightarrow> health_transitioned option" where
  "decode_health_transitioned j =
     (Option.bind (struct_fields j) (\<lambda>fs.
      Option.bind (field_string ''eventId'' fs) (\<lambda>a.
      Option.bind (field_string ''organizationId'' fs) (\<lambda>b.
      Option.bind (field_instant ''occurredAt'' fs) (\<lambda>c.
      Option.bind (field_string ''aggregateType'' fs) (\<lambda>d.
      Option.bind (field_string ''aggregateId'' fs) (\<lambda>e.
      Option.bind (field_int ''aggregateVersion'' fs) (\<lambda>f.
      Option.bind (field_string ''causationId'' fs) (\<lambda>g.
      Option.bind (field_string ''transitionId'' fs) (\<lambda>h.
      Option.bind (field_string ''monitorId'' fs) (\<lambda>i.
      Option.bind (field_string ''oldState'' fs) (\<lambda>k.
      Option.bind (field_string ''newState'' fs) (\<lambda>l.
      Option.bind (field_string ''policyVersion'' fs) (\<lambda>m.
      Some \<lparr>htEventID = a, htOrganizationID = b, htOccurredAt = c, htAggregateType = d,
        htAggregateID = e, htAggregateVersion = f, htCausationID = g, htTransitionID = h,
        htMonitorID = i, htOldState = k, htNewState = l, htPolicyVersion = m\<rparr>))))))))))))))"

definition decode_incident_transitioned :: "json \<Rightarrow> incident_transitioned option" where
  "decode_incident_transitioned j =
     (Option.bind (struct_fields j) (\<lambda>fs.
      Option.bind (field_string ''eventId'' fs) (\<lambda>a.
      Option.bind (field_string ''organizationId'' fs) (\<lambda>b.
      Option.bind (field_instant ''occurredAt'' fs) (\<lambda>c.
      Option.bind (field_string ''aggregateType'' fs) (\<lambda>d.
      Option.bind (field_string ''aggregateId'' fs) (\<lambda>e.
      Option.bind (field_int ''aggregateVersion'' fs) (\<lambda>f.
      Option.bind (field_string ''causationId'' fs) (\<lambda>g.
      Option.bind (field_string ''incidentId'' fs) (\<lambda>h.
      Option.bind (field_string ''monitorId'' fs) (\<lambda>i.
      Option.bind (field_string ''transition'' fs) (\<lambda>k.
      Some \<lparr>itEventID = a, itOrganizationID = b, itOccurredAt = c, itAggregateType = d,
        itAggregateID = e, itAggregateVersion = f, itCausationID = g, itIncidentID = h,
        itMonitorID = i, itTransition = k\<rparr>))))))))))))"

section \<open>Round trips\<close>

text \<open>
  What a UTC instant and a 64-bit number look like in a document, for an event the program
  builds: every instant it writes carries \<open>time.UTC\<close>.
\<close>

lemmas decode_simps = json_instant_Some to_utc_id ascii_lower_def

lemma decode_encode_run_recorded:
  assumes "encode_run_recorded e = Some j" and "zone (rrOccurredAt e) = UTC" and "zone (rrScheduledFor e) = UTC"
    and "fits64 (rrAggregateVersion e)" and "fits64 (rrRevisionNumber e)"
  shows "decode_run_recorded j = Some e"
  using assms
  by (auto simp: encode_run_recorded_def decode_run_recorded_def decode_simps split: option.splits)

lemma decode_encode_confirmation_requested:
  assumes "encode_confirmation_requested e = Some j" and "zone (cqOccurredAt e) = UTC"
    and "zone (cqTriggeringScheduledFor e) = UTC" and "zone (cqRequestedFor e) = UTC"
    and "fits64 (cqAggregateVersion e)" and "fits64 (cqRevisionNumber e)"
  shows "decode_confirmation_requested j = Some e"
  using assms
  by (auto simp: encode_confirmation_requested_def decode_confirmation_requested_def decode_simps
      split: option.splits)

lemma decode_encode_health_transitioned:
  assumes "encode_health_transitioned e = Some j" and "zone (htOccurredAt e) = UTC"
    and "fits64 (htAggregateVersion e)"
  shows "decode_health_transitioned j = Some e"
  using assms
  by (cases "htCausationID e = ''''")
    (auto simp: encode_health_transitioned_def decode_health_transitioned_def decode_simps
      split: option.splits)

lemma decode_encode_incident_transitioned:
  assumes "encode_incident_transitioned e = Some j" and "zone (itOccurredAt e) = UTC"
    and "fits64 (itAggregateVersion e)"
  shows "decode_incident_transitioned j = Some e"
  using assms
  by (auto simp: encode_incident_transitioned_def decode_incident_transitioned_def decode_simps
      split: option.splits)

end
