(* ===== verification/Database.thy ===== *)
theory Database
  imports Events
begin

text \<open>
  The PostgreSQL schema of \<open>internal/postgres/migrations\<close> as far as scheduling, health,
  incidents, alerts and the outbox use it: one record of rows per table, a nullable column an
  option, and one record of all tables. A statement that fails leaves the database as it was;
  a transaction is a function that returns the new database or the error that rolled it back.
  \<open>timestamptz\<close> keeps microseconds. Enumerated text columns use the datatypes of the domain.
\<close>

section \<open>Values\<close>

definition db_instant :: "go_time \<Rightarrow> go_time" where
  "db_instant t = \<lparr>nanos = nanos t div 1000 * 1000, zone = UTC\<rparr>"

definition null_time :: "go_time \<Rightarrow> go_time option" where
  "null_time t = (if is_zero t then None else Some (db_instant t))"

definition instant_value :: "go_time option \<Rightarrow> go_time" where
  "instant_value v = (case v of None \<Rightarrow> zero_time | Some t \<Rightarrow> to_utc t)"

definition text_value :: "string option \<Rightarrow> string" where
  "text_value v = (case v of None \<Rightarrow> '''' | Some t \<Rightarrow> t)"

definition text_pointer :: "string \<Rightarrow> string option" where
  "text_pointer s = (if s = '''' then None else Some s)"

text \<open>An instant a \<open>timestamptz\<close> column can hold exactly.\<close>

definition is_db_instant :: "go_time \<Rightarrow> bool" where
  "is_db_instant t \<longleftrightarrow> zone t = UTC \<and> nanos t mod 1000 = 0"

lemma db_instant_id: "is_db_instant t \<Longrightarrow> db_instant t = t"
  by (cases t) (auto simp: db_instant_def is_db_instant_def minus_mod_eq_div_mult [symmetric])

lemma is_db_instant_db_instant [simp]: "is_db_instant (db_instant t)"
  by (simp add: is_db_instant_def db_instant_def)

lemma zone_db_instant [simp]: "zone (db_instant t) = UTC"
  by (simp add: db_instant_def)

lemma db_instant_idem [simp]: "db_instant (db_instant t) = db_instant t"
  by (simp add: db_instant_id)

lemma to_utc_db_instant [simp]: "to_utc (db_instant t) = db_instant t"
  by (simp add: db_instant_def to_utc_def)

lemma db_instant_to_utc [simp]: "db_instant (to_utc t) = db_instant t"
  by (simp add: db_instant_def to_utc_def)

lemma instant_value_simps [simp]:
  "instant_value None = zero_time" "instant_value (Some t) = to_utc t"
  by (simp_all add: instant_value_def)

lemma text_value_simps [simp]: "text_value None = ''''" "text_value (Some s) = s"
  by (simp_all add: text_value_def)

lemma text_value_pointer [simp]: "text_value (text_pointer s) = s"
  by (simp add: text_pointer_def)

section \<open>Rows\<close>

record monitor_row =
  mrID :: string
  mrOrganizationID :: string
  mrName :: string
  mrCheckType :: string
  mrState :: string
  mrLatestRevision :: int
  mrIntervalSeconds :: int
  mrCreatedAt :: go_time
  mrUpdatedAt :: go_time
  mrXmin :: nat

record revision_row =
  rvID :: string
  rvMonitorID :: string
  rvOrganizationID :: string
  rvNumber :: int
  rvCheckType :: string
  rvCheckSchemaVersion :: int
  rvConfiguration :: string
  rvCreatedAt :: go_time

record run_row =
  rwID :: string
  rwOrganizationID :: string
  rwMonitorID :: string
  rwRevision :: int
  rwLocation :: string
  rwScheduledFor :: go_time
  rwKind :: run_kind
  rwOutcome :: "run_outcome option"
  rwStartedAt :: "go_time option"
  rwFinishedAt :: "go_time option"
  rwLeaseHolder :: "string option"
  rwLeaseExpiresAt :: "go_time option"
  rwCause :: "confirmation_cause option"

text \<open>The HTTP columns of an Observation are present or absent as a group, the TLS ones are single.\<close>

record http_columns =
  hcStatus :: int
  hcProtocol :: "string option"
  hcRedirects :: int
  hcBodyBytes :: int
  hcTruncated :: bool

record observation_row =
  owRunID :: string
  owScheduledFor :: go_time
  owOrganizationID :: string
  owFailureCode :: "string option"
  owFailureClass :: "string option"
  owDuration :: int
  owConnect :: int
  owTls :: int
  owFirstByte :: int
  owHttp :: "http_columns option"
  owTlsVersion :: "string option"
  owTlsCipher :: "string option"
  owTlsExpiresAt :: "go_time option"
  owCreatedAt :: go_time

record outbox_row =
  xwID :: string
  xwOrganizationID :: string
  xwTopic :: string
  xwPayload :: json
  xwAttempts :: int
  xwCreatedAt :: go_time
  xwAvailableAt :: go_time
  xwLeaseHolder :: "string option"
  xwLeaseExpiresAt :: "go_time option"
  xwLastFailureCode :: "string option"
  xwGapFirstSeenAt :: "go_time option"

record processed_row =
  pwID :: string
  pwOrganizationID :: string
  pwTopic :: string
  pwProcessedAt :: go_time

record dead_letter_row =
  dwID :: string
  dwOrganizationID :: string
  dwTopic :: string
  dwPayload :: json
  dwAttempts :: int
  dwCreatedAt :: go_time
  dwFailureCode :: string
  dwDeadLetteredAt :: go_time

record candidate_row =
  cwCandidate :: candidate
  cwConfirmation :: "(string \<times> go_time) option"
  cwCompletedAt :: "go_time option"

record health_row =
  hwMonitorID :: string
  hwOrganizationID :: string
  hwState :: health_state
  hwStableState :: health_state
  hwPolicyVersion :: string
  hwVersion :: int
  hwSourceRevision :: "int option"
  hwLastScheduledFor :: "go_time option"
  hwLastDeterminateFinishedAt :: "go_time option"
  hwLastRunID :: "string option"
  hwLastRunScheduledFor :: "go_time option"
  hwCandidateID :: "string option"
  hwCounts :: counts
  hwTransitionedAt :: go_time
  hwUpdatedAt :: go_time

record transition_row =
  twID :: string
  twOrganizationID :: string
  twMonitorID :: string
  twVersion :: int
  twOldState :: health_state
  twNewState :: health_state
  twPolicyVersion :: string
  twSourceRevision :: "int option"
  twCausalRun :: "(string \<times> go_time) option"
  twCounts :: counts
  twOccurredAt :: go_time

record cursor_row =
  kwOrganizationID :: string
  kwMonitorID :: string
  kwLastVersion :: int
  kwUpdatedAt :: go_time

datatype incident_state = IncidentOpen | IncidentAcknowledged | IncidentResolved

record incident_row =
  iwID :: string
  iwOrganizationID :: string
  iwMonitorID :: string
  iwState :: incident_state
  iwVersion :: int
  iwOpenedTransitionID :: string
  iwAcknowledged :: "(string \<times> go_time) option"
  iwResolved :: "(string \<times> go_time) option"
  iwCreatedAt :: go_time
  iwUpdatedAt :: go_time

datatype timeline_kind = TimelineOpened | TimelineAcknowledged | TimelineResolved

record timeline_row =
  lwID :: string
  lwOrganizationID :: string
  lwIncidentID :: string
  lwIncidentVersion :: int
  lwKind :: timeline_kind
  lwTransitionID :: "string option"
  lwActorUserID :: "string option"
  lwOldState :: "string option"
  lwNewState :: "string option"
  lwPolicyVersion :: "string option"
  lwCausalRun :: "(string \<times> go_time) option"
  lwCounts :: "counts option"
  lwOccurredAt :: go_time

record alert_row =
  awID :: string
  awOrganizationID :: string
  awMonitorID :: string
  awIncidentID :: string
  awIncidentVersion :: int
  awKind :: string
  awOccurredAt :: go_time
  awCreatedAt :: go_time

record window_row =
  nwID :: string
  nwOrganizationID :: string
  nwMonitorID :: string
  nwStartsAt :: go_time
  nwEndsAt :: go_time
  nwCreatedAt :: go_time
  nwCancelledAt :: "go_time option"
  nwXmin :: nat

record integration_row =
  giID :: string
  giOrganizationID :: string
  giName :: string
  giDestinationURL :: string
  giEnabled :: bool
  giVersion :: int
  giActiveSecretVersion :: int
  giCreatedAt :: go_time
  giUpdatedAt :: go_time

datatype secret_state = SecretPending | SecretActive | SecretRetiring | SecretRetired

text \<open>An encrypted secret; the bytes of the nonce and the ciphertext are kept as characters.\<close>

record envelope =
  envKeyID :: string
  envNonce :: string
  envCiphertext :: string

record secret_row =
  gsOrganizationID :: string
  gsIntegrationID :: string
  gsVersion :: int
  gsState :: secret_state
  gsEnvelope :: "envelope option"
  gsCreatedAt :: go_time
  gsActivatedAt :: "go_time option"
  gsRetiredAt :: "go_time option"

record delivery_row =
  vwID :: string
  vwOrganizationID :: string
  vwAlertID :: string
  vwIntegrationID :: string
  vwIntegrationVersion :: int
  vwSecretVersion :: int
  vwRoutedAt :: go_time
  vwAvailableAt :: go_time
  vwAttemptCount :: int
  vwLeaseHolder :: "string option"
  vwLeaseExpiresAt :: "go_time option"
  vwCompletedAt :: "go_time option"
  vwSuppressionReason :: "string option"
  vwWindowID :: "string option"

datatype attempt_outcome = AttemptInProgress | AttemptSucceeded | AttemptFailed | AttemptCancelled

record attempt_row =
  qwOrganizationID :: string
  qwDeliveryID :: string
  qwAlertID :: string
  qwIntegrationID :: string
  qwIntegrationVersion :: int
  qwSecretVersion :: int
  qwSequence :: int
  qwStartedAt :: go_time
  qwFinishedAt :: "go_time option"
  qwOutcome :: attempt_outcome
  qwHTTPStatus :: "int option"
  qwFailureCode :: "string option"

section \<open>The database\<close>

text \<open>
  \<open>dbXid\<close> is the next transaction identifier: a row whose table is read with its \<open>xmin\<close> carries
  the identifier of the transaction that last wrote it. Identifiers do not wrap around here.
  \<open>dbPartitions\<close> holds the ranges of scheduled instants, in nanoseconds, that have partitions of
  the \<open>runs\<close> and \<open>observations\<close> tables.
\<close>

record db =
  dbOrganizations :: "string list"
  dbUsers :: "string list"
  dbMonitors :: "monitor_row list"
  dbRevisions :: "revision_row list"
  dbPartitions :: "(int \<times> int) list"
  dbRuns :: "run_row list"
  dbObservations :: "observation_row list"
  dbOutbox :: "outbox_row list"
  dbProcessed :: "processed_row list"
  dbDeadLetters :: "dead_letter_row list"
  dbCandidates :: "candidate_row list"
  dbHealth :: "health_row list"
  dbTransitions :: "transition_row list"
  dbCursors :: "cursor_row list"
  dbIncidents :: "incident_row list"
  dbTimeline :: "timeline_row list"
  dbAlerts :: "alert_row list"
  dbXid :: nat
  dbWindows :: "window_row list"
  dbIntegrations :: "integration_row list"
  dbSecrets :: "secret_row list"
  dbDeliveries :: "delivery_row list"
  dbAttempts :: "attempt_row list"

text \<open>Running a transaction: commit its database, or roll back and report the error.\<close>

definition run_tx :: "(db \<Rightarrow> ('a \<times> db) result) \<Rightarrow> db \<Rightarrow> 'a result \<times> db" where
  "run_tx f d = (case f d of Inl e \<Rightarrow> (Inl e, d) | Inr (x, d') \<Rightarrow> (Inr x, d'))"

lemma run_tx_Inl: "run_tx f d = (Inl e, d') \<longleftrightarrow> f d = Inl e \<and> d' = d"
  by (auto simp: run_tx_def split: sum.splits)

lemma run_tx_Inr: "run_tx f d = (Inr x, d') \<longleftrightarrow> f d = Inr (x, d')"
  by (auto simp: run_tx_def split: sum.splits)

section \<open>The outbox tables\<close>

text \<open>
  \<open>insertOutboxEntry\<close> and \<open>insertRawOutbox\<close>: a fresh entry is available at once and has no
  attempt. The identifier is the primary key and the Organization must exist.
\<close>

definition fresh_outbox_row :: "string \<Rightarrow> string \<Rightarrow> string \<Rightarrow> json \<Rightarrow> go_time \<Rightarrow> outbox_row" where
  "fresh_outbox_row i org topic payload created =
     \<lparr>xwID = i, xwOrganizationID = org, xwTopic = topic, xwPayload = payload, xwAttempts = 0,
      xwCreatedAt = db_instant created, xwAvailableAt = db_instant created, xwLeaseHolder = None,
      xwLeaseExpiresAt = None, xwLastFailureCode = None, xwGapFirstSeenAt = None\<rparr>"

definition insert_raw_outbox ::
  "string \<Rightarrow> string \<Rightarrow> string \<Rightarrow> json \<Rightarrow> go_time \<Rightarrow> db \<Rightarrow> db result" where
  "insert_raw_outbox i org topic payload created d =
     (if (\<exists>x \<in> set (dbOutbox d). xwID x = i) \<or> org \<notin> set (dbOrganizations d) then
        Inl (ErrText ''insert outbox entry'')
      else Inr (d\<lparr>dbOutbox := dbOutbox d @ [fresh_outbox_row i org topic payload created]\<rparr>))"

definition outbox_event_processed :: "string \<Rightarrow> string \<Rightarrow> db \<Rightarrow> bool" where
  "outbox_event_processed i org d =
     sql_exists (\<lambda>p. pwID p = i \<and> pwOrganizationID p = org) (dbProcessed d)"

definition mark_outbox_event_processed ::
  "string \<Rightarrow> string \<Rightarrow> string \<Rightarrow> go_time \<Rightarrow> db \<Rightarrow> db result" where
  "mark_outbox_event_processed i org topic processed d =
     (if outbox_event_processed i org d then Inr d
      else if org \<notin> set (dbOrganizations d) then Inl (ErrText ''mark outbox event processed'')
      else Inr (d\<lparr>dbProcessed := dbProcessed d @ [\<lparr>pwID = i, pwOrganizationID = org, pwTopic = topic,
             pwProcessedAt = db_instant processed\<rparr>]\<rparr>))"

lemma insert_raw_outbox_Inr [store_simps]:
  "insert_raw_outbox i org topic payload created d = Inr d' \<longleftrightarrow>
     (\<forall>x \<in> set (dbOutbox d). xwID x \<noteq> i) \<and> org \<in> set (dbOrganizations d)
     \<and> d' = d\<lparr>dbOutbox := dbOutbox d @ [fresh_outbox_row i org topic payload created]\<rparr>"
  by (auto simp: insert_raw_outbox_def)

lemma mark_processed_Inr:
  assumes "mark_outbox_event_processed i org topic t d = Inr d'"
  shows "outbox_event_processed i org d'"
    and "\<exists>ps. d' = d\<lparr>dbProcessed := dbProcessed d @ ps\<rparr>"
  using assms
  by (auto simp: mark_outbox_event_processed_def outbox_event_processed_def split: if_splits
      intro: exI [of _ "[]"])

end
