(* ===== verification/Observation.thy ===== *)
theory Observation
  imports Events Database
begin

text \<open>
  Models \<open>internal/run/observation.go\<close> and \<open>internal/run/events.go\<close>: the stored detail of a
  Run, the outbox entry that must follow a committed Run, and the event built for one.
\<close>

section \<open>Data\<close>

record phases =
  phConnect :: duration
  phTLS :: duration
  phFirstByte :: duration

record tls_detail =
  tdVersion :: string
  tdCipherSuite :: string
  tdCertificateExpiresAt :: go_time

record http_detail =
  hdStatusCode :: int
  hdProtocol :: string
  hdRedirectCount :: int
  hdBodyBytes :: int
  hdBodyTruncated :: bool
  hdTLS :: "tls_detail option"

record observation =
  obRunID :: string
  obScheduledFor :: go_time
  obOrganizationID :: string
  obFailureCode :: string
  obFailureClass :: string
  obDuration :: duration
  obPhases :: phases
  obHTTP :: "http_detail option"

record outbox_entry =
  oeID :: string
  oeOrganizationID :: string
  oeTopic :: string
  oePayload :: "json option"
  oeCreatedAt :: go_time

definition MaxCodeLength :: nat where "MaxCodeLength = 100"
definition MaxProtocolLength :: nat where "MaxProtocolLength = 20"
definition MaxTLSFieldLength :: nat where "MaxTLSFieldLength = 64"
definition MaxTopicLength :: nat where "MaxTopicLength = 100"
definition MaxPayloadBytes :: nat where "MaxPayloadBytes = 16 * 1024"
definition MaxOutboxBatchSize :: nat where "MaxOutboxBatchSize = 32"

section \<open>Validation\<close>

definition http_detail_validate :: "http_detail \<Rightarrow> unit result" where
  "http_detail_validate v =
     (if hdStatusCode v < 100 \<or> hdStatusCode v > 599 then
        Inl (ErrText ''an HTTP status code is between 100 and 599'')
      else if length (hdProtocol v) > MaxProtocolLength then
        Inl (ErrText ''an HTTP protocol name is at most 20 bytes'')
      else if hdRedirectCount v < 0 then Inl (ErrText ''a redirect count cannot be negative'')
      else if hdBodyBytes v < 0 then Inl (ErrText ''a body size cannot be negative'')
      else case hdTLS v of
        None \<Rightarrow> Inr ()
      | Some t \<Rightarrow>
          if length (tdVersion t) > MaxTLSFieldLength \<or> length (tdCipherSuite t) > MaxTLSFieldLength then
            Inl (ErrText ''a TLS detail field is at most 64 bytes'')
          else if \<not> is_zero (tdCertificateExpiresAt t) \<and> \<not> is_utc (tdCertificateExpiresAt t) then
            Inl (ErrText ''a certificate expiry must be UTC'')
          else Inr ())"

definition observation_validate :: "observation \<Rightarrow> unit result" where
  "observation_validate v =
     (if obRunID v = '''' \<or> obOrganizationID v = '''' then
        Inl (ErrText ''an Observation requires Run and Organization identity'')
      else if \<not> is_utc (obScheduledFor v) then
        Inl (ErrText ''an Observation requires the UTC scheduled instant of its Run'')
      else if obDuration v < 0 then Inl (ErrText ''an Observation duration cannot be negative'')
      else if phConnect (obPhases v) < 0 \<or> phTLS (obPhases v) < 0 \<or> phFirstByte (obPhases v) < 0 then
        Inl (ErrText ''an Observation phase timing cannot be negative'')
      else if length (obFailureCode v) > MaxCodeLength \<or> length (obFailureClass v) > MaxCodeLength then
        Inl (ErrText ''an Observation code is at most 100 bytes'')
      else if obFailureClass v \<noteq> '''' \<and> obFailureCode v = '''' then
        Inl (ErrText ''an outbound denial class requires the code that carried it'')
      else case obHTTP v of None \<Rightarrow> Inr () | Some h \<Rightarrow> http_detail_validate h)"

text \<open>An empty payload is \<open>None\<close>; a document is valid JSON by construction.\<close>

definition outbox_entry_validate :: "outbox_entry \<Rightarrow> unit result" where
  "outbox_entry_validate v =
     (if oeID v = '''' \<or> oeOrganizationID v = '''' then
        Inl (ErrText ''an outbox entry requires identity and Organization scope'')
      else if oeTopic v = '''' \<or> length (oeTopic v) > MaxTopicLength then
        Inl (ErrText ''an outbox topic is 1 to 100 bytes'')
      else case oePayload v of
        None \<Rightarrow> Inl (ErrText ''an outbox entry requires a valid JSON payload'')
      | Some p \<Rightarrow>
          if json_len p > MaxPayloadBytes then Inl (ErrText ''an outbox payload is at most 16384 bytes'')
          else if \<not> is_utc (oeCreatedAt v) then
            Inl (ErrText ''an outbox entry requires a UTC creation instant'')
          else Inr ())"

section \<open>The event of a recorded Run\<close>

definition postgresTimePrecision :: duration where "postgresTimePrecision = 1000"

definition canonical_instant :: "go_time \<Rightarrow> go_time" where
  "canonical_instant t =
     (to_utc t)\<lparr>nanos := nanos t div postgresTimePrecision * postgresTimePrecision\<rparr>"

definition run_recorded_event :: "string \<Rightarrow> run \<Rightarrow> go_time \<Rightarrow> run_recorded" where
  "run_recorded_event i v occurred =
     \<lparr>rrEventID = i, rrOrganizationID = slOrganizationID (rSlot v), rrOccurredAt = occurred,
      rrAggregateType = ''run'', rrAggregateID = rID v, rrAggregateVersion = 1, rrRunID = rID v,
      rrMonitorID = slMonitorID (rSlot v), rrRevisionNumber = slRevisionNumber (rSlot v),
      rrLocation = slLocation (rSlot v),
      rrScheduledFor = canonical_instant (slScheduledFor (rSlot v)),
      rrKind = kind_text (rKind v), rrOutcome = outcome_text (rOutcome v)\<rparr>"

definition new_run_recorded_entry :: "string \<Rightarrow> run \<Rightarrow> go_time \<Rightarrow> outbox_entry result" where
  "new_run_recorded_entry i v occurred =
     (if i = '''' then Inl (ErrText ''a Run recorded event requires an identifier'')
      else if in_flight v then Inl (ErrText ''a Run recorded event requires a terminal Run'')
      else if \<not> is_utc occurred then
        Inl (ErrText ''a Run recorded event requires a UTC occurrence time'')
      else case encode_run_recorded (run_recorded_event i v occurred) of
        None \<Rightarrow> Inl (ErrText ''json: error calling MarshalJSON for type time.Time'')
      | Some payload \<Rightarrow>
          let entry = \<lparr>oeID = i, oeOrganizationID = slOrganizationID (rSlot v),
                oeTopic = TopicRunRecordedV1, oePayload = Some payload, oeCreatedAt = occurred\<rparr>
          in case outbox_entry_validate entry of Inl e \<Rightarrow> Inl e | Inr _ \<Rightarrow> Inr entry)"

section \<open>Lemmas\<close>

lemma canonical_instant_db: "canonical_instant t = db_instant t"
  by (simp add: canonical_instant_def db_instant_def postgresTimePrecision_def to_utc_def)

lemma new_run_recorded_entry_Inr:
  "new_run_recorded_entry i v occurred = Inr x \<longleftrightarrow>
     i \<noteq> '''' \<and> \<not> in_flight v \<and> is_utc occurred \<and> outbox_entry_validate x = Inr () \<and>
     (\<exists>p. encode_run_recorded (run_recorded_event i v occurred) = Some p \<and>
       x = \<lparr>oeID = i, oeOrganizationID = slOrganizationID (rSlot v),
            oeTopic = TopicRunRecordedV1, oePayload = Some p, oeCreatedAt = occurred\<rparr>)"
  by (auto simp: new_run_recorded_entry_def Let_def split: option.splits sum.splits)

lemma run_recorded_event_decodes:
  assumes "new_run_recorded_entry i v occurred = Inr x" and "zone occurred = UTC"
    and "fits64 (slRevisionNumber (rSlot v))"
  shows "\<exists>p. oePayload x = Some p \<and> decode_run_recorded p = Some (run_recorded_event i v occurred)"
  using assms
  by (auto simp: new_run_recorded_entry_Inr run_recorded_event_def canonical_instant_db fits64_def
      intro!: decode_encode_run_recorded)

section \<open>Rows\<close>

text \<open>
  \<open>insertObservation\<close> and \<open>FindObservation\<close> of \<open>internal/postgres/run.go\<close>: durations are kept in
  whole microseconds, empty texts and an absent certificate expiry as NULL.
\<close>

definition microseconds :: "duration \<Rightarrow> int" where
  "microseconds d = go_div d 1000"

definition observation_to_row :: "observation \<Rightarrow> go_time \<Rightarrow> observation_row" where
  "observation_to_row v created =
     \<lparr>owRunID = obRunID v, owScheduledFor = db_instant (obScheduledFor v),
      owOrganizationID = obOrganizationID v, owFailureCode = text_pointer (obFailureCode v),
      owFailureClass = text_pointer (obFailureClass v), owDuration = microseconds (obDuration v),
      owConnect = microseconds (phConnect (obPhases v)), owTls = microseconds (phTLS (obPhases v)),
      owFirstByte = microseconds (phFirstByte (obPhases v)),
      owHttp = map_option (\<lambda>h. \<lparr>hcStatus = hdStatusCode h, hcProtocol = text_pointer (hdProtocol h),
        hcRedirects = hdRedirectCount h, hcBodyBytes = hdBodyBytes h,
        hcTruncated = hdBodyTruncated h\<rparr>) (obHTTP v),
      owTlsVersion = Option.bind (Option.bind (obHTTP v) hdTLS) (\<lambda>t. text_pointer (tdVersion t)),
      owTlsCipher = Option.bind (Option.bind (obHTTP v) hdTLS) (\<lambda>t. text_pointer (tdCipherSuite t)),
      owTlsExpiresAt = Option.bind (Option.bind (obHTTP v) hdTLS) (\<lambda>t. null_time (tdCertificateExpiresAt t)),
      owCreatedAt = db_instant created\<rparr>"

definition observation_of_row :: "observation_row \<Rightarrow> observation" where
  "observation_of_row w =
     \<lparr>obRunID = owRunID w, obScheduledFor = to_utc (owScheduledFor w),
      obOrganizationID = owOrganizationID w, obFailureCode = text_value (owFailureCode w),
      obFailureClass = text_value (owFailureClass w), obDuration = owDuration w * 1000,
      obPhases = \<lparr>phConnect = owConnect w * 1000, phTLS = owTls w * 1000,
        phFirstByte = owFirstByte w * 1000\<rparr>,
      obHTTP = map_option (\<lambda>h. \<lparr>hdStatusCode = hcStatus h, hdProtocol = text_value (hcProtocol h),
        hdRedirectCount = hcRedirects h, hdBodyBytes = hcBodyBytes h, hdBodyTruncated = hcTruncated h,
        hdTLS = (if owTlsVersion w \<noteq> None \<or> owTlsCipher w \<noteq> None \<or> owTlsExpiresAt w \<noteq> None then
          Some \<lparr>tdVersion = text_value (owTlsVersion w), tdCipherSuite = text_value (owTlsCipher w),
            tdCertificateExpiresAt = instant_value (owTlsExpiresAt w)\<rparr> else None)\<rparr>) (owHttp w)\<rparr>"

text \<open>
  What storing an Observation keeps: durations to the microsecond, the instants the columns can
  hold, and the TLS group unless all three of its fields are empty.
\<close>

definition trunc_micro :: "duration \<Rightarrow> duration" where
  "trunc_micro d = d div 1000 * 1000"

definition stored_tls :: "tls_detail \<Rightarrow> tls_detail option" where
  "stored_tls t =
     (if tdVersion t = '''' \<and> tdCipherSuite t = '''' \<and> is_zero (tdCertificateExpiresAt t) then None
      else Some (t\<lparr>tdCertificateExpiresAt :=
        (if is_zero (tdCertificateExpiresAt t) then zero_time else db_instant (tdCertificateExpiresAt t))\<rparr>))"

definition stored_observation :: "observation \<Rightarrow> observation" where
  "stored_observation v = v\<lparr>obScheduledFor := db_instant (obScheduledFor v),
     obDuration := trunc_micro (obDuration v),
     obPhases := \<lparr>phConnect = trunc_micro (phConnect (obPhases v)),
       phTLS = trunc_micro (phTLS (obPhases v)), phFirstByte = trunc_micro (phFirstByte (obPhases v))\<rparr>,
     obHTTP := map_option (\<lambda>h. h\<lparr>hdTLS := Option.bind (hdTLS h) stored_tls\<rparr>) (obHTTP v)\<rparr>"

lemma microseconds_back: "0 \<le> d \<Longrightarrow> microseconds d * 1000 = trunc_micro d"
  by (simp add: microseconds_def trunc_micro_def go_div_pos)

lemma text_pointer_None [simp]: "(text_pointer s = None) = (s = '''')" "(None = text_pointer s) = (s = '''')"
  by (auto simp: text_pointer_def)

lemma null_time_None [simp]: "(null_time t = None) = is_zero t"
  by (simp add: null_time_def)

lemma stored_tls_eq:
  "stored_tls t = (if tdVersion t = '''' \<and> tdCipherSuite t = '''' \<and> is_zero (tdCertificateExpiresAt t)
     then None
     else Some \<lparr>tdVersion = tdVersion t, tdCipherSuite = tdCipherSuite t,
       tdCertificateExpiresAt = instant_value (null_time (tdCertificateExpiresAt t))\<rparr>)"
  by (cases t) (simp add: stored_tls_def null_time_def)

text \<open>
  An Observation that validation accepts reads back from its row as it was, up to the
  microsecond precision of the columns and the one case the columns cannot represent, a TLS
  detail whose three fields are all empty.
\<close>

theorem observation_row_roundtrip:
  assumes "observation_validate v = Inr ()"
  shows "observation_of_row (observation_to_row v created) = stored_observation v"
proof -
  have nonneg: "0 \<le> obDuration v" "0 \<le> phConnect (obPhases v)" "0 \<le> phTLS (obPhases v)"
    "0 \<le> phFirstByte (obPhases v)"
    using assms by (auto simp: observation_validate_def split: if_splits)
  show ?thesis
  proof (cases "obHTTP v")
    case None
    then show ?thesis using nonneg
      by (simp add: observation_of_row_def observation_to_row_def stored_observation_def
          microseconds_back)
  next
    case (Some h)
    have http: "obHTTP (observation_of_row (observation_to_row v created))
        = Some (h\<lparr>hdTLS := Option.bind (hdTLS h) stored_tls\<rparr>)"
      using Some
      by (cases h; cases "hdTLS h")
        (auto simp: observation_of_row_def observation_to_row_def stored_tls_eq)
    show ?thesis
      by (rule observation.equality)
        (use http Some nonneg in \<open>simp_all add: observation_of_row_def observation_to_row_def
          stored_observation_def microseconds_back\<close>)
  qed
qed

definition sample_observation :: observation where
  "sample_observation = \<lparr>obRunID = ''run-1'', obScheduledFor = \<lparr>nanos = 60000000000, zone = UTC\<rparr>,
     obOrganizationID = ''org'', obFailureCode = '''', obFailureClass = '''',
     obDuration = 1500, obPhases = \<lparr>phConnect = 1000, phTLS = 0, phFirstByte = 0\<rparr>,
     obHTTP = Some \<lparr>hdStatusCode = 200, hdProtocol = ''HTTP/1.1'', hdRedirectCount = 0,
       hdBodyBytes = 2, hdBodyTruncated = False, hdTLS = None\<rparr>\<rparr>"

lemma sample_observation_valid: "observation_validate sample_observation = Inr ()"
  by (simp add: observation_validate_def sample_observation_def http_detail_validate_def is_utc_def
      is_zero_def zero_nanos_def MaxCodeLength_def MaxProtocolLength_def)

theorem observation_row_roundtrip_witness:
  "obDuration (observation_of_row (observation_to_row sample_observation zero_time)) = 1000"
  using observation_row_roundtrip [OF sample_observation_valid, of zero_time]
  by (simp add: stored_observation_def sample_observation_def trunc_micro_def)

end
