(* ===== verification/RunPort.thy ===== *)
theory RunPort
  imports Observation
begin

text \<open>
  The persistence port of \<open>internal/run/scheduler.go\<close>: the operations of the Go interface
  \<open>Store\<close> as a record over an arbitrary store state, and the contract its clients rely on as a
  locale: a claim gives its holder an exclusive lease, a completion needs that lease, and a
  recorded outcome is final. What follows for any interleaving of workers is proved once here.
\<close>

record 's run_store =
  rsClaimSlot :: "'s \<Rightarrow> run \<Rightarrow> go_time \<Rightarrow> run result \<times> 's"
  rsReleaseSlot :: "'s \<Rightarrow> run \<Rightarrow> unit result \<times> 's"
  rsComplete :: "'s \<Rightarrow> run \<Rightarrow> string \<Rightarrow> observation \<Rightarrow> outbox_entry list \<Rightarrow> unit result \<times> 's"
  rsRecordSkipped :: "'s \<Rightarrow> run \<Rightarrow> outbox_entry list \<Rightarrow> go_time \<Rightarrow> unit result \<times> 's"

text \<open>Any call a worker makes on the store.\<close>

datatype store_call =
    CallClaim run go_time | CallRelease run
  | CallComplete run string observation "outbox_entry list"
  | CallSkip run "outbox_entry list" go_time

fun apply_call :: "'s run_store \<Rightarrow> store_call \<Rightarrow> 's \<Rightarrow> 's" where
  "apply_call st (CallClaim v now) s = snd (rsClaimSlot st s v now)"
| "apply_call st (CallRelease v) s = snd (rsReleaseSlot st s v)"
| "apply_call st (CallComplete v h x es) s = snd (rsComplete st s v h x es)"
| "apply_call st (CallSkip v es now) s = snd (rsRecordSkipped st s v es now)"

text \<open>Completion stamps the Observation with the Organization of the Run, as every worker does.\<close>

fun proper_call :: "store_call \<Rightarrow> bool" where
  "proper_call (CallComplete v h x es) = (obOrganizationID x = slOrganizationID (rSlot v))"
| "proper_call c = True"

definition run_ref :: "run \<Rightarrow> string \<times> go_time" where
  "run_ref v = (rID v, canonical_instant (slScheduledFor (rSlot v)))"

locale lease_store =
  fixes st :: "'s run_store"
    and ok :: "'s \<Rightarrow> bool"
    and recorded :: "'s \<Rightarrow> string \<times> go_time \<Rightarrow> run_outcome \<Rightarrow> bool"
    and leased :: "'s \<Rightarrow> string \<times> go_time \<Rightarrow> string \<Rightarrow> bool"
  assumes ok_step: "ok s \<Longrightarrow> proper_call c \<Longrightarrow> ok (apply_call st c s)"
    and recorded_step: "ok s \<Longrightarrow> recorded s k oc \<Longrightarrow> recorded (apply_call st c s) k oc"
    and claim_leases: "ok s \<Longrightarrow> rsClaimSlot st s v now = (Inr r, s') \<Longrightarrow>
      leased s' (run_ref r) (rLeaseHolder r) \<and> rLeaseHolder r = rLeaseHolder v"
    and complete_needs_lease: "rsComplete st s v h x es = (Inr u, s') \<Longrightarrow>
      leased s (run_ref v) h \<and> recorded s' (run_ref v) (rOutcome v)"
    and complete_error: "rsComplete st s v h x es = (Inl e, s') \<Longrightarrow> s' = s"
    and lease_exclusive: "ok s \<Longrightarrow> leased s k h \<Longrightarrow> leased s k h' \<Longrightarrow> h = h'"
    and recorded_not_leased: "ok s \<Longrightarrow> recorded s k oc \<Longrightarrow> \<not> leased s k h"
    and recorded_unique: "ok s \<Longrightarrow> recorded s k oc \<Longrightarrow> recorded s k oc' \<Longrightarrow> oc = oc'"
begin

lemma ok_calls: "ok s \<Longrightarrow> \<forall>c \<in> set cs. proper_call c \<Longrightarrow> ok (fold (apply_call st) cs s)"
  by (induction cs arbitrary: s) (simp_all add: ok_step)

lemma recorded_calls:
  "ok s \<Longrightarrow> recorded s k oc \<Longrightarrow> \<forall>c \<in> set cs. proper_call c \<Longrightarrow> recorded (fold (apply_call st) cs s) k oc"
  by (induction cs arbitrary: s) (simp_all add: ok_step recorded_step)

lemma complete_refused:
  assumes "ok s" and "recorded s (run_ref v) oc \<or> (leased s (run_ref v) h' \<and> h' \<noteq> h)"
  shows "\<exists>e. rsComplete st s v h x es = (Inl e, s)"
proof -
  obtain r s' where r: "rsComplete st s v h x es = (r, s')" by fastforce
  show ?thesis
  proof (cases r)
    case (Inl e)
    then show ?thesis using r complete_error by blast
  next
    case (Inr u)
    then have "leased s (run_ref v) h" using r complete_needs_lease by blast
    then show ?thesis using assms recorded_not_leased lease_exclusive by blast
  qed
qed

lemma recorded_once:
  assumes "ok s" and "proper_call (CallComplete v h x es)"
    and c: "rsComplete st s v h x es = (Inr u, s1)" and cs: "\<forall>c \<in> set cs. proper_call c"
    and s2: "s2 = fold (apply_call st) cs s1" and ref: "run_ref v' = run_ref v"
  shows "recorded s2 (run_ref v) (rOutcome v) \<and> (\<exists>e. rsComplete st s2 v' h' x' es' = (Inl e, s2))"
proof -
  have ok1: "ok s1" using ok_step [OF assms(1,2)] c by simp
  have r2: "recorded s2 (run_ref v) (rOutcome v)"
    unfolding s2 by (rule recorded_calls [OF ok1 _ cs]) (use complete_needs_lease [OF c] in blast)
  have "ok s2" unfolding s2 by (rule ok_calls [OF ok1 cs])
  then show ?thesis using r2 complete_refused ref by metis
qed

lemma stale_holder_refused:
  assumes "ok s" and c: "rsClaimSlot st s v now = (Inr r, s1)" and ref: "run_ref v' = run_ref r"
    and h: "h \<noteq> rLeaseHolder v"
  shows "\<exists>e. rsComplete st s1 v' h x es = (Inl e, s1)"
proof -
  have "ok s1" using ok_step [OF assms(1), of "CallClaim v now"] c by simp
  then show ?thesis using claim_leases [OF assms(1) c] h ref complete_refused by metis
qed

end

end
