(* ===== verification/RunSchedule.thy ===== *)
theory RunSchedule
  imports RunDomain
begin

text \<open>
  Slot arithmetic of \<open>internal/run/schedule.go\<close>: the projection the scheduler acts on, the
  operator floor, the offset and slot series derived from a Monitor identifier, the walk over
  missed slots, and floor division. Also the execution bound of \<open>execution_slots.go\<close>.
\<close>

section \<open>Data and operations\<close>

record schedulable =
  shOrganizationID :: string
  shMonitorID :: string
  shRevisionNumber :: int
  shCheckType :: string
  shCheckSchemaVersion :: int
  shCheckConfiguration :: string
  shInterval :: duration
  shNotBefore :: go_time

definition schedulable_validate :: "schedulable \<Rightarrow> unit result" where
  "schedulable_validate v =
     (if shOrganizationID v = '''' \<or> shMonitorID v = '''' then
        Inl (ErrText ''a schedulable Monitor requires Organization and Monitor identity'')
      else if shRevisionNumber v < 1 then
        Inl (ErrText ''a schedulable Monitor requires a revision'')
      else if shCheckType v = '''' \<or> shCheckSchemaVersion v < 1 then
        Inl (ErrText ''a schedulable Monitor requires a versioned check type'')
      else if length (shCheckConfiguration v) = 0 then
        Inl (ErrText ''a schedulable Monitor requires check configuration'')
      else if shInterval v < second then
        Inl (ErrText ''a schedulable Monitor requires a positive whole-second interval'')
      else Inr ())"

definition effective_interval :: "duration \<Rightarrow> duration \<Rightarrow> duration" where
  "effective_interval configured operator_minimum =
     (if operator_minimum > configured then operator_minimum else configured)"

definition slot_offset :: "string \<Rightarrow> duration \<Rightarrow> duration" where
  "slot_offset monitor_id interval =
     (let seconds = go_div interval second
      in if seconds \<le> 0 then 0
         else wrap64 (uint (fnv64a monitor_id mod word_of_int seconds) * second))"

definition floor_div :: "int \<Rightarrow> int \<Rightarrow> int" where
  "floor_div dividend divisor =
     (let quotient = go_div dividend divisor
      in if go_mod dividend divisor \<noteq> 0 \<and> ((dividend < 0) \<noteq> (divisor < 0)) then quotient - 1
         else quotient)"

definition slot_for :: "string \<Rightarrow> duration \<Rightarrow> go_time \<Rightarrow> go_time result" where
  "slot_for monitor_id interval now =
     (let seconds = go_div interval second
      in if seconds \<le> 0 \<or> go_mod interval second \<noteq> 0 then
           Inl (ErrText ''a slot interval is a positive whole number of seconds'')
         else
           let offset = go_div (slot_offset monitor_id interval) second;
               index = floor_div (unix (to_utc now) - offset) seconds
           in Inr (to_utc (time_unix (index * seconds + offset))))"

text \<open>The loop of \<open>MissedSlots\<close>: \<open>room\<close> is what is left of the limit.\<close>

fun missed_walk :: "nat \<Rightarrow> duration \<Rightarrow> go_time \<Rightarrow> go_time \<Rightarrow> go_time list" where
  "missed_walk 0 interval after_t candidate = []"
| "missed_walk (Suc room) interval after_t candidate =
     (if \<not> is_zero after_t \<and> \<not> after candidate after_t then []
      else candidate # missed_walk room interval after_t (time_add candidate (- interval)))"

definition missed_slots ::
  "string \<Rightarrow> duration \<Rightarrow> go_time \<Rightarrow> go_time \<Rightarrow> int \<Rightarrow> go_time list result" where
  "missed_slots monitor_id interval current after_t limit =
     (if limit < 1 then Inr []
      else let seconds = go_div interval second
        in if seconds \<le> 0 \<or> go_mod interval second \<noteq> 0 then
             Inl (ErrText ''a slot interval is a positive whole number of seconds'')
           else Inr (missed_walk (nat limit) interval after_t (time_add current (- interval))))"

text \<open>
  The execution bound is a buffered channel: \<open>held\<close> tokens of \<open>capacity\<close>. \<open>Acquire\<close> takes a
  token at once when one is free, fails when the caller's context is done, and otherwise waits,
  which is the value \<open>None\<close>; a \<open>Release\<close> with no token in the channel waits as well.
\<close>

record execution_slots =
  esCapacity :: nat
  esHeld :: nat

definition new_execution_slots :: "int \<Rightarrow> execution_slots result" where
  "new_execution_slots capacity =
     (if capacity < 1 then Inl (ErrText ''execution concurrency must be positive'')
      else Inr \<lparr>esCapacity = nat capacity, esHeld = 0\<rparr>)"

definition try_acquire :: "execution_slots \<Rightarrow> bool \<times> execution_slots" where
  "try_acquire s =
     (if esHeld s < esCapacity s then (True, s\<lparr>esHeld := Suc (esHeld s)\<rparr>) else (False, s))"

definition acquire :: "bool \<Rightarrow> execution_slots \<Rightarrow> (unit result \<times> execution_slots) option" where
  "acquire ctx_done s =
     (if esHeld s < esCapacity s then Some (Inr (), s\<lparr>esHeld := Suc (esHeld s)\<rparr>)
      else if ctx_done then Some (Inl (ErrIs ContextDone), s)
      else None)"

definition release :: "execution_slots \<Rightarrow> execution_slots option" where
  "release s = (if esHeld s = 0 then None else Some (s\<lparr>esHeld := esHeld s - 1\<rparr>))"

section \<open>Lemmas\<close>

lemma floor_div_eq: "0 < d \<Longrightarrow> floor_div a d = a div d"
proof (cases "0 \<le> a")
  case True
  assume "0 < d"
  with True show ?thesis by (simp add: floor_div_def go_div_pos)
next
  case False
  assume d: "0 < d"
  have "a div d = (if (- a) mod d = 0 then - ((- a) div d) else - ((- a) div d) - 1)"
    using zdiv_zminus1_eq_if [of d "- a"] d by simp
  moreover have "go_mod a d = - ((- a) mod d)"
    using False d by (simp add: go_mod_def go_div_neg minus_mod_eq_div_mult [symmetric])
  ultimately show ?thesis
    using False d by (simp add: floor_div_def go_div_neg Let_def)
qed

definition valid_interval :: "duration \<Rightarrow> bool" where
  "valid_interval i \<longleftrightarrow> second \<le> i \<and> second dvd i \<and> fits64 i"

lemma second_pos [simp]: "0 < second" "0 \<le> second" "second \<noteq> 0"
  by (simp_all add: second_def)

lemma valid_intervalE:
  assumes "valid_interval i"
  obtains s where "i = s * second" "1 \<le> s" "s < 2 ^ 63" "go_div i second = s" "go_mod i second = 0"
proof -
  from assms obtain s where s: "i = second * s" by (auto simp: valid_interval_def)
  from assms s have "1 \<le> s" by (simp add: valid_interval_def second_def)
  moreover from this assms s have "s < 2 ^ 63"
    by (simp add: valid_interval_def fits64_def second_def)
  moreover from \<open>1 \<le> s\<close> s have "go_div i second = s" "go_mod i second = 0"
    by (simp_all add: go_div_pos go_mod_pos)
  ultimately show ?thesis using that [of s] s by (simp add: mult.commute)
qed

lemma uint_mod_of_int:
  "0 < s \<Longrightarrow> s < 2 ^ 64 \<Longrightarrow> uint ((h :: u64) mod word_of_int s) = uint h mod s"
  by (simp add: uint_mod uint_word_of_int)

lemma slot_offset_seconds:
  assumes "i = s * second" "1 \<le> s" "go_div i second = s" "fits64 i"
  shows "slot_offset m i = (uint (fnv64a m) mod s) * second"
proof -
  have s64: "s < 2 ^ 64" using assms by (simp add: fits64_def second_def)
  have m: "0 \<le> uint (fnv64a m) mod s" "uint (fnv64a m) mod s < s"
    using assms(2) by simp_all
  have "fits64 ((uint (fnv64a m) mod s) * second)"
    using assms(1,4) m unfolding fits64_def second_def by linarith
  then show ?thesis
    using assms s64 by (simp add: slot_offset_def uint_mod_of_int)
qed

lemma slot_offset_bounds:
  assumes "valid_interval i"
  shows "0 \<le> slot_offset m i \<and> slot_offset m i < i \<and> second dvd slot_offset m i"
proof -
  obtain s where s: "i = s * second" "1 \<le> s" "go_div i second = s"
    using assms by (rule valid_intervalE)
  have "0 \<le> uint (fnv64a m) mod s" "uint (fnv64a m) mod s < s"
    using s(2) by simp_all
  then show ?thesis
    using slot_offset_seconds [OF s, of m] assms s(1) by (simp add: valid_interval_def second_def)
qed

lemma time_add_add [simp]: "time_add (time_add t a) b = time_add t (a + b)"
  by (simp add: time_add_def)

lemma slot_for_eq:
  assumes "valid_interval i"
  obtains s off where "i = s * second" "1 \<le> s" "0 \<le> off" "off < s" "slot_offset m i = off * second"
    "\<And>now. slot_for m i now = Inr (time_unix ((unix now - off) div s * s + off))"
proof -
  obtain s where s: "i = s * second" "1 \<le> s" "s < 2 ^ 63" "go_div i second = s" "go_mod i second = 0"
    using assms by (rule valid_intervalE)
  let ?off = "uint (fnv64a m) mod s"
  have off: "slot_offset m i = ?off * second"
    using s assms by (intro slot_offset_seconds) (simp_all add: valid_interval_def)
  have "go_div (slot_offset m i) second = ?off"
    using s(2) by (simp add: off go_div_pos)
  then have "slot_for m i now = Inr (time_unix ((unix now - ?off) div s * s + ?off))" for now
    using s by (simp add: slot_for_def floor_div_eq Let_def to_utc_def time_unix_def unix_def)
  then show ?thesis using that [of s ?off] s off by simp
qed

lemma unix_bounds: "unix t * second \<le> nanos t \<and> nanos t < (unix t + 1) * second"
  using div_window [of 1000000000 "nanos t"] by (simp add: unix_def second_def algebra_simps)

lemma slot_window:
  assumes "valid_interval i" "slot_for m i now = Inr t"
  shows "zone t = UTC \<and> nanos t \<le> nanos now \<and> nanos now < nanos t + i
    \<and> (\<exists>k. nanos t = slot_offset m i + k * i)"
proof -
  obtain s off where s: "i = s * second" "1 \<le> s" "slot_offset m i = off * second"
    and eq: "\<And>now. slot_for m i now = Inr (time_unix ((unix now - off) div s * s + off))"
    using assms(1) by (rule slot_for_eq [where m = m]) blast
  let ?k = "(unix now - off) div s"
  have t: "t = time_unix (?k * s + off)" using assms(2) eq by simp
  have "?k * s \<le> unix now - off" "unix now - off < ?k * s + s"
    using div_window [of s "unix now - off"] s(2) by simp_all
  then have "nanos t \<le> nanos now" "nanos now < nanos t + i"
    using unix_bounds [of now] t s(1) unfolding time_unix_def second_def by simp_all
  moreover have "nanos t = slot_offset m i + ?k * i"
    using t s by (simp add: time_unix_def second_def algebra_simps)
  ultimately show ?thesis using t by (auto simp: time_unix_def)
qed

lemma slot_for_ok: "valid_interval i \<Longrightarrow> \<exists>t. slot_for m i now = Inr t"
  by (rule slot_for_eq [where m = m]) auto

text \<open>Two multiples of the interval on the same series less than one interval apart are equal.\<close>

lemma same_series_eq:
  assumes "a = off + k * (i :: int)" "b = off + l * i" "\<bar>a - b\<bar> < i" "0 < i"
  shows "a = b"
proof (rule ccontr)
  assume "a \<noteq> b"
  then have "1 \<le> \<bar>k - l\<bar>" using assms(1,2) by auto
  then have "i \<le> \<bar>k - l\<bar> * i" using mult_right_mono [of 1 "\<bar>k - l\<bar>" i] assms(4) by simp
  also have "\<dots> = \<bar>a - b\<bar>" using assms by (simp add: abs_mult left_diff_distrib [symmetric])
  finally show False using assms(3) by simp
qed

lemma valid_interval_pos: "valid_interval i \<Longrightarrow> 0 < i"
  using second_pos by (auto simp: valid_interval_def)

lemma go_time_eqI: "nanos a = nanos b \<Longrightarrow> zone a = zone b \<Longrightarrow> a = (b :: go_time)"
  by simp

lemma slot_for_unique:
  assumes i: "valid_interval i" and t: "slot_for m i now = Inr t"
    and now': "nanos t \<le> nanos now'" "nanos now' < nanos t + i"
  shows "slot_for m i now' = Inr t"
proof -
  obtain u where u: "slot_for m i now' = Inr u" using slot_for_ok [OF i] by blast
  obtain k l where "nanos t = slot_offset m i + k * i" "nanos u = slot_offset m i + l * i"
    using slot_window [OF i t] slot_window [OF i u] by blast
  then have "nanos t = nanos u"
    by (rule same_series_eq)
      (use slot_window [OF i u] now' valid_interval_pos [OF i] in auto)
  then have "t = u"
    using slot_window [OF i t] slot_window [OF i u] by (intro go_time_eqI) simp_all
  with u show ?thesis by simp
qed

definition earlier :: "duration \<Rightarrow> go_time \<Rightarrow> nat \<Rightarrow> go_time" where
  "earlier i c k = time_add c (- (int k * i))"

lemma earlier_0 [simp]: "earlier i c 0 = c"
  by (simp add: earlier_def time_add_def)

lemma earlier_step [simp]: "earlier i (time_add c (- i)) k = earlier i c (Suc k)"
  by (simp add: earlier_def algebra_simps)

lemma nanos_earlier [simp]: "nanos (earlier i c k) = nanos c - int k * i"
  by (simp add: earlier_def)

lemma zone_earlier [simp]: "zone (earlier i c k) = zone c"
  by (simp add: earlier_def)

lemma missed_walk_eq:
  assumes "0 < i" "\<not> is_zero a"
  shows "missed_walk n i a c =
    map (earlier i c) [0..<min n (nat ((nanos c - nanos a - 1) div i + 1))]"
proof (induction n arbitrary: c)
  case 0
  then show ?case by simp
next
  case (Suc n)
  let ?q = "(nanos c - nanos a - 1) div i"
  have q: "(nanos (time_add c (- i)) - nanos a - 1) div i + 1 = ?q"
    using div_mult_self3 [of i "- 1" "nanos c - nanos a - 1"] assms(1)
    by (simp add: algebra_simps)
  show ?case
  proof (cases "nanos a < nanos c")
    case True
    then have "0 \<le> ?q" using assms(1) by (simp add: pos_imp_zdiv_nonneg_iff)
    then have "min (Suc n) (nat (?q + 1)) = Suc (min n (nat ?q))" by (simp add: nat_add_distrib)
    then show ?thesis
      using True assms(2) Suc.IH [of "time_add c (- i)"] q
      by (simp add: after_def map_upt_Suc del: upt_Suc)
  next
    case False
    then have "?q < 0" using assms(1) by (simp add: pos_imp_zdiv_neg_iff)
    then show ?thesis using False assms(2) by (simp add: after_def)
  qed
qed

lemma missed_walk_zero: "is_zero a \<Longrightarrow> missed_walk n i a c = map (earlier i c) [0..<n]"
  by (induction n arbitrary: c) (simp_all add: map_upt_Suc del: upt_Suc)

text \<open>How many slots lie strictly between \<open>a\<close> and \<open>c\<close>, with the limit.\<close>

definition missed_count :: "duration \<Rightarrow> go_time \<Rightarrow> go_time \<Rightarrow> nat \<Rightarrow> nat" where
  "missed_count i c a n = (if is_zero a then n else min n (nat ((nanos c - nanos a - 1) div i)))"

lemma missed_slots_eq:
  assumes i: "valid_interval i" and n: "1 \<le> n"
  shows "missed_slots m i c a n = Inr (map (\<lambda>k. earlier i c (Suc k)) [0..<missed_count i c a (nat n)])"
proof -
  have pos: "0 < i" using i by (rule valid_interval_pos)
  have "go_div i second > 0" "go_mod i second = 0"
    using i by (auto elim!: valid_intervalE)
  then have "missed_slots m i c a n = Inr (missed_walk (nat n) i a (time_add c (- i)))"
    using n by (simp add: missed_slots_def Let_def)
  moreover have "(nanos c - i - nanos a - 1) div i + 1 = (nanos c - nanos a - 1) div i"
    using div_mult_self3 [of i "- 1" "nanos c - nanos a - 1"] pos by (simp add: algebra_simps)
  ultimately show ?thesis
    by (cases "is_zero a")
      (simp_all add: missed_walk_zero missed_walk_eq [OF pos] missed_count_def)
qed

section \<open>The execution bound\<close>

text \<open>
  Workers that hold a token, as a step relation over the channel and the number of executions
  between an acquisition and its release.
\<close>

inductive slots_step :: "execution_slots \<times> nat \<Rightarrow> execution_slots \<times> nat \<Rightarrow> bool" where
  queued: "acquire d s = Some (Inr (), s') \<Longrightarrow> slots_step (s, n) (s', Suc n)"
| gave_up: "acquire d s = Some (Inl e, s') \<Longrightarrow> slots_step (s, n) (s', n)"
| tried: "try_acquire s = (True, s') \<Longrightarrow> slots_step (s, n) (s', Suc n)"
| refused: "try_acquire s = (False, s') \<Longrightarrow> slots_step (s, n) (s', n)"
| released: "release s = Some s' \<Longrightarrow> slots_step (s, Suc n) (s', n)"

inductive slots_reachable :: "nat \<Rightarrow> execution_slots \<times> nat \<Rightarrow> bool" for c where
  fresh: "new_execution_slots (int c) = Inr s \<Longrightarrow> slots_reachable c (s, 0)"
| step: "slots_reachable c x \<Longrightarrow> slots_step x y \<Longrightarrow> slots_reachable c y"

definition slots_inv :: "nat \<Rightarrow> execution_slots \<times> nat \<Rightarrow> bool" where
  "slots_inv c x \<longleftrightarrow> esCapacity (fst x) = c \<and> esHeld (fst x) = snd x \<and> snd x \<le> c"

lemma slots_step_inv: "slots_step x y \<Longrightarrow> slots_inv c x \<Longrightarrow> slots_inv c y"
  by (induction rule: slots_step.induct)
    (auto simp: slots_inv_def acquire_def try_acquire_def release_def split: if_splits)

lemma slots_reachable_inv: "slots_reachable c x \<Longrightarrow> slots_inv c x"
proof (induction rule: slots_reachable.induct)
  case (fresh s)
  then show ?case by (auto simp: new_execution_slots_def slots_inv_def split: if_splits)
qed (rule slots_step_inv)

section \<open>Properties\<close>

text \<open>
  For every valid interval the slot current at an instant exists, is on the series derived from
  the Monitor identifier, has already arrived and is the last one that has. Every worker that
  asks at any instant before the next slot derives the same instant.
\<close>

theorem slot_for_current_slot:
  assumes "valid_interval i"
  shows "\<exists>t k. slot_for m i now = Inr t \<and> zone t = UTC
    \<and> nanos t = slot_offset m i + k * i \<and> 0 \<le> slot_offset m i \<and> slot_offset m i < i
    \<and> nanos t \<le> nanos now \<and> nanos now < nanos t + i
    \<and> (\<forall>now'. nanos t \<le> nanos now' \<and> nanos now' < nanos t + i \<longrightarrow> slot_for m i now' = Inr t)"
proof -
  obtain t where t: "slot_for m i now = Inr t" using slot_for_ok [OF assms] by blast
  then show ?thesis
    using slot_window [OF assms t] slot_offset_bounds [OF assms, of m] slot_for_unique [OF assms t]
    by blast
qed

lemma minute_valid [simp]: "valid_interval (60 * second)"
  by (simp add: valid_interval_def second_def fits64_def)

theorem slot_for_current_slot_witness:
  "\<exists>t. slot_for ''mon'' (60 * second) sample_time = Inr t \<and> nanos t \<le> nanos sample_time
     \<and> nanos sample_time < nanos t + 60 * second"
  using slot_for_current_slot [OF minute_valid, of "''mon''" sample_time] by blast

text \<open>
  The missed slots are exactly the slots strictly between the last attempted instant and the
  current slot, newest first and one interval apart, cut at the limit; with no memory the whole
  limit is returned.
\<close>

theorem missed_slots_exact:
  assumes "valid_interval i" and "1 \<le> n"
  shows "\<exists>xs. missed_slots m i c a n = Inr xs \<and> length xs \<le> nat n
    \<and> (\<forall>k < length xs. nanos (xs ! k) = nanos c - int (Suc k) * i)
    \<and> (if is_zero a then length xs = nat n
       else (\<forall>x \<in> set xs. after x a \<and> before x c)
         \<and> (length xs < nat n \<longrightarrow> nanos c - int (Suc (length xs)) * i \<le> nanos a))"
proof -
  let ?m = "missed_count i c a (nat n)"
  let ?xs = "map (\<lambda>k. earlier i c (Suc k)) [0..<?m]"
  let ?q = "(nanos c - nanos a - 1) div i"
  have i: "0 < i" using assms(1) by (rule valid_interval_pos)
  have q: "?q * i \<le> nanos c - nanos a - 1" "nanos c - nanos a - 1 < ?q * i + i"
    using div_window [OF i, of "nanos c - nanos a - 1"] by (blast+)
  have in_gap: "after (earlier i c (Suc k)) a \<and> before (earlier i c (Suc k)) c"
    if "\<not> is_zero a" "k < ?m" for k
  proof -
    have "k < nat ?q" using that by (simp add: missed_count_def)
    then have "int (Suc k) \<le> ?q" by linarith
    then have "int (Suc k) * i \<le> ?q * i" using i by (intro mult_right_mono) simp_all
    moreover have "0 < int (Suc k) * i" using i by simp
    ultimately show ?thesis using q(1) by (simp only: after_def before_def nanos_earlier) linarith
  qed
  have complete: "nanos c - int (Suc ?m) * i \<le> nanos a" if "\<not> is_zero a" "?m < nat n"
  proof -
    have "?m = nat ?q" using that by (simp add: missed_count_def)
    then have "?q < int (Suc ?m)" by linarith
    then have "?q + 1 \<le> int (Suc ?m)" by linarith
    then have "(?q + 1) * i \<le> int (Suc ?m) * i" using i by (intro mult_right_mono) simp_all
    then show ?thesis using q(2) by (simp add: algebra_simps)
  qed
  have "missed_slots m i c a n = Inr ?xs" by (rule missed_slots_eq [OF assms])
  moreover have "\<forall>k < length ?xs. nanos (?xs ! k) = nanos c - int (Suc k) * i" by simp
  moreover have "length ?xs \<le> nat n" by (simp add: missed_count_def)
  moreover have "is_zero a \<Longrightarrow> length ?xs = nat n" by (simp add: missed_count_def)
  moreover have "\<not> is_zero a \<Longrightarrow> \<forall>x \<in> set ?xs. after x a \<and> before x c" using in_gap by auto
  ultimately show ?thesis using complete by (intro exI [of _ ?xs]) (simp del: of_nat_Suc)
qed

theorem missed_slots_exact_witness:
  "\<exists>xs. missed_slots ''mon'' (60 * second) sample_time zero_time 3 = Inr xs \<and> length xs = 3"
  using missed_slots_exact [OF minute_valid, of 3 "''mon''" sample_time zero_time] by force

text \<open>
  However acquisitions, refusals and releases interleave, the executions in progress never
  exceed the configured concurrency, and the channel holds one token for each of them.
\<close>

theorem execution_slots_bound:
  assumes "slots_reachable c (s, n)"
  shows "n \<le> c \<and> esHeld s = n"
  using slots_reachable_inv [OF assms] by (simp add: slots_inv_def)

theorem execution_slots_bound_witness:
  "slots_reachable 1 (\<lparr>esCapacity = 1, esHeld = 1\<rparr>, 1) \<and> (1 :: nat) \<le> 1"
proof -
  have "slots_reachable 1 (\<lparr>esCapacity = 1, esHeld = 0\<rparr>, 0)"
    by (rule slots_reachable.fresh) (simp add: new_execution_slots_def)
  then have r: "slots_reachable 1 (\<lparr>esCapacity = 1, esHeld = 1\<rparr>, 1)"
    by (rule slots_reachable.step)
      (use slots_step.tried [where n = 0] in \<open>force simp: try_acquire_def\<close>)
  show ?thesis using r execution_slots_bound [OF r] by simp
qed

end
