(* ===== verification/RunWorker.thy ===== *)
theory RunWorker
  imports RunPort RunSchedule
begin

text \<open>
  Models the workers of \<open>internal/run\<close>: the scheduler's plan, missed-slot recording and slot
  execution (\<open>scheduler.go\<close>), the manual trigger (\<open>manual.go\<close>) and the confirmation runner
  (\<open>confirmation.go\<close>). They act on any store through the port of \<open>RunPort\<close>. What surrounds a
  worker is a parameter: the identifiers the generator hands out (by the number of the call), the
  report of the executor, whether the context is done at each check, and what other workers do
  to the store while an execution runs.
\<close>

section \<open>Environment\<close>

record execution =
  exOutcome :: run_outcome
  exStartedAt :: go_time
  exFinishedAt :: go_time
  exObservation :: observation

record 's worker_env =
  weStore :: "'s run_store"
  weUUID :: "nat \<Rightarrow> go_time \<Rightarrow> string result"
  weExecute :: "string \<Rightarrow> int \<Rightarrow> string \<Rightarrow> execution"
  weMeanwhile :: "'s \<Rightarrow> 's"
  weContextDone :: "nat \<Rightarrow> bool"

record scheduler_config =
  scLocation :: string
  scMinimumInterval :: duration
  scExecutionCeiling :: duration
  scTickInterval :: duration
  scMaxBackfillSlots :: int
  scConcurrency :: int

definition DefaultTickInterval :: duration where "DefaultTickInterval = 5 * second"
definition DefaultMaxBackfillSlots :: int where "DefaultMaxBackfillSlots = 10"
definition DefaultConcurrency :: int where "DefaultConcurrency = 8"
definition DefaultLocation :: string where "DefaultLocation = ''local''"

text \<open>\<open>NewScheduler\<close> on the settings; the collaborators, checked for \<open>nil\<close> there, are the environment.\<close>

definition new_scheduler :: "scheduler_config \<Rightarrow> (scheduler_config \<times> execution_slots) result" where
  "new_scheduler c0 =
     (let c1 = (if scLocation c0 = '''' then c0\<lparr>scLocation := DefaultLocation\<rparr> else c0)
      in if length (scLocation c1) > MaxLocationLength then
           Inl (ErrText ''a Probe Location identifier is at most 63 bytes'')
         else if scExecutionCeiling c1 \<le> 0 then
           Inl (ErrText ''run.Scheduler requires a positive execution ceiling'')
         else if scMinimumInterval c1 < 0 then
           Inl (ErrText ''an operator interval floor cannot be negative'')
         else
           let c2 = (if scTickInterval c1 \<le> 0 then c1\<lparr>scTickInterval := DefaultTickInterval\<rparr> else c1);
               c3 = (if scMaxBackfillSlots c2 \<le> 0 then c2\<lparr>scMaxBackfillSlots := DefaultMaxBackfillSlots\<rparr> else c2);
               c4 = (if scConcurrency c3 \<le> 0 then c3\<lparr>scConcurrency := DefaultConcurrency\<rparr> else c3)
           in case new_execution_slots (scConcurrency c4) of
                Inl e \<Rightarrow> Inl e
              | Inr slots \<Rightarrow> Inr (c4, slots))"

section \<open>Planning\<close>

text \<open>
  \<open>plan\<close>: nothing when the Monitor cannot be scheduled, otherwise the slot now due (none when it
  was already attempted) and the last one attempted.
\<close>

type_synonym attempted = "string \<Rightarrow> go_time"

definition plan :: "scheduler_config \<Rightarrow> attempted \<Rightarrow> schedulable \<Rightarrow> go_time \<Rightarrow> (go_time \<times> go_time) option" where
  "plan c attempted s now =
     (case schedulable_validate s of Inl _ \<Rightarrow> None | Inr _ \<Rightarrow>
      case slot_for (shMonitorID s) (effective_interval (shInterval s) (scMinimumInterval c)) now of
        Inl _ \<Rightarrow> None
      | Inr current \<Rightarrow>
          let last = attempted (shMonitorID s)
          in if \<not> is_zero last \<and> \<not> after current last then Some (zero_time, last)
             else Some (current, last))"

section \<open>Running a slot\<close>

definition new_run ::
  "scheduler_config \<Rightarrow> string result \<Rightarrow> schedulable \<Rightarrow> go_time \<Rightarrow> string \<Rightarrow> go_time \<Rightarrow> run result" where
  "new_run c uuid s due holder now =
     (case uuid of Inl e \<Rightarrow> Inl (Wrapped ''generate Run id'' e) | Inr i \<Rightarrow>
      let slot = \<lparr>slOrganizationID = shOrganizationID s, slMonitorID = shMonitorID s,
            slRevisionNumber = shRevisionNumber s, slLocation = scLocation c,
            slScheduledFor = to_utc due\<rparr>
      in if holder = '''' then
           (case slot_validate slot of Inl e \<Rightarrow> Inl e | Inr _ \<Rightarrow> Inr (blank_run i slot KindScheduled))
         else run_claim i slot KindScheduled holder
           (time_add (to_utc now) (lease_duration (scExecutionCeiling c))))"

text \<open>The Observation of an execution, stamped with the Run it belongs to.\<close>

definition stamp_observation :: "execution \<Rightarrow> run \<Rightarrow> observation" where
  "stamp_observation x r = (exObservation x)\<lparr>obRunID := rID r,
     obScheduledFor := slScheduledFor (rSlot r), obOrganizationID := slOrganizationID (rSlot r)\<rparr>"

datatype slot_outcome = SlotClaimed | SlotHeldByOther | SlotFailed

definition run_slot ::
  "'s worker_env \<Rightarrow> scheduler_config \<Rightarrow> schedulable \<Rightarrow> go_time \<Rightarrow> go_time \<Rightarrow> 's \<Rightarrow> slot_outcome \<times> 's" where
  "run_slot w c s due now st =
     (case weUUID w 0 now of Inl _ \<Rightarrow> (SlotFailed, st) | Inr holder \<Rightarrow>
      case new_run c (weUUID w 1 due) s due holder now of Inl _ \<Rightarrow> (SlotFailed, st) | Inr proposed \<Rightarrow>
      case rsClaimSlot (weStore w) st proposed now of
        (Inl e, st1) \<Rightarrow>
          (if errors_is e SlotHeld then (SlotHeldByOther, st1)
           else if weContextDone w 0 then (SlotHeldByOther, st1) else (SlotFailed, st1))
      | (Inr claimed, st1) \<Rightarrow>
          let x = weExecute w (shCheckType s) (shCheckSchemaVersion s) (shCheckConfiguration s);
              st2 = weMeanwhile w st1
          in if weContextDone w 1 then (SlotHeldByOther, snd (rsReleaseSlot (weStore w) st2 claimed))
             else case run_complete claimed (exOutcome x) (to_utc (exStartedAt x)) (to_utc (exFinishedAt x)) of
               Inl _ \<Rightarrow> (SlotFailed, st2)
             | Inr done \<Rightarrow>
                 case weUUID w 2 (rFinishedAt done) of Inl _ \<Rightarrow> (SlotFailed, st2) | Inr event \<Rightarrow>
                 case new_run_recorded_entry event done (rFinishedAt done) of
                   Inl _ \<Rightarrow> (SlotFailed, st2)
                 | Inr entry \<Rightarrow>
                     case rsComplete (weStore w) st2 done (rLeaseHolder claimed)
                            (stamp_observation x done) [entry] of
                       (Inr _, st3) \<Rightarrow> (SlotClaimed, st3)
                     | (Inl e, st3) \<Rightarrow>
                         (if errors_is e RunLeaseLost then SlotHeldByOther else SlotFailed, st3))"

section \<open>Missed slots\<close>

text \<open>
  \<open>recordMissed\<close> for each missed instant, newest first, until the context is done, a step fails
  or the store says that the slot exists. Each turn takes two identifiers.
\<close>

fun record_missed_loop ::
  "'s worker_env \<Rightarrow> scheduler_config \<Rightarrow> schedulable \<Rightarrow> go_time \<Rightarrow> nat \<Rightarrow> go_time list \<Rightarrow> nat \<Rightarrow> 's \<Rightarrow> nat \<times> 's"
where
  "record_missed_loop w c s now k [] recorded st = (recorded, st)"
| "record_missed_loop w c s now k (t # ts) recorded st =
     (if weContextDone w k then (recorded, st)
      else case new_run c (weUUID w (2 * k) t) s t '''' now of Inl _ \<Rightarrow> (recorded, st) | Inr v \<Rightarrow>
      case run_skip (rID v) (rSlot v) KindScheduled of Inl _ \<Rightarrow> (recorded, st) | Inr skipped \<Rightarrow>
      case weUUID w (2 * k + 1) now of Inl _ \<Rightarrow> (recorded, st) | Inr event \<Rightarrow>
      case new_run_recorded_entry event skipped (to_utc now) of Inl _ \<Rightarrow> (recorded, st) | Inr entry \<Rightarrow>
      case rsRecordSkipped (weStore w) st skipped [entry] now of
        (Inl _, st1) \<Rightarrow> (recorded, st1)
      | (Inr _, st1) \<Rightarrow> record_missed_loop w c s now (Suc k) ts (Suc recorded) st1)"

definition record_missed ::
  "'s worker_env \<Rightarrow> scheduler_config \<Rightarrow> schedulable \<Rightarrow> go_time \<Rightarrow> go_time \<Rightarrow> go_time \<Rightarrow> 's \<Rightarrow> nat \<times> 's"
where
  "record_missed w c s due previous now st =
     (let interval = effective_interval (shInterval s) (scMinimumInterval c);
          bound = (if after (shNotBefore s) previous then to_utc (shNotBefore s) else previous)
      in case missed_slots (shMonitorID s) interval due bound (scMaxBackfillSlots c) of
           Inl _ \<Rightarrow> (0, st)
         | Inr missed \<Rightarrow>
             if missed = [] then (0, st) else record_missed_loop w c s now 0 missed 0 st)"

section \<open>Manual Runs\<close>

record scope =
  scopeOrganizationID :: string
  scopeMonitorID :: string

definition scope_validate :: "scope \<Rightarrow> unit result" where
  "scope_validate s =
     (if scopeOrganizationID s = '''' \<or> scopeMonitorID s = '''' then
        Inl (ErrText ''a Run query requires Organization, Project, and Monitor identity'')
      else Inr ())"

text \<open>
  What \<open>Trigger\<close> does once it holds an execution slot: the deferred release runs on every path
  that did not record the Run.
\<close>

definition trigger_claimed ::
  "'s worker_env \<Rightarrow> schedulable \<Rightarrow> run \<Rightarrow> 's \<Rightarrow> run result \<times> 's" where
  "trigger_claimed w target claimed st1 =
     (let x = weExecute w (shCheckType target) (shCheckSchemaVersion target) (shCheckConfiguration target);
          st2 = weMeanwhile w st1;
          give_up = (\<lambda>e s. (Inl e, snd (rsReleaseSlot (weStore w) s claimed)))
      in if weContextDone w 0 then give_up (ErrIs ContextDone) st2
         else case run_complete claimed (exOutcome x) (to_utc (exStartedAt x)) (to_utc (exFinishedAt x)) of
           Inl e \<Rightarrow> give_up (Wrapped ''complete manual Run domain state'' e) st2
         | Inr done \<Rightarrow>
             case weUUID w 2 (rFinishedAt done) of
               Inl e \<Rightarrow> give_up (Wrapped ''generate manual Run event'' e) st2
             | Inr event \<Rightarrow>
                 case new_run_recorded_entry event done (rFinishedAt done) of
                   Inl e \<Rightarrow> give_up (Wrapped ''build manual Run event'' e) st2
                 | Inr entry \<Rightarrow>
                     case rsComplete (weStore w) st2 done (rLeaseHolder claimed)
                            (stamp_observation x done) [entry] of
                       (Inl e, st3) \<Rightarrow> give_up (Wrapped ''record manual Run'' e) st3
                     | (Inr _, st3) \<Rightarrow> (Inr done, st3))"

definition trigger ::
  "'s worker_env \<Rightarrow> string \<Rightarrow> duration \<Rightarrow> ('s \<Rightarrow> scope \<Rightarrow> schedulable option result)
   \<Rightarrow> ('s \<Rightarrow> scope \<Rightarrow> bool result) \<Rightarrow> go_time \<Rightarrow> scope \<Rightarrow> execution_slots \<Rightarrow> 's
   \<Rightarrow> run result \<times> execution_slots \<times> 's" where
  "trigger w location ceiling load exists now sc slots st =
     (case scope_validate sc of Inl e \<Rightarrow> (Inl e, slots, st) | Inr _ \<Rightarrow>
      case load st sc of
        Inl e \<Rightarrow> (Inl (Wrapped ''load manual Run target'' e), slots, st)
      | Inr None \<Rightarrow>
          (case exists st sc of
             Inl e \<Rightarrow> (Inl (Wrapped ''check manual Run target'' e), slots, st)
           | Inr b \<Rightarrow> (Inl (ErrIs (if b then ManualTargetUnconfigured else ManualTargetNotFound)), slots, st))
      | Inr (Some target) \<Rightarrow>
          (case schedulable_validate target of
             Inl e \<Rightarrow> (Inl (Wrapped ''validate manual Run target'' e), slots, st)
           | Inr _ \<Rightarrow>
               case try_acquire slots of
                 (False, slots1) \<Rightarrow> (Inl (ErrIs ManualCapacity), slots1, st)
               | (True, slots1) \<Rightarrow>
                   let back = (\<lambda>r. (fst r, (case release slots1 of None \<Rightarrow> slots1 | Some s \<Rightarrow> s), snd r))
                   in case weUUID w 0 now of
                     Inl e \<Rightarrow> back (Inl (Wrapped ''generate manual Run lease holder'' e), st)
                   | Inr holder \<Rightarrow>
                       case weUUID w 1 now of
                         Inl e \<Rightarrow> back (Inl (Wrapped ''generate manual Run id'' e), st)
                       | Inr i \<Rightarrow>
                           case run_claim i \<lparr>slOrganizationID = shOrganizationID target,
                               slMonitorID = shMonitorID target, slRevisionNumber = shRevisionNumber target,
                               slLocation = location, slScheduledFor = now\<rparr> KindManual holder
                               (time_add now (lease_duration ceiling)) of
                             Inl e \<Rightarrow> back (Inl (Wrapped ''build manual Run'' e), st)
                           | Inr proposed \<Rightarrow>
                               case rsClaimSlot (weStore w) st proposed now of
                                 (Inl e, st1) \<Rightarrow> back (Inl (Wrapped ''claim manual Run'' e), st1)
                               | (Inr claimed, st1) \<Rightarrow> back (trigger_claimed w target claimed st1)))"

section \<open>Confirmation Runs\<close>

record confirmation_request =
  crEventID :: string
  crOrganizationID :: string
  crCandidateID :: string
  crMonitorID :: string
  crRevisionNumber :: int
  crLocation :: string
  crTriggeringRunID :: string
  crTriggeringScheduledFor :: go_time
  crRequestedFor :: go_time
  crExpectedEvidence :: string
  crPolicyVersion :: string

definition confirmation_request_validate :: "confirmation_request \<Rightarrow> unit result" where
  "confirmation_request_validate r =
     (if crEventID r = '''' \<or> crOrganizationID r = '''' \<or> crCandidateID r = '''' \<or> crMonitorID r = ''''
        \<or> crTriggeringRunID r = '''' \<or> crPolicyVersion r = '''' then
        Inl (ErrText ''a confirmation request requires event, tenant, candidate, Monitor, triggering Run, and policy identity'')
      else if crRevisionNumber r < 1 \<or> crLocation r = '''' \<or> length (crLocation r) > MaxLocationLength then
        Inl (ErrText ''a confirmation request requires a revision and bounded location'')
      else if \<not> is_utc (crTriggeringScheduledFor r) \<or> \<not> is_utc (crRequestedFor r) then
        Inl (ErrText ''a confirmation request requires UTC instants'')
      else if crExpectedEvidence r \<noteq> ''passing'' \<and> crExpectedEvidence r \<noteq> ''failing'' then
        Inl (ErrText ''a confirmation request expects passing or failing evidence'')
      else Inr ())"

definition request_slot :: "confirmation_request \<Rightarrow> slot" where
  "request_slot r = \<lparr>slOrganizationID = crOrganizationID r, slMonitorID = crMonitorID r,
     slRevisionNumber = crRevisionNumber r, slLocation = crLocation r, slScheduledFor = crRequestedFor r\<rparr>"

definition request_cause :: "confirmation_request \<Rightarrow> confirmation_cause" where
  "request_cause r = \<lparr>ccCandidateID = crCandidateID r, ccTriggeringRunID = crTriggeringRunID r,
     ccTriggeringScheduledFor = crTriggeringScheduledFor r, ccCausationEventID = crEventID r,
     ccPolicyVersion = crPolicyVersion r\<rparr>"

definition confirm_claimed ::
  "'s worker_env \<Rightarrow> schedulable \<Rightarrow> run \<Rightarrow> 's \<Rightarrow> unit result \<times> 's" where
  "confirm_claimed w target claimed st1 =
     (let x = weExecute w (shCheckType target) (shCheckSchemaVersion target) (shCheckConfiguration target);
          st2 = weMeanwhile w st1
      in if weContextDone w 1 then
           (Inl (ErrIs ContextDone), snd (rsReleaseSlot (weStore w) st2 claimed))
         else case run_complete claimed (exOutcome x) (to_utc (exStartedAt x)) (to_utc (exFinishedAt x)) of
           Inl e \<Rightarrow> (Inl (Wrapped ''complete confirmation Run domain state'' e), st2)
         | Inr done \<Rightarrow>
             case weUUID w 2 (rFinishedAt done) of
               Inl e \<Rightarrow> (Inl (Wrapped ''generate confirmation result event'' e), st2)
             | Inr event \<Rightarrow>
                 case new_run_recorded_entry event done (rFinishedAt done) of
                   Inl e \<Rightarrow> (Inl (Wrapped ''build confirmation result event'' e), st2)
                 | Inr entry \<Rightarrow>
                     case rsComplete (weStore w) st2 done (rLeaseHolder claimed)
                            (stamp_observation x done) [entry] of
                       (Inl e, st3) \<Rightarrow> (Inl (Wrapped ''record confirmation Run'' e), st3)
                     | (Inr _, st3) \<Rightarrow> (Inr (), st3))"

text \<open>
  \<open>ConfirmationRunner.Execute\<close>, with the two reads of its store as parameters. The execution slot
  is taken when the context is not done at check 0, and given back on every path.
\<close>

definition confirm_execute ::
  "'s worker_env \<Rightarrow> duration \<Rightarrow> ('s \<Rightarrow> confirmation_request \<Rightarrow> schedulable option result)
   \<Rightarrow> ('s \<Rightarrow> string \<Rightarrow> string \<Rightarrow> run option result) \<Rightarrow> go_time \<Rightarrow> confirmation_request \<Rightarrow> 's
   \<Rightarrow> unit result \<times> 's" where
  "confirm_execute w ceiling load find_run now r st =
     (case confirmation_request_validate r of Inl e \<Rightarrow> (Inl e, st) | Inr _ \<Rightarrow>
      case load st r of
        Inl e \<Rightarrow> (Inl (Wrapped ''load confirmation target'' e), st)
      | Inr None \<Rightarrow> (Inr (), st)
      | Inr (Some target) \<Rightarrow>
          if weContextDone w 0 then (Inl (ErrIs ContextDone), st)
          else case weUUID w 0 now of
            Inl e \<Rightarrow> (Inl (Wrapped ''generate confirmation lease holder'' e), st)
          | Inr holder \<Rightarrow>
              case weUUID w 1 (crRequestedFor r) of
                Inl e \<Rightarrow> (Inl (Wrapped ''generate confirmation Run id'' e), st)
              | Inr i \<Rightarrow>
                  case run_claim_confirmation i (request_slot r) (request_cause r) holder
                         (time_add now (lease_duration ceiling)) of
                    Inl e \<Rightarrow> (Inl (Wrapped ''build confirmation Run'' e), st)
                  | Inr proposed \<Rightarrow>
                      case rsClaimSlot (weStore w) st proposed now of
                        (Inr claimed, st1) \<Rightarrow> confirm_claimed w target claimed st1
                      | (Inl e, st1) \<Rightarrow>
                          if errors_is e SlotHeld then
                            (case find_run st1 (crOrganizationID r) (crCandidateID r) of
                               Inl e2 \<Rightarrow> (Inl (Wrapped ''find existing confirmation Run'' e2), st1)
                             | Inr existing \<Rightarrow>
                                 (case existing of
                                    Some v \<Rightarrow> (if \<not> in_flight v then Inr () else Inl (ErrIs ConfirmationHeld))
                                  | None \<Rightarrow> Inl (ErrIs ConfirmationHeld), st1))
                          else (Inl (Wrapped ''claim confirmation Run'' e), st1))"

section \<open>A tick\<close>

record tick_result =
  tkConsidered :: nat
  tkClaimed :: nat
  tkHeld :: nat
  tkSkipped :: nat
  tkFailed :: nat

text \<open>
  \<open>Tick\<close> plans every Monitor in turn, remembers the slot it is about to attempt and starts a
  goroutine for it once an execution slot is free, stopping when the context is done while it
  waits. The goroutines run concurrently; here each runs where it was started, and what others
  do in between is \<open>weMeanwhile\<close> of its environment.
\<close>

definition run_task ::
  "'s worker_env \<Rightarrow> scheduler_config \<Rightarrow> schedulable \<Rightarrow> go_time \<Rightarrow> go_time \<Rightarrow> go_time \<Rightarrow> tick_result \<Rightarrow> 's
   \<Rightarrow> tick_result \<times> 's" where
  "run_task w c s due previous now res st =
     (let (skipped, st1) = record_missed w c s due previous now st;
          (outcome, st2) = run_slot w c s due now st1;
          res1 = res\<lparr>tkSkipped := tkSkipped res + skipped\<rparr>
      in (case outcome of
            SlotClaimed \<Rightarrow> res1\<lparr>tkClaimed := tkClaimed res1 + 1\<rparr>
          | SlotHeldByOther \<Rightarrow> res1\<lparr>tkHeld := tkHeld res1 + 1\<rparr>
          | SlotFailed \<Rightarrow> res1\<lparr>tkFailed := tkFailed res1 + 1\<rparr>, st2))"

fun tick_loop ::
  "(nat \<Rightarrow> 's worker_env) \<Rightarrow> (nat \<Rightarrow> bool) \<Rightarrow> scheduler_config \<Rightarrow> go_time \<Rightarrow> nat \<Rightarrow> schedulable list
   \<Rightarrow> attempted \<Rightarrow> tick_result \<Rightarrow> 's \<Rightarrow> attempted \<times> tick_result \<times> 's" where
  "tick_loop env acquired c now k [] att res st = (att, res, st)"
| "tick_loop env acquired c now k (s # ss) att res st =
     (case plan c att s now of
        None \<Rightarrow> tick_loop env acquired c now (Suc k) ss att (res\<lparr>tkFailed := tkFailed res + 1\<rparr>) st
      | Some (due, previous) \<Rightarrow>
          if is_zero due then tick_loop env acquired c now (Suc k) ss att res st
          else
            let att1 = att(shMonitorID s := due)
            in if \<not> acquired k then (att1, res, st)
               else let (res1, st1) = run_task (env k) c s due previous now res st
                    in tick_loop env acquired c now (Suc k) ss att1 res1 st1)"

definition tick ::
  "(nat \<Rightarrow> 's worker_env) \<Rightarrow> (nat \<Rightarrow> bool) \<Rightarrow> scheduler_config \<Rightarrow> ('s \<Rightarrow> schedulable list result) \<Rightarrow> go_time
   \<Rightarrow> attempted \<Rightarrow> 's \<Rightarrow> attempted \<times> tick_result result \<times> 's" where
  "tick env acquired c list_monitors now att st =
     (case list_monitors st of
        Inl e \<Rightarrow> (att, Inl (Wrapped ''list schedulable Monitors'' e), st)
      | Inr ms \<Rightarrow>
          let (att1, res, st1) = tick_loop env acquired c now 0 ms att
                \<lparr>tkConsidered = length ms, tkClaimed = 0, tkHeld = 0, tkSkipped = 0, tkFailed = 0\<rparr> st
          in (att1, Inr res, st1))"

section \<open>Planning over time\<close>

text \<open>The slots one scheduler attempts for one Monitor when it plans at the given instants.\<close>

fun attempts :: "scheduler_config \<Rightarrow> schedulable \<Rightarrow> attempted \<Rightarrow> go_time list \<Rightarrow> go_time list" where
  "attempts c s att [] = []"
| "attempts c s att (now # ns) =
     (case plan c att s now of
        None \<Rightarrow> attempts c s att ns
      | Some (due, previous) \<Rightarrow>
          if is_zero due then attempts c s att ns
          else due # attempts c s (att(shMonitorID s := due)) ns)"

lemma plan_due:
  assumes "plan c att s now = Some (due, previous)" and "\<not> is_zero due"
  shows "previous = att (shMonitorID s)" "is_zero previous \<or> after due previous"
    "slot_for (shMonitorID s) (effective_interval (shInterval s) (scMinimumInterval c)) now = Inr due"
  using assms by (auto simp: plan_def Let_def split: sum.splits if_splits)

lemma attempts_after:
  "\<not> is_zero (att (shMonitorID s)) \<Longrightarrow> x \<in> set (attempts c s att ns) \<Longrightarrow> after x (att (shMonitorID s))"
proof (induction ns arbitrary: att)
  case (Cons now ns)
  show ?case
  proof (cases "plan c att s now")
    case None
    then show ?thesis using Cons by simp
  next
    case (Some p)
    obtain due previous where p: "p = (due, previous)" by (cases p)
    show ?thesis
    proof (cases "is_zero due")
      case True
      then show ?thesis using Cons Some p by simp
    next
      case False
      have d: "after due (att (shMonitorID s))"
        using plan_due [of c att s now due previous] Some p False Cons.prems(1) by auto
      have later: "x \<in> set (attempts c s (att(shMonitorID s := due)) ns) \<Longrightarrow> after x due"
        by (drule Cons.IH [rotated]) (use False in simp_all)
      have "x = due \<or> x \<in> set (attempts c s (att(shMonitorID s := due)) ns)"
        using Cons.prems(2) Some p False by simp
      then show ?thesis using d later by (auto simp: after_def)
    qed
  qed
qed simp

lemma attempts_sorted: "sorted_wrt before (attempts c s att ns)"
proof (induction ns arbitrary: att)
  case (Cons now ns)
  then show ?case
    using attempts_after [of "att(shMonitorID s := x)" s _ c ns for x]
    by (auto simp: before_def after_def split: option.splits)
qed simp

text \<open>
  Over any sequence of ticks, whatever the clock does, one scheduler attempts strictly later
  and later slots of a Monitor, so it never attempts a slot twice, and every slot it attempts is
  the current slot of the Monitor's series at the instant of a tick.
\<close>

theorem attempts_strictly_advance:
  "sorted_wrt before (attempts c s att ns)
   \<and> set (attempts c s att ns) \<subseteq> {due. \<exists>now \<in> set ns.
        slot_for (shMonitorID s) (effective_interval (shInterval s) (scMinimumInterval c)) now = Inr due}"
proof -
  have "\<exists>now \<in> set ns. slot_for (shMonitorID s)
      (effective_interval (shInterval s) (scMinimumInterval c)) now = Inr due"
    if "due \<in> set (attempts c s att ns)" for due
    using that
  proof (induction ns arbitrary: att)
    case (Cons now ns)
    then show ?case using plan_due(3) [of c att s now due]
      by (force split: option.splits if_splits)
  qed simp
  then show ?thesis using attempts_sorted by blast
qed

section \<open>Lemmas\<close>

lemma stamp_observation_simps [simp]:
  "obRunID (stamp_observation x r) = rID r"
  "obOrganizationID (stamp_observation x r) = slOrganizationID (rSlot r)"
  "obScheduledFor (stamp_observation x r) = slScheduledFor (rSlot r)"
  by (simp_all add: stamp_observation_def)

text \<open>
  A call of a worker that reaches the store: the step relation of one worker is a sequence of
  proper calls, with the calls of others in between.
\<close>

context lease_store
begin

lemma ok_claim: "ok s \<Longrightarrow> rsClaimSlot st s v now = (r, s') \<Longrightarrow> ok s'"
  using ok_step [of s "CallClaim v now"] by simp

lemma ok_release: "ok s \<Longrightarrow> ok (snd (rsReleaseSlot st s v))"
  using ok_step [of s "CallRelease v"] by simp

lemma ok_skip: "ok s \<Longrightarrow> rsRecordSkipped st s v es now = (r, s') \<Longrightarrow> ok s'"
  using ok_step [of s "CallSkip v es now"] by simp

lemma ok_complete:
  "ok s \<Longrightarrow> rsComplete st s v h (stamp_observation x v) es = (r, s') \<Longrightarrow> ok s'"
  using ok_step [of s "CallComplete v h (stamp_observation x v) es"] by simp

lemma run_slot_ok:
  assumes "ok s" and env: "weStore w = st" "\<And>s. ok s \<Longrightarrow> ok (weMeanwhile w s)"
    and r: "run_slot w c m due now s = (out, s')"
  shows "ok s'"
  using r assms(1)
  by (auto simp: run_slot_def Let_def env(1) split: sum.splits if_splits prod.splits)
    (blast intro: ok_claim ok_release ok_complete env(2))+

lemma record_missed_loop_ok:
  assumes env: "weStore w = st"
  shows "ok s \<Longrightarrow> record_missed_loop w c m now k ts n s = (n', s') \<Longrightarrow> ok s'"
proof (induction ts arbitrary: k n s)
  case (Cons t ts)
  then show ?case
    by (auto simp: env split: sum.splits if_splits prod.splits) (blast intro: ok_skip)+
qed simp

lemma record_missed_ok:
  assumes "ok s" and "weStore w = st" and "record_missed w c m due prev now s = (n, s')"
  shows "ok s'"
  using assms(3,1) record_missed_loop_ok [OF assms(2)]
  by (auto simp: record_missed_def Let_def split: sum.splits if_splits)

text \<open>A slot the scheduler counts as claimed has its outcome in the store.\<close>

lemma run_slot_claimed:
  assumes env: "weStore w = st" and r: "run_slot w c m due now s = (SlotClaimed, s')"
  shows "\<exists>v. recorded s' (run_ref v) (rOutcome v)
    \<and> rOutcome v = exOutcome (weExecute w (shCheckType m) (shCheckSchemaVersion m) (shCheckConfiguration m))"
proof -
  let ?x = "weExecute w (shCheckType m) (shCheckSchemaVersion m) (shCheckConfiguration m)"
  obtain claimed v s2 h entry where
    "run_complete claimed (exOutcome ?x) (to_utc (exStartedAt ?x)) (to_utc (exFinishedAt ?x)) = Inr v"
    "rsComplete st s2 v h (stamp_observation ?x v) [entry] = (Inr (), s')"
    using r by (auto simp: run_slot_def Let_def env split: sum.splits if_splits prod.splits)
  moreover then have "rOutcome v = exOutcome ?x" by (simp add: run_complete_Inr)
  ultimately show ?thesis using complete_needs_lease by blast
qed

lemma trigger_claimed_ok:
  assumes "ok s" and env: "weStore w = st" "\<And>s. ok s \<Longrightarrow> ok (weMeanwhile w s)"
    and r: "trigger_claimed w m v s = (out, s')"
  shows "ok s'"
  using r assms(1)
  by (auto simp: trigger_claimed_def Let_def env(1) split: sum.splits if_splits prod.splits)
    (blast intro: ok_release ok_complete env(2))+

lemma confirm_claimed_ok:
  assumes "ok s" and env: "weStore w = st" "\<And>s. ok s \<Longrightarrow> ok (weMeanwhile w s)"
    and r: "confirm_claimed w m v s = (out, s')"
  shows "ok s'"
  using r assms(1)
  by (auto simp: confirm_claimed_def Let_def env(1) split: sum.splits if_splits prod.splits)
    (blast intro: ok_release ok_complete env(2))+

end

end
