(* ===== verification/RunStore.thy ===== *)
theory RunStore
  imports RunWorker
begin

text \<open>
  Models \<open>internal/postgres/run.go\<close>: the lease store. Claiming inserts the Run that holds the
  slot or takes over an expired lease in one statement, renewing and releasing match on the
  holder, completion records outcome, Observation, outbox entries and candidate link in one
  transaction, and a skipped slot is written without a lease. The lemmas show the table
  invariant, that a recorded outcome is final, and the laws the workers rely on.
\<close>

section \<open>Rows\<close>

text \<open>The CHECK constraints of the \<open>runs\<close> table.\<close>

definition run_row_ok :: "run_row \<Rightarrow> bool" where
  "run_row_ok w \<longleftrightarrow> 1 \<le> rwRevision w \<and> length (rwLocation w) \<le> 63
     \<and> rwKind w \<in> {KindScheduled, KindConfirmation, KindManual}
     \<and> (case rwOutcome w of None \<Rightarrow> True | Some oc \<Rightarrow> oc \<in> {OutcomePassed, OutcomeFailed,
          OutcomeErrored, OutcomeTimedOut, OutcomeCancelled, OutcomeSkipped})
     \<and> ((rwOutcome w = None) = (rwLeaseExpiresAt w \<noteq> None))
     \<and> ((rwLeaseHolder w = None) = (rwLeaseExpiresAt w = None))
     \<and> (case rwLeaseHolder w of None \<Rightarrow> True | Some h \<Rightarrow> length h \<le> 128)
     \<and> (if rwOutcome w = None \<or> rwOutcome w = Some OutcomeSkipped
        then rwStartedAt w = None \<and> rwFinishedAt w = None
        else (case (rwStartedAt w, rwFinishedAt w) of
            (Some s, Some f) \<Rightarrow> \<not> before f s | _ \<Rightarrow> False))
     \<and> ((rwKind w = KindConfirmation) = (rwCause w \<noteq> None))"

definition slot_key :: "run_row \<Rightarrow> (string \<times> int \<times> string \<times> go_time) option" where
  "slot_key w = (if rwKind w = KindManual then None
     else Some (rwMonitorID w, rwRevision w, rwLocation w, rwScheduledFor w))"

definition run_pk :: "run_row \<Rightarrow> string \<times> go_time" where
  "run_pk w = (rwID w, rwScheduledFor w)"

definition candidate_key :: "run_row \<Rightarrow> (string \<times> go_time) option" where
  "candidate_key w = (if rwKind w = KindConfirmation
     then map_option (\<lambda>c. (ccCandidateID c, rwScheduledFor w)) (rwCause w) else None)"

definition has_partition :: "db \<Rightarrow> go_time \<Rightarrow> bool" where
  "has_partition d t \<longleftrightarrow> (\<exists>(a, b) \<in> set (dbPartitions d). a \<le> nanos t \<and> nanos t < b)"

definition monitor_in_db :: "db \<Rightarrow> string \<Rightarrow> string \<Rightarrow> bool" where
  "monitor_in_db d mon org = sql_exists (\<lambda>m. mrID m = mon \<and> mrOrganizationID m = org) (dbMonitors d)"

text \<open>\<open>scanRun\<close>: the Run a row stands for, re-validated.\<close>

definition row_slot :: "run_row \<Rightarrow> slot" where
  "row_slot w = \<lparr>slOrganizationID = rwOrganizationID w, slMonitorID = rwMonitorID w,
     slRevisionNumber = rwRevision w, slLocation = rwLocation w,
     slScheduledFor = to_utc (rwScheduledFor w)\<rparr>"

definition outcome_value :: "run_outcome option \<Rightarrow> run_outcome" where
  "outcome_value v = (case v of None \<Rightarrow> OutcomeNone | Some oc \<Rightarrow> oc)"

definition scan_run :: "run_row \<Rightarrow> run result" where
  "scan_run w =
     (case restore_with_cause (rwID w) (row_slot w) (rwKind w) (outcome_value (rwOutcome w))
        (instant_value (rwStartedAt w)) (instant_value (rwFinishedAt w))
        (text_value (rwLeaseHolder w)) (instant_value (rwLeaseExpiresAt w)) (rwCause w) of
        Inl e \<Rightarrow> Inl (Wrapped ''restore Run'' e)
      | Inr r \<Rightarrow> Inr r)"

text \<open>\<open>confirmationDatabaseValues\<close> and the row an in-flight Run is inserted as.\<close>

definition db_cause :: "confirmation_cause option \<Rightarrow> confirmation_cause option" where
  "db_cause c = map_option
     (\<lambda>c. c\<lparr>ccTriggeringScheduledFor := db_instant (ccTriggeringScheduledFor c)\<rparr>) c"

definition slot_row :: "run \<Rightarrow> run_row" where
  "slot_row v =
     \<lparr>rwID = rID v, rwOrganizationID = slOrganizationID (rSlot v), rwMonitorID = slMonitorID (rSlot v),
      rwRevision = slRevisionNumber (rSlot v), rwLocation = slLocation (rSlot v),
      rwScheduledFor = db_instant (slScheduledFor (rSlot v)), rwKind = rKind v, rwOutcome = None,
      rwStartedAt = None, rwFinishedAt = None, rwLeaseHolder = None, rwLeaseExpiresAt = None,
      rwCause = None\<rparr>"

definition claimed_row :: "run \<Rightarrow> run_row" where
  "claimed_row v = (slot_row v)\<lparr>rwLeaseHolder := Some (rLeaseHolder v),
     rwLeaseExpiresAt := Some (db_instant (rLeaseExpiresAt v)), rwCause := db_cause (rConfirmation v)\<rparr>"

section \<open>Inserting\<close>

text \<open>
  \<open>INSERT INTO runs\<close>: routing to a partition and the CHECK constraints come first, then a
  conflict on the slot index, which the statement handles, then the other unique indexes and the
  reference to the Monitor.
\<close>

datatype insert_outcome = InsertFailed | SlotConflict run_row | Inserted db

definition insert_run :: "run_row \<Rightarrow> db \<Rightarrow> insert_outcome" where
  "insert_run w d =
     (if \<not> has_partition d (rwScheduledFor w) \<or> \<not> run_row_ok w then InsertFailed
      else case (if slot_key w = None then None else find (\<lambda>r. slot_key r = slot_key w) (dbRuns d)) of
        Some r \<Rightarrow> SlotConflict r
      | None \<Rightarrow>
          if sql_exists (\<lambda>r. run_pk r = run_pk w) (dbRuns d)
            \<or> (candidate_key w \<noteq> None \<and> sql_exists (\<lambda>r. candidate_key r = candidate_key w) (dbRuns d))
            \<or> \<not> monitor_in_db d (rwMonitorID w) (rwOrganizationID w)
          then InsertFailed
          else Inserted (d\<lparr>dbRuns := dbRuns d @ [w]\<rparr>))"

text \<open>\<open>insertManualRun\<close> writes no confirmation columns, and its row is outside the slot index.\<close>

definition insert_manual_run :: "run \<Rightarrow> db \<Rightarrow> db result" where
  "insert_manual_run v d =
     (case insert_run ((claimed_row v)\<lparr>rwCause := None\<rparr>) d of
        Inserted d' \<Rightarrow> Inr d'
      | _ \<Rightarrow> Inl (Wrapped ''insert manual Run'' (ErrText ''constraint'')))"

definition lease_expired :: "run_row \<Rightarrow> go_time \<Rightarrow> bool" where
  "lease_expired w now = (case rwLeaseExpiresAt w of
     None \<Rightarrow> False | Some t \<Rightarrow> nanos t \<le> nanos (db_instant now))"

definition claim_slot :: "db \<Rightarrow> run \<Rightarrow> go_time \<Rightarrow> run result \<times> db" where
  "claim_slot d v now =
     (if \<not> in_flight v then (Inl (ErrText ''claiming a slot requires an in-flight Run''), d)
      else if rKind v = KindManual then
        (case insert_manual_run v d of Inl e \<Rightarrow> (Inl e, d) | Inr d' \<Rightarrow> (Inr v, d'))
      else case insert_run (claimed_row v) d of
        InsertFailed \<Rightarrow> (Inl (Wrapped ''scan Run'' (ErrText ''constraint'')), d)
      | Inserted d' \<Rightarrow> (scan_run (claimed_row v), d')
      | SlotConflict r \<Rightarrow>
          if rwOutcome r = None \<and> lease_expired r now then
            let r' = r\<lparr>rwLeaseHolder := Some (rLeaseHolder v),
                  rwLeaseExpiresAt := Some (db_instant (rLeaseExpiresAt v))\<rparr>
            in (scan_run r', d\<lparr>dbRuns := sql_update (\<lambda>x. run_pk x = run_pk r) (\<lambda>_. r') (dbRuns d)\<rparr>)
          else (Inl (ErrIs SlotHeld), d))"

section \<open>Holding\<close>

text \<open>The WHERE clause shared by renewal, release and completion.\<close>

definition holds_row :: "run \<Rightarrow> string \<Rightarrow> run_row \<Rightarrow> bool" where
  "holds_row v holder w \<longleftrightarrow> rwID w = rID v \<and> rwScheduledFor w = db_instant (slScheduledFor (rSlot v))
     \<and> rwOrganizationID w = slOrganizationID (rSlot v) \<and> rwLeaseHolder w = Some holder \<and> rwOutcome w = None"

definition renew_run_lease :: "db \<Rightarrow> run \<Rightarrow> unit result \<times> db" where
  "renew_run_lease d v =
     (if sql_exists (holds_row v (rLeaseHolder v)) (dbRuns d) then
        (Inr (), d\<lparr>dbRuns := sql_update (holds_row v (rLeaseHolder v))
           (\<lambda>w. w\<lparr>rwLeaseExpiresAt := Some (db_instant (rLeaseExpiresAt v))\<rparr>) (dbRuns d)\<rparr>)
      else (Inl (ErrIs RunLeaseLost), d))"

text \<open>Deleting a Run cascades to its Observation.\<close>

definition release_slot :: "db \<Rightarrow> run \<Rightarrow> unit result \<times> db" where
  "release_slot d v =
     (if sql_exists (holds_row v (rLeaseHolder v)) (dbRuns d) then
        (Inr (), d\<lparr>dbRuns := sql_delete (holds_row v (rLeaseHolder v)) (dbRuns d),
           dbObservations := sql_delete (\<lambda>w. owRunID w = rID v
             \<and> owScheduledFor w = db_instant (slScheduledFor (rSlot v))) (dbObservations d)\<rparr>)
      else (Inl (ErrIs RunLeaseLost), d))"

section \<open>Recording\<close>

definition insert_observation :: "observation \<Rightarrow> go_time \<Rightarrow> db \<Rightarrow> db result" where
  "insert_observation v created d =
     (if \<not> has_partition d (db_instant (obScheduledFor v))
        \<or> sql_exists (\<lambda>w. owRunID w = obRunID v \<and> owScheduledFor w = db_instant (obScheduledFor v))
            (dbObservations d)
        \<or> \<not> sql_exists (\<lambda>w. run_pk w = (obRunID v, db_instant (obScheduledFor v))) (dbRuns d)
      then Inl (ErrText ''insert Observation'')
      else Inr (d\<lparr>dbObservations := dbObservations d @ [observation_to_row v created]\<rparr>))"

definition insert_outbox_entry :: "outbox_entry \<Rightarrow> db \<Rightarrow> db result" where
  "insert_outbox_entry x d =
     (case oePayload x of
        None \<Rightarrow> Inl (ErrText ''insert outbox entry'')
      | Some p \<Rightarrow> insert_raw_outbox (oeID x) (oeOrganizationID x) (oeTopic x) p (oeCreatedAt x) d)"

fun insert_outbox_entries :: "outbox_entry list \<Rightarrow> db \<Rightarrow> db result" where
  "insert_outbox_entries [] d = Inr d"
| "insert_outbox_entries (x # xs) d = and_then (insert_outbox_entry x d) (insert_outbox_entries xs)"

fun validate_entries :: "outbox_entry list \<Rightarrow> unit result" where
  "validate_entries [] = Inr ()"
| "validate_entries (x # xs) = (case outbox_entry_validate x of
     Inl e \<Rightarrow> Inl (Wrapped ''validate outbox entry'' e) | Inr _ \<Rightarrow> validate_entries xs)"

definition link_confirmation :: "run \<Rightarrow> db \<Rightarrow> db result" where
  "link_confirmation v d =
     (case rConfirmation v of
        None \<Rightarrow> Inr d
      | Some c \<Rightarrow>
          let link = (rID v, db_instant (slScheduledFor (rSlot v)));
              p = (\<lambda>w. cdID (cwCandidate w) = ccCandidateID c
                \<and> cdOrganizationID (cwCandidate w) = slOrganizationID (rSlot v)
                \<and> (cwConfirmation w = None \<or> cwConfirmation w = Some link))
          in if sql_exists p (dbCandidates d) then
               Inr (d\<lparr>dbCandidates := sql_update p (\<lambda>w. w\<lparr>cwConfirmation := Some link\<rparr>) (dbCandidates d)\<rparr>)
             else Inl (ErrText ''confirmation Run does not match its health candidate''))"

definition finish_row :: "run \<Rightarrow> run_row \<Rightarrow> run_row" where
  "finish_row v w = w\<lparr>rwOutcome := Some (rOutcome v), rwStartedAt := Some (db_instant (rStartedAt v)),
     rwFinishedAt := Some (db_instant (rFinishedAt v)), rwLeaseHolder := None, rwLeaseExpiresAt := None\<rparr>"

definition complete_tx ::
  "run \<Rightarrow> string \<Rightarrow> observation \<Rightarrow> outbox_entry list \<Rightarrow> db \<Rightarrow> (unit \<times> db) result" where
  "complete_tx v holder obs entries d =
     (if list_ex (\<lambda>w. holds_row v holder w \<and> \<not> run_row_ok (finish_row v w)) (dbRuns d) then
        Inl (ErrText ''record Run outcome'')
      else if \<not> sql_exists (holds_row v holder) (dbRuns d) then Inl (ErrIs RunLeaseLost)
      else
        and_then (insert_observation obs (rFinishedAt v)
          (d\<lparr>dbRuns := sql_update (holds_row v holder) (finish_row v) (dbRuns d)\<rparr>)) (\<lambda>d1.
        and_then (insert_outbox_entries entries d1) (\<lambda>d2.
        and_then (link_confirmation v d2) (\<lambda>d3. Inr ((), d3)))))"

definition complete_guards :: "run \<Rightarrow> string \<Rightarrow> observation \<Rightarrow> outbox_entry list \<Rightarrow> unit result" where
  "complete_guards v holder obs entries =
     (if in_flight v then Inl (ErrText ''completing a Run requires a recorded outcome'')
      else if rOutcome v = OutcomeSkipped then
        Inl (ErrText ''a skipped Run is recorded with RecordSkipped, not Complete'')
      else if holder = '''' then
        Inl (ErrText ''completing a Run requires the lease holder that claimed it'')
      else case observation_validate obs of
        Inl e \<Rightarrow> Inl (Wrapped ''validate Observation'' e)
      | Inr _ \<Rightarrow>
          if obRunID obs \<noteq> rID v \<or> \<not> time_equal (obScheduledFor obs) (slScheduledFor (rSlot v)) then
            Inl (ErrText ''the Observation does not belong to the Run being completed'')
          else if length entries > MaxOutboxBatchSize then
            Inl (ErrText ''at most 32 outbox entries accompany one Run'')
          else validate_entries entries)"

definition complete_run ::
  "db \<Rightarrow> run \<Rightarrow> string \<Rightarrow> observation \<Rightarrow> outbox_entry list \<Rightarrow> unit result \<times> db" where
  "complete_run d v holder obs entries =
     (case complete_guards v holder obs entries of
        Inl e \<Rightarrow> (Inl e, d)
      | Inr _ \<Rightarrow> run_tx (complete_tx v holder obs entries) d)"

definition record_skipped_tx :: "run \<Rightarrow> outbox_entry list \<Rightarrow> db \<Rightarrow> (unit \<times> db) result" where
  "record_skipped_tx v entries d =
     (case insert_run ((slot_row v)\<lparr>rwOutcome := Some (rOutcome v)\<rparr>) d of
        InsertFailed \<Rightarrow> Inl (ErrText ''record skipped Run'')
      | SlotConflict r \<Rightarrow> Inl (ErrIs SlotHeld)
      | Inserted d1 \<Rightarrow> and_then (insert_outbox_entries entries d1) (\<lambda>d2. Inr ((), d2)))"

definition record_skipped :: "db \<Rightarrow> run \<Rightarrow> outbox_entry list \<Rightarrow> unit result \<times> db" where
  "record_skipped d v entries =
     (if rOutcome v \<noteq> OutcomeSkipped then
        (Inl (ErrText ''recording a skipped Run requires the skipped outcome''), d)
      else if rKind v = KindManual then
        (Inl (ErrText ''a manual Run is requested rather than scheduled, so it cannot be skipped''), d)
      else if length entries > MaxOutboxBatchSize then
        (Inl (ErrText ''at most 32 outbox entries accompany one Run''), d)
      else case validate_entries entries of
        Inl e \<Rightarrow> (Inl e, d)
      | Inr _ \<Rightarrow> run_tx (record_skipped_tx v entries) d)"

section \<open>Invariant\<close>

definition executed :: "run_row \<Rightarrow> bool" where
  "executed w \<longleftrightarrow> rwOutcome w \<noteq> None \<and> rwOutcome w \<noteq> Some OutcomeSkipped"

definition observes :: "observation_row \<Rightarrow> run_row \<Rightarrow> bool" where
  "observes x w \<longleftrightarrow> owRunID x = rwID w \<and> owScheduledFor x = rwScheduledFor w
     \<and> owOrganizationID x = rwOrganizationID w"

definition stored_row :: "run_row \<Rightarrow> bool" where
  "stored_row w \<longleftrightarrow> run_row_ok w \<and> is_db_instant (rwScheduledFor w)"

definition run_db_inv :: "db \<Rightarrow> bool" where
  "run_db_inv d \<longleftrightarrow> unique_on slot_key (dbRuns d) \<and> unique_on (\<lambda>w. Some (run_pk w)) (dbRuns d)
     \<and> (\<forall>w \<in> set (dbRuns d). stored_row w)
     \<and> (\<forall>w \<in> set (dbRuns d). executed w \<longrightarrow> (\<exists>x \<in> set (dbObservations d). observes x w))
     \<and> (\<forall>x \<in> set (dbObservations d). \<exists>w \<in> set (dbRuns d). executed w \<and> observes x w)"

lemma run_tables:
  "dbRuns (d\<lparr>dbRuns := x\<rparr>) = x" "dbObservations (d\<lparr>dbRuns := x\<rparr>) = dbObservations d"
  by simp_all

lemma run_db_invI:
  assumes "unique_on slot_key (dbRuns d)" and "unique_on (\<lambda>w. Some (run_pk w)) (dbRuns d)"
    and "\<And>w. w \<in> set (dbRuns d) \<Longrightarrow> stored_row w"
    and "\<And>w. w \<in> set (dbRuns d) \<Longrightarrow> executed w \<Longrightarrow> \<exists>x \<in> set (dbObservations d). observes x w"
    and "\<And>x. x \<in> set (dbObservations d) \<Longrightarrow> \<exists>w \<in> set (dbRuns d). executed w \<and> observes x w"
  shows "run_db_inv d"
  using assms by (simp add: run_db_inv_def)

lemma run_db_invD:
  assumes "run_db_inv d"
  shows "unique_on slot_key (dbRuns d)" "unique_on (\<lambda>w. Some (run_pk w)) (dbRuns d)"
    "\<And>w. w \<in> set (dbRuns d) \<Longrightarrow> stored_row w"
    "\<And>w. w \<in> set (dbRuns d) \<Longrightarrow> executed w \<Longrightarrow> \<exists>x \<in> set (dbObservations d). observes x w"
    "\<And>x. x \<in> set (dbObservations d) \<Longrightarrow> \<exists>w \<in> set (dbRuns d). executed w \<and> observes x w"
  using assms by (simp_all add: run_db_inv_def)

lemma same_pk_row:
  assumes "run_db_inv d" and "w \<in> set (dbRuns d)" and "w' \<in> set (dbRuns d)" and "run_pk w = run_pk w'"
  shows "w = w'"
  using unique_onD [OF run_db_invD(2) [OF assms(1)] assms(2,3)] assms(4) by simp

lemma find_slot_None:
  "find (\<lambda>r. slot_key r = slot_key w) rs = None \<longleftrightarrow> (\<forall>r \<in> set rs. slot_key r \<noteq> slot_key w)"
  by (auto simp: find_None_iff)

lemma insert_run_Inserted:
  "insert_run w d = Inserted d' \<longleftrightarrow> has_partition d (rwScheduledFor w) \<and> run_row_ok w
     \<and> (slot_key w = None \<or> (\<forall>r \<in> set (dbRuns d). slot_key r \<noteq> slot_key w))
     \<and> (\<forall>r \<in> set (dbRuns d). run_pk r \<noteq> run_pk w)
     \<and> (candidate_key w = None \<or> (\<forall>r \<in> set (dbRuns d). candidate_key r \<noteq> candidate_key w))
     \<and> monitor_in_db d (rwMonitorID w) (rwOrganizationID w)
     \<and> d' = d\<lparr>dbRuns := dbRuns d @ [w]\<rparr>"
proof -
  let ?clash = "sql_exists (\<lambda>r. run_pk r = run_pk w) (dbRuns d)
    \<or> (candidate_key w \<noteq> None \<and> sql_exists (\<lambda>r. candidate_key r = candidate_key w) (dbRuns d))
    \<or> \<not> monitor_in_db d (rwMonitorID w) (rwOrganizationID w)"
  let ?slots = "slot_key w = None \<or> (\<forall>r \<in> set (dbRuns d). slot_key r \<noteq> slot_key w)"
  let ?hit = "if slot_key w = None then None else find (\<lambda>r. slot_key r = slot_key w) (dbRuns d)"
  have hit: "?hit = None \<longleftrightarrow> ?slots"
    by (cases "slot_key w") (auto simp: find_None_iff)
  have "insert_run w d = Inserted d' \<longleftrightarrow> has_partition d (rwScheduledFor w) \<and> run_row_ok w
      \<and> ?hit = None \<and> \<not> ?clash \<and> d' = d\<lparr>dbRuns := dbRuns d @ [w]\<rparr>"
    unfolding insert_run_def by (cases ?hit) (simp_all split: if_splits, blast+)
  then show ?thesis unfolding hit sql_exists_iff by blast
qed

lemma insert_run_SlotConflict:
  assumes "insert_run w d = SlotConflict r"
  shows "r \<in> set (dbRuns d)" "slot_key r = slot_key w" "slot_key w \<noteq> None" "run_row_ok w"
  using assms by (auto simp: insert_run_def find_Some_iff split: if_splits option.splits)

lemma insert_run_inv:
  assumes "run_db_inv d" and i: "insert_run w d = Inserted d'" and "\<not> executed w"
    and "is_db_instant (rwScheduledFor w)"
  shows "run_db_inv d'"
proof (rule run_db_invI)
  note D = run_db_invD [OF assms(1)]
  note I = i [unfolded insert_run_Inserted]
  show "unique_on slot_key (dbRuns d')" using I D(1) by (auto simp: unique_on_append simp del: unique_on.simps(2))
  show "unique_on (\<lambda>w. Some (run_pk w)) (dbRuns d')" using I D(2) by (auto simp: unique_on_append simp del: unique_on.simps(2))
  show "stored_row x" if "x \<in> set (dbRuns d')" for x
    using that I D(3) assms(4) by (auto simp: stored_row_def)
  show "\<exists>y \<in> set (dbObservations d'). observes y x" if "x \<in> set (dbRuns d')" "executed x" for x
    using that I D(4) assms(3) by auto
  show "\<exists>x \<in> set (dbRuns d'). executed x \<and> observes y x" if "y \<in> set (dbObservations d')" for y
    using that I D(5) by auto
qed

text \<open>
  Rewriting rows in flight into rows in flight: every key and every Observation keeps its place.
\<close>

lemma update_in_flight_inv:
  assumes inv: "run_db_inv d"
    and upd: "\<And>w. w \<in> set (dbRuns d) \<Longrightarrow> p w \<Longrightarrow> slot_key (f w) = slot_key w \<and> run_pk (f w) = run_pk w
      \<and> stored_row (f w) \<and> rwOutcome w = None \<and> rwOutcome (f w) = None"
  shows "run_db_inv (d\<lparr>dbRuns := sql_update p f (dbRuns d)\<rparr>)" (is "run_db_inv ?d")
proof (rule run_db_invI)
  note D = run_db_invD [OF inv]
  have set: "set (dbRuns ?d) = (\<lambda>r. if p r then f r else r) ` set (dbRuns d)" by (simp add: set_sql_update)
  show "unique_on slot_key (dbRuns ?d)" using D(1) upd by (auto intro: unique_on_sql_update)
  show "unique_on (\<lambda>w. Some (run_pk w)) (dbRuns ?d)" using D(2) upd by (auto intro: unique_on_sql_update)
  show "stored_row x" if "x \<in> set (dbRuns ?d)" for x using that upd D(3) set by auto
  show "\<exists>y \<in> set (dbObservations ?d). observes y x" if "x \<in> set (dbRuns ?d)" "executed x" for x
  proof -
    have "\<exists>w \<in> set (dbRuns d). x = (if p w then f w else w)"
      using that(1) by (simp only: in_sql_update run_tables)
    then obtain w where w: "w \<in> set (dbRuns d)" "x = (if p w then f w else w)" by blast
    then have "\<not> p w" using upd [of w] that(2) by (auto simp: executed_def)
    then show ?thesis using w that(2) D(4) [of w] by simp
  qed
  show "\<exists>x \<in> set (dbRuns ?d). executed x \<and> observes y x" if y: "y \<in> set (dbObservations ?d)" for y
  proof -
    obtain w where w: "w \<in> set (dbRuns d)" "executed w" "observes y w" using D(5) [of y] y by auto
    then have "\<not> p w" using upd [of w] by (auto simp: executed_def)
    then have "w \<in> set (dbRuns ?d)" using w(1) set by force
    then show ?thesis using w by blast
  qed
qed

lemma stored_row_relet:
  assumes "stored_row w" and "rwOutcome w = None" and "run_row_ok (claimed_row v)"
  shows "stored_row (w\<lparr>rwLeaseHolder := Some (rLeaseHolder v), rwLeaseExpiresAt := Some t\<rparr>)"
  using assms by (auto simp: stored_row_def run_row_ok_def claimed_row_def slot_row_def)

lemma stored_row_renewed: "stored_row w \<Longrightarrow> rwOutcome w = None \<Longrightarrow> stored_row (w\<lparr>rwLeaseExpiresAt := Some t\<rparr>)"
  by (auto simp: stored_row_def run_row_ok_def)

lemma claim_slot_inv:
  assumes inv: "run_db_inv d" and c: "claim_slot d v now = (r, d')"
  shows "run_db_inv d'"
proof (cases "in_flight v \<and> rKind v \<noteq> KindManual")
  case False
  then show ?thesis using c inv
    by (auto simp: claim_slot_def insert_manual_run_def executed_def claimed_row_def slot_row_def
        split: if_splits sum.splits insert_outcome.splits intro: insert_run_inv)
next
  case True
  show ?thesis
  proof (cases "insert_run (claimed_row v) d")
    case InsertFailed
    then show ?thesis using c inv True by (auto simp: claim_slot_def)
  next
    case (Inserted d1)
    then have "run_db_inv d1"
      by (rule insert_run_inv [OF inv]) (simp_all add: executed_def claimed_row_def slot_row_def)
    then show ?thesis using c True Inserted by (auto simp: claim_slot_def)
  next
    case (SlotConflict w)
    note W = insert_run_SlotConflict [OF this]
    let ?w = "w\<lparr>rwLeaseHolder := Some (rLeaseHolder v),
      rwLeaseExpiresAt := Some (db_instant (rLeaseExpiresAt v))\<rparr>"
    show ?thesis
    proof (cases "rwOutcome w = None \<and> lease_expired w now")
      case False
      then show ?thesis using c inv True SlotConflict by (auto simp: claim_slot_def)
    next
      case free: True
      have "run_db_inv (d\<lparr>dbRuns := sql_update (\<lambda>x. run_pk x = run_pk w) (\<lambda>_. ?w) (dbRuns d)\<rparr>)"
      proof (rule update_in_flight_inv [OF inv])
        fix x assume "x \<in> set (dbRuns d)" and "run_pk x = run_pk w"
        then have "x = w" using same_pk_row [OF inv _ W(1)] by blast
        then show "slot_key ?w = slot_key x \<and> run_pk ?w = run_pk x \<and> stored_row ?w
            \<and> rwOutcome x = None \<and> rwOutcome ?w = None"
          using free stored_row_relet [OF run_db_invD(3) [OF inv W(1)] _ W(4)]
          by (auto simp: slot_key_def run_pk_def)
      qed
      then show ?thesis using c True SlotConflict free by (auto simp: claim_slot_def Let_def)
    qed
  qed
qed

lemma renew_run_lease_inv:
  assumes inv: "run_db_inv d" and c: "renew_run_lease d v = (r, d')"
  shows "run_db_inv d'"
proof (cases "sql_exists (holds_row v (rLeaseHolder v)) (dbRuns d)")
  case False
  then show ?thesis using c inv by (simp add: renew_run_lease_def split: if_splits)
next
  case True
  have "run_db_inv (d\<lparr>dbRuns := sql_update (holds_row v (rLeaseHolder v))
      (\<lambda>w. w\<lparr>rwLeaseExpiresAt := Some (db_instant (rLeaseExpiresAt v))\<rparr>) (dbRuns d)\<rparr>)"
    using run_db_invD(3) [OF inv]
    by (intro update_in_flight_inv [OF inv])
      (simp add: holds_row_def slot_key_def run_pk_def stored_row_renewed)
  then show ?thesis using c True by (simp add: renew_run_lease_def split: if_splits)
qed

lemma release_slot_inv:
  assumes inv: "run_db_inv d" and c: "release_slot d v = (r, d')"
  shows "run_db_inv d'"
proof (cases "sql_exists (holds_row v (rLeaseHolder v)) (dbRuns d)")
  case False
  then show ?thesis using c inv by (simp add: release_slot_def split: if_splits)
next
  case True
  note D = run_db_invD [OF inv]
  let ?p = "holds_row v (rLeaseHolder v)"
  let ?q = "\<lambda>x. owRunID x = rID v \<and> owScheduledFor x = db_instant (slScheduledFor (rSlot v))"
  let ?d = "d\<lparr>dbRuns := sql_delete ?p (dbRuns d), dbObservations := sql_delete ?q (dbObservations d)\<rparr>"
  obtain h where h: "h \<in> set (dbRuns d)" "?p h" using True by auto
  have far: "\<not> ?q x" if "w \<in> set (dbRuns d)" "executed w" "observes x w" for x w
  proof
    assume "?q x"
    then have "run_pk w = run_pk h" using h(2) that(3) by (simp add: observes_def run_pk_def holds_row_def)
    then show False using same_pk_row [OF inv that(1) h(1)] h(2) that(2)
      by (simp add: executed_def holds_row_def)
  qed
  have "run_db_inv ?d"
  proof (rule run_db_invI)
    show "unique_on slot_key (dbRuns ?d)" using D(1) by (simp add: unique_on_sql_delete)
    show "unique_on (\<lambda>w. Some (run_pk w)) (dbRuns ?d)" using D(2) by (simp add: unique_on_sql_delete)
    show "stored_row w" if "w \<in> set (dbRuns ?d)" for w using D(3) that by simp
    show "\<exists>x \<in> set (dbObservations ?d). observes x w" if "w \<in> set (dbRuns ?d)" "executed w" for w
      using D(4) [of w] that far by auto
    show "\<exists>w \<in> set (dbRuns ?d). executed w \<and> observes x w" if "x \<in> set (dbObservations ?d)" for x
      using D(5) [of x] that by (auto simp: executed_def holds_row_def)
  qed
  then show ?thesis using c True by (simp add: release_slot_def split: if_splits)
qed

lemma insert_outbox_entries_Inr:
  "insert_outbox_entries xs d = Inr d' \<Longrightarrow> \<exists>rows. d' = d\<lparr>dbOutbox := dbOutbox d @ rows\<rparr>
     \<and> map xwID rows = map oeID xs"
proof (induction xs arbitrary: d)
  case Nil
  then show ?case by (auto intro: exI [of _ "[]"])
next
  case (Cons x xs)
  obtain d1 where d1: "insert_outbox_entry x d = Inr d1" "insert_outbox_entries xs d1 = Inr d'"
    using Cons.prems by (auto simp: and_then_Inr)
  obtain row where "d1 = d\<lparr>dbOutbox := dbOutbox d @ [row]\<rparr>" "xwID row = oeID x"
    using d1(1) by (auto simp: insert_outbox_entry_def store_simps fresh_outbox_row_def split: option.splits)
  moreover obtain rows where "d' = d1\<lparr>dbOutbox := dbOutbox d1 @ rows\<rparr>" "map xwID rows = map oeID xs"
    using Cons.IH [OF d1(2)] by blast
  ultimately show ?case by (auto intro: exI [of _ "row # rows"])
qed

lemma link_confirmation_Inr: "link_confirmation v d = Inr d' \<Longrightarrow> \<exists>cs. d' = d\<lparr>dbCandidates := cs\<rparr>"
  by (auto simp: link_confirmation_def Let_def split: option.splits if_splits intro: exI [of _ "dbCandidates d"])

lemma run_db_inv_other [simp]:
  "run_db_inv (d\<lparr>dbOutbox := x\<rparr>) = run_db_inv d" "run_db_inv (d\<lparr>dbCandidates := y\<rparr>) = run_db_inv d"
  by (simp_all add: run_db_inv_def)

text \<open>What a committed completion did, before the outbox and the candidate link.\<close>

lemma complete_run_Inr:
  assumes "complete_run d v holder obs entries = (Inr u, d')"
  obtains rows cs where "complete_guards v holder obs entries = Inr ()"
    and "\<exists>w \<in> set (dbRuns d). holds_row v holder w"
    and "\<And>w. w \<in> set (dbRuns d) \<Longrightarrow> holds_row v holder w \<Longrightarrow> run_row_ok (finish_row v w)"
    and "\<And>x. x \<in> set (dbObservations d) \<Longrightarrow>
      \<not> (owRunID x = obRunID obs \<and> owScheduledFor x = db_instant (obScheduledFor obs))"
    and "d' = d\<lparr>dbRuns := sql_update (holds_row v holder) (finish_row v) (dbRuns d),
      dbObservations := dbObservations d @ [observation_to_row obs (rFinishedAt v)],
      dbOutbox := dbOutbox d @ rows, dbCandidates := cs\<rparr>"
    and "map xwID rows = map oeID entries"
proof -
  let ?d0 = "d\<lparr>dbRuns := sql_update (holds_row v holder) (finish_row v) (dbRuns d)\<rparr>"
  have g: "complete_guards v holder obs entries = Inr ()" and "complete_tx v holder obs entries d = Inr (u, d')"
    using assms by (auto simp: complete_run_def run_tx_Inr split: sum.splits)
  then obtain d1 d2 where s: "\<exists>w \<in> set (dbRuns d). holds_row v holder w"
    "\<not> list_ex (\<lambda>w. holds_row v holder w \<and> \<not> run_row_ok (finish_row v w)) (dbRuns d)"
    "insert_observation obs (rFinishedAt v) ?d0 = Inr d1" "insert_outbox_entries entries d1 = Inr d2"
    "link_confirmation v d2 = Inr d'"
    by (auto simp: complete_tx_def and_then_Inr split: if_splits)
  have o: "d1 = ?d0\<lparr>dbObservations := dbObservations d @ [observation_to_row obs (rFinishedAt v)]\<rparr>"
    "\<forall>x \<in> set (dbObservations d).
      \<not> (owRunID x = obRunID obs \<and> owScheduledFor x = db_instant (obScheduledFor obs))"
    using s(3) by (auto simp: insert_observation_def split: if_splits)
  obtain rows where rows: "d2 = d1\<lparr>dbOutbox := dbOutbox d1 @ rows\<rparr>" "map xwID rows = map oeID entries"
    using insert_outbox_entries_Inr [OF s(4)] by blast
  obtain cs where cs: "d' = d2\<lparr>dbCandidates := cs\<rparr>" using link_confirmation_Inr [OF s(5)] by blast
  show ?thesis
    by (rule that [OF g s(1)]) (use s(2) o rows cs in \<open>auto simp: list_ex_iff\<close>)
qed

lemma complete_guards_Inr:
  assumes "complete_guards v holder obs entries = Inr ()"
  shows "\<not> in_flight v" "rOutcome v \<noteq> OutcomeSkipped" "obRunID obs = rID v"
    "db_instant (obScheduledFor obs) = db_instant (slScheduledFor (rSlot v))"
  using assms by (auto simp: complete_guards_def time_equal_def db_instant_def split: if_splits sum.splits)

lemma finish_row_simps [simp]:
  "slot_key (finish_row v w) = slot_key w" "run_pk (finish_row v w) = run_pk w"
  "rwOrganizationID (finish_row v w) = rwOrganizationID w" "rwID (finish_row v w) = rwID w"
  "rwScheduledFor (finish_row v w) = rwScheduledFor w" "rwOutcome (finish_row v w) = Some (rOutcome v)"
  "rwLeaseHolder (finish_row v w) = None"
  by (simp_all add: finish_row_def slot_key_def run_pk_def)

lemma complete_run_inv:
  assumes inv: "run_db_inv d" and c: "complete_run d v holder obs entries = (r, d')"
    and org: "obOrganizationID obs = slOrganizationID (rSlot v)"
  shows "run_db_inv d'"
proof (cases r)
  case (Inl e)
  then show ?thesis using c inv
    by (auto simp: complete_run_def run_tx_Inl split: sum.splits)
next
  case (Inr u)
  note D = run_db_invD [OF inv]
  obtain rows cs where g: "complete_guards v holder obs entries = Inr ()"
    and ok: "\<And>w. w \<in> set (dbRuns d) \<Longrightarrow> holds_row v holder w \<Longrightarrow> run_row_ok (finish_row v w)"
    and held: "\<exists>w \<in> set (dbRuns d). holds_row v holder w"
    and d': "d' = d\<lparr>dbRuns := sql_update (holds_row v holder) (finish_row v) (dbRuns d),
      dbObservations := dbObservations d @ [observation_to_row obs (rFinishedAt v)],
      dbOutbox := dbOutbox d @ rows, dbCandidates := cs\<rparr>"
    using complete_run_Inr c Inr by metis
  note G = complete_guards_Inr [OF g]
  let ?x = "observation_to_row obs (rFinishedAt v)"
  have runs: "dbRuns d' = sql_update (holds_row v holder) (finish_row v) (dbRuns d)"
    and obs: "dbObservations d' = dbObservations d @ [?x]" using d' by simp_all
  have now: "executed (finish_row v w)" "observes ?x (finish_row v w)"
    if "holds_row v holder w" for w
    using that G org by (auto simp: executed_def observes_def observation_to_row_def holds_row_def in_flight_def)
  show ?thesis
  proof (rule run_db_invI)
    show "unique_on slot_key (dbRuns d')" unfolding runs using D(1) by (auto intro: unique_on_sql_update)
    show "unique_on (\<lambda>w. Some (run_pk w)) (dbRuns d')"
      unfolding runs using D(2) by (auto intro: unique_on_sql_update)
    show "stored_row w" if "w \<in> set (dbRuns d')" for w
      using that ok D(3) unfolding runs in_sql_update by (auto simp: stored_row_def)
    show "\<exists>x \<in> set (dbObservations d'). observes x w" if w: "w \<in> set (dbRuns d')" "executed w" for w
    proof -
      obtain w0 where "w0 \<in> set (dbRuns d)" "w = (if holds_row v holder w0 then finish_row v w0 else w0)"
        using w(1) unfolding runs in_sql_update by blast
      then show ?thesis using now(2) [of w0] D(4) [of w0] w(2) obs by auto
    qed
    show "\<exists>w \<in> set (dbRuns d'). executed w \<and> observes x w" if x: "x \<in> set (dbObservations d')" for x
    proof (cases "x \<in> set (dbObservations d)")
      case True
      then obtain w where w: "w \<in> set (dbRuns d)" "executed w" "observes x w" using D(5) by blast
      then have "\<not> holds_row v holder w" by (auto simp: holds_row_def executed_def)
      then have "w \<in> set (dbRuns d')" using w(1) unfolding runs in_sql_update by force
      then show ?thesis using w by blast
    next
      case False
      then have "x = ?x" using x obs by simp
      moreover obtain w where "w \<in> set (dbRuns d)" "holds_row v holder w" using held by blast
      moreover then have "finish_row v w \<in> set (dbRuns d')" unfolding runs in_sql_update by force
      ultimately show ?thesis using now by blast
    qed
  qed
qed

lemma record_skipped_inv:
  assumes inv: "run_db_inv d" and c: "record_skipped d v entries = (r, d')"
  shows "run_db_inv d'"
proof (cases r)
  case (Inl e)
  then show ?thesis using c inv
    by (auto simp: record_skipped_def run_tx_Inl split: sum.splits if_splits)
next
  case (Inr u)
  then have s: "rOutcome v = OutcomeSkipped" "record_skipped_tx v entries d = Inr (u, d')"
    using c by (auto simp: record_skipped_def run_tx_Inr split: sum.splits if_splits)
  then obtain d1 where d1: "insert_run ((slot_row v)\<lparr>rwOutcome := Some OutcomeSkipped\<rparr>) d = Inserted d1"
    "insert_outbox_entries entries d1 = Inr d'"
    by (auto simp: record_skipped_tx_def and_then_Inr split: insert_outcome.splits)
  have "run_db_inv d1"
    by (rule insert_run_inv [OF inv d1(1)]) (simp_all add: executed_def slot_row_def)
  then show ?thesis using insert_outbox_entries_Inr [OF d1(2)] by auto
qed

section \<open>The contract\<close>

definition postgres_run_store :: "db run_store" where
  "postgres_run_store = \<lparr>rsClaimSlot = claim_slot, rsReleaseSlot = release_slot,
     rsComplete = complete_run, rsRecordSkipped = (\<lambda>d v es now. record_skipped d v es)\<rparr>"

definition run_recorded :: "db \<Rightarrow> string \<times> go_time \<Rightarrow> run_outcome \<Rightarrow> bool" where
  "run_recorded d k oc \<longleftrightarrow> (\<exists>w \<in> set (dbRuns d). run_pk w = k \<and> rwOutcome w = Some oc)"

definition run_leased :: "db \<Rightarrow> string \<times> go_time \<Rightarrow> string \<Rightarrow> bool" where
  "run_leased d k h \<longleftrightarrow> (\<exists>w \<in> set (dbRuns d). run_pk w = k \<and> rwOutcome w = None \<and> rwLeaseHolder w = Some h)"

lemma postgres_run_store_simps [simp]:
  "rsClaimSlot postgres_run_store = claim_slot" "rsReleaseSlot postgres_run_store = release_slot"
  "rsComplete postgres_run_store = complete_run"
  "rsRecordSkipped postgres_run_store d v es now = record_skipped d v es"
  by (simp_all add: postgres_run_store_def)

lemma calls_keep_inv:
  "run_db_inv d \<Longrightarrow> proper_call c \<Longrightarrow> run_db_inv (apply_call postgres_run_store c d)"
  by (cases c)
    (auto intro: claim_slot_inv release_slot_inv complete_run_inv record_skipped_inv prod.collapse [symmetric])

text \<open>No operation rewrites or deletes a row that has an outcome.\<close>

lemma insert_run_keeps: "insert_run w d = Inserted d' \<Longrightarrow> set (dbRuns d) \<subseteq> set (dbRuns d')"
  by (auto simp: insert_run_Inserted)

lemma finished_row_kept:
  assumes inv: "run_db_inv d" and w: "w \<in> set (dbRuns d)" and oc: "rwOutcome w = Some oc"
  shows "w \<in> set (dbRuns (apply_call postgres_run_store c d))"
proof (cases c)
  case (CallClaim v now)
  show ?thesis
  proof (cases "in_flight v \<and> rKind v \<noteq> KindManual")
    case False
    then show ?thesis using w CallClaim insert_run_keeps
      by (auto simp: claim_slot_def insert_manual_run_def split: sum.splits insert_outcome.splits)
  next
    case True
    show ?thesis
    proof (cases "insert_run (claimed_row v) d")
      case (SlotConflict r)
      have "run_pk w \<noteq> run_pk r" if "rwOutcome r = None"
        using same_pk_row [OF inv w insert_run_SlotConflict(1) [OF SlotConflict]] that oc by auto
      then show ?thesis using w True SlotConflict CallClaim
        by (auto simp: claim_slot_def Let_def in_sql_update)
    qed (use w True CallClaim insert_run_keeps in \<open>auto simp: claim_slot_def\<close>)
  qed
next
  case (CallRelease v)
  then show ?thesis using w oc by (simp add: release_slot_def holds_row_def)
next
  case (CallComplete v h x es)
  show ?thesis
  proof (cases "complete_run d v h x es")
    case (Pair r d')
    show ?thesis
    proof (cases r)
      case (Inl e)
      then show ?thesis using Pair CallComplete w
        by (auto simp: complete_run_def run_tx_Inl split: sum.splits)
    next
      case (Inr u)
      then obtain rows cs where "d' = d\<lparr>dbRuns := sql_update (holds_row v h) (finish_row v) (dbRuns d),
          dbObservations := dbObservations d @ [observation_to_row x (rFinishedAt v)],
          dbOutbox := dbOutbox d @ rows, dbCandidates := cs\<rparr>"
        using complete_run_Inr Pair by metis
      moreover have "\<not> holds_row v h w" using oc by (simp add: holds_row_def)
      ultimately show ?thesis using w Pair CallComplete by (auto simp: in_sql_update)
    qed
  qed
next
  case (CallSkip v es now)
  show ?thesis
  proof (cases "record_skipped d v es")
    case (Pair r d')
    show ?thesis
    proof (cases r)
      case (Inl e)
      then show ?thesis using Pair CallSkip w
        by (auto simp: record_skipped_def run_tx_Inl split: sum.splits if_splits)
    next
      case (Inr u)
      then obtain d1 row where "insert_run row d = Inserted d1" "insert_outbox_entries es d1 = Inr d'"
        using Pair by (auto simp: record_skipped_def record_skipped_tx_def run_tx_Inr and_then_Inr
            split: sum.splits if_splits insert_outcome.splits)
      then show ?thesis using w insert_run_keeps insert_outbox_entries_Inr Pair CallSkip by fastforce
    qed
  qed
qed

lemma scan_run_Inr:
  assumes "scan_run w = Inr r"
  shows "rID r = rwID w" "rSlot r = row_slot w" "rKind r = rwKind w" "rConfirmation r = rwCause w"
    "rOutcome r = outcome_value (rwOutcome w)" "rLeaseHolder r = text_value (rwLeaseHolder w)"
  using assms
  by (auto simp: scan_run_def restore_with_cause_def restore_state_def blank_run_def Let_def
      split: sum.splits if_splits)

lemma claimed_run_leased:
  assumes inv: "run_db_inv d" and c: "claim_slot d v now = (Inr r, d')"
  shows "run_leased d' (run_ref r) (rLeaseHolder r) \<and> rLeaseHolder r = rLeaseHolder v"
proof (cases "rKind v = KindManual")
  case True
  then show ?thesis using c
    by (auto simp: claim_slot_def insert_manual_run_def insert_run_Inserted run_leased_def run_ref_def
        canonical_instant_db claimed_row_def slot_row_def run_pk_def
        split: if_splits sum.splits insert_outcome.splits)
next
  case False
  then have fl: "in_flight v" using c by (auto simp: claim_slot_def split: if_splits)
  show ?thesis
  proof (cases "insert_run (claimed_row v) d")
    case InsertFailed
    then show ?thesis using c False by (simp add: claim_slot_def split: if_splits)
  next
    case (Inserted d1)
    then have s: "scan_run (claimed_row v) = Inr r" "d' = d1"
      using c False fl by (simp_all add: claim_slot_def)
    then show ?thesis using Inserted scan_run_Inr [OF s(1)]
      by (auto simp: insert_run_Inserted run_leased_def run_ref_def canonical_instant_db claimed_row_def
          slot_row_def row_slot_def run_pk_def)
  next
    case (SlotConflict w)
    let ?w = "w\<lparr>rwLeaseHolder := Some (rLeaseHolder v),
      rwLeaseExpiresAt := Some (db_instant (rLeaseExpiresAt v))\<rparr>"
    have s: "scan_run ?w = Inr r" "rwOutcome w = None"
      "d' = d\<lparr>dbRuns := sql_update (\<lambda>x. run_pk x = run_pk w) (\<lambda>_. ?w) (dbRuns d)\<rparr>"
      using c False fl SlotConflict by (auto simp: claim_slot_def Let_def split: if_splits)
    have "?w \<in> set (dbRuns d')"
      using insert_run_SlotConflict(1) [OF SlotConflict] by (auto simp: s(3) in_sql_update)
    moreover have "is_db_instant (rwScheduledFor w)"
      using insert_run_SlotConflict(2,3) [OF SlotConflict]
      by (auto simp: slot_key_def claimed_row_def slot_row_def split: if_splits)
    ultimately show ?thesis using s(2) scan_run_Inr [OF s(1)]
      by (auto simp: run_leased_def run_ref_def canonical_instant_db row_slot_def run_pk_def db_instant_id
          intro: bexI [of _ ?w])
  qed
qed

interpretation pg: lease_store postgres_run_store run_db_inv run_recorded run_leased
proof
  fix d c k oc assume "run_db_inv d" and "run_recorded d k oc"
  then show "run_recorded (apply_call postgres_run_store c d) k oc"
    using finished_row_kept by (fastforce simp: run_recorded_def)
next
  fix d v h x es u d' assume c: "rsComplete postgres_run_store d v h x es = (Inr u, d')"
  then obtain rows cs where *: "complete_guards v h x es = Inr ()"
    "\<exists>w \<in> set (dbRuns d). holds_row v h w"
    "d' = d\<lparr>dbRuns := sql_update (holds_row v h) (finish_row v) (dbRuns d),
       dbObservations := dbObservations d @ [observation_to_row x (rFinishedAt v)],
       dbOutbox := dbOutbox d @ rows, dbCandidates := cs\<rparr>"
    using complete_run_Inr by (metis postgres_run_store_simps(3))
  then obtain w where w: "w \<in> set (dbRuns d)" "holds_row v h w" by blast
  then have "finish_row v w \<in> set (dbRuns d')" using *(3) by (auto simp: in_sql_update)
  then show "run_leased d (run_ref v) h \<and> run_recorded d' (run_ref v) (rOutcome v)"
    using w by (auto simp: run_leased_def run_recorded_def run_ref_def canonical_instant_db holds_row_def
        run_pk_def intro: bexI [of _ w] bexI [of _ "finish_row v w"])
next
  fix d v now r d' assume "run_db_inv d" and "rsClaimSlot postgres_run_store d v now = (Inr r, d')"
  then show "run_leased d' (run_ref r) (rLeaseHolder r) \<and> rLeaseHolder r = rLeaseHolder v"
    unfolding postgres_run_store_simps by (rule claimed_run_leased)
qed (auto simp: calls_keep_inv run_leased_def run_recorded_def complete_run_def run_tx_Inl
    dest: same_pk_row split: sum.splits)

lemma claim_existing:
  assumes inv: "run_db_inv d" and v: "in_flight v" "rKind v \<noteq> KindManual"
    and ins: "has_partition d (rwScheduledFor (claimed_row v))" "run_row_ok (claimed_row v)"
    and w: "w \<in> set (dbRuns d)" "slot_key w = slot_key (claimed_row v)"
  shows "claim_slot d v now =
    (if rwOutcome w = None \<and> lease_expired w now then
       (let w' = w\<lparr>rwLeaseHolder := Some (rLeaseHolder v),
              rwLeaseExpiresAt := Some (db_instant (rLeaseExpiresAt v))\<rparr>
        in (scan_run w', d\<lparr>dbRuns := map (\<lambda>x. if x = w then w' else x) (dbRuns d)\<rparr>))
     else (Inl (ErrIs SlotHeld), d))"
proof -
  have k: "slot_key (claimed_row v) \<noteq> None" using v by (simp add: slot_key_def claimed_row_def slot_row_def)
  obtain r where r: "find (\<lambda>x. slot_key x = slot_key (claimed_row v)) (dbRuns d) = Some r"
    using w by (metis find_slot_None not_None_eq)
  then have "r \<in> set (dbRuns d)" "slot_key r = slot_key (claimed_row v)" by (auto simp: find_Some_iff)
  then have rw: "r = w" using unique_onD [OF run_db_invD(1) [OF inv] _ w(1)] k w(2) by (metis not_None_eq)
  have c: "insert_run (claimed_row v) d = SlotConflict w"
    using ins k r rw by (simp add: insert_run_def)
  have "x = w \<longleftrightarrow> run_pk x = run_pk w" if "x \<in> set (dbRuns d)" for x
    using same_pk_row [OF inv that w(1)] by blast
  then show ?thesis using v c by (simp add: claim_slot_def Let_def sql_update_def)
qed

text \<open>The row behind a claim that succeeded.\<close>

lemma claimed_row_in_table:
  assumes c: "claim_slot d v now = (Inr r, d')" and m: "rKind v \<noteq> KindManual"
  shows "(\<exists>w \<in> set (dbRuns d'). slot_key w = slot_key (claimed_row v) \<and> rwOutcome w = None
      \<and> rwLeaseExpiresAt w = Some (db_instant (rLeaseExpiresAt v)))
    \<and> dbPartitions d' = dbPartitions d"
proof -
  have fl: "in_flight v" using c by (auto simp: claim_slot_def split: if_splits)
  show ?thesis
  proof (cases "insert_run (claimed_row v) d")
    case InsertFailed
    then show ?thesis using c m fl by (simp add: claim_slot_def)
  next
    case (Inserted d1)
    then have "d' = d1" using c m fl by (simp add: claim_slot_def)
    then have "d' = d\<lparr>dbRuns := dbRuns d @ [claimed_row v]\<rparr>" using Inserted by (simp add: insert_run_Inserted)
    then show ?thesis by (simp add: claimed_row_def slot_row_def)
  next
    case (SlotConflict w)
    let ?w = "w\<lparr>rwLeaseHolder := Some (rLeaseHolder v),
      rwLeaseExpiresAt := Some (db_instant (rLeaseExpiresAt v))\<rparr>"
    have d': "d' = d\<lparr>dbRuns := sql_update (\<lambda>x. run_pk x = run_pk w) (\<lambda>_. ?w) (dbRuns d)\<rparr>" "rwOutcome w = None"
      using c m fl SlotConflict by (auto simp: claim_slot_def Let_def split: if_splits)
    have "?w \<in> set (dbRuns d')"
      using insert_run_SlotConflict(1) [OF SlotConflict] by (auto simp: d' in_sql_update)
    moreover have "slot_key ?w = slot_key w" by (simp add: slot_key_def)
    then have "slot_key ?w = slot_key (claimed_row v)"
      using insert_run_SlotConflict(2) [OF SlotConflict] by (rule trans)
    ultimately show ?thesis using d' by auto
  qed
qed

section \<open>Properties\<close>

definition sample_db :: db where
  "sample_db = \<lparr>dbOrganizations = [''org''], dbUsers = [],
     dbMonitors = [\<lparr>mrID = ''mon'', mrOrganizationID = ''org'', mrName = ''Home'', mrCheckType = ''http'',
       mrState = ''active'', mrLatestRevision = 1, mrIntervalSeconds = 60, mrCreatedAt = sample_time,
       mrUpdatedAt = sample_time, mrXmin = 0\<rparr>],
     dbRevisions = [], dbPartitions = [(0, 2000000000000000000)], dbRuns = [], dbObservations = [],
     dbOutbox = [], dbProcessed = [], dbDeadLetters = [], dbCandidates = [], dbHealth = [],
     dbTransitions = [], dbCursors = [], dbIncidents = [], dbTimeline = [], dbAlerts = [],
     dbXid = 1, dbWindows = [], dbIntegrations = [], dbSecrets = [], dbDeliveries = [], dbAttempts = []\<rparr>"

definition sample_db_claimed :: db where
  "sample_db_claimed = sample_db\<lparr>dbRuns := [claimed_row sample_claimed]\<rparr>"

definition sample_run_observation :: observation where
  "sample_run_observation = \<lparr>obRunID = ''run'', obScheduledFor = sample_time,
     obOrganizationID = ''org'', obFailureCode = '''', obFailureClass = '''', obDuration = 0,
     obPhases = \<lparr>phConnect = 0, phTLS = 0, phFirstByte = 0\<rparr>, obHTTP = None\<rparr>"

definition sample_db_done :: db where
  "sample_db_done = sample_db\<lparr>dbRuns := [finish_row sample_finished (claimed_row sample_claimed)],
     dbObservations := [observation_to_row sample_run_observation sample_time]\<rparr>"

lemma sample_db_inv: "run_db_inv sample_db"
  by (simp add: run_db_inv_def sample_db_def)

lemma sample_instant [simp]: "db_instant sample_time = sample_time"
  by (simp add: db_instant_def sample_time_def)

lemma sample_to_utc [simp]: "to_utc sample_time = sample_time"
  by (simp add: to_utc_def sample_time_def)

lemma sample_row_ok: "run_row_ok (claimed_row sample_claimed)"
  by (simp add: run_row_ok_def claimed_row_def slot_row_def sample_claimed_def blank_run_def
      sample_slot_def db_cause_def)

lemma sample_scan: "scan_run (claimed_row sample_claimed) = Inr sample_claimed"
  by (simp add: scan_run_def restore_with_cause_def restore_state_def restore_cause_check_def
      claimed_row_def slot_row_def row_slot_def sample_claimed_def blank_run_def sample_slot_def
      slot_validate_def db_cause_def outcome_value_def valid_kind_def MaxLocationLength_def)

lemma sample_claim_slot: "claim_slot sample_db sample_claimed sample_time = (Inr sample_claimed, sample_db_claimed)"
proof -
  have "insert_run (claimed_row sample_claimed) sample_db = Inserted sample_db_claimed"
    using sample_row_ok
    by (simp add: insert_run_Inserted sample_db_claimed_def) (simp add: sample_db_def has_partition_def
        claimed_row_def slot_row_def sample_claimed_def blank_run_def sample_slot_def monitor_in_db_def
        sample_time_def db_instant_def)
  then show ?thesis using sample_scan
    by (simp add: claim_slot_def) (simp add: sample_claimed_def blank_run_def in_flight_def)
qed

lemma sample_complete_run:
  "complete_run sample_db_claimed sample_finished ''holder'' sample_run_observation [] = (Inr (), sample_db_done)"
proof -
  have g: "complete_guards sample_finished ''holder'' sample_run_observation [] = Inr ()"
    by (simp add: complete_guards_def sample_finished_def blank_run_def in_flight_def
        sample_run_observation_def observation_validate_def time_equal_def sample_slot_def)
  have h: "holds_row sample_finished ''holder'' (claimed_row sample_claimed)"
    by (simp add: holds_row_def sample_finished_def blank_run_def claimed_row_def slot_row_def
        sample_claimed_def)
  have k: "run_row_ok (finish_row sample_finished (claimed_row sample_claimed))"
    by (simp add: run_row_ok_def finish_row_def sample_finished_def claimed_row_def slot_row_def
        sample_claimed_def blank_run_def sample_slot_def db_cause_def before_def)
  have p: "run_pk (claimed_row sample_claimed) = (''run'', sample_time)"
    by (simp add: run_pk_def claimed_row_def slot_row_def sample_claimed_def blank_run_def sample_slot_def)
  have "complete_tx sample_finished ''holder'' sample_run_observation [] sample_db_claimed = Inr ((), sample_db_done)"
    using h k p
    by (simp add: complete_tx_def sample_db_claimed_def insert_observation_def sql_update_def
        has_partition_def sample_run_observation_def link_confirmation_def sample_db_done_def sample_db_def)
      (simp add: sample_finished_def blank_run_def sample_time_def)
  then show ?thesis using g by (simp add: complete_run_def run_tx_Inr)
qed



text \<open>
  Claiming a slot that already has a row takes it over exactly when that row has no outcome and
  its lease has expired: the row keeps its identity and every other column and only changes
  holder and expiry. Otherwise the claim is refused and the database stays as it was.
\<close>

theorem claim_of_existing_slot:
  assumes inv: "run_db_inv d" and v: "in_flight v" "rKind v \<noteq> KindManual"
    and ins: "has_partition d (rwScheduledFor (claimed_row v))" "run_row_ok (claimed_row v)"
    and w: "w \<in> set (dbRuns d)" "slot_key w = slot_key (claimed_row v)"
  shows "claim_slot d v now =
    (if rwOutcome w = None \<and> lease_expired w now then
       (let w' = w\<lparr>rwLeaseHolder := Some (rLeaseHolder v),
              rwLeaseExpiresAt := Some (db_instant (rLeaseExpiresAt v))\<rparr>
        in (scan_run w', d\<lparr>dbRuns := map (\<lambda>x. if x = w then w' else x) (dbRuns d)\<rparr>))
     else (Inl (ErrIs SlotHeld), d))"
  by (rule claim_existing [OF assms])

lemma sample_db_claimed_inv: "run_db_inv sample_db_claimed"
  using claim_slot_inv [OF sample_db_inv sample_claim_slot] .

theorem claim_of_existing_slot_witness:
  "\<exists>r. fst (claim_slot sample_db_claimed (sample_claimed\<lparr>rID := ''other'', rLeaseHolder := ''late''\<rparr>)
     (sample_time\<lparr>nanos := nanos sample_time - 1000\<rparr>)) = Inl r"
proof -
  let ?v = "sample_claimed\<lparr>rID := ''other'', rLeaseHolder := ''late''\<rparr>"
  let ?w = "claimed_row sample_claimed"
  have fl: "in_flight ?v" "rKind ?v \<noteq> KindManual"
    by (simp_all add: sample_claimed_def blank_run_def in_flight_def)
  have p: "has_partition sample_db_claimed (rwScheduledFor (claimed_row ?v))"
    by (simp add: has_partition_def sample_db_claimed_def sample_db_def claimed_row_def slot_row_def
        sample_claimed_def blank_run_def sample_slot_def) (simp add: sample_time_def)
  have o: "run_row_ok (claimed_row ?v)" and k: "slot_key ?w = slot_key (claimed_row ?v)"
    by (simp_all add: run_row_ok_def claimed_row_def slot_row_def sample_claimed_def blank_run_def
      sample_slot_def db_cause_def slot_key_def)
  have i: "?w \<in> set (dbRuns sample_db_claimed)" by (simp add: sample_db_claimed_def)
  show ?thesis
    unfolding claim_of_existing_slot [OF sample_db_claimed_inv fl p o i k]
    by (simp add: lease_expired_def claimed_row_def slot_row_def sample_claimed_def db_instant_def
        sample_time_def)
qed

text \<open>
  An outcome is recorded once: after a successful completion, whatever other calls are made,
  the Run keeps that outcome and every later completion of it fails and changes nothing.
\<close>

theorem outcome_recorded_once:
  assumes "run_db_inv d" and "obOrganizationID x = slOrganizationID (rSlot v)"
    and "complete_run d v h x es = (Inr u, d1)" and "\<forall>c \<in> set calls. proper_call c"
    and "d2 = fold (apply_call postgres_run_store) calls d1" and "run_ref v' = run_ref v"
  shows "run_recorded d2 (run_ref v) (rOutcome v)
    \<and> (\<exists>e. complete_run d2 v' h' x' es' = (Inl e, d2))"
  using pg.recorded_once [of d v h x es u d1 calls d2 v' h' x' es'] assms by simp

theorem outcome_recorded_once_witness:
  "\<exists>e. complete_run sample_db_done sample_finished ''holder'' sample_run_observation []
     = (Inl e, sample_db_done)"
  using outcome_recorded_once [OF sample_db_claimed_inv _ sample_complete_run, of "[]" sample_db_done
      sample_finished "''holder''" sample_run_observation "[]"]
  by (simp add: sample_run_observation_def sample_finished_def blank_run_def sample_slot_def)

text \<open>
  C2. A worker whose lease another worker took over cannot record a result: after a claim that
  returned the Run \<open>r\<close>, completing that Run under any other holder token fails and leaves the
  database as it was.
\<close>

theorem stale_holder_cannot_complete:
  assumes "run_db_inv d" and "claim_slot d v now = (Inr r, d1)" and "run_ref v' = run_ref r"
    and "h \<noteq> rLeaseHolder v"
  shows "\<exists>e. complete_run d1 v' h x es = (Inl e, d1)"
  using pg.stale_holder_refused [of d v now r d1 v' h x es] assms by simp

theorem stale_holder_cannot_complete_witness:
  "\<exists>e. complete_run sample_db_claimed sample_finished ''stale'' sample_run_observation []
     = (Inl e, sample_db_claimed)"
  by (rule stale_holder_cannot_complete [OF sample_db_inv sample_claim_slot])
    (simp_all add: run_ref_def sample_finished_def sample_claimed_def blank_run_def)

end
