(* ===== verification/Paging.thy ===== *)
theory Paging
  imports Prelude "HOL-Library.List_Lexorder" "HOL-Library.Product_Lexorder" "HOL-Library.Char_ord"
begin

text \<open>
  Keyset paging, as every history query of \<open>internal/postgres\<close> does it: the rows that match,
  newest first, strictly after the cursor, one row more than the page holds to tell whether
  another page follows. Texts and tuples compare lexicographically. The lemmas show that
  following the cursors lists every row exactly once and in order.
\<close>

definition descending :: "('r \<Rightarrow> 'k :: linorder) \<Rightarrow> 'r list \<Rightarrow> 'r list" where
  "descending key rows = rev (sort_key key rows)"

definition after_cursor :: "('r \<Rightarrow> 'k :: linorder) \<Rightarrow> 'k option \<Rightarrow> 'r list \<Rightarrow> 'r list" where
  "after_cursor key cur rows = (case cur of None \<Rightarrow> rows | Some k \<Rightarrow> filter (\<lambda>r. key r < k) rows)"

text \<open>\<open>ORDER BY key DESC LIMIT n + 1\<close>, cut to a page and a flag.\<close>

definition keyset_page :: "('r \<Rightarrow> 'k :: linorder) \<Rightarrow> 'k option \<Rightarrow> nat \<Rightarrow> 'r list \<Rightarrow> 'r list \<times> bool" where
  "keyset_page key cur n rows =
     (let xs = take (Suc n) (descending key (after_cursor key cur rows))
      in (take n xs, n < length xs))"

text \<open>Following the cursor of the last row of each page while another page is announced.\<close>

fun keyset_walk :: "nat \<Rightarrow> ('r \<Rightarrow> 'k :: linorder) \<Rightarrow> 'k option \<Rightarrow> nat \<Rightarrow> 'r list \<Rightarrow> 'r list" where
  "keyset_walk 0 key cur n rows = []"
| "keyset_walk (Suc f) key cur n rows =
     (case keyset_page key cur n rows of
        (page, further) \<Rightarrow>
          page @ (if further \<and> page \<noteq> [] then keyset_walk f key (Some (key (last page))) n rows else []))"

section \<open>Lemmas\<close>

lemma set_descending [simp]: "set (descending key rows) = set rows"
  by (simp add: descending_def)

lemma length_descending [simp]: "length (descending key rows) = length rows"
  by (simp add: descending_def)

lemma sorted_descending: "sorted_wrt (\<lambda>a b. key b \<le> key a) (descending key rows)"
  unfolding descending_def sorted_wrt_rev
  using sorted_sort_key [of key rows] by (simp add: sorted_map)

lemma strictly_sorted:
  "sorted_wrt (\<lambda>a b. key b \<le> key a) xs \<Longrightarrow> distinct xs \<Longrightarrow> inj_on key (set xs) \<Longrightarrow>
     sorted_wrt (\<lambda>a b. (key b :: 'k :: linorder) < key a) xs"
proof (induction xs)
  case (Cons x xs)
  have "key b < key x" if "b \<in> set xs" for b
    using Cons.prems that by (metis distinct.simps(2) inj_onD list.set_intros order_less_le sorted_wrt.simps(2))
  then show ?case using Cons by (simp add: inj_on_insert)
qed simp

lemma descending_strict:
  assumes "inj_on key (set rows)" and "distinct rows"
  shows "sorted_wrt (\<lambda>a b. key b < key a) (descending key rows)"
  using strictly_sorted [OF sorted_descending, of key rows] assms by (simp add: descending_def)

lemma filter_descending:
  "descending key (filter P rows) = filter P (descending key rows)"
  by (simp add: descending_def filter_sort rev_filter [symmetric])

lemma after_cursor_Some: "after_cursor key (Some k) rows = filter (\<lambda>r. key r < k) rows"
  by (simp add: after_cursor_def)

text \<open>In a strictly descending list the rows below the last of a prefix are the rest.\<close>

lemma rest_of_strict:
  assumes "sorted_wrt (\<lambda>a b. key b < key a) xs" and "0 < n" and "n < length xs"
  shows "filter (\<lambda>r. key r < (key (last (take n xs)) :: 'k :: linorder)) xs = drop n xs"
proof -
  let ?k = "key (last (take n xs))"
  have s: "sorted_wrt (\<lambda>a b. key b < key a) (take n xs @ drop n xs)" using assms(1) by simp
  then have cross: "\<forall>a \<in> set (take n xs). \<forall>b \<in> set (drop n xs). key b < key a"
    and st: "sorted_wrt (\<lambda>a b. key b < key a) (take n xs)"
    unfolding sorted_wrt_append by blast+
  have ne: "take n xs \<noteq> []" using assms(2,3) by auto
  have low: "\<not> key a < ?k" if "a \<in> set (take n xs)" for a
  proof -
    obtain ys where ys: "take n xs = ys @ [last (take n xs)]" using ne append_butlast_last_id by metis
    then have "a \<in> set ys \<or> a = last (take n xs)" using that by (metis Un_iff empty_iff insert_iff list.set set_append)
    moreover have "\<forall>b \<in> set ys. ?k < key b" using st ys by (metis list.set_intros(1) sorted_wrt_append)
    ultimately show ?thesis by (auto dest: less_asym)
  qed
  have "filter (\<lambda>r. key r < ?k) (take n xs) = []" using low by (simp add: filter_empty_conv)
  moreover have "filter (\<lambda>r. key r < ?k) (drop n xs) = drop n xs"
    using cross last_in_set [OF ne] by (simp add: filter_id_conv)
  ultimately show ?thesis by (metis append_Nil append_take_drop_id filter_append)
qed

lemma next_page:
  assumes inj: "inj_on key (set rows)" "distinct rows" and n: "0 < n"
    and xs: "xs = descending key (after_cursor key cur rows)" and len: "n < length xs"
  shows "descending key (after_cursor key (Some (key (last (take n xs)))) rows) = drop n xs"
proof -
  let ?k = "key (last (take n xs))"
  have sub: "set (after_cursor key cur rows) \<subseteq> set rows" "distinct (after_cursor key cur rows)"
    using inj(2) by (auto simp: after_cursor_def split: option.splits)
  have st: "sorted_wrt (\<lambda>a b. key b < key a) xs"
    unfolding xs by (rule descending_strict) (use sub inj(1) in \<open>auto intro: inj_on_subset\<close>)
  have ne: "take n xs \<noteq> []" using len n by (metis length_0_conv less_nat_zero_code neq0_conv take_eq_Nil)
  have lk: "last (take n xs) \<in> set (after_cursor key cur rows)"
    using last_in_set [OF ne] unfolding xs by (metis in_set_takeD set_descending)
  have "descending key (after_cursor key (Some ?k) rows) = filter (\<lambda>r. key r < ?k) (descending key rows)"
    by (simp add: after_cursor_Some filter_descending)
  also have "\<dots> = filter (\<lambda>r. key r < ?k) xs"
    unfolding xs using lk[unfolded xs] by (cases cur) (auto simp: after_cursor_def filter_descending intro!: filter_cong)
  also have "\<dots> = drop n xs" using rest_of_strict [OF st n len] .
  finally show ?thesis .
qed

lemma keyset_walk_from:
  assumes inj: "inj_on key (set rows)" "distinct rows" and n: "0 < n"
  shows "length (after_cursor key cur rows) < f \<Longrightarrow>
    keyset_walk f key cur n rows = descending key (after_cursor key cur rows)"
proof (induction f arbitrary: cur)
  case (Suc f)
  let ?xs = "descending key (after_cursor key cur rows)"
  show ?case
  proof (cases "n < length ?xs")
    case False
    then show ?thesis by (simp add: keyset_page_def Let_def)
  next
    case True
    let ?k = "key (last (take n ?xs))"
    have ne: "take n ?xs \<noteq> []" using True n by (metis length_0_conv less_nat_zero_code neq0_conv take_eq_Nil)
    have rest: "descending key (after_cursor key (Some ?k) rows) = drop n ?xs"
      using next_page [OF inj n refl True] .
    then have "length (after_cursor key (Some ?k) rows) < f"
      using Suc.prems True n by (metis length_descending length_drop diff_less less_Suc_eq_le
          less_le_trans not_less_zero neq0_conv)
    then have "keyset_walk f key (Some ?k) n rows = drop n ?xs" using Suc.IH rest by simp
    then show ?thesis using True ne by (simp add: keyset_page_def Let_def)
  qed
qed simp

lemma keyset_walk_all:
  assumes "inj_on key (set rows)" and "distinct rows" and "0 < n"
  shows "keyset_walk (Suc (length rows)) key None n rows = descending key rows"
  using keyset_walk_from [OF assms, of None "Suc (length rows)"] by (simp add: after_cursor_def)

end
