(* ===== verification/RunQuery.thy ===== *)
theory RunQuery
  imports RunStore Paging
begin

text \<open>
  Models the reads of Runs: \<open>internal/run/query.go\<close> and the queries of \<open>internal/postgres/run.go\<close>
  and \<open>schedule.go\<close> behind it: history pages, scoped lookup, Observations, and the targets of
  scheduled, manual and confirmation Runs. An empty filter is \<open>OutcomeNone\<close>, an empty kind
  \<open>KindOther ''''\<close> or an empty location.
\<close>

section \<open>Queries of the store\<close>

definition DefaultPageSize :: int where "DefaultPageSize = 50"
definition MaxPageSize :: int where "MaxPageSize = 500"

record run_cursor =
  rcScheduledFor :: go_time
  rcID :: string

record list_query =
  lqNotBefore :: go_time
  lqCursor :: "run_cursor option"
  lqPageSize :: int
  lqOutcome :: run_outcome
  lqKind :: run_kind
  lqLocation :: string

definition history_key :: "run_row \<Rightarrow> int \<times> string" where
  "history_key w = (nanos (rwScheduledFor w), rwID w)"

definition cursor_key :: "run_cursor \<Rightarrow> int \<times> string" where
  "cursor_key c = (nanos (db_instant (rcScheduledFor c)), rcID c)"

text \<open>The WHERE clause of \<open>ListRuns\<close>, its cursor apart.\<close>

definition in_history :: "db \<Rightarrow> scope \<Rightarrow> list_query \<Rightarrow> run_row \<Rightarrow> bool" where
  "in_history d sc q w \<longleftrightarrow> rwMonitorID w = scopeMonitorID sc \<and> rwOrganizationID w = scopeOrganizationID sc
     \<and> monitor_in_db d (rwMonitorID w) (rwOrganizationID w)
     \<and> nanos (db_instant (lqNotBefore q)) \<le> nanos (rwScheduledFor w)
     \<and> (lqOutcome q = OutcomeNone \<or> rwOutcome w = Some (lqOutcome q))
     \<and> (lqKind q = KindOther '''' \<or> rwKind w = lqKind q)
     \<and> (lqLocation q = '''' \<or> rwLocation w = lqLocation q)"

fun scan_rows :: "run_row list \<Rightarrow> run list result" where
  "scan_rows [] = Inr []"
| "scan_rows (w # ws) = and_then (scan_run w) (\<lambda>r. and_then (scan_rows ws) (\<lambda>rs. Inr (r # rs)))"

definition list_runs :: "db \<Rightarrow> scope \<Rightarrow> list_query \<Rightarrow> (run list \<times> bool) result" where
  "list_runs d sc q =
     (if lqPageSize q < 1 \<or> lqPageSize q > MaxPageSize then Inl (ErrText ''a Run page is 1 to 500 rows'')
      else
        let n = nat (lqPageSize q);
            rows = filter (in_history d sc q) (dbRuns d);
            page = take (Suc n) (descending history_key
              (after_cursor history_key (map_option cursor_key (lqCursor q)) rows))
        in and_then (scan_rows page) (\<lambda>rs. Inr (take n rs, n < length rs)))"

definition monitor_exists :: "db \<Rightarrow> scope \<Rightarrow> bool result" where
  "monitor_exists d sc = Inr (monitor_in_db d (scopeMonitorID sc) (scopeOrganizationID sc))"

definition first_row :: "run_row list \<Rightarrow> run option result" where
  "first_row ws = (case ws of [] \<Rightarrow> Inr None | w # _ \<Rightarrow> and_then (scan_run w) (\<lambda>r. Inr (Some r)))"

definition find_scoped_run :: "db \<Rightarrow> scope \<Rightarrow> string \<Rightarrow> run option result" where
  "find_scoped_run d sc i =
     first_row (descending (\<lambda>w. nanos (rwScheduledFor w)) (filter (\<lambda>w. rwID w = i
       \<and> rwMonitorID w = scopeMonitorID sc \<and> rwOrganizationID w = scopeOrganizationID sc
       \<and> monitor_in_db d (rwMonitorID w) (rwOrganizationID w)) (dbRuns d)))"

definition find_run :: "db \<Rightarrow> string \<Rightarrow> string \<Rightarrow> go_time \<Rightarrow> run option result" where
  "find_run d org i t =
     first_row (filter (\<lambda>w. rwID w = i \<and> rwScheduledFor w = db_instant t \<and> rwOrganizationID w = org) (dbRuns d))"

definition MaxRunPageSize :: int where "MaxRunPageSize = 500"

text \<open>\<open>ORDER BY scheduled_for DESC, id\<close>: newest first, identifiers ascending within an instant.\<close>

definition list_runs_for_monitor ::
  "db \<Rightarrow> string \<Rightarrow> string \<Rightarrow> go_time \<Rightarrow> int \<Rightarrow> run list result" where
  "list_runs_for_monitor d org mon not_before limit =
     (if limit < 1 \<or> limit > MaxRunPageSize then Inl (ErrText ''a Run page is 1 to 500 rows'')
      else scan_rows (take (nat limit) (sort_key (\<lambda>w. (- nanos (rwScheduledFor w), rwID w))
        (filter (\<lambda>w. rwMonitorID w = mon \<and> rwOrganizationID w = org
          \<and> nanos (db_instant not_before) \<le> nanos (rwScheduledFor w)) (dbRuns d)))))"

definition find_observation :: "db \<Rightarrow> string \<Rightarrow> string \<Rightarrow> go_time \<Rightarrow> observation option" where
  "find_observation d org i t =
     map_option (\<lambda>w. (observation_of_row w)\<lparr>obRunID := i, obScheduledFor := to_utc t, obOrganizationID := org\<rparr>)
       (find (\<lambda>w. owRunID w = i \<and> owScheduledFor w = db_instant t \<and> owOrganizationID w = org)
         (dbObservations d))"

section \<open>Targets\<close>

definition row_schedulable :: "monitor_row \<Rightarrow> revision_row \<Rightarrow> schedulable" where
  "row_schedulable m v = \<lparr>shOrganizationID = mrOrganizationID m, shMonitorID = mrID m,
     shRevisionNumber = rvNumber v, shCheckType = rvCheckType v,
     shCheckSchemaVersion = rvCheckSchemaVersion v, shCheckConfiguration = rvConfiguration v,
     shInterval = wrap64 (mrIntervalSeconds m * second), shNotBefore = to_utc (mrUpdatedAt m)\<rparr>"

definition latest_revisions :: "db \<Rightarrow> monitor_row \<Rightarrow> revision_row list" where
  "latest_revisions d m = filter (\<lambda>v. rvMonitorID v = mrID m \<and> rvOrganizationID v = mrOrganizationID m
     \<and> rvNumber v = mrLatestRevision m) (dbRevisions d)"

definition MaxSchedulableMonitors :: nat where "MaxSchedulableMonitors = 10000"

definition list_schedulable :: "db \<Rightarrow> schedulable list result" where
  "list_schedulable d =
     (let ms = sort_key (\<lambda>m. (mrOrganizationID m, mrID m)) (filter (\<lambda>m. mrState m = ''active'') (dbMonitors d));
          vs = take (MaxSchedulableMonitors + 1)
                 (concat (map (\<lambda>m. map (row_schedulable m) (latest_revisions d m)) ms))
      in if length vs > MaxSchedulableMonitors then
           Inl (ErrText ''this installation has more than 10000 active Monitors, which the single-read scheduler does not support'')
         else Inr vs)"

definition first_target :: "schedulable list \<Rightarrow> schedulable option" where
  "first_target xs = (case xs of [] \<Rightarrow> None | x # _ \<Rightarrow> Some x)"

definition load_manual_target :: "db \<Rightarrow> scope \<Rightarrow> schedulable option result" where
  "load_manual_target d sc = Inr (first_target
     (concat (map (\<lambda>m. map (row_schedulable m) (latest_revisions d m))
       (filter (\<lambda>m. mrID m = scopeMonitorID sc \<and> mrOrganizationID m = scopeOrganizationID sc) (dbMonitors d)))))"

definition candidate_matches :: "confirmation_request \<Rightarrow> candidate_row \<Rightarrow> bool" where
  "candidate_matches r w \<longleftrightarrow> (let c = cwCandidate w in cdID c = crCandidateID r
     \<and> cdOrganizationID c = crOrganizationID r \<and> cdMonitorID c = crMonitorID r
     \<and> cdSourceRevisionNumber c = crRevisionNumber r \<and> cdTriggeringRunID c = crTriggeringRunID r
     \<and> cdTriggeringScheduledFor c = db_instant (crTriggeringScheduledFor r)
     \<and> cdState c = CandidatePending)"

definition load_confirmation_target :: "db \<Rightarrow> confirmation_request \<Rightarrow> schedulable option result" where
  "load_confirmation_target d r =
     (if \<not> sql_exists (candidate_matches r) (dbCandidates d) then Inr None
      else Inr (first_target
        (concat (map (\<lambda>m. map (row_schedulable m)
            (filter (\<lambda>v. rvNumber v = crRevisionNumber r) (latest_revisions d m)))
          (filter (\<lambda>m. mrID m = crMonitorID r \<and> mrOrganizationID m = crOrganizationID r
            \<and> mrState m = ''active'' \<and> mrLatestRevision m = crRevisionNumber r) (dbMonitors d))))))"

definition find_confirmation :: "db \<Rightarrow> string \<Rightarrow> string \<Rightarrow> run option result" where
  "find_confirmation d org candidate =
     first_row (descending (\<lambda>w. nanos (rwScheduledFor w)) (filter (\<lambda>w. rwOrganizationID w = org
       \<and> (case rwCause w of None \<Rightarrow> False | Some c \<Rightarrow> ccCandidateID c = candidate)) (dbRuns d)))"

section \<open>The query service\<close>

definition run_cursor_validate :: "run_cursor \<Rightarrow> unit result" where
  "run_cursor_validate c =
     (if rcID c = '''' \<or> \<not> is_utc (rcScheduledFor c) then
        Inl (ErrText ''a Run cursor requires an identifier and UTC scheduled instant'')
      else Inr ())"

definition list_query_validate :: "list_query \<Rightarrow> unit result" where
  "list_query_validate q =
     (if \<not> is_utc (lqNotBefore q) then Inl (ErrText ''a Run query requires a UTC lower time bound'')
      else and_then (case lqCursor q of None \<Rightarrow> Inr () | Some c \<Rightarrow> run_cursor_validate c) (\<lambda>_.
        if lqPageSize q < 1 \<or> lqPageSize q > MaxPageSize then Inl (ErrText ''a Run page is 1 to 500 rows'')
        else if lqOutcome q \<noteq> OutcomeNone \<and> lqOutcome q \<noteq> OutcomeSkipped
          \<and> \<not> valid_execution_outcome (lqOutcome q) then Inl (ErrText ''unknown Run outcome filter'')
        else if lqKind q \<noteq> KindOther '''' \<and> \<not> valid_kind (lqKind q) then
          Inl (ErrText ''unknown Run kind filter'')
        else if length (lqLocation q) > MaxLocationLength then
          Inl (ErrText ''a Probe Location filter is at most 63 bytes'')
        else Inr ()))"

record run_page =
  pgRuns :: "run list"
  pgNextCursor :: "run_cursor option"

definition query_list :: "db \<Rightarrow> scope \<Rightarrow> list_query \<Rightarrow> run_page option result" where
  "query_list d sc q =
     and_then (scope_validate sc) (\<lambda>_. and_then (list_query_validate q) (\<lambda>_.
     and_then (monitor_exists d sc) (\<lambda>exists.
       if \<not> exists then Inr None
       else and_then (list_runs d sc q) (\<lambda>(values, further).
         if \<not> further then Inr (Some \<lparr>pgRuns = values, pgNextCursor = None\<rparr>)
         else if values = [] then
           Inl (ErrText ''Run query reported another page without returning a row'')
         else let l = last values
              in Inr (Some \<lparr>pgRuns = values, pgNextCursor =
                   Some \<lparr>rcScheduledFor = slScheduledFor (rSlot l), rcID = rID l\<rparr>\<rparr>)))))"

definition query_get :: "db \<Rightarrow> scope \<Rightarrow> string \<Rightarrow> run option result" where
  "query_get d sc i =
     and_then (scope_validate sc) (\<lambda>_.
       if i = '''' then Inl (ErrText ''a Run query requires a Run identifier'') else find_scoped_run d sc i)"

definition get_observation :: "db \<Rightarrow> scope \<Rightarrow> string \<Rightarrow> observation option result" where
  "get_observation d sc i =
     and_then (query_get d sc i) (\<lambda>found. case found of
       None \<Rightarrow> Inr None
     | Some v \<Rightarrow>
         if in_flight v \<or> rOutcome v = OutcomeSkipped then Inr None
         else case find_observation d (scopeOrganizationID sc) i (slScheduledFor (rSlot v)) of
           None \<Rightarrow> Inl (ErrText ''a completed Run has no Observation'')
         | Some x \<Rightarrow> Inr (Some x))"

text \<open>A reader that follows \<open>NextCursor\<close> from the first page, at most \<open>fuel\<close> pages.\<close>

fun read_history :: "nat \<Rightarrow> db \<Rightarrow> scope \<Rightarrow> list_query \<Rightarrow> run list result" where
  "read_history 0 d sc q = Inr []"
| "read_history (Suc fuel) d sc q =
     and_then (query_list d sc q) (\<lambda>p. case p of
       None \<Rightarrow> Inr []
     | Some page \<Rightarrow>
         (case pgNextCursor page of
            None \<Rightarrow> Inr (pgRuns page)
          | Some c \<Rightarrow> and_then (read_history fuel d sc (q\<lparr>lqCursor := Some c\<rparr>))
              (\<lambda>rs. Inr (pgRuns page @ rs))))"

section \<open>Lemmas\<close>

lemma scan_rows_Inr: "scan_rows ws = Inr rs \<longleftrightarrow> list_all2 (\<lambda>w r. scan_run w = Inr r) ws rs"
proof (induction ws arbitrary: rs)
  case Nil
  then show ?case by auto
next
  case (Cons w ws)
  then show ?case by (cases rs) (auto simp: and_then_Inr)
qed

lemma scanned_valid:
  assumes "scan_run w = Inr r"
  shows "rID r \<noteq> ''''" "is_utc (slScheduledFor (rSlot r))"
proof -
  have r: "restore_with_cause (rwID w) (row_slot w) (rwKind w) (outcome_value (rwOutcome w))
      (instant_value (rwStartedAt w)) (instant_value (rwFinishedAt w)) (text_value (rwLeaseHolder w))
      (instant_value (rwLeaseExpiresAt w)) (rwCause w) = Inr r"
    using assms by (simp add: scan_run_def split: sum.splits)
  have "rID r = rwID w" "rSlot r = row_slot w" using scan_run_Inr [OF assms] by simp_all
  moreover have "rwID w \<noteq> ''''" "is_ok (slot_validate (row_slot w))"
    using r by (auto simp: restore_with_cause_def is_ok_iff split: if_splits sum.splits)
  ultimately show "rID r \<noteq> ''''" "is_utc (slScheduledFor (rSlot r))"
    by (auto simp: slot_validate_def is_ok_iff split: if_splits)
qed

lemma scanned_cursor:
  assumes "scan_run w = Inr r" and "is_db_instant (rwScheduledFor w)"
  shows "cursor_key \<lparr>rcScheduledFor = slScheduledFor (rSlot r), rcID = rID r\<rparr> = history_key w"
    and "run_cursor_validate \<lparr>rcScheduledFor = slScheduledFor (rSlot r), rcID = rID r\<rparr> = Inr ()"
  using scan_run_Inr(1,2) [OF assms(1)] scanned_valid [OF assms(1)] assms(2)
  by (simp_all add: cursor_key_def history_key_def row_slot_def run_cursor_validate_def db_instant_id)

lemma in_history_cursor [simp]: "in_history d sc (q\<lparr>lqCursor := c\<rparr>) = in_history d sc q"
  by (rule ext) (simp add: in_history_def)

lemma history_rows:
  assumes "run_db_inv d"
  shows "inj_on history_key (set (filter p (dbRuns d)))" "distinct (filter p (dbRuns d))"
proof -
  note D = run_db_invD [OF assms]
  show "inj_on history_key (set (filter p (dbRuns d)))"
  proof (rule inj_onI)
    fix x y assume *: "x \<in> set (filter p (dbRuns d))" "y \<in> set (filter p (dbRuns d))"
      "history_key x = history_key y"
    then have "is_db_instant (rwScheduledFor x)" "is_db_instant (rwScheduledFor y)"
      using D(3) by (auto simp: stored_row_def)
    then have "run_pk x = run_pk y"
      using *(3) by (simp add: history_key_def run_pk_def is_db_instant_def)
    then show "x = y" using same_pk_row [OF assms] * by simp
  qed
  show "distinct (filter p (dbRuns d))" using unique_on_distinct [OF D(2)] by simp
qed

text \<open>What one page is, when the rows behind it can be read back.\<close>

lemma query_list_page:
  assumes "scope_validate sc = Inr ()" and "monitor_in_db d (scopeMonitorID sc) (scopeOrganizationID sc)"
    and q: "list_query_validate q = Inr ()"
    and xs: "xs = descending history_key (after_cursor history_key (map_option cursor_key (lqCursor q))
      (filter (in_history d sc q) (dbRuns d)))"
    and rs: "scan_rows xs = Inr rs" and n: "n = nat (lqPageSize q)"
  shows "query_list d sc q = Inr (Some (if n < length rs
     then \<lparr>pgRuns = take n rs, pgNextCursor =
       Some \<lparr>rcScheduledFor = slScheduledFor (rSlot (last (take n rs))), rcID = rID (last (take n rs))\<rparr>\<rparr>
     else \<lparr>pgRuns = rs, pgNextCursor = None\<rparr>)) \<and> 0 < n"
proof -
  have size: "1 \<le> lqPageSize q" "lqPageSize q \<le> MaxPageSize"
    using q by (auto simp: list_query_validate_def and_then_Inr)
  have "scan_rows (take (Suc n) xs) = Inr (take (Suc n) rs)"
    using rs unfolding scan_rows_Inr by (rule list_all2_takeI)
  then have "list_runs d sc q = Inr (take n rs, n < length rs)"
    using size by (simp add: list_runs_def Let_def n [symmetric] xs [symmetric])
  moreover have "take n rs \<noteq> []" if "n < length rs" using that size n by auto
  ultimately show ?thesis using assms(1-3) size n by (simp add: query_list_def monitor_exists_def Let_def)
qed

lemma last_take_nth: "0 < n \<Longrightarrow> n < length ys \<Longrightarrow> last (take n ys) = ys ! (n - 1)"
  by (subst last_conv_nth) (auto simp: min_def)

lemma read_history_from:
  assumes inv: "run_db_inv d" and sc: "scope_validate sc = Inr ()"
    and mon: "monitor_in_db d (scopeMonitorID sc) (scopeOrganizationID sc)"
    and q0: "list_query_validate (q\<lparr>lqCursor := None\<rparr>) = Inr ()"
  shows "(case c of None \<Rightarrow> Inr () | Some k \<Rightarrow> run_cursor_validate k) = Inr () \<Longrightarrow>
    scan_rows (descending history_key (after_cursor history_key (map_option cursor_key c)
      (filter (in_history d sc q) (dbRuns d)))) = Inr rs \<Longrightarrow> length rs < f \<Longrightarrow>
    read_history f d sc (q\<lparr>lqCursor := c\<rparr>) = Inr rs"
proof (induction f arbitrary: c rs)
  case (Suc f)
  let ?q = "q\<lparr>lqCursor := c\<rparr>"
  let ?rows = "filter (in_history d sc q) (dbRuns d)"
  define xs where "xs = descending history_key (after_cursor history_key (map_option cursor_key c) ?rows)"
  define n where "n = nat (lqPageSize q)"
  have q: "list_query_validate ?q = Inr ()"
    using q0 Suc.prems(1) by (cases c) (auto simp: list_query_validate_def and_then_Inr)
  have xs': "xs = descending history_key (after_cursor history_key (map_option cursor_key (lqCursor ?q))
      (filter (in_history d sc ?q) (dbRuns d)))" by (simp add: xs_def)
  have rs: "scan_rows xs = Inr rs" using Suc.prems(2) by (simp add: xs_def)
  have pg: "query_list d sc ?q = Inr (Some (if n < length rs
     then \<lparr>pgRuns = take n rs, pgNextCursor =
       Some \<lparr>rcScheduledFor = slScheduledFor (rSlot (last (take n rs))), rcID = rID (last (take n rs))\<rparr>\<rparr>
     else \<lparr>pgRuns = rs, pgNextCursor = None\<rparr>))" and n0: "0 < n"
    using query_list_page [OF sc mon q xs' rs] by (simp_all add: n_def)
  show ?case
  proof (cases "n < length rs")
    case False
    then show ?thesis using pg by simp
  next
    case True
    have all2: "list_all2 (\<lambda>w r. scan_run w = Inr r) xs rs" using rs by (simp add: scan_rows_Inr)
    have len: "n < length xs" using True all2 by (simp add: list_all2_lengthD)
    let ?w = "last (take n xs)" and ?r = "last (take n rs)"
    let ?c = "\<lparr>rcScheduledFor = slScheduledFor (rSlot ?r), rcID = rID ?r\<rparr>"
    have nth: "?w = xs ! (n - 1)" "?r = rs ! (n - 1)"
      using len True n0 by (auto simp: last_take_nth)
    then have sr: "scan_run ?w = Inr ?r" using all2 len by (simp add: list_all2_conv_all_nth)
    have "?w \<in> set xs" using nth(1) len by simp
    then have "?w \<in> set (dbRuns d)" by (auto simp: xs_def after_cursor_def split: option.splits)
    then have "is_db_instant (rwScheduledFor ?w)" using run_db_invD(3) [OF inv] by (simp add: stored_row_def)
    note k = scanned_cursor [OF sr this]
    have rest: "descending history_key (after_cursor history_key (Some (history_key ?w)) ?rows) = drop n xs"
      using next_page [OF history_rows [OF inv] n0 xs_def len] .
    have "read_history f d sc (q\<lparr>lqCursor := Some ?c\<rparr>) = Inr (drop n rs)"
    proof (rule Suc.IH)
      show "scan_rows (descending history_key (after_cursor history_key (map_option cursor_key (Some ?c)) ?rows))
          = Inr (drop n rs)"
        using all2 by (simp add: k(1) rest scan_rows_Inr list_all2_dropI)
      show "length (drop n rs) < f" using Suc.prems(3) True n0 by simp
    qed (simp add: k(2))
    then show ?thesis using pg True by simp
  qed
qed simp

section \<open>Properties\<close>

text \<open>
  C7. Following the cursors from the first page, whatever the page size, reads every Run the query
  selects exactly once, newest first, and then stops.
\<close>

theorem history_pages_are_complete:
  assumes "run_db_inv d" and "scope_validate sc = Inr ()"
    and "monitor_in_db d (scopeMonitorID sc) (scopeOrganizationID sc)"
    and "list_query_validate q = Inr ()" and "lqCursor q = None"
    and "scan_rows (descending history_key (filter (in_history d sc q) (dbRuns d))) = Inr rs"
  shows "read_history (Suc (length rs)) d sc q = Inr rs"
proof -
  have q: "q\<lparr>lqCursor := None\<rparr> = q" using assms(5) by (cases q) simp
  show ?thesis
    using read_history_from [OF assms(1-3), of q None rs "Suc (length rs)"] assms(4,6) q
    by (simp add: after_cursor_def)
qed

definition sample_scope :: scope where
  "sample_scope = \<lparr>scopeOrganizationID = ''org'', scopeMonitorID = ''mon''\<rparr>"

definition sample_query :: list_query where
  "sample_query = \<lparr>lqNotBefore = sample_time, lqCursor = None, lqPageSize = 1, lqOutcome = OutcomeNone,
     lqKind = KindOther '''', lqLocation = ''''\<rparr>"

theorem history_pages_are_complete_witness:
  "read_history 2 sample_db_claimed sample_scope sample_query = Inr [sample_claimed]"
proof -
  have m: "monitor_in_db sample_db_claimed (scopeMonitorID sample_scope) (scopeOrganizationID sample_scope)"
    by (simp add: monitor_in_db_def sample_db_claimed_def sample_db_def sample_scope_def)
  have "in_history sample_db_claimed sample_scope sample_query (claimed_row sample_claimed)"
    using m by (simp add: in_history_def sample_scope_def sample_query_def claimed_row_def slot_row_def
        sample_claimed_def blank_run_def sample_slot_def)
  then have "scan_rows (descending history_key
      (filter (in_history sample_db_claimed sample_scope sample_query) (dbRuns sample_db_claimed)))
      = Inr [sample_claimed]"
    by (simp add: sample_db_claimed_def descending_def sample_scan)
  moreover have "list_query_validate sample_query = Inr ()"
    by (simp add: list_query_validate_def sample_query_def MaxPageSize_def)
  ultimately show ?thesis
    using history_pages_are_complete [OF sample_db_claimed_inv _ m, of sample_query "[sample_claimed]"]
    by (simp add: scope_validate_def sample_scope_def sample_query_def numeral_2_eq_2)
qed

lemma find_scoped_run_Some:
  assumes "find_scoped_run d sc i = Inr (Some v)"
  shows "\<exists>w \<in> set (dbRuns d). scan_run w = Inr v \<and> rwID w = i \<and> rwOrganizationID w = scopeOrganizationID sc"
proof -
  obtain w ws where w: "descending (\<lambda>w. nanos (rwScheduledFor w)) (filter (\<lambda>w. rwID w = i
      \<and> rwMonitorID w = scopeMonitorID sc \<and> rwOrganizationID w = scopeOrganizationID sc
      \<and> monitor_in_db d (rwMonitorID w) (rwOrganizationID w)) (dbRuns d)) = w # ws" "scan_run w = Inr v"
    using assms by (auto simp: find_scoped_run_def first_row_def and_then_Inr split: list.splits)
  have "w \<in> set (w # ws)" by simp
  then show ?thesis using w(2) unfolding w(1) [symmetric] by auto
qed

text \<open>
  The read side never meets the corruption it guards against: on tables that workers' calls
  produced from empty ones, asking for the Observation of a Run does not find a completed Run
  without one.
\<close>

theorem completed_run_has_observation:
  assumes "dbRuns d0 = []" and "dbObservations d0 = []" and "\<forall>c \<in> set calls. proper_call c"
    and "d = fold (apply_call postgres_run_store) calls d0"
  shows "get_observation d sc i \<noteq> Inl (ErrText ''a completed Run has no Observation'')"
proof
  assume err: "get_observation d sc i = Inl (ErrText ''a completed Run has no Observation'')"
  have inv: "run_db_inv d" unfolding assms(4)
    by (rule pg.ok_calls) (use assms(1-3) in \<open>simp_all add: run_db_inv_def\<close>)
  have early: "query_get d sc i \<noteq> Inl (ErrText ''a completed Run has no Observation'')"
    by (auto simp: query_get_def scope_validate_def find_scoped_run_def first_row_def scan_run_def
        and_then_def split: list.splits sum.splits)
  then obtain v where v: "query_get d sc i = Inr (Some v)" "\<not> in_flight v" "rOutcome v \<noteq> OutcomeSkipped"
    "find_observation d (scopeOrganizationID sc) i (slScheduledFor (rSlot v)) = None"
    using err by (cases "query_get d sc i") (auto simp: get_observation_def split: option.splits if_splits)
  have "find_scoped_run d sc i = Inr (Some v)" using v(1) by (auto simp: query_get_def and_then_Inr)
  then obtain w where w: "w \<in> set (dbRuns d)" "scan_run w = Inr v" "rwID w = i"
    "rwOrganizationID w = scopeOrganizationID sc" using find_scoped_run_Some by blast
  note s = scan_run_Inr [OF w(2)]
  have "executed w" using v(2,3) s(5)
    by (auto simp: executed_def in_flight_def outcome_value_def split: option.splits)
  then obtain x where x: "x \<in> set (dbObservations d)" "observes x w"
    using run_db_invD(4) [OF inv w(1)] by blast
  have "is_db_instant (rwScheduledFor w)" using run_db_invD(3) [OF inv w(1)] by (simp add: stored_row_def)
  then have "owScheduledFor x = db_instant (slScheduledFor (rSlot v))"
    using x(2) s(2) by (simp add: observes_def row_slot_def db_instant_id)
  then show False using v(4) x w by (auto simp: find_observation_def find_None_iff observes_def)
qed

theorem completed_run_has_observation_witness:
  "get_observation sample_db sample_scope ''run'' \<noteq> Inl (ErrText ''a completed Run has no Observation'')"
  by (rule completed_run_has_observation [where calls = "[]" and ?d0.0 = sample_db])
    (simp_all add: sample_db_def)

end
