(* ===== verification/Consumer.thy ===== *)
theory Consumer
  imports Database
begin

text \<open>
  The interface of an event consumer. The outbox dispatcher delivers an entry at least once: a
  worker may die between the handler and the removal of the entry, and the lease may run out. A
  handler therefore records the event it has processed in the same transaction as its effects.
  The locale states that contract, and its lemmas what at-least-once delivery gives under it.
\<close>

definition deliveries :: "('a \<Rightarrow> 's \<Rightarrow> 'r result \<times> 's) \<Rightarrow> 'a list \<Rightarrow> 's \<Rightarrow> 's" where
  "deliveries deliver as s = fold (\<lambda>a s. snd (deliver a s)) as s"

lemma deliveries_simps [simp]:
  "deliveries deliver [] s = s"
  "deliveries deliver (a # as) s = deliveries deliver as (snd (deliver a s))"
  by (simp_all add: deliveries_def)

text \<open>
  \<open>deliver\<close> hands one event over; its argument is what differs from delivery to delivery: fresh
  identifiers and the clock. \<open>processed\<close> says that the event is recorded as processed.
\<close>

locale idempotent_consumer =
  fixes deliver :: "'a \<Rightarrow> 's \<Rightarrow> 'r result \<times> 's"
    and processed :: "'s \<Rightarrow> bool"
  assumes failure_changes_nothing: "deliver a s = (Inl e, s') \<Longrightarrow> s' = s"
    and success_is_recorded: "deliver a s = (Inr x, s') \<Longrightarrow> processed s'"
    and recorded_is_skipped: "processed s \<Longrightarrow> snd (deliver a s) = s"
begin

lemma deliveries_after: "processed s \<Longrightarrow> deliveries deliver as s = s"
  by (induction as) (simp_all add: recorded_is_skipped)

lemma exactly_once:
  "deliveries deliver as s = s \<or> (\<exists>a \<in> set as. \<exists>x s'. deliver a s = (Inr x, s') \<and> deliveries deliver as s = s')"
proof (induction as)
  case Nil
  then show ?case by simp
next
  case (Cons a as)
  obtain r s' where d: "deliver a s = (r, s')" by fastforce
  show ?case
  proof (cases r)
    case (Inl e)
    then have "s' = s" using d failure_changes_nothing by simp
    then show ?thesis using d Cons.IH by auto
  next
    case (Inr x)
    then have "deliveries deliver as s' = s'"
      using d success_is_recorded deliveries_after by blast
    then show ?thesis using d Inr by auto
  qed
qed

end

end
