(* ===== verification/HealthStore.thy ===== *)
theory HealthStore
  imports Consumer RunQuery
begin

text \<open>
  Models \<open>internal/postgres/health.go\<close> and \<open>internal/health/service.go\<close>: a recorded Run is folded
  into its Monitor's health in one transaction with the candidates, the transition row and the
  events it gives rise to, and a sweep gives up on Monitors that stopped reporting. The lemmas
  show that the tables keep one consistent history per Monitor, that redelivery changes nothing,
  and which events a transaction publishes.
\<close>

section \<open>Rows\<close>

definition scan_candidate :: "candidate_row \<Rightarrow> candidate" where
  "scan_candidate w = (cwCandidate w)
     \<lparr>cdTriggeringScheduledFor := to_utc (cdTriggeringScheduledFor (cwCandidate w)),
      cdRequestedAt := to_utc (cdRequestedAt (cwCandidate w))\<rparr>"

definition is_candidate :: "string \<Rightarrow> string \<Rightarrow> candidate_row \<Rightarrow> bool" where
  "is_candidate org i w \<longleftrightarrow> cdID (cwCandidate w) = i \<and> cdOrganizationID (cwCandidate w) = org"

definition load_health_candidate :: "db \<Rightarrow> string \<Rightarrow> string \<Rightarrow> candidate option" where
  "load_health_candidate d org i = map_option scan_candidate (find (is_candidate org i) (dbCandidates d))"

definition row_snapshot :: "health_row \<Rightarrow> snapshot" where
  "row_snapshot h =
     \<lparr>snOrganizationID = hwOrganizationID h, snMonitorID = hwMonitorID h, snState = hwState h,
      snStableState = hwStableState h, snPolicyVersion = hwPolicyVersion h, snVersion = hwVersion h,
      snSourceRevisionNumber = (case hwSourceRevision h of None \<Rightarrow> 0 | Some n \<Rightarrow> n),
      snLastScheduledFor = instant_value (hwLastScheduledFor h),
      snLastDeterminateFinishedAt = instant_value (hwLastDeterminateFinishedAt h),
      snLastRunID = text_value (hwLastRunID h),
      snLastRunScheduledFor = instant_value (hwLastRunScheduledFor h),
      snCandidate = None, snCounts = hwCounts h,
      snTransitionedAt = to_utc (hwTransitionedAt h), snUpdatedAt = to_utc (hwUpdatedAt h)\<rparr>"

definition is_health :: "string \<Rightarrow> string \<Rightarrow> health_row \<Rightarrow> bool" where
  "is_health org mon h \<longleftrightarrow> hwMonitorID h = mon \<and> hwOrganizationID h = org"

definition load_health :: "db \<Rightarrow> string \<Rightarrow> string \<Rightarrow> snapshot option result" where
  "load_health d org mon =
     (case find (is_health org mon) (dbHealth d) of
        None \<Rightarrow> Inr None
      | Some h \<Rightarrow>
          (case hwCandidateID h of
             None \<Rightarrow> Inr (Some (row_snapshot h))
           | Some i \<Rightarrow>
               (case load_health_candidate d org i of
                  None \<Rightarrow> Inl (ErrText ''Monitor health names a missing candidate'')
                | Some c \<Rightarrow> Inr (Some ((row_snapshot h)\<lparr>snCandidate := Some c\<rparr>)))))"

text \<open>The row of a snapshot, and the CHECK constraints of \<open>monitor_health\<close>.\<close>

definition null_zero :: "int \<Rightarrow> int option" where
  "null_zero n = (if n = 0 then None else Some n)"

definition snapshot_row :: "snapshot \<Rightarrow> health_row" where
  "snapshot_row s =
     \<lparr>hwMonitorID = snMonitorID s, hwOrganizationID = snOrganizationID s, hwState = snState s,
      hwStableState = snStableState s, hwPolicyVersion = snPolicyVersion s, hwVersion = snVersion s,
      hwSourceRevision = null_zero (snSourceRevisionNumber s),
      hwLastScheduledFor = null_time (snLastScheduledFor s),
      hwLastDeterminateFinishedAt = null_time (snLastDeterminateFinishedAt s),
      hwLastRunID = text_pointer (snLastRunID s),
      hwLastRunScheduledFor = null_time (snLastRunScheduledFor s),
      hwCandidateID = map_option cdID (snCandidate s), hwCounts = snCounts s,
      hwTransitionedAt = db_instant (snTransitionedAt s), hwUpdatedAt = db_instant (snUpdatedAt s)\<rparr>"

definition counts_ok :: "counts \<Rightarrow> bool" where
  "counts_ok c \<longleftrightarrow> 0 \<le> cntConfigured c \<and> 0 \<le> cntEligible c \<and> 0 \<le> cntResponding c \<and> 0 \<le> cntPassing c
     \<and> 0 \<le> cntFailing c \<and> 0 \<le> cntLocationFault c \<and> 0 \<le> cntIndeterminate c \<and> 0 \<le> cntMissing c"

definition health_row_ok :: "health_row \<Rightarrow> bool" where
  "health_row_ok h \<longleftrightarrow> valid_state (hwState h) \<and> valid_stable_state (hwStableState h) \<and> 0 \<le> hwVersion h
     \<and> (case hwSourceRevision h of None \<Rightarrow> True | Some n \<Rightarrow> 1 \<le> n)
     \<and> (hwLastRunID h = None \<longleftrightarrow> hwLastRunScheduledFor h = None) \<and> counts_ok (hwCounts h)"

text \<open>
  \<open>upsertHealth\<close>: the Monitor is the primary key, and a row that exists keeps its Organization.
\<close>

definition upsert_health :: "snapshot \<Rightarrow> db \<Rightarrow> db result" where
  "upsert_health s d =
     (let old = find (\<lambda>h. hwMonitorID h = snMonitorID s) (dbHealth d);
          org = (case old of None \<Rightarrow> snOrganizationID s | Some h \<Rightarrow> hwOrganizationID h);
          h' = (snapshot_row s)\<lparr>hwOrganizationID := org\<rparr>
      in if \<not> health_row_ok h' \<or> \<not> monitor_in_db d (hwMonitorID h') org
           \<or> (case hwCandidateID h' of None \<Rightarrow> False
              | Some i \<Rightarrow> \<not> sql_exists (is_candidate org i) (dbCandidates d))
         then Inl (ErrText ''upsert Monitor health'')
         else if old = None then Inr (d\<lparr>dbHealth := dbHealth d @ [h']\<rparr>)
         else Inr (d\<lparr>dbHealth := sql_update (\<lambda>h. hwMonitorID h = snMonitorID s) (\<lambda>_. h') (dbHealth d)\<rparr>))"

section \<open>Candidates\<close>

definition complete_candidate :: "string \<Rightarrow> candidate \<Rightarrow> go_time \<Rightarrow> db \<Rightarrow> db" where
  "complete_candidate org c now d =
     d\<lparr>dbCandidates := sql_update
         (\<lambda>w. is_candidate org (cdID c) w \<and> cdState (cwCandidate w) = CandidatePending)
         (\<lambda>w. w\<lparr>cwCandidate := (cwCandidate w)\<lparr>cdState := cdState c\<rparr>, cwCompletedAt := Some (db_instant now)\<rparr>)
         (dbCandidates d)\<rparr>"

definition trigger_key :: "candidate \<Rightarrow> string \<times> string \<times> int \<times> direction \<times> string \<times> go_time" where
  "trigger_key c = (cdOrganizationID c, cdMonitorID c, cdSourceRevisionNumber c, cdDirection c,
     cdTriggeringRunID c, db_instant (cdTriggeringScheduledFor c))"

definition candidate_to_row :: "candidate \<Rightarrow> candidate_row" where
  "candidate_to_row c =
     \<lparr>cwCandidate = c\<lparr>cdTriggeringScheduledFor := db_instant (cdTriggeringScheduledFor c),
        cdRequestedAt := db_instant (cdRequestedAt c)\<rparr>,
      cwConfirmation = None, cwCompletedAt = None\<rparr>"

definition candidate_ok :: "candidate \<Rightarrow> bool" where
  "candidate_ok c \<longleftrightarrow> 1 \<le> cdSourceRevisionNumber c
     \<and> cdDirection c \<in> {DirectionFailure, DirectionRecovery}
     \<and> cdExpectedEvidence c \<in> {EvidencePassing, EvidenceFailing}
     \<and> cdState c \<in> {CandidatePending, CandidateConfirmed, CandidateContradicted, CandidateSuperseded,
          CandidateStale}"

definition insert_candidate :: "candidate \<Rightarrow> db \<Rightarrow> db result" where
  "insert_candidate c d =
     (if \<not> candidate_ok c then Inl (ErrText ''insert health candidate'')
      else if sql_exists (\<lambda>w. trigger_key (cwCandidate w) = trigger_key c) (dbCandidates d) then Inr d
      else if sql_exists (\<lambda>w. cdID (cwCandidate w) = cdID c) (dbCandidates d)
           \<or> \<not> monitor_in_db d (cdMonitorID c) (cdOrganizationID c)
      then Inl (ErrText ''insert health candidate'')
      else Inr (d\<lparr>dbCandidates := dbCandidates d @ [candidate_to_row c]\<rparr>))"

definition confirmation_event :: "run_recorded \<Rightarrow> candidate \<Rightarrow> string \<Rightarrow> string \<Rightarrow> go_time \<Rightarrow> confirmation_requested" where
  "confirmation_event e c event_id location now =
     \<lparr>cqEventID = event_id, cqOrganizationID = cdOrganizationID c, cqOccurredAt = now,
      cqAggregateType = ''healthCandidate'', cqAggregateID = cdID c, cqAggregateVersion = 1,
      cqCausationID = rrEventID e, cqCandidateID = cdID c, cqMonitorID = cdMonitorID c,
      cqRevisionNumber = cdSourceRevisionNumber c, cqLocation = location,
      cqTriggeringRunID = cdTriggeringRunID c, cqTriggeringScheduledFor = cdTriggeringScheduledFor c,
      cqRequestedFor = now, cqExpectedEvidence = evidence_text (cdExpectedEvidence c),
      cqPolicyVersion = HealthPolicyVersion\<rparr>"

definition insert_confirmation_request ::
  "run_recorded \<Rightarrow> candidate \<Rightarrow> string \<Rightarrow> string \<Rightarrow> go_time \<Rightarrow> db \<Rightarrow> db result" where
  "insert_confirmation_request e c event_id location now d =
     (case encode_confirmation_requested (confirmation_event e c event_id location now) of
        None \<Rightarrow> Inl (ErrText ''marshal confirmation request'')
      | Some p \<Rightarrow> insert_raw_outbox event_id (cdOrganizationID c) TopicConfirmationRequestedV1 p now d)"

section \<open>Transitions\<close>

definition transition_to_row ::
  "string \<Rightarrow> (string \<times> go_time) option \<Rightarrow> decision \<Rightarrow> go_time \<Rightarrow> transition_row" where
  "transition_to_row i causal dec now =
     (let s = deSnapshot dec
      in \<lparr>twID = i, twOrganizationID = snOrganizationID s, twMonitorID = snMonitorID s,
         twVersion = snVersion s, twOldState = dePreviousState dec, twNewState = snState s,
         twPolicyVersion = snPolicyVersion s, twSourceRevision = null_zero (snSourceRevisionNumber s),
         twCausalRun = causal, twCounts = snCounts s, twOccurredAt = db_instant now\<rparr>)"

definition transition_ok :: "transition_row \<Rightarrow> bool" where
  "transition_ok t \<longleftrightarrow> 1 \<le> twVersion t \<and> valid_state (twOldState t) \<and> valid_state (twNewState t)
     \<and> twOldState t \<noteq> twNewState t"

definition insert_transition :: "transition_row \<Rightarrow> db \<Rightarrow> db result" where
  "insert_transition t d =
     (if \<not> transition_ok t \<or> sql_exists (\<lambda>r. twID r = twID t) (dbTransitions d)
        \<or> sql_exists (\<lambda>r. twMonitorID r = twMonitorID t \<and> twVersion r = twVersion t) (dbTransitions d)
        \<or> \<not> monitor_in_db d (twMonitorID t) (twOrganizationID t)
      then Inl (ErrText ''insert health transition'')
      else Inr (d\<lparr>dbTransitions := dbTransitions d @ [t]\<rparr>))"

definition transition_event :: "string \<Rightarrow> string \<Rightarrow> string \<Rightarrow> decision \<Rightarrow> go_time \<Rightarrow> health_transitioned" where
  "transition_event event_id causation i dec now =
     (let s = deSnapshot dec
      in \<lparr>htEventID = event_id, htOrganizationID = snOrganizationID s, htOccurredAt = now,
         htAggregateType = ''monitorHealth'', htAggregateID = snMonitorID s, htAggregateVersion = snVersion s,
         htCausationID = causation, htTransitionID = i, htMonitorID = snMonitorID s,
         htOldState = state_text (dePreviousState dec), htNewState = state_text (snState s),
         htPolicyVersion = snPolicyVersion s\<rparr>)"

definition publish_transition :: "health_transitioned \<Rightarrow> go_time \<Rightarrow> db \<Rightarrow> db result" where
  "publish_transition ev now d =
     (case encode_health_transitioned ev of
        None \<Rightarrow> Inl (ErrText ''marshal health transition'')
      | Some p \<Rightarrow> insert_raw_outbox (htEventID ev) (htOrganizationID ev) TopicHealthTransitionedV1 p now d)"

record process_ids =
  piCandidateID :: string
  piConfirmationEventID :: string
  piTransitionID :: string
  piTransitionEventID :: string

definition insert_health_transition ::
  "run_recorded \<Rightarrow> decision \<Rightarrow> process_ids \<Rightarrow> go_time \<Rightarrow> db \<Rightarrow> db result" where
  "insert_health_transition e dec ids now d =
     and_then (insert_transition (transition_to_row (piTransitionID ids)
         (Some (rrRunID e, db_instant (rrScheduledFor e))) dec now) d) (\<lambda>d1.
       publish_transition
         (transition_event (piTransitionEventID ids) (rrEventID e) (piTransitionID ids) dec now) now d1)"

section \<open>Processing a recorded Run\<close>

definition store_candidates ::
  "run_recorded \<Rightarrow> process_ids \<Rightarrow> string \<Rightarrow> go_time \<Rightarrow> decision \<Rightarrow> db \<Rightarrow> db result" where
  "store_candidates e ids location now dec d =
     (let d1 = (case deCandidateCompleted dec of
            None \<Rightarrow> d | Some c \<Rightarrow> complete_candidate (rrOrganizationID e) c now d)
      in case deCandidateCreated dec of
           None \<Rightarrow> Inr d1
         | Some c \<Rightarrow> and_then (insert_candidate c d1)
             (insert_confirmation_request e c (piConfirmationEventID ids) location now))"

definition store_decision ::
  "run_recorded \<Rightarrow> process_ids \<Rightarrow> string \<Rightarrow> go_time \<Rightarrow> decision \<Rightarrow> db \<Rightarrow> db result" where
  "store_decision e ids location now dec d =
     and_then (store_candidates e ids location now dec d) (\<lambda>d1.
     and_then (upsert_health (deSnapshot dec) d1) (\<lambda>d2.
       if deTransitioned dec then insert_health_transition e dec ids now d2 else Inr d2))"

definition input_of_run ::
  "run_recorded \<Rightarrow> process_ids \<Rightarrow> monitor_row \<Rightarrow> run_row \<Rightarrow> run_outcome \<Rightarrow> string option \<Rightarrow> go_time \<Rightarrow> health_input" where
  "input_of_run e ids m r oc code now =
     \<lparr>inEventID = rrEventID e, inRunID = rrRunID e, inKind = kind_text (rwKind r),
      inOutcome = outcome_text oc, inFailureCode = text_value code, inRevisionNumber = rwRevision r,
      inLatestRevisionNumber = mrLatestRevision m, inScheduledFor = to_utc (rwScheduledFor r),
      inFinishedAt = instant_value (rwFinishedAt r),
      inCandidateID = (case rwCause r of None \<Rightarrow> '''' | Some c \<Rightarrow> ccCandidateID c),
      inNow = now, inNewCandidateID = piCandidateID ids\<rparr>"

text \<open>The health an evaluation starts from: the stored snapshot, or the initial one.\<close>

definition current_health :: "db \<Rightarrow> string \<Rightarrow> string \<Rightarrow> go_time \<Rightarrow> snapshot result" where
  "current_health d org mon now =
     (case load_health d org mon of
        Inl e \<Rightarrow> Inl e | Inr (Some s) \<Rightarrow> Inr s | Inr None \<Rightarrow> health_initial org mon now)"

definition evaluate_run ::
  "run_recorded \<Rightarrow> process_ids \<Rightarrow> go_time \<Rightarrow> monitor_row \<Rightarrow> run_row \<Rightarrow> run_outcome \<Rightarrow> db \<Rightarrow> db result" where
  "evaluate_run e ids now m r oc d =
     and_then (current_health d (rrOrganizationID e) (rrMonitorID e) now) (\<lambda>s.
       let code = Option.bind (find (\<lambda>w. owRunID w = rwID r \<and> owScheduledFor w = rwScheduledFor r)
              (dbObservations d)) owFailureCode
       in case evaluate s (input_of_run e ids m r oc code now) of
            Inl x \<Rightarrow> Inl (Wrapped ''evaluate Monitor health'' x)
          | Inr dec \<Rightarrow> store_decision e ids (rwLocation r) now dec d)"

definition recorded_run :: "run_recorded \<Rightarrow> run_row \<Rightarrow> bool" where
  "recorded_run e r \<longleftrightarrow> rwID r = rrRunID e \<and> rwScheduledFor r = db_instant (rrScheduledFor e)
     \<and> rwOrganizationID r = rrOrganizationID e"

definition is_monitor :: "string \<Rightarrow> string \<Rightarrow> monitor_row \<Rightarrow> bool" where
  "is_monitor org mon m \<longleftrightarrow> mrID m = mon \<and> mrOrganizationID m = org"

definition event_matches_run :: "run_recorded \<Rightarrow> run_row \<Rightarrow> run_outcome \<Rightarrow> bool" where
  "event_matches_run e r oc \<longleftrightarrow> rwMonitorID r = rrMonitorID e \<and> rwRevision r = rrRevisionNumber e
     \<and> rwLocation r = rrLocation e \<and> kind_text (rwKind r) = rrKind e \<and> outcome_text oc = rrOutcome e
     \<and> time_equal (rwScheduledFor r) (rrScheduledFor e)"

definition process_run_tx :: "run_recorded \<Rightarrow> process_ids \<Rightarrow> go_time \<Rightarrow> db \<Rightarrow> db result" where
  "process_run_tx e ids now d =
     (case find (recorded_run e) (dbRuns d) of None \<Rightarrow> Inl (ErrIs HealthPayloadInvalid) | Some r \<Rightarrow>
      case find (is_monitor (rwOrganizationID r) (rwMonitorID r)) (dbMonitors d) of
        None \<Rightarrow> Inl (ErrIs HealthPayloadInvalid) | Some m \<Rightarrow>
      case rwOutcome r of None \<Rightarrow> Inl (Wrapped ''load Run for health evaluation'' (ErrText ''cannot scan NULL''))
      | Some oc \<Rightarrow>
        if \<not> event_matches_run e r oc then Inl (ErrIs HealthPayloadInvalid)
        else and_then (if mrState m = ''active'' then evaluate_run e ids now m r oc d else Inr d)
          (mark_outbox_event_processed (rrEventID e) (rrOrganizationID e) TopicRunRecordedV1 now))"

definition process_run_recorded :: "db \<Rightarrow> run_recorded \<Rightarrow> process_ids \<Rightarrow> go_time \<Rightarrow> unit result \<times> db" where
  "process_run_recorded d e ids now =
     (if outbox_event_processed (rrEventID e) (rrOrganizationID e) d then (Inr (), d)
      else run_tx (\<lambda>d. and_then (process_run_tx e ids now d) (\<lambda>d'. Inr ((), d'))) d)"

section \<open>Staleness\<close>

record stale_target =
  stOrganizationID :: string
  stMonitorID :: string
  stVersion :: int

text \<open>
  \<open>ListStaleHealth\<close>: both bounds of \<open>StaleAfter\<close> at the precision of the columns, oldest evidence
  first.
\<close>

definition stale_row :: "db \<Rightarrow> go_time \<Rightarrow> duration \<Rightarrow> health_row \<Rightarrow> bool" where
  "stale_row d now ceiling h \<longleftrightarrow>
     (case (find (is_monitor (hwOrganizationID h) (hwMonitorID h)) (dbMonitors d), hwLastDeterminateFinishedAt h) of
        (Some m, Some t) \<Rightarrow> mrState m = ''active'' \<and> hwState h \<noteq> StateUnknown
          \<and> nanos t \<le> nanos (db_instant now) - go_div (wrap64 (2 * ceiling)) 1000 * 1000
          \<and> nanos t \<le> nanos (db_instant now) - mrIntervalSeconds m * 3 * second
      | _ \<Rightarrow> False)"

definition staleness_key :: "health_row \<Rightarrow> int \<times> string" where
  "staleness_key h = (case hwLastDeterminateFinishedAt h of None \<Rightarrow> 0 | Some t \<Rightarrow> nanos t, hwMonitorID h)"

definition list_stale_health :: "db \<Rightarrow> go_time \<Rightarrow> duration \<Rightarrow> int \<Rightarrow> stale_target list result" where
  "list_stale_health d now ceiling limit =
     (if ceiling \<le> 0 \<or> limit < 1 \<or> limit > 100 then
        Inl (ErrText ''stale health query requires positive bounded settings'')
      else Inr (map (\<lambda>h. \<lparr>stOrganizationID = hwOrganizationID h, stMonitorID = hwMonitorID h, stVersion = hwVersion h\<rparr>)
        (take (nat limit) (sort_key staleness_key (filter (stale_row d now ceiling) (dbHealth d))))))"

definition stale_health_tx ::
  "stale_target \<Rightarrow> string \<Rightarrow> string \<Rightarrow> go_time \<Rightarrow> snapshot \<Rightarrow> db \<Rightarrow> db result" where
  "stale_health_tx target tid event_id now s d =
     and_then (mark_stale s now) (\<lambda>dec.
       let d1 = (case deCandidateCompleted dec of
              None \<Rightarrow> d | Some c \<Rightarrow> complete_candidate (stOrganizationID target) (c\<lparr>cdState := CandidateStale\<rparr>) now d)
       in and_then (upsert_health (deSnapshot dec) d1) (\<lambda>d2.
          and_then (insert_transition (transition_to_row tid None dec now) d2) (\<lambda>d3.
            publish_transition (transition_event event_id '''' tid dec now) now d3)))"

definition mark_health_stale_tx ::
  "stale_target \<Rightarrow> string \<Rightarrow> string \<Rightarrow> go_time \<Rightarrow> duration \<Rightarrow> db \<Rightarrow> db result" where
  "mark_health_stale_tx target tid event_id now ceiling d =
     and_then (load_health d (stOrganizationID target) (stMonitorID target)) (\<lambda>found.
       case found of
         None \<Rightarrow> Inr d
       | Some s \<Rightarrow>
           if snVersion s \<noteq> stVersion target \<or> snState s = StateUnknown then Inr d
           else case find (is_monitor (stOrganizationID target) (stMonitorID target)) (dbMonitors d) of
             None \<Rightarrow> Inl (ErrText ''load Monitor for stale health transition'')
           | Some m \<Rightarrow>
               if mrState m \<noteq> ''active'' then Inr d
               else and_then (stale_after (wrap64 (mrIntervalSeconds m * second)) ceiling) (\<lambda>bound.
                 if is_zero (snLastDeterminateFinishedAt s)
                   \<or> before now (time_add (snLastDeterminateFinishedAt s) bound) then Inr d
                 else stale_health_tx target tid event_id now s d))"

definition mark_health_stale ::
  "db \<Rightarrow> stale_target \<Rightarrow> string \<Rightarrow> string \<Rightarrow> go_time \<Rightarrow> duration \<Rightarrow> unit result \<times> db" where
  "mark_health_stale d target tid event_id now ceiling =
     run_tx (\<lambda>d. and_then (mark_health_stale_tx target tid event_id now ceiling d) (\<lambda>d'. Inr ((), d'))) d"

section \<open>The service\<close>

definition validate_run_recorded :: "run_recorded \<Rightarrow> unit result" where
  "validate_run_recorded e =
     (if rrEventID e = '''' \<or> rrOrganizationID e = '''' \<or> rrRunID e = '''' \<or> rrMonitorID e = ''''
        \<or> rrAggregateType e \<noteq> ''run'' \<or> rrAggregateID e \<noteq> rrRunID e \<or> rrAggregateVersion e \<noteq> 1
        \<or> rrRevisionNumber e < 1 \<or> rrLocation e = ''''
        \<or> \<not> is_utc_location (rrOccurredAt e) \<or> \<not> is_utc_location (rrScheduledFor e)
        \<or> rrKind e \<notin> {''scheduled'', ''confirmation'', ''manual''}
        \<or> rrOutcome e \<notin> {''passed'', ''failed'', ''errored'', ''timedout'', ''cancelled'', ''skipped''}
      then Inl (ErrIs HealthPayloadInvalid) else Inr ())"

text \<open>The identifiers a delivery generates, in the order the service asks for them.\<close>

definition health_ids :: "(nat \<Rightarrow> string result) \<Rightarrow> process_ids result" where
  "health_ids uuid =
     and_then (uuid 0) (\<lambda>a. and_then (uuid 1) (\<lambda>b. and_then (uuid 2) (\<lambda>c. and_then (uuid 3) (\<lambda>e.
       Inr \<lparr>piCandidateID = a, piConfirmationEventID = b, piTransitionID = c, piTransitionEventID = e\<rparr>))))"

definition handle_run_recorded ::
  "string \<Rightarrow> string \<Rightarrow> json \<Rightarrow> (nat \<Rightarrow> string result) \<times> go_time \<Rightarrow> db \<Rightarrow> unit result \<times> db" where
  "handle_run_recorded event_id org payload env d =
     (case decode_run_recorded payload of
        None \<Rightarrow> (Inl (ErrIs HealthPayloadInvalid), d)
      | Some e \<Rightarrow>
          if validate_run_recorded e \<noteq> Inr () \<or> rrEventID e \<noteq> event_id then
            (Inl (ErrIs HealthPayloadInvalid), d)
          else if rrOrganizationID e \<noteq> org then (Inl (ErrIs HealthOrganizationMismatch), d)
          else case health_ids (fst env) of
            Inl x \<Rightarrow> (Inl x, d)
          | Inr ids \<Rightarrow> process_run_recorded d e ids (to_utc (snd env)))"

definition get_health :: "db \<Rightarrow> string \<Rightarrow> string \<Rightarrow> snapshot option result" where
  "get_health d org mon =
     (case find (is_monitor org mon) (dbMonitors d) of
        None \<Rightarrow> Inr None
      | Some m \<Rightarrow> and_then (current_health d org mon (to_utc (mrCreatedAt m))) (\<lambda>s. Inr (Some s)))"

definition health_scope_validate :: "scope \<Rightarrow> unit result" where
  "health_scope_validate sc =
     (if scopeOrganizationID sc = '''' \<or> scopeMonitorID sc = '''' then
        Inl (ErrText ''a health query requires Organization, Project, and Monitor identity'')
      else Inr ())"

definition health_get :: "db \<Rightarrow> scope \<Rightarrow> snapshot option result" where
  "health_get d sc =
     and_then (health_scope_validate sc) (\<lambda>_. get_health d (scopeOrganizationID sc) (scopeMonitorID sc))"

text \<open>The sweep stops at the first target that fails; each target takes two identifiers.\<close>

fun sweep_targets ::
  "(nat \<Rightarrow> string result) \<Rightarrow> go_time \<Rightarrow> duration \<Rightarrow> nat \<Rightarrow> stale_target list \<Rightarrow> db \<Rightarrow> (nat \<times> go_error option) \<times> db" where
  "sweep_targets uuid now ceiling k [] d = ((k, None), d)"
| "sweep_targets uuid now ceiling k (t # ts) d =
     (case uuid (2 * k) of Inl e \<Rightarrow> ((k, Some e), d) | Inr tid \<Rightarrow>
      case uuid (2 * k + 1) of Inl e \<Rightarrow> ((k, Some e), d) | Inr event_id \<Rightarrow>
      case mark_health_stale d t tid event_id now ceiling of
        (Inl e, d') \<Rightarrow> ((k, Some e), d')
      | (Inr _, d') \<Rightarrow> sweep_targets uuid now ceiling (Suc k) ts d')"

definition sweep_stale :: "(nat \<Rightarrow> string result) \<Rightarrow> go_time \<Rightarrow> duration \<Rightarrow> db \<Rightarrow> (nat \<times> go_error option) \<times> db" where
  "sweep_stale uuid clock ceiling d =
     (case list_stale_health d (to_utc clock) ceiling 100 of
        Inl e \<Rightarrow> ((0, Some e), d)
      | Inr targets \<Rightarrow> sweep_targets uuid (to_utc clock) ceiling 0 targets d)"

section \<open>Redelivery\<close>

lemma process_run_recorded_result:
  "process_run_recorded d e ids now = (r, d') \<Longrightarrow>
     (case r of Inl x \<Rightarrow> d' = d | Inr u \<Rightarrow> outbox_event_processed (rrEventID e) (rrOrganizationID e) d')"
  by (auto simp: process_run_recorded_def run_tx_def process_run_tx_def and_then_Inr Let_def
      split: if_splits sum.splits option.splits dest!: mark_processed_Inr(1))

lemma process_run_recorded_again:
  "outbox_event_processed (rrEventID e) (rrOrganizationID e) d \<Longrightarrow>
     process_run_recorded d e ids now = (Inr (), d)"
  by (simp add: process_run_recorded_def)

lemma handle_run_recorded_cases:
  assumes "handle_run_recorded i org payload env d = (r, d')"
  obtains x where "r = Inl x" "d' = d"
  | e ids where "decode_run_recorded payload = Some e" "validate_run_recorded e = Inr ()"
      "rrEventID e = i" "rrOrganizationID e = org"
      "process_run_recorded d e ids (to_utc (snd env)) = (r, d')"
  using assms by (auto simp: handle_run_recorded_def split: option.splits if_splits sum.splits)

interpretation health_consumer: idempotent_consumer "handle_run_recorded i org payload" "outbox_event_processed i org"
proof
  show "d' = d" if "handle_run_recorded i org payload env d = (Inl x, d')" for env d x d'
    using that by (cases rule: handle_run_recorded_cases) (auto dest: process_run_recorded_result)
  show "outbox_event_processed i org d'" if "handle_run_recorded i org payload env d = (Inr x, d')" for env d x d'
    using that by (cases rule: handle_run_recorded_cases) (auto dest: process_run_recorded_result)
  show "snd (handle_run_recorded i org payload env d) = d" if "outbox_event_processed i org d" for env d
    using that by (auto simp: handle_run_recorded_def process_run_recorded_again split: option.splits sum.splits)
qed

section \<open>Candidates of a decision\<close>

text \<open>
  What a decision does to candidates: nothing, or it completes the one the snapshot had and leaves
  the one it created, if any.
\<close>

definition candidates_moved :: "snapshot \<Rightarrow> decision \<Rightarrow> string \<Rightarrow> bool" where
  "candidates_moved s d new \<longleftrightarrow>
     (deCandidateCompleted d = None \<and> deCandidateCreated d = None \<and> snCandidate (deSnapshot d) = snCandidate s)
     \<or> ((case snCandidate s of None \<Rightarrow> deCandidateCompleted d = None
         | Some c \<Rightarrow> \<exists>x. deCandidateCompleted d = Some (c\<lparr>cdState := x\<rparr>))
       \<and> snCandidate (deSnapshot d) = deCandidateCreated d
       \<and> (case deCandidateCreated d of None \<Rightarrow> True | Some c \<Rightarrow> cdID c = new))"

lemma candidates_moved_untouched: "untouched s d \<Longrightarrow> candidates_moved s d new"
  by (simp add: candidates_moved_def untouched_simps)

lemma evaluate_scheduled_candidates:
  assumes u: "untouched s d" and e: "evaluate_scheduled d i = Inr d'" and det: "determinate (deEvidence d)"
  shows "candidates_moved s d' (inNewCandidateID i)"
proof -
  define x where "x = supersede_candidate d"
  have x: "snCandidate (deSnapshot x) = None" "deCandidateCreated x = None"
    "deCandidateCompleted x = (case snCandidate s of None \<Rightarrow> None
       | Some c \<Rightarrow> Some (c\<lparr>cdState := CandidateSuperseded\<rparr>))"
    using untouched_simps [OF u] by (simp_all add: x_def supersede_candidate_def split: option.splits)
  have m: "candidates_moved s (set_state x a b t) n" for a b t n
    using x by (cases "snCandidate s") (auto simp: candidates_moved_def)
  have b: "candidates_moved s d' (inNewCandidateID i)" if "begin_candidate x i dir ev = Inr d'" for dir ev
    using that x by (cases "snCandidate s") (auto simp: candidates_moved_def begin_candidate_Inr new_candidate_def)
  show ?thesis using e det
    by (auto simp: evaluate_scheduled_def Let_def x_def [symmetric] intro: m b
        split: health_state.splits if_splits)
qed

lemma evaluate_confirmation_candidates:
  assumes u: "untouched s d" and e: "evaluate_confirmation d i = Inr d'"
  shows "candidates_moved s d' new"
  using e untouched_simps [OF u]
  by (auto simp: evaluate_confirmation_def Let_def candidates_moved_def untouched_simps
      split: option.splits if_splits direction.splits)

lemma evaluate_candidates:
  assumes e: "evaluate s i = Inr d"
  shows "candidates_moved s d (inNewCandidateID i)"
proof -
  have ap: "candidates_moved s d (inNewCandidateID i)"
    if u: "untouched s x" and a: "apply_evidence x i = Inr d" for x
  proof -
    obtain d1 where r: "record_evidence x i = Inr d1"
      using a by (auto simp: apply_evidence_def split: sum.splits)
    have u1: "untouched s d1" using u record_evidence_Inr [OF r] by simp
    have "d = d1" if "\<not> determinate (deEvidence d1)"
      using that a r by (auto simp: apply_evidence_def evaluate_scheduled_def evaluate_confirmation_def
          split: if_splits option.splits)
    then show ?thesis
      using a r u1 evaluate_scheduled_candidates [OF u1] evaluate_confirmation_candidates [OF u1]
        candidates_moved_untouched [OF u1]
      by (cases "determinate (deEvidence d1)") (auto simp: apply_evidence_def split: if_splits)
  qed
  have ap': "apply_evidence (note_schedule (start_decision s i) i) i = Inr d \<Longrightarrow>
      candidates_moved s d (inNewCandidateID i)"
    using ap [of "note_schedule (start_decision s i) i"] by simp
  show ?thesis using e
    by (auto simp: evaluate_def Let_def candidates_moved_untouched split: sum.splits if_splits intro: ap')
qed

lemma mark_stale_candidates:
  assumes "mark_stale s now = Inr d"
  shows "candidates_moved s d new \<and> deCandidateCreated d = None
    \<and> (\<forall>c. deCandidateCompleted d = Some c \<longrightarrow> cdState c = CandidateStale)"
  using assms
  by (auto simp: mark_stale_def Let_def candidates_moved_def split: sum.splits if_splits option.splits)

section \<open>Table invariant\<close>

text \<open>
  Per Monitor, the stored transitions form one chain from \<open>unknown\<close>, and the stored health loads,
  satisfies the invariant of the domain, counts the transitions and is in the state of the last.
\<close>

definition transitions_of :: "db \<Rightarrow> string \<Rightarrow> transition_row list" where
  "transitions_of d mon = filter (\<lambda>t. twMonitorID t = mon) (dbTransitions d)"

definition change_of :: "transition_row \<Rightarrow> health_change" where
  "change_of t = \<lparr>hcOld = twOldState t, hcNew = twNewState t, hcVersion = twVersion t\<rparr>"

definition changes_of :: "db \<Rightarrow> string \<Rightarrow> health_change list" where
  "changes_of d mon = map change_of (transitions_of d mon)"

definition health_of :: "db \<Rightarrow> string \<Rightarrow> health_row option" where
  "health_of d mon = find (\<lambda>h. hwMonitorID h = mon) (dbHealth d)"

definition snapshot_follows :: "snapshot \<Rightarrow> health_change list \<Rightarrow> bool" where
  "snapshot_follows s cs \<longleftrightarrow> health_inv s \<and> chained StateUnknown 0 cs
     \<and> snState s = last_state StateUnknown cs \<and> snVersion s = int (length cs)"

definition monitor_history_ok :: "db \<Rightarrow> string \<Rightarrow> bool" where
  "monitor_history_ok d mon \<longleftrightarrow>
     (case health_of d mon of
        None \<Rightarrow> transitions_of d mon = []
      | Some h \<Rightarrow> \<exists>s. load_health d (hwOrganizationID h) mon = Inr (Some s) \<and> snapshot_follows s (changes_of d mon))"

definition health_db_inv :: "db \<Rightarrow> bool" where
  "health_db_inv d \<longleftrightarrow> unique_on (\<lambda>m. Some (mrID m)) (dbMonitors d)
     \<and> unique_on (\<lambda>h. Some (hwMonitorID h)) (dbHealth d)
     \<and> unique_on (\<lambda>w. Some (cdID (cwCandidate w))) (dbCandidates d)
     \<and> (\<forall>h \<in> set (dbHealth d). monitor_in_db d (hwMonitorID h) (hwOrganizationID h))
     \<and> (\<forall>mon. monitor_history_ok d mon)"

lemma health_of_Some:
  assumes "health_of d mon = Some h"
  shows "h \<in> set (dbHealth d)" "hwMonitorID h = mon"
  using assms by (auto simp: health_of_def find_Some_iff)

text \<open>A Monitor's health is found under the Organization of the Monitor.\<close>

lemma health_org:
  assumes inv: "health_db_inv d" and m: "monitor_in_db d mon org"
  shows "find (is_health org mon) (dbHealth d) = health_of d mon"
    "health_of d mon = Some h \<Longrightarrow> hwOrganizationID h = org"
proof -
  have org: "hwOrganizationID h = org" if "h \<in> set (dbHealth d)" "hwMonitorID h = mon" for h
  proof -
    have "monitor_in_db d mon (hwOrganizationID h)" using inv that by (auto simp: health_db_inv_def)
    then show ?thesis using inv m
      by (auto simp: health_db_inv_def monitor_in_db_def dest: unique_onD)
  qed
  then have "\<And>h. h \<in> set (dbHealth d) \<Longrightarrow> is_health org mon h = (hwMonitorID h = mon)"
    by (auto simp: is_health_def)
  then show "find (is_health org mon) (dbHealth d) = health_of d mon"
    by (simp add: health_of_def cong: find_cong)
  show "hwOrganizationID h = org" if "health_of d mon = Some h"
    using health_of_Some [OF that] org by simp
qed

lemma load_health_cases:
  assumes "load_health d org mon = Inr (Some s)"
  obtains h where "find (is_health org mon) (dbHealth d) = Some h" "hwCandidateID h = None"
      "s = row_snapshot h"
  | h i c where "find (is_health org mon) (dbHealth d) = Some h" "hwCandidateID h = Some i"
      "load_health_candidate d org i = Some c" "s = (row_snapshot h)\<lparr>snCandidate := Some c\<rparr>"
  using assms by (auto simp: load_health_def split: option.splits)

lemma row_snapshot_simps [simp]:
  "snOrganizationID (row_snapshot h) = hwOrganizationID h" "snMonitorID (row_snapshot h) = hwMonitorID h"
  "snCandidate (row_snapshot h) = None" "snState (row_snapshot h) = hwState h"
  "snStableState (row_snapshot h) = hwStableState h" "snVersion (row_snapshot h) = hwVersion h"
  "snPolicyVersion (row_snapshot h) = hwPolicyVersion h"
  by (simp_all add: row_snapshot_def)

lemma load_health_ids:
  assumes "load_health d org mon = Inr (Some s)"
  shows "snOrganizationID s = org" "snMonitorID s = mon"
  using assms by (auto elim!: load_health_cases simp: find_Some_iff is_health_def)

lemma load_candidate_Some:
  assumes "load_health_candidate d org i = Some c"
  shows "cdID c = i" "cdOrganizationID c = org"
    "\<exists>w \<in> set (dbCandidates d). is_candidate org i w \<and> c = scan_candidate w"
  using assms by (auto simp: load_health_candidate_def find_Some_iff is_candidate_def scan_candidate_def)

text \<open>The current health of a Monitor, stored or initial, follows its stored transitions.\<close>

lemma current_health_follows:
  assumes inv: "health_db_inv d" and m: "monitor_in_db d mon org"
    and c: "current_health d org mon now = Inr s"
  shows "snapshot_follows s (changes_of d mon)" "snOrganizationID s = org" "snMonitorID s = mon"
    "snCandidate s = Some x \<Longrightarrow> load_health_candidate d org (cdID x) = Some x"
proof -
  note org = health_org [OF inv m]
  have ok: "monitor_history_ok d mon" using inv by (simp add: health_db_inv_def)
  consider h where "health_of d mon = Some h" "load_health d org mon = Inr (Some s)"
    | "health_of d mon = None" "health_initial org mon now = Inr s"
    using c org(1) by (auto simp: current_health_def load_health_def split: sum.splits option.splits)
  then have all: "snapshot_follows s (changes_of d mon) \<and> snOrganizationID s = org \<and> snMonitorID s = mon
        \<and> (snCandidate s = Some x \<longrightarrow> load_health_candidate d org (cdID x) = Some x)"
  proof cases
    case 1
    then have "snapshot_follows s (changes_of d mon)"
      using ok org(2) by (auto simp: monitor_history_ok_def)
    moreover have "snCandidate s = Some x \<longrightarrow> load_health_candidate d org (cdID x) = Some x"
      using 1(2) load_candidate_Some(1) by (auto elim!: load_health_cases) 
    ultimately show ?thesis using load_health_ids [OF 1(2)] by blast
  next
    case 2
    have "transitions_of d mon = []" using ok 2(1) by (simp add: monitor_history_ok_def)
    then show ?thesis using health_initial_inv [OF 2(2)] 2(2)
      by (auto simp: snapshot_follows_def changes_of_def health_initial_def split: if_splits)
  qed
  then show "snapshot_follows s (changes_of d mon)" "snOrganizationID s = org" "snMonitorID s = mon"
    "snCandidate s = Some x \<Longrightarrow> load_health_candidate d org (cdID x) = Some x" by blast+
qed

section \<open>The invariant is preserved\<close>

definition candidate_kept :: "db \<Rightarrow> db \<Rightarrow> string \<Rightarrow> bool" where
  "candidate_kept d d' i \<longleftrightarrow>
     (\<forall>org c. load_health_candidate d org i = Some c \<longrightarrow> load_health_candidate d' org i = Some c)"

abbreviation unique_candidates :: "db \<Rightarrow> bool" where
  "unique_candidates d \<equiv> unique_on (\<lambda>w. Some (cdID (cwCandidate w))) (dbCandidates d)"

lemma complete_candidate_kept:
  assumes "cdID c \<noteq> i"
  shows "candidate_kept d (complete_candidate org c now d) i"
proof -
  have "find (is_candidate org' i) (dbCandidates (complete_candidate org c now d))
      = find (is_candidate org' i) (dbCandidates d)" for org'
    unfolding complete_candidate_def by (simp, rule find_sql_update_outside)
      (use assms in \<open>auto simp: is_candidate_def\<close>)
  then show ?thesis by (simp add: candidate_kept_def load_health_candidate_def)
qed

lemma complete_candidate_unique:
  "unique_candidates d \<Longrightarrow> unique_candidates (complete_candidate org c now d)"
  by (auto simp: complete_candidate_def intro!: unique_on_sql_update)

lemma insert_candidate_cases:
  assumes "insert_candidate c d = Inr d'"
  obtains "d' = d" "candidate_ok c"
  | "d' = d\<lparr>dbCandidates := dbCandidates d @ [candidate_to_row c]\<rparr>" "candidate_ok c"
      "\<forall>w \<in> set (dbCandidates d). cdID (cwCandidate w) \<noteq> cdID c"
  using assms by (auto simp: insert_candidate_def split: if_splits)

lemma insert_candidate_kept:
  assumes "insert_candidate c d = Inr d'"
  shows "candidate_kept d d' i" "unique_candidates d \<Longrightarrow> unique_candidates d'"
  using assms
  by (auto elim!: insert_candidate_cases simp: candidate_kept_def load_health_candidate_def
      unique_on_append candidate_to_row_def) (blast intro: find_append_Some)

lemma candidate_kept_trans: "candidate_kept d d1 i \<Longrightarrow> candidate_kept d1 d2 i \<Longrightarrow> candidate_kept d d2 i"
  by (simp add: candidate_kept_def)

lemma candidate_kept_same: "dbCandidates d' = dbCandidates d \<Longrightarrow> candidate_kept d d' i"
  by (simp add: candidate_kept_def load_health_candidate_def)

text \<open>An upsert replaces the Monitor's row or adds it, and its foreign keys hold.\<close>

lemma upsert_health_Inr:
  assumes u: "upsert_health s d = Inr d'"
    and org: "\<And>h. health_of d (snMonitorID s) = Some h \<Longrightarrow> hwOrganizationID h = snOrganizationID s"
    and uniq: "unique_on (\<lambda>h. Some (hwMonitorID h)) (dbHealth d)"
  shows "\<exists>hs. d' = d\<lparr>dbHealth := hs\<rparr> \<and> set hs \<subseteq> insert (snapshot_row s) (set (dbHealth d))
      \<and> unique_on (\<lambda>h. Some (hwMonitorID h)) hs
      \<and> (\<forall>m. find (\<lambda>h. hwMonitorID h = m) hs = (if m = snMonitorID s then Some (snapshot_row s) else health_of d m))"
    and "monitor_in_db d (snMonitorID s) (snOrganizationID s)"
    and "\<And>c. snCandidate s = Some c \<Longrightarrow> \<exists>w \<in> set (dbCandidates d). is_candidate (snOrganizationID s) (cdID c) w"
proof -
  let ?P = "\<lambda>h. hwMonitorID h = snMonitorID s"
  define org' where "org' = (case find ?P (dbHealth d) of None \<Rightarrow> snOrganizationID s | Some h \<Rightarrow> hwOrganizationID h)"
  have o: "org' = snOrganizationID s" using org by (simp add: org'_def health_of_def split: option.splits)
  have r: "(snapshot_row s)\<lparr>hwOrganizationID := snOrganizationID s\<rparr> = snapshot_row s"
    by (simp add: snapshot_row_def)
  have m: "hwMonitorID (snapshot_row s) = snMonitorID s" "hwCandidateID (snapshot_row s) = map_option cdID (snCandidate s)"
    by (simp_all add: snapshot_row_def)
  show "monitor_in_db d (snMonitorID s) (snOrganizationID s)"
    and "\<And>c. snCandidate s = Some c \<Longrightarrow> \<exists>w \<in> set (dbCandidates d). is_candidate (snOrganizationID s) (cdID c) w"
    using u by (auto simp: upsert_health_def Let_def org'_def [symmetric] o r m split: if_splits option.splits)
  show "\<exists>hs. d' = d\<lparr>dbHealth := hs\<rparr> \<and> set hs \<subseteq> insert (snapshot_row s) (set (dbHealth d))
      \<and> unique_on (\<lambda>h. Some (hwMonitorID h)) hs
      \<and> (\<forall>m. find (\<lambda>h. hwMonitorID h = m) hs = (if m = snMonitorID s then Some (snapshot_row s) else health_of d m))"
  proof (cases "find ?P (dbHealth d)")
    case None
    then have "d' = d\<lparr>dbHealth := dbHealth d @ [snapshot_row s]\<rparr>"
      using u by (auto simp: upsert_health_def Let_def org'_def [symmetric] o r split: if_splits)
    moreover have "find (\<lambda>h. hwMonitorID h = m') (dbHealth d @ [snapshot_row s])
        = (if m' = snMonitorID s then Some (snapshot_row s) else health_of d m')" for m'
      using None find_append_None [of "\<lambda>h. hwMonitorID h = m'" "dbHealth d" "[snapshot_row s]"]
        find_append_Some [of "\<lambda>h. hwMonitorID h = m'" "dbHealth d" _ "[snapshot_row s]"]
      by (cases "health_of d m'") (auto simp: health_of_def m)
    moreover have "unique_on (\<lambda>h. Some (hwMonitorID h)) (dbHealth d @ [snapshot_row s])"
      using None uniq by (auto simp: unique_on_append find_None_iff m)
    ultimately show ?thesis by auto
  next
    case (Some h)
    let ?hs = "sql_update ?P (\<lambda>_. snapshot_row s) (dbHealth d)"
    have "hwOrganizationID h = snOrganizationID s" using o Some by (simp add: org'_def)
    then have "d' = d\<lparr>dbHealth := ?hs\<rparr>"
      using u Some r by (auto simp: upsert_health_def Let_def split: if_splits)
    moreover have "find (\<lambda>h. hwMonitorID h = m') ?hs
        = (if m' = snMonitorID s then Some (snapshot_row s) else health_of d m')" for m'
    proof (cases "m' = snMonitorID s")
      case True
      then show ?thesis using find_sql_update_hit [of ?P ?P "\<lambda>_. snapshot_row s", OF _ Some] Some m
        by (simp add: find_Some_iff) blast
    next
      case False
      then show ?thesis using m by (simp add: health_of_def, intro find_sql_update_outside) auto
    qed
    moreover have "unique_on (\<lambda>h. Some (hwMonitorID h)) ?hs"
      using uniq by (rule unique_on_sql_update) (simp add: m)
    moreover have "set ?hs \<subseteq> insert (snapshot_row s) (set (dbHealth d))" by (auto simp: set_sql_update)
    ultimately show ?thesis by blast
  qed
qed

lemma health_db_inv_same:
  assumes "dbMonitors d' = dbMonitors d" "dbHealth d' = dbHealth d" "dbCandidates d' = dbCandidates d"
    "dbTransitions d' = dbTransitions d"
  shows "health_db_inv d' = health_db_inv d"
proof -
  have c: "load_health_candidate d' = load_health_candidate d"
    using assms by (simp add: load_health_candidate_def fun_eq_iff)
  have "load_health d' = load_health d"
    by (intro ext) (simp add: load_health_def assms c split: option.split)
  moreover have "transitions_of d' = transitions_of d" using assms by (simp add: transitions_of_def fun_eq_iff)
  ultimately have "monitor_history_ok d' mon = monitor_history_ok d mon" for mon
    using assms by (simp add: monitor_history_ok_def health_of_def changes_of_def split: option.split)
  then show ?thesis using assms by (simp add: health_db_inv_def monitor_in_db_def)
qed

text \<open>
  Storing a decision: the candidates of other Monitors are kept, the candidate the new snapshot
  names, when it can be loaded, fits it, and the Monitor's transitions grow by what was emitted.
\<close>

definition decision_stored ::
  "string \<Rightarrow> string \<Rightarrow> snapshot \<Rightarrow> decision \<Rightarrow> transition_row \<Rightarrow> db \<Rightarrow> db \<Rightarrow> db \<Rightarrow> bool" where
  "decision_stored org mon s dec t d d1 d3 \<longleftrightarrow>
     dbMonitors d1 = dbMonitors d \<and> dbHealth d1 = dbHealth d \<and> dbTransitions d1 = dbTransitions d
     \<and> unique_candidates d1
     \<and> (\<forall>i. (\<forall>x. snCandidate s = Some x \<longrightarrow> cdID x \<noteq> i) \<longrightarrow> candidate_kept d d1 i)
     \<and> (\<forall>c c'. snCandidate (deSnapshot dec) = Some c \<longrightarrow> load_health_candidate d1 org (cdID c) = Some c' \<longrightarrow>
          candidate_fits (deSnapshot dec) c')
     \<and> (\<exists>d2. upsert_health (deSnapshot dec) d1 = Inr d2 \<and> dbMonitors d3 = dbMonitors d2
          \<and> dbHealth d3 = dbHealth d2 \<and> dbCandidates d3 = dbCandidates d2
          \<and> dbTransitions d3 = dbTransitions d2 @ (if deTransitioned dec then [t] else []))
     \<and> twMonitorID t = mon \<and> (deTransitioned dec \<longrightarrow> [change_of t] = emitted dec)"

definition evaluated_from :: "string \<Rightarrow> string \<Rightarrow> snapshot \<Rightarrow> decision \<Rightarrow> db \<Rightarrow> bool" where
  "evaluated_from org mon s dec d \<longleftrightarrow> health_db_inv d \<and> monitor_in_db d mon org
     \<and> snapshot_follows s (changes_of d mon) \<and> snOrganizationID s = org \<and> snMonitorID s = mon
     \<and> (\<forall>x. snCandidate s = Some x \<longrightarrow> load_health_candidate d org (cdID x) = Some x)
     \<and> (\<exists>ev. moved s dec ev) \<and> snOrganizationID (deSnapshot dec) = org \<and> snMonitorID (deSnapshot dec) = mon"

lemma decision_storedI:
  assumes "dbMonitors d1 = dbMonitors d" "dbHealth d1 = dbHealth d" "dbTransitions d1 = dbTransitions d"
    "unique_candidates d1"
    and "\<And>i. (\<And>x. snCandidate s = Some x \<Longrightarrow> cdID x \<noteq> i) \<Longrightarrow> candidate_kept d d1 i"
    and "\<And>c c'. snCandidate (deSnapshot dec) = Some c \<Longrightarrow> load_health_candidate d1 org (cdID c) = Some c' \<Longrightarrow>
      candidate_fits (deSnapshot dec) c'"
    and "upsert_health (deSnapshot dec) d1 = Inr d2"
    and "dbMonitors d3 = dbMonitors d2 \<and> dbHealth d3 = dbHealth d2 \<and> dbCandidates d3 = dbCandidates d2
      \<and> dbTransitions d3 = dbTransitions d2 @ (if deTransitioned dec then [t] else [])"
    and "twMonitorID t = mon" and "deTransitioned dec \<Longrightarrow> [change_of t] = emitted dec"
  shows "decision_stored org mon s dec t d d1 d3"
  unfolding decision_stored_def using assms by blast

lemma stored_tables:
  assumes ev: "evaluated_from org mon s dec d" and st: "decision_stored org mon s dec t d d1 d3"
  shows "set (dbHealth d3) \<subseteq> insert (snapshot_row (deSnapshot dec)) (set (dbHealth d))"
    "unique_on (\<lambda>h. Some (hwMonitorID h)) (dbHealth d3)"
    "health_of d3 m = (if m = mon then Some (snapshot_row (deSnapshot dec)) else health_of d m)"
    "snCandidate (deSnapshot dec) = Some c \<Longrightarrow> \<exists>w \<in> set (dbCandidates d1). is_candidate org (cdID c) w"
    "dbMonitors d3 = dbMonitors d" "dbCandidates d3 = dbCandidates d1"
    "dbTransitions d3 = dbTransitions d @ (if deTransitioned dec then [t] else [])"
proof -
  have inv: "health_db_inv d" "monitor_in_db d mon org" using ev by (auto simp: evaluated_from_def)
  have ids: "snOrganizationID (deSnapshot dec) = org" "snMonitorID (deSnapshot dec) = mon"
    using ev by (auto simp: evaluated_from_def)
  obtain d2 where up: "upsert_health (deSnapshot dec) d1 = Inr d2"
    and d3: "dbMonitors d3 = dbMonitors d2" "dbHealth d3 = dbHealth d2" "dbCandidates d3 = dbCandidates d2"
      "dbTransitions d3 = dbTransitions d2 @ (if deTransitioned dec then [t] else [])"
    and d1: "dbMonitors d1 = dbMonitors d" "dbHealth d1 = dbHealth d" "dbTransitions d1 = dbTransitions d"
    using st by (auto simp: decision_stored_def)
  have h1: "health_of d1 = health_of d" by (simp add: health_of_def d1 fun_eq_iff)
  have org: "hwOrganizationID h = snOrganizationID (deSnapshot dec)"
    if "health_of d1 (snMonitorID (deSnapshot dec)) = Some h" for h
    using health_org(2) [OF inv] that h1 ids by simp
  have un: "unique_on (\<lambda>h. Some (hwMonitorID h)) (dbHealth d1)"
    using inv(1) d1 by (simp add: health_db_inv_def)
  obtain hs where hs: "d2 = d1\<lparr>dbHealth := hs\<rparr>" "set hs \<subseteq> insert (snapshot_row (deSnapshot dec)) (set (dbHealth d1))"
    "unique_on (\<lambda>h. Some (hwMonitorID h)) hs"
    "\<forall>m. find (\<lambda>h. hwMonitorID h = m) hs = (if m = snMonitorID (deSnapshot dec)
       then Some (snapshot_row (deSnapshot dec)) else health_of d1 m)"
    using upsert_health_Inr(1) [OF up org un] by auto
  show "set (dbHealth d3) \<subseteq> insert (snapshot_row (deSnapshot dec)) (set (dbHealth d))"
    "unique_on (\<lambda>h. Some (hwMonitorID h)) (dbHealth d3)"
    "health_of d3 m = (if m = mon then Some (snapshot_row (deSnapshot dec)) else health_of d m)"
    "dbMonitors d3 = dbMonitors d" "dbCandidates d3 = dbCandidates d1"
    "dbTransitions d3 = dbTransitions d @ (if deTransitioned dec then [t] else [])"
    using hs d1 d3 h1 ids by (simp_all add: health_of_def [of d3])
  show "snCandidate (deSnapshot dec) = Some c \<Longrightarrow> \<exists>w \<in> set (dbCandidates d1). is_candidate org (cdID c) w"
    using upsert_health_Inr(3) [OF up org un] ids by simp
qed

lemma stored_changes:
  assumes ev: "evaluated_from org mon s dec d" and st: "decision_stored org mon s dec t d d1 d3"
  shows "changes_of d3 mon = changes_of d mon @ emitted dec"
    "m \<noteq> mon \<Longrightarrow> transitions_of d3 m = transitions_of d m"
proof -
  have t: "twMonitorID t = mon" "deTransitioned dec \<longrightarrow> [change_of t] = emitted dec"
    using st by (auto simp: decision_stored_def)
  show "changes_of d3 mon = changes_of d mon @ emitted dec"
    using t by (auto simp: changes_of_def transitions_of_def stored_tables(7) [OF ev st] emitted_def)
  show "m \<noteq> mon \<Longrightarrow> transitions_of d3 m = transitions_of d m"
    using t by (auto simp: transitions_of_def stored_tables(7) [OF ev st])
qed

lemma stored_own_history:
  assumes ev: "evaluated_from org mon s dec d" and st: "decision_stored org mon s dec t d d1 d3"
  shows "monitor_history_ok d3 mon"
proof -
  let ?S = "deSnapshot dec"
  let ?h = "snapshot_row ?S"
  note T = stored_tables [OF ev st]
  have ids: "snOrganizationID ?S = org" "snMonitorID ?S = mon"
    using ev by (auto simp: evaluated_from_def)
  have sr: "hwOrganizationID ?h = org" "hwMonitorID ?h = mon" "hwCandidateID ?h = map_option cdID (snCandidate ?S)"
    "hwState ?h = snState ?S" "hwVersion ?h = snVersion ?S" "hwStableState ?h = snStableState ?S"
    "hwPolicyVersion ?h = snPolicyVersion ?S"
    using ids by (simp_all add: snapshot_row_def)
  have h: "health_of d3 mon = Some ?h" by (simp add: T(3))
  have fnd: "find (is_health org mon) (dbHealth d3) = Some ?h"
    using find_unique [OF T(2), of ?h "is_health org mon"] health_of_Some [OF h] sr
    by (auto simp: is_health_def)
  have m: "snapshot_follows ?S (changes_of d3 mon)"
    using moved_chain ev by (fastforce simp: snapshot_follows_def stored_changes [OF ev st] evaluated_from_def)
  have "\<exists>x. load_health d3 org mon = Inr (Some x) \<and> snapshot_follows x (changes_of d3 mon)"
  proof (cases "snCandidate ?S")
    case None
    then have "load_health d3 org mon = Inr (Some (row_snapshot ?h))"
      using fnd sr by (simp add: load_health_def)
    moreover have "snapshot_follows (row_snapshot ?h) (changes_of d3 mon)"
      using m None sr ids by (auto simp: snapshot_follows_def health_inv_iff)
    ultimately show ?thesis by blast
  next
    case (Some c)
    obtain w where "w \<in> set (dbCandidates d1)" "is_candidate org (cdID c) w" using T(4) Some by blast
    then obtain c' where c': "load_health_candidate d1 org (cdID c) = Some c'"
      by (cases "load_health_candidate d1 org (cdID c)") (auto simp: load_health_candidate_def find_None_iff)
    have fits: "candidate_fits ?S c'" using st Some c' by (auto simp: decision_stored_def)
    let ?x = "(row_snapshot ?h)\<lparr>snCandidate := Some c'\<rparr>"
    have "load_health_candidate d3 org (cdID c) = Some c'" using c' by (simp add: load_health_candidate_def T(6))
    then have "load_health d3 org mon = Inr (Some ?x)" using fnd sr Some by (simp add: load_health_def)
    moreover have "snapshot_follows ?x (changes_of d3 mon)"
      using m Some sr ids fits by (auto simp: snapshot_follows_def health_inv_iff candidate_fits_def)
    ultimately show ?thesis by blast
  qed
  then show ?thesis using h sr by (simp add: monitor_history_ok_def)
qed

text \<open>Other Monitors keep their health: their candidates are not the one that was completed.\<close>

lemma stored_other_history:
  assumes ev: "evaluated_from org mon s dec d" and st: "decision_stored org mon s dec t d d1 d3" and m: "m \<noteq> mon"
  shows "monitor_history_ok d3 m"
proof -
  note T = stored_tables [OF ev st] and C = stored_changes [OF ev st]
  have inv: "health_db_inv d" using ev by (simp add: evaluated_from_def)
  then have ok: "monitor_history_ok d m" by (simp add: health_db_inv_def)
  have same: "health_of d3 m = health_of d m" "changes_of d3 m = changes_of d m" "transitions_of d3 m = transitions_of d m"
    using m by (simp_all add: T(3) C(2) changes_of_def)
  have "load_health d3 o' m = Inr (Some x)"
    if h: "health_of d m = Some h" "o' = hwOrganizationID h" and l: "load_health d o' m = Inr (Some x)"
      and hx: "health_inv x" for h o' x
  proof -
    have "health_db_inv d" "monitor_in_db d m o'"
      using inv health_of_Some [OF h(1)] h(2) by (auto simp: health_db_inv_def)
    then have f: "find (is_health o' m) (dbHealth d) = Some h" using health_org(1) h(1) by simp
    have f3: "find (is_health o' m) (dbHealth d3) = Some h"
    proof (rule find_unique [OF T(2)])
      have h3: "health_of d3 m = Some h" using same(1) h(1) by simp
      show "hwMonitorID y = hwMonitorID h" if "is_health o' m y" for y
        using health_of_Some [OF h3] h(2) that by (auto simp: is_health_def)
      show "h \<in> set (dbHealth d3)" "is_health o' m h"
        using health_of_Some [OF h3] h(2) by (auto simp: is_health_def)
    qed
    show ?thesis
    proof (cases "hwCandidateID h")
      case None
      then show ?thesis using l f f3 by (simp add: load_health_def)
    next
      case (Some i)
      then obtain c where c: "load_health_candidate d o' i = Some c" "x = (row_snapshot h)\<lparr>snCandidate := Some c\<rparr>"
        using l f by (auto simp: load_health_def split: option.splits)
      then have cm: "cdMonitorID c = m" using hx health_of_Some(2) [OF h(1)]
        by (auto simp: health_inv_iff candidate_fits_def)
      have "cdID y \<noteq> i" if y: "snCandidate s = Some y" for y
      proof
        assume i: "cdID y = i"
        have l: "load_health_candidate d org i = Some y" using ev y i by (auto simp: evaluated_from_def)
        have "cdMonitorID y = mon" using ev y
          by (auto simp: evaluated_from_def snapshot_follows_def health_inv_iff candidate_fits_def)
        moreover have "y = c"
          using load_candidate_Some(3) [OF l] load_candidate_Some(3) [OF c(1)] inv
          by (auto simp: health_db_inv_def is_candidate_def dest: unique_onD)
        ultimately show False using cm m by simp
      qed
      then have "candidate_kept d d1 i" using st by (auto simp: decision_stored_def)
      then have "load_health_candidate d3 o' i = Some c"
        using c(1) T(6) by (auto simp: candidate_kept_def load_health_candidate_def)
      then show ?thesis using f3 Some c(2) by (simp add: load_health_def)
    qed
  qed
  then show ?thesis using ok same by (auto simp: monitor_history_ok_def snapshot_follows_def split: option.splits)
qed

lemma stored_inv:
  assumes ev: "evaluated_from org mon s dec d" and st: "decision_stored org mon s dec t d d1 d3"
  shows "health_db_inv d3"
proof -
  note T = stored_tables [OF ev st]
  have u: "unique_candidates d1" using st by (simp add: decision_stored_def)
  have fk: "monitor_in_db d3 (hwMonitorID h) (hwOrganizationID h)" if "h \<in> set (dbHealth d3)" for h
  proof -
    have "monitor_in_db d (hwMonitorID h) (hwOrganizationID h)"
    proof (cases "h \<in> set (dbHealth d)")
      case False
      then have "h = snapshot_row (deSnapshot dec)" using that T(1) by blast
      then show ?thesis using ev by (simp add: evaluated_from_def snapshot_row_def)
    qed (use ev in \<open>simp add: evaluated_from_def health_db_inv_def\<close>)
    then show ?thesis by (simp add: monitor_in_db_def T(5))
  qed
  have "monitor_history_ok d3 m" for m
    using stored_own_history [OF ev st] stored_other_history [OF ev st] by (cases "m = mon") auto
  then show ?thesis
    using ev u fk T(2,5,6) by (auto simp: health_db_inv_def evaluated_from_def)
qed

definition fresh_candidate :: "string \<Rightarrow> db \<Rightarrow> bool" where
  "fresh_candidate i d \<longleftrightarrow> (\<forall>w \<in> set (dbCandidates d). cdID (cwCandidate w) \<noteq> i)"

lemma fresh_candidate_iff:
  "fresh_candidate i d \<longleftrightarrow> i \<notin> set (map (\<lambda>w. cdID (cwCandidate w)) (dbCandidates d))"
  by (auto simp: fresh_candidate_def)

lemma fresh_complete [simp]: "fresh_candidate i (complete_candidate org c now d) = fresh_candidate i d"
proof -
  have "map (\<lambda>w. cdID (cwCandidate w)) (dbCandidates (complete_candidate org c now d))
      = map (\<lambda>w. cdID (cwCandidate w)) (dbCandidates d)"
    by (simp add: complete_candidate_def sql_update_def)
  then show ?thesis by (simp only: fresh_candidate_iff)
qed

lemma complete_candidate_tables [simp]:
  "dbMonitors (complete_candidate org c now d) = dbMonitors d"
  "dbHealth (complete_candidate org c now d) = dbHealth d"
  "dbTransitions (complete_candidate org c now d) = dbTransitions d"
  "dbOutbox (complete_candidate org c now d) = dbOutbox d"
  "dbOrganizations (complete_candidate org c now d) = dbOrganizations d"
  "dbProcessed (complete_candidate org c now d) = dbProcessed d"
  by (simp_all add: complete_candidate_def)

lemma fresh_not_loaded: "fresh_candidate i d \<Longrightarrow> load_health_candidate d org i = None"
  by (auto simp: fresh_candidate_def load_health_candidate_def find_None_iff is_candidate_def)

lemma inserted_candidate_loaded:
  assumes "insert_candidate c d = Inr d'" and "fresh_candidate (cdID c) d"
    and "load_health_candidate d' org (cdID c) = Some c'"
  shows "c' = scan_candidate (candidate_to_row c)"
  using assms(1)
proof (cases rule: insert_candidate_cases)
  case 1
  then show ?thesis using assms fresh_not_loaded by fastforce
next
  case 2
  have "find (is_candidate org (cdID c)) (dbCandidates d) = None"
    using fresh_not_loaded [OF assms(2), of org] by (simp add: load_health_candidate_def)
  then have "load_health_candidate d' org (cdID c)
      = map_option scan_candidate (find (is_candidate org (cdID c)) [candidate_to_row c])"
    using 2(1) find_append_None [of "is_candidate org (cdID c)"] by (simp add: load_health_candidate_def del: find.simps)
  then show ?thesis using assms(3) by (simp split: if_splits)
qed

lemma insert_candidate_tables:
  assumes "insert_candidate c d = Inr d'"
  shows "\<exists>cs. d' = d\<lparr>dbCandidates := cs\<rparr>"
  using assms by (auto elim!: insert_candidate_cases intro: exI [of _ "dbCandidates d"])

lemma confirmation_request_Inr:
  assumes "insert_confirmation_request e c i location now d = Inr d'"
  shows "\<exists>p. encode_confirmation_requested (confirmation_event e c i location now) = Some p
    \<and> d' = d\<lparr>dbOutbox := dbOutbox d @ [fresh_outbox_row i (cdOrganizationID c) TopicConfirmationRequestedV1 p now]\<rparr>"
  using assms by (auto simp: insert_confirmation_request_def insert_raw_outbox_Inr split: option.splits)

lemma kept_outbox: "candidate_kept d (x\<lparr>dbOutbox := ys\<rparr>) i = candidate_kept d x i"
  by (simp add: candidate_kept_def load_health_candidate_def)

text \<open>What \<open>store_candidates\<close> establishes of the tables it leaves behind.\<close>

lemma store_candidates_stored:
  assumes ev: "evaluated_from org mon s dec d" and cm: "candidates_moved s dec new"
    and fresh: "deCandidateCreated dec \<noteq> None \<Longrightarrow> fresh_candidate new d" and org: "rrOrganizationID e = org"
    and st: "store_candidates e ids location now dec d = Inr d1"
  shows "dbMonitors d1 = dbMonitors d" "dbHealth d1 = dbHealth d" "dbTransitions d1 = dbTransitions d"
    "unique_candidates d1"
    "(\<And>x. snCandidate s = Some x \<Longrightarrow> cdID x \<noteq> i) \<Longrightarrow> candidate_kept d d1 i"
    "snCandidate (deSnapshot dec) = Some c \<Longrightarrow> load_health_candidate d1 org (cdID c) = Some c' \<Longrightarrow>
      candidate_fits (deSnapshot dec) c'"
proof -
  have u: "unique_candidates d" using ev by (simp add: evaluated_from_def health_db_inv_def)
  define d0 where "d0 = (case deCandidateCompleted dec of None \<Rightarrow> d | Some c \<Rightarrow> complete_candidate org c now d)"
  have d0: "dbMonitors d0 = dbMonitors d" "dbHealth d0 = dbHealth d" "dbTransitions d0 = dbTransitions d"
    "unique_candidates d0" "fresh_candidate new d0 = fresh_candidate new d"
    using u complete_candidate_unique by (auto simp: d0_def split: option.splits)
  have k0: "candidate_kept d d0 i" if "\<And>x. snCandidate s = Some x \<Longrightarrow> cdID x \<noteq> i" for i
    using that cm complete_candidate_kept
    by (auto simp: d0_def candidates_moved_def candidate_kept_same split: option.splits)
  have st': "(case deCandidateCreated dec of None \<Rightarrow> Inr d0
      | Some c \<Rightarrow> and_then (insert_candidate c d0) (insert_confirmation_request e c (piConfirmationEventID ids) location now)) = Inr d1"
    using st unfolding store_candidates_def Let_def org d0_def .
  have fits: "candidate_fits (deSnapshot dec) x" if "snCandidate (deSnapshot dec) = Some x" for x
    using ev that by (auto simp: evaluated_from_def moved_def health_inv_iff)
  show "dbMonitors d1 = dbMonitors d" "dbHealth d1 = dbHealth d" "dbTransitions d1 = dbTransitions d"
    using st' d0 by (auto simp: and_then_Inr dest!: confirmation_request_Inr insert_candidate_tables split: option.splits)
  show "unique_candidates d1"
    using st' d0 by (auto simp: and_then_Inr dest!: confirmation_request_Inr insert_candidate_kept(2) split: option.splits)
  show "candidate_kept d d1 i" if i: "\<And>x. snCandidate s = Some x \<Longrightarrow> cdID x \<noteq> i"
    using st' k0 [OF i] insert_candidate_kept(1) candidate_kept_trans candidate_kept_same
    by (auto simp: and_then_Inr candidate_kept_same dest!: confirmation_request_Inr split: option.splits)
      (metis candidate_kept_same candidate_kept_trans insert_candidate_kept(1) kept_outbox)
  show "candidate_fits (deSnapshot dec) c'"
    if c: "snCandidate (deSnapshot dec) = Some c" and l: "load_health_candidate d1 org (cdID c) = Some c'"
  proof (cases "deCandidateCreated dec")
    case None
    then have "deCandidateCompleted dec = None" "snCandidate s = Some c"
      using cm c by (auto simp: candidates_moved_def split: option.splits)
    then have "c' = c" using st' None l ev by (simp add: d0_def evaluated_from_def)
    then show ?thesis using fits c by simp
  next
    case (Some x)
    then have x: "x = c" "cdID c = new" using cm c by (auto simp: candidates_moved_def)
    then obtain d' p where i: "insert_candidate c d0 = Inr d'" "d1 = d'\<lparr>dbOutbox := p\<rparr>"
      using st' Some by (auto simp: and_then_Inr dest!: confirmation_request_Inr)
    have "fresh_candidate (cdID c) d0" using fresh Some x d0(5) by simp
    moreover have "load_health_candidate d' org (cdID c) = Some c'"
      using l i(2) by (simp add: load_health_candidate_def)
    ultimately have "c' = scan_candidate (candidate_to_row c)" by (rule inserted_candidate_loaded [OF i(1)])
    then show ?thesis using fits [OF c] by (simp add: candidate_fits_def scan_candidate_def candidate_to_row_def)
  qed
qed

definition same_ids :: "snapshot \<Rightarrow> decision \<Rightarrow> bool" where
  "same_ids s d \<longleftrightarrow> snOrganizationID (deSnapshot d) = snOrganizationID s
     \<and> snMonitorID (deSnapshot d) = snMonitorID s"

lemma same_ids_simps [simp]:
  "same_ids s (set_state d a b t) = same_ids s d"
  "same_ids s (supersede_candidate d) = same_ids s d"
  "same_ids s (d\<lparr>deCandidateCompleted := y\<rparr>) = same_ids s d"
  "same_ids s (d\<lparr>deCandidateCreated := y\<rparr>) = same_ids s d"
  "same_ids s (d\<lparr>deSnapshot := (deSnapshot d)\<lparr>snCandidate := z\<rparr>\<rparr>) = same_ids s d"
  by (simp_all add: same_ids_def)

lemma untouched_same_ids: "untouched s d \<Longrightarrow> same_ids s d"
  by (simp add: same_ids_def untouched_simps)

lemma evaluate_same_ids:
  assumes "evaluate s i = Inr d"
  shows "same_ids s d"
proof -
  have bg: "same_ids s y" if "begin_candidate x i dir e = Inr y" "same_ids s x" for x y dir e
    using that by (auto simp: begin_candidate_Inr same_ids_def)
  have sch: "same_ids s y" if "evaluate_scheduled x i = Inr y" "same_ids s x" for x y
    using that by (auto simp: evaluate_scheduled_def Let_def split: if_splits health_state.splits dest: bg)
  have con: "same_ids s y" if "evaluate_confirmation x i = Inr y" "same_ids s x" for x y
    using that by (auto simp: evaluate_confirmation_def Let_def split: if_splits option.splits direction.splits)
  have ap: "same_ids s d" if u: "untouched s x" and a: "apply_evidence x i = Inr d" for x
  proof -
    obtain d1 where r: "record_evidence x i = Inr d1"
      using a by (auto simp: apply_evidence_def split: sum.splits)
    have "same_ids s d1" using u record_evidence_Inr(1) [OF r] untouched_same_ids by blast
    then show ?thesis using a r sch con by (auto simp: apply_evidence_def split: if_splits)
  qed
  have ap': "apply_evidence (note_schedule (start_decision s i) i) i = Inr d \<Longrightarrow> same_ids s d"
    using ap [of "note_schedule (start_decision s i) i"] by simp
  show ?thesis using assms
    by (auto simp: evaluate_def Let_def untouched_same_ids split: sum.splits if_splits intro: ap')
qed

lemma mark_stale_same_ids: "mark_stale s now = Inr d \<Longrightarrow> same_ids s d"
  by (auto simp: mark_stale_def Let_def same_ids_def split: sum.splits if_splits option.splits)

lemma publish_transition_Inr:
  assumes "publish_transition ev now d = Inr d'"
  shows "\<exists>p. encode_health_transitioned ev = Some p \<and> d' = d\<lparr>dbOutbox := dbOutbox d
    @ [fresh_outbox_row (htEventID ev) (htOrganizationID ev) TopicHealthTransitionedV1 p now]\<rparr>"
  using assms by (auto simp: publish_transition_def insert_raw_outbox_Inr split: option.splits)

lemma insert_transition_Inr:
  "insert_transition t d = Inr d' \<Longrightarrow> d' = d\<lparr>dbTransitions := dbTransitions d @ [t]\<rparr>"
  by (auto simp: insert_transition_def split: if_splits)

lemma change_of_transition:
  "deTransitioned dec \<Longrightarrow> [change_of (transition_to_row i causal dec now)] = emitted dec"
  by (simp add: change_of_def transition_to_row_def emitted_def Let_def)

lemma twMonitorID_transition: "twMonitorID (transition_to_row i causal dec now) = snMonitorID (deSnapshot dec)"
  by (simp add: transition_to_row_def Let_def)

lemma store_decision_inv:
  assumes ev: "evaluated_from org mon s dec d" and cm: "candidates_moved s dec new"
    and fresh: "deCandidateCreated dec \<noteq> None \<Longrightarrow> fresh_candidate new d" and org: "rrOrganizationID e = org"
    and st: "store_decision e ids location now dec d = Inr d'"
  shows "health_db_inv d'"
proof -
  obtain d1 d2 where s1: "store_candidates e ids location now dec d = Inr d1"
    and s2: "upsert_health (deSnapshot dec) d1 = Inr d2"
    and s3: "(if deTransitioned dec then insert_health_transition e dec ids now d2 else Inr d2) = Inr d'"
    using st by (auto simp: store_decision_def and_then_Inr)
  note S = store_candidates_stored [OF ev cm fresh org s1]
  let ?t = "transition_to_row (piTransitionID ids) (Some (rrRunID e, db_instant (rrScheduledFor e))) dec now"
  have mon: "snMonitorID (deSnapshot dec) = mon" using ev by (simp add: evaluated_from_def)
  have "dbMonitors d' = dbMonitors d2 \<and> dbHealth d' = dbHealth d2 \<and> dbCandidates d' = dbCandidates d2
      \<and> dbTransitions d' = dbTransitions d2 @ (if deTransitioned dec then [?t] else [])"
    using s3 by (auto simp: insert_health_transition_def and_then_Inr split: if_splits
        dest!: publish_transition_Inr insert_transition_Inr)
  then have "decision_stored org mon s dec ?t d d1 d'"
    using mon by (intro decision_storedI [OF S s2]) (simp_all add: twMonitorID_transition change_of_transition)
  then show ?thesis by (rule stored_inv [OF ev])
qed

lemma mark_processed_keeps_health:
  "mark_outbox_event_processed i org topic t d = Inr d' \<Longrightarrow> health_db_inv d' = health_db_inv d"
  by (rule health_db_inv_same) (auto dest!: mark_processed_Inr(2))

lemma evaluate_run_Inr:
  assumes "evaluate_run e ids now m r oc d = Inr d'"
  obtains s code dec where "current_health d (rrOrganizationID e) (rrMonitorID e) now = Inr s"
    "evaluate s (input_of_run e ids m r oc code now) = Inr dec"
    "store_decision e ids (rwLocation r) now dec d = Inr d'"
proof -
  define code where "code = Option.bind (find (\<lambda>w. owRunID w = rwID r \<and> owScheduledFor w = rwScheduledFor r)
    (dbObservations d)) owFailureCode"
  obtain s where s: "current_health d (rrOrganizationID e) (rrMonitorID e) now = Inr s"
    and k: "(case evaluate s (input_of_run e ids m r oc code now) of
        Inl x \<Rightarrow> Inl (Wrapped ''evaluate Monitor health'' x)
      | Inr dec \<Rightarrow> store_decision e ids (rwLocation r) now dec d) = Inr d'"
    using assms unfolding evaluate_run_def and_then_Inr Let_def code_def by blast
  show thesis using that [OF s] k by (cases "evaluate s (input_of_run e ids m r oc code now)") auto
qed

lemma run_evaluated_from:
  assumes inv: "health_db_inv d" and m: "monitor_in_db d mon org"
    and c: "current_health d org mon now = Inr s" and e: "evaluate s i = Inr dec"
  shows "evaluated_from org mon s dec d"
proof -
  note C = current_health_follows [OF inv m c]
  have "health_inv s" using C(1) by (simp add: snapshot_follows_def)
  then show ?thesis
    using inv m C evaluate_moved [OF _ e] evaluate_same_ids [OF e]
    by (auto simp: evaluated_from_def same_ids_def)
qed

lemma process_run_changed:
  assumes "process_run_recorded d e ids now = (r, d')" and "d' \<noteq> d"
  obtains w m oc d1 where "find (recorded_run e) (dbRuns d) = Some w"
    "find (is_monitor (rwOrganizationID w) (rwMonitorID w)) (dbMonitors d) = Some m"
    "event_matches_run e w oc"
    "(if mrState m = ''active'' then evaluate_run e ids now m w oc d else Inr d) = Inr d1"
    "mark_outbox_event_processed (rrEventID e) (rrOrganizationID e) TopicRunRecordedV1 now d1 = Inr d'"
proof -
  have tx: "process_run_tx e ids now d = Inr d'"
    using assms by (auto simp: process_run_recorded_def run_tx_def and_then_Inr split: if_splits sum.splits)
  then show thesis by (auto simp: process_run_tx_def and_then_Inr split: option.splits if_splits intro: that)
qed

lemma process_run_recorded_inv:
  assumes inv: "health_db_inv d" and fresh: "fresh_candidate (piCandidateID ids) d"
    and p: "process_run_recorded d e ids now = (r, d')"
  shows "health_db_inv d'"
proof (cases "d' = d")
  case False
  with p obtain w m oc d1 where w: "find (recorded_run e) (dbRuns d) = Some w"
    "find (is_monitor (rwOrganizationID w) (rwMonitorID w)) (dbMonitors d) = Some m"
    "event_matches_run e w oc"
    and d1: "(if mrState m = ''active'' then evaluate_run e ids now m w oc d else Inr d) = Inr d1"
    and d': "mark_outbox_event_processed (rrEventID e) (rrOrganizationID e) TopicRunRecordedV1 now d1 = Inr d'"
    by (rule process_run_changed)
  have ids: "rwOrganizationID w = rrOrganizationID e" "rwMonitorID w = rrMonitorID e"
    using find_holds [OF w(1)] w(3) by (simp_all add: recorded_run_def event_matches_run_def)
  have mon: "monitor_in_db d (rrMonitorID e) (rrOrganizationID e)"
    using find_holds [OF w(2)] ids by (auto simp: monitor_in_db_def is_monitor_def)
  have "health_db_inv d1"
  proof (cases "mrState m = ''active''")
    case True
    obtain s code dec where s: "current_health d (rrOrganizationID e) (rrMonitorID e) now = Inr s"
      "evaluate s (input_of_run e ids m w oc code now) = Inr dec"
      "store_decision e ids (rwLocation w) now dec d = Inr d1"
      using d1 True by (auto elim: evaluate_run_Inr)
    have cm: "candidates_moved s dec (piCandidateID ids)"
      using evaluate_candidates [OF s(2)] by (simp add: input_of_run_def)
    show ?thesis
      by (rule store_decision_inv [OF run_evaluated_from [OF inv mon s(1,2)] cm fresh refl s(3)])
  qed (use inv d1 in simp)
  then show ?thesis using mark_processed_keeps_health [OF d'] by simp
qed (use inv in simp)

text \<open>What a change by the sweep means: the Monitor was stale and is now \<open>unknown\<close>.\<close>

lemma mark_health_stale_changed:
  assumes "mark_health_stale d target tid event_id now ceiling = (r, d')" and "d' \<noteq> d"
  obtains s m bound where "load_health d (stOrganizationID target) (stMonitorID target) = Inr (Some s)"
    "snVersion s = stVersion target" "snState s \<noteq> StateUnknown"
    "find (is_monitor (stOrganizationID target) (stMonitorID target)) (dbMonitors d) = Some m"
    "mrState m = ''active''" "stale_after (wrap64 (mrIntervalSeconds m * second)) ceiling = Inr bound"
    "\<not> before now (time_add (snLastDeterminateFinishedAt s) bound)"
    "stale_health_tx target tid event_id now s d = Inr d'"
proof -
  have tx: "mark_health_stale_tx target tid event_id now ceiling d = Inr d'"
    using assms by (auto simp: mark_health_stale_def run_tx_def and_then_Inr split: sum.splits)
  obtain s where s: "load_health d (stOrganizationID target) (stMonitorID target) = Inr (Some s)"
    using tx assms(2) by (auto simp: mark_health_stale_tx_def and_then_Inr split: option.splits)
  have v: "snVersion s = stVersion target" "snState s \<noteq> StateUnknown"
    using tx assms(2) s by (auto simp: mark_health_stale_tx_def split: if_splits)
  obtain m where m: "find (is_monitor (stOrganizationID target) (stMonitorID target)) (dbMonitors d) = Some m"
    using tx s v by (auto simp: mark_health_stale_tx_def split: option.splits)
  have a: "mrState m = ''active''" using tx assms(2) s v m by (auto simp: mark_health_stale_tx_def split: if_splits)
  show thesis using tx assms(2) s v m a
    by (auto simp: mark_health_stale_tx_def and_then_Inr split: if_splits intro: that)
qed

lemma mark_health_stale_stored:
  assumes inv: "health_db_inv d" and p: "mark_health_stale d target tid event_id now ceiling = (r, d')" and "d' \<noteq> d"
  obtains s m bound dec d1 where "load_health d (stOrganizationID target) (stMonitorID target) = Inr (Some s)"
    "find (is_monitor (stOrganizationID target) (stMonitorID target)) (dbMonitors d) = Some m"
    "mrState m = ''active''" "stale_after (wrap64 (mrIntervalSeconds m * second)) ceiling = Inr bound"
    "\<not> before now (time_add (snLastDeterminateFinishedAt s) bound)" "mark_stale s now = Inr dec"
    "snState s \<noteq> StateUnknown"
    "evaluated_from (stOrganizationID target) (stMonitorID target) s dec d"
    "decision_stored (stOrganizationID target) (stMonitorID target) s dec (transition_to_row tid None dec now) d d1 d'"
  using p assms(3)
proof (cases rule: mark_health_stale_changed)
  case (1 s m bound)
  let ?org = "stOrganizationID target" and ?mon = "stMonitorID target"
  obtain dec d1 d2 d3 where dec: "mark_stale s now = Inr dec"
    and d1: "d1 = (case deCandidateCompleted dec of None \<Rightarrow> d
      | Some c \<Rightarrow> complete_candidate ?org (c\<lparr>cdState := CandidateStale\<rparr>) now d)"
    and d2: "upsert_health (deSnapshot dec) d1 = Inr d2"
    and d3: "insert_transition (transition_to_row tid None dec now) d2 = Inr d3"
    and d': "publish_transition (transition_event event_id '''' tid dec now) now d3 = Inr d'"
    using 1(8) by (auto simp: stale_health_tx_def and_then_Inr Let_def)
  have mon: "monitor_in_db d ?mon ?org" using find_holds [OF 1(4)] by (auto simp: monitor_in_db_def is_monitor_def)
  have cur: "current_health d ?org ?mon now = Inr s" using 1(1) by (simp add: current_health_def)
  note C = current_health_follows [OF inv mon cur]
  have hs: "health_inv s" using C(1) by (simp add: snapshot_follows_def)
  have ev: "evaluated_from ?org ?mon s dec d"
    using inv mon C mark_stale_moved [OF hs dec] mark_stale_same_ids [OF dec]
    by (auto simp: evaluated_from_def same_ids_def)
  have cm: "candidates_moved s dec ''''" "deCandidateCreated dec = None"
    using mark_stale_candidates [OF dec] by auto
  have tr: "deTransitioned dec" using mark_stale_moved [OF hs dec] 1(3) dec
    by (auto simp: moved_def health_abs_def mark_stale_def Let_def split: sum.splits if_splits)
  have none: "snCandidate (deSnapshot dec) = None"
    using dec 1(3) by (auto simp: mark_stale_def Let_def split: sum.splits if_splits option.splits)
  have u: "unique_candidates d" using inv by (simp add: health_db_inv_def)
  have "decision_stored ?org ?mon s dec (transition_to_row tid None dec now) d d1 d'"
  proof (rule decision_storedI [OF _ _ _ _ _ _ d2])
    show "dbMonitors d1 = dbMonitors d" "dbHealth d1 = dbHealth d" "dbTransitions d1 = dbTransitions d"
      by (simp_all add: d1 split: option.split)
    show "unique_candidates d1" using u complete_candidate_unique by (auto simp: d1 split: option.split)
    show "candidate_kept d d1 i" if "\<And>x. snCandidate s = Some x \<Longrightarrow> cdID x \<noteq> i" for i
      using that cm complete_candidate_kept
      by (auto simp: d1 candidates_moved_def candidate_kept_same split: option.splits)
    show "dbMonitors d' = dbMonitors d2 \<and> dbHealth d' = dbHealth d2 \<and> dbCandidates d' = dbCandidates d2
        \<and> dbTransitions d' = dbTransitions d2
          @ (if deTransitioned dec then [transition_to_row tid None dec now] else [])"
      using tr publish_transition_Inr [OF d'] insert_transition_Inr [OF d3] by auto
  qed (use ev none in \<open>simp_all add: twMonitorID_transition change_of_transition evaluated_from_def\<close>)
  then show ?thesis by (rule that [OF 1(1,4,5,6,7) dec 1(3) ev])
qed

lemma mark_health_stale_inv:
  assumes inv: "health_db_inv d" and p: "mark_health_stale d target tid event_id now ceiling = (r, d')"
  shows "health_db_inv d'"
  using inv mark_health_stale_stored [OF inv p] stored_inv by metis

section \<open>Health of all Monitors over time\<close>

text \<open>
  What workers do to the health tables: deliver recorded Runs, each delivery with a candidate
  identifier no candidate has yet, and sweep stale Monitors, in any order.
\<close>

inductive health_step :: "db \<Rightarrow> db \<Rightarrow> bool" where
  delivered: "fresh_candidate (piCandidateID ids) d \<Longrightarrow> process_run_recorded d e ids now = (r, d') \<Longrightarrow> health_step d d'"
| swept: "mark_health_stale d target tid event_id now ceiling = (r, d') \<Longrightarrow> health_step d d'"

inductive_cases health_stepE: "health_step d d'"

lemma health_step_inv: "health_step d d' \<Longrightarrow> health_db_inv d \<Longrightarrow> health_db_inv d'"
  by (auto elim!: health_stepE dest: process_run_recorded_inv mark_health_stale_inv)

lemma health_steps_inv: "health_step\<^sup>*\<^sup>* d d' \<Longrightarrow> health_db_inv d \<Longrightarrow> health_db_inv d'"
  by (induction rule: rtranclp_induct) (auto dest: health_step_inv)

lemma health_db_inv_empty:
  assumes "dbHealth d = []" "dbCandidates d = []" "dbTransitions d = []"
    and "unique_on (\<lambda>m. Some (mrID m)) (dbMonitors d)"
  shows "health_db_inv d"
  using assms by (simp add: health_db_inv_def monitor_history_ok_def health_of_def transitions_of_def)

text \<open>
  What a step adds to the transitions and the outbox: each new transition is published by an entry
  of its own, in the same transaction.
\<close>

definition published_as :: "transition_row \<Rightarrow> outbox_row \<Rightarrow> bool" where
  "published_as t x \<longleftrightarrow> xwTopic x = TopicHealthTransitionedV1 \<and> xwOrganizationID x = twOrganizationID t
     \<and> xwAttempts x = 0 \<and> xwLeaseHolder x = None
     \<and> (\<exists>ev. encode_health_transitioned ev = Some (xwPayload x) \<and> htEventID ev = xwID x
         \<and> htOrganizationID ev = twOrganizationID t \<and> htTransitionID ev = twID t \<and> htMonitorID ev = twMonitorID t
         \<and> htAggregateVersion ev = twVersion t \<and> htOldState ev = state_text (twOldState t)
         \<and> htNewState ev = state_text (twNewState t) \<and> htPolicyVersion ev = twPolicyVersion t)"

definition adds_published :: "db \<Rightarrow> db \<Rightarrow> bool" where
  "adds_published d d' \<longleftrightarrow> (\<exists>ts cs xs. dbTransitions d' = dbTransitions d @ ts
     \<and> dbOutbox d' = dbOutbox d @ cs @ xs \<and> list_all (\<lambda>x. xwTopic x = TopicConfirmationRequestedV1) cs
     \<and> list_all2 published_as ts xs)"

lemma adds_nothing: "dbTransitions d' = dbTransitions d \<Longrightarrow> dbOutbox d' = dbOutbox d \<Longrightarrow> adds_published d d'"
  by (simp add: adds_published_def)

lemma published_transition:
  assumes "publish_transition (transition_event i causation tid dec now) now d = Inr d'"
  shows "\<exists>x. d' = d\<lparr>dbOutbox := dbOutbox d @ [x]\<rparr> \<and> published_as (transition_to_row tid causal dec now) x"
proof -
  let ?ev = "transition_event i causation tid dec now"
  obtain p where p: "encode_health_transitioned ?ev = Some p" "d' = d\<lparr>dbOutbox := dbOutbox d
      @ [fresh_outbox_row (htEventID ?ev) (htOrganizationID ?ev) TopicHealthTransitionedV1 p now]\<rparr>"
    using publish_transition_Inr [OF assms] by blast
  have "published_as (transition_to_row tid causal dec now)
      (fresh_outbox_row (htEventID ?ev) (htOrganizationID ?ev) TopicHealthTransitionedV1 p now)"
    unfolding published_as_def
    by (intro conjI exI [of _ ?ev])
      (use p(1) in \<open>simp_all add: fresh_outbox_row_def transition_event_def transition_to_row_def Let_def\<close>)
  then show ?thesis using p(2) by blast
qed

lemma upsert_tables:
  "upsert_health s d = Inr d' \<Longrightarrow> \<exists>hs. d' = d\<lparr>dbHealth := hs\<rparr>"
  by (auto simp: upsert_health_def Let_def split: if_splits)

lemma mark_processed_tables:
  "mark_outbox_event_processed i org topic t d = Inr d' \<Longrightarrow>
     dbTransitions d' = dbTransitions d \<and> dbOutbox d' = dbOutbox d"
  by (auto dest!: mark_processed_Inr(2))

lemma store_candidates_outbox:
  assumes "store_candidates e ids location now dec d = Inr d1"
  shows "dbTransitions d1 = dbTransitions d
    \<and> (\<exists>cs. dbOutbox d1 = dbOutbox d @ cs \<and> list_all (\<lambda>x. xwTopic x = TopicConfirmationRequestedV1) cs)"
proof -
  let ?d0 = "case deCandidateCompleted dec of None \<Rightarrow> d | Some c \<Rightarrow> complete_candidate (rrOrganizationID e) c now d"
  have "dbTransitions ?d0 = dbTransitions d" "dbOutbox ?d0 = dbOutbox d" by (simp_all split: option.split)
  then show ?thesis using assms unfolding store_candidates_def Let_def
    by (auto simp: and_then_Inr fresh_outbox_row_def split: option.splits
        dest!: confirmation_request_Inr insert_candidate_tables)
qed

lemma store_decision_publishes:
  assumes "store_decision e ids location now dec d = Inr d'"
  shows "adds_published d d'"
proof -
  obtain d1 d2 where s1: "store_candidates e ids location now dec d = Inr d1"
    and s2: "upsert_health (deSnapshot dec) d1 = Inr d2"
    and s3: "(if deTransitioned dec then insert_health_transition e dec ids now d2 else Inr d2) = Inr d'"
    using assms by (auto simp: store_decision_def and_then_Inr)
  obtain cs where cs: "dbOutbox d1 = dbOutbox d @ cs" "list_all (\<lambda>x. xwTopic x = TopicConfirmationRequestedV1) cs"
    and t: "dbTransitions d1 = dbTransitions d"
    using store_candidates_outbox [OF s1] by blast
  have d2: "dbOutbox d2 = dbOutbox d1" "dbTransitions d2 = dbTransitions d1" using upsert_tables [OF s2] by auto
  show ?thesis
  proof (cases "deTransitioned dec")
    case True
    let ?t = "transition_to_row (piTransitionID ids) (Some (rrRunID e, db_instant (rrScheduledFor e))) dec now"
    obtain d3 where d3: "insert_transition ?t d2 = Inr d3"
      "publish_transition (transition_event (piTransitionEventID ids) (rrEventID e) (piTransitionID ids) dec now) now d3 = Inr d'"
      using s3 True by (auto simp: insert_health_transition_def and_then_Inr)
    obtain x where x: "d' = d3\<lparr>dbOutbox := dbOutbox d3 @ [x]\<rparr>" "published_as ?t x"
      using published_transition [OF d3(2)] by blast
    have "dbTransitions d' = dbTransitions d @ [?t]" "dbOutbox d' = dbOutbox d @ cs @ [x]"
      using x(1) insert_transition_Inr [OF d3(1)] cs t d2 by simp_all
    moreover have "list_all2 published_as [?t] [x]" using x(2) by simp
    ultimately show ?thesis unfolding adds_published_def using cs(2) by blast
  next
    case False
    then have "dbTransitions d' = dbTransitions d @ []" "dbOutbox d' = dbOutbox d @ cs @ []"
      using s3 cs t d2 by simp_all
    then show ?thesis unfolding adds_published_def using cs(2) by (metis list_all2_Nil)
  qed
qed

lemma health_step_publishes:
  assumes "health_step d d'"
  shows "adds_published d d'"
proof -
  consider ids e now r where "process_run_recorded d e ids now = (r, d')"
    | target tid event_id now ceiling r where "mark_health_stale d target tid event_id now ceiling = (r, d')"
    using assms by (auto elim!: health_stepE)
  then show ?thesis
proof cases
  case 1
  show ?thesis
  proof (cases "d' = d")
    case False
    with 1 obtain m w oc d1 where d1: "(if mrState m = ''active'' then evaluate_run e ids now m w oc d else Inr d) = Inr d1"
      and d': "mark_outbox_event_processed (rrEventID e) (rrOrganizationID e) TopicRunRecordedV1 now d1 = Inr d'"
      by (rule process_run_changed)
    have "adds_published d d1"
      using d1 by (auto simp: adds_nothing split: if_splits elim!: evaluate_run_Inr dest: store_decision_publishes)
    then show ?thesis using mark_processed_tables [OF d'] by (simp add: adds_published_def)
  qed (simp add: adds_nothing)
next
  case 2
  show ?thesis
  proof (cases "d' = d")
    case False
    with 2 obtain s where "stale_health_tx target tid event_id now s d = Inr d'"
      by (elim mark_health_stale_changed) auto
    then obtain dec d2 d3 where s2: "upsert_health (deSnapshot dec) (case deCandidateCompleted dec of None \<Rightarrow> d
        | Some c \<Rightarrow> complete_candidate (stOrganizationID target) (c\<lparr>cdState := CandidateStale\<rparr>) now d) = Inr d2"
      and d3: "insert_transition (transition_to_row tid None dec now) d2 = Inr d3"
      and d': "publish_transition (transition_event event_id '''' tid dec now) now d3 = Inr d'"
      by (auto simp: stale_health_tx_def and_then_Inr Let_def)
    obtain x where x: "d' = d3\<lparr>dbOutbox := dbOutbox d3 @ [x]\<rparr>" "published_as (transition_to_row tid None dec now) x"
      using published_transition [OF d'] by blast
    have "dbTransitions d2 = dbTransitions d" "dbOutbox d2 = dbOutbox d"
      using upsert_tables [OF s2] by (auto split: option.splits)
    then have "dbTransitions d' = dbTransitions d @ [transition_to_row tid None dec now]"
      "dbOutbox d' = dbOutbox d @ [] @ [x]"
      using x(1) insert_transition_Inr [OF d3] by simp_all
    moreover have "list_all2 published_as [transition_to_row tid None dec now] [x]" using x(2) by simp
    moreover have "list_all (\<lambda>x. xwTopic x = TopicConfirmationRequestedV1) []" by simp
    ultimately show ?thesis unfolding adds_published_def by blast
  qed (simp add: adds_nothing)
qed
qed

section \<open>Properties\<close>

text \<open>
  C8. Whatever recorded Runs are delivered and whatever sweeps run, in any order, starting from
  empty health tables: the stored transitions of every Monitor are numbered 1, 2, 3 and so on and
  each starts in the state the previous one ended in, and the Monitor's stored health loads,
  satisfies the invariant of the domain, counts them and is in the state of the last.
\<close>

theorem health_tables_follow_transitions:
  assumes "health_step\<^sup>*\<^sup>* d0 d" and "dbHealth d0 = []" "dbCandidates d0 = []" "dbTransitions d0 = []"
    and "unique_on (\<lambda>m. Some (mrID m)) (dbMonitors d0)"
  shows "case health_of d mon of
      None \<Rightarrow> changes_of d mon = []
    | Some h \<Rightarrow> \<exists>s. load_health d (hwOrganizationID h) mon = Inr (Some s) \<and> health_inv s
        \<and> chained StateUnknown 0 (changes_of d mon) \<and> snVersion s = int (length (changes_of d mon))
        \<and> snState s = last_state StateUnknown (changes_of d mon)"
proof -
  have "health_db_inv d" by (rule health_steps_inv [OF assms(1) health_db_inv_empty [OF assms(2-5)]])
  then have "monitor_history_ok d mon" by (simp add: health_db_inv_def)
  then show ?thesis
    by (auto simp: monitor_history_ok_def snapshot_follows_def changes_of_def split: option.splits)
qed

definition sample_recorded :: run_recorded where
  "sample_recorded = \<lparr>rrEventID = ''event'', rrOrganizationID = ''org'', rrOccurredAt = sample_time,
     rrAggregateType = ''run'', rrAggregateID = ''run'', rrAggregateVersion = 1, rrRunID = ''run'',
     rrMonitorID = ''mon'', rrRevisionNumber = 1, rrLocation = ''local'', rrScheduledFor = sample_time,
     rrKind = ''scheduled'', rrOutcome = ''passed''\<rparr>"

definition sample_ids :: process_ids where
  "sample_ids = \<lparr>piCandidateID = ''candidate'', piConfirmationEventID = ''confirmation'',
     piTransitionID = ''transition'', piTransitionEventID = ''transitioned''\<rparr>"

definition sample_db_healthy :: db where
  "sample_db_healthy = snd (process_run_recorded sample_db_done sample_recorded sample_ids sample_time)"

lemma sample_health_step: "health_step sample_db_done sample_db_healthy"
proof -
  have "fresh_candidate (piCandidateID sample_ids) sample_db_done"
    by (simp add: fresh_candidate_def sample_db_done_def sample_db_def)
  then show ?thesis
    by (rule health_step.delivered) (simp add: sample_db_healthy_def prod_eq_iff)
qed

lemma sample_healthy:
  "map_option hwState (health_of sample_db_healthy ''mon'') = Some StateHealthy
   \<and> map (\<lambda>t. (twVersion t, twNewState t)) (dbTransitions sample_db_healthy) = [(1, StateHealthy)]
   \<and> map xwTopic (dbOutbox sample_db_healthy) = [TopicHealthTransitionedV1]"
  by code_simp

theorem health_tables_follow_transitions_witness:
  "\<exists>h s. health_of sample_db_healthy ''mon'' = Some h \<and> load_health sample_db_healthy (hwOrganizationID h) ''mon'' = Inr (Some s)
     \<and> chained StateUnknown 0 (changes_of sample_db_healthy ''mon'') \<and> snVersion s = 1"
proof -
  have st: "health_step\<^sup>*\<^sup>* sample_db_done sample_db_healthy" using sample_health_step by blast
  obtain h where h: "health_of sample_db_healthy ''mon'' = Some h" using sample_healthy by auto
  have l: "length (changes_of sample_db_healthy ''mon'') = 1" by code_simp
  show ?thesis
    using health_tables_follow_transitions [OF st, of "''mon''"] h l
    by (auto simp: sample_db_done_def sample_db_def)
qed

text \<open>
  Handling recorded Runs is exactly once under at-least-once delivery: however often one entry
  is delivered, with whatever identifiers and clock readings, the database ends up unchanged or
  as a single successful delivery left it.
\<close>

theorem recorded_run_handled_once:
  "deliveries (handle_run_recorded i org payload) envs d = d
   \<or> (\<exists>env \<in> set envs. \<exists>x d'. handle_run_recorded i org payload env d = (Inr x, d')
        \<and> deliveries (handle_run_recorded i org payload) envs d = d')"
  by (rule health_consumer.exactly_once)

text \<open>
  Transitions and their events are written together: one step of the health store adds as many
  \<open>health.transitioned\<close> entries to the outbox as transitions, in the same order, each entry
  naming its transition, Monitor, version and states, and besides them only confirmation requests.
\<close>

theorem transitions_published_with_rows:
  assumes "health_step d d'"
  shows "\<exists>ts cs xs. dbTransitions d' = dbTransitions d @ ts \<and> dbOutbox d' = dbOutbox d @ cs @ xs
    \<and> list_all (\<lambda>x. xwTopic x = TopicConfirmationRequestedV1) cs \<and> list_all2 published_as ts xs"
  using health_step_publishes [OF assms] by (simp add: adds_published_def)

theorem transitions_published_with_rows_witness:
  "length (dbOutbox sample_db_healthy) = length (dbOutbox sample_db_done) + 1
   \<and> (\<exists>ts cs xs. dbTransitions sample_db_healthy = dbTransitions sample_db_done @ ts
        \<and> dbOutbox sample_db_healthy = dbOutbox sample_db_done @ cs @ xs \<and> list_all2 published_as ts xs)"
proof -
  have "length (dbOutbox sample_db_healthy) = length (dbOutbox sample_db_done) + 1" by code_simp
  then show ?thesis using transitions_published_with_rows [OF sample_health_step] by blast
qed

text \<open>
  A sweep gives a Monitor up only when it may: if marking it stale changes anything, the Monitor
  is active, its last determinate Run finished at least three intervals and two execution ceilings
  ago, and its stored health afterwards is \<open>unknown\<close> without a candidate, one version on.
\<close>

theorem stale_marking_is_justified:
  assumes inv: "health_db_inv d" and p: "mark_health_stale d target tid event_id now ceiling = (r, d')" and "d' \<noteq> d"
    and fits: "\<forall>m \<in> set (dbMonitors d). fits64 (3 * (mrIntervalSeconds m * second))" "fits64 (2 * ceiling)"
  shows "\<exists>m s s'. find (is_monitor (stOrganizationID target) (stMonitorID target)) (dbMonitors d) = Some m
    \<and> mrState m = ''active'' \<and> load_health d (stOrganizationID target) (stMonitorID target) = Inr (Some s)
    \<and> nanos (snLastDeterminateFinishedAt s) + 3 * (mrIntervalSeconds m * second) \<le> nanos now
    \<and> nanos (snLastDeterminateFinishedAt s) + 2 * ceiling \<le> nanos now
    \<and> load_health d' (stOrganizationID target) (stMonitorID target) = Inr (Some s')
    \<and> snState s' = StateUnknown \<and> snStableState s' = StateUnknown \<and> snCandidate s' = None
    \<and> snVersion s' = snVersion s + 1"
  using inv p \<open>d' \<noteq> d\<close>
proof (cases rule: mark_health_stale_stored)
  case (1 s m bound dec d1)
  let ?S = "deSnapshot dec" and ?i = "mrIntervalSeconds m * second"
  have f: "fits64 (3 * ?i)" using fits(1) find_holds [OF 1(2)] by blast
  then have "fits64 ?i" by (auto simp: fits64_def)
  then have b: "3 * ?i \<le> bound" "2 * ceiling \<le> bound"
    using 1(4) stale_after_bound [OF f fits(2)] by (auto split: if_splits)
  have S: "snState ?S = StateUnknown" "snStableState ?S = StateUnknown" "snCandidate ?S = None"
    "snVersion ?S = snVersion s + 1"
    using 1(6,7) by (auto simp: mark_stale_def Let_def split: sum.splits if_splits option.splits)
  note T = stored_tables [OF 1(8,9)]
  have mon: "monitor_in_db d' (stMonitorID target) (stOrganizationID target)"
    using 1(8) T(5) by (simp add: evaluated_from_def monitor_in_db_def)
  have "load_health d' (stOrganizationID target) (stMonitorID target) = Inr (Some (row_snapshot (snapshot_row ?S)))"
    using health_org(1) [OF mark_health_stale_inv [OF inv p] mon] T(3) [of "stMonitorID target"] S(3)
    by (simp add: load_health_def) (simp add: snapshot_row_def)
  then show ?thesis using 1 b S by (auto simp: snapshot_row_def before_def)
qed

definition sample_db_stale :: db where
  "sample_db_stale = snd (mark_health_stale sample_db_healthy
     \<lparr>stOrganizationID = ''org'', stMonitorID = ''mon'', stVersion = 1\<rparr> ''transition2'' ''event2''
     (time_add sample_time (180 * second)) (60 * second))"

theorem stale_marking_is_justified_witness:
  "map_option hwState (health_of sample_db_stale ''mon'') = Some StateUnknown
   \<and> (\<exists>s'. load_health sample_db_stale ''org'' ''mon'' = Inr (Some s') \<and> snState s' = StateUnknown \<and> snVersion s' = 2)"
proof -
  let ?t = "\<lparr>stOrganizationID = ''org'', stMonitorID = ''mon'', stVersion = 1\<rparr>"
  have w: "map_option hwState (health_of sample_db_stale ''mon'') = Some StateUnknown" by code_simp
  then have ne: "sample_db_stale \<noteq> sample_db_healthy" using sample_healthy by fastforce
  have inv: "health_db_inv sample_db_healthy"
    by (rule health_step_inv [OF sample_health_step health_db_inv_empty])
      (simp_all add: sample_db_done_def sample_db_def)
  have p: "mark_health_stale sample_db_healthy ?t ''transition2'' ''event2'' (time_add sample_time (180 * second)) (60 * second)
      = (fst (mark_health_stale sample_db_healthy ?t ''transition2'' ''event2'' (time_add sample_time (180 * second)) (60 * second)),
         sample_db_stale)"
    by (simp add: sample_db_stale_def)
  have m: "map mrIntervalSeconds (dbMonitors sample_db_healthy) = [60]" by code_simp
  have f: "\<forall>m \<in> set (dbMonitors sample_db_healthy). fits64 (3 * (mrIntervalSeconds m * second))"
  proof
    fix m assume "m \<in> set (dbMonitors sample_db_healthy)"
    then have "mrIntervalSeconds m \<in> set (map mrIntervalSeconds (dbMonitors sample_db_healthy))" by simp
    then show "fits64 (3 * (mrIntervalSeconds m * second))" unfolding m by (simp add: fits64_def second_def)
  qed
  have v: "map_option hwVersion (health_of sample_db_healthy ''mon'') = Some 1" by code_simp
  obtain s s' where s: "load_health sample_db_healthy ''org'' ''mon'' = Inr (Some s)"
    "load_health sample_db_stale ''org'' ''mon'' = Inr (Some s')" "snState s' = StateUnknown" "snVersion s' = snVersion s + 1"
    using stale_marking_is_justified [OF inv p ne f] by (auto simp: fits64_def second_def)
  have "(case load_health sample_db_healthy ''org'' ''mon'' of Inr (Some s) \<Rightarrow> snVersion s | _ \<Rightarrow> 0) = 1" by code_simp
  then show ?thesis using w s by auto
qed

end
