(* ===== verification/IncidentStore.thy ===== *)
theory IncidentStore
  imports HealthStore
begin

text \<open>
  Models \<open>internal/incident/incident.go\<close> and \<open>internal/postgres/incident.go\<close>: Incidents are a
  projection of the health transitions of a Monitor, applied strictly in version order, plus the
  acknowledgement by a user. The lemmas show that an unresolved Incident exists exactly when the
  applied transitions say so, that its timeline is a legal life, and that redelivery and gaps
  change nothing. The inbox query, which joins tables outside this model, is left out.
\<close>

section \<open>Data\<close>

record timeline_entry =
  teID :: string
  teIncidentID :: string
  teIncidentVersion :: int
  teKind :: timeline_kind
  teHealthTransitionID :: string
  teActorUserID :: string
  teOldHealthState :: string
  teNewHealthState :: string
  tePolicyVersion :: string
  teCausalRunID :: string
  teCausalRunScheduledFor :: go_time
  teCounts :: "counts option"
  teOccurredAt :: go_time

record incident =
  icID :: string
  icOrganizationID :: string
  icMonitorID :: string
  icState :: incident_state
  icVersion :: int
  icOpenedTransitionID :: string
  icAcknowledgedBy :: string
  icAcknowledgedAt :: go_time
  icResolvedTransitionID :: string
  icResolvedAt :: go_time
  icCreatedAt :: go_time
  icUpdatedAt :: go_time
  icTimeline :: "timeline_entry list"

record incident_ids =
  iiIncidentID :: string
  iiTimelineID :: string
  iiAlertEventID :: string

section \<open>Rows\<close>

definition scan_incident :: "incident_row \<Rightarrow> incident" where
  "scan_incident w =
     \<lparr>icID = iwID w, icOrganizationID = iwOrganizationID w, icMonitorID = iwMonitorID w, icState = iwState w,
      icVersion = iwVersion w, icOpenedTransitionID = iwOpenedTransitionID w,
      icAcknowledgedBy = text_value (map_option fst (iwAcknowledged w)),
      icAcknowledgedAt = instant_value (map_option snd (iwAcknowledged w)),
      icResolvedTransitionID = text_value (map_option fst (iwResolved w)),
      icResolvedAt = instant_value (map_option snd (iwResolved w)),
      icCreatedAt = to_utc (iwCreatedAt w), icUpdatedAt = to_utc (iwUpdatedAt w), icTimeline = []\<rparr>"

definition scan_timeline :: "timeline_row \<Rightarrow> timeline_entry" where
  "scan_timeline w =
     \<lparr>teID = lwID w, teIncidentID = lwIncidentID w, teIncidentVersion = lwIncidentVersion w, teKind = lwKind w,
      teHealthTransitionID = text_value (lwTransitionID w), teActorUserID = text_value (lwActorUserID w),
      teOldHealthState = text_value (lwOldState w), teNewHealthState = text_value (lwNewState w),
      tePolicyVersion = text_value (lwPolicyVersion w),
      teCausalRunID = text_value (map_option fst (lwCausalRun w)),
      teCausalRunScheduledFor = instant_value (map_option snd (lwCausalRun w)),
      teCounts = lwCounts w, teOccurredAt = to_utc (lwOccurredAt w)\<rparr>"

definition timeline_of :: "string \<Rightarrow> string \<Rightarrow> timeline_row \<Rightarrow> bool" where
  "timeline_of org i l \<longleftrightarrow> lwOrganizationID l = org \<and> lwIncidentID l = i"

definition list_timeline :: "db \<Rightarrow> string \<Rightarrow> string \<Rightarrow> timeline_entry list" where
  "list_timeline d org i = map scan_timeline (sort_key lwIncidentVersion (filter (timeline_of org i) (dbTimeline d)))"

text \<open>The constraints of \<open>incidents\<close> and \<open>incident_timeline_entries\<close>.\<close>

definition incident_row_ok :: "incident_row \<Rightarrow> bool" where
  "incident_row_ok w \<longleftrightarrow> 1 \<le> iwVersion w \<and> (iwState w = IncidentResolved \<longleftrightarrow> iwResolved w \<noteq> None)"

definition timeline_row_ok :: "timeline_row \<Rightarrow> bool" where
  "timeline_row_ok l \<longleftrightarrow> 1 \<le> lwIncidentVersion l
     \<and> (case lwCounts l of None \<Rightarrow> True | Some c \<Rightarrow> counts_ok c)"

definition transition_in_db :: "db \<Rightarrow> string \<Rightarrow> string \<Rightarrow> bool" where
  "transition_in_db d i org = sql_exists (\<lambda>t. twID t = i \<and> twOrganizationID t = org) (dbTransitions d)"

definition insert_incident :: "incident_row \<Rightarrow> db \<Rightarrow> db result" where
  "insert_incident w d =
     (if \<not> incident_row_ok w \<or> sql_exists (\<lambda>x. iwID x = iwID w) (dbIncidents d)
        \<or> sql_exists (\<lambda>x. iwMonitorID x = iwMonitorID w \<and> iwState x \<noteq> IncidentResolved) (dbIncidents d)
        \<or> \<not> monitor_in_db d (iwMonitorID w) (iwOrganizationID w)
        \<or> \<not> transition_in_db d (iwOpenedTransitionID w) (iwOrganizationID w)
      then Inl (ErrText ''open Incident'')
      else Inr (d\<lparr>dbIncidents := dbIncidents d @ [w]\<rparr>))"

definition insert_timeline :: "timeline_row \<Rightarrow> db \<Rightarrow> db result" where
  "insert_timeline l d =
     (if \<not> timeline_row_ok l \<or> sql_exists (\<lambda>x. lwID x = lwID l) (dbTimeline d)
        \<or> sql_exists (\<lambda>x. lwIncidentID x = lwIncidentID l \<and> lwIncidentVersion x = lwIncidentVersion l) (dbTimeline d)
        \<or> \<not> sql_exists (\<lambda>w. iwID w = lwIncidentID l \<and> iwOrganizationID w = lwOrganizationID l) (dbIncidents d)
        \<or> (case lwTransitionID l of None \<Rightarrow> False | Some i \<Rightarrow> \<not> transition_in_db d i (lwOrganizationID l))
        \<or> (case lwActorUserID l of None \<Rightarrow> False | Some u \<Rightarrow> u \<notin> set (dbUsers d))
      then Inl (ErrText ''append Incident timeline'')
      else Inr (d\<lparr>dbTimeline := dbTimeline d @ [l]\<rparr>))"

section \<open>The projection\<close>

definition incident_event :: "health_transitioned \<Rightarrow> string \<Rightarrow> int \<Rightarrow> string \<Rightarrow> string \<Rightarrow> go_time \<Rightarrow> incident_transitioned" where
  "incident_event e i version kind event_id occurred =
     \<lparr>itEventID = event_id, itOrganizationID = htOrganizationID e, itOccurredAt = to_utc occurred,
      itAggregateType = ''incident'', itAggregateID = i, itAggregateVersion = version,
      itCausationID = htEventID e, itIncidentID = i, itMonitorID = htMonitorID e, itTransition = kind\<rparr>"

definition insert_incident_event ::
  "health_transitioned \<Rightarrow> string \<Rightarrow> int \<Rightarrow> string \<Rightarrow> string \<Rightarrow> go_time \<Rightarrow> go_time \<Rightarrow> db \<Rightarrow> db result" where
  "insert_incident_event e i version kind event_id occurred queued d =
     (if event_id = '''' then Inl (ErrText ''an Incident Alert event identifier is required'')
      else case encode_incident_transitioned (incident_event e i version kind event_id occurred) of
        None \<Rightarrow> Inl (ErrText ''encode incident.transitioned.v1'')
      | Some p \<Rightarrow> insert_raw_outbox event_id (htOrganizationID e) TopicIncidentTransitionedV1 p queued d)"

definition transition_timeline ::
  "string \<Rightarrow> string \<Rightarrow> string \<Rightarrow> int \<Rightarrow> timeline_kind \<Rightarrow> health_transitioned \<Rightarrow> transition_row \<Rightarrow> timeline_row" where
  "transition_timeline tid org i version kind e t =
     \<lparr>lwID = tid, lwOrganizationID = org, lwIncidentID = i, lwIncidentVersion = version, lwKind = kind,
      lwTransitionID = Some (htTransitionID e), lwActorUserID = None, lwOldState = Some (htOldState e),
      lwNewState = Some (htNewState e), lwPolicyVersion = Some (htPolicyVersion e),
      lwCausalRun = twCausalRun t, lwCounts = Some (twCounts t), lwOccurredAt = twOccurredAt t\<rparr>"

definition opened_row :: "health_transitioned \<Rightarrow> string \<Rightarrow> transition_row \<Rightarrow> incident_row" where
  "opened_row e i t =
     \<lparr>iwID = i, iwOrganizationID = htOrganizationID e, iwMonitorID = htMonitorID e, iwState = IncidentOpen,
      iwVersion = 1, iwOpenedTransitionID = htTransitionID e, iwAcknowledged = None, iwResolved = None,
      iwCreatedAt = twOccurredAt t, iwUpdatedAt = twOccurredAt t\<rparr>"

definition insert_incident_opened ::
  "health_transitioned \<Rightarrow> incident_ids \<Rightarrow> transition_row \<Rightarrow> go_time \<Rightarrow> db \<Rightarrow> db result" where
  "insert_incident_opened e ids t queued d =
     and_then (insert_incident (opened_row e (iiIncidentID ids) t) d) (\<lambda>d1.
     and_then (insert_timeline (transition_timeline (iiTimelineID ids) (htOrganizationID e) (iiIncidentID ids) 1
       TimelineOpened e t) d1)
     (insert_incident_event e (iiIncidentID ids) 1 ''opened'' (iiAlertEventID ids) (twOccurredAt t) queued))"

definition resolved_row :: "health_transitioned \<Rightarrow> int \<Rightarrow> transition_row \<Rightarrow> incident_row \<Rightarrow> incident_row" where
  "resolved_row e version t w = w\<lparr>iwState := IncidentResolved, iwVersion := version,
     iwResolved := Some (htTransitionID e, twOccurredAt t), iwUpdatedAt := twOccurredAt t\<rparr>"

definition unresolved :: "string \<Rightarrow> string \<Rightarrow> incident_row \<Rightarrow> bool" where
  "unresolved i org w \<longleftrightarrow> iwID w = i \<and> iwOrganizationID w = org \<and> iwState w \<noteq> IncidentResolved"

definition update_incident ::
  "string \<Rightarrow> (incident_row \<Rightarrow> bool) \<Rightarrow> (incident_row \<Rightarrow> incident_row) \<Rightarrow> db \<Rightarrow> db result" where
  "update_incident what p f d =
     (if list_ex (\<lambda>w. p w \<and> \<not> incident_row_ok (f w)) (dbIncidents d) then Inl (ErrText what)
      else Inr (d\<lparr>dbIncidents := sql_update p f (dbIncidents d)\<rparr>))"

definition resolve_incident ::
  "incident \<Rightarrow> health_transitioned \<Rightarrow> incident_ids \<Rightarrow> transition_row \<Rightarrow> go_time \<Rightarrow> db \<Rightarrow> db result" where
  "resolve_incident v e ids t queued d =
     (let version = icVersion v + 1
      in and_then (update_incident ''resolve Incident'' (unresolved (icID v) (icOrganizationID v))
           (resolved_row e version t) d) (\<lambda>d1.
         and_then (insert_timeline (transition_timeline (iiTimelineID ids) (icOrganizationID v) (icID v) version
           TimelineResolved e t) d1)
         (insert_incident_event e (icID v) version ''resolved'' (iiAlertEventID ids) (twOccurredAt t) queued)))"

definition active_incident :: "db \<Rightarrow> string \<Rightarrow> string \<Rightarrow> incident option" where
  "active_incident d org mon = map_option scan_incident
     (find (\<lambda>w. iwOrganizationID w = org \<and> iwMonitorID w = mon \<and> iwState w \<noteq> IncidentResolved) (dbIncidents d))"

definition is_cursor :: "string \<Rightarrow> string \<Rightarrow> cursor_row \<Rightarrow> bool" where
  "is_cursor org mon k \<longleftrightarrow> kwOrganizationID k = org \<and> kwMonitorID k = mon"

definition projection_cursor :: "db \<Rightarrow> string \<Rightarrow> string \<Rightarrow> int option" where
  "projection_cursor d org mon = map_option kwLastVersion (find (is_cursor org mon) (dbCursors d))"

definition advance_cursor :: "string \<Rightarrow> string \<Rightarrow> int \<Rightarrow> go_time \<Rightarrow> db \<Rightarrow> db result" where
  "advance_cursor org mon v now d =
     (let k = \<lparr>kwOrganizationID = org, kwMonitorID = mon, kwLastVersion = v, kwUpdatedAt = db_instant now\<rparr>
      in if v < 1 \<or> \<not> monitor_in_db d mon org then Inl (ErrText ''advance Incident projection cursor'')
         else if sql_exists (is_cursor org mon) (dbCursors d) then
           Inr (d\<lparr>dbCursors := sql_update (is_cursor org mon) (\<lambda>_. k) (dbCursors d)\<rparr>)
         else Inr (d\<lparr>dbCursors := dbCursors d @ [k]\<rparr>))"

text \<open>What a transition does to the Monitor's Incident.\<close>

definition project_transition ::
  "health_transitioned \<Rightarrow> incident_ids \<Rightarrow> monitor_row \<Rightarrow> transition_row \<Rightarrow> go_time \<Rightarrow> db \<Rightarrow> db result" where
  "project_transition e ids m t now d =
     (if state_text (twNewState t) = ''down'' then
        (if mrState m \<noteq> ''archived'' \<and> active_incident d (htOrganizationID e) (twMonitorID t) = None
         then insert_incident_opened e ids t now d else Inr d)
      else if state_text (twNewState t) = ''healthy'' then
        (case active_incident d (htOrganizationID e) (twMonitorID t) of
           None \<Rightarrow> Inr d
         | Some v \<Rightarrow> resolve_incident v e ids t now d)
      else Inr d)"

definition event_matches_transition :: "health_transitioned \<Rightarrow> transition_row \<Rightarrow> bool" where
  "event_matches_transition e t \<longleftrightarrow> twMonitorID t = htMonitorID e \<and> twVersion t = htAggregateVersion e
     \<and> state_text (twOldState t) = htOldState e \<and> state_text (twNewState t) = htNewState e
     \<and> twPolicyVersion t = htPolicyVersion e"

definition process_transition_tx :: "health_transitioned \<Rightarrow> incident_ids \<Rightarrow> go_time \<Rightarrow> db \<Rightarrow> db result" where
  "process_transition_tx e ids now d =
     (case find (\<lambda>t. twID t = htTransitionID e \<and> twOrganizationID t = htOrganizationID e) (dbTransitions d) of
        None \<Rightarrow> Inl (ErrIs IncidentPayloadInvalid) | Some t \<Rightarrow>
      case find (is_monitor (twOrganizationID t) (twMonitorID t)) (dbMonitors d) of
        None \<Rightarrow> Inl (ErrIs IncidentPayloadInvalid) | Some m \<Rightarrow>
      if \<not> event_matches_transition e t then Inl (ErrIs IncidentPayloadInvalid)
      else
        let cursor = projection_cursor d (htOrganizationID e) (twMonitorID t)
        in if (case cursor of None \<Rightarrow> False | Some v \<Rightarrow> htAggregateVersion e \<le> v) then Inr d
           else if htAggregateVersion e \<noteq> (case cursor of None \<Rightarrow> 1 | Some v \<Rightarrow> v + 1) then
             Inl (ErrIs IncidentVersionGap)
           else and_then (project_transition e ids m t now d)
             (advance_cursor (htOrganizationID e) (twMonitorID t) (htAggregateVersion e) now))"

definition process_health_transition ::
  "db \<Rightarrow> health_transitioned \<Rightarrow> incident_ids \<Rightarrow> go_time \<Rightarrow> unit result \<times> db" where
  "process_health_transition d e ids now =
     (if outbox_event_processed (htEventID e) (htOrganizationID e) d then (Inr (), d)
      else run_tx (\<lambda>d. and_then (process_transition_tx e ids now d) (\<lambda>d1.
        and_then (mark_outbox_event_processed (htEventID e) (htOrganizationID e) TopicHealthTransitionedV1 now d1)
          (\<lambda>d'. Inr ((), d')))) d)"

section \<open>Acknowledgement and reads\<close>

definition in_incident_scope :: "scope \<Rightarrow> string \<Rightarrow> incident_row \<Rightarrow> bool" where
  "in_incident_scope sc i w \<longleftrightarrow> iwID w = i \<and> iwMonitorID w = scopeMonitorID sc
     \<and> iwOrganizationID w = scopeOrganizationID sc"

definition get_incident :: "db \<Rightarrow> scope \<Rightarrow> string \<Rightarrow> incident option" where
  "get_incident d sc i = map_option
     (\<lambda>w. (scan_incident w)\<lparr>icTimeline := list_timeline d (scopeOrganizationID sc) i\<rparr>)
     (find (in_incident_scope sc i) (dbIncidents d))"

definition acknowledged_row :: "int \<Rightarrow> string \<Rightarrow> go_time \<Rightarrow> incident_row \<Rightarrow> incident_row" where
  "acknowledged_row version actor now w = w\<lparr>iwState := IncidentAcknowledged, iwVersion := version,
     iwAcknowledged := Some (actor, db_instant now), iwUpdatedAt := db_instant now\<rparr>"

definition acknowledged_timeline :: "string \<Rightarrow> string \<Rightarrow> string \<Rightarrow> int \<Rightarrow> string \<Rightarrow> go_time \<Rightarrow> timeline_row" where
  "acknowledged_timeline tid org i version actor now =
     \<lparr>lwID = tid, lwOrganizationID = org, lwIncidentID = i, lwIncidentVersion = version,
      lwKind = TimelineAcknowledged, lwTransitionID = None, lwActorUserID = Some actor, lwOldState = None,
      lwNewState = None, lwPolicyVersion = None, lwCausalRun = None, lwCounts = None,
      lwOccurredAt = db_instant now\<rparr>"

definition acknowledge_tx :: "scope \<Rightarrow> string \<Rightarrow> string \<Rightarrow> string \<Rightarrow> go_time \<Rightarrow> incident_row \<Rightarrow> db \<Rightarrow> db result" where
  "acknowledge_tx sc i actor tid now w d =
     (if iwState w = IncidentResolved then Inl (ErrIs IncidentConflict)
      else if iwState w = IncidentOpen then
        (let version = iwVersion w + 1
         in and_then (if actor \<notin> set (dbUsers d) then Inl (ErrText ''acknowledge Incident'')
              else update_incident ''acknowledge Incident''
                (\<lambda>x. iwID x = i \<and> iwOrganizationID x = scopeOrganizationID sc)
                (acknowledged_row version actor now) d)
            (insert_timeline (acknowledged_timeline tid (scopeOrganizationID sc) i version actor now)))
      else Inr d)"

definition acknowledge_incident ::
  "db \<Rightarrow> scope \<Rightarrow> string \<Rightarrow> string \<Rightarrow> string \<Rightarrow> go_time \<Rightarrow> incident option result \<times> db" where
  "acknowledge_incident d sc i actor tid now =
     (case find (in_incident_scope sc i) (dbIncidents d) of
        None \<Rightarrow> (Inr None, d)
      | Some w \<Rightarrow> run_tx (\<lambda>d. and_then (acknowledge_tx sc i actor tid now w d)
          (\<lambda>d'. Inr (get_incident d' sc i, d'))) d)"

definition IncidentMaxPageSize :: int where "IncidentMaxPageSize = 100"

record incident_cursor =
  kcCreatedAt :: go_time
  kcID :: string

record incident_query =
  iqPageSize :: int
  iqCursor :: "incident_cursor option"

definition incident_key :: "incident_row \<Rightarrow> int \<times> string" where
  "incident_key w = (nanos (iwCreatedAt w), iwID w)"

definition incident_cursor_key :: "incident_cursor \<Rightarrow> int \<times> string" where
  "incident_cursor_key c = (nanos (db_instant (kcCreatedAt c)), kcID c)"

definition list_incidents :: "db \<Rightarrow> scope \<Rightarrow> incident_query \<Rightarrow> (incident list \<times> bool) option result" where
  "list_incidents d sc q =
     (if iqPageSize q < 1 \<or> iqPageSize q > IncidentMaxPageSize then
        Inl (ErrText ''an Incident page is 1 to 100 rows'')
      else if \<not> monitor_in_db d (scopeMonitorID sc) (scopeOrganizationID sc) then Inr None
      else
        let (page, further) = keyset_page incident_key (map_option incident_cursor_key (iqCursor q))
              (nat (iqPageSize q))
              (filter (\<lambda>w. iwMonitorID w = scopeMonitorID sc \<and> iwOrganizationID w = scopeOrganizationID sc)
                (dbIncidents d))
        in Inr (Some (map scan_incident page, further)))"

section \<open>The service\<close>

definition incident_is_utc :: "go_time \<Rightarrow> bool" where
  "incident_is_utc t \<longleftrightarrow> \<not> is_zero t \<and> zone_offset (zone t) = 0"

definition incident_scope_validate :: "scope \<Rightarrow> unit result" where
  "incident_scope_validate sc =
     (if scopeOrganizationID sc = '''' \<or> scopeMonitorID sc = '''' then
        Inl (ErrText ''an Incident query requires Organization, Project, and Monitor identity'')
      else Inr ())"

definition health_state_texts :: "string set" where
  "health_state_texts = {''unknown'', ''healthy'', ''degraded'', ''down''}"

definition validate_health_transition :: "health_transitioned \<Rightarrow> unit result" where
  "validate_health_transition e =
     (if htEventID e = '''' \<or> htOrganizationID e = '''' \<or> htTransitionID e = '''' \<or> htMonitorID e = ''''
        \<or> htPolicyVersion e = ''''
        \<or> htAggregateType e \<noteq> ''monitorHealth'' \<or> htAggregateID e \<noteq> htMonitorID e
        \<or> htAggregateVersion e < 1 \<or> htOldState e = htNewState e \<or> \<not> incident_is_utc (htOccurredAt e)
        \<or> htOldState e \<notin> health_state_texts \<or> htNewState e \<notin> health_state_texts
      then Inl (ErrIs IncidentPayloadInvalid) else Inr ())"

definition incident_ids_of :: "(nat \<Rightarrow> string result) \<Rightarrow> incident_ids result" where
  "incident_ids_of uuid =
     and_then (uuid 0) (\<lambda>a. and_then (uuid 1) (\<lambda>b. and_then (uuid 2) (\<lambda>c.
       Inr \<lparr>iiIncidentID = a, iiTimelineID = b, iiAlertEventID = c\<rparr>)))"

definition handle_health_transition ::
  "string \<Rightarrow> string \<Rightarrow> json \<Rightarrow> (nat \<Rightarrow> string result) \<times> go_time \<Rightarrow> db \<Rightarrow> unit result \<times> db" where
  "handle_health_transition event_id org payload env d =
     (case decode_health_transitioned payload of
        None \<Rightarrow> (Inl (ErrIs IncidentPayloadInvalid), d)
      | Some e \<Rightarrow>
          if validate_health_transition e \<noteq> Inr () \<or> htEventID e \<noteq> event_id then
            (Inl (ErrIs IncidentPayloadInvalid), d)
          else if htOrganizationID e \<noteq> org then (Inl (ErrIs IncidentOrganizationMismatch), d)
          else case incident_ids_of (fst env) of
            Inl x \<Rightarrow> (Inl x, d)
          | Inr ids \<Rightarrow> process_health_transition d e ids (to_utc (snd env)))"

definition incident_list ::
  "db \<Rightarrow> scope \<Rightarrow> incident_query \<Rightarrow> (incident list \<times> incident_cursor option) option result" where
  "incident_list d sc q =
     and_then (incident_scope_validate sc) (\<lambda>_.
       if iqPageSize q < 1 \<or> iqPageSize q > IncidentMaxPageSize then
         Inl (ErrText ''an Incident page is 1 to 100 rows'')
       else if (case iqCursor q of None \<Rightarrow> False | Some c \<Rightarrow> kcID c = '''' \<or> \<not> incident_is_utc (kcCreatedAt c)) then
         Inl (ErrText ''an Incident cursor requires identity and a UTC creation instant'')
       else and_then (list_incidents d sc q) (\<lambda>found. Inr (map_option (\<lambda>(values, further).
         (values, if further \<and> values \<noteq> [] then
            Some \<lparr>kcCreatedAt = icCreatedAt (last values), kcID = icID (last values)\<rparr> else None)) found)))"

definition incident_get :: "db \<Rightarrow> scope \<Rightarrow> string \<Rightarrow> incident option result" where
  "incident_get d sc i =
     and_then (incident_scope_validate sc) (\<lambda>_.
       if i = '''' then Inl (ErrText ''an Incident identifier is required'') else Inr (get_incident d sc i))"

definition incident_acknowledge ::
  "scope \<Rightarrow> string \<Rightarrow> string \<Rightarrow> string result \<Rightarrow> go_time \<Rightarrow> db \<Rightarrow> incident option result \<times> db" where
  "incident_acknowledge sc i actor uuid now d =
     (case incident_scope_validate sc of Inl e \<Rightarrow> (Inl e, d) | Inr _ \<Rightarrow>
      if i = '''' \<or> actor = '''' then (Inl (ErrText ''Incident and actor identity are required''), d)
      else case uuid of Inl e \<Rightarrow> (Inl e, d) | Inr tid \<Rightarrow> acknowledge_incident d sc i actor tid (to_utc now))"

section \<open>Redelivery\<close>

lemma process_health_transition_result:
  "process_health_transition d e ids now = (r, d') \<Longrightarrow>
     (case r of Inl x \<Rightarrow> d' = d | Inr u \<Rightarrow> outbox_event_processed (htEventID e) (htOrganizationID e) d')"
  by (auto simp: process_health_transition_def run_tx_def and_then_Inr split: if_splits sum.splits
      dest!: mark_processed_Inr(1))

lemma process_health_transition_again:
  "outbox_event_processed (htEventID e) (htOrganizationID e) d \<Longrightarrow>
     process_health_transition d e ids now = (Inr (), d)"
  by (simp add: process_health_transition_def)

lemma handle_health_transition_cases:
  assumes "handle_health_transition i org payload env d = (r, d')"
  obtains x where "r = Inl x" "d' = d"
  | e ids where "decode_health_transitioned payload = Some e" "validate_health_transition e = Inr ()"
      "htEventID e = i" "htOrganizationID e = org"
      "process_health_transition d e ids (to_utc (snd env)) = (r, d')"
  using assms by (auto simp: handle_health_transition_def split: option.splits if_splits sum.splits)

interpretation incident_consumer: idempotent_consumer "handle_health_transition i org payload" "outbox_event_processed i org"
proof
  show "d' = d" if "handle_health_transition i org payload env d = (Inl x, d')" for env d x d'
    using that by (cases rule: handle_health_transition_cases) (auto dest: process_health_transition_result)
  show "outbox_event_processed i org d'" if "handle_health_transition i org payload env d = (Inr x, d')" for env d x d'
    using that by (cases rule: handle_health_transition_cases) (auto dest: process_health_transition_result)
  show "snd (handle_health_transition i org payload env d) = d" if "outbox_event_processed i org d" for env d
    using that by (auto simp: handle_health_transition_def process_health_transition_again split: option.splits sum.splits)
qed

section \<open>The life of an Incident\<close>

text \<open>
  The legal lives: opened, then possibly acknowledged, then possibly resolved. The timeline of an
  Incident is numbered from 1, the row's version is its length and the row's state its end.
\<close>

fun life_of :: "timeline_kind list \<Rightarrow> incident_state option" where
  "life_of [TimelineOpened] = Some IncidentOpen"
| "life_of [TimelineOpened, TimelineAcknowledged] = Some IncidentAcknowledged"
| "life_of [TimelineOpened, TimelineResolved] = Some IncidentResolved"
| "life_of [TimelineOpened, TimelineAcknowledged, TimelineResolved] = Some IncidentResolved"
| "life_of ks = None"

fun_cases life_of_SomeE: "life_of ks = Some st"

lemma life_of_resolved: "life_of ks = Some st \<Longrightarrow> st \<noteq> IncidentResolved \<Longrightarrow>
    life_of (ks @ [TimelineResolved]) = Some IncidentResolved"
  by (erule life_of_SomeE) simp_all

lemma life_of_acknowledged: "life_of ks = Some IncidentOpen \<Longrightarrow>
    life_of (ks @ [TimelineAcknowledged]) = Some IncidentAcknowledged"
  by (erule life_of_SomeE) simp_all

definition timeline_rows :: "db \<Rightarrow> incident_row \<Rightarrow> timeline_row list" where
  "timeline_rows d w = filter (timeline_of (iwOrganizationID w) (iwID w)) (dbTimeline d)"

definition incident_life :: "db \<Rightarrow> incident_row \<Rightarrow> bool" where
  "incident_life d w \<longleftrightarrow> (let ls = timeline_rows d w
     in map lwIncidentVersion ls = map int [1..<Suc (length ls)] \<and> iwVersion w = int (length ls)
       \<and> life_of (map lwKind ls) = Some (iwState w))"

definition incident_life_inv :: "db \<Rightarrow> bool" where
  "incident_life_inv d \<longleftrightarrow> unique_on (\<lambda>w. Some (iwID w)) (dbIncidents d)
     \<and> (\<forall>l \<in> set (dbTimeline d). \<exists>w \<in> set (dbIncidents d). iwID w = lwIncidentID l \<and> iwOrganizationID w = lwOrganizationID l)
     \<and> (\<forall>w \<in> set (dbIncidents d). incident_life d w)"

lemma incident_life_inv_same:
  "dbIncidents d' = dbIncidents d \<Longrightarrow> dbTimeline d' = dbTimeline d \<Longrightarrow> incident_life_inv d' = incident_life_inv d"
  by (simp add: incident_life_inv_def incident_life_def timeline_rows_def)

lemma insert_timeline_Inr:
  "insert_timeline l d = Inr d' \<Longrightarrow> d' = d\<lparr>dbTimeline := dbTimeline d @ [l]\<rparr>
     \<and> (\<exists>w \<in> set (dbIncidents d). iwID w = lwIncidentID l \<and> iwOrganizationID w = lwOrganizationID l)"
  by (auto simp: insert_timeline_def split: if_splits)

lemma insert_incident_Inr:
  "insert_incident w d = Inr d' \<Longrightarrow> d' = d\<lparr>dbIncidents := dbIncidents d @ [w]\<rparr>
     \<and> (\<forall>x \<in> set (dbIncidents d). iwID x \<noteq> iwID w)
     \<and> (\<forall>x \<in> set (dbIncidents d). iwMonitorID x = iwMonitorID w \<longrightarrow> iwState x = IncidentResolved)"
  by (auto simp: insert_incident_def split: if_splits)

lemma update_incident_Inr:
  "update_incident what p f d = Inr d' \<Longrightarrow> d' = d\<lparr>dbIncidents := sql_update p f (dbIncidents d)\<rparr>"
  by (auto simp: update_incident_def split: if_splits)

lemma incident_event_Inr:
  "insert_incident_event e i version kind event_id occurred queued d = Inr d' \<Longrightarrow>
     \<exists>p. encode_incident_transitioned (incident_event e i version kind event_id occurred) = Some p
       \<and> d' = d\<lparr>dbOutbox := dbOutbox d
          @ [fresh_outbox_row event_id (htOrganizationID e) TopicIncidentTransitionedV1 p queued]\<rparr>"
  by (auto simp: insert_incident_event_def insert_raw_outbox_Inr split: if_splits option.splits)

lemma life_append:
  assumes "incident_life d w" and "iwVersion w' = iwVersion w + 1" and "lwIncidentVersion l = iwVersion w + 1"
    and "timeline_rows d' w' = timeline_rows d w @ [l]"
    and "life_of (map lwKind (timeline_rows d w)) = Some (iwState w) \<Longrightarrow>
      life_of (map lwKind (timeline_rows d w) @ [lwKind l]) = Some (iwState w')"
  shows "incident_life d' w'"
  using assms by (auto simp: incident_life_def Let_def)

lemma opening_keeps_life:
  assumes inv: "incident_life_inv d" and i: "insert_incident w d = Inr d1" and l: "insert_timeline l d1 = Inr d2"
    and w: "iwVersion w = 1" "iwState w = IncidentOpen"
    and lw: "lwIncidentID l = iwID w" "lwOrganizationID l = iwOrganizationID w" "lwIncidentVersion l = 1"
      "lwKind l = TimelineOpened"
  shows "incident_life_inv d2"
proof -
  note D = insert_incident_Inr [OF i] insert_timeline_Inr [OF l]
  have d2: "dbIncidents d2 = dbIncidents d @ [w]" "dbTimeline d2 = dbTimeline d @ [l]" using D by simp_all
  have no: "lwIncidentID x \<noteq> iwID w" if "x \<in> set (dbTimeline d)" for x
    using inv D(1) that by (auto simp: incident_life_inv_def)
  then have "timeline_rows d w = []" by (auto simp: timeline_rows_def timeline_of_def filter_empty_conv)
  then have "timeline_rows d2 w = [l]" using d2(2) lw by (simp add: timeline_rows_def timeline_of_def)
  then have new: "incident_life d2 w" using w lw by (simp add: incident_life_def)
  have old: "incident_life d2 x" if x: "x \<in> set (dbIncidents d)" for x
  proof -
    have "iwID x \<noteq> iwID w" using D(1) x by auto
    then have "timeline_rows d2 x = timeline_rows d x" using d2(2) lw by (simp add: timeline_rows_def timeline_of_def)
    then show ?thesis using inv x by (simp add: incident_life_inv_def incident_life_def)
  qed
  show ?thesis using inv D(1) d2 lw new old by (auto simp: incident_life_inv_def unique_on_append)
qed

text \<open>A change of one Incident together with the timeline entry that records it.\<close>

lemma change_keeps_life:
  assumes inv: "incident_life_inv d" and w: "w \<in> set (dbIncidents d)" "p w"
    and p: "\<And>x. p x \<Longrightarrow> iwID x = iwID w"
    and d1: "d1 = d\<lparr>dbIncidents := sql_update p f (dbIncidents d)\<rparr>" and l: "insert_timeline l d1 = Inr d2"
    and f: "iwID (f w) = iwID w" "iwOrganizationID (f w) = iwOrganizationID w" "iwVersion (f w) = iwVersion w + 1"
    and lw: "lwIncidentID l = iwID w" "lwOrganizationID l = iwOrganizationID w" "lwIncidentVersion l = iwVersion w + 1"
    and life: "\<And>ks. life_of ks = Some (iwState w) \<Longrightarrow> life_of (ks @ [lwKind l]) = Some (iwState (f w))"
  shows "incident_life_inv d2"
proof -
  have uq: "unique_on (\<lambda>w. Some (iwID w)) (dbIncidents d)" using inv by (simp add: incident_life_inv_def)
  have only: "x = w" if "x \<in> set (dbIncidents d)" "p x" for x
    using unique_onD [OF uq that(1) w(1)] p [OF that(2)] by simp
  have d2: "dbIncidents d2 = sql_update p f (dbIncidents d)" "dbTimeline d2 = dbTimeline d @ [l]"
    using insert_timeline_Inr [OF l] d1 by simp_all
  have mem: "x \<in> set (dbIncidents d2) \<longleftrightarrow> x = f w \<or> (x \<in> set (dbIncidents d) \<and> x \<noteq> w)" for x
    unfolding d2 in_sql_update using only w by (metis (full_types))
  have "timeline_rows d2 (f w) = timeline_rows d w @ [l]"
    using d2(2) f lw by (simp add: timeline_rows_def timeline_of_def)
  then have new: "incident_life d2 (f w)"
    using life_append [of d w "f w" l d2] inv w f lw life by (simp add: incident_life_inv_def)
  have old: "incident_life d2 x" if x: "x \<in> set (dbIncidents d)" "x \<noteq> w" for x
  proof -
    have "iwID x \<noteq> iwID w" using unique_onD [OF uq x(1) w(1)] x(2) by auto
    then have "timeline_rows d2 x = timeline_rows d x" using d2(2) lw by (simp add: timeline_rows_def timeline_of_def)
    then show ?thesis using inv x by (simp add: incident_life_inv_def incident_life_def)
  qed
  have uq2: "unique_on (\<lambda>w. Some (iwID w)) (dbIncidents d2)"
    unfolding d2 by (rule unique_on_sql_update [OF uq]) (use only f in force)
  have fk: "\<exists>x \<in> set (dbIncidents d2). iwID x = lwIncidentID m \<and> iwOrganizationID x = lwOrganizationID m"
    if m: "m \<in> set (dbTimeline d2)" for m
  proof (cases "lwIncidentID m = iwID w \<and> lwOrganizationID m = iwOrganizationID w")
    case True
    then show ?thesis using f mem [of "f w"] by auto
  next
    case False
    then have "m \<in> set (dbTimeline d)" using m d2(2) lw by auto
    then obtain x where "x \<in> set (dbIncidents d)" "iwID x = lwIncidentID m" "iwOrganizationID x = lwOrganizationID m"
      using inv by (auto simp: incident_life_inv_def)
    then show ?thesis using False mem [of x] by auto
  qed
  have all: "incident_life d2 x" if "x \<in> set (dbIncidents d2)" for x
    using that new old mem [of x] by auto
  show ?thesis unfolding incident_life_inv_def by (intro conjI ballI uq2 fk all)
qed

lemma active_incident_Some:
  assumes "active_incident d org mon = Some v"
  obtains w where "w \<in> set (dbIncidents d)" "v = scan_incident w" "iwOrganizationID w = org" "iwMonitorID w = mon"
    "iwState w \<noteq> IncidentResolved"
  using assms by (auto simp: active_incident_def dest!: find_holds)

lemma scan_incident_simps [simp]:
  "icID (scan_incident w) = iwID w" "icOrganizationID (scan_incident w) = iwOrganizationID w"
  "icVersion (scan_incident w) = iwVersion w" "icState (scan_incident w) = iwState w"
  "icMonitorID (scan_incident w) = iwMonitorID w"
  by (simp_all add: scan_incident_def)

lemma resolved_row_simps [simp]:
  "iwID (resolved_row e v t w) = iwID w" "iwOrganizationID (resolved_row e v t w) = iwOrganizationID w"
  "iwMonitorID (resolved_row e v t w) = iwMonitorID w" "iwVersion (resolved_row e v t w) = v"
  "iwState (resolved_row e v t w) = IncidentResolved"
  by (simp_all add: resolved_row_def)

lemma acknowledged_row_simps [simp]:
  "iwID (acknowledged_row v a n w) = iwID w" "iwOrganizationID (acknowledged_row v a n w) = iwOrganizationID w"
  "iwMonitorID (acknowledged_row v a n w) = iwMonitorID w" "iwVersion (acknowledged_row v a n w) = v"
  "iwState (acknowledged_row v a n w) = IncidentAcknowledged"
  by (simp_all add: acknowledged_row_def)

lemma opened_life:
  assumes inv: "incident_life_inv d" and p: "insert_incident_opened e ids t queued d = Inr d'"
  shows "incident_life_inv d'"
proof -
  obtain d1 d2 where i: "insert_incident (opened_row e (iiIncidentID ids) t) d = Inr d1"
    and l: "insert_timeline (transition_timeline (iiTimelineID ids) (htOrganizationID e) (iiIncidentID ids) 1
       TimelineOpened e t) d1 = Inr d2"
    and x: "insert_incident_event e (iiIncidentID ids) 1 ''opened'' (iiAlertEventID ids) (twOccurredAt t) queued d2 = Inr d'"
    using p by (auto simp: insert_incident_opened_def and_then_Inr)
  have "incident_life_inv d2"
    by (rule opening_keeps_life [OF inv i l]) (simp_all add: opened_row_def transition_timeline_def)
  then show ?thesis using incident_event_Inr [OF x] incident_life_inv_same [of d' d2] by auto
qed

lemma resolved_life:
  assumes inv: "incident_life_inv d" and v: "active_incident d org mon = Some v"
    and p: "resolve_incident v e ids t queued d = Inr d'"
  shows "incident_life_inv d'"
proof -
  obtain w where w: "w \<in> set (dbIncidents d)" "v = scan_incident w" "iwState w \<noteq> IncidentResolved"
    using v by (rule active_incident_Some)
  obtain d1 d2 where u: "update_incident ''resolve Incident'' (unresolved (icID v) (icOrganizationID v))
       (resolved_row e (icVersion v + 1) t) d = Inr d1"
    and l: "insert_timeline (transition_timeline (iiTimelineID ids) (icOrganizationID v) (icID v) (icVersion v + 1)
       TimelineResolved e t) d1 = Inr d2"
    and x: "insert_incident_event e (icID v) (icVersion v + 1) ''resolved'' (iiAlertEventID ids) (twOccurredAt t) queued d2 = Inr d'"
    using p by (auto simp: resolve_incident_def and_then_Inr Let_def)
  have "incident_life_inv d2"
    by (rule change_keeps_life [OF inv w(1) _ _ update_incident_Inr [OF u] l])
      (use w in \<open>auto simp: unresolved_def transition_timeline_def intro: life_of_resolved\<close>)
  then show ?thesis using incident_event_Inr [OF x] incident_life_inv_same [of d' d2] by auto
qed

lemma project_transition_life:
  assumes "incident_life_inv d" and "project_transition e ids m t now d = Inr d'"
  shows "incident_life_inv d'"
  using assms by (auto simp: project_transition_def split: if_splits option.splits
      dest: opened_life resolved_life)

lemma advance_cursor_Inr:
  assumes "advance_cursor org mon v now d = Inr d'"
  shows "\<exists>ks. d' = d\<lparr>dbCursors := ks\<rparr> \<and> 1 \<le> v
    \<and> (unique_on (\<lambda>k. Some (kwOrganizationID k, kwMonitorID k)) (dbCursors d) \<longrightarrow>
        unique_on (\<lambda>k. Some (kwOrganizationID k, kwMonitorID k)) ks)
    \<and> (\<forall>o' m. map_option kwLastVersion (find (is_cursor o' m) ks)
        = (if o' = org \<and> m = mon then Some v else projection_cursor d o' m))"
proof -
  define k where "k = \<lparr>kwOrganizationID = org, kwMonitorID = mon, kwLastVersion = v, kwUpdatedAt = db_instant now\<rparr>"
  have ks: "is_cursor o' m k \<longleftrightarrow> o' = org \<and> m = mon" "kwLastVersion k = v" for o' m
    by (auto simp: k_def is_cursor_def)
  have v: "1 \<le> v" using assms by (simp add: advance_cursor_def Let_def split: if_splits)
  show ?thesis
  proof (cases "sql_exists (is_cursor org mon) (dbCursors d)")
    case True
    let ?ks = "sql_update (is_cursor org mon) (\<lambda>_. k) (dbCursors d)"
    obtain y where y: "find (is_cursor org mon) (dbCursors d) = Some y"
      using True by (cases "find (is_cursor org mon) (dbCursors d)") (auto simp: find_None_iff)
    have "map_option kwLastVersion (find (is_cursor o' m) ?ks)
        = (if o' = org \<and> m = mon then Some v else projection_cursor d o' m)" for o' m
    proof (cases "o' = org \<and> m = mon")
      case True
      then have "find (is_cursor o' m) ?ks = Some k"
        using find_sql_update_hit [of "is_cursor org mon" "is_cursor org mon" "\<lambda>_. k", OF _ y] find_holds [OF y] ks
        by simp
      then show ?thesis using True ks by simp
    next
      case False
      have "find (is_cursor o' m) ?ks = find (is_cursor o' m) (dbCursors d)"
        by (rule find_sql_update_outside) (use False ks in \<open>auto simp: is_cursor_def\<close>)
      then show ?thesis using False by (auto simp: projection_cursor_def)
    qed
    moreover have "d' = d\<lparr>dbCursors := ?ks\<rparr>" using assms True by (simp add: advance_cursor_def Let_def k_def split: if_splits)
    moreover have "unique_on (\<lambda>k. Some (kwOrganizationID k, kwMonitorID k)) ?ks"
      if "unique_on (\<lambda>k. Some (kwOrganizationID k, kwMonitorID k)) (dbCursors d)"
      by (rule unique_on_sql_update [OF that]) (simp add: k_def is_cursor_def)
    ultimately show ?thesis using v by blast
  next
    case False
    let ?ks = "dbCursors d @ [k]"
    have n: "find (is_cursor org mon) (dbCursors d) = None" using False by (auto simp: find_None_iff)
    have "map_option kwLastVersion (find (is_cursor o' m) ?ks)
        = (if o' = org \<and> m = mon then Some v else projection_cursor d o' m)" for o' m
      using n find_append_None [of "is_cursor o' m" "dbCursors d" "[k]"]
        find_append_Some [of "is_cursor o' m" "dbCursors d" _ "[k]"] ks
      by (cases "find (is_cursor o' m) (dbCursors d)") (auto simp: projection_cursor_def)
    moreover have "d' = d\<lparr>dbCursors := ?ks\<rparr>" using assms False by (simp add: advance_cursor_def Let_def k_def split: if_splits)
    moreover have "unique_on (\<lambda>k. Some (kwOrganizationID k, kwMonitorID k)) ?ks"
      if "unique_on (\<lambda>k. Some (kwOrganizationID k, kwMonitorID k)) (dbCursors d)"
      using that False by (auto simp: unique_on_append k_def is_cursor_def)
    ultimately show ?thesis using v by blast
  qed
qed

text \<open>A processed transition that changed the database was the next one, or an old one.\<close>

lemma process_transition_changed:
  assumes "process_health_transition d e ids now = (r, d')" and "d' \<noteq> d"
  obtains t m d1 where "t \<in> set (dbTransitions d)" "twOrganizationID t = htOrganizationID e" "m \<in> set (dbMonitors d)"
    "mrID m = twMonitorID t" "mrOrganizationID m = htOrganizationID e" "event_matches_transition e t"
    "d1 = d \<or> (htAggregateVersion e = (case projection_cursor d (htOrganizationID e) (twMonitorID t) of None \<Rightarrow> 1 | Some v \<Rightarrow> v + 1)
       \<and> (\<exists>d0. project_transition e ids m t now d = Inr d0
            \<and> advance_cursor (htOrganizationID e) (twMonitorID t) (htAggregateVersion e) now d0 = Inr d1))"
    "mark_outbox_event_processed (htEventID e) (htOrganizationID e) TopicHealthTransitionedV1 now d1 = Inr d'"
proof -
  obtain d1 where d1: "process_transition_tx e ids now d = Inr d1"
    and d': "mark_outbox_event_processed (htEventID e) (htOrganizationID e) TopicHealthTransitionedV1 now d1 = Inr d'"
    using assms by (auto simp: process_health_transition_def run_tx_def and_then_Inr split: if_splits sum.splits)
  obtain t m where t: "find (\<lambda>t. twID t = htTransitionID e \<and> twOrganizationID t = htOrganizationID e) (dbTransitions d) = Some t"
    and m: "find (is_monitor (twOrganizationID t) (twMonitorID t)) (dbMonitors d) = Some m"
    using d1 by (auto simp: process_transition_tx_def split: option.splits)
  have em: "event_matches_transition e t" using d1 t m by (auto simp: process_transition_tx_def split: if_splits)
  let ?c = "projection_cursor d (htOrganizationID e) (twMonitorID t)"
  have "d1 = d \<or> (htAggregateVersion e = (case ?c of None \<Rightarrow> 1 | Some v \<Rightarrow> v + 1)
       \<and> (\<exists>d0. project_transition e ids m t now d = Inr d0
            \<and> advance_cursor (htOrganizationID e) (twMonitorID t) (htAggregateVersion e) now d0 = Inr d1))"
    using d1 t m em by (cases ?c) (auto simp: process_transition_tx_def Let_def and_then_Inr split: if_splits)
  then show thesis
    using find_holds [OF t] find_holds [OF m] em d' by (intro that [of t m d1]) (auto simp: is_monitor_def)
qed

lemma process_health_transition_life:
  assumes inv: "incident_life_inv d" and p: "process_health_transition d e ids now = (r, d')"
  shows "incident_life_inv d'"
proof (cases "d' = d")
  case False
  with p show ?thesis
  proof (rule process_transition_changed)
    fix t m d1
    assume c: "d1 = d \<or> (htAggregateVersion e = (case projection_cursor d (htOrganizationID e) (twMonitorID t) of None \<Rightarrow> 1 | Some v \<Rightarrow> v + 1)
       \<and> (\<exists>d0. project_transition e ids m t now d = Inr d0
            \<and> advance_cursor (htOrganizationID e) (twMonitorID t) (htAggregateVersion e) now d0 = Inr d1))"
      and d': "mark_outbox_event_processed (htEventID e) (htOrganizationID e) TopicHealthTransitionedV1 now d1 = Inr d'"
    have "incident_life_inv d1"
    proof (cases "d1 = d")
      case False
      then obtain d0 where d0: "project_transition e ids m t now d = Inr d0"
        "advance_cursor (htOrganizationID e) (twMonitorID t) (htAggregateVersion e) now d0 = Inr d1" using c by blast
      have "incident_life_inv d1 = incident_life_inv d0"
        by (rule incident_life_inv_same) (use advance_cursor_Inr [OF d0(2)] in auto)
      then show ?thesis using project_transition_life [OF inv d0(1)] by simp
    qed (use inv in simp)
    moreover have "incident_life_inv d' = incident_life_inv d1"
      by (rule incident_life_inv_same) (use mark_processed_Inr(2) [OF d'] in auto)
    ultimately show ?thesis by simp
  qed
qed (use inv in simp)

lemma acknowledge_changed:
  assumes "acknowledge_incident d sc i actor tid now = (r, d')" and "d' \<noteq> d"
  obtains w d1 where "w \<in> set (dbIncidents d)" "in_incident_scope sc i w" "iwState w = IncidentOpen"
    "d1 = d\<lparr>dbIncidents := sql_update (\<lambda>x. iwID x = i \<and> iwOrganizationID x = scopeOrganizationID sc)
       (acknowledged_row (iwVersion w + 1) actor now) (dbIncidents d)\<rparr>"
    "insert_timeline (acknowledged_timeline tid (scopeOrganizationID sc) i (iwVersion w + 1) actor now) d1 = Inr d'"
proof -
  obtain w where f: "find (in_incident_scope sc i) (dbIncidents d) = Some w" and tx: "acknowledge_tx sc i actor tid now w d = Inr d'"
    using assms by (auto simp: acknowledge_incident_def run_tx_def and_then_Inr split: option.splits sum.splits)
  have o: "iwState w = IncidentOpen" using tx assms(2) by (auto simp: acknowledge_tx_def split: if_splits)
  obtain d1 where u: "update_incident ''acknowledge Incident'' (\<lambda>x. iwID x = i \<and> iwOrganizationID x = scopeOrganizationID sc)
      (acknowledged_row (iwVersion w + 1) actor now) d = Inr d1"
    and l: "insert_timeline (acknowledged_timeline tid (scopeOrganizationID sc) i (iwVersion w + 1) actor now) d1 = Inr d'"
    using tx o by (auto simp: acknowledge_tx_def Let_def and_then_Inr split: if_splits)
  show thesis using find_holds [OF f] by (intro that [OF _ _ o update_incident_Inr [OF u] l]) auto
qed

lemma acknowledge_life:
  assumes inv: "incident_life_inv d" and p: "acknowledge_incident d sc i actor tid now = (r, d')"
  shows "incident_life_inv d'"
proof (cases "d' = d")
  case False
  with p show ?thesis
  proof (rule acknowledge_changed)
    fix w :: incident_row and d1
    assume w: "w \<in> set (dbIncidents d)" "in_incident_scope sc i w" "iwState w = IncidentOpen"
      and d1: "d1 = d\<lparr>dbIncidents := sql_update (\<lambda>x. iwID x = i \<and> iwOrganizationID x = scopeOrganizationID sc)
       (acknowledged_row (iwVersion w + 1) actor now) (dbIncidents d)\<rparr>"
      and l: "insert_timeline (acknowledged_timeline tid (scopeOrganizationID sc) i (iwVersion w + 1) actor now) d1 = Inr d'"
    show ?thesis
      by (rule change_keeps_life [OF inv w(1) _ _ d1 l])
        (use w in \<open>auto simp: in_incident_scope_def acknowledged_timeline_def intro: life_of_acknowledged\<close>)
  qed
qed (use inv in simp)

section \<open>The projection follows the transitions\<close>

text \<open>
  The abstract projection: whether a Monitor has an unresolved Incident after its first transitions.
  It opens with \<open>down\<close>, closes with \<open>healthy\<close> and stays as it is otherwise.
\<close>

definition incident_after :: "bool \<Rightarrow> transition_row \<Rightarrow> bool" where
  "incident_after active t = (if state_text (twNewState t) = ''down'' then True
     else if state_text (twNewState t) = ''healthy'' then False else active)"

definition incident_spec :: "transition_row list \<Rightarrow> bool" where
  "incident_spec ts = foldl incident_after False ts"

definition applied_count :: "db \<Rightarrow> string \<Rightarrow> string \<Rightarrow> nat" where
  "applied_count d org mon = (case projection_cursor d org mon of None \<Rightarrow> 0 | Some v \<Rightarrow> nat v)"

definition unresolved_monitor :: "incident_row \<Rightarrow> string option" where
  "unresolved_monitor w = (if iwState w = IncidentResolved then None else Some (iwMonitorID w))"

definition has_incident :: "db \<Rightarrow> string \<Rightarrow> string \<Rightarrow> bool" where
  "has_incident d org mon \<longleftrightarrow>
     (\<exists>w \<in> set (dbIncidents d). iwOrganizationID w = org \<and> iwMonitorID w = mon \<and> iwState w \<noteq> IncidentResolved)"

lemma active_incident_iff: "active_incident d org mon = None \<longleftrightarrow> \<not> has_incident d org mon"
  by (auto simp: active_incident_def find_None_iff has_incident_def)

definition projection_ok :: "db \<Rightarrow> monitor_row \<Rightarrow> bool" where
  "projection_ok d m \<longleftrightarrow>
     (case projection_cursor d (mrOrganizationID m) (mrID m) of None \<Rightarrow> True
      | Some v \<Rightarrow> 1 \<le> v \<and> v \<le> int (length (transitions_of d (mrID m))))
     \<and> (mrState m \<noteq> ''archived'' \<longrightarrow> has_incident d (mrOrganizationID m) (mrID m) =
          incident_spec (take (applied_count d (mrOrganizationID m) (mrID m)) (transitions_of d (mrID m))))"

definition projection_inv :: "db \<Rightarrow> bool" where
  "projection_inv d \<longleftrightarrow> unique_on unresolved_monitor (dbIncidents d) \<and> (\<forall>m \<in> set (dbMonitors d). projection_ok d m)"

lemma applied_count_le:
  "projection_ok d m \<Longrightarrow> applied_count d (mrOrganizationID m) (mrID m) \<le> length (transitions_of d (mrID m))"
  by (auto simp: projection_ok_def applied_count_def split: option.splits)

lemma projection_ok_same:
  assumes "dbCursors d' = dbCursors d" "dbTransitions d' = dbTransitions d"
    and "has_incident d' (mrOrganizationID m) (mrID m) = has_incident d (mrOrganizationID m) (mrID m)"
  shows "projection_ok d' m = projection_ok d m"
proof -
  have c: "projection_cursor d' = projection_cursor d" "transitions_of d' = transitions_of d"
    using assms(1,2) by (simp_all add: projection_cursor_def transitions_of_def fun_eq_iff)
  then have "applied_count d' = applied_count d" by (simp add: applied_count_def fun_eq_iff)
  then show ?thesis unfolding projection_ok_def c assms(3) by simp
qed

lemma chained_version_nth:
  "chained st v cs \<Longrightarrow> k < length cs \<Longrightarrow> hcVersion (cs ! k) = v + int k + 1"
  by (induction cs arbitrary: st v k) (auto simp: nth_Cons split: nat.splits)

lemma transition_position:
  assumes inv: "health_db_inv d" and t: "t \<in> set (dbTransitions d)"
  shows "\<exists>k < length (transitions_of d (twMonitorID t)). transitions_of d (twMonitorID t) ! k = t \<and> twVersion t = int k + 1"
proof -
  let ?ts = "transitions_of d (twMonitorID t)"
  have mem: "t \<in> set ?ts" using t by (simp add: transitions_of_def)
  then obtain k where k: "k < length ?ts" "?ts ! k = t" by (auto simp: in_set_conv_nth)
  have "monitor_history_ok d (twMonitorID t)" using inv by (simp add: health_db_inv_def)
  then have "chained StateUnknown 0 (changes_of d (twMonitorID t))"
    using mem by (auto simp: monitor_history_ok_def snapshot_follows_def split: option.splits)
  then have "hcVersion (changes_of d (twMonitorID t) ! k) = int k + 1"
    using chained_version_nth [of StateUnknown 0 "changes_of d (twMonitorID t)" k] k(1) by (simp add: changes_of_def)
  then show ?thesis using k by (auto simp: changes_of_def change_of_def)
qed

lemma incident_spec_snoc: "incident_spec (ts @ [t]) = incident_after (incident_spec ts) t"
  by (simp add: incident_spec_def)

text \<open>What the projection of one transition does to the unresolved Incidents.\<close>

lemma opened_incidents:
  assumes "insert_incident_opened e ids t queued d = Inr d'"
  shows "\<exists>ls os. d' = d\<lparr>dbIncidents := dbIncidents d @ [opened_row e (iiIncidentID ids) t], dbTimeline := ls, dbOutbox := os\<rparr>"
    "\<forall>x \<in> set (dbIncidents d). iwMonitorID x = htMonitorID e \<longrightarrow> iwState x = IncidentResolved"
  using assms
  by (auto simp: insert_incident_opened_def and_then_Inr opened_row_def
      dest!: insert_incident_Inr insert_timeline_Inr incident_event_Inr)

lemma resolved_incidents:
  assumes "resolve_incident v e ids t queued d = Inr d'"
  shows "\<exists>ls os. d' = d\<lparr>dbIncidents := sql_update (unresolved (icID v) (icOrganizationID v))
    (resolved_row e (icVersion v + 1) t) (dbIncidents d), dbTimeline := ls, dbOutbox := os\<rparr>"
  using assms
  by (auto simp: resolve_incident_def and_then_Inr Let_def
      dest!: update_incident_Inr insert_timeline_Inr incident_event_Inr)

lemma opened_effect:
  assumes un: "unique_on unresolved_monitor (dbIncidents d)" and t: "twMonitorID t = htMonitorID e"
    and p: "insert_incident_opened e ids t queued d = Inr d'"
  shows "unique_on unresolved_monitor (dbIncidents d')"
    "has_incident d' org mon \<longleftrightarrow> has_incident d org mon \<or> (org = htOrganizationID e \<and> mon = twMonitorID t)"
proof -
  have d': "dbIncidents d' = dbIncidents d @ [opened_row e (iiIncidentID ids) t]"
    using opened_incidents(1) [OF p] by auto
  show "unique_on unresolved_monitor (dbIncidents d')"
    using un opened_incidents(2) [OF p] t d' by (auto simp: unique_on_append unresolved_monitor_def opened_row_def)
  show "has_incident d' org mon \<longleftrightarrow> has_incident d org mon \<or> (org = htOrganizationID e \<and> mon = twMonitorID t)"
    using t d' by (auto simp: has_incident_def opened_row_def)
qed

lemma resolved_effect:
  assumes un: "unique_on unresolved_monitor (dbIncidents d)" and v: "active_incident d o' m' = Some v"
    and p: "resolve_incident v e ids t queued d = Inr d'"
  shows "unique_on unresolved_monitor (dbIncidents d')"
    "mon \<noteq> m' \<Longrightarrow> incident_life_inv d \<Longrightarrow> has_incident d' org mon = has_incident d org mon"
    "\<not> has_incident d' o' m'"
proof -
  let ?p = "unresolved (icID v) (icOrganizationID v)" and ?f = "resolved_row e (icVersion v + 1) t"
  have d': "dbIncidents d' = sql_update ?p ?f (dbIncidents d)" using resolved_incidents [OF p] by auto
  obtain w where w: "w \<in> set (dbIncidents d)" "v = scan_incident w" "iwOrganizationID w = o'" "iwMonitorID w = m'"
    "iwState w \<noteq> IncidentResolved"
    using v by (rule active_incident_Some)
  show "unique_on unresolved_monitor (dbIncidents d')"
    unfolding d' by (rule unique_on_sql_update_drop [OF un]) (simp add: unresolved_monitor_def)
  show "\<not> has_incident d' o' m'"
  proof
    assume "has_incident d' o' m'"
    then obtain y where y: "y \<in> set (sql_update ?p ?f (dbIncidents d))" "iwMonitorID y = m'" "iwState y \<noteq> IncidentResolved"
      unfolding has_incident_def d' by blast
    then obtain x where "x \<in> set (dbIncidents d)" "y = (if ?p x then ?f x else x)" by (auto simp: in_sql_update)
    then have x: "x \<in> set (dbIncidents d)" "iwMonitorID x = m'" "iwState x \<noteq> IncidentResolved" "\<not> ?p x"
      using y(2,3) by (auto split: if_splits)
    then have "x = w" using unique_onD [OF un x(1) w(1), of m'] w by (simp add: unresolved_monitor_def)
    then show False using x(4) w by (simp add: unresolved_def)
  qed
  assume m: "mon \<noteq> m'" and life: "incident_life_inv d"
  have only: "x = w" if "x \<in> set (dbIncidents d)" "?p x" for x
    using unique_onD [of "\<lambda>w. Some (iwID w)" "dbIncidents d" x w] life that w by (simp add: incident_life_inv_def unresolved_def)
  show "has_incident d' org mon = has_incident d org mon"
    unfolding has_incident_def d' using only w m by (force simp: in_sql_update)
qed

lemma project_transition_cases:
  "project_transition e ids m t now d = Inr d' \<Longrightarrow> d' = d \<or> insert_incident_opened e ids t now d = Inr d'
     \<or> (\<exists>v. active_incident d (htOrganizationID e) (twMonitorID t) = Some v \<and> resolve_incident v e ids t now d = Inr d')"
  by (simp add: project_transition_def split: if_splits option.splits)

lemma project_transition_frame:
  assumes "project_transition e ids m t now d = Inr d'"
  shows "dbMonitors d' = dbMonitors d \<and> dbHealth d' = dbHealth d \<and> dbCandidates d' = dbCandidates d
    \<and> dbTransitions d' = dbTransitions d \<and> dbCursors d' = dbCursors d"
  using assms by (auto simp: project_transition_def split: if_splits option.splits
      dest!: opened_incidents(1) resolved_incidents)

lemma project_transition_incidents:
  assumes un: "unique_on unresolved_monitor (dbIncidents d)" and life: "incident_life_inv d"
    and t: "twMonitorID t = htMonitorID e" and p: "project_transition e ids m t now d = Inr d'"
  shows "unique_on unresolved_monitor (dbIncidents d')"
    "mon \<noteq> twMonitorID t \<Longrightarrow> has_incident d' org mon = has_incident d org mon"
    "mrState m \<noteq> ''archived'' \<Longrightarrow> has_incident d' (htOrganizationID e) (twMonitorID t) \<longleftrightarrow>
      incident_after (has_incident d (htOrganizationID e) (twMonitorID t)) t"
proof -
  let ?h = "has_incident d (htOrganizationID e) (twMonitorID t)"
  have "unique_on unresolved_monitor (dbIncidents d')
      \<and> (mon \<noteq> twMonitorID t \<longrightarrow> has_incident d' org mon = has_incident d org mon)
      \<and> (mrState m \<noteq> ''archived'' \<longrightarrow> has_incident d' (htOrganizationID e) (twMonitorID t) = incident_after ?h t)"
  proof (cases "state_text (twNewState t) = ''down''")
    case down: True
    then have a: "incident_after b t" for b by (simp add: incident_after_def)
    show ?thesis
    proof (cases "mrState m \<noteq> ''archived'' \<and> active_incident d (htOrganizationID e) (twMonitorID t) = None")
      case True
      then have "insert_incident_opened e ids t now d = Inr d'" using p down by (simp add: project_transition_def)
      then show ?thesis using opened_effect [OF un t] a by simp
    next
      case False
      then have "d' = d" using p down by (auto simp: project_transition_def split: if_splits)
      then show ?thesis using False un a by (auto simp: active_incident_iff simp del: not_None_eq)
    qed
  next
    case not_down: False
    show ?thesis
    proof (cases "state_text (twNewState t) = ''healthy''")
      case True
      then have a: "\<not> incident_after b t" for b by (simp add: incident_after_def)
      show ?thesis
      proof (cases "active_incident d (htOrganizationID e) (twMonitorID t)")
        case None
        then have "d' = d" using p True by (simp add: project_transition_def)
        then show ?thesis using None un a by (simp add: active_incident_iff)
      next
        case (Some v)
        then have "resolve_incident v e ids t now d = Inr d'" using p True by (simp add: project_transition_def)
        then show ?thesis using resolved_effect [OF un Some] life a by simp
      qed
    next
      case False
      then have "d' = d" using p not_down by (simp add: project_transition_def)
      then show ?thesis using un False not_down by (simp add: incident_after_def)
    qed
  qed
  then show "unique_on unresolved_monitor (dbIncidents d')"
    "mon \<noteq> twMonitorID t \<Longrightarrow> has_incident d' org mon = has_incident d org mon"
    "mrState m \<noteq> ''archived'' \<Longrightarrow> has_incident d' (htOrganizationID e) (twMonitorID t) \<longleftrightarrow> incident_after ?h t"
    by blast+
qed

lemma advance_cursor_other:
  assumes "advance_cursor org mon v now d = Inr d'"
  shows "dbMonitors d' = dbMonitors d \<and> dbHealth d' = dbHealth d \<and> dbCandidates d' = dbCandidates d
    \<and> dbTransitions d' = dbTransitions d \<and> dbIncidents d' = dbIncidents d"
    "projection_cursor d' o' m = (if o' = org \<and> m = mon then Some v else projection_cursor d o' m)"
proof -
  obtain ks where ks: "d' = d\<lparr>dbCursors := ks\<rparr>"
    "\<forall>o' m. map_option kwLastVersion (find (is_cursor o' m) ks)
       = (if o' = org \<and> m = mon then Some v else projection_cursor d o' m)"
    using advance_cursor_Inr [OF assms] by blast
  show "dbMonitors d' = dbMonitors d \<and> dbHealth d' = dbHealth d \<and> dbCandidates d' = dbCandidates d
      \<and> dbTransitions d' = dbTransitions d \<and> dbIncidents d' = dbIncidents d"
    using ks(1) by simp
  show "projection_cursor d' o' m = (if o' = org \<and> m = mon then Some v else projection_cursor d o' m)"
    using ks(2) by (simp add: ks(1) projection_cursor_def [of "d\<lparr>dbCursors := ks\<rparr>"])
qed

text \<open>Applying the next transition of a Monitor.\<close>

lemma apply_next_projection:
  assumes hinv: "health_db_inv d" and life: "incident_life_inv d" and inv: "projection_inv d"
    and t: "t \<in> set (dbTransitions d)" "event_matches_transition e t"
    and m: "m \<in> set (dbMonitors d)" "mrID m = twMonitorID t" "mrOrganizationID m = htOrganizationID e"
    and v: "htAggregateVersion e = (case projection_cursor d (htOrganizationID e) (twMonitorID t) of None \<Rightarrow> 1 | Some v \<Rightarrow> v + 1)"
    and d0: "project_transition e ids m t now d = Inr d0"
    and d1: "advance_cursor (htOrganizationID e) (twMonitorID t) (htAggregateVersion e) now d0 = Inr d1"
  shows "projection_inv d1"
proof -
  let ?org = "htOrganizationID e" and ?mon = "twMonitorID t"
  have un: "unique_on unresolved_monitor (dbIncidents d)" using inv by (simp add: projection_inv_def)
  have tm: "twMonitorID t = htMonitorID e" "twVersion t = htAggregateVersion e"
    using t(2) by (simp_all add: event_matches_transition_def)
  note P = project_transition_incidents [OF un life tm(1) d0] and F = project_transition_frame [OF d0]
    and A = advance_cursor_other [OF d1]
  obtain k where k: "k < length (transitions_of d ?mon)" "transitions_of d ?mon ! k = t" "twVersion t = int k + 1"
    using transition_position [OF hinv t(1)] by blast
  have mok: "projection_ok d m" using inv m(1) by (simp add: projection_inv_def)
  then have n: "k = applied_count d ?org ?mon"
    using v k(3) tm(2) m by (auto simp: applied_count_def projection_ok_def split: option.splits)
  have tr: "transitions_of d1 x = transitions_of d x" for x using A(1) F by (simp add: transitions_of_def)
  have hi: "has_incident d1 o' x = has_incident d0 o' x" for o' x using A(1) by (simp add: has_incident_def)
  have pc: "projection_cursor d0 = projection_cursor d" using F by (simp add: projection_cursor_def fun_eq_iff)
  have "projection_ok d1 x" if x: "x \<in> set (dbMonitors d)" for x
  proof (cases "mrID x = ?mon")
    case True
    have "x = m" using hinv x m True by (auto simp: health_db_inv_def dest: unique_onD)
    have c: "projection_cursor d1 ?org ?mon = Some (int k + 1)" using A(2) k(3) tm(2) by simp
    then have ac: "applied_count d1 ?org ?mon = Suc k" by (simp add: applied_count_def)
    have "take (Suc k) (transitions_of d ?mon) = take k (transitions_of d ?mon) @ [t]"
      using k by (simp add: take_Suc_conv_app_nth)
    then have "incident_spec (take (Suc k) (transitions_of d ?mon)) = incident_after (has_incident d ?org ?mon) t"
      if "mrState m \<noteq> ''archived''"
      using mok that n m by (simp add: projection_ok_def incident_spec_snoc)
    then show ?thesis
      using \<open>x = m\<close> c ac tr hi P(3) k(1) m by (simp add: projection_ok_def)
  next
    case False
    have "projection_ok d x" using inv x by (simp add: projection_inv_def)
    moreover have "projection_cursor d1 o' (mrID x) = projection_cursor d o' (mrID x)" for o'
      using A(2) False pc by auto
    moreover have "has_incident d1 o' (mrID x) = has_incident d o' (mrID x)" for o'
      using hi P(2) False by simp
    ultimately show ?thesis
      unfolding projection_ok_def applied_count_def tr by simp
  qed
  then show ?thesis using P(1) A(1) F by (simp add: projection_inv_def)
qed

lemma projection_inv_same:
  assumes "dbMonitors d' = dbMonitors d" "dbCursors d' = dbCursors d" "dbTransitions d' = dbTransitions d"
    "dbIncidents d' = dbIncidents d"
  shows "projection_inv d' = projection_inv d"
proof -
  have "projection_ok d' m = projection_ok d m" for m
    using assms by (intro projection_ok_same) (simp_all add: has_incident_def)
  then show ?thesis using assms by (simp add: projection_inv_def)
qed

lemma process_health_transition_projection:
  assumes hinv: "health_db_inv d" and life: "incident_life_inv d" and inv: "projection_inv d"
    and p: "process_health_transition d e ids now = (r, d')"
  shows "projection_inv d' \<and> health_db_inv d'"
proof (cases "d' = d")
  case False
  with p show ?thesis
  proof (rule process_transition_changed)
    fix t m d1
    assume t: "t \<in> set (dbTransitions d)" "event_matches_transition e t"
      and m: "m \<in> set (dbMonitors d)" "mrID m = twMonitorID t" "mrOrganizationID m = htOrganizationID e"
      and c: "d1 = d \<or> (htAggregateVersion e = (case projection_cursor d (htOrganizationID e) (twMonitorID t) of None \<Rightarrow> 1 | Some v \<Rightarrow> v + 1)
       \<and> (\<exists>d0. project_transition e ids m t now d = Inr d0
            \<and> advance_cursor (htOrganizationID e) (twMonitorID t) (htAggregateVersion e) now d0 = Inr d1))"
      and d': "mark_outbox_event_processed (htEventID e) (htOrganizationID e) TopicHealthTransitionedV1 now d1 = Inr d'"
    have "projection_inv d1 \<and> health_db_inv d1"
    proof (cases "d1 = d")
      case False
      then obtain d0 where v: "htAggregateVersion e = (case projection_cursor d (htOrganizationID e) (twMonitorID t) of None \<Rightarrow> 1 | Some v \<Rightarrow> v + 1)"
        and d0: "project_transition e ids m t now d = Inr d0"
          "advance_cursor (htOrganizationID e) (twMonitorID t) (htAggregateVersion e) now d0 = Inr d1" using c by blast
      have "health_db_inv d1 = health_db_inv d"
        by (rule health_db_inv_same) (use project_transition_frame [OF d0(1)] advance_cursor_other(1) [OF d0(2)] in simp_all)
      then show ?thesis using apply_next_projection [OF hinv life inv t m v d0] hinv by simp
    qed (use hinv inv in simp)
    moreover have "projection_inv d' = projection_inv d1"
      by (rule projection_inv_same) (use mark_processed_Inr(2) [OF d'] in auto)
    ultimately show ?thesis using mark_processed_keeps_health [OF d'] by simp
  qed
qed (use hinv inv in simp)

lemma acknowledge_projection:
  assumes hinv: "health_db_inv d" and life: "incident_life_inv d" and inv: "projection_inv d"
    and p: "acknowledge_incident d sc i actor tid now = (r, d')"
  shows "projection_inv d' \<and> health_db_inv d'"
proof (cases "d' = d")
  case False
  with p show ?thesis
  proof (rule acknowledge_changed)
    fix w :: incident_row and d1
    let ?p = "\<lambda>x :: incident_row. iwID x = i \<and> iwOrganizationID x = scopeOrganizationID sc"
    let ?f = "acknowledged_row (iwVersion w + 1) actor now :: incident_row \<Rightarrow> incident_row"
    assume w: "w \<in> set (dbIncidents d)" "in_incident_scope sc i w" "iwState w = IncidentOpen"
      and d1: "d1 = d\<lparr>dbIncidents := sql_update ?p ?f (dbIncidents d)\<rparr>"
      and l: "insert_timeline (acknowledged_timeline tid (scopeOrganizationID sc) i (iwVersion w + 1) actor now) d1 = Inr d'"
    have d': "dbIncidents d' = sql_update ?p ?f (dbIncidents d)" "dbMonitors d' = dbMonitors d"
      "dbCursors d' = dbCursors d" "dbTransitions d' = dbTransitions d" "dbHealth d' = dbHealth d" "dbCandidates d' = dbCandidates d"
      using insert_timeline_Inr [OF l] d1 by auto
    have uq: "unique_on (\<lambda>w. Some (iwID w)) (dbIncidents d)" using life by (simp add: incident_life_inv_def)
    have only: "x = w" if "x \<in> set (dbIncidents d)" "?p x" for x
      using unique_onD [OF uq that(1) w(1)] that w(2) by (simp add: in_incident_scope_def)
    have fw: "unresolved_monitor (?f w) = unresolved_monitor w" using w(3) by (simp add: unresolved_monitor_def)
    have un: "unique_on unresolved_monitor (dbIncidents d')"
      unfolding d'(1) by (rule unique_on_sql_update) (use inv only fw in \<open>auto simp: projection_inv_def\<close>)
    have "has_incident d' o' m = has_incident d o' m" for o' m
    proof -
      have "iwOrganizationID (?f x) = iwOrganizationID x \<and> iwMonitorID (?f x) = iwMonitorID x
          \<and> (iwState (?f x) \<noteq> IncidentResolved) = (iwState x \<noteq> IncidentResolved)"
        if "x \<in> set (dbIncidents d)" "?p x" for x
        using only [OF that] w(3) by simp
      then show ?thesis
        unfolding has_incident_def d'(1) sql_update_def set_map bex_simps(7) by (intro bex_cong refl) auto
    qed
    then have "projection_ok d' m = projection_ok d m" for m
      using d' by (intro projection_ok_same) simp_all
    then show ?thesis using inv un d' hinv health_db_inv_same [of d' d] by (simp add: projection_inv_def)
  qed
qed (use hinv inv in simp)


section \<open>Health and Incidents together\<close>

text \<open>The tables of Alerts, maintenance windows and Webhooks, which neither health nor Incidents write.\<close>

definition notification_tables_kept :: "db \<Rightarrow> db \<Rightarrow> bool" where
  "notification_tables_kept d d' \<longleftrightarrow> dbAlerts d' = dbAlerts d \<and> dbWindows d' = dbWindows d
     \<and> dbIntegrations d' = dbIntegrations d \<and> dbSecrets d' = dbSecrets d \<and> dbDeliveries d' = dbDeliveries d
     \<and> dbAttempts d' = dbAttempts d"

definition incident_tables_kept :: "db \<Rightarrow> db \<Rightarrow> bool" where
  "incident_tables_kept d d' \<longleftrightarrow> dbMonitors d' = dbMonitors d \<and> dbIncidents d' = dbIncidents d
     \<and> dbTimeline d' = dbTimeline d \<and> dbCursors d' = dbCursors d \<and> notification_tables_kept d d'"

lemma complete_candidate_incidents [simp]:
  "dbIncidents (complete_candidate org c now d) = dbIncidents d"
  "dbTimeline (complete_candidate org c now d) = dbTimeline d"
  "dbCursors (complete_candidate org c now d) = dbCursors d"
  "dbAlerts (complete_candidate org c now d) = dbAlerts d"
  "dbWindows (complete_candidate org c now d) = dbWindows d"
  "dbIntegrations (complete_candidate org c now d) = dbIntegrations d"
  "dbSecrets (complete_candidate org c now d) = dbSecrets d"
  "dbDeliveries (complete_candidate org c now d) = dbDeliveries d"
  "dbAttempts (complete_candidate org c now d) = dbAttempts d"
  by (simp_all add: complete_candidate_def)

lemmas incident_frame_defs = incident_tables_kept_def notification_tables_kept_def

lemma store_candidates_incidents:
  assumes "store_candidates e ids location now dec d = Inr d1"
  shows "incident_tables_kept d d1"
proof -
  let ?d0 = "case deCandidateCompleted dec of None \<Rightarrow> d | Some c \<Rightarrow> complete_candidate (rrOrganizationID e) c now d"
  have "incident_tables_kept d ?d0" by (simp add: incident_frame_defs split: option.split)
  then show ?thesis using assms unfolding store_candidates_def Let_def
    by (auto simp: and_then_Inr incident_frame_defs split: option.splits
        dest!: confirmation_request_Inr insert_candidate_tables)
qed

lemma store_decision_incidents:
  assumes "store_decision e ids location now dec d = Inr d'"
  shows "incident_tables_kept d d'"
proof -
  obtain d1 d2 where s1: "store_candidates e ids location now dec d = Inr d1"
    and s2: "upsert_health (deSnapshot dec) d1 = Inr d2"
    and s3: "(if deTransitioned dec then insert_health_transition e dec ids now d2 else Inr d2) = Inr d'"
    using assms by (auto simp: store_decision_def and_then_Inr)
  have "incident_tables_kept d2 d'"
    using s3 by (auto simp: insert_health_transition_def and_then_Inr incident_frame_defs
        dest!: insert_transition_Inr publish_transition_Inr split: if_splits)
  then show ?thesis using store_candidates_incidents [OF s1] upsert_tables [OF s2] by (auto simp: incident_frame_defs)
qed

lemma health_step_incidents:
  assumes "health_step d d'"
  shows "incident_tables_kept d d'"
  using assms
proof cases
  case (delivered ids e now r)
  show ?thesis
  proof (cases "d' = d")
    case False
    with delivered(2) obtain m w oc d1 where d1: "(if mrState m = ''active'' then evaluate_run e ids now m w oc d else Inr d) = Inr d1"
      and d': "mark_outbox_event_processed (rrEventID e) (rrOrganizationID e) TopicRunRecordedV1 now d1 = Inr d'"
      by (rule process_run_changed)
    have "incident_tables_kept d d1"
      using d1 by (auto simp: incident_frame_defs split: if_splits elim!: evaluate_run_Inr
          dest!: store_decision_incidents)
    then show ?thesis using mark_processed_Inr(2) [OF d'] by (auto simp: incident_frame_defs)
  qed (simp add: incident_frame_defs)
next
  case (swept target tid event_id now ceiling r)
  show ?thesis
  proof (cases "d' = d")
    case False
    with swept obtain s where "stale_health_tx target tid event_id now s d = Inr d'"
      by (elim mark_health_stale_changed) auto
    then show ?thesis
      by (auto simp: stale_health_tx_def and_then_Inr Let_def incident_frame_defs split: option.splits
          dest!: upsert_tables insert_transition_Inr publish_transition_Inr)
  qed (simp add: incident_frame_defs)
qed

lemma health_step_projection:
  assumes st: "health_step d d'" and inv: "projection_inv d"
  shows "projection_inv d'"
proof -
  have k: "incident_tables_kept d d'" using health_step_incidents [OF st] .
  obtain ts where ts: "dbTransitions d' = dbTransitions d @ ts"
    using health_step_publishes [OF st] by (auto simp: adds_published_def)
  have pc: "projection_cursor d' = projection_cursor d" "has_incident d' = has_incident d"
    using k by (simp_all add: projection_cursor_def has_incident_def incident_tables_kept_def fun_eq_iff)
  have tr: "\<exists>us. transitions_of d' i = transitions_of d i @ us" for i using ts by (simp add: transitions_of_def)
  have "projection_ok d' m" if "m \<in> set (dbMonitors d)" for m
  proof -
    obtain us where us: "transitions_of d' (mrID m) = transitions_of d (mrID m) @ us" using tr by blast
    have ok: "projection_ok d m" using inv that by (simp add: projection_inv_def)
    then have "applied_count d (mrOrganizationID m) (mrID m) \<le> length (transitions_of d (mrID m))"
      by (rule applied_count_le)
    moreover have "applied_count d' = applied_count d" by (simp add: applied_count_def pc fun_eq_iff)
    ultimately show ?thesis using ok unfolding projection_ok_def pc us by (auto split: option.splits)
  qed
  then show ?thesis using inv k by (simp add: projection_inv_def incident_tables_kept_def)
qed

text \<open>What workers and users do to health and Incidents, in any order.\<close>

inductive incident_step :: "db \<Rightarrow> db \<Rightarrow> bool" where
  health: "health_step d d' \<Longrightarrow> incident_step d d'"
| projected: "process_health_transition d e ids now = (r, d') \<Longrightarrow> incident_step d d'"
| acknowledged: "acknowledge_incident d sc i actor tid now = (ra, d') \<Longrightarrow> incident_step d d'"

inductive_cases incident_stepE: "incident_step d d'"

definition incident_db_inv :: "db \<Rightarrow> bool" where
  "incident_db_inv d \<longleftrightarrow> health_db_inv d \<and> incident_life_inv d \<and> projection_inv d"

lemma incident_step_inv:
  assumes "incident_step d d'" and inv: "incident_db_inv d"
  shows "incident_db_inv d'"
  using assms(1)
proof cases
  case health
  have "incident_life_inv d' = incident_life_inv d"
    by (rule incident_life_inv_same) (use health_step_incidents [OF health] in \<open>simp_all add: incident_tables_kept_def\<close>)
  then show ?thesis using inv health_step_inv [OF health] health_step_projection [OF health] by (simp add: incident_db_inv_def)
next
  case (projected e ids now r)
  then show ?thesis using inv process_health_transition_life [OF _ projected] process_health_transition_projection [OF _ _ _ projected]
    by (simp add: incident_db_inv_def)
next
  case (acknowledged sc i actor tid now ra)
  then show ?thesis using inv acknowledge_life [OF _ acknowledged] acknowledge_projection [OF _ _ _ acknowledged]
    by (simp add: incident_db_inv_def)
qed

lemma incident_steps_inv: "incident_step\<^sup>*\<^sup>* d d' \<Longrightarrow> incident_db_inv d \<Longrightarrow> incident_db_inv d'"
  by (induction rule: rtranclp_induct) (auto dest: incident_step_inv)

text \<open>Timelines only grow, and Incidents keep their identity.\<close>

definition incidents_grow :: "db \<Rightarrow> db \<Rightarrow> bool" where
  "incidents_grow d d' \<longleftrightarrow> notification_tables_kept d d' \<and> (\<exists>ls. dbTimeline d' = dbTimeline d @ ls)"

lemma incidents_grow_refl: "incidents_grow d d"
  by (simp add: incidents_grow_def notification_tables_kept_def)

lemma incidents_grow_trans: "incidents_grow d d1 \<Longrightarrow> incidents_grow d1 d2 \<Longrightarrow> incidents_grow d d2"
  by (auto simp: incidents_grow_def notification_tables_kept_def)

lemma insert_timeline_grow: "insert_timeline l d = Inr d' \<Longrightarrow> incidents_grow d d'"
  by (auto simp: incidents_grow_def notification_tables_kept_def dest!: insert_timeline_Inr)

lemma incidents_grow_update:
  "incidents_grow d (d\<lparr>dbIncidents := ws\<rparr>)" "incidents_grow d (d\<lparr>dbOutbox := xs\<rparr>)" "incidents_grow d (d\<lparr>dbCursors := ks\<rparr>)"
  "incidents_grow d (d\<lparr>dbProcessed := ps\<rparr>)"
  by (simp_all add: incidents_grow_def notification_tables_kept_def)

lemma project_transition_grow:
  assumes "project_transition e ids m t now d = Inr d'"
  shows "incidents_grow d d'"
proof -
  have "incidents_grow d d'" if "insert_incident_opened e ids t now d = Inr d'"
    using that insert_timeline_grow incidents_grow_update incidents_grow_trans
    by (auto simp: insert_incident_opened_def and_then_Inr dest!: insert_incident_Inr incident_event_Inr) (meson)
  moreover have "incidents_grow d d'" if "resolve_incident v e ids t now d = Inr d'" for v
    using that insert_timeline_grow incidents_grow_update incidents_grow_trans
    by (auto simp: resolve_incident_def Let_def and_then_Inr dest!: update_incident_Inr incident_event_Inr) (meson)
  ultimately show ?thesis using incidents_grow_refl project_transition_cases [OF assms] by blast
qed

lemma incident_step_grow:
  assumes "incident_step d d'"
  shows "incidents_grow d d'"
  using assms
proof cases
  case health
  then show ?thesis using health_step_incidents [OF health] by (simp add: incidents_grow_def incident_tables_kept_def)
next
  case (projected e ids now r)
  show ?thesis
  proof (cases "d' = d")
    case False
    with projected show ?thesis
    proof (rule process_transition_changed)
      fix t m d1
      assume c: "d1 = d \<or> (htAggregateVersion e = (case projection_cursor d (htOrganizationID e) (twMonitorID t) of None \<Rightarrow> 1 | Some v \<Rightarrow> v + 1)
         \<and> (\<exists>d0. project_transition e ids m t now d = Inr d0
              \<and> advance_cursor (htOrganizationID e) (twMonitorID t) (htAggregateVersion e) now d0 = Inr d1))"
        and d': "mark_outbox_event_processed (htEventID e) (htOrganizationID e) TopicHealthTransitionedV1 now d1 = Inr d'"
      have "incidents_grow d1 d'" using mark_processed_Inr(2) [OF d'] incidents_grow_update by auto
      moreover have "incidents_grow d d1"
      proof (cases "d1 = d")
        case False
        then obtain d0 where d0: "project_transition e ids m t now d = Inr d0"
          "advance_cursor (htOrganizationID e) (twMonitorID t) (htAggregateVersion e) now d0 = Inr d1" using c by blast
        have "incidents_grow d0 d1" using advance_cursor_Inr [OF d0(2)] incidents_grow_update by auto
        then show ?thesis using project_transition_grow [OF d0(1)] incidents_grow_trans by blast
      qed (simp add: incidents_grow_refl)
      ultimately show ?thesis using incidents_grow_trans by blast
    qed
  qed (simp add: incidents_grow_refl)
next
  case (acknowledged sc i actor tid now ra)
  show ?thesis
  proof (cases "d' = d")
    case False
    with acknowledged show ?thesis
      by (rule acknowledge_changed)
        (use insert_timeline_grow incidents_grow_update(1) incidents_grow_trans in \<open>blast\<close>)
  qed (simp add: incidents_grow_refl)
qed

text \<open>The tables of a fresh database, where the Monitors may already be configured.\<close>

definition no_history :: "db \<Rightarrow> bool" where
  "no_history d \<longleftrightarrow> dbHealth d = [] \<and> dbCandidates d = [] \<and> dbTransitions d = [] \<and> dbIncidents d = []
     \<and> dbTimeline d = [] \<and> dbCursors d = [] \<and> unique_on (\<lambda>m. Some (mrID m)) (dbMonitors d)"

lemma incident_db_inv_fresh: "no_history d \<Longrightarrow> incident_db_inv d"
  by (simp add: incident_db_inv_def health_db_inv_empty no_history_def incident_life_inv_def projection_inv_def
      projection_ok_def projection_cursor_def has_incident_def applied_count_def transitions_of_def incident_spec_def)

section \<open>Progress\<close>

text \<open>
  Incidents belong to the Organization of their Monitor. With the life of the timeline this is what
  makes the constraints of the tables hold when the next transition is applied.
\<close>

definition incidents_have_monitors :: "db \<Rightarrow> bool" where
  "incidents_have_monitors d \<longleftrightarrow> (\<forall>w \<in> set (dbIncidents d). monitor_in_db d (iwMonitorID w) (iwOrganizationID w))"

lemma incidents_have_monitors_same:
  "dbIncidents d' = dbIncidents d \<Longrightarrow> dbMonitors d' = dbMonitors d \<Longrightarrow> incidents_have_monitors d' = incidents_have_monitors d"
  by (simp add: incidents_have_monitors_def monitor_in_db_def)

lemma incidents_have_monitors_update:
  assumes "incidents_have_monitors d" and "dbMonitors d' = dbMonitors d" and "dbIncidents d' = sql_update p f (dbIncidents d)"
    and "\<And>w. iwMonitorID (f w) = iwMonitorID w" "\<And>w. iwOrganizationID (f w) = iwOrganizationID w"
  shows "incidents_have_monitors d'"
proof -
  have "monitor_in_db d' = monitor_in_db d" using assms(2) by (simp add: monitor_in_db_def fun_eq_iff)
  moreover have "monitor_in_db d (iwMonitorID y) (iwOrganizationID y)" if y: "y \<in> set (sql_update p f (dbIncidents d))" for y
  proof -
    obtain x where "x \<in> set (dbIncidents d)" "y = (if p x then f x else x)"
      using y unfolding in_sql_update by blast
    then show ?thesis using assms(1,4,5) by (auto simp: incidents_have_monitors_def)
  qed
  ultimately show ?thesis using assms(3) by (simp add: incidents_have_monitors_def)
qed

lemma project_transition_monitors:
  assumes inv: "incidents_have_monitors d" and p: "project_transition e ids m t now d = Inr d'"
  shows "incidents_have_monitors d'"
proof -
  consider "d' = d" | "insert_incident_opened e ids t now d = Inr d'"
    | v where "resolve_incident v e ids t now d = Inr d'"
    using project_transition_cases [OF p] by blast
  then show ?thesis
  proof cases
    case 2
    then have "monitor_in_db d (htMonitorID e) (htOrganizationID e)"
      by (auto simp: insert_incident_opened_def and_then_Inr insert_incident_def opened_row_def split: if_splits)
    moreover obtain ls os where "d' = d\<lparr>dbIncidents := dbIncidents d @ [opened_row e (iiIncidentID ids) t],
        dbTimeline := ls, dbOutbox := os\<rparr>"
      using opened_incidents(1) [OF 2] by blast
    ultimately show ?thesis using inv by (simp add: incidents_have_monitors_def monitor_in_db_def opened_row_def)
  next
    case 3
    then obtain ls os where "d' = d\<lparr>dbIncidents := sql_update (unresolved (icID v) (icOrganizationID v))
        (resolved_row e (icVersion v + 1) t) (dbIncidents d), dbTimeline := ls, dbOutbox := os\<rparr>"
      using resolved_incidents by blast
    then have "dbMonitors d' = dbMonitors d" "dbIncidents d' = sql_update (unresolved (icID v) (icOrganizationID v))
        (resolved_row e (icVersion v + 1) t) (dbIncidents d)"
      by simp_all
    then show ?thesis by (rule incidents_have_monitors_update [OF inv]) simp_all
  qed (use inv in simp)
qed

lemma incident_step_monitors:
  assumes "incident_step d d'" and inv: "incidents_have_monitors d"
  shows "incidents_have_monitors d'"
  using assms(1)
proof cases
  case health
  then show ?thesis using inv health_step_incidents [OF health] incidents_have_monitors_same [of d' d]
    by (auto simp: incident_tables_kept_def)
next
  case (projected e ids now r)
  show ?thesis
  proof (cases "d' = d")
    case False
    with projected show ?thesis
    proof (rule process_transition_changed)
      fix t m d1
      assume c: "d1 = d \<or> (htAggregateVersion e = (case projection_cursor d (htOrganizationID e) (twMonitorID t) of None \<Rightarrow> 1 | Some v \<Rightarrow> v + 1)
         \<and> (\<exists>d0. project_transition e ids m t now d = Inr d0
              \<and> advance_cursor (htOrganizationID e) (twMonitorID t) (htAggregateVersion e) now d0 = Inr d1))"
        and d': "mark_outbox_event_processed (htEventID e) (htOrganizationID e) TopicHealthTransitionedV1 now d1 = Inr d'"
      have "incidents_have_monitors d1"
      proof (cases "d1 = d")
        case False
        then obtain d0 where d0: "project_transition e ids m t now d = Inr d0"
          "advance_cursor (htOrganizationID e) (twMonitorID t) (htAggregateVersion e) now d0 = Inr d1" using c by blast
        show ?thesis using project_transition_monitors [OF inv d0(1)] advance_cursor_other(1) [OF d0(2)]
            incidents_have_monitors_same [of d1 d0] by simp
      qed (use inv in simp)
      then show ?thesis using mark_processed_Inr(2) [OF d'] incidents_have_monitors_same [of d' d1] by auto
    qed
  qed (use inv in simp)
next
  case (acknowledged sc i actor tid now ra)
  show ?thesis
  proof (cases "d' = d")
    case False
    with acknowledged show ?thesis
    proof (rule acknowledge_changed)
      fix w :: incident_row and d1
      assume d1: "d1 = d\<lparr>dbIncidents := sql_update (\<lambda>x. iwID x = i \<and> iwOrganizationID x = scopeOrganizationID sc)
           (acknowledged_row (iwVersion w + 1) actor now) (dbIncidents d)\<rparr>"
        and l: "insert_timeline (acknowledged_timeline tid (scopeOrganizationID sc) i (iwVersion w + 1) actor now) d1 = Inr d'"
      have "dbMonitors d' = dbMonitors d" "dbIncidents d' = sql_update (\<lambda>x. iwID x = i \<and> iwOrganizationID x = scopeOrganizationID sc)
           (acknowledged_row (iwVersion w + 1) actor now) (dbIncidents d)"
        using insert_timeline_Inr [OF l] d1 by simp_all
      then show ?thesis by (rule incidents_have_monitors_update [OF inv]) simp_all
    qed
  qed (use inv in simp)
qed

lemma incident_steps_monitors: "incident_step\<^sup>*\<^sup>* d d' \<Longrightarrow> incidents_have_monitors d \<Longrightarrow> incidents_have_monitors d'"
  by (induction rule: rtranclp_induct) (auto dest: incident_step_monitors)

text \<open>Identifiers no row has, and a transition whose event can be published.\<close>

definition fresh_incident_ids :: "incident_ids \<Rightarrow> db \<Rightarrow> bool" where
  "fresh_incident_ids ids d \<longleftrightarrow> (\<forall>w \<in> set (dbIncidents d). iwID w \<noteq> iiIncidentID ids)
     \<and> (\<forall>l \<in> set (dbTimeline d). lwID l \<noteq> iiTimelineID ids)
     \<and> iiAlertEventID ids \<noteq> '''' \<and> (\<forall>x \<in> set (dbOutbox d). xwID x \<noteq> iiAlertEventID ids)"

definition publishable :: "transition_row \<Rightarrow> db \<Rightarrow> bool" where
  "publishable t d \<longleftrightarrow> t \<in> set (dbTransitions d) \<and> json_instant (to_utc (twOccurredAt t)) \<noteq> None
     \<and> counts_ok (twCounts t) \<and> twOrganizationID t \<in> set (dbOrganizations d)"

lemma incident_event_succeeds:
  assumes "event_id \<noteq> ''''" and "\<forall>x \<in> set (dbOutbox d). xwID x \<noteq> event_id"
    and "json_instant (to_utc occurred) \<noteq> None" and "htOrganizationID e \<in> set (dbOrganizations d)"
  shows "\<exists>d'. insert_incident_event e i version kind event_id occurred queued d = Inr d'"
  using assms
  by (auto simp: insert_incident_event_def encode_incident_transitioned_def incident_event_def insert_raw_outbox_def
      split: option.splits)

lemma opening_succeeds:
  assumes life: "incident_life_inv d" and ids: "fresh_incident_ids ids d" and pub: "publishable t d"
    and t: "twID t = htTransitionID e" "twOrganizationID t = htOrganizationID e" "twMonitorID t = htMonitorID e"
    and m: "monitor_in_db d (htMonitorID e) (htOrganizationID e)"
    and none: "\<forall>w \<in> set (dbIncidents d). iwMonitorID w = htMonitorID e \<longrightarrow> iwState w = IncidentResolved"
  shows "\<exists>d'. insert_incident_opened e ids t now d = Inr d'"
proof -
  let ?w = "opened_row e (iiIncidentID ids) t"
  let ?l = "transition_timeline (iiTimelineID ids) (htOrganizationID e) (iiIncidentID ids) 1 TimelineOpened e t"
  let ?d1 = "d\<lparr>dbIncidents := dbIncidents d @ [?w]\<rparr>"
  have tdb: "transition_in_db d (htTransitionID e) (htOrganizationID e)"
    using pub t by (auto simp: transition_in_db_def publishable_def)
  have i: "insert_incident ?w d = Inr ?d1"
    using ids none m tdb by (auto simp: insert_incident_def opened_row_def incident_row_ok_def fresh_incident_ids_def)
  have no: "\<forall>l \<in> set (dbTimeline d). lwIncidentID l \<noteq> iiIncidentID ids"
    using life ids by (fastforce simp: incident_life_inv_def fresh_incident_ids_def)
  have l: "insert_timeline ?l ?d1 = Inr (?d1\<lparr>dbTimeline := dbTimeline d @ [?l]\<rparr>)"
    using no ids pub tdb
    by (auto simp: insert_timeline_def transition_timeline_def timeline_row_ok_def opened_row_def publishable_def
        fresh_incident_ids_def transition_in_db_def)
  have "\<exists>d'. insert_incident_event e (iiIncidentID ids) 1 ''opened'' (iiAlertEventID ids) (twOccurredAt t) now
      (?d1\<lparr>dbTimeline := dbTimeline d @ [?l]\<rparr>) = Inr d'"
    by (rule incident_event_succeeds) (use ids pub t in \<open>simp_all add: fresh_incident_ids_def publishable_def\<close>)
  then show ?thesis by (auto simp: insert_incident_opened_def and_then_Inr i l)
qed

lemma resolving_succeeds:
  assumes life: "incident_life_inv d" and ids: "fresh_incident_ids ids d" and pub: "publishable t d"
    and t: "twID t = htTransitionID e" "twOrganizationID t = htOrganizationID e"
    and v: "active_incident d (htOrganizationID e) mon = Some v"
  shows "\<exists>d'. resolve_incident v e ids t now d = Inr d'"
proof -
  obtain w where w: "w \<in> set (dbIncidents d)" "v = scan_incident w" "iwOrganizationID w = htOrganizationID e"
    using v by (rule active_incident_Some)
  let ?p = "unresolved (icID v) (icOrganizationID v)" and ?f = "resolved_row e (icVersion v + 1) t"
  let ?l = "transition_timeline (iiTimelineID ids) (icOrganizationID v) (icID v) (icVersion v + 1) TimelineResolved e t"
  let ?d1 = "d\<lparr>dbIncidents := sql_update ?p ?f (dbIncidents d)\<rparr>"
  have wl: "incident_life d w" using life w by (simp add: incident_life_inv_def)
  have ver: "iwVersion w = int (length (timeline_rows d w))" using wl by (simp add: incident_life_def Let_def)
  have pos: "0 \<le> iwVersion w" using ver by simp
  have tdb: "transition_in_db d (htTransitionID e) (htOrganizationID e)"
    using pub t by (auto simp: transition_in_db_def publishable_def)
  have u: "update_incident ''resolve Incident'' ?p ?f d = Inr ?d1"
    using pos w(2) by (auto simp: update_incident_def list_ex_iff incident_row_ok_def resolved_row_def)
  have new: "lwIncidentVersion l \<noteq> iwVersion w + 1" if l: "l \<in> set (dbTimeline d)" "lwIncidentID l = iwID w" for l
  proof -
    obtain x where x: "x \<in> set (dbIncidents d)" "iwID x = lwIncidentID l" "iwOrganizationID x = lwOrganizationID l"
      using life l(1) by (auto simp: incident_life_inv_def)
    have "x = w" using life x(1,2) w(1) l(2) unique_onD [of "\<lambda>w. Some (iwID w)" "dbIncidents d" x w]
      by (simp add: incident_life_inv_def)
    then have "l \<in> set (timeline_rows d w)" using l x(3) by (simp add: timeline_rows_def timeline_of_def)
    then have "lwIncidentVersion l \<in> set (map lwIncidentVersion (timeline_rows d w))" by simp
    moreover have "set (map lwIncidentVersion (timeline_rows d w)) = int ` {1..<Suc (length (timeline_rows d w))}"
      using wl by (simp only: incident_life_def Let_def set_map [symmetric] set_upt [symmetric])
    ultimately show ?thesis using ver by auto
  qed
  have "(if ?p w then ?f w else w) \<in> set (sql_update ?p ?f (dbIncidents d))"
    using w(1) by (auto simp: in_sql_update)
  then have fk: "\<exists>x \<in> set (sql_update ?p ?f (dbIncidents d)). iwID x = iwID w \<and> iwOrganizationID x = iwOrganizationID w"
    by (rule bexI [rotated]) simp
  have l: "insert_timeline ?l ?d1 = Inr (?d1\<lparr>dbTimeline := dbTimeline d @ [?l]\<rparr>)"
    using new fk ids pub tdb pos w
    by (auto simp: insert_timeline_def transition_timeline_def timeline_row_ok_def publishable_def
        fresh_incident_ids_def transition_in_db_def)
  have "\<exists>d'. insert_incident_event e (icID v) (icVersion v + 1) ''resolved'' (iiAlertEventID ids) (twOccurredAt t) now
      (?d1\<lparr>dbTimeline := dbTimeline d @ [?l]\<rparr>) = Inr d'"
    by (rule incident_event_succeeds) (use ids pub t in \<open>simp_all add: fresh_incident_ids_def publishable_def\<close>)
  then show ?thesis by (auto simp: resolve_incident_def Let_def and_then_Inr u l)
qed

lemma next_transition_succeeds:
  assumes inv: "incident_db_inv d" and mons: "incidents_have_monitors d"
    and t: "find (\<lambda>t. twID t = htTransitionID e \<and> twOrganizationID t = htOrganizationID e) (dbTransitions d) = Some t"
    and m: "find (is_monitor (twOrganizationID t) (twMonitorID t)) (dbMonitors d) = Some m"
    and em: "event_matches_transition e t" and pub: "publishable t d" and ids: "fresh_incident_ids ids d"
    and fresh: "\<not> outbox_event_processed (htEventID e) (htOrganizationID e) d"
    and v: "htAggregateVersion e = int (applied_count d (htOrganizationID e) (htMonitorID e)) + 1"
  shows "\<exists>d'. process_health_transition d e ids now = (Inr (), d')
    \<and> applied_count d' (htOrganizationID e) (htMonitorID e) = Suc (applied_count d (htOrganizationID e) (htMonitorID e))"
proof -
  let ?org = "htOrganizationID e" and ?mon = "htMonitorID e"
  have ts: "twID t = htTransitionID e" "twOrganizationID t = ?org" "twMonitorID t = ?mon"
    using find_holds [OF t] em by (auto simp: event_matches_transition_def)
  have ms: "m \<in> set (dbMonitors d)" "mrID m = ?mon" "mrOrganizationID m = ?org"
    using find_holds [OF m] ts by (auto simp: is_monitor_def)
  have mdb: "monitor_in_db d ?mon ?org" using ms by (auto simp: monitor_in_db_def)
  have life: "incident_life_inv d" using inv by (simp add: incident_db_inv_def)
  have um: "unique_on (\<lambda>m. Some (mrID m)) (dbMonitors d)" using inv by (simp add: incident_db_inv_def health_db_inv_def)
  have "iwState w = IncidentResolved"
    if none: "active_incident d ?org ?mon = None" and w: "w \<in> set (dbIncidents d)" "iwMonitorID w = ?mon" for w
  proof -
    obtain x where "x \<in> set (dbMonitors d)" "mrID x = ?mon" "mrOrganizationID x = iwOrganizationID w"
      using mons w by (auto simp: incidents_have_monitors_def monitor_in_db_def)
    then have "iwOrganizationID w = ?org" using unique_onD [OF um _ ms(1), of x] ms by simp
    then show ?thesis using none w by (auto simp: active_incident_iff has_incident_def)
  qed
  then have opens: "active_incident d ?org ?mon = None \<Longrightarrow> \<exists>d'. insert_incident_opened e ids t now d = Inr d'"
    by (intro opening_succeeds [OF life ids pub ts mdb]) blast
  have "\<exists>d0. project_transition e ids m t now d = Inr d0"
    using opens resolving_succeeds [OF life ids pub ts(1,2)] ts(3) unfolding project_transition_def
    by (auto split: option.split simp del: not_None_eq)
  then obtain d0 where d0: "project_transition e ids m t now d = Inr d0" by blast
  note F = project_transition_frame [OF d0]
  have "\<exists>d1. advance_cursor ?org ?mon (htAggregateVersion e) now d0 = Inr d1"
    using v mdb F by (auto simp: advance_cursor_def Let_def monitor_in_db_def)
  then obtain d1 where d1: "advance_cursor ?org ?mon (htAggregateVersion e) now d0 = Inr d1" by blast
  have vc: "htAggregateVersion e = (case projection_cursor d ?org ?mon of None \<Rightarrow> 1 | Some v \<Rightarrow> v + 1)
      \<and> \<not> (case projection_cursor d ?org ?mon of None \<Rightarrow> False | Some v \<Rightarrow> htAggregateVersion e \<le> v)"
  proof -
    have "projection_ok d m" using inv ms(1) by (simp add: incident_db_inv_def projection_inv_def)
    then show ?thesis using v ms by (auto simp: projection_ok_def applied_count_def split: option.splits)
  qed
  have tx: "process_transition_tx e ids now d = Inr d1"
    using t m em vc d0 d1 ts by (simp add: process_transition_tx_def Let_def and_then_def)
  have orgs: "dbOrganizations d1 = dbOrganizations d" "dbProcessed d1 = dbProcessed d"
    using d0 advance_cursor_Inr [OF d1]
    by (auto dest!: project_transition_cases opened_incidents(1) resolved_incidents)
  then have "\<exists>d'. mark_outbox_event_processed (htEventID e) ?org TopicHealthTransitionedV1 now d1 = Inr d'"
    using pub ts by (auto simp: mark_outbox_event_processed_def publishable_def)
  then obtain d' where d': "mark_outbox_event_processed (htEventID e) ?org TopicHealthTransitionedV1 now d1 = Inr d'" by blast
  have "projection_cursor d' = projection_cursor d1"
    using mark_processed_Inr(2) [OF d'] by (auto simp: projection_cursor_def fun_eq_iff)
  then have "applied_count d' ?org ?mon = Suc (applied_count d ?org ?mon)"
    using advance_cursor_other(2) [OF d1, of ?org ?mon] v by (simp add: applied_count_def)
  moreover have "process_health_transition d e ids now = (Inr (), d')"
    using fresh tx d' by (simp add: process_health_transition_def run_tx_def and_then_def)
  ultimately show ?thesis by blast
qed

section \<open>An outage\<close>

text \<open>
  A database with five finished Runs of one Monitor: one passed, a scheduled and a confirmation Run
  that timed out, and a scheduled and a confirmation Run that passed. Delivering them reports the
  Monitor healthy, degraded, down, degraded and healthy again.
\<close>

definition outage_time :: "int \<Rightarrow> go_time" where
  "outage_time n = \<lparr>nanos = nanos sample_time + n * 60000000000, zone = UTC\<rparr>"

definition outage_cause :: "string \<Rightarrow> string \<Rightarrow> int \<Rightarrow> string \<Rightarrow> confirmation_cause" where
  "outage_cause c i n ev = \<lparr>ccCandidateID = c, ccTriggeringRunID = i, ccTriggeringScheduledFor = outage_time n,
     ccCausationEventID = ev, ccPolicyVersion = HealthPolicyVersion\<rparr>"

definition outage_run :: "string \<Rightarrow> int \<Rightarrow> run_kind \<Rightarrow> run_outcome \<Rightarrow> confirmation_cause option \<Rightarrow> run_row" where
  "outage_run i n k oc cause = (finish_row sample_finished (claimed_row sample_claimed))
     \<lparr>rwID := i, rwScheduledFor := outage_time n, rwKind := k, rwOutcome := Some oc,
      rwStartedAt := Some (outage_time n), rwFinishedAt := Some (outage_time n), rwCause := cause\<rparr>"

definition outage_observation :: "string \<Rightarrow> int \<Rightarrow> string \<Rightarrow> observation_row" where
  "outage_observation i n code = (observation_to_row (sample_run_observation
     \<lparr>obRunID := i, obScheduledFor := outage_time n, obFailureCode := code,
      obFailureClass := (if code = '''' then '''' else ''timeout'')\<rparr>) (outage_time n))"

definition outage_db :: db where
  "outage_db = sample_db\<lparr>dbUsers := [''alice''],
     dbRuns := [outage_run ''r0'' 0 KindScheduled OutcomePassed None,
       outage_run ''r1'' 1 KindScheduled OutcomeTimedOut None,
       outage_run ''r2'' 2 KindConfirmation OutcomeTimedOut (Some (outage_cause ''c1'' ''r1'' 1 ''e1'')),
       outage_run ''r3'' 3 KindScheduled OutcomePassed None,
       outage_run ''r4'' 4 KindConfirmation OutcomePassed (Some (outage_cause ''c3'' ''r3'' 3 ''e3''))],
     dbObservations := [outage_observation ''r0'' 0 '''', outage_observation ''r1'' 1 ''probe.execution.timeout'',
       outage_observation ''r2'' 2 ''probe.execution.timeout'', outage_observation ''r3'' 3 '''',
       outage_observation ''r4'' 4 '''']\<rparr>"

definition outage_delivery :: "string \<Rightarrow> int \<Rightarrow> string \<Rightarrow> string \<Rightarrow> db \<Rightarrow> db" where
  "outage_delivery i n kind oc d = snd (process_run_recorded d
     \<lparr>rrEventID = ''e'' @ i, rrOrganizationID = ''org'', rrOccurredAt = outage_time n,
      rrAggregateType = ''run'', rrAggregateID = ''r'' @ i, rrAggregateVersion = 1, rrRunID = ''r'' @ i,
      rrMonitorID = ''mon'', rrRevisionNumber = 1, rrLocation = ''local'', rrScheduledFor = outage_time n,
      rrKind = kind, rrOutcome = oc\<rparr>
     \<lparr>piCandidateID = ''c'' @ i, piConfirmationEventID = ''f'' @ i, piTransitionID = ''t'' @ i,
      piTransitionEventID = ''x'' @ i\<rparr> (outage_time n))"

definition outage_transition :: "string \<Rightarrow> int \<Rightarrow> int \<Rightarrow> string \<Rightarrow> string \<Rightarrow> health_transitioned" where
  "outage_transition i n v old new =
     \<lparr>htEventID = ''x'' @ i, htOrganizationID = ''org'', htOccurredAt = outage_time n,
      htAggregateType = ''monitorHealth'', htAggregateID = ''mon'', htAggregateVersion = v,
      htCausationID = ''e'' @ i, htTransitionID = ''t'' @ i, htMonitorID = ''mon'',
      htOldState = old, htNewState = new, htPolicyVersion = HealthPolicyVersion\<rparr>"

definition outage_projection :: "string \<Rightarrow> int \<Rightarrow> int \<Rightarrow> string \<Rightarrow> string \<Rightarrow> db \<Rightarrow> db" where
  "outage_projection i n v old new d = snd (process_health_transition d (outage_transition i n v old new)
     \<lparr>iiIncidentID = ''i'' @ i, iiTimelineID = ''l'' @ i, iiAlertEventID = ''a'' @ i\<rparr> (outage_time n))"

definition outage_incident_ids :: incident_ids where
  "outage_incident_ids = \<lparr>iiIncidentID = ''i2'', iiTimelineID = ''l2'', iiAlertEventID = ''a2''\<rparr>"

definition outage_scope :: scope where
  "outage_scope = \<lparr>scopeOrganizationID = ''org'', scopeMonitorID = ''mon''\<rparr>"



definition outage_reported :: db where
  "outage_reported = outage_projection ''1'' 1 2 ''healthy'' ''degraded''
     (outage_projection ''0'' 0 1 ''unknown'' ''healthy''
     (outage_delivery ''2'' 2 ''confirmation'' ''timedout''
     (outage_delivery ''1'' 1 ''scheduled'' ''timedout''
     (outage_delivery ''0'' 0 ''scheduled'' ''passed'' outage_db))))"

definition outage_down :: db where
  "outage_down = outage_projection ''2'' 2 3 ''degraded'' ''down'' outage_reported"

definition outage_acknowledged :: db where
  "outage_acknowledged = snd (acknowledge_incident outage_down outage_scope ''i2'' ''alice'' ''la'' (outage_time 3))"

lemma outage_delivery_step: "fresh_candidate (''c'' @ i) d \<Longrightarrow> incident_step d (outage_delivery i n k oc d)"
  unfolding outage_delivery_def
  by (rule incident_step.health, rule health_step.delivered [OF _ prod.collapse [symmetric]]) simp

lemma outage_projection_step: "incident_step d (outage_projection i n v old new d)"
  unfolding outage_projection_def by (rule incident_step.projected [OF prod.collapse [symmetric]])

lemma outage_projection_steps: "incident_step\<^sup>*\<^sup>* d0 d \<Longrightarrow> incident_step\<^sup>*\<^sup>* d0 (outage_projection i n v old new d)"
  by (erule rtranclp.rtrancl_into_rtrancl, rule outage_projection_step)

lemma outage_fresh: "no_history outage_db"
  by (simp add: no_history_def outage_db_def sample_db_def)

lemma outage_reported_reachable: "incident_step\<^sup>*\<^sup>* outage_db outage_reported"
proof -
  let ?a = "outage_delivery ''0'' 0 ''scheduled'' ''passed'' outage_db"
  let ?b = "outage_delivery ''1'' 1 ''scheduled'' ''timedout'' ?a"
  let ?c = "outage_delivery ''2'' 2 ''confirmation'' ''timedout'' ?b"
  have "incident_step outage_db ?a"
    by (rule outage_delivery_step) (simp add: fresh_candidate_def outage_db_def sample_db_def)
  moreover have "incident_step ?a ?b" by (rule outage_delivery_step) code_simp
  moreover have "incident_step ?b ?c" by (rule outage_delivery_step) code_simp
  ultimately have "incident_step\<^sup>*\<^sup>* outage_db ?c" by (meson rtranclp.rtrancl_into_rtrancl rtranclp.rtrancl_refl)
  then show ?thesis unfolding outage_reported_def by (intro outage_projection_steps)
qed

lemma outage_reachable: "incident_step\<^sup>*\<^sup>* outage_db outage_down"
  unfolding outage_down_def by (intro outage_projection_steps outage_reported_reachable)

lemma outage_acknowledged_reachable: "incident_step\<^sup>*\<^sup>* outage_db outage_acknowledged"
proof -
  have "incident_step outage_down outage_acknowledged" unfolding outage_acknowledged_def
    by (rule incident_step.acknowledged [OF prod.collapse [symmetric]])
  with outage_reachable show ?thesis by (rule rtranclp.rtrancl_into_rtrancl)
qed

text \<open>A transition reported down that nothing has projected.\<close>

definition sample_db_gap :: db where
  "sample_db_gap = sample_db\<lparr>dbTransitions := [\<lparr>twID = ''t2'', twOrganizationID = ''org'', twMonitorID = ''mon'',
     twVersion = 3, twOldState = StateDegraded, twNewState = StateDown, twPolicyVersion = HealthPolicyVersion,
     twSourceRevision = Some 1, twCausalRun = None, twCounts = zero_counts, twOccurredAt = outage_time 2\<rparr>]\<rparr>"

lemma unresolved_at_most_one:
  "unique_on unresolved_monitor ws \<Longrightarrow> length (filter (\<lambda>w. iwMonitorID w = i \<and> iwState w \<noteq> IncidentResolved) ws) \<le> 1"
proof (induction ws)
  case (Cons w ws)
  have "filter (\<lambda>w. iwMonitorID w = i \<and> iwState w \<noteq> IncidentResolved) ws = []"
    if "iwMonitorID w = i" "iwState w \<noteq> IncidentResolved"
    using Cons.prems that by (auto simp: filter_empty_conv unresolved_monitor_def split: if_splits)
  then show ?case using Cons by (auto split: option.splits)
qed simp

section \<open>Properties\<close>

text \<open>
  C9. Whatever Runs, sweeps, Incident deliveries and acknowledgements a fresh database goes
  through, in any order: a Monitor that is not archived has an unresolved Incident exactly when the
  abstract projection of the transitions its cursor has passed says so, it never has two, and the
  cursor never runs ahead of the stored transitions.
\<close>

theorem incidents_follow_transitions:
  assumes "incident_step\<^sup>*\<^sup>* d0 d" and "no_history d0" and "m \<in> set (dbMonitors d)" and "mrState m \<noteq> ''archived''"
  shows "has_incident d (mrOrganizationID m) (mrID m) =
      incident_spec (take (applied_count d (mrOrganizationID m) (mrID m)) (transitions_of d (mrID m)))
    \<and> applied_count d (mrOrganizationID m) (mrID m) \<le> length (transitions_of d (mrID m))
    \<and> length (filter (\<lambda>w. iwMonitorID w = mrID m \<and> iwState w \<noteq> IncidentResolved) (dbIncidents d)) \<le> 1"
proof -
  have inv: "projection_inv d"
    using incident_steps_inv [OF assms(1) incident_db_inv_fresh [OF assms(2)]] by (simp add: incident_db_inv_def)
  then have ok: "projection_ok d m" using assms(3) by (simp add: projection_inv_def)
  have "unique_on unresolved_monitor (dbIncidents d)" using inv by (simp add: projection_inv_def)
  then show ?thesis using ok assms(4) applied_count_le [OF ok] unresolved_at_most_one [of "dbIncidents d" "mrID m"]
    by (simp add: projection_ok_def)
qed

definition down_check :: "db \<Rightarrow> bool" where
  "down_check d \<longleftrightarrow> \<lparr>mrID = ''mon'', mrOrganizationID = ''org'', mrName = ''Home'', mrCheckType = ''http'',
       mrState = ''active'', mrLatestRevision = 1, mrIntervalSeconds = 60, mrCreatedAt = sample_time,
       mrUpdatedAt = sample_time, mrXmin = 0\<rparr> \<in> set (dbMonitors d) \<and> has_incident d ''org'' ''mon''"

theorem incidents_follow_transitions_witness:
  "has_incident outage_down ''org'' ''mon''
   \<and> incident_spec (take (applied_count outage_down ''org'' ''mon'') (transitions_of outage_down ''mon''))"
proof -
  let ?m = "\<lparr>mrID = ''mon'', mrOrganizationID = ''org'', mrName = ''Home'', mrCheckType = ''http'',
       mrState = ''active'', mrLatestRevision = 1, mrIntervalSeconds = 60, mrCreatedAt = sample_time,
       mrUpdatedAt = sample_time, mrXmin = 0\<rparr>"
  have "down_check outage_down" by code_simp
  then have "?m \<in> set (dbMonitors outage_down)" and has: "has_incident outage_down ''org'' ''mon''"
    unfolding down_check_def by blast+
  then have "has_incident outage_down ''org'' ''mon''
      = incident_spec (take (applied_count outage_down ''org'' ''mon'') (transitions_of outage_down ''mon''))"
    using incidents_follow_transitions [OF outage_reachable outage_fresh, of ?m] by simp
  with has show ?thesis by simp
qed

text \<open>
  C10. Every Incident of a reachable database has lived a legal life: its timeline entries are
  numbered 1, 2, 3 and so on, it was opened first, then acknowledged at most once, then resolved at
  most once, and its stored state and version are the ones its timeline ends in.
\<close>

theorem incident_timeline_is_legal_life:
  assumes "incident_step\<^sup>*\<^sup>* d0 d" and "no_history d0" and "w \<in> set (dbIncidents d)"
  shows "life_of (map lwKind (timeline_rows d w)) = Some (iwState w)
    \<and> map lwIncidentVersion (timeline_rows d w) = map int [1..<Suc (length (timeline_rows d w))]
    \<and> iwVersion w = int (length (timeline_rows d w))"
  using incident_steps_inv [OF assms(1) incident_db_inv_fresh [OF assms(2)]] assms(3)
  by (simp add: incident_db_inv_def incident_life_inv_def incident_life_def Let_def)

definition acknowledged_check :: "db \<Rightarrow> bool" where
  "acknowledged_check d \<longleftrightarrow> dbIncidents d \<noteq> []
     \<and> map lwKind (timeline_rows d (hd (dbIncidents d))) = [TimelineOpened, TimelineAcknowledged]"

theorem incident_timeline_is_legal_life_witness:
  "\<exists>w. map lwKind (timeline_rows outage_acknowledged w) = [TimelineOpened, TimelineAcknowledged]
     \<and> iwState w = IncidentAcknowledged \<and> iwVersion w = 2"
proof -
  let ?w = "hd (dbIncidents outage_acknowledged)"
  have "acknowledged_check outage_acknowledged" by code_simp
  then have "dbIncidents outage_acknowledged \<noteq> []"
    and kinds: "map lwKind (timeline_rows outage_acknowledged ?w) = [TimelineOpened, TimelineAcknowledged]"
    unfolding acknowledged_check_def by blast+
  then have "?w \<in> set (dbIncidents outage_acknowledged)" by simp
  then have "life_of (map lwKind (timeline_rows outage_acknowledged ?w)) = Some (iwState ?w)
      \<and> iwVersion ?w = int (length (timeline_rows outage_acknowledged ?w))"
    using incident_timeline_is_legal_life [OF outage_acknowledged_reachable outage_fresh] by blast
  moreover note kinds
  moreover from this have "length (timeline_rows outage_acknowledged ?w) = 2" by (metis length_map length_Cons list.size(3) numeral_2_eq_2)
  ultimately show ?thesis by (intro exI [of _ ?w]) simp
qed

text \<open>
  Handling health transitions is exactly once under at-least-once delivery: however often one
  entry is delivered, with whatever identifiers and clock readings, the database ends up unchanged
  or as a single successful delivery left it.
\<close>

theorem transition_handled_once:
  "deliveries (handle_health_transition i org payload) envs d = d
   \<or> (\<exists>env \<in> set envs. \<exists>x d'. handle_health_transition i org payload env d = (Inr x, d')
        \<and> deliveries (handle_health_transition i org payload) envs d = d')"
  by (rule incident_consumer.exactly_once)

text \<open>
  A transition that arrives before its predecessors is refused with the version gap, and
  nothing is stored: neither an Incident nor the cursor nor the record that it was processed.
\<close>

theorem early_transition_is_refused:
  assumes "find (\<lambda>t. twID t = htTransitionID e \<and> twOrganizationID t = htOrganizationID e) (dbTransitions d) = Some t"
    and "find (is_monitor (twOrganizationID t) (twMonitorID t)) (dbMonitors d) = Some m"
    and "event_matches_transition e t"
    and "\<not> outbox_event_processed (htEventID e) (htOrganizationID e) d"
    and "int (applied_count d (htOrganizationID e) (htMonitorID e)) + 1 < htAggregateVersion e"
  shows "process_health_transition d e ids now = (Inl (ErrIs IncidentVersionGap), d)"
proof -
  have m: "twMonitorID t = htMonitorID e" using assms(3) by (simp add: event_matches_transition_def)
  show ?thesis
    using assms m
    by (auto simp: process_health_transition_def run_tx_def process_transition_tx_def Let_def and_then_def
        applied_count_def split: option.splits if_splits)
qed

theorem early_transition_is_refused_witness:
  "process_health_transition sample_db_gap (outage_transition ''2'' 2 3 ''degraded'' ''down'') outage_incident_ids (outage_time 2)
     = (Inl (ErrIs IncidentVersionGap), sample_db_gap)"
proof -
  let ?e = "outage_transition ''2'' 2 3 ''degraded'' ''down''" and ?t = "hd (dbTransitions sample_db_gap)"
  have "find (\<lambda>t. twID t = htTransitionID ?e \<and> twOrganizationID t = htOrganizationID ?e) (dbTransitions sample_db_gap) = Some ?t"
    by code_simp
  moreover have "event_matches_transition ?e ?t"
    "\<not> outbox_event_processed (htEventID ?e) (htOrganizationID ?e) sample_db_gap"
    "int (applied_count sample_db_gap (htOrganizationID ?e) (htMonitorID ?e)) + 1 < htAggregateVersion ?e"
    by code_simp+
  moreover have "find (is_monitor (twOrganizationID ?t) (twMonitorID ?t)) (dbMonitors sample_db_gap)
      = Some (hd (dbMonitors sample_db_gap))"
    by code_simp
  ultimately show ?thesis by (intro early_transition_is_refused)
qed

text \<open>
  C11. The projection never gets stuck: in a reachable database the next transition of a Monitor
  that is not yet processed is applied, whatever it is, as soon as it is delivered with fresh
  identifiers, and moves the Monitor's cursor one further.
\<close>

theorem next_transition_is_projected:
  assumes "incident_step\<^sup>*\<^sup>* d0 d" and "no_history d0"
    and "find (\<lambda>t. twID t = htTransitionID e \<and> twOrganizationID t = htOrganizationID e) (dbTransitions d) = Some t"
    and "find (is_monitor (twOrganizationID t) (twMonitorID t)) (dbMonitors d) = Some m"
    and "event_matches_transition e t" and "publishable t d" and "fresh_incident_ids ids d"
    and "\<not> outbox_event_processed (htEventID e) (htOrganizationID e) d"
    and "htAggregateVersion e = int (applied_count d (htOrganizationID e) (htMonitorID e)) + 1"
  shows "\<exists>d'. process_health_transition d e ids now = (Inr (), d')
    \<and> applied_count d' (htOrganizationID e) (htMonitorID e) = Suc (applied_count d (htOrganizationID e) (htMonitorID e))"
proof (rule next_transition_succeeds [OF _ _ assms(3-)])
  show "incident_db_inv d" by (rule incident_steps_inv [OF assms(1) incident_db_inv_fresh [OF assms(2)]])
  show "incidents_have_monitors d"
    by (rule incident_steps_monitors [OF assms(1)]) (use assms(2) in \<open>simp add: no_history_def incidents_have_monitors_def\<close>)
qed

definition is_next_transition :: "health_transitioned \<Rightarrow> db \<Rightarrow> bool" where
  "is_next_transition e d \<longleftrightarrow> (let t = last (dbTransitions d)
     in find (\<lambda>t. twID t = htTransitionID e \<and> twOrganizationID t = htOrganizationID e) (dbTransitions d) = Some t
      \<and> find (is_monitor (twOrganizationID t) (twMonitorID t)) (dbMonitors d) = Some (hd (dbMonitors d))
      \<and> event_matches_transition e t \<and> publishable t d \<and> fresh_incident_ids outage_incident_ids d
      \<and> \<not> outbox_event_processed (htEventID e) (htOrganizationID e) d
      \<and> htAggregateVersion e = int (applied_count d (htOrganizationID e) (htMonitorID e)) + 1)"

theorem next_transition_is_projected_witness:
  "\<exists>d'. process_health_transition outage_reported (outage_transition ''2'' 2 3 ''degraded'' ''down'') outage_incident_ids
      (outage_time 2) = (Inr (), d') \<and> applied_count d' ''org'' ''mon'' = 3"
proof -
  let ?e = "outage_transition ''2'' 2 3 ''degraded'' ''down''"
  have e: "htOrganizationID ?e = ''org''" "htMonitorID ?e = ''mon''" "htAggregateVersion ?e = 3"
    by (simp_all add: outage_transition_def)
  have "is_next_transition ?e outage_reported" by code_simp
  note N = this [unfolded is_next_transition_def Let_def]
  have c: "applied_count outage_reported (htOrganizationID ?e) (htMonitorID ?e) = 2" using N e by simp
  have "\<exists>d'. process_health_transition outage_reported ?e outage_incident_ids (outage_time 2) = (Inr (), d')
      \<and> applied_count d' (htOrganizationID ?e) (htMonitorID ?e)
        = Suc (applied_count outage_reported (htOrganizationID ?e) (htMonitorID ?e))"
    by (rule next_transition_is_projected [OF outage_reported_reachable outage_fresh]) (use N in blast)+
  then show ?thesis using e c by simp
qed
end
