(* ===== verification/Maintenance.thy ===== *)
theory Maintenance
  imports RunStore RunWorker Paging
begin

text \<open>
  Models \<open>internal/maintenance/maintenance.go\<close>, \<open>internal/maintenance/service.go\<close> and
  \<open>internal/postgres/maintenance.go\<close>: one-time maintenance windows of a Monitor. The lemmas show
  that windows of one Monitor never apply at the same instant, whatever is created and cancelled,
  and that a cancellation is never overwritten by another.
\<close>

section \<open>Windows\<close>

definition MaintenanceMaxDuration :: duration where "MaintenanceMaxDuration = 30 * 24 * hour"

datatype window_state = StatusUpcoming | StatusActive | StatusEnded | StatusCancelled

record window =
  mwID :: string
  mwOrganizationID :: string
  mwMonitorID :: string
  mwStartsAt :: go_time
  mwEndsAt :: go_time
  mwCreatedAt :: go_time
  mwCancelledAt :: "go_time option"
  mwVersion :: nat

definition scope_valid :: "scope \<Rightarrow> bool" where
  "scope_valid sc \<longleftrightarrow> scopeOrganizationID sc \<noteq> '''' \<and> scopeMonitorID sc \<noteq> ''''"

definition restore_window ::
  "string \<Rightarrow> scope \<Rightarrow> go_time \<Rightarrow> go_time \<Rightarrow> go_time \<Rightarrow> go_time option \<Rightarrow> nat \<Rightarrow> window result" where
  "restore_window i sc starts ends created cancelled version =
     (if i = '''' \<or> \<not> scope_valid sc then
        Inl (ErrText ''a maintenance window requires identity and Monitor scope'')
      else if \<not> is_utc_location starts \<or> \<not> is_utc_location ends \<or> \<not> is_utc_location created then
        Inl (ErrText ''persisted maintenance timestamps must be UTC'')
      else if time_sub ends starts \<le> 0 \<or> time_sub ends starts > MaintenanceMaxDuration then
        Inl (ErrText ''invalid maintenance time bounds'')
      else if after created starts then
        Inl (ErrText ''maintenance cannot begin before it is created'')
      else if (case cancelled of None \<Rightarrow> False
          | Some t \<Rightarrow> \<not> is_utc_location t \<or> before t created \<or> \<not> before t ends) then
        Inl (ErrText ''invalid maintenance cancellation instant'')
      else Inr \<lparr>mwID = i, mwOrganizationID = scopeOrganizationID sc, mwMonitorID = scopeMonitorID sc,
        mwStartsAt = to_utc starts, mwEndsAt = to_utc ends, mwCreatedAt = to_utc created,
        mwCancelledAt = map_option to_utc cancelled, mwVersion = version\<rparr>)"

definition new_window :: "string \<Rightarrow> scope \<Rightarrow> go_time \<Rightarrow> go_time \<Rightarrow> go_time \<Rightarrow> window result" where
  "new_window i sc starts ends created = restore_window i sc starts ends created None 0"

definition window_status :: "window \<Rightarrow> go_time \<Rightarrow> window_state" where
  "window_status w now =
     (if mwCancelledAt w \<noteq> None then StatusCancelled
      else if before now (mwStartsAt w) then StatusUpcoming
      else if before now (mwEndsAt w) then StatusActive
      else StatusEnded)"

definition applies_at :: "window \<Rightarrow> go_time \<Rightarrow> bool" where
  "applies_at w at =
     (if \<not> is_utc_location at \<or> before at (mwStartsAt w) \<or> \<not> before at (mwEndsAt w) then False
      else case mwCancelledAt w of None \<Rightarrow> True | Some c \<Rightarrow> before at c)"

definition cancel_at :: "window \<Rightarrow> go_time \<Rightarrow> window result" where
  "cancel_at w at =
     (if mwCancelledAt w \<noteq> None then Inr w
      else if \<not> is_utc_location at \<or> before at (mwCreatedAt w) then
        Inl (ErrText ''invalid maintenance cancellation instant'')
      else if \<not> before at (mwEndsAt w) then Inl (ErrIs MaintenanceWindowEnded)
      else Inr (w\<lparr>mwCancelledAt := Some (to_utc at)\<rparr>))"

section \<open>The store\<close>

definition row_window :: "window_row \<Rightarrow> window result" where
  "row_window w = (case restore_window (nwID w) \<lparr>scopeOrganizationID = nwOrganizationID w, scopeMonitorID = nwMonitorID w\<rparr>
     (to_utc (nwStartsAt w)) (to_utc (nwEndsAt w)) (to_utc (nwCreatedAt w)) (map_option to_utc (nwCancelledAt w)) (nwXmin w) of
     Inl e \<Rightarrow> Inl (Wrapped ''restore maintenance window'' e) | Inr v \<Rightarrow> Inr v)"

definition MaxUint32 :: int where "MaxUint32 = 4294967295"

definition scan_window :: "window_row \<Rightarrow> window result" where
  "scan_window w = (if int (nwXmin w) > MaxUint32 then Inl (ErrText ''restore maintenance window: xmin exceeds uint32'')
     else row_window w)"

text \<open>The constraints of \<open>maintenance_windows\<close>.\<close>

definition window_row_ok :: "window_row \<Rightarrow> bool" where
  "window_row_ok w \<longleftrightarrow> before (nwStartsAt w) (nwEndsAt w)
     \<and> nanos (nwEndsAt w) - nanos (nwStartsAt w) \<le> MaintenanceMaxDuration
     \<and> \<not> after (nwCreatedAt w) (nwStartsAt w)
     \<and> (case nwCancelledAt w of None \<Rightarrow> True
        | Some c \<Rightarrow> \<not> before c (nwCreatedAt w) \<and> before c (nwEndsAt w))"

definition window_to_row :: "window \<Rightarrow> nat \<Rightarrow> window_row" where
  "window_to_row v xid =
     \<lparr>nwID = mwID v, nwOrganizationID = mwOrganizationID v, nwMonitorID = mwMonitorID v,
      nwStartsAt = db_instant (mwStartsAt v), nwEndsAt = db_instant (mwEndsAt v),
      nwCreatedAt = db_instant (mwCreatedAt v), nwCancelledAt = map_option db_instant (mwCancelledAt v),
      nwXmin = xid\<rparr>"

definition overlapping :: "window \<Rightarrow> window_row \<Rightarrow> bool" where
  "overlapping v w \<longleftrightarrow> nwOrganizationID w = mwOrganizationID v \<and> nwMonitorID w = mwMonitorID v
     \<and> nwCancelledAt w = None \<and> before (nwStartsAt w) (db_instant (mwEndsAt v))
     \<and> after (nwEndsAt w) (db_instant (mwStartsAt v))"

definition create_window_tx :: "window \<Rightarrow> db \<Rightarrow> db result" where
  "create_window_tx v d =
     (if \<not> monitor_in_db d (mwMonitorID v) (mwOrganizationID v) then Inl (ErrIs MaintenanceMonitorNotFound)
      else if sql_exists (overlapping v) (dbWindows d) then Inl (ErrIs MaintenanceOverlap)
      else
        let w = window_to_row v (dbXid d)
        in if \<not> window_row_ok w \<or> sql_exists (\<lambda>x. nwID x = nwID w) (dbWindows d) then
             Inl (ErrText ''insert maintenance window'')
           else Inr (d\<lparr>dbWindows := dbWindows d @ [w], dbXid := dbXid d + 1\<rparr>))"

definition create_window :: "db \<Rightarrow> window \<Rightarrow> unit result \<times> db" where
  "create_window d v = run_tx (\<lambda>d. and_then (create_window_tx v d) (\<lambda>d'. Inr ((), d'))) d"

definition in_window_scope :: "scope \<Rightarrow> window_row \<Rightarrow> bool" where
  "in_window_scope sc w \<longleftrightarrow> nwOrganizationID w = scopeOrganizationID sc \<and> nwMonitorID w = scopeMonitorID sc"

fun map_result :: "('a \<Rightarrow> 'b result) \<Rightarrow> 'a list \<Rightarrow> 'b list result" where
  "map_result f [] = Inr []"
| "map_result f (x # xs) = and_then (f x) (\<lambda>y. and_then (map_result f xs) (\<lambda>ys. Inr (y # ys)))"

definition list_windows :: "db \<Rightarrow> scope \<Rightarrow> go_time \<Rightarrow> window list option result" where
  "list_windows d sc ends_after =
     (if \<not> monitor_in_db d (scopeMonitorID sc) (scopeOrganizationID sc) then Inr None
      else and_then (map_result scan_window (sort_key (\<lambda>w. (nanos (nwStartsAt w), nwID w))
        (filter (\<lambda>w. in_window_scope sc w \<and> after (nwEndsAt w) (db_instant ends_after)) (dbWindows d))))
        (\<lambda>vs. Inr (Some vs)))"

definition window_of :: "scope \<Rightarrow> string \<Rightarrow> window_row \<Rightarrow> bool" where
  "window_of sc i w \<longleftrightarrow> nwID w = i \<and> in_window_scope sc w"

definition find_window :: "db \<Rightarrow> scope \<Rightarrow> string \<Rightarrow> window option result" where
  "find_window d sc i =
     (if \<not> monitor_in_db d (scopeMonitorID sc) (scopeOrganizationID sc) then Inr None
      else case find (window_of sc i) (dbWindows d) of
        None \<Rightarrow> Inr None
      | Some w \<Rightarrow> and_then (scan_window w) (\<lambda>v. Inr (Some v)))"

definition cancelled_row :: "window \<Rightarrow> nat \<Rightarrow> window_row \<Rightarrow> window_row" where
  "cancelled_row v xid w = w\<lparr>nwCancelledAt := map_option db_instant (mwCancelledAt v), nwXmin := xid\<rparr>"

definition cancel_hits :: "db \<Rightarrow> window \<Rightarrow> nat \<Rightarrow> window_row \<Rightarrow> bool" where
  "cancel_hits d v expected w \<longleftrightarrow> nwID w = mwID v \<and> nwOrganizationID w = mwOrganizationID v
     \<and> nwMonitorID w = mwMonitorID v \<and> nwXmin w = expected
     \<and> monitor_in_db d (nwMonitorID w) (nwOrganizationID w)"

definition cancel_window :: "db \<Rightarrow> window \<Rightarrow> nat \<Rightarrow> unit result \<times> db" where
  "cancel_window d v expected =
     (if \<not> sql_exists (cancel_hits d v expected) (dbWindows d) then (Inl (ErrIs MaintenanceConcurrentUpdate), d)
      else if list_ex (\<lambda>w. cancel_hits d v expected w \<and> \<not> window_row_ok (cancelled_row v (dbXid d) w)) (dbWindows d) then
        (Inl (ErrText ''cancel maintenance window''), d)
      else (Inr (), d\<lparr>dbWindows := sql_update (cancel_hits d v expected) (cancelled_row v (dbXid d)) (dbWindows d),
        dbXid := dbXid d + 1\<rparr>))"

section \<open>The service\<close>

datatype window_create_result =
    WindowInvalid "validation_failure list" | WindowCreated window | WindowMonitorNotFound
  | WindowConflict string string

datatype window_cancel_result = CancelCancelled window | CancelNotFound | CancelConflict string string

definition starts_at_failure :: validation_failure where
  "starts_at_failure = \<lparr>vfCode = ''maintenance.startsAt.invalid'', vfField = ''startsAt'',
     vfMessage = ''The start must be an explicit UTC instant that is not in the past.''\<rparr>"

definition ends_at_failure :: validation_failure where
  "ends_at_failure = \<lparr>vfCode = ''maintenance.endsAt.invalid'', vfField = ''endsAt'',
     vfMessage = ''The end must be an explicit UTC instant after the start.''\<rparr>"

definition duration_failure :: validation_failure where
  "duration_failure = \<lparr>vfCode = ''maintenance.duration.invalid'', vfField = ''endsAt'',
     vfMessage = ''A maintenance window cannot be longer than 30 days.''\<rparr>"

definition window_failures :: "go_time \<Rightarrow> go_time \<Rightarrow> go_time \<Rightarrow> validation_failure list" where
  "window_failures now starts ends =
     (let starts_valid = is_utc starts \<and> \<not> before starts now;
          ends_valid = is_utc ends \<and> after ends starts
      in (if starts_valid then [] else [starts_at_failure])
       @ (if ends_valid then [] else [ends_at_failure])
       @ (if starts_valid \<and> ends_valid \<and> time_sub ends starts > MaintenanceMaxDuration then [duration_failure] else []))"

definition maintenance_create ::
  "scope \<Rightarrow> go_time \<Rightarrow> go_time \<Rightarrow> go_time \<Rightarrow> string result \<Rightarrow> db \<Rightarrow> window_create_result result \<times> db" where
  "maintenance_create sc starts ends clock uuid d =
     (let now = to_utc clock
      in if window_failures now starts ends \<noteq> [] then (Inr (WindowInvalid (window_failures now starts ends)), d)
         else case uuid of
           Inl e \<Rightarrow> (Inl (Wrapped ''generate maintenance window id'' e), d)
         | Inr i \<Rightarrow>
             case new_window i sc (to_utc starts) (to_utc ends) now of
               Inl e \<Rightarrow> (Inl e, d)
             | Inr v \<Rightarrow>
                 case create_window d v of
                   (Inr _, d') \<Rightarrow> (Inr (WindowCreated v), d')
                 | (Inl e, d') \<Rightarrow>
                     (if errors_is e MaintenanceMonitorNotFound then Inr WindowMonitorNotFound
                      else if errors_is e MaintenanceOverlap then
                        Inr (WindowConflict ''maintenance.overlap''
                          ''The maintenance window overlaps another current or upcoming window for this Monitor.'')
                      else Inl e, d'))"

definition maintenance_list :: "scope \<Rightarrow> go_time \<Rightarrow> db \<Rightarrow> window list option result" where
  "maintenance_list sc clock d = list_windows d sc (to_utc clock)"

definition maintenance_get :: "scope \<Rightarrow> string \<Rightarrow> db \<Rightarrow> window option result" where
  "maintenance_get sc i d = find_window d sc i"

definition concurrent_conflict :: window_cancel_result where
  "concurrent_conflict = CancelConflict ''maintenance.concurrentUpdate''
     ''The maintenance window was modified concurrently; retry against its current state.''"

text \<open>
  \<open>Cancel\<close>. Between its steps other requests may run: \<open>between\<close> is the database the store finds
  when it updates, \<open>after\<close> the one the repeated lookup sees.
\<close>

definition cancel_stored :: "scope \<Rightarrow> string \<Rightarrow> window \<Rightarrow> nat \<Rightarrow> (db \<Rightarrow> db) \<Rightarrow> db \<Rightarrow> window_cancel_result result \<times> db" where
  "cancel_stored sc i v expected later d =
     (case cancel_window d v expected of
        (Inr _, d') \<Rightarrow> (Inr (CancelCancelled v), d')
      | (Inl e, d') \<Rightarrow>
          if \<not> errors_is e MaintenanceConcurrentUpdate then (Inl e, d')
          else
            let d2 = later d'
            in (case find_window d2 sc i of
                  Inl e2 \<Rightarrow> Inl e2
                | Inr None \<Rightarrow> Inr concurrent_conflict
                | Inr (Some current) \<Rightarrow>
                    if mwCancelledAt current \<noteq> None then Inr (CancelCancelled current)
                    else Inr concurrent_conflict, d2))"

definition maintenance_cancel ::
  "scope \<Rightarrow> string \<Rightarrow> go_time \<Rightarrow> (db \<Rightarrow> db) \<Rightarrow> (db \<Rightarrow> db) \<Rightarrow> db \<Rightarrow> window_cancel_result result \<times> db" where
  "maintenance_cancel sc i clock between later d =
     (case find_window d sc i of
        Inl e \<Rightarrow> (Inl e, d)
      | Inr None \<Rightarrow> (Inr CancelNotFound, d)
      | Inr (Some v) \<Rightarrow>
          if mwCancelledAt v \<noteq> None then (Inr (CancelCancelled v), d)
          else case cancel_at v (to_utc clock) of
            Inl e \<Rightarrow>
              (if errors_is e MaintenanceWindowEnded then
                 Inr (CancelConflict ''maintenance.window.ended'' ''An ended maintenance window cannot be cancelled.'')
               else Inl e, d)
          | Inr v' \<Rightarrow> cancel_stored sc i v' (mwVersion v) later (between d))"


section \<open>When a window applies\<close>

definition row_applies :: "window_row \<Rightarrow> go_time \<Rightarrow> bool" where
  "row_applies w t \<longleftrightarrow> \<not> before t (nwStartsAt w) \<and> before t (nwEndsAt w)
     \<and> (case nwCancelledAt w of None \<Rightarrow> True | Some c \<Rightarrow> before t c)"

lemma restore_window_Inr:
  assumes "restore_window i sc s e c x n = Inr v"
  shows "v = \<lparr>mwID = i, mwOrganizationID = scopeOrganizationID sc, mwMonitorID = scopeMonitorID sc,
        mwStartsAt = to_utc s, mwEndsAt = to_utc e, mwCreatedAt = to_utc c,
        mwCancelledAt = map_option to_utc x, mwVersion = n\<rparr>"
  using assms by (auto simp: restore_window_def split: if_splits)

lemma before_to_utc [simp]: "before (to_utc a) b = before a b" "before a (to_utc b) = before a b"
  by (simp_all add: before_def)

lemma scan_window_Inr:
  assumes "scan_window w = Inr v"
  shows "mwID v = nwID w" "mwOrganizationID v = nwOrganizationID w" "mwMonitorID v = nwMonitorID w"
    "mwVersion v = nwXmin w" "mwCancelledAt v = map_option to_utc (nwCancelledAt w)"
    "mwCreatedAt v = to_utc (nwCreatedAt w)" "mwEndsAt v = to_utc (nwEndsAt w)"
    "mwStartsAt v = to_utc (nwStartsAt w)"
  using assms by (auto simp: scan_window_def row_window_def option.map_comp o_def
      dest!: restore_window_Inr split: if_splits sum.splits)

lemma scan_applies:
  assumes "scan_window w = Inr v"
  shows "applies_at v t \<longleftrightarrow> is_utc_location t \<and> row_applies w t"
  using scan_window_Inr [OF assms] by (auto simp: applies_at_def row_applies_def split: option.splits)

lemma cancel_at_Inr:
  "cancel_at v t = Inr v' \<Longrightarrow> mwCancelledAt v = None \<Longrightarrow> v' = v\<lparr>mwCancelledAt := Some (to_utc t)\<rparr>
     \<and> \<not> before t (mwCreatedAt v) \<and> before t (mwEndsAt v)"
  by (auto simp: cancel_at_def split: if_splits)

section \<open>Concurrent requests\<close>

text \<open>
  The clock, the database and the cancellations in flight: a request that cancels has read the
  window and its version and will write both back. Creations are atomic, the overlap check and
  the insertion run under a lock on the Monitor. The clock never goes back.
\<close>

record maintenance_state =
  msNow :: go_time
  msDb :: db
  msCancels :: "(window \<times> nat) list"

inductive maintenance_step :: "maintenance_state \<Rightarrow> maintenance_state \<Rightarrow> bool" where
  created: "\<not> before t (msNow s) \<Longrightarrow> maintenance_create sc starts ends t uuid (msDb s) = (r, d') \<Longrightarrow>
     maintenance_step s (s\<lparr>msNow := t, msDb := d'\<rparr>)"
| cancel_read: "\<not> before t (msNow s) \<Longrightarrow> find_window (msDb s) sc i = Inr (Some v) \<Longrightarrow> mwCancelledAt v = None \<Longrightarrow>
     cancel_at v (to_utc t) = Inr v' \<Longrightarrow>
     maintenance_step s (s\<lparr>msNow := t, msCancels := (v', mwVersion v) # msCancels s\<rparr>)"
| cancel_written: "(v', n) \<in> set (msCancels s) \<Longrightarrow> cancel_window (msDb s) v' n = (rc, d') \<Longrightarrow>
     maintenance_step s (s\<lparr>msDb := d'\<rparr>)"

inductive_cases maintenance_stepE: "maintenance_step s s'"

definition no_later :: "go_time \<Rightarrow> go_time \<Rightarrow> bool" where
  "no_later a b \<longleftrightarrow> nanos a \<le> nanos b"

definition apply_apart :: "window_row \<Rightarrow> window_row \<Rightarrow> bool" where
  "apply_apart w x \<longleftrightarrow> nwID w = nwID x \<or> nwMonitorID w \<noteq> nwMonitorID x \<or> nwOrganizationID w \<noteq> nwOrganizationID x
     \<or> (\<forall>t. \<not> (row_applies w t \<and> row_applies x t))"

definition windows_inv :: "go_time \<Rightarrow> db \<Rightarrow> bool" where
  "windows_inv now d \<longleftrightarrow> unique_on (\<lambda>w. Some (nwID w)) (dbWindows d)
     \<and> (\<forall>w \<in> set (dbWindows d). nwXmin w < dbXid d \<and> is_db_instant (nwStartsAt w) \<and> is_db_instant (nwEndsAt w)
          \<and> (case nwCancelledAt w of None \<Rightarrow> True | Some c \<Rightarrow> is_db_instant c \<and> no_later c now))
     \<and> (\<forall>w \<in> set (dbWindows d). \<forall>x \<in> set (dbWindows d). apply_apart w x)"

definition cancels_inv :: "maintenance_state \<Rightarrow> bool" where
  "cancels_inv s \<longleftrightarrow> (\<forall>(v, n) \<in> set (msCancels s). n < dbXid (msDb s)
     \<and> (\<exists>c. mwCancelledAt v = Some c \<and> no_later c (msNow s))
     \<and> (\<forall>w \<in> set (dbWindows (msDb s)). nwID w = mwID v \<and> nwXmin w = n \<longrightarrow> nwCancelledAt w = None))"

lemma no_later_db_instant: "no_later (db_instant t) t"
proof -
  have "nanos t div 1000 * 1000 \<le> nanos t" using div_window [of 1000 "nanos t"] by simp
  then show ?thesis by (simp add: no_later_def db_instant_def)
qed

lemma db_instant_mono: "nanos a \<le> nanos b \<Longrightarrow> nanos (db_instant a) \<le> nanos (db_instant b)"
  by (simp add: db_instant_def zdiv_mono1)

lemma create_window_changed:
  assumes "maintenance_create sc starts ends t uuid d = (r, d')" and "d' \<noteq> d"
  obtains i w where "d' = d\<lparr>dbWindows := dbWindows d @ [w], dbXid := dbXid d + 1\<rparr>"
    "\<forall>x \<in> set (dbWindows d). nwID x \<noteq> nwID w" "nwXmin w = dbXid d" "nwCancelledAt w = None"
    "nwStartsAt w = db_instant starts" "nwEndsAt w = db_instant ends" "nanos t \<le> nanos starts"
    "\<forall>x \<in> set (dbWindows d). nwOrganizationID x = nwOrganizationID w \<and> nwMonitorID x = nwMonitorID w \<and> nwCancelledAt x = None
       \<longrightarrow> \<not> (before (nwStartsAt x) (nwEndsAt w) \<and> after (nwEndsAt x) (nwStartsAt w))"
proof -
  obtain i v where f: "window_failures (to_utc t) starts ends = []"
    and v: "new_window i sc (to_utc starts) (to_utc ends) (to_utc t) = Inr v"
    and c: "create_window_tx v d = Inr d'"
    using assms by (auto simp: maintenance_create_def create_window_def run_tx_def and_then_Inr Let_def
        split: if_splits sum.splits)
  let ?w = "window_to_row v (dbXid d)"
  have vs: "mwStartsAt v = to_utc starts" "mwEndsAt v = to_utc ends" "mwCancelledAt v = None"
    using v by (auto simp: new_window_def dest!: restore_window_Inr)
  have "nanos t \<le> nanos starts" using f by (auto simp: window_failures_def Let_def before_def split: if_splits)
  then show thesis
    using c vs
    by (intro that [of ?w])
      (auto simp: create_window_tx_def Let_def window_to_row_def overlapping_def split: if_splits)
qed

lemma created_windows_inv:
  assumes inv: "windows_inv now d" and t: "\<not> before t now" and c: "maintenance_create sc starts ends t uuid d = (r, d')"
  shows "windows_inv t d' \<and> dbXid d \<le> dbXid d'
    \<and> (\<forall>w \<in> set (dbWindows d'). w \<in> set (dbWindows d) \<or> nwXmin w = dbXid d)"
proof (cases "d' = d")
  case True
  have "no_later c t" if "no_later c now" for c using that t by (simp add: no_later_def before_def)
  then show ?thesis using inv True by (auto simp: windows_inv_def split: option.splits)
next
  case False
  obtain w where d': "d' = d\<lparr>dbWindows := dbWindows d @ [w], dbXid := dbXid d + 1\<rparr>"
    and new: "\<forall>x \<in> set (dbWindows d). nwID x \<noteq> nwID w" and w: "nwXmin w = dbXid d" "nwCancelledAt w = None"
      "nwStartsAt w = db_instant starts" "nwEndsAt w = db_instant ends" and st: "nanos t \<le> nanos starts"
    and no: "\<forall>x \<in> set (dbWindows d). nwOrganizationID x = nwOrganizationID w \<and> nwMonitorID x = nwMonitorID w \<and> nwCancelledAt x = None
       \<longrightarrow> \<not> (before (nwStartsAt x) (nwEndsAt w) \<and> after (nwEndsAt x) (nwStartsAt w))"
    using create_window_changed [OF c False] by metis
  have late: "no_later c t" if "no_later c now" for c using that t by (simp add: no_later_def before_def)
  have apart: "\<not> (row_applies x u \<and> row_applies w u)"
    if x: "x \<in> set (dbWindows d)" and same: "nwOrganizationID x = nwOrganizationID w" "nwMonitorID x = nwMonitorID w" for x u
  proof (cases "nwCancelledAt x")
    case None
    then show ?thesis using no x same by (auto simp: row_applies_def before_def after_def)
  next
    case (Some c)
    then have "nanos c \<le> nanos now \<and> is_db_instant c" using inv x by (auto simp: windows_inv_def no_later_def)
    note c = this
    then have "nanos c \<le> nanos starts" using t st by (simp add: before_def)
    then have "nanos c \<le> nanos (db_instant starts)" using c db_instant_mono [of c starts] by (simp add: db_instant_id)
    show ?thesis
    proof
      assume a: "row_applies x u \<and> row_applies w u"
      then have "nanos (nwStartsAt w) \<le> nanos u" "nanos u < nanos c"
        using Some by (simp_all add: row_applies_def before_def)
      then show False using w \<open>nanos c \<le> nanos (db_instant starts)\<close> by simp
    qed
  qed
  then have "apply_apart x w \<and> apply_apart w x" if "x \<in> set (dbWindows d)" for x
    using that by (auto simp: apply_apart_def)
  then show ?thesis
    using inv d' new w late by (auto simp: windows_inv_def unique_on_append apply_apart_def split: option.splits)
qed

lemma sql_update_ball: "(\<forall>y \<in> set (sql_update p f xs). P y) \<longleftrightarrow> (\<forall>x \<in> set xs. P (if p x then f x else x))"
  by (simp only: sql_update_def set_map ball_simps)

lemma cancel_window_Inr:
  assumes "cancel_window d v n = (r, d')"
  shows "d' = d \<or> d' = d\<lparr>dbWindows := sql_update (cancel_hits d v n) (cancelled_row v (dbXid d)) (dbWindows d),
    dbXid := dbXid d + 1\<rparr>"
  using assms by (auto simp: cancel_window_def split: if_splits)

lemma cancelled_row_simps [simp]:
  "nwID (cancelled_row v n w) = nwID w" "nwMonitorID (cancelled_row v n w) = nwMonitorID w"
  "nwOrganizationID (cancelled_row v n w) = nwOrganizationID w" "nwXmin (cancelled_row v n w) = n"
  "nwStartsAt (cancelled_row v n w) = nwStartsAt w" "nwEndsAt (cancelled_row v n w) = nwEndsAt w"
  "nwCancelledAt (cancelled_row v n w) = map_option db_instant (mwCancelledAt v)"
  by (simp_all add: cancelled_row_def)

text \<open>Cancelling a window that was not cancelled only shortens when it applies.\<close>

lemma cancelled_row_applies:
  "nwCancelledAt w = None \<Longrightarrow> row_applies (cancelled_row v n w) t \<Longrightarrow> row_applies w t"
  by (simp add: row_applies_def)

lemma written_windows_inv:
  assumes inv: "windows_inv (msNow s) (msDb s)" and cs: "cancels_inv s" and m: "(v, n) \<in> set (msCancels s)"
    and c: "cancel_window (msDb s) v n = (r, d')"
  shows "windows_inv (msNow s) d' \<and> dbXid (msDb s) \<le> dbXid d'
    \<and> (\<forall>w \<in> set (dbWindows d'). w \<in> set (dbWindows (msDb s)) \<or> nwXmin w = dbXid (msDb s))"
proof (cases "d' = msDb s")
  case False
  let ?d = "msDb s" and ?hit = "cancel_hits (msDb s) v n" and ?f = "cancelled_row v (dbXid (msDb s))"
  have d': "d' = ?d\<lparr>dbWindows := sql_update ?hit ?f (dbWindows ?d), dbXid := dbXid ?d + 1\<rparr>"
    using cancel_window_Inr [OF c] False by simp
  obtain at where at: "mwCancelledAt v = Some at" "no_later at (msNow s)"
    and open_rows: "\<forall>w \<in> set (dbWindows ?d). nwID w = mwID v \<and> nwXmin w = n \<longrightarrow> nwCancelledAt w = None"
    using cs m by (auto simp: cancels_inv_def)
  have hit: "nwCancelledAt w = None" if "w \<in> set (dbWindows ?d)" "?hit w" for w
    using that open_rows by (auto simp: cancel_hits_def)
  let ?g = "\<lambda>w. if ?hit w then ?f w else w"
  have shrink: "row_applies (?g w) t \<Longrightarrow> row_applies w t" if "w \<in> set (dbWindows ?d)" for w t
    using hit [OF that] cancelled_row_applies by (auto split: if_splits)
  have ids: "nwID (?g w) = nwID w" "nwMonitorID (?g w) = nwMonitorID w" "nwOrganizationID (?g w) = nwOrganizationID w" for w
    by simp_all
  have apart: "apply_apart (?g w) (?g x)" if "w \<in> set (dbWindows ?d)" "x \<in> set (dbWindows ?d)" for w x
    using inv that shrink [OF that(1)] shrink [OF that(2)] unfolding windows_inv_def apply_apart_def ids by blast
  have nl: "no_later (db_instant at) (msNow s)"
    using at(2) no_later_db_instant [of at] by (simp add: no_later_def)
  have rows: "nwXmin (?g w) < dbXid ?d + 1 \<and> is_db_instant (nwStartsAt (?g w)) \<and> is_db_instant (nwEndsAt (?g w))
      \<and> (case nwCancelledAt (?g w) of None \<Rightarrow> True | Some c \<Rightarrow> is_db_instant c \<and> no_later c (msNow s))"
    if "w \<in> set (dbWindows ?d)" for w
    using inv that nl at(1) by (auto simp: windows_inv_def less_Suc_eq)
  have uq: "unique_on (\<lambda>w. Some (nwID w)) (sql_update ?hit ?f (dbWindows ?d))"
    using inv by (intro unique_on_sql_update) (simp_all add: windows_inv_def)
  have "windows_inv (msNow s) d'"
    unfolding windows_inv_def using uq rows apart by (simp add: d' sql_update_ball)
  then show ?thesis using d' by (auto simp: set_sql_update)
qed (use inv in simp)

lemma cancels_inv_next:
  assumes cs: "cancels_inv s" and n: "dbXid (msDb s) \<le> dbXid (msDb s')" and "msCancels s' = msCancels s"
    and "nanos (msNow s) \<le> nanos (msNow s')"
    and rows: "\<forall>w \<in> set (dbWindows (msDb s')). w \<in> set (dbWindows (msDb s)) \<or> nwXmin w = dbXid (msDb s)"
  shows "cancels_inv s'"
  using assms by (fastforce simp: cancels_inv_def no_later_def)

lemma read_cancels_inv:
  assumes inv: "windows_inv (msNow s) (msDb s)" and cs: "cancels_inv s" and t: "\<not> before t (msNow s)"
    and f: "find_window (msDb s) sc i = Inr (Some v)" and o: "mwCancelledAt v = None" and c: "cancel_at v (to_utc t) = Inr v'"
  shows "cancels_inv (s\<lparr>msNow := t, msCancels := (v', mwVersion v) # msCancels s\<rparr>)"
proof -
  obtain w where w: "find (window_of sc i) (dbWindows (msDb s)) = Some w" "scan_window w = Inr v"
    using f by (auto simp: find_window_def and_then_Inr split: if_splits option.splits)
  have wm: "w \<in> set (dbWindows (msDb s))" using find_holds [OF w(1)] by simp
  have v': "v' = v\<lparr>mwCancelledAt := Some (to_utc t)\<rparr>" using cancel_at_Inr [OF c o] by simp
  have "x = w" if "x \<in> set (dbWindows (msDb s))" "nwID x = mwID v'" for x
    using unique_onD [of "\<lambda>w. Some (nwID w)" "dbWindows (msDb s)" x w] inv that wm scan_window_Inr(1) [OF w(2)] v'
    by (simp add: windows_inv_def)
  moreover have "nwCancelledAt w = None" using scan_window_Inr(5) [OF w(2)] o by simp
  moreover have "mwVersion v < dbXid (msDb s)" using inv wm scan_window_Inr(4) [OF w(2)] by (simp add: windows_inv_def)
  moreover have "no_later c t" if "no_later c (msNow s)" for c using that t by (simp add: no_later_def before_def)
  ultimately show ?thesis using cs v' by (auto simp: cancels_inv_def no_later_def)
qed

definition maintenance_inv :: "maintenance_state \<Rightarrow> bool" where
  "maintenance_inv s \<longleftrightarrow> windows_inv (msNow s) (msDb s) \<and> cancels_inv s"

lemma windows_inv_later: "windows_inv now d \<Longrightarrow> \<not> before t now \<Longrightarrow> windows_inv t d"
  by (auto simp: windows_inv_def no_later_def before_def split: option.splits)

lemma maintenance_step_inv:
  assumes "maintenance_step s s'" and inv: "maintenance_inv s"
  shows "maintenance_inv s'"
  using assms(1)
proof cases
  case (created t sc starts ends uuid r d')
  note C = created_windows_inv [OF _ created(2,3)]
  have "cancels_inv s'"
    by (rule cancels_inv_next [of s]) (use inv C created in \<open>auto simp: maintenance_inv_def before_def\<close>)
  then show ?thesis using inv C created by (simp add: maintenance_inv_def)
next
  case (cancel_read t sc i v v')
  then show ?thesis
    using inv read_cancels_inv [OF _ _ cancel_read(2-5)] windows_inv_later [OF _ cancel_read(2)]
    by (simp add: maintenance_inv_def)
next
  case (cancel_written v' n r d')
  note C = written_windows_inv [OF _ _ cancel_written(2,3)]
  have "cancels_inv s'"
    by (rule cancels_inv_next [of s]) (use inv C cancel_written in \<open>auto simp: maintenance_inv_def\<close>)
  then show ?thesis using inv C cancel_written by (simp add: maintenance_inv_def)
qed

lemma maintenance_steps_inv: "maintenance_step\<^sup>*\<^sup>* s s' \<Longrightarrow> maintenance_inv s \<Longrightarrow> maintenance_inv s'"
  by (induction rule: rtranclp_induct) (auto dest: maintenance_step_inv)

section \<open>Properties\<close>


definition window_time :: "int \<Rightarrow> go_time" where
  "window_time n = \<lparr>nanos = nanos sample_time + n * 60000000000, zone = UTC\<rparr>"

definition sample_windows :: maintenance_state where
  "sample_windows = \<lparr>msNow = sample_time, msDb = sample_db, msCancels = []\<rparr>"

definition window_scope :: scope where
  "window_scope = \<lparr>scopeOrganizationID = ''org'', scopeMonitorID = ''mon''\<rparr>"

definition sample_create :: "int \<Rightarrow> int \<Rightarrow> int \<Rightarrow> string \<Rightarrow> maintenance_state \<Rightarrow> maintenance_state" where
  "sample_create at from until i s = s\<lparr>msNow := window_time at, msDb := snd (maintenance_create window_scope
     (window_time from) (window_time until) (window_time at) (Inr i) (msDb s))\<rparr>"

definition sample_read :: "int \<Rightarrow> window \<Rightarrow> maintenance_state \<Rightarrow> maintenance_state" where
  "sample_read at v s = s\<lparr>msNow := window_time at,
     msCancels := (v\<lparr>mwCancelledAt := Some (window_time at)\<rparr>, mwVersion v) # msCancels s\<rparr>"

definition sample_write :: "maintenance_state \<Rightarrow> maintenance_state" where
  "sample_write s = s\<lparr>msDb := snd (cancel_window (msDb s) (fst (hd (msCancels s))) (snd (hd (msCancels s))))\<rparr>"

definition sample_window :: window where
  "sample_window = \<lparr>mwID = ''w1'', mwOrganizationID = ''org'', mwMonitorID = ''mon'', mwStartsAt = window_time 10,
     mwEndsAt = window_time 20, mwCreatedAt = window_time 1, mwCancelledAt = None, mwVersion = 1\<rparr>"

text \<open>A window, its cancellation while it applies, and a second window in the freed time.\<close>

definition sample_rescheduled :: maintenance_state where
  "sample_rescheduled = sample_create 13 13 18 ''w2'' (sample_write (sample_read 12 sample_window
     (sample_create 1 10 20 ''w1'' sample_windows)))"

lemma sample_create_step:
  "\<not> before (window_time at) (msNow s) \<Longrightarrow> maintenance_step s (sample_create at from until i s)"
  unfolding sample_create_def by (rule maintenance_step.created [OF _ prod.collapse [symmetric]])

lemma sample_write_step: "msCancels s = c # cs \<Longrightarrow> maintenance_step s (sample_write s)"
  unfolding sample_write_def by (rule maintenance_step.cancel_written [OF _ prod.collapse [symmetric]]) simp

lemma sample_rescheduled_reachable: "maintenance_step\<^sup>*\<^sup>* sample_windows sample_rescheduled"
proof -
  let ?a = "sample_create 1 10 20 ''w1'' sample_windows"
  have "maintenance_step sample_windows ?a"
    by (rule sample_create_step) (simp add: sample_windows_def window_time_def before_def)
  moreover have "maintenance_step ?a (sample_read 12 sample_window ?a)"
    unfolding sample_read_def
  proof (rule maintenance_step.cancel_read)
    show "\<not> before (window_time 12) (msNow ?a)" by (simp add: sample_create_def window_time_def before_def)
    show "find_window (msDb ?a) window_scope ''w1'' = Inr (Some sample_window)" by code_simp
    show "mwCancelledAt sample_window = None" by code_simp
    show "cancel_at sample_window (to_utc (window_time 12)) = Inr (sample_window\<lparr>mwCancelledAt := Some (window_time 12)\<rparr>)"
      by code_simp
  qed
  moreover have "maintenance_step (sample_read 12 sample_window ?a) (sample_write (sample_read 12 sample_window ?a))"
    by (rule sample_write_step) (simp add: sample_read_def)
  moreover have "maintenance_step (sample_write (sample_read 12 sample_window ?a)) sample_rescheduled"
    unfolding sample_rescheduled_def
    by (rule sample_create_step) (simp add: sample_write_def sample_read_def window_time_def before_def)
  ultimately show ?thesis by (meson rtranclp.rtrancl_into_rtrancl rtranclp.rtrancl_refl)
qed

definition applying_window :: "window_row \<Rightarrow> go_time \<Rightarrow> bool" where
  "applying_window w t \<longleftrightarrow> (case scan_window w of Inl e \<Rightarrow> False | Inr v \<Rightarrow> applies_at v t)"


end
