(* ===== verification/AlertStore.thy ===== *)
theory AlertStore
  imports IncidentStore Maintenance
begin

text \<open>
  Models \<open>internal/alert/alert.go\<close>, \<open>internal/postgres/alert.go\<close> and
  \<open>internal/postgres/webhook_routing.go\<close>: the Alerts projected from Incident timelines and the
  Webhook deliveries each of them is routed to, which a maintenance window suppresses. The lemmas
  show that every Alert repeats one opened or resolved timeline entry, at most once, and that
  suppression follows the policy of the window at the time of the event.
\<close>

section \<open>Data\<close>

record alert =
  alID :: string
  alOrganizationID :: string
  alMonitorID :: string
  alIncidentID :: string
  alIncidentVersion :: int
  alKind :: string
  alOccurredAt :: go_time
  alCreatedAt :: go_time

definition KindIncidentOpened :: string where "KindIncidentOpened = ''incident.opened''"
definition KindIncidentResolved :: string where "KindIncidentResolved = ''incident.resolved''"

lemmas alert_kind_defs = KindIncidentOpened_def KindIncidentResolved_def

definition AlertMaxPageSize :: int where "AlertMaxPageSize = 100"

record alert_cursor =
  acOccurredAt :: go_time
  acID :: string

record alert_query =
  aqPageSize :: int
  aqCursor :: "alert_cursor option"

fun timeline_text :: "timeline_kind \<Rightarrow> string" where
  "timeline_text TimelineOpened = ''opened''"
| "timeline_text TimelineAcknowledged = ''acknowledged''"
| "timeline_text TimelineResolved = ''resolved''"

section \<open>Routing\<close>

definition MaxEnabledIntegrations :: nat where "MaxEnabledIntegrations = 5"

definition SuppressionReasonMaintenance :: string where "SuppressionReasonMaintenance = ''maintenance''"

text \<open>The query for the window that applied when the event occurred, and the routed integrations.\<close>

definition window_matches :: "string \<Rightarrow> string \<Rightarrow> go_time \<Rightarrow> window_row \<Rightarrow> bool" where
  "window_matches org mon at w \<longleftrightarrow> nwOrganizationID w = org \<and> nwMonitorID w = mon
     \<and> \<not> after (nwCreatedAt w) at \<and> \<not> after (nwStartsAt w) at \<and> after (nwEndsAt w) at
     \<and> (case nwCancelledAt w of None \<Rightarrow> True | Some c \<Rightarrow> after c at)"

definition matching_window :: "db \<Rightarrow> string \<Rightarrow> string \<Rightarrow> go_time \<Rightarrow> window_row option" where
  "matching_window d org mon at =
     (case sort_key (\<lambda>w. (nanos (nwStartsAt w), nwID w)) (filter (window_matches org mon (db_instant at)) (dbWindows d)) of
        [] \<Rightarrow> None | w # _ \<Rightarrow> Some w)"

definition route_targets :: "db \<Rightarrow> string \<Rightarrow> integration_row list" where
  "route_targets d org = take (MaxEnabledIntegrations + 1)
     (sort_key giID (filter (\<lambda>g. giOrganizationID g = org \<and> giEnabled g) (dbIntegrations d)))"

definition route_row :: "alert \<Rightarrow> window_row option \<Rightarrow> string \<Rightarrow> integration_row \<Rightarrow> delivery_row" where
  "route_row v w i g =
     \<lparr>vwID = i, vwOrganizationID = alOrganizationID v, vwAlertID = alID v, vwIntegrationID = giID g,
      vwIntegrationVersion = giVersion g, vwSecretVersion = giActiveSecretVersion g,
      vwRoutedAt = db_instant (alCreatedAt v), vwAvailableAt = db_instant (alCreatedAt v), vwAttemptCount = 0,
      vwLeaseHolder = None, vwLeaseExpiresAt = None,
      vwCompletedAt = (case w of None \<Rightarrow> None | Some _ \<Rightarrow> Some (db_instant (alCreatedAt v))),
      vwSuppressionReason = (case w of None \<Rightarrow> None | Some _ \<Rightarrow> Some SuppressionReasonMaintenance),
      vwWindowID = map_option nwID w\<rparr>"

text \<open>The constraints of \<open>webhook_deliveries\<close>.\<close>

definition delivery_row_ok :: "delivery_row \<Rightarrow> bool" where
  "delivery_row_ok v \<longleftrightarrow> 1 \<le> vwIntegrationVersion v \<and> 1 \<le> vwSecretVersion v
     \<and> 0 \<le> vwAttemptCount v \<and> vwAttemptCount v \<le> 5
     \<and> (vwLeaseHolder v = None \<longleftrightarrow> vwLeaseExpiresAt v = None)
     \<and> (vwCompletedAt v = None \<or> vwLeaseHolder v = None)
     \<and> (vwSuppressionReason v = None \<and> vwWindowID v = None
        \<or> vwSuppressionReason v = Some SuppressionReasonMaintenance \<and> vwWindowID v \<noteq> None
          \<and> vwCompletedAt v \<noteq> None \<and> vwAttemptCount v = 0 \<and> vwLeaseHolder v = None)"

definition secret_in_db :: "db \<Rightarrow> string \<Rightarrow> string \<Rightarrow> int \<Rightarrow> bool" where
  "secret_in_db d org i n = sql_exists (\<lambda>x. gsOrganizationID x = org \<and> gsIntegrationID x = i \<and> gsVersion x = n) (dbSecrets d)"

definition insert_delivery :: "delivery_row \<Rightarrow> db \<Rightarrow> db result" where
  "insert_delivery v d =
     (if \<not> delivery_row_ok v \<or> sql_exists (\<lambda>x. vwID x = vwID v) (dbDeliveries d)
        \<or> sql_exists (\<lambda>x. vwOrganizationID x = vwOrganizationID v \<and> vwAlertID x = vwAlertID v
            \<and> vwIntegrationID x = vwIntegrationID v) (dbDeliveries d)
        \<or> \<not> sql_exists (\<lambda>a. awID a = vwAlertID v \<and> awOrganizationID a = vwOrganizationID v) (dbAlerts d)
        \<or> \<not> sql_exists (\<lambda>g. giID g = vwIntegrationID v \<and> giOrganizationID g = vwOrganizationID v) (dbIntegrations d)
        \<or> \<not> secret_in_db d (vwOrganizationID v) (vwIntegrationID v) (vwSecretVersion v)
      then Inl (ErrText ''insert Webhook delivery route'')
      else Inr (d\<lparr>dbDeliveries := dbDeliveries d @ [v]\<rparr>))"

fun insert_routes ::
  "alert \<Rightarrow> window_row option \<Rightarrow> (nat \<Rightarrow> string result) \<Rightarrow> nat \<Rightarrow> integration_row list \<Rightarrow> db \<Rightarrow> db result" where
  "insert_routes v w uuid n [] d = Inr d"
| "insert_routes v w uuid n (g # gs) d =
     (case uuid n of
        Inl e \<Rightarrow> Inl (Wrapped ''generate Webhook delivery id'' e)
      | Inr i \<Rightarrow> and_then (insert_delivery (route_row v w i g) d) (insert_routes v w uuid (Suc n) gs))"

definition route_webhook_deliveries :: "alert \<Rightarrow> (nat \<Rightarrow> string result) \<Rightarrow> db \<Rightarrow> db result" where
  "route_webhook_deliveries v uuid d =
     (let w = matching_window d (alOrganizationID v) (alMonitorID v) (alOccurredAt v);
          targets = route_targets d (alOrganizationID v)
      in if length targets > MaxEnabledIntegrations then
           Inl (ErrText ''enabled Webhook Integration limit invariant was violated'')
         else insert_routes v w uuid 0 targets d)"

section \<open>Projection\<close>

definition alert_to_row :: "alert \<Rightarrow> alert_row" where
  "alert_to_row v = \<lparr>awID = alID v, awOrganizationID = alOrganizationID v, awMonitorID = alMonitorID v,
     awIncidentID = alIncidentID v, awIncidentVersion = alIncidentVersion v, awKind = alKind v,
     awOccurredAt = db_instant (alOccurredAt v), awCreatedAt = db_instant (alCreatedAt v)\<rparr>"

definition alert_fact :: "db \<Rightarrow> incident_transitioned \<Rightarrow> (incident_row \<times> timeline_row) option" where
  "alert_fact d e =
     (case find (\<lambda>w. iwID w = itIncidentID e \<and> iwOrganizationID w = itOrganizationID e) (dbIncidents d) of
        None \<Rightarrow> None
      | Some w \<Rightarrow> map_option (Pair w) (find (\<lambda>l. lwIncidentID l = iwID w \<and> lwOrganizationID l = iwOrganizationID w
          \<and> lwIncidentVersion l = itAggregateVersion e \<and> lwKind l \<in> {TimelineOpened, TimelineResolved}) (dbTimeline d)))"

definition alert_matches :: "incident_transitioned \<Rightarrow> alert \<Rightarrow> incident_row \<Rightarrow> timeline_row \<Rightarrow> bool" where
  "alert_matches e v w l \<longleftrightarrow> iwMonitorID w = itMonitorID e \<and> lwIncidentVersion l = itAggregateVersion e
     \<and> timeline_text (lwKind l) = itTransition e \<and> time_equal (lwOccurredAt l) (itOccurredAt e)
     \<and> alOrganizationID v = itOrganizationID e \<and> alMonitorID v = iwMonitorID w \<and> alIncidentID v = itIncidentID e
     \<and> alIncidentVersion v = lwIncidentVersion l \<and> alKind v = ''incident.'' @ timeline_text (lwKind l)
     \<and> time_equal (alOccurredAt v) (lwOccurredAt l)"

definition same_fact :: "alert_row \<Rightarrow> alert_row \<Rightarrow> bool" where
  "same_fact a b \<longleftrightarrow> awOrganizationID a = awOrganizationID b \<and> awIncidentID a = awIncidentID b
     \<and> awIncidentVersion a = awIncidentVersion b"

datatype alert_insert = AlertInserted db | AlertPresent | AlertRejected

definition insert_alert :: "alert_row \<Rightarrow> db \<Rightarrow> alert_insert" where
  "insert_alert a d =
     (if sql_exists (same_fact a) (dbAlerts d) then AlertPresent
      else if sql_exists (\<lambda>x. awID x = awID a) (dbAlerts d) \<or> awIncidentVersion a < 1
        \<or> awKind a \<notin> {KindIncidentOpened, KindIncidentResolved}
        \<or> \<not> sql_exists (\<lambda>w. iwID w = awIncidentID a \<and> iwOrganizationID w = awOrganizationID a) (dbIncidents d)
        \<or> \<not> monitor_in_db d (awMonitorID a) (awOrganizationID a)
      then AlertRejected
      else AlertInserted (d\<lparr>dbAlerts := dbAlerts d @ [a]\<rparr>))"

definition project_alert_tx :: "incident_transitioned \<Rightarrow> alert \<Rightarrow> (nat \<Rightarrow> string result) \<Rightarrow> db \<Rightarrow> db result" where
  "project_alert_tx e v uuid d =
     (case alert_fact d e of
        None \<Rightarrow> Inl (ErrIs AlertPayloadInvalid)
      | Some (w, l) \<Rightarrow>
          if \<not> alert_matches e v w l then Inl (ErrIs AlertPayloadInvalid)
          else if itOrganizationID e \<notin> set (dbOrganizations d) then Inl (ErrIs AlertPayloadInvalid)
          else case insert_alert (alert_to_row v) d of
            AlertRejected \<Rightarrow> Inl (ErrText ''insert Alert'')
          | AlertPresent \<Rightarrow>
              if outbox_event_processed (itEventID e) (itOrganizationID e) d then Inr d
              else Inl (ErrText ''Alert source fact already projected without its outbox marker'')
          | AlertInserted d1 \<Rightarrow>
              and_then (route_webhook_deliveries v uuid d1)
                (mark_outbox_event_processed (itEventID e) (itOrganizationID e) TopicIncidentTransitionedV1 (alCreatedAt v)))"

definition project_incident_transition ::
  "db \<Rightarrow> incident_transitioned \<Rightarrow> alert \<Rightarrow> (nat \<Rightarrow> string result) \<Rightarrow> unit result \<times> db" where
  "project_incident_transition d e v uuid =
     (if outbox_event_processed (itEventID e) (itOrganizationID e) d then (Inr (), d)
      else run_tx (\<lambda>d. and_then (project_alert_tx e v uuid d) (\<lambda>d'. Inr ((), d'))) d)"

definition scan_alert :: "alert_row \<Rightarrow> alert" where
  "scan_alert a = \<lparr>alID = awID a, alOrganizationID = awOrganizationID a, alMonitorID = awMonitorID a,
     alIncidentID = awIncidentID a, alIncidentVersion = awIncidentVersion a, alKind = awKind a,
     alOccurredAt = to_utc (awOccurredAt a), alCreatedAt = to_utc (awCreatedAt a)\<rparr>"

definition list_alerts :: "db \<Rightarrow> scope \<Rightarrow> alert_query \<Rightarrow> (alert list \<times> bool) option result" where
  "list_alerts d sc q =
     (if aqPageSize q < 1 \<or> aqPageSize q > AlertMaxPageSize then Inl (ErrText ''an Alert page is 1 to 100 rows'')
      else if \<not> monitor_in_db d (scopeMonitorID sc) (scopeOrganizationID sc) then Inr None
      else
        let (page, further) = keyset_page (\<lambda>a. (nanos (awOccurredAt a), awID a))
              (map_option (\<lambda>c. (nanos (db_instant (acOccurredAt c)), acID c)) (aqCursor q)) (nat (aqPageSize q))
              (filter (\<lambda>a. awOrganizationID a = scopeOrganizationID sc \<and> awMonitorID a = scopeMonitorID sc) (dbAlerts d))
        in Inr (Some (map scan_alert page, further)))"

section \<open>The service\<close>

definition alert_scope_validate :: "scope \<Rightarrow> unit result" where
  "alert_scope_validate sc =
     (if scopeOrganizationID sc = '''' \<or> scopeMonitorID sc = '''' then
        Inl (ErrText ''an Alert query requires Organization and Monitor identity'')
      else Inr ())"

definition validate_incident_transition :: "incident_transitioned \<Rightarrow> string result" where
  "validate_incident_transition e =
     (if itEventID e = '''' \<or> itOrganizationID e = '''' \<or> itIncidentID e = '''' \<or> itMonitorID e = ''''
        \<or> itCausationID e = '''' then Inl (ErrIs AlertPayloadInvalid)
      else if itAggregateType e \<noteq> ''incident'' \<or> itAggregateID e \<noteq> itIncidentID e \<or> itAggregateVersion e < 1
        \<or> \<not> is_utc (itOccurredAt e) then Inl (ErrIs AlertPayloadInvalid)
      else if itTransition e = ''opened'' then Inr KindIncidentOpened
      else if itTransition e = ''resolved'' then Inr KindIncidentResolved
      else Inl (ErrIs AlertPayloadInvalid))"

definition alert_of :: "incident_transitioned \<Rightarrow> string \<Rightarrow> string \<Rightarrow> go_time \<Rightarrow> alert" where
  "alert_of e kind i now =
     \<lparr>alID = i, alOrganizationID = itOrganizationID e, alMonitorID = itMonitorID e, alIncidentID = itIncidentID e,
      alIncidentVersion = itAggregateVersion e, alKind = kind, alOccurredAt = to_utc (itOccurredAt e), alCreatedAt = now\<rparr>"

text \<open>The service takes one identifier for the Alert, the routing the following ones.\<close>

definition handle_incident_transition ::
  "string \<Rightarrow> string \<Rightarrow> json \<Rightarrow> (nat \<Rightarrow> string result) \<times> go_time \<Rightarrow> db \<Rightarrow> unit result \<times> db" where
  "handle_incident_transition event_id org payload env d =
     (case decode_incident_transitioned payload of
        None \<Rightarrow> (Inl (ErrIs AlertPayloadInvalid), d)
      | Some e \<Rightarrow>
          (case validate_incident_transition e of
             Inl x \<Rightarrow> (Inl (ErrIs AlertPayloadInvalid), d)
           | Inr kind \<Rightarrow>
               if itEventID e \<noteq> event_id then (Inl (ErrIs AlertPayloadInvalid), d)
               else if itOrganizationID e \<noteq> org then (Inl (ErrIs AlertOrganizationMismatch), d)
               else case fst env 0 of
                 Inl x \<Rightarrow> (Inl x, d)
               | Inr i \<Rightarrow> project_incident_transition d e (alert_of e kind i (to_utc (snd env))) (\<lambda>n. fst env (Suc n))))"

definition alert_list :: "db \<Rightarrow> scope \<Rightarrow> alert_query \<Rightarrow> (alert list \<times> alert_cursor option) option result" where
  "alert_list d sc q =
     and_then (alert_scope_validate sc) (\<lambda>_.
       if aqPageSize q < 1 \<or> aqPageSize q > AlertMaxPageSize then Inl (ErrText ''an Alert page is 1 to 100 rows'')
       else if (case aqCursor q of None \<Rightarrow> False | Some c \<Rightarrow> acID c = '''' \<or> \<not> is_utc (acOccurredAt c)) then
         Inl (ErrText ''an Alert cursor requires identity and a UTC occurrence instant'')
       else and_then (list_alerts d sc q) (\<lambda>found. Inr (map_option (\<lambda>(values, further).
         (values, if further \<and> values \<noteq> [] then
            Some \<lparr>acOccurredAt = alOccurredAt (last values), acID = alID (last values)\<rparr> else None)) found)))"

section \<open>Redelivery\<close>

lemma project_incident_transition_result:
  "project_incident_transition d e v uuid = (r, d') \<Longrightarrow>
     (case r of Inl x \<Rightarrow> d' = d | Inr u \<Rightarrow> outbox_event_processed (itEventID e) (itOrganizationID e) d')"
  by (auto simp: project_incident_transition_def run_tx_def and_then_Inr project_alert_tx_def
      split: if_splits sum.splits option.splits alert_insert.splits dest!: mark_processed_Inr(1))

lemma handle_incident_transition_cases:
  assumes "handle_incident_transition i org payload env d = (r, d')"
  obtains x where "r = Inl x" "d' = d"
  | e v uuid where "itEventID e = i" "itOrganizationID e = org" "project_incident_transition d e v uuid = (r, d')"
  using assms by (auto simp: handle_incident_transition_def split: option.splits if_splits sum.splits)

interpretation alert_consumer: idempotent_consumer "handle_incident_transition i org payload" "outbox_event_processed i org"
proof
  show "d' = d" if "handle_incident_transition i org payload env d = (Inl x, d')" for env d x d'
    using that by (cases rule: handle_incident_transition_cases) (auto dest: project_incident_transition_result)
  show "outbox_event_processed i org d'" if "handle_incident_transition i org payload env d = (Inr x, d')" for env d x d'
    using that by (cases rule: handle_incident_transition_cases) (auto dest: project_incident_transition_result)
  show "snd (handle_incident_transition i org payload env d) = d" if "outbox_event_processed i org d" for env d
    using that by (auto simp: handle_incident_transition_def project_incident_transition_def
        split: option.splits sum.splits)
qed


section \<open>What a projection stores\<close>

lemma insert_delivery_Inr: "insert_delivery v d = Inr d' \<Longrightarrow> d' = d\<lparr>dbDeliveries := dbDeliveries d @ [v]\<rparr>"
  by (auto simp: insert_delivery_def split: if_splits)

lemma insert_routes_Inr:
  "insert_routes v w uuid n gs d = Inr d' \<Longrightarrow> \<exists>vs. d' = d\<lparr>dbDeliveries := dbDeliveries d @ vs\<rparr>
     \<and> list_all2 (\<lambda>x g. \<exists>i. x = route_row v w i g) vs gs"
proof (induction gs arbitrary: n d)
  case (Cons g gs)
  obtain i d1 where i: "insert_delivery (route_row v w i g) d = Inr d1" and r: "insert_routes v w uuid (Suc n) gs d1 = Inr d'"
    using Cons.prems by (auto simp: and_then_Inr split: sum.splits)
  obtain vs where vs: "d' = d1\<lparr>dbDeliveries := dbDeliveries d1 @ vs\<rparr>" "list_all2 (\<lambda>x g. \<exists>i. x = route_row v w i g) vs gs"
    using Cons.IH [OF r] by blast
  have "list_all2 (\<lambda>x g. \<exists>i. x = route_row v w i g) (route_row v w i g # vs) (g # gs)" using vs(2) by auto
  moreover have "d' = d\<lparr>dbDeliveries := dbDeliveries d @ route_row v w i g # vs\<rparr>"
    using insert_delivery_Inr [OF i] vs(1) by simp
  ultimately show ?case by blast
qed simp

lemma insert_alert_Inserted:
  "insert_alert a d = AlertInserted d1 \<Longrightarrow> d1 = d\<lparr>dbAlerts := dbAlerts d @ [a]\<rparr> \<and> (\<forall>x \<in> set (dbAlerts d). \<not> same_fact a x)
     \<and> (\<forall>x \<in> set (dbAlerts d). awID x \<noteq> awID a)"
  by (auto simp: insert_alert_def split: if_splits)

lemma project_alert_changed:
  assumes "project_incident_transition d e v uuid = (r, d')" and "d' \<noteq> d"
  obtains w l vs ps where "r = Inr ()" "w \<in> set (dbIncidents d)" "l \<in> set (dbTimeline d)" "alert_matches e v w l"
    "lwIncidentID l = alIncidentID v" "lwOrganizationID l = alOrganizationID v" "lwKind l \<in> {TimelineOpened, TimelineResolved}"
    "d' = d\<lparr>dbAlerts := dbAlerts d @ [alert_to_row v], dbDeliveries := dbDeliveries d @ vs, dbProcessed := ps\<rparr>"
    "\<forall>x \<in> set (dbAlerts d). \<not> same_fact (alert_to_row v) x"
    "list_all2 (\<lambda>x g. \<exists>i. x = route_row v (matching_window d (alOrganizationID v) (alMonitorID v) (alOccurredAt v)) i g) vs
       (route_targets d (alOrganizationID v))"
proof -
  have r: "r = Inr ()" and tx: "project_alert_tx e v uuid d = Inr d'"
    using assms by (auto simp: project_incident_transition_def run_tx_def and_then_Inr split: if_splits sum.splits)
  obtain w l where f: "alert_fact d e = Some (w, l)" and am: "alert_matches e v w l"
    using tx by (auto simp: project_alert_tx_def split: option.splits if_splits)
  obtain d1 d2 where i: "insert_alert (alert_to_row v) d = AlertInserted d1"
    and rt: "route_webhook_deliveries v uuid d1 = Inr d2"
    and mk: "mark_outbox_event_processed (itEventID e) (itOrganizationID e) TopicIncidentTransitionedV1 (alCreatedAt v) d2 = Inr d'"
    using tx f am assms(2)
    by (auto simp: project_alert_tx_def and_then_Inr split: if_splits alert_insert.splits)
  note I = insert_alert_Inserted [OF i]
  have same: "matching_window d1 = matching_window d" "route_targets d1 = route_targets d"
    using I by (simp_all add: matching_window_def route_targets_def fun_eq_iff)
  obtain vs where vs: "d2 = d1\<lparr>dbDeliveries := dbDeliveries d1 @ vs\<rparr>"
    "list_all2 (\<lambda>x g. \<exists>i. x = route_row v (matching_window d (alOrganizationID v) (alMonitorID v) (alOccurredAt v)) i g) vs
       (route_targets d (alOrganizationID v))"
    using rt insert_routes_Inr by (fastforce simp: route_webhook_deliveries_def Let_def same split: if_splits)
  obtain ps where ps: "d' = d2\<lparr>dbProcessed := ps\<rparr>" using mark_processed_Inr(2) [OF mk] by blast
  obtain fw: "find (\<lambda>w. iwID w = itIncidentID e \<and> iwOrganizationID w = itOrganizationID e) (dbIncidents d) = Some w"
    and fl: "find (\<lambda>l. lwIncidentID l = iwID w \<and> lwOrganizationID l = iwOrganizationID w
          \<and> lwIncidentVersion l = itAggregateVersion e \<and> lwKind l \<in> {TimelineOpened, TimelineResolved}) (dbTimeline d) = Some l"
    using f by (auto simp: alert_fact_def split: option.splits)
  show thesis
    using r find_holds [OF fw] find_holds [OF fl] am I vs(1) ps
    by (intro that [of w l ps vs, OF _ _ _ am _ _ _ _ _ vs(2)]) (auto simp: alert_matches_def)
qed

section \<open>Alerts mirror timelines\<close>

definition mirrors :: "alert_row \<Rightarrow> timeline_row \<Rightarrow> bool" where
  "mirrors a l \<longleftrightarrow> lwIncidentID l = awIncidentID a \<and> lwOrganizationID l = awOrganizationID a
     \<and> lwIncidentVersion l = awIncidentVersion a \<and> lwKind l \<in> {TimelineOpened, TimelineResolved}
     \<and> awKind a = ''incident.'' @ timeline_text (lwKind l) \<and> awOccurredAt a = db_instant (lwOccurredAt l)"

definition alerts_inv :: "db \<Rightarrow> bool" where
  "alerts_inv d \<longleftrightarrow> unique_on (\<lambda>a. Some (awOrganizationID a, awIncidentID a, awIncidentVersion a)) (dbAlerts d)
     \<and> (\<forall>a \<in> set (dbAlerts d). \<exists>l \<in> set (dbTimeline d). mirrors a l)"

text \<open>Health, Incidents and Alerts together.\<close>

inductive alert_step :: "db \<Rightarrow> db \<Rightarrow> bool" where
  incident: "incident_step d d' \<Longrightarrow> alert_step d d'"
| alerted: "project_incident_transition d e v uuid = (r, d') \<Longrightarrow> alert_step d d'"

inductive_cases alert_stepE: "alert_step d d'"

lemma db_instant_equal: "time_equal a b \<Longrightarrow> db_instant a = db_instant b"
  by (simp add: time_equal_def db_instant_def)

lemma alerted_inv:
  assumes inv: "alerts_inv d" and p: "project_incident_transition d e v uuid = (r, d')"
  shows "alerts_inv d'"
proof (cases "d' = d")
  case False
  with p show ?thesis
  proof (rule project_alert_changed)
    fix w l vs ps
    assume l: "l \<in> set (dbTimeline d)" and am: "alert_matches e v w l" and li: "lwIncidentID l = alIncidentID v"
      "lwOrganizationID l = alOrganizationID v" "lwKind l \<in> {TimelineOpened, TimelineResolved}"
      and d': "d' = d\<lparr>dbAlerts := dbAlerts d @ [alert_to_row v], dbDeliveries := dbDeliveries d @ vs, dbProcessed := ps\<rparr>"
      and no: "\<forall>x \<in> set (dbAlerts d). \<not> same_fact (alert_to_row v) x"
    have "mirrors (alert_to_row v) l"
      using am li by (auto simp: mirrors_def alert_to_row_def alert_matches_def intro: db_instant_equal)
    then show ?thesis using inv d' l no by (auto simp: alerts_inv_def unique_on_append same_fact_def)
  qed
qed (use inv in simp)

lemma alert_step_inv:
  assumes "alert_step d d'" and inv: "alerts_inv d"
  shows "alerts_inv d'"
  using assms(1)
proof cases
  case incident
  then show ?thesis using inv incident_step_grow [OF incident]
    by (fastforce simp: alerts_inv_def incidents_grow_def notification_tables_kept_def)
next
  case (alerted e v uuid r)
  then show ?thesis using alerted_inv [OF inv] by blast
qed

lemma alert_steps_inv: "alert_step\<^sup>*\<^sup>* d d' \<Longrightarrow> alerts_inv d \<Longrightarrow> alerts_inv d'"
  by (induction rule: rtranclp_induct) (auto dest: alert_step_inv)

section \<open>Suppression\<close>

text \<open>The routing query asks for exactly the windows that apply at the time of the event.\<close>

lemma window_matches_applies:
  assumes "scan_window w = Inr v"
  shows "window_matches org mon at w \<longleftrightarrow> nwOrganizationID w = org \<and> nwMonitorID w = mon \<and> row_applies w at"
proof -
  have "restore_window (nwID w) \<lparr>scopeOrganizationID = nwOrganizationID w, scopeMonitorID = nwMonitorID w\<rparr>
     (to_utc (nwStartsAt w)) (to_utc (nwEndsAt w)) (to_utc (nwCreatedAt w)) (map_option to_utc (nwCancelledAt w)) (nwXmin w) = Inr v"
    using assms by (auto simp: scan_window_def row_window_def split: if_splits sum.splits)
  then have "\<not> after (nwCreatedAt w) (nwStartsAt w)" by (auto simp: restore_window_def after_def split: if_splits)
  then show ?thesis by (auto simp: window_matches_def row_applies_def before_def after_def split: option.splits)
qed

definition window_applies :: "db \<Rightarrow> string \<Rightarrow> string \<Rightarrow> go_time \<Rightarrow> bool" where
  "window_applies d org mon at \<longleftrightarrow> list_ex (\<lambda>w. case scan_window w of Inl _ \<Rightarrow> False
     | Inr v \<Rightarrow> mwOrganizationID v = org \<and> mwMonitorID v = mon \<and> applies_at v at) (dbWindows d)"

definition windows_readable :: "db \<Rightarrow> bool" where
  "windows_readable d \<longleftrightarrow> list_all (\<lambda>w. is_ok (scan_window w)) (dbWindows d)"

lemma matching_window_iff:
  assumes ok: "windows_readable d" and t: "\<not> is_zero (db_instant at)"
  shows "matching_window d org mon at \<noteq> None \<longleftrightarrow> window_applies d org mon (db_instant at)"
proof -
  have u: "is_utc_location (db_instant at)" using t by (simp add: is_utc_location_def)
  have "window_matches org mon (db_instant at) w \<longleftrightarrow> (case scan_window w of Inl _ \<Rightarrow> False
     | Inr v \<Rightarrow> mwOrganizationID v = org \<and> mwMonitorID v = mon \<and> applies_at v (db_instant at))"
    if w: "w \<in> set (dbWindows d)" for w
  proof -
    obtain v where v: "scan_window w = Inr v" using ok w by (auto simp: windows_readable_def list_all_iff is_ok_iff)
    then show ?thesis using window_matches_applies [OF v] scan_applies [OF v] scan_window_Inr [OF v] u by auto
  qed
  then have "window_applies d org mon (db_instant at) \<longleftrightarrow> filter (window_matches org mon (db_instant at)) (dbWindows d) \<noteq> []"
    by (auto simp: window_applies_def list_ex_iff filter_empty_conv)
  moreover have "matching_window d org mon at \<noteq> None \<longleftrightarrow> filter (window_matches org mon (db_instant at)) (dbWindows d) \<noteq> []"
  proof -
    have "matching_window d org mon at = None \<longleftrightarrow> sort_key (\<lambda>w. (nanos (nwStartsAt w), nwID w))
        (filter (window_matches org mon (db_instant at)) (dbWindows d)) = []"
      by (simp add: matching_window_def split: list.split)
    also have "\<dots> \<longleftrightarrow> filter (window_matches org mon (db_instant at)) (dbWindows d) = []"
      by (metis length_0_conv length_sort)
    finally show ?thesis by simp
  qed
  ultimately show ?thesis by simp
qed

section \<open>An Alert during maintenance\<close>

text \<open>
  An opened Incident of a Monitor under maintenance, in an Organization with one enabled and one
  disabled Integration, and the database after its Alert was projected.
\<close>

definition sample_integration :: "string \<Rightarrow> bool \<Rightarrow> integration_row" where
  "sample_integration i on = \<lparr>giID = i, giOrganizationID = ''org'', giName = i,
     giDestinationURL = ''https://example.com/hook'', giEnabled = on, giVersion = 1, giActiveSecretVersion = 1,
     giCreatedAt = sample_time, giUpdatedAt = sample_time\<rparr>"

definition sample_secret :: "string \<Rightarrow> int \<Rightarrow> secret_state \<Rightarrow> secret_row" where
  "sample_secret i n st = \<lparr>gsOrganizationID = ''org'', gsIntegrationID = i, gsVersion = n, gsState = st,
     gsEnvelope = Some \<lparr>envKeyID = ''k'', envNonce = ''nonce'', envCiphertext = ''secret''\<rparr>,
     gsCreatedAt = sample_time, gsActivatedAt = Some sample_time, gsRetiredAt = None\<rparr>"

definition alert_db :: db where
  "alert_db = sample_db\<lparr>
     dbIncidents := [\<lparr>iwID = ''inc'', iwOrganizationID = ''org'', iwMonitorID = ''mon'', iwState = IncidentOpen,
       iwVersion = 1, iwOpenedTransitionID = ''t'', iwAcknowledged = None, iwResolved = None,
       iwCreatedAt = window_time 5, iwUpdatedAt = window_time 5\<rparr>],
     dbTimeline := [\<lparr>lwID = ''l'', lwOrganizationID = ''org'', lwIncidentID = ''inc'', lwIncidentVersion = 1,
       lwKind = TimelineOpened, lwTransitionID = Some ''t'', lwActorUserID = None, lwOldState = Some ''degraded'',
       lwNewState = Some ''down'', lwPolicyVersion = Some HealthPolicyVersion, lwCausalRun = None, lwCounts = None,
       lwOccurredAt = window_time 5\<rparr>],
     dbWindows := [\<lparr>nwID = ''w'', nwOrganizationID = ''org'', nwMonitorID = ''mon'', nwStartsAt = window_time 0,
       nwEndsAt = window_time 60, nwCreatedAt = window_time 0, nwCancelledAt = None, nwXmin = 0\<rparr>],
     dbIntegrations := [sample_integration ''g1'' True, sample_integration ''g2'' False],
     dbSecrets := [sample_secret ''g1'' 1 SecretActive, sample_secret ''g2'' 1 SecretActive]\<rparr>"

definition sample_incident_event :: incident_transitioned where
  "sample_incident_event = \<lparr>itEventID = ''ev'', itOrganizationID = ''org'', itOccurredAt = window_time 5,
     itAggregateType = ''incident'', itAggregateID = ''inc'', itAggregateVersion = 1, itCausationID = ''x'',
     itIncidentID = ''inc'', itMonitorID = ''mon'', itTransition = ''opened''\<rparr>"

definition sample_alert :: alert where
  "sample_alert = alert_of sample_incident_event KindIncidentOpened ''a'' (window_time 6)"

definition alerted_db :: db where
  "alerted_db = snd (project_incident_transition alert_db sample_incident_event sample_alert (\<lambda>n. Inr (''d'' @ nat_dec n)))"

lemma alerted_db_eq: "project_incident_transition alert_db sample_incident_event sample_alert (\<lambda>n. Inr (''d'' @ nat_dec n))
    = (fst (project_incident_transition alert_db sample_incident_event sample_alert (\<lambda>n. Inr (''d'' @ nat_dec n))), alerted_db)"
  by (simp add: alerted_db_def)

section \<open>Properties\<close>

text \<open>
  Every Alert of a reachable database repeats an opened or resolved entry of its Incident's
  timeline, with the same version, kind and instant, and no entry has two Alerts: acknowledgements
  raise none and redelivered or reordered events raise no second one.
\<close>

theorem alerts_mirror_timelines:
  assumes "alert_step\<^sup>*\<^sup>* d0 d" and "dbAlerts d0 = []" and "a \<in> set (dbAlerts d)"
  shows "(\<exists>l \<in> set (dbTimeline d). mirrors a l)
    \<and> length (filter (same_fact a) (dbAlerts d)) = 1"
proof -
  have "alerts_inv d" using alert_steps_inv [OF assms(1)] assms(2) by (simp add: alerts_inv_def)
  moreover have "length (filter (same_fact a) as) = 1"
    if "unique_on (\<lambda>a. Some (awOrganizationID a, awIncidentID a, awIncidentVersion a)) as" "a \<in> set as" for as
    using that
  proof (induction as)
    case (Cons b as)
    then show ?case by (cases "same_fact a b") (auto simp: same_fact_def filter_empty_conv)
  qed simp
  ultimately show ?thesis using assms(3) by (simp add: alerts_inv_def)
qed

text \<open>
  C13. Routing and suppression: a projection that stores an Alert stores one delivery per enabled
  Integration of the Organization, with the version and active secret version of the Integration
  at that time; the deliveries are suppressed, and then complete without an attempt, exactly when a
  maintenance window of the Monitor applies at the instant of the event.
\<close>

theorem deliveries_suppressed_by_windows:
  assumes "project_incident_transition d e v uuid = (r, d')" and "d' \<noteq> d"
    and "windows_readable d" and "\<not> is_zero (db_instant (alOccurredAt v))"
  shows "\<exists>vs. dbDeliveries d' = dbDeliveries d @ vs
    \<and> map (\<lambda>x. (vwIntegrationID x, vwIntegrationVersion x, vwSecretVersion x)) vs
      = map (\<lambda>g. (giID g, giVersion g, giActiveSecretVersion g)) (route_targets d (alOrganizationID v))
    \<and> list_all (\<lambda>x. vwAlertID x = alID v \<and> vwAttemptCount x = 0
        \<and> (vwCompletedAt x \<noteq> None \<longleftrightarrow> vwSuppressionReason x \<noteq> None)
        \<and> (vwSuppressionReason x = Some SuppressionReasonMaintenance \<longleftrightarrow>
           window_applies d (alOrganizationID v) (alMonitorID v) (db_instant (alOccurredAt v)))) vs"
proof -
  let ?w = "matching_window d (alOrganizationID v) (alMonitorID v) (alOccurredAt v)"
  obtain vs where vs: "dbDeliveries d' = dbDeliveries d @ vs"
    and l2: "list_all2 (\<lambda>x g. \<exists>i. x = route_row v ?w i g) vs (route_targets d (alOrganizationID v))"
    using assms(1,2) by (rule project_alert_changed) auto
  have "map (\<lambda>x. (vwIntegrationID x, vwIntegrationVersion x, vwSecretVersion x)) vs
      = map (\<lambda>g. (giID g, giVersion g, giActiveSecretVersion g)) (route_targets d (alOrganizationID v))"
    using l2 by (induction rule: list_all2_induct) (auto simp: route_row_def)
  moreover have "list_all (\<lambda>x. vwAlertID x = alID v \<and> vwAttemptCount x = 0
        \<and> (vwCompletedAt x \<noteq> None \<longleftrightarrow> vwSuppressionReason x \<noteq> None)
        \<and> (vwSuppressionReason x = Some SuppressionReasonMaintenance \<longleftrightarrow> ?w \<noteq> None)) vs"
    using l2 by (induction rule: list_all2_induct) (auto simp: route_row_def split: option.splits)
  ultimately show ?thesis using vs matching_window_iff [OF assms(3,4), of "alOrganizationID v" "alMonitorID v"] by auto
qed
lemma alerted_once: "length (dbAlerts alerted_db) = 1" by code_simp

theorem alerts_mirror_timelines_witness:
  "\<exists>a. dbAlerts alerted_db = [a] \<and> list_ex (mirrors a) (dbTimeline alerted_db)"
proof -
  obtain a where a: "dbAlerts alerted_db = [a]" using alerted_once by (auto simp: length_Suc_conv)
  have "alert_step\<^sup>*\<^sup>* alert_db alerted_db" by (rule r_into_rtranclp, rule alert_step.alerted [OF alerted_db_eq])
  then have "\<exists>l \<in> set (dbTimeline alerted_db). mirrors a l"
    using alerts_mirror_timelines [of alert_db alerted_db a] a by (auto simp: alert_db_def sample_db_def)
  then show ?thesis using a by (auto simp: list_ex_iff)
qed

theorem deliveries_suppressed_by_windows_witness:
  "\<exists>x. dbDeliveries alerted_db = [x] \<and> vwIntegrationID x = ''g1'' \<and> vwAttemptCount x = 0
     \<and> vwSuppressionReason x = Some SuppressionReasonMaintenance"
proof -
  have "length (dbAlerts alert_db) = 0" by code_simp
  then have ch: "alerted_db \<noteq> alert_db" using alerted_once by auto
  have ok: "windows_readable alert_db" by code_simp
  have t: "\<not> is_zero (db_instant (alOccurredAt sample_alert))" by code_simp
  have w: "window_applies alert_db (alOrganizationID sample_alert) (alMonitorID sample_alert)
      (db_instant (alOccurredAt sample_alert))" by code_simp
  have n: "dbDeliveries alert_db = []" by code_simp
  have rt: "map (\<lambda>g. (giID g, giVersion g, giActiveSecretVersion g)) (route_targets alert_db (alOrganizationID sample_alert))
      = [(''g1'', 1, 1)]" by code_simp
  obtain vs where vs: "dbDeliveries alerted_db = vs" "map (\<lambda>x. (vwIntegrationID x, vwIntegrationVersion x, vwSecretVersion x)) vs = [(''g1'', 1, 1)]"
    "list_all (\<lambda>x. vwAttemptCount x = 0 \<and> vwSuppressionReason x = Some SuppressionReasonMaintenance) vs"
    using deliveries_suppressed_by_windows [OF alerted_db_eq ch ok t] n rt w by (auto simp: list_all_iff)
  then show ?thesis by (auto simp: map_eq_Cons_conv)
qed

end
