(* ===== verification/Text.thy ===== *)
theory Text
  imports Prelude
begin

text \<open>
  Go strings as sequences of bytes: the decoding of UTF-8 that \<open>range\<close> over a string performs,
  \<open>strings.TrimSpace\<close>, the length in UTF-16 code units, and the normalisation of names that several
  packages share. The lemmas show that decoding loses no byte and that a normalised name is
  normalised to itself.
\<close>

section \<open>Runes\<close>

definition byte :: "char \<Rightarrow> int" where "byte c = int (of_char c)"

definition RuneError :: int where "RuneError = 65533"

text \<open>Whether the first bytes are continuation bytes; the first of them within the given bounds.\<close>

fun continues :: "nat \<Rightarrow> int \<Rightarrow> int \<Rightarrow> string \<Rightarrow> bool" where
  "continues 0 lo hi cs = True"
| "continues (Suc n) lo hi [] = False"
| "continues (Suc n) lo hi (c # cs) = (lo \<le> byte c \<and> byte c \<le> hi \<and> continues n 128 191 cs)"

fun low_bits :: "nat \<Rightarrow> int \<Rightarrow> string \<Rightarrow> int" where
  "low_bits 0 acc cs = acc"
| "low_bits (Suc n) acc [] = acc"
| "low_bits (Suc n) acc (c # cs) = low_bits n (acc * 64 + (byte c - 128)) cs"

text \<open>
  The shape a first byte calls for: how many bytes follow it, the bounds of the second byte, and
  what is taken off the first byte to leave its bits of the code point.
\<close>

definition sequence_shape :: "int \<Rightarrow> (nat \<times> int \<times> int \<times> int) option" where
  "sequence_shape b =
     (if b < 128 then Some (0, 0, 0, 0)
      else if 194 \<le> b \<and> b \<le> 223 then Some (1, 128, 191, 192)
      else if b = 224 then Some (2, 160, 191, 224)
      else if b = 237 then Some (2, 128, 159, 224)
      else if 225 \<le> b \<and> b \<le> 239 then Some (2, 128, 191, 224)
      else if b = 240 then Some (3, 144, 191, 240)
      else if b = 244 then Some (3, 128, 143, 240)
      else if 241 \<le> b \<and> b \<le> 243 then Some (3, 128, 191, 240)
      else None)"

text \<open>The rune that starts with a byte and how many further bytes it takes.\<close>

definition decode_rune :: "char \<Rightarrow> string \<Rightarrow> int \<times> nat" where
  "decode_rune c cs =
     (case sequence_shape (byte c) of
        None \<Rightarrow> (RuneError, 0)
      | Some (n, lo, hi, base) \<Rightarrow>
          if continues n lo hi cs then (low_bits n (byte c - base) cs, n) else (RuneError, 0))"

text \<open>What \<open>for range\<close> goes through: each rune with the bytes it was decoded from.\<close>

fun pieces :: "string \<Rightarrow> (int \<times> string) list" where
  "pieces [] = []"
| "pieces (c # cs) =
     (fst (decode_rune c cs), c # take (snd (decode_rune c cs)) cs) # pieces (drop (snd (decode_rune c cs)) cs)"

definition runes :: "string \<Rightarrow> int list" where
  "runes s = map fst (pieces s)"

definition is_space :: "int \<Rightarrow> bool" where
  "is_space r \<longleftrightarrow> (9 \<le> r \<and> r \<le> 13) \<or> r \<in> {32, 133, 160, 5760, 8232, 8233, 8239, 8287, 12288}
     \<or> (8192 \<le> r \<and> r \<le> 8202)"

text \<open>\<open>strings.TrimSpace\<close>.\<close>

definition trim_pieces :: "(int \<times> string) list \<Rightarrow> (int \<times> string) list" where
  "trim_pieces ps = rev (dropWhile (is_space \<circ> fst) (rev (dropWhile (is_space \<circ> fst) ps)))"

definition bytes_of :: "(int \<times> string) list \<Rightarrow> string" where
  "bytes_of ps = concat (map snd ps)"

definition trim_space :: "string \<Rightarrow> string" where
  "trim_space s = bytes_of (trim_pieces (pieces s))"

text \<open>The sum of \<open>utf16.RuneLen\<close> over the runes of a string.\<close>

definition utf16_length :: "string \<Rightarrow> nat" where
  "utf16_length s = sum_list (map (\<lambda>r. if r < 65536 then 1 else 2) (runes s))"

text \<open>A name is 1 to 100 UTF-16 code units after trimming.\<close>

definition normalize_label :: "string \<Rightarrow> string option" where
  "normalize_label candidate =
     (let normalized = trim_space candidate
      in if 1 \<le> utf16_length normalized \<and> utf16_length normalized \<le> 100 then Some normalized else None)"

section \<open>URLs, hosts and lower case\<close>

text \<open>What the program reads of the result of \<open>url.Parse\<close>.\<close>

record go_url =
  urlScheme :: string
  urlOpaque :: string
  urlHasUser :: bool
  urlHost :: string
  urlHostname :: string
  urlPort :: string
  urlForceQuery :: bool
  urlRawQuery :: string
  urlFragment :: string

definition trim_suffix_dot :: "string \<Rightarrow> string" where
  "trim_suffix_dot s = (if s \<noteq> [] \<and> last s = CHR ''.'' then butlast s else s)"

text \<open>\<open>strconv.ParseUint\<close> in base ten for a number of so many bits.\<close>

definition parse_uint :: "nat \<Rightarrow> string \<Rightarrow> int option" where
  "parse_uint bits p =
     (let v = foldl (\<lambda>n c. n * 10 + (byte c - 48)) 0 p
      in if p = '''' \<or> list_ex (\<lambda>c. byte c < 48 \<or> 57 < byte c) p \<or> 2 ^ bits \<le> v then None else Some v)"

definition parse_port :: "string \<Rightarrow> int option" where
  "parse_port p = parse_uint 16 p"

text \<open>\<open>strings.Split\<close> at a byte and \<open>strings.Cut\<close> at the first such byte.\<close>

fun split_on :: "char \<Rightarrow> string \<Rightarrow> string list" where
  "split_on sep [] = [[]]"
| "split_on sep (c # cs) =
     (if c = sep then [] # split_on sep cs
      else case split_on sep cs of [] \<Rightarrow> [[c]] | l # ls \<Rightarrow> (c # l) # ls)"

definition cut_at :: "char \<Rightarrow> string \<Rightarrow> (string \<times> string) option" where
  "cut_at sep s = (if sep \<in> set s then Some (takeWhile (\<lambda>c. c \<noteq> sep) s, tl (dropWhile (\<lambda>c. c \<noteq> sep) s)) else None)"

text \<open>\<open>unicode.IsControl\<close>.\<close>

definition is_control :: "int \<Rightarrow> bool" where
  "is_control r \<longleftrightarrow> (0 \<le> r \<and> r < 32) \<or> (127 \<le> r \<and> r < 160)"

text \<open>The UTF-8 encoding of a rune; what is no code point is encoded as the replacement character.\<close>

definition encode_rune :: "int \<Rightarrow> string" where
  "encode_rune r =
     (let c = (if r < 0 \<or> 1114111 < r \<or> (55296 \<le> r \<and> r \<le> 57343) then RuneError else r)
      in map (\<lambda>b. char_of (nat b))
        (if c < 128 then [c]
         else if c < 2048 then [192 + c div 64, 128 + c mod 64]
         else if c < 65536 then [224 + c div 4096, 128 + c div 64 mod 64, 128 + c mod 64]
         else [240 + c div 262144, 128 + c div 4096 mod 64, 128 + c div 64 mod 64, 128 + c mod 64]))"

text \<open>\<open>strings.ToLower\<close>; \<open>low\<close> is \<open>unicode.ToLower\<close> beyond ASCII.\<close>

definition lower_with :: "(int \<Rightarrow> int) \<Rightarrow> int \<Rightarrow> int" where
  "lower_with low r = (if r < 128 then (if 65 \<le> r \<and> r \<le> 90 then r + 32 else r) else low r)"

definition to_lower :: "(int \<Rightarrow> int) \<Rightarrow> string \<Rightarrow> string" where
  "to_lower low s = concat (map (\<lambda>r. encode_rune (lower_with low r)) (runes s))"

section \<open>Decoding loses nothing\<close>

lemma bytes_of_simps [simp]:
  "bytes_of [] = []" "bytes_of (p # ps) = snd p @ bytes_of ps" "bytes_of (ps @ qs) = bytes_of ps @ bytes_of qs"
  by (simp_all add: bytes_of_def)

lemma bytes_of_pieces [simp]: "bytes_of (pieces s) = s"
  by (induction s rule: pieces.induct) simp_all

lemma continues_mono: "continues n lo hi cs \<Longrightarrow> continues n lo hi (cs @ ds)"
  by (induction n lo hi cs rule: continues.induct) auto

lemma continues_length: "continues n lo hi cs \<Longrightarrow> n \<le> length cs"
  by (induction n lo hi cs rule: continues.induct) auto

lemma continues_take: "n \<le> length cs \<Longrightarrow> continues n lo hi (cs @ ds) = continues n lo hi cs"
  by (induction n lo hi cs rule: continues.induct) auto

lemma low_bits_append: "n \<le> length cs \<Longrightarrow> low_bits n a (cs @ ds) = low_bits n a cs"
  by (induction n a cs rule: low_bits.induct) auto

text \<open>A rune is decoded from its own bytes and from what rules it out; less input changes neither.\<close>

lemma decode_rune_prefix:
  assumes "snd (decode_rune c (cs @ ds)) \<le> length cs"
  shows "decode_rune c cs = decode_rune c (cs @ ds)"
proof (cases "sequence_shape (byte c)")
  case None
  then show ?thesis by (simp add: decode_rune_def)
next
  case (Some q)
  obtain n lo hi base where q: "q = (n, lo, hi, base)" by (metis prod.collapse)
  show ?thesis
  proof (cases "continues n lo hi (cs @ ds)")
    case True
    then have "n \<le> length cs" using assms Some q by (simp add: decode_rune_def)
    then show ?thesis using True Some q by (simp add: decode_rune_def continues_take low_bits_append)
  next
    case False
    then have "\<not> continues n lo hi cs" using continues_mono by blast
    then show ?thesis using False Some q by (simp add: decode_rune_def)
  qed
qed

lemma pieces_prefix:
  "pieces s = ps @ qs \<Longrightarrow> pieces (bytes_of ps) = ps"
proof (induction s arbitrary: ps qs rule: pieces.induct)
  case (2 c cs)
  let ?k = "snd (decode_rune c cs)"
  show ?case
  proof (cases ps)
    case (Cons p ps')
    then have p: "p = (fst (decode_rune c cs), c # take ?k cs)"
      and rest: "pieces (drop ?k cs) = ps' @ qs" using "2.prems" by auto
    note IH = "2.IH" [OF rest]
    have k: "?k \<le> length cs"
      by (auto simp: decode_rune_def split: option.splits dest: continues_length)
    let ?bs = "take ?k cs @ bytes_of ps'"
    have "bytes_of (ps' @ qs) = drop ?k cs" using bytes_of_pieces [of "drop ?k cs"] rest by simp
    then have cs: "cs = ?bs @ bytes_of qs" by (metis append.assoc append_take_drop_id bytes_of_simps(3))
    have "snd (decode_rune c (?bs @ bytes_of qs)) \<le> length ?bs" using cs k by simp
    then have d: "decode_rune c ?bs = decode_rune c cs" using decode_rune_prefix cs by metis
    have lk: "length (take ?k cs) = ?k" using k by simp
    show ?thesis using Cons p IH d lk by simp
  qed simp
qed simp

lemma pieces_suffix:
  "pieces s = ps @ qs \<Longrightarrow> pieces (bytes_of qs) = qs"
proof (induction s arbitrary: ps qs rule: pieces.induct)
  case (2 c cs)
  show ?case
  proof (cases ps)
    case Nil
    then show ?thesis using "2.prems" bytes_of_pieces [of "c # cs"] by simp
  next
    case (Cons p ps')
    then show ?thesis using "2.prems" "2.IH" by auto
  qed
qed simp

lemma trim_pieces_infix: "\<exists>as bs. ps = as @ trim_pieces ps @ bs"
proof -
  let ?d = "dropWhile (is_space \<circ> fst) ps"
  have "ps = takeWhile (is_space \<circ> fst) ps @ ?d" by simp
  moreover have "?d = trim_pieces ps @ rev (takeWhile (is_space \<circ> fst) (rev ?d))"
    unfolding trim_pieces_def by (metis rev_append rev_rev_ident takeWhile_dropWhile_id)
  ultimately show ?thesis by metis
qed

lemma pieces_trim: "pieces (trim_space s) = trim_pieces (pieces s)"
proof -
  obtain as bs where s: "pieces s = as @ trim_pieces (pieces s) @ bs" using trim_pieces_infix by metis
  then have "pieces (bytes_of (trim_pieces (pieces s) @ bs)) = trim_pieces (pieces s) @ bs" by (rule pieces_suffix)
  then show ?thesis unfolding trim_space_def by (rule pieces_prefix)
qed

lemma dropWhile_rev_dropWhile:
  "dropWhile p (rev (dropWhile p (rev (dropWhile p xs)))) = rev (dropWhile p (rev (dropWhile p xs)))"
proof (cases "rev (dropWhile p (rev (dropWhile p xs)))")
  case (Cons y ys)
  let ?d = "dropWhile p xs"
  have "?d = rev (dropWhile p (rev ?d)) @ rev (takeWhile p (rev ?d))"
    by (metis rev_append rev_rev_ident takeWhile_dropWhile_id)
  then have "?d \<noteq> []" "hd ?d = y" using Cons by (metis append_Cons list.distinct(1), metis append_Cons list.sel(1))
  then have "\<not> p y" using hd_dropWhile [of p xs] by metis
  then show ?thesis using Cons by simp
next
  case Nil
  show ?thesis unfolding Nil by simp
qed

lemma trim_pieces_twice [simp]: "trim_pieces (trim_pieces ps) = trim_pieces ps"
proof -
  let ?p = "is_space \<circ> fst"
  have "dropWhile ?p (dropWhile ?p (rev (dropWhile ?p ps))) = dropWhile ?p (rev (dropWhile ?p ps))"
    by (rule dropWhile_idem)
  then show ?thesis unfolding trim_pieces_def dropWhile_rev_dropWhile by (simp add: rev_swap)
qed

lemma trim_space_twice [simp]: "trim_space (trim_space s) = trim_space s"
  by (simp add: trim_space_def [of "trim_space s"] pieces_trim) (simp add: trim_space_def)

lemma normalize_label_twice: "normalize_label s = Some n \<Longrightarrow> normalize_label n = Some n"
  by (auto simp: normalize_label_def Let_def split: if_splits)

section \<open>ASCII\<close>

lemma byte_less: "0 \<le> byte c \<and> byte c < 256"
  by (cases c) (simp add: byte_def of_char_def horner_sum_simps split: if_splits)

lemma char_of_byte [simp]: "char_of (nat (byte c)) = c"
  by (simp add: byte_def)

lemma runes_ascii: "\<forall>c\<in>set s. byte c < 128 \<Longrightarrow> runes s = map byte s"
  by (induction s rule: pieces.induct) (simp_all add: runes_def decode_rune_def sequence_shape_def)

lemma encode_ascii [simp]: "byte c < 128 \<Longrightarrow> encode_rune (byte c) = [c]"
  using byte_less [of c] by (simp add: encode_rune_def)

text \<open>An ASCII text without capital letters is its own lower case.\<close>

lemma to_lower_id: "\<forall>c\<in>set s. byte c < 128 \<and> \<not> (65 \<le> byte c \<and> byte c \<le> 90) \<Longrightarrow> to_lower low s = s"
proof -
  assume a: "\<forall>c\<in>set s. byte c < 128 \<and> \<not> (65 \<le> byte c \<and> byte c \<le> 90)"
  have "concat (map (\<lambda>c. encode_rune (lower_with low (byte c))) s) = s"
    using a by (induction s) (auto simp: lower_with_def)
  then show ?thesis using a by (simp add: to_lower_def runes_ascii comp_def)
qed

section \<open>Numbers and separators\<close>

lemma digit_byte [simp]: "d < 10 \<Longrightarrow> byte (digit_char d) = 48 + int d"
  by (simp add: byte_def digit_char_def)

lemma nat_dec_digits: "c \<in> set (nat_dec n) \<Longrightarrow> 48 \<le> byte c \<and> byte c \<le> 57"
  by (induction n rule: nat_dec.induct) (subst (asm) (2) nat_dec.simps, auto split: if_splits)

lemma nat_dec_not_Nil [simp]: "nat_dec n \<noteq> []"
  by (subst nat_dec.simps) simp

lemma nat_dec_length: "0 < k \<Longrightarrow> n < 10 ^ k \<Longrightarrow> length (nat_dec n) \<le> k"
proof (induction k arbitrary: n)
  case (Suc k)
  show ?case
  proof (cases "n < 10")
    case True
    then show ?thesis by (subst nat_dec.simps) simp
  next
    case False
    have "0 < k" using Suc.prems False by (cases k) auto
    moreover have "n div 10 < 10 ^ k" using Suc.prems by (simp add: less_mult_imp_div_less)
    ultimately have "length (nat_dec (n div 10)) \<le> k" by (rule Suc.IH)
    then show ?thesis using False by (subst nat_dec.simps) simp
  qed
qed simp

lemma nat_dec_value: "foldl (\<lambda>n c. n * 10 + (byte c - 48)) 0 (nat_dec n) = int n"
  by (induction n rule: nat_dec.induct) (subst nat_dec.simps, auto simp: zdiv_int zmod_int)

text \<open>A number that fits reads back from its decimal form.\<close>

lemma parse_uint_dec: "int n < 2 ^ bits \<Longrightarrow> parse_uint bits (nat_dec n) = Some (int n)"
  using nat_dec_digits [of _ n] by (fastforce simp: parse_uint_def nat_dec_value list_ex_iff)

lemma parse_port_dec: "n \<le> 65535 \<Longrightarrow> parse_port (nat_dec n) = Some (int n)"
  by (simp add: parse_port_def parse_uint_dec)

lemma split_on_free: "sep \<notin> set s \<Longrightarrow> split_on sep s = [s]"
  by (induction s) auto

lemma split_on_append: "sep \<notin> set s \<Longrightarrow> split_on sep (s @ sep # t) = s # split_on sep t"
  by (induction s) auto

end
