(* ===== verification/Keyring.thy ===== *)
theory Keyring
  imports Database Text
begin

text \<open>
  Models \<open>internal/webhook/keyring.go\<close>: the keyring that encrypts Webhook signing secrets. AES-GCM and
  base64 are parameters, of which the lemmas assume that what is sealed opens again. They show that
  every keyring that can be configured opens what it sealed, also after its keys were rotated.
\<close>

section \<open>Parameters\<close>

text \<open>
  \<open>sealWith\<close> and \<open>openWith\<close> are the AEAD on key, nonce, text and associated data; \<open>decode64\<close> and
  \<open>encode64\<close> are \<open>base64.RawURLEncoding\<close>.
\<close>

record crypto =
  sealWith :: "string \<Rightarrow> string \<Rightarrow> string \<Rightarrow> string \<Rightarrow> string"
  openWith :: "string \<Rightarrow> string \<Rightarrow> string \<Rightarrow> string \<Rightarrow> string option"
  decode64 :: "string \<Rightarrow> string option"
  encode64 :: "string \<Rightarrow> string"

definition nonce_size :: nat where "nonce_size = 12"
definition tag_overhead :: nat where "tag_overhead = 16"

definition seals :: "crypto \<Rightarrow> bool" where
  "seals cr \<longleftrightarrow> (\<forall>key nonce text ad. openWith cr key nonce (sealWith cr key nonce text ad) ad = Some text
     \<and> length (sealWith cr key nonce text ad) = length text + tag_overhead)"

section \<open>The keyring\<close>

definition WrappingKeySize :: nat where "WrappingKeySize = 32"

record wrapping_key =
  wkID :: string
  wkKey :: string

record keyring =
  krActive :: string
  krKeys :: "string \<rightharpoonup> string"

definition key_char_ok :: "nat \<Rightarrow> char \<Rightarrow> bool" where
  "key_char_ok i c \<longleftrightarrow> (97 \<le> byte c \<and> byte c \<le> 122) \<or> (48 \<le> byte c \<and> byte c \<le> 57)
     \<or> (0 < i \<and> c \<in> {CHR ''-'', CHR ''_'', CHR ''.''})"

definition valid_key_id :: "string \<Rightarrow> bool" where
  "valid_key_id v \<longleftrightarrow> 1 \<le> length v \<and> length v \<le> 32
     \<and> list_all (\<lambda>i. key_char_ok i (v ! i)) [0..<length v]"

fun add_keys :: "wrapping_key list \<Rightarrow> (string \<rightharpoonup> string) \<Rightarrow> (string \<rightharpoonup> string) result" where
  "add_keys [] keys = Inr keys"
| "add_keys (e # es) keys =
     (if \<not> valid_key_id (wkID e) then Inl (ErrText ''invalid Webhook wrapping-key id'')
      else if length (wkKey e) \<noteq> WrappingKeySize then Inl (ErrText ''Webhook wrapping key must contain 32 bytes'')
      else if keys (wkID e) \<noteq> None then Inl (ErrText ''duplicate Webhook wrapping-key id'')
      else add_keys es (keys(wkID e \<mapsto> wkKey e)))"

definition new_keyring :: "wrapping_key list \<Rightarrow> keyring result" where
  "new_keyring es =
     (case es of
        [] \<Rightarrow> Inl (ErrText ''a Webhook keyring requires at least one key'')
      | e # _ \<Rightarrow> and_then (add_keys es Map.empty) (\<lambda>keys. Inr \<lparr>krActive = wkID e, krKeys = keys\<rparr>))"

definition parse_entry :: "crypto \<Rightarrow> string \<Rightarrow> wrapping_key result" where
  "parse_entry cr entry =
     (let malformed = ErrText ''PROBEHIVE_WEBHOOK_KEYRING entries must be keyId:base64url'' in
      case cut_at (CHR '':'') entry of
        None \<Rightarrow> Inl malformed
      | Some (i, encoded) \<Rightarrow>
          if \<not> valid_key_id i \<or> encoded = '''' then Inl malformed
          else case decode64 cr encoded of
            None \<Rightarrow> Inl (ErrText ''PROBEHIVE_WEBHOOK_KEYRING key must be 32 unpadded base64url bytes'')
          | Some key \<Rightarrow>
              if length key \<noteq> WrappingKeySize then
                Inl (ErrText ''PROBEHIVE_WEBHOOK_KEYRING key must be 32 unpadded base64url bytes'')
              else Inr \<lparr>wkID = i, wkKey = key\<rparr>)"

fun parse_entries :: "crypto \<Rightarrow> string list \<Rightarrow> wrapping_key list result" where
  "parse_entries cr [] = Inr []"
| "parse_entries cr (e # es) =
     and_then (parse_entry cr e) (\<lambda>k. and_then (parse_entries cr es) (\<lambda>ks. Inr (k # ks)))"

text \<open>\<open>ParseKeyring\<close>: \<open>None\<close> when nothing is configured.\<close>

definition parse_keyring :: "crypto \<Rightarrow> string \<Rightarrow> keyring option result" where
  "parse_keyring cr value =
     (if trim_space value = '''' then Inr None
      else and_then (parse_entries cr (split_on (CHR '','') value)) (\<lambda>ks.
        and_then (new_keyring ks) (\<lambda>kr. Inr (Some kr))))"

definition active_key_id :: "keyring option \<Rightarrow> string" where
  "active_key_id kr = (case kr of None \<Rightarrow> '''' | Some k \<Rightarrow> krActive k)"

text \<open>\<open>aes.NewCipher\<close> accepts keys of 16, 24 and 32 bytes; a missing map entry is the empty key.\<close>

definition cipher_key :: "string option \<Rightarrow> string result" where
  "cipher_key key = (let k = (case key of None \<Rightarrow> '''' | Some k \<Rightarrow> k)
     in if length k \<in> {16, 24, 32} then Inr k else Inl (ErrText ''crypto/aes: invalid key size''))"

definition keyring_seal :: "crypto \<Rightarrow> keyring option \<Rightarrow> string \<Rightarrow> string \<Rightarrow> string result \<Rightarrow> envelope result" where
  "keyring_seal cr kr plaintext ad random =
     (case kr of
        None \<Rightarrow> Inl (ErrIs KeyringUnavailable)
      | Some k \<Rightarrow> and_then (cipher_key (krKeys k (krActive k))) (\<lambda>key.
          case random of
            Inl e \<Rightarrow> Inl (Wrapped ''generate Webhook secret nonce'' e)
          | Inr nonce \<Rightarrow> Inr \<lparr>envKeyID = krActive k, envNonce = nonce,
              envCiphertext = sealWith cr key nonce plaintext ad\<rparr>))"

definition keyring_open :: "crypto \<Rightarrow> keyring option \<Rightarrow> envelope \<Rightarrow> string \<Rightarrow> string result" where
  "keyring_open cr kr v ad =
     (case kr of
        None \<Rightarrow> Inl (ErrIs KeyringUnavailable)
      | Some k \<Rightarrow>
          case krKeys k (envKeyID v) of
            None \<Rightarrow> Inl (Wrapped ''missing key'' (ErrIs KeyringUnavailable))
          | Some key \<Rightarrow> and_then (cipher_key (Some key)) (\<lambda>key.
              if length (envNonce v) \<noteq> nonce_size \<or> length (envCiphertext v) < tag_overhead then
                Inl (ErrIs SecretAuthentication)
              else case openWith cr key (envNonce v) (envCiphertext v) ad of
                None \<Rightarrow> Inl (ErrIs SecretAuthentication)
              | Some plaintext \<Rightarrow> Inr plaintext))"

section \<open>Sealed secrets open\<close>

definition keyring_ok :: "keyring \<Rightarrow> bool" where
  "keyring_ok k \<longleftrightarrow> krActive k \<in> dom (krKeys k)
     \<and> (\<forall>i key. krKeys k i = Some key \<longrightarrow> length key = WrappingKeySize \<and> valid_key_id i)"

lemma add_keys_content:
  "add_keys es keys = Inr keys' \<Longrightarrow>
     keys' i = Some key \<longleftrightarrow> keys i = Some key \<or> \<lparr>wkID = i, wkKey = key\<rparr> \<in> set es"
proof (induction es keys rule: add_keys.induct)
  case (2 e es keys)
  then have g: "valid_key_id (wkID e)" "length (wkKey e) = WrappingKeySize" "keys (wkID e) = None"
    and a: "add_keys es (keys(wkID e \<mapsto> wkKey e)) = Inr keys'" by (auto split: if_splits)
  have "keys' i = Some key \<longleftrightarrow> (keys(wkID e \<mapsto> wkKey e)) i = Some key \<or> \<lparr>wkID = i, wkKey = key\<rparr> \<in> set es"
    using "2.IH" g a unfolding fun_upd_def by simp
  moreover have "\<lparr>wkID = i, wkKey = key\<rparr> = e \<longleftrightarrow> wkID e = i \<and> wkKey e = key" by (cases e) auto
  ultimately show ?case using g by auto
qed simp

lemma add_keys_valid:
  "add_keys es keys = Inr keys' \<Longrightarrow> e \<in> set es \<Longrightarrow> length (wkKey e) = WrappingKeySize \<and> valid_key_id (wkID e)"
  by (induction es keys rule: add_keys.induct) (auto split: if_splits)

lemma new_keyring_content:
  "new_keyring es = Inr k \<Longrightarrow> krKeys k i = Some key \<longleftrightarrow> \<lparr>wkID = i, wkKey = key\<rparr> \<in> set es"
  using add_keys_content [of es Map.empty]
  by (auto simp: new_keyring_def and_then_Inr split: list.splits)

lemma new_keyring_ok:
  assumes "new_keyring es = Inr k" shows "keyring_ok k"
proof -
  obtain e es' keys where e: "es = e # es'" and a: "add_keys es Map.empty = Inr keys"
    and k: "k = \<lparr>krActive = wkID e, krKeys = keys\<rparr>"
    using assms by (auto simp: new_keyring_def and_then_Inr split: list.splits)
  have "keys (wkID e) = Some (wkKey e)" using add_keys_content [OF a] e by (cases e) simp
  moreover have "length key = WrappingKeySize \<and> valid_key_id i" if "keys i = Some key" for i key
    using add_keys_valid [OF a, of "\<lparr>wkID = i, wkKey = key\<rparr>"] add_keys_content [OF a, of i key] that by simp
  ultimately show ?thesis using k by (auto simp: keyring_ok_def)
qed

lemma seal_open:
  assumes "seals cr" and "keyring_ok k" and "length nonce = nonce_size"
    and "keyring_seal cr (Some k) text ad (Inr nonce) = Inr v"
    and "krKeys k \<subseteq>\<^sub>m krKeys k'"
  shows "keyring_open cr (Some k') v ad = Inr text"
proof -
  obtain key where key: "krKeys k (krActive k) = Some key" "length key = WrappingKeySize"
    using assms(2) by (auto simp: keyring_ok_def)
  have "krKeys k' (krActive k) = Some key" using assms(5) key(1) unfolding map_le_def by (metis domI)
  then show ?thesis using assms(1,3,4) key
    by (auto simp: keyring_seal_def keyring_open_def cipher_key_def and_then_Inr WrappingKeySize_def seals_def)
qed

lemma seal_never_fails:
  "keyring_ok k \<Longrightarrow> \<exists>v. keyring_seal cr (Some k) text ad (Inr nonce) = Inr v \<and> envKeyID v = krActive k
     \<and> envNonce v = nonce"
  by (auto simp: keyring_ok_def keyring_seal_def cipher_key_def and_then_Inr WrappingKeySize_def dom_def)

text \<open>
  A secret sealed by a configured keyring opens with every keyring configured from a list that kept
  its keys, in any order and with any new key in front.
\<close>

lemma sealed_secret_opens:
  assumes "seals cr" and "new_keyring es = Inr k" and "new_keyring es' = Inr k'"
    and "set es \<subseteq> set es'" and "length nonce = nonce_size"
  shows "\<exists>v. keyring_seal cr (Some k) text ad (Inr nonce) = Inr v \<and> keyring_open cr (Some k') v ad = Inr text"
proof -
  obtain v where v: "keyring_seal cr (Some k) text ad (Inr nonce) = Inr v"
    using seal_never_fails [OF new_keyring_ok [OF assms(2)]] by blast
  have "krKeys k \<subseteq>\<^sub>m krKeys k'"
    unfolding map_le_def
  proof
    fix i assume "i \<in> dom (krKeys k)"
    then obtain key where key: "krKeys k i = Some key" by blast
    then have "\<lparr>wkID = i, wkKey = key\<rparr> \<in> set es'" using assms(4) new_keyring_content [OF assms(2), of i key] by blast
    then show "krKeys k i = krKeys k' i" using key new_keyring_content [OF assms(3), of i key] by simp
  qed
  then show ?thesis using seal_open [OF assms(1) new_keyring_ok [OF assms(2)] assms(5) v] v by blast
qed

text \<open>A cipher that hides nothing, for the examples.\<close>

definition plain_crypto :: crypto where
  "plain_crypto = \<lparr>sealWith = \<lambda>key nonce text ad. text @ replicate 16 (CHR ''.''),
     openWith = \<lambda>key nonce text ad. Some (take (length text - 16) text),
     decode64 = \<lambda>s. Some s, encode64 = id\<rparr>"

definition sample_keys :: "wrapping_key list" where
  "sample_keys = [\<lparr>wkID = ''k1'', wkKey = replicate 32 (CHR ''a'')\<rparr>]"

definition rotated_keys :: "wrapping_key list" where
  "rotated_keys = \<lparr>wkID = ''k2'', wkKey = replicate 32 (CHR ''b'')\<rparr> # sample_keys"

definition key_of :: "wrapping_key list \<Rightarrow> keyring" where
  "key_of es = (case new_keyring es of Inl e \<Rightarrow> \<lparr>krActive = '''', krKeys = Map.empty\<rparr> | Inr k \<Rightarrow> k)"

end
