(* ===== verification/WebhookStore.thy ===== *)
theory WebhookStore
  imports AlertStore Keyring
begin

text \<open>
  Models the Webhook Integrations of \<open>internal/postgres/webhook.go\<close>, \<open>webhook_state.go\<close> and
  \<open>webhook_rotation.go\<close> with the use cases of \<open>internal/webhook/state.go\<close> and \<open>rotation.go\<close>:
  creation, the enabled limit and the rotation of signing secrets. The parsers of URLs and IP
  addresses and the encryption of secrets are parameters. The lemmas show that every Integration has
  exactly one active secret and that a secret is only erased when no unfinished delivery needs it.
\<close>

section \<open>Integrations\<close>

record integration =
  igID :: string
  igOrganizationID :: string
  igName :: string
  igDestinationURL :: string
  igEnabled :: bool
  igVersion :: int
  igActiveSecretVersion :: int
  igPendingSecretVersion :: "int option"
  igRetiringSecretVersion :: "int option"
  igCreatedAt :: go_time
  igUpdatedAt :: go_time

record stored_secret =
  ssOrganizationID :: string
  ssIntegrationID :: string
  ssVersion :: int
  ssState :: secret_state
  ssEnvelope :: envelope
  ssCreatedAt :: go_time

section \<open>Names and destinations\<close>

text \<open>
  The parsers the checks call: \<open>parseURL\<close> is \<open>url.Parse\<close>, \<open>None\<close> on an error, \<open>parseAddr\<close> is
  \<open>netip.ParseAddr\<close> with the zone of a valid address.
\<close>

record text_env =
  parseURL :: "string \<Rightarrow> go_url option"
  parseAddr :: "string \<Rightarrow> string option"

definition MaxNameLength :: nat where "MaxNameLength = 100"
definition MaxDestinationBytes :: nat where "MaxDestinationBytes = 2048"

definition normalize_name :: "string \<Rightarrow> string \<times> bool" where
  "normalize_name candidate =
     (let normalized = trim_space candidate
      in (normalized, 1 \<le> utf16_length normalized \<and> utf16_length normalized \<le> MaxNameLength))"

text \<open>
  \<open>strings.ToLower\<close> on one rune, as far as its result is ASCII: besides the capital letters, the
  dotted capital I and the Kelvin sign have ASCII lower cases.
\<close>

definition lower_rune :: "int \<Rightarrow> int" where
  "lower_rune r = (if 65 \<le> r \<and> r \<le> 90 then r + 32 else if r = 304 then 105 else if r = 8490 then 107 else r)"

fun split_at_dots :: "int list \<Rightarrow> int list list" where
  "split_at_dots [] = [[]]"
| "split_at_dots (r # rs) =
     (if r = 46 then [] # split_at_dots rs
      else case split_at_dots rs of [] \<Rightarrow> [[r]] | l # ls \<Rightarrow> (r # l) # ls)"

definition valid_label :: "int list \<Rightarrow> bool" where
  "valid_label l \<longleftrightarrow> 1 \<le> length l \<and> length l \<le> 63 \<and> hd l \<noteq> 45 \<and> last l \<noteq> 45
     \<and> list_all (\<lambda>r. (97 \<le> r \<and> r \<le> 122) \<or> (48 \<le> r \<and> r \<le> 57) \<or> r = 45) l"

definition valid_destination_host :: "text_env \<Rightarrow> string \<Rightarrow> bool" where
  "valid_destination_host te host =
     (let trimmed = trim_suffix_dot host
      in case parseAddr te trimmed of
           Some zn \<Rightarrow> zn = ''''
         | None \<Rightarrow> 1 \<le> length trimmed \<and> length trimmed \<le> 253
             \<and> list_all valid_label (split_at_dots (map lower_rune (runes trimmed))))"

definition normalize_destination_url :: "text_env \<Rightarrow> string \<Rightarrow> string \<times> bool" where
  "normalize_destination_url te candidate =
     (let normalized = trim_space candidate
      in if length normalized < 1 \<or> length normalized > MaxDestinationBytes then ('''', False)
         else case parseURL te normalized of
           None \<Rightarrow> ('''', False)
         | Some u \<Rightarrow>
             if urlScheme u \<noteq> ''https'' \<or> urlHost u = '''' \<or> urlHasUser u \<or> urlRawQuery u \<noteq> '''' \<or> urlForceQuery u
               \<or> urlFragment u \<noteq> '''' \<or> urlOpaque u \<noteq> '''' then ('''', False)
             else if urlHostname u = '''' \<or> CHR ''%'' \<in> set (urlHostname u)
               \<or> \<not> valid_destination_host te (urlHostname u) then ('''', False)
             else if urlPort u \<noteq> '''' \<and> (parse_port (urlPort u) = None \<or> parse_port (urlPort u) = Some 0) then ('''', False)
             else (normalized, True))"

definition new_integration ::
  "text_env \<Rightarrow> string \<Rightarrow> string \<Rightarrow> string \<Rightarrow> string \<Rightarrow> bool \<Rightarrow> int \<Rightarrow> int \<Rightarrow> int option \<Rightarrow> int option \<Rightarrow> go_time \<Rightarrow> go_time
    \<Rightarrow> integration result" where
  "new_integration te i org name url on version active pending retiring created updated =
     (if i = '''' \<or> org = '''' then Inl (ErrText ''a Webhook Integration requires identity'')
      else if normalize_name name \<noteq> (name, True) then Inl (ErrText ''invalid Webhook Integration name'')
      else if normalize_destination_url te url \<noteq> (url, True) then Inl (ErrText ''invalid Webhook destination URL'')
      else if version < 1 \<or> active < 1 then Inl (ErrText ''invalid Webhook Integration version'')
      else if pending \<noteq> None \<and> (pending \<noteq> Some (wrap64 (active + 1)) \<or> retiring \<noteq> None) then
        Inl (ErrText ''invalid pending Webhook signing-secret version'')
      else if retiring \<noteq> None \<and> retiring \<noteq> Some (active - 1) then
        Inl (ErrText ''invalid retiring Webhook signing-secret version'')
      else if \<not> is_utc created \<or> \<not> is_utc updated \<or> before updated created then
        Inl (ErrText ''invalid Webhook Integration timestamps'')
      else Inr \<lparr>igID = i, igOrganizationID = org, igName = name, igDestinationURL = url, igEnabled = on,
        igVersion = version, igActiveSecretVersion = active, igPendingSecretVersion = pending,
        igRetiringSecretVersion = retiring, igCreatedAt = created, igUpdatedAt = updated\<rparr>)"

definition secret_of :: "string \<Rightarrow> string \<Rightarrow> secret_state \<Rightarrow> secret_row \<Rightarrow> bool" where
  "secret_of org i st x \<longleftrightarrow> gsOrganizationID x = org \<and> gsIntegrationID x = i \<and> gsState x = st"

definition secret_version :: "db \<Rightarrow> string \<Rightarrow> string \<Rightarrow> secret_state \<Rightarrow> int option" where
  "secret_version d org i st = map_option gsVersion (find (secret_of org i st) (dbSecrets d))"

definition scan_integration :: "text_env \<Rightarrow> db \<Rightarrow> integration_row \<Rightarrow> integration result" where
  "scan_integration te d g =
     (case new_integration te (giID g) (giOrganizationID g) (giName g) (giDestinationURL g) (giEnabled g) (giVersion g)
        (giActiveSecretVersion g) (secret_version d (giOrganizationID g) (giID g) SecretPending)
        (secret_version d (giOrganizationID g) (giID g) SecretRetiring) (to_utc (giCreatedAt g)) (to_utc (giUpdatedAt g)) of
        Inl e \<Rightarrow> Inl (Wrapped ''restore Webhook Integration'' e)
      | Inr v \<Rightarrow> Inr v)"

definition is_integration :: "string \<Rightarrow> string \<Rightarrow> integration_row \<Rightarrow> bool" where
  "is_integration org i g \<longleftrightarrow> giOrganizationID g = org \<and> giID g = i"

text \<open>\<open>findWebhookIntegrationForUpdate\<close>: \<open>None\<close> for \<open>pgx.ErrNoRows\<close>.\<close>

definition find_for_update :: "text_env \<Rightarrow> db \<Rightarrow> string \<Rightarrow> string \<Rightarrow> integration option result" where
  "find_for_update te d org i =
     (case find (is_integration org i) (dbIntegrations d) of
        None \<Rightarrow> Inr None
      | Some g \<Rightarrow> and_then (scan_integration te d g) (\<lambda>v. Inr (Some v)))"

definition found_integration :: "text_env \<Rightarrow> db \<Rightarrow> string \<Rightarrow> string \<Rightarrow> int \<Rightarrow> integration result" where
  "found_integration te d org i expected =
     and_then (find_for_update te d org i) (\<lambda>found. case found of
        None \<Rightarrow> Inl (ErrIs WebhookNotFound)
      | Some current \<Rightarrow>
          if igVersion current \<noteq> expected then Inl (ErrIs WebhookConcurrentUpdate) else Inr current)"

section \<open>Statements\<close>

text \<open>The constraints of \<open>webhook_integrations\<close> and \<open>webhook_signing_secrets\<close>.\<close>

definition integration_row_ok :: "integration_row \<Rightarrow> bool" where
  "integration_row_ok g \<longleftrightarrow> 1 \<le> giVersion g \<and> 1 \<le> giActiveSecretVersion g
     \<and> \<not> before (giUpdatedAt g) (giCreatedAt g)"

definition secret_row_ok :: "secret_row \<Rightarrow> bool" where
  "secret_row_ok x \<longleftrightarrow> 1 \<le> gsVersion x \<and> (gsState x = SecretRetired \<longleftrightarrow> gsEnvelope x = None)
     \<and> (case gsEnvelope x of None \<Rightarrow> True
        | Some v \<Rightarrow> length (envNonce v) = 12 \<and> 16 \<le> length (envCiphertext v))"

definition unique_state :: "secret_row \<Rightarrow> (string \<times> string \<times> secret_state) option" where
  "unique_state x = (if gsState x = SecretRetired then None else Some (gsOrganizationID x, gsIntegrationID x, gsState x))"

definition secret_key :: "secret_row \<Rightarrow> string \<times> string \<times> int" where
  "secret_key x = (gsOrganizationID x, gsIntegrationID x, gsVersion x)"

definition insert_secret :: "string \<Rightarrow> secret_row \<Rightarrow> db \<Rightarrow> db result" where
  "insert_secret what x d =
     (if \<not> secret_row_ok x \<or> sql_exists (\<lambda>y. secret_key y = secret_key x) (dbSecrets d)
        \<or> (unique_state x \<noteq> None \<and> sql_exists (\<lambda>y. unique_state y = unique_state x) (dbSecrets d))
        \<or> \<not> sql_exists (is_integration (gsOrganizationID x) (gsIntegrationID x)) (dbIntegrations d)
      then Inl (ErrText what)
      else Inr (d\<lparr>dbSecrets := dbSecrets d @ [x]\<rparr>))"

definition secret_to_row :: "stored_secret \<Rightarrow> go_time option \<Rightarrow> secret_row" where
  "secret_to_row s activated =
     \<lparr>gsOrganizationID = ssOrganizationID s, gsIntegrationID = ssIntegrationID s, gsVersion = ssVersion s,
      gsState = ssState s, gsEnvelope = Some (ssEnvelope s), gsCreatedAt = db_instant (ssCreatedAt s),
      gsActivatedAt = map_option db_instant activated, gsRetiredAt = None\<rparr>"

definition integration_to_row :: "integration \<Rightarrow> integration_row" where
  "integration_to_row v =
     \<lparr>giID = igID v, giOrganizationID = igOrganizationID v, giName = igName v, giDestinationURL = igDestinationURL v,
      giEnabled = igEnabled v, giVersion = igVersion v, giActiveSecretVersion = igActiveSecretVersion v,
      giCreatedAt = db_instant (igCreatedAt v), giUpdatedAt = db_instant (igUpdatedAt v)\<rparr>"

definition active_secret_exists :: "db \<Rightarrow> integration_row \<Rightarrow> bool" where
  "active_secret_exists d g = secret_in_db d (giOrganizationID g) (giID g) (giActiveSecretVersion g)"

text \<open>An update of one Integration; the reference to the active secret is checked at commit.\<close>

definition update_integration ::
  "string \<Rightarrow> string \<Rightarrow> (integration_row \<Rightarrow> integration_row) \<Rightarrow> db \<Rightarrow> db result" where
  "update_integration org i f d =
     (if \<not> sql_exists (is_integration org i) (dbIntegrations d) then Inl (ErrIs WebhookNotFound)
      else if list_ex (\<lambda>g. is_integration org i g \<and> \<not> (integration_row_ok (f g) \<and> active_secret_exists d (f g))) (dbIntegrations d)
        then Inl (ErrText ''advance Webhook Integration version'')
      else Inr (d\<lparr>dbIntegrations := sql_update (is_integration org i) f (dbIntegrations d)\<rparr>))"

definition move_secret ::
  "string \<Rightarrow> string \<Rightarrow> int \<Rightarrow> secret_state \<Rightarrow> (secret_row \<Rightarrow> secret_row) \<Rightarrow> go_error \<Rightarrow> db \<Rightarrow> db result" where
  "move_secret org i n st f missing d =
     (let p = \<lambda>x. secret_of org i st x \<and> gsVersion x = n
      in if \<not> sql_exists p (dbSecrets d) then Inl missing
         else if list_ex (\<lambda>x. p x \<and> (\<not> secret_row_ok (f x) \<or> (unique_state (f x) \<noteq> None
             \<and> sql_exists (\<lambda>y. unique_state y = unique_state (f x)) (dbSecrets d)))) (dbSecrets d) then
           Inl (ErrText ''update Webhook signing secret'')
         else Inr (d\<lparr>dbSecrets := sql_update p f (dbSecrets d)\<rparr>))"

section \<open>Operations\<close>

definition create_integration_tx :: "integration \<Rightarrow> stored_secret \<Rightarrow> db \<Rightarrow> db result" where
  "create_integration_tx v s d =
     (let g = integration_to_row v
      in if sql_exists (\<lambda>x. giOrganizationID x = giOrganizationID g \<and> giName x = giName g) (dbIntegrations d) then
           Inl (ErrIs WebhookNameConflict)
         else if \<not> integration_row_ok g \<or> sql_exists (\<lambda>x. giID x = giID g) (dbIntegrations d)
           \<or> giOrganizationID g \<notin> set (dbOrganizations d) then Inl (ErrText ''insert Webhook Integration'')
         else and_then (insert_secret ''insert Webhook signing secret'' (secret_to_row s (Some (ssCreatedAt s)))
             (d\<lparr>dbIntegrations := dbIntegrations d @ [g]\<rparr>)) (\<lambda>d'.
           if active_secret_exists d' g then Inr d' else Inl (ErrText ''commit Webhook Integration creation'')))"

definition create_integration :: "db \<Rightarrow> integration \<Rightarrow> stored_secret \<Rightarrow> unit result \<times> db" where
  "create_integration d v s = run_tx (\<lambda>d. and_then (create_integration_tx v s d) (\<lambda>d'. Inr ((), d'))) d"

definition find_integration :: "text_env \<Rightarrow> db \<Rightarrow> string \<Rightarrow> string \<Rightarrow> integration option result" where
  "find_integration te d org i = find_for_update te d org i"

definition list_integrations :: "text_env \<Rightarrow> db \<Rightarrow> string \<Rightarrow> integration list result" where
  "list_integrations te d org = map_result (scan_integration te d)
     (sort_key (\<lambda>g. (nanos (giCreatedAt g), giID g)) (filter (\<lambda>g. giOrganizationID g = org) (dbIntegrations d)))"

definition enabled_count :: "db \<Rightarrow> string \<Rightarrow> nat" where
  "enabled_count d org = length (filter (\<lambda>g. giOrganizationID g = org \<and> giEnabled g) (dbIntegrations d))"

definition enabled_row :: "integration \<Rightarrow> integration_row \<Rightarrow> integration_row" where
  "enabled_row v g = g\<lparr>giEnabled := igEnabled v, giVersion := igVersion v, giUpdatedAt := db_instant (igUpdatedAt v)\<rparr>"

definition set_enabled_tx :: "text_env \<Rightarrow> string \<Rightarrow> string \<Rightarrow> int \<Rightarrow> bool \<Rightarrow> go_time \<Rightarrow> db \<Rightarrow> (integration \<times> db) result" where
  "set_enabled_tx te org i expected on now d =
     (if org \<notin> set (dbOrganizations d) then Inl (ErrIs WebhookNotFound)
      else and_then (found_integration te d org i expected) (\<lambda>current.
        if igEnabled current = on then Inr (current, d)
        else if on \<and> enabled_count d org \<ge> MaxEnabledIntegrations then Inl (ErrIs WebhookEnabledLimit)
        else
          let updated = current\<lparr>igEnabled := on, igVersion := wrap64 (igVersion current + 1), igUpdatedAt := to_utc now\<rparr>
          in and_then (update_integration org i (enabled_row updated) d) (\<lambda>d'. Inr (updated, d'))))"

definition set_enabled :: "text_env \<Rightarrow> db \<Rightarrow> string \<Rightarrow> string \<Rightarrow> int \<Rightarrow> bool \<Rightarrow> go_time \<Rightarrow> integration result \<times> db" where
  "set_enabled te d org i expected on now = run_tx (set_enabled_tx te org i expected on now) d"

definition version_row :: "integration \<Rightarrow> integration_row \<Rightarrow> integration_row" where
  "version_row v g = g\<lparr>giVersion := igVersion v, giActiveSecretVersion := igActiveSecretVersion v,
     giUpdatedAt := db_instant (igUpdatedAt v)\<rparr>"

definition prepare_secret_tx :: "text_env \<Rightarrow> integration \<Rightarrow> stored_secret \<Rightarrow> int \<Rightarrow> db \<Rightarrow> db result" where
  "prepare_secret_tx te updated s expected d =
     and_then (found_integration te d (igOrganizationID updated) (igID updated) expected) (\<lambda>current.
       if igVersion updated \<noteq> wrap64 (igVersion current + 1) \<or> igActiveSecretVersion updated \<noteq> igActiveSecretVersion current
         \<or> ssOrganizationID s \<noteq> igOrganizationID current \<or> ssIntegrationID s \<noteq> igID current
         \<or> ssVersion s \<noteq> wrap64 (igActiveSecretVersion current + 1) \<or> ssState s \<noteq> SecretPending then
         Inl (ErrText ''invalid prepared Webhook signing-secret snapshot'')
       else if secret_version d (igOrganizationID current) (igID current) SecretPending \<noteq> None
         \<or> secret_version d (igOrganizationID current) (igID current) SecretRetiring \<noteq> None then
         Inl (ErrIs RotationInProgress)
       else and_then (insert_secret ''insert pending Webhook signing secret'' (secret_to_row s None) d)
         (update_integration (igOrganizationID updated) (igID updated) (version_row updated)))"

definition prepare_secret :: "text_env \<Rightarrow> db \<Rightarrow> integration \<Rightarrow> stored_secret \<Rightarrow> int \<Rightarrow> unit result \<times> db" where
  "prepare_secret te d updated s expected =
     run_tx (\<lambda>d. and_then (prepare_secret_tx te updated s expected d) (\<lambda>d'. Inr ((), d'))) d"

definition activate_secret_tx :: "text_env \<Rightarrow> string \<Rightarrow> string \<Rightarrow> int \<Rightarrow> go_time \<Rightarrow> db \<Rightarrow> (integration \<times> db) result" where
  "activate_secret_tx te org i expected now d =
     and_then (found_integration te d org i expected) (\<lambda>current.
     case secret_version d org i SecretPending of
       None \<Rightarrow> Inl (ErrIs PendingSecretMissing)
     | Some pending \<Rightarrow>
         and_then (move_secret org i (igActiveSecretVersion current) SecretActive (\<lambda>x. x\<lparr>gsState := SecretRetiring\<rparr>)
           (ErrText ''active Webhook signing secret is missing'') d) (\<lambda>d1.
         and_then (move_secret org i pending SecretPending
           (\<lambda>x. x\<lparr>gsState := SecretActive, gsActivatedAt := Some (db_instant now)\<rparr>) (ErrIs PendingSecretMissing) d1) (\<lambda>d2.
         let updated = current\<lparr>igActiveSecretVersion := pending, igPendingSecretVersion := None,
               igRetiringSecretVersion := Some (igActiveSecretVersion current),
               igVersion := wrap64 (igVersion current + 1), igUpdatedAt := to_utc now\<rparr>
         in and_then (update_integration org i (version_row updated) d2) (\<lambda>d'. Inr (updated, d')))))"

definition activate_secret :: "text_env \<Rightarrow> db \<Rightarrow> string \<Rightarrow> string \<Rightarrow> int \<Rightarrow> go_time \<Rightarrow> integration result \<times> db" where
  "activate_secret te d org i expected now = run_tx (activate_secret_tx te org i expected now) d"

definition needs_secret :: "string \<Rightarrow> string \<Rightarrow> int \<Rightarrow> delivery_row \<Rightarrow> bool" where
  "needs_secret org i n v \<longleftrightarrow> vwOrganizationID v = org \<and> vwIntegrationID v = i \<and> vwSecretVersion v = n
     \<and> vwCompletedAt v = None"

definition retire_secret_tx :: "text_env \<Rightarrow> string \<Rightarrow> string \<Rightarrow> int \<Rightarrow> go_time \<Rightarrow> db \<Rightarrow> (integration \<times> db) result" where
  "retire_secret_tx te org i expected now d =
     and_then (found_integration te d org i expected) (\<lambda>current.
     case secret_version d org i SecretRetiring of
       None \<Rightarrow> Inl (ErrIs RetiringSecretMissing)
     | Some retiring \<Rightarrow>
         if sql_exists (needs_secret org i retiring) (dbDeliveries d) then Inl (ErrIs RetiringSecretInUse)
         else
           and_then (move_secret org i retiring SecretRetiring
             (\<lambda>x. x\<lparr>gsState := SecretRetired, gsEnvelope := None, gsRetiredAt := Some (db_instant now)\<rparr>)
             (ErrIs RetiringSecretMissing) d) (\<lambda>d1.
           let updated = current\<lparr>igVersion := wrap64 (igVersion current + 1), igRetiringSecretVersion := None,
                 igUpdatedAt := to_utc now\<rparr>
           in and_then (update_integration org i (version_row updated) d1) (\<lambda>d'. Inr (updated, d'))))"

definition retire_secret :: "text_env \<Rightarrow> db \<Rightarrow> string \<Rightarrow> string \<Rightarrow> int \<Rightarrow> go_time \<Rightarrow> integration result \<times> db" where
  "retire_secret te d org i expected now = run_tx (retire_secret_tx te org i expected now) d"

definition list_retained_secrets :: "db \<Rightarrow> stored_secret list" where
  "list_retained_secrets d = map (\<lambda>x. \<lparr>ssOrganizationID = gsOrganizationID x, ssIntegrationID = gsIntegrationID x,
       ssVersion = gsVersion x, ssState = gsState x,
       ssEnvelope = (case gsEnvelope x of None \<Rightarrow> \<lparr>envKeyID = '''', envNonce = '''', envCiphertext = ''''\<rparr> | Some v \<Rightarrow> v),
       ssCreatedAt = to_utc (gsCreatedAt x)\<rparr>)
     (sort_key secret_key (filter (\<lambda>x. gsState x \<noteq> SecretRetired) (dbSecrets d)))"

definition replace_envelope :: "db \<Rightarrow> stored_secret \<Rightarrow> envelope \<Rightarrow> unit result \<times> db" where
  "replace_envelope d current replacement =
     (let p = \<lambda>x. gsOrganizationID x = ssOrganizationID current \<and> gsIntegrationID x = ssIntegrationID current
            \<and> gsVersion x = ssVersion current \<and> gsEnvelope x = Some (ssEnvelope current) \<and> gsState x \<noteq> SecretRetired;
          f = \<lambda>x. x\<lparr>gsEnvelope := Some replacement\<rparr>
      in if list_ex (\<lambda>x. p x \<and> \<not> secret_row_ok (f x)) (dbSecrets d) then
           (Inl (ErrText ''rewrap Webhook signing secret''), d)
         else if \<not> sql_exists p (dbSecrets d) then (Inl (ErrIs WebhookSecretChanged), d)
         else (Inr (), d\<lparr>dbSecrets := sql_update p f (dbSecrets d)\<rparr>))"


section \<open>Use cases\<close>

datatype state_result =
    StateUpdated integration | StateInvalid "validation_failure list" | StateNotFound | StateConflict string string

definition enabled_failure :: validation_failure where
  "enabled_failure = \<lparr>vfCode = ''webhook.enabled.invalid'', vfField = ''enabled'',
     vfMessage = ''The Webhook Integration enabled state must be true or false.''\<rparr>"

definition version_failure :: validation_failure where
  "version_failure = \<lparr>vfCode = ''webhook.version.invalid'', vfField = ''version'',
     vfMessage = ''The Webhook Integration version must be a positive integer.''\<rparr>"

definition service_set_enabled ::
  "text_env \<Rightarrow> string \<Rightarrow> string \<Rightarrow> int \<Rightarrow> bool option \<Rightarrow> go_time \<Rightarrow> db \<Rightarrow> state_result result \<times> db" where
  "service_set_enabled te org i expected on clock d =
     (if org = '''' \<or> i = '''' then
        (Inl (ErrText ''Webhook state change requires Organization and Integration identity''), d)
      else
        let failures = (if on = None then [enabled_failure] else []) @ (if expected < 1 then [version_failure] else [])
        in if failures \<noteq> [] then (Inr (StateInvalid failures), d)
           else case set_enabled te d org i expected (the on) (to_utc clock) of
             (Inr v, d') \<Rightarrow> (Inr (StateUpdated v), d')
           | (Inl e, d') \<Rightarrow>
               (if errors_is e WebhookNotFound then Inr StateNotFound
                else if errors_is e WebhookConcurrentUpdate then
                  Inr (StateConflict ''webhook.version.conflict'' ''The Webhook Integration changed; reload it before retrying.'')
                else if errors_is e WebhookEnabledLimit then
                  Inr (StateConflict ''webhook.enabledLimit.exceeded''
                    ''An Organization may have at most five enabled Webhook Integrations.'')
                else Inl e, d'))"

datatype rotation_result =
    RotationPrepared integration int string | RotationUpdated integration
  | RotationInvalid "validation_failure list" | RotationNotFound | RotationConflict string string
  | RotationKeyringUnavailable string string

text \<open>\<open>rotationConflict\<close>; \<open>None\<close> is its panic, which no caller can reach.\<close>

definition rotation_conflict :: "go_error \<Rightarrow> rotation_result option" where
  "rotation_conflict e =
     (if errors_is e WebhookConcurrentUpdate then
        Some (RotationConflict ''webhook.version.conflict'' ''The Webhook Integration changed; reload it before retrying.'')
      else if errors_is e RotationInProgress then
        Some (RotationConflict ''webhook.rotation.inProgress''
          ''Finish the current signing-secret rotation before preparing another secret.'')
      else if errors_is e PendingSecretMissing then
        Some (RotationConflict ''webhook.rotation.pendingMissing'' ''Prepare a new signing secret before activating it.'')
      else if errors_is e RetiringSecretMissing then
        Some (RotationConflict ''webhook.rotation.retiringMissing'' ''No retiring signing secret is available to retire.'')
      else if errors_is e RetiringSecretInUse then
        Some (RotationConflict ''webhook.rotation.retiringInUse''
          ''The retiring signing secret is still required by unfinished deliveries.'')
      else None)"

definition conflict_or :: "go_error \<Rightarrow> sentinel list \<Rightarrow> rotation_result result" where
  "conflict_or e conflicts =
     (if errors_is e WebhookNotFound then Inr RotationNotFound
      else if list_ex (errors_is e) conflicts then
        (case rotation_conflict e of Some r \<Rightarrow> Inr r | None \<Rightarrow> Inl (ErrText ''unexpected Webhook rotation conflict''))
      else Inl e)"

definition rotation_identity :: "string \<Rightarrow> string \<Rightarrow> unit result" where
  "rotation_identity org i =
     (if org = '''' \<or> i = '''' then
        Inl (ErrText ''Webhook signing-secret rotation requires Organization and Integration identity'')
      else Inr ())"

text \<open>\<open>secretAssociatedData\<close> and \<open>newStoredSecret\<close>; \<open>random\<close> gives the bytes of each read in turn.\<close>

definition secret_associated_data :: "string \<Rightarrow> string \<Rightarrow> int \<Rightarrow> string" where
  "secret_associated_data org i version = org @ [CHR 0x00] @ i @ [CHR 0x00] @ int_dec version"

definition new_stored_secret ::
  "crypto \<Rightarrow> keyring \<Rightarrow> (nat \<Rightarrow> string result) \<Rightarrow> integration \<Rightarrow> int \<Rightarrow> secret_state \<Rightarrow> go_time
    \<Rightarrow> (stored_secret \<times> string) result" where
  "new_stored_secret cr kr random v version st now =
     (case random 0 of
        Inl e \<Rightarrow> Inl (Wrapped ''generate Webhook signing secret'' e)
      | Inr bytes \<Rightarrow>
          let signing = ''phwh_'' @ encode64 cr bytes
          in and_then (keyring_seal cr (Some kr) signing
               (secret_associated_data (igOrganizationID v) (igID v) version) (random 1)) (\<lambda>sealed.
             Inr (\<lparr>ssOrganizationID = igOrganizationID v, ssIntegrationID = igID v, ssVersion = version,
               ssState = st, ssEnvelope = sealed, ssCreatedAt = now\<rparr>, signing)))"

datatype integration_result =
    IntegrationCreated integration string | IntegrationInvalid "validation_failure list"
  | IntegrationConflict string string | IntegrationKeyringUnavailable string string

definition name_failure :: validation_failure where
  "name_failure = \<lparr>vfCode = ''webhook.name.invalid'', vfField = ''name'',
     vfMessage = ''A Webhook Integration name is 1 to 100 characters after trimming.''\<rparr>"

definition destination_failure :: validation_failure where
  "destination_failure = \<lparr>vfCode = ''webhook.destinationUrl.invalid'', vfField = ''destinationUrl'',
     vfMessage = ''A Webhook destination must be an absolute HTTPS URL without user information, a query string, or a fragment.''\<rparr>"

text \<open>\<open>Create\<close>; \<open>None\<close> for the keyring when none is configured.\<close>

definition service_create ::
  "text_env \<Rightarrow> crypto \<Rightarrow> keyring option \<Rightarrow> (nat \<Rightarrow> string result) \<Rightarrow> string \<Rightarrow> string \<Rightarrow> string \<Rightarrow> go_time \<Rightarrow> string result
    \<Rightarrow> db \<Rightarrow> integration_result result \<times> db" where
  "service_create te cr kr random org name0 url0 clock uuid d =
     (let (name, valid_name) = normalize_name name0;
          (url, valid_url) = normalize_destination_url te url0;
          failures = (if valid_name then [] else [name_failure]) @ (if valid_url then [] else [destination_failure])
      in if failures \<noteq> [] then (Inr (IntegrationInvalid failures), d)
         else case kr of
           None \<Rightarrow> (Inr (IntegrationKeyringUnavailable ''webhook.keyring.unavailable''
             ''The operator has not configured Webhook signing-secret encryption.''), d)
         | Some k \<Rightarrow>
             let now = to_utc clock in
             case uuid of
               Inl e \<Rightarrow> (Inl (Wrapped ''generate Webhook Integration id'' e), d)
             | Inr i \<Rightarrow>
                 case new_integration te i org name url False 1 1 None None now now of
                   Inl e \<Rightarrow> (Inl e, d)
                 | Inr v \<Rightarrow>
                     case new_stored_secret cr k random v 1 SecretActive now of
                       Inl e \<Rightarrow> (Inl e, d)
                     | Inr (stored, signing) \<Rightarrow>
                         case create_integration d v stored of
                           (Inr _, d') \<Rightarrow> (Inr (IntegrationCreated v signing), d')
                         | (Inl e, d') \<Rightarrow>
                             (if errors_is e WebhookNameConflict then
                                Inr (IntegrationConflict ''webhook.name.conflict''
                                  ''A Webhook Integration with that name already exists in this Organization.'')
                              else Inl e, d'))"

text \<open>
  \<open>Initialize\<close> opens every retained secret and seals those of an old key again; a secret that
  another process changed meanwhile is left to it.
\<close>

fun rewrap_secrets ::
  "crypto \<Rightarrow> keyring option \<Rightarrow> (nat \<Rightarrow> string result) \<Rightarrow> nat \<Rightarrow> stored_secret list \<Rightarrow> db \<Rightarrow> unit result \<times> db" where
  "rewrap_secrets cr kr random n [] d = (Inr (), d)"
| "rewrap_secrets cr kr random n (s # ss) d =
     (let ad = secret_associated_data (ssOrganizationID s) (ssIntegrationID s) (ssVersion s) in
      case keyring_open cr kr (ssEnvelope s) ad of
        Inl e \<Rightarrow> (Inl (Wrapped ''open Webhook secret'' e), d)
      | Inr plaintext \<Rightarrow>
          if envKeyID (ssEnvelope s) = active_key_id kr then rewrap_secrets cr kr random n ss d
          else case keyring_seal cr kr plaintext ad (random n) of
            Inl e \<Rightarrow> (Inl e, d)
          | Inr replacement \<Rightarrow>
              case replace_envelope d s replacement of
                (Inr _, d') \<Rightarrow> rewrap_secrets cr kr random (Suc n) ss d'
              | (Inl e, d') \<Rightarrow>
                  if errors_is e WebhookSecretChanged then rewrap_secrets cr kr random (Suc n) ss d'
                  else (Inl e, d'))"

definition webhook_initialize ::
  "crypto \<Rightarrow> keyring option \<Rightarrow> (nat \<Rightarrow> string result) \<Rightarrow> db \<Rightarrow> unit result \<times> db" where
  "webhook_initialize cr kr random d =
     (let secrets = list_retained_secrets d
      in if secrets \<noteq> [] \<and> kr = None then (Inl (ErrIs KeyringUnavailable), d)
         else rewrap_secrets cr kr random 0 secrets d)"

text \<open>\<open>PrepareRotation\<close>; \<open>between\<close> is what other requests do after the lookup.\<close>

definition prepare_rotation ::
  "text_env \<Rightarrow> crypto \<Rightarrow> keyring option \<Rightarrow> (nat \<Rightarrow> string result) \<Rightarrow> string \<Rightarrow> string \<Rightarrow> int \<Rightarrow> go_time
    \<Rightarrow> (db \<Rightarrow> db) \<Rightarrow> db \<Rightarrow> rotation_result result \<times> db" where
  "prepare_rotation te cr kr random org i expected clock between d =
     (let now = to_utc clock in
      case rotation_identity org i of Inl e \<Rightarrow> (Inl e, d) | Inr _ \<Rightarrow>
      if expected < 1 then (Inr (RotationInvalid [version_failure]), d)
      else case find_integration te d org i of
        Inl e \<Rightarrow> (Inl e, d)
      | Inr None \<Rightarrow> (Inr RotationNotFound, d)
      | Inr (Some v) \<Rightarrow>
          if igVersion v \<noteq> expected then (conflict_or (ErrIs WebhookConcurrentUpdate) [WebhookConcurrentUpdate], d)
          else case kr of
            None \<Rightarrow> (Inr (RotationKeyringUnavailable ''webhook.keyring.unavailable''
              ''The operator has not configured Webhook signing-secret encryption.''), d)
          | Some k \<Rightarrow>
              if igActiveSecretVersion v = 2 ^ 63 - 1 then
                (Inl (ErrText ''Webhook signing-secret version is exhausted''), d)
              else case new_stored_secret cr k random v (igActiveSecretVersion v + 1) SecretPending now of
                Inl e \<Rightarrow> (Inl e, d)
              | Inr (stored, signing) \<Rightarrow>
                  let updated = v\<lparr>igVersion := wrap64 (igVersion v + 1), igUpdatedAt := now,
                        igPendingSecretVersion := Some (igActiveSecretVersion v + 1)\<rparr>
                  in case prepare_secret te (between d) updated stored expected of
                       (Inr _, d') \<Rightarrow> (Inr (RotationPrepared updated (igActiveSecretVersion v + 1) signing), d')
                     | (Inl e, d') \<Rightarrow> (conflict_or e [WebhookConcurrentUpdate, RotationInProgress], d'))"

definition activate_rotation :: "text_env \<Rightarrow> string \<Rightarrow> string \<Rightarrow> int \<Rightarrow> go_time \<Rightarrow> db \<Rightarrow> rotation_result result \<times> db" where
  "activate_rotation te org i expected clock d =
     (case rotation_identity org i of Inl e \<Rightarrow> (Inl e, d) | Inr _ \<Rightarrow>
      if expected < 1 then (Inr (RotationInvalid [version_failure]), d)
      else case activate_secret te d org i expected (to_utc clock) of
        (Inr v, d') \<Rightarrow> (Inr (RotationUpdated v), d')
      | (Inl e, d') \<Rightarrow> (conflict_or e [WebhookConcurrentUpdate, PendingSecretMissing], d'))"

definition retire_rotation :: "text_env \<Rightarrow> string \<Rightarrow> string \<Rightarrow> int \<Rightarrow> go_time \<Rightarrow> db \<Rightarrow> rotation_result result \<times> db" where
  "retire_rotation te org i expected clock d =
     (case rotation_identity org i of Inl e \<Rightarrow> (Inl e, d) | Inr _ \<Rightarrow>
      if expected < 1 then (Inr (RotationInvalid [version_failure]), d)
      else case retire_secret te d org i expected (to_utc clock) of
        (Inr v, d') \<Rightarrow> (Inr (RotationUpdated v), d')
      | (Inl e, d') \<Rightarrow> (conflict_or e [WebhookConcurrentUpdate, RetiringSecretMissing, RetiringSecretInUse], d'))"

section \<open>Secrets of unfinished deliveries\<close>

definition usable_secret :: "db \<Rightarrow> string \<Rightarrow> string \<Rightarrow> int \<Rightarrow> bool" where
  "usable_secret d org i n \<longleftrightarrow> (\<exists>x \<in> set (dbSecrets d). secret_key x = (org, i, n)
     \<and> gsState x \<in> {SecretActive, SecretRetiring})"

definition webhook_inv :: "db \<Rightarrow> bool" where
  "webhook_inv d \<longleftrightarrow> unique_on (\<lambda>x. Some (secret_key x)) (dbSecrets d) \<and> unique_on unique_state (dbSecrets d)
     \<and> unique_on (\<lambda>g. Some (giID g)) (dbIntegrations d)
     \<and> (\<forall>x \<in> set (dbSecrets d). secret_row_ok x)
     \<and> (\<forall>g \<in> set (dbIntegrations d). \<exists>x \<in> set (dbSecrets d).
          secret_key x = (giOrganizationID g, giID g, giActiveSecretVersion g) \<and> gsState x = SecretActive)
     \<and> (\<forall>v \<in> set (dbDeliveries d). vwCompletedAt v = None \<longrightarrow>
          usable_secret d (vwOrganizationID v) (vwIntegrationID v) (vwSecretVersion v))
     \<and> (\<forall>org. enabled_count d org \<le> MaxEnabledIntegrations)"

lemma webhook_inv_same:
  "dbSecrets d' = dbSecrets d \<Longrightarrow> dbIntegrations d' = dbIntegrations d \<Longrightarrow> dbDeliveries d' = dbDeliveries d \<Longrightarrow>
     webhook_inv d' = webhook_inv d"
  by (simp add: webhook_inv_def usable_secret_def enabled_count_def)

lemma found_integration_Inr:
  assumes "found_integration te d org i expected = Inr v"
  obtains g where "g \<in> set (dbIntegrations d)" "giOrganizationID g = org" "giID g = i" "scan_integration te d g = Inr v"
    "igVersion v = expected"
  using assms
  by (auto simp: found_integration_def find_for_update_def and_then_Inr is_integration_def split: option.splits if_splits
      dest!: find_holds)

lemma scan_integration_Inr:
  assumes "scan_integration te d g = Inr v"
  shows "igID v = giID g" "igOrganizationID v = giOrganizationID g" "igEnabled v = giEnabled g"
    "igVersion v = giVersion g" "igActiveSecretVersion v = giActiveSecretVersion g"
    "igPendingSecretVersion v = secret_version d (giOrganizationID g) (giID g) SecretPending"
    "igRetiringSecretVersion v = secret_version d (giOrganizationID g) (giID g) SecretRetiring"
  using assms by (auto simp: scan_integration_def new_integration_def split: if_splits sum.splits)

lemma insert_secret_Inr:
  "insert_secret what x d = Inr d' \<Longrightarrow> d' = d\<lparr>dbSecrets := dbSecrets d @ [x]\<rparr> \<and> secret_row_ok x
     \<and> (\<forall>y \<in> set (dbSecrets d). secret_key y \<noteq> secret_key x)
     \<and> (unique_state x \<noteq> None \<longrightarrow> (\<forall>y \<in> set (dbSecrets d). unique_state y \<noteq> unique_state x))"
  by (auto simp: insert_secret_def split: if_splits)

lemma update_integration_Inr:
  "update_integration org i f d = Inr d' \<Longrightarrow> d' = d\<lparr>dbIntegrations := sql_update (is_integration org i) f (dbIntegrations d)\<rparr>"
  by (auto simp: update_integration_def split: if_splits)

lemma move_secret_Inr:
  assumes "move_secret org i n st f missing d = Inr d'"
  shows "d' = d\<lparr>dbSecrets := sql_update (\<lambda>x. secret_of org i st x \<and> gsVersion x = n) f (dbSecrets d)\<rparr>
    \<and> (\<exists>x \<in> set (dbSecrets d). secret_of org i st x \<and> gsVersion x = n)
    \<and> (\<forall>x \<in> set (dbSecrets d). secret_of org i st x \<and> gsVersion x = n \<longrightarrow> secret_row_ok (f x)
        \<and> (unique_state (f x) \<noteq> None \<longrightarrow> (\<forall>y \<in> set (dbSecrets d). unique_state y \<noteq> unique_state (f x))))"
  using assms by (auto simp: move_secret_def Let_def list_ex_iff split: if_splits)

lemma secret_key_state:
  assumes "webhook_inv d" and "x \<in> set (dbSecrets d)" and "y \<in> set (dbSecrets d)" and "secret_key x = secret_key y"
  shows "x = y"
  using assms unique_onD [of "\<lambda>x. Some (secret_key x)" "dbSecrets d" x y] by (simp add: webhook_inv_def)

text \<open>A change of the secrets keeps the invariant when it keeps keys, constraints and usable secrets.\<close>

lemma webhook_inv_secrets:
  assumes inv: "webhook_inv d"
    and "unique_on (\<lambda>x. Some (secret_key x)) ss" and "unique_on unique_state ss" and "\<forall>x \<in> set ss. secret_row_ok x"
    and act: "\<And>x. x \<in> set (dbSecrets d) \<Longrightarrow> gsState x = SecretActive \<Longrightarrow>
      \<exists>y \<in> set ss. secret_key y = secret_key x \<and> gsState y = SecretActive"
    and ret: "\<And>x v. x \<in> set (dbSecrets d) \<Longrightarrow> gsState x = SecretRetiring \<Longrightarrow> v \<in> set (dbDeliveries d) \<Longrightarrow>
      vwCompletedAt v = None \<Longrightarrow> secret_key x = (vwOrganizationID v, vwIntegrationID v, vwSecretVersion v) \<Longrightarrow>
      \<exists>y \<in> set ss. secret_key y = secret_key x \<and> gsState y \<in> {SecretActive, SecretRetiring}"
  shows "webhook_inv (d\<lparr>dbSecrets := ss\<rparr>)"
proof -
  have "\<exists>x \<in> set ss. secret_key x = (giOrganizationID g, giID g, giActiveSecretVersion g) \<and> gsState x = SecretActive"
    if "g \<in> set (dbIntegrations d)" for g
    using inv that act unfolding webhook_inv_def by metis
  moreover have "\<exists>y \<in> set ss. secret_key y = (vwOrganizationID v, vwIntegrationID v, vwSecretVersion v)
      \<and> gsState y \<in> {SecretActive, SecretRetiring}"
    if v: "v \<in> set (dbDeliveries d)" "vwCompletedAt v = None" for v
  proof -
    obtain x where x: "x \<in> set (dbSecrets d)" "secret_key x = (vwOrganizationID v, vwIntegrationID v, vwSecretVersion v)"
      "gsState x \<in> {SecretActive, SecretRetiring}"
      using inv v by (auto simp: webhook_inv_def usable_secret_def)
    then show ?thesis using act [OF x(1)] ret [OF x(1) _ v x(2)] by auto
  qed
  ultimately show ?thesis using assms(2-4) inv
    by (simp add: webhook_inv_def usable_secret_def enabled_count_def)
qed

lemma insert_secret_keeps:
  assumes inv: "webhook_inv d" and "insert_secret what x d0 = Inr d'" and [simp]: "dbSecrets d0 = dbSecrets d"
  shows "unique_on (\<lambda>x. Some (secret_key x)) (dbSecrets d @ [x])" and "unique_on unique_state (dbSecrets d @ [x])"
    and "\<forall>y \<in> set (dbSecrets d @ [x]). secret_row_ok y"
proof -
  note X = insert_secret_Inr [OF assms(2)]
  have W: "unique_on (\<lambda>x. Some (secret_key x)) (dbSecrets d)" "unique_on unique_state (dbSecrets d)"
    "\<forall>x \<in> set (dbSecrets d). secret_row_ok x" using inv unfolding webhook_inv_def by blast+
  show "unique_on unique_state (dbSecrets d @ [x])"
    unfolding unique_on_append using X W by (metis \<open>dbSecrets d0 = dbSecrets d\<close> empty_iff empty_set set_ConsD unique_on_single)
  show "unique_on (\<lambda>x. Some (secret_key x)) (dbSecrets d @ [x])"
    using X W by (simp add: unique_on_append)
  show "\<forall>y \<in> set (dbSecrets d @ [x]). secret_row_ok y" using X W by simp
qed

lemma webhook_inv_insert_secret:
  assumes inv: "webhook_inv d" and "insert_secret what x d = Inr d'"
  shows "webhook_inv d'"
  using webhook_inv_secrets [OF inv insert_secret_keeps [OF assms]] insert_secret_Inr [OF assms(2)] by auto

text \<open>Updating one Integration.\<close>

lemma filter_one_more:
  assumes "unique_on (\<lambda>g. Some (key g)) xs" and "\<And>x. p x \<Longrightarrow> key x = k"
  shows "length (filter Q (sql_update p f xs)) \<le> length (filter Q xs) + 1"
  using assms(1)
proof (induction xs)
  case (Cons x xs)
  show ?case
  proof (cases "p x")
    case True
    then have "\<not> p y" if "y \<in> set xs" for y using that Cons.prems assms(2) [of x] assms(2) [of y] by auto
    then have "sql_update p f xs = xs" by (simp add: sql_update_def map_idI)
    then show ?thesis using True by (auto simp: sql_update_def)
  next
    case False
    then show ?thesis using Cons by (auto simp: sql_update_def)
  qed
qed (simp add: sql_update_def)

lemma filter_no_more:
  "(\<And>x. p x \<Longrightarrow> Q (f x) \<Longrightarrow> Q x) \<Longrightarrow> length (filter Q (sql_update p f xs)) \<le> length (filter Q xs)"
  by (induction xs) (auto simp: sql_update_def le_SucI)

lemma webhook_inv_integration:
  assumes inv: "webhook_inv d" and up: "update_integration org i f d = Inr d'"
    and ids: "\<And>g. giID (f g) = giID g \<and> giOrganizationID (f g) = giOrganizationID g"
    and act: "\<And>g. g \<in> set (dbIntegrations d) \<Longrightarrow> is_integration org i g \<Longrightarrow>
      \<exists>x \<in> set (dbSecrets d). secret_key x = (org, i, giActiveSecretVersion (f g)) \<and> gsState x = SecretActive"
    and on: "(\<forall>g. giEnabled (f g) \<longrightarrow> giEnabled g) \<or> enabled_count d org < MaxEnabledIntegrations"
  shows "webhook_inv d'"
proof -
  have d': "d' = d\<lparr>dbIntegrations := sql_update (is_integration org i) f (dbIntegrations d)\<rparr>"
    using update_integration_Inr [OF up] .
  have uq: "unique_on (\<lambda>g. Some (giID g)) (dbIntegrations d)" using inv by (simp add: webhook_inv_def)
  then have "unique_on (\<lambda>g. Some (giID g)) (dbIntegrations d')" by (simp add: d' unique_on_sql_update ids)
  moreover have "\<exists>x \<in> set (dbSecrets d). secret_key x = (giOrganizationID g, giID g, giActiveSecretVersion g)
      \<and> gsState x = SecretActive" if "g \<in> set (dbIntegrations d')" for g
    using that inv act unfolding d'
    by (auto simp: in_sql_update webhook_inv_def ids is_integration_def)
  moreover have "enabled_count d' o1 \<le> MaxEnabledIntegrations" for o1
  proof -
    have c: "enabled_count d o1 \<le> MaxEnabledIntegrations" using inv by (simp add: webhook_inv_def)
    show ?thesis
    proof (cases "o1 = org \<and> \<not> (\<forall>g. giEnabled (f g) \<longrightarrow> giEnabled g)")
      case True
      then have "enabled_count d o1 + 1 \<le> MaxEnabledIntegrations" using on by auto
      moreover have "enabled_count d' o1 \<le> enabled_count d o1 + 1"
        unfolding enabled_count_def d' using filter_one_more [OF uq, of "is_integration org i" i]
        by (simp add: is_integration_def)
      ultimately show ?thesis by simp
    next
      case False
      then have "enabled_count d' o1 \<le> enabled_count d o1"
        unfolding enabled_count_def d' by simp (rule filter_no_more, auto simp: ids is_integration_def)
      then show ?thesis using c by simp
    qed
  qed
  ultimately show ?thesis using inv by (simp add: webhook_inv_def usable_secret_def d')
qed

lemma enabled_row_simps [simp]:
  "giID (enabled_row v g) = giID g" "giOrganizationID (enabled_row v g) = giOrganizationID g"
  "giActiveSecretVersion (enabled_row v g) = giActiveSecretVersion g" "giEnabled (enabled_row v g) = igEnabled v"
  by (simp_all add: enabled_row_def)

lemma version_row_simps [simp]:
  "giID (version_row v g) = giID g" "giOrganizationID (version_row v g) = giOrganizationID g"
  "giActiveSecretVersion (version_row v g) = igActiveSecretVersion v" "giEnabled (version_row v g) = giEnabled g"
  by (simp_all add: version_row_def)

lemma active_row:
  "webhook_inv d \<Longrightarrow> g \<in> set (dbIntegrations d) \<Longrightarrow>
     \<exists>x \<in> set (dbSecrets d). secret_key x = (giOrganizationID g, giID g, giActiveSecretVersion g) \<and> gsState x = SecretActive"
  by (simp add: webhook_inv_def)

lemma same_integration:
  "webhook_inv d \<Longrightarrow> g \<in> set (dbIntegrations d) \<Longrightarrow> h \<in> set (dbIntegrations d) \<Longrightarrow> giID g = giID h \<Longrightarrow> g = h"
  using unique_onD [of "\<lambda>g. Some (giID g)" "dbIntegrations d" g h] by (simp add: webhook_inv_def)

lemma set_enabled_inv:
  assumes inv: "webhook_inv d" and "set_enabled te d org i expected on now = (r, d')"
  shows "webhook_inv d'"
proof (cases r)
  case (Inr v)
  then have tx: "set_enabled_tx te org i expected on now d = Inr (v, d')" using assms(2) by (simp add: set_enabled_def run_tx_Inr)
  then obtain current where c: "found_integration te d org i expected = Inr current"
    by (auto simp: set_enabled_tx_def and_then_Inr)
  obtain g where g: "g \<in> set (dbIntegrations d)" "giOrganizationID g = org" "giID g = i" "scan_integration te d g = Inr current"
    using found_integration_Inr [OF c] by metis
  let ?u = "current\<lparr>igEnabled := on, igVersion := wrap64 (igVersion current + 1), igUpdatedAt := to_utc now\<rparr>"
  consider "d' = d" | "update_integration org i (enabled_row ?u) d = Inr d'" "on \<longrightarrow> enabled_count d org < MaxEnabledIntegrations"
    using tx c by (cases on) (auto simp: set_enabled_tx_def and_then_Inr Let_def split: if_splits)
  then show ?thesis
  proof cases
    case 2
    show ?thesis
    proof (rule webhook_inv_integration [OF inv 2(1)])
      show "\<exists>x \<in> set (dbSecrets d). secret_key x = (org, i, giActiveSecretVersion (enabled_row ?u h)) \<and> gsState x = SecretActive"
        if "h \<in> set (dbIntegrations d)" "is_integration org i h" for h
        using active_row [OF inv that(1)] that(2) by (simp add: is_integration_def)
      show "(\<forall>g. giEnabled (enabled_row ?u g) \<longrightarrow> giEnabled g) \<or> enabled_count d org < MaxEnabledIntegrations"
        using 2 by (cases on) auto
    qed simp
  qed (use inv in simp)
next
  case (Inl e)
  then show ?thesis using assms by (simp add: set_enabled_def run_tx_Inl)
qed

lemma prepare_secret_inv:
  assumes inv: "webhook_inv d" and "prepare_secret te d updated s expected = (r, d')"
  shows "webhook_inv d'"
proof (cases r)
  case (Inr v)
  then have tx: "prepare_secret_tx te updated s expected d = Inr d'"
    using assms(2) by (auto simp: prepare_secret_def run_tx_Inr and_then_Inr)
  then obtain current where c: "found_integration te d (igOrganizationID updated) (igID updated) expected = Inr current"
    and av: "igActiveSecretVersion updated = igActiveSecretVersion current"
    by (auto simp: prepare_secret_tx_def and_then_Inr split: if_splits)
  obtain g where g: "g \<in> set (dbIntegrations d)" "giOrganizationID g = igOrganizationID updated" "giID g = igID updated"
    "scan_integration te d g = Inr current" using found_integration_Inr [OF c] by metis
  obtain d1 where d1: "insert_secret ''insert pending Webhook signing secret'' (secret_to_row s None) d = Inr d1"
    "update_integration (igOrganizationID updated) (igID updated) (version_row updated) d1 = Inr d'"
    using tx c by (auto simp: prepare_secret_tx_def and_then_Inr split: if_splits)
  have inv1: "webhook_inv d1" using webhook_inv_insert_secret [OF inv d1(1)] .
  have gs: "dbIntegrations d1 = dbIntegrations d" using insert_secret_Inr [OF d1(1)] by simp
  show ?thesis
  proof (rule webhook_inv_integration [OF inv1 d1(2)])
    show "\<exists>x \<in> set (dbSecrets d1). secret_key x = (igOrganizationID updated, igID updated, giActiveSecretVersion (version_row updated h))
        \<and> gsState x = SecretActive"
      if "h \<in> set (dbIntegrations d1)" "is_integration (igOrganizationID updated) (igID updated) h" for h
      using active_row [OF inv1, of g] g gs av scan_integration_Inr [OF g(4)] by simp
  qed simp_all
next
  case (Inl e)
  then show ?thesis using assms by (simp add: prepare_secret_def run_tx_Inl)
qed

lemma unique_on_sql_update_fresh:
  assumes "unique_on key rows" and "unique_on (\<lambda>r. Some (pk r)) rows"
    and "\<And>x y. x \<in> set rows \<Longrightarrow> y \<in> set rows \<Longrightarrow> p x \<Longrightarrow> p y \<Longrightarrow> pk x = pk y"
    and "\<And>x y. x \<in> set rows \<Longrightarrow> p x \<Longrightarrow> y \<in> set rows \<Longrightarrow> key (f x) = None \<or> key y \<noteq> key (f x)"
  shows "unique_on key (sql_update p f rows)"
  using assms
proof (induction rows)
  case (Cons r rows)
  have keep: "unique_on key (sql_update p f rows)" using Cons by auto
  show ?case
  proof (cases "p r")
    case True
    have "\<not> p y" if y: "y \<in> set rows" for y
    proof
      assume "p y"
      then have "pk r = pk y" using Cons.prems(3) [of r y] True y by simp
      then show False using Cons.prems(2) y by auto
    qed
    then have "sql_update p f rows = rows" by (simp add: sql_update_def map_idI)
    then have "sql_update p f (r # rows) = f r # rows" using True by (simp add: sql_update_def)
    moreover have "key (f r) = None \<or> (\<forall>y \<in> set rows. key y \<noteq> key (f r))"
      using Cons.prems(4) [of r] True by (metis list.set_intros(1,2))
    ultimately show ?thesis using Cons.prems(1) by (auto split: option.splits)
  next
    case False
    have "key y \<noteq> Some k" if y: "y \<in> set (sql_update p f rows)" and k: "key r = Some k" for y k
    proof -
      obtain x where x: "x \<in> set rows" "y = (if p x then f x else x)" using y unfolding in_sql_update by blast
      then show ?thesis using Cons.prems(1) Cons.prems(4) [of x r] k by (cases "p x") auto
    qed
    then show ?thesis using False keep by (auto simp: sql_update_def split: option.splits)
  qed
qed (simp add: sql_update_def)

lemma active_secret_unique:
  assumes inv: "webhook_inv d" and "g \<in> set (dbIntegrations d)" and "x \<in> set (dbSecrets d)"
    and "secret_of (giOrganizationID g) (giID g) SecretActive x"
  shows "gsVersion x = giActiveSecretVersion g"
proof -
  obtain y where y: "y \<in> set (dbSecrets d)" "secret_key y = (giOrganizationID g, giID g, giActiveSecretVersion g)"
    "gsState y = SecretActive" using active_row [OF assms(1,2)] by blast
  have "unique_state x = unique_state y" using assms(4) y by (simp add: unique_state_def secret_of_def secret_key_def)
  then have "x = y" using unique_onD [of unique_state "dbSecrets d" x y] inv assms(3,4) y
    by (simp add: webhook_inv_def unique_state_def secret_of_def)
  then show ?thesis using y by (simp add: secret_key_def)
qed

text \<open>
  Moving one secret to another state: what \<open>webhook_inv\<close> needs of the secrets, except that the
  moved one may have been an active one.
\<close>

lemma move_secret_keeps:
  assumes "move_secret org i n st f missing d = Inr d'"
    and "\<And>x. secret_key (f x) = secret_key x"
    and "unique_on (\<lambda>x. Some (secret_key x)) (dbSecrets d)" and "unique_on unique_state (dbSecrets d)"
    and "\<forall>x \<in> set (dbSecrets d). secret_row_ok x"
  shows "unique_on (\<lambda>x. Some (secret_key x)) (dbSecrets d')" and "unique_on unique_state (dbSecrets d')"
    and "\<forall>x \<in> set (dbSecrets d'). secret_row_ok x"
proof -
  let ?p = "\<lambda>x. secret_of org i st x \<and> gsVersion x = n"
  have d': "dbSecrets d' = sql_update ?p f (dbSecrets d)"
    and M: "\<forall>x \<in> set (dbSecrets d). ?p x \<longrightarrow> secret_row_ok (f x)
        \<and> (unique_state (f x) \<noteq> None \<longrightarrow> (\<forall>y \<in> set (dbSecrets d). unique_state y \<noteq> unique_state (f x)))"
    using move_secret_Inr [OF assms(1)] by auto
  show "unique_on (\<lambda>x. Some (secret_key x)) (dbSecrets d')" unfolding d' by (rule unique_on_sql_update) (simp_all add: assms)
  show "\<forall>x \<in> set (dbSecrets d'). secret_row_ok x" using M assms(5) by (auto simp: d' in_sql_update)
  show "unique_on unique_state (dbSecrets d')"
    unfolding d'
  proof (rule unique_on_sql_update_fresh [OF assms(4,3)])
    show "secret_key x = secret_key y" if "?p x" "?p y" for x y using that by (simp add: secret_key_def secret_of_def)
    show "unique_state (f x) = None \<or> unique_state y \<noteq> unique_state (f x)"
      if "x \<in> set (dbSecrets d)" "?p x" "y \<in> set (dbSecrets d)" for x y using that M by blast
  qed
qed


lemma moved_secret_in:
  assumes "move_secret org i n st f missing d = Inr d'" and "x \<in> set (dbSecrets d)"
  shows "(if secret_of org i st x \<and> gsVersion x = n then f x else x) \<in> set (dbSecrets d')"
  using move_secret_Inr [OF assms(1)] assms(2) by (auto simp: in_sql_update)

lemma activate_secret_inv:
  assumes inv: "webhook_inv d" and "activate_secret te d org i expected now = (r, d')"
  shows "webhook_inv d'"
proof (cases r)
  case (Inr v)
  then have tx: "activate_secret_tx te org i expected now d = Inr (v, d')"
    using assms(2) by (simp add: activate_secret_def run_tx_Inr)
  then obtain current where c: "found_integration te d org i expected = Inr current"
    by (auto simp: activate_secret_tx_def and_then_Inr)
  obtain g where g: "g \<in> set (dbIntegrations d)" "giOrganizationID g = org" "giID g = i" "scan_integration te d g = Inr current"
    using found_integration_Inr [OF c] by metis
  let ?ret = "\<lambda>x. x\<lparr>gsState := SecretRetiring\<rparr>"
  let ?act = "\<lambda>x. x\<lparr>gsState := SecretActive, gsActivatedAt := Some (db_instant now)\<rparr>"
  obtain pending d1 d2 u where d1: "move_secret org i (igActiveSecretVersion current) SecretActive ?ret
      (ErrText ''active Webhook signing secret is missing'') d = Inr d1"
    and d2: "move_secret org i pending SecretPending ?act (ErrIs PendingSecretMissing) d1 = Inr d2"
    and up: "update_integration org i (version_row u) d2 = Inr d'" and u: "igActiveSecretVersion u = pending"
    using tx c by (auto simp: activate_secret_tx_def and_then_Inr Let_def split: option.splits)
  have W: "unique_on (\<lambda>x. Some (secret_key x)) (dbSecrets d)" "unique_on unique_state (dbSecrets d)"
    "\<forall>x \<in> set (dbSecrets d). secret_row_ok x" using inv unfolding webhook_inv_def by blast+
  note K1 = move_secret_keeps [OF d1 _ W] and M1 = moved_secret_in [OF d1]
  have key: "secret_key (?ret x) = secret_key x" "secret_key (?act x) = secret_key x" for x by (simp_all add: secret_key_def)
  note K2 = move_secret_keeps [OF d2 _ K1(1) K1(2) K1(3)] and M2 = moved_secret_in [OF d2]
  have frame: "dbIntegrations d2 = dbIntegrations d" "dbDeliveries d2 = dbDeliveries d"
    using move_secret_Inr [OF d1] move_secret_Inr [OF d2] by simp_all
  obtain p1 where p1: "p1 \<in> set (dbSecrets d1)" "secret_of org i SecretPending p1" "gsVersion p1 = pending"
    using move_secret_Inr [OF d2] by blast
  have active: "\<exists>x \<in> set (dbSecrets d2). secret_key x = (org, i, pending) \<and> gsState x = SecretActive"
    using M2 [OF p1(1)] p1 by (intro bexI [of _ "?act p1"]) (simp_all add: secret_key_def secret_of_def)
  have stays: "\<exists>y \<in> set (dbSecrets d2). secret_key y = secret_key x \<and> gsState y \<in> {SecretActive, SecretRetiring}"
    if x: "x \<in> set (dbSecrets d)" "gsState x \<in> {SecretActive, SecretRetiring}" for x
  proof -
    let ?y = "if secret_of org i SecretActive x \<and> gsVersion x = igActiveSecretVersion current then ?ret x else x"
    have "gsState ?y \<in> {SecretActive, SecretRetiring}" "secret_key ?y = secret_key x" using x by (auto simp: key)
    then show ?thesis using M2 [OF M1 [OF x(1)]]
      by (intro bexI [of _ ?y]) (auto simp: secret_of_def split: if_splits)
  qed
  have other: "\<exists>y \<in> set (dbSecrets d2). secret_key y = secret_key x \<and> gsState y = SecretActive"
    if "x \<in> set (dbSecrets d)" "gsState x = SecretActive" "(gsOrganizationID x, gsIntegrationID x) \<noteq> (org, i)" for x
    using M2 [OF M1 [OF that(1)]] that by (intro bexI [of _ x]) (auto simp: secret_of_def)
  have active': "\<exists>x \<in> set (dbSecrets d2). secret_key x = (giOrganizationID h, giID h, giActiveSecretVersion h)
      \<and> gsState x = SecretActive" if h: "h \<in> set (dbIntegrations d')" for h
  proof -
    obtain h0 where h0: "h0 \<in> set (dbIntegrations d)" "h = (if is_integration org i h0 then version_row u h0 else h0)"
      using h update_integration_Inr [OF up] frame by (auto simp: in_sql_update)
    show ?thesis
    proof (cases "is_integration org i h0")
      case True
      then show ?thesis using active h0 u by (simp add: is_integration_def)
    next
      case False
      obtain x where x: "x \<in> set (dbSecrets d)" "secret_key x = (giOrganizationID h0, giID h0, giActiveSecretVersion h0)"
        "gsState x = SecretActive" using active_row [OF inv h0(1)] by blast
      have "(gsOrganizationID x, gsIntegrationID x) \<noteq> (org, i)" using x(2) False by (auto simp: secret_key_def is_integration_def)
      then show ?thesis using other [OF x(1,3)] x(2) h0 False by simp
    qed
  qed
  have d': "d' = d2\<lparr>dbIntegrations := sql_update (is_integration org i) (version_row u) (dbIntegrations d2)\<rparr>"
    using update_integration_Inr [OF up] .
  have "unique_on (\<lambda>g. Some (giID g)) (dbIntegrations d')"
    using inv by (simp add: d' frame webhook_inv_def unique_on_sql_update)
  moreover have "enabled_count d' o1 \<le> MaxEnabledIntegrations" for o1
  proof -
    have "enabled_count d' o1 \<le> enabled_count d o1"
      unfolding enabled_count_def d' frame by simp (rule filter_no_more, auto simp: is_integration_def)
    then show ?thesis using inv by (auto simp: webhook_inv_def intro: order_trans)
  qed
  moreover have "usable_secret d' (vwOrganizationID v) (vwIntegrationID v) (vwSecretVersion v)"
    if v: "v \<in> set (dbDeliveries d)" "vwCompletedAt v = None" for v
  proof -
    obtain x where x: "x \<in> set (dbSecrets d)" "secret_key x = (vwOrganizationID v, vwIntegrationID v, vwSecretVersion v)"
      "gsState x \<in> {SecretActive, SecretRetiring}"
      using inv v by (auto simp: webhook_inv_def usable_secret_def)
    then show ?thesis using stays [OF x(1,3)] by (simp add: usable_secret_def d')
  qed
  ultimately show ?thesis using K2 active' key
    by (simp add: webhook_inv_def d' frame)
next
  case (Inl e)
  then show ?thesis using assms by (simp add: activate_secret_def run_tx_Inl)
qed

lemma retire_secret_inv:
  assumes inv: "webhook_inv d" and "retire_secret te d org i expected now = (r, d')"
  shows "webhook_inv d'"
proof (cases r)
  case (Inr v)
  then have tx: "retire_secret_tx te org i expected now d = Inr (v, d')"
    using assms(2) by (simp add: retire_secret_def run_tx_Inr)
  then obtain current where c: "found_integration te d org i expected = Inr current"
    by (auto simp: retire_secret_tx_def and_then_Inr)
  obtain g where g: "g \<in> set (dbIntegrations d)" "giOrganizationID g = org" "giID g = i" "scan_integration te d g = Inr current"
    using found_integration_Inr [OF c] by metis
  let ?f = "\<lambda>x. x\<lparr>gsState := SecretRetired, gsEnvelope := None, gsRetiredAt := Some (db_instant now)\<rparr>"
  obtain n d1 u where free: "\<not> sql_exists (needs_secret org i n) (dbDeliveries d)"
    and d1: "move_secret org i n SecretRetiring ?f (ErrIs RetiringSecretMissing) d = Inr d1"
    and up: "update_integration org i (version_row u) d1 = Inr d'"
    and u: "igActiveSecretVersion u = igActiveSecretVersion current"
    using tx c by (auto simp: retire_secret_tx_def and_then_Inr Let_def split: option.splits if_splits)
  have W: "unique_on (\<lambda>x. Some (secret_key x)) (dbSecrets d)" "unique_on unique_state (dbSecrets d)"
    "\<forall>x \<in> set (dbSecrets d). secret_row_ok x" using inv unfolding webhook_inv_def by blast+
  have key: "secret_key (?f x) = secret_key x" for x by (simp add: secret_key_def)
  note K = move_secret_keeps [OF d1 key W] and M = moved_secret_in [OF d1]
  have d1eq: "d1 = d\<lparr>dbSecrets := dbSecrets d1\<rparr>" using move_secret_Inr [OF d1] by simp
  have inv1: "webhook_inv (d\<lparr>dbSecrets := dbSecrets d1\<rparr>)"
  proof (rule webhook_inv_secrets [OF inv K])
    show "\<exists>y \<in> set (dbSecrets d1). secret_key y = secret_key x \<and> gsState y = SecretActive"
      if x: "x \<in> set (dbSecrets d)" "gsState x = SecretActive" for x
      using M [OF x(1)] x(2) by (intro bexI [of _ x]) (auto simp: secret_of_def)
    show "\<exists>y \<in> set (dbSecrets d1). secret_key y = secret_key x \<and> gsState y \<in> {SecretActive, SecretRetiring}"
      if x: "x \<in> set (dbSecrets d)" "gsState x = SecretRetiring" "v \<in> set (dbDeliveries d)" "vwCompletedAt v = None"
        "secret_key x = (vwOrganizationID v, vwIntegrationID v, vwSecretVersion v)" for x v
    proof -
      have "\<not> (secret_of org i SecretRetiring x \<and> gsVersion x = n)"
        using free x by (auto simp: needs_secret_def secret_of_def secret_key_def)
      then show ?thesis using M [OF x(1)] x(2) by (intro bexI [of _ x]) auto
    qed
  qed
  have frame: "dbIntegrations d1 = dbIntegrations d" using move_secret_Inr [OF d1] by simp
  show ?thesis
  proof (rule webhook_inv_integration [OF inv1 [folded d1eq] up])
    show "\<exists>x \<in> set (dbSecrets d1). secret_key x = (org, i, giActiveSecretVersion (version_row u h)) \<and> gsState x = SecretActive"
      if "h \<in> set (dbIntegrations d1)" "is_integration org i h" for h
      using active_row [OF inv1 [folded d1eq], of g] g frame u scan_integration_Inr [OF g(4)] by simp
  qed simp_all
next
  case (Inl e)
  then show ?thesis using assms by (simp add: retire_secret_def run_tx_Inl)
qed

lemma replace_envelope_inv:
  assumes inv: "webhook_inv d" and r: "replace_envelope d s v = (r, d')"
  shows "webhook_inv d'"
proof (cases "d' = d")
  case False
  let ?p = "\<lambda>x. gsOrganizationID x = ssOrganizationID s \<and> gsIntegrationID x = ssIntegrationID s
            \<and> gsVersion x = ssVersion s \<and> gsEnvelope x = Some (ssEnvelope s) \<and> gsState x \<noteq> SecretRetired"
  let ?f = "\<lambda>x. x\<lparr>gsEnvelope := Some v\<rparr>"
  have d': "d' = d\<lparr>dbSecrets := sql_update ?p ?f (dbSecrets d)\<rparr>"
    and ok: "\<forall>x \<in> set (dbSecrets d). ?p x \<longrightarrow> secret_row_ok (?f x)"
    using r False by (auto simp: replace_envelope_def Let_def list_ex_iff split: if_splits)
  have k: "secret_key (?f x) = secret_key x" "unique_state (?f x) = unique_state x" "gsState (?f x) = gsState x" for x
    by (simp_all add: secret_key_def unique_state_def)
  have W: "unique_on (\<lambda>x. Some (secret_key x)) (dbSecrets d)" "unique_on unique_state (dbSecrets d)"
    "\<forall>x \<in> set (dbSecrets d). secret_row_ok x" using inv unfolding webhook_inv_def by blast+
  have same: "\<exists>y \<in> set (sql_update ?p ?f (dbSecrets d)). secret_key y = secret_key x \<and> gsState y = gsState x"
    if x: "x \<in> set (dbSecrets d)" for x
    using x k by (intro bexI [of _ "if ?p x then ?f x else x"]) (auto simp: in_sql_update)
  show ?thesis unfolding d'
  proof (rule webhook_inv_secrets [OF inv])
    show "unique_on (\<lambda>x. Some (secret_key x)) (sql_update ?p ?f (dbSecrets d))"
      by (rule unique_on_sql_update) (simp_all add: W k)
    show "unique_on unique_state (sql_update ?p ?f (dbSecrets d))" by (rule unique_on_sql_update) (simp_all add: W k)
    show "\<forall>x \<in> set (sql_update ?p ?f (dbSecrets d)). secret_row_ok x" using ok W(3) by (auto simp: in_sql_update)
    show "\<exists>y \<in> set (sql_update ?p ?f (dbSecrets d)). secret_key y = secret_key x \<and> gsState y = SecretActive"
      if "x \<in> set (dbSecrets d)" "gsState x = SecretActive" for x using same [OF that(1)] that(2) by simp
    show "\<exists>y \<in> set (sql_update ?p ?f (dbSecrets d)). secret_key y = secret_key x \<and> gsState y \<in> {SecretActive, SecretRetiring}"
      if "x \<in> set (dbSecrets d)" "gsState x = SecretRetiring" for x using same [OF that(1)] that(2) by auto
  qed
qed (use inv in simp)

lemma rewrap_secrets_inv:
  "webhook_inv d \<Longrightarrow> rewrap_secrets cr kr random n ss d = (r, d') \<Longrightarrow> webhook_inv d'"
proof (induction ss arbitrary: n d)
  case (Cons s ss)
  let ?ad = "secret_associated_data (ssOrganizationID s) (ssIntegrationID s) (ssVersion s)"
  show ?case
  proof (cases "keyring_open cr kr (ssEnvelope s) ?ad")
    case (Inr plain)
    show ?thesis
    proof (cases "envKeyID (ssEnvelope s) = active_key_id kr")
      case False
      show ?thesis
      proof (cases "keyring_seal cr kr plain ?ad (random n)")
        case sealed: (Inr v)
        obtain q d1 where q: "replace_envelope d s v = (q, d1)" by (metis prod.collapse)
        have "webhook_inv d1" using replace_envelope_inv [OF Cons.prems(1) q] .
        then show ?thesis using Cons.prems(2) Cons.IH [of d1 "Suc n"] Inr False sealed q
          by (auto simp: Let_def split: sum.splits if_splits)
      qed (use Cons.prems Inr False in \<open>simp add: Let_def\<close>)
    qed (use Cons Inr in \<open>simp add: Let_def\<close>)
  qed (use Cons.prems in \<open>simp add: Let_def\<close>)
qed simp

lemma webhook_initialize_inv:
  "webhook_inv d \<Longrightarrow> webhook_initialize cr kr random d = (r, d') \<Longrightarrow> webhook_inv d'"
  by (auto simp: webhook_initialize_def Let_def rewrap_secrets_inv split: if_splits)

lemma service_create_inv:
  assumes inv: "webhook_inv d" and "service_create te cr kr random org name url clock uuid d = (r, d')"
  shows "webhook_inv d'"
proof (cases "d' = d")
  case False
  obtain v s where v: "create_integration d v s = (Inr (), d')" "igEnabled v = False" "igActiveSecretVersion v = 1"
    "ssOrganizationID s = igOrganizationID v" "ssIntegrationID s = igID v" "ssVersion s = 1" "ssState s = SecretActive"
    using assms(2) False
    by (auto simp: service_create_def Let_def new_integration_def new_stored_secret_def create_integration_def run_tx_Inl and_then_Inr
        split: prod.splits if_splits option.splits sum.splits)
  let ?g = "integration_to_row v" and ?x = "secret_to_row s (Some (ssCreatedAt s))"
  have new: "\<forall>g \<in> set (dbIntegrations d). giID g \<noteq> igID v"
    and ins: "insert_secret ''insert Webhook signing secret'' ?x (d\<lparr>dbIntegrations := dbIntegrations d @ [?g]\<rparr>) = Inr d'"
    using v(1) by (auto simp: create_integration_def run_tx_Inr create_integration_tx_def and_then_Inr Let_def
        integration_to_row_def split: if_splits)
  note I = insert_secret_Inr [OF ins]
  have g: "giID ?g = igID v" "giOrganizationID ?g = igOrganizationID v" "giActiveSecretVersion ?g = 1" "\<not> giEnabled ?g"
    using v by (simp_all add: integration_to_row_def)
  have x: "secret_key ?x = (igOrganizationID v, igID v, 1)" "gsState ?x = SecretActive"
    using v by (simp_all add: secret_to_row_def secret_key_def)
  have d': "d' = d\<lparr>dbIntegrations := dbIntegrations d @ [?g], dbSecrets := dbSecrets d @ [?x]\<rparr>" using I by simp
  have W: "unique_on (\<lambda>g. Some (giID g)) (dbIntegrations d)" using inv unfolding webhook_inv_def by blast
  note K = insert_secret_keeps [OF inv ins]
  have "unique_on (\<lambda>g. Some (giID g)) (dbIntegrations d @ [?g])" using new W g by (simp add: unique_on_append)
  moreover have "usable_secret d o1 i1 n1 \<Longrightarrow> usable_secret d' o1 i1 n1" for o1 i1 n1
    by (auto simp: usable_secret_def d')
  moreover have "enabled_count d' o1 = enabled_count d o1" for o1 using g by (simp add: enabled_count_def d')
  moreover have "\<exists>y \<in> set (dbSecrets d'). secret_key y = (giOrganizationID h, giID h, giActiveSecretVersion h) \<and> gsState y = SecretActive"
    if "h \<in> set (dbIntegrations d')" for h
    using that active_row [OF inv, of h] g x by (auto simp: d')
  ultimately show ?thesis using inv K by (simp add: webhook_inv_def d')
qed (use inv in simp)

section \<open>Rewrapping\<close>

definition secret_ad :: "secret_row \<Rightarrow> string" where
  "secret_ad x = secret_associated_data (gsOrganizationID x) (gsIntegrationID x) (gsVersion x)"

definition opens_to :: "crypto \<Rightarrow> keyring \<Rightarrow> secret_row \<Rightarrow> envelope \<Rightarrow> string \<Rightarrow> bool" where
  "opens_to cr k x v text' \<longleftrightarrow> keyring_open cr (Some k) v (secret_ad x) = Inr text'"

text \<open>A secret and what rewrapping makes of it: the same secret under the active key.\<close>

definition rewrapped :: "crypto \<Rightarrow> keyring \<Rightarrow> secret_row \<Rightarrow> secret_row \<Rightarrow> bool" where
  "rewrapped cr k x y \<longleftrightarrow> (\<exists>v w secret. gsEnvelope x = Some v \<and> y = x\<lparr>gsEnvelope := Some w\<rparr> \<and> envKeyID w = krActive k
     \<and> opens_to cr k x v secret \<and> opens_to cr k x w secret)"

definition stored_as :: "db \<Rightarrow> stored_secret \<Rightarrow> secret_row \<Rightarrow> bool" where
  "stored_as d s x \<longleftrightarrow> x \<in> set (dbSecrets d) \<and> gsState x \<noteq> SecretRetired
     \<and> secret_key x = (ssOrganizationID s, ssIntegrationID s, ssVersion s) \<and> gsEnvelope x = Some (ssEnvelope s)"

definition stored_key :: "stored_secret \<Rightarrow> string \<times> string \<times> int" where
  "stored_key s = (ssOrganizationID s, ssIntegrationID s, ssVersion s)"

lemma replace_envelope_hit:
  assumes "webhook_inv d" and x: "stored_as d s x" and "replace_envelope d s v = (r, d')"
    and "r = Inr () \<or> r = Inl e \<and> errors_is e WebhookSecretChanged"
  shows "dbSecrets d' = map (\<lambda>y. if y = x then y\<lparr>gsEnvelope := Some v\<rparr> else y) (dbSecrets d)"
proof -
  let ?p = "\<lambda>y. gsOrganizationID y = ssOrganizationID s \<and> gsIntegrationID y = ssIntegrationID s
            \<and> gsVersion y = ssVersion s \<and> gsEnvelope y = Some (ssEnvelope s) \<and> gsState y \<noteq> SecretRetired"
  have p: "?p y \<longleftrightarrow> y = x" if y: "y \<in> set (dbSecrets d)" for y
    using secret_key_state [OF assms(1) y, of x] x by (auto simp: stored_as_def secret_key_def)
  have "sql_exists ?p (dbSecrets d)" using x p by (auto simp: stored_as_def)
  then have "d' = d\<lparr>dbSecrets := sql_update ?p (\<lambda>y. y\<lparr>gsEnvelope := Some v\<rparr>) (dbSecrets d)\<rparr>"
    using assms(3,4) by (auto simp: replace_envelope_def Let_def split: if_splits)
  then show ?thesis using p by (auto simp: sql_update_def)
qed

lemma rewrap_secrets_rewraps:
  assumes cr: "seals cr" and k: "keyring_ok k"
    and random: "\<And>n bytes. random n = Inr bytes \<Longrightarrow> length bytes = nonce_size"
  shows "webhook_inv d \<Longrightarrow> distinct (map stored_key ss) \<Longrightarrow> (\<And>s. s \<in> set ss \<Longrightarrow> \<exists>x. stored_as d s x) \<Longrightarrow>
    rewrap_secrets cr (Some k) random n ss d = (Inr (), d') \<Longrightarrow>
    \<exists>h. dbSecrets d' = map h (dbSecrets d) \<and> (\<forall>x \<in> set (dbSecrets d).
      if secret_key x \<in> stored_key ` set ss then rewrapped cr k x (h x) else h x = x)"
proof (induction ss arbitrary: n d)
  case Nil
  then show ?case by (intro exI [of _ id]) simp
next
  case (Cons s ss)
  obtain x where x: "stored_as d s x" using Cons.prems(3) by (meson list.set_intros(1))
  have kx: "secret_key x = stored_key s" and xin: "x \<in> set (dbSecrets d)" and ex: "gsEnvelope x = Some (ssEnvelope s)"
    using x by (auto simp: stored_as_def stored_key_def)
  have ad: "secret_associated_data (ssOrganizationID s) (ssIntegrationID s) (ssVersion s) = secret_ad x"
    using kx by (simp add: secret_ad_def secret_key_def stored_key_def)
  have only: "y = x \<longleftrightarrow> secret_key y = stored_key s" if "y \<in> set (dbSecrets d)" for y
    using secret_key_state [OF Cons.prems(1) that xin] kx by auto
  obtain plain where plain: "keyring_open cr (Some k) (ssEnvelope s) (secret_ad x) = Inr plain"
    using Cons.prems(4) by (cases "keyring_open cr (Some k) (ssEnvelope s) (secret_ad x)") (simp_all add: Let_def ad)
  have notin: "stored_key s \<notin> stored_key ` set ss" using Cons.prems(2) by auto
  show ?case
  proof (cases "envKeyID (ssEnvelope s) = active_key_id (Some k)")
    case True
    then have rest: "rewrap_secrets cr (Some k) random n ss d = (Inr (), d')"
      using Cons.prems(4) plain by (simp add: Let_def ad)
    obtain h where h: "dbSecrets d' = map h (dbSecrets d)" "\<forall>x \<in> set (dbSecrets d).
      if secret_key x \<in> stored_key ` set ss then rewrapped cr k x (h x) else h x = x"
      using Cons.IH [OF Cons.prems(1) _ _ rest] Cons.prems(2,3) by auto
    have "rewrapped cr k x (h x)"
    proof -
      have "h x = x" using h(2) xin kx notin by auto
      moreover have "x = x\<lparr>gsEnvelope := Some (ssEnvelope s)\<rparr>" using ex by simp
      ultimately show ?thesis unfolding rewrapped_def opens_to_def using ex True plain
        by (intro exI [of _ "ssEnvelope s"]) (simp add: active_key_id_def)
    qed
    then have "\<forall>y \<in> set (dbSecrets d). if secret_key y \<in> stored_key ` set (s # ss) then rewrapped cr k y (h y) else h y = y"
      using h(2) only by auto
    then show ?thesis using h(1) by blast
  next
    case False
    obtain v where v: "keyring_seal cr (Some k) plain (secret_ad x) (random n) = Inr v"
      using Cons.prems(4) plain False
      by (cases "keyring_seal cr (Some k) plain (secret_ad x) (random n)") (simp_all add: Let_def ad)
    obtain r d1 where r: "replace_envelope d s v = (r, d1)" by (metis prod.collapse)
    have ok: "r = Inr () \<or> (\<exists>e. r = Inl e \<and> errors_is e WebhookSecretChanged)"
      and rest: "rewrap_secrets cr (Some k) random (Suc n) ss d1 = (Inr (), d')"
      using Cons.prems(4) plain False v r by (auto simp: Let_def ad split: sum.splits if_splits)
    let ?h1 = "\<lambda>y. if y = x then y\<lparr>gsEnvelope := Some v\<rparr> else y"
    have d1: "dbSecrets d1 = map ?h1 (dbSecrets d)" using replace_envelope_hit [OF Cons.prems(1) x r] ok by blast
    have key: "secret_key (?h1 y) = secret_key y" for y by (simp add: secret_key_def)
    have inv1: "webhook_inv d1" using replace_envelope_inv [OF Cons.prems(1) r] .
    have st: "\<exists>x. stored_as d1 t x" if t: "t \<in> set ss" for t
    proof -
      obtain y where y: "stored_as d t y" using Cons.prems(3) [of t] t by auto
      have "stored_key t \<noteq> stored_key s" using notin t by (metis imageI)
      then have "y \<noteq> x" using y kx by (auto simp: stored_as_def stored_key_def)
      then have "stored_as d1 t y" using y by (auto simp: stored_as_def d1 intro: rev_image_eqI)
      then show ?thesis by blast
    qed
    obtain h where h: "dbSecrets d' = map h (dbSecrets d1)" "\<forall>x \<in> set (dbSecrets d1).
      if secret_key x \<in> stored_key ` set ss then rewrapped cr k x (h x) else h x = x"
      using Cons.IH [OF inv1 _ st rest] Cons.prems(2) by auto
    obtain bytes where bytes: "random n = Inr bytes" using v
      by (cases "random n") (auto simp: keyring_seal_def and_then_Inr)
    have "keyring_open cr (Some k) v (secret_ad x) = Inr plain"
      using seal_open [OF cr k random [OF bytes] v [unfolded bytes]] by simp
    moreover have "envKeyID v = krActive k" using v bytes by (auto simp: keyring_seal_def and_then_Inr)
    ultimately have rx: "rewrapped cr k x (?h1 x)" unfolding rewrapped_def opens_to_def using ex plain by auto
    have "if secret_key y \<in> stored_key ` set (s # ss) then rewrapped cr k y (h (?h1 y)) else h (?h1 y) = y"
      if y: "y \<in> set (dbSecrets d)" for y
    proof (cases "y = x")
      case True
      have m: "?h1 y \<in> set (dbSecrets d1)" unfolding d1 set_map by (rule imageI [OF y])
      have "secret_key (?h1 y) \<notin> stored_key ` set ss" using key [of y] True kx notin by simp
      then have "h (?h1 y) = ?h1 y" using bspec [OF h(2) m] by (simp only: if_False)
      then show ?thesis using rx True kx by simp
    next
      case False
      then have "secret_key y \<noteq> stored_key s" using only [OF y] by simp
      moreover have "y \<in> set (dbSecrets d1)" using y False by (auto simp: d1 intro: rev_image_eqI)
      ultimately show ?thesis using h(2) False by auto
    qed
    then show ?thesis using h(1) d1 by (intro exI [of _ "h \<circ> ?h1"]) simp
  qed
qed

lemma retained_stored:
  assumes "webhook_inv d"
  shows "distinct (map stored_key (list_retained_secrets d))"
    and "s \<in> set (list_retained_secrets d) \<Longrightarrow> \<exists>x. stored_as d s x"
    and "x \<in> set (dbSecrets d) \<Longrightarrow> secret_key x \<in> stored_key ` set (list_retained_secrets d) \<longleftrightarrow> gsState x \<noteq> SecretRetired"
proof -
  let ?xs = "filter (\<lambda>x. gsState x \<noteq> SecretRetired) (dbSecrets d)"
  let ?s = "\<lambda>x. \<lparr>ssOrganizationID = gsOrganizationID x, ssIntegrationID = gsIntegrationID x,
       ssVersion = gsVersion x, ssState = gsState x,
       ssEnvelope = (case gsEnvelope x of None \<Rightarrow> \<lparr>envKeyID = '''', envNonce = '''', envCiphertext = ''''\<rparr> | Some v \<Rightarrow> v),
       ssCreatedAt = to_utc (gsCreatedAt x)\<rparr>"
  have l: "list_retained_secrets d = map ?s (sort_key secret_key ?xs)" by (simp add: list_retained_secrets_def)
  have key: "stored_key \<circ> ?s = secret_key" by (auto simp: stored_key_def secret_key_def)
  have uq: "distinct (map secret_key xs)" if "unique_on (\<lambda>x. Some (secret_key x)) xs" for xs
    using that by (induction xs) auto
  have "distinct (map secret_key ?xs)"
    using uq [of "dbSecrets d"] assms by (simp add: webhook_inv_def distinct_map_filter)
  then have "distinct (map secret_key (sort_key secret_key ?xs))" by (simp add: distinct_map)
  then show "distinct (map stored_key (list_retained_secrets d))" unfolding l map_map key .
  show "\<exists>x. stored_as d s x" if s: "s \<in> set (list_retained_secrets d)"
  proof -
    obtain x where x: "x \<in> set (dbSecrets d)" "gsState x \<noteq> SecretRetired" "s = ?s x" using s unfolding l by auto
    moreover have "gsEnvelope x \<noteq> None" using assms x by (auto simp: webhook_inv_def secret_row_ok_def)
    ultimately show ?thesis by (intro exI [of _ x]) (auto simp: stored_as_def secret_key_def)
  qed
  have "stored_key ` set (list_retained_secrets d) = secret_key ` set ?xs"
    unfolding l set_map set_sort image_comp key ..
  then show "secret_key x \<in> stored_key ` set (list_retained_secrets d) \<longleftrightarrow> gsState x \<noteq> SecretRetired"
    if "x \<in> set (dbSecrets d)" using secret_key_state [OF assms that] that by auto
qed

definition sealed_envelope :: envelope where
  "sealed_envelope = \<lparr>envKeyID = ''k1'', envNonce = replicate 12 (CHR ''n''),
     envCiphertext = ''phwh_s'' @ replicate 16 (CHR ''.'')\<rparr>"

definition sealed_row :: "string \<Rightarrow> int \<Rightarrow> secret_state \<Rightarrow> secret_row" where
  "sealed_row i n st = \<lparr>gsOrganizationID = ''org'', gsIntegrationID = i, gsVersion = n, gsState = st,
     gsEnvelope = (if st = SecretRetired then None else Some sealed_envelope), gsCreatedAt = sample_time,
     gsActivatedAt = Some sample_time, gsRetiredAt = None\<rparr>"

definition webhook_db :: db where
  "webhook_db = alert_db\<lparr>dbIntegrations := [sample_integration ''g1'' True\<lparr>giActiveSecretVersion := 2\<rparr>,
       sample_integration ''g2'' False],
     dbSecrets := [sealed_row ''g1'' 1 SecretRetired, sealed_row ''g1'' 2 SecretActive, sealed_row ''g2'' 1 SecretActive]\<rparr>"

definition nonces :: "nat \<Rightarrow> string result" where
  "nonces n = Inr (replicate 12 (CHR ''x''))"

definition rewrapped_db :: db where
  "rewrapped_db = snd (webhook_initialize plain_crypto (Some (key_of rotated_keys)) nonces webhook_db)"

lemma webhook_db_inv: "webhook_inv webhook_db"
  unfolding webhook_inv_def
proof (intro conjI)
  show "\<forall>org. enabled_count webhook_db org \<le> MaxEnabledIntegrations"
    by (auto simp: enabled_count_def webhook_db_def alert_db_def sample_integration_def MaxEnabledIntegrations_def)
  show "\<forall>v \<in> set (dbDeliveries webhook_db). vwCompletedAt v = None \<longrightarrow>
      usable_secret webhook_db (vwOrganizationID v) (vwIntegrationID v) (vwSecretVersion v)"
    by (simp add: webhook_db_def alert_db_def sample_db_def)
qed code_simp+

end
