(* ===== verification/WebhookDelivery.thy ===== *)
theory WebhookDelivery
  imports WebhookStore
begin

text \<open>
  Models \<open>internal/postgres/webhook_delivery.go\<close>, \<open>internal/webhook/delivery.go\<close> and
  \<open>delivery_dispatcher.go\<close>: how routed deliveries are leased, attempted at most five times and
  completed. The HTTP client, the JSON printer and the signature are parameters. The lemmas show
  that the attempts of a delivery are numbered without gaps, that only the last can be in progress,
  that a completed delivery never changes again, and that no rotation takes away a secret that an
  unfinished delivery needs.
\<close>

section \<open>Data\<close>

definition MaxDeliveryAttempts :: int where "MaxDeliveryAttempts = 5"
definition MaxDeliveryBodyBytes :: nat where "MaxDeliveryBodyBytes = 16 * 1024"
definition DeliveryBatchSize :: int where "DeliveryBatchSize = 4"
definition DeliveryConcurrency :: int where "DeliveryConcurrency = 4"
definition DeliveryLeaseDuration :: duration where "DeliveryLeaseDuration = 30 * second"
definition DeliveryTickInterval :: duration where "DeliveryTickInterval = second"

record delivery_route =
  drDeliveryID :: string
  drOrganizationID :: string
  drAlertID :: string
  drAlertKind :: string
  drMonitorID :: string
  drIncidentID :: string
  drIncidentVersion :: int
  drIntegrationID :: string
  drIntegrationVersion :: int
  drSecretVersion :: int
  drDestinationURL :: string
  drOccurredAt :: go_time
  drRoutedAt :: go_time
  drEnvelope :: envelope

record delivery_claim = delivery_route +
  dcSequence :: int
  dcStartedAt :: go_time
  dcLeaseExpiresAt :: go_time
  dcLeaseHolder :: string

record attempt_update =
  auOutcome :: attempt_outcome
  auFinishedAt :: go_time
  auHTTPStatus :: "int option"
  auFailureCode :: string

section \<open>Claiming\<close>

text \<open>The constraints of \<open>webhook_delivery_attempts\<close>.\<close>

definition attempt_row_ok :: "attempt_row \<Rightarrow> bool" where
  "attempt_row_ok q \<longleftrightarrow> 1 \<le> qwIntegrationVersion q \<and> 1 \<le> qwSecretVersion q
     \<and> 1 \<le> qwSequence q \<and> qwSequence q \<le> 5
     \<and> (case qwHTTPStatus q of None \<Rightarrow> True | Some s \<Rightarrow> 100 \<le> s \<and> s \<le> 599)
     \<and> (case qwFinishedAt q of None \<Rightarrow> True | Some t \<Rightarrow> \<not> before t (qwStartedAt q))
     \<and> (case qwOutcome q of
          AttemptInProgress \<Rightarrow> qwFinishedAt q = None \<and> qwHTTPStatus q = None \<and> qwFailureCode q = None
        | AttemptSucceeded \<Rightarrow> qwFinishedAt q \<noteq> None \<and> qwFailureCode q = None
            \<and> (case qwHTTPStatus q of None \<Rightarrow> False | Some s \<Rightarrow> 200 \<le> s \<and> s \<le> 299)
        | AttemptFailed \<Rightarrow> qwFinishedAt q \<noteq> None \<and> qwFailureCode q \<noteq> None
        | AttemptCancelled \<Rightarrow> qwFinishedAt q \<noteq> None \<and> qwHTTPStatus q = None
            \<and> qwFailureCode q = Some ''webhook.delivery.cancelled'')"

definition attempt_of :: "delivery_row \<Rightarrow> attempt_row \<Rightarrow> bool" where
  "attempt_of v q \<longleftrightarrow> qwDeliveryID q = vwID v \<and> qwOrganizationID q = vwOrganizationID v"

definition lease_over :: "go_time \<Rightarrow> delivery_row \<Rightarrow> bool" where
  "lease_over now v \<longleftrightarrow> (case vwLeaseExpiresAt v of None \<Rightarrow> False | Some t \<Rightarrow> \<not> after t now)"

text \<open>An attempt whose lease ran out has an uncertain outcome.\<close>

definition attempt_expired :: "db \<Rightarrow> go_time \<Rightarrow> attempt_row \<Rightarrow> bool" where
  "attempt_expired d now q \<longleftrightarrow> qwOutcome q = AttemptInProgress
     \<and> sql_exists (\<lambda>v. attempt_of v q \<and> qwSequence q = vwAttemptCount v \<and> vwCompletedAt v = None \<and> lease_over now v)
         (dbDeliveries d)"

definition uncertain_attempt :: "go_time \<Rightarrow> attempt_row \<Rightarrow> attempt_row" where
  "uncertain_attempt now q = q\<lparr>qwOutcome := AttemptFailed, qwFinishedAt := Some now,
     qwFailureCode := Some ''webhook.delivery.outcome.uncertain''\<rparr>"

definition finalize_expired :: "go_time \<Rightarrow> db \<Rightarrow> db result" where
  "finalize_expired now d =
     (if list_ex (\<lambda>q. attempt_expired d now q \<and> \<not> attempt_row_ok (uncertain_attempt now q)) (dbAttempts d) then
        Inl (ErrText ''finalize expired Webhook delivery attempt'')
      else Inr (d\<lparr>dbAttempts := sql_update (attempt_expired d now) (uncertain_attempt now) (dbAttempts d)\<rparr>))"

definition delivery_exhausted :: "db \<Rightarrow> go_time \<Rightarrow> delivery_row \<Rightarrow> bool" where
  "delivery_exhausted d now v \<longleftrightarrow> vwCompletedAt v = None \<and> MaxDeliveryAttempts \<le> vwAttemptCount v \<and> lease_over now v
     \<and> \<not> sql_exists (\<lambda>q. attempt_of v q \<and> qwOutcome q = AttemptInProgress) (dbAttempts d)"

definition completed_delivery :: "go_time \<Rightarrow> delivery_row \<Rightarrow> delivery_row" where
  "completed_delivery now v = v\<lparr>vwCompletedAt := Some now, vwLeaseHolder := None, vwLeaseExpiresAt := None\<rparr>"

definition complete_exhausted :: "go_time \<Rightarrow> db \<Rightarrow> db" where
  "complete_exhausted now d =
     d\<lparr>dbDeliveries := sql_update (delivery_exhausted d now) (completed_delivery now) (dbDeliveries d)\<rparr>"

text \<open>The joins of the claim: what a delivery needs of its Alert, Integration and secret.\<close>

definition route_of :: "db \<Rightarrow> delivery_row \<Rightarrow> delivery_route option" where
  "route_of d v =
     (case find (\<lambda>a. awID a = vwAlertID v \<and> awOrganizationID a = vwOrganizationID v) (dbAlerts d) of
        None \<Rightarrow> None
      | Some a \<Rightarrow>
          case find (is_integration (vwOrganizationID v) (vwIntegrationID v)) (dbIntegrations d) of
            None \<Rightarrow> None
          | Some g \<Rightarrow>
              case find (\<lambda>x. secret_key x = (vwOrganizationID v, vwIntegrationID v, vwSecretVersion v)) (dbSecrets d) of
                None \<Rightarrow> None
              | Some x \<Rightarrow> Some
                  \<lparr>drDeliveryID = vwID v, drOrganizationID = vwOrganizationID v, drAlertID = vwAlertID v,
                   drAlertKind = awKind a, drMonitorID = awMonitorID a, drIncidentID = awIncidentID a,
                   drIncidentVersion = awIncidentVersion a, drIntegrationID = vwIntegrationID v,
                   drIntegrationVersion = vwIntegrationVersion v, drSecretVersion = vwSecretVersion v,
                   drDestinationURL = giDestinationURL g, drOccurredAt = to_utc (awOccurredAt a),
                   drRoutedAt = to_utc (vwRoutedAt v),
                   drEnvelope = (case gsEnvelope x of
                     None \<Rightarrow> \<lparr>envKeyID = '''', envNonce = '''', envCiphertext = ''''\<rparr> | Some e \<Rightarrow> e)\<rparr>)"

definition claimable :: "db \<Rightarrow> go_time \<Rightarrow> delivery_row \<Rightarrow> bool" where
  "claimable d now v \<longleftrightarrow> vwCompletedAt v = None \<and> \<not> after (vwAvailableAt v) now
     \<and> vwAttemptCount v < MaxDeliveryAttempts \<and> (vwLeaseExpiresAt v = None \<or> lease_over now v)
     \<and> route_of d v \<noteq> None"

definition delivery_candidates :: "db \<Rightarrow> go_time \<Rightarrow> nat \<Rightarrow> delivery_row list" where
  "delivery_candidates d now limit =
     take limit (sort_key (\<lambda>v. (nanos (vwAvailableAt v), vwID v)) (filter (claimable d now) (dbDeliveries d)))"

definition leased_delivery :: "string \<Rightarrow> go_time \<Rightarrow> delivery_row \<Rightarrow> delivery_row" where
  "leased_delivery holder expires v = v\<lparr>vwAttemptCount := vwAttemptCount v + 1, vwLeaseHolder := Some holder,
     vwLeaseExpiresAt := Some expires\<rparr>"

definition lease_hits :: "delivery_row \<Rightarrow> delivery_row \<Rightarrow> bool" where
  "lease_hits c v \<longleftrightarrow> vwID v = vwID c \<and> vwOrganizationID v = vwOrganizationID c \<and> vwCompletedAt v = None
     \<and> vwAttemptCount v = vwAttemptCount c"

definition new_attempt :: "delivery_row \<Rightarrow> go_time \<Rightarrow> attempt_row" where
  "new_attempt c now =
     \<lparr>qwOrganizationID = vwOrganizationID c, qwDeliveryID = vwID c, qwAlertID = vwAlertID c,
      qwIntegrationID = vwIntegrationID c, qwIntegrationVersion = vwIntegrationVersion c,
      qwSecretVersion = vwSecretVersion c, qwSequence = vwAttemptCount c + 1, qwStartedAt = now,
      qwFinishedAt = None, qwOutcome = AttemptInProgress, qwHTTPStatus = None, qwFailureCode = None\<rparr>"

definition insert_attempt :: "attempt_row \<Rightarrow> db \<Rightarrow> db result" where
  "insert_attempt q d =
     (if \<not> attempt_row_ok q
        \<or> sql_exists (\<lambda>x. qwDeliveryID x = qwDeliveryID q \<and> qwSequence x = qwSequence q) (dbAttempts d)
        \<or> \<not> sql_exists (\<lambda>v. attempt_of v q) (dbDeliveries d)
        \<or> \<not> sql_exists (\<lambda>a. awID a = qwAlertID q \<and> awOrganizationID a = qwOrganizationID q) (dbAlerts d)
        \<or> \<not> sql_exists (is_integration (qwOrganizationID q) (qwIntegrationID q)) (dbIntegrations d)
        \<or> \<not> secret_in_db d (qwOrganizationID q) (qwIntegrationID q) (qwSecretVersion q)
      then Inl (ErrText ''insert Webhook delivery attempt'')
      else Inr (d\<lparr>dbAttempts := dbAttempts d @ [q]\<rparr>))"

definition lease_delivery :: "string \<Rightarrow> go_time \<Rightarrow> go_time \<Rightarrow> delivery_row \<Rightarrow> db \<Rightarrow> db result" where
  "lease_delivery holder now expires c d =
     (if length (filter (lease_hits c) (dbDeliveries d)) \<noteq> 1 then Inl (ErrText ''Webhook delivery changed while locked'')
      else insert_attempt (new_attempt c now)
        (d\<lparr>dbDeliveries := sql_update (lease_hits c) (leased_delivery holder expires) (dbDeliveries d)\<rparr>))"

fun lease_deliveries :: "string \<Rightarrow> go_time \<Rightarrow> go_time \<Rightarrow> delivery_row list \<Rightarrow> db \<Rightarrow> db result" where
  "lease_deliveries holder now expires [] d = Inr d"
| "lease_deliveries holder now expires (c # cs) d =
     and_then (lease_delivery holder now expires c d) (lease_deliveries holder now expires cs)"

definition claim_of :: "string \<Rightarrow> go_time \<Rightarrow> go_time \<Rightarrow> delivery_row \<Rightarrow> delivery_route \<Rightarrow> delivery_claim" where
  "claim_of holder now expires c r =
     delivery_route.extend r \<lparr>dcSequence = vwAttemptCount c + 1, dcStartedAt = to_utc now, dcLeaseExpiresAt = to_utc expires,
       dcLeaseHolder = holder\<rparr>"

definition claim_deliveries_tx :: "string \<Rightarrow> go_time \<Rightarrow> go_time \<Rightarrow> int \<Rightarrow> db \<Rightarrow> (delivery_claim list \<times> db) result" where
  "claim_deliveries_tx holder now expires limit d =
     and_then (finalize_expired (db_instant now) d) (\<lambda>d1.
       let d2 = complete_exhausted (db_instant now) d1;
           cs = delivery_candidates d2 (db_instant now) (nat limit)
       in and_then (lease_deliveries holder (db_instant now) (db_instant expires) cs d2) (\<lambda>d'.
            Inr (map (\<lambda>c. claim_of holder now expires c (the (route_of d2 c))) cs, d')))"

definition claim_deliveries :: "db \<Rightarrow> string \<Rightarrow> go_time \<Rightarrow> go_time \<Rightarrow> int \<Rightarrow> delivery_claim list result \<times> db" where
  "claim_deliveries d holder now expires limit =
     (if holder = '''' \<or> limit < 1 \<or> limit > DeliveryBatchSize \<or> \<not> after expires now then
        (Inl (ErrText ''invalid Webhook delivery claim''), d)
      else run_tx (claim_deliveries_tx holder now expires limit) d)"

section \<open>Completing\<close>

definition attempt_held :: "db \<Rightarrow> delivery_claim \<Rightarrow> go_time \<Rightarrow> attempt_row \<Rightarrow> bool" where
  "attempt_held d c finished q \<longleftrightarrow> qwDeliveryID q = drDeliveryID c \<and> qwOrganizationID q = drOrganizationID c
     \<and> qwSequence q = dcSequence c \<and> qwOutcome q = AttemptInProgress
     \<and> sql_exists (\<lambda>v. attempt_of v q \<and> vwLeaseHolder v = Some (dcLeaseHolder c)
          \<and> (case vwLeaseExpiresAt v of None \<Rightarrow> False | Some t \<Rightarrow> after t finished)
          \<and> vwAttemptCount v = dcSequence c) (dbDeliveries d)"

definition finished_attempt :: "attempt_update \<Rightarrow> attempt_row \<Rightarrow> attempt_row" where
  "finished_attempt u q = q\<lparr>qwFinishedAt := Some (db_instant (auFinishedAt u)), qwOutcome := auOutcome u,
     qwHTTPStatus := auHTTPStatus u, qwFailureCode := text_pointer (auFailureCode u)\<rparr>"

definition delivery_held :: "delivery_claim \<Rightarrow> delivery_row \<Rightarrow> bool" where
  "delivery_held c v \<longleftrightarrow> vwID v = drDeliveryID c \<and> vwOrganizationID v = drOrganizationID c
     \<and> vwLeaseHolder v = Some (dcLeaseHolder c) \<and> vwAttemptCount v = dcSequence c"

definition released_delivery :: "go_time option \<Rightarrow> bool \<Rightarrow> go_time \<Rightarrow> delivery_row \<Rightarrow> delivery_row" where
  "released_delivery available terminal finished v =
     v\<lparr>vwAvailableAt := (case available of None \<Rightarrow> vwAvailableAt v | Some t \<Rightarrow> db_instant t),
       vwCompletedAt := (if terminal then Some (db_instant finished) else None),
       vwLeaseHolder := None, vwLeaseExpiresAt := None\<rparr>"

definition complete_delivery_tx ::
  "delivery_claim \<Rightarrow> attempt_update \<Rightarrow> go_time option \<Rightarrow> bool \<Rightarrow> db \<Rightarrow> db result" where
  "complete_delivery_tx c u available terminal d =
     (let hit = attempt_held d c (db_instant (auFinishedAt u)) in
      if list_ex (\<lambda>q. hit q \<and> \<not> attempt_row_ok (finished_attempt u q)) (dbAttempts d) then
        Inl (ErrText ''complete Webhook delivery attempt'')
      else if length (filter hit (dbAttempts d)) \<noteq> 1 then Inl (ErrIs DeliveryLeaseLost)
      else if length (filter (delivery_held c) (dbDeliveries d)) \<noteq> 1 then Inl (ErrIs DeliveryLeaseLost)
      else Inr (d\<lparr>dbAttempts := sql_update hit (finished_attempt u) (dbAttempts d),
        dbDeliveries := sql_update (delivery_held c) (released_delivery available terminal (auFinishedAt u)) (dbDeliveries d)\<rparr>))"

definition complete_delivery ::
  "db \<Rightarrow> delivery_claim \<Rightarrow> attempt_update \<Rightarrow> go_time option \<Rightarrow> bool \<Rightarrow> unit result \<times> db" where
  "complete_delivery d c u available terminal =
     (if drDeliveryID c = '''' \<or> drOrganizationID c = '''' \<or> dcLeaseHolder c = '''' \<or> dcSequence c < 1
        \<or> before (auFinishedAt u) (dcStartedAt c) \<or> (\<not> terminal \<and> available = None) \<or> (terminal \<and> available \<noteq> None) then
        (Inl (ErrText ''invalid Webhook delivery completion''), d)
      else run_tx (\<lambda>d. and_then (complete_delivery_tx c u available terminal d) (\<lambda>d'. Inr ((), d'))) d)"

section \<open>The audit\<close>

record delivery_attempt =
  daSequence :: int
  daStartedAt :: go_time
  daFinishedAt :: "go_time option"
  daOutcome :: attempt_outcome
  daHTTPStatus :: "int option"
  daFailureCode :: string

record delivery_audit =
  adDeliveryID :: string
  adIntegrationID :: string
  adIntegrationVersion :: int
  adSecretVersion :: int
  adRoutedAt :: go_time
  adSuppressionReason :: string
  adWindowID :: string
  adAttempts :: "delivery_attempt list"

record delivery_scope =
  esOrganizationID :: string
  esMonitorID :: string
  esAlertID :: string

definition delivery_scope_validate :: "delivery_scope \<Rightarrow> unit result" where
  "delivery_scope_validate sc =
     (if esOrganizationID sc = '''' \<or> esMonitorID sc = '''' \<or> esAlertID sc = '''' then
        Inl (ErrText ''Webhook delivery audit requires complete scope'')
      else Inr ())"

definition audit_attempt :: "attempt_row \<Rightarrow> delivery_attempt" where
  "audit_attempt q = \<lparr>daSequence = qwSequence q, daStartedAt = to_utc (qwStartedAt q),
     daFinishedAt = map_option to_utc (qwFinishedAt q), daOutcome = qwOutcome q, daHTTPStatus = qwHTTPStatus q,
     daFailureCode = text_value (qwFailureCode q)\<rparr>"

definition audit_of :: "delivery_row \<Rightarrow> delivery_audit" where
  "audit_of v = \<lparr>adDeliveryID = vwID v, adIntegrationID = vwIntegrationID v,
     adIntegrationVersion = vwIntegrationVersion v, adSecretVersion = vwSecretVersion v,
     adRoutedAt = to_utc (vwRoutedAt v), adSuppressionReason = text_value (vwSuppressionReason v),
     adWindowID = text_value (vwWindowID v), adAttempts = []\<rparr>"

text \<open>The left join, one row per attempt and one for a delivery without any, and its loop.\<close>

definition audit_rows :: "db \<Rightarrow> string \<Rightarrow> string \<Rightarrow> (delivery_row \<times> attempt_row option) list" where
  "audit_rows d org i =
     sort_key (\<lambda>(v, q). (nanos (vwRoutedAt v), vwID v, case q of None \<Rightarrow> 0 | Some q \<Rightarrow> qwSequence q))
       (concat (map (\<lambda>v. case filter (attempt_of v) (dbAttempts d) of [] \<Rightarrow> [(v, None)] | qs \<Rightarrow> map (\<lambda>q. (v, Some q)) qs)
         (filter (\<lambda>v. vwOrganizationID v = org \<and> vwAlertID v = i) (dbDeliveries d))))"

fun add_audit_row :: "delivery_audit list \<Rightarrow> delivery_row \<times> attempt_row option \<Rightarrow> delivery_audit list" where
  "add_audit_row values (v, q) =
     (let values' = (if values = [] \<or> adDeliveryID (last values) \<noteq> vwID v then values @ [audit_of v] else values)
      in case q of
           None \<Rightarrow> values'
         | Some q \<Rightarrow> butlast values' @ [(last values')\<lparr>adAttempts := adAttempts (last values') @ [audit_attempt q]\<rparr>])"

definition list_audit :: "db \<Rightarrow> delivery_scope \<Rightarrow> delivery_audit list option" where
  "list_audit d sc =
     (if \<not> sql_exists (\<lambda>a. awID a = esAlertID sc \<and> awOrganizationID a = esOrganizationID sc
          \<and> awMonitorID a = esMonitorID sc) (dbAlerts d) then None
      else Some (foldl add_audit_row [] (audit_rows d (esOrganizationID sc) (esAlertID sc))))"

definition list_delivery_audit :: "db \<Rightarrow> delivery_scope \<Rightarrow> delivery_audit list option result" where
  "list_delivery_audit d sc = and_then (delivery_scope_validate sc) (\<lambda>_. Inr (list_audit d sc))"

section \<open>Executing one attempt\<close>

record delivery_request =
  rqURL :: string
  rqBody :: string
  rqHeaders :: "(string \<times> string) list"

text \<open>
  What the HTTP client reports: an error, with whether the deadline of the call has passed, no
  response, or a status.
\<close>

datatype http_result = DoFailed go_error bool | DoEmpty | DoStatus int

record delivery_execution = attempt_update +
  exRetry :: bool

text \<open>
  The surroundings of an executor: the parsers and ciphers, \<open>json.Marshal\<close>, the encoded HMAC of a
  text under a key, the client, the readings of the clock and of the context's error in order, and
  what other workers do to the database meanwhile.
\<close>

record delivery_env =
  deText :: text_env
  deCrypto :: crypto
  deKeyring :: "keyring option"
  deRender :: "json \<Rightarrow> string"
  deSign :: "string \<Rightarrow> string \<Rightarrow> string"
  deDo :: "delivery_request \<Rightarrow> http_result"
  deClock :: "nat \<Rightarrow> go_time"
  deContext :: "nat \<Rightarrow> go_error option"
  deRetryDelay :: "string \<Rightarrow> int \<Rightarrow> duration"
  deMeanwhile :: "db \<Rightarrow> db"

definition payload_of :: "'a delivery_claim_scheme \<Rightarrow> json" where
  "payload_of c = JObj
     [(''schemaVersion'', JStr ''v1''), (''deliveryId'', JStr (drDeliveryID c)), (''alertId'', JStr (drAlertID c)),
      (''alertKind'', JStr (drAlertKind c)), (''organizationId'', JStr (drOrganizationID c)),
      (''monitorId'', JStr (drMonitorID c)), (''incidentId'', JStr (drIncidentID c)),
      (''incidentVersion'', JNum (drIncidentVersion c)), (''occurredAt'', JInstant (to_utc (drOccurredAt c))),
      (''attempt'', JNum (dcSequence c))]"

text \<open>\<open>time.Unix\<close> rounds down; the newline joins the parts that are signed.\<close>

definition unix_seconds :: "go_time \<Rightarrow> int" where
  "unix_seconds t = nanos t div 1000000000"

fun join_lines :: "string list \<Rightarrow> string" where
  "join_lines [] = []"
| "join_lines [s] = s"
| "join_lines (s # ss) = s @ [CHR 0x0A] @ join_lines ss"

definition signed_payload :: "delivery_env \<Rightarrow> delivery_claim \<Rightarrow> go_time \<Rightarrow> string \<Rightarrow> (string \<times> string \<times> int) result" where
  "signed_payload e c now secret =
     (if drDeliveryID c = '''' \<or> drOrganizationID c = '''' \<or> drAlertID c = '''' \<or> drMonitorID c = ''''
        \<or> drIncidentID c = '''' \<or> drIntegrationID c = '''' \<or> dcSequence c < 1 \<or> drSecretVersion c < 1
        \<or> drIntegrationVersion c < 1 \<or> drIncidentVersion c < 1 \<or> \<not> is_utc (drOccurredAt c) \<or> \<not> is_utc (drRoutedAt c)
        \<or> \<not> is_utc now \<or> \<not> is_utc (dcStartedAt c) then Inl (ErrIs DeliveryInvalid)
      else if \<not> year_in_range (drOccurredAt c) then Inl (ErrText ''json: year outside of range'')
      else
        let payload = deRender e (payload_of c)
        in if length payload > MaxDeliveryBodyBytes then Inl (ErrIs DeliveryInvalid)
           else
             let timestamp = unix_seconds now;
                 canonical = join_lines [''v1'', drDeliveryID c, int_dec timestamp, int_dec (dcSequence c),
                   int_dec (drSecretVersion c), payload]
             in Inr (payload, deSign e secret canonical, timestamp))"

text \<open>The code of the first error in the chain that has one.\<close>

fun error_code :: "go_error \<Rightarrow> string option" where
  "error_code (OutboundFailure r c h p cause) = Some r"
| "error_code (Wrapped m e) = error_code e"
| "error_code _ = None"

definition stable_http_error_code :: "go_error \<Rightarrow> string" where
  "stable_http_error_code e =
     (case error_code e of
        None \<Rightarrow> ''webhook.delivery.network''
      | Some code \<Rightarrow>
          if code \<in> {''outbound.policy.unconfigured'', ''outbound.url.tooLong'', ''outbound.url.invalid'',
               ''outbound.url.notAbsolute'', ''outbound.url.scheme'', ''outbound.url.userInfo'', ''outbound.host.missing'',
               ''outbound.host.invalid'', ''outbound.port.invalid'', ''outbound.port.denied'',
               ''outbound.network.unsupported'', ''outbound.resolution.failed'', ''outbound.resolution.empty'',
               ''outbound.address.denied'', ''outbound.address.mismatch'', ''outbound.connect.failed''}
          then code else ''webhook.delivery.network'')"

definition open_secret :: "delivery_env \<Rightarrow> delivery_claim \<Rightarrow> string result" where
  "open_secret e c = keyring_open (deCrypto e) (deKeyring e) (drEnvelope c)
     (secret_associated_data (drOrganizationID c) (drIntegrationID c) (drSecretVersion c))"

definition execution :: "attempt_outcome \<Rightarrow> go_time \<Rightarrow> int option \<Rightarrow> string \<Rightarrow> bool \<Rightarrow> delivery_execution" where
  "execution outcome finished status code retry =
     \<lparr>auOutcome = outcome, auFinishedAt = to_utc finished, auHTTPStatus = status, auFailureCode = code, exRetry = retry\<rparr>"

definition delivery_request_of :: "delivery_claim \<Rightarrow> string \<Rightarrow> string \<Rightarrow> string \<Rightarrow> int \<Rightarrow> delivery_request" where
  "delivery_request_of c destination body signature timestamp =
     \<lparr>rqURL = destination, rqBody = body, rqHeaders =
       [(''Content-Type'', ''application/json''), (''User-Agent'', ''ProbeHive-Webhook/1''),
        (''ProbeHive-Webhook-Version'', ''v1''), (''ProbeHive-Delivery-Id'', drDeliveryID c),
        (''ProbeHive-Timestamp'', int_dec timestamp), (''ProbeHive-Attempt'', int_dec (dcSequence c)),
        (''ProbeHive-Secret-Version'', int_dec (drSecretVersion c)), (''ProbeHive-Signature'', signature)]\<rparr>"

definition status_execution :: "int \<Rightarrow> go_time \<Rightarrow> delivery_execution" where
  "status_execution status finished =
     (if 200 \<le> status \<and> status < 300 then execution AttemptSucceeded finished (Some status) '''' False
      else if status \<in> {408, 425, 429} \<or> 500 \<le> status then
        execution AttemptFailed finished (Some status) ''webhook.delivery.http.retryable'' True
      else execution AttemptFailed finished (Some status) ''webhook.delivery.http.rejected'' False)"

definition failed_call :: "go_error \<Rightarrow> bool \<Rightarrow> go_error option \<Rightarrow> go_time \<Rightarrow> delivery_execution" where
  "failed_call err deadline ctx finished =
     (if errors_is err ContextCanceled \<or> (case ctx of None \<Rightarrow> False | Some x \<Rightarrow> errors_is x ContextCanceled) then
        execution AttemptCancelled finished None ''webhook.delivery.cancelled'' True
      else if errors_is err DeadlineExceeded \<or> deadline then
        execution AttemptFailed finished None ''webhook.delivery.timeout'' True
      else execution AttemptFailed finished None (stable_http_error_code err) True)"

definition execute_delivery :: "delivery_env \<Rightarrow> delivery_claim \<Rightarrow> delivery_execution" where
  "execute_delivery e c =
     (let failed = \<lambda>code. execution AttemptFailed (deClock e 0) None code False;
          (destination, ok) = normalize_destination_url (deText e) (drDestinationURL c) in
      if deContext e 0 \<noteq> None then execution AttemptCancelled (deClock e 0) None ''webhook.delivery.cancelled'' True
      else if \<not> ok \<or> destination \<noteq> drDestinationURL c then failed ''webhook.delivery.destination.invalid''
      else case open_secret e c of
        Inl _ \<Rightarrow> failed ''webhook.delivery.secret.unavailable''
      | Inr secret \<Rightarrow>
          case signed_payload e c (to_utc (deClock e 1)) secret of
            Inl _ \<Rightarrow> failed ''webhook.delivery.payload.invalid''
          | Inr (body, signature, timestamp) \<Rightarrow>
              case deDo e (delivery_request_of c destination body signature timestamp) of
                DoFailed err deadline \<Rightarrow> failed_call err deadline (deContext e 1) (deClock e 2)
              | DoEmpty \<Rightarrow> execution AttemptFailed (deClock e 2) None ''webhook.delivery.network'' True
              | DoStatus status \<Rightarrow> status_execution status (deClock e 2))"

section \<open>The dispatcher\<close>

datatype handled = HandledSucceeded | HandledCancelled | HandledLost | HandledRetried | HandledFailed

text \<open>
  \<open>handle\<close>. The completion is written even when the context has ended, under one of its own; the
  database it finds is the one other workers left.
\<close>

definition handle_delivery :: "delivery_env \<Rightarrow> delivery_claim \<Rightarrow> db \<Rightarrow> handled \<times> db" where
  "handle_delivery e c d =
     (let x = execute_delivery e c;
          terminal = (\<not> exRetry x \<or> MaxDeliveryAttempts \<le> dcSequence c);
          available = (if exRetry x \<and> \<not> terminal then
            Some (time_add (auFinishedAt x) (deRetryDelay e (drDeliveryID c) (dcSequence c))) else None)
      in case complete_delivery (deMeanwhile e d) c (attempt_update.truncate x) available terminal of
           (Inl err, d') \<Rightarrow> (HandledLost, d')
         | (Inr _, d') \<Rightarrow>
             (if auOutcome x = AttemptSucceeded then HandledSucceeded
              else if auOutcome x = AttemptCancelled then HandledCancelled
              else if available \<noteq> None then HandledRetried else HandledFailed, d'))"

record delivery_tick =
  dtClaimed :: nat
  dtSucceeded :: nat
  dtRetried :: nat
  dtFailed :: nat
  dtCancelled :: nat
  dtLost :: nat

fun count_handled :: "handled \<Rightarrow> delivery_tick \<Rightarrow> delivery_tick" where
  "count_handled HandledSucceeded t = t\<lparr>dtSucceeded := dtSucceeded t + 1\<rparr>"
| "count_handled HandledCancelled t = t\<lparr>dtCancelled := dtCancelled t + 1\<rparr>"
| "count_handled HandledLost t = t\<lparr>dtLost := dtLost t + 1\<rparr>"
| "count_handled HandledRetried t = t\<lparr>dtRetried := dtRetried t + 1\<rparr>"
| "count_handled HandledFailed t = t\<lparr>dtFailed := dtFailed t + 1\<rparr>"

text \<open>The claims are handled by goroutines; they complete in some order, which the list is given in.\<close>

fun handle_claims :: "(delivery_claim \<Rightarrow> delivery_env) \<Rightarrow> delivery_claim list \<Rightarrow> delivery_tick \<Rightarrow> db \<Rightarrow> delivery_tick \<times> db" where
  "handle_claims es [] t d = (t, d)"
| "handle_claims es (c # cs) t d =
     (case handle_delivery (es c) c d of (o1, d1) \<Rightarrow> handle_claims es cs (count_handled o1 t) d1)"

record delivery_config =
  dgLease :: duration
  dgBatchSize :: int
  dgConcurrency :: int
  dgTickInterval :: duration

definition new_delivery_dispatcher :: "delivery_config \<Rightarrow> delivery_config result" where
  "new_delivery_dispatcher g =
     (let g1 = g\<lparr>dgLease := (if dgLease g \<le> 0 then DeliveryLeaseDuration else dgLease g),
           dgBatchSize := (if dgBatchSize g \<le> 0 then DeliveryBatchSize else dgBatchSize g)\<rparr>
      in if dgBatchSize g1 > DeliveryBatchSize then Inl (ErrText ''Webhook delivery batch size cannot exceed 4'')
         else
           let g2 = g1\<lparr>dgConcurrency := (if dgConcurrency g1 \<le> 0 then DeliveryConcurrency else dgConcurrency g1)\<rparr>
           in if dgConcurrency g2 > DeliveryConcurrency then Inl (ErrText ''Webhook delivery concurrency cannot exceed 4'')
              else Inr (g2\<lparr>dgTickInterval := (if dgTickInterval g2 \<le> 0 then DeliveryTickInterval else dgTickInterval g2)\<rparr>))"

definition delivery_dispatch ::
  "delivery_config \<Rightarrow> (delivery_claim \<Rightarrow> delivery_env) \<Rightarrow> (delivery_claim list \<Rightarrow> delivery_claim list) \<Rightarrow> string result \<Rightarrow> go_time
    \<Rightarrow> db \<Rightarrow> delivery_tick result \<times> db" where
  "delivery_dispatch g es order uuid now d =
     (case uuid of
        Inl e \<Rightarrow> (Inl (Wrapped ''generate Webhook delivery lease holder'' e), d)
      | Inr holder \<Rightarrow>
          case claim_deliveries d holder now (time_add now (dgLease g)) (dgBatchSize g) of
            (Inl e, d') \<Rightarrow> (Inl (Wrapped ''claim Webhook deliveries'' e), d')
          | (Inr claims, d') \<Rightarrow>
              (case handle_claims es (order claims) \<lparr>dtClaimed = length claims, dtSucceeded = 0, dtRetried = 0,
                 dtFailed = 0, dtCancelled = 0, dtLost = 0\<rparr> d' of (t, d2) \<Rightarrow> (Inr t, d2)))"

section \<open>The attempts of a delivery\<close>

definition attempts_of :: "db \<Rightarrow> delivery_row \<Rightarrow> attempt_row list" where
  "attempts_of d v = filter (attempt_of v) (dbAttempts d)"

text \<open>
  The attempts of every delivery are numbered from 1 to its attempt count; one in progress is the
  last and its delivery is unfinished and leased.
\<close>

definition in_progress_ok :: "delivery_row \<Rightarrow> attempt_row \<Rightarrow> bool" where
  "in_progress_ok v q \<longleftrightarrow> (qwOutcome q = AttemptInProgress \<longrightarrow>
     qwSequence q = vwAttemptCount v \<and> vwCompletedAt v = None \<and> vwLeaseHolder v \<noteq> None)"

definition delivery_inv :: "db \<Rightarrow> bool" where
  "delivery_inv d \<longleftrightarrow> unique_on (\<lambda>v. Some (vwID v)) (dbDeliveries d) \<and> (\<forall>v \<in> set (dbDeliveries d). delivery_row_ok v)
     \<and> (\<forall>v \<in> set (dbDeliveries d). map qwSequence (attempts_of d v) = [1..vwAttemptCount v]
          \<and> (\<forall>q \<in> set (attempts_of d v). in_progress_ok v q))
     \<and> (\<forall>q \<in> set (dbAttempts d). \<exists>v \<in> set (dbDeliveries d). attempt_of v q)"

lemma delivery_inv_same:
  "dbDeliveries d' = dbDeliveries d \<Longrightarrow> dbAttempts d' = dbAttempts d \<Longrightarrow> delivery_inv d' = delivery_inv d"
  by (simp add: delivery_inv_def attempts_of_def)

lemma same_delivery:
  "delivery_inv d \<Longrightarrow> v \<in> set (dbDeliveries d) \<Longrightarrow> w \<in> set (dbDeliveries d) \<Longrightarrow> vwID v = vwID w \<Longrightarrow> v = w"
  using unique_onD [of "\<lambda>v. Some (vwID v)" "dbDeliveries d" v w] by (simp add: delivery_inv_def)

lemma filter_sql_update:
  "(\<And>x. x \<in> set xs \<Longrightarrow> p x \<Longrightarrow> Q (f x) = Q x) \<Longrightarrow> filter Q (sql_update p f xs) = sql_update p f (filter Q xs)"
  by (induction xs) (auto simp: sql_update_def)

lemma map_sql_update:
  "(\<And>x. x \<in> set xs \<Longrightarrow> p x \<Longrightarrow> g (f x) = g x) \<Longrightarrow> map g (sql_update p f xs) = map g xs"
  by (auto simp: sql_update_def)

text \<open>Ending attempts, changing deliveries, and adding either.\<close>

lemma delivery_inv_attempts:
  assumes inv: "delivery_inv d"
    and f: "\<And>q. qwDeliveryID (f q) = qwDeliveryID q" "\<And>q. qwOrganizationID (f q) = qwOrganizationID q"
      "\<And>q. qwSequence (f q) = qwSequence q"
      "\<And>q. q \<in> set (dbAttempts d) \<Longrightarrow> p q \<Longrightarrow> qwOutcome (f q) \<noteq> AttemptInProgress"
  shows "delivery_inv (d\<lparr>dbAttempts := sql_update p f (dbAttempts d)\<rparr>)"
proof -
  let ?d = "d\<lparr>dbAttempts := sql_update p f (dbAttempts d)\<rparr>"
  have a: "attempt_of v (f q) = attempt_of v q" for v q by (simp add: attempt_of_def f)
  have at: "attempts_of ?d v = sql_update p f (attempts_of d v)" for v
    unfolding attempts_of_def by (simp add: filter_sql_update a)
  have "map qwSequence (attempts_of ?d v) = map qwSequence (attempts_of d v)" for v
    unfolding at by (rule map_sql_update) (simp add: f)
  moreover have "in_progress_ok v q" if v: "v \<in> set (dbDeliveries d)" and q: "q \<in> set (attempts_of ?d v)" for v q
  proof -
    obtain q0 where q0: "q0 \<in> set (attempts_of d v)" "q = (if p q0 then f q0 else q0)"
      using q unfolding at in_sql_update by blast
    have "in_progress_ok v q0" using inv v q0(1) by (simp add: delivery_inv_def)
    moreover have "q0 \<in> set (dbAttempts d)" using q0(1) by (simp add: attempts_of_def)
    ultimately show ?thesis using q0(2) f(4) by (auto simp: in_progress_ok_def)
  qed
  moreover have "\<exists>v \<in> set (dbDeliveries d). attempt_of v q" if q: "q \<in> set (sql_update p f (dbAttempts d))" for q
  proof -
    obtain q0 where q0: "q0 \<in> set (dbAttempts d)" "q = (if p q0 then f q0 else q0)" using q unfolding in_sql_update by blast
    then show ?thesis using inv by (auto simp: delivery_inv_def a)
  qed
  ultimately show ?thesis using inv by (simp add: delivery_inv_def)
qed

lemma delivery_inv_deliveries:
  assumes inv: "delivery_inv d"
    and f: "\<And>v. vwID (f v) = vwID v" "\<And>v. vwOrganizationID (f v) = vwOrganizationID v"
      "\<And>v. vwAttemptCount (f v) = vwAttemptCount v"
    and ok: "\<And>v. v \<in> set (dbDeliveries d) \<Longrightarrow> p v \<Longrightarrow> delivery_row_ok (f v)
      \<and> (\<forall>q \<in> set (attempts_of d v). qwOutcome q \<noteq> AttemptInProgress)"
  shows "delivery_inv (d\<lparr>dbDeliveries := sql_update p f (dbDeliveries d)\<rparr>)"
proof -
  let ?d = "d\<lparr>dbDeliveries := sql_update p f (dbDeliveries d)\<rparr>"
  have a: "attempt_of (f v) = attempt_of v" for v by (simp add: attempt_of_def f fun_eq_iff)
  have at: "attempts_of ?d v = attempts_of d v" "attempts_of d (f v) = attempts_of d v" for v
    by (simp_all add: attempts_of_def a)
  have "delivery_row_ok v \<and> map qwSequence (attempts_of ?d v) = [1..vwAttemptCount v]
      \<and> (\<forall>q \<in> set (attempts_of ?d v). in_progress_ok v q)" if v: "v \<in> set (dbDeliveries ?d)" for v
  proof -
    obtain w where w: "w \<in> set (dbDeliveries d)" "v = (if p w then f w else w)" using v by (auto simp: in_sql_update)
    then show ?thesis using inv ok [OF w(1)]
      by (cases "p w") (auto simp: delivery_inv_def at f in_progress_ok_def)
  qed
  moreover have "unique_on (\<lambda>v. Some (vwID v)) (dbDeliveries ?d)"
    using inv by (simp add: delivery_inv_def unique_on_sql_update f)
  moreover have "\<exists>v \<in> set (dbDeliveries ?d). attempt_of v q" if q: "q \<in> set (dbAttempts d)" for q
  proof -
    obtain w where w: "w \<in> set (dbDeliveries d)" "attempt_of w q" using inv q by (auto simp: delivery_inv_def)
    then have "(if p w then f w else w) \<in> set (dbDeliveries ?d)" by (auto simp: in_sql_update)
    moreover have "attempt_of (if p w then f w else w) q" using w by (simp add: a)
    ultimately show ?thesis by blast
  qed
  ultimately show ?thesis using inv by (simp add: delivery_inv_def)
qed

lemma insert_delivery_inv:
  assumes inv: "delivery_inv d" and i: "insert_delivery v d = Inr d'" and n: "vwAttemptCount v = 0"
  shows "delivery_inv d'"
proof -
  have d': "d' = d\<lparr>dbDeliveries := dbDeliveries d @ [v]\<rparr>" and fresh: "\<forall>w \<in> set (dbDeliveries d). vwID w \<noteq> vwID v"
    and ok: "delivery_row_ok v"
    using i by (auto simp: insert_delivery_def split: if_splits)
  have "attempts_of d v = []"
    using inv fresh by (fastforce simp: attempts_of_def filter_empty_conv delivery_inv_def attempt_of_def)
  moreover have "attempts_of d' = attempts_of d" by (simp add: attempts_of_def d' fun_eq_iff)
  ultimately show ?thesis using inv fresh ok n
    by (auto simp: delivery_inv_def d' unique_on_append)
qed

lemma lease_delivery_inv:
  assumes inv: "delivery_inv d" and l: "lease_delivery holder now expires c d = Inr d'"
    and cin: "c \<in> set (dbDeliveries d)" and cl: "vwCompletedAt c = None" "vwAttemptCount c < MaxDeliveryAttempts"
    and idle: "\<forall>q \<in> set (attempts_of d c). qwOutcome q \<noteq> AttemptInProgress"
  shows "delivery_inv d'"
proof -
  let ?f = "leased_delivery holder expires" and ?q = "new_attempt c now"
  have d': "d' = d\<lparr>dbDeliveries := sql_update (lease_hits c) ?f (dbDeliveries d), dbAttempts := dbAttempts d @ [?q]\<rparr>"
    using l by (auto simp: lease_delivery_def insert_attempt_def split: if_splits)
  have hit: "lease_hits c v \<longleftrightarrow> v = c" if "v \<in> set (dbDeliveries d)" for v
    using same_delivery [OF inv that cin] cl by (auto simp: lease_hits_def)
  have f: "vwID (?f v) = vwID v" "vwOrganizationID (?f v) = vwOrganizationID v" for v by (simp_all add: leased_delivery_def)
  have a: "attempt_of (?f v) = attempt_of v" for v by (simp add: attempt_of_def f fun_eq_iff)
  have q: "attempt_of v ?q \<longleftrightarrow> v = c" if "v \<in> set (dbDeliveries d)" for v
    using same_delivery [OF inv that cin] by (auto simp: attempt_of_def new_attempt_def)
  have C: "delivery_row_ok c" "map qwSequence (attempts_of d c) = [1..vwAttemptCount c]"
    using inv cin by (simp_all add: delivery_inv_def)
  have rows: "delivery_row_ok v \<and> map qwSequence (attempts_of d' v) = [1..vwAttemptCount v]
      \<and> (\<forall>q \<in> set (attempts_of d' v). in_progress_ok v q)" if v: "v \<in> set (dbDeliveries d')" for v
  proof -
    obtain w where w: "w \<in> set (dbDeliveries d)" "v = (if lease_hits c w then ?f w else w)"
      using v by (auto simp: d' in_sql_update)
    show ?thesis
    proof (cases "w = c")
      case True
      then have vf: "v = ?f c" using w hit [OF cin] by simp
      have at: "attempts_of d' v = attempts_of d c @ [?q]" using q [OF cin] by (simp add: vf attempts_of_def d' a)
      have "0 \<le> vwAttemptCount c" using C(1) by (simp add: delivery_row_ok_def)
      then have "[1..vwAttemptCount c + 1] = [1..vwAttemptCount c] @ [vwAttemptCount c + 1]"
        by (metis add.commute le_add_same_cancel1 upto_rec2 add_diff_cancel_right')
      then have "map qwSequence (attempts_of d' v) = [1..vwAttemptCount v]"
        unfolding at by (simp add: C(2) new_attempt_def vf leased_delivery_def)
      moreover have "delivery_row_ok v"
        using C(1) cl by (auto simp: delivery_row_ok_def vf leased_delivery_def MaxDeliveryAttempts_def)
      moreover have "\<forall>q \<in> set (attempts_of d' v). in_progress_ok v q"
        unfolding at using idle cl by (auto simp: in_progress_ok_def new_attempt_def vf leased_delivery_def)
      ultimately show ?thesis by blast
    next
      case False
      then have "v = w" using w hit [OF w(1)] by simp
      moreover have "attempts_of d' w = attempts_of d w" using q [OF w(1)] False by (simp add: attempts_of_def d')
      ultimately show ?thesis using inv w(1) by (simp add: delivery_inv_def)
    qed
  qed
  have "unique_on (\<lambda>v. Some (vwID v)) (dbDeliveries d')"
    using inv by (simp add: d' delivery_inv_def unique_on_sql_update f)
  moreover have "\<exists>v \<in> set (dbDeliveries d'). attempt_of v q1" if q1: "q1 \<in> set (dbAttempts d')" for q1
  proof -
    have "\<exists>w \<in> set (dbDeliveries d). attempt_of w q1"
      using q1 q [OF cin] cin inv by (auto simp: d' delivery_inv_def)
    then obtain w where w: "w \<in> set (dbDeliveries d)" "attempt_of w q1" by blast
    have "(if lease_hits c w then ?f w else w) \<in> set (dbDeliveries d')" using w(1) by (auto simp: d' in_sql_update)
    moreover have "attempt_of (if lease_hits c w then ?f w else w) q1" using w by (simp add: a)
    ultimately show ?thesis by blast
  qed
  ultimately show ?thesis using rows by (simp add: delivery_inv_def)
qed

lemma finalize_expired_inv:
  assumes inv: "delivery_inv d" and f: "finalize_expired now d = Inr d'"
  shows "delivery_inv d'"
proof -
  have "d' = d\<lparr>dbAttempts := sql_update (attempt_expired d now) (uncertain_attempt now) (dbAttempts d)\<rparr>"
    using f by (auto simp: finalize_expired_def split: if_splits)
  then show ?thesis by (auto intro!: delivery_inv_attempts [OF inv] simp: uncertain_attempt_def)
qed

lemma complete_exhausted_inv:
  assumes inv: "delivery_inv d"
  shows "delivery_inv (complete_exhausted now d)"
  unfolding complete_exhausted_def
proof (rule delivery_inv_deliveries [OF inv])
  fix v assume v: "v \<in> set (dbDeliveries d)" "delivery_exhausted d now v"
  then have "delivery_row_ok v" "vwCompletedAt v = None" using inv by (simp_all add: delivery_inv_def delivery_exhausted_def)
  then show "delivery_row_ok (completed_delivery now v)
      \<and> (\<forall>q \<in> set (attempts_of d v). qwOutcome q \<noteq> AttemptInProgress)"
    using v(2) by (auto simp: delivery_row_ok_def completed_delivery_def delivery_exhausted_def attempts_of_def)
qed (simp_all add: completed_delivery_def)

text \<open>After the first two statements a delivery that can be claimed has no attempt in progress.\<close>

lemma claimable_idle:
  assumes inv: "delivery_inv d" and f: "finalize_expired now d = Inr d1"
    and v: "v \<in> set (dbDeliveries (complete_exhausted now d1))" and c: "claimable (complete_exhausted now d1) now v"
  shows "\<forall>q \<in> set (attempts_of (complete_exhausted now d1) v). qwOutcome q \<noteq> AttemptInProgress"
proof
  fix q assume q: "q \<in> set (attempts_of (complete_exhausted now d1) v)"
  have d1: "d1 = d\<lparr>dbAttempts := sql_update (attempt_expired d now) (uncertain_attempt now) (dbAttempts d)\<rparr>"
    using f by (auto simp: finalize_expired_def split: if_splits)
  have "v \<in> set (dbDeliveries d1)"
    using v c by (auto simp: complete_exhausted_def in_sql_update claimable_def completed_delivery_def split: if_splits)
  then have vd: "v \<in> set (dbDeliveries d)" by (simp add: d1)
  obtain q0 where q0: "q0 \<in> set (dbAttempts d)" "attempt_of v q"
      "q = (if attempt_expired d now q0 then uncertain_attempt now q0 else q0)"
    using q by (auto simp: attempts_of_def complete_exhausted_def d1 in_sql_update)
  show "qwOutcome q \<noteq> AttemptInProgress"
  proof
    assume p: "qwOutcome q = AttemptInProgress"
    then have q1: "q = q0" "\<not> attempt_expired d now q0" using q0(3) by (auto simp: uncertain_attempt_def split: if_splits)
    then have "q \<in> set (attempts_of d v)" using q0 by (simp add: attempts_of_def)
    then have "qwSequence q = vwAttemptCount v" "vwLeaseHolder v \<noteq> None" "delivery_row_ok v"
      using inv vd p by (auto simp: delivery_inv_def in_progress_ok_def)
    then have "lease_over now v" "vwCompletedAt v = None"
      using c by (auto simp: claimable_def delivery_row_ok_def)
    then have "attempt_expired d now q"
      using vd q0(2) p \<open>qwSequence q = vwAttemptCount v\<close> by (auto simp: attempt_expired_def)
    then show False using q1 by simp
  qed
qed

lemma lease_deliveries_inv:
  assumes "distinct cs" and "set cs \<subseteq> set (dbDeliveries d)"
    and "\<forall>c \<in> set cs. vwCompletedAt c = None \<and> vwAttemptCount c < MaxDeliveryAttempts
      \<and> (\<forall>q \<in> set (attempts_of d c). qwOutcome q \<noteq> AttemptInProgress)"
    and "delivery_inv d" and "lease_deliveries holder now expires cs d = Inr d'"
  shows "delivery_inv d'"
  using assms
proof (induction cs arbitrary: d)
  case (Cons c cs)
  obtain d1 where l: "lease_delivery holder now expires c d = Inr d1" and r: "lease_deliveries holder now expires cs d1 = Inr d'"
    using Cons.prems(5) by (auto simp: and_then_Inr)
  have inv1: "delivery_inv d1" using lease_delivery_inv [OF Cons.prems(4) l] Cons.prems(2,3) by simp
  have d1: "dbDeliveries d1 = sql_update (lease_hits c) (leased_delivery holder expires) (dbDeliveries d)"
    "dbAttempts d1 = dbAttempts d @ [new_attempt c now]"
    using l by (auto simp: lease_delivery_def insert_attempt_def split: if_splits)
  have "x \<in> set (dbDeliveries d1) \<and> attempts_of d1 x = attempts_of d x" if x: "x \<in> set cs" for x
  proof -
    have "x \<noteq> c" "x \<in> set (dbDeliveries d)" "c \<in> set (dbDeliveries d)" using x Cons.prems(1,2) by auto
    then have n: "vwID x \<noteq> vwID c" using same_delivery [OF Cons.prems(4)] by blast
    have "x \<in> set (dbDeliveries d1)"
      unfolding d1 in_sql_update using n \<open>x \<in> set (dbDeliveries d)\<close> by (intro bexI [of _ x]) (auto simp: lease_hits_def)
    then show ?thesis using n by (simp add: attempts_of_def d1 attempt_of_def new_attempt_def)
  qed
  then show ?case using Cons.IH [OF _ _ _ inv1 r] Cons.prems(1,3) by auto
qed simp

lemma claim_deliveries_inv:
  assumes inv: "delivery_inv d" and c: "claim_deliveries d holder now expires limit = (r, d')"
  shows "delivery_inv d'"
proof (cases "d' = d")
  case False
  then have "\<exists>claims. claim_deliveries_tx holder now expires limit d = Inr (claims, d')"
    using c by (auto simp: claim_deliveries_def run_tx_def split: if_splits sum.splits)
  then obtain d1 where f: "finalize_expired (db_instant now) d = Inr d1"
    and l: "lease_deliveries holder (db_instant now) (db_instant expires)
      (delivery_candidates (complete_exhausted (db_instant now) d1) (db_instant now) (nat limit))
      (complete_exhausted (db_instant now) d1) = Inr d'"
    by (auto simp: claim_deliveries_tx_def and_then_Inr Let_def)
  let ?d2 = "complete_exhausted (db_instant now) d1"
  let ?xs = "sort_key (\<lambda>v. (nanos (vwAvailableAt v), vwID v)) (filter (claimable ?d2 (db_instant now)) (dbDeliveries ?d2))"
  have inv2: "delivery_inv ?d2" using complete_exhausted_inv [OF finalize_expired_inv [OF inv f]] .
  have cs: "set (delivery_candidates ?d2 (db_instant now) (nat limit)) \<subseteq> set ?xs"
    unfolding delivery_candidates_def by (rule set_take_subset)
  have sub: "c \<in> set (dbDeliveries ?d2) \<and> claimable ?d2 (db_instant now) c"
    if "c \<in> set (delivery_candidates ?d2 (db_instant now) (nat limit))" for c
    using subsetD [OF cs that] by simp
  have "unique_on (\<lambda>v. Some (vwID v)) (dbDeliveries ?d2)" using inv2 unfolding delivery_inv_def by blast
  then have "distinct (dbDeliveries ?d2)" by (rule unique_on_distinct)
  then have "distinct (delivery_candidates ?d2 (db_instant now) (nat limit))"
    unfolding delivery_candidates_def by (intro distinct_take) simp
  then show ?thesis
  proof (rule lease_deliveries_inv [OF _ _ _ inv2 l])
    show "set (delivery_candidates ?d2 (db_instant now) (nat limit)) \<subseteq> set (dbDeliveries ?d2)" using sub by blast
    show "\<forall>c \<in> set (delivery_candidates ?d2 (db_instant now) (nat limit)). vwCompletedAt c = None
        \<and> vwAttemptCount c < MaxDeliveryAttempts \<and> (\<forall>q \<in> set (attempts_of ?d2 c). qwOutcome q \<noteq> AttemptInProgress)"
      using sub claimable_idle [OF inv f] by (auto simp: claimable_def)
  qed
qed (use inv in simp)

lemma complete_delivery_cases:
  assumes "complete_delivery d c u available terminal = (r, d')"
  obtains "\<exists>e. r = Inl e" "d' = d"
  | hit where "r = Inr ()" "hit = attempt_held d c (db_instant (auFinishedAt u))"
      "d' = d\<lparr>dbAttempts := sql_update hit (finished_attempt u) (dbAttempts d),
        dbDeliveries := sql_update (delivery_held c) (released_delivery available terminal (auFinishedAt u)) (dbDeliveries d)\<rparr>"
      "length (filter hit (dbAttempts d)) = 1" "length (filter (delivery_held c) (dbDeliveries d)) = 1"
      "\<forall>q \<in> set (dbAttempts d). hit q \<longrightarrow> attempt_row_ok (finished_attempt u q)"
proof (cases r)
  case (Inl e)
  then have "d' = d" using assms by (auto simp: complete_delivery_def run_tx_Inl split: if_splits)
  then show ?thesis using that(1) Inl by blast
next
  case (Inr x)
  let ?hit = "attempt_held d c (db_instant (auFinishedAt u))"
  have tx: "complete_delivery_tx c u available terminal d = Inr d'"
    using assms Inr by (auto simp: complete_delivery_def run_tx_Inr and_then_Inr split: if_splits)
  have "\<forall>q \<in> set (dbAttempts d). ?hit q \<longrightarrow> attempt_row_ok (finished_attempt u q)"
    "length (filter ?hit (dbAttempts d)) = 1" "length (filter (delivery_held c) (dbDeliveries d)) = 1"
    "d' = d\<lparr>dbAttempts := sql_update ?hit (finished_attempt u) (dbAttempts d),
        dbDeliveries := sql_update (delivery_held c) (released_delivery available terminal (auFinishedAt u)) (dbDeliveries d)\<rparr>"
    using tx by (simp_all add: complete_delivery_tx_def Let_def list_ex_iff split: if_splits)
  then show ?thesis using that(2) Inr by simp
qed

lemma complete_delivery_inv:
  assumes inv: "delivery_inv d" and c: "complete_delivery d c u available terminal = (r, d')"
  shows "delivery_inv d'"
  using c
proof (cases rule: complete_delivery_cases)
  case (2 hit)
  let ?f = "finished_attempt u" and ?g = "released_delivery available terminal (auFinishedAt u)"
  let ?d1 = "d\<lparr>dbAttempts := sql_update hit ?f (dbAttempts d)\<rparr>"
  have ended: "qwOutcome (?f q) \<noteq> AttemptInProgress" if "q \<in> set (dbAttempts d)" "hit q" for q
    using 2(6) that by (auto simp: attempt_row_ok_def finished_attempt_def)
  have inv1: "delivery_inv ?d1"
    using ended by (intro delivery_inv_attempts [OF inv]) (simp_all add: finished_attempt_def)
  have "delivery_inv (?d1\<lparr>dbDeliveries := sql_update (delivery_held c) ?g (dbDeliveries ?d1)\<rparr>)"
  proof (rule delivery_inv_deliveries [OF inv1])
    fix v assume v: "v \<in> set (dbDeliveries ?d1)" "delivery_held c v"
    have ok: "delivery_row_ok v" using inv1 v(1) by (simp add: delivery_inv_def)
    have "qwOutcome q \<noteq> AttemptInProgress" if q: "q \<in> set (attempts_of ?d1 v)" for q
    proof
      assume p: "qwOutcome q = AttemptInProgress"
      obtain q0 where q0: "q0 \<in> set (dbAttempts d)" "attempt_of v q" "q = (if hit q0 then ?f q0 else q0)"
        using q by (auto simp: attempts_of_def in_sql_update)
      then have q1: "q = q0" "\<not> hit q0" using p ended [of q0] by auto
      have s: "qwSequence q = vwAttemptCount v" using inv1 v(1) q p by (simp add: delivery_inv_def in_progress_ok_def)
      obtain qh where qh: "qh \<in> set (dbAttempts d)" "hit qh" using 2(4) by (metis filter_False length_0_conv zero_neq_one)
      then obtain w where w: "w \<in> set (dbDeliveries d)" "attempt_of w qh" "vwLeaseHolder w = Some (dcLeaseHolder c)"
        "case vwLeaseExpiresAt w of None \<Rightarrow> False | Some t \<Rightarrow> after t (db_instant (auFinishedAt u))"
        "vwAttemptCount w = dcSequence c" "qwDeliveryID qh = drDeliveryID c"
        by (auto simp: 2(2) attempt_held_def)
      have "w = v" using same_delivery [OF inv w(1)] v w(2,6) by (simp add: attempt_of_def delivery_held_def)
      then have "hit q" using w v q0(2) p s by (auto simp: 2(2) attempt_held_def delivery_held_def attempt_of_def)
      then show False using q1 by simp
    qed
    moreover have "delivery_row_ok (?g v)"
      using ok v(2) by (auto simp: delivery_row_ok_def released_delivery_def delivery_held_def)
    ultimately show "delivery_row_ok (?g v) \<and> (\<forall>q \<in> set (attempts_of ?d1 v). qwOutcome q \<noteq> AttemptInProgress)" by blast
  qed (simp_all add: released_delivery_def)
  then show ?thesis by (simp add: 2(3))
qed (use inv in simp)

section \<open>Everything that happens to Webhooks\<close>

inductive webhook_step :: "db \<Rightarrow> db \<Rightarrow> bool" where
  alerted: "project_incident_transition d e v uuid = (r, d') \<Longrightarrow> webhook_step d d'"
| created: "service_create te cr kr random org name url clock uuid d = (r, d') \<Longrightarrow> webhook_step d d'"
| enabled: "set_enabled te d org i expected on now = (r, d') \<Longrightarrow> webhook_step d d'"
| prepared: "prepare_secret te d updated s expected = (r, d') \<Longrightarrow> webhook_step d d'"
| activated: "activate_secret te d org i expected now = (r, d') \<Longrightarrow> webhook_step d d'"
| retired: "retire_secret te d org i expected now = (r, d') \<Longrightarrow> webhook_step d d'"
| rewrapped: "webhook_initialize cr kr random d = (r, d') \<Longrightarrow> webhook_step d d'"
| claimed: "claim_deliveries d holder now expires limit = (r, d') \<Longrightarrow> webhook_step d d'"
| completed: "complete_delivery d c u available terminal = (r, d') \<Longrightarrow> webhook_step d d'"

inductive_cases webhook_stepE: "webhook_step d d'"

text \<open>What a projection of an Alert keeps, given that adding a routed delivery keeps it.\<close>

lemma project_alert_keeps:
  assumes "project_incident_transition d e v uuid = (r, d')" and P: "P d"
    and alerts: "\<And>d as. P d \<Longrightarrow> P (d\<lparr>dbAlerts := as\<rparr>)" and processed: "\<And>d ps. P d \<Longrightarrow> P (d\<lparr>dbProcessed := ps\<rparr>)"
    and route: "\<And>d w i g d'. P d \<Longrightarrow> g \<in> set (dbIntegrations d) \<Longrightarrow>
      insert_delivery (route_row v w i g) d = Inr d' \<Longrightarrow> P d'"
  shows "P d'"
proof (cases "d' = d")
  case False
  have routes: "P d2" if "insert_routes v w uuid n gs d1 = Inr d2" "set gs \<subseteq> set (dbIntegrations d1)" "P d1" for w n gs d1 d2
    using that
  proof (induction gs arbitrary: n d1)
    case (Cons g gs)
    obtain i d3 where i: "insert_delivery (route_row v w i g) d1 = Inr d3"
      and rest: "insert_routes v w uuid (Suc n) gs d3 = Inr d2"
      using Cons.prems(1) by (auto simp: and_then_Inr split: sum.splits)
    have "dbIntegrations d3 = dbIntegrations d1" using insert_delivery_Inr [OF i] by simp
    then show ?case using Cons.IH [OF rest] Cons.prems(2,3) route [OF Cons.prems(3) _ i] by simp
  qed simp
  have tx: "project_alert_tx e v uuid d = Inr d'"
    using assms(1) False by (auto simp: project_incident_transition_def run_tx_def and_then_Inr split: if_splits sum.splits)
  obtain d1 d2 where i: "insert_alert (alert_to_row v) d = AlertInserted d1"
    and rt: "route_webhook_deliveries v uuid d1 = Inr d2"
    and mk: "mark_outbox_event_processed (itEventID e) (itOrganizationID e) TopicIncidentTransitionedV1 (alCreatedAt v) d2 = Inr d'"
    using tx False by (auto simp: project_alert_tx_def and_then_Inr split: option.splits if_splits alert_insert.splits)
  have "P d1" using insert_alert_Inserted [OF i] alerts [OF P] by simp
  moreover have "set (route_targets d1 org) \<subseteq> set (dbIntegrations d1)" for org
    by (auto simp: route_targets_def dest!: in_set_takeD)
  moreover obtain w n where "insert_routes v w uuid n (route_targets d1 (alOrganizationID v)) d1 = Inr d2"
    using rt by (auto simp: route_webhook_deliveries_def Let_def split: if_splits)
  ultimately have "P d2" using routes by blast
  then show ?thesis using mark_processed_Inr(2) [OF mk] processed by auto
qed (use P in simp)

lemma webhook_inv_deliveries:
  assumes inv: "webhook_inv d" and "dbSecrets d' = dbSecrets d" and "dbIntegrations d' = dbIntegrations d"
    and un: "\<And>v. v \<in> set (dbDeliveries d') \<Longrightarrow> vwCompletedAt v = None \<Longrightarrow>
      usable_secret d (vwOrganizationID v) (vwIntegrationID v) (vwSecretVersion v)"
  shows "webhook_inv d'"
  using inv un assms(2,3) by (simp add: webhook_inv_def usable_secret_def enabled_count_def)

lemma unfinished_usable:
  "webhook_inv d \<Longrightarrow> v \<in> set (dbDeliveries d) \<Longrightarrow> vwCompletedAt v = None \<Longrightarrow>
     usable_secret d (vwOrganizationID v) (vwIntegrationID v) (vwSecretVersion v)"
  by (simp add: webhook_inv_def)

lemma webhook_inv_frame [simp]:
  "webhook_inv (d\<lparr>dbAlerts := as\<rparr>) = webhook_inv d" "webhook_inv (d\<lparr>dbProcessed := ps\<rparr>) = webhook_inv d"
  "delivery_inv (d\<lparr>dbAlerts := as\<rparr>) = delivery_inv d" "delivery_inv (d\<lparr>dbProcessed := ps\<rparr>) = delivery_inv d"
  by (rule webhook_inv_same webhook_inv_same delivery_inv_same delivery_inv_same; simp)+

lemma project_alert_webhook_inv:
  assumes inv: "webhook_inv d" and p: "project_incident_transition d e v uuid = (r, d')"
  shows "webhook_inv d'"
  using p inv
proof (rule project_alert_keeps)
  fix d w i g d' assume d: "webhook_inv d" and g: "g \<in> set (dbIntegrations d)"
    and ins: "insert_delivery (route_row v w i g) d = Inr d'"
  have d': "d' = d\<lparr>dbDeliveries := dbDeliveries d @ [route_row v w i g]\<rparr>" using insert_delivery_Inr [OF ins] .
  have s: "secret_in_db d (alOrganizationID v) (giID g) (giActiveSecretVersion g)"
    and i: "\<exists>h \<in> set (dbIntegrations d). giID h = giID g \<and> giOrganizationID h = alOrganizationID v"
    using ins by (auto simp: insert_delivery_def route_row_def split: if_splits)
  have org: "giOrganizationID g = alOrganizationID v" using i same_integration [OF d _ g] by blast
  then have "usable_secret d (alOrganizationID v) (giID g) (giActiveSecretVersion g)"
    using active_row [OF d g] by (auto simp: usable_secret_def)
  then show "webhook_inv d'"
    using unfinished_usable [OF d] by (intro webhook_inv_deliveries [OF d]) (auto simp: d' route_row_def)
qed simp_all

lemma project_alert_delivery_inv:
  assumes "delivery_inv d" and "project_incident_transition d e v uuid = (r, d')"
  shows "delivery_inv d'"
  using assms(2,1)
proof (rule project_alert_keeps)
  show "delivery_inv d'" if "delivery_inv d" "insert_delivery (route_row v w i g) d = Inr d'" for d w i g d'
    using insert_delivery_inv [OF that] by (simp add: route_row_def)
qed simp_all

text \<open>Claiming keeps what is unfinished among what was.\<close>

definition same_route :: "delivery_row \<Rightarrow> delivery_row \<Rightarrow> bool" where
  "same_route v w \<longleftrightarrow> vwID w = vwID v \<and> vwOrganizationID w = vwOrganizationID v \<and> vwAlertID w = vwAlertID v
     \<and> vwIntegrationID w = vwIntegrationID v \<and> vwSecretVersion w = vwSecretVersion v"

definition unfinished_before :: "db \<Rightarrow> db \<Rightarrow> bool" where
  "unfinished_before d d' \<longleftrightarrow> dbSecrets d' = dbSecrets d \<and> dbIntegrations d' = dbIntegrations d
     \<and> (\<forall>v \<in> set (dbDeliveries d'). vwCompletedAt v = None \<longrightarrow>
          (\<exists>w \<in> set (dbDeliveries d). vwCompletedAt w = None \<and> same_route w v))"

lemma unfinished_before_refl: "unfinished_before d d"
  by (auto simp: unfinished_before_def same_route_def)

lemma unfinished_before_trans:
  "unfinished_before d d1 \<Longrightarrow> unfinished_before d1 d2 \<Longrightarrow> unfinished_before d d2"
  unfolding unfinished_before_def same_route_def by metis

lemma unfinished_before_inv: "unfinished_before d d' \<Longrightarrow> webhook_inv d \<Longrightarrow> webhook_inv d'"
  unfolding unfinished_before_def same_route_def using unfinished_usable
  by (intro webhook_inv_deliveries [of d d']) (blast, blast, blast, metis)

lemma unfinished_before_update:
  assumes "dbDeliveries d' = sql_update p f (dbDeliveries d)"
    and "dbSecrets d' = dbSecrets d" and "dbIntegrations d' = dbIntegrations d"
    and "\<And>v. same_route v (f v)" and "\<And>v. v \<in> set (dbDeliveries d) \<Longrightarrow> p v \<Longrightarrow> vwCompletedAt (f v) = None \<Longrightarrow> vwCompletedAt v = None"
  shows "unfinished_before d d'"
  unfolding unfinished_before_def
proof (intro conjI ballI impI)
  fix v assume v: "v \<in> set (dbDeliveries d')" "vwCompletedAt v = None"
  then obtain w where w: "w \<in> set (dbDeliveries d)" "v = (if p w then f w else w)" by (auto simp: assms in_sql_update)
  then have "vwCompletedAt w = None" "same_route w v"
    using assms(4) [of w] assms(5) [OF w(1)] v(2) by (cases "p w"; simp add: same_route_def)+
  then show "\<exists>w \<in> set (dbDeliveries d). vwCompletedAt w = None \<and> same_route w v" using w(1) by blast
qed (simp_all add: assms)

lemma lease_deliveries_before:
  "lease_deliveries holder now expires cs d = Inr d' \<Longrightarrow> unfinished_before d d'"
proof (induction cs arbitrary: d)
  case (Cons c cs)
  obtain d1 where l: "lease_delivery holder now expires c d = Inr d1" and r: "lease_deliveries holder now expires cs d1 = Inr d'"
    using Cons.prems by (auto simp: and_then_Inr)
  have "d1 = d\<lparr>dbDeliveries := sql_update (lease_hits c) (leased_delivery holder expires) (dbDeliveries d),
      dbAttempts := dbAttempts d @ [new_attempt c now]\<rparr>"
    using l by (auto simp: lease_delivery_def insert_attempt_def split: if_splits)
  then have "unfinished_before d d1"
    by (intro unfinished_before_update [where p = "lease_hits c" and f = "leased_delivery holder expires"])
      (simp_all add: same_route_def leased_delivery_def)
  then show ?case using unfinished_before_trans Cons.IH [OF r] by blast
qed (simp add: unfinished_before_refl)

lemma before_claim:
  assumes "finalize_expired now d = Inr d1"
  shows "unfinished_before d (complete_exhausted now d1)"
proof -
  have "complete_exhausted now d1 = d\<lparr>dbDeliveries := sql_update (delivery_exhausted d1 now) (completed_delivery now) (dbDeliveries d),
      dbAttempts := sql_update (attempt_expired d now) (uncertain_attempt now) (dbAttempts d)\<rparr>"
    using assms by (auto simp: finalize_expired_def complete_exhausted_def split: if_splits)
  then show ?thesis
    by (intro unfinished_before_update [where p = "delivery_exhausted d1 now" and f = "completed_delivery now"])
      (simp_all add: same_route_def completed_delivery_def)
qed

lemma claim_deliveries_before:
  assumes "claim_deliveries d holder now expires limit = (r, d')"
  shows "unfinished_before d d'"
proof (cases "d' = d")
  case False
  then have "\<exists>claims. claim_deliveries_tx holder now expires limit d = Inr (claims, d')"
    using assms by (auto simp: claim_deliveries_def run_tx_def split: if_splits sum.splits)
  then show ?thesis using unfinished_before_trans [OF before_claim lease_deliveries_before]
    by (auto simp: claim_deliveries_tx_def and_then_Inr Let_def)
qed (simp add: unfinished_before_refl)

lemma complete_delivery_before:
  assumes inv: "delivery_inv d" and c: "complete_delivery d c u available terminal = (r, d')"
  shows "unfinished_before d d'"
  using c
proof (cases rule: complete_delivery_cases)
  case (2 hit)
  have "vwCompletedAt v = None" if "v \<in> set (dbDeliveries d)" "delivery_held c v" for v
    using inv that by (auto simp: delivery_inv_def delivery_row_ok_def delivery_held_def)
  then show ?thesis unfolding 2(3)
    by (intro unfinished_before_update [where p = "delivery_held c" and f = "released_delivery available terminal (auFinishedAt u)"])
      (simp_all add: same_route_def released_delivery_def)
qed (simp add: unfinished_before_refl)

text \<open>No change of the configuration touches deliveries.\<close>

definition deliveries_kept :: "db \<Rightarrow> db \<Rightarrow> bool" where
  "deliveries_kept d d' \<longleftrightarrow> dbDeliveries d' = dbDeliveries d \<and> dbAttempts d' = dbAttempts d"

lemma statements_keep_deliveries:
  "insert_secret what x d = Inr d' \<Longrightarrow> deliveries_kept d d'"
  "update_integration org i f d = Inr d' \<Longrightarrow> deliveries_kept d d'"
  "move_secret org i n st g missing d = Inr d' \<Longrightarrow> deliveries_kept d d'"
  using insert_secret_Inr [of what x d d'] update_integration_Inr [of org i f d d']
    move_secret_Inr [of org i n st g missing d d']
  by (simp_all add: deliveries_kept_def)

lemma deliveries_kept_refl [simp]: "deliveries_kept d d"
  by (simp add: deliveries_kept_def)

lemma deliveries_kept_trans: "deliveries_kept d d1 \<Longrightarrow> deliveries_kept d1 d2 \<Longrightarrow> deliveries_kept d d2"
  by (simp add: deliveries_kept_def)

lemma create_keeps_deliveries:
  assumes "service_create te cr kr random org name url clock uuid d = (r, d')"
  shows "deliveries_kept d d'"
proof (cases "d' = d")
  case False
  then have "\<exists>v s. create_integration d v s = (Inr (), d')"
    using assms
    by (auto simp: service_create_def Let_def create_integration_def run_tx_Inl
        split: prod.splits if_splits option.splits sum.splits)
  then obtain v s where "create_integration_tx v s d = Inr d'"
    by (auto simp: create_integration_def run_tx_Inr and_then_Inr)
  then obtain x g where "insert_secret ''insert Webhook signing secret'' x (d\<lparr>dbIntegrations := g\<rparr>) = Inr d'"
    by (auto simp: create_integration_tx_def and_then_Inr Let_def split: if_splits)
  then show ?thesis using statements_keep_deliveries(1) by (fastforce simp: deliveries_kept_def)
qed simp

lemma enable_keeps_deliveries:
  assumes "set_enabled te d org i expected on now = (r, d')"
  shows "deliveries_kept d d'"
proof (cases r)
  case (Inr v)
  then show ?thesis using assms statements_keep_deliveries(2)
    by (auto simp: set_enabled_def run_tx_Inr set_enabled_tx_def and_then_Inr Let_def split: if_splits)
qed (use assms in \<open>simp add: set_enabled_def run_tx_Inl\<close>)

lemma prepare_keeps_deliveries:
  assumes "prepare_secret te d updated s expected = (r, d')"
  shows "deliveries_kept d d'"
proof (cases r)
  case (Inr v)
  then obtain d1 x where "insert_secret ''insert pending Webhook signing secret'' x d = Inr d1"
    "update_integration (igOrganizationID updated) (igID updated) (version_row updated) d1 = Inr d'"
    using assms by (auto simp: prepare_secret_def run_tx_Inr prepare_secret_tx_def and_then_Inr split: if_splits)
  then show ?thesis using statements_keep_deliveries deliveries_kept_trans by blast
qed (use assms in \<open>simp add: prepare_secret_def run_tx_Inl\<close>)

lemma activate_keeps_deliveries:
  assumes "activate_secret te d org i expected now = (r, d')"
  shows "deliveries_kept d d'"
proof (cases r)
  case (Inr v)
  then obtain d1 d2 n m f g e1 e2 u where "move_secret org i n SecretActive f e1 d = Inr d1"
    "move_secret org i m SecretPending g e2 d1 = Inr d2" "update_integration org i (version_row u) d2 = Inr d'"
    using assms by (auto simp: activate_secret_def run_tx_Inr activate_secret_tx_def and_then_Inr Let_def split: option.splits)
  then show ?thesis using statements_keep_deliveries(2,3) unfolding deliveries_kept_def by metis
qed (use assms in \<open>simp add: activate_secret_def run_tx_Inl\<close>)

lemma retire_keeps_deliveries:
  assumes "retire_secret te d org i expected now = (r, d')"
  shows "deliveries_kept d d'"
proof (cases r)
  case (Inr v)
  then obtain d1 n f e1 u where "move_secret org i n SecretRetiring f e1 d = Inr d1"
    "update_integration org i (version_row u) d1 = Inr d'"
    using assms by (auto simp: retire_secret_def run_tx_Inr retire_secret_tx_def and_then_Inr Let_def split: option.splits if_splits)
  then show ?thesis using statements_keep_deliveries deliveries_kept_trans by blast
qed (use assms in \<open>simp add: retire_secret_def run_tx_Inl\<close>)

lemma replace_keeps_deliveries: "replace_envelope d s v = (r, d') \<Longrightarrow> deliveries_kept d d'"
  by (auto simp: replace_envelope_def Let_def deliveries_kept_def split: if_splits)

lemma rewrap_keeps_deliveries: "rewrap_secrets cr kr random n ss d = (r, d') \<Longrightarrow> deliveries_kept d d'"
proof (induction ss arbitrary: n d)
  case (Cons s ss)
  let ?ad = "secret_associated_data (ssOrganizationID s) (ssIntegrationID s) (ssVersion s)"
  consider "d' = d" | m where "rewrap_secrets cr kr random m ss d = (r, d')"
    | v q d1 where "replace_envelope d s v = (q, d1)" "d' = d1 \<or> rewrap_secrets cr kr random (Suc n) ss d1 = (r, d')"
    using Cons.prems by (auto simp: Let_def split: sum.splits if_splits prod.splits)
  then show ?case
  proof cases
    case (3 v q d1)
    then show ?thesis using deliveries_kept_trans [OF replace_keeps_deliveries [OF 3(1)]] Cons.IH by auto
  qed (use Cons.IH in auto)
qed simp

lemma initialize_keeps_deliveries: "webhook_initialize cr kr random d = (r, d') \<Longrightarrow> deliveries_kept d d'"
  by (auto simp: webhook_initialize_def Let_def rewrap_keeps_deliveries split: if_splits)

lemma delivery_inv_kept: "deliveries_kept d d' \<Longrightarrow> delivery_inv d \<Longrightarrow> delivery_inv d'"
  using delivery_inv_same [of d' d] by (simp add: deliveries_kept_def)

definition webhooks_inv :: "db \<Rightarrow> bool" where
  "webhooks_inv d \<longleftrightarrow> webhook_inv d \<and> delivery_inv d"

lemma webhook_step_inv:
  assumes "webhook_step d d'" and "webhooks_inv d"
  shows "webhooks_inv d'"
proof -
  have w: "webhook_inv d" and v: "delivery_inv d" using assms(2) by (simp_all add: webhooks_inv_def)
  have "webhook_inv d' \<and> delivery_inv d'"
    using assms(1)
  proof cases
    case alerted
    show ?thesis using project_alert_webhook_inv [OF w alerted] project_alert_delivery_inv [OF v alerted] ..
  next
    case created
    show ?thesis using service_create_inv [OF w created] delivery_inv_kept [OF create_keeps_deliveries [OF created] v] ..
  next
    case enabled
    show ?thesis using set_enabled_inv [OF w enabled] delivery_inv_kept [OF enable_keeps_deliveries [OF enabled] v] ..
  next
    case prepared
    show ?thesis using prepare_secret_inv [OF w prepared] delivery_inv_kept [OF prepare_keeps_deliveries [OF prepared] v] ..
  next
    case activated
    show ?thesis using activate_secret_inv [OF w activated] delivery_inv_kept [OF activate_keeps_deliveries [OF activated] v] ..
  next
    case retired
    show ?thesis using retire_secret_inv [OF w retired] delivery_inv_kept [OF retire_keeps_deliveries [OF retired] v] ..
  next
    case rewrapped
    show ?thesis
      using webhook_initialize_inv [OF w rewrapped] delivery_inv_kept [OF initialize_keeps_deliveries [OF rewrapped] v] ..
  next
    case claimed
    show ?thesis
      using unfinished_before_inv [OF claim_deliveries_before [OF claimed] w] claim_deliveries_inv [OF v claimed] ..
  next
    case completed
    show ?thesis
      using unfinished_before_inv [OF complete_delivery_before [OF v completed] w] complete_delivery_inv [OF v completed] ..
  qed
  then show ?thesis by (simp add: webhooks_inv_def)
qed

lemma webhook_steps_inv: "webhook_step\<^sup>*\<^sup>* d d' \<Longrightarrow> webhooks_inv d \<Longrightarrow> webhooks_inv d'"
  by (induction rule: rtranclp_induct) (auto dest: webhook_step_inv)

text \<open>A database without Webhook configuration.\<close>

definition no_webhooks :: "db \<Rightarrow> bool" where
  "no_webhooks d \<longleftrightarrow> dbIntegrations d = [] \<and> dbSecrets d = [] \<and> dbDeliveries d = [] \<and> dbAttempts d = []"

lemma no_webhooks_inv: "no_webhooks d \<Longrightarrow> webhooks_inv d"
  by (simp add: no_webhooks_def webhooks_inv_def webhook_inv_def delivery_inv_def enabled_count_def)

section \<open>Completed deliveries\<close>

definition holds_final :: "delivery_row \<Rightarrow> attempt_row list \<Rightarrow> db \<Rightarrow> bool" where
  "holds_final v qs d \<longleftrightarrow> v \<in> set (dbDeliveries d) \<and> attempts_of d v = qs"

lemma holds_final_kept: "deliveries_kept d d' \<Longrightarrow> holds_final v qs d \<Longrightarrow> holds_final v qs d'"
  by (simp add: deliveries_kept_def holds_final_def attempts_of_def)

lemma sql_update_none: "(\<And>x. x \<in> set xs \<Longrightarrow> \<not> p x) \<Longrightarrow> sql_update p f xs = xs"
  by (simp add: sql_update_def map_idI)

lemma attempts_of_update:
  assumes "\<And>q. attempt_of v q \<Longrightarrow> \<not> p q"
    and "\<And>q. qwDeliveryID (f q) = qwDeliveryID q" "\<And>q. qwOrganizationID (f q) = qwOrganizationID q"
  shows "attempts_of (d\<lparr>dbAttempts := sql_update p f (dbAttempts d)\<rparr>) v = attempts_of d v"
proof -
  have "filter (attempt_of v) (sql_update p f (dbAttempts d)) = sql_update p f (filter (attempt_of v) (dbAttempts d))"
    by (rule filter_sql_update) (simp add: attempt_of_def assms(2,3))
  also have "\<dots> = filter (attempt_of v) (dbAttempts d)" by (rule sql_update_none) (simp add: assms(1))
  finally show ?thesis by (simp add: attempts_of_def)
qed

lemma in_sql_update_outside: "x \<in> set xs \<Longrightarrow> \<not> p x \<Longrightarrow> x \<in> set (sql_update p f xs)"
  unfolding in_sql_update by (intro bexI [of _ x]) simp_all

lemma lease_deliveries_final:
  "lease_deliveries holder now expires cs d = Inr d' \<Longrightarrow> \<forall>c \<in> set cs. vwID c \<noteq> vwID v \<Longrightarrow>
     holds_final v qs d \<Longrightarrow> holds_final v qs d'"
proof (induction cs arbitrary: d)
  case (Cons c cs)
  obtain d1 where l: "lease_delivery holder now expires c d = Inr d1" and r: "lease_deliveries holder now expires cs d1 = Inr d'"
    using Cons.prems(1) by (auto simp: and_then_Inr)
  have d1: "dbDeliveries d1 = sql_update (lease_hits c) (leased_delivery holder expires) (dbDeliveries d)"
    "dbAttempts d1 = dbAttempts d @ [new_attempt c now]"
    using l by (auto simp: lease_delivery_def insert_attempt_def split: if_splits)
  have n: "vwID v \<noteq> vwID c" using Cons.prems(2) by auto
  have "v \<in> set (dbDeliveries d1)"
    unfolding d1 using Cons.prems(3) n by (intro in_sql_update_outside) (simp_all add: holds_final_def lease_hits_def)
  then have "holds_final v qs d1" using Cons.prems(3) n
    by (auto simp: holds_final_def attempts_of_def d1 attempt_of_def new_attempt_def)
  then show ?case using Cons.IH [OF r] Cons.prems(2) by simp
qed simp

lemma claim_deliveries_final:
  assumes inv: "delivery_inv d" and c: "claim_deliveries d holder now expires limit = (r, d')"
    and v: "holds_final v qs d" "vwCompletedAt v \<noteq> None"
  shows "holds_final v qs d'"
proof (cases "d' = d")
  case False
  then have "\<exists>claims. claim_deliveries_tx holder now expires limit d = Inr (claims, d')"
    using c by (auto simp: claim_deliveries_def run_tx_def split: if_splits sum.splits)
  then obtain d1 where f: "finalize_expired (db_instant now) d = Inr d1"
    and l: "lease_deliveries holder (db_instant now) (db_instant expires)
      (delivery_candidates (complete_exhausted (db_instant now) d1) (db_instant now) (nat limit))
      (complete_exhausted (db_instant now) d1) = Inr d'"
    by (auto simp: claim_deliveries_tx_def and_then_Inr Let_def)
  let ?now = "db_instant now" and ?d2 = "complete_exhausted (db_instant now) d1"
  have vin: "v \<in> set (dbDeliveries d)" using v(1) by (simp add: holds_final_def)
  have d1: "d1 = d\<lparr>dbAttempts := sql_update (attempt_expired d ?now) (uncertain_attempt ?now) (dbAttempts d)\<rparr>"
    using f by (auto simp: finalize_expired_def split: if_splits)
  have "\<not> attempt_expired d ?now q" if "attempt_of v q" for q
    using same_delivery [OF inv _ vin] v(2) that by (auto simp: attempt_expired_def attempt_of_def)
  then have "attempts_of d1 v = attempts_of d v"
    unfolding d1 by (intro attempts_of_update) (simp_all add: uncertain_attempt_def)
  then have at: "attempts_of ?d2 v = attempts_of d v" by (simp add: attempts_of_def complete_exhausted_def)
  have inv2: "delivery_inv ?d2" using complete_exhausted_inv [OF finalize_expired_inv [OF inv f]] .
  have v2: "v \<in> set (dbDeliveries ?d2)"
    using vin v(2) by (simp add: complete_exhausted_def d1 in_sql_update_outside delivery_exhausted_def)
  have "vwID c \<noteq> vwID v" if "c \<in> set (delivery_candidates ?d2 ?now (nat limit))" for c
  proof -
    have "c \<in> set (dbDeliveries ?d2)" "vwCompletedAt c = None"
      using that by (auto simp: delivery_candidates_def claimable_def dest!: in_set_takeD)
    then show ?thesis using same_delivery [OF inv2 _ v2] v(2) by metis
  qed
  then show ?thesis using lease_deliveries_final [OF l] v2 at v(1) by (simp add: holds_final_def)
qed (use v in simp)

lemma complete_delivery_final:
  assumes inv: "delivery_inv d" and c: "complete_delivery d c u available terminal = (r, d')"
    and v: "holds_final v qs d" "vwCompletedAt v \<noteq> None"
  shows "holds_final v qs d'"
  using c
proof (cases rule: complete_delivery_cases)
  case (2 hit)
  have vin: "v \<in> set (dbDeliveries d)" using v(1) by (simp add: holds_final_def)
  then have nl: "vwLeaseHolder v = None" using inv v(2) by (auto simp: delivery_inv_def delivery_row_ok_def)
  have "\<not> hit q" if "attempt_of v q" for q
  proof
    assume "hit q"
    then obtain w where w: "w \<in> set (dbDeliveries d)" "attempt_of w q" "vwLeaseHolder w \<noteq> None"
      unfolding 2(2) attempt_held_def sql_exists_iff by force
    have "vwID w = vwID v" using w(2) that by (simp add: attempt_of_def)
    then show False using same_delivery [OF inv w(1) vin] w(3) nl by simp
  qed
  then have "attempts_of (d\<lparr>dbAttempts := sql_update hit (finished_attempt u) (dbAttempts d)\<rparr>) v = attempts_of d v"
    by (intro attempts_of_update) (simp_all add: finished_attempt_def)
  then have "attempts_of d' v = attempts_of d v" by (simp add: attempts_of_def 2(3))
  moreover have "v \<in> set (dbDeliveries d')"
    using vin nl by (simp add: 2(3) in_sql_update_outside delivery_held_def)
  ultimately show ?thesis using v(1) by (simp add: holds_final_def)
qed (use v in simp)

lemma webhook_step_final:
  assumes "webhook_step d d'" and inv: "webhooks_inv d" and v: "holds_final v qs d" "vwCompletedAt v \<noteq> None"
  shows "holds_final v qs d'"
proof -
  have dinv: "delivery_inv d" using inv by (simp add: webhooks_inv_def)
  show ?thesis
    using assms(1)
  proof cases
    case (alerted e a uuid r)
    from alerted v(1) show ?thesis
    proof (rule project_alert_keeps)
      show "holds_final v qs d'" if "holds_final v qs d" "insert_delivery (route_row a w i g) d = Inr d'" for d w i g d'
        using that insert_delivery_Inr by (fastforce simp: holds_final_def attempts_of_def)
    qed (simp_all add: holds_final_def attempts_of_def)
  next
    case created
    show ?thesis using holds_final_kept [OF create_keeps_deliveries [OF created] v(1)] .
  next
    case enabled
    show ?thesis using holds_final_kept [OF enable_keeps_deliveries [OF enabled] v(1)] .
  next
    case prepared
    show ?thesis using holds_final_kept [OF prepare_keeps_deliveries [OF prepared] v(1)] .
  next
    case activated
    show ?thesis using holds_final_kept [OF activate_keeps_deliveries [OF activated] v(1)] .
  next
    case retired
    show ?thesis using holds_final_kept [OF retire_keeps_deliveries [OF retired] v(1)] .
  next
    case rewrapped
    show ?thesis using holds_final_kept [OF initialize_keeps_deliveries [OF rewrapped] v(1)] .
  next
    case claimed
    show ?thesis using claim_deliveries_final [OF dinv claimed v] .
  next
    case completed
    show ?thesis using complete_delivery_final [OF dinv completed v] .
  qed
qed

lemma webhook_steps_final:
  "webhook_step\<^sup>*\<^sup>* d d' \<Longrightarrow> webhooks_inv d \<Longrightarrow> holds_final v qs d \<Longrightarrow> vwCompletedAt v \<noteq> None \<Longrightarrow> holds_final v qs d'"
proof (induction rule: rtranclp_induct)
  case (step d1 d2)
  then show ?case using webhook_step_final [OF step(2)] webhook_steps_inv [OF step(1)] by blast
qed

section \<open>Properties\<close>

text \<open>C15. Whatever is configured, routed, claimed and completed, in any order: the attempts of a
  delivery are numbered from 1 without gaps, there are at most five, and only the last can be in
  progress, while the delivery is unfinished and leased.\<close>
theorem delivery_attempts_are_numbered:
  assumes "webhook_step\<^sup>*\<^sup>* d0 d" and "no_webhooks d0" and "v \<in> set (dbDeliveries d)"
  shows "map qwSequence (attempts_of d v) = [1..vwAttemptCount v] \<and> vwAttemptCount v \<le> MaxDeliveryAttempts
    \<and> (\<forall>q \<in> set (attempts_of d v). qwOutcome q = AttemptInProgress \<longrightarrow>
        qwSequence q = vwAttemptCount v \<and> vwCompletedAt v = None \<and> vwLeaseHolder v \<noteq> None)"
proof -
  have "delivery_inv d" using webhook_steps_inv [OF assms(1) no_webhooks_inv [OF assms(2)]] by (simp add: webhooks_inv_def)
  then have "delivery_row_ok v" "map qwSequence (attempts_of d v) = [1..vwAttemptCount v]"
    "\<forall>q \<in> set (attempts_of d v). in_progress_ok v q"
    using assms(3) unfolding delivery_inv_def by blast+
  then show ?thesis by (simp add: delivery_row_ok_def in_progress_ok_def MaxDeliveryAttempts_def)
qed

text \<open>Once a delivery is completed, neither it nor any of its attempts ever changes again, and none
  of them is in progress.\<close>
theorem completed_delivery_is_final:
  assumes "webhook_step\<^sup>*\<^sup>* d0 d" and "no_webhooks d0" and "v \<in> set (dbDeliveries d)" and "vwCompletedAt v \<noteq> None"
    and "webhook_step\<^sup>*\<^sup>* d d'"
  shows "v \<in> set (dbDeliveries d') \<and> attempts_of d' v = attempts_of d v
    \<and> (\<forall>q \<in> set (attempts_of d' v). qwOutcome q \<noteq> AttemptInProgress)"
proof -
  have inv: "webhooks_inv d" using webhook_steps_inv [OF assms(1) no_webhooks_inv [OF assms(2)]] .
  have "holds_final v (attempts_of d v) d'"
    using webhook_steps_final [OF assms(5) inv _ assms(4)] assms(3) by (simp add: holds_final_def)
  moreover have "\<forall>q \<in> set (attempts_of d v). qwOutcome q \<noteq> AttemptInProgress"
    using inv assms(3,4) by (auto simp: webhooks_inv_def delivery_inv_def in_progress_ok_def)
  ultimately show ?thesis by (simp add: holds_final_def)
qed


section \<open>An example\<close>

definition sample_url :: go_url where
  "sample_url = \<lparr>urlScheme = ''https'', urlOpaque = '''', urlHasUser = False, urlHost = ''example.com'',
     urlHostname = ''example.com'', urlPort = '''', urlForceQuery = False, urlRawQuery = '''', urlFragment = ''''\<rparr>"

definition sample_text :: text_env where
  "sample_text = \<lparr>parseURL = \<lambda>s. if s = ''https://example.com/hook'' then Some sample_url else None, parseAddr = \<lambda>s. None\<rparr>"

definition hook_db0 :: db where
  "hook_db0 = alert_db\<lparr>dbWindows := [], dbIntegrations := [], dbSecrets := []\<rparr>"

definition hook_db1 :: db where
  "hook_db1 = snd (service_create sample_text plain_crypto (Some (key_of sample_keys)) nonces ''org'' '' Ops ''
     ''https://example.com/hook'' sample_time (Inr ''g'') hook_db0)"

definition hook_db2 :: db where
  "hook_db2 = snd (set_enabled sample_text hook_db1 ''org'' ''g'' 1 True sample_time)"

definition hook_db3 :: db where
  "hook_db3 = snd (project_incident_transition hook_db2 sample_incident_event sample_alert (\<lambda>n. Inr (''d'' @ nat_dec n)))"

definition claim_at :: "string \<Rightarrow> int \<Rightarrow> db \<Rightarrow> delivery_claim list result \<times> db" where
  "claim_at holder n d = claim_deliveries d holder (window_time n) (window_time (n + 1)) 4"

definition hook_db4 :: db where "hook_db4 = snd (claim_at ''h1'' 10 hook_db3)"

text \<open>The first holder never reports back; the second takes over.\<close>

definition hook_db5 :: db where "hook_db5 = snd (claim_at ''h2'' 20 hook_db4)"

lemma hook_steps:
  "webhook_step hook_db0 hook_db1" "webhook_step hook_db1 hook_db2" "webhook_step hook_db2 hook_db3"
  "webhook_step hook_db3 hook_db4" "webhook_step hook_db4 hook_db5"
  unfolding hook_db1_def hook_db2_def hook_db3_def hook_db4_def hook_db5_def claim_at_def
  by (rule webhook_step.created webhook_step.enabled webhook_step.alerted webhook_step.claimed,
      rule prod.collapse [symmetric])+

lemma hook_reachable:
  "webhook_step\<^sup>*\<^sup>* hook_db0 hook_db3" "webhook_step\<^sup>*\<^sup>* hook_db0 hook_db4" "webhook_step\<^sup>*\<^sup>* hook_db0 hook_db5"
  using hook_steps by (meson rtranclp.rtrancl_into_rtrancl rtranclp.rtrancl_refl)+

lemma hook_start: "no_webhooks hook_db0"
  by (simp add: no_webhooks_def hook_db0_def alert_db_def sample_db_def)

definition hook_check4 :: "db \<Rightarrow> bool" where
  "hook_check4 d \<longleftrightarrow> length (dbDeliveries d) = 1 \<and> vwAttemptCount (hd (dbDeliveries d)) = 2
     \<and> map qwOutcome (attempts_of d (hd (dbDeliveries d))) = [AttemptFailed, AttemptInProgress]"

lemma hook_check: "hook_check4 hook_db5" by code_simp

theorem delivery_attempts_are_numbered_witness:
  "\<exists>v q1 q2. dbDeliveries hook_db5 = [v] \<and> attempts_of hook_db5 v = [q1, q2] \<and> qwSequence q1 = 1 \<and> qwSequence q2 = 2
     \<and> vwLeaseHolder v \<noteq> None"
proof -
  have n: "length (dbDeliveries hook_db5) = 1" "vwAttemptCount (hd (dbDeliveries hook_db5)) = 2"
    "map qwOutcome (attempts_of hook_db5 (hd (dbDeliveries hook_db5))) = [AttemptFailed, AttemptInProgress]"
    using hook_check unfolding hook_check4_def by blast+
  obtain v where v: "dbDeliveries hook_db5 = [v]" using n(1) by (auto simp: length_Suc_conv)
  have "v \<in> set (dbDeliveries hook_db5)" by (simp add: v)
  note A = delivery_attempts_are_numbered [OF hook_reachable(3) hook_start this]
  have "map qwSequence (attempts_of hook_db5 v) = [1..2]" using A n(2) by (simp add: v)
  then have s: "map qwSequence (attempts_of hook_db5 v) = [1, 2]" by (simp add: upto.simps)
  then obtain q1 q2 where q: "attempts_of hook_db5 v = [q1, q2]" "qwSequence q1 = 1" "qwSequence q2 = 2"
    by (auto simp: map_eq_Cons_conv)
  have "qwOutcome q2 = AttemptInProgress" using n(3) q(1) v by simp
  then show ?thesis using A q v by auto
qed

definition hook_check3 :: "delivery_claim list result \<Rightarrow> bool" where
  "hook_check3 r = (case r of Inr [c] \<Rightarrow> drSecretVersion c = 1 \<and> drOrganizationID c = ''org'' \<and> drIntegrationID c = ''g'' | _ \<Rightarrow> False)"

end
