(* ===== verification/Outbox.thy ===== *)
theory Outbox
  imports WebhookDelivery RunQuery
begin

text \<open>
  The outbox dispatcher: \<open>internal/outbox/outbox.go\<close>, its store in \<open>internal/postgres/outbox.go\<close>
  and the handlers the process registers in \<open>cmd/probehive/events.go\<close>.

  A transaction runs as one step, so no row is locked by another and \<open>SKIP LOCKED\<close> skips none. The
  goroutines of a tick handle the claimed entries in some order, which is a parameter. Between a
  handler and the completion of its entry other workers may run.
\<close>

section \<open>Retry delays\<close>

definition DefaultOutboxLease :: duration where "DefaultOutboxLease = 60 * second"
definition DefaultOutboxBatch :: int where "DefaultOutboxBatch = 32"
definition DefaultOutboxConcurrency :: int where "DefaultOutboxConcurrency = 4"
definition DefaultOutboxTick :: duration where "DefaultOutboxTick = second"
definition RetryBase :: duration where "RetryBase = second"
definition RetryCap :: duration where "RetryCap = 5 * minute"
definition MaxOutboxAttempts :: int where "MaxOutboxAttempts = 12"
definition Retention :: duration where "Retention = 30 * 24 * hour"
definition AggregateGapTimeout :: duration where "AggregateGapTimeout = 15 * minute"

definition CodeTopicUnknown :: string where "CodeTopicUnknown = ''outbox.topic.unknown''"
definition CodePayloadInvalid :: string where "CodePayloadInvalid = ''outbox.payload.invalid''"
definition CodeOrganizationMismatch :: string where
  "CodeOrganizationMismatch = ''outbox.organization.mismatch''"
definition CodeAggregateVersionGap :: string where
  "CodeAggregateVersionGap = ''outbox.aggregate.versionGap''"
definition CodeHandlerFailed :: string where "CodeHandlerFailed = ''outbox.handler.failed''"
definition CodeHandlerCancelled :: string where "CodeHandlerCancelled = ''outbox.handler.cancelled''"

text \<open>The loop of \<open>RetryDelay\<close>, which runs at most \<open>attempt - 1\<close> times.\<close>

fun double_delay :: "nat \<Rightarrow> duration \<Rightarrow> duration" where
  "double_delay 0 delay = delay"
| "double_delay (Suc n) delay =
     (if delay < RetryCap then
        if go_div RetryCap 2 < delay then RetryCap else double_delay n (2 * delay)
      else delay)"

definition retry_delay :: "string \<Rightarrow> int \<Rightarrow> duration" where
  "retry_delay i attempt0 =
     (let attempt = (if attempt0 < 1 then 1 else attempt0);
          delay = double_delay (nat (attempt - 1)) RetryBase
      in if RetryCap \<le> delay then RetryCap
         else let room = RetryCap - delay;
                  fifth = go_div delay 5;
                  bound = (if room < fifth then room else fifth)
              in if bound \<le> 0 then delay
                 else delay + uint (fnv64a (i @ '':'' @ int_dec attempt)) mod (bound + 1))"

section \<open>The store\<close>

record dispatch_entry =
  xeID :: string
  xeOrganizationID :: string
  xeTopic :: string
  xePayload :: json
  xeAttempts :: int
  xeCreatedAt :: go_time
  xeAvailableAt :: go_time
  xeLeaseHolder :: string
  xeLeaseExpiresAt :: go_time
  xeGapFirstSeenAt :: go_time

definition outbox_claimable :: "go_time \<Rightarrow> outbox_row \<Rightarrow> bool" where
  "outbox_claimable now x \<longleftrightarrow> \<not> after (xwAvailableAt x) now
     \<and> (case xwLeaseExpiresAt x of None \<Rightarrow> True | Some t \<Rightarrow> \<not> after t now)"

definition outbox_candidates :: "go_time \<Rightarrow> int \<Rightarrow> db \<Rightarrow> outbox_row list" where
  "outbox_candidates now limit d =
     take (nat limit) (sort_key (\<lambda>x. (nanos (xwAvailableAt x), xwID x)) (filter (outbox_claimable now) (dbOutbox d)))"

definition leased_entry :: "string \<Rightarrow> go_time \<Rightarrow> outbox_row \<Rightarrow> outbox_row" where
  "leased_entry holder expires x = x\<lparr>xwLeaseHolder := Some holder, xwLeaseExpiresAt := Some expires,
     xwAttempts := xwAttempts x + 1\<rparr>"

definition scan_outbox :: "outbox_row \<Rightarrow> dispatch_entry" where
  "scan_outbox x = \<lparr>xeID = xwID x, xeOrganizationID = xwOrganizationID x, xeTopic = xwTopic x,
     xePayload = xwPayload x, xeAttempts = xwAttempts x, xeCreatedAt = to_utc (xwCreatedAt x),
     xeAvailableAt = to_utc (xwAvailableAt x), xeLeaseHolder = text_value (xwLeaseHolder x),
     xeLeaseExpiresAt = instant_value (xwLeaseExpiresAt x), xeGapFirstSeenAt = instant_value (xwGapFirstSeenAt x)\<rparr>"

definition claim_outbox :: "db \<Rightarrow> string \<Rightarrow> go_time \<Rightarrow> go_time \<Rightarrow> int \<Rightarrow> dispatch_entry list result \<times> db" where
  "claim_outbox d holder now expires limit =
     (if holder = '''' \<or> \<not> is_utc now \<or> \<not> is_utc expires \<or> \<not> after expires now then
        (Inl (ErrText ''claiming outbox entries requires a holder and UTC lease''), d)
      else if limit < 1 \<or> DefaultOutboxBatch < limit then (Inl (ErrText ''outbox claim limit is 1 to 32''), d)
      else let cs = outbox_candidates (db_instant now) limit d;
               lease = leased_entry holder (db_instant expires)
           in (Inr (map (scan_outbox \<circ> lease) cs),
               d\<lparr>dbOutbox := sql_update (\<lambda>x. xwID x \<in> xwID ` set cs) lease (dbOutbox d)\<rparr>))"

text \<open>The condition on which a worker may complete an entry: it still holds the lease.\<close>

definition outbox_held :: "dispatch_entry \<Rightarrow> string \<Rightarrow> outbox_row \<Rightarrow> bool" where
  "outbox_held e holder x \<longleftrightarrow> xwID x = xeID e \<and> xwOrganizationID x = xeOrganizationID e \<and> xwLeaseHolder x = Some holder"

text \<open>\<open>INSERT ... SELECT ... ON CONFLICT DO NOTHING\<close> into the markers of processed entries.\<close>

fun mark_all :: "go_time \<Rightarrow> outbox_row list \<Rightarrow> db \<Rightarrow> db result" where
  "mark_all now [] d = Inr d"
| "mark_all now (x # xs) d =
     and_then (mark_outbox_event_processed (xwID x) (xwOrganizationID x) (xwTopic x) now d) (mark_all now xs)"

definition succeed_outbox_tx :: "dispatch_entry \<Rightarrow> string \<Rightarrow> go_time \<Rightarrow> db \<Rightarrow> (unit \<times> db) result" where
  "succeed_outbox_tx e holder now d =
     and_then (mark_all now (filter (outbox_held e holder) (dbOutbox d)) d) (\<lambda>d1.
       if \<not> sql_exists (outbox_held e holder) (dbOutbox d1) then Inl (ErrIs OutboxLeaseLost)
       else Inr ((), d1\<lparr>dbOutbox := sql_delete (outbox_held e holder) (dbOutbox d1)\<rparr>))"

definition succeed_outbox :: "db \<Rightarrow> dispatch_entry \<Rightarrow> string \<Rightarrow> go_time \<Rightarrow> unit result \<times> db" where
  "succeed_outbox d e holder now = run_tx (succeed_outbox_tx e holder now) d"

definition dead_letter_of :: "string \<Rightarrow> go_time \<Rightarrow> outbox_row \<Rightarrow> dead_letter_row" where
  "dead_letter_of code now x = \<lparr>dwID = xwID x, dwOrganizationID = xwOrganizationID x, dwTopic = xwTopic x,
     dwPayload = xwPayload x, dwAttempts = xwAttempts x, dwCreatedAt = xwCreatedAt x, dwFailureCode = code,
     dwDeadLetteredAt = db_instant now\<rparr>"

definition dead_lettered :: "string \<Rightarrow> string \<Rightarrow> db \<Rightarrow> bool" where
  "dead_lettered i org d = sql_exists (\<lambda>w. dwID w = i \<and> dwOrganizationID w = org) (dbDeadLetters d)"

fun insert_dead_letters :: "dead_letter_row list \<Rightarrow> nat \<Rightarrow> db \<Rightarrow> (nat \<times> db) result" where
  "insert_dead_letters [] n d = Inr (n, d)"
| "insert_dead_letters (w # ws) n d =
     (if dwAttempts w < 1 \<or> dwOrganizationID w \<notin> set (dbOrganizations d) then
        Inl (ErrText ''insert dead-letter outbox entry'')
      else if dead_lettered (dwID w) (dwOrganizationID w) d then insert_dead_letters ws n d
      else insert_dead_letters ws (Suc n) (d\<lparr>dbDeadLetters := dbDeadLetters d @ [w]\<rparr>))"

definition dead_letter_tx :: "dispatch_entry \<Rightarrow> string \<Rightarrow> string \<Rightarrow> go_time \<Rightarrow> db \<Rightarrow> (unit \<times> db) result" where
  "dead_letter_tx e holder code now d =
     and_then (insert_dead_letters (map (dead_letter_of code now) (filter (outbox_held e holder) (dbOutbox d))) 0 d)
       (\<lambda>(inserted, d1).
       if inserted = 0 then Inl (ErrIs OutboxLeaseLost)
       else if \<not> sql_exists (outbox_held e holder) (dbOutbox d1) then Inl (ErrIs OutboxLeaseLost)
       else Inr ((), d1\<lparr>dbOutbox := sql_delete (outbox_held e holder) (dbOutbox d1)\<rparr>))"

definition dead_letter :: "db \<Rightarrow> dispatch_entry \<Rightarrow> string \<Rightarrow> string \<Rightarrow> go_time \<Rightarrow> unit result \<times> db" where
  "dead_letter d e holder code now = run_tx (dead_letter_tx e holder code now) d"

definition released_entry :: "string \<Rightarrow> go_time \<Rightarrow> go_time \<Rightarrow> outbox_row \<Rightarrow> outbox_row" where
  "released_entry code available now x = x\<lparr>xwAvailableAt := db_instant available, xwLeaseHolder := None,
     xwLeaseExpiresAt := None, xwLastFailureCode := Some code,
     xwGapFirstSeenAt := (if code = CodeAggregateVersionGap then
         (case xwGapFirstSeenAt x of None \<Rightarrow> Some (db_instant now) | Some t \<Rightarrow> Some t) else None)\<rparr>"

definition fail_outbox ::
  "db \<Rightarrow> dispatch_entry \<Rightarrow> string \<Rightarrow> string \<Rightarrow> go_time \<Rightarrow> go_time \<Rightarrow> bool \<Rightarrow> unit result \<times> db" where
  "fail_outbox d e holder code available now dead =
     (if dead then dead_letter d e holder code now
      else if \<not> sql_exists (outbox_held e holder) (dbOutbox d) then (Inl (ErrIs OutboxLeaseLost), d)
      else (Inr (), d\<lparr>dbOutbox := sql_update (outbox_held e holder) (released_entry code available now) (dbOutbox d)\<rparr>))"

definition cleanup_outbox :: "db \<Rightarrow> go_time \<Rightarrow> unit result \<times> db" where
  "cleanup_outbox d oldest =
     (Inr (), d\<lparr>dbProcessed := sql_delete (\<lambda>p. before (pwProcessedAt p) (db_instant oldest)) (dbProcessed d),
        dbDeadLetters := sql_delete (\<lambda>w. before (dwDeadLetteredAt w) (db_instant oldest)) (dbDeadLetters d)\<rparr>)"

section \<open>The dispatcher\<close>

type_synonym 's handler = "dispatch_entry \<Rightarrow> 's \<Rightarrow> unit result \<times> 's"

record outbox_config =
  ocTopics :: "string list"
  ocLease :: duration
  ocBatchSize :: int
  ocConcurrency :: int
  ocTickInterval :: duration

definition new_outbox_dispatcher :: "outbox_config \<Rightarrow> outbox_config result" where
  "new_outbox_dispatcher c =
     (if ocTopics c = [] then Inl (ErrText ''outbox dispatcher requires at least one topic handler'')
      else if '''' \<in> set (ocTopics c) then Inl (ErrText ''outbox topic handlers require a topic and handler'')
      else
        let lease = (if ocLease c \<le> 0 then DefaultOutboxLease else ocLease c);
            batch = (if ocBatchSize c \<le> 0 then DefaultOutboxBatch else ocBatchSize c);
            workers = (if ocConcurrency c \<le> 0 then DefaultOutboxConcurrency else ocConcurrency c);
            ticks = (if ocTickInterval c \<le> 0 then DefaultOutboxTick else ocTickInterval c)
        in if DefaultOutboxBatch < batch then Inl (ErrText ''outbox batch size cannot exceed 32'')
           else if DefaultOutboxConcurrency < workers then Inl (ErrText ''outbox concurrency cannot exceed 4'')
           else Inr (c\<lparr>ocLease := lease, ocBatchSize := batch, ocConcurrency := workers, ocTickInterval := ticks\<rparr>))"

text \<open>\<open>errors.As\<close> with a \<open>*outbox.Failure\<close>.\<close>

fun outbox_failure :: "go_error \<Rightarrow> (string \<times> bool) option" where
  "outbox_failure (OutboxFailure code permanent) = Some (code, permanent)"
| "outbox_failure (Wrapped m e) = outbox_failure e"
| "outbox_failure (OutboundFailure r c h p (Some e)) = outbox_failure e"
| "outbox_failure e = None"

datatype outbox_handled = OutboxSucceeded | OutboxRetried | OutboxDeadLettered | OutboxLost

text \<open>
  What surrounds the handling of one entry: whether the context is done once the handler has
  returned, what other workers do in the meantime, and whether the call that completes the entry
  reaches the database at all.
\<close>

record handling =
  hgCancelled :: bool
  hgMeanwhile :: "db \<Rightarrow> db"
  hgStoreFails :: bool

definition failure_of :: "bool \<Rightarrow> go_error \<Rightarrow> string \<times> bool" where
  "failure_of cancelled x =
     (case outbox_failure x of Some f \<Rightarrow> f
      | None \<Rightarrow> (if cancelled then CodeHandlerCancelled else CodeHandlerFailed, False))"

definition run_handler ::
  "(string \<rightharpoonup> db handler) \<Rightarrow> bool \<Rightarrow> dispatch_entry \<Rightarrow> db \<Rightarrow> (string \<times> bool) \<times> db" where
  "run_handler handlers cancelled e d =
     (case handlers (xeTopic e) of
        None \<Rightarrow> ((CodeTopicUnknown, True), d)
      | Some h \<Rightarrow> (case h e d of
            (Inr _, d') \<Rightarrow> (('''', False), d')
          | (Inl x, d') \<Rightarrow> (failure_of cancelled x, d')))"

definition gap_over :: "dispatch_entry \<Rightarrow> go_time \<Rightarrow> bool" where
  "gap_over e now =
     (let first = (if is_zero (xeGapFirstSeenAt e) then now else xeGapFirstSeenAt e)
      in \<not> before now (time_add first AggregateGapTimeout))"

definition entry_dead :: "dispatch_entry \<Rightarrow> go_time \<Rightarrow> string \<times> bool \<Rightarrow> bool" where
  "entry_dead e now f =
     (if fst f = CodeAggregateVersionGap then gap_over e now
      else if MaxOutboxAttempts \<le> xeAttempts e then True else snd f)"

definition next_try :: "dispatch_entry \<Rightarrow> go_time \<Rightarrow> string \<Rightarrow> bool \<Rightarrow> go_time" where
  "next_try e now code dead =
     (let t = time_add now (retry_delay (xeID e) (xeAttempts e)) in
      if code = CodeAggregateVersionGap \<and> \<not> dead then
        let deadline = time_add (if is_zero (xeGapFirstSeenAt e) then now else xeGapFirstSeenAt e) AggregateGapTimeout
        in if after t deadline then deadline else t
      else t)"

definition handle_outbox ::
  "(string \<rightharpoonup> db handler) \<Rightarrow> handling \<Rightarrow> dispatch_entry \<Rightarrow> string \<Rightarrow> go_time \<Rightarrow> db \<Rightarrow> outbox_handled \<times> db" where
  "handle_outbox handlers env e holder now d =
     (case run_handler handlers (hgCancelled env) e d of (f, d1) \<Rightarrow>
       let d2 = hgMeanwhile env d1 in
       if hgStoreFails env then (OutboxLost, d2)
       else if fst f = '''' then
         (case succeed_outbox d2 e holder now of (Inl _, d3) \<Rightarrow> (OutboxLost, d3) | (Inr _, d3) \<Rightarrow> (OutboxSucceeded, d3))
       else let dead = entry_dead e now f in
         case fail_outbox d2 e holder (fst f) (next_try e now (fst f) dead) now dead of
           (Inl _, d3) \<Rightarrow> (OutboxLost, d3)
         | (Inr _, d3) \<Rightarrow> (if dead then OutboxDeadLettered else OutboxRetried, d3))"

record outbox_tick =
  otClaimed :: nat
  otSucceeded :: nat
  otRetried :: nat
  otDeadLettered :: nat
  otLost :: nat

fun count_outbox :: "outbox_handled \<Rightarrow> outbox_tick \<Rightarrow> outbox_tick" where
  "count_outbox OutboxSucceeded t = t\<lparr>otSucceeded := otSucceeded t + 1\<rparr>"
| "count_outbox OutboxRetried t = t\<lparr>otRetried := otRetried t + 1\<rparr>"
| "count_outbox OutboxDeadLettered t = t\<lparr>otDeadLettered := otDeadLettered t + 1\<rparr>"
| "count_outbox OutboxLost t = t\<lparr>otLost := otLost t + 1\<rparr>"

fun handle_entries ::
  "(string \<rightharpoonup> db handler) \<Rightarrow> (dispatch_entry \<Rightarrow> handling) \<Rightarrow> string \<Rightarrow> go_time \<Rightarrow> dispatch_entry list \<Rightarrow> outbox_tick \<Rightarrow> db
   \<Rightarrow> outbox_tick \<times> db" where
  "handle_entries handlers env holder now [] t d = (t, d)"
| "handle_entries handlers env holder now (e # es) t d =
     (case handle_outbox handlers (env e) e holder now d of
        (r, d') \<Rightarrow> handle_entries handlers env holder now es (count_outbox r t) d')"

definition outbox_dispatch ::
  "outbox_config \<Rightarrow> (string \<rightharpoonup> db handler) \<Rightarrow> (dispatch_entry \<Rightarrow> handling) \<Rightarrow> (dispatch_entry list \<Rightarrow> dispatch_entry list)
   \<Rightarrow> string result \<Rightarrow> go_time \<Rightarrow> db \<Rightarrow> outbox_tick result \<times> db" where
  "outbox_dispatch c handlers env order uuid now d =
     (case uuid of
        Inl x \<Rightarrow> (Inl (Wrapped ''generate outbox holder'' x), d)
      | Inr holder \<Rightarrow>
          case claim_outbox d holder now (time_add now (ocLease c)) (ocBatchSize c) of
            (Inl x, d1) \<Rightarrow> (Inl (Wrapped ''claim outbox entries'' x), d1)
          | (Inr es, d1) \<Rightarrow>
              (case handle_entries handlers env holder now (order es)
                  \<lparr>otClaimed = length es, otSucceeded = 0, otRetried = 0, otDeadLettered = 0, otLost = 0\<rparr> d1 of
                 (t, d2) \<Rightarrow> (Inr t, d2)))"

definition dispatcher_cleanup :: "go_time \<Rightarrow> db \<Rightarrow> db" where
  "dispatcher_cleanup now d = snd (cleanup_outbox d (time_add now (- Retention)))"

section \<open>The handlers of the process\<close>

definition translate_error :: "(sentinel \<times> go_error) list \<Rightarrow> unit result \<times> db \<Rightarrow> unit result \<times> db" where
  "translate_error table r =
     (case fst r of
        Inr _ \<Rightarrow> r
      | Inl x \<Rightarrow> (case filter (\<lambda>(s, y). errors_is x s) table of [] \<Rightarrow> r | (s, y) # _ \<Rightarrow> (Inl y, snd r)))"

definition permanent :: "string \<Rightarrow> go_error" where "permanent code = OutboxFailure code True"
definition transient :: "string \<Rightarrow> go_error" where "transient code = OutboxFailure code False"

definition decode_confirmation_request :: "dispatch_entry \<Rightarrow> confirmation_request result" where
  "decode_confirmation_request e =
     (case decode_confirmation_requested (xePayload e) of
        None \<Rightarrow> Inl (permanent CodePayloadInvalid)
      | Some v \<Rightarrow>
          if cqOrganizationID v \<noteq> xeOrganizationID e then Inl (permanent CodeOrganizationMismatch)
          else if cqEventID v \<noteq> xeID e \<or> cqAggregateType v \<noteq> ''healthCandidate'' \<or> cqAggregateID v \<noteq> cqCandidateID v
            \<or> cqAggregateVersion v \<noteq> 1 \<or> cqCausationID v = '''' then Inl (permanent CodePayloadInvalid)
          else
            let r = \<lparr>crEventID = cqEventID v, crOrganizationID = cqOrganizationID v, crCandidateID = cqCandidateID v,
                  crMonitorID = cqMonitorID v, crRevisionNumber = cqRevisionNumber v, crLocation = cqLocation v,
                  crTriggeringRunID = cqTriggeringRunID v, crTriggeringScheduledFor = to_utc (cqTriggeringScheduledFor v),
                  crRequestedFor = to_utc (cqRequestedFor v), crExpectedEvidence = cqExpectedEvidence v,
                  crPolicyVersion = cqPolicyVersion v\<rparr>
            in case confirmation_request_validate r of
                 Inl _ \<Rightarrow> Inl (permanent CodePayloadInvalid)
               | Inr _ \<Rightarrow> Inr r)"

record process_env =
  peIds :: "dispatch_entry \<Rightarrow> (nat \<Rightarrow> string result) \<times> go_time"
  peWorker :: "dispatch_entry \<Rightarrow> db worker_env"
  peCeiling :: duration

definition handle_confirmation :: "process_env \<Rightarrow> db handler" where
  "handle_confirmation p e d =
     (case decode_confirmation_request e of
        Inl x \<Rightarrow> (Inl x, d)
      | Inr r \<Rightarrow> confirm_execute (peWorker p e) (peCeiling p) load_confirmation_target find_confirmation
                  (snd (peIds p e)) r d)"

definition process_handlers :: "process_env \<Rightarrow> string \<rightharpoonup> db handler" where
  "process_handlers p =
     [TopicRunRecordedV1 \<mapsto> (\<lambda>e d. translate_error
        [(HealthPayloadInvalid, permanent CodePayloadInvalid), (HealthOrganizationMismatch, permanent CodeOrganizationMismatch)]
        (handle_run_recorded (xeID e) (xeOrganizationID e) (xePayload e) (peIds p e) d)),
      TopicConfirmationRequestedV1 \<mapsto> handle_confirmation p,
      TopicHealthTransitionedV1 \<mapsto> (\<lambda>e d. translate_error
        [(IncidentPayloadInvalid, permanent CodePayloadInvalid), (IncidentOrganizationMismatch, permanent CodeOrganizationMismatch),
         (IncidentVersionGap, transient CodeAggregateVersionGap)]
        (handle_health_transition (xeID e) (xeOrganizationID e) (xePayload e) (peIds p e) d)),
      TopicIncidentTransitionedV1 \<mapsto> (\<lambda>e d. translate_error
        [(AlertPayloadInvalid, permanent CodePayloadInvalid), (AlertOrganizationMismatch, permanent CodeOrganizationMismatch)]
        (handle_incident_transition (xeID e) (xeOrganizationID e) (xePayload e) (peIds p e) d))]"

section \<open>Retry delays are bounded and grow\<close>

lemma double_delay_closed:
  assumes "0 < delay" and "delay \<le> RetryCap"
  shows "double_delay n delay = min RetryCap (2 ^ n * delay)"
  using assms
proof (induction n arbitrary: delay)
  case (Suc n)
  have half: "go_div RetryCap 2 = 150 * second" by code_simp
  have cap: "RetryCap = 300 * second" by code_simp
  have one: "2 * delay \<le> 2 ^ n * (2 * delay)"
    using Suc.prems mult_right_mono [of 1 "2 ^ n" "2 * delay"] by (simp add: one_le_power)
  show ?case
  proof (cases "delay < RetryCap \<and> \<not> go_div RetryCap 2 < delay")
    case True
    then have "2 * delay \<le> RetryCap" using half cap by simp
    then show ?thesis using Suc True by (simp add: mult.assoc mult.left_commute)
  next
    case False
    then have "double_delay (Suc n) delay = RetryCap" using Suc.prems by auto
    moreover have "RetryCap \<le> 2 * delay" using False Suc.prems half cap by (auto simp: second_def)
    moreover have "2 * delay \<le> 2 ^ Suc n * delay" using one by (simp add: mult.assoc mult.left_commute)
    ultimately show ?thesis by simp
  qed
qed simp

definition retry_base :: "int \<Rightarrow> duration" where
  "retry_base attempt = min RetryCap (2 ^ nat (max 1 attempt - 1) * second)"

lemma retry_delay_window:
  "retry_base attempt \<le> retry_delay i attempt
   \<and> retry_delay i attempt \<le> min RetryCap (retry_base attempt + retry_base attempt div 5)"
proof -
  let ?a = "if attempt < 1 then 1 else attempt"
  have a: "?a = max 1 attempt" by auto
  have d: "double_delay (nat (?a - 1)) RetryBase = retry_base attempt"
    unfolding a retry_base_def RetryBase_def
    by (rule double_delay_closed) (simp_all add: second_def RetryCap_def minute_def)
  have pos: "0 < retry_base attempt" by (simp add: retry_base_def RetryCap_def minute_def second_def)
  let ?r = "retry_base attempt" and ?room = "RetryCap - retry_base attempt"
  let ?b = "if ?room < ?r div 5 then ?room else ?r div 5"
  have five: "go_div ?r 5 = ?r div 5" using pos by (simp add: go_div_def)
  have m: "0 \<le> uint h mod (?b + 1) \<and> uint h mod (?b + 1) \<le> ?b" if "0 < ?b" for h :: u64
    using that pos_mod_bound [of "?b + 1" "uint h"] pos_mod_sign [of "?b + 1" "uint h"] by linarith
  show ?thesis
  proof (cases "RetryCap \<le> ?r \<or> ?b \<le> 0")
    case True
    have "?r \<le> RetryCap" by (simp add: retry_base_def)
    then show ?thesis using True pos by (auto simp: retry_delay_def Let_def d five)
  next
    case False
    have "retry_delay i attempt = ?r + uint (fnv64a (i @ '':'' @ int_dec ?a)) mod (?b + 1)"
      using False by (simp add: retry_delay_def Let_def d five)
    moreover have "?b \<le> ?r div 5" "?b \<le> ?room" by auto
    ultimately show ?thesis using m [of "fnv64a (i @ '':'' @ int_dec ?a)"] False by linarith
  qed
qed

lemma retry_base_grows:
  assumes "1 \<le> a" and "a < b"
  shows "retry_base a + retry_base a div 5 \<le> retry_base b \<or> retry_base b = RetryCap"
proof -
  obtain k where k: "nat (b - 1) = Suc (nat (a - 1) + k)" using assms by (metis add_Suc less_iff_Suc_add nat_less_eq_zless
        diff_strict_right_mono diff_ge_0_iff_ge)
  have "(2::int) ^ nat (a - 1) \<le> 2 ^ (nat (a - 1) + k)" by (rule power_increasing) auto
  then have y: "2 * (2 ^ nat (a - 1) * second) \<le> 2 ^ nat (b - 1) * second" unfolding k by (simp add: second_def)
  have x: "0 < (2::int) ^ nat (a - 1) * second" by (simp add: second_def)
  have m: "max 1 a = a" "max 1 b = b" using assms by auto
  show ?thesis
  proof (cases "RetryCap \<le> 2 ^ nat (b - 1) * second")
    case False
    then have "min RetryCap (2 ^ nat (a - 1) * second) = 2 ^ nat (a - 1) * second" using y x by linarith
    then show ?thesis using False x y unfolding retry_base_def m by linarith
  qed (simp add: retry_base_def m)
qed

text \<open>The delay before a retry is \<open>2 ^ (attempt - 1)\<close> seconds with at most a fifth added, never more
  than five minutes, and never shorter for a later attempt.\<close>
theorem retry_delay_bounds:
  "min RetryCap (2 ^ nat (max 1 attempt - 1) * second) \<le> retry_delay i attempt
   \<and> retry_delay i attempt \<le> RetryCap
   \<and> 5 * retry_delay i attempt \<le> 6 * min RetryCap (2 ^ nat (max 1 attempt - 1) * second)
   \<and> (1 \<le> attempt \<and> attempt < later \<longrightarrow> retry_delay i attempt \<le> retry_delay j later)"
proof -
  have "1 \<le> attempt \<and> attempt < later \<longrightarrow> retry_delay i attempt \<le> retry_delay j later"
    using retry_base_grows [of attempt later] retry_delay_window [of attempt i] retry_delay_window [of later j] by auto
  then show ?thesis using retry_delay_window [of attempt i] unfolding retry_base_def by linarith
qed

theorem retry_delay_bounds_witness:
  "retry_delay ''entry'' 3 \<le> retry_delay ''entry'' 4 \<and> 4 * second \<le> retry_delay ''entry'' 3"
  using retry_delay_bounds [of 3 "''entry''" 4 "''entry''"] by (simp add: RetryCap_def minute_def second_def)

end
