(* ===== verification/Dispatch.thy ===== *)
theory Dispatch
  imports Outbox Maintenance
begin

text \<open>
  What the dispatcher and the components that write events guarantee together. \<open>system_step\<close> is
  one transaction of any component of the model: the stores of Runs, health, Incidents, maintenance
  windows, Alerts and Webhooks, and the four operations of the outbox store. The first part shows
  that no component but the dispatcher takes an entry out of the outbox; the second that a tick of
  the dispatcher, with the handlers of the process, is a sequence of such steps.
\<close>

section \<open>Only the dispatcher removes entries\<close>

definition outbox_kept :: "db \<Rightarrow> db \<Rightarrow> bool" where
  "outbox_kept d d' \<longleftrightarrow> set (dbOutbox d) \<subseteq> set (dbOutbox d')"

lemma outbox_kept_same: "dbOutbox d' = dbOutbox d \<Longrightarrow> outbox_kept d d'"
  by (simp add: outbox_kept_def)

lemma outbox_kept_trans: "outbox_kept d d1 \<Longrightarrow> outbox_kept d1 d2 \<Longrightarrow> outbox_kept d d2"
  by (auto simp: outbox_kept_def)

lemma run_tx_kept:
  assumes "run_tx f d = (r, d')" and "\<And>x d1. f d = Inr (x, d1) \<Longrightarrow> outbox_kept d d1"
  shows "outbox_kept d d'"
  using assms by (auto simp: run_tx_def outbox_kept_def split: sum.splits)

lemma claim_slot_outbox: "dbOutbox (snd (claim_slot d v now)) = dbOutbox d"
  by (auto simp: claim_slot_def Let_def insert_manual_run_def insert_run_Inserted
      split: sum.splits insert_outcome.splits if_splits)

lemma apply_call_kept: "outbox_kept d (apply_call postgres_run_store c d)"
proof (cases c)
  case (CallClaim v now)
  then show ?thesis by (simp add: outbox_kept_def claim_slot_outbox)
next
  case (CallRelease v)
  then show ?thesis by (simp add: outbox_kept_def release_slot_def)
next
  case (CallComplete v h x es)
  obtain r d' where c: "complete_run d v h x es = (r, d')" by fastforce
  have "outbox_kept d d'"
  proof (cases r)
    case (Inl e)
    then show ?thesis using c by (auto simp: complete_run_def run_tx_Inl outbox_kept_def split: sum.splits)
  next
    case (Inr u)
    then show ?thesis using c by (auto simp: outbox_kept_def elim!: complete_run_Inr)
  qed
  then show ?thesis using CallComplete c by simp
next
  case (CallSkip v es now)
  obtain r d' where c: "record_skipped d v es = (r, d')" by fastforce
  have "outbox_kept d d'"
    using c by (auto simp: record_skipped_def outbox_kept_def run_tx_def record_skipped_tx_def and_then_Inr insert_run_Inserted
        split: sum.splits if_splits insert_outcome.splits dest!: insert_outbox_entries_Inr)
  then show ?thesis using CallSkip c by simp
qed

lemma renew_kept: "outbox_kept d (snd (renew_run_lease d v))"
  by (simp add: renew_run_lease_def outbox_kept_def)

lemma published_kept: "adds_published d d' \<Longrightarrow> outbox_kept d d'"
  by (auto simp: adds_published_def outbox_kept_def)

lemma recorded_kept:
  assumes "process_run_recorded d e ids now = (r, d')"
  shows "outbox_kept d d'"
proof (cases "d' = d")
  case False
  with assms obtain m w oc d1 where d1: "(if mrState m = ''active'' then evaluate_run e ids now m w oc d else Inr d) = Inr d1"
    and d': "mark_outbox_event_processed (rrEventID e) (rrOrganizationID e) TopicRunRecordedV1 now d1 = Inr d'"
    by (rule process_run_changed)
  have "adds_published d d1"
    using d1 by (auto simp: adds_nothing split: if_splits elim!: evaluate_run_Inr dest: store_decision_publishes)
  then show ?thesis using published_kept mark_processed_tables [OF d'] by (auto simp: outbox_kept_def)
qed (simp add: outbox_kept_def)

lemma swept_kept: "mark_health_stale d target tid event_id now ceiling = (r, d') \<Longrightarrow> outbox_kept d d'"
  by (rule published_kept [OF health_step_publishes [OF health_step.swept]])

lemma project_transition_kept: "project_transition e ids m t now d = Inr d1 \<Longrightarrow> outbox_kept d d1"
  by (auto simp: project_transition_def insert_incident_opened_def resolve_incident_def Let_def and_then_Inr outbox_kept_def
      split: if_splits option.splits dest!: insert_incident_Inr update_incident_Inr insert_timeline_Inr incident_event_Inr)

lemma advance_cursor_outbox: "advance_cursor org mon v now d = Inr d' \<Longrightarrow> dbOutbox d' = dbOutbox d"
  by (drule advance_cursor_Inr) auto

lemma transition_kept:
  assumes "process_health_transition d e ids now = (r, d')"
  shows "outbox_kept d d'"
proof (cases "d' = d")
  case False
  with assms obtain t m d1 where d1: "d1 = d \<or> (htAggregateVersion e = (case projection_cursor d (htOrganizationID e) (twMonitorID t)
         of None \<Rightarrow> 1 | Some v \<Rightarrow> v + 1)
       \<and> (\<exists>d0. project_transition e ids m t now d = Inr d0
            \<and> advance_cursor (htOrganizationID e) (twMonitorID t) (htAggregateVersion e) now d0 = Inr d1))"
    and mk: "mark_outbox_event_processed (htEventID e) (htOrganizationID e) TopicHealthTransitionedV1 now d1 = Inr d'"
    by (rule process_transition_changed)
  have "outbox_kept d d1" using d1
  proof
    assume "htAggregateVersion e = (case projection_cursor d (htOrganizationID e) (twMonitorID t) of None \<Rightarrow> 1 | Some v \<Rightarrow> v + 1)
       \<and> (\<exists>d0. project_transition e ids m t now d = Inr d0
            \<and> advance_cursor (htOrganizationID e) (twMonitorID t) (htAggregateVersion e) now d0 = Inr d1)"
    then obtain d0 where "project_transition e ids m t now d = Inr d0"
      "advance_cursor (htOrganizationID e) (twMonitorID t) (htAggregateVersion e) now d0 = Inr d1" by blast
    then show ?thesis using project_transition_kept advance_cursor_outbox by (simp add: outbox_kept_def)
  qed (simp add: outbox_kept_def)
  then show ?thesis using mark_processed_tables [OF mk] by (simp add: outbox_kept_def)
qed (simp add: outbox_kept_def)

lemma acknowledge_kept: "acknowledge_incident d sc i actor tid now = (r, d') \<Longrightarrow> outbox_kept d d'"
  by (auto simp: acknowledge_incident_def acknowledge_tx_def run_tx_def and_then_Inr Let_def outbox_kept_def
      split: option.splits sum.splits if_splits incident_state.splits dest!: insert_timeline_Inr update_incident_Inr)

lemma project_alert_kept:
  assumes "project_incident_transition d e v uuid = (r, d')"
  shows "outbox_kept d d'"
proof (cases "d' = d")
  case False
  with assms show ?thesis by (rule project_alert_changed) (simp add: outbox_kept_def)
qed (simp add: outbox_kept_def)

lemma webhook_parts_outbox:
  "move_secret org i n st f miss d = Inr d1 \<Longrightarrow> dbOutbox d1 = dbOutbox d"
  "update_integration org i g d = Inr d2 \<Longrightarrow> dbOutbox d2 = dbOutbox d"
  "insert_secret what x d = Inr d3 \<Longrightarrow> dbOutbox d3 = dbOutbox d"
  by (auto simp: move_secret_def update_integration_def insert_secret_def split: if_splits)

lemma webhook_step_kept:
  assumes "webhook_step d d'"
  shows "outbox_kept d d'"
  using assms
proof cases
  case (alerted e v uuid r)
  then show ?thesis by (rule project_alert_kept)
next
  case (created te cr kr random org name url clock uuid r)
  then show ?thesis
    by (auto simp: service_create_def create_integration_def create_integration_tx_def insert_secret_def run_tx_def and_then_Inr
        Let_def outbox_kept_def split: prod.splits if_splits sum.splits option.splits)
next
  case (enabled te org i expected on now r)
  then show ?thesis
    by (auto simp: set_enabled_def set_enabled_tx_def update_integration_def run_tx_def and_then_Inr Let_def outbox_kept_def
        split: if_splits sum.splits)
next
  case (prepared te updated s expected r)
  then show ?thesis unfolding prepare_secret_def
    by (rule run_tx_kept)
      (auto simp: prepare_secret_tx_def and_then_Inr outbox_kept_def webhook_parts_outbox split: if_splits)
next
  case (activated te org i expected now r)
  then show ?thesis unfolding activate_secret_def
    by (rule run_tx_kept)
      (auto simp: activate_secret_tx_def and_then_Inr Let_def outbox_kept_def webhook_parts_outbox split: if_splits option.splits)
next
  case (retired te org i expected now r)
  then show ?thesis unfolding retire_secret_def
    by (rule run_tx_kept)
      (auto simp: retire_secret_tx_def and_then_Inr Let_def outbox_kept_def webhook_parts_outbox split: if_splits option.splits)
next
  case (rewrapped cr kr random r)
  have "dbOutbox (snd (rewrap_secrets cr kr random n ss d)) = dbOutbox d" for n ss d
  proof (induction ss arbitrary: n d)
    case (Cons s ss)
    have re: "dbOutbox d2 = dbOutbox d" if "replace_envelope d s x = (r2, d2)" for x r2 d2
      using that by (auto simp: replace_envelope_def Let_def split: if_splits)
    show ?case
      by (simp add: Let_def Cons.IH split: sum.split prod.split if_splits) (auto dest: re)
  qed simp
  then show ?thesis using rewrapped
    by (cases "list_retained_secrets d \<noteq> [] \<and> kr = None")
      (auto simp: webhook_initialize_def Let_def outbox_kept_def dest!: arg_cong [where f = "dbOutbox \<circ> snd"] split: if_splits)
next
  case (claimed holder now expires limit r)
  have "dbOutbox d2 = dbOutbox d1" if "lease_deliveries holder now expires cs d1 = Inr d2" for holder now expires cs d1 d2
    using that
    by (induction cs arbitrary: d1) (auto simp: and_then_Inr lease_delivery_def insert_attempt_def split: if_splits)
  then show ?thesis using claimed
    by (auto simp: claim_deliveries_def claim_deliveries_tx_def finalize_expired_def complete_exhausted_def run_tx_def and_then_Inr
        Let_def outbox_kept_def split: if_splits sum.splits)
next
  case (completed c u available terminal r)
  then show ?thesis
    by (auto simp: complete_delivery_def complete_delivery_tx_def run_tx_def and_then_Inr Let_def outbox_kept_def
        split: if_splits sum.splits)
qed

lemma window_kept:
  "create_window d v = (r, d') \<Longrightarrow> outbox_kept d d'" "cancel_window d v n = (rc, d') \<Longrightarrow> outbox_kept d d'"
  by (auto simp: create_window_def create_window_tx_def cancel_window_def run_tx_def and_then_Inr Let_def outbox_kept_def
      split: if_splits sum.splits option.splits)

section \<open>Every transaction of the model\<close>

inductive system_step :: "db \<Rightarrow> db \<Rightarrow> bool" where
  worker: "system_step d (apply_call postgres_run_store c d)"
| renewed: "system_step d (snd (renew_run_lease d v))"
| recorded: "process_run_recorded d e ids now = (r, d') \<Longrightarrow> system_step d d'"
| swept: "mark_health_stale d target tid event_id now ceiling = (r, d') \<Longrightarrow> system_step d d'"
| projected: "process_health_transition d e ids now = (r, d') \<Longrightarrow> system_step d d'"
| acknowledged: "acknowledge_incident d sc i actor ltid now = (ra, d') \<Longrightarrow> system_step d d'"
| webhook: "webhook_step d d' \<Longrightarrow> system_step d d'"
| planned: "create_window d w = (r, d') \<Longrightarrow> system_step d d'"
| cancelled: "cancel_window d w n = (rc, d') \<Longrightarrow> system_step d d'"
| claimed: "claim_outbox d holder now expires limit = (re, d') \<Longrightarrow> system_step d d'"
| succeeded: "succeed_outbox d x holder now = (r, d') \<Longrightarrow> system_step d d'"
| failed: "fail_outbox d x holder code available now dead = (r, d') \<Longrightarrow> system_step d d'"
| cleaned: "cleanup_outbox d oldest = (r, d') \<Longrightarrow> system_step d d'"

inductive_cases system_stepE: "system_step d d'"

definition same_event :: "outbox_row \<Rightarrow> outbox_row \<Rightarrow> bool" where
  "same_event x y \<longleftrightarrow> xwID y = xwID x \<and> xwOrganizationID y = xwOrganizationID x \<and> xwTopic y = xwTopic x
     \<and> xwPayload y = xwPayload x \<and> xwCreatedAt y = xwCreatedAt x \<and> xwAttempts x \<le> xwAttempts y"

definition buried_as :: "outbox_row \<Rightarrow> dead_letter_row \<Rightarrow> bool" where
  "buried_as x w \<longleftrightarrow> dwID w = xwID x \<and> dwOrganizationID w = xwOrganizationID x \<and> dwTopic w = xwTopic x
     \<and> dwPayload w = xwPayload x \<and> dwAttempts w = xwAttempts x \<and> dwCreatedAt w = xwCreatedAt x"

definition accounted :: "outbox_row \<Rightarrow> db \<Rightarrow> bool" where
  "accounted x d \<longleftrightarrow> (\<exists>y \<in> set (dbOutbox d). same_event x y)
     \<or> outbox_event_processed (xwID x) (xwOrganizationID x) d
     \<or> (\<exists>w \<in> set (dbDeadLetters d). buried_as x w)"

lemma accounted_kept: "outbox_kept d d' \<Longrightarrow> x \<in> set (dbOutbox d) \<Longrightarrow> accounted x d'"
  by (auto simp: outbox_kept_def accounted_def same_event_def)

lemma accounted_update:
  assumes "x \<in> set (dbOutbox d)" and "dbOutbox d' = sql_update p f (dbOutbox d)" and "\<And>y. same_event y (f y)"
  shows "accounted x d'"
proof -
  have "(if p x then f x else x) \<in> set (dbOutbox d')" using assms(1,2) by (auto simp: in_sql_update)
  moreover have "same_event x (if p x then f x else x)" using assms(3) [of x] by (simp add: same_event_def)
  ultimately show ?thesis by (auto simp: accounted_def)
qed

lemma mark_all_Inr:
  "mark_all now xs d = Inr d' \<Longrightarrow> dbOutbox d' = dbOutbox d \<and> set (dbProcessed d) \<subseteq> set (dbProcessed d')
     \<and> (\<forall>x \<in> set xs. outbox_event_processed (xwID x) (xwOrganizationID x) d')"
proof (induction xs arbitrary: d)
  case (Cons x xs)
  then obtain d1 where d1: "mark_outbox_event_processed (xwID x) (xwOrganizationID x) (xwTopic x) now d = Inr d1"
    and rest: "mark_all now xs d1 = Inr d'" by (auto simp: and_then_Inr)
  obtain ps where "d1 = d\<lparr>dbProcessed := dbProcessed d @ ps\<rparr>" using mark_processed_Inr(2) [OF d1] by blast
  then show ?case using Cons.IH [OF rest] mark_processed_Inr(1) [OF d1]
    by (auto simp: outbox_event_processed_def)
qed simp

lemma succeed_accounted:
  assumes "succeed_outbox d e holder now = (r, d')" and x: "x \<in> set (dbOutbox d)"
  shows "accounted x d'"
proof (cases r)
  case (Inl y)
  then show ?thesis using assms by (auto simp: succeed_outbox_def run_tx_Inl accounted_def same_event_def)
next
  case (Inr u)
  then obtain d1 where m: "mark_all now (filter (outbox_held e holder) (dbOutbox d)) d = Inr d1"
    and d': "d' = d1\<lparr>dbOutbox := sql_delete (outbox_held e holder) (dbOutbox d1)\<rparr>"
    using assms(1) by (auto simp: succeed_outbox_def run_tx_Inr succeed_outbox_tx_def and_then_Inr split: if_splits)
  note M = mark_all_Inr [OF m]
  show ?thesis
  proof (cases "outbox_held e holder x")
    case True
    then have "outbox_event_processed (xwID x) (xwOrganizationID x) d1" using M x by simp
    then show ?thesis using d' by (simp add: accounted_def outbox_event_processed_def)
  next
    case False
    then show ?thesis using x M d' by (auto simp: accounted_def same_event_def)
  qed
qed

text \<open>With the primary key of the outbox at most one row is held, and a committed dead letter is its copy.\<close>

lemma held_once:
  assumes "unique_on (\<lambda>x. Some (xwID x)) xs" and "x \<in> set xs" and "outbox_held e holder x"
  shows "filter (outbox_held e holder) xs = [x]"
  using assms
proof (induction xs)
  case (Cons y ys)
  show ?case
  proof (cases "x = y")
    case True
    then have "\<forall>z \<in> set ys. xwID z \<noteq> xwID x" using Cons.prems(1) by auto
    then have "filter (outbox_held e holder) ys = []"
      using Cons.prems(3) by (auto simp: filter_empty_conv outbox_held_def)
    then show ?thesis using True Cons.prems(3) by simp
  next
    case False
    then have x: "x \<in> set ys" using Cons.prems(2) by simp
    then have "xwID y \<noteq> xwID x" using Cons.prems(1) by auto
    then have "\<not> outbox_held e holder y" using Cons.prems(3) by (auto simp: outbox_held_def)
    then show ?thesis using Cons.IH Cons.prems x by simp
  qed
qed simp

lemma dead_letter_Inr:
  assumes "dead_letter d e holder code now = (Inr u, d')" and "unique_on (\<lambda>x. Some (xwID x)) (dbOutbox d)"
  obtains x where "x \<in> set (dbOutbox d)" "outbox_held e holder x" "1 \<le> xwAttempts x"
    "d' = d\<lparr>dbDeadLetters := dbDeadLetters d @ [dead_letter_of code now x],
       dbOutbox := sql_delete (outbox_held e holder) (dbOutbox d)\<rparr>"
proof -
  obtain n d1 where i: "insert_dead_letters (map (dead_letter_of code now) (filter (outbox_held e holder) (dbOutbox d))) 0 d
      = Inr (n, d1)" "n \<noteq> 0" and d': "d' = d1\<lparr>dbOutbox := sql_delete (outbox_held e holder) (dbOutbox d1)\<rparr>"
    using assms(1) by (auto simp: dead_letter_def run_tx_Inr dead_letter_tx_def and_then_Inr split: if_splits)
  have "filter (outbox_held e holder) (dbOutbox d) \<noteq> []" using i by auto
  then obtain x where x: "x \<in> set (dbOutbox d)" "outbox_held e holder x" by (auto simp: filter_empty_conv)
  have d1: "d1 = d\<lparr>dbDeadLetters := dbDeadLetters d @ [dead_letter_of code now x]\<rparr>" "1 \<le> xwAttempts x"
    using i unfolding held_once [OF assms(2) x] by (auto simp: dead_letter_of_def split: if_splits)
  show ?thesis by (rule that [OF x d1(2)]) (simp add: d' d1(1))
qed

lemma fail_accounted:
  assumes "fail_outbox d e holder code available now dead = (r, d')" and "unique_on (\<lambda>x. Some (xwID x)) (dbOutbox d)"
    and x: "x \<in> set (dbOutbox d)"
  shows "accounted x d'"
proof (cases dead)
  case True
  then have dl: "dead_letter d e holder code now = (r, d')" using assms(1) by (simp add: fail_outbox_def)
  show ?thesis
  proof (cases r)
    case (Inl y)
    then show ?thesis using dl x by (auto simp: dead_letter_def run_tx_Inl accounted_def same_event_def)
  next
    case (Inr u)
    with dl obtain y where y: "y \<in> set (dbOutbox d)" "outbox_held e holder y"
      and d': "d' = d\<lparr>dbDeadLetters := dbDeadLetters d @ [dead_letter_of code now y],
        dbOutbox := sql_delete (outbox_held e holder) (dbOutbox d)\<rparr>"
      using dead_letter_Inr assms(2) by metis
    show ?thesis
    proof (cases "outbox_held e holder x")
      case True
      then have "x = y" using held_once [OF assms(2) x True] held_once [OF assms(2) y] by simp
      then show ?thesis using d' by (auto simp: accounted_def buried_as_def dead_letter_of_def)
    next
      case False
      then show ?thesis using x d' by (auto simp: accounted_def same_event_def)
    qed
  qed
next
  case False
  then consider "d' = d" | "dbOutbox d' = sql_update (outbox_held e holder) (released_entry code available now) (dbOutbox d)"
    using assms(1) by (auto simp: fail_outbox_def split: if_splits)
  then show ?thesis
  proof cases
    case 1
    then show ?thesis using x by (auto simp: accounted_def same_event_def)
  next
    case 2
    show ?thesis by (rule accounted_update [OF x 2]) (simp add: same_event_def released_entry_def)
  qed
qed

lemma claim_outbox_rows:
  assumes "claim_outbox d holder now expires limit = (r, d')"
  shows "\<exists>p. dbOutbox d' = sql_update p (leased_entry holder (db_instant expires)) (dbOutbox d)"
proof (cases r)
  case (Inl e)
  then have "dbOutbox d' = sql_update (\<lambda>_. False) (leased_entry holder (db_instant expires)) (dbOutbox d)"
    using assms by (auto simp: claim_outbox_def Let_def sql_update_def split: if_splits)
  then show ?thesis by blast
next
  case (Inr es)
  then show ?thesis using assms by (fastforce simp: claim_outbox_def Let_def split: if_splits)
qed

lemma system_step_accounts:
  assumes "system_step d d'" and "unique_on (\<lambda>x. Some (xwID x)) (dbOutbox d)" and x: "x \<in> set (dbOutbox d)"
  shows "accounted x d'"
  using assms(1)
proof cases
  case (claimed holder now expires limit re)
  then obtain p where "dbOutbox d' = sql_update p (leased_entry holder (db_instant expires)) (dbOutbox d)"
    using claim_outbox_rows by blast
  then show ?thesis by (rule accounted_update [OF x]) (simp add: same_event_def leased_entry_def)
next
  case (succeeded e holder now r)
  then show ?thesis using succeed_accounted x by blast
next
  case (failed e holder code available now dead r)
  then show ?thesis using fail_accounted assms(2) x by blast
next
  case (cleaned oldest r)
  then have "dbOutbox d' = dbOutbox d" by (auto simp: cleanup_outbox_def)
  then show ?thesis using accounted_kept outbox_kept_same x by blast
qed (auto intro: accounted_kept x apply_call_kept renew_kept recorded_kept swept_kept transition_kept acknowledge_kept
      webhook_step_kept window_kept)

section \<open>A tick is a sequence of transactions\<close>

abbreviation system_steps :: "db \<Rightarrow> db \<Rightarrow> bool" where "system_steps \<equiv> system_step\<^sup>*\<^sup>*"

lemma confirm_claimed_steps:
  assumes "weStore w = postgres_run_store" and m: "\<And>d. system_steps d (weMeanwhile w d)"
  shows "system_steps d (snd (confirm_claimed w target claimed d))"
proof -
  have call: "system_steps d (apply_call postgres_run_store c (weMeanwhile w d))" for c
    using m [of d] system_step.worker by (rule rtranclp.rtrancl_into_rtrancl)
  have "system_steps d (snd (release_slot (weMeanwhile w d) v))" for v using call [of "CallRelease v"] by simp
  moreover have "system_steps d d'" if "complete_run (weMeanwhile w d) v h x es = (r, d')" for v h x es r d'
    using call [of "CallComplete v h x es"] that by simp
  ultimately show ?thesis using m [of d]
    by (auto simp: confirm_claimed_def Let_def assms(1) split: sum.split prod.split)
qed

lemma confirm_execute_steps:
  assumes "weStore w = postgres_run_store" and m: "\<And>d. system_steps d (weMeanwhile w d)"
  shows "system_steps d (snd (confirm_execute w ceiling load fr now q d))"
proof -
  have st: "system_steps d d1" if "claim_slot d v now = (r, d1)" for v r d1
    using system_step.worker [of d "CallClaim v now"] that by auto
  have "system_steps d (snd (confirm_claimed w target claimed d1))" if "claim_slot d v now = (r, d1)" for target claimed v r d1
    using st [OF that] confirm_claimed_steps [OF assms, of d1 target claimed] by (rule rtranclp_trans)
  then show ?thesis using st
    by (auto simp: confirm_execute_def Let_def assms(1) split: sum.split prod.split option.split)
qed

lemma translate_error_steps: "snd (translate_error table r) = snd r"
  by (cases "fst r") (auto simp: translate_error_def split: list.split)

lemma handle_run_recorded_steps: "system_steps d (snd (handle_run_recorded i org payload env d))"
proof -
  have "system_steps d (snd (process_run_recorded d e ids now))" for e ids now
    by (rule r_into_rtranclp, rule system_step.recorded, rule prod.collapse [symmetric])
  then show ?thesis by (auto simp: handle_run_recorded_def split: option.split sum.split)
qed

lemma handle_health_transition_steps: "system_steps d (snd (handle_health_transition i org payload env d))"
proof -
  have "system_steps d (snd (process_health_transition d e ids now))" for e ids now
    by (rule r_into_rtranclp, rule system_step.projected, rule prod.collapse [symmetric])
  then show ?thesis by (auto simp: handle_health_transition_def split: option.split sum.split)
qed

lemma handle_incident_transition_steps: "system_steps d (snd (handle_incident_transition i org payload env d))"
proof -
  have "system_steps d (snd (project_incident_transition d e v uuid))" for e v uuid
    by (rule r_into_rtranclp, rule system_step.webhook, rule webhook_step.alerted, rule prod.collapse [symmetric])
  then show ?thesis by (auto simp: handle_incident_transition_def split: option.split sum.split)
qed

definition quiet_process :: "process_env \<Rightarrow> bool" where
  "quiet_process p \<longleftrightarrow> (\<forall>e. weStore (peWorker p e) = postgres_run_store
     \<and> (\<forall>d. system_steps d (weMeanwhile (peWorker p e) d)))"

lemma process_handlers_steps:
  assumes "quiet_process p" and "process_handlers p topic = Some h"
  shows "system_steps d (snd (h e d))"
proof -
  have "system_steps d (snd (handle_confirmation p e d))"
    using assms(1) confirm_execute_steps by (auto simp: handle_confirmation_def quiet_process_def split: sum.split)
  then show ?thesis
    using assms(2)
    by (auto simp: process_handlers_def translate_error_steps simp del: split_paired_All split: if_splits
        intro: handle_run_recorded_steps handle_health_transition_steps handle_incident_transition_steps)
qed

definition in_steps :: "(string \<rightharpoonup> db handler) \<Rightarrow> (dispatch_entry \<Rightarrow> handling) \<Rightarrow> bool" where
  "in_steps handlers env \<longleftrightarrow> (\<forall>topic h e d. handlers topic = Some h \<longrightarrow> system_steps d (snd (h e d)))
     \<and> (\<forall>e d. system_steps d (hgMeanwhile (env e) d))"

lemma handle_outbox_steps:
  assumes "in_steps handlers env"
  shows "system_steps d (snd (handle_outbox handlers (env e) e holder now d))"
proof -
  let ?env = "env e"
  have h: "\<And>topic h e d. handlers topic = Some h \<Longrightarrow> system_steps d (snd (h e d))"
    and m: "\<And>d. system_steps d (hgMeanwhile (env e) d)" using assms by (auto simp: in_steps_def)
  obtain f d1 where r: "run_handler handlers (hgCancelled ?env) e d = (f, d1)" by fastforce
  have "system_steps d d1"
    using r h [of "xeTopic e" _ d e] by (auto simp: run_handler_def split: option.splits prod.splits sum.splits)
  then have d2: "system_steps d (hgMeanwhile ?env d1)" using m by (rule rtranclp_trans)
  have "system_steps d d3" if "succeed_outbox (hgMeanwhile ?env d1) e holder now = (x, d3)" for x d3
    using d2 system_step.succeeded [OF that] by (rule rtranclp.rtrancl_into_rtrancl)
  moreover have "system_steps d d3" if "fail_outbox (hgMeanwhile ?env d1) e holder code t now dead = (x, d3)" for code t dead x d3
    using d2 system_step.failed [OF that] by (rule rtranclp.rtrancl_into_rtrancl)
  ultimately show ?thesis using d2 by (auto simp: handle_outbox_def r Let_def split: prod.split sum.split)
qed

lemma handle_entries_steps:
  assumes "in_steps handlers env"
  shows "system_steps d (snd (handle_entries handlers env holder now es t d))"
proof (induction es arbitrary: t d)
  case (Cons e es)
  obtain r d1 where d1: "handle_outbox handlers (env e) e holder now d = (r, d1)" by fastforce
  have "system_steps d d1" using handle_outbox_steps [OF assms, of d e holder now] d1 by simp
  then have "system_steps d (snd (handle_entries handlers env holder now es (count_outbox r t) d1))"
    using Cons.IH by (rule rtranclp_trans)
  then show ?case by (simp add: d1)
qed simp

text \<open>A tick of the dispatcher with the handlers of the process.\<close>

lemma outbox_dispatch_steps:
  assumes p: "quiet_process p" and m: "\<And>e d. system_steps d (hgMeanwhile (env e) d)"
  shows "system_steps d (snd (outbox_dispatch c (process_handlers p) env order uuid now d))"
proof (cases uuid)
  case (Inr holder)
  have steps: "in_steps (process_handlers p) env" using process_handlers_steps [OF p] m by (simp add: in_steps_def)
  obtain es d1 where cl: "claim_outbox d holder now (time_add now (ocLease c)) (ocBatchSize c) = (es, d1)" by fastforce
  have "system_steps d d1" using system_step.claimed [OF cl] by blast
  then have "system_steps d (snd (handle_entries (process_handlers p) env holder now xs t d1))" for xs t
    using handle_entries_steps [OF steps, of d1 holder now xs t] by (rule rtranclp_trans)
  then show ?thesis using cl \<open>system_steps d d1\<close>
    by (auto simp: outbox_dispatch_def Inr split: sum.split prod.split)
      (metis snd_conv)+
qed (simp add: outbox_dispatch_def)

section \<open>Properties\<close>

text \<open>
  C17. No event is lost: whatever transaction any component runs, an entry of the outbox (whose
  identifiers are its primary key) either stays there with its payload, or is recorded as processed,
  or is a dead letter with its payload and the number of its attempts.
\<close>
theorem outbox_entries_are_conserved:
  assumes "system_step d d'" and "unique_on (\<lambda>x. Some (xwID x)) (dbOutbox d)" and "x \<in> set (dbOutbox d)"
  shows "accounted x d'"
  using assms by (rule system_step_accounts)

lemma gap_over_iff:
  "gap_over e now \<longleftrightarrow> \<not> is_zero (xeGapFirstSeenAt e) \<and> nanos (xeGapFirstSeenAt e) + AggregateGapTimeout \<le> nanos now"
  by (auto simp: gap_over_def Let_def before_def time_add_def AggregateGapTimeout_def minute_def second_def)

lemma insert_dead_letters_adds:
  "insert_dead_letters ws n d = Inr (m, d') \<Longrightarrow> set (dbDeadLetters d) \<subseteq> set (dbDeadLetters d')
     \<and> (m = n \<or> (\<exists>w \<in> set ws. w \<in> set (dbDeadLetters d')))"
proof (induction ws arbitrary: n d)
  case (Cons w ws)
  show ?case
  proof (cases "dead_lettered (dwID w) (dwOrganizationID w) d")
    case True
    then show ?thesis using Cons.IH [of n d] Cons.prems by (auto split: if_splits)
  next
    case False
    then show ?thesis using Cons.IH [of "Suc n" "d\<lparr>dbDeadLetters := dbDeadLetters d @ [w]\<rparr>"] Cons.prems
      by (auto split: if_splits)
  qed
qed simp

lemma dead_letter_adds:
  assumes "dead_letter d e holder code now = (Inr u, d')"
  shows "\<exists>w \<in> set (dbDeadLetters d'). dwID w = xeID e \<and> dwOrganizationID w = xeOrganizationID e \<and> dwFailureCode w = code"
proof -
  obtain n d1 where i: "insert_dead_letters (map (dead_letter_of code now) (filter (outbox_held e holder) (dbOutbox d))) 0 d
      = Inr (n, d1)" "n \<noteq> 0" and d': "d' = d1\<lparr>dbOutbox := sql_delete (outbox_held e holder) (dbOutbox d1)\<rparr>"
    using assms by (auto simp: dead_letter_def run_tx_Inr dead_letter_tx_def and_then_Inr split: if_splits)
  obtain w where "w \<in> set (map (dead_letter_of code now) (filter (outbox_held e holder) (dbOutbox d)))"
    "w \<in> set (dbDeadLetters d1)" using insert_dead_letters_adds [OF i(1)] i(2) by blast
  moreover from this(1) have "dwID w = xeID e \<and> dwOrganizationID w = xeOrganizationID e \<and> dwFailureCode w = code"
    by (auto simp: dead_letter_of_def outbox_held_def)
  ultimately show ?thesis unfolding d' by auto
qed

text \<open>
  C18. An entry is given up only for a reason: nobody handles its topic, its handler failed for good or
  for at least the twelfth time, or the predecessor it waits for has been missing for fifteen minutes.
  The reason's code is kept with the dead letter.
\<close>
theorem dead_letters_are_justified:
  assumes "handle_outbox handlers env e holder now d = (OutboxDeadLettered, d')"
  shows "\<exists>code. (\<exists>w \<in> set (dbDeadLetters d'). dwID w = xeID e \<and> dwOrganizationID w = xeOrganizationID e \<and> dwFailureCode w = code)
    \<and> (case handlers (xeTopic e) of
         None \<Rightarrow> code = CodeTopicUnknown
       | Some h \<Rightarrow> \<exists>x d1 permanently. h e d = (Inl x, d1) \<and> failure_of (hgCancelled env) x = (code, permanently)
           \<and> (if code = CodeAggregateVersionGap then
                \<not> is_zero (xeGapFirstSeenAt e) \<and> 15 * minute \<le> nanos now - nanos (xeGapFirstSeenAt e)
              else permanently \<or> 12 \<le> xeAttempts e))"
proof -
  obtain code permanently d1 where r: "run_handler handlers (hgCancelled env) e d = ((code, permanently), d1)"
    by (metis prod.exhaust)
  have f: "code \<noteq> ''''" "entry_dead e now (code, permanently)"
    "dead_letter (hgMeanwhile env d1) e holder code now = (Inr (), d')"
    using assms by (auto simp: handle_outbox_def r Let_def fail_outbox_def split: if_splits prod.splits sum.splits)
  have "case handlers (xeTopic e) of
         None \<Rightarrow> code = CodeTopicUnknown
       | Some h \<Rightarrow> \<exists>x d1 permanently. h e d = (Inl x, d1) \<and> failure_of (hgCancelled env) x = (code, permanently)
           \<and> (if code = CodeAggregateVersionGap then
                \<not> is_zero (xeGapFirstSeenAt e) \<and> 15 * minute \<le> nanos now - nanos (xeGapFirstSeenAt e)
              else permanently \<or> 12 \<le> xeAttempts e)"
    using r f(1,2)
    by (auto simp: run_handler_def entry_dead_def gap_over_iff AggregateGapTimeout_def MaxOutboxAttempts_def
        split: option.splits prod.splits sum.splits if_splits)
  then show ?thesis using dead_letter_adds [OF f(3)] by blast
qed

section \<open>Witnesses\<close>

definition leased_row :: outbox_row where
  "leased_row = leased_entry ''h'' (time_add sample_time DefaultOutboxLease)
     (fresh_outbox_row ''x'' ''org'' ''topic'' JNull sample_time)"

definition leased_db :: db where "leased_db = sample_db\<lparr>dbOutbox := [leased_row]\<rparr>"

definition dropped :: "outbox_handled \<times> db" where
  "dropped = handle_outbox (\<lambda>topic. None) \<lparr>hgCancelled = False, hgMeanwhile = (\<lambda>d. d), hgStoreFails = False\<rparr>
     (scan_outbox leased_row) ''h'' sample_time leased_db"

lemma dropped_dead: "fst dropped = OutboxDeadLettered" by code_simp

theorem outbox_entries_are_conserved_witness:
  "\<exists>w \<in> set (dbDeadLetters (snd (fail_outbox leased_db (scan_outbox leased_row) ''h'' CodeTopicUnknown sample_time
     sample_time True))). buried_as leased_row w"
proof -
  let ?d = "snd (fail_outbox leased_db (scan_outbox leased_row) ''h'' CodeTopicUnknown sample_time sample_time True)"
  have "system_step leased_db ?d" by (rule system_step.failed, rule prod.collapse [symmetric])
  moreover have "unique_on (\<lambda>x. Some (xwID x)) (dbOutbox leased_db)" "leased_row \<in> set (dbOutbox leased_db)"
    by (simp_all add: leased_db_def)
  ultimately have "accounted leased_row ?d" by (rule outbox_entries_are_conserved)
  moreover have "dbOutbox ?d = []" "dbProcessed ?d = []" by code_simp+
  ultimately show ?thesis by (simp add: accounted_def outbox_event_processed_def)
qed

theorem dead_letters_are_justified_witness:
  "\<exists>w \<in> set (dbDeadLetters (snd dropped)). dwID w = ''x'' \<and> dwFailureCode w = ''outbox.topic.unknown''"
proof -
  have "dropped = (OutboxDeadLettered, snd dropped)" using dropped_dead by (metis prod.collapse)
  moreover have "xeID (scan_outbox leased_row) = ''x''"
    by (simp add: scan_outbox_def leased_row_def leased_entry_def fresh_outbox_row_def)
  ultimately show ?thesis using dead_letters_are_justified [OF dropped_def [symmetric, THEN trans]]
    by (auto simp: CodeTopicUnknown_def)
qed

end
