(* ===== verification/Monitor.thy ===== *)
theory Monitor
  imports Maintenance HealthStore Text
begin

text \<open>
  Monitors and their revisions: \<open>internal/monitor/monitor.go\<close>, the use cases of
  \<open>internal/monitor/service.go\<close> and \<open>internal/postgres/monitor.go\<close>.

  A request reads a Monitor, changes the copy and writes it back if the row still has the
  \<open>xmin\<close> it was read with; between the two, other requests run. Every transaction that writes
  takes the next transaction identifier, \<open>dbXid\<close>. The check catalog and \<open>json.Valid\<close> are
  parameters.
\<close>

section \<open>The domain\<close>

datatype monitor_state = MonitorDraft | MonitorActive | MonitorPaused | MonitorArchived

record monitor =
  mnID :: string
  mnOrganizationID :: string
  mnName :: string
  mnCheckType :: string
  mnState :: monitor_state
  mnIntervalSeconds :: int
  mnLatestRevisionNumber :: int
  mnCreatedAt :: go_time
  mnUpdatedAt :: go_time
  mnVersion :: nat

record revision =
  rnID :: string
  rnMonitorID :: string
  rnOrganizationID :: string
  rnNumber :: int
  rnCheckType :: string
  rnCheckSchemaVersion :: int
  rnConfiguration :: string
  rnCreatedAt :: go_time

record check_env =
  ceSupported :: "string \<Rightarrow> bool"
  ceValidate :: "string \<Rightarrow> int \<Rightarrow> string \<Rightarrow> string \<times> (string \<times> string \<times> string) list"
  ceJsonValid :: "string \<Rightarrow> bool"

definition MinIntervalSeconds :: int where "MinIntervalSeconds = 30"
definition MaxIntervalSeconds :: int where "MaxIntervalSeconds = 86400"

fun monitor_state_text :: "monitor_state \<Rightarrow> string" where
  "monitor_state_text MonitorDraft = ''draft''"
| "monitor_state_text MonitorActive = ''active''"
| "monitor_state_text MonitorPaused = ''paused''"
| "monitor_state_text MonitorArchived = ''archived''"

text \<open>\<open>validState\<close>: which texts are states.\<close>

definition monitor_state_of :: "string \<Rightarrow> monitor_state option" where
  "monitor_state_of s = find (\<lambda>x. monitor_state_text x = s) [MonitorDraft, MonitorActive, MonitorPaused, MonitorArchived]"

fun display_state :: "monitor_state \<Rightarrow> string" where
  "display_state MonitorDraft = ''Draft''"
| "display_state MonitorActive = ''Active''"
| "display_state MonitorPaused = ''Paused''"
| "display_state MonitorArchived = ''Archived''"

definition is_lower_ascii :: "char \<Rightarrow> bool" where "is_lower_ascii c \<longleftrightarrow> 97 \<le> byte c \<and> byte c \<le> 122"
definition is_ascii_digit :: "char \<Rightarrow> bool" where "is_ascii_digit c \<longleftrightarrow> 48 \<le> byte c \<and> byte c \<le> 57"

definition validate_interval_seconds :: "int \<Rightarrow> int option" where
  "validate_interval_seconds candidate =
     (if candidate < MinIntervalSeconds \<or> candidate > MaxIntervalSeconds then None else Some candidate)"

text \<open>The loop over the characters after the first.\<close>

fun check_type_rest :: "bool \<Rightarrow> string \<Rightarrow> bool" where
  "check_type_rest previous_hyphen [] = True"
| "check_type_rest previous_hyphen (c # cs) =
     (if c = CHR ''-'' then (if cs = [] \<or> previous_hyphen then False else check_type_rest True cs)
      else if \<not> is_lower_ascii c \<and> \<not> is_ascii_digit c then False
      else check_type_rest False cs)"

definition validate_check_type :: "string \<Rightarrow> string option" where
  "validate_check_type candidate =
     (if length candidate < 1 \<or> length candidate > 50 \<or> \<not> is_lower_ascii (hd candidate)
        \<or> \<not> check_type_rest False (tl candidate) then None
      else Some candidate)"

definition restore_monitor ::
  "string \<Rightarrow> string \<Rightarrow> string \<Rightarrow> string \<Rightarrow> string \<Rightarrow> int \<Rightarrow> int \<Rightarrow> go_time \<Rightarrow> go_time \<Rightarrow> nat \<Rightarrow> monitor result" where
  "restore_monitor i org name check_type state interval latest created updated version =
     (if i = '''' \<or> org = '''' then Inl (ErrText ''a Monitor requires identity and tenant scope'')
      else if normalize_label name \<noteq> Some name then Inl (ErrText ''invalid Monitor name'')
      else if validate_check_type check_type \<noteq> Some check_type then Inl (ErrText ''invalid check type'')
      else case monitor_state_of state of
        None \<Rightarrow> Inl (ErrText ''unknown Monitor state'')
      | Some s \<Rightarrow>
          if validate_interval_seconds interval = None then Inl (ErrText ''invalid execution interval'')
          else if latest < 0 then Inl (ErrText ''latest revision number cannot be negative'')
          else if s \<in> {MonitorActive, MonitorPaused} \<and> latest = 0 then
            Inl (ErrText ''active and paused Monitors require a revision'')
          else if \<not> is_utc created \<or> \<not> is_utc updated then Inl (ErrText ''persisted timestamps must be UTC'')
          else Inr \<lparr>mnID = i, mnOrganizationID = org, mnName = name, mnCheckType = check_type, mnState = s,
                 mnIntervalSeconds = interval, mnLatestRevisionNumber = latest, mnCreatedAt = created,
                 mnUpdatedAt = updated, mnVersion = version\<rparr>)"

definition new_monitor :: "string \<Rightarrow> string \<Rightarrow> string \<Rightarrow> string \<Rightarrow> int \<Rightarrow> go_time \<Rightarrow> monitor result" where
  "new_monitor i org name check_type interval created =
     restore_monitor i org name check_type ''draft'' interval 0 created created 0"

definition ArchivedReadOnlyDetail :: string where "ArchivedReadOnlyDetail = ''An archived Monitor is read-only.''"

definition rename_monitor :: "monitor \<Rightarrow> string \<Rightarrow> go_time \<Rightarrow> monitor result" where
  "rename_monitor v name now =
     (if mnState v = MonitorArchived then Inl (ErrText ArchivedReadOnlyDetail)
      else if normalize_label name \<noteq> Some name then Inl (ErrText ''invalid normalized Monitor name'')
      else if \<not> is_utc now then Inl (ErrText ''persisted timestamps must be UTC'')
      else Inr (v\<lparr>mnName := name, mnUpdatedAt := now\<rparr>))"

definition change_interval :: "monitor \<Rightarrow> int \<Rightarrow> go_time \<Rightarrow> monitor result" where
  "change_interval v interval now =
     (if mnState v = MonitorArchived then Inl (ErrText ArchivedReadOnlyDetail)
      else case validate_interval_seconds interval of
        None \<Rightarrow> Inl (ErrText ''invalid execution interval'')
      | Some validated \<Rightarrow>
          if \<not> is_utc now then Inl (ErrText ''persisted timestamps must be UTC'')
          else Inr (v\<lparr>mnIntervalSeconds := validated, mnUpdatedAt := now\<rparr>))"

definition transition_allowed :: "monitor_state \<Rightarrow> monitor_state \<Rightarrow> bool" where
  "transition_allowed s target =
     (case target of
        MonitorActive \<Rightarrow> s \<in> {MonitorDraft, MonitorPaused}
      | MonitorPaused \<Rightarrow> s = MonitorActive
      | MonitorArchived \<Rightarrow> s \<in> {MonitorDraft, MonitorActive, MonitorPaused}
      | MonitorDraft \<Rightarrow> False)"

definition transition_to :: "monitor \<Rightarrow> monitor_state \<Rightarrow> go_time \<Rightarrow> monitor result" where
  "transition_to v target now =
     (if \<not> is_utc now then Inl (ErrText ''persisted timestamps must be UTC'')
      else if mnState v = MonitorArchived then
        Inl (LifecycleError ''monitor.archived.readOnly'' ArchivedReadOnlyDetail)
      else if target = MonitorActive \<and> mnState v \<in> {MonitorDraft, MonitorPaused} \<and> mnLatestRevisionNumber v = 0 then
        Inl (LifecycleError ''monitor.state.activationWithoutRevision''
          ''A Monitor cannot be activated before it has a revision.'')
      else if \<not> transition_allowed (mnState v) target then
        Inl (LifecycleError ''monitor.state.transitionNotAllowed''
          (''A Monitor cannot move from '' @ [CHR 0x27] @ display_state (mnState v) @ [CHR 0x27] @ '' to ''
            @ [CHR 0x27] @ display_state target @ [CHR 0x27] @ ''.''))
      else Inr (v\<lparr>mnState := target, mnUpdatedAt := now\<rparr>))"

definition record_revision :: "monitor \<Rightarrow> int \<Rightarrow> go_time \<Rightarrow> monitor result" where
  "record_revision v number now =
     (if mnState v = MonitorArchived then Inl (ErrText ArchivedReadOnlyDetail)
      else if number \<noteq> wrap64 (mnLatestRevisionNumber v + 1) then
        Inl (ErrText ''revision number does not follow latest revision'')
      else if \<not> is_utc now then Inl (ErrText ''persisted timestamps must be UTC'')
      else Inr (v\<lparr>mnLatestRevisionNumber := number, mnUpdatedAt := now\<rparr>))"

definition new_revision ::
  "check_env \<Rightarrow> string \<Rightarrow> string \<Rightarrow> string \<Rightarrow> int \<Rightarrow> string \<Rightarrow> int \<Rightarrow> string \<Rightarrow> go_time \<Rightarrow> revision result" where
  "new_revision ce i mon org number check_type schema configuration created =
     (if i = '''' \<or> mon = '''' \<or> org = '''' then Inl (ErrText ''a Monitor revision requires identity and tenant scope'')
      else if number < 1 then Inl (ErrText ''revision numbers start at 1'')
      else if validate_check_type check_type = None then Inl (ErrText ''invalid check type'')
      else if schema < 1 then Inl (ErrText ''check schema versions start at 1'')
      else if configuration = '''' \<or> \<not> ceJsonValid ce configuration then
        Inl (ErrText ''a revision requires a valid configuration document'')
      else if \<not> is_utc created then Inl (ErrText ''persisted timestamps must be UTC'')
      else Inr \<lparr>rnID = i, rnMonitorID = mon, rnOrganizationID = org, rnNumber = number, rnCheckType = check_type,
             rnCheckSchemaVersion = schema, rnConfiguration = configuration, rnCreatedAt = created\<rparr>)"

section \<open>The store\<close>

definition row_monitor :: "monitor_row \<Rightarrow> monitor result" where
  "row_monitor m =
     (case restore_monitor (mrID m) (mrOrganizationID m) (mrName m) (mrCheckType m) (mrState m) (mrIntervalSeconds m)
        (mrLatestRevision m) (to_utc (mrCreatedAt m)) (to_utc (mrUpdatedAt m)) (mrXmin m) of
        Inl e \<Rightarrow> Inl (Wrapped ''restore Monitor'' e) | Inr v \<Rightarrow> Inr v)"

definition scan_monitor :: "monitor_row \<Rightarrow> monitor result" where
  "scan_monitor m =
     (if int (mrXmin m) > MaxUint32 then Inl (ErrText ''restore Monitor: xmin exceeds uint32'') else row_monitor m)"

definition find_monitor :: "db \<Rightarrow> scope \<Rightarrow> monitor option result" where
  "find_monitor d sc =
     (case find (is_monitor (scopeOrganizationID sc) (scopeMonitorID sc)) (dbMonitors d) of
        None \<Rightarrow> Inr None
      | Some m \<Rightarrow> and_then (scan_monitor m) (\<lambda>v. Inr (Some v)))"

definition list_monitors :: "db \<Rightarrow> string \<Rightarrow> monitor list result" where
  "list_monitors d org =
     map_result scan_monitor (sort_key (\<lambda>m. (nanos (mrCreatedAt m), mrID m))
       (filter (\<lambda>m. mrOrganizationID m = org) (dbMonitors d)))"

text \<open>The constraints of \<open>monitors\<close> on one row.\<close>

definition monitor_row_ok :: "monitor_row \<Rightarrow> bool" where
  "monitor_row_ok m \<longleftrightarrow> 30 \<le> mrIntervalSeconds m \<and> mrIntervalSeconds m \<le> 86400"

definition monitor_to_row :: "monitor \<Rightarrow> nat \<Rightarrow> monitor_row" where
  "monitor_to_row v xid =
     \<lparr>mrID = mnID v, mrOrganizationID = mnOrganizationID v, mrName = mnName v, mrCheckType = mnCheckType v,
      mrState = monitor_state_text (mnState v), mrLatestRevision = mnLatestRevisionNumber v,
      mrIntervalSeconds = mnIntervalSeconds v, mrCreatedAt = db_instant (mnCreatedAt v),
      mrUpdatedAt = db_instant (mnUpdatedAt v), mrXmin = xid\<rparr>"

definition create_monitor :: "db \<Rightarrow> monitor \<Rightarrow> unit result \<times> db" where
  "create_monitor d v =
     (if sql_exists (\<lambda>m. mrID m = mnID v) (dbMonitors d) \<or> mnOrganizationID v \<notin> set (dbOrganizations d)
        \<or> \<not> monitor_row_ok (monitor_to_row v (dbXid d)) then (Inl (ErrText ''insert Monitor''), d)
      else (Inr (), d\<lparr>dbMonitors := dbMonitors d @ [monitor_to_row v (dbXid d)], dbXid := dbXid d + 1\<rparr>))"

text \<open>The optimistic condition of both mutations.\<close>

definition monitor_hits :: "monitor \<Rightarrow> nat \<Rightarrow> monitor_row \<Rightarrow> bool" where
  "monitor_hits v expected m \<longleftrightarrow> mrID m = mnID v \<and> mrOrganizationID m = mnOrganizationID v \<and> mrXmin m = expected"

definition updated_row :: "monitor \<Rightarrow> nat \<Rightarrow> monitor_row \<Rightarrow> monitor_row" where
  "updated_row v xid m = m\<lparr>mrName := mnName v, mrState := monitor_state_text (mnState v),
     mrIntervalSeconds := mnIntervalSeconds v, mrLatestRevision := mnLatestRevisionNumber v,
     mrUpdatedAt := db_instant (mnUpdatedAt v), mrXmin := xid\<rparr>"

definition update_monitor :: "db \<Rightarrow> monitor \<Rightarrow> nat \<Rightarrow> unit result \<times> db" where
  "update_monitor d v expected =
     (if \<not> sql_exists (monitor_hits v expected) (dbMonitors d) then (Inl (ErrIs MonitorConcurrentUpdate), d)
      else if \<not> monitor_row_ok (monitor_to_row v 0) then (Inl (ErrText ''update Monitor''), d)
      else (Inr (), d\<lparr>dbMonitors := sql_update (monitor_hits v expected) (updated_row v (dbXid d)) (dbMonitors d),
             dbXid := dbXid d + 1\<rparr>))"

definition revision_to_row :: "revision \<Rightarrow> revision_row" where
  "revision_to_row r =
     \<lparr>rvID = rnID r, rvMonitorID = rnMonitorID r, rvOrganizationID = rnOrganizationID r, rvNumber = rnNumber r,
      rvCheckType = rnCheckType r, rvCheckSchemaVersion = rnCheckSchemaVersion r, rvConfiguration = rnConfiguration r,
      rvCreatedAt = db_instant (rnCreatedAt r)\<rparr>"

definition revision_of :: "string \<Rightarrow> string \<Rightarrow> revision_row \<Rightarrow> bool" where
  "revision_of org mon r \<longleftrightarrow> rvMonitorID r = mon \<and> rvOrganizationID r = org"

definition insert_revision :: "revision \<Rightarrow> db \<Rightarrow> db result" where
  "insert_revision r d =
     (if sql_exists (\<lambda>x. rvMonitorID x = rnMonitorID r \<and> rvNumber x = rnNumber r) (dbRevisions d) then
        Inl (ErrIs MonitorConcurrentUpdate)
      else if sql_exists (\<lambda>x. rvID x = rnID r) (dbRevisions d)
        \<or> \<not> monitor_in_db d (rnMonitorID r) (rnOrganizationID r) then Inl (ErrText ''insert Monitor revision'')
      else Inr (d\<lparr>dbRevisions := dbRevisions d @ [revision_to_row r]\<rparr>))"

definition advanced_row :: "monitor \<Rightarrow> nat \<Rightarrow> monitor_row \<Rightarrow> monitor_row" where
  "advanced_row v xid m = m\<lparr>mrLatestRevision := mnLatestRevisionNumber v, mrUpdatedAt := db_instant (mnUpdatedAt v),
     mrXmin := xid\<rparr>"

definition append_revision_tx :: "monitor \<Rightarrow> revision \<Rightarrow> nat \<Rightarrow> db \<Rightarrow> (unit \<times> db) result" where
  "append_revision_tx v r expected d =
     (if \<not> sql_exists (monitor_hits v expected) (dbMonitors d) then Inl (ErrIs MonitorConcurrentUpdate)
      else and_then (insert_revision r
        (d\<lparr>dbMonitors := sql_update (monitor_hits v expected) (advanced_row v (dbXid d)) (dbMonitors d), dbXid := dbXid d + 1\<rparr>))
        (\<lambda>d'. Inr ((), d')))"

definition append_revision :: "db \<Rightarrow> monitor \<Rightarrow> revision \<Rightarrow> nat \<Rightarrow> unit result \<times> db" where
  "append_revision d v r expected = run_tx (append_revision_tx v r expected) d"

definition scan_revision :: "check_env \<Rightarrow> revision_row \<Rightarrow> revision result" where
  "scan_revision ce r =
     (case new_revision ce (rvID r) (rvMonitorID r) (rvOrganizationID r) (rvNumber r) (rvCheckType r)
        (rvCheckSchemaVersion r) (rvConfiguration r) (to_utc (rvCreatedAt r)) of
        Inl e \<Rightarrow> Inl (Wrapped ''restore Monitor revision'' e) | Inr v \<Rightarrow> Inr v)"

definition find_revision :: "check_env \<Rightarrow> db \<Rightarrow> string \<Rightarrow> string \<Rightarrow> int \<Rightarrow> revision option result" where
  "find_revision ce d org mon number =
     (case find (\<lambda>r. revision_of org mon r \<and> rvNumber r = number) (dbRevisions d) of
        None \<Rightarrow> Inr None
      | Some r \<Rightarrow> and_then (scan_revision ce r) (\<lambda>v. Inr (Some v)))"

definition list_revisions :: "check_env \<Rightarrow> db \<Rightarrow> string \<Rightarrow> string \<Rightarrow> revision list result" where
  "list_revisions ce d org mon =
     map_result (scan_revision ce) (sort_key rvNumber (filter (revision_of org mon) (dbRevisions d)))"

section \<open>The use cases\<close>

datatype monitor_create_result = MonitorInvalid "validation_failure list" | MonitorCreated monitor

datatype monitor_update_result =
    UpdateInvalid "validation_failure list" | UpdateUpdated monitor | UpdateNotFound | UpdateConflict string string

datatype revision_result =
    RevisionInvalid "validation_failure list" | RevisionCreated revision monitor | RevisionMonitorNotFound
  | RevisionConflict string string

definition monitor_name_failure :: validation_failure where
  "monitor_name_failure = \<lparr>vfCode = ''monitor.name.invalid'', vfField = ''name'',
     vfMessage = ''A Monitor name is 1 to 100 characters after trimming.''\<rparr>"

definition interval_failure :: validation_failure where
  "interval_failure = \<lparr>vfCode = ''monitor.interval.invalid'', vfField = ''intervalSeconds'',
     vfMessage = ''An execution interval is a whole number of seconds from 30 through 86400.''\<rparr>"

definition check_type_failure :: validation_failure where
  "check_type_failure = \<lparr>vfCode = ''monitor.checkType.invalid'', vfField = ''checkType'',
     vfMessage = ''A check type is 1 to 50 characters of lowercase ASCII letters and digits with single interior hyphens, starting with a letter.''\<rparr>"

definition unsupported_failure :: "string \<Rightarrow> validation_failure" where
  "unsupported_failure check_type = \<lparr>vfCode = ''monitor.checkType.unsupported'', vfField = ''checkType'',
     vfMessage = ''The check type '' @ [CHR 0x27] @ check_type @ [CHR 0x27] @ '' is not supported by this build.''\<rparr>"

definition target_failure :: validation_failure where
  "target_failure = \<lparr>vfCode = ''monitor.state.invalidTarget'', vfField = ''state'',
     vfMessage = ''The target state must be one of: active, paused, archived.''\<rparr>"

definition monitor_create ::
  "check_env \<Rightarrow> string \<Rightarrow> string \<Rightarrow> string \<Rightarrow> int \<Rightarrow> go_time \<Rightarrow> string result \<Rightarrow> db \<Rightarrow> monitor_create_result result \<times> db" where
  "monitor_create ce org requested check_type interval clock uuid d =
     (let failures = (if normalize_label requested = None then [monitor_name_failure] else [])
            @ (if validate_check_type check_type = None then [check_type_failure]
               else if \<not> ceSupported ce check_type then [unsupported_failure check_type] else [])
            @ (if validate_interval_seconds interval = None then [interval_failure] else [])
      in if failures \<noteq> [] then (Inr (MonitorInvalid failures), d)
         else
           let now = to_utc clock in
           case uuid of
             Inl e \<Rightarrow> (Inl (Wrapped ''generate Monitor id'' e), d)
           | Inr i \<Rightarrow>
               case new_monitor i org (the (normalize_label requested)) check_type interval now of
                 Inl e \<Rightarrow> (Inl e, d)
               | Inr v \<Rightarrow>
                   case create_monitor d v of (Inl e, d') \<Rightarrow> (Inl e, d') | (Inr _, d') \<Rightarrow> (Inr (MonitorCreated v), d'))"

definition ConcurrentUpdateConflict :: monitor_update_result where
  "ConcurrentUpdateConflict = UpdateConflict ''monitor.concurrentUpdate''
     ''The Monitor was modified concurrently; retry against its current state.''"

definition ArchivedConflict :: monitor_update_result where
  "ArchivedConflict = UpdateConflict ''monitor.archived.readOnly'' ArchivedReadOnlyDetail"

text \<open>The write at the end of \<open>Rename\<close>, \<open>ChangeInterval\<close> and \<open>ChangeState\<close>.\<close>

definition write_monitor :: "monitor \<Rightarrow> nat \<Rightarrow> db \<Rightarrow> monitor_update_result result \<times> db" where
  "write_monitor v expected d =
     (case update_monitor d v expected of
        (Inr _, d') \<Rightarrow> (Inr (UpdateUpdated v), d')
      | (Inl e, d') \<Rightarrow> (if errors_is e MonitorConcurrentUpdate then (Inr ConcurrentUpdateConflict, d') else (Inl e, d')))"

definition monitor_rename ::
  "scope \<Rightarrow> string \<Rightarrow> go_time \<Rightarrow> (db \<Rightarrow> db) \<Rightarrow> db \<Rightarrow> monitor_update_result result \<times> db" where
  "monitor_rename sc requested clock between d =
     (case normalize_label requested of
        None \<Rightarrow> (Inr (UpdateInvalid [monitor_name_failure]), d)
      | Some name \<Rightarrow>
          case find_monitor d sc of
            Inl e \<Rightarrow> (Inl e, d)
          | Inr None \<Rightarrow> (Inr UpdateNotFound, d)
          | Inr (Some v) \<Rightarrow>
              if mnState v = MonitorArchived then (Inr ArchivedConflict, d)
              else case rename_monitor v name (to_utc clock) of
                Inl e \<Rightarrow> (Inl e, d)
              | Inr v' \<Rightarrow> write_monitor v' (mnVersion v) (between d))"

definition monitor_change_interval ::
  "scope \<Rightarrow> int \<Rightarrow> go_time \<Rightarrow> (db \<Rightarrow> db) \<Rightarrow> db \<Rightarrow> monitor_update_result result \<times> db" where
  "monitor_change_interval sc interval clock between d =
     (if validate_interval_seconds interval = None then (Inr (UpdateInvalid [interval_failure]), d)
      else case find_monitor d sc of
        Inl e \<Rightarrow> (Inl e, d)
      | Inr None \<Rightarrow> (Inr UpdateNotFound, d)
      | Inr (Some v) \<Rightarrow>
          if mnState v = MonitorArchived then (Inr ArchivedConflict, d)
          else case change_interval v interval (to_utc clock) of
            Inl e \<Rightarrow> (Inl e, d)
          | Inr v' \<Rightarrow> write_monitor v' (mnVersion v) (between d))"

definition target_state :: "string \<Rightarrow> monitor_state option" where
  "target_state s = (if s = ''active'' then Some MonitorActive else if s = ''paused'' then Some MonitorPaused
     else if s = ''archived'' then Some MonitorArchived else None)"

text \<open>\<open>errors.As\<close> with a \<open>*LifecycleError\<close>; \<open>TransitionTo\<close> returns it unwrapped.\<close>

fun lifecycle_error :: "go_error \<Rightarrow> (string \<times> string) option" where
  "lifecycle_error (LifecycleError code message) = Some (code, message)"
| "lifecycle_error (Wrapped m e) = lifecycle_error e"
| "lifecycle_error (OutboundFailure r c h p (Some e)) = lifecycle_error e"
| "lifecycle_error e = None"

definition monitor_change_state ::
  "scope \<Rightarrow> string \<Rightarrow> go_time \<Rightarrow> (db \<Rightarrow> db) \<Rightarrow> db \<Rightarrow> monitor_update_result result \<times> db" where
  "monitor_change_state sc requested clock between d =
     (case target_state requested of
        None \<Rightarrow> (Inr (UpdateInvalid [target_failure]), d)
      | Some target \<Rightarrow>
          case find_monitor d sc of
            Inl e \<Rightarrow> (Inl e, d)
          | Inr None \<Rightarrow> (Inr UpdateNotFound, d)
          | Inr (Some v) \<Rightarrow>
              case transition_to v target (to_utc clock) of
                Inl e \<Rightarrow> (case lifecycle_error e of
                    None \<Rightarrow> (Inl e, d)
                  | Some (code, message) \<Rightarrow> (Inr (UpdateConflict code message), d))
              | Inr v' \<Rightarrow> write_monitor v' (mnVersion v) (between d))"

definition monitor_create_revision ::
  "check_env \<Rightarrow> scope \<Rightarrow> int \<Rightarrow> string \<Rightarrow> go_time \<Rightarrow> string result \<Rightarrow> (db \<Rightarrow> db) \<Rightarrow> db \<Rightarrow> revision_result result \<times> db" where
  "monitor_create_revision ce sc schema configuration clock uuid between d =
     (case find_monitor d sc of
        Inl e \<Rightarrow> (Inl e, d)
      | Inr None \<Rightarrow> (Inr RevisionMonitorNotFound, d)
      | Inr (Some v) \<Rightarrow>
          if mnState v = MonitorArchived then
            (Inr (RevisionConflict ''monitor.archived.readOnly'' ArchivedReadOnlyDetail), d)
          else if \<not> ceSupported ce (mnCheckType v) then
            (Inr (RevisionInvalid [unsupported_failure (mnCheckType v)]), d)
          else
            let (canonical, failures) = ceValidate ce (mnCheckType v) schema configuration;
                now = to_utc clock
            in if failures \<noteq> [] then
                 (Inr (RevisionInvalid (map (\<lambda>(c, f, m). \<lparr>vfCode = c, vfField = f, vfMessage = m\<rparr>) failures)), d)
               else case uuid of
                 Inl e \<Rightarrow> (Inl (Wrapped ''generate Monitor revision id'' e), d)
               | Inr i \<Rightarrow>
                   case new_revision ce i (mnID v) (mnOrganizationID v) (wrap64 (mnLatestRevisionNumber v + 1)) (mnCheckType v)
                          schema canonical now of
                     Inl e \<Rightarrow> (Inl e, d)
                   | Inr r \<Rightarrow>
                       case record_revision v (rnNumber r) now of
                         Inl e \<Rightarrow> (Inl e, d)
                       | Inr v' \<Rightarrow>
                           case append_revision (between d) v' r (mnVersion v) of
                             (Inr _, d') \<Rightarrow> (Inr (RevisionCreated r v'), d')
                           | (Inl e, d') \<Rightarrow>
                               if errors_is e MonitorConcurrentUpdate then
                                 (Inr (RevisionConflict ''monitor.concurrentUpdate''
                                    ''The Monitor was modified concurrently; retry against its current state.''), d')
                               else (Inl e, d'))"

definition monitor_get_revision :: "check_env \<Rightarrow> scope \<Rightarrow> int \<Rightarrow> db \<Rightarrow> revision option result" where
  "monitor_get_revision ce sc number d =
     and_then (find_monitor d sc) (\<lambda>found. case found of
       None \<Rightarrow> Inr None
     | Some _ \<Rightarrow> find_revision ce d (scopeOrganizationID sc) (scopeMonitorID sc) number)"

definition monitor_list_revisions :: "check_env \<Rightarrow> scope \<Rightarrow> db \<Rightarrow> revision list option result" where
  "monitor_list_revisions ce sc d =
     and_then (find_monitor d sc) (\<lambda>found. case found of
       None \<Rightarrow> Inr None
     | Some _ \<Rightarrow> and_then (list_revisions ce d (scopeOrganizationID sc) (scopeMonitorID sc)) (\<lambda>rs. Inr (Some rs)))"

section \<open>Interleaved requests\<close>

text \<open>
  The requests of the use cases, each split at its read and its write. A request that has read holds
  the changed copy and the version it read.
\<close>

datatype pending_write = PendingUpdate monitor nat | PendingRevision monitor revision nat

record monitor_world =
  mlDb :: db
  mlPending :: "pending_write list"

definition held :: "pending_write \<Rightarrow> monitor_world \<Rightarrow> monitor_world" where
  "held p s = s\<lparr>mlPending := p # mlPending s\<rparr>"

inductive monitor_step :: "monitor_world \<Rightarrow> monitor_world \<Rightarrow> bool" where
  created: "\<not> is_zero (db_instant clock) \<Longrightarrow>
     monitor_create ce org name check_type interval clock uuid (mlDb s) = (rc, d') \<Longrightarrow> monitor_step s (s\<lparr>mlDb := d'\<rparr>)"
| renaming: "\<not> is_zero (db_instant clock) \<Longrightarrow> find_monitor (mlDb s) sc = Inr (Some v) \<Longrightarrow>
     rename_monitor v name (to_utc clock) = Inr v' \<Longrightarrow> monitor_step s (held (PendingUpdate v' (mnVersion v)) s)"
| rescheduling: "\<not> is_zero (db_instant clock) \<Longrightarrow> find_monitor (mlDb s) sc = Inr (Some v) \<Longrightarrow>
     change_interval v interval (to_utc clock) = Inr v' \<Longrightarrow> monitor_step s (held (PendingUpdate v' (mnVersion v)) s)"
| moving: "\<not> is_zero (db_instant clock) \<Longrightarrow> find_monitor (mlDb s) sc = Inr (Some v) \<Longrightarrow>
     transition_to v target (to_utc clock) = Inr v' \<Longrightarrow> monitor_step s (held (PendingUpdate v' (mnVersion v)) s)"
| revising: "\<not> is_zero (db_instant clock) \<Longrightarrow> find_monitor (mlDb s) sc = Inr (Some v) \<Longrightarrow>
     new_revision ce i (mnID v) (mnOrganizationID v) (wrap64 (mnLatestRevisionNumber v + 1)) (mnCheckType v)
       schema configuration (to_utc clock) = Inr r \<Longrightarrow>
     record_revision v (rnNumber r) (to_utc clock) = Inr v' \<Longrightarrow>
     monitor_step s (held (PendingRevision v' r (mnVersion v)) s)"
| updated: "PendingUpdate v n \<in> set (mlPending s) \<Longrightarrow> update_monitor (mlDb s) v n = (ru, d') \<Longrightarrow>
     monitor_step s (s\<lparr>mlDb := d'\<rparr>)"
| appended: "PendingRevision v r n \<in> set (mlPending s) \<Longrightarrow> append_revision (mlDb s) v r n = (ru, d') \<Longrightarrow>
     monitor_step s (s\<lparr>mlDb := d'\<rparr>)"
| elsewhere: "dbMonitors d' = dbMonitors (mlDb s) \<Longrightarrow> dbRevisions d' = dbRevisions (mlDb s) \<Longrightarrow>
     dbXid (mlDb s) \<le> dbXid d' \<Longrightarrow> monitor_step s (s\<lparr>mlDb := d'\<rparr>)"

inductive_cases monitor_stepE: "monitor_step s s'"

definition revision_numbers :: "db \<Rightarrow> monitor_row \<Rightarrow> int set" where
  "revision_numbers d m = rvNumber ` {r \<in> set (dbRevisions d). revision_of (mrOrganizationID m) (mrID m) r}"

definition restores :: "monitor_row \<Rightarrow> bool" where
  "restores m \<longleftrightarrow> is_ok (row_monitor m)"

definition monitors_inv :: "db \<Rightarrow> bool" where
  "monitors_inv d \<longleftrightarrow> unique_on (\<lambda>m. Some (mrID m)) (dbMonitors d)
     \<and> (\<forall>m \<in> set (dbMonitors d). mrXmin m < dbXid d \<and> restores m \<and> mrLatestRevision m < 2 ^ 63
          \<and> revision_numbers d m = {1..mrLatestRevision m})
     \<and> unique_on (\<lambda>r. Some (rvMonitorID r, rvNumber r)) (dbRevisions d)
     \<and> (\<forall>r \<in> set (dbRevisions d). \<exists>m \<in> set (dbMonitors d). revision_of (mrOrganizationID m) (mrID m) r)"

fun pending_ok :: "db \<Rightarrow> pending_write \<Rightarrow> bool" where
  "pending_ok d (PendingUpdate v n) = (n < dbXid d \<and> (\<forall>m \<in> set (dbMonitors d). monitor_hits v n m \<longrightarrow>
     mrState m \<noteq> ''archived'' \<and> mnLatestRevisionNumber v = mrLatestRevision m \<and> restores (updated_row v n m)))"
| "pending_ok d (PendingRevision v r n) = (n < dbXid d \<and> rnMonitorID r = mnID v \<and> rnOrganizationID r = mnOrganizationID v
     \<and> rnNumber r = mnLatestRevisionNumber v
     \<and> (\<forall>m \<in> set (dbMonitors d). monitor_hits v n m \<longrightarrow> mrState m \<noteq> ''archived''
          \<and> mnLatestRevisionNumber v = mrLatestRevision m + 1 \<and> mnLatestRevisionNumber v < 2 ^ 63
          \<and> restores (advanced_row v n m)))"

definition monitor_world_inv :: "monitor_world \<Rightarrow> bool" where
  "monitor_world_inv s \<longleftrightarrow> monitors_inv (mlDb s) \<and> (\<forall>p \<in> set (mlPending s). pending_ok (mlDb s) p)"

lemma restore_monitor_Inr:
  "restore_monitor i org name ct st interval latest c u n = Inr v \<longleftrightarrow>
     (\<exists>s. i \<noteq> '''' \<and> org \<noteq> '''' \<and> normalize_label name = Some name \<and> validate_check_type ct = Some ct
      \<and> monitor_state_of st = Some s \<and> validate_interval_seconds interval \<noteq> None \<and> 0 \<le> latest
      \<and> \<not> (s \<in> {MonitorActive, MonitorPaused} \<and> latest = 0) \<and> is_utc c \<and> is_utc u
      \<and> v = \<lparr>mnID = i, mnOrganizationID = org, mnName = name, mnCheckType = ct, mnState = s,
                 mnIntervalSeconds = interval, mnLatestRevisionNumber = latest, mnCreatedAt = c,
                 mnUpdatedAt = u, mnVersion = n\<rparr>)"
  by (auto simp: restore_monitor_def split: option.splits)

lemma monitor_state_of_Some: "monitor_state_of st = Some s \<longleftrightarrow> monitor_state_text s = st"
  by (cases s) (auto simp: monitor_state_of_def)

lemma row_monitor_Inr: "row_monitor m = Inr v \<longleftrightarrow>
   restore_monitor (mrID m) (mrOrganizationID m) (mrName m) (mrCheckType m) (mrState m) (mrIntervalSeconds m)
        (mrLatestRevision m) (to_utc (mrCreatedAt m)) (to_utc (mrUpdatedAt m)) (mrXmin m) = Inr v"
  by (auto simp: row_monitor_def split: sum.splits)

lemma is_utc_stored: "is_utc (db_instant t) \<longleftrightarrow> \<not> is_zero (db_instant t)"
  by (simp add: is_utc_def db_instant_def)

text \<open>Which rows read back as a Monitor; the version does not matter.\<close>

lemma restores_iff:
  "restores m \<longleftrightarrow> mrID m \<noteq> '''' \<and> mrOrganizationID m \<noteq> '''' \<and> normalize_label (mrName m) = Some (mrName m)
     \<and> validate_check_type (mrCheckType m) = Some (mrCheckType m) \<and> validate_interval_seconds (mrIntervalSeconds m) \<noteq> None
     \<and> 0 \<le> mrLatestRevision m \<and> is_utc (to_utc (mrCreatedAt m)) \<and> is_utc (to_utc (mrUpdatedAt m))
     \<and> (\<exists>s. monitor_state_text s = mrState m \<and> \<not> (s \<in> {MonitorActive, MonitorPaused} \<and> mrLatestRevision m = 0))"
  unfolding restores_def is_ok_iff row_monitor_Inr restore_monitor_Inr monitor_state_of_Some by blast

lemma restores_version:
  "restores (updated_row v n m) \<Longrightarrow> restores (updated_row v n' m)"
  "restores (advanced_row v n m) \<Longrightarrow> restores (advanced_row v n' m)"
  by (simp_all add: restores_iff updated_row_def advanced_row_def)

lemma find_monitor_Some:
  assumes "find_monitor d sc = Inr (Some v)"
  obtains m where "m \<in> set (dbMonitors d)" "row_monitor m = Inr v" "mnVersion v = mrXmin m" "mnID v = mrID m"
    "mnOrganizationID v = mrOrganizationID m" "mnLatestRevisionNumber v = mrLatestRevision m"
    "monitor_state_text (mnState v) = mrState m" "mnName v = mrName m" "mnIntervalSeconds v = mrIntervalSeconds m"
proof -
  obtain m where f: "find (is_monitor (scopeOrganizationID sc) (scopeMonitorID sc)) (dbMonitors d) = Some m"
    and m2: "row_monitor m = Inr v"
    using assms by (auto simp: find_monitor_def scan_monitor_def and_then_Inr split: option.splits if_splits)
  have m: "m \<in> set (dbMonitors d)" "row_monitor m = Inr v" using f m2 by (auto simp: find_Some_iff)
  show ?thesis by (rule that [OF m]) (use m(2) in \<open>auto simp: row_monitor_Inr restore_monitor_Inr monitor_state_of_Some\<close>)
qed

lemma monitor_state_text_inj: "monitor_state_text s = monitor_state_text t \<longleftrightarrow> s = t"
  by (cases s; cases t) auto

lemma pending_ok_frame:
  assumes ok: "pending_ok d p" and rows: "\<And>m. m \<in> set (dbMonitors d') \<Longrightarrow> m \<in> set (dbMonitors d) \<or> dbXid d \<le> mrXmin m"
    and x: "dbXid d \<le> dbXid d'"
  shows "pending_ok d' p"
proof -
  have old: "m \<in> set (dbMonitors d)" if "m \<in> set (dbMonitors d')" "monitor_hits v n m" "n < dbXid d" for m v n
    using rows [OF that(1)] that(2,3) by (auto simp: monitor_hits_def)
  show ?thesis
  proof (cases p)
    case (PendingUpdate v n)
    then show ?thesis using ok x old [of _ v n] by auto
  next
    case (PendingRevision v r n)
    then show ?thesis using ok x old [of _ v n] by auto
  qed
qed

text \<open>A request that has read holds a copy of the row it read, changed as the domain allows.\<close>

lemma pending_update_read:
  assumes "monitors_inv d" and "m \<in> set (dbMonitors d)" and "mnID v = mrID m" "mrState m \<noteq> ''archived''"
    "mnLatestRevisionNumber v = mrLatestRevision m" "restores (updated_row v (mrXmin m) m)"
  shows "pending_ok d (PendingUpdate v (mrXmin m))"
proof -
  have "m' = m" if "m' \<in> set (dbMonitors d)" "monitor_hits v n m'" for m' n
    using assms(1-3) that unique_onD [of "\<lambda>m. Some (mrID m)" "dbMonitors d" m' m]
    by (auto simp: monitors_inv_def monitor_hits_def)
  then show ?thesis using assms by (auto simp: monitors_inv_def)
qed

lemma update_read:
  assumes inv: "monitors_inv d" and f: "find_monitor d sc = Inr (Some v)"
    and ch: "rename_monitor v name now = Inr v' \<or> change_interval v interval now = Inr v' \<or> transition_to v target now = Inr v'"
    and now: "now = to_utc clock" "\<not> is_zero (db_instant clock)"
  shows "pending_ok d (PendingUpdate v' (mnVersion v))"
proof -
  obtain m where m: "m \<in> set (dbMonitors d)" "row_monitor m = Inr v" "mnVersion v = mrXmin m" "mnID v = mrID m"
    "mnOrganizationID v = mrOrganizationID m" "mnLatestRevisionNumber v = mrLatestRevision m"
    "monitor_state_text (mnState v) = mrState m" "mnName v = mrName m" "mnIntervalSeconds v = mrIntervalSeconds m"
    using find_monitor_Some [OF f] .
  have r: "restores m" using m(2) by (simp add: restores_def)
  have arch: "mnState v \<noteq> MonitorArchived" and same: "mnID v' = mnID v" "mnLatestRevisionNumber v' = mnLatestRevisionNumber v"
    and up: "mnUpdatedAt v' = now"
    using ch by (auto simp: rename_monitor_def change_interval_def transition_to_def split: if_splits option.splits)
  have name: "normalize_label (mnName v') = Some (mnName v')" "validate_interval_seconds (mnIntervalSeconds v') \<noteq> None"
    using ch r m(8,9)
    by (auto simp: rename_monitor_def change_interval_def transition_to_def restores_iff
        validate_interval_seconds_def split: if_splits option.splits)
  have state: "mnState v' \<in> {MonitorActive, MonitorPaused} \<longrightarrow> mrLatestRevision m \<noteq> 0"
  proof (cases "mnState v' = mnState v")
    case True
    obtain s where "monitor_state_text s = mrState m" "\<not> (s \<in> {MonitorActive, MonitorPaused} \<and> mrLatestRevision m = 0)"
      using r by (auto simp: restores_iff)
    then show ?thesis using True m(7) monitor_state_text_inj [of s "mnState v"] by auto
  next
    case False
    then have t: "transition_to v target now = Inr v'"
      using ch by (auto simp: rename_monitor_def change_interval_def split: if_splits option.splits)
    obtain s where s: "monitor_state_text s = mrState m" "\<not> (s \<in> {MonitorActive, MonitorPaused} \<and> mrLatestRevision m = 0)"
      using r by (auto simp: restores_iff)
    then have "s = mnState v" using m(7) monitor_state_text_inj [of s "mnState v"] by simp
    then show ?thesis using t s(2) m(6)
      by (auto simp: transition_to_def transition_allowed_def split: if_splits monitor_state.splits)
  qed
  show ?thesis unfolding m(3)
  proof (rule pending_update_read [OF inv m(1)])
    show "mrState m \<noteq> ''archived''" using arch m(7) by (cases "mnState v") auto
    have "is_utc (db_instant (mnUpdatedAt v'))" using now up by (simp add: is_utc_stored)
    then show "restores (updated_row v' (mrXmin m) m)"
      using r name state by (auto simp: restores_iff updated_row_def same m(6))
  qed (simp_all add: same m)
qed

lemma revision_read:
  assumes inv: "monitors_inv d" and f: "find_monitor d sc = Inr (Some v)"
    and r: "new_revision ce i (mnID v) (mnOrganizationID v) (wrap64 (mnLatestRevisionNumber v + 1)) ct schema cfg now = Inr r"
    and v': "record_revision v (rnNumber r) now = Inr v'" and now: "now = to_utc clock" "\<not> is_zero (db_instant clock)"
  shows "pending_ok d (PendingRevision v' r (mnVersion v))"
proof -
  obtain m where m: "m \<in> set (dbMonitors d)" "row_monitor m = Inr v" "mnVersion v = mrXmin m" "mnID v = mrID m"
    "mnOrganizationID v = mrOrganizationID m" "mnLatestRevisionNumber v = mrLatestRevision m"
    "monitor_state_text (mnState v) = mrState m" "mnName v = mrName m" "mnIntervalSeconds v = mrIntervalSeconds m"
    using find_monitor_Some [OF f] .
  have restores: "restores m" using m(2) by (simp add: restores_def)
  have R: "rnMonitorID r = mnID v" "rnOrganizationID r = mnOrganizationID v"
    "rnNumber r = wrap64 (mnLatestRevisionNumber v + 1)" "1 \<le> rnNumber r"
    using r by (auto simp: new_revision_def split: if_splits)
  have V: "mnState v \<noteq> MonitorArchived" "v' = v\<lparr>mnLatestRevisionNumber := rnNumber r, mnUpdatedAt := now\<rparr>"
    using v' by (auto simp: record_revision_def split: if_splits)
  have l: "0 \<le> mrLatestRevision m" "mrLatestRevision m < 2 ^ 63" "mrXmin m < dbXid d"
    using restores inv m(1) by (auto simp: restores_iff monitors_inv_def)
  have n: "rnNumber r = mrLatestRevision m + 1" "mrLatestRevision m + 1 < 2 ^ 63"
  proof -
    show "mrLatestRevision m + 1 < 2 ^ 63"
    proof (rule ccontr)
      assume "\<not> ?thesis"
      then have "mrLatestRevision m + 1 = 2 ^ 63" using l(2) by simp
      then show False using R(3,4) m(6) by (simp add: wrap64_def)
    qed
    then show "rnNumber r = mrLatestRevision m + 1" using R(3) m(6) l(1) by (simp add: fits64_def)
  qed
  have once: "m' = m" if "m' \<in> set (dbMonitors d)" "monitor_hits v' n m'" for m' n
    using inv m(1,4) V that unique_onD [of "\<lambda>m. Some (mrID m)" "dbMonitors d" m' m]
    by (auto simp: monitors_inv_def monitor_hits_def)
  have "mrState m \<noteq> ''archived''" using V(1) m(7) by (cases "mnState v") auto
  moreover have "restores (advanced_row v' (mrXmin m) m)"
    using restores now n(1) l(1) V(2)
    by (auto simp: restores_iff advanced_row_def is_utc_stored)
  ultimately show ?thesis using once n l(3) R V m(3,6) by auto
qed

text \<open>What the writes keep.\<close>

lemma monitors_inv_same:
  assumes "dbMonitors d' = dbMonitors d" and "dbRevisions d' = dbRevisions d" and "dbXid d \<le> dbXid d'" and "monitors_inv d"
  shows "monitors_inv d'"
  using assms(4) unfolding monitors_inv_def revision_numbers_def assms(1,2) using assms(3) by (meson less_le_trans)

lemma create_monitor_inv:
  assumes inv: "monitors_inv d" and c: "monitor_create ce org name ct interval clock uuid d = (rc, d')"
    and clock: "\<not> is_zero (db_instant clock)"
  shows "monitors_inv d' \<and> (\<forall>m \<in> set (dbMonitors d'). m \<in> set (dbMonitors d) \<or> dbXid d \<le> mrXmin m)
    \<and> dbXid d \<le> dbXid d' \<and> set (dbMonitors d) \<subseteq> set (dbMonitors d') \<and> dbRevisions d' = dbRevisions d"
proof (cases "d' = d")
  case False
  then obtain i v where v: "new_monitor i org (the (normalize_label name)) ct interval (to_utc clock) = Inr v"
    and w: "create_monitor d v = (Inr (), d')"
    using c by (auto simp: monitor_create_def Let_def create_monitor_def split: if_splits sum.splits prod.splits)
  let ?m = "monitor_to_row v (dbXid d)"
  have fresh: "\<forall>m \<in> set (dbMonitors d). mrID m \<noteq> mnID v"
    and d': "d' = d\<lparr>dbMonitors := dbMonitors d @ [?m], dbXid := dbXid d + 1\<rparr>"
    using w by (auto simp: create_monitor_def split: if_splits)
  have m: "mrID ?m = mnID v" "mrXmin ?m = dbXid d" "mrLatestRevision ?m = 0" "restores ?m"
    using v clock
    by (auto simp: new_monitor_def restore_monitor_Inr monitor_state_of_Some monitor_to_row_def restores_iff
        is_utc_stored)
  have none: "revision_numbers d' ?m = {1..mrLatestRevision ?m}"
    using inv fresh m(1,3) by (fastforce simp: revision_numbers_def revision_of_def monitors_inv_def d')
  have nums: "revision_numbers d' n = revision_numbers d n" for n by (simp add: revision_numbers_def d')
  have xid: "dbXid d' = dbXid d + 1" by (simp add: d')
  have I: "unique_on (\<lambda>m. Some (mrID m)) (dbMonitors d)"
    "\<And>m. m \<in> set (dbMonitors d) \<Longrightarrow> mrXmin m < dbXid d \<and> restores m \<and> mrLatestRevision m < 2 ^ 63
          \<and> revision_numbers d m = {1..mrLatestRevision m}"
    "unique_on (\<lambda>r. Some (rvMonitorID r, rvNumber r)) (dbRevisions d)"
    "\<And>r. r \<in> set (dbRevisions d) \<Longrightarrow> \<exists>m \<in> set (dbMonitors d). revision_of (mrOrganizationID m) (mrID m) r"
    using inv by (auto simp: monitors_inv_def)
  have "monitors_inv d'"
    unfolding monitors_inv_def
  proof (intro conjI ballI)
    show "unique_on (\<lambda>m. Some (mrID m)) (dbMonitors d')" using I(1) fresh m(1) by (simp add: d' unique_on_append)
    show "\<exists>m \<in> set (dbMonitors d'). revision_of (mrOrganizationID m) (mrID m) r" if "r \<in> set (dbRevisions d')" for r
      using I(4) [of r] that by (auto simp: d')
    show "unique_on (\<lambda>r. Some (rvMonitorID r, rvNumber r)) (dbRevisions d')" using I(3) by (simp add: d')
    fix n assume n: "n \<in> set (dbMonitors d')"
    then have "n \<in> set (dbMonitors d) \<or> n = ?m" by (auto simp: d')
    then show "mrXmin n < dbXid d'" "restores n" "mrLatestRevision n < 2 ^ 63" "revision_numbers d' n = {1..mrLatestRevision n}"
      using I(2) [of n] m none nums xid by auto
  qed
  then show ?thesis using m(2) by (auto simp: d')
qed (use inv in auto)

lemma revision_numbers_row:
  "dbRevisions d' = dbRevisions d \<Longrightarrow> mrID m' = mrID m \<Longrightarrow> mrOrganizationID m' = mrOrganizationID m \<Longrightarrow>
     revision_numbers d' m' = revision_numbers d m"
  by (simp add: revision_numbers_def)

lemma update_monitor_inv:
  assumes inv: "monitors_inv d" and ok: "pending_ok d (PendingUpdate v n)" and u: "update_monitor d v n = (ru, d')"
  shows "monitors_inv d' \<and> (\<forall>m \<in> set (dbMonitors d'). m \<in> set (dbMonitors d) \<or> dbXid d \<le> mrXmin m)
    \<and> dbXid d \<le> dbXid d' \<and> (\<forall>m \<in> set (dbMonitors d). mrState m = ''archived'' \<longrightarrow> m \<in> set (dbMonitors d'))
    \<and> dbRevisions d' = dbRevisions d"
proof (cases "d' = d")
  case False
  let ?f = "updated_row v (dbXid d)"
  have d': "d' = d\<lparr>dbMonitors := sql_update (monitor_hits v n) ?f (dbMonitors d), dbXid := dbXid d + 1\<rparr>"
    using u False by (auto simp: update_monitor_def split: if_splits)
  have I: "unique_on (\<lambda>m. Some (mrID m)) (dbMonitors d)"
    "\<And>m. m \<in> set (dbMonitors d) \<Longrightarrow> mrXmin m < dbXid d \<and> restores m \<and> mrLatestRevision m < 2 ^ 63
          \<and> revision_numbers d m = {1..mrLatestRevision m}"
    "unique_on (\<lambda>r. Some (rvMonitorID r, rvNumber r)) (dbRevisions d)"
    "\<And>r. r \<in> set (dbRevisions d) \<Longrightarrow> \<exists>m \<in> set (dbMonitors d). revision_of (mrOrganizationID m) (mrID m) r"
    using inv by (auto simp: monitors_inv_def)
  have f: "mrID (?f m) = mrID m" "mrOrganizationID (?f m) = mrOrganizationID m" "mrXmin (?f m) = dbXid d"
    "mrLatestRevision (?f m) = mnLatestRevisionNumber v" for m by (simp_all add: updated_row_def)
  have hit: "mrState m \<noteq> ''archived''" "mnLatestRevisionNumber v = mrLatestRevision m" "restores (?f m)"
    if "m \<in> set (dbMonitors d)" "monitor_hits v n m" for m
    using ok that restores_version(1) by auto
  have "monitors_inv d'"
    unfolding monitors_inv_def
  proof (intro conjI ballI)
    show "unique_on (\<lambda>m. Some (mrID m)) (dbMonitors d')"
      using I(1) by (auto simp: d' f intro: unique_on_sql_update)
    show "unique_on (\<lambda>r. Some (rvMonitorID r, rvNumber r)) (dbRevisions d')" using I(3) by (simp add: d')
    show "\<exists>m \<in> set (dbMonitors d'). revision_of (mrOrganizationID m) (mrID m) r" if q: "r \<in> set (dbRevisions d')" for r
    proof -
      obtain m where m: "m \<in> set (dbMonitors d)" "revision_of (mrOrganizationID m) (mrID m) r"
        using I(4) [of r] q by (auto simp: d')
      then have "(if monitor_hits v n m then ?f m else m) \<in> set (dbMonitors d')" by (auto simp: d' in_sql_update)
      then show ?thesis using m(2) f by (metis (full_types))
    qed
    fix x assume "x \<in> set (dbMonitors d')"
    then obtain m where m: "m \<in> set (dbMonitors d)" "x = (if monitor_hits v n m then ?f m else m)" by (auto simp: d' in_sql_update)
    have "revision_numbers d' x = revision_numbers d m" using m(2) f by (intro revision_numbers_row) (auto simp: d')
    then show "mrXmin x < dbXid d'" "restores x" "mrLatestRevision x < 2 ^ 63" "revision_numbers d' x = {1..mrLatestRevision x}"
      using I(2) [OF m(1)] hit [OF m(1)] m(2) f by (auto simp: d')
  qed
  moreover have "m \<in> set (dbMonitors d')" if "m \<in> set (dbMonitors d)" "mrState m = ''archived''" for m
    using that hit(1) [of m] by (auto simp: d' in_sql_update)
  ultimately show ?thesis using f by (auto simp: d' in_sql_update)
qed (use inv in auto)

lemma append_revision_inv:
  assumes inv: "monitors_inv d" and ok: "pending_ok d (PendingRevision v r n)" and u: "append_revision d v r n = (ru, d')"
  shows "monitors_inv d' \<and> (\<forall>m \<in> set (dbMonitors d'). m \<in> set (dbMonitors d) \<or> dbXid d \<le> mrXmin m)
    \<and> dbXid d \<le> dbXid d' \<and> (\<forall>m \<in> set (dbMonitors d). mrState m = ''archived'' \<longrightarrow> m \<in> set (dbMonitors d')
        \<and> filter (revision_of (mrOrganizationID m) (mrID m)) (dbRevisions d')
            = filter (revision_of (mrOrganizationID m) (mrID m)) (dbRevisions d))"
proof (cases "d' = d")
  case False
  let ?f = "advanced_row v (dbXid d)" and ?r = "revision_to_row r"
  have tx: "append_revision_tx v r n d = Inr ((), d')"
    using u False by (auto simp: append_revision_def run_tx_def split: sum.splits)
  then have ex: "\<exists>m \<in> set (dbMonitors d). monitor_hits v n m"
    and fresh: "\<forall>x \<in> set (dbRevisions d). \<not> (rvMonitorID x = rnMonitorID r \<and> rvNumber x = rnNumber r)"
    and d': "d' = d\<lparr>dbMonitors := sql_update (monitor_hits v n) ?f (dbMonitors d), dbXid := dbXid d + 1,
       dbRevisions := dbRevisions d @ [?r]\<rparr>"
    by (auto simp: append_revision_tx_def insert_revision_def and_then_Inr split: if_splits)
  have I: "unique_on (\<lambda>m. Some (mrID m)) (dbMonitors d)"
    "\<And>m. m \<in> set (dbMonitors d) \<Longrightarrow> mrXmin m < dbXid d \<and> restores m \<and> mrLatestRevision m < 2 ^ 63
          \<and> revision_numbers d m = {1..mrLatestRevision m}"
    "unique_on (\<lambda>r. Some (rvMonitorID r, rvNumber r)) (dbRevisions d)"
    "\<And>r. r \<in> set (dbRevisions d) \<Longrightarrow> \<exists>m \<in> set (dbMonitors d). revision_of (mrOrganizationID m) (mrID m) r"
    using inv by (auto simp: monitors_inv_def)
  have f: "mrID (?f m) = mrID m" "mrOrganizationID (?f m) = mrOrganizationID m" "mrXmin (?f m) = dbXid d"
    "mrLatestRevision (?f m) = mnLatestRevisionNumber v" for m by (simp_all add: advanced_row_def)
  have R: "rvMonitorID ?r = mnID v" "rvOrganizationID ?r = mnOrganizationID v" "rvNumber ?r = mnLatestRevisionNumber v"
    "rnMonitorID r = mnID v" "rnNumber r = mnLatestRevisionNumber v"
    using ok by (auto simp: revision_to_row_def)
  have hit: "mrState m \<noteq> ''archived''" "mnLatestRevisionNumber v = mrLatestRevision m + 1" "mnLatestRevisionNumber v < 2 ^ 63"
    "restores (?f m)" if "m \<in> set (dbMonitors d)" "monitor_hits v n m" for m
    using ok that restores_version(2) by auto
  obtain m0 where m0: "m0 \<in> set (dbMonitors d)" "monitor_hits v n m0" using ex by blast
  have only: "m = m0" if "m \<in> set (dbMonitors d)" "mrID m = mnID v" for m
    using unique_onD [OF I(1) that(1) m0(1)] that(2) m0(2) by (simp add: monitor_hits_def)
  have row: "(if monitor_hits v n m then ?f m else m) \<in> set (dbMonitors d')" if "m \<in> set (dbMonitors d)" for m
    using that by (auto simp: d' in_sql_update)
  have nums: "revision_numbers d' x = {1..mrLatestRevision x}"
    if m: "m \<in> set (dbMonitors d)" "x = (if monitor_hits v n m then ?f m else m)" for m x
  proof -
    have same: "mrID x = mrID m" "mrOrganizationID x = mrOrganizationID m" using m(2) f by auto
    have split: "revision_numbers d' x = revision_numbers d m
        \<union> (if revision_of (mrOrganizationID m) (mrID m) ?r then {mnLatestRevisionNumber v} else {})"
    proof -
      let ?P = "revision_of (mrOrganizationID m) (mrID m)"
      have "{q \<in> set (dbRevisions d'). ?P q} = {q \<in> set (dbRevisions d). ?P q} \<union> (if ?P ?r then {?r} else {})"
        by (auto simp: d')
      then show ?thesis using R(3) by (simp add: revision_numbers_def same image_Un)
    qed
    show ?thesis
    proof (cases "m = m0")
      case True
      then have "revision_of (mrOrganizationID m) (mrID m) ?r" using m0(2) R by (auto simp: revision_of_def monitor_hits_def)
      moreover have "mrLatestRevision x = mrLatestRevision m + 1" using True m(2) m0(2) f hit(2) [OF m0] by simp
      moreover have "0 \<le> mrLatestRevision m" using I(2) [OF m(1)] by (auto simp: restores_iff)
      ultimately show ?thesis using split I(2) [OF m(1)] hit(2) [OF m0] True by auto
    next
      case False
      then have "mrID m \<noteq> mnID v" using only [OF m(1)] by blast
      then show ?thesis using split I(2) [OF m(1)] m(2) R by (auto simp: revision_of_def monitor_hits_def)
    qed
  qed
  have "monitors_inv d'"
    unfolding monitors_inv_def
  proof (intro conjI ballI)
    show "unique_on (\<lambda>m. Some (mrID m)) (dbMonitors d')"
      using I(1) by (auto simp: d' f intro: unique_on_sql_update)
    show "unique_on (\<lambda>r. Some (rvMonitorID r, rvNumber r)) (dbRevisions d')"
      using I(3) fresh R by (auto simp: d' unique_on_append)
    show "\<exists>m \<in> set (dbMonitors d'). revision_of (mrOrganizationID m) (mrID m) q" if "q \<in> set (dbRevisions d')" for q
    proof -
      have "q \<in> set (dbRevisions d) \<or> q = ?r" using that by (auto simp: d')
      moreover have "revision_of (mrOrganizationID m0) (mrID m0) ?r" using m0(2) R by (simp add: revision_of_def monitor_hits_def)
      ultimately obtain m where m: "m \<in> set (dbMonitors d)" "revision_of (mrOrganizationID m) (mrID m) q"
        using I(4) [of q] m0(1) by blast
      then show ?thesis using row [OF m(1)] f by (metis (full_types))
    qed
    fix x assume "x \<in> set (dbMonitors d')"
    then obtain m where m: "m \<in> set (dbMonitors d)" "x = (if monitor_hits v n m then ?f m else m)" by (auto simp: d' in_sql_update)
    then show "mrXmin x < dbXid d'" "restores x" "mrLatestRevision x < 2 ^ 63" "revision_numbers d' x = {1..mrLatestRevision x}"
      using I(2) [OF m(1)] hit [OF m(1)] f nums [OF m] by (auto simp: d')
  qed
  moreover have "m \<in> set (dbMonitors d') \<and> filter (revision_of (mrOrganizationID m) (mrID m)) (dbRevisions d')
      = filter (revision_of (mrOrganizationID m) (mrID m)) (dbRevisions d)"
    if "m \<in> set (dbMonitors d)" "mrState m = ''archived''" for m
  proof -
    have "m \<noteq> m0" using hit(1) [OF m0] that(2) by blast
    then have "mrID m \<noteq> mnID v" using only [OF that(1)] by blast
    then show ?thesis using row [OF that(1)] R by (auto simp: monitor_hits_def revision_of_def d')
  qed
  ultimately show ?thesis using f by (auto simp: d' in_sql_update)
qed (use inv in auto)

definition archived_kept :: "db \<Rightarrow> db \<Rightarrow> bool" where
  "archived_kept d d' \<longleftrightarrow> (\<forall>m \<in> set (dbMonitors d). mrState m = ''archived'' \<longrightarrow> m \<in> set (dbMonitors d')
     \<and> filter (revision_of (mrOrganizationID m) (mrID m)) (dbRevisions d')
         = filter (revision_of (mrOrganizationID m) (mrID m)) (dbRevisions d))"

lemma world_inv_write:
  assumes "monitor_world_inv s" and "monitors_inv d'" and "\<forall>m \<in> set (dbMonitors d'). m \<in> set (dbMonitors (mlDb s)) \<or> dbXid (mlDb s) \<le> mrXmin m"
    and "dbXid (mlDb s) \<le> dbXid d'"
  shows "monitor_world_inv (s\<lparr>mlDb := d'\<rparr>)"
  using assms pending_ok_frame [of "mlDb s" _ d'] by (simp add: monitor_world_inv_def)

lemma monitor_step_inv:
  assumes "monitor_step s s'" and inv: "monitor_world_inv s"
  shows "monitor_world_inv s' \<and> archived_kept (mlDb s) (mlDb s')"
proof -
  have d: "monitors_inv (mlDb s)" and p: "\<And>p. p \<in> set (mlPending s) \<Longrightarrow> pending_ok (mlDb s) p"
    using inv by (auto simp: monitor_world_inv_def)
  have read: "monitor_world_inv (held q s) \<and> archived_kept (mlDb s) (mlDb (held q s))" if "pending_ok (mlDb s) q" for q
    using inv that by (simp add: monitor_world_inv_def held_def archived_kept_def)
  show ?thesis using assms(1)
  proof cases
    case (created clock ce org name ct interval uuid rc d')
    then show ?thesis using create_monitor_inv [OF d created(3,2)] world_inv_write [OF inv] by (auto simp: archived_kept_def)
  next
    case (renaming clock sc v name v')
    then show ?thesis using read update_read [OF d renaming(3)] by blast
  next
    case (rescheduling clock sc v interval v')
    then show ?thesis using read update_read [OF d rescheduling(3)] by blast
  next
    case (moving clock sc v target v')
    then show ?thesis using read update_read [OF d moving(3)] by blast
  next
    case (revising clock sc v ce i schema configuration r v')
    then show ?thesis using read revision_read [OF d revising(3,4,5)] by blast
  next
    case (updated v n ru d')
    then show ?thesis using update_monitor_inv [OF d p [OF updated(2)] updated(3)] world_inv_write [OF inv]
      by (auto simp: archived_kept_def)
  next
    case (appended v r n ru d')
    then show ?thesis using append_revision_inv [OF d p [OF appended(2)] appended(3)] world_inv_write [OF inv]
      by (auto simp: archived_kept_def)
  next
    case (elsewhere d')
    then show ?thesis using monitors_inv_same [OF elsewhere(2-4) d] world_inv_write [OF inv, of d']
      by (auto simp: archived_kept_def)
  qed
qed

lemma archived_kept_trans:
  assumes "archived_kept d d1" and "archived_kept d1 d2"
  shows "archived_kept d d2"
  using assms unfolding archived_kept_def by (metis (no_types, lifting))

lemma monitor_steps_inv:
  "monitor_step\<^sup>*\<^sup>* s s' \<Longrightarrow> monitor_world_inv s \<Longrightarrow> monitor_world_inv s' \<and> archived_kept (mlDb s) (mlDb s')"
proof (induction rule: rtranclp_induct)
  case base
  then show ?case by (simp add: archived_kept_def)
next
  case (step s1 s2)
  then show ?case using monitor_step_inv [OF step.hyps(2)] archived_kept_trans by blast
qed

section \<open>Properties\<close>

definition no_monitors :: "monitor_world \<Rightarrow> bool" where
  "no_monitors s \<longleftrightarrow> dbMonitors (mlDb s) = [] \<and> dbRevisions (mlDb s) = [] \<and> mlPending s = []"

lemma no_monitors_inv: "no_monitors s \<Longrightarrow> monitor_world_inv s"
  by (simp add: no_monitors_def monitor_world_inv_def monitors_inv_def)

lemma revision_list:
  assumes "monitors_inv d" and "m \<in> set (dbMonitors d)"
  shows "map rvNumber (sort_key rvNumber (filter (revision_of (mrOrganizationID m) (mrID m)) (dbRevisions d)))
    = [1..mrLatestRevision m]"
proof (rule sorted_distinct_set_unique)
  let ?rs = "filter (revision_of (mrOrganizationID m) (mrID m)) (dbRevisions d)"
  have "distinct (map rvNumber (filter (revision_of org mon) rs))"
    if "unique_on (\<lambda>r. Some (rvMonitorID r, rvNumber r)) rs" for org mon rs
    using that by (induction rs) (auto simp: revision_of_def)
  then have "distinct (map rvNumber ?rs)" using assms(1) by (simp add: monitors_inv_def)
  then show "distinct (map rvNumber (sort_key rvNumber ?rs))"
    by (metis distinct_map distinct_sort set_sort)
  show "set (map rvNumber (sort_key rvNumber ?rs)) = set [1..mrLatestRevision m]"
    using assms by (auto simp: monitors_inv_def revision_numbers_def)
qed simp_all

text \<open>C19. However requests interleave, the revisions of a Monitor are numbered 1, 2, 3 and so on up to
  the number the Monitor counts, each once.\<close>
theorem revisions_are_gapless:
  assumes "monitor_step\<^sup>*\<^sup>* s0 s" and "no_monitors s0" and "m \<in> set (dbMonitors (mlDb s))"
  shows "map rvNumber (sort_key rvNumber (filter (revision_of (mrOrganizationID m) (mrID m)) (dbRevisions (mlDb s))))
    = [1..mrLatestRevision m]"
  using monitor_steps_inv [OF assms(1) no_monitors_inv [OF assms(2)]] assms(3) revision_list
  by (simp add: monitor_world_inv_def)

text \<open>Every stored Monitor is well formed: it reads back as a Monitor with the values of its row,
  and if it is active or paused it has a revision to execute.\<close>
theorem stored_monitors_are_well_formed:
  assumes "monitor_step\<^sup>*\<^sup>* s0 s" and "no_monitors s0" and "m \<in> set (dbMonitors (mlDb s))"
  shows "\<exists>v. row_monitor m = Inr v \<and> monitor_to_row v (mrXmin m) = m\<lparr>mrCreatedAt := db_instant (mrCreatedAt m),
      mrUpdatedAt := db_instant (mrUpdatedAt m)\<rparr>
    \<and> (mnState v \<in> {MonitorActive, MonitorPaused} \<longrightarrow> 1 \<le> mnLatestRevisionNumber v)"
proof -
  have "restores m"
    using monitor_steps_inv [OF assms(1) no_monitors_inv [OF assms(2)]] assms(3)
    by (auto simp: monitor_world_inv_def monitors_inv_def)
  then obtain v where v: "row_monitor m = Inr v" by (auto simp: restores_def is_ok_iff)
  then show ?thesis
    by (intro exI [of _ v]) (auto simp: row_monitor_Inr restore_monitor_Inr monitor_state_of_Some monitor_to_row_def)
qed

text \<open>C20. Archiving is final: the row of an archived Monitor and its revisions never change again, whatever
  was read before it was archived.\<close>
theorem archived_monitor_is_final:
  assumes "monitor_step\<^sup>*\<^sup>* s0 s" and "no_monitors s0" and "m \<in> set (dbMonitors (mlDb s))" and "mrState m = ''archived''"
    and "monitor_step\<^sup>*\<^sup>* s s'"
  shows "m \<in> set (dbMonitors (mlDb s'))
    \<and> filter (revision_of (mrOrganizationID m) (mrID m)) (dbRevisions (mlDb s'))
        = filter (revision_of (mrOrganizationID m) (mrID m)) (dbRevisions (mlDb s))"
  using monitor_steps_inv [OF assms(1) no_monitors_inv [OF assms(2)]] monitor_steps_inv [OF assms(5)] assms(3,4)
  by (simp add: archived_kept_def)

section \<open>Witnesses\<close>

definition any_check :: check_env where
  "any_check = \<lparr>ceSupported = (\<lambda>t. t = ''http''), ceValidate = (\<lambda>t n c. (c, [])), ceJsonValid = (\<lambda>c. c \<noteq> '''')\<rparr>"

definition mon_scope :: scope where "mon_scope = \<lparr>scopeOrganizationID = ''org'', scopeMonitorID = ''m''\<rparr>"

definition mon_db0 :: db where "mon_db0 = sample_db\<lparr>dbMonitors := []\<rparr>"

definition mon_value :: "monitor_state \<Rightarrow> int \<Rightarrow> nat \<Rightarrow> monitor" where
  "mon_value st latest n = \<lparr>mnID = ''m'', mnOrganizationID = ''org'', mnName = ''Home'', mnCheckType = ''http'', mnState = st,
     mnIntervalSeconds = 60, mnLatestRevisionNumber = latest, mnCreatedAt = sample_time, mnUpdatedAt = sample_time, mnVersion = n\<rparr>"

definition mon_revision :: revision where
  "mon_revision = \<lparr>rnID = ''r1'', rnMonitorID = ''m'', rnOrganizationID = ''org'', rnNumber = 1, rnCheckType = ''http'',
     rnCheckSchemaVersion = 1, rnConfiguration = ''{}'', rnCreatedAt = sample_time\<rparr>"

definition mon_db :: "monitor_state \<Rightarrow> int \<Rightarrow> nat \<Rightarrow> db" where
  "mon_db st latest n = sample_db\<lparr>dbMonitors := [monitor_to_row (mon_value st latest n) n],
     dbRevisions := (if latest = 0 then [] else [revision_to_row mon_revision]), dbXid := n + 1\<rparr>"

text \<open>Created, given a revision, then archived while another request wants to activate it.\<close>

lemma mon_created: "monitor_create any_check ''org'' '' Home '' ''http'' 60 sample_time (Inr ''m'') mon_db0
    = (Inr (MonitorCreated (mon_value MonitorDraft 0 0)), mon_db MonitorDraft 0 1)"
  by code_simp

lemma mon_reads:
  "find_monitor (mon_db MonitorDraft 0 1) mon_scope = Inr (Some (mon_value MonitorDraft 0 1))"
  "find_monitor (mon_db MonitorDraft 1 2) mon_scope = Inr (Some (mon_value MonitorDraft 1 2))"
  by code_simp+

lemma mon_revised:
  "new_revision any_check ''r1'' ''m'' ''org'' (wrap64 (0 + 1)) ''http'' 1 ''{}'' (to_utc sample_time) = Inr mon_revision"
  "record_revision (mon_value MonitorDraft 0 1) (rnNumber mon_revision) (to_utc sample_time) = Inr (mon_value MonitorDraft 1 1)"
  "append_revision (mon_db MonitorDraft 0 1) (mon_value MonitorDraft 1 1) mon_revision 1 = (Inr (), mon_db MonitorDraft 1 2)"
  by code_simp+

lemma mon_moved:
  "transition_to (mon_value MonitorDraft 1 2) MonitorActive (to_utc sample_time) = Inr (mon_value MonitorActive 1 2)"
  "transition_to (mon_value MonitorDraft 1 2) MonitorArchived (to_utc sample_time) = Inr (mon_value MonitorArchived 1 2)"
  "update_monitor (mon_db MonitorDraft 1 2) (mon_value MonitorArchived 1 2) 2 = (Inr (), mon_db MonitorArchived 1 3)"
  "update_monitor (mon_db MonitorArchived 1 3) (mon_value MonitorActive 1 2) 2
     = (Inl (ErrIs MonitorConcurrentUpdate), mon_db MonitorArchived 1 3)"
  by code_simp+

definition mon_world :: "db \<Rightarrow> pending_write list \<Rightarrow> monitor_world" where
  "mon_world d ps = \<lparr>mlDb = d, mlPending = ps\<rparr>"

definition mon_pending :: "pending_write list" where
  "mon_pending = [PendingUpdate (mon_value MonitorArchived 1 2) 2, PendingUpdate (mon_value MonitorActive 1 2) 2,
     PendingRevision (mon_value MonitorDraft 1 1) mon_revision 1]"

lemma sample_not_zero: "\<not> is_zero (db_instant sample_time)"
  by code_simp

lemma mon_version: "mnVersion (mon_value st latest n) = n"
  by (simp add: mon_value_def)

lemma mon_steps:
  "monitor_step\<^sup>*\<^sup>* (mon_world mon_db0 []) (mon_world (mon_db MonitorDraft 1 2) mon_pending)"
  "monitor_step\<^sup>*\<^sup>* (mon_world mon_db0 []) (mon_world (mon_db MonitorArchived 1 3) mon_pending)"
  "monitor_step (mon_world (mon_db MonitorArchived 1 3) mon_pending) (mon_world (mon_db MonitorArchived 1 3) mon_pending)"
proof -
  let ?p1 = "[PendingRevision (mon_value MonitorDraft 1 1) mon_revision 1]"
  let ?p2 = "PendingUpdate (mon_value MonitorActive 1 2) 2 # ?p1"
  have s1: "monitor_step (mon_world mon_db0 []) (mon_world (mon_db MonitorDraft 0 1) [])"
    using monitor_step.created [OF sample_not_zero, of any_check "''org''" "'' Home ''" "''http''" 60 "Inr ''m''" "mon_world mon_db0 []"]
      mon_created by (simp add: mon_world_def)
  have s2: "monitor_step (mon_world (mon_db MonitorDraft 0 1) []) (mon_world (mon_db MonitorDraft 0 1) ?p1)"
    using monitor_step.revising [OF sample_not_zero, of "mon_world (mon_db MonitorDraft 0 1) []" mon_scope "mon_value MonitorDraft 0 1"
        any_check "''r1''" 1 "''{}''" mon_revision "mon_value MonitorDraft 1 1"] mon_reads(1) mon_revised(1,2)
    by (simp add: mon_world_def held_def mon_value_def)
  have s3: "monitor_step (mon_world (mon_db MonitorDraft 0 1) ?p1) (mon_world (mon_db MonitorDraft 1 2) ?p1)"
    using monitor_step.appended [of "mon_value MonitorDraft 1 1" mon_revision 1 "mon_world (mon_db MonitorDraft 0 1) ?p1"] mon_revised(3)
    by (simp add: mon_world_def)
  have s4: "monitor_step (mon_world (mon_db MonitorDraft 1 2) ?p1) (mon_world (mon_db MonitorDraft 1 2) ?p2)"
    using monitor_step.moving [OF sample_not_zero, of "mon_world (mon_db MonitorDraft 1 2) ?p1" mon_scope "mon_value MonitorDraft 1 2" MonitorActive "mon_value MonitorActive 1 2"]
      mon_reads(2) mon_moved(1) by (simp add: mon_world_def held_def mon_version)
  have s5: "monitor_step (mon_world (mon_db MonitorDraft 1 2) ?p2) (mon_world (mon_db MonitorDraft 1 2) mon_pending)"
    using monitor_step.moving [OF sample_not_zero, of "mon_world (mon_db MonitorDraft 1 2) ?p2" mon_scope "mon_value MonitorDraft 1 2" MonitorArchived "mon_value MonitorArchived 1 2"]
      mon_reads(2) mon_moved(2) by (simp add: mon_world_def held_def mon_pending_def mon_version)
  have s6: "monitor_step (mon_world (mon_db MonitorDraft 1 2) mon_pending) (mon_world (mon_db MonitorArchived 1 3) mon_pending)"
    using monitor_step.updated [of "mon_value MonitorArchived 1 2" 2 "mon_world (mon_db MonitorDraft 1 2) mon_pending"] mon_moved(3)
    by (simp add: mon_world_def mon_pending_def)
  show a: "monitor_step\<^sup>*\<^sup>* (mon_world mon_db0 []) (mon_world (mon_db MonitorDraft 1 2) mon_pending)"
    using s1 s2 s3 s4 s5 by (meson rtranclp.rtrancl_into_rtrancl rtranclp.rtrancl_refl)
  show "monitor_step\<^sup>*\<^sup>* (mon_world mon_db0 []) (mon_world (mon_db MonitorArchived 1 3) mon_pending)"
    using a s6 by (rule rtranclp.rtrancl_into_rtrancl)
  show "monitor_step (mon_world (mon_db MonitorArchived 1 3) mon_pending) (mon_world (mon_db MonitorArchived 1 3) mon_pending)"
    using monitor_step.updated [of "mon_value MonitorActive 1 2" 2 "mon_world (mon_db MonitorArchived 1 3) mon_pending"] mon_moved(4)
    by (simp add: mon_world_def mon_pending_def)
qed

lemma mon_start: "no_monitors (mon_world mon_db0 [])"
  by (simp add: no_monitors_def mon_world_def mon_db0_def sample_db_def)

definition mon_row :: monitor_row where "mon_row = monitor_to_row (mon_value MonitorArchived 1 3) 3"

lemma mon_row_in: "mon_row \<in> set (dbMonitors (mlDb (mon_world (mon_db MonitorArchived 1 3) ps)))"
  by (simp add: mon_world_def mon_db_def mon_row_def)

theorem revisions_are_gapless_witness:
  "map rvNumber (sort_key rvNumber (filter (revision_of ''org'' ''m'') (dbRevisions (mon_db MonitorArchived 1 3)))) = [1]"
  using revisions_are_gapless [OF mon_steps(2) mon_start mon_row_in]
  by (simp add: mon_row_def monitor_to_row_def mon_value_def mon_world_def)

lemma archived_text: "monitor_state_text s = ''archived'' \<longleftrightarrow> s = MonitorArchived"
  by (cases s) auto

theorem stored_monitors_are_well_formed_witness:
  "\<exists>v. row_monitor mon_row = Inr v \<and> mnState v = MonitorArchived"
  using stored_monitors_are_well_formed [OF mon_steps(2) mon_start mon_row_in]
  by (auto simp: mon_row_def monitor_to_row_def mon_value_def archived_text)

lemma mon_stays:
  "monitor_step\<^sup>*\<^sup>* (mon_world (mon_db MonitorArchived 1 3) mon_pending) (mon_world (mon_db MonitorArchived 1 3) mon_pending)"
  by (rule r_into_rtranclp) (rule mon_steps(3))

theorem archived_monitor_is_final_witness:
  "mon_row \<in> set (dbMonitors (mon_db MonitorArchived 1 3))"
proof -
  have "mrState mon_row = ''archived''"
    by (simp add: mon_row_def monitor_to_row_def mon_value_def)
  from archived_monitor_is_final [OF mon_steps(2) mon_start mon_row_in this mon_stays]
  show ?thesis by (simp add: mon_world_def)
qed

end
