(* ===== verification/Address.thy ===== *)
theory Address
  imports Prelude "HOL-Library.Multiset"
begin

unbundle bit_operations_syntax

text \<open>
  The classification of addresses in \<open>internal/outbound/address.go\<close>. A \<open>netip.Addr\<close> is an IPv4
  or an IPv6 address or the invalid zero value, a \<open>netip.Prefix\<close> an address with a number of
  leading bits, \<open>-1\<close> when it is invalid.
\<close>

section \<open>\<open>net/netip\<close>\<close>

datatype ip_addr = NoAddr | IPv4 "32 word" | IPv6 "128 word" string

definition ip4 :: "int \<Rightarrow> int \<Rightarrow> int \<Rightarrow> int \<Rightarrow> ip_addr" where
  "ip4 a b c d = IPv4 (word_of_int (((a * 256 + b) * 256 + c) * 256 + d))"

text \<open>An IPv6 address from its eight groups.\<close>

definition ip6 :: "int list \<Rightarrow> ip_addr" where
  "ip6 gs = IPv6 (word_of_int (foldl (\<lambda>n g. n * 65536 + g) 0 gs)) ''''"

fun zone_of :: "ip_addr \<Rightarrow> string" where
  "zone_of (IPv6 x z) = z"
| "zone_of (IPv4 x) = ''''"
| "zone_of NoAddr = ''''"

fun with_zone :: "ip_addr \<Rightarrow> string \<Rightarrow> ip_addr" where
  "with_zone (IPv6 x z) z' = IPv6 x z'"
| "with_zone (IPv4 x) z' = IPv4 x"
| "with_zone NoAddr z' = NoAddr"

fun bit_len :: "ip_addr \<Rightarrow> int" where
  "bit_len (IPv6 x z) = 128"
| "bit_len (IPv4 x) = 32"
| "bit_len NoAddr = 0"

fun is_ip4 :: "ip_addr \<Rightarrow> bool" where
  "is_ip4 (IPv4 x) = True"
| "is_ip4 (IPv6 x z) = False"
| "is_ip4 NoAddr = False"

fun is_ip6 :: "ip_addr \<Rightarrow> bool" where
  "is_ip6 (IPv6 x z) = True"
| "is_ip6 (IPv4 x) = False"
| "is_ip6 NoAddr = False"

fun is_4in6 :: "ip_addr \<Rightarrow> bool" where
  "is_4in6 (IPv6 x z) = (drop_bit 32 x = 0xFFFF)"
| "is_4in6 (IPv4 x) = False"
| "is_4in6 NoAddr = False"

fun unmap :: "ip_addr \<Rightarrow> ip_addr" where
  "unmap (IPv6 x z) = (if is_4in6 (IPv6 x z) then IPv4 (ucast x) else IPv6 x z)"
| "unmap (IPv4 x) = IPv4 x"
| "unmap NoAddr = NoAddr"

record prefix =
  pfAddr :: ip_addr
  pfBits :: int

definition prefix_from :: "ip_addr \<Rightarrow> int \<Rightarrow> prefix" where
  "prefix_from a b = \<lparr>pfAddr = with_zone a '''', pfBits = (if a \<noteq> NoAddr \<and> 0 \<le> b \<and> b \<le> bit_len a then b else -1)\<rparr>"

definition prefix_valid :: "prefix \<Rightarrow> bool" where
  "prefix_valid p \<longleftrightarrow> 0 \<le> pfBits p"

definition prefix_contains :: "prefix \<Rightarrow> ip_addr \<Rightarrow> bool" where
  "prefix_contains p a \<longleftrightarrow> prefix_valid p \<and> zone_of a = ''''
     \<and> (case pfAddr p of
          IPv4 x \<Rightarrow> (case a of IPv4 y \<Rightarrow> drop_bit (nat (32 - pfBits p)) (y XOR x) = 0 | IPv6 y z \<Rightarrow> False | NoAddr \<Rightarrow> False)
        | IPv6 x z \<Rightarrow> (case a of IPv6 y z' \<Rightarrow> drop_bit (nat (128 - pfBits p)) (y XOR x) = 0 | IPv4 y \<Rightarrow> False | NoAddr \<Rightarrow> False)
        | NoAddr \<Rightarrow> False)"

text \<open>The address with its bits after the prefix cleared.\<close>

fun clear_bits :: "int \<Rightarrow> ip_addr \<Rightarrow> ip_addr" where
  "clear_bits b (IPv4 x) = IPv4 (push_bit (nat (32 - b)) (drop_bit (nat (32 - b)) x))"
| "clear_bits b (IPv6 x z) = IPv6 (push_bit (nat (128 - b)) (drop_bit (nat (128 - b)) x)) ''''"
| "clear_bits b NoAddr = NoAddr"

definition masked :: "prefix \<Rightarrow> prefix" where
  "masked p = (if prefix_valid p then prefix_from (clear_bits (pfBits p) (pfAddr p)) (pfBits p)
     else \<lparr>pfAddr = NoAddr, pfBits = -1\<rparr>)"

text \<open>What \<open>netip\<close> guarantees of every \<open>Prefix\<close>.\<close>

definition prefix_wf :: "prefix \<Rightarrow> bool" where
  "prefix_wf p \<longleftrightarrow> zone_of (pfAddr p) = '''' \<and> (prefix_valid p \<longrightarrow> pfAddr p \<noteq> NoAddr \<and> pfBits p \<le> bit_len (pfAddr p))"

section \<open>Classes\<close>

datatype addr_class =
    ClassPublic | ClassUnspecified | ClassLoopback | ClassPrivate | ClassLinkLocal | ClassUniqueLocal
  | ClassSharedAddressSpace | ClassProtocolAssignment | ClassDocumentation | ClassBenchmark
  | ClassMulticast | ClassReserved | ClassDiscard | ClassTransition | ClassMetadata | ClassZoned

fun class_text :: "addr_class \<Rightarrow> string" where
  "class_text ClassPublic = ''''"
| "class_text ClassUnspecified = ''unspecified''"
| "class_text ClassLoopback = ''loopback''"
| "class_text ClassPrivate = ''private''"
| "class_text ClassLinkLocal = ''linkLocal''"
| "class_text ClassUniqueLocal = ''uniqueLocal''"
| "class_text ClassSharedAddressSpace = ''sharedAddressSpace''"
| "class_text ClassProtocolAssignment = ''protocolAssignment''"
| "class_text ClassDocumentation = ''documentation''"
| "class_text ClassBenchmark = ''benchmark''"
| "class_text ClassMulticast = ''multicast''"
| "class_text ClassReserved = ''reserved''"
| "class_text ClassDiscard = ''discard''"
| "class_text ClassTransition = ''transition''"
| "class_text ClassMetadata = ''metadata''"
| "class_text ClassZoned = ''zoned''"

definition metadataAddresses :: "ip_addr list" where
  "metadataAddresses =
     [ip4 169 254 169 254,
      ip4 169 254 169 253,
      ip4 169 254 169 123,
      ip4 169 254 170 2,
      ip4 168 63 129 16,
      ip4 100 100 100 200,
      ip4 192 0 0 192,
      ip6 [0xfd00, 0xec2, 0, 0, 0, 0, 0, 0x254],
      ip6 [0xfd00, 0xec2, 0, 0, 0, 0, 0, 0x253],
      ip6 [0xfd00, 0xec2, 0, 0, 0, 0, 0, 0x123]]"

definition specialPurposePrefixes :: "(prefix \<times> addr_class) list" where
  "specialPurposePrefixes =
     [(prefix_from (ip4 0 0 0 0) 8, ClassUnspecified),
      (prefix_from (ip4 10 0 0 0) 8, ClassPrivate),
      (prefix_from (ip4 100 64 0 0) 10, ClassSharedAddressSpace),
      (prefix_from (ip4 127 0 0 0) 8, ClassLoopback),
      (prefix_from (ip4 169 254 0 0) 16, ClassLinkLocal),
      (prefix_from (ip4 172 16 0 0) 12, ClassPrivate),
      (prefix_from (ip4 192 0 0 0) 24, ClassProtocolAssignment),
      (prefix_from (ip4 192 0 2 0) 24, ClassDocumentation),
      (prefix_from (ip4 192 31 196 0) 24, ClassProtocolAssignment),
      (prefix_from (ip4 192 52 193 0) 24, ClassProtocolAssignment),
      (prefix_from (ip4 192 88 99 0) 24, ClassTransition),
      (prefix_from (ip4 192 168 0 0) 16, ClassPrivate),
      (prefix_from (ip4 192 175 48 0) 24, ClassProtocolAssignment),
      (prefix_from (ip4 198 18 0 0) 15, ClassBenchmark),
      (prefix_from (ip4 198 51 100 0) 24, ClassDocumentation),
      (prefix_from (ip4 203 0 113 0) 24, ClassDocumentation),
      (prefix_from (ip4 224 0 0 0) 4, ClassMulticast),
      (prefix_from (ip4 240 0 0 0) 4, ClassReserved),
      (prefix_from (ip6 [0, 0, 0, 0, 0, 0, 0, 0]) 128, ClassUnspecified),
      (prefix_from (ip6 [0, 0, 0, 0, 0, 0, 0, 1]) 128, ClassLoopback),
      (prefix_from (ip6 [0x64, 0xff9b, 0, 0, 0, 0, 0, 0]) 96, ClassTransition),
      (prefix_from (ip6 [0x64, 0xff9b, 1, 0, 0, 0, 0, 0]) 48, ClassTransition),
      (prefix_from (ip6 [0x100, 0, 0, 0, 0, 0, 0, 0]) 64, ClassDiscard),
      (prefix_from (ip6 [0x2001, 0, 0, 0, 0, 0, 0, 0]) 32, ClassTransition),
      (prefix_from (ip6 [0x2001, 1, 0, 0, 0, 0, 0, 1]) 128, ClassProtocolAssignment),
      (prefix_from (ip6 [0x2001, 1, 0, 0, 0, 0, 0, 2]) 128, ClassProtocolAssignment),
      (prefix_from (ip6 [0x2001, 2, 0, 0, 0, 0, 0, 0]) 48, ClassBenchmark),
      (prefix_from (ip6 [0x2001, 3, 0, 0, 0, 0, 0, 0]) 32, ClassProtocolAssignment),
      (prefix_from (ip6 [0x2001, 4, 0x112, 0, 0, 0, 0, 0]) 48, ClassProtocolAssignment),
      (prefix_from (ip6 [0x2001, 0x10, 0, 0, 0, 0, 0, 0]) 28, ClassReserved),
      (prefix_from (ip6 [0x2001, 0x20, 0, 0, 0, 0, 0, 0]) 28, ClassProtocolAssignment),
      (prefix_from (ip6 [0x2001, 0x30, 0, 0, 0, 0, 0, 0]) 28, ClassProtocolAssignment),
      (prefix_from (ip6 [0x2001, 0xdb8, 0, 0, 0, 0, 0, 0]) 32, ClassDocumentation),
      (prefix_from (ip6 [0x2002, 0, 0, 0, 0, 0, 0, 0]) 16, ClassTransition),
      (prefix_from (ip6 [0x2620, 0x4f, 0x8000, 0, 0, 0, 0, 0]) 48, ClassProtocolAssignment),
      (prefix_from (ip6 [0x3fff, 0, 0, 0, 0, 0, 0, 0]) 20, ClassDocumentation),
      (prefix_from (ip6 [0x5f00, 0, 0, 0, 0, 0, 0, 0]) 16, ClassProtocolAssignment),
      (prefix_from (ip6 [0xfc00, 0, 0, 0, 0, 0, 0, 0]) 7, ClassUniqueLocal),
      (prefix_from (ip6 [0xfe80, 0, 0, 0, 0, 0, 0, 0]) 10, ClassLinkLocal),
      (prefix_from (ip6 [0xff00, 0, 0, 0, 0, 0, 0, 0]) 8, ClassMulticast)]"

definition overridableClasses :: "addr_class list" where
  "overridableClasses =
     [ClassLoopback,
      ClassPrivate,
      ClassLinkLocal,
      ClassUniqueLocal,
      ClassSharedAddressSpace,
      ClassProtocolAssignment,
      ClassDocumentation,
      ClassBenchmark]"

text \<open>One turn of the loop of \<open>classify\<close>, and the loop over a table.\<close>

definition classify_step :: "ip_addr \<Rightarrow> addr_class \<times> int \<Rightarrow> prefix \<times> addr_class \<Rightarrow> addr_class \<times> int" where
  "classify_step a acc e =
     (if pfBits (fst e) > snd acc \<and> prefix_contains (fst e) a then (snd e, pfBits (fst e)) else acc)"

definition classify_in :: "(prefix \<times> addr_class) list \<Rightarrow> ip_addr \<Rightarrow> addr_class" where
  "classify_in ps a = fst (foldl (classify_step a) (ClassPublic, -1) ps)"

definition classify_addr :: "ip_addr \<Rightarrow> addr_class" where
  "classify_addr a = (if a \<in> set metadataAddresses then ClassMetadata else classify_in specialPurposePrefixes a)"

definition Classify :: "ip_addr \<Rightarrow> addr_class" where
  "Classify a =
     (if a = NoAddr then ClassUnspecified
      else if zone_of a \<noteq> '''' then ClassZoned
      else classify_addr (unmap a))"

section \<open>Prefixes as intervals\<close>

lemma xor_eq_0: "(x :: 'a::len word) XOR y = 0 \<longleftrightarrow> x = y"
  by (auto simp: bit_eq_iff bit_simps)

lemma drop_bit_agree: "drop_bit k ((y :: 'a::len word) XOR x) = 0 \<longleftrightarrow> uint y div 2 ^ k = uint x div 2 ^ k"
proof -
  have "drop_bit k (y XOR x) = 0 \<longleftrightarrow> drop_bit k y = drop_bit k x"
    by (simp add: drop_bit_xor xor_eq_0)
  also have "\<dots> \<longleftrightarrow> uint (drop_bit k y) = uint (drop_bit k x)"
    by (rule word_uint_eq_iff)
  moreover have "uint (drop_bit k z) = uint z div 2 ^ k" for z :: "'a word"
    by (simp add: unsigned_drop_bit_eq bintr_uint flip: drop_bit_eq_div)
  ultimately show ?thesis by simp
qed

lemma contains_4 [simp]:
  "prefix_contains p (IPv4 y) \<longleftrightarrow> prefix_valid p
     \<and> (\<exists>x. pfAddr p = IPv4 x \<and> uint y div 2 ^ nat (32 - pfBits p) = uint x div 2 ^ nat (32 - pfBits p))"
  unfolding prefix_contains_def drop_bit_agree by (auto split: ip_addr.splits)

lemma contains_6 [simp]:
  "prefix_contains p (IPv6 y z) \<longleftrightarrow> prefix_valid p \<and> z = ''''
     \<and> (\<exists>x z'. pfAddr p = IPv6 x z' \<and> uint y div 2 ^ nat (128 - pfBits p) = uint x div 2 ^ nat (128 - pfBits p))"
  unfolding prefix_contains_def drop_bit_agree by (auto split: ip_addr.splits)

lemma contains_NoAddr [simp]: "\<not> prefix_contains p NoAddr"
  by (simp add: prefix_contains_def split: ip_addr.splits)

lemma contains_valid: "prefix_contains p a \<Longrightarrow> prefix_valid p"
  by (simp add: prefix_contains_def)

text \<open>Two prefixes of one length that contain an address contain each other.\<close>

lemma contains_same_length:
  assumes "prefix_contains p a" and "prefix_contains q a" and "pfBits p = pfBits q" and "prefix_wf q"
  shows "prefix_contains p (pfAddr q)"
  using assms by (cases a) (auto simp: prefix_wf_def)

lemma div_interval:
  assumes "0 < (m :: int)" and "m dvd x"
  shows "y div m = x div m \<longleftrightarrow> x \<le> y \<and> y < x + m"
proof -
  obtain k where k: "x = m * k" using assms(2) by (auto simp: dvd_def)
  have x: "x div m = k" using assms(1) by (simp add: k)
  show ?thesis
  proof
    assume "y div m = x div m"
    then have "y div m = k" by (simp add: x)
    then show "x \<le> y \<and> y < x + m"
      using div_window [OF assms(1), of y] by (simp add: k mult.commute)
  next
    assume "x \<le> y \<and> y < x + m"
    then have y: "0 \<le> y - m * k" "y - m * k < m" by (simp_all add: k)
    have "y div m = (y - m * k + m * k) div m" by simp
    also have "\<dots> = k" using y assms(1) by (simp only: div_mult_self2) simp
    finally show "y div m = x div m" by (simp add: x)
  qed
qed

text \<open>A prefix whose address has no bit behind it set is the interval that starts with its address.\<close>

lemma contains_4_interval:
  assumes "pfAddr p = IPv4 x" and "prefix_valid p" and "2 ^ nat (32 - pfBits p) dvd uint x"
  shows "prefix_contains p (IPv4 y) \<longleftrightarrow> uint x \<le> uint y \<and> uint y < uint x + 2 ^ nat (32 - pfBits p)"
  using assms(1,2) div_interval [OF _ assms(3), of "uint y"] by simp

lemma contains_6_interval:
  assumes "pfAddr p = IPv6 x z" and "prefix_valid p" and "2 ^ nat (128 - pfBits p) dvd uint x"
  shows "prefix_contains p (IPv6 y '''') \<longleftrightarrow> uint x \<le> uint y \<and> uint y < uint x + 2 ^ nat (128 - pfBits p)"
  using assms(1,2) div_interval [OF _ assms(3), of "uint y"] by simp

lemma cleared_agree:
  "uint (push_bit k (drop_bit k (x :: 'a::len word))) div 2 ^ k = uint x div 2 ^ k"
proof -
  have "drop_bit k (push_bit k (drop_bit k x) XOR x) = 0"
    by (rule bit_word_eqI) (auto simp: bit_simps dest: bit_imp_le_length)
  then show ?thesis by (rule drop_bit_agree [THEN iffD1])
qed

lemma bit_len_clear [simp]: "bit_len (clear_bits b a) = bit_len a" "clear_bits b a = NoAddr \<longleftrightarrow> a = NoAddr"
  "zone_of (clear_bits b a) = ''''" "with_zone (clear_bits b a) '''' = clear_bits b a"
  by (cases a; simp)+

text \<open>\<open>Masked\<close> does not change what a prefix contains.\<close>

lemma masked_contains [simp]:
  assumes "prefix_wf p"
  shows "prefix_contains (masked p) a \<longleftrightarrow> prefix_contains p a"
proof (cases "prefix_valid p")
  case True
  then have m: "masked p = \<lparr>pfAddr = clear_bits (pfBits p) (pfAddr p), pfBits = pfBits p\<rparr>"
    using assms by (simp add: masked_def prefix_from_def prefix_wf_def prefix_valid_def)
  show ?thesis using True
    by (cases a; cases "pfAddr p") (simp_all add: m cleared_agree prefix_valid_def)
qed (auto simp: masked_def prefix_contains_def prefix_valid_def split: ip_addr.splits)

section \<open>Classification\<close>

lemma classify_foldl:
  assumes "foldl (classify_step a) acc ps = (c, l)"
  shows "snd acc \<le> l \<and> (\<forall>e\<in>set ps. prefix_contains (fst e) a \<longrightarrow> pfBits (fst e) \<le> l)
    \<and> ((c, l) = acc \<or> (\<exists>e\<in>set ps. prefix_contains (fst e) a \<and> (c, l) = (snd e, pfBits (fst e))))"
  using assms
proof (induction ps arbitrary: acc)
  case (Cons e ps)
  from Cons.IH [of "classify_step a acc e"] Cons.prems
  show ?case by (auto simp: classify_step_def split: if_splits)
qed simp

text \<open>The entries of a table that contain an address and are as long as any.\<close>

definition longest_match :: "(prefix \<times> addr_class) list \<Rightarrow> ip_addr \<Rightarrow> prefix \<times> addr_class \<Rightarrow> bool" where
  "longest_match ps a e \<longleftrightarrow> e \<in> set ps \<and> prefix_contains (fst e) a
     \<and> (\<forall>e'\<in>set ps. prefix_contains (fst e') a \<longrightarrow> pfBits (fst e') \<le> pfBits (fst e))"

text \<open>No two entries of one length that overlap disagree.\<close>

definition unambiguous :: "(prefix \<times> addr_class) list \<Rightarrow> bool" where
  "unambiguous ps \<longleftrightarrow> (\<forall>e\<in>set ps. prefix_wf (fst e))
     \<and> (\<forall>e\<in>set ps. \<forall>e'\<in>set ps. pfBits (fst e) = pfBits (fst e') \<longrightarrow> prefix_contains (fst e) (pfAddr (fst e')) \<longrightarrow> snd e = snd e')"

lemma classify_in_longest:
  assumes "unambiguous ps" and "longest_match ps a e"
  shows "classify_in ps a = snd e"
proof -
  obtain c l where f: "foldl (classify_step a) (ClassPublic, -1) ps = (c, l)" by force
  have e: "e \<in> set ps" "prefix_contains (fst e) a" using assms(2) by (simp_all add: longest_match_def)
  from classify_foldl [OF f] e have l: "pfBits (fst e) \<le> l" by blast
  have "0 \<le> pfBits (fst e)" using contains_valid [OF e(2)] by (simp add: prefix_valid_def)
  with classify_foldl [OF f] l
  obtain e' where e': "e' \<in> set ps" "prefix_contains (fst e') a" "c = snd e'" "l = pfBits (fst e')" by auto
  have "pfBits (fst e) = pfBits (fst e')" using l e' assms(2) by (auto simp: longest_match_def intro: antisym)
  with contains_same_length [OF e(2) e'(2)] assms(1) e(1) e'(1) have "snd e = snd e'"
    by (simp add: unambiguous_def)
  then show ?thesis by (simp add: classify_in_def f e')
qed

lemma classify_in_nothing:
  assumes "\<forall>e\<in>set ps. \<not> prefix_contains (fst e) a"
  shows "classify_in ps a = ClassPublic"
  using classify_foldl [of a "(ClassPublic, -1)" ps] assms
  by (cases "foldl (classify_step a) (ClassPublic, -1) ps") (auto simp: classify_in_def)

lemma longest_match_exists:
  assumes "e \<in> set ps" and "prefix_contains (fst e) a"
  shows "\<exists>e'. longest_match ps a e'"
proof -
  let ?M = "{e \<in> set ps. prefix_contains (fst e) a}"
  have "finite ?M" "?M \<noteq> {}" using assms by (simp, blast)
  then have "Max ((\<lambda>e. pfBits (fst e)) ` ?M) \<in> (\<lambda>e. pfBits (fst e)) ` ?M"
    by (intro Max_in) simp_all
  then obtain m where "m \<in> ?M" "pfBits (fst m) = Max ((\<lambda>e. pfBits (fst e)) ` ?M)"
    by (elim imageE) simp
  moreover from this have "\<forall>x\<in>?M. pfBits (fst x) \<le> pfBits (fst m)"
    using \<open>finite ?M\<close> by simp
  ultimately have "longest_match ps a m" by (simp add: longest_match_def)
  then show ?thesis by (rule exI)
qed

text \<open>A prefix as \<open>MustParsePrefix\<close> gives it when no bit behind it is set; two such prefixes of one length
  that overlap are the same.\<close>

definition tidy :: "prefix \<Rightarrow> bool" where
  "tidy p \<longleftrightarrow> prefix_valid p
     \<and> (case pfAddr p of
          IPv4 x \<Rightarrow> pfBits p \<le> 32 \<and> uint x mod 2 ^ nat (32 - pfBits p) = 0
        | IPv6 x z \<Rightarrow> z = '''' \<and> pfBits p \<le> 128 \<and> uint x mod 2 ^ nat (128 - pfBits p) = 0
        | NoAddr \<Rightarrow> False)"

lemma same_quotient: "(x :: int) mod m = 0 \<Longrightarrow> y mod m = 0 \<Longrightarrow> x div m = y div m \<Longrightarrow> x = y"
  by (metis mod_0_imp_dvd dvd_div_mult_self)

lemma tidy_wf: "tidy p \<Longrightarrow> prefix_wf p"
  by (auto simp: tidy_def prefix_wf_def split: ip_addr.splits)

lemma tidy_unique:
  assumes "tidy p" and "tidy q" and "pfBits p = pfBits q" and "prefix_contains p (pfAddr q)"
  shows "p = q"
proof -
  have "pfAddr p = pfAddr q"
    using assms by (cases "pfAddr p"; cases "pfAddr q") (auto simp: tidy_def word_uint_eq_iff intro: same_quotient)
  then show ?thesis using assms(3) by simp
qed

lemma table_tidy: "e \<in> set specialPurposePrefixes \<Longrightarrow> tidy (fst e)"
proof -
  have "list_all (\<lambda>e. tidy (fst e)) specialPurposePrefixes" by code_simp
  then show "e \<in> set specialPurposePrefixes \<Longrightarrow> tidy (fst e)" by (simp add: list_all_iff)
qed

text \<open>The table as numbers.\<close>

definition prefix_key :: "prefix \<Rightarrow> int \<times> int \<times> int" where
  "prefix_key p =
     (case pfAddr p of IPv4 x \<Rightarrow> (4, uint x, pfBits p) | IPv6 x z \<Rightarrow> (6, uint x, pfBits p) | NoAddr \<Rightarrow> (0, 0, pfBits p))"

lemma table_keys:
  "map (prefix_key \<circ> fst) specialPurposePrefixes =
     [(4, 0, 8), (4, 167772160, 8), (4, 1681915904, 10), (4, 2130706432, 8), (4, 2851995648, 16), (4, 2886729728,
      12), (4, 3221225472, 24), (4, 3221225984, 24), (4, 3223307264, 24), (4, 3224682752, 24), (4, 3227017984, 24),
      (4, 3232235520, 16), (4, 3232706560, 24), (4, 3323068416, 15), (4, 3325256704, 24), (4, 3405803776, 24), (4,
      3758096384, 4), (4, 4026531840, 4), (6, 0, 128), (6, 1, 128), (6, 524413980667603649783483181312245760, 96),
      (6, 524413980668812575603097810486951936, 48), (6, 1329227995784915872903807060280344576, 64), (6,
      42540488161975842760550356425300246528, 32), (6, 42540488241204005274814694018844196865, 128), (6,
      42540488241204005274814694018844196866, 128), (6, 42540488320432167789079031612388147200, 48), (6,
      42540488399660330303343369205932097536, 32), (6, 42540488479219738492182115193345540096, 48), (6,
      42540489429626442988779757922003451904, 28), (6, 42540490697277043217009159418706657280, 28), (6,
      42540491964927643445238560915409862656, 28), (6, 42540766411282592856903984951653826560, 32), (6,
      42545680458834377588178886921629466624, 16), (6, 50676823637938837538472482859932188672, 48), (6,
      85065399433376081038215121361612832768, 20), (6, 126276659599567007925861670726632734720, 16), (6,
      334965454937798799971759379190646833152, 7), (6, 338288524927261089654018896841347694592, 10), (6,
      338953138925153547590470800371487866880, 8)]"
  by code_simp

lemma table_distinct: "distinct (map fst specialPurposePrefixes)"
proof -
  have "distinct (map (prefix_key \<circ> fst) specialPurposePrefixes)"
    unfolding table_keys by simp
  then have "distinct (map prefix_key (map fst specialPurposePrefixes))" by simp
  then show ?thesis unfolding distinct_map by blast
qed

lemma table_unambiguous: "unambiguous specialPurposePrefixes"
proof -
  have "snd e = snd e'"
    if e: "e \<in> set specialPurposePrefixes" "e' \<in> set specialPurposePrefixes"
      "pfBits (fst e) = pfBits (fst e')" "prefix_contains (fst e) (pfAddr (fst e'))" for e e'
  proof -
    have "fst e = fst e'" using e table_tidy by (intro tidy_unique) blast+
    then have "e = e'" using table_distinct e(1,2) by (auto simp: distinct_map dest: inj_onD)
    then show ?thesis by simp
  qed
  then show ?thesis using table_tidy tidy_wf unfolding unambiguous_def by blast
qed

text \<open>The order of the table of special-purpose ranges does not matter: in every order of its entries the
  class of an address is that of the longest range that contains it, and an address no range contains is
  public.\<close>

theorem class_is_longest_match:
  assumes "mset ps = mset specialPurposePrefixes"
  shows "(\<forall>e. longest_match specialPurposePrefixes a e \<longrightarrow> classify_in ps a = snd e)
    \<and> ((\<forall>e\<in>set specialPurposePrefixes. \<not> prefix_contains (fst e) a) \<longrightarrow> classify_in ps a = ClassPublic)"
proof -
  have s: "set ps = set specialPurposePrefixes" using assms by (rule mset_eq_setD)
  have u: "unambiguous ps" using table_unambiguous by (simp add: unambiguous_def s)
  have "longest_match ps a e \<longleftrightarrow> longest_match specialPurposePrefixes a e" for e
    by (simp add: longest_match_def s)
  then show ?thesis
    using classify_in_longest [OF u] classify_in_nothing [of ps a] unfolding s by blast
qed

theorem class_is_longest_match_witness:
  "classify_in (rev specialPurposePrefixes) (ip4 192 0 2 7) = ClassDocumentation"
proof -
  have "longest_match specialPurposePrefixes (ip4 192 0 2 7) (prefix_from (ip4 192 0 2 0) 24, ClassDocumentation)"
    unfolding longest_match_def by code_simp
  then show ?thesis
    using class_is_longest_match [of "rev specialPurposePrefixes" "ip4 192 0 2 7"] by simp
qed

end
