(* ===== verification/Outbound.thy ===== *)
theory Outbound
  imports Address Text
begin

text \<open>
  The outbound-access policy and the validating dialer of \<open>internal/outbound\<close>: \<open>policy.go\<close>,
  \<open>CheckAddress\<close> of \<open>address.go\<close>, \<open>dialer.go\<close>, \<open>errors.go\<close> and the server list of
  \<open>resolver.go\<close>.

  An \<open>*Error\<close> is the constructor \<open>OutboundFailure\<close> of \<open>go_error\<close>; its \<open>Address\<close>, which only its
  message shows, is left out. \<open>net/url\<close>, the texts of \<open>netip\<close> addresses, \<open>unicode.ToLower\<close>
  beyond ASCII, name resolution and the system's connections are parameters.
\<close>

section \<open>Errors\<close>

type_synonym port = "16 word"

definition ReasonPolicyUnconfigured :: string where "ReasonPolicyUnconfigured = ''outbound.policy.unconfigured''"
definition ReasonURLTooLong :: string where "ReasonURLTooLong = ''outbound.url.tooLong''"
definition ReasonURLInvalid :: string where "ReasonURLInvalid = ''outbound.url.invalid''"
definition ReasonURLNotAbsolute :: string where "ReasonURLNotAbsolute = ''outbound.url.notAbsolute''"
definition ReasonSchemeUnsupported :: string where "ReasonSchemeUnsupported = ''outbound.url.scheme''"
definition ReasonUserInfoPresent :: string where "ReasonUserInfoPresent = ''outbound.url.userInfo''"
definition ReasonHostMissing :: string where "ReasonHostMissing = ''outbound.host.missing''"
definition ReasonHostInvalid :: string where "ReasonHostInvalid = ''outbound.host.invalid''"
definition ReasonPortInvalid :: string where "ReasonPortInvalid = ''outbound.port.invalid''"
definition ReasonPortDenied :: string where "ReasonPortDenied = ''outbound.port.denied''"
definition ReasonNetworkUnsupported :: string where "ReasonNetworkUnsupported = ''outbound.network.unsupported''"
definition ReasonResolutionFailed :: string where "ReasonResolutionFailed = ''outbound.resolution.failed''"
definition ReasonNoCandidate :: string where "ReasonNoCandidate = ''outbound.resolution.empty''"
definition ReasonAddressDenied :: string where "ReasonAddressDenied = ''outbound.address.denied''"
definition ReasonAddressMismatch :: string where "ReasonAddressMismatch = ''outbound.address.mismatch''"
definition ReasonConnectFailed :: string where "ReasonConnectFailed = ''outbound.connect.failed''"

abbreviation refused :: "string \<Rightarrow> go_error" where
  "refused reason \<equiv> OutboundFailure reason '''' '''' 0 None"

abbreviation address_denied :: "addr_class \<Rightarrow> go_error" where
  "address_denied c \<equiv> OutboundFailure ReasonAddressDenied (class_text c) '''' 0 None"

text \<open>\<open>errors.As\<close> with an \<open>*Error\<close>: the first one in the chain.\<close>

fun outbound_error_of :: "go_error \<Rightarrow> go_error option" where
  "outbound_error_of (OutboundFailure r c h p cause) = Some (OutboundFailure r c h p cause)"
| "outbound_error_of (Wrapped m e) = outbound_error_of e"
| "outbound_error_of (ErrText m) = None"
| "outbound_error_of (ErrIs s) = None"
| "outbound_error_of (OutboxFailure c p) = None"
| "outbound_error_of (LifecycleError c m) = None"

fun outbound_reason :: "go_error \<Rightarrow> string" where
  "outbound_reason (OutboundFailure r c h p cause) = r"
| "outbound_reason (Wrapped m e) = ''''"
| "outbound_reason (ErrText m) = ''''"
| "outbound_reason (ErrIs s) = ''''"
| "outbound_reason (OutboxFailure c p) = ''''"
| "outbound_reason (LifecycleError c m) = ''''"

fun outbound_class :: "go_error \<Rightarrow> string" where
  "outbound_class (OutboundFailure r c h p cause) = c"
| "outbound_class (Wrapped m e) = ''''"
| "outbound_class (ErrText m) = ''''"
| "outbound_class (ErrIs s) = ''''"
| "outbound_class (OutboxFailure c p) = ''''"
| "outbound_class (LifecycleError c m) = ''''"

definition reason_of :: "go_error \<Rightarrow> string" where
  "reason_of e = (case outbound_error_of e of None \<Rightarrow> '''' | Some f \<Rightarrow> outbound_reason f)"

fun annotated :: "string \<Rightarrow> port \<Rightarrow> go_error \<Rightarrow> go_error" where
  "annotated host port (OutboundFailure r c h p cause) =
     OutboundFailure r c (if h = '''' then host else h) (if p = 0 then uint port else p) cause"
| "annotated host port (Wrapped m e) = Wrapped m e"
| "annotated host port (ErrText m) = ErrText m"
| "annotated host port (ErrIs s) = ErrIs s"
| "annotated host port (OutboxFailure c p) = OutboxFailure c p"
| "annotated host port (LifecycleError c m) = LifecycleError c m"

definition with_authority :: "go_error \<Rightarrow> string \<Rightarrow> port \<Rightarrow> go_error" where
  "with_authority e host port = (case outbound_error_of e of None \<Rightarrow> e | Some f \<Rightarrow> annotated host port f)"

section \<open>Policies\<close>

datatype profile = ProfileManaged | ProfilePrivate | ProfileOperator

fun tenant_selectable :: "profile \<Rightarrow> bool" where
  "tenant_selectable ProfileManaged = True"
| "tenant_selectable ProfilePrivate = True"
| "tenant_selectable ProfileOperator = False"

definition parse_profile_name :: "string \<Rightarrow> profile result" where
  "parse_profile_name v =
     (if v = ''managed'' then Inr ProfileManaged
      else if v = ''private'' then Inr ProfilePrivate
      else if v = ''operator'' then Inr ProfileOperator
      else Inl (ErrText ''outbound: unknown policy profile''))"

definition MaxURLLength :: nat where "MaxURLLength = 2048"
definition maxHostLength :: nat where "maxHostLength = 253"
definition maxLabelLength :: nat where "maxLabelLength = 63"
definition defaultAllowedPorts :: "port list" where "defaultAllowedPorts = [80, 443]"

record spec =
  spProfile :: string
  spAllowedCIDRs :: "prefix list"
  spAllowedPorts :: "port list"

text \<open>The zero \<open>Policy\<close> has the empty profile name and a \<open>nil\<close> map of ports.\<close>

record policy =
  plProfile :: "profile option"
  plAllowed :: "prefix list"
  plPorts :: "port list option"

definition zero_policy :: policy where
  "zero_policy = \<lparr>plProfile = None, plAllowed = [], plPorts = None\<rparr>"

text \<open>The loop over the allowed ranges.\<close>

fun allowed_ranges :: "prefix list \<Rightarrow> prefix list result" where
  "allowed_ranges [] = Inr []"
| "allowed_ranges (p # ps) =
     (if \<not> prefix_valid p then Inl (ErrText ''outbound: allowed CIDR range is not a valid prefix'')
      else if zone_of (pfAddr p) \<noteq> '''' \<or> is_4in6 (pfAddr p) then
        Inl (ErrText ''outbound: allowed CIDR range must be a plain IPv4 or IPv6 prefix'')
      else and_then (allowed_ranges ps) (\<lambda>rest. Inr (masked p # rest)))"

definition new_policy :: "spec \<Rightarrow> policy result" where
  "new_policy sp =
     and_then (parse_profile_name (spProfile sp)) (\<lambda>name.
       if name = ProfileManaged \<and> spAllowedCIDRs sp \<noteq> [] then
         Inl (ErrText ''outbound: profile accepts no allowed CIDR ranges'')
       else and_then (allowed_ranges (spAllowedCIDRs sp)) (\<lambda>allowed.
         let configured = (if spAllowedPorts sp = [] then defaultAllowedPorts else spAllowedPorts sp)
         in if 0 \<in> set configured then Inl (ErrText ''outbound: port 0 cannot be allowed'')
            else Inr \<lparr>plProfile = Some name, plAllowed = allowed, plPorts = Some configured\<rparr>))"

definition policy_configured :: "policy \<Rightarrow> unit result" where
  "policy_configured pl =
     (if plProfile pl = None \<or> plPorts pl = None then Inl (refused ReasonPolicyUnconfigured) else Inr ())"

definition allows_address :: "policy \<Rightarrow> ip_addr \<Rightarrow> bool" where
  "allows_address pl a \<longleftrightarrow> list_ex (\<lambda>p. prefix_contains p a) (plAllowed pl)"

definition check_address :: "policy \<Rightarrow> ip_addr \<Rightarrow> ip_addr result" where
  "check_address pl a =
     and_then (policy_configured pl) (\<lambda>_.
       if a = NoAddr then Inl (address_denied ClassUnspecified)
       else if zone_of a \<noteq> '''' then Inl (address_denied ClassZoned)
       else
         let normalized = unmap a; c = classify_addr normalized
         in if c = ClassPublic then Inr normalized
            else if c \<in> set overridableClasses \<and> allows_address pl normalized then Inr normalized
            else Inl (address_denied c))"

definition check_port :: "policy \<Rightarrow> port \<Rightarrow> unit result" where
  "check_port pl port =
     and_then (policy_configured pl) (\<lambda>_.
       if port = 0 then Inl (refused ReasonPortInvalid)
       else if port \<notin> set (the (plPorts pl)) then
         Inl (OutboundFailure ReasonPortDenied '''' '''' (uint port) None)
       else Inr ())"

section \<open>Hosts and URLs\<close>

record net_env =
  nvParseURL :: "string \<Rightarrow> go_url option"
  nvParseAddr :: "string \<Rightarrow> ip_addr option"
  nvAddrString :: "ip_addr \<Rightarrow> string"
  nvLowerRune :: "int \<Rightarrow> int"

definition is_host_character :: "char \<Rightarrow> bool" where
  "is_host_character c \<longleftrightarrow> (97 \<le> byte c \<and> byte c \<le> 122) \<or> (48 \<le> byte c \<and> byte c \<le> 57) \<or> c = CHR ''-'' \<or> c = CHR ''_''"

definition is_all_digits :: "string \<Rightarrow> bool" where
  "is_all_digits label \<longleftrightarrow> list_all (\<lambda>c. 48 \<le> byte c \<and> byte c \<le> 57) label"

text \<open>\<open>strings.Split(name, ".")\<close>.\<close>

fun labels_of :: "string \<Rightarrow> string list" where
  "labels_of [] = ['''']"
| "labels_of (c # cs) =
     (if c = CHR ''.'' then '''' # labels_of cs
      else (c # hd (labels_of cs)) # tl (labels_of cs))"

definition is_host_label :: "string \<Rightarrow> bool" where
  "is_host_label label \<longleftrightarrow> label \<noteq> [] \<and> length label \<le> maxLabelLength \<and> hd label \<noteq> CHR ''-'' \<and> last label \<noteq> CHR ''-''
     \<and> list_all is_host_character label"

definition is_domain_name :: "string \<Rightarrow> bool" where
  "is_domain_name name \<longleftrightarrow> name \<noteq> [] \<and> length name \<le> maxHostLength
     \<and> list_all is_host_label (labels_of name) \<and> \<not> is_all_digits (last (labels_of name))"

record target =
  tgScheme :: string
  tgHost :: string
  tgPort :: port
  tgAddr :: ip_addr

definition check_authority :: "net_env \<Rightarrow> policy \<Rightarrow> string \<Rightarrow> port \<Rightarrow> target result" where
  "check_authority nv pl host0 port =
     (let host = trim_suffix_dot host0
      in if host = '''' then Inl (OutboundFailure ReasonHostMissing '''' '''' (uint port) None)
         else if length host > maxHostLength then Inl (OutboundFailure ReasonHostInvalid '''' '''' (uint port) None)
         else and_then (check_port pl port) (\<lambda>_.
           case nvParseAddr nv host of
             Some a \<Rightarrow>
               (case check_address pl a of
                  Inl e \<Rightarrow> Inl (with_authority e host port)
                | Inr normalized \<Rightarrow>
                    Inr \<lparr>tgScheme = '''', tgHost = nvAddrString nv normalized, tgPort = port, tgAddr = normalized\<rparr>)
           | None \<Rightarrow>
               let name = to_lower (nvLowerRune nv) host
               in if \<not> is_domain_name name then Inl (OutboundFailure ReasonHostInvalid '''' name (uint port) None)
                  else Inr \<lparr>tgScheme = '''', tgHost = name, tgPort = port, tgAddr = NoAddr\<rparr>))"

text \<open>The port of a URL: the explicit one, or the default of its scheme.\<close>

definition url_port :: "string \<Rightarrow> string \<Rightarrow> port option" where
  "url_port scheme t =
     (if t \<noteq> '''' then (case parse_port t of None \<Rightarrow> None | Some v \<Rightarrow> if v = 0 then None else Some (word_of_int v))
      else if scheme = ''https'' then Some 443 else Some 80)"

definition check_url :: "net_env \<Rightarrow> policy \<Rightarrow> string \<Rightarrow> target result" where
  "check_url nv pl raw =
     and_then (policy_configured pl) (\<lambda>_.
       if length raw > MaxURLLength then Inl (refused ReasonURLTooLong)
       else case nvParseURL nv raw of
         None \<Rightarrow> Inl (refused ReasonURLInvalid)
       | Some u \<Rightarrow>
           let scheme = to_lower (nvLowerRune nv) (urlScheme u)
           in if scheme = '''' then Inl (refused ReasonURLNotAbsolute)
              else if scheme \<noteq> ''http'' \<and> scheme \<noteq> ''https'' then Inl (refused ReasonSchemeUnsupported)
              else if urlHasUser u then Inl (refused ReasonUserInfoPresent)
              else case url_port scheme (urlPort u) of
                None \<Rightarrow> Inl (refused ReasonPortInvalid)
              | Some port \<Rightarrow>
                  and_then (check_authority nv pl (urlHostname u) port) (\<lambda>t. Inr (t\<lparr>tgScheme := scheme\<rparr>)))"

text \<open>\<open>net.SplitHostPort\<close> and \<open>net.JoinHostPort\<close>. \<open>last_index\<close> is the place of the last such byte.\<close>

fun last_index :: "char \<Rightarrow> string \<Rightarrow> nat option" where
  "last_index c [] = None"
| "last_index c (d # ds) =
     (case last_index c ds of Some i \<Rightarrow> Some (Suc i) | None \<Rightarrow> if d = c then Some 0 else None)"

fun first_index :: "char \<Rightarrow> string \<Rightarrow> nat option" where
  "first_index c [] = None"
| "first_index c (d # ds) = (if d = c then Some 0 else map_option Suc (first_index c ds))"

definition split_host_port :: "string \<Rightarrow> (string \<times> string) option" where
  "split_host_port s =
     (case last_index (CHR '':'') s of
        None \<Rightarrow> None
      | Some i \<Rightarrow>
          if hd s = CHR ''['' then
            (case first_index (CHR '']'') s of
               None \<Rightarrow> None
             | Some e \<Rightarrow>
                 if e + 1 \<noteq> i then None
                 else if CHR ''['' \<in> set (drop 1 s) \<or> CHR '']'' \<in> set (drop (e + 1) s) then None
                 else Some (take (e - 1) (drop 1 s), drop (i + 1) s))
          else if CHR '':'' \<in> set (take i s) \<or> CHR ''['' \<in> set s \<or> CHR '']'' \<in> set s then None
          else Some (take i s, drop (i + 1) s))"

definition join_host_port :: "string \<Rightarrow> string \<Rightarrow> string" where
  "join_host_port host port =
     (if CHR '':'' \<in> set host then ''['' @ host @ '']:'' @ port else host @ '':'' @ port)"

definition target_address :: "target \<Rightarrow> string" where
  "target_address t = join_host_port (tgHost t) (nat_dec (unat (tgPort t)))"

definition check_host_port :: "net_env \<Rightarrow> policy \<Rightarrow> string \<Rightarrow> target result" where
  "check_host_port nv pl hp =
     and_then (policy_configured pl) (\<lambda>_.
       case split_host_port hp of
         None \<Rightarrow> Inl (refused ReasonURLInvalid)
       | Some (host, p) \<Rightarrow>
           (case parse_port p of
              None \<Rightarrow> Inl (refused ReasonPortInvalid)
            | Some v \<Rightarrow> if v = 0 then Inl (refused ReasonPortInvalid) else check_authority nv pl host (word_of_int v)))"

section \<open>The dialer\<close>

definition maxCandidates :: nat where "maxCandidates = 16"

definition lookup_network_for :: "string \<Rightarrow> string result" where
  "lookup_network_for network =
     (if network = ''tcp'' then Inr ''ip''
      else if network = ''tcp4'' then Inr ''ip4''
      else if network = ''tcp6'' then Inr ''ip6''
      else Inl (refused ReasonNetworkUnsupported))"

definition matches_network :: "string \<Rightarrow> ip_addr \<Rightarrow> bool" where
  "matches_network lookup a =
     (if lookup = ''ip4'' then is_ip4 a else if lookup = ''ip6'' then is_ip6 a else True)"

text \<open>
  A connection is its remote address, \<open>None\<close> when it is no \<open>*net.TCPAddr\<close>. The resolver answers a
  lookup; \<open>dlDial\<close> answers the connection attempts of one \<open>DialContext\<close>, numbered in their order.
\<close>

type_synonym endpoint = "ip_addr \<times> port"
type_synonym conn = "endpoint option"

record dialer =
  dlPolicy :: policy
  dlLookup :: "string \<Rightarrow> string \<Rightarrow> ip_addr list result"
  dlDial :: "nat \<Rightarrow> string \<Rightarrow> endpoint \<Rightarrow> conn result"

definition connected_to :: "conn \<Rightarrow> endpoint \<Rightarrow> bool" where
  "connected_to c ep =
     (case c of None \<Rightarrow> False
      | Some actual \<Rightarrow> with_zone (unmap (fst actual)) '''' = fst ep \<and> snd actual = snd ep)"

definition connect_to :: "dialer \<Rightarrow> nat \<Rightarrow> string \<Rightarrow> ip_addr \<Rightarrow> port \<Rightarrow> conn result" where
  "connect_to dl k network a port =
     and_then (dlDial dl k network (a, port)) (\<lambda>c.
       if \<not> connected_to c (a, port) then Inl (OutboundFailure ReasonAddressMismatch '''' '''' (uint port) None)
       else Inr c)"

definition dial_candidates :: "dialer \<Rightarrow> string \<Rightarrow> target \<Rightarrow> ip_addr list result" where
  "dial_candidates dl lookup t =
     (if tgAddr t \<noteq> NoAddr then Inr [tgAddr t]
      else case dlLookup dl lookup (tgHost t) of
        Inl e \<Rightarrow> Inl (OutboundFailure ReasonResolutionFailed '''' (tgHost t) (uint (tgPort t)) (Some e))
      | Inr resolved \<Rightarrow>
          if resolved = [] then Inl (OutboundFailure ReasonNoCandidate '''' (tgHost t) (uint (tgPort t)) None)
          else Inr (take maxCandidates resolved))"

text \<open>The loop over the candidates: the first denial and the allowed addresses.\<close>

fun judge_candidates :: "policy \<Rightarrow> string \<Rightarrow> target \<Rightarrow> ip_addr list \<Rightarrow> go_error option \<times> ip_addr list" where
  "judge_candidates pl lookup t [] = (None, [])"
| "judge_candidates pl lookup t (a # as) =
     (case judge_candidates pl lookup t as of (denial, allowed) \<Rightarrow>
        (case check_address pl a of
           Inl e \<Rightarrow> (Some (with_authority e (tgHost t) (tgPort t)), allowed)
         | Inr checked \<Rightarrow> (denial, if matches_network lookup checked then checked # allowed else allowed)))"

text \<open>The loop over the allowed addresses, with the endpoints that were dialed.\<close>

fun dial_allowed ::
  "dialer \<Rightarrow> string \<Rightarrow> target \<Rightarrow> nat \<Rightarrow> go_error option \<Rightarrow> ip_addr list \<Rightarrow> conn result \<times> endpoint list" where
  "dial_allowed dl network t k cause [] =
     (Inl (OutboundFailure ReasonConnectFailed '''' (tgHost t) (uint (tgPort t)) cause), [])"
| "dial_allowed dl network t k cause (a # as) =
     (case connect_to dl k network a (tgPort t) of
        Inr c \<Rightarrow> (Inr c, [(a, tgPort t)])
      | Inl e \<Rightarrow>
          if outbound_error_of e \<noteq> None then (Inl (with_authority e (tgHost t) (tgPort t)), [(a, tgPort t)])
          else case dial_allowed dl network t (k + 1) (Some e) as of (r, eps) \<Rightarrow> (r, (a, tgPort t) # eps))"

definition dial_context :: "net_env \<Rightarrow> dialer \<Rightarrow> string \<Rightarrow> string \<Rightarrow> conn result \<times> endpoint list" where
  "dial_context nv dl network address =
     (case lookup_network_for network of
        Inl e \<Rightarrow> (Inl e, [])
      | Inr lookup \<Rightarrow>
          (case check_host_port nv (dlPolicy dl) address of
             Inl e \<Rightarrow> (Inl e, [])
           | Inr t \<Rightarrow>
               (case dial_candidates dl lookup t of
                  Inl e \<Rightarrow> (Inl e, [])
                | Inr cs \<Rightarrow>
                    (case judge_candidates (dlPolicy dl) lookup t cs of
                       (denial, allowed) \<Rightarrow>
                         if allowed = [] then
                           (case denial of
                              Some e \<Rightarrow> (Inl e, [])
                            | None \<Rightarrow> (Inl (OutboundFailure ReasonNoCandidate '''' (tgHost t) (uint (tgPort t)) None), []))
                         else dial_allowed dl network t 0 None allowed))))"

section \<open>The servers of a trusted resolver\<close>

fun resolver_servers :: "endpoint list \<Rightarrow> endpoint list result" where
  "resolver_servers [] = Inr []"
| "resolver_servers (s # ss) =
     (if fst s = NoAddr \<or> snd s = 0 \<or> zone_of (fst s) \<noteq> '''' then
        Inl (ErrText ''outbound: resolver server must be a plain address and port'')
      else and_then (resolver_servers ss) (\<lambda>rest. Inr ((unmap (fst s), snd s) # rest)))"

text \<open>
  \<open>serverDialer\<close>: the servers it will use; then the loop of the returned function, for the value of
  \<open>attempts\<close> before the call, over the offsets from the given one on.
\<close>

definition server_dialer :: "endpoint list \<Rightarrow> endpoint list result" where
  "server_dialer servers =
     (if servers = [] then Inl (ErrText ''outbound: at least one resolver server is required'')
      else resolver_servers servers)"

definition server_at :: "endpoint list \<Rightarrow> 64 word \<Rightarrow> nat \<Rightarrow> endpoint" where
  "server_at ordered start offset = ordered ! (unat (start + of_nat offset) mod length ordered)"

function try_servers ::
  "(endpoint \<Rightarrow> 'c result) \<Rightarrow> endpoint list \<Rightarrow> 64 word \<Rightarrow> nat \<Rightarrow> go_error option \<Rightarrow> 'c option result \<times> endpoint list" where
  "try_servers dial ordered start offset cause =
     (if length ordered \<le> offset then ((case cause of None \<Rightarrow> Inr None | Some e \<Rightarrow> Inl e), [])
      else
        let server = server_at ordered start offset
        in case dial server of
             Inr c \<Rightarrow> (Inr (Some c), [server])
           | Inl e \<Rightarrow> (case try_servers dial ordered start (offset + 1) (Some e) of (r, tried) \<Rightarrow> (r, server # tried)))"
  by pat_completeness auto
termination by (relation "measure (\<lambda>(dial, ordered, start, offset, cause). length ordered - offset)") auto

section \<open>What an allowed address is\<close>

lemma configured_iff: "policy_configured pl = Inr u \<longleftrightarrow> plProfile pl \<noteq> None \<and> plPorts pl \<noteq> None"
  by (auto simp: policy_configured_def)

lemma unmap_simps [simp]: "unmap (unmap a) = unmap a" "unmap a = NoAddr \<longleftrightarrow> a = NoAddr" "zone_of a = '''' \<Longrightarrow> zone_of (unmap a) = ''''"
  by (cases a; simp)+

lemma check_address_Inr:
  "check_address pl a = Inr b \<longleftrightarrow> plProfile pl \<noteq> None \<and> plPorts pl \<noteq> None \<and> a \<noteq> NoAddr \<and> zone_of a = '''' \<and> b = unmap a
     \<and> (classify_addr b = ClassPublic \<or> classify_addr b \<in> set overridableClasses \<and> allows_address pl b)"
  by (auto simp: check_address_def and_then_Inr configured_iff Let_def split: if_splits)

lemma check_address_again: "check_address pl a = Inr b \<Longrightarrow> check_address pl b = Inr b"
  by (auto simp: check_address_Inr)

text \<open>An IPv4-mapped address is judged as the IPv4 address it carries.\<close>

lemma mapped_address: "is_4in6 (IPv6 x '''') \<Longrightarrow> check_address pl (IPv6 x '''') = check_address pl (IPv4 (ucast x))"
  by (simp add: check_address_def Let_def cong del: and_then_cong)

lemma allowed_ranges_Inr:
  "allowed_ranges ps = Inr qs \<longleftrightarrow> qs = map masked ps \<and> (\<forall>p\<in>set ps. prefix_valid p \<and> zone_of (pfAddr p) = '''' \<and> \<not> is_4in6 (pfAddr p))"
  by (induction ps arbitrary: qs) (auto simp: and_then_Inr)

lemma parse_profile_Inr [simp]:
  "parse_profile_name v = Inr ProfileManaged \<longleftrightarrow> v = ''managed''"
  by (auto simp: parse_profile_name_def)

lemma new_policy_Inr:
  "new_policy sp = Inr pl \<longleftrightarrow> (\<exists>name. parse_profile_name (spProfile sp) = Inr name
     \<and> (spProfile sp = ''managed'' \<longrightarrow> spAllowedCIDRs sp = [])
     \<and> (\<forall>p\<in>set (spAllowedCIDRs sp). prefix_valid p \<and> zone_of (pfAddr p) = '''' \<and> \<not> is_4in6 (pfAddr p))
     \<and> 0 \<notin> set (spAllowedPorts sp)
     \<and> pl = \<lparr>plProfile = Some name, plAllowed = map masked (spAllowedCIDRs sp),
          plPorts = Some (if spAllowedPorts sp = [] then defaultAllowedPorts else spAllowedPorts sp)\<rparr>)"
  by (auto simp: new_policy_def and_then_Inr allowed_ranges_Inr Let_def defaultAllowedPorts_def simp flip: parse_profile_Inr)

lemma table_not_public: "e \<in> set specialPurposePrefixes \<Longrightarrow> snd e \<noteq> ClassPublic"
  by (auto simp: specialPurposePrefixes_def)

lemma allowed_ranges_hit:
  assumes "\<forall>p\<in>set ps. prefix_wf p" and "list_ex (\<lambda>p. prefix_contains p a) (map masked ps)"
  shows "\<exists>p\<in>set ps. prefix_contains p a"
  using assms by (auto simp: list_ex_iff)

text \<open>C22. An address a policy allows carries no zone and is dialed unmapped; it is no metadata endpoint, and
  when a special-purpose range contains it, the longest such range is of a class that may be overridden, the
  profile is not the managed one and one of the operator's ranges contains the address.\<close>

theorem allowed_address_is_safe:
  assumes "new_policy sp = Inr pl" and "\<forall>p\<in>set (spAllowedCIDRs sp). prefix_wf p" and "check_address pl a = Inr b"
  shows "zone_of a = '''' \<and> b = unmap a \<and> b \<notin> set metadataAddresses
    \<and> (\<forall>e. longest_match specialPurposePrefixes b e \<longrightarrow> snd e \<in> set overridableClasses \<and> spProfile sp \<noteq> ''managed''
         \<and> (\<exists>p\<in>set (spAllowedCIDRs sp). prefix_contains p b))"
proof -
  have b: "zone_of a = ''''" "b = unmap a"
    "classify_addr b = ClassPublic \<or> classify_addr b \<in> set overridableClasses \<and> allows_address pl b"
    using assms(3) by (auto simp: check_address_Inr)
  have "ClassMetadata \<notin> set overridableClasses" by (simp add: overridableClasses_def)
  then have m: "b \<notin> set metadataAddresses" using b(3) by (auto simp: classify_addr_def)
  have "snd e \<in> set overridableClasses \<and> spProfile sp \<noteq> ''managed'' \<and> (\<exists>p\<in>set (spAllowedCIDRs sp). prefix_contains p b)"
    if e: "longest_match specialPurposePrefixes b e" for e
  proof -
    have c: "classify_addr b = snd e"
      using classify_in_longest [OF table_unambiguous e] m by (simp add: classify_addr_def)
    moreover have "snd e \<noteq> ClassPublic" using e by (auto simp: longest_match_def dest: table_not_public)
    ultimately have r: "snd e \<in> set overridableClasses" "allows_address pl b" using b(3) by auto
    then have hit: "\<exists>p\<in>set (spAllowedCIDRs sp). prefix_contains p b"
      using allowed_ranges_hit [OF assms(2)] assms(1) by (auto simp: new_policy_Inr allows_address_def)
    then have "spProfile sp \<noteq> ''managed''" using assms(1) by (auto simp: new_policy_Inr)
    with r hit show ?thesis by blast
  qed
  then show ?thesis using b m by blast
qed

definition lab_spec :: spec where
  "lab_spec = \<lparr>spProfile = ''private'', spAllowedCIDRs = [prefix_from (ip4 10 0 0 0) 8], spAllowedPorts = []\<rparr>"

definition lab_policy :: policy where
  "lab_policy = \<lparr>plProfile = Some ProfilePrivate, plAllowed = [prefix_from (ip4 10 0 0 0) 8], plPorts = Some [80, 443]\<rparr>"

lemma lab_policy: "new_policy lab_spec = Inr lab_policy" "\<forall>p\<in>set (spAllowedCIDRs lab_spec). prefix_wf p"
  unfolding lab_spec_def lab_policy_def by code_simp+

theorem allowed_address_is_safe_witness:
  "check_address lab_policy (ip6 [0, 0, 0, 0, 0, 0xffff, 0x0a01, 0x0203]) = Inr (ip4 10 1 2 3)
    \<and> ip4 10 1 2 3 \<notin> set metadataAddresses"
proof -
  have "check_address lab_policy (ip6 [0, 0, 0, 0, 0, 0xffff, 0x0a01, 0x0203]) = Inr (ip4 10 1 2 3)"
    by code_simp
  with allowed_address_is_safe [OF lab_policy this] show ?thesis by blast
qed

section \<open>The dialer\<close>

lemma judge_candidates_allowed:
  assumes "judge_candidates pl lookup t as = (denial, allowed)"
  shows "length allowed \<le> length as \<and> (\<forall>b\<in>set allowed. check_address pl b = Inr b)"
  using assms
proof (induction as arbitrary: denial allowed)
  case (Cons a as)
  obtain d al where j: "judge_candidates pl lookup t as = (d, al)" by force
  show ?case
    using Cons.prems Cons.IH [OF j] check_address_again [of pl a]
    by (cases "check_address pl a") (auto simp: j split: if_splits)
qed simp

lemma judge_candidates_denied:
  assumes "\<forall>a\<in>set as. \<not> is_ok (check_address pl a)"
  shows "judge_candidates pl lookup t as
    = (case as of [] \<Rightarrow> None | a # as' \<Rightarrow> (case check_address pl a of Inl e \<Rightarrow> Some (with_authority e (tgHost t) (tgPort t)) | Inr b \<Rightarrow> None), [])"
  using assms
proof (induction as)
  case (Cons a as)
  then show ?case by (cases "check_address pl a"; cases as) auto
qed simp

lemma connect_to_Inr: "connect_to dl k network a port = Inr c \<Longrightarrow> connected_to c (a, port)"
  by (auto simp: connect_to_def and_then_Inr)

lemma dial_allowed_endpoints:
  assumes "dial_allowed dl network t k cause as = (r, eps)"
  shows "length eps \<le> length as \<and> set eps \<subseteq> (\<lambda>a. (a, tgPort t)) ` set as
    \<and> (\<forall>c. r = Inr c \<longrightarrow> eps \<noteq> [] \<and> connected_to c (last eps))"
  using assms
proof (induction as arbitrary: k cause r eps)
  case (Cons a as)
  show ?case
  proof (cases "connect_to dl k network a (tgPort t)")
    case (Inr c)
    with Cons.prems connect_to_Inr [OF Inr] show ?thesis by auto
  next
    case (Inl e)
    obtain r' eps' where d: "dial_allowed dl network t (Suc k) (Some e) as = (r', eps')" by force
    from Cons.IH [OF d] Cons.prems show ?thesis by (auto simp: Inl d split: if_splits)
  qed
qed simp

lemma authority_port:
  assumes "check_authority nv pl host port = Inr t"
  shows "tgPort t = port \<and> check_port pl port = Inr () \<and> (tgAddr t \<noteq> NoAddr \<longrightarrow> check_address pl (tgAddr t) = Inr (tgAddr t))"
  using assms check_address_again
  by (auto simp: check_authority_def Let_def and_then_Inr split: if_splits option.splits sum.splits)

lemma host_port_target:
  assumes "check_host_port nv pl hp = Inr t"
  shows "check_port pl (tgPort t) = Inr ()"
  using assms authority_port
  by (fastforce simp: check_host_port_def and_then_Inr split: option.splits prod.splits if_splits)

lemma dial_candidates_bounded: "dial_candidates dl lookup t = Inr cs \<Longrightarrow> length cs \<le> maxCandidates"
  by (auto simp: dial_candidates_def maxCandidates_def split: if_splits sum.splits)

text \<open>C21. Whatever the resolver and the network answer, the dialer attempts at most sixteen connections, each to
  an address and a port that its policy allows, and a connection it returns leads to the address of the last
  attempt.\<close>

theorem dialer_reaches_allowed_only:
  assumes "dial_context nv dl network address = (r, eps)"
  shows "length eps \<le> 16
    \<and> (\<forall>(a, port)\<in>set eps. check_address (dlPolicy dl) a = Inr a \<and> check_port (dlPolicy dl) port = Inr ())
    \<and> (\<forall>c. r = Inr c \<longrightarrow> eps \<noteq> [] \<and> connected_to c (last eps))"
proof (cases "eps = [] \<and> \<not> is_ok r")
  case False
  then obtain lookup t cs denial allowed where l: "lookup_network_for network = Inr lookup"
    and t: "check_host_port nv (dlPolicy dl) address = Inr t"
    and cs: "dial_candidates dl lookup t = Inr cs"
    and j: "judge_candidates (dlPolicy dl) lookup t cs = (denial, allowed)"
    and d: "dial_allowed dl network t 0 None allowed = (r, eps)"
    using assms by (auto simp: dial_context_def split: sum.splits prod.splits if_splits option.splits)
  have "length eps \<le> 16"
    using dial_allowed_endpoints [OF d] judge_candidates_allowed [OF j] dial_candidates_bounded [OF cs]
    by (simp add: maxCandidates_def)
  then show ?thesis
    using dial_allowed_endpoints [OF d] judge_candidates_allowed [OF j] host_port_target [OF t] by auto
qed (auto simp: is_ok_iff)

text \<open>When the policy denies every candidate, nothing is dialed and the denial of the first candidate is the
  error: no candidate is tried as a fallback.\<close>

theorem denied_candidates_are_not_dialed:
  assumes "lookup_network_for network = Inr lookup" and "check_host_port nv (dlPolicy dl) address = Inr t"
    and "dial_candidates dl lookup t = Inr (a # as)" and "\<forall>b\<in>set (a # as). \<not> is_ok (check_address (dlPolicy dl) b)"
    and "check_address (dlPolicy dl) a = Inl e"
  shows "dial_context nv dl network address = (Inl (with_authority e (tgHost t) (tgPort t)), [])"
  using judge_candidates_denied [OF assms(4)] assms by (simp add: dial_context_def)

section \<open>Hosts\<close>

lemma labels_of_not_Nil [simp]: "labels_of s \<noteq> []"
  by (cases s) simp_all

lemma labels_of_chars: "set s \<subseteq> insert (CHR ''.'') (\<Union>l\<in>set (labels_of s). set l)"
proof (induction s)
  case (Cons c cs)
  have "labels_of cs = hd (labels_of cs) # tl (labels_of cs)" by simp
  with Cons show ?case by (cases "labels_of cs") auto
qed simp

lemma labels_of_snoc_dot: "labels_of (s @ [CHR ''.'']) = labels_of s @ ['''']"
proof (induction s)
  case (Cons c cs)
  then show ?case by (cases "labels_of cs") simp_all
qed simp

lemma host_label_char: "is_host_label l \<Longrightarrow> c \<in> set l \<Longrightarrow> is_host_character c"
  by (auto simp: is_host_label_def list_all_iff)

lemma domain_name_chars:
  assumes "is_domain_name name" and "c \<in> set name"
  shows "c = CHR ''.'' \<or> is_host_character c"
proof -
  from assms(2) labels_of_chars [of name] consider "c = CHR ''.''" | l where "l \<in> set (labels_of name)" "c \<in> set l"
    by blast
  then show ?thesis
    using assms(1) host_label_char by cases (auto simp: is_domain_name_def list_all_iff)
qed

lemma byte_dot [simp]: "byte (CHR ''.'') = 46" "byte (CHR '':'') = 58" "byte (CHR ''-'') = 45" "byte (CHR ''_'') = 95"
  "byte (CHR ''['') = 91" "byte (CHR '']'') = 93"
  by (simp_all add: byte_def)

lemma host_character_range:
  "is_host_character c \<Longrightarrow> 45 \<le> byte c \<and> byte c \<le> 122 \<and> \<not> (65 \<le> byte c \<and> byte c \<le> 94) \<and> byte c \<noteq> 58"
  by (auto simp: is_host_character_def)

lemma domain_name_not_dotted: "is_domain_name name \<Longrightarrow> trim_suffix_dot name = name"
proof -
  assume d: "is_domain_name name"
  have "last name \<noteq> CHR ''.''"
  proof
    assume "last name = CHR ''.''"
    then have "name = butlast name @ [CHR ''.'']"
      using d by (metis append_butlast_last_id is_domain_name_def)
    then have "[] \<in> set (labels_of name)" using labels_of_snoc_dot [of "butlast name"] by simp
    then show False using d by (auto simp: is_domain_name_def list_all_iff is_host_label_def)
  qed
  then show "trim_suffix_dot name = name" by (simp add: trim_suffix_dot_def)
qed

lemma domain_name_lower: "is_domain_name name \<Longrightarrow> to_lower low name = name"
  using domain_name_chars host_character_range by (intro to_lower_id) fastforce

lemma domain_name_no_colon:
  "is_domain_name name \<Longrightarrow> CHR '':'' \<notin> set name \<and> CHR ''['' \<notin> set name \<and> CHR '']'' \<notin> set name"
  using domain_name_chars [of name] host_character_range by fastforce

text \<open>A host name the policy accepts has no label of other than lower-case ASCII letters, digits, hyphens and
  underscores, and its last label is no number.\<close>

lemma accepted_name:
  assumes "check_authority nv pl host port = Inr t" and "tgAddr t = NoAddr"
  shows "is_domain_name (tgHost t) \<and> tgHost t = to_lower (nvLowerRune nv) (trim_suffix_dot host)"
  using assms by (auto simp: check_authority_def Let_def and_then_Inr check_address_Inr split: if_splits option.splits sum.splits)

lemma last_index_snoc:
  "c \<notin> set p \<Longrightarrow> last_index c (h @ c # p) = Some (length h)"
proof -
  assume c: "c \<notin> set p"
  have n: "last_index c p = None" using c by (induction p) (auto split: option.splits)
  show "last_index c (h @ c # p) = Some (length h)" by (induction h) (simp_all add: n)
qed

lemma first_index_append: "c \<notin> set h \<Longrightarrow> first_index c (h @ c # p) = Some (length h)"
  by (induction h) auto

text \<open>What is joined is split again.\<close>

lemma split_join_host_port:
  assumes "CHR ''['' \<notin> set h" and "CHR '']'' \<notin> set h"
    and "CHR '':'' \<notin> set p" and "CHR ''['' \<notin> set p" and "CHR '']'' \<notin> set p"
  shows "split_host_port (join_host_port h p) = Some (h, p)"
proof (cases "CHR '':'' \<in> set h")
  case True
  have e: "join_host_port h p = (CHR ''['' # h) @ CHR '']'' # CHR '':'' # p"
    using True by (simp add: join_host_port_def)
  have i: "last_index (CHR '':'') (join_host_port h p) = Some (length h + 2)"
    using last_index_snoc [OF assms(3), of "CHR ''['' # h @ ['']'' ! 0]"] by (simp add: e)
  have f: "first_index (CHR '']'') (join_host_port h p) = Some (length h + 1)"
    using first_index_append [of "CHR '']''" "CHR ''['' # h" "CHR '':'' # p"] assms(2) by (simp add: e)
  show ?thesis using assms by (simp add: split_host_port_def i f) (simp add: e)
next
  case False
  have e: "join_host_port h p = h @ CHR '':'' # p" using False by (simp add: join_host_port_def)
  have i: "last_index (CHR '':'') (join_host_port h p) = Some (length h)"
    using last_index_snoc [OF assms(3)] by (simp add: e)
  have "hd (h @ CHR '':'' # p) \<noteq> CHR ''[''" using assms(1) by (cases h) auto
  then show ?thesis using assms False by (simp add: split_host_port_def i) (simp add: e)
qed

text \<open>
  What the texts of addresses are: the text of an IP literal has no brackets, does not end with a
  dot, is short and parses to the address again.
\<close>

definition literal_text :: "net_env \<Rightarrow> ip_addr \<Rightarrow> bool" where
  "literal_text nv a \<longleftrightarrow> nvParseAddr nv (nvAddrString nv a) = Some a \<and> nvAddrString nv a \<noteq> ''''
     \<and> trim_suffix_dot (nvAddrString nv a) = nvAddrString nv a \<and> length (nvAddrString nv a) \<le> maxHostLength
     \<and> CHR ''['' \<notin> set (nvAddrString nv a) \<and> CHR '']'' \<notin> set (nvAddrString nv a)"

lemma authority_again:
  assumes "check_authority nv pl host port = Inr t"
    and "tgAddr t \<noteq> NoAddr \<Longrightarrow> literal_text nv (tgAddr t)" and "tgAddr t = NoAddr \<Longrightarrow> nvParseAddr nv (tgHost t) = None"
  shows "check_authority nv pl (tgHost t) port = Inr (t\<lparr>tgScheme := ''''\<rparr>)"
proof (cases "tgAddr t = NoAddr")
  case True
  from accepted_name [OF assms(1) True] have n: "is_domain_name (tgHost t)" by (rule conjunct1)
  then have "tgHost t \<noteq> ''''" "length (tgHost t) \<le> maxHostLength" by (simp_all add: is_domain_name_def)
  then show ?thesis
    using authority_port [OF assms(1)] assms(3) [OF True] n True assms(1)
    by (auto simp: check_authority_def Let_def domain_name_not_dotted domain_name_lower and_then_Inr check_address_Inr
        split: if_splits option.splits sum.splits)
next
  case False
  then have h: "tgHost t = nvAddrString nv (tgAddr t)" "tgScheme t = ''''"
    using assms(1) by (auto simp: check_authority_def Let_def and_then_Inr split: if_splits option.splits sum.splits)
  show ?thesis
    using authority_port [OF assms(1)] assms(2) [OF False] False h
    by (auto simp: check_authority_def Let_def literal_text_def)
qed

text \<open>The address of a target that the check of a URL accepted, in the form a dialer is given, passes the
  dialer's check under the same policy and gives the same host, port and literal address.\<close>

theorem checked_url_is_dialable:
  assumes "check_url nv pl raw = Inr t"
    and "tgAddr t \<noteq> NoAddr \<longrightarrow> literal_text nv (tgAddr t)" and "tgAddr t = NoAddr \<longrightarrow> nvParseAddr nv (tgHost t) = None"
  shows "check_host_port nv pl (target_address t) = Inr (t\<lparr>tgScheme := ''''\<rparr>)"
proof -
  obtain host port t0 scheme where c: "check_authority nv pl host port = Inr t0" and t: "t = t0\<lparr>tgScheme := scheme\<rparr>"
    and pc: "policy_configured pl = Inr ()"
    using assms(1) by (auto simp: check_url_def Let_def and_then_Inr split: if_splits option.splits)
  have p: "tgPort t = port" "port \<noteq> 0" using authority_port [OF c] t by (auto simp: check_port_def and_then_Inr split: if_splits)
  have a: "check_authority nv pl (tgHost t) port = Inr (t\<lparr>tgScheme := ''''\<rparr>)"
    using authority_again [OF c] assms(2,3) by (simp add: t)
  have "CHR ''['' \<notin> set (tgHost t) \<and> CHR '']'' \<notin> set (tgHost t)"
  proof (cases "tgAddr t0 = NoAddr")
    case True
    then have "is_domain_name (tgHost t0)" using accepted_name [OF c] by blast
    from domain_name_no_colon [OF this] show ?thesis by (simp add: t)
  next
    case False
    then have "tgHost t0 = nvAddrString nv (tgAddr t0)"
      using c by (auto simp: check_authority_def Let_def and_then_Inr split: if_splits option.splits sum.splits)
    with False assms(2) show ?thesis by (simp add: t literal_text_def)
  qed
  moreover have "c \<noteq> CHR '':'' \<and> c \<noteq> CHR ''['' \<and> c \<noteq> CHR '']''" if d: "c \<in> set (nat_dec (unat port))" for c
    using nat_dec_digits [OF d] by auto
  ultimately have s: "split_host_port (target_address t) = Some (tgHost t, nat_dec (unat port))"
    unfolding target_address_def p by (intro split_join_host_port) blast+
  have u: "uint port = int (unat port)" by simp
  have "uint port < 65536" using uint_bounded [of port] by simp
  then have "unat port \<le> 65535" unfolding u by linarith
  then have v: "parse_port (nat_dec (unat port)) = Some (uint port)"
    unfolding u by (rule parse_port_dec)
  show ?thesis
    using p(2) a pc by (simp add: check_host_port_def s v uint_0_iff)
qed

text \<open>The hosts of a name that would be an address to a resolver that reads numbers more liberally: the last
  label may be hexadecimal.\<close>

lemma hexadecimal_host_is_a_name: "is_domain_name ''0x7f000001'' \<and> is_domain_name ''127.0.0.0x1''"
  by code_simp

section \<open>Witnesses\<close>

definition lab_url :: go_url where
  "lab_url = \<lparr>urlScheme = ''HTTPS'', urlOpaque = '''', urlHasUser = False, urlHost = ''Probe.example'', urlHostname = ''Probe.example'',
     urlPort = '''', urlForceQuery = False, urlRawQuery = '''', urlFragment = ''''\<rparr>"

definition lab_env :: net_env where
  "lab_env = \<lparr>nvParseURL = (\<lambda>s. if s = ''HTTPS://Probe.example/'' then Some lab_url else None),
     nvParseAddr = (\<lambda>s. if s = ''10.1.2.3'' then Some (ip4 10 1 2 3) else None),
     nvAddrString = (\<lambda>a. ''10.1.2.3''), nvLowerRune = (\<lambda>r. r)\<rparr>"

definition lab_target :: target where
  "lab_target = \<lparr>tgScheme = ''https'', tgHost = ''probe.example'', tgPort = 443, tgAddr = NoAddr\<rparr>"

lemma lab_target: "check_url lab_env lab_policy ''HTTPS://Probe.example/'' = Inr lab_target"
  by code_simp

theorem checked_url_is_dialable_witness:
  "check_host_port lab_env lab_policy (target_address lab_target) = Inr (lab_target\<lparr>tgScheme := ''''\<rparr>)"
  by (rule checked_url_is_dialable [OF lab_target]) (simp_all add: lab_target_def lab_env_def)

text \<open>A name whose answer holds a metadata endpoint and a private address that the operator allows.\<close>

definition lab_dialer :: "ip_addr list \<Rightarrow> dialer" where
  "lab_dialer answer = \<lparr>dlPolicy = lab_policy, dlLookup = (\<lambda>n h. Inr answer), dlDial = (\<lambda>k n ep. Inr (Some ep))\<rparr>"

lemma lab_dial:
  "dial_context lab_env (lab_dialer [ip4 169 254 169 254, ip4 10 1 2 3]) ''tcp'' ''probe.example:443''
    = (Inr (Some (ip4 10 1 2 3, 443)), [(ip4 10 1 2 3, 443)])"
  by code_simp

theorem dialer_reaches_allowed_only_witness:
  "check_address lab_policy (ip4 10 1 2 3) = Inr (ip4 10 1 2 3) \<and> connected_to (Some (ip4 10 1 2 3, 443)) (ip4 10 1 2 3, 443)"
  using dialer_reaches_allowed_only [OF lab_dial] by (simp add: lab_dialer_def)

lemma lab_denied:
  "lookup_network_for ''tcp'' = Inr ''ip''"
  "check_host_port lab_env lab_policy ''probe.example:443'' = Inr (lab_target\<lparr>tgScheme := ''''\<rparr>)"
  "check_address lab_policy (ip4 169 254 169 254) = Inl (address_denied ClassMetadata)"
  "\<not> is_ok (check_address lab_policy (ip4 169 254 169 254))" "\<not> is_ok (check_address lab_policy (ip4 192 168 0 1))"
  by code_simp+

theorem denied_candidates_are_not_dialed_witness:
  "dial_context lab_env (lab_dialer [ip4 169 254 169 254, ip4 192 168 0 1]) ''tcp'' ''probe.example:443''
    = (Inl (OutboundFailure ReasonAddressDenied ''metadata'' ''probe.example'' 443 None), [])"
proof -
  let ?dl = "lab_dialer [ip4 169 254 169 254, ip4 192 168 0 1]"
  have "dial_context lab_env ?dl ''tcp'' ''probe.example:443''
      = (Inl (with_authority (address_denied ClassMetadata) (tgHost (lab_target\<lparr>tgScheme := ''''\<rparr>)) (tgPort (lab_target\<lparr>tgScheme := ''''\<rparr>))), [])"
    by (rule denied_candidates_are_not_dialed [where lookup = "''ip''" and a = "ip4 169 254 169 254" and as = "[ip4 192 168 0 1]"])
      (use lab_denied in \<open>simp_all add: lab_dialer_def dial_candidates_def lab_target_def maxCandidates_def\<close>)
  then show ?thesis by (simp add: lab_target_def with_authority_def)
qed

section \<open>The loop over the servers\<close>

lemma resolver_servers_Inr:
  "resolver_servers ss = Inr rs \<longleftrightarrow> rs = map (\<lambda>s. (unmap (fst s), snd s)) ss
     \<and> (\<forall>s\<in>set ss. fst s \<noteq> NoAddr \<and> snd s \<noteq> 0 \<and> zone_of (fst s) = '''')"
  by (induction ss arbitrary: rs) (auto simp: and_then_Inr)

declare try_servers.simps [simp del]

lemma try_servers_tried:
  assumes "try_servers dial ordered start offset cause = (r, tried)" and "offset \<le> length ordered"
  shows "(\<exists>n\<le>length ordered. tried = map (server_at ordered start) [offset..<n] \<and> ((\<forall>c. r \<noteq> Inr (Some c)) \<longrightarrow> n = length ordered))"
  using assms
proof (induction dial ordered start offset cause arbitrary: r tried rule: try_servers.induct)
  case (1 dial ordered start offset cause)
  let ?s = "server_at ordered start offset"
  show ?case
  proof (cases "length ordered \<le> offset")
    case True
    then show ?thesis using "1.prems" by (subst (asm) try_servers.simps) (auto intro!: exI [of _ "length ordered"])
  next
    case less: False
    show ?thesis
    proof (cases "dial ?s")
      case (Inr c)
      then show ?thesis using "1.prems" less
        by (subst (asm) try_servers.simps) (auto simp: Let_def intro!: exI [of _ "Suc offset"])
    next
      case (Inl e)
      obtain r' tried' where t: "try_servers dial ordered start (offset + 1) (Some e) = (r', tried')" by force
      have e: "r = r'" "tried = ?s # tried'"
        using "1.prems" less Inl t by (subst (asm) try_servers.simps; simp add: Let_def)+
      obtain n where n: "n \<le> length ordered" "tried' = map (server_at ordered start) [offset + 1..<n]"
        "(\<forall>c. r' \<noteq> Inr (Some c)) \<longrightarrow> n = length ordered"
        using "1.IH" [OF less refl Inl t] less by auto
      show ?thesis
      proof (cases "offset < n")
        case True
        then have "tried = map (server_at ordered start) [offset..<n]" using e(2) n(2) by (simp add: upt_conv_Cons)
        then show ?thesis using n e(1) by blast
      next
        case False
        then have "tried = map (server_at ordered start) [offset..<Suc offset]" using e(2) n(2) by simp
        moreover have "\<not> (\<forall>c. r \<noteq> Inr (Some c))" using False n(3) less e(1) by auto
        ultimately show ?thesis using less by (intro exI [of _ "Suc offset"]) auto
      qed
    qed
  qed
qed

lemma servers_rotate:
  assumes "unat start + length ordered \<le> 2 ^ 64"
  shows "map (server_at ordered start) [0..<length ordered] = rotate (unat start) ordered"
proof (rule nth_equalityI)
  fix i assume "i < length (map (server_at ordered start) [0..<length ordered])"
  then have i: "i < length ordered" by simp
  then have "unat start + i < 2 ^ 64" using assms by linarith
  moreover have "unat (of_nat i :: 64 word) = i"
    using i assms by (simp add: unat_of_nat)
  ultimately have "unat (start + of_nat i) = unat start + i"
    by (simp add: unat_word_ariths)
  then show "map (server_at ordered start) [0..<length ordered] ! i = rotate (unat start) ordered ! i"
    using i by (simp add: server_at_def nth_rotate)
qed simp

lemma mset_rotate: "mset (rotate n xs) = mset xs"
proof -
  have "mset (rotate1 ys) = mset ys" for ys :: "'a list" by (cases ys) simp_all
  then show ?thesis by (induction n) simp_all
qed

text \<open>A query of a trusted resolver ends after at most one attempt at each configured server, goes to no
  other server, and fails only when every one of them has been tried.\<close>

theorem resolver_query_ends:
  assumes "server_dialer servers = Inr ordered" and "unat start + length ordered \<le> 2 ^ 64"
    and "try_servers dial ordered start 0 None = (r, tried)"
  shows "length tried \<le> length servers \<and> set tried \<subseteq> (\<lambda>s. (unmap (fst s), snd s)) ` set servers
    \<and> ((\<forall>c. r \<noteq> Inr (Some c)) \<longrightarrow> mset tried = mset (map (\<lambda>s. (unmap (fst s), snd s)) servers))"
proof -
  have o: "ordered = map (\<lambda>s. (unmap (fst s), snd s)) servers"
    using assms(1) by (auto simp: server_dialer_def resolver_servers_Inr split: if_splits)
  obtain n where n: "n \<le> length ordered" "tried = map (server_at ordered start) [0..<n]"
    "(\<forall>c. r \<noteq> Inr (Some c)) \<longrightarrow> n = length ordered"
    using try_servers_tried [OF assms(3)] by auto
  have "tried = take n (map (server_at ordered start) [0..<length ordered])"
    using n(1,2) by (simp add: take_map)
  then have t: "tried = take n (rotate (unat start) ordered)" by (simp add: servers_rotate [OF assms(2)])
  have m: "mset (rotate (unat start) ordered) = mset ordered"
    by (rule mset_rotate)
  have "set tried \<subseteq> set ordered" unfolding t using set_take_subset [of n "rotate (unat start) ordered"] by simp
  moreover have "mset tried = mset ordered" if "n = length ordered" using that m by (simp add: t)
  ultimately show ?thesis using n by (simp add: o)
qed

theorem resolver_query_ends_witness:
  "mset (snd (try_servers (\<lambda>s. Inl (ErrText ''refused'') :: unit result) [(ip4 9 9 9 9, 53), (ip4 1 1 1 1, 53)] 3 0 None))
    = mset (map (\<lambda>s. (unmap (fst s), snd s)) [(ip4 9 9 9 9, 53), (ip4 1 1 1 1, 53)])"
proof -
  let ?ss = "[(ip4 9 9 9 9, 53), (ip4 1 1 1 1, 53)] :: endpoint list"
  have s: "server_dialer ?ss = Inr ?ss" by code_simp
  have t: "try_servers (\<lambda>s. Inl (ErrText ''refused'') :: unit result) ?ss 3 0 None
      = (Inl (ErrText ''refused''), [(ip4 1 1 1 1, 53), (ip4 9 9 9 9, 53)])"
    by code_simp
  have "unat (3 :: 64 word) + length ?ss \<le> 2 ^ 64" by simp
  from resolver_query_ends [OF s this t] show ?thesis unfolding t snd_conv by blast
qed

end
