(* ===== verification/Check.thy ===== *)
theory Check
  imports Text
begin

text \<open>
  The check catalog and the validation of HTTP check configurations: \<open>internal/check\<close>.

  A document is read through the token stream of \<open>encoding/json\<close>: \<open>cvTokens\<close> gives the tokens of a
  text with whether the text ends after them (otherwise an error follows). \<open>json.Compact\<close>,
  \<open>url.Parse\<close> and \<open>unicode.ToLower\<close> beyond ASCII are parameters as well.
\<close>

section \<open>Documents\<close>

datatype json_token =
    TNull | TBool bool | TString string | TNumber string | TObjectOpen | TObjectClose | TArrayOpen | TArrayClose

datatype json_value =
    NullValue | BoolValue bool | StringValue string | NumberValue string
  | ArrayValue "json_value list" | ObjectValue "(string \<times> json_value) list"

record check_parsers =
  cvTokens :: "string \<Rightarrow> json_token list \<times> bool"
  cvCompact :: "string \<Rightarrow> string option"
  cvParseURL :: "string \<Rightarrow> go_url option"
  cvLowerRune :: "int \<Rightarrow> int"

text \<open>
  \<open>decodeValue\<close> and its two loops, on the tokens that are left. \<open>More\<close> is false when the next token
  closes. \<open>None\<close> is a decoder that has run out of fuel, \<open>Some (Inl e)\<close> an error of the source, which
  \<open>token_then\<close> passes on.
\<close>

definition token_then :: "'a result option \<Rightarrow> ('a \<Rightarrow> 'b result option) \<Rightarrow> 'b result option" where
  "token_then r f = (case r of None \<Rightarrow> None | Some (Inl e) \<Rightarrow> Some (Inl e) | Some (Inr x) \<Rightarrow> f x)"

lemma token_then_cong [fundef_cong]: "r = r' \<Longrightarrow> (\<And>x. r' = Some (Inr x) \<Longrightarrow> f x = f' x) \<Longrightarrow> token_then r f = token_then r' f'"
  by (simp add: token_then_def split: option.split sum.split)

fun closes :: "json_token \<Rightarrow> bool" where
  "closes TObjectClose = True"
| "closes TArrayClose = True"
| "closes t = False"

fun scalar_value :: "json_token \<Rightarrow> json_value option" where
  "scalar_value TNull = Some NullValue"
| "scalar_value (TBool b) = Some (BoolValue b)"
| "scalar_value (TString s) = Some (StringValue s)"
| "scalar_value (TNumber s) = Some (NumberValue s)"
| "scalar_value t = None"

fun
  decode_value :: "nat \<Rightarrow> json_token list \<Rightarrow> (json_value \<times> json_token list) result option" and
  decode_members :: "nat \<Rightarrow> json_token list \<Rightarrow> ((string \<times> json_value) list \<times> json_token list) result option" and
  decode_elements :: "nat \<Rightarrow> json_token list \<Rightarrow> (json_value list \<times> json_token list) result option" where
  "decode_value 0 ts = None"
| "decode_value (Suc n) [] = Some (Inl (ErrText ''EOF''))"
| "decode_value (Suc n) (t # rest) =
     (if t = TObjectOpen then token_then (decode_members n rest) (\<lambda>(ps, rest'). Some (Inr (ObjectValue ps, rest')))
      else if t = TArrayOpen then token_then (decode_elements n rest) (\<lambda>(vs, rest'). Some (Inr (ArrayValue vs, rest')))
      else case scalar_value t of
        Some v \<Rightarrow> Some (Inr (v, rest))
      | None \<Rightarrow> Some (Inl (ErrText ''unsupported JSON token'')))"
| "decode_members 0 ts = None"
| "decode_members (Suc n) [] = Some (Inl (ErrText ''EOF''))"
| "decode_members (Suc n) (t # rest) =
     (if closes t then Some (Inr ([], rest))
      else case t of
        TString name \<Rightarrow>
          token_then (decode_value n rest) (\<lambda>(child, rest').
            token_then (decode_members n rest') (\<lambda>(ps, rest''). Some (Inr ((name, child) # ps, rest''))))
      | _ \<Rightarrow> Some (Inl (ErrText ''object property name is not a string'')))"
| "decode_elements 0 ts = None"
| "decode_elements (Suc n) [] = Some (Inl (ErrText ''EOF''))"
| "decode_elements (Suc n) (t # rest) =
     (if closes t then Some (Inr ([], rest))
      else token_then (decode_value n (t # rest)) (\<lambda>(child, rest').
        token_then (decode_elements n rest') (\<lambda>(vs, rest''). Some (Inr (child # vs, rest'')))))"

definition decode_document :: "check_parsers \<Rightarrow> string \<Rightarrow> json_value result" where
  "decode_document cv raw =
     (case cvTokens cv raw of (ts, ended) \<Rightarrow>
        (case decode_value (2 * length ts + 2) ts of
           None \<Rightarrow> Inl (ErrText ''out of fuel'')
         | Some (Inl e) \<Rightarrow> Inl e
         | Some (Inr (v, rest)) \<Rightarrow>
             if rest \<noteq> [] then Inl (ErrText ''JSON contains a trailing value'')
             else if \<not> ended then Inl (ErrText ''invalid JSON'')
             else Inr v))"

section \<open>HTTP configurations\<close>

type_synonym failure = "string \<times> string \<times> string"

definition quoted :: "string \<Rightarrow> string" where "quoted s = [CHR 0x27] @ s @ [CHR 0x27]"

record http_header =
  hdName :: string
  hdValue :: string

record http_configuration =
  hcURL :: string
  hcMethod :: string
  hcExpectedStatusCodes :: "int list"
  hcTimeoutSeconds :: int
  hcFollowRedirects :: bool
  hcMaxRedirects :: int
  hcHeaders :: "http_header list"

definition HTTPCheckType :: string where "HTTPCheckType = ''http''"
definition HTTPCurrentSchemaVersion :: int where "HTTPCurrentSchemaVersion = 1"
definition MaxDocumentBytes :: nat where "MaxDocumentBytes = 16 * 1024"
definition MaxCheckURLLength :: nat where "MaxCheckURLLength = 2048"
definition MinTimeoutSeconds :: int where "MinTimeoutSeconds = 1"
definition MaxTimeoutSeconds :: int where "MaxTimeoutSeconds = 60"
definition DefaultTimeoutSeconds :: int where "DefaultTimeoutSeconds = 30"
definition MaxRedirects :: int where "MaxRedirects = 10"
definition DefaultMaxRedirects :: int where "DefaultMaxRedirects = 5"
definition MaxExpectedStatusCodes :: nat where "MaxExpectedStatusCodes = 20"
definition MaxHeaders :: nat where "MaxHeaders = 20"
definition MaxHeaderNameLength :: nat where "MaxHeaderNameLength = 128"
definition MaxHeaderValueLength :: nat where "MaxHeaderValueLength = 1024"
definition DefaultMethod :: string where "DefaultMethod = ''GET''"

definition allowedMethods :: "string list" where
  "allowedMethods = [''GET'', ''HEAD'', ''POST'', ''PUT'', ''PATCH'', ''DELETE'', ''OPTIONS'']"

definition forbiddenHeaderNames :: "string list" where
  "forbiddenHeaderNames = [''authorization'', ''proxy-authorization'', ''cookie'', ''host'', ''content-length'', ''transfer-encoding'']"

definition accepts_status :: "http_configuration \<Rightarrow> int \<Rightarrow> bool" where
  "accepts_status c status =
     (if hcExpectedStatusCodes c = [] then 200 \<le> status \<and> status \<le> 299
      else status \<in> set (hcExpectedStatusCodes c))"

text \<open>\<open>strconv.ParseInt(text, 10, 32)\<close>.\<close>

definition decimal_digits :: "string \<Rightarrow> int option" where
  "decimal_digits s =
     (if s = '''' \<or> list_ex (\<lambda>c. byte c < 48 \<or> 57 < byte c) s then None
      else Some (foldl (\<lambda>n c. n * 10 + (byte c - 48)) 0 s))"

definition parse_int32 :: "string \<Rightarrow> int option" where
  "parse_int32 s =
     (case s of
        [] \<Rightarrow> None
      | c # cs \<Rightarrow>
          (case decimal_digits (if c = CHR ''-'' \<or> c = CHR ''+'' then cs else s) of
             None \<Rightarrow> None
           | Some n \<Rightarrow>
               let v = (if c = CHR ''-'' then - n else n)
               in if v < - (2 ^ 31) \<or> 2 ^ 31 \<le> v then None else Some v))"

definition integer32 :: "json_value \<Rightarrow> int option" where
  "integer32 v = (case v of NumberValue t \<Rightarrow> parse_int32 t | _ \<Rightarrow> None)"

definition validate_url :: "check_parsers \<Rightarrow> json_value \<Rightarrow> http_configuration \<Rightarrow> http_configuration \<times> failure list" where
  "validate_url cv v c =
     (let field = ''checkConfiguration.url'';
          not_absolute = (''check.http.url.notAbsolute'', field, ''The value must be an absolute URL.'')
      in case v of
        StringValue t \<Rightarrow>
          if utf16_length t > MaxCheckURLLength then
            (c, [(''check.http.url.tooLong'', field, ''The URL must not exceed 2048 characters.'')])
          else (case cvParseURL cv t of
            None \<Rightarrow> (c, [not_absolute])
          | Some u \<Rightarrow>
              if urlScheme u = '''' \<and> take 2 t \<noteq> ''//'' then (c, [not_absolute])
              else
                let scheme = to_lower (cvLowerRune cv) (urlScheme u);
                    web = (scheme = ''http'' \<or> scheme = ''https'');
                    f1 = (if web then [] else [(''check.http.url.scheme'', field, ''The URL scheme must be '' @ quoted ''http'' @ '' or '' @ quoted ''https'' @ ''.'')])
                in if web \<and> urlHost u = '''' then (c, f1 @ [not_absolute])
                   else (c\<lparr>hcURL := t\<rparr>,
                     f1 @ (if urlHasUser u then [(''check.http.url.userInfo'', field, ''The URL must not carry user information.'')] else [])
                        @ (if CHR ''#'' \<in> set t then [(''check.http.url.fragment'', field, ''The URL must not carry a fragment.'')] else [])))
      | _ \<Rightarrow> (c, [(''check.http.url.notString'', field, ''The value must be a string.'')]))"

definition validate_method :: "json_value \<Rightarrow> http_configuration \<Rightarrow> http_configuration \<times> failure list" where
  "validate_method v c =
     (case v of
        StringValue t \<Rightarrow>
          if t \<notin> set allowedMethods then
            (c, [(''check.http.method.unsupported'', ''checkConfiguration.method'',
              ''The method must be one of: GET, HEAD, POST, PUT, PATCH, DELETE, OPTIONS.'')])
          else (c\<lparr>hcMethod := t\<rparr>, [])
      | _ \<Rightarrow> (c, [(''check.http.method.notString'', ''checkConfiguration.method'', ''The value must be a string.'')]))"

definition indexed :: "string \<Rightarrow> nat \<Rightarrow> string" where
  "indexed field i = field @ ''['' @ nat_dec i @ '']''"

text \<open>The loop over the status codes, after the given index and with the codes seen so far.\<close>

fun status_codes :: "nat \<Rightarrow> int list \<Rightarrow> json_value list \<Rightarrow> int list \<times> failure list" where
  "status_codes i seen [] = ([], [])"
| "status_codes i seen (v # vs) =
     (let field = indexed ''checkConfiguration.expectedStatusCodes'' i
      in case integer32 v of
        None \<Rightarrow>
          (case status_codes (i + 1) seen vs of (cs, fs) \<Rightarrow>
             (cs, (''check.http.expectedStatusCodes.notInteger'', field, ''The value must be an integer.'') # fs))
      | Some code \<Rightarrow>
          if code < 100 \<or> code > 599 then
            (case status_codes (i + 1) seen vs of (cs, fs) \<Rightarrow>
               (cs, (''check.http.expectedStatusCodes.outOfRange'', field, ''Status codes must be between 100 and 599.'') # fs))
          else if code \<in> set seen then
            (case status_codes (i + 1) seen vs of (cs, fs) \<Rightarrow>
               (cs, (''check.http.expectedStatusCodes.duplicate'', field,
                 ''Status code '' @ int_dec code @ '' is listed more than once.'') # fs))
          else (case status_codes (i + 1) (code # seen) vs of (cs, fs) \<Rightarrow> (code # cs, fs)))"

definition validate_expected_status_codes :: "json_value \<Rightarrow> http_configuration \<Rightarrow> http_configuration \<times> failure list" where
  "validate_expected_status_codes v c =
     (case v of
        ArrayValue vs \<Rightarrow>
          if length vs > MaxExpectedStatusCodes then
            (c, [(''check.http.expectedStatusCodes.tooMany'', ''checkConfiguration.expectedStatusCodes'',
              ''At most 20 status codes are allowed.'')])
          else (case status_codes 0 [] vs of (cs, fs) \<Rightarrow> (c\<lparr>hcExpectedStatusCodes := cs\<rparr>, fs))
      | _ \<Rightarrow> (c, [(''check.http.expectedStatusCodes.notArray'', ''checkConfiguration.expectedStatusCodes'',
          ''The value must be an array of integers.'')]))"

definition validate_bounded_integer ::
  "json_value \<Rightarrow> string \<Rightarrow> string \<Rightarrow> int \<Rightarrow> int \<Rightarrow> int option \<times> failure list" where
  "validate_bounded_integer v subject field minimum maximum =
     (case integer32 v of
        None \<Rightarrow> (None, [(''check.http.'' @ subject @ ''.notInteger'', field, ''The value must be an integer.'')])
      | Some n \<Rightarrow>
          if n < minimum \<or> n > maximum then
            (None, [(''check.http.'' @ subject @ ''.outOfRange'', field,
              ''The value must be between '' @ int_dec minimum @ '' and '' @ int_dec maximum @ ''.'')])
          else (Some n, []))"

definition is_token_character :: "char \<Rightarrow> bool" where
  "is_token_character c \<longleftrightarrow> (97 \<le> byte c \<and> byte c \<le> 122) \<or> (65 \<le> byte c \<and> byte c \<le> 90) \<or> (48 \<le> byte c \<and> byte c \<le> 57)
     \<or> c \<in> {CHR ''!'', CHR ''#'', CHR ''$'', CHR ''%'', CHR ''&'', CHR 0x27, CHR ''*'', CHR ''+'', CHR ''-'', CHR ''.'',
          CHR ''^'', CHR ''_'', CHR 0x60, CHR ''|'', CHR ''~''}"

definition validate_header_name ::
  "check_parsers \<Rightarrow> string \<Rightarrow> string \<Rightarrow> string list \<Rightarrow> string list option \<times> failure list" where
  "validate_header_name cv name field seen =
     (if name = '''' \<or> length name > MaxHeaderNameLength \<or> \<not> list_all is_token_character name then
        (None, [(''check.http.headers.name.invalid'', field, ''Header names must be HTTP tokens of at most 128 characters.'')])
      else
        let normalized = to_lower (cvLowerRune cv) name
        in if normalized \<in> set forbiddenHeaderNames then
             (None, [(''check.http.headers.name.forbidden'', field,
               ''The header '' @ quoted name @ '' cannot be set by check configuration.'')])
           else if normalized \<in> set seen then
             (None, [(''check.http.headers.name.duplicate'', field,
               ''The header '' @ quoted name @ '' is listed more than once.'')])
           else (Some (normalized # seen), []))"

definition validate_header_value :: "string \<Rightarrow> string \<Rightarrow> failure list" where
  "validate_header_value v field =
     (if utf16_length v > MaxHeaderValueLength then
        [(''check.http.headers.value.tooLong'', field, ''Header values must not exceed 1024 characters.'')]
      else if list_ex is_control (runes v) then
        [(''check.http.headers.value.controlCharacter'', field, ''Header values must not contain control characters.'')]
      else [])"

text \<open>
  The loop over the properties of a header: the name and the value read so far; \<open>None\<close> is its early
  return.
\<close>

fun header_properties ::
  "string \<Rightarrow> string option \<Rightarrow> string option \<Rightarrow> (string \<times> json_value) list \<Rightarrow> (string option \<times> string option) option \<times> failure list" where
  "header_properties field name value [] = (Some (name, value), [])"
| "header_properties field name value (p # ps) =
     (if fst p = ''name'' then
        (case snd p of
           StringValue t \<Rightarrow> header_properties field (Some t) value ps
         | _ \<Rightarrow> (None, [(''check.http.headers.name.notString'', field @ ''.name'', ''The value must be a string.'')]))
      else if fst p = ''value'' then
        (case snd p of
           StringValue t \<Rightarrow>
             (case header_properties field name (Some t) ps of (r, fs) \<Rightarrow> (r, validate_header_value t (field @ ''.value'') @ fs))
         | _ \<Rightarrow> (None, [(''check.http.headers.value.notString'', field @ ''.value'', ''The value must be a string.'')]))
      else (None, [(''check.http.headers.entry.unknownField'', field @ ''.'' @ fst p, ''The field is not part of a header entry.'')]))"

definition validate_header ::
  "check_parsers \<Rightarrow> json_value \<Rightarrow> string \<Rightarrow> string list \<Rightarrow> http_header option \<times> string list \<times> failure list" where
  "validate_header cv entry field seen =
     (let incomplete = (''check.http.headers.entry.notObject'', field, ''Each header must be an object with '' @ quoted ''name'' @ '' and '' @ quoted ''value'' @ ''.'')
      in case entry of
        ObjectValue ps \<Rightarrow>
          (case header_properties field None None ps of
             (None, fs) \<Rightarrow> (None, seen, fs)
           | (Some (Some name, Some v), fs) \<Rightarrow>
               (case validate_header_name cv name (field @ ''.name'') seen of
                  (None, gs) \<Rightarrow> (None, seen, fs @ gs)
                | (Some seen', gs) \<Rightarrow> (Some \<lparr>hdName = name, hdValue = v\<rparr>, seen', fs @ gs))
           | (Some _, fs) \<Rightarrow> (None, seen, fs @ [incomplete]))
      | _ \<Rightarrow> (None, seen, [incomplete]))"

fun header_list :: "check_parsers \<Rightarrow> nat \<Rightarrow> string list \<Rightarrow> json_value list \<Rightarrow> http_header list \<times> failure list" where
  "header_list cv i seen [] = ([], [])"
| "header_list cv i seen (v # vs) =
     (case validate_header cv v (indexed ''checkConfiguration.headers'' i) seen of
        (h, seen', fs) \<Rightarrow>
          (case header_list cv (i + 1) seen' vs of
             (hs, gs) \<Rightarrow> ((case h of None \<Rightarrow> hs | Some x \<Rightarrow> x # hs), fs @ gs)))"

definition validate_headers :: "check_parsers \<Rightarrow> json_value \<Rightarrow> http_configuration \<Rightarrow> http_configuration \<times> failure list" where
  "validate_headers cv v c =
     (case v of
        ArrayValue vs \<Rightarrow>
          if length vs > MaxHeaders then
            (c, [(''check.http.headers.tooMany'', ''checkConfiguration.headers'', ''At most 20 headers are allowed.'')])
          else (case header_list cv 0 [] vs of (hs, fs) \<Rightarrow> (c\<lparr>hcHeaders := hs\<rparr>, fs))
      | _ \<Rightarrow> (c, [(''check.http.headers.notArray'', ''checkConfiguration.headers'',
          ''The value must be an array of name/value objects.'')]))"

text \<open>One property of the document.\<close>

definition validate_property ::
  "check_parsers \<Rightarrow> string \<times> json_value \<Rightarrow> http_configuration \<Rightarrow> http_configuration \<times> failure list" where
  "validate_property cv p c =
     (if fst p = ''url'' then validate_url cv (snd p) c
      else if fst p = ''method'' then validate_method (snd p) c
      else if fst p = ''expectedStatusCodes'' then validate_expected_status_codes (snd p) c
      else if fst p = ''timeoutSeconds'' then
        (case validate_bounded_integer (snd p) ''timeoutSeconds'' ''checkConfiguration.timeoutSeconds'' MinTimeoutSeconds MaxTimeoutSeconds of
           (Some n, fs) \<Rightarrow> (c\<lparr>hcTimeoutSeconds := n\<rparr>, fs) | (None, fs) \<Rightarrow> (c, fs))
      else if fst p = ''followRedirects'' then
        (case snd p of
           BoolValue b \<Rightarrow> (c\<lparr>hcFollowRedirects := b\<rparr>, [])
         | _ \<Rightarrow> (c, [(''check.http.followRedirects.notBoolean'', ''checkConfiguration.followRedirects'', ''The value must be a boolean.'')]))
      else if fst p = ''maxRedirects'' then
        (case validate_bounded_integer (snd p) ''maxRedirects'' ''checkConfiguration.maxRedirects'' 0 MaxRedirects of
           (Some n, fs) \<Rightarrow> (c\<lparr>hcMaxRedirects := n\<rparr>, fs) | (None, fs) \<Rightarrow> (c, fs))
      else if fst p = ''headers'' then validate_headers cv (snd p) c
      else (c, [(''check.http.field.unknown'', ''checkConfiguration.'' @ fst p,
        ''The field is not part of '' @ quoted ''http'' @ '' configuration schema version 1.'')]))"

fun validate_properties ::
  "check_parsers \<Rightarrow> (string \<times> json_value) list \<Rightarrow> http_configuration \<Rightarrow> http_configuration \<times> failure list" where
  "validate_properties cv [] c = (c, [])"
| "validate_properties cv (p # ps) c =
     (case validate_property cv p c of (c', fs) \<Rightarrow>
        (case validate_properties cv ps c' of (c'', gs) \<Rightarrow> (c'', fs @ gs)))"

definition default_configuration :: http_configuration where
  "default_configuration =
     \<lparr>hcURL = '''', hcMethod = DefaultMethod, hcExpectedStatusCodes = [], hcTimeoutSeconds = DefaultTimeoutSeconds,
      hcFollowRedirects = True, hcMaxRedirects = DefaultMaxRedirects, hcHeaders = []\<rparr>"

text \<open>The failures, or the effective values with the compact document.\<close>

definition validate_http :: "check_parsers \<Rightarrow> int \<Rightarrow> string \<Rightarrow> failure list + http_configuration \<times> string" where
  "validate_http cv schema raw =
     (let not_object = (''check.configuration.notObject'', ''checkConfiguration'', ''The configuration must be a JSON object.'')
      in if schema \<noteq> HTTPCurrentSchemaVersion then
           Inl [(''check.schemaVersion.unsupported'', ''checkSchemaVersion'',
             ''Check type '' @ quoted ''http'' @ '' supports configuration schema version 1 only.'')]
         else case decode_document cv raw of
           Inr (ObjectValue ps) \<Rightarrow>
             if length raw > MaxDocumentBytes then
               Inl [(''check.configuration.tooLarge'', ''checkConfiguration'', ''The configuration document must not exceed 16384 bytes.'')]
             else (case validate_properties cv ps default_configuration of
               (c, fs) \<Rightarrow>
                 let result = fs @ (if ''url'' \<in> fst ` set ps then [] else
                       [(''check.http.url.required'', ''checkConfiguration.url'', ''The field is required.'')])
                 in if result \<noteq> [] then Inl result
                    else case cvCompact cv raw of None \<Rightarrow> Inl [not_object] | Some compact \<Rightarrow> Inr (c, compact))
         | _ \<Rightarrow> Inl [not_object])"

section \<open>The catalog\<close>

definition catalog_is_supported :: "string \<Rightarrow> bool" where
  "catalog_is_supported check_type \<longleftrightarrow> check_type = HTTPCheckType"

definition catalog_validate :: "check_parsers \<Rightarrow> string \<Rightarrow> int \<Rightarrow> string \<Rightarrow> string \<times> failure list" where
  "catalog_validate cv check_type schema raw =
     (if check_type \<noteq> HTTPCheckType then
        ('''', [(''check.checkType.unsupported'', ''checkType'',
          ''The check type '' @ quoted check_type @ '' is not supported by this build.'')])
      else case validate_http cv schema raw of Inl fs \<Rightarrow> ('''', fs) | Inr (c, canonical) \<Rightarrow> (canonical, []))"

section \<open>Decoding ends\<close>

lemma token_then_Some:
  "token_then r f = Some q \<longleftrightarrow> (\<exists>e. r = Some (Inl e) \<and> q = Inl e) \<or> (\<exists>x. r = Some (Inr x) \<and> f x = Some q)"
  by (auto simp: token_then_def split: option.splits sum.splits)

lemma decode_mono:
  "decode_value n ts = Some r \<Longrightarrow> n \<le> m \<Longrightarrow> decode_value m ts = Some r"
  "decode_members n ts = Some q \<Longrightarrow> n \<le> m \<Longrightarrow> decode_members m ts = Some q"
  "decode_elements n ts = Some l \<Longrightarrow> n \<le> m \<Longrightarrow> decode_elements m ts = Some l"
proof (induction n arbitrary: ts r q l m)
  case (Suc n)
  {
    case 1
    then obtain k where m: "m = Suc k" "n \<le> k" by (cases m) auto
    show ?case using 1 Suc.IH(2,3) [OF _ m(2)]
      by (cases ts) (auto simp: m token_then_Some split: if_splits option.splits)
  next
    case 2
    then obtain k where m: "m = Suc k" "n \<le> k" by (cases m) auto
    show ?case using 2 Suc.IH(1,2) [OF _ m(2)]
      by (cases ts) (fastforce simp: m token_then_Some split: if_splits json_token.splits)+
  next
    case 3
    then obtain k where m: "m = Suc k" "n \<le> k" by (cases m) auto
    show ?case using 3 Suc.IH(1,3) [OF _ m(2)]
      by (cases ts) (fastforce simp: m token_then_Some split: if_splits)+
  }
qed simp_all

definition ends_shorter :: "('a \<times> json_token list) result option \<Rightarrow> json_token list \<Rightarrow> bool" where
  "ends_shorter r ts \<longleftrightarrow> (\<exists>q. r = Some q \<and> (\<forall>x rest. q = Inr (x, rest) \<longrightarrow> length rest < length ts))"

lemma token_then_shorter:
  assumes "ends_shorter r ts" and "\<And>x rest. length rest < length ts \<Longrightarrow> ends_shorter (f (x, rest)) us"
  shows "ends_shorter (token_then r f) us"
  using assms by (auto simp: ends_shorter_def token_then_def split: sum.split)

lemma decode_ends:
  "2 * length ts < n \<Longrightarrow> ends_shorter (decode_value n ts) ts"
  "2 * length ts + 1 < n \<Longrightarrow> ends_shorter (decode_members n ts) ts"
  "2 * length ts + 1 < n \<Longrightarrow> ends_shorter (decode_elements n ts) ts"
proof (induction n arbitrary: ts)
  case (Suc n)
  {
    case 1
    show ?case
    proof (cases ts)
      case (Cons t rest)
      then have l: "2 * length rest + 1 < n" using 1 by simp
      have "ends_shorter (token_then (decode_members n rest) (\<lambda>(ps, rest'). Some (Inr (ObjectValue ps, rest')))) ts"
        by (rule token_then_shorter [OF Suc.IH(2) [OF l]]) (simp add: ends_shorter_def Cons)
      moreover have "ends_shorter (token_then (decode_elements n rest) (\<lambda>(vs, rest'). Some (Inr (ArrayValue vs, rest')))) ts"
        by (rule token_then_shorter [OF Suc.IH(3) [OF l]]) (simp add: ends_shorter_def Cons)
      ultimately show ?thesis by (auto simp: Cons ends_shorter_def split: option.split)
    qed (simp add: ends_shorter_def)
  next
    case 2
    show ?case
    proof (cases ts)
      case (Cons t rest)
      then have l: "2 * length rest < n" using 2 by simp
      have "ends_shorter (token_then (decode_value n rest) (\<lambda>(child, rest').
            token_then (decode_members n rest') (\<lambda>(ps, rest''). Some (Inr ((name, child) # ps, rest''))))) ts" for name
      proof (rule token_then_shorter [OF Suc.IH(1) [OF l]])
        fix child :: json_value and rest' :: "json_token list" assume r: "length rest' < length rest"
        then have "2 * length rest' + 1 < n" using l by simp
        from token_then_shorter [OF Suc.IH(2) [OF this], of "\<lambda>(ps, rest''). Some (Inr ((name, child) # ps, rest''))" ts] r
        show "ends_shorter ((\<lambda>(child, rest'). token_then (decode_members n rest') (\<lambda>(ps, rest''). Some (Inr ((name, child) # ps, rest'')))) (child, rest')) ts"
          by (simp add: ends_shorter_def Cons)
      qed
      then show ?thesis by (auto simp: Cons ends_shorter_def split: json_token.split)
    qed (simp add: ends_shorter_def)
  next
    case 3
    show ?case
    proof (cases ts)
      case (Cons t rest)
      then have l: "2 * length (t # rest) < n" using 3 by simp
      have "ends_shorter (token_then (decode_value n (t # rest)) (\<lambda>(child, rest').
            token_then (decode_elements n rest') (\<lambda>(vs, rest''). Some (Inr (child # vs, rest''))))) ts"
      proof (rule token_then_shorter [OF Suc.IH(1) [OF l]])
        fix child :: json_value and rest' :: "json_token list" assume r: "length rest' < length (t # rest)"
        then have "2 * length rest' + 1 < n" using l by simp
        from token_then_shorter [OF Suc.IH(3) [OF this], of "\<lambda>(vs, rest''). Some (Inr (child # vs, rest''))" ts] r
        show "ends_shorter ((\<lambda>(child, rest'). token_then (decode_elements n rest') (\<lambda>(vs, rest''). Some (Inr (child # vs, rest'')))) (child, rest')) ts"
          by (simp add: ends_shorter_def Cons)
      qed
      then show ?thesis by (auto simp: Cons ends_shorter_def)
    qed (simp add: ends_shorter_def)
  }
qed simp_all

text \<open>Decoding a document ends: the fuel of the model, twice the number of tokens, is enough for every
  sequence of tokens, more fuel gives the same result, and a value is made of at least one token.\<close>

theorem decoding_ends:
  assumes "2 * length ts + 2 \<le> n"
  shows "decode_value n ts = decode_value (2 * length ts + 2) ts
    \<and> (\<exists>r. decode_value n ts = Some r \<and> (\<forall>v rest. r = Inr (v, rest) \<longrightarrow> length rest < length ts))"
proof -
  have "ends_shorter (decode_value (2 * length ts + 2) ts) ts" by (rule decode_ends) simp
  then obtain r where r: "decode_value (2 * length ts + 2) ts = Some r"
    and s: "\<forall>v rest. r = Inr (v, rest) \<longrightarrow> length rest < length ts"
    by (auto simp: ends_shorter_def)
  have "decode_value n ts = Some r" by (rule decode_mono(1) [OF r assms])
  with r s show ?thesis by simp
qed

theorem decoding_ends_witness:
  "decode_value 20 [TArrayOpen, TNumber ''1'', TObjectOpen, TString ''a'', TNull, TObjectClose, TArrayClose]
    = Some (Inr (ArrayValue [NumberValue ''1'', ObjectValue [(''a'', NullValue)]], []))"
  using decoding_ends [of "[TArrayOpen, TNumber ''1'', TObjectOpen, TString ''a'', TNull, TObjectClose, TArrayClose]" 20]
  by (simp add: token_then_def numeral_eq_Suc)

section \<open>Decoding inverts printing\<close>

text \<open>The tokens of a value.\<close>

fun tokens_of :: "json_value \<Rightarrow> json_token list"
  and member_tokens :: "(string \<times> json_value) list \<Rightarrow> json_token list"
  and element_tokens :: "json_value list \<Rightarrow> json_token list" where
  "tokens_of NullValue = [TNull]"
| "tokens_of (BoolValue b) = [TBool b]"
| "tokens_of (StringValue s) = [TString s]"
| "tokens_of (NumberValue s) = [TNumber s]"
| "tokens_of (ArrayValue vs) = TArrayOpen # element_tokens vs @ [TArrayClose]"
| "tokens_of (ObjectValue ps) = TObjectOpen # member_tokens ps @ [TObjectClose]"
| "member_tokens [] = []"
| "member_tokens ((k, v) # ps) = TString k # tokens_of v @ member_tokens ps"
| "element_tokens [] = []"
| "element_tokens (v # vs) = tokens_of v @ element_tokens vs"

lemma tokens_of_hd: "\<exists>t ts. tokens_of v = t # ts \<and> \<not> closes t"
  by (cases v) simp_all

text \<open>The fuel is taken from the tokens; more of it changes nothing.\<close>

lemma decode_tokens:
  "\<exists>n. decode_value n (tokens_of v @ rest) = Some (Inr (v, rest))"
  "\<exists>n. decode_members n (member_tokens ps @ TObjectClose # rest) = Some (Inr (ps, rest))"
  "\<exists>n. decode_elements n (element_tokens vs @ TArrayClose # rest) = Some (Inr (vs, rest))"
proof (induction v and ps and vs arbitrary: rest and rest and rest rule: tokens_of_member_tokens_element_tokens.induct)
  case (5 vs)
  then obtain n where "decode_elements n (element_tokens vs @ TArrayClose # rest) = Some (Inr (vs, rest))" by blast
  then show ?case by (intro exI [of _ "Suc n"]) (simp add: token_then_def)
next
  case (6 ps)
  then obtain n where "decode_members n (member_tokens ps @ TObjectClose # rest) = Some (Inr (ps, rest))" by blast
  then show ?case by (intro exI [of _ "Suc n"]) (simp add: token_then_def)
next
  case (8 k v ps)
  obtain n where n: "decode_value n (tokens_of v @ member_tokens ps @ TObjectClose # rest) = Some (Inr (v, member_tokens ps @ TObjectClose # rest))"
    using 8(1) by blast
  obtain m where m: "decode_members m (member_tokens ps @ TObjectClose # rest) = Some (Inr (ps, rest))" using 8(2) by blast
  show ?case
    using decode_mono(1) [OF n max.cobounded1 [of n m]] decode_mono(2) [OF m max.cobounded2 [of m n]]
    by (intro exI [of _ "Suc (max n m)"]) (simp add: token_then_def)
next
  case (10 v vs)
  obtain n where n: "decode_value n (tokens_of v @ element_tokens vs @ TArrayClose # rest) = Some (Inr (v, element_tokens vs @ TArrayClose # rest))"
    using 10(1) by blast
  obtain m where m: "decode_elements m (element_tokens vs @ TArrayClose # rest) = Some (Inr (vs, rest))" using 10(2) by blast
  obtain t ts where t: "tokens_of v = t # ts" "\<not> closes t" using tokens_of_hd by blast
  show ?case
    using decode_mono(1) [OF n max.cobounded1 [of n m]] decode_mono(3) [OF m max.cobounded2 [of m n]]
    by (intro exI [of _ "Suc (max n m)"]) (simp add: token_then_def t)
qed (auto intro: exI [of _ "Suc 0"])

text \<open>A document whose tokens are those of a value decodes to that value.\<close>

theorem decoding_inverts_printing:
  assumes "cvTokens cv raw = (tokens_of v, True)"
  shows "decode_document cv raw = Inr v"
proof -
  obtain n where n: "decode_value n (tokens_of v) = Some (Inr (v, []))"
    using decode_tokens(1) [of v "[]"] by auto
  let ?f = "2 * length (tokens_of v) + 2"
  have "decode_value (max n ?f) (tokens_of v) = Some (Inr (v, []))" by (rule decode_mono(1) [OF n]) simp
  moreover have "ends_shorter (decode_value ?f (tokens_of v)) (tokens_of v)" by (rule decode_ends) simp
  then obtain r where "decode_value ?f (tokens_of v) = Some r" by (auto simp: ends_shorter_def)
  moreover from decode_mono(1) [OF this] have "decode_value (max n ?f) (tokens_of v) = Some r" by simp
  ultimately have "decode_value ?f (tokens_of v) = Some (Inr (v, []))" by simp
  then show ?thesis by (simp add: decode_document_def assms)
qed

section \<open>What an accepted configuration is\<close>

definition safe_url :: "check_parsers \<Rightarrow> string \<Rightarrow> bool" where
  "safe_url cv t \<longleftrightarrow> utf16_length t \<le> MaxCheckURLLength \<and> CHR ''#'' \<notin> set t
     \<and> (\<exists>u. cvParseURL cv t = Some u \<and> to_lower (cvLowerRune cv) (urlScheme u) \<in> {''http'', ''https''}
          \<and> urlHost u \<noteq> '''' \<and> \<not> urlHasUser u)"

definition safe_header :: "check_parsers \<Rightarrow> http_header \<Rightarrow> bool" where
  "safe_header cv h \<longleftrightarrow> hdName h \<noteq> '''' \<and> length (hdName h) \<le> MaxHeaderNameLength \<and> list_all is_token_character (hdName h)
     \<and> to_lower (cvLowerRune cv) (hdName h) \<notin> set forbiddenHeaderNames
     \<and> utf16_length (hdValue h) \<le> MaxHeaderValueLength \<and> \<not> list_ex is_control (runes (hdValue h))"

text \<open>Everything but the URL.\<close>

definition safe_values :: "check_parsers \<Rightarrow> http_configuration \<Rightarrow> bool" where
  "safe_values cv c \<longleftrightarrow> hcMethod c \<in> set allowedMethods
     \<and> length (hcExpectedStatusCodes c) \<le> MaxExpectedStatusCodes \<and> distinct (hcExpectedStatusCodes c)
     \<and> (\<forall>s\<in>set (hcExpectedStatusCodes c). 100 \<le> s \<and> s \<le> 599)
     \<and> 1 \<le> hcTimeoutSeconds c \<and> hcTimeoutSeconds c \<le> 60 \<and> 0 \<le> hcMaxRedirects c \<and> hcMaxRedirects c \<le> 10
     \<and> length (hcHeaders c) \<le> MaxHeaders \<and> distinct (map (to_lower (cvLowerRune cv) \<circ> hdName) (hcHeaders c))
     \<and> (\<forall>h\<in>set (hcHeaders c). safe_header cv h)"

lemma status_codes_ok:
  "status_codes i seen vs = (cs, []) \<Longrightarrow> length cs = length vs \<and> distinct cs \<and> set cs \<inter> set seen = {} \<and> (\<forall>s\<in>set cs. 100 \<le> s \<and> s \<le> 599)"
proof (induction i seen vs arbitrary: cs rule: status_codes.induct)
  case (2 i seen v vs)
  show ?case
  proof (cases "integer32 v")
    case None
    with "2.prems" show ?thesis by (cases "status_codes (i + 1) seen vs") (simp add: Let_def)
  next
    case (Some code)
    have r: "100 \<le> code \<and> code \<le> 599 \<and> code \<notin> set seen"
      using "2.prems" Some by (cases "status_codes (i + 1) seen vs") (simp add: Let_def split: if_splits)
    obtain cs' fs where l: "status_codes (i + 1) (code # seen) vs = (cs', fs)" by force
    then have "cs = code # cs'" "fs = []" using "2.prems" Some r by (simp_all add: Let_def)
    with "2.IH"(4) [OF refl Some, of cs'] r l show ?thesis by auto
  qed
qed simp

lemma header_value_ok: "validate_header_value t field = [] \<longleftrightarrow> utf16_length t \<le> MaxHeaderValueLength \<and> \<not> list_ex is_control (runes t)"
  by (simp add: validate_header_value_def)

lemma header_properties_ok:
  assumes "header_properties field name v ps = (Some (name', v'), [])"
    and "\<forall>t. v = Some t \<longrightarrow> utf16_length t \<le> MaxHeaderValueLength \<and> \<not> list_ex is_control (runes t)"
  shows "\<forall>t. v' = Some t \<longrightarrow> utf16_length t \<le> MaxHeaderValueLength \<and> \<not> list_ex is_control (runes t)"
  using assms
proof (induction field name v ps rule: header_properties.induct)
  case (2 field name v p ps)
  show ?case
  proof (cases "snd p")
    case (StringValue t)
    show ?thesis
    proof (cases "fst p = ''name''")
      case True
      with 2 StringValue show ?thesis by simp
    next
      case False
      then have p: "fst p = ''value''" "header_properties field name (Some t) ps = (Some (name', v'), [])"
        "validate_header_value t (field @ ''.value'') = []"
        using "2.prems"(1) StringValue by (auto split: if_splits prod.splits)
      have "\<forall>u. Some t = Some u \<longrightarrow> utf16_length u \<le> MaxHeaderValueLength \<and> \<not> list_ex is_control (runes u)"
        using p(3) by (simp add: header_value_ok)
      from "2.IH"(2) [OF False p(1) StringValue p(2) this] show ?thesis .
    qed
  qed (use "2.prems"(1) in \<open>auto split: if_splits\<close>)
qed simp

lemma header_properties_None: "header_properties field name v ps = (None, fs) \<Longrightarrow> fs \<noteq> []"
  by (induction field name v ps arbitrary: fs rule: header_properties.induct) (auto split: json_value.splits if_splits prod.splits)

lemma header_name_None: "validate_header_name cv name field seen = (None, fs) \<Longrightarrow> fs \<noteq> []"
  by (auto simp: validate_header_name_def Let_def split: if_splits)

lemma validate_header_ok:
  assumes "validate_header cv entry field seen = (h, seen', [])"
  shows "\<exists>x. h = Some x \<and> safe_header cv x \<and> seen' = to_lower (cvLowerRune cv) (hdName x) # seen
    \<and> to_lower (cvLowerRune cv) (hdName x) \<notin> set seen"
proof -
  obtain ps name v where e: "entry = ObjectValue ps" "header_properties field None None ps = (Some (Some name, Some v), [])"
    and n: "validate_header_name cv name (field @ ''.name'') seen = (Some seen', [])" and h: "h = Some \<lparr>hdName = name, hdValue = v\<rparr>"
    using assms header_properties_None header_name_None
    by (auto simp: validate_header_def Let_def split: json_value.splits prod.splits option.splits)
  from header_properties_ok [OF e(2)] have "utf16_length v \<le> MaxHeaderValueLength \<and> \<not> list_ex is_control (runes v)" by simp
  then show ?thesis using n h by (auto simp: validate_header_name_def safe_header_def Let_def split: if_splits)
qed

lemma header_list_ok:
  "header_list cv i seen vs = (hs, []) \<Longrightarrow> length hs = length vs \<and> (\<forall>h\<in>set hs. safe_header cv h)
     \<and> distinct (map (to_lower (cvLowerRune cv) \<circ> hdName) hs)
     \<and> (\<forall>h\<in>set hs. to_lower (cvLowerRune cv) (hdName h) \<notin> set seen)"
proof (induction vs arbitrary: i seen hs)
  case (Cons v vs)
  then obtain h seen' hs' where v: "validate_header cv v (indexed ''checkConfiguration.headers'' i) seen = (h, seen', [])"
    and l: "header_list cv (i + 1) seen' vs = (hs', [])" and hs: "hs = (case h of None \<Rightarrow> hs' | Some x \<Rightarrow> x # hs')"
    by (auto split: prod.splits)
  from validate_header_ok [OF v] obtain x where x: "h = Some x" "safe_header cv x"
    "seen' = to_lower (cvLowerRune cv) (hdName x) # seen" "to_lower (cvLowerRune cv) (hdName x) \<notin> set seen" by blast
  from Cons.IH [OF l] x hs show ?case by auto
qed simp

lemma bounded_ok: "validate_bounded_integer v subject field lo hi = (r, []) \<Longrightarrow> \<exists>n. r = Some n \<and> lo \<le> n \<and> n \<le> hi"
  by (cases "integer32 v") (auto simp: validate_bounded_integer_def split: if_splits dest!: sym [of "Some _"])

lemma validate_url_ok: "validate_url cv v c = (c', []) \<Longrightarrow> \<exists>t. c' = c\<lparr>hcURL := t\<rparr> \<and> safe_url cv t"
  by (auto simp: validate_url_def safe_url_def Let_def split: json_value.splits if_splits option.splits)

lemma property_ok:
  assumes "validate_property cv p c = (c', [])" and "safe_values cv c"
  shows "safe_values cv c' \<and> (if fst p = ''url'' then safe_url cv (hcURL c') else hcURL c' = hcURL c)"
proof -
  consider "fst p = ''url''" | "fst p = ''method''" | "fst p = ''expectedStatusCodes''" | "fst p = ''timeoutSeconds''"
    | "fst p = ''followRedirects''" | "fst p = ''maxRedirects''" | "fst p = ''headers''"
    using assms(1) by (auto simp: validate_property_def split: if_splits)
  then show ?thesis
  proof cases
    case 1
    then show ?thesis using assms validate_url_ok [of cv "snd p" c c'] by (auto simp: validate_property_def safe_values_def)
  next
    case 2
    then show ?thesis using assms
      by (auto simp: validate_property_def validate_method_def safe_values_def split: json_value.splits if_splits)
  next
    case 3
    then show ?thesis using assms status_codes_ok [of 0 "[]"]
      by (fastforce simp: validate_property_def validate_expected_status_codes_def safe_values_def split: json_value.splits if_splits prod.splits)
  next
    case 4
    then show ?thesis using assms bounded_ok [of "snd p" "''timeoutSeconds''" "''checkConfiguration.timeoutSeconds''" MinTimeoutSeconds MaxTimeoutSeconds]
      by (fastforce simp: validate_property_def safe_values_def MinTimeoutSeconds_def MaxTimeoutSeconds_def split: option.splits prod.splits)
  next
    case 5
    then show ?thesis using assms by (auto simp: validate_property_def safe_values_def split: json_value.splits)
  next
    case 6
    then show ?thesis using assms bounded_ok [of "snd p" "''maxRedirects''" "''checkConfiguration.maxRedirects''" 0 MaxRedirects]
      by (fastforce simp: validate_property_def safe_values_def MaxRedirects_def split: option.splits prod.splits)
  next
    case 7
    then show ?thesis using assms header_list_ok [of cv 0 "[]"]
      by (fastforce simp: validate_property_def validate_headers_def safe_values_def split: json_value.splits if_splits prod.splits)
  qed
qed

lemma properties_ok:
  "validate_properties cv ps c = (c', []) \<Longrightarrow> safe_values cv c
     \<Longrightarrow> safe_values cv c' \<and> (if ''url'' \<in> fst ` set ps then safe_url cv (hcURL c') else hcURL c' = hcURL c)"
proof (induction ps arbitrary: c)
  case (Cons p ps)
  then obtain c1 where p: "validate_property cv p c = (c1, [])" and q: "validate_properties cv ps c1 = (c', [])"
    by (auto split: prod.splits)
  from property_ok [OF p Cons.prems(2)] Cons.IH [OF q] show ?case by (auto split: if_splits)
qed simp

lemma default_safe: "safe_values cv default_configuration"
  by (simp add: safe_values_def default_configuration_def DefaultMethod_def allowedMethods_def DefaultTimeoutSeconds_def DefaultMaxRedirects_def)

text \<open>What acceptance means.\<close>

lemma validate_http_Inr:
  "validate_http cv schema raw = Inr (c, compact) \<longleftrightarrow> schema = HTTPCurrentSchemaVersion
     \<and> (\<exists>ps. decode_document cv raw = Inr (ObjectValue ps) \<and> length raw \<le> MaxDocumentBytes
          \<and> validate_properties cv ps default_configuration = (c, []) \<and> ''url'' \<in> fst ` set ps)
     \<and> cvCompact cv raw = Some compact"
  by (auto simp: validate_http_def Let_def split: sum.splits json_value.splits prod.splits if_splits option.splits)

text \<open>C23. A configuration that is accepted, whatever the order and repetition of its fields, has an absolute web
  URL without user information and fragment, an allowed method, distinct status codes from 100 to 599, bounded
  timeout and redirects, and headers whose names are distinct tokens, none of them a forbidden one.\<close>

theorem accepted_configuration_is_safe:
  assumes "validate_http cv schema raw = Inr (c, compact)"
  shows "safe_url cv (hcURL c) \<and> safe_values cv c"
proof -
  obtain ps where p: "validate_properties cv ps default_configuration = (c, [])" "''url'' \<in> fst ` set ps"
    using assms by (auto simp: validate_http_Inr)
  from properties_ok [OF p(1) default_safe] p(2) show ?thesis by simp
qed


section \<open>Witnesses\<close>

definition probe_value :: json_value where
  "probe_value = ObjectValue [(''url'', StringValue ''https://a.example/''), (''method'', StringValue ''HEAD''),
     (''expectedStatusCodes'', ArrayValue [NumberValue ''200'', NumberValue ''204'']),
     (''headers'', ArrayValue [ObjectValue [(''name'', StringValue ''Accept''), (''value'', StringValue ''*'')]])]"

definition probe_url :: go_url where
  "probe_url = \<lparr>urlScheme = ''https'', urlOpaque = '''', urlHasUser = False, urlHost = ''a.example'', urlHostname = ''a.example'',
     urlPort = '''', urlForceQuery = False, urlRawQuery = '''', urlFragment = ''''\<rparr>"

text \<open>A document is the text \<open>raw\<close>, its compact form the text \<open>compact\<close>.\<close>

definition probe_parsers :: check_parsers where
  "probe_parsers = \<lparr>cvTokens = (\<lambda>s. if s = ''raw text'' \<or> s = ''raw'' then (tokens_of probe_value, True) else ([], True)),
     cvCompact = (\<lambda>s. Some ''raw''), cvParseURL = (\<lambda>s. if s = ''https://a.example/'' then Some probe_url else None),
     cvLowerRune = (\<lambda>r. r)\<rparr>"

definition probe_configuration :: http_configuration where
  "probe_configuration = \<lparr>hcURL = ''https://a.example/'', hcMethod = ''HEAD'', hcExpectedStatusCodes = [200, 204],
     hcTimeoutSeconds = 30, hcFollowRedirects = True, hcMaxRedirects = 5, hcHeaders = [\<lparr>hdName = ''Accept'', hdValue = ''*''\<rparr>]\<rparr>"

lemma probe_tokens: "cvTokens probe_parsers ''raw text'' = (tokens_of probe_value, True)"
  by (simp add: probe_parsers_def)

theorem decoding_inverts_printing_witness: "decode_document probe_parsers ''raw text'' = Inr probe_value"
  by (rule decoding_inverts_printing [OF probe_tokens])

lemma probe_accepted: "validate_http probe_parsers 1 ''raw text'' = Inr (probe_configuration, ''raw'')"
  by code_simp

theorem accepted_configuration_is_safe_witness:
  "safe_url probe_parsers ''https://a.example/'' \<and> safe_values probe_parsers probe_configuration"
  using accepted_configuration_is_safe [OF probe_accepted] by (simp add: probe_configuration_def)


end
