(* ===== verification/Probe.thy ===== *)
theory Probe
  imports Outbound Check RunWorker RunStore
begin

text \<open>
  The execution of checks: \<open>internal/probe\<close> and its adapter in \<open>cmd/probehive/worker.go\<close>.

  What the network does during one execution is a parameter. \<open>pnHop\<close> answers the requests of one
  \<open>http.Client.Do\<close> by their number: an error, a last response, or a response with the absolute URL
  its \<open>Location\<close> names. The callbacks of the transport are a sequence of events. An error is a
  \<open>go_error\<close> with whether it is a \<open>net.Error\<close> that timed out and whether it is a
  \<open>*tls.CertificateVerificationError\<close>. Request headers, which only the target sees, and the trust
  roots are left out.
\<close>

section \<open>Settings\<close>

record probe_settings =
  stMaxTimeout :: duration
  stMaxRedirects :: int
  stMaxResponseBytes :: int
  stMaxResponseHeaderBytes :: int
  stMaxTLSHandshake :: duration
  stUserAgent :: string

definition default_settings :: probe_settings where
  "default_settings =
     \<lparr>stMaxTimeout = 60 * second, stMaxRedirects = 10, stMaxResponseBytes = 2 ^ 20,
      stMaxResponseHeaderBytes = 64 * 1024, stMaxTLSHandshake = 10 * second, stUserAgent = ''ProbeHive''\<rparr>"

definition normalized_settings :: "probe_settings \<Rightarrow> probe_settings" where
  "normalized_settings s =
     \<lparr>stMaxTimeout = (if stMaxTimeout s \<le> 0 then stMaxTimeout default_settings else stMaxTimeout s),
      stMaxRedirects = (if stMaxRedirects s \<le> 0 then stMaxRedirects default_settings else stMaxRedirects s),
      stMaxResponseBytes = (if stMaxResponseBytes s \<le> 0 then stMaxResponseBytes default_settings else stMaxResponseBytes s),
      stMaxResponseHeaderBytes =
        (if stMaxResponseHeaderBytes s \<le> 0 then stMaxResponseHeaderBytes default_settings else stMaxResponseHeaderBytes s),
      stMaxTLSHandshake = (if stMaxTLSHandshake s \<le> 0 then stMaxTLSHandshake default_settings else stMaxTLSHandshake s),
      stUserAgent = (if stUserAgent s = '''' then stUserAgent default_settings else stUserAgent s)\<rparr>"

definition effective_timeout :: "probe_settings \<Rightarrow> int \<Rightarrow> duration" where
  "effective_timeout s configured_seconds =
     (let configured = wrap64 (configured_seconds * second)
      in if configured \<le> 0 then stMaxTimeout s else min configured (stMaxTimeout s))"

definition effective_redirects :: "probe_settings \<Rightarrow> int \<Rightarrow> int" where
  "effective_redirects s configured = (if configured < 0 then 0 else min configured (stMaxRedirects s))"

definition tls_handshake_timeout :: "probe_settings \<Rightarrow> duration \<Rightarrow> duration" where
  "tls_handshake_timeout s timeout = min (stMaxTLSHandshake s) timeout"

section \<open>Observations\<close>

text \<open>\<open>Outcome\<close> shares its values with \<open>run.Outcome\<close>.\<close>

record probe_failure =
  pfCode :: string
  pfClass :: string

record probe_observation =
  poOutcome :: run_outcome
  poFailure :: "probe_failure option"
  poStartedAt :: go_time
  poFinishedAt :: go_time
  poDuration :: duration
  poPhases :: phases
  poHTTP :: "http_detail option"

definition no_phases :: phases where
  "no_phases = \<lparr>phConnect = 0, phTLS = 0, phFirstByte = 0\<rparr>"

definition blank_observation :: "run_outcome \<Rightarrow> probe_observation" where
  "blank_observation oc =
     \<lparr>poOutcome = oc, poFailure = None, poStartedAt = zero_time, poFinishedAt = zero_time, poDuration = 0,
      poPhases = no_phases, poHTTP = None\<rparr>"

definition failed :: "run_outcome \<Rightarrow> string \<Rightarrow> string \<Rightarrow> probe_observation" where
  "failed oc code c = (blank_observation oc)\<lparr>poFailure := Some \<lparr>pfCode = code, pfClass = c\<rparr>\<rparr>"

section \<open>The trace of an execution\<close>

record tls_state =
  tsVersion :: string
  tsCipherSuite :: string
  tsPeerExpiries :: "go_time list"

datatype trace_event =
    Connected duration | TLSStarted duration | TLSFinished tls_state bool duration | FirstByteAt duration
  | RedirectFollowed int

record execution_trace =
  etConnect :: "duration option"
  etTLSBegan :: "duration option"
  etTLS :: "(duration \<times> tls_state) option"
  etFirstByte :: "duration option"
  etRedirects :: int

definition empty_trace :: execution_trace where
  "empty_trace = \<lparr>etConnect = None, etTLSBegan = None, etTLS = None, etFirstByte = None, etRedirects = 0\<rparr>"

text \<open>
  The callbacks: what has been recorded stays. Instants are counted from the start of the execution;
  \<open>TLSFinished state ok at\<close> ends a handshake, \<open>ok\<close> when it had no error.
\<close>

fun record_event :: "trace_event \<Rightarrow> execution_trace \<Rightarrow> execution_trace" where
  "record_event (Connected d) t = (if etConnect t = None then t\<lparr>etConnect := Some d\<rparr> else t)"
| "record_event (TLSStarted at) t = (if etTLS t = None then t\<lparr>etTLSBegan := Some at\<rparr> else t)"
| "record_event (TLSFinished state ok at) t =
     (case etTLSBegan t of
        None \<Rightarrow> t
      | Some began \<Rightarrow> if \<not> ok \<or> etTLS t \<noteq> None then t else t\<lparr>etTLS := Some (at - began, state)\<rparr>)"
| "record_event (FirstByteAt at) t = (if etFirstByte t = None then t\<lparr>etFirstByte := Some at\<rparr> else t)"
| "record_event (RedirectFollowed n) t = (if n > etRedirects t then t\<lparr>etRedirects := n\<rparr> else t)"

definition trace_of :: "trace_event list \<Rightarrow> execution_trace" where
  "trace_of es = fold record_event es empty_trace"

definition trace_phases :: "execution_trace \<Rightarrow> phases" where
  "trace_phases t =
     \<lparr>phConnect = (case etConnect t of None \<Rightarrow> 0 | Some d \<Rightarrow> d),
      phTLS = (case etTLS t of None \<Rightarrow> 0 | Some p \<Rightarrow> fst p),
      phFirstByte = (case etFirstByte t of None \<Rightarrow> 0 | Some d \<Rightarrow> d)\<rparr>"

definition trace_tls :: "execution_trace \<Rightarrow> tls_detail option" where
  "trace_tls t =
     (case etTLS t of
        None \<Rightarrow> None
      | Some p \<Rightarrow> Some
          \<lparr>tdVersion = tsVersion (snd p), tdCipherSuite = tsCipherSuite (snd p),
           tdCertificateExpiresAt = (case tsPeerExpiries (snd p) of [] \<Rightarrow> zero_time | t # ts \<Rightarrow> to_utc t)\<rparr>)"

section \<open>Executing a check\<close>

datatype exec_error = ExecError go_error bool bool | RedirectBudgetExhausted

record http_response =
  rpStatusCode :: int
  rpProto :: string
  rpBodyLength :: int
  rpBodyError :: "exec_error option"

datatype hop = HopFailed exec_error | HopLast http_response | HopRedirect http_response string

record probe_network =
  pnRequestValid :: bool
  pnHop :: "nat \<Rightarrow> string \<Rightarrow> hop"
  pnEvents :: "trace_event list"
  pnCancelled :: bool
  pnStartedAt :: go_time
  pnFinishedAt :: go_time
  pnDuration :: duration

text \<open>\<open>classify\<close>; \<open>cancelled\<close> is whether the caller's context is.\<close>

definition classify_error :: "bool \<Rightarrow> exec_error \<Rightarrow> probe_observation" where
  "classify_error cancelled err =
     (if cancelled then failed OutcomeCancelled ''probe.execution.cancelled'' ''''
      else case err of
        RedirectBudgetExhausted \<Rightarrow> failed OutcomeErrored ''probe.http.redirect.tooMany'' ''''
      | ExecError e timed_out bad_certificate \<Rightarrow>
          if errors_is e ContextCanceled then failed OutcomeCancelled ''probe.execution.cancelled'' ''''
          else if errors_is e DeadlineExceeded \<or> timed_out then failed OutcomeTimedOut ''probe.execution.timeout'' ''''
          else case outbound_error_of e of
            Some f \<Rightarrow> failed OutcomeErrored (outbound_reason f) (outbound_class f)
          | None \<Rightarrow>
              if bad_certificate then failed OutcomeErrored ''probe.tls.certificateInvalid'' ''''
              else failed OutcomeErrored ''probe.transport.failed'' '''')"

text \<open>
  The loop of \<open>http.Client.Do\<close> with \<open>redirectChecker\<close>: the result, the redirects that were followed,
  and the URLs that were requested. \<open>via\<close> is the number of requests before this one.
\<close>

datatype redirect_verdict = FollowIt | UseLast | StopWith exec_error

definition redirect_checker :: "net_env \<Rightarrow> policy \<Rightarrow> bool \<Rightarrow> int \<Rightarrow> nat \<Rightarrow> string \<Rightarrow> redirect_verdict" where
  "redirect_checker nv pl follow budget requests location =
     (if \<not> follow then UseLast
      else if int requests > budget then StopWith RedirectBudgetExhausted
      else case check_url nv pl location of
        Inl e \<Rightarrow> StopWith (ExecError e False False)
      | Inr t \<Rightarrow> FollowIt)"

function client_do ::
  "net_env \<Rightarrow> policy \<Rightarrow> (nat \<Rightarrow> string \<Rightarrow> hop) \<Rightarrow> bool \<Rightarrow> int \<Rightarrow> nat \<Rightarrow> string \<Rightarrow>
     (exec_error + http_response) \<times> int list \<times> string list" where
  "client_do nv pl hop follow budget via url =
     (case hop via url of
        HopFailed e \<Rightarrow> (Inl e, [], [url])
      | HopLast r \<Rightarrow> (Inr r, [], [url])
      | HopRedirect r location \<Rightarrow>
          (case redirect_checker nv pl follow budget (Suc via) location of
             UseLast \<Rightarrow> (Inr r, [], [url])
           | StopWith e \<Rightarrow> (Inl e, [], [url])
           | FollowIt \<Rightarrow>
               (case client_do nv pl hop follow budget (Suc via) location of
                  (res, followed, urls) \<Rightarrow> (res, int (Suc via) # followed, url # urls))))"
  by pat_completeness auto
termination
  by (relation "measure (\<lambda>(nv, pl, hop, follow, budget, via, url). nat (budget - int via))")
    (auto simp: redirect_checker_def split: if_splits)

text \<open>The body up to the ceiling and one byte: how many bytes, whether there were more, and an error.\<close>

definition read_body :: "probe_settings \<Rightarrow> http_response \<Rightarrow> int \<times> bool \<times> exec_error option" where
  "read_body s r =
     (let ceiling = stMaxResponseBytes s; limit = max 0 (wrap64 (ceiling + 1)); got = min (rpBodyLength r) limit
      in case rpBodyError r of
        Some e \<Rightarrow> if rpBodyLength r < limit then (got, False, Some e)
            else if got > ceiling then (ceiling, True, None) else (got, False, None)
      | None \<Rightarrow> if got > ceiling then (ceiling, True, None) else (got, False, None))"

text \<open>What every observation of an execution is stamped with.\<close>

definition observe :: "probe_network \<Rightarrow> int list \<Rightarrow> probe_observation \<Rightarrow> probe_observation" where
  "observe pn followed ob =
     (let trace = trace_of (pnEvents pn @ map RedirectFollowed followed)
      in ob\<lparr>poStartedAt := pnStartedAt pn, poFinishedAt := pnFinishedAt pn, poDuration := pnDuration pn,
            poPhases := trace_phases trace,
            poHTTP := map_option (\<lambda>h. h\<lparr>hdRedirectCount := etRedirects trace, hdTLS := trace_tls trace\<rparr>) (poHTTP ob)\<rparr>)"

definition judge_response :: "probe_settings \<Rightarrow> bool \<Rightarrow> http_configuration \<Rightarrow> http_response \<Rightarrow> probe_observation" where
  "judge_response s cancelled c r =
     (case read_body s r of (bytes, truncated, err) \<Rightarrow>
        let result = \<lparr>hdStatusCode = rpStatusCode r, hdProtocol = rpProto r, hdRedirectCount = 0, hdBodyBytes = bytes,
              hdBodyTruncated = truncated, hdTLS = None\<rparr>
        in case err of
          Some e \<Rightarrow> (classify_error cancelled e)\<lparr>poHTTP := Some result\<rparr>
        | None \<Rightarrow>
            if \<not> accepts_status c (rpStatusCode r) then
              (failed OutcomeFailed ''probe.http.status.unexpected'' '''')\<lparr>poHTTP := Some result\<rparr>
            else (blank_observation OutcomePassed)\<lparr>poHTTP := Some result\<rparr>)"

definition http_execute ::
  "net_env \<Rightarrow> policy \<Rightarrow> probe_settings \<Rightarrow> probe_network \<Rightarrow> http_configuration \<Rightarrow> probe_observation \<times> string list" where
  "http_execute nv pl s pn c =
     (case check_url nv pl (hcURL c) of
        Inl e \<Rightarrow> (observe pn [] (classify_error (pnCancelled pn) (ExecError e False False)), [])
      | Inr t \<Rightarrow>
          if \<not> pnRequestValid pn then (observe pn [] (failed OutcomeErrored ''probe.http.request.invalid'' ''''), [])
          else (case client_do nv pl (pnHop pn) (hcFollowRedirects c) (effective_redirects s (hcMaxRedirects c)) 0 (hcURL c) of
             (Inl e, followed, urls) \<Rightarrow> (observe pn followed (classify_error (pnCancelled pn) e), urls)
           | (Inr r, followed, urls) \<Rightarrow> (observe pn followed (judge_response s (pnCancelled pn) c r), urls)))"

text \<open>\<open>Executor.Execute\<close>.\<close>

definition immediate :: "probe_network \<Rightarrow> probe_observation \<Rightarrow> probe_observation" where
  "immediate pn ob = ob\<lparr>poStartedAt := pnStartedAt pn, poFinishedAt := pnStartedAt pn\<rparr>"

definition executor_supports :: "string \<Rightarrow> bool" where
  "executor_supports check_type \<longleftrightarrow> check_type = HTTPCheckType"

definition executor_execute ::
  "check_parsers \<Rightarrow> net_env \<Rightarrow> policy \<Rightarrow> probe_settings \<Rightarrow> probe_network \<Rightarrow> string \<Rightarrow> int \<Rightarrow> string \<Rightarrow> probe_observation" where
  "executor_execute cv nv pl s pn check_type schema configuration =
     (if \<not> executor_supports check_type then
        immediate pn (failed OutcomeErrored ''probe.checkType.unsupported'' '''')
      else case validate_http cv schema configuration of
        Inl fs \<Rightarrow> immediate pn (failed OutcomeErrored (fst (hd fs)) '''')
      | Inr (validated, canonical) \<Rightarrow> fst (http_execute nv pl s pn validated))"

text \<open>The adapter of the worker.\<close>

definition probe_execution :: "probe_observation \<Rightarrow> execution" where
  "probe_execution ob =
     \<lparr>exOutcome = poOutcome ob, exStartedAt = poStartedAt ob, exFinishedAt = poFinishedAt ob,
      exObservation =
        \<lparr>obRunID = '''', obScheduledFor = zero_time, obOrganizationID = '''',
         obFailureCode = (case poFailure ob of None \<Rightarrow> '''' | Some f \<Rightarrow> pfCode f),
         obFailureClass = (case poFailure ob of None \<Rightarrow> '''' | Some f \<Rightarrow> pfClass f),
         obDuration = poDuration ob, obPhases = poPhases ob, obHTTP = poHTTP ob\<rparr>\<rparr>"

section \<open>Requests\<close>

declare client_do.simps [simp del]

lemma client_do_bounds:
  assumes "client_do nv pl hop follow budget via url = (res, followed, urls)"
  shows "urls \<noteq> [] \<and> hd urls = url \<and> followed = map int [Suc via..<via + length urls]
    \<and> int (length urls) \<le> max 0 (budget - int via) + 1 \<and> (\<not> follow \<longrightarrow> length urls = 1)
    \<and> (\<forall>u\<in>set (tl urls). is_ok (check_url nv pl u))"
  using assms
proof (induction nv pl hop follow budget via url arbitrary: res followed urls rule: client_do.induct)
  case (1 nv pl hop follow budget via url)
  show ?case
  proof (cases "\<exists>r location. hop via url = HopRedirect r location \<and> redirect_checker nv pl follow budget (Suc via) location = FollowIt")
    case False
    then have "urls = [url]" "followed = []"
      using "1.prems" by (auto simp: client_do.simps [of nv pl hop follow budget via url] split: hop.splits redirect_verdict.splits)
    then show ?thesis by simp
  next
    case True
    then obtain r location where h: "hop via url = HopRedirect r location"
      and f: "redirect_checker nv pl follow budget (Suc via) location = FollowIt" by blast
    obtain res' followed' urls' where c: "client_do nv pl hop follow budget (Suc via) location = (res', followed', urls')"
      by (metis prod_cases3)
    have e: "followed = int (Suc via) # followed'" "urls = url # urls'"
      using "1.prems" h f c by (simp_all add: client_do.simps [of nv pl hop follow budget via url])
    have k: "follow" "int (Suc via) \<le> budget" "is_ok (check_url nv pl location)"
      using f by (auto simp: redirect_checker_def split: if_splits sum.splits)
    from "1.IH" [OF h f c]
    have i: "urls' \<noteq> []" "hd urls' = location" "followed' = map int [Suc (Suc via)..<Suc via + length urls']"
      "int (length urls') \<le> max 0 (budget - int (Suc via)) + 1" "\<forall>u\<in>set (tl urls'). is_ok (check_url nv pl u)" by simp_all
    have "followed = map int [Suc via..<via + length urls]"
      using i(1) by (cases urls') (simp_all add: e i(3) upt_conv_Cons del: upt_Suc)
    moreover have "\<forall>u\<in>set (tl urls). is_ok (check_url nv pl u)"
      using i k(3) e(2) by (cases urls') auto
    moreover have "int (length urls) \<le> max 0 (budget - int via) + 1" using i(4) k(2) e(2) by simp
    ultimately show ?thesis using k(1) e(2) by simp
  qed
qed

lemma http_execute_cases:
  assumes "http_execute nv pl s pn c = (ob, urls)"
  obtains (refused) e where "check_url nv pl (hcURL c) = Inl e" "urls = []"
      "ob = observe pn [] (classify_error (pnCancelled pn) (ExecError e False False))"
  | (invalid) "\<not> pnRequestValid pn" "urls = []" "ob = observe pn [] (failed OutcomeErrored ''probe.http.request.invalid'' '''')"
  | (error) e followed where "is_ok (check_url nv pl (hcURL c))"
      "client_do nv pl (pnHop pn) (hcFollowRedirects c) (effective_redirects s (hcMaxRedirects c)) 0 (hcURL c) = (Inl e, followed, urls)"
      "ob = observe pn followed (classify_error (pnCancelled pn) e)"
  | (answered) r followed where "is_ok (check_url nv pl (hcURL c))"
      "client_do nv pl (pnHop pn) (hcFollowRedirects c) (effective_redirects s (hcMaxRedirects c)) 0 (hcURL c) = (Inr r, followed, urls)"
      "ob = observe pn followed (judge_response s (pnCancelled pn) c r)"
  using assms by (auto simp: http_execute_def split: sum.splits if_splits prod.splits)

text \<open>C25. An execution ends whatever the target answers: it makes at most one request more than the redirect
  budget allows, which neither the configuration nor the operator's ceiling lets be exceeded, and a single one
  when redirects are not followed.\<close>

theorem requests_are_bounded:
  assumes "http_execute nv pl s pn c = (ob, urls)" and "0 \<le> hcMaxRedirects c"
  shows "int (length urls) \<le> hcMaxRedirects c + 1 \<and> int (length urls) \<le> max 0 (stMaxRedirects s) + 1
    \<and> (\<not> hcFollowRedirects c \<longrightarrow> length urls \<le> 1)"
proof -
  have m: "max 0 (effective_redirects s (hcMaxRedirects c)) \<le> hcMaxRedirects c"
    "max 0 (effective_redirects s (hcMaxRedirects c)) \<le> max 0 (stMaxRedirects s)"
    using assms(2) by (auto simp: effective_redirects_def)
  from assms(1) show ?thesis
  proof (cases rule: http_execute_cases)
    case (error e followed)
    from client_do_bounds [OF error(2)] m show ?thesis by auto
  next
    case (answered r followed)
    from client_do_bounds [OF answered(2)] m show ?thesis by auto
  qed (use assms(2) in simp_all)
qed

text \<open>Every URL an execution requests, the first and every redirect, passed the check of the outbound policy
  before it was requested.\<close>

theorem requested_urls_are_checked:
  assumes "http_execute nv pl s pn c = (ob, urls)" and "u \<in> set urls"
  shows "is_ok (check_url nv pl u)"
  using assms(1)
proof (cases rule: http_execute_cases)
  case (error e followed)
  from client_do_bounds [OF error(2)] error(1) assms(2) show ?thesis by (cases urls) auto
next
  case (answered r followed)
  from client_do_bounds [OF answered(2)] answered(1) assms(2) show ?thesis by (cases urls) auto
qed (use assms(2) in simp_all)

lemma fold_followed:
  "0 \<le> etRedirects t \<Longrightarrow> etRedirects t \<le> int a \<Longrightarrow> etRedirects (fold record_event (map RedirectFollowed (map int [Suc a..<Suc a + n])) t)
     = (if n = 0 then etRedirects t else int a + int n)"
proof (induction n arbitrary: a t)
  case (Suc n)
  let ?t = "t\<lparr>etRedirects := int (Suc a)\<rparr>"
  have "[Suc a..<Suc a + Suc n] = Suc a # [Suc (Suc a)..<Suc (Suc a) + n]" by (simp add: upt_conv_Cons)
  with Suc.IH [of ?t "Suc a"] Suc.prems show ?case by simp
qed simp

definition is_redirect_event :: "trace_event \<Rightarrow> bool" where
  "is_redirect_event e \<longleftrightarrow> (\<exists>n. e = RedirectFollowed n)"

lemma record_event_keeps_redirects: "\<not> is_redirect_event e \<Longrightarrow> etRedirects (record_event e t) = etRedirects t"
  by (cases e) (auto simp: is_redirect_event_def split: option.split)

lemma fold_keeps_redirects: "\<forall>e\<in>set es. \<not> is_redirect_event e \<Longrightarrow> etRedirects (fold record_event es t) = etRedirects t"
  by (induction es arbitrary: t) (simp_all add: record_event_keeps_redirects)

text \<open>The redirect count an observation stores is the number of redirects that were followed.\<close>

lemma redirect_count:
  assumes "http_execute nv pl s pn c = (ob, urls)" and "\<forall>e\<in>set (pnEvents pn). \<not> is_redirect_event e" and "poHTTP ob = Some h"
  shows "hdRedirectCount h = int (length urls) - 1"
proof -
  have t: "etRedirects (trace_of (pnEvents pn @ map RedirectFollowed followed)) = int (length urls) - 1"
    if u: "urls \<noteq> []" "followed = map int [Suc 0..<length urls]" for followed
  proof -
    have "etRedirects (fold record_event (pnEvents pn) empty_trace) = 0"
      using fold_keeps_redirects [OF assms(2)] by (simp add: empty_trace_def)
    then show ?thesis
      using fold_followed [of "fold record_event (pnEvents pn) empty_trace" 0 "length urls - 1"] u
      by (cases urls) (auto simp: trace_of_def)
  qed
  have no: "poHTTP (classify_error k e) = None" for k e
    by (auto simp: classify_error_def failed_def blank_observation_def split: exec_error.split option.split)
  from assms(1) show ?thesis
  proof (cases rule: http_execute_cases)
    case (answered r followed)
    from client_do_bounds [OF answered(2)] have "urls \<noteq> []" "followed = map int [Suc 0..<length urls]" by simp_all
    from t [OF this] show ?thesis using answered(3) assms(3) by (auto simp: observe_def Let_def)
  qed (use assms(3) no in \<open>auto simp: observe_def Let_def failed_def blank_observation_def\<close>)
qed

section \<open>What is stored of an execution\<close>

text \<open>Codes fit their columns.\<close>

definition short_code :: "string \<Rightarrow> bool" where
  "short_code s \<longleftrightarrow> s \<noteq> '''' \<and> length s \<le> MaxCodeLength"

lemmas reason_defs = ReasonPolicyUnconfigured_def ReasonURLTooLong_def ReasonURLInvalid_def ReasonURLNotAbsolute_def
  ReasonSchemeUnsupported_def ReasonUserInfoPresent_def ReasonHostMissing_def ReasonHostInvalid_def ReasonPortInvalid_def
  ReasonPortDenied_def ReasonNetworkUnsupported_def ReasonResolutionFailed_def ReasonNoCandidate_def ReasonAddressDenied_def
  ReasonAddressMismatch_def ReasonConnectFailed_def

lemma short_reasons [simp]:
  "short_code ReasonPolicyUnconfigured" "short_code ReasonURLTooLong" "short_code ReasonURLInvalid" "short_code ReasonURLNotAbsolute"
  "short_code ReasonSchemeUnsupported" "short_code ReasonUserInfoPresent" "short_code ReasonHostMissing" "short_code ReasonHostInvalid"
  "short_code ReasonPortInvalid" "short_code ReasonPortDenied" "short_code ReasonAddressDenied"
  by (simp_all add: short_code_def MaxCodeLength_def reason_defs)

lemma class_length: "length (class_text c) \<le> 100"
  by (cases c) simp_all

lemma short_class [simp]: "length (class_text c) \<le> MaxCodeLength"
  by (simp add: MaxCodeLength_def class_length)

text \<open>The policy errors a chain of errors may hold have codes that fit.\<close>

definition storable_error :: "go_error \<Rightarrow> bool" where
  "storable_error e \<longleftrightarrow> (\<forall>f. outbound_error_of e = Some f \<longrightarrow>
     short_code (outbound_reason f) \<and> length (outbound_class f) \<le> MaxCodeLength)"

lemma storable_simps [simp]:
  "storable_error (OutboundFailure r c h p cause) \<longleftrightarrow> short_code r \<and> length c \<le> MaxCodeLength"
  by (auto simp: storable_error_def)

lemma outbound_error_of_Some: "outbound_error_of e = Some f \<Longrightarrow> \<exists>r c h p k. f = OutboundFailure r c h p k"
  by (induction e rule: outbound_error_of.induct) auto

lemma storable_authority [simp]: "storable_error e \<Longrightarrow> storable_error (with_authority e h p)"
  using outbound_error_of_Some [of e]
  by (cases "outbound_error_of e") (auto simp: with_authority_def storable_error_def)

lemma empty_class [simp]: "length [] \<le> MaxCodeLength"
  by simp

lemma policy_errors_storable:
  "policy_configured pl = Inl e \<Longrightarrow> storable_error e"
  "check_address pl a = Inl e \<Longrightarrow> storable_error e"
  "check_port pl port = Inl e \<Longrightarrow> storable_error e"
  by (auto simp: policy_configured_def check_address_def check_port_def and_then_def Let_def MaxCodeLength_def class_length split: if_splits sum.splits)

lemma authority_error_storable: "check_authority nv pl host port = Inl e \<Longrightarrow> storable_error e"
  using policy_errors_storable
  by (auto simp: check_authority_def and_then_def Let_def split: if_splits sum.splits option.splits)

lemma url_error_storable: "check_url nv pl u = Inl e \<Longrightarrow> storable_error e"
  using policy_errors_storable authority_error_storable
  by (auto simp: check_url_def and_then_def Let_def split: if_splits sum.splits option.splits)

text \<open>So do the codes of a rejected configuration.\<close>

abbreviation short_failures :: "failure list \<Rightarrow> bool" where
  "short_failures fs \<equiv> list_all (\<lambda>f. short_code (fst f)) fs"

lemma short_literals [simp]: "short_code (c # s) \<longleftrightarrow> length s \<le> 99"
  by (auto simp: short_code_def MaxCodeLength_def)

lemma header_failures:
  "short_failures (snd (header_properties field n v ps))"
  "short_failures (snd (validate_header_name cv name field seen))"
proof -
  show "short_failures (snd (header_properties field n v ps))"
    by (induction field n v ps rule: header_properties.induct)
      (auto simp: validate_header_value_def split_def split: json_value.splits)
  show "short_failures (snd (validate_header_name cv name field seen))"
    by (simp add: validate_header_name_def Let_def)
qed

lemma validate_header_failures: "short_failures (snd (snd (validate_header cv e field seen)))"
proof (cases e)
  case (ObjectValue ps)
  obtain r fs where h: "header_properties field None None ps = (r, fs)" by force
  then have fs: "short_failures fs" using header_failures(1) [of field None None ps] by simp
  consider "r = None" | name v where "r = Some (Some name, Some v)" | name v where "r = Some (name, v)" "name = None \<or> v = None"
    by (cases r; cases "fst (the r)"; cases "snd (the r)"; fastforce)
  then show ?thesis
  proof cases
    case (2 name v)
    obtain q gs where q: "validate_header_name cv name (field @ ''.name'') seen = (q, gs)" by force
    then have "short_failures gs" using header_failures(2) [of cv name "field @ ''.name''" seen] by simp
    then show ?thesis using fs h q by (cases q) (simp_all add: validate_header_def ObjectValue 2)
  qed (use fs h in \<open>auto simp: validate_header_def ObjectValue Let_def split: option.split\<close>)
qed (simp_all add: validate_header_def)

lemma header_list_failures: "short_failures (snd (header_list cv i seen vs))"
proof (induction vs arbitrary: i seen)
  case (Cons v vs)
  then show ?case using validate_header_failures [of cv v "indexed ''checkConfiguration.headers'' i" seen]
    by (simp add: split_def)
qed simp

lemma status_codes_failures: "short_failures (snd (status_codes i seen vs))"
proof (induction i seen vs rule: status_codes.induct)
  case (2 i seen v vs)
  then show ?case by (cases "integer32 v") (simp_all add: Let_def split_def)
qed simp

lemma bounded_failures: "length subject \<le> 50 \<Longrightarrow> short_failures (snd (validate_bounded_integer v subject f lo hi))"
  by (cases "integer32 v") (simp_all add: validate_bounded_integer_def)

lemma property_failures: "short_failures (snd (validate_property cv p c))"
proof -
  have u: "short_failures (snd (validate_url cv v c))" for v
    by (cases v) (simp_all add: validate_url_def Let_def split: option.split)
  have h: "short_failures (snd (validate_headers cv v c))" for v
    using header_list_failures [of cv 0 "[]"] by (cases v) (simp_all add: validate_headers_def split_def)
  have s: "short_failures (snd (validate_expected_status_codes v c))" for v
    using status_codes_failures [of 0 "[]"] by (cases v) (simp_all add: validate_expected_status_codes_def split_def)
  have m: "short_failures (snd (validate_method v c))" for v
    by (cases v) (simp_all add: validate_method_def)
  have b: "short_failures (snd (case validate_bounded_integer v subject f lo hi of (Some n, fs) \<Rightarrow> (g n, fs) | (None, fs) \<Rightarrow> (c, fs)))"
    if "length subject \<le> 50" for v subject f lo hi and g :: "int \<Rightarrow> http_configuration"
    using bounded_failures [OF that, of v f lo hi] by (cases "validate_bounded_integer v subject f lo hi") (auto split: option.split)
  have r: "short_failures (snd (case v of BoolValue x \<Rightarrow> (c\<lparr>hcFollowRedirects := x\<rparr>, [])
      | _ \<Rightarrow> (c, [(''check.http.followRedirects.notBoolean'', ''checkConfiguration.followRedirects'', ''The value must be a boolean.'')])))" for v
    by (cases v) simp_all
  show ?thesis using u h s m r unfolding validate_property_def by (auto intro!: b)
qed

lemma properties_failures: "short_failures (snd (validate_properties cv ps c))"
proof (induction ps arbitrary: c)
  case (Cons p ps)
  then show ?case using property_failures [of cv p c] by (simp add: split_def)
qed simp

lemma rejection_code:
  assumes "validate_http cv schema raw = Inl fs"
  shows "fs \<noteq> [] \<and> short_code (fst (hd fs))"
proof -
  have p: "short_failures gs" if "validate_properties cv ps default_configuration = (c, gs)" for ps c gs
    using properties_failures [of cv ps default_configuration] that by simp
  have "fs \<noteq> [] \<and> short_failures fs"
    using assms by (auto simp: validate_http_def Let_def dest!: p split: if_splits sum.splits json_value.splits prod.splits option.splits)
  then show ?thesis by (cases fs) auto
qed

text \<open>
  What is assumed of the network: its events come in the order of a monotonic clock and name a
  negotiated TLS version and cipher suite by what \<open>crypto/tls\<close> calls them, its statuses are those of
  HTTP, and its errors carry policy errors of the dialer.
\<close>

fun events_ok :: "duration \<Rightarrow> trace_event list \<Rightarrow> bool" where
  "events_ok b [] = True"
| "events_ok b (Connected d # es) = (0 \<le> d \<and> events_ok b es)"
| "events_ok b (TLSStarted at # es) = (b \<le> at \<and> events_ok at es)"
| "events_ok b (TLSFinished st ok at # es) = (b \<le> at \<and> length (tsVersion st) \<le> MaxTLSFieldLength
     \<and> length (tsCipherSuite st) \<le> MaxTLSFieldLength \<and> events_ok at es)"
| "events_ok b (FirstByteAt at # es) = (b \<le> at \<and> events_ok at es)"
| "events_ok b (RedirectFollowed n # es) = False"

fun exec_error_ok :: "exec_error \<Rightarrow> bool" where
  "exec_error_ok (ExecError e timed_out bad_certificate) = storable_error e"
| "exec_error_ok RedirectBudgetExhausted = True"

definition response_ok :: "http_response \<Rightarrow> bool" where
  "response_ok r \<longleftrightarrow> 100 \<le> rpStatusCode r \<and> rpStatusCode r \<le> 599 \<and> length (rpProto r) \<le> MaxProtocolLength
     \<and> 0 \<le> rpBodyLength r \<and> (\<forall>e. rpBodyError r = Some e \<longrightarrow> exec_error_ok e)"

fun hop_ok :: "hop \<Rightarrow> bool" where
  "hop_ok (HopFailed e) = exec_error_ok e"
| "hop_ok (HopLast r) = response_ok r"
| "hop_ok (HopRedirect r l) = response_ok r"

definition network_ok :: "probe_network \<Rightarrow> bool" where
  "network_ok pn \<longleftrightarrow> events_ok 0 (pnEvents pn) \<and> 0 \<le> pnDuration pn \<and> \<not> is_zero (pnStartedAt pn)
     \<and> \<not> is_zero (pnFinishedAt pn) \<and> \<not> before (pnFinishedAt pn) (pnStartedAt pn) \<and> (\<forall>k u. hop_ok (pnHop pn k u))"

definition trace_ok :: "duration \<Rightarrow> execution_trace \<Rightarrow> bool" where
  "trace_ok b t \<longleftrightarrow> 0 \<le> b \<and> (\<forall>d. etConnect t = Some d \<longrightarrow> 0 \<le> d) \<and> (\<forall>x. etTLSBegan t = Some x \<longrightarrow> x \<le> b)
     \<and> (\<forall>d st. etTLS t = Some (d, st) \<longrightarrow> 0 \<le> d \<and> length (tsVersion st) \<le> MaxTLSFieldLength \<and> length (tsCipherSuite st) \<le> MaxTLSFieldLength)
     \<and> (\<forall>d. etFirstByte t = Some d \<longrightarrow> 0 \<le> d) \<and> 0 \<le> etRedirects t"

lemma trace_events_ok: "events_ok b es \<Longrightarrow> trace_ok b t \<Longrightarrow> \<exists>b'. trace_ok b' (fold record_event es t)"
proof (induction b es arbitrary: t rule: events_ok.induct)
  case (2 b d es)
  then show ?case by (simp add: trace_ok_def)
next
  case (3 b at es)
  from 3 have "trace_ok at (record_event (TLSStarted at) t)" by (auto simp: trace_ok_def)
  with 3 show ?case by simp
next
  case (4 b st ok at es)
  from 4 have "trace_ok at (record_event (TLSFinished st ok at) t)" by (fastforce simp: trace_ok_def split: option.split)
  with 4 show ?case by simp
next
  case (5 b at es)
  from 5 have "trace_ok at (record_event (FirstByteAt at) t)" by (fastforce simp: trace_ok_def)
  with 5 show ?case by simp
qed auto

lemma trace_redirects_ok: "trace_ok b t \<Longrightarrow> trace_ok b (fold record_event (map RedirectFollowed ns) t)"
proof (induction ns arbitrary: t)
  case (Cons n ns)
  have "trace_ok b (record_event (RedirectFollowed n) t)" using Cons.prems by (simp add: trace_ok_def)
  from Cons.IH [OF this] show ?case by simp
qed simp

lemma observed_trace_ok:
  assumes "network_ok pn"
  shows "\<exists>b. trace_ok b (trace_of (pnEvents pn @ map RedirectFollowed ns))"
proof -
  have "trace_ok 0 empty_trace" by (simp add: trace_ok_def empty_trace_def)
  from trace_events_ok [OF _ this, of "pnEvents pn"] obtain b where "trace_ok b (fold record_event (pnEvents pn) empty_trace)"
    using assms by (auto simp: network_ok_def)
  from trace_redirects_ok [OF this] show ?thesis unfolding trace_of_def fold_append comp_def by blast
qed

text \<open>Observations whose outcome, codes and details can be stored.\<close>

definition detail_ok :: "http_detail \<Rightarrow> bool" where
  "detail_ok h \<longleftrightarrow> 100 \<le> hdStatusCode h \<and> hdStatusCode h \<le> 599 \<and> length (hdProtocol h) \<le> MaxProtocolLength \<and> 0 \<le> hdBodyBytes h"

definition codes_ok :: "probe_observation \<Rightarrow> bool" where
  "codes_ok ob \<longleftrightarrow> valid_execution_outcome (poOutcome ob)
     \<and> (\<forall>f. poFailure ob = Some f \<longrightarrow> short_code (pfCode f) \<and> length (pfClass f) \<le> MaxCodeLength)
     \<and> (\<forall>h. poHTTP ob = Some h \<longrightarrow> detail_ok h)"

lemma failed_codes [simp]: "codes_ok (failed oc code c) \<longleftrightarrow> valid_execution_outcome oc \<and> short_code code \<and> length c \<le> MaxCodeLength"
  by (auto simp: codes_ok_def failed_def blank_observation_def)

lemma classify_codes: "exec_error_ok e \<Longrightarrow> codes_ok (classify_error k e)"
  by (cases e) (auto simp: classify_error_def storable_error_def split: option.split)

lemma judge_codes:
  assumes "response_ok r" and "0 \<le> stMaxResponseBytes s"
  shows "codes_ok (judge_response s k c r)"
proof -
  obtain n b e where r: "read_body s r = (n, b, e)" by (metis prod_cases3)
  have n: "0 \<le> n" "\<forall>x. e = Some x \<longrightarrow> exec_error_ok x"
    using r assms by (auto simp: read_body_def Let_def response_ok_def split: option.splits if_splits)
  show ?thesis
  proof (cases e)
    case None
    then show ?thesis using n(1) assms(1) r
      by (auto simp: judge_response_def Let_def codes_ok_def failed_def blank_observation_def detail_ok_def response_ok_def)
  next
    case (Some x)
    then have "codes_ok (classify_error k x)" using n(2) classify_codes by blast
    then show ?thesis using n(1) assms(1) r Some
      by (auto simp: judge_response_def Let_def codes_ok_def detail_ok_def response_ok_def)
  qed
qed

lemma client_do_ok:
  assumes "\<forall>k u. hop_ok (hop k u)"
  shows "client_do nv pl hop follow budget via url = (res, followed, urls) \<Longrightarrow>
    (case res of Inl e \<Rightarrow> exec_error_ok e | Inr r \<Rightarrow> response_ok r)"
  using assms
proof (induction nv pl hop follow budget via url arbitrary: res followed urls rule: client_do.induct)
  case (1 nv pl hop follow budget via url)
  have h: "hop_ok (hop via url)" using "1.prems"(2) by blast
  show ?case
  proof (cases "hop via url")
    case (HopRedirect r l)
    show ?thesis
    proof (cases "redirect_checker nv pl follow budget (Suc via) l")
      case FollowIt
      obtain res' f' u' where c: "client_do nv pl hop follow budget (Suc via) l = (res', f', u')" by (metis prod_cases3)
      have "res = res'" using "1.prems"(1) by (simp add: client_do.simps [of nv pl hop follow budget via url] HopRedirect FollowIt c)
      with "1.IH" [OF HopRedirect FollowIt c "1.prems"(2)] show ?thesis by simp
    next
      case UseLast
      then show ?thesis using "1.prems"(1) h
        by (auto simp: client_do.simps [of nv pl hop follow budget via url] HopRedirect)
    next
      case (StopWith e)
      then have "exec_error_ok e" by (auto simp: redirect_checker_def url_error_storable split: if_splits sum.splits)
      then show ?thesis using "1.prems"(1) StopWith
        by (auto simp: client_do.simps [of nv pl hop follow budget via url] HopRedirect)
    qed
  qed (use "1.prems"(1) h in \<open>auto simp: client_do.simps [of nv pl hop follow budget via url]\<close>)
qed

lemma http_codes:
  assumes "network_ok pn" and "0 \<le> stMaxResponseBytes s" and "http_execute nv pl s pn c = (ob, urls)"
  shows "\<exists>ob0 followed. codes_ok ob0 \<and> ob = observe pn followed ob0"
  using assms(3)
proof (cases rule: http_execute_cases)
  case (refused e)
  have "codes_ok (classify_error (pnCancelled pn) (ExecError e False False))"
    using url_error_storable [OF refused(1)] by (intro classify_codes) simp
  with refused(3) show ?thesis by blast
next
  case invalid
  moreover have "codes_ok (failed OutcomeErrored ''probe.http.request.invalid'' '''')" by (simp add: MaxCodeLength_def)
  ultimately show ?thesis by blast
next
  case (error e followed)
  have "\<forall>k u. hop_ok (pnHop pn k u)" using assms(1) by (simp add: network_ok_def)
  from client_do_ok [OF this error(2)] have "codes_ok (classify_error (pnCancelled pn) e)" by (simp add: classify_codes)
  with error(3) show ?thesis by blast
next
  case (answered r followed)
  have "\<forall>k u. hop_ok (pnHop pn k u)" using assms(1) by (simp add: network_ok_def)
  from client_do_ok [OF this answered(2)] have "codes_ok (judge_response s (pnCancelled pn) c r)" using assms(2) by (simp add: judge_codes)
  with answered(3) show ?thesis by blast
qed

lemma phases_ok: "trace_ok b t \<Longrightarrow> 0 \<le> phConnect (trace_phases t) \<and> 0 \<le> phTLS (trace_phases t) \<and> 0 \<le> phFirstByte (trace_phases t)"
  by (auto simp: trace_ok_def trace_phases_def split: option.splits)

lemma observed_detail_ok:
  assumes "trace_ok b t" and "detail_ok h"
  shows "http_detail_validate (h\<lparr>hdRedirectCount := etRedirects t, hdTLS := trace_tls t\<rparr>) = Inr ()"
proof (cases "etTLS t")
  case None
  then show ?thesis using assms by (simp add: http_detail_validate_def detail_ok_def trace_ok_def trace_tls_def)
next
  case (Some p)
  obtain d st where p: "p = (d, st)" by force
  show ?thesis using assms Some
    by (simp add: p http_detail_validate_def detail_ok_def trace_ok_def trace_tls_def split: list.split)
qed

text \<open>What the stored form of an observation is checked for, once it carries the identity of its Run.\<close>

lemma stamped_valid:
  assumes "codes_ok ob" and "network_ok pn" and "rID r \<noteq> ''''" and "slOrganizationID (rSlot r) \<noteq> ''''" and "is_utc (slScheduledFor (rSlot r))"
  shows "observation_validate (stamp_observation (probe_execution (observe pn followed ob)) r) = Inr ()"
proof -
  let ?t = "trace_of (pnEvents pn @ map RedirectFollowed followed)"
  obtain b where t: "trace_ok b ?t" using observed_trace_ok [OF assms(2)] by blast
  have d: "0 \<le> pnDuration pn" using assms(2) by (simp add: network_ok_def)
  have f: "(case poFailure ob of None \<Rightarrow> True | Some f \<Rightarrow> pfCode f \<noteq> '''' \<and> length (pfCode f) \<le> MaxCodeLength \<and> length (pfClass f) \<le> MaxCodeLength)"
    using assms(1) by (auto simp: codes_ok_def short_code_def split: option.split)
  have h: "http_detail_validate (h\<lparr>hdRedirectCount := etRedirects ?t, hdTLS := trace_tls ?t\<rparr>) = Inr ()" if "poHTTP ob = Some h" for h
    using assms(1) that by (intro observed_detail_ok [OF t]) (simp add: codes_ok_def)
  show ?thesis
    using assms(3-5) d phases_ok [OF t] f h
    by (cases "poFailure ob"; cases "poHTTP ob") (simp_all add: observation_validate_def stamp_observation_def probe_execution_def observe_def Let_def MaxCodeLength_def)
qed

lemma immediate_valid:
  assumes "short_code code" and "rID r \<noteq> ''''" and "slOrganizationID (rSlot r) \<noteq> ''''" and "is_utc (slScheduledFor (rSlot r))"
  shows "observation_validate (stamp_observation (probe_execution (immediate pn (failed OutcomeErrored code ''''))) r) = Inr ()"
  using assms by (simp add: observation_validate_def stamp_observation_def probe_execution_def immediate_def failed_def
      blank_observation_def no_phases_def short_code_def MaxCodeLength_def)


text \<open>A target that answers with a status outside 100 to 599, which \<open>net/http\<close> passes on, is executed but its
  observation is refused: the store completes no Run with it and keeps its state.\<close>

theorem unusual_status_is_not_recorded:
  assumes "check_url nv pl (hcURL c) = Inr t" and "pnRequestValid pn" and "pnHop pn 0 (hcURL c) = HopLast rp"
    and "rpStatusCode rp < 100 \<or> 599 < rpStatusCode rp" and "http_execute nv pl s pn c = (ob, urls)"
  shows "\<exists>e. complete_run d v holder (stamp_observation (probe_execution ob) v) entries = (Inl e, d)"
proof -
  have "client_do nv pl (pnHop pn) (hcFollowRedirects c) (effective_redirects s (hcMaxRedirects c)) 0 (hcURL c) = (Inr rp, [], [hcURL c])"
    by (subst client_do.simps) (simp add: assms(3))
  then have ob: "ob = observe pn [] (judge_response s (pnCancelled pn) c rp)"
    using assms(1,2,5) by (simp add: http_execute_def)
  obtain h where h: "poHTTP (judge_response s (pnCancelled pn) c rp) = Some h" "hdStatusCode h = rpStatusCode rp"
  proof -
    obtain n b x where "read_body s rp = (n, b, x)" by (metis prod_cases3)
    then show thesis using that
      by (cases x; cases "accepts_status c (rpStatusCode rp)") (simp_all add: judge_response_def Let_def)
  qed
  have "\<exists>e. http_detail_validate (g\<lparr>hdRedirectCount := n, hdTLS := tl\<rparr>) = Inl e" if "hdStatusCode g = rpStatusCode rp" for g n tl
    using that assms(4) by (auto simp: http_detail_validate_def)
  then obtain e where "observation_validate (stamp_observation (probe_execution ob) v) = Inl e"
    using h by (fastforce simp: ob observation_validate_def stamp_observation_def probe_execution_def observe_def Let_def)
  then show ?thesis by (auto simp: complete_run_def complete_guards_def)
qed

section \<open>Witnesses\<close>

definition probe_env :: net_env where
  "probe_env = lab_env\<lparr>nvParseURL := (\<lambda>s. if s = ''https://a.example/'' \<or> s = ''https://a.example/moved'' then Some probe_url else None)\<rparr>"

text \<open>A target that redirects once and then answers.\<close>

definition moved_network :: "int \<Rightarrow> probe_network" where
  "moved_network status = \<lparr>pnRequestValid = True,
     pnHop = (\<lambda>n u. if u = ''https://a.example/'' \<and> status = 204
        then HopRedirect \<lparr>rpStatusCode = 301, rpProto = ''HTTP/1.1'', rpBodyLength = 0, rpBodyError = None\<rparr> ''https://a.example/moved''
        else HopLast \<lparr>rpStatusCode = status, rpProto = ''HTTP/1.1'', rpBodyLength = 0, rpBodyError = None\<rparr>),
     pnEvents = [Connected 3, TLSStarted 3, TLSFinished \<lparr>tsVersion = ''TLS 1.3'', tsCipherSuite = ''A'', tsPeerExpiries = []\<rparr> True 7, FirstByteAt 9],
     pnCancelled = False, pnStartedAt = sample_time, pnFinishedAt = sample_time, pnDuration = 10\<rparr>"

lemma moved_execution:
  "snd (http_execute probe_env lab_policy default_settings (moved_network 204) probe_configuration)
     = [''https://a.example/'', ''https://a.example/moved'']"
  by code_simp

lemma moved_result:
  obtains ob where "http_execute probe_env lab_policy default_settings (moved_network 204) probe_configuration
     = (ob, [''https://a.example/'', ''https://a.example/moved''])"
  using moved_execution by (metis prod.collapse)

theorem requests_are_bounded_witness:
  "int (length (snd (http_execute probe_env lab_policy default_settings (moved_network 204) probe_configuration))) \<le> 6"
proof -
  obtain ob where ob: "http_execute probe_env lab_policy default_settings (moved_network 204) probe_configuration
     = (ob, [''https://a.example/'', ''https://a.example/moved''])" by (rule moved_result)
  from requests_are_bounded [OF ob] have "int (length [''https://a.example/'', ''https://a.example/moved'']) \<le> 6"
    by (simp add: probe_configuration_def)
  then show ?thesis unfolding ob snd_conv .
qed

theorem requested_urls_are_checked_witness: "is_ok (check_url probe_env lab_policy ''https://a.example/moved'')"
proof -
  obtain ob where ob: "http_execute probe_env lab_policy default_settings (moved_network 204) probe_configuration
     = (ob, [''https://a.example/'', ''https://a.example/moved''])" by (rule moved_result)
  show ?thesis by (rule requested_urls_are_checked [OF ob]) simp
qed

lemma moved_network_ok: "network_ok (moved_network 204)"
  by (simp add: network_ok_def moved_network_def response_ok_def MaxTLSFieldLength_def MaxProtocolLength_def
      sample_time_def is_zero_def zero_time_def zero_nanos_def before_def)


theorem unusual_status_is_not_recorded_witness:
  "\<exists>e. complete_run sample_db sample_finished ''holder''
      (stamp_observation (probe_execution (fst (http_execute probe_env lab_policy default_settings (moved_network 999) probe_configuration))) sample_finished) []
    = (Inl e, sample_db)"
proof -
  obtain ob urls where ob: "http_execute probe_env lab_policy default_settings (moved_network 999) probe_configuration = (ob, urls)" by force
  have t: "is_ok (check_url probe_env lab_policy (hcURL probe_configuration))" by code_simp
  then obtain t where "check_url probe_env lab_policy (hcURL probe_configuration) = Inr t"
    by (cases "check_url probe_env lab_policy (hcURL probe_configuration)") simp_all
  moreover have "pnRequestValid (moved_network 999)"
    "pnHop (moved_network 999) 0 (hcURL probe_configuration)
      = HopLast \<lparr>rpStatusCode = 999, rpProto = ''HTTP/1.1'', rpBodyLength = 0, rpBodyError = None\<rparr>"
    by (simp_all add: moved_network_def)
  ultimately show ?thesis unfolding ob fst_conv by (rule unusual_status_is_not_recorded [OF _ _ _ _ ob]) simp
qed

end
