(* ===== verification/Base64.thy ===== *)
theory Base64
  imports Text
begin

text \<open>
  The unpadded encodings of \<open>encoding/base64\<close> that the program uses: \<open>RawStdEncoding.Strict()\<close> for
  password hashes and \<open>RawURLEncoding\<close> for tokens. Line ends are skipped when decoding, also by a
  strict decoder; a strict decoder refuses bits that no encoder writes. The lemmas show that what
  was encoded decodes to itself, and that a strict decoder accepts only what an encoder writes, up
  to line ends.
\<close>

section \<open>Encoding and decoding\<close>

text \<open>The byte of a sextet; \<open>url\<close> chooses between the two alphabets.\<close>

definition sextet_byte :: "bool \<Rightarrow> int \<Rightarrow> int" where
  "sextet_byte url i =
     (if i < 26 then 65 + i else if i < 52 then 71 + i else if i < 62 then i - 4
      else if i = 62 then (if url then 45 else 43) else (if url then 95 else 47))"

definition byte_sextet :: "bool \<Rightarrow> int \<Rightarrow> int option" where
  "byte_sextet url b =
     (if 65 \<le> b \<and> b \<le> 90 then Some (b - 65)
      else if 97 \<le> b \<and> b \<le> 122 then Some (b - 71)
      else if 48 \<le> b \<and> b \<le> 57 then Some (b + 4)
      else if b = (if url then 45 else 43) then Some 62
      else if b = (if url then 95 else 47) then Some 63
      else None)"

fun sextets :: "int list \<Rightarrow> int list" where
  "sextets [] = []"
| "sextets [a] = [a div 4, a mod 4 * 16]"
| "sextets [a, b] = [a div 4, a mod 4 * 16 + b div 16, b mod 16 * 4]"
| "sextets (a # b # c # bs) =
     (a div 4) # (a mod 4 * 16 + b div 16) # (b mod 16 * 4 + c div 64) # (c mod 64) # sextets bs"

fun octets :: "bool \<Rightarrow> int list \<Rightarrow> int list option" where
  "octets strict [] = Some []"
| "octets strict [p] = None"
| "octets strict [p, q] = (if strict \<and> q mod 16 \<noteq> 0 then None else Some [p * 4 + q div 16])"
| "octets strict [p, q, r] =
     (if strict \<and> r mod 4 \<noteq> 0 then None else Some [p * 4 + q div 16, q mod 16 * 16 + r div 4])"
| "octets strict (p # q # r # s # ss) =
     map_option (\<lambda>bs. (p * 4 + q div 16) # (q mod 16 * 16 + r div 4) # (r mod 4 * 64 + s) # bs) (octets strict ss)"

definition char_at :: "int \<Rightarrow> char" where
  "char_at b = char_of (nat b)"

fun those_sextets :: "bool \<Rightarrow> string \<Rightarrow> int list option" where
  "those_sextets url [] = Some []"
| "those_sextets url (c # cs) =
     (case byte_sextet url (byte c) of
        None \<Rightarrow> None
      | Some i \<Rightarrow> map_option ((#) i) (those_sextets url cs))"

definition raw_encode :: "bool \<Rightarrow> string \<Rightarrow> string" where
  "raw_encode url s = map (\<lambda>i. char_at (sextet_byte url i)) (sextets (map byte s))"

definition without_line_ends :: "string \<Rightarrow> string" where
  "without_line_ends s = filter (\<lambda>c. byte c \<noteq> 10 \<and> byte c \<noteq> 13) s"

definition raw_decode :: "bool \<Rightarrow> bool \<Rightarrow> string \<Rightarrow> string option" where
  "raw_decode url strict s =
     (case those_sextets url (without_line_ends s) of
        None \<Rightarrow> None
      | Some is \<Rightarrow> map_option (map char_at) (octets strict is))"

section \<open>Round trips\<close>

abbreviation is_sextet :: "int \<Rightarrow> bool" where
  "is_sextet i \<equiv> 0 \<le> i \<and> i < 64"

lemma byte_char_at [simp]: "0 \<le> b \<Longrightarrow> b < 256 \<Longrightarrow> byte (char_at b) = b"
  by (simp add: byte_def char_at_def)

lemma char_at_byte [simp]: "char_at (byte c) = c"
  by (simp add: char_at_def)

lemma byte_range [simp]: "0 \<le> byte c" "byte c < 256"
  using byte_less [of c] by simp_all

lemma sextet_byte_range: "is_sextet i \<Longrightarrow> 0 \<le> sextet_byte url i \<and> sextet_byte url i < 128
    \<and> sextet_byte url i \<noteq> 10 \<and> sextet_byte url i \<noteq> 13"
  by (auto simp: sextet_byte_def)

lemma byte_sextet_byte: "is_sextet i \<Longrightarrow> byte_sextet url (sextet_byte url i) = Some i"
  by (auto simp: sextet_byte_def byte_sextet_def)

lemma sextet_byte_sextet: "byte_sextet url b = Some i \<Longrightarrow> sextet_byte url i = b \<and> is_sextet i"
  by (auto simp: sextet_byte_def byte_sextet_def split: if_splits)

lemma sextets_range: "\<forall>b\<in>set bs. 0 \<le> b \<and> b < 256 \<Longrightarrow> \<forall>i\<in>set (sextets bs). is_sextet i"
  by (induction bs rule: sextets.induct) (auto simp: zdiv_eq_0_iff)

lemma byte_parts:
  assumes "0 \<le> (b :: int)" and "b < 256"
  shows "b div 16 div 16 = 0" "b div 16 mod 16 = b div 16" "b div 64 div 4 = 0" "b div 64 mod 4 = b div 64"
proof -
  have q: "0 \<le> b div 16" "b div 16 < 16" "0 \<le> b div 64" "b div 64 < 4" using assms by simp_all
  show "b div 16 div 16 = 0" "b div 64 div 4 = 0" using q by (auto intro: div_pos_pos_trivial)
  show "b div 16 mod 16 = b div 16" "b div 64 mod 4 = b div 64" using q by (auto intro: mod_pos_pos_trivial)
qed

lemma octets_sextets: "\<forall>b\<in>set bs. 0 \<le> b \<and> b < 256 \<Longrightarrow> octets strict (sextets bs) = Some bs"
  by (induction bs rule: sextets.induct) (simp_all add: byte_parts)

lemma sextets_octets:
  "octets True is = Some bs \<Longrightarrow> \<forall>i\<in>set is. is_sextet i \<Longrightarrow> sextets bs = is \<and> (\<forall>b\<in>set bs. 0 \<le> b \<and> b < 256)"
proof (induction True "is" arbitrary: bs rule: octets.induct)
  case (3 p q)
  then show ?case by (auto split: if_splits)
next
  case (4 p q r)
  then show ?case by (auto split: if_splits)
next
  case (5 p q r s ss)
  then show ?case by auto
qed auto

lemma those_sextets_map:
  "\<forall>i\<in>set is. is_sextet i \<Longrightarrow> those_sextets url (map (\<lambda>i. char_at (sextet_byte url i)) is) = Some is"
proof (induction "is")
  case (Cons i "is")
  then have "byte (char_at (sextet_byte url i)) = sextet_byte url i"
    using sextet_byte_range [of i url] by simp
  with Cons show ?case by (simp add: byte_sextet_byte)
qed simp

lemma those_sextets_Some:
  "those_sextets url s = Some is \<Longrightarrow> s = map (\<lambda>i. char_at (sextet_byte url i)) is \<and> (\<forall>i\<in>set is. is_sextet i)"
  by (induction s arbitrary: "is") (auto split: option.splits dest!: sextet_byte_sextet)

lemma encoded_bytes: "c \<in> set (raw_encode url s) \<Longrightarrow> \<exists>i. is_sextet i \<and> byte c = sextet_byte url i"
proof -
  assume "c \<in> set (raw_encode url s)"
  then obtain i where i: "i \<in> set (sextets (map byte s))" "c = char_at (sextet_byte url i)"
    by (auto simp: raw_encode_def)
  then have "is_sextet i" using sextets_range [of "map byte s"] by auto
  then show ?thesis using i(2) sextet_byte_range [of i url] by auto
qed

lemma without_line_ends_encode [simp]: "without_line_ends (raw_encode url s) = raw_encode url s"
  using encoded_bytes [of _ url s] sextet_byte_range [of _ url]
  by (fastforce simp: without_line_ends_def filter_id_conv)

theorem decode_encode: "raw_decode url strict (raw_encode url s) = Some s"
proof -
  have "\<forall>i\<in>set (sextets (map byte s)). is_sextet i" by (rule sextets_range) simp
  then have "those_sextets url (raw_encode url s) = Some (sextets (map byte s))"
    by (simp add: raw_encode_def those_sextets_map)
  then show ?thesis by (simp add: raw_decode_def octets_sextets comp_def)
qed

theorem strict_decode_canonical:
  assumes "raw_decode url True t = Some s"
  shows "raw_encode url s = without_line_ends t"
proof -
  obtain "is" bs where i: "those_sextets url (without_line_ends t) = Some is" "octets True is = Some bs" "s = map char_at bs"
    using assms by (auto simp: raw_decode_def split: option.splits)
  note t = those_sextets_Some [OF i(1)]
  from sextets_octets [OF i(2)] t have b: "sextets bs = is" "\<forall>b\<in>set bs. 0 \<le> b \<and> b < 256" by simp_all
  have "map (byte \<circ> char_at) bs = bs" by (rule map_idI) (use b(2) in simp)
  then show ?thesis using t b(1) i(3) by (simp add: raw_encode_def)
qed

lemma encode_injective: "raw_encode url s = raw_encode url t \<Longrightarrow> s = t"
  using decode_encode by (metis option.inject)

lemma length_sextets: "length (sextets bs) = (4 * length bs + 2) div 3"
  by (induction bs rule: sextets.induct) simp_all

lemma length_raw_encode [simp]: "length (raw_encode url s) = (4 * length s + 2) div 3"
  by (simp add: raw_encode_def length_sextets)

end
