(* ===== verification/Passwords.thy ===== *)
theory Passwords
  imports Base64
begin

text \<open>
  Password hashes: \<open>internal/password/password.go\<close>. Argon2id itself is a parameter, a function that
  returns a key of the length it is asked for, as \<open>argon2.IDKey\<close> documents. A random source is an
  error or the bytes it will yield. The lemmas show that a password verifies against its own hash,
  whatever the parameters it was hashed with, and that no stored text makes a verification cost
  more than the supported bounds. The locale \<open>password_hasher\<close> is the port \<open>user.PasswordHasher\<close>.
\<close>

section \<open>Argon2id\<close>

text \<open>\<open>IDKey(password, salt, time, memory, threads, keyLen)\<close>.\<close>

typedef argon2 = "{f :: string \<Rightarrow> string \<Rightarrow> int \<Rightarrow> int \<Rightarrow> int \<Rightarrow> int \<Rightarrow> string.
    \<forall>p s t m l n. 0 \<le> n \<longrightarrow> int (length (f p s t m l n)) = n}"
  by (rule exI [of _ "\<lambda>p s t m l n. replicate (nat n) (CHR 0x00)"]) simp

setup_lifting type_definition_argon2

definition id_key :: "argon2 \<Rightarrow> string \<Rightarrow> string \<Rightarrow> int \<Rightarrow> int \<Rightarrow> int \<Rightarrow> int \<Rightarrow> string" where
  "id_key kdf = Rep_argon2 kdf"

lemma length_id_key [simp]: "0 \<le> n \<Longrightarrow> int (length (id_key kdf p s t m l n)) = n"
  using Rep_argon2 [of kdf] by (simp add: id_key_def)

section \<open>Parameters\<close>

record password_parameters =
  ppMemoryKiB :: int
  ppTime :: int
  ppParallelism :: int
  ppSaltLength :: int
  ppKeyLength :: int

definition recommended_parameters :: password_parameters where
  "recommended_parameters =
     \<lparr>ppMemoryKiB = 64 * 1024, ppTime = 3, ppParallelism = 1, ppSaltLength = 16, ppKeyLength = 32\<rparr>"

definition minimumMemoryKiB :: int where "minimumMemoryKiB = 8 * 1024"
definition maximumMemoryKiB :: int where "maximumMemoryKiB = 256 * 1024"
definition minimumTime :: int where "minimumTime = 1"
definition maximumTime :: int where "maximumTime = 10"
definition minimumParallelism :: int where "minimumParallelism = 1"
definition maximumParallelism :: int where "maximumParallelism = 4"
definition minimumSaltLength :: int where "minimumSaltLength = 8"
definition maximumSaltLength :: int where "maximumSaltLength = 64"
definition minimumKeyLength :: int where "minimumKeyLength = 16"
definition maximumKeyLength :: int where "maximumKeyLength = 64"
definition maximumPHCLength :: nat where "maximumPHCLength = 1024"

lemmas password_bounds = minimumMemoryKiB_def maximumMemoryKiB_def minimumTime_def maximumTime_def
  minimumParallelism_def maximumParallelism_def minimumSaltLength_def maximumSaltLength_def
  minimumKeyLength_def maximumKeyLength_def

definition validate_parameters :: "password_parameters \<Rightarrow> unit result" where
  "validate_parameters p =
     (if ppMemoryKiB p < minimumMemoryKiB \<or> ppMemoryKiB p > maximumMemoryKiB \<or> ppMemoryKiB p < 8 * ppParallelism p then
        Inl (ErrText ''memory must be between 8192 and 262144 KiB'')
      else if ppTime p < minimumTime \<or> ppTime p > maximumTime then Inl (ErrText ''time must be between 1 and 10'')
      else if ppParallelism p < minimumParallelism \<or> ppParallelism p > maximumParallelism then
        Inl (ErrText ''parallelism must be between 1 and 4'')
      else if ppSaltLength p < minimumSaltLength \<or> ppSaltLength p > maximumSaltLength then
        Inl (ErrText ''salt length must be between 8 and 64 bytes'')
      else if ppKeyLength p < minimumKeyLength \<or> ppKeyLength p > maximumKeyLength then
        Inl (ErrText ''key length must be between 16 and 64 bytes'')
      else Inr ())"

section \<open>Hashing\<close>

definition phc_costs :: "password_parameters \<Rightarrow> string" where
  "phc_costs p = ''m='' @ int_dec (ppMemoryKiB p) @ '',t='' @ int_dec (ppTime p) @ '',p='' @ int_dec (ppParallelism p)"

definition phc_text :: "password_parameters \<Rightarrow> string \<Rightarrow> string \<Rightarrow> string" where
  "phc_text p salt key =
     ''$argon2id$v=19$'' @ phc_costs p @ ''$'' @ raw_encode False salt @ ''$'' @ raw_encode False key"

definition hasher_hash :: "argon2 \<Rightarrow> password_parameters \<Rightarrow> (nat \<Rightarrow> char) result \<Rightarrow> string \<Rightarrow> string result" where
  "hasher_hash kdf p random password =
     (case random of
        Inl e \<Rightarrow> Inl (Wrapped ''read password salt'' e)
      | Inr bytes \<Rightarrow>
          let salt = map bytes [0..<nat (ppSaltLength p)];
            key = id_key kdf password salt (ppTime p) (ppMemoryKiB p) (ppParallelism p) (ppKeyLength p)
          in Inr (phc_text p salt key))"

section \<open>Verification\<close>

datatype password_verification = PasswordFailed | PasswordVerified | PasswordVerifiedRehashNeeded

record parsed_phc =
  phParameters :: password_parameters
  phSalt :: string
  phKey :: string

fun cost_values :: "string list \<Rightarrow> (string \<rightharpoonup> int) \<Rightarrow> (string \<rightharpoonup> int) result" where
  "cost_values [] vs = Inr vs"
| "cost_values (p # ps) vs =
     (case cut_at (CHR ''='') p of
        None \<Rightarrow> Inl (ErrText ''invalid Argon2id PHC cost parameter'')
      | Some (k, v) \<Rightarrow>
          if k \<noteq> ''m'' \<and> k \<noteq> ''t'' \<and> k \<noteq> ''p'' then Inl (ErrText ''invalid Argon2id PHC cost parameter'')
          else if vs k \<noteq> None \<or> v = '''' \<or> hd v = CHR ''+'' \<or> hd v = CHR ''-'' then
            Inl (ErrText ''invalid Argon2id PHC cost parameter'')
          else case parse_uint (if k = ''p'' then 8 else 32) v of
            None \<Rightarrow> Inl (ErrText ''invalid Argon2id PHC cost parameter'')
          | Some n \<Rightarrow> cost_values ps (vs(k \<mapsto> n)))"

definition parse_cost_parameters :: "string \<Rightarrow> (int \<times> int \<times> int) result" where
  "parse_cost_parameters encoded =
     (let parts = split_on (CHR '','') encoded in
      if length parts \<noteq> 3 then Inl (ErrText ''invalid Argon2id PHC cost parameters'')
      else and_then (cost_values parts Map.empty) (\<lambda>vs.
        case vs ''m'' of
          None \<Rightarrow> Inl (ErrText ''missing Argon2id memory cost'')
        | Some m \<Rightarrow>
            (case vs ''t'' of
               None \<Rightarrow> Inl (ErrText ''missing Argon2id time cost'')
             | Some t \<Rightarrow>
                 (case vs ''p'' of
                    None \<Rightarrow> Inl (ErrText ''missing Argon2id parallelism'')
                  | Some p \<Rightarrow> Inr (m, t, p)))))"

definition cost_supported :: "int \<times> int \<times> int \<Rightarrow> bool" where
  "cost_supported c = (case c of (m, t, p) \<Rightarrow>
     \<not> (m < minimumMemoryKiB \<or> m > maximumMemoryKiB \<or> t < minimumTime \<or> t > maximumTime
       \<or> p < minimumParallelism \<or> p > maximumParallelism \<or> m < 8 * p))"

definition parse_phc :: "string \<Rightarrow> parsed_phc result" where
  "parse_phc encoded =
     (if length encoded = 0 \<or> length encoded > maximumPHCLength then Inl (ErrText ''invalid Argon2id PHC length'')
      else let parts = split_on (CHR ''$'') encoded in
        if length parts \<noteq> 6 \<or> parts ! 0 \<noteq> '''' \<or> parts ! 1 \<noteq> ''argon2id'' \<or> parts ! 2 \<noteq> ''v=19'' then
          Inl (ErrText ''invalid Argon2id PHC envelope'')
        else and_then (parse_cost_parameters (parts ! 3)) (\<lambda>c.
          if \<not> cost_supported c then Inl (ErrText ''Argon2id PHC cost is outside supported bounds'')
          else case raw_decode False True (parts ! 4) of
            None \<Rightarrow> Inl (ErrText ''invalid Argon2id PHC salt encoding'')
          | Some salt \<Rightarrow>
              (case raw_decode False True (parts ! 5) of
                 None \<Rightarrow> Inl (ErrText ''invalid Argon2id PHC key encoding'')
               | Some key \<Rightarrow>
                   let ps = \<lparr>ppMemoryKiB = fst c, ppTime = fst (snd c), ppParallelism = snd (snd c),
                     ppSaltLength = int (length salt), ppKeyLength = int (length key)\<rparr>
                   in case validate_parameters ps of
                     Inl e \<Rightarrow> Inl (Wrapped ''invalid Argon2id PHC parameters'' e)
                   | Inr _ \<Rightarrow> Inr \<lparr>phParameters = ps, phSalt = salt, phKey = key\<rparr>)))"

definition hasher_verify :: "argon2 \<Rightarrow> password_parameters \<Rightarrow> string \<Rightarrow> string \<Rightarrow> password_verification result" where
  "hasher_verify kdf p encoded password =
     and_then (parse_phc encoded) (\<lambda>x.
       let ps = phParameters x;
         candidate = id_key kdf password (phSalt x) (ppTime ps) (ppMemoryKiB ps) (ppParallelism ps) (ppKeyLength ps)
       in if candidate \<noteq> phKey x then Inr PasswordFailed
          else if ps \<noteq> p then Inr PasswordVerifiedRehashNeeded
          else Inr PasswordVerified)"

section \<open>What is written reads back\<close>

lemma int_dec_nonneg: "0 \<le> i \<Longrightarrow> int_dec i = nat_dec (nat i)"
  by (simp add: int_dec_def)

lemma digits_free: "\<not> (48 \<le> byte c \<and> byte c \<le> 57) \<Longrightarrow> c \<notin> set (nat_dec n)"
  using nat_dec_digits by blast

lemma not_in_encode: "byte c \<in> {36, 44} \<Longrightarrow> c \<notin> set (raw_encode url s)"
  using encoded_bytes [of c url s] by (auto simp: sextet_byte_def split: if_splits)

lemma hd_digits: "hd (nat_dec n) \<noteq> CHR ''+''" "hd (nat_dec n) \<noteq> CHR ''-''"
proof -
  have "48 \<le> byte (hd (nat_dec n))" using nat_dec_digits hd_in_set [OF nat_dec_not_Nil] by blast
  then show "hd (nat_dec n) \<noteq> CHR ''+''" "hd (nat_dec n) \<noteq> CHR ''-''" by (auto simp: byte_def)
qed

lemma cut_at_append: "sep \<notin> set a \<Longrightarrow> cut_at sep (a @ sep # b) = Some (a, b)"
  by (induction a) (auto simp: cut_at_def)

lemma parameters_bounds:
  assumes "validate_parameters p = Inr ()"
  shows "8192 \<le> ppMemoryKiB p" "ppMemoryKiB p \<le> 262144" "1 \<le> ppTime p" "ppTime p \<le> 10"
    "1 \<le> ppParallelism p" "ppParallelism p \<le> 4" "8 \<le> ppSaltLength p" "ppSaltLength p \<le> 64"
    "16 \<le> ppKeyLength p" "ppKeyLength p \<le> 64" "8 * ppParallelism p \<le> ppMemoryKiB p"
  using assms by (auto simp: validate_parameters_def password_bounds split: if_splits)

lemma costs_read_back:
  assumes "validate_parameters p = Inr ()"
  shows "parse_cost_parameters (phc_costs p) = Inr (ppMemoryKiB p, ppTime p, ppParallelism p)"
proof -
  note b = parameters_bounds [OF assms]
  let ?m = "nat_dec (nat (ppMemoryKiB p))" and ?t = "nat_dec (nat (ppTime p))" and ?l = "nat_dec (nat (ppParallelism p))"
  have c: "phc_costs p = (''m='' @ ?m) @ CHR '','' # (''t='' @ ?t) @ CHR '','' # (''p='' @ ?l)"
    using b by (simp add: phc_costs_def int_dec_nonneg)
  have free: "CHR '','' \<notin> set (nat_dec n)" "CHR ''='' \<notin> set (nat_dec n)" for n
    by (rule digits_free, simp add: byte_def)+
  have s: "split_on (CHR '','') (phc_costs p) = [''m='' @ ?m, ''t='' @ ?t, ''p='' @ ?l]"
    unfolding c using free by (simp add: split_on_append split_on_free)
  have cut: "cut_at (CHR ''='') ([k] @ CHR ''='' # v) = Some ([k], v)" if "k \<noteq> CHR ''=''" for k v
    by (rule cut_at_append) (use that in simp)
  have u: "parse_uint 32 ?m = Some (ppMemoryKiB p)" "parse_uint 32 ?t = Some (ppTime p)" "parse_uint 8 ?l = Some (ppParallelism p)"
    using b by (simp_all add: parse_uint_dec)
  show ?thesis
    unfolding parse_cost_parameters_def s using u hd_digits by (simp add: cut [simplified])
qed

lemma phc_parts:
  assumes "validate_parameters p = Inr ()"
  shows "split_on (CHR ''$'') (phc_text p salt key)
    = ['''', ''argon2id'', ''v=19'', phc_costs p, raw_encode False salt, raw_encode False key]"
proof -
  note b = parameters_bounds [OF assms]
  have "CHR ''$'' \<notin> set (nat_dec n)" for n by (rule digits_free) (simp add: byte_def)
  then have c: "CHR ''$'' \<notin> set (phc_costs p)" using b by (simp add: phc_costs_def int_dec_nonneg)
  have d: "CHR ''$'' \<notin> set (raw_encode False s)" for s by (rule not_in_encode) (simp add: byte_def)
  show ?thesis using c d by (simp add: phc_text_def split_on_append split_on_free)
qed

lemma phc_length:
  assumes "validate_parameters p = Inr ()" and "int (length salt) = ppSaltLength p" and "int (length key) = ppKeyLength p"
  shows "0 < length (phc_text p salt key) \<and> length (phc_text p salt key) \<le> maximumPHCLength"
proof -
  note b = parameters_bounds [OF assms(1)]
  have "length (nat_dec (nat (ppMemoryKiB p))) \<le> 6" using b by (intro nat_dec_length) simp_all
  moreover have "length (nat_dec (nat (ppTime p))) \<le> 2" using b by (intro nat_dec_length) simp_all
  moreover have "length (nat_dec (nat (ppParallelism p))) \<le> 1" using b by (intro nat_dec_length) simp_all
  moreover have "length salt \<le> 64" "length key \<le> 64" using b assms by linarith+
  ultimately show ?thesis
    using b by (simp add: phc_text_def phc_costs_def int_dec_nonneg maximumPHCLength_def)
qed

lemma phc_reads_back:
  assumes "validate_parameters p = Inr ()" and "int (length salt) = ppSaltLength p" and "int (length key) = ppKeyLength p"
  shows "parse_phc (phc_text p salt key) = Inr \<lparr>phParameters = p, phSalt = salt, phKey = key\<rparr>"
proof -
  note b = parameters_bounds [OF assms(1)]
  have s: "cost_supported (ppMemoryKiB p, ppTime p, ppParallelism p)"
    using b by (simp add: cost_supported_def password_bounds)
  have p: "\<lparr>ppMemoryKiB = ppMemoryKiB p, ppTime = ppTime p, ppParallelism = ppParallelism p,
      ppSaltLength = ppSaltLength p, ppKeyLength = ppKeyLength p\<rparr> = p" by (cases p) simp
  show ?thesis
    using phc_length [OF assms] assms s
    by (simp add: p parse_phc_def phc_parts costs_read_back decode_encode Let_def)
qed

section \<open>Properties\<close>

text \<open>A hash reads back as what it was made of.\<close>

lemma hash_reads_back:
  assumes "validate_parameters q = Inr ()" and "hasher_hash kdf q random password = Inr encoded"
  shows "\<exists>salt. int (length salt) = ppSaltLength q \<and> parse_phc encoded = Inr \<lparr>phParameters = q, phSalt = salt,
    phKey = id_key kdf password salt (ppTime q) (ppMemoryKiB q) (ppParallelism q) (ppKeyLength q)\<rparr>"
proof -
  obtain bytes where r: "random = Inr bytes" using assms(2) by (cases random) (auto simp: hasher_hash_def)
  let ?salt = "map bytes [0..<nat (ppSaltLength q)]"
  let ?key = "id_key kdf password ?salt (ppTime q) (ppMemoryKiB q) (ppParallelism q) (ppKeyLength q)"
  note b = parameters_bounds [OF assms(1)]
  have "encoded = phc_text q ?salt ?key" using assms(2) r by (simp add: hasher_hash_def Let_def)
  moreover have "parse_phc (phc_text q ?salt ?key) = Inr \<lparr>phParameters = q, phSalt = ?salt, phKey = ?key\<rparr>"
    by (rule phc_reads_back [OF assms(1)]) (use b in simp_all)
  ultimately show ?thesis using b by (intro exI [of _ ?salt]) simp
qed

lemma hash_verifies:
  assumes "validate_parameters q = Inr ()" and "hasher_hash kdf q random password = Inr encoded"
  shows "hasher_verify kdf p encoded password
    = Inr (if p = q then PasswordVerified else PasswordVerifiedRehashNeeded)"
  using hash_reads_back [OF assms] by (auto simp: hasher_verify_def Let_def)

text \<open>A password verifies against the hash made of it, with whatever valid parameters: as it is when the
  hasher's own parameters made it, and asking for a new hash when others did.\<close>

theorem hashed_password_verifies:
  assumes "validate_parameters q = Inr ()" and "hasher_hash kdf q random password = Inr encoded"
  shows "hasher_verify kdf p encoded password
    = Inr (if p = q then PasswordVerified else PasswordVerifiedRehashNeeded)"
  by (rule hash_verifies [OF assms])

text \<open>Whatever text is stored as a hash, verifying a password against it never asks Argon2id for more
  than the supported cost, and accepts only the key that Argon2id derives from it.\<close>

lemma verification_cost_is_bounded:
  assumes "parse_phc encoded = Inr x"
  shows "validate_parameters (phParameters x) = Inr ()" "int (length (phSalt x)) = ppSaltLength (phParameters x)"
    "int (length (phKey x)) = ppKeyLength (phParameters x)"
proof -
  obtain c where c: "cost_supported c" and rest: "(case raw_decode False True (split_on (CHR ''$'') encoded ! 4) of
      None \<Rightarrow> Inl (ErrText ''invalid Argon2id PHC salt encoding'')
    | Some salt \<Rightarrow>
        (case raw_decode False True (split_on (CHR ''$'') encoded ! 5) of
           None \<Rightarrow> Inl (ErrText ''invalid Argon2id PHC key encoding'')
         | Some key \<Rightarrow>
             let ps = \<lparr>ppMemoryKiB = fst c, ppTime = fst (snd c), ppParallelism = snd (snd c),
               ppSaltLength = int (length salt), ppKeyLength = int (length key)\<rparr>
             in case validate_parameters ps of
               Inl e \<Rightarrow> Inl (Wrapped ''invalid Argon2id PHC parameters'' e)
             | Inr _ \<Rightarrow> Inr \<lparr>phParameters = ps, phSalt = salt, phKey = key\<rparr>)) = Inr x"
    using assms unfolding parse_phc_def Let_def and_then_Inr if_Inl_eq_Inr by blast
  show "validate_parameters (phParameters x) = Inr ()" "int (length (phSalt x)) = ppSaltLength (phParameters x)"
    "int (length (phKey x)) = ppKeyLength (phParameters x)"
    using rest by (auto simp: Let_def split: option.splits sum.splits)
qed

lemma accepted_key_is_derived:
  assumes "hasher_verify kdf p encoded password = Inr v" and "v \<noteq> PasswordFailed"
  obtains x where "parse_phc encoded = Inr x"
    "id_key kdf password (phSalt x) (ppTime (phParameters x)) (ppMemoryKiB (phParameters x))
       (ppParallelism (phParameters x)) (ppKeyLength (phParameters x)) = phKey x"
    "v = PasswordVerified \<longleftrightarrow> phParameters x = p"
  using assms by (auto simp: hasher_verify_def and_then_Inr Let_def split: if_splits)

section \<open>The port\<close>

lemma trim_starts_with:
  assumes "byte c < 128" and "\<not> is_space (byte c)"
  shows "trim_space (c # cs) \<noteq> ''''"
proof -
  have p: "pieces (c # cs) = (byte c, [c]) # pieces cs"
    using assms(1) by (simp add: decode_rune_def sequence_shape_def)
  let ?ps = "(byte c, [c]) # pieces cs"
  have d: "dropWhile (is_space \<circ> fst) ?ps = ?ps" using assms(2) by simp
  have "(byte c, [c]) \<in> set (trim_pieces ?ps)"
    unfolding trim_pieces_def d using assms(2) by (simp add: dropWhile_append3)
  then have "[c] \<in> set (map snd (trim_pieces ?ps))" by (force simp: image_iff)
  then have "bytes_of (trim_pieces ?ps) \<noteq> ''''" unfolding bytes_of_def concat_eq_Nil_conv by blast
  then show ?thesis unfolding trim_space_def p .
qed

locale password_hasher =
  fixes hash :: "'r \<Rightarrow> string \<Rightarrow> string result" and verify :: "string \<Rightarrow> string \<Rightarrow> password_verification result"
  assumes verify_hash: "hash r p = Inr h \<Longrightarrow> verify h p = Inr PasswordVerified"
    and verify_hash_of_other: "hash r p = Inr h \<Longrightarrow> is_ok (verify h q)"
    and hash_not_blank: "hash r p = Inr h \<Longrightarrow> trim_space h \<noteq> ''''"

lemma recommended_valid: "validate_parameters recommended_parameters = Inr ()"
  by (simp add: validate_parameters_def recommended_parameters_def password_bounds)

interpretation argon: password_hasher "hasher_hash kdf recommended_parameters" "hasher_verify kdf recommended_parameters"
proof
  show "hasher_verify kdf recommended_parameters h p = Inr PasswordVerified"
    if "hasher_hash kdf recommended_parameters r p = Inr h" for r p h
    using hash_verifies [OF recommended_valid that] by simp
  show "is_ok (hasher_verify kdf recommended_parameters h q)" if "hasher_hash kdf recommended_parameters r p = Inr h" for r p h q
    using hash_reads_back [OF recommended_valid that] by (auto simp: hasher_verify_def Let_def)
  show "trim_space h \<noteq> ''''" if "hasher_hash kdf recommended_parameters r p = Inr h" for r p h
  proof -
    have "\<exists>t. h = CHR ''$'' # t"
      using that by (auto simp: hasher_hash_def phc_text_def Let_def split: sum.splits)
    then show ?thesis by (auto simp: trim_starts_with byte_def is_space_def)
  qed
qed

section \<open>Witnesses\<close>

text \<open>A function that only repeats the password; the parameters of an older build.\<close>

lift_definition plain_kdf :: argon2 is "\<lambda>p s t m l n. take (nat n) (p @ replicate (nat n) (CHR 0x00))"
  by simp

definition older_parameters :: password_parameters where
  "older_parameters = recommended_parameters\<lparr>ppMemoryKiB := 8 * 1024, ppTime := 1\<rparr>"

lemma older_valid: "validate_parameters older_parameters = Inr ()"
  by (simp add: validate_parameters_def older_parameters_def recommended_parameters_def password_bounds)

theorem hashed_password_verifies_witness:
  "\<exists>encoded. hasher_hash plain_kdf older_parameters (Inr (\<lambda>i. CHR ''s'')) ''correct horse'' = Inr encoded
     \<and> hasher_verify plain_kdf recommended_parameters encoded ''correct horse'' = Inr PasswordVerifiedRehashNeeded"
proof -
  obtain encoded where e: "hasher_hash plain_kdf older_parameters (Inr (\<lambda>i. CHR ''s'')) ''correct horse'' = Inr encoded"
    by (simp add: hasher_hash_def Let_def)
  have "recommended_parameters \<noteq> older_parameters" by (simp add: older_parameters_def recommended_parameters_def)
  with e hashed_password_verifies [OF older_valid e, of recommended_parameters] show ?thesis by simp
qed

end
