(* ===== verification/Accounts.thy ===== *)
theory Accounts
  imports Database Passwords "HOL-Library.List_Lexorder" "HOL-Library.Product_Lexorder" "HOL-Library.Char_ord"
begin

text \<open>
  Local users: \<open>internal/user/user.go\<close>, the use cases of \<open>internal/user/service.go\<close> and the users of
  \<open>internal/postgres/user.go\<close>.

  \<open>identity_db\<close> holds the tables of users, sessions, antiforgery tokens, Organizations and members;
  the tables of \<open>Database\<close> name users and Organizations by their identifiers only. A use case that
  reads and then writes has other requests between the two, \<open>between\<close>. \<open>low\<close> is \<open>unicode.ToLower\<close>
  beyond ASCII; the password hasher is a parameter, the port of \<open>Passwords\<close>.
\<close>

section \<open>Users\<close>

definition AdministratorRole :: string where "AdministratorRole = ''Administrator''"

record account =
  acID :: string
  acEmail :: string
  acDisplayName :: string
  acRole :: string
  acPasswordHash :: string
  acCreatedAt :: go_time

text \<open>The loop of \<open>NormalizeEmail\<close> over the runes: the place of the only at sign, \<open>-1\<close> without one.\<close>

fun email_at :: "nat \<Rightarrow> int \<Rightarrow> (int \<times> string) list \<Rightarrow> int option" where
  "email_at i at [] = Some at"
| "email_at i at ((r, bs) # ps) =
     (if is_space r \<or> is_control r then None
      else if r = 64 then (if at \<ge> 0 then None else email_at (i + length bs) (int i) ps)
      else email_at (i + length bs) at ps)"

definition normalize_email :: "(int \<Rightarrow> int) \<Rightarrow> string \<Rightarrow> string option" where
  "normalize_email low candidate =
     (let normalized = to_lower low (trim_space candidate) in
      if utf16_length normalized < 1 \<or> utf16_length normalized > 254 then None
      else case email_at 0 (-1) (pieces normalized) of
        None \<Rightarrow> None
      | Some at \<Rightarrow> if at < 1 \<or> at \<ge> int (length normalized) - 1 then None else Some normalized)"

definition valid_password :: "string \<Rightarrow> bool" where
  "valid_password password \<longleftrightarrow> 12 \<le> utf16_length password \<and> utf16_length password \<le> 128"

definition new_user :: "(int \<Rightarrow> int) \<Rightarrow> account \<Rightarrow> account result" where
  "new_user low a =
     (if acID a = '''' then Inl (ErrText ''a user requires an id'')
      else if normalize_email low (acEmail a) \<noteq> Some (acEmail a) then Inl (ErrText ''invalid normalized email'')
      else if normalize_label (acDisplayName a) \<noteq> Some (acDisplayName a) then Inl (ErrText ''invalid user display name'')
      else if acRole a \<noteq> AdministratorRole then Inl (ErrText ''unknown instance role'')
      else if trim_space (acPasswordHash a) = '''' then Inl (ErrText ''a user requires a non-empty password hash'')
      else if \<not> is_utc (acCreatedAt a) then Inl (ErrText ''persisted timestamps must be UTC'')
      else Inr a)"

definition replace_password_hash :: "account \<Rightarrow> string \<Rightarrow> account result" where
  "replace_password_hash a h =
     (if trim_space h = '''' then Inl (ErrText ''a user requires a non-empty password hash'')
      else Inr (a\<lparr>acPasswordHash := h\<rparr>))"

section \<open>Tables\<close>

record session =
  snTokenHash :: string
  snUserID :: string
  snAuthenticatedAt :: go_time
  snExpiresAt :: go_time

record antiforgery =
  afSelectorHash :: string
  afRequestTokenHash :: string
  afSessionTokenHash :: string
  afExpiresAt :: go_time

record organization =
  ogID :: string
  ogDisplayName :: string
  ogCreatedAt :: go_time

record membership =
  msOrganizationID :: string
  msUserID :: string
  msRole :: string
  msCreatedAt :: go_time

record identity_db =
  idUsers :: "account list"
  idSessions :: "session list"
  idAntiforgery :: "antiforgery list"
  idAnonymousKey :: "string option"
  idOrganizations :: "organization list"
  idMembers :: "membership list"

text \<open>A text column takes valid UTF-8 without the null character.\<close>

definition pg_text :: "string \<Rightarrow> bool" where
  "pg_text s \<longleftrightarrow> list_all (\<lambda>(r, bs). r \<noteq> 0 \<and> \<not> (r = RuneError \<and> length bs = 1)) (pieces s)"

definition account_row_ok :: "account \<Rightarrow> bool" where
  "account_row_ok a \<longleftrightarrow> pg_text (acEmail a) \<and> pg_text (acDisplayName a) \<and> pg_text (acPasswordHash a)"

definition account_to_row :: "account \<Rightarrow> account" where
  "account_to_row a = a\<lparr>acCreatedAt := db_instant (acCreatedAt a)\<rparr>"

definition scan_user :: "(int \<Rightarrow> int) \<Rightarrow> account \<Rightarrow> account result" where
  "scan_user low a =
     (case new_user low (a\<lparr>acCreatedAt := to_utc (acCreatedAt a)\<rparr>) of
        Inl e \<Rightarrow> Inl (Wrapped ''restore user'' e) | Inr v \<Rightarrow> Inr v)"

definition any_users_exist :: "identity_db \<Rightarrow> bool" where
  "any_users_exist d \<longleftrightarrow> idUsers d \<noteq> []"

definition find_account :: "(int \<Rightarrow> int) \<Rightarrow> (account \<Rightarrow> bool) \<Rightarrow> identity_db \<Rightarrow> account option result" where
  "find_account low p d =
     (case find p (idUsers d) of None \<Rightarrow> Inr None | Some a \<Rightarrow> and_then (scan_user low a) (\<lambda>v. Inr (Some v)))"

definition find_by_id :: "(int \<Rightarrow> int) \<Rightarrow> string \<Rightarrow> identity_db \<Rightarrow> account option result" where
  "find_by_id low i d = find_account low (\<lambda>a. acID a = i) d"

definition find_by_email :: "(int \<Rightarrow> int) \<Rightarrow> string \<Rightarrow> identity_db \<Rightarrow> account option result" where
  "find_by_email low email d = find_account low (\<lambda>a. acEmail a = email) d"

fun map_results :: "('a \<Rightarrow> 'b result) \<Rightarrow> 'a list \<Rightarrow> 'b list result" where
  "map_results f [] = Inr []"
| "map_results f (x # xs) = and_then (f x) (\<lambda>y. and_then (map_results f xs) (\<lambda>ys. Inr (y # ys)))"

text \<open>\<open>List\<close>, in creation order.\<close>

definition list_accounts :: "(int \<Rightarrow> int) \<Rightarrow> identity_db \<Rightarrow> account list result" where
  "list_accounts low d = map_results (scan_user low) (sort_key (\<lambda>a. (nanos (acCreatedAt a), acID a)) (idUsers d))"

definition create_account :: "account \<Rightarrow> identity_db \<Rightarrow> unit result \<times> identity_db" where
  "create_account a d =
     (if \<not> account_row_ok a \<or> sql_exists (\<lambda>b. acID b = acID a) (idUsers d) then (Inl (ErrText ''insert user''), d)
      else if sql_exists (\<lambda>b. acEmail b = acEmail a) (idUsers d) then (Inl (ErrIs DuplicateEmail), d)
      else (Inr (), d\<lparr>idUsers := idUsers d @ [account_to_row a]\<rparr>))"

text \<open>Under the advisory lock the transaction sees every user that was committed before it.\<close>

definition create_first_administrator :: "account \<Rightarrow> identity_db \<Rightarrow> unit result \<times> identity_db" where
  "create_first_administrator a d =
     (if any_users_exist d then (Inl (ErrIs SetupAlreadyCompleted), d)
      else if \<not> account_row_ok a then (Inl (ErrText ''insert first administrator''), d)
      else (Inr (), d\<lparr>idUsers := idUsers d @ [account_to_row a]\<rparr>))"

definition update_profile :: "string \<Rightarrow> account \<Rightarrow> identity_db \<Rightarrow> unit result \<times> identity_db" where
  "update_profile i a d =
     (if \<not> pg_text (acEmail a) \<or> \<not> pg_text (acDisplayName a) then (Inl (ErrText ''update user profile''), d)
      else if \<not> sql_exists (\<lambda>b. acID b = i) (idUsers d) then (Inl (ErrIs UserMissing), d)
      else if sql_exists (\<lambda>b. acID b \<noteq> i \<and> acEmail b = acEmail a) (idUsers d) then (Inl (ErrIs DuplicateEmail), d)
      else (Inr (), d\<lparr>idUsers := sql_update (\<lambda>b. acID b = i)
        (\<lambda>b. b\<lparr>acEmail := acEmail a, acDisplayName := acDisplayName a\<rparr>) (idUsers d)\<rparr>))"

definition update_password_hash :: "string \<Rightarrow> string \<Rightarrow> identity_db \<Rightarrow> unit result \<times> identity_db" where
  "update_password_hash i h d =
     (if \<not> sql_exists (\<lambda>b. acID b = i) (idUsers d) \<or> \<not> pg_text h then (Inl (ErrText ''update password hash''), d)
      else (Inr (), d\<lparr>idUsers := sql_update (\<lambda>b. acID b = i) (\<lambda>b. b\<lparr>acPasswordHash := h\<rparr>) (idUsers d)\<rparr>))"

section \<open>Use cases\<close>

text \<open>
  The outcome of a use case is its \<open>Kind\<close> with what comes with it. Hashing and verifying are the
  port \<open>PasswordHasher\<close>, \<open>uuid\<close> the identifier that is generated.
\<close>

definition email_failure :: validation_failure where
  "email_failure = \<lparr>vfCode = ''user.email.invalid'', vfField = ''email'',
     vfMessage = ''An email address contains one '' @ [CHR 0x27, CHR ''@'', CHR 0x27] @ '' with non-empty sides, no whitespace, and at most 254 characters.''\<rparr>"

definition display_name_failure :: validation_failure where
  "display_name_failure = \<lparr>vfCode = ''user.displayName.invalid'', vfField = ''displayName'',
     vfMessage = ''A display name is optional and defaults to the email address when omitted; otherwise it is 1 to 100 characters after trimming.''\<rparr>"

definition password_failure :: validation_failure where
  "password_failure = \<lparr>vfCode = ''user.password.length'', vfField = ''password'',
     vfMessage = ''A password is 12 to 128 characters.''\<rparr>"

definition validate_profile_input :: "(int \<Rightarrow> int) \<Rightarrow> string \<Rightarrow> string \<Rightarrow> string \<times> string \<times> validation_failure list" where
  "validate_profile_input low email display_name =
     (let normalized = normalize_email low email;
        trimmed = trim_space display_name;
        name = (case normalized of Some e \<Rightarrow> if trimmed = '''' then e else trimmed | None \<Rightarrow> trimmed)
      in (case normalized of None \<Rightarrow> '''' | Some e \<Rightarrow> e, name,
          (if normalized = None then [email_failure] else []) @
          (if normalize_label name = None then [display_name_failure] else [])))"

definition validate_account_input ::
  "(int \<Rightarrow> int) \<Rightarrow> string \<Rightarrow> string \<Rightarrow> string \<Rightarrow> string \<times> string \<times> validation_failure list" where
  "validate_account_input low email display_name password =
     (case validate_profile_input low email display_name of (e, n, failures) \<Rightarrow>
        (e, n, failures @ (if valid_password password then [] else [password_failure])))"

datatype create_user_result = UserInvalid "validation_failure list" | UserCreated account | UserDuplicateEmail
  | SetupCompleted

text \<open>What \<open>CreateFirstAdministrator\<close> and \<open>CreateUser\<close> share up to the store.\<close>

definition user_to_create ::
  "(int \<Rightarrow> int) \<Rightarrow> (string \<Rightarrow> string result) \<Rightarrow> string result \<Rightarrow> go_time \<Rightarrow> string \<Rightarrow> string \<Rightarrow> string \<Rightarrow> account result" where
  "user_to_create low hash uuid clock email display_name password =
     (case uuid of
        Inl e \<Rightarrow> Inl (Wrapped ''generate user id'' e)
      | Inr i \<Rightarrow>
          (case hash password of
             Inl e \<Rightarrow> Inl (Wrapped ''hash password'' e)
           | Inr h \<Rightarrow> new_user low \<lparr>acID = i, acEmail = email, acDisplayName = display_name, acRole = AdministratorRole,
               acPasswordHash = h, acCreatedAt = to_utc clock\<rparr>))"

definition setup_administrator ::
  "(int \<Rightarrow> int) \<Rightarrow> (string \<Rightarrow> string result) \<Rightarrow> string result \<Rightarrow> go_time \<Rightarrow> string \<Rightarrow> string \<Rightarrow> string \<Rightarrow>
     identity_db \<Rightarrow> create_user_result result \<times> identity_db" where
  "setup_administrator low hash uuid clock email display_name password d =
     (case validate_account_input low email display_name password of (e, n, failures) \<Rightarrow>
        if failures \<noteq> [] then (Inr (UserInvalid failures), d)
        else case user_to_create low hash uuid clock e n password of
          Inl err \<Rightarrow> (Inl err, d)
        | Inr a \<Rightarrow>
            (case create_first_administrator a d of
               (Inr _, d') \<Rightarrow> (Inr (UserCreated a), d')
             | (Inl err, d') \<Rightarrow>
                 if errors_is err SetupAlreadyCompleted then (Inr SetupCompleted, d') else (Inl err, d')))"

definition create_user ::
  "(int \<Rightarrow> int) \<Rightarrow> (string \<Rightarrow> string result) \<Rightarrow> string result \<Rightarrow> go_time \<Rightarrow> string \<Rightarrow> string \<Rightarrow> string \<Rightarrow>
     identity_db \<Rightarrow> create_user_result result \<times> identity_db" where
  "create_user low hash uuid clock email display_name password d =
     (case validate_account_input low email display_name password of (e, n, failures) \<Rightarrow>
        if failures \<noteq> [] then (Inr (UserInvalid failures), d)
        else case user_to_create low hash uuid clock e n password of
          Inl err \<Rightarrow> (Inl err, d)
        | Inr a \<Rightarrow>
            (case create_account a d of
               (Inr _, d') \<Rightarrow> (Inr (UserCreated a), d')
             | (Inl err, d') \<Rightarrow> if errors_is err DuplicateEmail then (Inr UserDuplicateEmail, d') else (Inl err, d')))"

datatype update_user_result = ProfileInvalid "validation_failure list" | ProfileNotFound | ProfileDuplicateEmail
  | ProfileUpdated account

definition update_user ::
  "(int \<Rightarrow> int) \<Rightarrow> string \<Rightarrow> string \<Rightarrow> string \<Rightarrow> (identity_db \<Rightarrow> identity_db) \<Rightarrow>
     identity_db \<Rightarrow> update_user_result result \<times> identity_db" where
  "update_user low i email display_name between d =
     (case validate_profile_input low email display_name of (e, n, failures) \<Rightarrow>
        if failures \<noteq> [] then (Inr (ProfileInvalid failures), d)
        else case find_by_id low i d of
          Inl err \<Rightarrow> (Inl err, d)
        | Inr None \<Rightarrow> (Inr ProfileNotFound, d)
        | Inr (Some existing) \<Rightarrow>
            (case new_user low (existing\<lparr>acEmail := e, acDisplayName := n\<rparr>) of
               Inl err \<Rightarrow> (Inl err, d)
             | Inr updated \<Rightarrow>
                 (case update_profile i updated (between d) of
                    (Inr _, d') \<Rightarrow> (Inr (ProfileUpdated updated), d')
                  | (Inl err, d') \<Rightarrow>
                      if errors_is err DuplicateEmail then (Inr ProfileDuplicateEmail, d')
                      else if errors_is err UserMissing then (Inr ProfileNotFound, d')
                      else (Inl err, d'))))"

datatype reset_result = ResetInvalid "validation_failure list" | ResetNotFound | ResetDone account

definition reset_password ::
  "(int \<Rightarrow> int) \<Rightarrow> (string \<Rightarrow> string result) \<Rightarrow> string \<Rightarrow> string \<Rightarrow> (identity_db \<Rightarrow> identity_db) \<Rightarrow>
     identity_db \<Rightarrow> reset_result result \<times> identity_db" where
  "reset_password low hash email password between d =
     (let normalized = normalize_email low email;
        failures = (if normalized = None then [email_failure] else []) @ (if valid_password password then [] else [password_failure])
      in if failures \<noteq> [] then (Inr (ResetInvalid failures), d)
         else case find_by_email low (the normalized) d of
           Inl e \<Rightarrow> (Inl e, d)
         | Inr None \<Rightarrow> (Inr ResetNotFound, d)
         | Inr (Some a) \<Rightarrow>
             (case hash password of
                Inl e \<Rightarrow> (Inl (Wrapped ''hash password'' e), d)
              | Inr h \<Rightarrow>
                  (case update_password_hash (acID a) h (between d) of
                     (Inl e, d') \<Rightarrow> (Inl e, d')
                   | (Inr _, d') \<Rightarrow>
                       (case replace_password_hash a h of Inl e \<Rightarrow> (Inl e, d') | Inr a' \<Rightarrow> (Inr (ResetDone a'), d')))))"

text \<open>\<open>timingDummyHash\<close>; the cached hash is empty before its first use.\<close>

definition timing_dummy_hash :: "(string \<Rightarrow> string result) \<Rightarrow> string \<Rightarrow> string result" where
  "timing_dummy_hash hash dummy =
     (if dummy \<noteq> '''' then Inr dummy
      else case hash ''probehive-timing-equalization-dummy'' of
        Inl e \<Rightarrow> Inl (Wrapped ''create timing-equalization hash'' e) | Inr h \<Rightarrow> Inr h)"

datatype authentication = InvalidCredentials | Authenticated account

text \<open>
  \<open>Authenticate\<close> with the passwords it verifies: the result, the tables, the cached hash, and the
  hashes the password was verified against.
\<close>

definition authenticate ::
  "(int \<Rightarrow> int) \<Rightarrow> (string \<Rightarrow> string result) \<Rightarrow> (string \<Rightarrow> string \<Rightarrow> password_verification result) \<Rightarrow>
     string \<Rightarrow> string \<Rightarrow> (identity_db \<Rightarrow> identity_db) \<Rightarrow> identity_db \<Rightarrow> string \<Rightarrow>
     authentication result \<times> identity_db \<times> string \<times> string list" where
  "authenticate low hash verify email password between d dummy =
     (case normalize_email low email of
        None \<Rightarrow> (Inr InvalidCredentials, d, dummy, [])
      | Some e \<Rightarrow>
          if password = '''' then (Inr InvalidCredentials, d, dummy, [])
          else case find_by_email low e d of
            Inl err \<Rightarrow> (Inl err, d, dummy, [])
          | Inr None \<Rightarrow>
              (case timing_dummy_hash hash dummy of
                 Inl err \<Rightarrow> (Inl err, d, dummy, [])
               | Inr dh \<Rightarrow>
                   (case verify dh password of
                      Inl err \<Rightarrow> (Inl err, d, dh, [dh])
                    | Inr _ \<Rightarrow> (Inr InvalidCredentials, d, dh, [dh])))
          | Inr (Some a) \<Rightarrow>
              (case verify (acPasswordHash a) password of
                 Inl err \<Rightarrow> (Inl err, d, dummy, [acPasswordHash a])
               | Inr PasswordVerified \<Rightarrow> (Inr (Authenticated a), d, dummy, [acPasswordHash a])
               | Inr PasswordVerifiedRehashNeeded \<Rightarrow>
                   (case hash password of
                      Inl err \<Rightarrow> (Inl err, d, dummy, [acPasswordHash a])
                    | Inr h \<Rightarrow>
                        (case replace_password_hash a h of
                           Inl err \<Rightarrow> (Inl err, d, dummy, [acPasswordHash a])
                         | Inr a' \<Rightarrow>
                             (case update_password_hash (acID a) h (between d) of
                                (Inl err, d') \<Rightarrow> (Inl err, d', dummy, [acPasswordHash a])
                              | (Inr _, d') \<Rightarrow> (Inr (Authenticated a'), d', dummy, [acPasswordHash a]))))
               | Inr PasswordFailed \<Rightarrow> (Inr InvalidCredentials, d, dummy, [acPasswordHash a])))"

section \<open>Interleaved requests\<close>

text \<open>The writes that requests make on the users, with the values the domain has accepted.\<close>

inductive account_step :: "(int \<Rightarrow> int) \<Rightarrow> identity_db \<Rightarrow> identity_db \<Rightarrow> bool" for low where
  set_up: "new_user low a = Inr a \<Longrightarrow> \<not> is_zero (db_instant (acCreatedAt a)) \<Longrightarrow>
     account_step low d (snd (create_first_administrator a d))"
| created: "new_user low a = Inr a \<Longrightarrow> \<not> is_zero (db_instant (acCreatedAt a)) \<Longrightarrow> account_step low d (snd (create_account a d))"
| renamed: "new_user low a = Inr a \<Longrightarrow> account_step low d (snd (update_profile i a d))"
| rehashed: "trim_space h \<noteq> '''' \<Longrightarrow> account_step low d (snd (update_password_hash i h d))"
| elsewhere: "idUsers d' = idUsers d \<Longrightarrow> account_step low d d'"

definition accounts_ok :: "(int \<Rightarrow> int) \<Rightarrow> identity_db \<Rightarrow> bool" where
  "accounts_ok low d \<longleftrightarrow> unique_on (\<lambda>a. Some (acID a)) (idUsers d) \<and> unique_on (\<lambda>a. Some (acEmail a)) (idUsers d)
     \<and> (\<forall>a\<in>set (idUsers d). new_user low a = Inr a \<and> is_db_instant (acCreatedAt a))"

lemma new_user_Inr: "new_user low a = Inr b \<longleftrightarrow> b = a \<and> acID a \<noteq> '''' \<and> normalize_email low (acEmail a) = Some (acEmail a)
    \<and> normalize_label (acDisplayName a) = Some (acDisplayName a) \<and> acRole a = AdministratorRole
    \<and> trim_space (acPasswordHash a) \<noteq> '''' \<and> is_utc (acCreatedAt a)"
  by (auto simp: new_user_def)

lemma scan_valid: "new_user low a = Inr a \<Longrightarrow> is_db_instant (acCreatedAt a) \<Longrightarrow> scan_user low a = Inr a"
  by (simp add: scan_user_def is_db_instant_def to_utc_id)

lemma row_valid:
  assumes "new_user low a = Inr a" and "\<not> is_zero (db_instant (acCreatedAt a))"
  shows "new_user low (account_to_row a) = Inr (account_to_row a)"
  using assms by (simp add: new_user_Inr account_to_row_def is_utc_def)

lemma accounts_okD:
  assumes "accounts_ok low d" and "a \<in> set (idUsers d)"
  shows "new_user low a = Inr a" "is_db_instant (acCreatedAt a)" "scan_user low a = Inr a"
  using assms scan_valid by (auto simp: accounts_ok_def)

lemma accounts_ok_append:
  assumes "accounts_ok low d" and "new_user low a = Inr a" and "is_db_instant (acCreatedAt a)"
    and "\<forall>b\<in>set (idUsers d). acID b \<noteq> acID a \<and> acEmail b \<noteq> acEmail a"
  shows "accounts_ok low (d\<lparr>idUsers := idUsers d @ [a]\<rparr>)"
  using assms by (auto simp: accounts_ok_def unique_on_append)

lemma accounts_ok_profile:
  assumes "accounts_ok low d" and "new_user low a = Inr a" and "\<forall>b\<in>set (idUsers d). acID b \<noteq> i \<longrightarrow> acEmail b \<noteq> acEmail a"
  shows "accounts_ok low (d\<lparr>idUsers := sql_update (\<lambda>b. acID b = i)
    (\<lambda>b. b\<lparr>acEmail := acEmail a, acDisplayName := acDisplayName a\<rparr>) (idUsers d)\<rparr>)"
proof -
  let ?f = "\<lambda>b. b\<lparr>acEmail := acEmail a, acDisplayName := acDisplayName a\<rparr>"
  have ids: "unique_on (\<lambda>a. Some (acID a)) (sql_update (\<lambda>b. acID b = i) ?f (idUsers d))"
    using assms(1) by (intro unique_on_sql_update) (auto simp: accounts_ok_def)
  have "unique_on (\<lambda>a. Some (acEmail a)) (sql_update (\<lambda>b. acID b = i) ?f us)"
    if "unique_on (\<lambda>a. Some (acID a)) us" "unique_on (\<lambda>a. Some (acEmail a)) us" "\<forall>b\<in>set us. acID b \<noteq> i \<longrightarrow> acEmail b \<noteq> acEmail a" for us
    using that by (induction us) (auto simp: sql_update_def)
  then have "unique_on (\<lambda>a. Some (acEmail a)) (sql_update (\<lambda>b. acID b = i) ?f (idUsers d))"
    using assms(1,3) unfolding accounts_ok_def by blast
  moreover have "\<forall>b\<in>set (sql_update (\<lambda>b. acID b = i) ?f (idUsers d)). new_user low b = Inr b \<and> is_db_instant (acCreatedAt b)"
    using assms(1,2) by (auto simp: accounts_ok_def in_sql_update new_user_Inr split: if_splits)
  ultimately show ?thesis using ids by (simp add: accounts_ok_def)
qed

lemma account_step_ok:
  assumes "account_step low d d'" and "accounts_ok low d"
  shows "accounts_ok low d'"
  using assms
proof (cases rule: account_step.cases)
  case (set_up a)
  have row: "new_user low (account_to_row a) = Inr (account_to_row a)" using set_up by (simp add: row_valid)
  have "is_db_instant (acCreatedAt (account_to_row a))" by (simp add: account_to_row_def)
  with row accounts_ok_append [OF assms(2) row] set_up(1) show ?thesis using assms(2)
    by (auto simp: create_first_administrator_def any_users_exist_def)
next
  case (created a)
  have row: "new_user low (account_to_row a) = Inr (account_to_row a)" using created by (simp add: row_valid)
  have "is_db_instant (acCreatedAt (account_to_row a))" by (simp add: account_to_row_def)
  with row accounts_ok_append [OF assms(2) row] created(1) show ?thesis using assms(2)
    by (auto simp: create_account_def account_to_row_def)
next
  case (renamed a i)
  with accounts_ok_profile [OF assms(2) renamed(2), of i] show ?thesis using assms(2)
    by (auto simp: update_profile_def)
next
  case (rehashed h i)
  have "unique_on (\<lambda>a. Some (acID a)) (sql_update (\<lambda>b. acID b = i) (\<lambda>b. b\<lparr>acPasswordHash := h\<rparr>) (idUsers d))"
    "unique_on (\<lambda>a. Some (acEmail a)) (sql_update (\<lambda>b. acID b = i) (\<lambda>b. b\<lparr>acPasswordHash := h\<rparr>) (idUsers d))"
    using assms(2) by (auto simp: accounts_ok_def intro!: unique_on_sql_update)
  moreover have "\<forall>b\<in>set (sql_update (\<lambda>b. acID b = i) (\<lambda>b. b\<lparr>acPasswordHash := h\<rparr>) (idUsers d)). new_user low b = Inr b \<and> is_db_instant (acCreatedAt b)"
    using assms(2) rehashed(2) by (auto simp: accounts_ok_def in_sql_update new_user_Inr split: if_splits)
  ultimately show ?thesis using rehashed(1) assms(2) by (auto simp: update_password_hash_def accounts_ok_def)
qed (simp add: accounts_ok_def)

lemma account_steps_ok: "(account_step low)\<^sup>*\<^sup>* d d' \<Longrightarrow> accounts_ok low d \<Longrightarrow> accounts_ok low d'"
  by (induction rule: rtranclp_induct) (auto intro: account_step_ok)

lemma image_sql_update: "(\<And>r. p r \<Longrightarrow> g (f r) = g r) \<Longrightarrow> g ` set (sql_update p f rows) = g ` set rows"
  by (induction rows) (auto simp: sql_update_def)

text \<open>No step removes a user.\<close>

lemma account_step_keeps: "account_step low d d' \<Longrightarrow> acID ` set (idUsers d) \<subseteq> acID ` set (idUsers d')"
  by (induction rule: account_step.induct)
    (auto simp: create_first_administrator_def create_account_def update_profile_def update_password_hash_def
      image_sql_update)

lemma account_steps_keep: "(account_step low)\<^sup>*\<^sup>* d d' \<Longrightarrow> acID ` set (idUsers d) \<subseteq> acID ` set (idUsers d')"
  by (induction rule: rtranclp_induct) (simp, metis account_step_keeps order_trans)

lemma map_results_Inr: "map_results f xs = Inr ys \<Longrightarrow> list_all2 (\<lambda>x y. f x = Inr y) xs ys"
  by (induction xs arbitrary: ys) (auto simp: and_then_Inr)

lemma map_results_member: "map_results f xs = Inr ys \<Longrightarrow> x \<in> set xs \<Longrightarrow> f x = Inr y \<Longrightarrow> y \<in> set ys"
  by (induction xs arbitrary: ys) (auto simp: and_then_Inr)

lemma map_results_id: "\<forall>x\<in>set xs. f x = Inr x \<Longrightarrow> map_results f xs = Inr xs"
  by (induction xs) auto

lemma find_in: "find p xs = Some a \<Longrightarrow> a \<in> set xs \<and> p a"
  by (induction xs) (auto split: if_splits)

lemma find_the_only:
  assumes "a \<in> set xs" and "p a" and "\<And>b. b \<in> set xs \<Longrightarrow> p b \<Longrightarrow> b = a"
  shows "find p xs = Some a"
proof -
  have "find p xs \<noteq> None" using assms(1,2) by (auto simp: find_None_iff)
  then obtain b where b: "find p xs = Some b" by blast
  with find_in [OF b] assms(3) show ?thesis by simp
qed

lemma find_account_ok: "accounts_ok low d \<Longrightarrow> find_account low p d = Inr (find p (idUsers d))"
  using accounts_okD(3) by (fastforce simp: find_account_def dest: find_in split: option.split)

lemma find_email:
  assumes "accounts_ok low d" and "a \<in> set (idUsers d)"
  shows "find_by_email low (acEmail a) d = Inr (Some a)"
proof -
  have "find (\<lambda>b. acEmail b = acEmail a) (idUsers d) = Some a"
    by (rule find_the_only [OF assms(2)]) (use assms in \<open>auto simp: accounts_ok_def dest: unique_onD\<close>)
  then show ?thesis using find_account_ok [OF assms(1)] by (simp add: find_by_email_def)
qed

lemma find_id:
  assumes "accounts_ok low d" and "a \<in> set (idUsers d)"
  shows "find_by_id low (acID a) d = Inr (Some a)"
proof -
  have "find (\<lambda>b. acID b = acID a) (idUsers d) = Some a"
    by (rule find_the_only [OF assms(2)]) (use assms in \<open>auto simp: accounts_ok_def dest: unique_onD\<close>)
  then show ?thesis using find_account_ok [OF assms(1)] by (simp add: find_by_id_def)
qed

section \<open>Properties\<close>

text \<open>C27. However requests interleave, no two users share an identifier or a login email, and every user that
  is stored reads back as the valid user it was stored as, so that no lookup ever fails.\<close>

theorem stored_accounts_are_valid:
  assumes "(account_step low)\<^sup>*\<^sup>* d d'" and "idUsers d = []"
  shows "find_by_id low i d' = Inr (find (\<lambda>a. acID a = i) (idUsers d'))
    \<and> find_by_email low e d' = Inr (find (\<lambda>a. acEmail a = e) (idUsers d'))
    \<and> (\<forall>a b. a \<in> set (idUsers d') \<and> b \<in> set (idUsers d') \<and> (acID a = acID b \<or> acEmail a = acEmail b) \<longrightarrow> a = b)
    \<and> (\<forall>a\<in>set (idUsers d'). normalize_email low (acEmail a) = Some (acEmail a) \<and> acRole a = AdministratorRole)
    \<and> list_accounts low d' = Inr (sort_key (\<lambda>a. (nanos (acCreatedAt a), acID a)) (idUsers d'))"
proof -
  have "accounts_ok low d" using assms(2) by (simp add: accounts_ok_def)
  with account_steps_ok assms(1) have ok: "accounts_ok low d'" by blast
  have "find_by_id low i d' = Inr (find (\<lambda>a. acID a = i) (idUsers d'))"
    "find_by_email low e d' = Inr (find (\<lambda>a. acEmail a = e) (idUsers d'))"
    using ok by (simp_all add: find_by_id_def find_by_email_def find_account_ok)
  moreover have "\<forall>a b. a \<in> set (idUsers d') \<and> b \<in> set (idUsers d') \<and> (acID a = acID b \<or> acEmail a = acEmail b) \<longrightarrow> a = b"
    using ok by (auto simp: accounts_ok_def dest: unique_onD)
  moreover have "\<forall>a\<in>set (idUsers d'). normalize_email low (acEmail a) = Some (acEmail a) \<and> acRole a = AdministratorRole"
    using ok by (auto simp: accounts_ok_def new_user_Inr)
  moreover have "list_accounts low d' = Inr (sort_key (\<lambda>a. (nanos (acCreatedAt a), acID a)) (idUsers d'))"
    unfolding list_accounts_def by (rule map_results_id) (use accounts_okD(3) [OF ok] in simp)
  ultimately show ?thesis by blast
qed

lemma setup_store_result:
  "create_first_administrator a d = (Inr u, d') \<Longrightarrow> idUsers d = [] \<and> idUsers d' = [account_to_row a]"
  by (auto simp: create_first_administrator_def any_users_exist_def split: if_splits)

text \<open>C28. An instance is set up once: after the setup created its administrator, whatever requests run since,
  every further setup is refused as completed or invalid and changes nothing.\<close>

theorem setup_happens_once:
  assumes "setup_administrator low hash uuid clock e n p d = (Inr (UserCreated a), d1)"
    and "(account_step low)\<^sup>*\<^sup>* d1 d2"
    and "setup_administrator low' hash' uuid' clock' e' n' p' d2 = (Inr r, d3)"
  shows "(r = SetupCompleted \<or> (\<exists>fs. r = UserInvalid fs)) \<and> d3 = d2"
proof -
  have "idUsers d1 \<noteq> []"
    using assms(1) by (auto simp: setup_administrator_def dest!: setup_store_result split: prod.splits if_splits sum.splits)
  then have "idUsers d2 \<noteq> []" using account_steps_keep [OF assms(2)] by fastforce
  then show ?thesis
    using assms(3)
    by (auto simp: setup_administrator_def create_first_administrator_def any_users_exist_def split: prod.splits if_splits sum.splits)
qed

context password_hasher
begin

lemma authenticate_hashed:
  assumes "accounts_ok low d" and "a \<in> set (idUsers d)" and "normalize_email low email = Some (acEmail a)"
    and "hash r password = Inr (acPasswordHash a)" and "password \<noteq> ''''"
  shows "authenticate low h verify email password between d dummy = (Inr (Authenticated a), d, dummy, [acPasswordHash a])"
  using find_email [OF assms(1,2)] assms(3-5) verify_hash [OF assms(4)] by (simp add: authenticate_def)

lemma created_account_authenticates:
  assumes "create_user low (hash r) uuid clock email name password d = (Inr (UserCreated a), d')"
    and "accounts_ok low d''" and "account_to_row a \<in> set (idUsers d'')"
  shows "authenticate low h verify email password between d'' dummy
    = (Inr (Authenticated (account_to_row a)), d'', dummy, [acPasswordHash a])"
proof -
  have "normalize_email low email = Some (acEmail a) \<and> hash r password = Inr (acPasswordHash a) \<and> valid_password password"
    using assms(1)
    by (auto simp: create_user_def validate_account_input_def validate_profile_input_def user_to_create_def new_user_Inr Let_def
        split: prod.splits if_splits sum.splits option.splits)
  moreover from this have "password \<noteq> ''''" by (auto simp: valid_password_def utf16_length_def runes_def)
  ultimately show ?thesis using authenticate_hashed [OF assms(2,3), of email r password h between dummy]
    by (simp add: account_to_row_def)
qed

end

text \<open>C29. Who was created as a user can log in with the email and the password of the request, as long as the
  row is as it was stored; the password is verified against the hash that was stored, once.\<close>

theorem created_user_can_log_in:
  assumes "create_user low (hasher_hash kdf recommended_parameters random) uuid clock email name password d = (Inr (UserCreated a), d')"
    and "accounts_ok low d''" and "account_to_row a \<in> set (idUsers d'')"
  shows "authenticate low hash (hasher_verify kdf recommended_parameters) email password between d'' dummy
    = (Inr (Authenticated (account_to_row a)), d'', dummy, [acPasswordHash a])"
  by (rule argon.created_account_authenticates [OF assms])

context password_hasher
begin

lemma login_reveals_nothing:
  assumes "accounts_ok low d" and "normalize_email low email = Some e" and "password \<noteq> ''''"
    and "\<forall>a\<in>set (idUsers d). acEmail a = e \<longrightarrow> verify (acPasswordHash a) password = Inr PasswordFailed"
    and "dummy = '''' \<or> (\<exists>s. hash s ''probehive-timing-equalization-dummy'' = Inr dummy)"
    and "hash r ''probehive-timing-equalization-dummy'' = Inr fresh"
  shows "\<exists>dummy' h. authenticate low (hash r) verify email password between d dummy = (Inr InvalidCredentials, d, dummy', [h])"
proof (cases "find (\<lambda>a. acEmail a = e) (idUsers d)")
  case None
  let ?h = "if dummy \<noteq> '''' then dummy else fresh"
  have "timing_dummy_hash (hash r) dummy = Inr ?h" using assms(6) by (simp add: timing_dummy_hash_def)
  moreover have "is_ok (verify ?h password)" using assms(5,6) verify_hash_of_other by auto
  ultimately show ?thesis
    using None assms(2,3) find_account_ok [OF assms(1)]
    by (auto simp: authenticate_def find_by_email_def is_ok_iff)
next
  case (Some a)
  then have "verify (acPasswordHash a) password = Inr PasswordFailed" using find_in [OF Some] assms(4) by auto
  then show ?thesis
    using Some assms(2,3) find_account_ok [OF assms(1)] by (simp add: authenticate_def find_by_email_def)
qed

end

text \<open>A failed login does not tell whether the account exists: whether no user has the email or the password
  is wrong, the answer is the same, nothing is written, and one password is verified.\<close>

theorem failed_login_reveals_nothing:
  assumes "accounts_ok low d" and "normalize_email low email = Some e" and "password \<noteq> ''''"
    and "\<forall>a\<in>set (idUsers d). acEmail a = e \<longrightarrow>
      hasher_verify kdf recommended_parameters (acPasswordHash a) password = Inr PasswordFailed"
    and "dummy = '''' \<or> (\<exists>s. hasher_hash kdf recommended_parameters s ''probehive-timing-equalization-dummy'' = Inr dummy)"
  shows "\<exists>dummy' h. authenticate low (hasher_hash kdf recommended_parameters (Inr bytes)) (hasher_verify kdf recommended_parameters)
    email password between d dummy = (Inr InvalidCredentials, d, dummy', [h])"
proof -
  obtain fresh where "hasher_hash kdf recommended_parameters (Inr bytes) ''probehive-timing-equalization-dummy'' = Inr fresh"
    by (simp add: hasher_hash_def Let_def)
  from argon.login_reveals_nothing [OF assms this] show ?thesis .
qed

text \<open>
  A login with the old password that was under way can undo a reset: when the stored hash asks to be
  renewed and the password is reset between the verification and the write, the login replaces the new
  hash by one of the old password.
\<close>

theorem rehash_undoes_reset:
  assumes "accounts_ok low d" and "a \<in> set (idUsers d)" and "normalize_email low email = Some (acEmail a)" and "old \<noteq> ''''"
    and "verify (acPasswordHash a) old = Inr PasswordVerifiedRehashNeeded" and "hash old = Inr h" and "trim_space h \<noteq> ''''" "pg_text h"
    and "reset_password low hash' email new (\<lambda>d. d) d = (Inr (ResetDone b), d1)"
  shows "\<exists>d2. authenticate low hash verify email old (\<lambda>_. d1) d dummy
      = (Inr (Authenticated (a\<lparr>acPasswordHash := h\<rparr>)), d2, dummy, [acPasswordHash a])
    \<and> find (\<lambda>x. acID x = acID a) (idUsers d2) = Some (a\<lparr>acPasswordHash := h\<rparr>)"
proof -
  note f = find_email [OF assms(1,2)]
  obtain h' where d1: "d1 = d\<lparr>idUsers := sql_update (\<lambda>x. acID x = acID a) (\<lambda>x. x\<lparr>acPasswordHash := h'\<rparr>) (idUsers d)\<rparr>"
    using assms(9) f
    by (auto simp: reset_password_def assms(3) Let_def update_password_hash_def split: if_splits sum.splits)
  let ?u = "sql_update (\<lambda>x. acID x = acID a) (\<lambda>x. x\<lparr>acPasswordHash := h\<rparr>) (idUsers d1)"
  have w: "update_password_hash (acID a) h d1 = (Inr (), d1\<lparr>idUsers := ?u\<rparr>)"
  proof -
    have "acID ` set (idUsers d1) = acID ` set (idUsers d)" by (simp add: d1 image_sql_update)
    then have "acID a \<in> acID ` set (idUsers d1)" using assms(2) by simp
    then have "\<exists>x\<in>set (idUsers d1). acID x = acID a" by force
    then show ?thesis using assms(8) by (simp add: update_password_hash_def)
  qed
  have u: "?u = sql_update (\<lambda>x. acID x = acID a) (\<lambda>x. x\<lparr>acPasswordHash := h\<rparr>) (idUsers d)"
    by (simp add: d1 sql_update_def)
  have u_in: "a\<lparr>acPasswordHash := h\<rparr> \<in> set ?u"
    unfolding u in_sql_update by (rule bexI [OF _ assms(2)]) simp
  have u_only: "b = a\<lparr>acPasswordHash := h\<rparr>" if b: "b \<in> set ?u" "acID b = acID a" for b
  proof -
    obtain x where x: "x \<in> set (idUsers d)" "b = (if acID x = acID a then x\<lparr>acPasswordHash := h\<rparr> else x)"
      using b(1) unfolding u in_sql_update by blast
    then have "acID x = acID a" using b(2) by (auto split: if_splits)
    moreover from this have "x = a" using assms(1,2) x by (auto simp: accounts_ok_def dest: unique_onD)
    ultimately show ?thesis using x(2) by simp
  qed
  have u': "find (\<lambda>x. acID x = acID a) ?u = Some (a\<lparr>acPasswordHash := h\<rparr>)"
    by (rule find_the_only [OF u_in _ u_only]) simp_all
  have "authenticate low hash verify email old (\<lambda>_. d1) d dummy
      = (Inr (Authenticated (a\<lparr>acPasswordHash := h\<rparr>)), d1\<lparr>idUsers := ?u\<rparr>, dummy, [acPasswordHash a])"
    unfolding authenticate_def replace_password_hash_def
    by (simp only: assms(3-7) f w option.case sum.case prod.case password_verification.case if_False)
  then show ?thesis using u' by (intro exI conjI) (assumption, simp)
qed

section \<open>ASCII input\<close>

lemma pieces_ascii: "\<forall>c\<in>set s. byte c < 128 \<Longrightarrow> pieces s = map (\<lambda>c. (byte c, [c])) s"
  by (induction s rule: pieces.induct) (simp_all add: decode_rune_def sequence_shape_def)

lemma pg_text_ascii: "\<forall>c\<in>set s. byte c < 128 \<and> byte c \<noteq> 0 \<Longrightarrow> pg_text s"
  by (simp add: pg_text_def pieces_ascii list_all_iff RuneError_def) fastforce

lemma trim_plain:
  assumes "\<forall>c\<in>set s. byte c < 128 \<and> \<not> is_space (byte c)"
  shows "trim_space s = s" "utf16_length s = length s"
proof -
  let ?ps = "map (\<lambda>c. (byte c, [c])) s"
  have p: "pieces s = ?ps" using assms by (simp add: pieces_ascii)
  have d: "dropWhile (is_space \<circ> fst) qs = qs" if "set qs \<subseteq> set ?ps" for qs
    using that assms by (cases qs) auto
  have "trim_pieces ?ps = ?ps" unfolding trim_pieces_def
    by (subst d, simp, subst d, simp, simp only: rev_rev_ident)
  moreover have "bytes_of ?ps = s" by (induction s) simp_all
  ultimately show "trim_space s = s" by (simp add: trim_space_def p)
  show "utf16_length s = length s"
    using assms by (induction s) (simp_all add: utf16_length_def runes_def decode_rune_def sequence_shape_def)
qed

lemma normalize_label_plain:
  "\<forall>c\<in>set s. byte c < 128 \<and> \<not> is_space (byte c) \<Longrightarrow> 1 \<le> length s \<Longrightarrow> length s \<le> 100 \<Longrightarrow> normalize_label s = Some s"
  by (simp add: normalize_label_def trim_plain)

lemma hash_is_text:
  assumes "hasher_hash kdf p random password = Inr h" and "validate_parameters p = Inr ()"
  shows "pg_text h"
proof (rule pg_text_ascii, rule ballI)
  fix c assume "c \<in> set h"
  then have "c \<in> set ''$argon2id$v=19$mtp=,'' \<or> (\<exists>n. c \<in> set (nat_dec n)) \<or> (\<exists>s. c \<in> set (raw_encode False s))"
    using assms(1) parameters_bounds [OF assms(2)]
    by (auto simp: hasher_hash_def phc_text_def phc_costs_def int_dec_nonneg Let_def split: sum.splits)
  then show "byte c < 128 \<and> byte c \<noteq> 0"
  proof (elim disjE exE)
    fix n assume "c \<in> set (nat_dec n)"
    then show ?thesis using nat_dec_digits [of c n] by simp
  next
    fix s assume "c \<in> set (raw_encode False s)"
    then obtain i where i: "is_sextet i" "byte c = sextet_byte False i" using encoded_bytes by blast
    then show ?thesis by (auto simp: sextet_byte_def)
  qed (auto simp: byte_def)
qed

text \<open>
  A display name with a null character is valid for the domain and refused by the database, so that the
  request fails instead of being told what is wrong.
\<close>

lemma null_display_name_fails:
  "normalize_label [CHR ''a'', CHR 0x00, CHR ''b''] = Some [CHR ''a'', CHR 0x00, CHR ''b'']"
  "acDisplayName a = [CHR ''a'', CHR 0x00, CHR ''b''] \<Longrightarrow> create_account a d = (Inl (ErrText ''insert user''), d)"
proof -
  let ?n = "[CHR ''a'', CHR 0x00, CHR ''b'']"
  have p: "pieces ?n = map (\<lambda>c. (byte c, [c])) ?n" by (rule pieces_ascii) (simp add: byte_def)
  show "normalize_label ?n = Some ?n" by (rule normalize_label_plain) (simp_all add: byte_def is_space_def)
  have "\<not> pg_text ?n" unfolding pg_text_def p by (simp add: byte_def)
  then show "acDisplayName a = [CHR ''a'', CHR 0x00, CHR ''b''] \<Longrightarrow> create_account a d = (Inl (ErrText ''insert user''), d)"
    by (simp add: create_account_def account_row_ok_def)
qed

section \<open>Witnesses\<close>

definition empty_identity :: identity_db where
  "empty_identity = \<lparr>idUsers = [], idSessions = [], idAntiforgery = [], idAnonymousKey = None, idOrganizations = [], idMembers = []\<rparr>"

definition sample_account :: "string \<Rightarrow> account" where
  "sample_account h = \<lparr>acID = ''u1'', acEmail = ''a@b'', acDisplayName = ''a@b'', acRole = AdministratorRole,
     acPasswordHash = h, acCreatedAt = \<lparr>nanos = 1700000000000000000, zone = UTC\<rparr>\<rparr>"

definition sample_identity :: "string \<Rightarrow> identity_db" where
  "sample_identity h = empty_identity\<lparr>idUsers := [sample_account h]\<rparr>"

lemma sample_email: "normalize_email low ''a@b'' = Some ''a@b''" "normalize_label ''a@b'' = Some ''a@b''" "pg_text ''a@b''"
proof -
  let ?e = "''a@b''"
  have plain: "\<forall>c\<in>set ?e. byte c < 128 \<and> \<not> is_space (byte c)" by (simp add: byte_def is_space_def)
  have low: "to_lower low ?e = ?e" by (rule to_lower_id) (simp add: byte_def)
  have p: "pieces ?e = map (\<lambda>c. (byte c, [c])) ?e" using plain by (intro pieces_ascii) blast
  show "normalize_email low ?e = Some ?e"
    unfolding normalize_email_def trim_plain(1) [OF plain] low Let_def trim_plain(2) [OF plain] p
    by (simp add: byte_def is_space_def is_control_def)
  show "normalize_label ?e = Some ?e" using plain by (rule normalize_label_plain) simp_all
  show "pg_text ?e" by (rule pg_text_ascii) (simp add: byte_def)
qed

lemma sample_password: "valid_password ''correct-horse''"
proof -
  have plain: "\<forall>c\<in>set ''correct-horse''. byte c < 128 \<and> \<not> is_space (byte c)" by (simp add: byte_def is_space_def)
  show ?thesis by (simp only: valid_password_def trim_plain(2) [OF plain]) simp
qed

lemma sample_valid:
  assumes "trim_space h \<noteq> ''''"
  shows "new_user low (sample_account h) = Inr (sample_account h)" "accounts_ok low (sample_identity h)"
    "account_to_row (sample_account h) = sample_account h"
proof -
  have t: "db_instant \<lparr>nanos = 1700000000000000000, zone = UTC\<rparr> = \<lparr>nanos = 1700000000000000000, zone = UTC\<rparr>"
    "is_utc \<lparr>nanos = 1700000000000000000, zone = UTC\<rparr>" "is_db_instant \<lparr>nanos = 1700000000000000000, zone = UTC\<rparr>"
    by code_simp+
  show v: "new_user low (sample_account h) = Inr (sample_account h)"
    using assms sample_email t by (simp add: new_user_Inr sample_account_def)
  show "account_to_row (sample_account h) = sample_account h" using t by (simp add: account_to_row_def sample_account_def)
  show "accounts_ok low (sample_identity h)"
    using v t by (simp add: accounts_ok_def sample_identity_def) (simp add: sample_account_def)
qed

lemma sample_text: "trim_space ''$h'' \<noteq> ''''" "pg_text ''$h''"
proof -
  have plain: "\<forall>c\<in>set ''$h''. byte c < 128 \<and> \<not> is_space (byte c)" by (simp add: byte_def is_space_def)
  show "trim_space ''$h'' \<noteq> ''''" by (simp only: trim_plain(1) [OF plain]) simp
  show "pg_text ''$h''" by (rule pg_text_ascii) (simp add: byte_def)
qed

lemma blank_name: "trim_space '''' = ''''"
  by (simp add: trim_space_def trim_pieces_def)

lemma sample_input:
  assumes "hash ''correct-horse'' = Inr h" and "trim_space h \<noteq> ''''"
  shows "validate_account_input low ''a@b'' '''' ''correct-horse'' = (''a@b'', ''a@b'', [])"
    "user_to_create low hash (Inr ''u1'') \<lparr>nanos = 1700000000000000000, zone = UTC\<rparr> ''a@b'' ''a@b'' ''correct-horse'' = Inr (sample_account h)"
proof -
  show "validate_account_input low ''a@b'' '''' ''correct-horse'' = (''a@b'', ''a@b'', [])"
    by (simp add: validate_account_input_def validate_profile_input_def sample_email sample_password blank_name Let_def)
  show "user_to_create low hash (Inr ''u1'') \<lparr>nanos = 1700000000000000000, zone = UTC\<rparr> ''a@b'' ''a@b'' ''correct-horse'' = Inr (sample_account h)"
    using sample_valid(1) [OF assms(2)] assms(1) by (simp add: user_to_create_def sample_account_def to_utc_def)
qed

lemma sample_created:
  assumes "hash ''correct-horse'' = Inr h" and "trim_space h \<noteq> ''''" and "pg_text h"
  shows "setup_administrator low hash (Inr ''u1'') \<lparr>nanos = 1700000000000000000, zone = UTC\<rparr> ''a@b'' '''' ''correct-horse'' empty_identity
      = (Inr (UserCreated (sample_account h)), sample_identity h)"
    "create_user low hash (Inr ''u1'') \<lparr>nanos = 1700000000000000000, zone = UTC\<rparr> ''a@b'' '''' ''correct-horse'' empty_identity
      = (Inr (UserCreated (sample_account h)), sample_identity h)"
proof -
  have row: "account_row_ok (sample_account h)" using assms(3) sample_email by (simp add: account_row_ok_def sample_account_def)
  note i = sample_input [where hash = hash and h = h, OF assms(1,2)]
  show "setup_administrator low hash (Inr ''u1'') \<lparr>nanos = 1700000000000000000, zone = UTC\<rparr> ''a@b'' '''' ''correct-horse'' empty_identity
      = (Inr (UserCreated (sample_account h)), sample_identity h)"
    by (simp add: setup_administrator_def i create_first_administrator_def any_users_exist_def empty_identity_def row
        sample_identity_def sample_valid(3) [OF assms(2)])
  show "create_user low hash (Inr ''u1'') \<lparr>nanos = 1700000000000000000, zone = UTC\<rparr> ''a@b'' '''' ''correct-horse'' empty_identity
      = (Inr (UserCreated (sample_account h)), sample_identity h)"
    by (simp add: create_user_def i create_account_def empty_identity_def row sample_identity_def sample_valid(3) [OF assms(2)])
qed

lemma sample_step: "(account_step low)\<^sup>*\<^sup>* empty_identity (sample_identity ''$h'')"
proof -
  note v = sample_valid [OF sample_text(1)]
  have "create_account (sample_account ''$h'') empty_identity = (Inr (), sample_identity ''$h'')"
    using sample_text(2) sample_email
    by (simp add: create_account_def empty_identity_def account_row_ok_def sample_identity_def v(3)) (simp add: sample_account_def)
  moreover have "\<not> is_zero (db_instant (acCreatedAt (sample_account ''$h'')))" by code_simp
  ultimately show ?thesis using account_step.created [OF v(1), of low empty_identity] by simp
qed

theorem stored_accounts_are_valid_witness:
  "find_by_email (\<lambda>r. r) ''a@b'' (sample_identity ''$h'') = Inr (Some (sample_account ''$h''))"
  using stored_accounts_are_valid [OF sample_step, of "\<lambda>r. r" _ "''a@b''"]
  by (simp add: empty_identity_def sample_identity_def sample_account_def)

theorem setup_happens_once_witness:
  "setup_administrator (\<lambda>r. r) (\<lambda>_. Inr ''$h'') (Inr ''u1'') \<lparr>nanos = 1700000000000000000, zone = UTC\<rparr> ''a@b'' '''' ''correct-horse'' empty_identity
      = (Inr (UserCreated (sample_account ''$h'')), sample_identity ''$h'')
   \<and> snd (setup_administrator (\<lambda>r. r) (\<lambda>_. Inr ''$h'') (Inr ''u1'') \<lparr>nanos = 1700000000000000000, zone = UTC\<rparr> ''a@b'' '''' ''correct-horse''
      (sample_identity ''$h'')) = sample_identity ''$h''"
proof -
  let ?s = "setup_administrator (\<lambda>r. r) (\<lambda>_. Inr ''$h'') (Inr ''u1'') \<lparr>nanos = 1700000000000000000, zone = UTC\<rparr> ''a@b'' '''' ''correct-horse''"
  have one: "?s empty_identity = (Inr (UserCreated (sample_account ''$h'')), sample_identity ''$h'')"
    by (rule sample_created(1)) (simp_all add: sample_text)
  have two: "?s (sample_identity ''$h'') = (Inr SetupCompleted, sample_identity ''$h'')"
    by (simp add: setup_administrator_def sample_input [where hash = "\<lambda>_. Inr ''$h''", OF refl sample_text(1)] create_first_administrator_def any_users_exist_def
        sample_identity_def)
  from setup_happens_once [OF one rtranclp.rtrancl_refl two] one two show ?thesis by simp
qed

theorem created_user_can_log_in_witness:
  "\<exists>a. create_user (\<lambda>r. r) (hasher_hash plain_kdf recommended_parameters (Inr (\<lambda>i. CHR ''s''))) (Inr ''u1'')
      \<lparr>nanos = 1700000000000000000, zone = UTC\<rparr> ''a@b'' '''' ''correct-horse'' empty_identity
        = (Inr (UserCreated a), empty_identity\<lparr>idUsers := [a]\<rparr>)
    \<and> fst (authenticate (\<lambda>r. r) (\<lambda>_. Inl (ErrText '''')) (hasher_verify plain_kdf recommended_parameters) ''a@b'' ''correct-horse''
      (\<lambda>d. d) (empty_identity\<lparr>idUsers := [a]\<rparr>) '''') = Inr (Authenticated a)"
proof -
  let ?hash = "hasher_hash plain_kdf recommended_parameters (Inr (\<lambda>i. CHR ''s''))"
  obtain h where h: "?hash ''correct-horse'' = Inr h" by (simp add: hasher_hash_def Let_def)
  note t = argon.hash_not_blank [OF h] hash_is_text [OF h recommended_valid]
  note c = sample_created(2) [where hash = ?hash and low = "\<lambda>r. r", OF h t]
  note v = sample_valid(2,3) [OF t(1)]
  have "account_to_row (sample_account h) \<in> set (idUsers (sample_identity h))" using v(2) by (simp add: sample_identity_def)
  from created_user_can_log_in [OF c v(1) this, of "\<lambda>_. Inl (ErrText '''')" "\<lambda>d. d" "''''"] c v(2) show ?thesis
    by (intro exI [of _ "sample_account h"]) (simp add: sample_identity_def)
qed

theorem failed_login_reveals_nothing_witness:
  "\<exists>dummy' h. authenticate (\<lambda>r. r) (hasher_hash plain_kdf recommended_parameters (Inr (\<lambda>i. CHR ''s'')))
     (hasher_verify plain_kdf recommended_parameters) ''a@b'' ''guess'' (\<lambda>d. d) empty_identity ''''
       = (Inr InvalidCredentials, empty_identity, dummy', [h])"
  by (rule failed_login_reveals_nothing [of "\<lambda>r. r" _ _ "''a@b''"])
    (simp_all add: accounts_ok_def empty_identity_def sample_email)

theorem rehash_undoes_reset_witness:
  "\<exists>b d1 d2. reset_password (\<lambda>r. r) (\<lambda>_. Inr ''$new'') ''a@b'' ''correct-horse'' (\<lambda>d. d) (sample_identity ''$h'') = (Inr (ResetDone b), d1)
     \<and> fst (snd (authenticate (\<lambda>r. r) (\<lambda>_. Inr ''$h'') (\<lambda>_ _. Inr PasswordVerifiedRehashNeeded) ''a@b'' ''old'' (\<lambda>_. d1) (sample_identity ''$h'') ''''))
       = d2 \<and> find (\<lambda>x. acID x = ''u1'') (idUsers d2) = Some (sample_account ''$h'')"
proof -
  let ?d = "sample_identity ''$h''" and ?a = "sample_account ''$h''"
  note v = sample_valid [OF sample_text(1)]
  have a: "?a \<in> set (idUsers ?d)" "acEmail ?a = ''a@b''" "acID ?a = ''u1''" "?a\<lparr>acPasswordHash := ''$h''\<rparr> = ?a"
    by (simp_all add: sample_identity_def sample_account_def)
  have plain: "\<forall>c\<in>set ''$new''. byte c < 128 \<and> \<not> is_space (byte c)" by (simp add: byte_def is_space_def)
  have new: "trim_space ''$new'' = ''$new''" "pg_text ''$new''"
    by (simp only: trim_plain(1) [OF plain], rule pg_text_ascii) (simp add: byte_def)
  have f: "find_by_email (\<lambda>r. r) ''a@b'' ?d = Inr (Some ?a)" using find_email [OF v(2) a(1)] a(2) by simp
  obtain b d1 where r: "reset_password (\<lambda>r. r) (\<lambda>_. Inr ''$new'') ''a@b'' ''correct-horse'' (\<lambda>d. d) ?d = (Inr (ResetDone b), d1)"
    by (simp add: reset_password_def sample_email sample_password f update_password_hash_def new)
      (simp add: sample_identity_def replace_password_hash_def new)
  from rehash_undoes_reset [where low = "\<lambda>r. r" and verify = "\<lambda>_ _. Inr PasswordVerifiedRehashNeeded" and hash = "\<lambda>_. Inr ''$h''" and
      dummy = "''''" and old = "''old''", OF v(2) a(1) _ _ refl refl sample_text r] a
  show ?thesis using r sample_email by fastforce
qed

end
