(* ===== verification/Organizations.thy ===== *)
theory Organizations
  imports Accounts
begin

text \<open>
  Organizations and memberships: \<open>internal/organization\<close> and \<open>internal/postgres/organization.go\<close>. A use
  case first lists the users or the Organizations and then writes, and other requests may write between
  the two. The lemmas show that no Organization is ever without a member, what a role permits, and that
  every user is a member of every Organization as long as no two of these requests overlap; when they
  do, a user may be left outside.
\<close>

section \<open>Roles and permissions\<close>

definition PermissionOrganizationRead :: string where "PermissionOrganizationRead = ''organization.read''"
definition PermissionOrganizationWrite :: string where "PermissionOrganizationWrite = ''organization.write''"
definition PermissionMonitorRead :: string where "PermissionMonitorRead = ''monitor.read''"
definition PermissionMonitorWrite :: string where "PermissionMonitorWrite = ''monitor.write''"
definition PermissionIncidentRead :: string where "PermissionIncidentRead = ''incident.read''"
definition PermissionAlertRead :: string where "PermissionAlertRead = ''alert.read''"
definition PermissionIncidentWrite :: string where "PermissionIncidentWrite = ''incident.write''"
definition PermissionIntegrationManage :: string where "PermissionIntegrationManage = ''integration.manage''"
definition PermissionMaintenanceRead :: string where "PermissionMaintenanceRead = ''maintenance.read''"
definition PermissionMaintenanceWrite :: string where "PermissionMaintenanceWrite = ''maintenance.write''"
definition PermissionStatusPageWrite :: string where "PermissionStatusPageWrite = ''statusPage.write''"
definition PermissionMemberRead :: string where "PermissionMemberRead = ''member.read''"
definition PermissionMemberWrite :: string where "PermissionMemberWrite = ''member.write''"

definition readSuffix :: string where "readSuffix = ''.read''"

definition RoleAdministrator :: string where "RoleAdministrator = ''Administrator''"
definition RoleViewer :: string where "RoleViewer = ''Viewer''"

definition BuiltInRoles :: "string list" where "BuiltInRoles = [RoleAdministrator, RoleViewer]"

definition valid_role :: "string \<Rightarrow> bool" where
  "valid_role r \<longleftrightarrow> r \<in> set BuiltInRoles"

text \<open>\<open>strings.HasSuffix\<close>.\<close>

definition has_suffix :: "string \<Rightarrow> string \<Rightarrow> bool" where
  "has_suffix s suf \<longleftrightarrow> length suf \<le> length s \<and> drop (length s - length suf) s = suf"

definition role_permits :: "string \<Rightarrow> string \<Rightarrow> bool" where
  "role_permits r permission =
     (if r = RoleAdministrator then True
      else if r = RoleViewer then has_suffix permission readSuffix
      else False)"

definition new_membership :: "string \<Rightarrow> string \<Rightarrow> string \<Rightarrow> go_time \<Rightarrow> membership result" where
  "new_membership org usr r created_at =
     (if org = '''' \<or> usr = '''' then Inl (ErrText ''a membership requires an Organization and a user'')
      else if \<not> valid_role r then Inl (ErrText ''unknown Organization role'')
      else if \<not> is_utc created_at then Inl (ErrText ''persisted timestamps must be UTC'')
      else Inr \<lparr>msOrganizationID = org, msUserID = usr, msRole = r, msCreatedAt = created_at\<rparr>)"

definition new_organization :: "string \<Rightarrow> string \<Rightarrow> go_time \<Rightarrow> organization result" where
  "new_organization i name created_at =
     (if i = '''' then Inl (ErrText ''an Organization requires an id'')
      else if normalize_label name \<noteq> Some name then Inl (ErrText ''invalid Organization display name'')
      else if \<not> is_utc created_at then Inl (ErrText ''persisted timestamps must be UTC'')
      else Inr \<lparr>ogID = i, ogDisplayName = name, ogCreatedAt = created_at\<rparr>)"

section \<open>The store\<close>

definition scan_organization :: "organization \<Rightarrow> organization result" where
  "scan_organization o1 =
     (case new_organization (ogID o1) (ogDisplayName o1) (to_utc (ogCreatedAt o1)) of
        Inl e \<Rightarrow> Inl (Wrapped ''restore Organization'' e) | Inr v \<Rightarrow> Inr v)"

definition find_organization :: "string \<Rightarrow> identity_db \<Rightarrow> organization option result" where
  "find_organization i d =
     (case find (\<lambda>o1. ogID o1 = i) (idOrganizations d) of
        None \<Rightarrow> Inr None
      | Some o1 \<Rightarrow> and_then (scan_organization o1) (\<lambda>v. Inr (Some v)))"

definition list_for_member :: "string \<Rightarrow> identity_db \<Rightarrow> organization list result" where
  "list_for_member usr d =
     map_results scan_organization
       (sort_key (\<lambda>o1. (nanos (ogCreatedAt o1), ogID o1))
         (filter (\<lambda>o1. sql_exists (\<lambda>m. msOrganizationID m = ogID o1 \<and> msUserID m = usr) (idMembers d)) (idOrganizations d)))"

definition list_organization_ids :: "identity_db \<Rightarrow> string list" where
  "list_organization_ids d = map ogID (sort_key (\<lambda>o1. (nanos (ogCreatedAt o1), ogID o1)) (idOrganizations d))"

definition list_user_ids :: "identity_db \<Rightarrow> string list" where
  "list_user_ids d = map acID (sort_key (\<lambda>a. (nanos (acCreatedAt a), acID a)) (idUsers d))"

definition find_membership :: "string \<Rightarrow> string \<Rightarrow> identity_db \<Rightarrow> membership option result" where
  "find_membership org usr d =
     (case find (\<lambda>m. msOrganizationID m = org \<and> msUserID m = usr) (idMembers d) of
        None \<Rightarrow> Inr None
      | Some m \<Rightarrow>
          (case new_membership org usr (msRole m) (to_utc (msCreatedAt m)) of
             Inl e \<Rightarrow> Inl (Wrapped ''restore membership'' e) | Inr v \<Rightarrow> Inr (Some v)))"

text \<open>The foreign keys of a membership; an existing one is left as it is.\<close>

definition insert_membership :: "membership \<Rightarrow> identity_db \<Rightarrow> identity_db result" where
  "insert_membership m d =
     (if sql_exists (\<lambda>x. msOrganizationID x = msOrganizationID m \<and> msUserID x = msUserID m) (idMembers d) then Inr d
      else if \<not> sql_exists (\<lambda>o1. ogID o1 = msOrganizationID m) (idOrganizations d)
        \<or> \<not> sql_exists (\<lambda>a. acID a = msUserID m) (idUsers d) then Inl (ErrText ''insert membership'')
      else Inr (d\<lparr>idMembers := idMembers d @ [m\<lparr>msCreatedAt := db_instant (msCreatedAt m)\<rparr>]\<rparr>))"

fun insert_memberships :: "membership list \<Rightarrow> identity_db \<Rightarrow> identity_db result" where
  "insert_memberships [] d = Inr d"
| "insert_memberships (m # ms) d = and_then (insert_membership m d) (insert_memberships ms)"

definition identity_tx :: "(identity_db \<Rightarrow> identity_db result) \<Rightarrow> identity_db \<Rightarrow> unit result \<times> identity_db" where
  "identity_tx f d = (case f d of Inl e \<Rightarrow> (Inl e, d) | Inr d' \<Rightarrow> (Inr (), d'))"

definition organization_to_row :: "organization \<Rightarrow> organization" where
  "organization_to_row v = v\<lparr>ogCreatedAt := db_instant (ogCreatedAt v)\<rparr>"

definition create_organization_tx :: "organization \<Rightarrow> membership list \<Rightarrow> identity_db \<Rightarrow> identity_db result" where
  "create_organization_tx v ms d =
     (if \<not> pg_text (ogDisplayName v) \<or> sql_exists (\<lambda>o1. ogID o1 = ogID v) (idOrganizations d) then
        Inl (ErrText ''insert Organization'')
      else insert_memberships ms (d\<lparr>idOrganizations := idOrganizations d @ [organization_to_row v]\<rparr>))"

definition create_organization :: "organization \<Rightarrow> membership list \<Rightarrow> identity_db \<Rightarrow> unit result \<times> identity_db" where
  "create_organization v ms d = identity_tx (create_organization_tx v ms) d"

definition create_memberships :: "membership list \<Rightarrow> identity_db \<Rightarrow> unit result \<times> identity_db" where
  "create_memberships ms d = (if ms = [] then (Inr (), d) else identity_tx (insert_memberships ms) d)"

definition update_display_name :: "string \<Rightarrow> string \<Rightarrow> identity_db \<Rightarrow> bool result \<times> identity_db" where
  "update_display_name i name d =
     (if \<not> pg_text name then (Inl (ErrText ''rename Organization''), d)
      else (Inr (sql_exists (\<lambda>o1. ogID o1 = i) (idOrganizations d)),
        d\<lparr>idOrganizations := sql_update (\<lambda>o1. ogID o1 = i) (\<lambda>o1. o1\<lparr>ogDisplayName := name\<rparr>) (idOrganizations d)\<rparr>))"

section \<open>Use cases\<close>

definition BootstrapDisplayName :: string where "BootstrapDisplayName = ''Default''"

definition organization_name_failure :: validation_failure where
  "organization_name_failure = \<lparr>vfCode = ''organization.displayName.invalid'', vfField = ''displayName'',
     vfMessage = ''A display name is 1 to 100 characters after trimming.''\<rparr>"

text \<open>The loop that leaves out duplicates and empty identifiers.\<close>

fun member_candidates :: "string list \<Rightarrow> string list \<Rightarrow> string list" where
  "member_candidates seen [] = []"
| "member_candidates seen (i # is) =
     (if i = '''' \<or> i \<in> set seen then member_candidates seen is
      else i # member_candidates (i # seen) is)"

definition memberships_for_new_organization ::
  "string \<Rightarrow> string \<Rightarrow> go_time \<Rightarrow> string list \<Rightarrow> membership list result" where
  "memberships_for_new_organization org creator now user_ids =
     map_results (\<lambda>u. new_membership org u RoleAdministrator now) (member_candidates [] (user_ids @ [creator]))"

datatype provision_result = ProvisionInvalid "validation_failure list" | ProvisionCreated organization

definition provision ::
  "string \<Rightarrow> string \<Rightarrow> string result \<Rightarrow> go_time \<Rightarrow> (identity_db \<Rightarrow> identity_db) \<Rightarrow>
     identity_db \<Rightarrow> provision_result result \<times> identity_db" where
  "provision name creator uuid clock between d =
     (case normalize_label name of
        None \<Rightarrow> (Inr (ProvisionInvalid [organization_name_failure]), d)
      | Some display_name \<Rightarrow>
          if creator = '''' then (Inl (ErrText ''provisioning requires the creating user''), d)
          else case uuid of
            Inl e \<Rightarrow> (Inl (Wrapped ''generate Organization id'' e), d)
          | Inr i \<Rightarrow>
              (case new_organization i display_name (to_utc clock) of
                 Inl e \<Rightarrow> (Inl e, d)
               | Inr v \<Rightarrow>
                   (case memberships_for_new_organization (ogID v) creator (to_utc clock) (list_user_ids d) of
                      Inl e \<Rightarrow> (Inl e, d)
                    | Inr ms \<Rightarrow>
                        (case create_organization v ms (between d) of
                           (Inl e, d') \<Rightarrow> (Inl e, d')
                         | (Inr _, d') \<Rightarrow> (Inr (ProvisionCreated v), d')))))"

definition memberships_of_new_member :: "string \<Rightarrow> go_time \<Rightarrow> identity_db \<Rightarrow> membership list result" where
  "memberships_of_new_member usr now d =
     map_results (\<lambda>i. new_membership i usr RoleAdministrator now) (list_organization_ids d)"

definition add_member_to_all ::
  "string \<Rightarrow> go_time \<Rightarrow> (identity_db \<Rightarrow> identity_db) \<Rightarrow> identity_db \<Rightarrow> unit result \<times> identity_db" where
  "add_member_to_all usr clock between d =
     (if usr = '''' then (Inl (ErrText ''adding a member requires the user''), d)
      else case memberships_of_new_member usr (to_utc clock) d of
        Inl e \<Rightarrow> (Inl e, d)
      | Inr ms \<Rightarrow> create_memberships ms (between d))"

definition provision_bootstrap ::
  "string \<Rightarrow> string result \<Rightarrow> go_time \<Rightarrow> (identity_db \<Rightarrow> identity_db) \<Rightarrow>
     identity_db \<Rightarrow> provision_result result \<times> identity_db" where
  "provision_bootstrap creator uuid clock between d = provision BootstrapDisplayName creator uuid clock between d"

definition membership_of :: "string \<Rightarrow> string \<Rightarrow> identity_db \<Rightarrow> membership option result" where
  "membership_of org usr d = (if usr = '''' then Inr None else find_membership org usr d)"

datatype organization_rename_result = RenameInvalid "validation_failure list" | RenameRenamed organization | RenameNotFound

definition rename_organization :: "string \<Rightarrow> string \<Rightarrow> identity_db \<Rightarrow> organization_rename_result result \<times> identity_db" where
  "rename_organization i requested d =
     (case normalize_label requested of
        None \<Rightarrow> (Inr (RenameInvalid [organization_name_failure]), d)
      | Some name \<Rightarrow>
          (case update_display_name i name d of
             (Inl e, d') \<Rightarrow> (Inl e, d')
           | (Inr False, d') \<Rightarrow> (Inr RenameNotFound, d')
           | (Inr True, d') \<Rightarrow>
               (case find_organization i d' of
                  Inl e \<Rightarrow> (Inl e, d')
                | Inr None \<Rightarrow> (Inr RenameNotFound, d')
                | Inr (Some v) \<Rightarrow> (Inr (RenameRenamed v), d'))))"

section \<open>Interleaved requests\<close>

text \<open>A request that has listed what it needs holds what it will write.\<close>

datatype org_write = WriteOrganization organization "membership list" | WriteMembers "membership list"

record org_world =
  owDb :: identity_db
  owPending :: "org_write list"

definition same_organizations :: "identity_db \<Rightarrow> identity_db \<Rightarrow> bool" where
  "same_organizations d d' \<longleftrightarrow> idOrganizations d' = idOrganizations d \<and> idMembers d' = idMembers d"

inductive org_step :: "(int \<Rightarrow> int) \<Rightarrow> org_world \<Rightarrow> org_world \<Rightarrow> bool" for low where
  provisioning: "\<not> is_zero (db_instant now) \<Longrightarrow> creator \<noteq> '''' \<Longrightarrow> new_organization i name now = Inr v \<Longrightarrow>
     memberships_for_new_organization i creator now (list_user_ids (owDb w)) = Inr ms \<Longrightarrow>
     org_step low w (w\<lparr>owPending := WriteOrganization v ms # owPending w\<rparr>)"
| adding: "memberships_of_new_member usr now (owDb w) = Inr ms \<Longrightarrow> \<not> is_zero (db_instant now) \<Longrightarrow>
     org_step low w (w\<lparr>owPending := WriteMembers ms # owPending w\<rparr>)"
| provisioned: "WriteOrganization v ms \<in> set (owPending w) \<Longrightarrow> create_organization v ms (owDb w) = (r, d') \<Longrightarrow>
     org_step low w (w\<lparr>owDb := d', owPending := remove1 (WriteOrganization v ms) (owPending w)\<rparr>)"
| added: "WriteMembers ms \<in> set (owPending w) \<Longrightarrow> create_memberships ms (owDb w) = (r, d') \<Longrightarrow>
     org_step low w (w\<lparr>owDb := d', owPending := remove1 (WriteMembers ms) (owPending w)\<rparr>)"
| renamed: "rename_organization i name (owDb w) = (rr, d') \<Longrightarrow> org_step low w (w\<lparr>owDb := d'\<rparr>)"
| account: "account_step low (owDb w) d' \<Longrightarrow> same_organizations (owDb w) d' \<Longrightarrow>
     acID ` set (idUsers (owDb w)) \<subseteq> acID ` set (idUsers d') \<Longrightarrow> org_step low w (w\<lparr>owDb := d'\<rparr>)"

definition member_key :: "membership \<Rightarrow> string \<times> string" where
  "member_key m = (msOrganizationID m, msUserID m)"

definition member_ok :: "identity_db \<Rightarrow> membership \<Rightarrow> bool" where
  "member_ok d m \<longleftrightarrow> msOrganizationID m \<in> ogID ` set (idOrganizations d) \<and> msUserID m \<in> acID ` set (idUsers d)
     \<and> new_membership (msOrganizationID m) (msUserID m) (msRole m) (msCreatedAt m) = Inr m \<and> is_db_instant (msCreatedAt m)"

definition members_ok :: "identity_db \<Rightarrow> bool" where
  "members_ok d \<longleftrightarrow> unique_on (\<lambda>m. Some (member_key m)) (idMembers d) \<and> (\<forall>m\<in>set (idMembers d). member_ok d m)"

definition organization_ok :: "identity_db \<Rightarrow> organization \<Rightarrow> bool" where
  "organization_ok d v \<longleftrightarrow> new_organization (ogID v) (ogDisplayName v) (ogCreatedAt v) = Inr v \<and> is_db_instant (ogCreatedAt v)
     \<and> (\<exists>m\<in>set (idMembers d). msOrganizationID m = ogID v)"

definition organizations_ok :: "identity_db \<Rightarrow> bool" where
  "organizations_ok d \<longleftrightarrow> unique_on (\<lambda>v. Some (ogID v)) (idOrganizations d) \<and> members_ok d
     \<and> (\<forall>v\<in>set (idOrganizations d). organization_ok d v)"

definition membership_to_write :: "membership \<Rightarrow> bool" where
  "membership_to_write m \<longleftrightarrow> new_membership (msOrganizationID m) (msUserID m) (msRole m) (msCreatedAt m) = Inr m
     \<and> \<not> is_zero (db_instant (msCreatedAt m))"

fun write_ok :: "org_write \<Rightarrow> bool" where
  "write_ok (WriteOrganization v ms) = (new_organization (ogID v) (ogDisplayName v) (ogCreatedAt v) = Inr v
     \<and> \<not> is_zero (db_instant (ogCreatedAt v)) \<and> ms \<noteq> [] \<and> (\<forall>m\<in>set ms. membership_to_write m \<and> msOrganizationID m = ogID v))"
| "write_ok (WriteMembers ms) = (\<forall>m\<in>set ms. membership_to_write m)"

lemma new_membership_Inr: "new_membership org usr r t = Inr m \<longleftrightarrow>
    m = \<lparr>msOrganizationID = org, msUserID = usr, msRole = r, msCreatedAt = t\<rparr> \<and> org \<noteq> '''' \<and> usr \<noteq> '''' \<and> valid_role r \<and> is_utc t"
  by (auto simp: new_membership_def)

lemma new_organization_Inr: "new_organization i name t = Inr v \<longleftrightarrow>
    v = \<lparr>ogID = i, ogDisplayName = name, ogCreatedAt = t\<rparr> \<and> i \<noteq> '''' \<and> normalize_label name = Some name \<and> is_utc t"
  by (auto simp: new_organization_def)

lemma memberships_keys:
  assumes "map_results (\<lambda>x. new_membership (f x) (g x) r t) xs = Inr ms"
  shows "map member_key ms = map (\<lambda>x. (f x, g x)) xs" "\<forall>m\<in>set ms. msCreatedAt m = t \<and> msRole m = r
    \<and> new_membership (msOrganizationID m) (msUserID m) r t = Inr m"
  using map_results_Inr [OF assms]
  by (induction rule: list_all2_induct) (auto simp: member_key_def new_membership_Inr)

lemma member_candidates_set: "set (member_candidates seen is) = set is - set seen - {''''}"
  by (induction seen "is" rule: member_candidates.induct) auto

lemma list_user_ids_set [simp]: "set (list_user_ids d) = acID ` set (idUsers d)"
  by (simp add: list_user_ids_def)

lemma list_organization_ids_set [simp]: "set (list_organization_ids d) = ogID ` set (idOrganizations d)"
  by (simp add: list_organization_ids_def)

lemma new_organization_members:
  assumes "memberships_for_new_organization org creator now ids = Inr ms"
  shows "member_key ` set ms = (\<lambda>u. (org, u)) ` ((set ids \<union> {creator}) - {''''})"
proof -
  have "set (map member_key ms) = set (map (\<lambda>u. (org, u)) (member_candidates [] (ids @ [creator])))"
    using memberships_keys(1) [OF assms [unfolded memberships_for_new_organization_def]] by simp
  then show ?thesis by (simp add: member_candidates_set)
qed

lemma new_member_organizations:
  "memberships_of_new_member usr now d = Inr ms \<Longrightarrow> member_key ` set ms = (\<lambda>i. (i, usr)) ` ogID ` set (idOrganizations d)"
  using memberships_keys(1) [of "\<lambda>i. i" "\<lambda>i. usr"] by (metis list.set_map list_organization_ids_set memberships_of_new_member_def)

text \<open>Inserting memberships.\<close>

lemma insert_membership_Inr:
  assumes "insert_membership m d = Inr d'"
  shows "d' = d\<lparr>idMembers := idMembers d'\<rparr>" "member_key ` set (idMembers d') = insert (member_key m) (member_key ` set (idMembers d))"
    "members_ok d \<Longrightarrow> membership_to_write m \<Longrightarrow> members_ok d'"
proof -
  show "d' = d\<lparr>idMembers := idMembers d'\<rparr>" "member_key ` set (idMembers d') = insert (member_key m) (member_key ` set (idMembers d))"
    using assms by (auto simp: insert_membership_def member_key_def image_iff split: if_splits) metis
  assume ok: "members_ok d" "membership_to_write m"
  show "members_ok d'"
  proof (cases "member_key m \<in> member_key ` set (idMembers d)")
    case True
    then have "d' = d" using assms by (auto simp: insert_membership_def member_key_def split: if_splits)
    then show ?thesis using ok(1) by simp
  next
    case False
    let ?m = "m\<lparr>msCreatedAt := db_instant (msCreatedAt m)\<rparr>"
    have new: "\<forall>x\<in>set (idMembers d). member_key x \<noteq> member_key m" using False by (metis image_eqI)
    then have d': "d' = d\<lparr>idMembers := idMembers d @ [?m]\<rparr>"
      and "\<exists>o1\<in>set (idOrganizations d). ogID o1 = msOrganizationID m" "\<exists>a\<in>set (idUsers d). acID a = msUserID m"
      using assms by (auto simp: insert_membership_def member_key_def split: if_splits)
    then have "msOrganizationID m \<in> ogID ` set (idOrganizations d)" "msUserID m \<in> acID ` set (idUsers d)"
      by (metis image_eqI)+
    moreover have "msUserID m \<noteq> ''''" "msOrganizationID m \<noteq> ''''" "valid_role (msRole m)" "is_utc (db_instant (msCreatedAt m))"
      using ok(2) by (auto simp: membership_to_write_def new_membership_Inr is_utc_def)
    ultimately have "member_ok d ?m" by (simp add: member_ok_def new_membership_Inr)
    moreover have "member_ok d' x = member_ok d x" for x by (simp add: member_ok_def d')
    moreover have "member_key ?m = member_key m" by (simp add: member_key_def)
    ultimately show ?thesis using ok(1) new by (auto simp: members_ok_def d' unique_on_append)
  qed
qed

lemma insert_memberships_Inr:
  "insert_memberships ms d = Inr d' \<Longrightarrow> d' = d\<lparr>idMembers := idMembers d'\<rparr>
     \<and> member_key ` set (idMembers d') = member_key ` set ms \<union> member_key ` set (idMembers d)
     \<and> (members_ok d \<longrightarrow> (\<forall>m\<in>set ms. membership_to_write m) \<longrightarrow> members_ok d')"
proof (induction ms arbitrary: d)
  case (Cons m ms)
  then obtain e where e: "insert_membership m d = Inr e" "insert_memberships ms e = Inr d'" by (auto simp: and_then_Inr)
  note i = insert_membership_Inr [OF e(1)] and IH = Cons.IH [OF e(2)]
  have "d' = d\<lparr>idMembers := idMembers d'\<rparr>" using i(1) IH by (metis identity_db.surjective identity_db.update_convs(6))
  then show ?case using i IH by auto
qed auto

lemma organizations_ok_grow:
  assumes "organizations_ok d" and "idOrganizations d' = idOrganizations d" and "members_ok d'"
    and "member_key ` set (idMembers d) \<subseteq> member_key ` set (idMembers d')"
  shows "organizations_ok d'"
proof -
  have "\<exists>m\<in>set (idMembers d'). msOrganizationID m = i" if "\<exists>m\<in>set (idMembers d). msOrganizationID m = i" for i
    using that assms(4) by (force simp: member_key_def)
  then show ?thesis using assms by (auto simp: organizations_ok_def organization_ok_def)
qed

lemma create_organization_Inr:
  assumes "create_organization v ms d = (Inr u, d')"
  shows "ogID v \<notin> ogID ` set (idOrganizations d)" "idOrganizations d' = idOrganizations d @ [organization_to_row v]"
    "idUsers d' = idUsers d" "member_key ` set (idMembers d') = member_key ` set ms \<union> member_key ` set (idMembers d)"
    "members_ok d \<Longrightarrow> \<forall>m\<in>set ms. membership_to_write m \<Longrightarrow> members_ok d'"
proof -
  let ?e = "d\<lparr>idOrganizations := idOrganizations d @ [organization_to_row v]\<rparr>"
  have i: "insert_memberships ms ?e = Inr d'" and n: "\<not> (\<exists>o1\<in>set (idOrganizations d). ogID o1 = ogID v)"
    using assms by (auto simp: create_organization_def identity_tx_def create_organization_tx_def split: if_splits sum.splits)
  note D = insert_memberships_Inr [OF i]
  show "ogID v \<notin> ogID ` set (idOrganizations d)" using n by auto
  have "d' = ?e\<lparr>idMembers := idMembers d'\<rparr>" using D by blast
  then show "idOrganizations d' = idOrganizations d @ [organization_to_row v]" "idUsers d' = idUsers d"
    by (metis identity_db.select_convs identity_db.surjective identity_db.update_convs(5,6))+
  show "member_key ` set (idMembers d') = member_key ` set ms \<union> member_key ` set (idMembers d)" using D by simp
  assume "members_ok d" "\<forall>m\<in>set ms. membership_to_write m"
  moreover from this(1) have "members_ok ?e" by (auto simp: members_ok_def member_ok_def)
  ultimately show "members_ok d'" using D by blast
qed

lemma create_organization_ok:
  assumes "create_organization v ms d = (r, d')" and "organizations_ok d" and "write_ok (WriteOrganization v ms)"
  shows "organizations_ok d'"
proof (cases r)
  case (Inl e)
  then have "d' = d"
    using assms(1) by (auto simp: create_organization_def identity_tx_def split: sum.splits)
  with assms(2) show ?thesis by simp
next
  case (Inr u)
  note C = create_organization_Inr [OF assms(1) [unfolded Inr]]
  have m: "members_ok d'" using C(5) assms(2,3) by (simp add: organizations_ok_def)
  let ?row = "organization_to_row v"
  obtain m0 where "m0 \<in> set ms" "msOrganizationID m0 = ogID v" using assms(3) by (cases ms) auto
  then have "member_key m0 \<in> member_key ` set (idMembers d')" using C(4) by blast
  then obtain m1 where "m1 \<in> set (idMembers d')" "msOrganizationID m1 = ogID ?row"
    using \<open>msOrganizationID m0 = ogID v\<close> by (auto simp: member_key_def organization_to_row_def)
  then have row: "organization_ok d' ?row"
    using assms(3) by (auto simp: organization_ok_def organization_to_row_def new_organization_Inr is_utc_def)
  have old: "organization_ok d' x" if "x \<in> set (idOrganizations d)" for x
  proof -
    have "organization_ok d x" using assms(2) that by (simp add: organizations_ok_def)
    moreover have "member_key ` set (idMembers d) \<subseteq> member_key ` set (idMembers d')" using C(4) by blast
    ultimately show ?thesis by (force simp: organization_ok_def member_key_def)
  qed
  have "unique_on (\<lambda>v. Some (ogID v)) (idOrganizations d')"
  proof -
    have "\<forall>x\<in>set (idOrganizations d). ogID x \<noteq> ogID v" using C(1) by (metis image_eqI)
    then show ?thesis using assms(2) C(2) by (simp add: organizations_ok_def unique_on_append organization_to_row_def)
  qed
  then show ?thesis using m row old C(2) by (auto simp: organizations_ok_def)
qed

lemma create_memberships_ok:
  assumes "create_memberships ms d = (r, d')" and "organizations_ok d" and "write_ok (WriteMembers ms)"
  shows "organizations_ok d'"
proof (cases "insert_memberships ms d")
  case (Inl e)
  then show ?thesis using assms(1,2) by (auto simp: create_memberships_def identity_tx_def split: if_splits)
next
  case (Inr e)
  note D = insert_memberships_Inr [OF Inr]
  have "d' = e \<or> d' = d" using assms(1) Inr by (auto simp: create_memberships_def identity_tx_def split: if_splits)
  moreover have "organizations_ok e"
  proof (rule organizations_ok_grow [OF assms(2)])
    show "idOrganizations e = idOrganizations d" using D by (metis identity_db.select_convs(5) identity_db.surjective identity_db.update_convs(6))
    show "members_ok e" using D assms(2,3) by (simp add: organizations_ok_def)
  qed (use D in blast)
  ultimately show ?thesis using assms(2) by auto
qed

lemma rename_effect:
  "rename_organization i name d = (rr, d') \<Longrightarrow>
     d' = d \<or> (\<exists>n. normalize_label name = Some n \<and> d' = snd (update_display_name i n d))"
  by (auto simp: rename_organization_def split: option.splits prod.splits sum.splits bool.splits)

lemma rename_ok:
  assumes "rename_organization i name d = (rr, d')" and "organizations_ok d"
  shows "organizations_ok d'"
proof -
  have "d' = d \<or> (\<exists>n. normalize_label name = Some n \<and> d' = snd (update_display_name i n d))"
    by (rule rename_effect [OF assms(1)])
  moreover have "organizations_ok (snd (update_display_name i n d))" if "normalize_label name = Some n" for n
  proof -
    let ?f = "\<lambda>o1. o1\<lparr>ogDisplayName := n\<rparr>"
    let ?e = "d\<lparr>idOrganizations := sql_update (\<lambda>o1. ogID o1 = i) ?f (idOrganizations d)\<rparr>"
    have n: "normalize_label n = Some n" using that by (rule normalize_label_twice)
    have "ogID ` set (idOrganizations ?e) = ogID ` set (idOrganizations d)"
      by (simp add: image_sql_update)
    then have "members_ok ?e" using assms(2) by (auto simp: organizations_ok_def members_ok_def member_ok_def)
    moreover have "unique_on (\<lambda>v. Some (ogID v)) (idOrganizations ?e)"
      using assms(2) by (auto simp: organizations_ok_def intro!: unique_on_sql_update)
    moreover have "\<forall>v\<in>set (idOrganizations ?e). organization_ok ?e v"
    proof
      fix v assume "v \<in> set (idOrganizations ?e)"
      then obtain x where x: "x \<in> set (idOrganizations d)" "v = (if ogID x = i then ?f x else x)" by (auto simp: in_sql_update)
      then have "organization_ok d x" using assms(2) by (simp add: organizations_ok_def)
      then show "organization_ok ?e v" using x(2) n by (simp add: organization_ok_def new_organization_Inr split: if_splits)
    qed
    ultimately have "organizations_ok ?e" by (simp add: organizations_ok_def)
    then show ?thesis using assms(2) by (simp add: update_display_name_def)
  qed
  ultimately show ?thesis using assms(2) by auto
qed

lemma provisioned_write_ok:
  assumes "\<not> is_zero (db_instant now)" and "creator \<noteq> ''''" and "new_organization i name now = Inr v"
    and "memberships_for_new_organization i creator now ids = Inr ms"
  shows "write_ok (WriteOrganization v ms)"
proof -
  have v: "v = \<lparr>ogID = i, ogDisplayName = name, ogCreatedAt = now\<rparr>" using assms(3) by (simp add: new_organization_Inr)
  note k = new_organization_members [OF assms(4)]
  have "(i, creator) \<in> member_key ` set ms" using k assms(2) by auto
  then have "ms \<noteq> []" by auto
  moreover have "msOrganizationID m = i" if "m \<in> set ms" for m
    using k that by (force simp: member_key_def)
  moreover have "membership_to_write m" if "m \<in> set ms" for m
    using memberships_keys(2) [OF assms(4) [unfolded memberships_for_new_organization_def]] that assms(1)
    by (simp add: membership_to_write_def)
  ultimately show ?thesis using assms(1,3) v by simp
qed

lemma added_write_ok:
  assumes "memberships_of_new_member usr now d = Inr ms" and "\<not> is_zero (db_instant now)"
  shows "write_ok (WriteMembers ms)"
  using memberships_keys(2) [OF assms(1) [unfolded memberships_of_new_member_def]] assms(2)
  by (simp add: membership_to_write_def)

definition world_ok :: "org_world \<Rightarrow> bool" where
  "world_ok w \<longleftrightarrow> organizations_ok (owDb w) \<and> (\<forall>p\<in>set (owPending w). write_ok p)"

lemma org_step_ok:
  assumes "org_step low w w'" and "world_ok w"
  shows "world_ok w'"
  using assms
proof (cases rule: org_step.cases)
  case (provisioning now creator i name v ms)
  with provisioned_write_ok [OF provisioning(2-5)] assms(2) show ?thesis by (simp add: world_ok_def)
next
  case (adding usr now ms)
  with added_write_ok [OF adding(2,3)] assms(2) show ?thesis by (simp add: world_ok_def)
next
  case (provisioned v ms r d')
  then have "write_ok (WriteOrganization v ms)" using assms(2) by (simp only: world_ok_def)
  with create_organization_ok [OF provisioned(3)] provisioned(1) assms(2) show ?thesis
    by (auto simp: world_ok_def dest: notin_set_remove1 simp del: write_ok.simps)
next
  case (added ms r d')
  then have "write_ok (WriteMembers ms)" using assms(2) by (simp only: world_ok_def)
  with create_memberships_ok [OF added(3)] added(1) assms(2) show ?thesis
    by (auto simp: world_ok_def dest: notin_set_remove1 simp del: write_ok.simps)
next
  case (renamed i name rr d')
  with rename_ok [OF renamed(2)] assms(2) show ?thesis by (simp add: world_ok_def)
next
  case (account d')
  have "members_ok d'"
    using account(3,4) assms(2) by (fastforce simp: world_ok_def organizations_ok_def members_ok_def member_ok_def same_organizations_def)
  with organizations_ok_grow [of "owDb w" d'] account(1,3) assms(2) show ?thesis
    by (simp add: world_ok_def same_organizations_def)
qed

lemma org_steps_ok: "(org_step low)\<^sup>*\<^sup>* w w' \<Longrightarrow> world_ok w \<Longrightarrow> world_ok w'"
  by (induction rule: rtranclp_induct) (auto intro: org_step_ok)

lemma stored_membership:
  assumes "organizations_ok d" and m: "m \<in> set (idMembers d)"
  shows "valid_role (msRole m) \<and> (\<exists>a\<in>set (idUsers d). acID a = msUserID m)
    \<and> (\<exists>v\<in>set (idOrganizations d). ogID v = msOrganizationID m) \<and> membership_of (msOrganizationID m) (msUserID m) d = Inr (Some m)"
proof -
  have mo: "member_ok d m" and u: "unique_on (\<lambda>m. Some (member_key m)) (idMembers d)"
    using assms by (simp_all add: organizations_ok_def members_ok_def)
  have "find (\<lambda>x. msOrganizationID x = msOrganizationID m \<and> msUserID x = msUserID m) (idMembers d) = Some m"
    by (rule find_the_only [OF m]) (use unique_onD [OF u _ m] in \<open>auto simp: member_key_def\<close>)
  moreover have "msUserID m \<noteq> []" "new_membership (msOrganizationID m) (msUserID m) (msRole m) (to_utc (msCreatedAt m)) = Inr m"
    using mo by (auto simp: member_ok_def new_membership_Inr to_utc_id is_db_instant_def)
  ultimately have "membership_of (msOrganizationID m) (msUserID m) d = Inr (Some m)" by (simp add: membership_of_def find_membership_def)
  with mo show ?thesis unfolding member_ok_def new_membership_Inr by (elim conjE imageE) metis
qed

section \<open>Properties\<close>

text \<open>However requests interleave, no Organization is without a member, every membership is the only one of
  its user in its Organization, names a user and an Organization that exist, and has a built-in role.\<close>

theorem organizations_have_members:
  assumes "(org_step low)\<^sup>*\<^sup>* w w'" and "idOrganizations (owDb w) = []" "idMembers (owDb w) = []" "owPending w = []"
  shows "(\<forall>v\<in>set (idOrganizations (owDb w')). \<exists>m\<in>set (idMembers (owDb w')). msOrganizationID m = ogID v)
    \<and> (\<forall>m\<in>set (idMembers (owDb w')). valid_role (msRole m) \<and> (\<exists>a\<in>set (idUsers (owDb w')). acID a = msUserID m)
      \<and> (\<exists>v\<in>set (idOrganizations (owDb w')). ogID v = msOrganizationID m)
      \<and> membership_of (msOrganizationID m) (msUserID m) (owDb w') = Inr (Some m))"
proof -
  have "world_ok w" using assms(2-4) by (simp add: world_ok_def organizations_ok_def members_ok_def)
  then have ok: "organizations_ok (owDb w')" using org_steps_ok [OF assms(1)] by (simp add: world_ok_def)
  then have "\<forall>v\<in>set (idOrganizations (owDb w')). \<exists>m\<in>set (idMembers (owDb w')). msOrganizationID m = ogID v"
    by (simp add: organizations_ok_def organization_ok_def)
  then show ?thesis using stored_membership [OF ok] by blast
qed

section \<open>Every user in every Organization\<close>

definition memberships_complete :: "identity_db \<Rightarrow> bool" where
  "memberships_complete d \<longleftrightarrow>
     (\<forall>v\<in>set (idOrganizations d). \<forall>a\<in>set (idUsers d). (ogID v, acID a) \<in> member_key ` set (idMembers d))"

text \<open>Requests one after the other: a user is created and added, an Organization is provisioned or renamed.\<close>

inductive serial_request :: "identity_db \<Rightarrow> identity_db \<Rightarrow> bool" where
  user_added: "create_account a d = (Inr (), d1) \<Longrightarrow> acID a \<noteq> '''' \<Longrightarrow>
     add_member_to_all (acID a) clock (\<lambda>d. d) d1 = (Inr (), d') \<Longrightarrow> serial_request d d'"
| organization_provisioned: "\<forall>a\<in>set (idUsers d). acID a \<noteq> '''' \<Longrightarrow>
     provision name creator uuid clock (\<lambda>d. d) d = (r, d') \<Longrightarrow> serial_request d d'"
| organization_renamed: "rename_organization i name d = (rr, d') \<Longrightarrow> serial_request d d'"

lemma memberships_completeD:
  "memberships_complete d \<Longrightarrow> ogID ` set (idOrganizations d) \<times> acID ` set (idUsers d) \<subseteq> member_key ` set (idMembers d)"
  by (auto simp: memberships_complete_def)

lemma memberships_completeI:
  "ogID ` set (idOrganizations d) \<times> acID ` set (idUsers d) \<subseteq> member_key ` set (idMembers d) \<Longrightarrow> memberships_complete d"
  by (auto simp: memberships_complete_def)

lemma insert_memberships_tables:
  assumes "insert_memberships ms d = Inr d'"
  shows "idOrganizations d' = idOrganizations d" "idUsers d' = idUsers d"
    "member_key ` set (idMembers d') = member_key ` set ms \<union> member_key ` set (idMembers d)"
proof -
  note D = insert_memberships_Inr [OF assms]
  then have "d' = d\<lparr>idMembers := idMembers d'\<rparr>" by blast
  then show "idOrganizations d' = idOrganizations d" "idUsers d' = idUsers d"
    by (metis identity_db.select_convs(1,5) identity_db.surjective identity_db.update_convs(6))+
  show "member_key ` set (idMembers d') = member_key ` set ms \<union> member_key ` set (idMembers d)" using D by blast
qed

lemma added_tables:
  assumes "add_member_to_all usr clock between d = (Inr (), d')"
  shows "idOrganizations d' = idOrganizations (between d)" "idUsers d' = idUsers (between d)"
    "member_key ` set (idMembers d') = (\<lambda>i. (i, usr)) ` ogID ` set (idOrganizations d) \<union> member_key ` set (idMembers (between d))"
proof -
  obtain ms where ms: "memberships_of_new_member usr (to_utc clock) d = Inr ms" and c: "create_memberships ms (between d) = (Inr (), d')"
    using assms by (auto simp: add_member_to_all_def split: if_splits sum.splits)
  have "insert_memberships ms (between d) = Inr d'"
    using c by (auto simp: create_memberships_def identity_tx_def split: if_splits sum.splits)
  from insert_memberships_tables [OF this] new_member_organizations [OF ms]
  show "idOrganizations d' = idOrganizations (between d)" "idUsers d' = idUsers (between d)"
    "member_key ` set (idMembers d') = (\<lambda>i. (i, usr)) ` ogID ` set (idOrganizations d) \<union> member_key ` set (idMembers (between d))"
    by simp_all
qed

lemma provisioned_tables:
  assumes "provision name creator uuid clock between d = (Inr (ProvisionCreated v), d')"
  shows "ogID v \<notin> ogID ` set (idOrganizations (between d))"
    "ogID ` set (idOrganizations d') = insert (ogID v) (ogID ` set (idOrganizations (between d)))"
    "idUsers d' = idUsers (between d)" "creator \<noteq> ''''"
    "member_key ` set (idMembers d') = (\<lambda>u. (ogID v, u)) ` (insert creator (acID ` set (idUsers d)) - {''''})
       \<union> member_key ` set (idMembers (between d))"
proof -
  obtain ms where "creator \<noteq> ''''" "memberships_for_new_organization (ogID v) creator (to_utc clock) (list_user_ids d) = Inr ms"
    "create_organization v ms (between d) = (Inr (), d')"
    using assms by (auto simp: provision_def split: if_splits sum.splits prod.splits option.splits)
  with create_organization_Inr(1-4) [of v ms "between d" "()" d'] new_organization_members [of "ogID v" creator "to_utc clock" "list_user_ids d" ms]
  show "ogID v \<notin> ogID ` set (idOrganizations (between d))"
    "ogID ` set (idOrganizations d') = insert (ogID v) (ogID ` set (idOrganizations (between d)))"
    "idUsers d' = idUsers (between d)" "creator \<noteq> ''''"
    "member_key ` set (idMembers d') = (\<lambda>u. (ogID v, u)) ` (insert creator (acID ` set (idUsers d)) - {''''})
       \<union> member_key ` set (idMembers (between d))"
    by (simp_all add: organization_to_row_def)
qed

lemma provision_otherwise:
  assumes "provision name creator uuid clock (\<lambda>d. d) d = (r, d')" and "\<forall>v. r \<noteq> Inr (ProvisionCreated v)"
  shows "d' = d"
  using assms
  by (auto simp: provision_def create_organization_def identity_tx_def split: if_splits sum.splits prod.splits option.splits)

lemma serial_request_complete: "serial_request d d' \<Longrightarrow> memberships_complete d \<Longrightarrow> memberships_complete d'"
proof (induction rule: serial_request.induct)
  case (user_added a d d1 clock d')
  have d1: "d1 = d\<lparr>idUsers := idUsers d @ [account_to_row a]\<rparr>"
    using user_added(1) by (auto simp: create_account_def split: if_splits)
  have "acID (account_to_row a) = acID a" by (simp add: account_to_row_def)
  then have users: "acID ` set (idUsers d') = insert (acID a) (acID ` set (idUsers d))"
    and orgs: "ogID ` set (idOrganizations d') = ogID ` set (idOrganizations d)"
    and mems: "member_key ` set (idMembers d') = ogID ` set (idOrganizations d) \<times> {acID a} \<union> member_key ` set (idMembers d)"
    using added_tables [OF user_added(3)] by (auto simp: d1)
  show ?case
    by (rule memberships_completeI) (use memberships_completeD [OF user_added(4)] in \<open>unfold users orgs mems, blast\<close>)
next
  case (organization_provisioned d name creator uuid clock r d')
  show ?case
  proof (cases "\<exists>v. r = Inr (ProvisionCreated v)")
    case True
    then obtain v where r: "r = Inr (ProvisionCreated v)" by blast
    note P = provisioned_tables [OF organization_provisioned(2) [unfolded r]]
    have im: "(\<lambda>u. (ogID v, u)) ` S = {ogID v} \<times> S" for S :: "string set" by auto
    have sub: "acID ` set (idUsers d) \<subseteq> insert creator (acID ` set (idUsers d)) - {''''}"
      using organization_provisioned(1) by auto
    show ?thesis
      by (rule memberships_completeI)
        (use sub memberships_completeD [OF organization_provisioned(3)] in \<open>unfold P(2,3,5) im, blast\<close>)
  next
    case False
    then show ?thesis using provision_otherwise [OF organization_provisioned(2)] organization_provisioned(3) by simp
  qed
next
  case (organization_renamed i name d rr d')
  have "ogID ` set (sql_update (\<lambda>o1. ogID o1 = i) (\<lambda>o1. o1\<lparr>ogDisplayName := n\<rparr>) (idOrganizations d)) = ogID ` set (idOrganizations d)" for n
    by (rule image_sql_update) simp
  then have "idUsers d' = idUsers d \<and> idMembers d' = idMembers d \<and> ogID ` set (idOrganizations d') = ogID ` set (idOrganizations d)"
    using rename_effect [OF organization_renamed(1)] by (elim disjE exE conjE) (simp_all add: update_display_name_def)
  with memberships_completeD [OF organization_renamed(2)] show ?case by (intro memberships_completeI) simp
qed

text \<open>As long as requests do not overlap, every user is a member of every Organization, and so finds every
  Organization in the list of those it may see.\<close>

theorem serial_memberships_complete:
  assumes "serial_request\<^sup>*\<^sup>* d d'" and "idOrganizations d = []"
    and "v \<in> set (idOrganizations d')" and "a \<in> set (idUsers d')"
  shows "(\<exists>m\<in>set (idMembers d'). msOrganizationID m = ogID v \<and> msUserID m = acID a)
    \<and> (\<forall>vs w. list_for_member (acID a) d' = Inr vs \<and> scan_organization v = Inr w \<longrightarrow> w \<in> set vs)"
proof -
  have "memberships_complete d" using assms(2) by (simp add: memberships_complete_def)
  with assms(1) have "memberships_complete d'"
    by (induction rule: rtranclp_induct) (auto intro: serial_request_complete)
  then have "(ogID v, acID a) \<in> member_key ` set (idMembers d')" using assms(3,4) by (simp add: memberships_complete_def)
  then have m: "\<exists>m\<in>set (idMembers d'). msOrganizationID m = ogID v \<and> msUserID m = acID a" by (auto simp: member_key_def)
  let ?os = "sort_key (\<lambda>o1. (nanos (ogCreatedAt o1), ogID o1))
      (filter (\<lambda>o1. sql_exists (\<lambda>m. msOrganizationID m = ogID o1 \<and> msUserID m = acID a) (idMembers d')) (idOrganizations d'))"
  have "v \<in> set ?os" using assms(3) m unfolding set_sort set_filter by auto
  with map_results_member [of scan_organization ?os] m show ?thesis unfolding list_for_member_def by blast
qed

text \<open>
  Two requests that overlap leave a user outside: when a user is created and added between the listing
  of the users for a new Organization and its creation, the user is in no membership of it.
\<close>

theorem overlapping_requests_leave_user_outside:
  assumes "organizations_ok d" and "create_account a d = (Inr (), d1)"
    and "add_member_to_all (acID a) clock (\<lambda>d. d) d1 = (Inr (), d2)"
    and "provision name creator uuid clock' (\<lambda>_. d2) d = (Inr (ProvisionCreated v), d3)" and "acID a \<noteq> creator"
  shows "account_to_row a \<in> set (idUsers d3) \<and> membership_of (ogID v) (acID a) d3 = Inr None"
proof -
  have d1: "d1 = d\<lparr>idUsers := idUsers d @ [account_to_row a]\<rparr>" and new: "\<forall>b\<in>set (idUsers d). acID b \<noteq> acID a"
    using assms(2) by (auto simp: create_account_def split: if_splits)
  note A = added_tables [OF assms(3)] and P = provisioned_tables [OF assms(4)]
  have u: "account_to_row a \<in> set (idUsers d3)" using P(3) A(2) d1 by simp
  have out: "acID a \<notin> acID ` set (idUsers d)" using new by (metis imageE)
  have other: "msUserID m \<noteq> acID a" if "m \<in> set (idMembers d)" for m
  proof -
    have "member_ok d m" using assms(1) that by (simp add: organizations_ok_def members_ok_def)
    then have "msUserID m \<in> acID ` set (idUsers d)" unfolding member_ok_def by blast
    then show ?thesis
    proof (rule contrapos_pn)
      assume "msUserID m = acID a"
      with out show "msUserID m \<notin> acID ` set (idUsers d)" by simp
    qed
  qed
  have "(ogID v, acID a) \<notin> member_key ` set (idMembers d)"
  proof
    assume "(ogID v, acID a) \<in> member_key ` set (idMembers d)"
    then obtain m where "m \<in> set (idMembers d)" "msUserID m = acID a" by (auto simp: member_key_def)
    with other show False by blast
  qed
  moreover have "ogID v \<notin> ogID ` set (idOrganizations d)" using P(1) A(1) d1 by simp
  moreover have "(ogID v, acID a) \<notin> (\<lambda>u. (ogID v, u)) ` (insert creator (acID ` set (idUsers d)) - {''''})"
    using assms(5) out by (simp add: image_iff)
  moreover have "(ogID v, acID a) \<notin> (\<lambda>i. (i, acID a)) ` ogID ` set (idOrganizations d1)"
    using P(1) A(1) by (simp add: image_iff)
  ultimately have none: "(ogID v, acID a) \<notin> member_key ` set (idMembers d3)" unfolding P(5) A(3) by (simp add: d1)
  have "\<forall>m\<in>set (idMembers d3). \<not> (msOrganizationID m = ogID v \<and> msUserID m = acID a)"
  proof (intro ballI notI)
    fix m assume "m \<in> set (idMembers d3)" "msOrganizationID m = ogID v \<and> msUserID m = acID a"
    then have "member_key m = (ogID v, acID a)" "member_key m \<in> member_key ` set (idMembers d3)"
      by (simp add: member_key_def, blast)
    with none show False by simp
  qed
  then have "find (\<lambda>m. msOrganizationID m = ogID v \<and> msUserID m = acID a) (idMembers d3) = None" by (simp add: find_None_iff)
  with u show ?thesis by (simp add: membership_of_def find_membership_def)
qed

section \<open>Witnesses\<close>

abbreviation sample_instant :: go_time where "sample_instant \<equiv> \<lparr>nanos = 1700000000000000000, zone = UTC\<rparr>"

definition other_account :: account where
  "other_account = (sample_account ''$h'')\<lparr>acID := ''u2'', acEmail := ''c@d''\<rparr>"

definition default_organization :: organization where
  "default_organization = \<lparr>ogID = ''o1'', ogDisplayName = BootstrapDisplayName, ogCreatedAt = sample_instant\<rparr>"

definition default_member :: "string \<Rightarrow> membership" where
  "default_member u = \<lparr>msOrganizationID = ''o1'', msUserID = u, msRole = RoleAdministrator, msCreatedAt = sample_instant\<rparr>"

lemma sample_instant_valid: "is_utc sample_instant" "to_utc sample_instant = sample_instant"
  "db_instant sample_instant = sample_instant" "\<not> is_zero sample_instant"
  by code_simp+

lemma default_name: "normalize_label BootstrapDisplayName = Some BootstrapDisplayName" "pg_text BootstrapDisplayName"
proof -
  show "normalize_label BootstrapDisplayName = Some BootstrapDisplayName"
    by (rule normalize_label_plain) (simp_all add: BootstrapDisplayName_def byte_def is_space_def)
  show "pg_text BootstrapDisplayName" by (rule pg_text_ascii) (simp add: BootstrapDisplayName_def byte_def)
qed

lemma default_new:
  "new_organization ''o1'' BootstrapDisplayName sample_instant = Inr default_organization"
  "memberships_for_new_organization ''o1'' ''u1'' sample_instant [''u1''] = Inr [default_member ''u1'']"
  "new_membership ''o1'' ''u2'' RoleAdministrator sample_instant = Inr (default_member ''u2'')"
  using sample_instant_valid default_name
  by (simp_all add: new_organization_Inr default_organization_def memberships_for_new_organization_def new_membership_def
      valid_role_def BuiltInRoles_def default_member_def)

definition provisioned_identity :: identity_db where
  "provisioned_identity = (sample_identity ''$h'')\<lparr>idOrganizations := [default_organization], idMembers := [default_member ''u1'']\<rparr>"

lemma default_rows: "organization_to_row default_organization = default_organization"
  "(default_member u)\<lparr>msCreatedAt := db_instant (msCreatedAt (default_member u))\<rparr> = default_member u"
  using sample_instant_valid by (simp_all add: organization_to_row_def default_organization_def default_member_def)

lemma default_created:
  assumes "idUsers d = idUsers (sample_identity ''$h'') @ us" and "idOrganizations d = []" and "idMembers d = []"
  shows "create_organization default_organization [default_member ''u1''] d
    = (Inr (), d\<lparr>idOrganizations := [default_organization], idMembers := [default_member ''u1'']\<rparr>)"
proof -
  let ?e = "d\<lparr>idOrganizations := [default_organization]\<rparr>"
  have "insert_membership (default_member ''u1'') ?e = Inr (?e\<lparr>idMembers := [default_member ''u1'']\<rparr>)"
    using assms sample_instant_valid
    by (simp add: insert_membership_def sample_identity_def sample_account_def default_member_def default_organization_def)
  moreover have "pg_text (ogDisplayName default_organization)" using default_name by (simp add: default_organization_def)
  ultimately show ?thesis
    using assms(2) by (simp add: create_organization_def identity_tx_def create_organization_tx_def default_rows)
qed

lemma default_provisioned:
  assumes "idUsers d = idUsers (sample_identity ''$h'') @ us" and "idOrganizations d = []" and "idMembers d = []"
  shows "provision BootstrapDisplayName ''u1'' (Inr ''o1'') sample_instant (\<lambda>_. d) (sample_identity ''$h'')
    = (Inr (ProvisionCreated default_organization), d\<lparr>idOrganizations := [default_organization], idMembers := [default_member ''u1'']\<rparr>)"
proof -
  have "list_user_ids (sample_identity ''$h'') = [''u1'']" by (simp add: list_user_ids_def sample_identity_def sample_account_def)
  moreover have "ogID default_organization = ''o1''" by (simp add: default_organization_def)
  ultimately show ?thesis
    by (simp add: provision_def default_new default_created [OF assms] default_name sample_instant_valid(2))
qed

lemma sample_without: "idOrganizations (sample_identity h) = []" "idMembers (sample_identity h) = []"
  by (simp_all add: sample_identity_def empty_identity_def)

theorem organizations_have_members_witness:
  "membership_of ''o1'' ''u1'' provisioned_identity = Inr (Some (default_member ''u1''))"
proof -
  let ?w = "\<lparr>owDb = sample_identity ''$h'', owPending = []\<rparr>"
  let ?v = "WriteOrganization default_organization [default_member ''u1'']"
  have "memberships_for_new_organization ''o1'' ''u1'' sample_instant (list_user_ids (owDb ?w)) = Inr [default_member ''u1'']"
    using default_new by (simp add: list_user_ids_def sample_identity_def sample_account_def)
  then have "org_step (\<lambda>r. r) ?w (?w\<lparr>owPending := [?v]\<rparr>)"
    using org_step.provisioning [OF _ _ default_new(1), of "''u1''" ?w "[default_member ''u1'']"] sample_instant_valid by simp
  moreover have "org_step (\<lambda>r. r) (?w\<lparr>owPending := [?v]\<rparr>) \<lparr>owDb = provisioned_identity, owPending = []\<rparr>"
    using org_step.provisioned [of default_organization "[default_member ''u1'']" "?w\<lparr>owPending := [?v]\<rparr>"]
      default_created [of "sample_identity ''$h''" "[]"]
    by (simp add: sample_without provisioned_identity_def)
  ultimately have steps: "(org_step (\<lambda>r. r))\<^sup>*\<^sup>* ?w \<lparr>owDb = provisioned_identity, owPending = []\<rparr>"
    by (meson r_into_rtranclp rtranclp.rtrancl_into_rtrancl)
  have "default_member ''u1'' \<in> set (idMembers provisioned_identity)" by (simp add: provisioned_identity_def)
  with organizations_have_members [OF steps] show ?thesis by (auto simp: sample_without default_member_def)
qed

theorem serial_memberships_complete_witness:
  "serial_request (sample_identity ''$h'') provisioned_identity
     \<and> (\<exists>m\<in>set (idMembers provisioned_identity). msOrganizationID m = ''o1'' \<and> msUserID m = ''u1'')"
proof -
  have "provision BootstrapDisplayName ''u1'' (Inr ''o1'') sample_instant (\<lambda>d. d) (sample_identity ''$h'')
      = provision BootstrapDisplayName ''u1'' (Inr ''o1'') sample_instant (\<lambda>_. sample_identity ''$h'') (sample_identity ''$h'')"
    by (simp only: provision_def)
  also have "\<dots> = (Inr (ProvisionCreated default_organization), provisioned_identity)"
    using default_provisioned [of "sample_identity ''$h''" "[]"] by (simp add: sample_without provisioned_identity_def)
  finally have "serial_request (sample_identity ''$h'') provisioned_identity"
    by (intro organization_provisioned) (simp_all add: sample_identity_def sample_account_def)
  moreover have v: "default_organization \<in> set (idOrganizations provisioned_identity)"
    "sample_account ''$h'' \<in> set (idUsers provisioned_identity)" by (simp_all add: provisioned_identity_def sample_identity_def)
  ultimately show ?thesis
    using serial_memberships_complete [OF r_into_rtranclp _ v] by (auto simp: sample_without default_organization_def sample_account_def)
qed

theorem overlapping_requests_leave_user_outside_witness:
  "\<exists>d1 d2 d3. create_account other_account (sample_identity ''$h'') = (Inr (), d1)
     \<and> add_member_to_all ''u2'' sample_instant (\<lambda>d. d) d1 = (Inr (), d2)
     \<and> provision BootstrapDisplayName ''u1'' (Inr ''o1'') sample_instant (\<lambda>_. d2) (sample_identity ''$h'')
         = (Inr (ProvisionCreated default_organization), d3)
     \<and> membership_of ''o1'' ''u2'' d3 = Inr None"
proof -
  let ?d = "sample_identity ''$h''"
  let ?d1 = "?d\<lparr>idUsers := idUsers ?d @ [account_to_row other_account]\<rparr>"
  have id: "acID other_account = ''u2''" "acEmail other_account = ''c@d''" by (simp_all add: other_account_def)
  have "pg_text ''c@d''" by (rule pg_text_ascii) (simp add: byte_def)
  then have c: "create_account other_account ?d = (Inr (), ?d1)"
    using sample_text(2) sample_email(3) id
    by (simp add: create_account_def account_row_ok_def) (simp add: other_account_def sample_identity_def sample_account_def)
  have a: "add_member_to_all (acID other_account) sample_instant (\<lambda>d. d) ?d1 = (Inr (), ?d1)"
    using id by (simp add: add_member_to_all_def memberships_of_new_member_def list_organization_ids_def sample_without create_memberships_def)
  have p: "provision BootstrapDisplayName ''u1'' (Inr ''o1'') sample_instant (\<lambda>_. ?d1) ?d
      = (Inr (ProvisionCreated default_organization), ?d1\<lparr>idOrganizations := [default_organization], idMembers := [default_member ''u1'']\<rparr>)"
    by (rule default_provisioned [where us = "[account_to_row other_account]"]) (simp_all add: sample_without)
  have ok: "organizations_ok ?d" by (simp add: organizations_ok_def members_ok_def sample_without)
  from overlapping_requests_leave_user_outside [OF ok c a p] c a p id show ?thesis
    by (simp add: default_organization_def)
qed

end
