(* ===== verification/Sessions.thy ===== *)
theory Sessions
  imports Organizations
begin

text \<open>
  Browser sessions and antiforgery tokens: \<open>internal/user/security_store.go\<close>, the session and
  antiforgery stores of \<open>internal/postgres/user.go\<close>, and the tokens of \<open>internal/httpapi/security.go\<close>.
  SHA-256 and HMAC-SHA-256 are parameters that return 32 bytes. The lemmas show that the tables keep
  their keys and references, that a session ends exactly twelve hours after the login, and that an
  anonymous token is accepted for twelve hours by whoever shares the key.
\<close>

section \<open>Digests\<close>

typedef hash_function = "{f :: string \<Rightarrow> string. \<forall>x. length (f x) = 32}"
  by (rule exI [of _ "\<lambda>_. replicate 32 (CHR 0x00)"]) simp

setup_lifting type_definition_hash_function

definition digest :: "hash_function \<Rightarrow> string \<Rightarrow> string" where "digest h = Rep_hash_function h"

text \<open>A hash function that maps everything to one digest, for the witnesses.\<close>

definition one_digest :: hash_function where "one_digest = Abs_hash_function (\<lambda>_. replicate 32 (CHR 0x01))"

lemma digest_one [simp]: "digest one_digest x = replicate 32 (CHR 0x01)"
  by (simp add: digest_def one_digest_def Abs_hash_function_inverse)

lemma length_digest [simp]: "length (digest h x) = 32"
  using Rep_hash_function [of h] by (simp add: digest_def)

text \<open>The zero value of \<open>TokenHash\<close>.\<close>

definition no_hash :: string where "no_hash = replicate 32 (CHR 0x00)"

section \<open>Sessions\<close>

definition SessionLifetime :: duration where "SessionLifetime = 12 * hour"

definition restore_session :: "string \<Rightarrow> string \<Rightarrow> go_time \<Rightarrow> go_time \<Rightarrow> session result" where
  "restore_session h u authenticated_at expires_at =
     (if h = no_hash then Inl (ErrText ''a session requires a token hash'')
      else if u = '''' then Inl (ErrText ''a session requires a user id'')
      else if \<not> is_utc authenticated_at \<or> \<not> is_utc expires_at then Inl (ErrText ''persisted timestamps must be UTC'')
      else if \<not> time_equal expires_at (time_add authenticated_at SessionLifetime) then
        Inl (ErrText ''a session requires a fixed 12-hour lifetime'')
      else Inr \<lparr>snTokenHash = h, snUserID = u, snAuthenticatedAt = authenticated_at, snExpiresAt = expires_at\<rparr>)"

definition new_session :: "string \<Rightarrow> string \<Rightarrow> go_time \<Rightarrow> session result" where
  "new_session h u authenticated_at = restore_session h u authenticated_at (time_add authenticated_at SessionLifetime)"

definition session_expired :: "session \<Rightarrow> go_time \<Rightarrow> bool" where
  "session_expired s now \<longleftrightarrow> \<not> before now (snExpiresAt s)"

definition new_session_antiforgery :: "string \<Rightarrow> string \<Rightarrow> string \<Rightarrow> go_time \<Rightarrow> antiforgery result" where
  "new_session_antiforgery selector request binding expires_at =
     (if selector = no_hash \<or> request = no_hash then
        Inl (ErrText ''antiforgery state requires selector and request-token hashes'')
      else if binding = no_hash then Inl (ErrText ''authenticated antiforgery state requires a session-token hash'')
      else if \<not> is_utc expires_at then Inl (ErrText ''persisted timestamps must be UTC'')
      else Inr \<lparr>afSelectorHash = selector, afRequestTokenHash = request, afSessionTokenHash = binding, afExpiresAt = expires_at\<rparr>)"

definition antiforgery_expired :: "antiforgery \<Rightarrow> go_time \<Rightarrow> bool" where
  "antiforgery_expired t now \<longleftrightarrow> \<not> before now (afExpiresAt t)"

section \<open>The store\<close>

definition restore_token_hash :: "string \<Rightarrow> string result" where
  "restore_token_hash v = (if length v \<noteq> 32 then Inl (ErrText ''expected 32 bytes'') else Inr v)"

text \<open>\<open>fmt.Errorf\<close> with the operation before the error.\<close>

definition wrap_error :: "string \<Rightarrow> 'a result \<Rightarrow> 'a result" where
  "wrap_error what r = (case r of Inl e \<Rightarrow> Inl (Wrapped what e) | Inr v \<Rightarrow> Inr v)"

lemma wrap_error_simps [simp]: "wrap_error what (Inr v) = Inr v" "wrap_error what (Inl e) = Inl (Wrapped what e)"
  by (simp_all add: wrap_error_def)

text \<open>Deleting sessions deletes their antiforgery tokens, by the foreign key.\<close>

definition delete_sessions :: "(session \<Rightarrow> bool) \<Rightarrow> identity_db \<Rightarrow> identity_db" where
  "delete_sessions p d = d\<lparr>idSessions := sql_delete p (idSessions d),
     idAntiforgery := sql_delete (\<lambda>t. sql_exists (\<lambda>s. p s \<and> snTokenHash s = afSessionTokenHash t) (idSessions d)) (idAntiforgery d)\<rparr>"

definition session_to_row :: "session \<Rightarrow> session" where
  "session_to_row s = s\<lparr>snAuthenticatedAt := db_instant (snAuthenticatedAt s), snExpiresAt := db_instant (snExpiresAt s)\<rparr>"

definition insert_session_tx :: "session \<Rightarrow> identity_db \<Rightarrow> identity_db result" where
  "insert_session_tx s d =
     (let d1 = delete_sessions (\<lambda>x. nanos (snExpiresAt x) \<le> nanos (db_instant (snAuthenticatedAt s))) d;
        row = session_to_row s
      in if sql_exists (\<lambda>x. snTokenHash x = snTokenHash s) (idSessions d1) \<or> \<not> sql_exists (\<lambda>a. acID a = snUserID s) (idUsers d1)
           \<or> length (snTokenHash s) \<noteq> 32 \<or> \<not> before (snAuthenticatedAt row) (snExpiresAt row)
         then Inl (ErrText ''insert session'')
         else Inr (d1\<lparr>idSessions := idSessions d1 @ [row]\<rparr>))"

definition insert_session :: "session \<Rightarrow> identity_db \<Rightarrow> unit result \<times> identity_db" where
  "insert_session s d = identity_tx (insert_session_tx s) d"

definition find_session :: "string \<Rightarrow> identity_db \<Rightarrow> session option result" where
  "find_session h d =
     (case find (\<lambda>s. snTokenHash s = h) (idSessions d) of
        None \<Rightarrow> Inr None
      | Some s \<Rightarrow>
          (case restore_token_hash (snTokenHash s) of
             Inl e \<Rightarrow> Inl (Wrapped ''restore session token hash'' e)
           | Inr v \<Rightarrow>
               (case restore_session v (snUserID s) (to_utc (snAuthenticatedAt s)) (to_utc (snExpiresAt s)) of
                  Inl e \<Rightarrow> Inl (Wrapped ''restore session'' e) | Inr x \<Rightarrow> Inr (Some x))))"

definition delete_session :: "string \<Rightarrow> identity_db \<Rightarrow> identity_db" where
  "delete_session h d = delete_sessions (\<lambda>s. snTokenHash s = h) d"

definition find_anonymous_key :: "identity_db \<Rightarrow> string option result" where
  "find_anonymous_key d =
     (case idAnonymousKey d of
        None \<Rightarrow> Inr None
      | Some k \<Rightarrow>
          (case restore_token_hash k of
             Inl e \<Rightarrow> Inl (Wrapped ''restore anonymous antiforgery key'' e) | Inr v \<Rightarrow> Inr (Some v)))"

definition get_or_create_anonymous_key :: "string \<Rightarrow> identity_db \<Rightarrow> string result \<times> identity_db" where
  "get_or_create_anonymous_key candidate d =
     (if idAnonymousKey d = None \<and> length candidate \<noteq> 32 then (Inl (ErrText ''initialize anonymous antiforgery key''), d)
      else let d' = (if idAnonymousKey d = None then d\<lparr>idAnonymousKey := Some candidate\<rparr> else d)
        in case find_anonymous_key d' of
             Inl e \<Rightarrow> (Inl e, d')
           | Inr None \<Rightarrow> (Inl (ErrText ''anonymous antiforgery key was not initialized''), d')
           | Inr (Some k) \<Rightarrow> (Inr k, d'))"

text \<open>The unique keys are the selector, the request token and the session; the last one is updated on conflict.\<close>

definition antiforgery_to_row :: "antiforgery \<Rightarrow> antiforgery" where
  "antiforgery_to_row t = t\<lparr>afExpiresAt := db_instant (afExpiresAt t)\<rparr>"

definition create_session_antiforgery :: "antiforgery \<Rightarrow> identity_db \<Rightarrow> unit result \<times> identity_db" where
  "create_session_antiforgery t d =
     (let row = antiforgery_to_row t; same = (\<lambda>x. afSessionTokenHash x = afSessionTokenHash t) in
      if sql_exists (\<lambda>x. \<not> same x \<and> (afSelectorHash x = afSelectorHash t \<or> afRequestTokenHash x = afRequestTokenHash t)) (idAntiforgery d)
        \<or> \<not> sql_exists (\<lambda>s. snTokenHash s = afSessionTokenHash t) (idSessions d)
        \<or> length (afSelectorHash t) \<noteq> 32 \<or> length (afRequestTokenHash t) \<noteq> 32
      then (Inl (ErrText ''insert antiforgery state''), d)
      else if sql_exists same (idAntiforgery d) then (Inr (), d\<lparr>idAntiforgery := sql_update same (\<lambda>_. row) (idAntiforgery d)\<rparr>)
      else (Inr (), d\<lparr>idAntiforgery := idAntiforgery d @ [row]\<rparr>))"

definition find_session_antiforgery :: "string \<Rightarrow> identity_db \<Rightarrow> antiforgery option result" where
  "find_session_antiforgery selector d =
     (case find (\<lambda>t. afSelectorHash t = selector) (idAntiforgery d) of
        None \<Rightarrow> Inr None
      | Some t \<Rightarrow>
          and_then (wrap_error ''restore antiforgery selector hash'' (restore_token_hash (afSelectorHash t))) (\<lambda>s.
          and_then (wrap_error ''restore antiforgery request hash'' (restore_token_hash (afRequestTokenHash t))) (\<lambda>r.
          and_then (wrap_error ''restore antiforgery session hash'' (restore_token_hash (afSessionTokenHash t))) (\<lambda>b.
            case new_session_antiforgery s r b (to_utc (afExpiresAt t)) of
              Inl e \<Rightarrow> Inl (Wrapped ''restore session antiforgery state'' e) | Inr v \<Rightarrow> Inr (Some v)))))"

definition delete_session_antiforgery :: "string \<Rightarrow> identity_db \<Rightarrow> identity_db" where
  "delete_session_antiforgery selector d = d\<lparr>idAntiforgery := sql_delete (\<lambda>t. afSelectorHash t = selector) (idAntiforgery d)\<rparr>"

section \<open>Tokens\<close>

definition tokenBytes :: nat where "tokenBytes = 32"
definition anonymousTimestampBytes :: nat where "anonymousTimestampBytes = 8"
definition anonymousClockSkew :: duration where "anonymousClockSkew = minute"
definition anonymousMACPurpose :: string where
  "anonymousMACPurpose = ''probehive/anonymous-antiforgery/v1'' @ [CHR 0x00]"

definition decode_opaque_token :: "string \<Rightarrow> string option" where
  "decode_opaque_token encoded =
     (case raw_decode True False encoded of
        None \<Rightarrow> None
      | Some raw \<Rightarrow> if length raw \<noteq> tokenBytes \<or> raw_encode True raw \<noteq> encoded then None else Some raw)"

text \<open>A source of random bytes is an error or the bytes it will yield.\<close>

definition new_opaque_token :: "(nat \<Rightarrow> char) result \<Rightarrow> (string \<times> string) result" where
  "new_opaque_token random =
     and_then random (\<lambda>bytes. let raw = map bytes [0..<tokenBytes] in Inr (raw, raw_encode True raw))"

text \<open>\<open>Time.UnixNano\<close> wraps around outside the years 1678 to 2262; \<open>time.Unix(0, n)\<close>.\<close>

definition unix_nano :: "go_time \<Rightarrow> 64 word" where
  "unix_nano t = word_of_int (nanos t)"

definition time_of_unix_nano :: "64 word \<Rightarrow> go_time" where
  "time_of_unix_nano n = \<lparr>nanos = sint n, zone = UTC\<rparr>"

text \<open>\<open>binary.BigEndian\<close>.\<close>

definition put_uint64 :: "64 word \<Rightarrow> string" where
  "put_uint64 n = map (\<lambda>k. char_at (uint n div 256 ^ k mod 256)) (rev [0..<8])"

definition get_uint64 :: "string \<Rightarrow> 64 word" where
  "get_uint64 bs = word_of_int (foldl (\<lambda>n c. n * 256 + byte c) 0 bs)"

text \<open>\<open>hmac.New(sha256.New, key)\<close> is a parameter.\<close>

definition anonymous_antiforgery_mac :: "(string \<Rightarrow> hash_function) \<Rightarrow> string \<Rightarrow> string \<Rightarrow> string" where
  "anonymous_antiforgery_mac mac key selector = digest (mac key) (anonymousMACPurpose @ selector)"

definition new_anonymous_antiforgery ::
  "(string \<Rightarrow> hash_function) \<Rightarrow> (nat \<Rightarrow> char) result \<Rightarrow> (nat \<Rightarrow> char) result \<Rightarrow> go_time \<Rightarrow> identity_db \<Rightarrow>
     (string \<times> string \<times> string) result \<times> identity_db" where
  "new_anonymous_antiforgery mac random random' issued_at d =
     (case random of
        Inl e \<Rightarrow> (Inl e, d)
      | Inr bytes \<Rightarrow>
          (case get_or_create_anonymous_key (map bytes [0..<32]) d of
             (Inl e, d') \<Rightarrow> (Inl e, d')
           | (Inr key, d') \<Rightarrow>
               let timestamp = unix_nano issued_at in
               if \<not> time_equal (time_of_unix_nano timestamp) issued_at then
                 (Inl (ErrText ''anonymous antiforgery issuance time is outside the encoded range''), d')
               else case random' of
                 Inl e \<Rightarrow> (Inl e, d')
               | Inr bytes' \<Rightarrow>
                   let selector = put_uint64 timestamp @ map bytes' [0..<tokenBytes - anonymousTimestampBytes]
                   in (Inr (selector, raw_encode True selector, raw_encode True (anonymous_antiforgery_mac mac key selector)), d')))"

definition valid_anonymous_antiforgery :: "(string \<Rightarrow> hash_function) \<Rightarrow> string \<Rightarrow> string \<Rightarrow> string \<Rightarrow> go_time \<Rightarrow> bool" where
  "valid_anonymous_antiforgery mac key selector request now =
     (if length selector \<noteq> tokenBytes \<or> length request \<noteq> 32 then False
      else if request \<noteq> anonymous_antiforgery_mac mac key selector then False
      else let issued_at = time_of_unix_nano (get_uint64 (take anonymousTimestampBytes selector))
        in if after issued_at (time_add now anonymousClockSkew) then False
           else before now (time_add issued_at SessionLifetime))"

section \<open>Invariants of the tables\<close>

definition session_ok :: "identity_db \<Rightarrow> session \<Rightarrow> bool" where
  "session_ok d s \<longleftrightarrow> snUserID s \<in> acID ` set (idUsers d) \<and> length (snTokenHash s) = 32
     \<and> restore_session (snTokenHash s) (snUserID s) (snAuthenticatedAt s) (snExpiresAt s) = Inr s
     \<and> is_db_instant (snAuthenticatedAt s) \<and> is_db_instant (snExpiresAt s)"

definition token_ok :: "identity_db \<Rightarrow> antiforgery \<Rightarrow> bool" where
  "token_ok d t \<longleftrightarrow> afSessionTokenHash t \<in> snTokenHash ` set (idSessions d)
     \<and> length (afSelectorHash t) = 32 \<and> length (afRequestTokenHash t) = 32 \<and> length (afSessionTokenHash t) = 32
     \<and> new_session_antiforgery (afSelectorHash t) (afRequestTokenHash t) (afSessionTokenHash t) (afExpiresAt t) = Inr t
     \<and> is_db_instant (afExpiresAt t)"

definition sessions_ok :: "identity_db \<Rightarrow> bool" where
  "sessions_ok d \<longleftrightarrow> unique_on (\<lambda>s. Some (snTokenHash s)) (idSessions d) \<and> (\<forall>s\<in>set (idSessions d). session_ok d s)
     \<and> unique_on (\<lambda>t. Some (afSelectorHash t)) (idAntiforgery d)
     \<and> unique_on (\<lambda>t. Some (afRequestTokenHash t)) (idAntiforgery d)
     \<and> unique_on (\<lambda>t. Some (afSessionTokenHash t)) (idAntiforgery d)
     \<and> (\<forall>t\<in>set (idAntiforgery d). token_ok d t)"

text \<open>The writes of requests, with values the domain has accepted; users and Organizations come and stay.\<close>

inductive session_write :: "identity_db \<Rightarrow> identity_db \<Rightarrow> bool" where
  opened: "new_session h u t = Inr s \<Longrightarrow> \<not> is_zero (db_instant t) \<Longrightarrow> \<not> is_zero (db_instant (time_add t SessionLifetime)) \<Longrightarrow>
     session_write d (snd (insert_session s d))"
| closed: "session_write d (delete_session h d)"
| protected: "new_session_antiforgery selector request binding t = Inr v \<Longrightarrow> \<not> is_zero (db_instant t) \<Longrightarrow>
     session_write d (snd (create_session_antiforgery v d))"
| rotated: "session_write d (delete_session_antiforgery selector d)"
| keyed: "session_write d (snd (get_or_create_anonymous_key candidate d))"
| elsewhere: "acID ` set (idUsers d) \<subseteq> acID ` set (idUsers d') \<Longrightarrow> idSessions d' = idSessions d \<Longrightarrow>
     idAntiforgery d' = idAntiforgery d \<Longrightarrow> session_write d d'"

lemma restore_session_Inr: "restore_session h u t e = Inr s \<longleftrightarrow>
    s = \<lparr>snTokenHash = h, snUserID = u, snAuthenticatedAt = t, snExpiresAt = e\<rparr> \<and> h \<noteq> no_hash \<and> u \<noteq> '''' \<and> is_utc t \<and> is_utc e
      \<and> nanos e = nanos t + SessionLifetime"
  by (auto simp: restore_session_def time_equal_def)

lemma new_session_antiforgery_Inr: "new_session_antiforgery s r b t = Inr v \<longleftrightarrow>
    v = \<lparr>afSelectorHash = s, afRequestTokenHash = r, afSessionTokenHash = b, afExpiresAt = t\<rparr> \<and> s \<noteq> no_hash \<and> r \<noteq> no_hash \<and> b \<noteq> no_hash \<and> is_utc t"
  by (auto simp: new_session_antiforgery_def)

lemma lifetime_microseconds: "(n + SessionLifetime) div 1000 * 1000 = n div 1000 * 1000 + SessionLifetime"
proof -
  have l: "SessionLifetime = 43200000000 * 1000" by (simp add: SessionLifetime_def duration_defs)
  show ?thesis unfolding l div_mult_self1 [OF zero_neq_numeral [symmetric]] by (simp add: algebra_simps)
qed

text \<open>The columns drop nanoseconds, and the lifetime stays twelve hours.\<close>

lemma session_row_restores:
  assumes "new_session h u t = Inr s" and "\<not> is_zero (db_instant t)" and "\<not> is_zero (db_instant (time_add t SessionLifetime))"
  shows "restore_session h u (snAuthenticatedAt (session_to_row s)) (snExpiresAt (session_to_row s)) = Inr (session_to_row s)"
    "snTokenHash s = h" "snUserID s = u" "snExpiresAt (session_to_row s) = time_add (db_instant t) SessionLifetime"
proof -
  have s: "s = \<lparr>snTokenHash = h, snUserID = u, snAuthenticatedAt = t, snExpiresAt = time_add t SessionLifetime\<rparr>"
    "h \<noteq> no_hash" "u \<noteq> ''''"
    using assms(1) by (auto simp: new_session_def restore_session_Inr)
  show "snTokenHash s = h" "snUserID s = u" by (simp_all add: s(1))
  have e: "db_instant (time_add t SessionLifetime) = time_add (db_instant t) SessionLifetime"
    by (simp add: db_instant_def time_add_def lifetime_microseconds)
  then show "snExpiresAt (session_to_row s) = time_add (db_instant t) SessionLifetime"
    by (simp add: session_to_row_def s(1))
  show "restore_session h u (snAuthenticatedAt (session_to_row s)) (snExpiresAt (session_to_row s)) = Inr (session_to_row s)"
    using s assms(2,3) e by (simp add: restore_session_Inr session_to_row_def is_utc_def)
qed

lemma delete_sessions_ok:
  assumes "sessions_ok d"
  shows "sessions_ok (delete_sessions p d)"
proof -
  have "token_ok (delete_sessions p d) t" if t: "t \<in> set (idAntiforgery (delete_sessions p d))" for t
  proof -
    have "t \<in> set (idAntiforgery d)" and n: "\<forall>s\<in>set (idSessions d). p s \<longrightarrow> snTokenHash s \<noteq> afSessionTokenHash t"
      using t by (auto simp: delete_sessions_def)
    then have ok: "token_ok d t" using assms by (simp add: sessions_ok_def)
    then obtain s where "s \<in> set (idSessions d)" "snTokenHash s = afSessionTokenHash t" by (auto simp: token_ok_def)
    moreover from this n have "\<not> p s" by blast
    ultimately have "snTokenHash s \<in> snTokenHash ` set (idSessions (delete_sessions p d))"
      by (intro imageI) (simp add: delete_sessions_def)
    with \<open>snTokenHash s = afSessionTokenHash t\<close> ok show ?thesis by (simp add: token_ok_def)
  qed
  moreover have "session_ok (delete_sessions p d) s \<longleftrightarrow> session_ok d s" for s by (simp add: session_ok_def delete_sessions_def)
  ultimately show ?thesis using assms
    by (auto simp: sessions_ok_def delete_sessions_def unique_on_sql_delete)
qed

lemma token_ok_grow: "token_ok d t \<Longrightarrow> snTokenHash ` set (idSessions d) \<subseteq> snTokenHash ` set (idSessions d') \<Longrightarrow> token_ok d' t"
  by (auto simp: token_ok_def)

lemma insert_session_Inr:
  assumes "insert_session s d = (Inr (), d')"
  defines "d1 \<equiv> delete_sessions (\<lambda>x. nanos (snExpiresAt x) \<le> nanos (db_instant (snAuthenticatedAt s))) d"
  shows "d' = d1\<lparr>idSessions := idSessions d1 @ [session_to_row s]\<rparr>" "\<forall>x\<in>set (idSessions d1). snTokenHash x \<noteq> snTokenHash s"
    "snUserID s \<in> acID ` set (idUsers d)" "length (snTokenHash s) = 32"
proof -
  have "d' = d1\<lparr>idSessions := idSessions d1 @ [session_to_row s]\<rparr> \<and> (\<forall>x\<in>set (idSessions d1). snTokenHash x \<noteq> snTokenHash s)
    \<and> (\<exists>a\<in>set (idUsers d1). acID a = snUserID s) \<and> length (snTokenHash s) = 32"
    using assms(1) unfolding d1_def
    by (simp add: insert_session_def identity_tx_def insert_session_tx_def Let_def split: if_splits sum.splits)
  moreover have "idUsers d1 = idUsers d" by (simp add: d1_def delete_sessions_def)
  ultimately show "d' = d1\<lparr>idSessions := idSessions d1 @ [session_to_row s]\<rparr>" "\<forall>x\<in>set (idSessions d1). snTokenHash x \<noteq> snTokenHash s"
    "snUserID s \<in> acID ` set (idUsers d)" "length (snTokenHash s) = 32"
    by (blast, blast, metis image_eqI, blast)
qed

lemma insert_session_ok:
  assumes "sessions_ok d" and "new_session h u t = Inr s" and "\<not> is_zero (db_instant t)"
    and "\<not> is_zero (db_instant (time_add t SessionLifetime))" and "insert_session s d = (Inr (), d')"
  shows "sessions_ok d'"
proof -
  let ?d1 = "delete_sessions (\<lambda>x. nanos (snExpiresAt x) \<le> nanos (db_instant (snAuthenticatedAt s))) d"
  note I = insert_session_Inr [OF assms(5)] and R = session_row_restores [OF assms(2-4)]
  have ok: "sessions_ok ?d1" using assms(1) by (rule delete_sessions_ok)
  have users: "idUsers d' = idUsers d" "idUsers ?d1 = idUsers d" by (simp_all add: I(1) delete_sessions_def)
  have hash: "snTokenHash (session_to_row s) = snTokenHash s" "snUserID (session_to_row s) = snUserID s" by (simp_all add: session_to_row_def)
  have "is_db_instant (snAuthenticatedAt (session_to_row s))" "is_db_instant (snExpiresAt (session_to_row s))"
    by (simp_all add: session_to_row_def)
  then have "session_ok d' (session_to_row s)" using R(1-3) I(3,4) users hash by (simp add: session_ok_def)
  moreover have "session_ok d' x" if "x \<in> set (idSessions ?d1)" for x
    using ok that users by (auto simp: sessions_ok_def session_ok_def)
  moreover have "token_ok d' x" if "x \<in> set (idAntiforgery ?d1)" for x
    by (rule token_ok_grow [of ?d1]) (use ok that I(1) in \<open>auto simp: sessions_ok_def\<close>)
  moreover have "unique_on (\<lambda>s. Some (snTokenHash s)) (idSessions ?d1 @ [session_to_row s])"
    using ok I(2) hash by (simp add: sessions_ok_def unique_on_append)
  ultimately show ?thesis using ok I(1) by (auto simp: sessions_ok_def)
qed

lemma create_session_antiforgery_ok:
  assumes "sessions_ok d" and "new_session_antiforgery selector request binding t = Inr v" and "\<not> is_zero (db_instant t)"
  shows "sessions_ok (snd (create_session_antiforgery v d))"
proof -
  let ?row = "antiforgery_to_row v" and ?same = "\<lambda>x. afSessionTokenHash x = afSessionTokenHash v"
  have keys: "afSelectorHash ?row = afSelectorHash v" "afRequestTokenHash ?row = afRequestTokenHash v"
    "afSessionTokenHash ?row = afSessionTokenHash v" by (simp_all add: antiforgery_to_row_def)
  have row: "token_ok d ?row" if p: "\<exists>s\<in>set (idSessions d). snTokenHash s = afSessionTokenHash v"
    "length (afSelectorHash v) = 32" "length (afRequestTokenHash v) = 32"
  proof -
    from p(1) obtain s where s: "s \<in> set (idSessions d)" "snTokenHash s = afSessionTokenHash v" by blast
    then have "length (afSessionTokenHash v) = 32" using assms(1) by (auto simp: sessions_ok_def session_ok_def)
    moreover have "afSessionTokenHash v \<in> snTokenHash ` set (idSessions d)" using s by (metis image_eqI)
    ultimately show ?thesis using assms(2,3) p(2,3)
      by (auto simp: token_ok_def new_session_antiforgery_Inr antiforgery_to_row_def is_utc_def)
  qed
  consider "snd (create_session_antiforgery v d) = d"
    | (upd) "snd (create_session_antiforgery v d) = d\<lparr>idAntiforgery := sql_update ?same (\<lambda>_. ?row) (idAntiforgery d)\<rparr>" "token_ok d ?row"
        "\<forall>x\<in>set (idAntiforgery d). ?same x \<or> afSelectorHash x \<noteq> afSelectorHash v \<and> afRequestTokenHash x \<noteq> afRequestTokenHash v"
    | (ins) "snd (create_session_antiforgery v d) = d\<lparr>idAntiforgery := idAntiforgery d @ [?row]\<rparr>" "token_ok d ?row"
        "\<forall>x\<in>set (idAntiforgery d). \<not> ?same x \<and> afSelectorHash x \<noteq> afSelectorHash v \<and> afRequestTokenHash x \<noteq> afRequestTokenHash v"
  proof (cases "snd (create_session_antiforgery v d) = d")
    case False
    let ?bad = "sql_exists (\<lambda>x. \<not> ?same x \<and> (afSelectorHash x = afSelectorHash v \<or> afRequestTokenHash x = afRequestTokenHash v)) (idAntiforgery d)
        \<or> \<not> sql_exists (\<lambda>s. snTokenHash s = afSessionTokenHash v) (idSessions d)
        \<or> length (afSelectorHash v) \<noteq> 32 \<or> length (afRequestTokenHash v) \<noteq> 32"
    have "\<not> ?bad"
    proof
      assume b: ?bad
      have "snd (create_session_antiforgery v d) = d" unfolding create_session_antiforgery_def Let_def if_P [OF b] by simp
      with False show False by simp
    qed
    then have c: "\<not> sql_exists (\<lambda>x. \<not> ?same x \<and> (afSelectorHash x = afSelectorHash v \<or> afRequestTokenHash x = afRequestTokenHash v)) (idAntiforgery d)"
      "sql_exists (\<lambda>s. snTokenHash s = afSessionTokenHash v) (idSessions d)" "length (afSelectorHash v) = 32" "length (afRequestTokenHash v) = 32"
      by blast+
    then have row': "token_ok d ?row" by (intro row) simp_all
    show thesis
    proof (cases "sql_exists ?same (idAntiforgery d)")
      case True
      show thesis by (rule upd) (use True c row' in \<open>auto simp: create_session_antiforgery_def Let_def\<close>)
    next
      case False
      show thesis by (rule ins) (use False c row' in \<open>auto simp: create_session_antiforgery_def Let_def\<close>)
    qed
  qed
  then show ?thesis
  proof cases
    case ins
    then have "unique_on (\<lambda>t. Some (afSelectorHash t)) (idAntiforgery d @ [?row])" "unique_on (\<lambda>t. Some (afRequestTokenHash t)) (idAntiforgery d @ [?row])"
      "unique_on (\<lambda>t. Some (afSessionTokenHash t)) (idAntiforgery d @ [?row])"
      using assms(1) keys by (simp_all add: sessions_ok_def unique_on_append)
    with ins assms(1) show ?thesis by (auto simp: sessions_ok_def session_ok_def token_ok_def)
  next
    case upd
    have uniq: "unique_on (\<lambda>t. Some (f t)) (sql_update ?same (\<lambda>_. ?row) xs)"
      if "unique_on (\<lambda>t. Some (f t)) xs" "unique_on (\<lambda>t. Some (afSessionTokenHash t)) xs"
        "\<forall>x\<in>set xs. ?same x \<or> f x \<noteq> f v" "f ?row = f v" for f :: "antiforgery \<Rightarrow> string" and xs
      using that by (induction xs) (auto simp: sql_update_def)
    have "unique_on (\<lambda>t. Some (afSelectorHash t)) (sql_update ?same (\<lambda>_. ?row) (idAntiforgery d))"
      "unique_on (\<lambda>t. Some (afRequestTokenHash t)) (sql_update ?same (\<lambda>_. ?row) (idAntiforgery d))"
      "unique_on (\<lambda>t. Some (afSessionTokenHash t)) (sql_update ?same (\<lambda>_. ?row) (idAntiforgery d))"
      using assms(1) upd(3) keys by (auto simp: sessions_ok_def intro!: uniq)
    with upd assms(1) show ?thesis by (auto simp: sessions_ok_def session_ok_def token_ok_def in_sql_update)
  qed (use assms(1) in simp)
qed

lemma session_write_ok: "session_write d d' \<Longrightarrow> sessions_ok d \<Longrightarrow> sessions_ok d'"
proof (induction rule: session_write.induct)
  case (opened h u t s d)
  show ?case
  proof (cases "fst (insert_session s d)")
    case (Inl e)
    then show ?thesis using opened(4) by (auto simp: insert_session_def identity_tx_def split: sum.splits)
  next
    case (Inr x)
    then have "insert_session s d = (Inr (), snd (insert_session s d))" by (metis prod.collapse unit.exhaust)
    from insert_session_ok [OF opened(4,1-3) this] show ?thesis .
  qed
next
  case (closed d h)
  then show ?case by (simp add: delete_session_def delete_sessions_ok)
next
  case (protected selector request binding t v d)
  then show ?case by (simp add: create_session_antiforgery_ok)
next
  case (rotated d selector)
  then show ?case
    by (auto simp: sessions_ok_def delete_session_antiforgery_def unique_on_sql_delete session_ok_def token_ok_def)
next
  case (keyed d candidate)
  then show ?case
    by (auto simp: get_or_create_anonymous_key_def Let_def sessions_ok_def session_ok_def token_ok_def split: sum.splits option.splits)
next
  case (elsewhere d d')
  then show ?case by (auto simp: sessions_ok_def session_ok_def token_ok_def subset_iff)
qed

lemma find_session_ok:
  assumes "sessions_ok d"
  shows "find_session h d = Inr (find (\<lambda>s. snTokenHash s = h) (idSessions d))"
proof (cases "find (\<lambda>s. snTokenHash s = h) (idSessions d)")
  case (Some s)
  then have "session_ok d s" using find_in [OF Some] assms by (simp add: sessions_ok_def)
  then show ?thesis using Some
    by (auto simp: find_session_def session_ok_def restore_token_hash_def to_utc_id is_db_instant_def)
qed (simp add: find_session_def)

lemma find_session_antiforgery_ok:
  assumes "sessions_ok d"
  shows "find_session_antiforgery h d = Inr (find (\<lambda>t. afSelectorHash t = h) (idAntiforgery d))"
proof (cases "find (\<lambda>t. afSelectorHash t = h) (idAntiforgery d)")
  case (Some t)
  then have "token_ok d t" using find_in [OF Some] assms by (simp add: sessions_ok_def)
  then show ?thesis using Some
    by (auto simp: find_session_antiforgery_def token_ok_def restore_token_hash_def to_utc_id is_db_instant_def)
qed (simp add: find_session_antiforgery_def)

section \<open>Tokens read back\<close>

lemma decode_opaque_encode [simp]: "length raw = 32 \<Longrightarrow> decode_opaque_token (raw_encode True raw) = Some raw"
  by (simp add: decode_opaque_token_def decode_encode tokenBytes_def)

lemma foldl_digits:
  "foldl (\<lambda>n c. n * 256 + byte c) a (map (\<lambda>k. char_at (u div 256 ^ k mod 256)) (rev [0..<n])) = a * 256 ^ n + u mod 256 ^ n"
proof (induction n arbitrary: a)
  case (Suc n)
  have "u mod (256 ^ n * 256) = 256 ^ n * (u div 256 ^ n mod 256) + u mod 256 ^ n" by (rule zmod_zmult2_eq) simp
  then show ?case using Suc [of "a * 256 + u div 256 ^ n mod 256"] by (simp add: algebra_simps)
qed simp

lemma get_put_uint64 [simp]: "get_uint64 (put_uint64 n) = n"
proof -
  have "uint n < 256 ^ 8" using uint_lt2p [of n] by simp
  then have "foldl (\<lambda>n c. n * 256 + byte c) 0 (put_uint64 n) = uint n" unfolding put_uint64_def foldl_digits by simp
  then show ?thesis by (simp add: get_uint64_def)
qed

lemma length_put_uint64 [simp]: "length (put_uint64 n) = 8"
  by (simp add: put_uint64_def)

text \<open>An anonymous antiforgery token needs no storage: whoever has the shared key accepts it from the instant
  it was issued, up to a minute of clock skew before, until twelve hours later, and at no other instant.\<close>

lemma anonymous_token_lasts_twelve_hours:
  assumes "new_anonymous_antiforgery mac random random' issued_at d = (Inr (raw, cookie, header), d')"
    and "find_anonymous_key d' = Inr (Some key)"
  shows "decode_opaque_token cookie = Some raw \<and>
    (\<exists>request. decode_opaque_token header = Some request \<and>
      valid_anonymous_antiforgery mac key raw request now
        = (nanos issued_at \<le> nanos now + minute \<and> nanos now < nanos issued_at + 12 * hour))"
proof -
  obtain bytes bytes' k where random: "random = Inr bytes" "random' = Inr bytes'"
    and k: "get_or_create_anonymous_key (map bytes [0..<32]) d = (Inr k, d')"
    and t: "time_equal (time_of_unix_nano (unix_nano issued_at)) issued_at"
    and raw: "raw = put_uint64 (unix_nano issued_at) @ map bytes' [0..<tokenBytes - anonymousTimestampBytes]"
    and out: "cookie = raw_encode True raw" "header = raw_encode True (anonymous_antiforgery_mac mac k raw)"
    using assms(1) by (auto simp: new_anonymous_antiforgery_def Let_def split: sum.splits prod.splits if_splits)
  have "k = key" using k assms(2) by (auto simp: get_or_create_anonymous_key_def Let_def split: sum.splits option.splits if_splits)
  have l: "length raw = 32" by (simp add: raw tokenBytes_def anonymousTimestampBytes_def)
  have stamp: "get_uint64 (take anonymousTimestampBytes raw) = unix_nano issued_at"
    by (simp add: raw anonymousTimestampBytes_def)
  have mac: "length (anonymous_antiforgery_mac mac key raw) = 32" by (simp add: anonymous_antiforgery_mac_def)
  have "valid_anonymous_antiforgery mac key raw (anonymous_antiforgery_mac mac key raw) now
      = (nanos issued_at \<le> nanos now + minute \<and> nanos now < nanos issued_at + 12 * hour)"
    using t by (simp add: valid_anonymous_antiforgery_def tokenBytes_def l stamp mac Let_def after_def before_def time_equal_def
        anonymousClockSkew_def SessionLifetime_def not_less)
  then show ?thesis using out \<open>k = key\<close> l mac by simp
qed

end
