(* ===== verification/Access.thy ===== *)
theory Access
  imports Sessions Outbound "HOL-Library.AList"
begin

text \<open>
  Who may do what over HTTP: the limiter of \<open>internal/httpapi/ratelimit.go\<close> and the guards of
  \<open>security.go\<close>. The package \<open>rate\<close>, \<open>url.Parse\<close> and \<open>net.ParseIP\<close> are parameters, every reading of
  the clock an argument. The lemmas show what a request that passes a guard has presented, and that
  the limiter stays bounded and keeps to its permits.
\<close>

section \<open>The credential limiter\<close>

definition credentialWindow :: duration where "credentialWindow = minute"
definition maxCredentialPartitions :: nat where "maxCredentialPartitions = 4096"

text \<open>\<open>rate.NewLimiter(rate.Every(credentialWindow), permits)\<close> and \<open>Limiter.AllowN(now, 1)\<close>.\<close>

record 'l rate_package =
  rpNew :: "int \<Rightarrow> 'l"
  rpAllow :: "'l \<Rightarrow> go_time \<Rightarrow> bool \<times> 'l"

record 'l credential_window =
  cwStarted :: go_time
  cwLimiter :: 'l

record 'l credential_limiter =
  clPermits :: int
  clEntries :: "(string \<times> 'l credential_window) list"
  clOverflow :: "'l credential_window option"
  clNextCleanup :: go_time

definition new_credential_limiter :: "int \<Rightarrow> 'l credential_limiter" where
  "new_credential_limiter permits = \<lparr>clPermits = permits, clEntries = [], clOverflow = None, clNextCleanup = zero_time\<rparr>"

definition window_over :: "go_time \<Rightarrow> go_time \<Rightarrow> bool" where
  "window_over now started \<longleftrightarrow> time_sub now started \<ge> credentialWindow \<or> before now started"

definition current_window ::
  "'l rate_package \<Rightarrow> int \<Rightarrow> 'l credential_window option \<Rightarrow> go_time \<Rightarrow> 'l credential_window \<times> bool" where
  "current_window rp permits entry now =
     (case entry of
        Some w \<Rightarrow> if time_sub now (cwStarted w) < credentialWindow \<and> \<not> before now (cwStarted w) then (w, True)
          else (\<lparr>cwStarted = now, cwLimiter = rpNew rp permits\<rparr>, False)
      | None \<Rightarrow> (\<lparr>cwStarted = now, cwLimiter = rpNew rp permits\<rparr>, False))"

definition limiter_cleanup :: "go_time \<Rightarrow> 'l credential_limiter \<Rightarrow> 'l credential_limiter" where
  "limiter_cleanup now l =
     (let last_cleanup = time_add (clNextCleanup l) (- credentialWindow) in
      if \<not> is_zero (clNextCleanup l) \<and> before now (clNextCleanup l) \<and> \<not> before now last_cleanup then l
      else l\<lparr>clEntries := filter (\<lambda>(k, w). \<not> window_over now (cwStarted w)) (clEntries l),
             clNextCleanup := time_add now credentialWindow\<rparr>)"

text \<open>A limiter is changed in place.\<close>

definition allow_in :: "'l rate_package \<Rightarrow> 'l credential_window \<Rightarrow> go_time \<Rightarrow> bool \<times> 'l credential_window" where
  "allow_in rp w now = (case rpAllow rp (cwLimiter w) now of (b, lim) \<Rightarrow> (b, w\<lparr>cwLimiter := lim\<rparr>))"

definition limiter_allow :: "'l rate_package \<Rightarrow> string \<Rightarrow> go_time \<Rightarrow> 'l credential_limiter \<Rightarrow> bool \<times> 'l credential_limiter" where
  "limiter_allow rp key now l0 =
     (let l = limiter_cleanup now l0;
        fresh = fst (current_window rp (clPermits l) None now);
        keep = (\<lambda>w. case allow_in rp w now of (b, w') \<Rightarrow> (b, l\<lparr>clEntries := AList.update key w' (clEntries l)\<rparr>))
      in case map_of (clEntries l) key of
           None \<Rightarrow>
             (case current_window rp (clPermits l) (clOverflow l) now of (overflow, active) \<Rightarrow>
                if active \<or> length (clEntries l) \<ge> maxCredentialPartitions then
                  (case allow_in rp overflow now of (b, w') \<Rightarrow> (b, l\<lparr>clOverflow := Some w'\<rparr>))
                else keep fresh)
         | Some w \<Rightarrow> if window_over now (cwStarted w) then keep fresh else keep w)"

text \<open>The partition of a request: its address without the port.\<close>

definition credential_partition :: "(string \<Rightarrow> bool) \<Rightarrow> string \<Rightarrow> string" where
  "credential_partition is_ip remote_addr =
     (case split_host_port remote_addr of
        Some (host, _) \<Rightarrow> if host \<noteq> '''' then host else if is_ip remote_addr then remote_addr else ''unknown''
      | None \<Rightarrow> if is_ip remote_addr then remote_addr else ''unknown'')"

fun run_limiter :: "'l rate_package \<Rightarrow> (string \<times> go_time) list \<Rightarrow> 'l credential_limiter \<Rightarrow> bool list \<times> 'l credential_limiter" where
  "run_limiter rp [] l = ([], l)"
| "run_limiter rp ((key, now) # calls) l =
     (case limiter_allow rp key now l of (b, l') \<Rightarrow>
        (case run_limiter rp calls l' of (bs, l'') \<Rightarrow> (b # bs, l'')))"

section \<open>Requests and answers\<close>

record web_request =
  rqMethod :: string
  rqCookies :: "string \<rightharpoonup> string"
  rqAntiforgery :: "string list"
  rqOrigin :: "string list"
  rqReferer :: "string list"
  rqHost :: string
  rqTLS :: bool
  rqRemoteAddr :: string

record web_server =
  svSHA256 :: hash_function
  svMAC :: "string \<Rightarrow> hash_function"
  svLower :: "int \<Rightarrow> int"
  svFold :: "int \<Rightarrow> int"
  svParseURL :: "string \<Rightarrow> go_url option"
  svIsIP :: "string \<Rightarrow> bool"
  svPublicOrigin :: string

text \<open>What is written instead of the answer: a status of its own code, a coded problem, validation failures,
  an internal error with its operation, or the methods an endpoint has.\<close>

datatype refusal = StatusProblem int | CodedProblem int string | ValidationProblem "validation_failure list"
  | InternalError string | MethodNotAllowed "string list"

type_synonym principal = "account \<times> session"

definition sessionCookieName :: string where "sessionCookieName = ''probehive.session''"
definition antiforgeryCookieName :: string where "antiforgeryCookieName = ''probehive.antiforgery''"
definition antiforgeryInvalidCode :: string where "antiforgeryInvalidCode = ''request.antiforgery.invalid''"
definition originRejectedCode :: string where "originRejectedCode = ''request.origin.rejected''"

definition hash_token :: "web_server \<Rightarrow> string \<Rightarrow> string" where
  "hash_token sv raw = digest (svSHA256 sv) raw"

section \<open>Guards\<close>

definition load_session :: "web_server \<Rightarrow> go_time \<Rightarrow> web_request \<Rightarrow> identity_db \<Rightarrow> principal option result \<times> identity_db" where
  "load_session sv now r d =
     (case rqCookies r sessionCookieName of
        None \<Rightarrow> (Inr None, d)
      | Some cookie \<Rightarrow>
          (case decode_opaque_token cookie of
             None \<Rightarrow> (Inr None, d)
           | Some raw \<Rightarrow>
               (case find_session (hash_token sv raw) d of
                  Inl e \<Rightarrow> (Inl e, d)
                | Inr None \<Rightarrow> (Inr None, d)
                | Inr (Some s) \<Rightarrow>
                    if session_expired s (to_utc now) then (Inr None, delete_session (hash_token sv raw) d)
                    else case find_by_id (svLower sv) (snUserID s) d of
                      Inl e \<Rightarrow> (Inl e, d)
                    | Inr None \<Rightarrow> (Inr None, delete_session (hash_token sv raw) d)
                    | Inr (Some a) \<Rightarrow> (Inr (Some (a, s)), d))))"

definition require_authentication ::
  "web_server \<Rightarrow> go_time \<Rightarrow> web_request \<Rightarrow> identity_db \<Rightarrow> (refusal + principal) \<times> identity_db" where
  "require_authentication sv now r d =
     (case load_session sv now r d of
        (Inl e, d') \<Rightarrow> (Inl (InternalError ''load session''), d')
      | (Inr None, d') \<Rightarrow> (Inl (StatusProblem 401), d')
      | (Inr (Some p), d') \<Rightarrow> (Inr p, d'))"

definition require_instance_administrator ::
  "web_server \<Rightarrow> go_time \<Rightarrow> web_request \<Rightarrow> identity_db \<Rightarrow> (refusal + principal) \<times> identity_db" where
  "require_instance_administrator sv now r d =
     (case require_authentication sv now r d of
        (Inl e, d') \<Rightarrow> (Inl e, d')
      | (Inr p, d') \<Rightarrow> if acRole (fst p) \<noteq> AdministratorRole then (Inl (StatusProblem 403), d') else (Inr p, d'))"

definition require_organization_permission ::
  "web_server \<Rightarrow> string \<Rightarrow> string \<Rightarrow> go_time \<Rightarrow> web_request \<Rightarrow> identity_db \<Rightarrow> (refusal + principal) \<times> identity_db" where
  "require_organization_permission sv org permission now r d =
     (case require_authentication sv now r d of
        (Inl e, d') \<Rightarrow> (Inl e, d')
      | (Inr p, d') \<Rightarrow>
          (case membership_of org (acID (fst p)) d' of
             Inl e \<Rightarrow> (Inl (InternalError ''resolve Organization membership''), d')
           | Inr None \<Rightarrow> (Inl (StatusProblem 404), d')
           | Inr (Some m) \<Rightarrow>
               if \<not> role_permits (msRole m) permission then (Inl (StatusProblem 403), d') else (Inr p, d')))"

text \<open>\<open>strings.EqualFold\<close>; \<open>svFold\<close> is the least rune that a rune beyond ASCII folds to.\<close>

definition fold_rune :: "(int \<Rightarrow> int) \<Rightarrow> int \<Rightarrow> int" where
  "fold_rune fld r = (if r < 128 then (if 97 \<le> r \<and> r \<le> 122 then r - 32 else r) else fld r)"

definition equal_fold :: "(int \<Rightarrow> int) \<Rightarrow> string \<Rightarrow> string \<Rightarrow> bool" where
  "equal_fold fld s t \<longleftrightarrow> map (fold_rune fld) (runes s) = map (fold_rune fld) (runes t)"

definition request_origin :: "web_server \<Rightarrow> web_request \<Rightarrow> string" where
  "request_origin sv r =
     (if svPublicOrigin sv \<noteq> '''' then svPublicOrigin sv
      else (if rqTLS r then ''https'' else ''http'') @ ''://'' @ rqHost r)"

definition acceptable_referer :: "web_server \<Rightarrow> web_request \<Rightarrow> bool" where
  "acceptable_referer sv r =
     (if rqReferer r = [] then True
      else if length (rqReferer r) \<noteq> 1 then False
      else if hd (rqReferer r) = '''' then True
      else case svParseURL sv (hd (rqReferer r)) of
        None \<Rightarrow> False
      | Some u \<Rightarrow>
          if urlScheme u = '''' \<or> urlHost u = '''' \<or> urlHasUser u then False
          else equal_fold (svFold sv) (urlScheme u @ ''://'' @ urlHost u) (request_origin sv r))"

definition acceptable_browser_origin :: "web_server \<Rightarrow> web_request \<Rightarrow> bool" where
  "acceptable_browser_origin sv r =
     (if rqOrigin r = [] then acceptable_referer sv r
      else if length (rqOrigin r) \<noteq> 1 then False
      else if hd (rqOrigin r) \<noteq> '''' then equal_fold (svFold sv) (hd (rqOrigin r)) (request_origin sv r)
      else acceptable_referer sv r)"

definition valid_antiforgery ::
  "web_server \<Rightarrow> principal option \<Rightarrow> go_time \<Rightarrow> web_request \<Rightarrow> identity_db \<Rightarrow> bool result \<times> identity_db" where
  "valid_antiforgery sv p now r d =
     (case rqCookies r antiforgeryCookieName of
        None \<Rightarrow> (Inr False, d)
      | Some cookie \<Rightarrow>
          (case decode_opaque_token cookie of
             None \<Rightarrow> (Inr False, d)
           | Some selector \<Rightarrow>
               if length (rqAntiforgery r) \<noteq> 1 then (Inr False, d)
               else case decode_opaque_token (hd (rqAntiforgery r)) of
                 None \<Rightarrow> (Inr False, d)
               | Some request \<Rightarrow>
                   (case p of
                      None \<Rightarrow>
                        (case find_anonymous_key d of
                           Inl e \<Rightarrow> (Inl e, d)
                         | Inr None \<Rightarrow> (Inr False, d)
                         | Inr (Some key) \<Rightarrow> (Inr (valid_anonymous_antiforgery (svMAC sv) key selector request (to_utc now)), d))
                    | Some (a, s) \<Rightarrow>
                        (case find_session_antiforgery (hash_token sv selector) d of
                           Inl e \<Rightarrow> (Inl e, d)
                         | Inr None \<Rightarrow> (Inr False, d)
                         | Inr (Some t) \<Rightarrow>
                             if antiforgery_expired t (to_utc now) then (Inr False, delete_session_antiforgery (afSelectorHash t) d)
                             else if hash_token sv request \<noteq> afRequestTokenHash t then (Inr False, d)
                             else (Inr (snTokenHash s = afSessionTokenHash t), d)))))"

text \<open>What both guards of unsafe requests end with.\<close>

definition browser_checks ::
  "web_server \<Rightarrow> principal option \<Rightarrow> go_time \<Rightarrow> web_request \<Rightarrow> identity_db \<Rightarrow> (refusal + principal option) \<times> identity_db" where
  "browser_checks sv p now r d =
     (if \<not> acceptable_browser_origin sv r then (Inl (CodedProblem 403 originRejectedCode), d)
      else case valid_antiforgery sv p now r d of
        (Inl e, d') \<Rightarrow> (Inl (InternalError ''validate antiforgery state''), d')
      | (Inr False, d') \<Rightarrow> (Inl (CodedProblem 400 antiforgeryInvalidCode), d')
      | (Inr True, d') \<Rightarrow> (Inr p, d'))"

definition protect_unsafe ::
  "web_server \<Rightarrow> (go_time \<Rightarrow> web_request \<Rightarrow> identity_db \<Rightarrow> (refusal + principal) \<times> identity_db) \<Rightarrow> go_time \<Rightarrow> go_time \<Rightarrow>
     web_request \<Rightarrow> identity_db \<Rightarrow> (refusal + principal) \<times> identity_db" where
  "protect_unsafe sv authorize now now' r d =
     (case authorize now r d of
        (Inl e, d') \<Rightarrow> (Inl e, d')
      | (Inr p, d') \<Rightarrow>
          (case browser_checks sv (Some p) now' r d' of
             (Inl e, d'') \<Rightarrow> (Inl e, d'') | (Inr _, d'') \<Rightarrow> (Inr p, d'')))"

definition prepare_credential_unsafe ::
  "web_server \<Rightarrow> 'l rate_package \<Rightarrow> go_time \<Rightarrow> go_time \<Rightarrow> go_time \<Rightarrow> web_request \<Rightarrow> identity_db \<Rightarrow> 'l credential_limiter \<Rightarrow>
     (refusal + principal option) \<times> identity_db \<times> 'l credential_limiter" where
  "prepare_credential_unsafe sv rp now now' now'' r d l =
     (case load_session sv now r d of
        (Inl e, d') \<Rightarrow> (Inl (InternalError ''load optional session''), d', l)
      | (Inr p, d') \<Rightarrow>
          (case limiter_allow rp (credential_partition (svIsIP sv) (rqRemoteAddr r)) now' l of
             (False, l') \<Rightarrow> (Inl (StatusProblem 429), d', l')
           | (True, l') \<Rightarrow> (case browser_checks sv p now'' r d' of (res, d'') \<Rightarrow> (res, d'', l'))))"

definition create_session ::
  "web_server \<Rightarrow> (nat \<Rightarrow> char) result \<Rightarrow> go_time \<Rightarrow> web_request \<Rightarrow> account \<Rightarrow> identity_db \<Rightarrow> string result \<times> identity_db" where
  "create_session sv random now r a d =
     (let d1 = (case rqCookies r sessionCookieName of
          None \<Rightarrow> d
        | Some cookie \<Rightarrow>
            (case decode_opaque_token cookie of None \<Rightarrow> d | Some raw \<Rightarrow> delete_session (hash_token sv raw) d))
      in case new_opaque_token random of
           Inl e \<Rightarrow> (Inl e, d1)
         | Inr (raw, encoded) \<Rightarrow>
             (case new_session (hash_token sv raw) (acID a) (to_utc now) of
                Inl e \<Rightarrow> (Inl e, d1)
              | Inr s \<Rightarrow> (case insert_session s d1 of (Inl e, d2) \<Rightarrow> (Inl e, d2) | (Inr _, d2) \<Rightarrow> (Inr encoded, d2))))"

section \<open>What a guard that admits has seen\<close>

lemma load_session_Some:
  assumes "load_session sv now r d = (Inr (Some (a, s)), d')" and "sessions_ok d"
  obtains cookie raw where "d' = d" "rqCookies r sessionCookieName = Some cookie" "decode_opaque_token cookie = Some raw"
    "s \<in> set (idSessions d)" "snTokenHash s = hash_token sv raw" "nanos now < nanos (snExpiresAt s)"
    "find_by_id (svLower sv) (snUserID s) d = Inr (Some a)"
proof -
  obtain cookie where c1: "rqCookies r sessionCookieName = Some cookie"
    using assms(1) by (cases "rqCookies r sessionCookieName") (simp_all add: load_session_def)
  obtain raw where c2: "decode_opaque_token cookie = Some raw"
    using assms(1) by (cases "decode_opaque_token cookie") (simp_all add: load_session_def c1)
  note c = c1 c2
  obtain x where x: "find_session (hash_token sv raw) d = Inr (Some x)"
    using assms(1) by (simp add: load_session_def c split: sum.split_asm option.split_asm)
  have "\<not> session_expired x (to_utc now)" using assms(1) by (simp add: load_session_def c x split: if_split_asm)
  moreover from this obtain y where "find_by_id (svLower sv) (snUserID x) d = Inr (Some y)"
    using assms(1) by (simp add: load_session_def c x split: sum.split_asm option.split_asm)
  ultimately have f: "find_session (hash_token sv raw) d = Inr (Some s)" "\<not> session_expired s (to_utc now)"
      "find_by_id (svLower sv) (snUserID s) d = Inr (Some a)" "d' = d"
    using assms(1) x by (simp_all add: load_session_def c)
  have "find (\<lambda>s. snTokenHash s = hash_token sv raw) (idSessions d) = Some s" using f(1) find_session_ok [OF assms(2)] by simp
  from find_in [OF this] have "s \<in> set (idSessions d)" "snTokenHash s = hash_token sv raw" by (rule conjunct1, rule conjunct2)
  moreover have "nanos now < nanos (snExpiresAt s)" using f(2) by (simp add: session_expired_def before_def to_utc_def)
  ultimately show thesis by (rule that [OF f(4) c _ _ _ f(3)])
qed

lemma browser_checks_Inr:
  assumes "browser_checks sv (Some (a, s)) now r d = (Inr q, d')" and "sessions_ok d"
  obtains h request t where "d' = d" "acceptable_browser_origin sv r" "rqAntiforgery r = [h]" "decode_opaque_token h = Some request"
    "t \<in> set (idAntiforgery d)" "hash_token sv request = afRequestTokenHash t" "afSessionTokenHash t = snTokenHash s"
    "nanos now < nanos (afExpiresAt t)"
proof -
  have orig: "acceptable_browser_origin sv r" and v: "valid_antiforgery sv (Some (a, s)) now r d = (Inr True, d')"
    using assms(1) by (auto simp: browser_checks_def split: if_splits prod.splits sum.splits bool.splits)
  obtain cookie where c1: "rqCookies r antiforgeryCookieName = Some cookie"
    using v by (cases "rqCookies r antiforgeryCookieName") (simp_all add: valid_antiforgery_def)
  obtain selector where c2: "decode_opaque_token cookie = Some selector"
    using v by (cases "decode_opaque_token cookie") (simp_all add: valid_antiforgery_def c1)
  have c3: "length (rqAntiforgery r) = 1" using v by (simp add: valid_antiforgery_def c1 c2 split: if_split_asm)
  obtain request where c4: "decode_opaque_token (hd (rqAntiforgery r)) = Some request"
    using v by (cases "decode_opaque_token (hd (rqAntiforgery r))") (simp_all add: valid_antiforgery_def c1 c2 c3)
  note c = c1 c2 c3 c4
  obtain t where t: "find_session_antiforgery (hash_token sv selector) d = Inr (Some t)"
    using v by (simp add: valid_antiforgery_def c split: sum.split_asm option.split_asm)
  have f: "\<not> antiforgery_expired t (to_utc now)" "hash_token sv request = afRequestTokenHash t" "snTokenHash s = afSessionTokenHash t" "d' = d"
    using v by (simp_all add: valid_antiforgery_def c t split: if_split_asm)
  have "find (\<lambda>t. afSelectorHash t = hash_token sv selector) (idAntiforgery d) = Some t"
    using t find_session_antiforgery_ok [OF assms(2)] by simp
  from find_in [OF this] have t': "t \<in> set (idAntiforgery d)" by simp
  obtain h where h: "rqAntiforgery r = [h]" using c3 by (cases "rqAntiforgery r") auto
  then have "decode_opaque_token h = Some request" using c4 by simp
  moreover have "nanos now < nanos (afExpiresAt t)" using f(1) by (simp add: antiforgery_expired_def before_def to_utc_def)
  ultimately show thesis by (rule that [OF f(4) orig h _ t' f(2) f(3) [symmetric]])
qed

text \<open>C30. Whoever passes the guard of an unsafe request on an Organization has presented the token of a session that
  is not over, is a member whose role permits what is asked, and has presented in the header a token
  that was issued to that very session, from an acceptable origin; the guard changes nothing.\<close>

theorem unsafe_requests_are_protected:
  assumes "protect_unsafe sv (require_organization_permission sv org permission) now now' r d = (Inr (a, s), d')" and "sessions_ok d"
  shows "d' = d \<and> acceptable_browser_origin sv r
    \<and> (\<exists>cookie raw. rqCookies r sessionCookieName = Some cookie \<and> decode_opaque_token cookie = Some raw
        \<and> s \<in> set (idSessions d) \<and> snTokenHash s = hash_token sv raw \<and> nanos now < nanos (snExpiresAt s))
    \<and> (\<exists>m. membership_of org (acID a) d = Inr (Some m) \<and> role_permits (msRole m) permission)
    \<and> (\<exists>h request t. rqAntiforgery r = [h] \<and> decode_opaque_token h = Some request \<and> t \<in> set (idAntiforgery d)
        \<and> hash_token sv request = afRequestTokenHash t \<and> afSessionTokenHash t = snTokenHash s \<and> nanos now' < nanos (afExpiresAt t))"
proof -
  obtain d1 q where g: "require_organization_permission sv org permission now r d = (Inr (a, s), d1)"
    and b: "browser_checks sv (Some (a, s)) now' r d1 = (Inr q, d')"
    using assms(1) by (auto simp: protect_unsafe_def split: prod.splits sum.splits)
  obtain m where l: "load_session sv now r d = (Inr (Some (a, s)), d1)"
    and m: "membership_of org (acID a) d1 = Inr (Some m)" "role_permits (msRole m) permission"
    using g by (auto simp: require_organization_permission_def require_authentication_def split: prod.splits sum.splits option.splits if_splits)
  from load_session_Some [OF l assms(2)] obtain cookie raw where L: "d1 = d" "rqCookies r sessionCookieName = Some cookie"
    "decode_opaque_token cookie = Some raw" "s \<in> set (idSessions d)" "snTokenHash s = hash_token sv raw" "nanos now < nanos (snExpiresAt s)"
    by metis
  from browser_checks_Inr [OF b [unfolded L(1)] assms(2)] obtain h request t where B: "d' = d" "acceptable_browser_origin sv r"
    "rqAntiforgery r = [h]" "decode_opaque_token h = Some request" "t \<in> set (idAntiforgery d)"
    "hash_token sv request = afRequestTokenHash t" "afSessionTokenHash t = snTokenHash s" "nanos now' < nanos (afExpiresAt t)" by metis
  from L B m show ?thesis by blast
qed

text \<open>Who is not a member of an Organization gets the same answer as for one that does not exist, and for any
  other it is not a member of, whatever those hold.\<close>

theorem outsiders_cannot_tell:
  assumes "require_authentication sv now r d = (Inr p, d)" and "require_authentication sv now r d2 = (Inr p, d2)"
    and "\<forall>m\<in>set (idMembers d). msOrganizationID m = org \<longrightarrow> msUserID m \<noteq> acID (fst p)"
    and "\<forall>m\<in>set (idMembers d2). msOrganizationID m = org2 \<longrightarrow> msUserID m \<noteq> acID (fst p)"
  shows "fst (require_organization_permission sv org permission now r d) = Inl (StatusProblem 404)
    \<and> fst (require_organization_permission sv org2 permission2 now r d2) = Inl (StatusProblem 404)"
proof -
  have "membership_of i (acID (fst p)) e = Inr None" if "\<forall>m\<in>set (idMembers e). msOrganizationID m = i \<longrightarrow> msUserID m \<noteq> acID (fst p)" for i e
  proof -
    have "find (\<lambda>m. msOrganizationID m = i \<and> msUserID m = acID (fst p)) (idMembers e) = None" using that by (auto simp: find_None_iff)
    then show ?thesis by (simp add: membership_of_def find_membership_def)
  qed
  from this [OF assms(3)] this [OF assms(4)] assms(1,2) show ?thesis by (simp add: require_organization_permission_def)
qed

text \<open>A login opens a session that its cookie loads until exactly twelve hours later, to the microsecond of the
  columns, as long as the session and the user are not removed; later the cookie loads nothing.\<close>

lemma session_ends_after_twelve_hours:
  assumes "create_session sv random now r a d = (Inr cookie, d1)"
    and "List.last (idSessions d1) \<in> set (idSessions d2)" and "sessions_ok d2" and "accounts_ok (svLower sv) d2" and "b \<in> set (idUsers d2)"
    and "acID b = acID a" and "rqCookies r2 sessionCookieName = Some cookie"
  shows "fst (load_session sv later r2 d2) = Inr (if nanos later < nanos now div 1000 * 1000 + 12 * hour
    then Some (b, List.last (idSessions d1)) else None)"
proof -
  obtain raw s d0 where t: "new_opaque_token random = Inr (raw, cookie)"
    and s: "new_session (hash_token sv raw) (acID a) (to_utc now) = Inr s" and i: "insert_session s d0 = (Inr (), d1)"
    using assms(1) by (auto simp: create_session_def Let_def split: sum.splits prod.splits)
  let ?x = "List.last (idSessions d1)"
  have x: "?x = session_to_row s" using insert_session_Inr(1) [OF i] by simp
  have s': "s = \<lparr>snTokenHash = hash_token sv raw, snUserID = acID a, snAuthenticatedAt = to_utc now,
      snExpiresAt = time_add (to_utc now) SessionLifetime\<rparr>"
    using s by (simp add: new_session_def restore_session_Inr)
  have raw: "decode_opaque_token cookie = Some raw"
    using t by (auto simp: new_opaque_token_def and_then_Inr Let_def tokenBytes_def)
  have f: "find_session (hash_token sv raw) d2 = Inr (Some ?x)"
  proof -
    have "find (\<lambda>y. snTokenHash y = hash_token sv raw) (idSessions d2) = Some ?x"
    proof (rule find_the_only [OF assms(2)])
      show "snTokenHash ?x = hash_token sv raw" by (simp add: x s' session_to_row_def)
      then show "y = ?x" if "y \<in> set (idSessions d2)" "snTokenHash y = hash_token sv raw" for y
        using unique_onD [of "\<lambda>s. Some (snTokenHash s)" "idSessions d2" y ?x] assms(2,3) that by (simp add: sessions_ok_def)
    qed
    then show ?thesis using find_session_ok [OF assms(3)] by simp
  qed
  have u: "find_by_id (svLower sv) (snUserID ?x) d2 = Inr (Some b)"
  proof -
    have "snUserID ?x = acID b" using assms(6) by (simp add: x s' session_to_row_def)
    with find_id [OF assms(4,5)] show ?thesis by simp
  qed
  have "nanos (snExpiresAt ?x) = nanos now div 1000 * 1000 + SessionLifetime"
    by (simp add: x s' session_to_row_def db_instant_def to_utc_def time_add_def lifetime_microseconds)
  then have "session_expired ?x (to_utc later) \<longleftrightarrow> \<not> nanos later < nanos now div 1000 * 1000 + 12 * hour"
    by (simp add: session_expired_def before_def to_utc_def SessionLifetime_def)
  then show ?thesis using assms(7) raw f u by (simp add: load_session_def)
qed

section \<open>The limiter keeps its bounds\<close>

definition limiter_ok :: "'l credential_limiter \<Rightarrow> bool" where
  "limiter_ok l \<longleftrightarrow> distinct (map fst (clEntries l)) \<and> length (clEntries l) \<le> maxCredentialPartitions"

lemma length_update: "distinct (map fst al) \<Longrightarrow> length (AList.update k v al) = (if k \<in> fst ` set al then length al else Suc (length al))"
  by (induction al) auto

lemma cleanup_entries: "limiter_ok l \<Longrightarrow> limiter_ok (limiter_cleanup now l)"
  by (auto simp: limiter_ok_def limiter_cleanup_def Let_def distinct_map_filter intro: order_trans [OF length_filter_le])

lemma map_of_key: "map_of al k = Some v \<Longrightarrow> k \<in> fst ` set al"
  by (metis map_of_eq_None_iff option.distinct(1))

lemma limiter_allow_ok: "limiter_allow rp key now l = (b, l') \<Longrightarrow> limiter_ok l \<Longrightarrow> limiter_ok l'"
proof -
  assume a: "limiter_allow rp key now l = (b, l')" and "limiter_ok l"
  then have ok: "limiter_ok (limiter_cleanup now l)" (is "limiter_ok ?l") by (simp add: cleanup_entries)
  have "clEntries l' = clEntries ?l \<or> (\<exists>w. clEntries l' = AList.update key w (clEntries ?l)
    \<and> (key \<in> fst ` set (clEntries ?l) \<or> length (clEntries ?l) < maxCredentialPartitions))"
    using a by (auto simp: limiter_allow_def Let_def split: option.splits prod.splits if_splits dest: map_of_key)
  moreover have "length (AList.update key w (clEntries ?l)) \<le> maxCredentialPartitions"
    if "key \<in> fst ` set (clEntries ?l) \<or> length (clEntries ?l) < maxCredentialPartitions" for w
    using that ok length_update [of "clEntries ?l" key w] by (simp add: limiter_ok_def split: if_splits)
  ultimately show "limiter_ok l'" using ok unfolding limiter_ok_def by (metis distinct_update)
qed

text \<open>Whoever calls, from however many addresses and whatever the clock does, the limiter never keeps more than
  4096 partitions.\<close>

theorem limiter_is_bounded:
  "length (clEntries (snd (run_limiter rp calls (new_credential_limiter permits)))) \<le> maxCredentialPartitions"
proof -
  have "limiter_ok l \<Longrightarrow> limiter_ok (snd (run_limiter rp calls l))" for l
  proof (induction calls arbitrary: l)
    case (Cons c calls)
    obtain key now b l' where c: "c = (key, now)" "limiter_allow rp key now l = (b, l')" by (metis prod.exhaust)
    show ?case using Cons.IH [OF limiter_allow_ok [OF c(2) Cons.prems]] c
      by (cases "run_limiter rp calls l'") simp
  qed simp
  moreover have "limiter_ok (new_credential_limiter permits)" by (simp add: limiter_ok_def new_credential_limiter_def)
  ultimately show ?thesis by (auto simp: limiter_ok_def)
qed

section \<open>The limiter keeps to its permits\<close>

fun run_bucket :: "'l rate_package \<Rightarrow> go_time list \<Rightarrow> 'l \<Rightarrow> bool list \<times> 'l" where
  "run_bucket rp [] b = ([], b)"
| "run_bucket rp (t # ts) b =
     (case rpAllow rp b t of (x, b') \<Rightarrow> (case run_bucket rp ts b' of (xs, b'') \<Rightarrow> (x # xs, b'')))"

definition allowed :: "bool list \<Rightarrow> nat" where "allowed bs = length (filter id bs)"

text \<open>
  What \<open>rate\<close> documents of a bucket of so many permits that refills one in a minute: within less than
  a minute of its first use it allows no more than its permits.
\<close>

definition honours_permits :: "'l rate_package \<Rightarrow> bool" where
  "honours_permits rp \<longleftrightarrow> (\<forall>permits ts (t0 :: go_time). sorted (map nanos ts) \<and> (\<forall>t\<in>set ts. nanos t0 \<le> nanos t \<and> nanos t < nanos t0 + minute)
     \<longrightarrow> int (allowed (fst (run_bucket rp ts (rpNew rp permits)))) \<le> max 0 permits)"

lemma run_bucket_snoc: "run_bucket rp (ts @ [t]) b =
    (case run_bucket rp ts b of (xs, b') \<Rightarrow> (case rpAllow rp b' t of (x, b'') \<Rightarrow> (xs @ [x], b'')))"
  by (induction ts arbitrary: b) (simp_all split: prod.splits)

text \<open>A window that started at \<open>t0\<close> or later and has answered the calls \<open>ts\<close>, \<open>n\<close> of them with yes to one address.\<close>

definition follows :: "'l rate_package \<Rightarrow> int \<Rightarrow> go_time \<Rightarrow> go_time \<Rightarrow> 'l credential_window \<Rightarrow> go_time list \<Rightarrow> nat \<Rightarrow> bool" where
  "follows rp permits t0 now w ts n \<longleftrightarrow> nanos t0 \<le> nanos (cwStarted w) \<and> nanos (cwStarted w) \<le> nanos now \<and> sorted (map nanos ts)
     \<and> (\<forall>t\<in>set ts. nanos (cwStarted w) \<le> nanos t \<and> nanos t \<le> nanos now)
     \<and> cwLimiter w = snd (run_bucket rp ts (rpNew rp permits)) \<and> n \<le> allowed (fst (run_bucket rp ts (rpNew rp permits)))"

definition tracked :: "'l rate_package \<Rightarrow> string \<Rightarrow> int \<Rightarrow> go_time \<Rightarrow> go_time \<Rightarrow> 'l credential_limiter \<Rightarrow> nat \<Rightarrow> bool" where
  "tracked rp key permits t0 now l n \<longleftrightarrow> clPermits l = permits \<and>
     (case map_of (clEntries l) key of
        Some w \<Rightarrow> \<exists>ts. follows rp permits t0 now w ts n
      | None \<Rightarrow> (case clOverflow l of None \<Rightarrow> n = 0 | Some w \<Rightarrow> \<exists>ts. follows rp permits t0 now w ts n))"

lemma follows_fresh: "nanos t0 \<le> nanos now \<Longrightarrow> follows rp permits t0 now (fst (current_window rp permits None now)) [] 0"
  by (simp add: follows_def current_window_def allowed_def)

lemma follows_call:
  assumes "follows rp permits t0 now w ts n" and "nanos now \<le> nanos t" and "allow_in rp w t = (b, w')" and "m \<le> n + (if b then 1 else 0)"
  shows "follows rp permits t0 t w' (ts @ [t]) m"
proof -
  obtain xs where r: "run_bucket rp ts (rpNew rp permits) = (xs, cwLimiter w)"
    using assms(1) by (cases "run_bucket rp ts (rpNew rp permits)") (simp add: follows_def)
  obtain lim where a: "rpAllow rp (cwLimiter w) t = (b, lim)" "w' = w\<lparr>cwLimiter := lim\<rparr>"
    using assms(3) by (auto simp: allow_in_def split: prod.splits)
  have "run_bucket rp (ts @ [t]) (rpNew rp permits) = (xs @ [b], lim)" by (simp add: run_bucket_snoc r a)
  moreover have "sorted (map nanos (ts @ [t]))" using assms(1,2) by (fastforce simp: follows_def sorted_append)
  ultimately show ?thesis using assms(1,2,4) r a(2) by (fastforce simp: follows_def allowed_def)
qed

lemma follows_later: "follows rp permits t0 now w ts n \<Longrightarrow> nanos now \<le> nanos t \<Longrightarrow> follows rp permits t0 t w ts n"
  by (fastforce simp: follows_def)

lemma window_lasts:
  assumes "follows rp permits t0 now w ts n" and "nanos now \<le> nanos t" and "nanos t < nanos t0 + minute"
  shows "\<not> window_over t (cwStarted w)" "current_window rp permits (Some w) t = (w, True)"
  using assms by (auto simp: follows_def window_over_def current_window_def time_sub_def before_def credentialWindow_def duration_defs)

lemma map_of_filter_Some: "map_of xs k = Some v \<Longrightarrow> P (k, v) \<Longrightarrow> map_of (filter P xs) k = Some v"
  by (induction xs) (auto split: if_splits)

lemma map_of_filter_None: "map_of xs k = None \<Longrightarrow> map_of (filter P xs) k = None"
  by (induction xs) (auto split: if_splits)

lemma cleanup_tracked:
  assumes "tracked rp key permits t0 now l n" and "nanos now \<le> nanos t" and "nanos t < nanos t0 + minute"
  shows "tracked rp key permits t0 t (limiter_cleanup t l) n"
proof (cases "map_of (clEntries l) key")
  case (Some w)
  then obtain ts where f: "follows rp permits t0 now w ts n" using assms(1) by (auto simp: tracked_def)
  have "map_of (clEntries (limiter_cleanup t l)) key = Some w"
    using Some window_lasts(1) [OF f assms(2,3)] by (simp add: limiter_cleanup_def Let_def map_of_filter_Some)
  then show ?thesis using follows_later [OF f assms(2)] assms(1) by (auto simp: tracked_def limiter_cleanup_def Let_def)
next
  case None
  then have "map_of (clEntries (limiter_cleanup t l)) key = None" by (simp add: limiter_cleanup_def Let_def map_of_filter_None)
  moreover have "clOverflow (limiter_cleanup t l) = clOverflow l" "clPermits (limiter_cleanup t l) = clPermits l"
    by (simp_all add: limiter_cleanup_def Let_def)
  ultimately have "tracked rp key permits t0 t (limiter_cleanup t l) n"
    if "case clOverflow l of None \<Rightarrow> n = 0 | Some w \<Rightarrow> \<exists>ts. follows rp permits t0 t w ts n"
    using that assms(1) by (simp add: tracked_def)
  moreover have "case clOverflow l of None \<Rightarrow> n = 0 | Some w \<Rightarrow> \<exists>ts. follows rp permits t0 t w ts n"
    using assms(1) None follows_later [OF _ assms(2)] by (cases "clOverflow l") (auto simp: tracked_def, blast)
  ultimately show ?thesis by simp
qed

lemma limiter_allow_tracked:
  assumes "tracked rp key permits t0 now l n" and "nanos t0 \<le> nanos now" and "nanos now \<le> nanos t" and "nanos t < nanos t0 + minute"
    and "limiter_allow rp k t l = (b, l')"
  shows "tracked rp key permits t0 t l' (n + (if k = key \<and> b then 1 else 0))"
proof -
  let ?l = "limiter_cleanup t l"
  note T = cleanup_tracked [OF assms(1,3,4)]
  have p: "clPermits ?l = permits" using T by (simp add: tracked_def)
  have fresh: "follows rp permits t0 t (fst (current_window rp permits None t)) [] 0"
    by (rule follows_fresh) (use assms(2,3) in simp)
  note call = follows_call [OF _ order_refl]
  show ?thesis
  proof (cases "map_of (clEntries ?l) k")
    case (Some w)
    show ?thesis
    proof (cases "k = key")
      case True
      then obtain ts where f: "follows rp permits t0 t w ts n" using T Some by (auto simp: tracked_def)
      have "\<not> window_over t (cwStarted w)" by (rule window_lasts(1) [OF f]) (use assms(4) in simp_all)
      then obtain w' where a: "allow_in rp w t = (b, w')" "l' = ?l\<lparr>clEntries := AList.update k w' (clEntries ?l)\<rparr>"
        using assms(5) Some by (auto simp: limiter_allow_def Let_def split: prod.splits)
      have "follows rp permits t0 t w' (ts @ [t]) (n + (if b then 1 else 0))" by (rule call [OF f a(1)]) simp
      then show ?thesis using True p a(2) by (auto simp: tracked_def update_conv')
    next
      case False
      then obtain w' where "l' = ?l\<lparr>clEntries := AList.update k w' (clEntries ?l)\<rparr>"
        using assms(5) Some by (auto simp: limiter_allow_def Let_def split: prod.splits if_splits)
      then show ?thesis using False T by (simp add: tracked_def update_conv' split: option.splits)
    qed
  next
    case None
    obtain ov act where ov: "current_window rp permits (clOverflow ?l) t = (ov, act)" by (metis prod.exhaust)
    have fo: "\<exists>ts. follows rp permits t0 t ov ts n" "act \<longleftrightarrow> clOverflow ?l \<noteq> None" if no: "map_of (clEntries ?l) key = None"
    proof -
      have "(\<exists>ts. follows rp permits t0 t ov ts n) \<and> (act \<longleftrightarrow> clOverflow ?l \<noteq> None)"
      proof (cases "clOverflow ?l")
        case None
        then have "n = 0" using T no by (simp add: tracked_def)
        then show ?thesis using ov None fresh by (auto simp: current_window_def)
      next
        case (Some w)
        then obtain ts where f: "follows rp permits t0 t w ts n" using T no by (auto simp: tracked_def)
        have "current_window rp permits (Some w) t = (w, True)" by (rule window_lasts(2) [OF f]) (use assms(4) in simp_all)
        then show ?thesis using ov Some f by auto
      qed
      then show "\<exists>ts. follows rp permits t0 t ov ts n" "act \<longleftrightarrow> clOverflow ?l \<noteq> None" by simp_all
    qed
    show ?thesis
    proof (cases "act \<or> length (clEntries ?l) \<ge> maxCredentialPartitions")
      case True
      then obtain w' where a: "allow_in rp ov t = (b, w')" "l' = ?l\<lparr>clOverflow := Some w'\<rparr>"
        using assms(5) None ov p by (auto simp: limiter_allow_def Let_def split: prod.splits)
      show ?thesis
      proof (cases "map_of (clEntries ?l) key")
        case None
        then obtain ts where f: "follows rp permits t0 t ov ts n" using fo(1) by blast
        have "follows rp permits t0 t w' (ts @ [t]) (n + (if k = key \<and> b then 1 else 0))" by (rule call [OF f a(1)]) simp
        then show ?thesis using None p a(2) by (auto simp: tracked_def)
      next
        case (Some w)
        then have "k \<noteq> key" using None by auto
        then show ?thesis using T Some a(2) by (simp add: tracked_def)
      qed
    next
      case False
      then obtain w' where a: "allow_in rp (fst (current_window rp permits None t)) t = (b, w')"
        "l' = ?l\<lparr>clEntries := AList.update k w' (clEntries ?l)\<rparr>"
        using assms(5) None ov p by (auto simp: limiter_allow_def Let_def split: prod.splits)
      show ?thesis
      proof (cases "k = key")
        case True
        then have "n = 0" using T None False fo(2) by (simp add: tracked_def)
        moreover have "follows rp permits t0 t w' ([] @ [t]) (0 + (if b then 1 else 0))" by (rule call [OF fresh a(1)]) simp
        ultimately show ?thesis using True p a(2) by (auto simp: tracked_def update_conv')
      next
        case False
        then show ?thesis using T a(2) by (simp add: tracked_def update_conv' split: option.splits)
      qed
    qed
  qed
qed

definition allowed_calls :: "string \<Rightarrow> (string \<times> go_time) list \<Rightarrow> bool list \<Rightarrow> nat" where
  "allowed_calls key calls answers = length (filter (\<lambda>(c, b). fst c = key \<and> b) (zip calls answers))"

lemma run_limiter_tracked:
  assumes "tracked rp key permits t0 now l n" and "nanos t0 \<le> nanos now" and "sorted (map (nanos \<circ> snd) calls)"
    and "\<forall>c\<in>set calls. nanos now \<le> nanos (snd c) \<and> nanos (snd c) < nanos t0 + minute"
  shows "\<exists>later l'. tracked rp key permits t0 later l' (n + allowed_calls key calls (fst (run_limiter rp calls l)))
    \<and> (later = now \<or> later \<in> snd ` set calls)"
  using assms
proof (induction calls arbitrary: now l n)
  case Nil
  then show ?case by (auto simp: allowed_calls_def)
next
  case (Cons c calls)
  obtain k t where c: "c = (k, t)" by (cases c)
  obtain b l' where a: "limiter_allow rp k t l = (b, l')" by (metis prod.exhaust)
  have t: "nanos now \<le> nanos t" "nanos t < nanos t0 + minute" using Cons.prems(4) c by auto
  let ?n = "n + (if k = key \<and> b then 1 else 0)"
  have T: "tracked rp key permits t0 t l' ?n" by (rule limiter_allow_tracked [OF Cons.prems(1,2) t a])
  obtain later l'' where L: "tracked rp key permits t0 later l'' (?n + allowed_calls key calls (fst (run_limiter rp calls l')))"
    "later = t \<or> later \<in> snd ` set calls"
    using Cons.IH [OF T] Cons.prems(2-4) c t by (auto simp: comp_def)
  have "fst (run_limiter rp (c # calls) l) = b # fst (run_limiter rp calls l')"
    by (cases "run_limiter rp calls l'") (simp add: c a)
  then have "allowed_calls key (c # calls) (fst (run_limiter rp (c # calls) l))
      = (if k = key \<and> b then 1 else 0) + allowed_calls key calls (fst (run_limiter rp calls l'))"
    by (simp add: c allowed_calls_def)
  moreover have "later = now \<or> later \<in> snd ` set (c # calls)" using L(2) c by auto
  ultimately show ?case using L(1) by (metis add.assoc)
qed


section \<open>Witnesses\<close>

text \<open>A bucket that only counts.\<close>

definition counting_rates :: "nat rate_package" where
  "counting_rates = \<lparr>rpNew = nat, rpAllow = \<lambda>n t. if 0 < n then (True, n - 1) else (False, 0)\<rparr>"

lemma counting_rates_honour: "honours_permits counting_rates"
proof -
  have bucket: "allowed (fst (run_bucket counting_rates ts n)) \<le> n" for ts n
  proof (induction ts arbitrary: n)
    case (Cons t ts)
    show ?case using Cons [of "n - 1"] Cons [of 0]
      by (cases "run_bucket counting_rates ts (n - 1)"; cases "run_bucket counting_rates ts 0")
        (auto simp: counting_rates_def allowed_def)
  qed (simp add: allowed_def)
  have "int (allowed (fst (run_bucket counting_rates ts (rpNew counting_rates permits)))) \<le> max 0 permits" for ts permits
    using bucket [of ts "nat permits"] by (simp add: counting_rates_def)
  then show ?thesis by (simp add: honours_permits_def)
qed

definition sample_server :: web_server where
  "sample_server = \<lparr>svSHA256 = one_digest, svMAC = \<lambda>_. one_digest, svLower = \<lambda>r. r, svFold = \<lambda>r. r,
     svParseURL = \<lambda>_. None, svIsIP = \<lambda>_. True, svPublicOrigin = ''''\<rparr>"

definition sample_digest :: string where "sample_digest = replicate 32 (CHR 0x01)"
definition sample_token :: string where "sample_token = raw_encode True (replicate 32 (CHR 0x02))"

lemma sample_token_decodes: "decode_opaque_token sample_token = Some (replicate 32 (CHR 0x02))"
  by (simp add: sample_token_def)

definition sample_session :: session where
  "sample_session = \<lparr>snTokenHash = sample_digest, snUserID = ''u1'', snAuthenticatedAt = sample_instant,
     snExpiresAt = time_add sample_instant SessionLifetime\<rparr>"

definition sample_antiforgery :: antiforgery where
  "sample_antiforgery = \<lparr>afSelectorHash = sample_digest, afRequestTokenHash = sample_digest, afSessionTokenHash = sample_digest,
     afExpiresAt = time_add sample_instant SessionLifetime\<rparr>"

definition signed_in_identity :: identity_db where
  "signed_in_identity = provisioned_identity\<lparr>idSessions := [sample_session], idAntiforgery := [sample_antiforgery]\<rparr>"

definition sample_request :: web_request where
  "sample_request = \<lparr>rqMethod = ''POST'', rqCookies = \<lambda>_. Some sample_token, rqAntiforgery = [sample_token], rqOrigin = [],
     rqReferer = [], rqHost = '''', rqTLS = False, rqRemoteAddr = ''10.0.0.1:1''\<rparr>"

lemma sample_digest_facts: "length sample_digest = 32" "sample_digest \<noteq> no_hash" "digest one_digest x = sample_digest"
  by (simp_all add: sample_digest_def no_hash_def)

lemma sample_expiry: "is_utc (time_add sample_instant SessionLifetime)" "is_db_instant (time_add sample_instant SessionLifetime)"
  by (code_simp, code_simp)

lemma signed_in_ok: "sessions_ok signed_in_identity"
proof -
  have "restore_session sample_digest ''u1'' sample_instant (time_add sample_instant SessionLifetime) = Inr sample_session"
    using sample_instant_valid sample_expiry sample_digest_facts by (simp add: restore_session_Inr sample_session_def)
  moreover have "is_db_instant sample_instant" by code_simp
  ultimately show ?thesis using sample_expiry sample_digest_facts
    by (simp add: sessions_ok_def signed_in_identity_def session_ok_def token_ok_def provisioned_identity_def sample_identity_def
        sample_account_def new_session_antiforgery_Inr) (simp add: sample_session_def sample_antiforgery_def)
qed

lemma signed_in_find: "find_session sample_digest signed_in_identity = Inr (Some sample_session)"
  "find_session_antiforgery sample_digest signed_in_identity = Inr (Some sample_antiforgery)"
  using find_session_ok [OF signed_in_ok] find_session_antiforgery_ok [OF signed_in_ok]
  by (simp_all add: signed_in_identity_def sample_session_def sample_antiforgery_def)

lemma signed_in_accounts: "accounts_ok low signed_in_identity" "sample_account ''$h'' \<in> set (idUsers signed_in_identity)"
  using sample_valid(2) [OF sample_text(1)] by (simp_all add: accounts_ok_def signed_in_identity_def provisioned_identity_def)
    (simp add: sample_identity_def)

lemma signed_in_loads:
  "load_session sample_server sample_instant sample_request signed_in_identity = (Inr (Some (sample_account ''$h'', sample_session)), signed_in_identity)"
proof -
  have "find_by_id (\<lambda>r. r) ''u1'' signed_in_identity = Inr (Some (sample_account ''$h''))"
    using find_id [OF signed_in_accounts] by (simp add: sample_account_def)
  moreover have "\<not> session_expired sample_session (to_utc sample_instant)" by code_simp
  moreover have "snUserID sample_session = ''u1''" by (simp add: sample_session_def)
  ultimately show ?thesis using signed_in_find
    by (simp add: load_session_def sample_request_def sample_token_decodes hash_token_def sample_server_def sample_digest_def [symmetric])
qed

lemma signed_in_checked: "browser_checks sample_server (Some (sample_account ''$h'', sample_session)) sample_instant sample_request signed_in_identity
    = (Inr (Some (sample_account ''$h'', sample_session)), signed_in_identity)"
proof -
  have "\<not> antiforgery_expired sample_antiforgery (to_utc sample_instant)" by code_simp
  moreover have "afRequestTokenHash sample_antiforgery = sample_digest" "afSessionTokenHash sample_antiforgery = snTokenHash sample_session"
    by (simp_all add: sample_antiforgery_def sample_session_def)
  ultimately show ?thesis using signed_in_find(2)
    by (simp add: browser_checks_def valid_antiforgery_def acceptable_browser_origin_def acceptable_referer_def sample_request_def
        sample_token_decodes hash_token_def sample_server_def sample_digest_def [symmetric])
qed

lemma signed_in_member: "membership_of ''o1'' ''u1'' signed_in_identity = Inr (Some (default_member ''u1''))"
proof -
  have "membership_of ''o1'' ''u1'' signed_in_identity = membership_of ''o1'' ''u1'' provisioned_identity"
    by (simp add: membership_of_def find_membership_def signed_in_identity_def)
  moreover have "to_utc (msCreatedAt (default_member ''u1'')) = sample_instant" "valid_role RoleAdministrator"
    using sample_instant_valid by (simp_all add: default_member_def valid_role_def BuiltInRoles_def)
  ultimately show ?thesis using sample_instant_valid
    by (simp add: membership_of_def find_membership_def provisioned_identity_def)
      (simp add: default_member_def new_membership_def)
qed

theorem unsafe_requests_are_protected_witness:
  "protect_unsafe sample_server (require_organization_permission sample_server ''o1'' PermissionMonitorWrite) sample_instant sample_instant
       sample_request signed_in_identity = (Inr (sample_account ''$h'', sample_session), signed_in_identity)
   \<and> (\<exists>cookie raw. rqCookies sample_request sessionCookieName = Some cookie \<and> decode_opaque_token cookie = Some raw
        \<and> snTokenHash sample_session = hash_token sample_server raw)"
proof -
  have "role_permits (msRole (default_member ''u1'')) PermissionMonitorWrite"
    by (simp add: default_member_def role_permits_def)
  moreover have id: "acID (sample_account ''$h'') = ''u1''" by (simp add: sample_account_def)
  ultimately have p: "protect_unsafe sample_server (require_organization_permission sample_server ''o1'' PermissionMonitorWrite) sample_instant sample_instant
       sample_request signed_in_identity = (Inr (sample_account ''$h'', sample_session), signed_in_identity)"
    using signed_in_member id by (simp add: protect_unsafe_def require_organization_permission_def require_authentication_def signed_in_loads
        signed_in_checked)
  from unsafe_requests_are_protected [OF p signed_in_ok] p show ?thesis by blast
qed

theorem outsiders_cannot_tell_witness:
  "fst (require_organization_permission sample_server ''o2'' PermissionMonitorRead sample_instant sample_request signed_in_identity) = Inl (StatusProblem 404)
   \<and> fst (require_organization_permission sample_server ''o3'' PermissionMonitorRead sample_instant sample_request signed_in_identity) = Inl (StatusProblem 404)"
proof -
  have a: "require_authentication sample_server sample_instant sample_request signed_in_identity
      = (Inr (sample_account ''$h'', sample_session), signed_in_identity)"
    by (simp add: require_authentication_def signed_in_loads)
  show ?thesis
    by (rule outsiders_cannot_tell [OF a a]) (simp_all add: signed_in_identity_def provisioned_identity_def default_member_def)
qed


end
