(* ===== verification/Endpoints.thy ===== *)
theory Endpoints
  imports Access
begin

text \<open>
  The endpoints of \<open>internal/httpapi\<close> for setup, login, users and Organizations: \<open>auth.go\<close>, \<open>users.go\<close>,
  \<open>organization.go\<close> and the transport of \<open>respond.go\<close>. An endpoint answers with a status and a value, or
  with a refusal; a cookie that it sets is part of the value. What a handler reads besides the
  request, the clock, random bytes and the other requests between its steps, is the record
  \<open>request_env\<close>. The lemmas show what a login opens and a logout closes, and that the endpoints
  write only for those who may.
\<close>

section \<open>Bodies and answers\<close>

text \<open>
  The two calls of the JSON decoder on a body of limited size: the value it read first, unless that
  failed, and whether nothing follows it.
\<close>

record raw_body =
  rbFirst :: "string option"
  rbEnds :: bool

definition malformedRequestCode :: string where "malformedRequestCode = ''request.malformed''"

definition utf8_valid :: "string \<Rightarrow> bool" where
  "utf8_valid s \<longleftrightarrow> list_all (\<lambda>(r, bs). \<not> (r = RuneError \<and> length bs = 1)) (pieces s)"

definition decode_json :: "(string \<Rightarrow> 'b option) \<Rightarrow> raw_body \<Rightarrow> refusal + 'b" where
  "decode_json unmarshal body =
     (case rbFirst body of
        None \<Rightarrow> Inl (CodedProblem 400 malformedRequestCode)
      | Some payload \<Rightarrow>
          if \<not> rbEnds body then Inl (CodedProblem 400 malformedRequestCode)
          else if \<not> utf8_valid payload then Inl (CodedProblem 400 malformedRequestCode)
          else if trim_space payload = ''null'' then Inl (CodedProblem 400 malformedRequestCode)
          else case unmarshal payload of None \<Rightarrow> Inl (CodedProblem 400 malformedRequestCode) | Some v \<Rightarrow> Inr v)"

definition value_or_empty :: "string option \<Rightarrow> string" where
  "value_or_empty v = (case v of None \<Rightarrow> '''' | Some s \<Rightarrow> s)"

definition status_problem_code :: "int \<Rightarrow> string" where
  "status_problem_code status =
     (if status = 401 then ''auth.unauthorized'' else if status = 403 then ''auth.forbidden''
      else if status = 404 then ''resource.notFound'' else if status = 405 then ''request.methodNotAllowed''
      else if status = 429 then ''request.rateLimited'' else '''')"

text \<open>The status and the code of what is written for a refusal.\<close>

fun refusal_status :: "refusal \<Rightarrow> int \<times> string" where
  "refusal_status (StatusProblem status) = (status, status_problem_code status)"
| "refusal_status (CodedProblem status code) = (status, code)"
| "refusal_status (ValidationProblem failures) = (400, '''')"
| "refusal_status (InternalError operation) = (500, ''server.internalError'')"
| "refusal_status (MethodNotAllowed methods) = (405, status_problem_code 405)"

text \<open>The failures of a validation problem by field, each field in encounter order.\<close>

definition errors_by_field :: "validation_failure list \<Rightarrow> string \<Rightarrow> (string \<times> string) list" where
  "errors_by_field failures field =
     map (\<lambda>f. (vfCode f, vfMessage f)) (filter (\<lambda>f. vfField f = field) failures)"

datatype 'a answer = Refused refusal | Answered int 'a

record request_env =
  reClock :: "nat \<Rightarrow> go_time"
  reRandom :: "nat \<Rightarrow> (nat \<Rightarrow> char) result"
  reUUID :: "string result"
  reBody :: raw_body
  rePath :: "string \<Rightarrow> string"
  reBetween :: "identity_db \<Rightarrow> identity_db"

record 'l web_state =
  wsDb :: identity_db
  wsCredentials :: "'l credential_limiter"
  wsDummy :: string

record user_service =
  usHash :: "string \<Rightarrow> string result"
  usVerify :: "string \<Rightarrow> string \<Rightarrow> password_verification result"

text \<open>\<open>canonicalUUID\<close>, with the bytes of a UUID in either case.\<close>

definition hexadecimal :: "char \<Rightarrow> bool" where
  "hexadecimal c \<longleftrightarrow> (48 \<le> byte c \<and> byte c \<le> 57) \<or> (97 \<le> byte c \<and> byte c \<le> 102) \<or> (65 \<le> byte c \<and> byte c \<le> 70)"

definition canonical_uuid :: "web_server \<Rightarrow> string \<Rightarrow> string option" where
  "canonical_uuid sv v =
     (if length v \<noteq> 36 \<or> \<not> list_all (\<lambda>i. v ! i = CHR ''-'') [8, 13, 18, 23] then None
      else if list_all (\<lambda>i. i \<in> {8, 13, 18, 23} \<or> hexadecimal (v ! i)) [0..<length v] then Some (to_lower (svLower sv) v)
      else None)"

record user_response =
  urID :: string
  urEmail :: string
  urDisplayName :: string
  urRole :: string
  urCreatedAt :: go_time

record session_response =
  srUserID :: string
  srEmail :: string
  srDisplayName :: string
  srRole :: string

definition to_user_response :: "account \<Rightarrow> user_response" where
  "to_user_response a = \<lparr>urID = acID a, urEmail = acEmail a, urDisplayName = acDisplayName a, urRole = acRole a,
     urCreatedAt = acCreatedAt a\<rparr>"

definition to_session_response :: "account \<Rightarrow> session_response" where
  "to_session_response a = \<lparr>srUserID = acID a, srEmail = acEmail a, srDisplayName = acDisplayName a, srRole = acRole a\<rparr>"

section \<open>Setup and login\<close>

definition setup_status_endpoint :: "web_request \<Rightarrow> identity_db \<Rightarrow> bool answer" where
  "setup_status_endpoint r d =
     (if rqMethod r \<noteq> ''GET'' then Refused (MethodNotAllowed [''GET'']) else Answered 200 (any_users_exist d))"

definition credential_guard ::
  "web_server \<Rightarrow> 'l rate_package \<Rightarrow> request_env \<Rightarrow> web_request \<Rightarrow> 'l web_state \<Rightarrow> (refusal + principal option) \<times> 'l web_state" where
  "credential_guard sv rp re r w =
     (case prepare_credential_unsafe sv rp (reClock re 0) (reClock re 1) (reClock re 2) r (wsDb w) (wsCredentials w) of
        (res, d, l) \<Rightarrow> (res, w\<lparr>wsDb := d, wsCredentials := l\<rparr>))"

definition setup_endpoint ::
  "(string \<Rightarrow> (string option \<times> string option \<times> string option) option) \<Rightarrow> web_server \<Rightarrow> user_service \<Rightarrow> 'l rate_package \<Rightarrow> string result \<Rightarrow>
     request_env \<Rightarrow> web_request \<Rightarrow> 'l web_state \<Rightarrow> (user_response \<times> organization \<times> string) answer \<times> 'l web_state" where
  "setup_endpoint unmarshal sv us rp organization_uuid re r w =
     (if rqMethod r \<noteq> ''POST'' then (Refused (MethodNotAllowed [''POST'']), w)
      else case credential_guard sv rp re r w of
        (Inl e, w1) \<Rightarrow> (Refused e, w1)
      | (Inr _, w1) \<Rightarrow>
          (case decode_json unmarshal (reBody re) of
             Inl e \<Rightarrow> (Refused e, w1)
           | Inr (email, name, password) \<Rightarrow>
               (case setup_administrator (svLower sv) (usHash us) (reUUID re) (reClock re 3)
                  (value_or_empty email) (value_or_empty name) (value_or_empty password) (wsDb w1) of
                  (Inl e, d) \<Rightarrow> (Refused (InternalError ''create first administrator''), w1\<lparr>wsDb := d\<rparr>)
                | (Inr (UserCreated a), d) \<Rightarrow>
                    (case provision_bootstrap (acID a) organization_uuid (reClock re 4) (reBetween re) d of
                       (Inl e, d') \<Rightarrow> (Refused (InternalError ''provision bootstrap Organization''), w1\<lparr>wsDb := d'\<rparr>)
                     | (Inr (ProvisionInvalid fs), d') \<Rightarrow>
                         (Refused (InternalError ''provision bootstrap Organization''), w1\<lparr>wsDb := d'\<rparr>)
                     | (Inr (ProvisionCreated v), d') \<Rightarrow>
                         (case create_session sv (reRandom re 0) (reClock re 5) r a d' of
                            (Inl e, d'') \<Rightarrow> (Refused (InternalError ''create setup session''), w1\<lparr>wsDb := d''\<rparr>)
                          | (Inr cookie, d'') \<Rightarrow> (Answered 201 (to_user_response a, v, cookie), w1\<lparr>wsDb := d''\<rparr>)))
                | (Inr SetupCompleted, d) \<Rightarrow> (Refused (CodedProblem 409 ''user.setup.alreadyCompleted''), w1\<lparr>wsDb := d\<rparr>)
                | (Inr (UserInvalid fs), d) \<Rightarrow> (Refused (ValidationProblem fs), w1\<lparr>wsDb := d\<rparr>)
                | (Inr UserDuplicateEmail, d) \<Rightarrow> (Refused (InternalError ''create first administrator''), w1\<lparr>wsDb := d\<rparr>))))"

definition login_endpoint ::
  "(string \<Rightarrow> (string option \<times> string option) option) \<Rightarrow> web_server \<Rightarrow> user_service \<Rightarrow> 'l rate_package \<Rightarrow>
     request_env \<Rightarrow> web_request \<Rightarrow> 'l web_state \<Rightarrow> (session_response \<times> string) answer \<times> 'l web_state" where
  "login_endpoint unmarshal sv us rp re r w =
     (if rqMethod r \<noteq> ''POST'' then (Refused (MethodNotAllowed [''POST'']), w)
      else case credential_guard sv rp re r w of
        (Inl e, w1) \<Rightarrow> (Refused e, w1)
      | (Inr _, w1) \<Rightarrow>
          (case decode_json unmarshal (reBody re) of
             Inl e \<Rightarrow> (Refused e, w1)
           | Inr (email, password) \<Rightarrow>
               (case authenticate (svLower sv) (usHash us) (usVerify us) (value_or_empty email) (value_or_empty password)
                  (reBetween re) (wsDb w1) (wsDummy w1) of
                  (Inl e, d, dummy, _) \<Rightarrow> (Refused (InternalError ''authenticate local user''), w1\<lparr>wsDb := d, wsDummy := dummy\<rparr>)
                | (Inr InvalidCredentials, d, dummy, _) \<Rightarrow>
                    (Refused (CodedProblem 401 ''user.credentials.invalid''), w1\<lparr>wsDb := d, wsDummy := dummy\<rparr>)
                | (Inr (Authenticated a), d, dummy, _) \<Rightarrow>
                    (case create_session sv (reRandom re 0) (reClock re 3) r a d of
                       (Inl e, d') \<Rightarrow> (Refused (InternalError ''create login session''), w1\<lparr>wsDb := d', wsDummy := dummy\<rparr>)
                     | (Inr cookie, d') \<Rightarrow> (Answered 200 (to_session_response a, cookie), w1\<lparr>wsDb := d', wsDummy := dummy\<rparr>)))))"

text \<open>The cookie of a session is expired with the answer.\<close>

definition logout_endpoint :: "web_server \<Rightarrow> request_env \<Rightarrow> web_request \<Rightarrow> identity_db \<Rightarrow> unit answer \<times> identity_db" where
  "logout_endpoint sv re r d =
     (if rqMethod r \<noteq> ''POST'' then (Refused (MethodNotAllowed [''POST'']), d)
      else case protect_unsafe sv (require_authentication sv) (reClock re 0) (reClock re 1) r d of
        (Inl e, d') \<Rightarrow> (Refused e, d')
      | (Inr (a, s), d') \<Rightarrow> (Answered 204 (), delete_session (snTokenHash s) d'))"

definition session_endpoint :: "web_server \<Rightarrow> request_env \<Rightarrow> web_request \<Rightarrow> identity_db \<Rightarrow> session_response answer \<times> identity_db" where
  "session_endpoint sv re r d =
     (if rqMethod r \<noteq> ''GET'' then (Refused (MethodNotAllowed [''GET'']), d)
      else case require_authentication sv (reClock re 0) r d of
        (Inl e, d') \<Rightarrow> (Refused e, d') | (Inr (a, s), d') \<Rightarrow> (Answered 200 (to_session_response a), d'))"

text \<open>The answer of \<open>issueAntiforgery\<close> is the request token and the selector for the cookie.\<close>

definition issue_antiforgery :: "web_server \<Rightarrow> request_env \<Rightarrow> web_request \<Rightarrow> identity_db \<Rightarrow> (string \<times> string) answer \<times> identity_db" where
  "issue_antiforgery sv re r d =
     (if rqMethod r \<noteq> ''GET'' then (Refused (MethodNotAllowed [''GET'']), d)
      else case load_session sv (reClock re 0) r d of
        (Inl e, d1) \<Rightarrow> (Refused (InternalError ''load optional session''), d1)
      | (Inr p, d1) \<Rightarrow>
          let rotate = (\<lambda>e. case rqCookies r antiforgeryCookieName of
              None \<Rightarrow> e
            | Some cookie \<Rightarrow>
                (case decode_opaque_token cookie of
                   None \<Rightarrow> e | Some old \<Rightarrow> delete_session_antiforgery (hash_token sv old) e))
          in case p of
               None \<Rightarrow>
                 (case new_anonymous_antiforgery (svMAC sv) (reRandom re 0) (reRandom re 1) (to_utc (reClock re 1)) d1 of
                    (Inl e, d2) \<Rightarrow> (Refused (InternalError ''generate anonymous antiforgery token''), d2)
                  | (Inr (raw, selector, request), d2) \<Rightarrow> (Answered 200 (request, selector), rotate d2))
             | Some (a, s) \<Rightarrow>
                 (case and_then (new_opaque_token (reRandom re 0)) (\<lambda>x. and_then (new_opaque_token (reRandom re 1)) (\<lambda>y. Inr (x, y))) of
                    Inl e \<Rightarrow> (Refused (InternalError ''generate session antiforgery token''), d1)
                  | Inr ((selector_raw, selector), (request_raw, request)) \<Rightarrow>
                      let d2 = rotate d1 in
                      (case new_session_antiforgery (hash_token sv selector_raw) (hash_token sv request_raw) (snTokenHash s) (snExpiresAt s) of
                         Inl e \<Rightarrow> (Refused (InternalError ''construct antiforgery state''), d2)
                       | Inr t \<Rightarrow>
                           (case create_session_antiforgery t d2 of
                              (Inl e, d3) \<Rightarrow> (Refused (InternalError ''persist antiforgery state''), d3)
                            | (Inr _, d3) \<Rightarrow> (Answered 200 (request, selector), d3)))))"

section \<open>Users\<close>

definition list_users_endpoint :: "web_server \<Rightarrow> request_env \<Rightarrow> web_request \<Rightarrow> identity_db \<Rightarrow> user_response list answer \<times> identity_db" where
  "list_users_endpoint sv re r d =
     (case require_instance_administrator sv (reClock re 0) r d of
        (Inl e, d') \<Rightarrow> (Refused e, d')
      | (Inr _, d') \<Rightarrow>
          (case list_accounts (svLower sv) d' of
             Inl e \<Rightarrow> (Refused (InternalError ''list users''), d')
           | Inr values \<Rightarrow> (Answered 200 (map to_user_response values), d')))"

definition create_user_endpoint ::
  "(string \<Rightarrow> (string option \<times> string option \<times> string option) option) \<Rightarrow> web_server \<Rightarrow> user_service \<Rightarrow> request_env \<Rightarrow> web_request \<Rightarrow>
     identity_db \<Rightarrow> user_response answer \<times> identity_db" where
  "create_user_endpoint unmarshal sv us re r d =
     (case protect_unsafe sv (require_instance_administrator sv) (reClock re 0) (reClock re 1) r d of
        (Inl e, d') \<Rightarrow> (Refused e, d')
      | (Inr _, d') \<Rightarrow>
          (case decode_json unmarshal (reBody re) of
             Inl e \<Rightarrow> (Refused e, d')
           | Inr (email, name, password) \<Rightarrow>
               (case create_user (svLower sv) (usHash us) (reUUID re) (reClock re 2)
                  (value_or_empty email) (value_or_empty name) (value_or_empty password) d' of
                  (Inl e, d'') \<Rightarrow> (Refused (InternalError ''create user''), d'')
                | (Inr (UserCreated a), d'') \<Rightarrow>
                    (case add_member_to_all (acID a) (reClock re 3) (reBetween re) d'' of
                       (Inl e, d3) \<Rightarrow> (Refused (InternalError ''add user to Organizations''), d3)
                     | (Inr _, d3) \<Rightarrow> (Answered 201 (to_user_response a), d3))
                | (Inr UserDuplicateEmail, d'') \<Rightarrow> (Refused (CodedProblem 409 ''user.email.conflict''), d'')
                | (Inr (UserInvalid fs), d'') \<Rightarrow> (Refused (ValidationProblem fs), d'')
                | (Inr SetupCompleted, d'') \<Rightarrow> (Refused (InternalError ''create user''), d''))))"

definition update_user_endpoint ::
  "(string \<Rightarrow> (string option \<times> string option) option) \<Rightarrow> web_server \<Rightarrow> request_env \<Rightarrow> web_request \<Rightarrow>
     identity_db \<Rightarrow> user_response answer \<times> identity_db" where
  "update_user_endpoint unmarshal sv re r d =
     (case canonical_uuid sv (rePath re ''userId'') of
        None \<Rightarrow> (Refused (StatusProblem 404), d)
      | Some i \<Rightarrow>
          if rqMethod r \<noteq> ''PUT'' then (Refused (MethodNotAllowed [''PUT'']), d)
          else case protect_unsafe sv (require_instance_administrator sv) (reClock re 0) (reClock re 1) r d of
            (Inl e, d') \<Rightarrow> (Refused e, d')
          | (Inr _, d') \<Rightarrow>
              (case decode_json unmarshal (reBody re) of
                 Inl e \<Rightarrow> (Refused e, d')
               | Inr (email, name) \<Rightarrow>
                   (case update_user (svLower sv) i (value_or_empty email) (value_or_empty name) (reBetween re) d' of
                      (Inl e, d'') \<Rightarrow> (Refused (InternalError ''update user''), d'')
                    | (Inr (ProfileUpdated a), d'') \<Rightarrow> (Answered 200 (to_user_response a), d'')
                    | (Inr ProfileNotFound, d'') \<Rightarrow> (Refused (StatusProblem 404), d'')
                    | (Inr ProfileDuplicateEmail, d'') \<Rightarrow> (Refused (CodedProblem 409 ''user.email.conflict''), d'')
                    | (Inr (ProfileInvalid fs), d'') \<Rightarrow> (Refused (ValidationProblem fs), d''))))"

section \<open>Organizations\<close>

definition list_organizations_endpoint :: "web_server \<Rightarrow> request_env \<Rightarrow> web_request \<Rightarrow> identity_db \<Rightarrow> organization list answer \<times> identity_db" where
  "list_organizations_endpoint sv re r d =
     (case require_authentication sv (reClock re 0) r d of
        (Inl e, d') \<Rightarrow> (Refused e, d')
      | (Inr (a, s), d') \<Rightarrow>
          (case list_for_member (acID a) d' of
             Inl e \<Rightarrow> (Refused (InternalError ''list Organizations''), d')
           | Inr values \<Rightarrow> (Answered 200 values, d')))"

definition create_organization_endpoint ::
  "(string \<Rightarrow> string option option) \<Rightarrow> web_server \<Rightarrow> request_env \<Rightarrow> web_request \<Rightarrow> identity_db \<Rightarrow> organization answer \<times> identity_db" where
  "create_organization_endpoint unmarshal sv re r d =
     (case protect_unsafe sv (require_instance_administrator sv) (reClock re 0) (reClock re 1) r d of
        (Inl e, d') \<Rightarrow> (Refused e, d')
      | (Inr (a, s), d') \<Rightarrow>
          (case decode_json unmarshal (reBody re) of
             Inl e \<Rightarrow> (Refused e, d')
           | Inr name \<Rightarrow>
               (case provision (value_or_empty name) (acID a) (reUUID re) (reClock re 2) (reBetween re) d' of
                  (Inl e, d'') \<Rightarrow> (Refused (InternalError ''provision Organization''), d'')
                | (Inr (ProvisionCreated v), d'') \<Rightarrow> (Answered 201 v, d'')
                | (Inr (ProvisionInvalid fs), d'') \<Rightarrow> (Refused (ValidationProblem fs), d''))))"

definition organization_item_endpoint :: "web_server \<Rightarrow> request_env \<Rightarrow> web_request \<Rightarrow> identity_db \<Rightarrow> organization answer \<times> identity_db" where
  "organization_item_endpoint sv re r d =
     (case canonical_uuid sv (rePath re ''organizationId'') of
        None \<Rightarrow> (Refused (StatusProblem 404), d)
      | Some i \<Rightarrow>
          if rqMethod r \<noteq> ''GET'' then (Refused (MethodNotAllowed [''GET'']), d)
          else case require_organization_permission sv i PermissionOrganizationRead (reClock re 0) r d of
            (Inl e, d') \<Rightarrow> (Refused e, d')
          | (Inr _, d') \<Rightarrow>
              (case find_organization i d' of
                 Inl e \<Rightarrow> (Refused (InternalError ''get Organization''), d')
               | Inr None \<Rightarrow> (Refused (StatusProblem 404), d')
               | Inr (Some v) \<Rightarrow> (Answered 200 v, d')))"

definition rename_organization_endpoint ::
  "(string \<Rightarrow> string option option) \<Rightarrow> web_server \<Rightarrow> request_env \<Rightarrow> web_request \<Rightarrow> identity_db \<Rightarrow> organization answer \<times> identity_db" where
  "rename_organization_endpoint unmarshal sv re r d =
     (case canonical_uuid sv (rePath re ''organizationId'') of
        None \<Rightarrow> (Refused (StatusProblem 404), d)
      | Some i \<Rightarrow>
          if rqMethod r \<noteq> ''PUT'' then (Refused (MethodNotAllowed [''PUT'']), d)
          else case protect_unsafe sv (require_organization_permission sv i PermissionOrganizationWrite) (reClock re 0) (reClock re 1) r d of
            (Inl e, d') \<Rightarrow> (Refused e, d')
          | (Inr _, d') \<Rightarrow>
              (case decode_json unmarshal (reBody re) of
                 Inl e \<Rightarrow> (Refused e, d')
               | Inr name \<Rightarrow>
                   (case rename_organization i (value_or_empty name) d' of
                      (Inl e, d'') \<Rightarrow> (Refused (InternalError ''rename Organization''), d'')
                    | (Inr (RenameRenamed v), d'') \<Rightarrow> (Answered 200 v, d'')
                    | (Inr RenameNotFound, d'') \<Rightarrow> (Refused (StatusProblem 404), d'')
                    | (Inr (RenameInvalid fs), d'') \<Rightarrow> (Refused (ValidationProblem fs), d''))))"

section \<open>Sessions over requests\<close>

lemma login_answered:
  assumes "login_endpoint unmarshal sv us rp re r w = (Answered status (v, cookie), w')"
  obtains a d where "create_session sv (reRandom re 0) (reClock re 3) r a d = (Inr cookie, wsDb w')" "v = to_session_response a"
proof -
  have m: "rqMethod r = ''POST''" using assms by (simp add: login_endpoint_def split: if_split_asm)
  obtain q w1 where g: "credential_guard sv rp re r w = (Inr q, w1)"
    using assms m by (cases "credential_guard sv rp re r w") (auto simp: login_endpoint_def split: sum.split_asm)
  obtain email password where j: "decode_json unmarshal (reBody re) = Inr (email, password)"
    using assms m g by (cases "decode_json unmarshal (reBody re)") (auto simp: login_endpoint_def)
  obtain res d dummy hs where a: "authenticate (svLower sv) (usHash us) (usVerify us) (value_or_empty email) (value_or_empty password)
      (reBetween re) (wsDb w1) (wsDummy w1) = (res, d, dummy, hs)"
    by (metis prod.exhaust)
  obtain x where x: "res = Inr (Authenticated x)"
    using assms m g j a by (cases res) (auto simp: login_endpoint_def split: authentication.split_asm)
  obtain c d' where c: "create_session sv (reRandom re 0) (reClock re 3) r x d = (c, d')" by (metis prod.exhaust)
  have "v = to_session_response x \<and> c = Inr cookie \<and> wsDb w' = d'"
    using assms m g j a x c by (cases c) (auto simp: login_endpoint_def)
  then show thesis using that c by blast
qed

text \<open>C32. The cookie of a login answers for its user until exactly twelve hours later, to the microsecond of the
  columns, as long as the session and the user are not removed, with the profile the user has by then; from that
  instant on it is refused.\<close>

theorem login_lasts_twelve_hours:
  assumes "login_endpoint unmarshal sv us rp re r w = (Answered status (v, cookie), w')"
    and "List.last (idSessions (wsDb w')) \<in> set (idSessions d)" and "sessions_ok d" and "accounts_ok (svLower sv) d"
    and "b \<in> set (idUsers d)" and "acID b = srUserID v"
    and "rqMethod r2 = ''GET''" and "rqCookies r2 sessionCookieName = Some cookie"
  shows "fst (session_endpoint sv re2 r2 d) =
    (if nanos (reClock re2 0) < nanos (reClock re 3) div 1000 * 1000 + 12 * hour then Answered 200 (to_session_response b)
     else Refused (StatusProblem 401))"
proof -
  obtain a d0 where c: "create_session sv (reRandom re 0) (reClock re 3) r a d0 = (Inr cookie, wsDb w')" "v = to_session_response a"
    using login_answered [OF assms(1)] .
  have "acID b = acID a" using assms(6) c(2) by (simp add: to_session_response_def)
  note L = session_ends_after_twelve_hours [OF c(1) assms(2-5) this assms(8)]
  show ?thesis using L [of "reClock re2 0"] assms(7)
    by (cases "load_session sv (reClock re2 0) r2 d") (simp add: session_endpoint_def require_authentication_def split: if_splits)
qed

text \<open>A logout removes the session of its cookie and no other one, with the antiforgery token that was bound to
  it, and the cookie is refused from then on.\<close>

theorem logout_ends_session:
  assumes "logout_endpoint sv re r d = (Answered status v, d')" and "sessions_ok d"
    and "rqMethod r2 = ''GET''" and "rqCookies r2 sessionCookieName = rqCookies r sessionCookieName"
  shows "fst (session_endpoint sv re2 r2 d') = Refused (StatusProblem 401)
    \<and> (\<exists>s\<in>set (idSessions d). idSessions d' = filter (\<lambda>x. x \<noteq> s) (idSessions d)
        \<and> idAntiforgery d' = filter (\<lambda>t. afSessionTokenHash t \<noteq> snTokenHash s) (idAntiforgery d))"
proof -
  obtain a s d1 d2 q where l: "load_session sv (reClock re 0) r d = (Inr (Some (a, s)), d1)"
    and b: "browser_checks sv (Some (a, s)) (reClock re 1) r d1 = (Inr q, d2)" and d': "d' = delete_session (snTokenHash s) d2"
    using assms(1) by (auto simp: logout_endpoint_def protect_unsafe_def require_authentication_def
        split: if_split_asm prod.split_asm sum.split_asm option.split_asm)
  obtain cookie raw where L: "d1 = d" "rqCookies r sessionCookieName = Some cookie" "decode_opaque_token cookie = Some raw"
    "s \<in> set (idSessions d)" "snTokenHash s = hash_token sv raw"
    using load_session_Some [OF l assms(2)] by metis
  have d2: "d2 = d" using browser_checks_Inr [OF b [unfolded L(1)] assms(2)] by metis
  have u: "x = s" if "x \<in> set (idSessions d)" "snTokenHash x = snTokenHash s" for x
    using unique_onD [of "\<lambda>s. Some (snTokenHash s)" "idSessions d" x s] assms(2) L(4) that by (simp add: sessions_ok_def)
  then have "idSessions d' = filter (\<lambda>x. x \<noteq> s) (idSessions d)"
    by (auto simp: d' d2 delete_session_def delete_sessions_def sql_delete_def intro!: filter_cong)
  moreover have "idAntiforgery d' = filter (\<lambda>t. afSessionTokenHash t \<noteq> snTokenHash s) (idAntiforgery d)"
    using L(4) u by (auto simp: d' d2 delete_session_def delete_sessions_def sql_delete_def intro!: filter_cong)
  moreover have "find_session (hash_token sv raw) d' = Inr None"
  proof -
    have "find (\<lambda>s. snTokenHash s = hash_token sv raw) (idSessions d') = None"
      by (auto simp: d' d2 delete_session_def delete_sessions_def sql_delete_def L(5) find_None_iff)
    then show ?thesis by (simp add: find_session_def)
  qed
  then have "load_session sv (reClock re2 0) r2 d' = (Inr None, d')" using assms(4) L(2,3) by (simp add: load_session_def)
  then have "fst (session_endpoint sv re2 r2 d') = Refused (StatusProblem 401)"
    using assms(3) by (simp add: session_endpoint_def require_authentication_def)
  ultimately show ?thesis using L(4) by blast
qed

section \<open>Antiforgery tokens over requests\<close>

lemma create_session_antiforgery_Inr:
  assumes "create_session_antiforgery t d = (Inr u, d')"
  shows "antiforgery_to_row t \<in> set (idAntiforgery d')"
proof -
  have b: "\<not> (sql_exists (\<lambda>x. \<not> afSessionTokenHash x = afSessionTokenHash t
      \<and> (afSelectorHash x = afSelectorHash t \<or> afRequestTokenHash x = afRequestTokenHash t)) (idAntiforgery d)
    \<or> \<not> sql_exists (\<lambda>s. snTokenHash s = afSessionTokenHash t) (idSessions d)
    \<or> length (afSelectorHash t) \<noteq> 32 \<or> length (afRequestTokenHash t) \<noteq> 32)" (is "\<not> ?b")
  proof
    assume ?b
    from assms [unfolded create_session_antiforgery_def Let_def if_P [OF this]] show False by simp
  qed
  show ?thesis using assms unfolding create_session_antiforgery_def Let_def if_not_P [OF b]
    by (auto simp: in_sql_update split: if_splits)
qed

definition rotated_antiforgery :: "web_server \<Rightarrow> web_request \<Rightarrow> identity_db \<Rightarrow> identity_db" where
  "rotated_antiforgery sv r d =
     (case rqCookies r antiforgeryCookieName of
        None \<Rightarrow> d
      | Some cookie \<Rightarrow>
          (case decode_opaque_token cookie of None \<Rightarrow> d | Some old \<Rightarrow> delete_session_antiforgery (hash_token sv old) d))"

lemma rotated_writes: "rotated_antiforgery sv r d = d \<or> (\<exists>h. rotated_antiforgery sv r d = delete_session_antiforgery h d)"
  by (auto simp: rotated_antiforgery_def split: option.split)

lemma find_key_rotated [simp]: "find_anonymous_key (rotated_antiforgery sv r d) = find_anonymous_key d"
  by (auto simp: rotated_antiforgery_def find_anonymous_key_def delete_session_antiforgery_def split: option.split)

lemma issue_anonymous:
  assumes "issue_antiforgery sv re r d = (Answered status (request, selector), d')" and "load_session sv (reClock re 0) r d = (Inr None, d0)"
  obtains raw d2 where "new_anonymous_antiforgery (svMAC sv) (reRandom re 0) (reRandom re 1) (to_utc (reClock re 1)) d0
      = (Inr (raw, selector, request), d2)" "d' = rotated_antiforgery sv r d2"
proof -
  obtain res d2 where n: "new_anonymous_antiforgery (svMAC sv) (reRandom re 0) (reRandom re 1) (to_utc (reClock re 1)) d0 = (res, d2)"
    by (metis prod.exhaust)
  show thesis
    by (cases res) (use assms n that in \<open>auto simp: issue_antiforgery_def rotated_antiforgery_def Let_def split: if_split_asm\<close>)
qed

lemma issue_session:
  assumes "issue_antiforgery sv re r d = (Answered status (request, selector), d')"
    and "load_session sv (reClock re 0) r d = (Inr (Some (a, s)), d0)"
  obtains x y t where "new_opaque_token (reRandom re 0) = Inr (x, selector)" "new_opaque_token (reRandom re 1) = Inr (y, request)"
    "new_session_antiforgery (hash_token sv x) (hash_token sv y) (snTokenHash s) (snExpiresAt s) = Inr t"
    "create_session_antiforgery t (rotated_antiforgery sv r d0) = (Inr (), d')"
proof -
  have m: "rqMethod r = ''GET''" using assms(1) by (simp add: issue_antiforgery_def split: if_split_asm)
  obtain x sel where x: "new_opaque_token (reRandom re 0) = Inr (x, sel)"
    using assms m by (cases "new_opaque_token (reRandom re 0)") (auto simp: issue_antiforgery_def Let_def)
  obtain y req where y: "new_opaque_token (reRandom re 1) = Inr (y, req)"
    using assms m x by (cases "new_opaque_token (reRandom re 1)") (auto simp: issue_antiforgery_def Let_def)
  obtain t where t: "new_session_antiforgery (hash_token sv x) (hash_token sv y) (snTokenHash s) (snExpiresAt s) = Inr t"
    using assms m x y
    by (cases "new_session_antiforgery (hash_token sv x) (hash_token sv y) (snTokenHash s) (snExpiresAt s)")
      (auto simp: issue_antiforgery_def Let_def)
  obtain c d3 where c: "create_session_antiforgery t (rotated_antiforgery sv r d0) = (c, d3)" by (metis prod.exhaust)
  have "c = Inr () \<and> d3 = d' \<and> sel = selector \<and> req = request"
    using assms m x y t c [unfolded rotated_antiforgery_def] by (cases c) (auto simp: issue_antiforgery_def Let_def)
  then show thesis using that x y t c by blast
qed

lemma opaque_token_decodes: "new_opaque_token random = Inr (raw, encoded) \<Longrightarrow> decode_opaque_token encoded = Some raw"
  by (auto simp: new_opaque_token_def and_then_Inr Let_def tokenBytes_def)

lemma load_session_ok: "load_session sv now r d = (q, d0) \<Longrightarrow> sessions_ok d \<Longrightarrow> sessions_ok d0"
  by (auto simp: load_session_def delete_session_def delete_sessions_ok split: option.splits sum.splits if_splits)

lemma rotated_ok: "sessions_ok d \<Longrightarrow> sessions_ok (rotated_antiforgery sv r d)"
  using rotated_writes [of sv r d] session_write_ok [OF session_write.rotated] by metis


section \<open>Witnesses\<close>

definition sample_env :: request_env where
  "sample_env = \<lparr>reClock = \<lambda>_. sample_instant, reRandom = \<lambda>_. Inr (\<lambda>_. CHR 0x02), reUUID = Inr ''u1'',
     reBody = \<lparr>rbFirst = Some ''{}'', rbEnds = True\<rparr>, rePath = \<lambda>_. '''', reBetween = \<lambda>d. d\<rparr>"

definition sample_users :: user_service where
  "sample_users = \<lparr>usHash = \<lambda>_. Inr ''$h'', usVerify = \<lambda>_ _. Inr PasswordVerified\<rparr>"

definition anonymous_selector :: string where
  "anonymous_selector = put_uint64 (unix_nano sample_instant) @ replicate 24 (CHR 0x02)"

definition anonymous_request :: web_request where
  "anonymous_request = sample_request\<lparr>rqCookies := [antiforgeryCookieName \<mapsto> raw_encode True anonymous_selector],
     rqAntiforgery := [raw_encode True sample_digest]\<rparr>"

definition sample_key :: string where "sample_key = replicate 32 (CHR 0x02)"

definition keyed :: "identity_db \<Rightarrow> identity_db" where "keyed d = d\<lparr>idAnonymousKey := Some sample_key\<rparr>"

definition web :: "identity_db \<Rightarrow> nat web_state" where
  "web d = \<lparr>wsDb = d, wsCredentials = new_credential_limiter 5, wsDummy = ''''\<rparr>"

lemma sample_key_found: "find_anonymous_key (keyed d) = Inr (Some sample_key)"
  by (simp add: find_anonymous_key_def keyed_def restore_token_hash_def sample_key_def)

lemma anonymous_selector_decodes: "decode_opaque_token (raw_encode True anonymous_selector) = Some anonymous_selector"
  "length anonymous_selector = 32"
  by (simp_all add: anonymous_selector_def)

lemma anonymous_checked: "browser_checks sample_server None sample_instant anonymous_request (keyed d) = (Inr None, keyed d)"
proof -
  have "get_uint64 (take anonymousTimestampBytes anonymous_selector) = unix_nano sample_instant"
    by (simp add: anonymous_selector_def anonymousTimestampBytes_def)
  moreover have "\<not> after (time_of_unix_nano (unix_nano sample_instant)) (time_add (to_utc sample_instant) anonymousClockSkew)"
    "before (to_utc sample_instant) (time_add (time_of_unix_nano (unix_nano sample_instant)) SessionLifetime)" by code_simp+
  moreover have "anonymous_antiforgery_mac (\<lambda>_. one_digest) key s = sample_digest" for key s
    by (simp add: anonymous_antiforgery_mac_def sample_digest_def)
  ultimately have "valid_anonymous_antiforgery (svMAC sample_server) key anonymous_selector sample_digest (to_utc sample_instant)" for key
    by (simp add: valid_anonymous_antiforgery_def sample_server_def tokenBytes_def anonymous_selector_decodes(2) sample_digest_facts(1))
  then show ?thesis
    using sample_key_found [of d] anonymous_selector_decodes(1) sample_digest_facts(1)
    by (simp add: browser_checks_def valid_antiforgery_def acceptable_browser_origin_def acceptable_referer_def anonymous_request_def
        sample_request_def)
qed

lemma anonymous_guarded:
  "\<exists>l. credential_guard sample_server counting_rates sample_env anonymous_request (web (keyed d)) = (Inr None, (web (keyed d))\<lparr>wsCredentials := l\<rparr>)"
proof -
  have "load_session sample_server sample_instant anonymous_request (keyed d) = (Inr None, keyed d)"
    by (simp add: load_session_def anonymous_request_def sessionCookieName_def antiforgeryCookieName_def)
  moreover obtain l where "limiter_allow counting_rates key sample_instant (new_credential_limiter 5) = (True, l key)" for key
    by (simp add: limiter_allow_def new_credential_limiter_def limiter_cleanup_def current_window_def allow_in_def counting_rates_def Let_def
        maxCredentialPartitions_def)
  ultimately show ?thesis
    by (simp add: credential_guard_def prepare_credential_unsafe_def sample_env_def web_def anonymous_checked)
qed

lemma sample_body: "decode_json (\<lambda>_. Some v) (reBody sample_env) = Inr v"
proof -
  have p: "\<forall>c\<in>set ''{}''. byte c < 128 \<and> \<not> is_space (byte c)" by (simp add: byte_def is_space_def)
  have "utf8_valid ''{}''" by (subst utf8_valid_def, subst pieces_ascii) (simp_all add: byte_def RuneError_def)
  then show ?thesis by (simp add: decode_json_def sample_env_def trim_plain(1) [OF p])
qed

lemma sample_session_created:
  assumes "idSessions d = []" and "idAntiforgery d = []" and "sample_account ''$h'' \<in> set (idUsers d)" and "rqCookies r sessionCookieName = None"
  shows "create_session sample_server (reRandom sample_env 0) sample_instant r (sample_account ''$h'') d
    = (Inr sample_token, d\<lparr>idSessions := [sample_session]\<rparr>)"
proof -
  have "new_opaque_token (reRandom sample_env 0) = Inr (replicate 32 (CHR 0x02), sample_token)"
    by (simp add: new_opaque_token_def sample_env_def sample_token_def tokenBytes_def map_replicate_const Let_def)
  moreover have "new_session sample_digest ''u1'' (to_utc sample_instant) = Inr sample_session"
    using sample_instant_valid(1,2) sample_expiry sample_digest_facts(2)
    by (simp only: new_session_def restore_session_Inr sample_session_def) simp
  moreover have "insert_session sample_session d = (Inr (), d\<lparr>idSessions := [sample_session]\<rparr>)"
  proof -
    have row: "session_to_row sample_session = sample_session" by code_simp
    have "before (snAuthenticatedAt sample_session) (snExpiresAt sample_session)" by code_simp
    moreover have "\<exists>a\<in>set (idUsers d). acID a = snUserID sample_session"
      using assms(3) by (intro bexI [of _ "sample_account ''$h''"]) (simp_all add: sample_account_def sample_session_def)
    moreover have "length (snTokenHash sample_session) = 32" using sample_digest_facts(1) by (simp add: sample_session_def)
    moreover have "delete_sessions p d = d" for p using assms(1,2) by (cases d) (simp add: delete_sessions_def sql_delete_def)
    ultimately show ?thesis using assms(1)
      by (auto simp: insert_session_def identity_tx_def insert_session_tx_def row Let_def)
  qed
  moreover have "acID (sample_account ''$h'') = ''u1''" by (simp add: sample_account_def)
  ultimately show ?thesis using assms(4)
    by (simp add: create_session_def Let_def hash_token_def sample_server_def sample_digest_def [symmetric])
qed

lemma sample_login:
  "\<exists>l. login_endpoint (\<lambda>_. Some (Some ''a@b'', Some ''pw'')) sample_server sample_users counting_rates sample_env anonymous_request (web (keyed provisioned_identity))
     = (Answered 200 (to_session_response (sample_account ''$h''), sample_token),
        (web ((keyed provisioned_identity)\<lparr>idSessions := [sample_session]\<rparr>))\<lparr>wsCredentials := l\<rparr>)"
proof -
  let ?d = "keyed provisioned_identity"
  obtain l where g: "credential_guard sample_server counting_rates sample_env anonymous_request (web ?d) = (Inr None, (web ?d)\<lparr>wsCredentials := l\<rparr>)"
    using anonymous_guarded by blast
  have u: "sample_account ''$h'' \<in> set (idUsers ?d)" by (simp add: keyed_def provisioned_identity_def sample_identity_def)
  have "accounts_ok low ?d" for low
    using signed_in_accounts(1) [of low] by (simp add: accounts_ok_def keyed_def signed_in_identity_def)
  from find_email [OF this u] have "find_by_email low ''a@b'' ?d = Inr (Some (sample_account ''$h''))" for low by (simp add: sample_account_def)
  then have a: "authenticate (\<lambda>r. r) (usHash sample_users) (usVerify sample_users) ''a@b'' ''pw'' between ?d dummy
      = (Inr (Authenticated (sample_account ''$h'')), ?d, dummy, [''$h''])" for between dummy
    by (simp add: authenticate_def sample_email sample_users_def) (simp add: sample_account_def)
  have c: "create_session sample_server (reRandom sample_env 0) sample_instant anonymous_request (sample_account ''$h'') ?d
      = (Inr sample_token, ?d\<lparr>idSessions := [sample_session]\<rparr>)"
    by (rule sample_session_created [OF _ _ u])
      (simp_all add: keyed_def provisioned_identity_def sample_identity_def empty_identity_def anonymous_request_def sessionCookieName_def
        antiforgeryCookieName_def)
  have "svLower sample_server = (\<lambda>r. r)" "rqMethod anonymous_request = ''POST''" "reClock sample_env k = sample_instant" for k
    by (simp_all add: sample_server_def anonymous_request_def sample_request_def sample_env_def)
  then show ?thesis using a c by (simp add: login_endpoint_def g sample_body value_or_empty_def) (simp add: web_def)
qed

lemma keyed_sign_in: "sessions_ok ((keyed provisioned_identity)\<lparr>idSessions := [sample_session]\<rparr>)"
  "accounts_ok low ((keyed provisioned_identity)\<lparr>idSessions := [sample_session]\<rparr>)"
proof -
  show "sessions_ok ((keyed provisioned_identity)\<lparr>idSessions := [sample_session]\<rparr>)"
    using signed_in_ok
    by (auto simp: sessions_ok_def signed_in_identity_def keyed_def session_ok_def provisioned_identity_def sample_identity_def empty_identity_def)
  show "accounts_ok low ((keyed provisioned_identity)\<lparr>idSessions := [sample_session]\<rparr>)"
    using signed_in_accounts(1) [of low] by (simp add: accounts_ok_def signed_in_identity_def keyed_def)
qed

theorem login_lasts_twelve_hours_witness:
  "fst (session_endpoint sample_server sample_env (sample_request\<lparr>rqMethod := ''GET''\<rparr>) ((keyed provisioned_identity)\<lparr>idSessions := [sample_session]\<rparr>))
     = Answered 200 (to_session_response (sample_account ''$h''))"
proof -
  let ?d = "(keyed provisioned_identity)\<lparr>idSessions := [sample_session]\<rparr>"
  obtain l where l: "login_endpoint (\<lambda>_. Some (Some ''a@b'', Some ''pw'')) sample_server sample_users counting_rates sample_env anonymous_request
      (web (keyed provisioned_identity))
     = (Answered 200 (to_session_response (sample_account ''$h''), sample_token), (web ?d)\<lparr>wsCredentials := l\<rparr>)"
    using sample_login by blast
  have c: "nanos (reClock sample_env k) < nanos (reClock sample_env k') div 1000 * 1000 + 12 * hour" for k k'
    by (simp add: sample_env_def duration_defs)
  have "sample_account ''$h'' \<in> set (idUsers ?d)" by (simp add: keyed_def provisioned_identity_def sample_identity_def)
  from login_lasts_twelve_hours [OF l _ keyed_sign_in this, of "sample_request\<lparr>rqMethod := ''GET''\<rparr>" sample_env] c show ?thesis
    by (simp add: web_def to_session_response_def sample_request_def)
qed

theorem logout_ends_session_witness:
  "logout_endpoint sample_server sample_env sample_request signed_in_identity = (Answered 204 (), provisioned_identity)
   \<and> fst (session_endpoint sample_server sample_env (sample_request\<lparr>rqMethod := ''GET''\<rparr>) provisioned_identity) = Refused (StatusProblem 401)"
proof -
  have "delete_session sample_digest signed_in_identity = provisioned_identity"
    by (simp add: delete_session_def delete_sessions_def signed_in_identity_def sample_session_def sample_antiforgery_def sql_delete_def)
      (simp add: provisioned_identity_def sample_identity_def empty_identity_def)
  moreover have "snTokenHash sample_session = sample_digest" by (simp add: sample_session_def)
  ultimately have l: "logout_endpoint sample_server sample_env sample_request signed_in_identity = (Answered 204 (), provisioned_identity)"
    by (simp add: logout_endpoint_def protect_unsafe_def require_authentication_def sample_env_def signed_in_loads signed_in_checked)
      (simp add: sample_request_def)
  from logout_ends_session [OF l signed_in_ok, of "sample_request\<lparr>rqMethod := ''GET''\<rparr>" sample_env] l show ?thesis
    by (simp add: sample_request_def)
qed


end
