(* ===== verification/Requests.thy ===== *)
theory Requests
  imports Endpoints
begin

text \<open>
  The requests on users, sessions and Organizations as one transition relation: every endpoint of
  \<open>Endpoints\<close>, with the command that resets a password, on any input, and between the steps of each
  any number of other requests. The invariants of the tables, each shown for the writes of its own
  store, are shown for the whole.
\<close>

section \<open>What the tables keep\<close>

definition identity_ok :: "(int \<Rightarrow> int) \<Rightarrow> identity_db \<Rightarrow> bool" where
  "identity_ok low d \<longleftrightarrow> accounts_ok low d \<and> organizations_ok d \<and> sessions_ok d"

definition keeps :: "(int \<Rightarrow> int) \<Rightarrow> identity_db \<Rightarrow> identity_db \<Rightarrow> bool" where
  "keeps low d d' \<longleftrightarrow> (identity_ok low d \<longrightarrow> identity_ok low d')"

lemma keeps_refl: "keeps low d d" by (simp add: keeps_def)

lemma keeps_trans [trans]: "keeps low d d' \<Longrightarrow> keeps low d' d'' \<Longrightarrow> keeps low d d''" by (simp add: keeps_def)

lemma account_write_keeps:
  assumes "account_step low d d'" and "d' = d\<lparr>idUsers := idUsers d'\<rparr>"
  shows "keeps low d d'"
proof -
  have same: "idOrganizations d' = idOrganizations d" "idMembers d' = idMembers d" "idSessions d' = idSessions d" "idAntiforgery d' = idAntiforgery d"
    using arg_cong [OF assms(2), of idOrganizations] arg_cong [OF assms(2), of idMembers] arg_cong [OF assms(2), of idSessions]
      arg_cong [OF assms(2), of idAntiforgery] by simp_all
  note k = account_step_keeps [OF assms(1)]
  have "organizations_ok d'" if o1: "organizations_ok d"
  proof -
    have "members_ok d'" using o1 k same by (fastforce simp: organizations_ok_def members_ok_def member_ok_def)
    then show ?thesis using organizations_ok_grow [OF o1, of d'] same by simp
  qed
  moreover have "sessions_ok d'" if "sessions_ok d"
    using session_write_ok [OF session_write.elsewhere [OF k same(3,4)] that] .
  ultimately show ?thesis using account_step_ok [OF assms(1)] by (simp add: keeps_def identity_ok_def)
qed

lemma organization_write_keeps:
  assumes "organizations_ok d \<Longrightarrow> organizations_ok d'" and "idUsers d' = idUsers d" "idSessions d' = idSessions d" "idAntiforgery d' = idAntiforgery d"
  shows "keeps low d d'"
  using assms session_write_ok [OF session_write.elsewhere [of d d']] account_step_ok [OF account_step.elsewhere [of d' d low]]
  by (simp add: keeps_def identity_ok_def)

lemma session_write_keeps:
  assumes "session_write d d'" and "idUsers d' = idUsers d" "idOrganizations d' = idOrganizations d" "idMembers d' = idMembers d"
  shows "keeps low d d'"
proof -
  have "organizations_ok d' = organizations_ok d"
    using assms(2-4) by (simp add: organizations_ok_def organization_ok_def members_ok_def member_ok_def)
  then show ?thesis using session_write_ok [OF assms(1)] account_step_ok [OF account_step.elsewhere [of d' d low]] assms(2)
    by (simp add: keeps_def identity_ok_def)
qed

section \<open>Writes of the stores\<close>

lemma create_account_keeps:
  assumes "new_user low a = Inr a" and "\<not> is_zero (db_instant (acCreatedAt a))"
  shows "keeps low d (snd (create_account a d))" "keeps low d (snd (create_first_administrator a d))"
  by (rule account_write_keeps, rule account_step.created [OF assms], simp add: create_account_def)
    (rule account_write_keeps, rule account_step.set_up [OF assms], simp add: create_first_administrator_def)

lemma update_profile_keeps: "new_user low a = Inr a \<Longrightarrow> keeps low d (snd (update_profile i a d))"
  by (rule account_write_keeps, erule account_step.renamed) (simp add: update_profile_def)

lemma update_password_keeps: "trim_space h \<noteq> '''' \<Longrightarrow> keeps low d (snd (update_password_hash i h d))"
  by (rule account_write_keeps, erule account_step.rehashed) (simp add: update_password_hash_def)

lemma memberships_elsewhere: "insert_memberships ms d = Inr d' \<Longrightarrow> d' = d\<lparr>idMembers := idMembers d'\<rparr>"
  using insert_memberships_Inr by blast

lemma create_memberships_keeps: "write_ok (WriteMembers ms) \<Longrightarrow> keeps low d (snd (create_memberships ms d))"
proof (rule organization_write_keeps)
  assume w: "write_ok (WriteMembers ms)" and "organizations_ok d"
  then show "organizations_ok (snd (create_memberships ms d))"
    using create_memberships_ok [of ms d "fst (create_memberships ms d)" "snd (create_memberships ms d)"] by simp
next
  have "\<exists>m. snd (create_memberships ms d) = d\<lparr>idMembers := m\<rparr>"
  proof (cases "insert_memberships ms d")
    case (Inl e)
    then show ?thesis by (intro exI [of _ "idMembers d"]) (simp add: create_memberships_def identity_tx_def)
  next
    case (Inr d')
    then have "snd (create_memberships ms d) = d \<or> snd (create_memberships ms d) = d'" by (simp add: create_memberships_def identity_tx_def)
    then show ?thesis
    proof
      assume "snd (create_memberships ms d) = d"
      then show ?thesis by (intro exI [of _ "idMembers d"]) simp
    next
      assume "snd (create_memberships ms d) = d'"
      then show ?thesis using memberships_elsewhere [OF Inr] by (intro exI [of _ "idMembers d'"]) simp
    qed
  qed
  then obtain m where "snd (create_memberships ms d) = d\<lparr>idMembers := m\<rparr>" by blast
  then show "idUsers (snd (create_memberships ms d)) = idUsers d" "idSessions (snd (create_memberships ms d)) = idSessions d"
    "idAntiforgery (snd (create_memberships ms d)) = idAntiforgery d" by simp_all
qed

lemma create_organization_keeps: "write_ok (WriteOrganization v ms) \<Longrightarrow> keeps low d (snd (create_organization v ms d))"
proof (rule organization_write_keeps)
  assume w: "write_ok (WriteOrganization v ms)" and "organizations_ok d"
  then show "organizations_ok (snd (create_organization v ms d))"
    using create_organization_ok [of v ms d "fst (create_organization v ms d)" "snd (create_organization v ms d)"] by simp
next
  have "snd (create_organization v ms d) = d \<or> (\<exists>m. snd (create_organization v ms d)
      = d\<lparr>idOrganizations := idOrganizations d @ [organization_to_row v], idMembers := m\<rparr>)"
  proof (cases "create_organization_tx v ms d")
    case (Inl e)
    then show ?thesis by (simp add: create_organization_def identity_tx_def)
  next
    case (Inr d')
    then have "insert_memberships ms (d\<lparr>idOrganizations := idOrganizations d @ [organization_to_row v]\<rparr>) = Inr d'"
      by (simp add: create_organization_tx_def split: if_split_asm)
    from memberships_elsewhere [OF this] Inr show ?thesis
      by (intro disjI2 exI [of _ "idMembers d'"]) (simp add: create_organization_def identity_tx_def)
  qed
  then show "idUsers (snd (create_organization v ms d)) = idUsers d" "idSessions (snd (create_organization v ms d)) = idSessions d"
    "idAntiforgery (snd (create_organization v ms d)) = idAntiforgery d" by auto
qed

lemma rename_keeps: "rename_organization i name d = (rr, d') \<Longrightarrow> keeps low d d'"
proof (rule organization_write_keeps)
  assume r: "rename_organization i name d = (rr, d')"
  show "organizations_ok d \<Longrightarrow> organizations_ok d'" using rename_ok [OF r] .
  show "idUsers d' = idUsers d" "idSessions d' = idSessions d" "idAntiforgery d' = idAntiforgery d"
    using rename_effect [OF r] by (auto simp: update_display_name_def)
qed

lemma delete_session_keeps: "keeps low d (delete_session h d)"
  by (rule session_write_keeps, rule session_write.closed) (simp_all add: delete_session_def delete_sessions_def)

lemma delete_antiforgery_keeps: "keeps low d (delete_session_antiforgery h d)"
  by (rule session_write_keeps, rule session_write.rotated) (simp_all add: delete_session_antiforgery_def)

lemma rotated_keeps: "keeps low d (rotated_antiforgery sv r d)"
  using rotated_writes [of sv r d] delete_antiforgery_keeps keeps_refl by metis

lemma insert_session_keeps:
  assumes "new_session h u t = Inr s" and "\<not> is_zero (db_instant t)" and "\<not> is_zero (db_instant (time_add t SessionLifetime))"
  shows "keeps low d (snd (insert_session s d))"
  by (rule session_write_keeps, rule session_write.opened [OF assms])
    (auto simp: insert_session_def identity_tx_def insert_session_tx_def Let_def delete_sessions_def split: sum.splits if_splits)

lemma anonymous_key_keeps: "keeps low d (snd (get_or_create_anonymous_key candidate d))"
  by (rule session_write_keeps, rule session_write.keyed)
    (auto simp: get_or_create_anonymous_key_def Let_def split: sum.splits option.splits)

lemma create_antiforgery_keeps:
  assumes "new_session_antiforgery selector request binding t = Inr v" and "\<not> is_zero (db_instant t)"
  shows "keeps low d (snd (create_session_antiforgery v d))"
  by (rule session_write_keeps, rule session_write.protected [OF assms]) (simp_all add: create_session_antiforgery_def Let_def)

section \<open>Steps one after the other\<close>

text \<open>
  One rule for each shape of a definition: a call that returns new tables, and the cases on what it
  returned. The tables come with the result, or in the state of the server that does.
\<close>

abbreviation web_db :: "'r \<times> 'l web_state \<Rightarrow> identity_db" where "web_db p \<equiv> wsDb (snd p)"

lemma keeps_call_at:
  "keeps low d (snd p) \<Longrightarrow> (\<And>q e. p = (q, e) \<Longrightarrow> keeps low e (at (f q e))) \<Longrightarrow> keeps low d (at (case p of (q, e) \<Rightarrow> f q e))"
  by (cases p) (auto intro: keeps_trans)

lemma keeps_pair_at:
  fixes f :: "'x \<Rightarrow> 'y \<Rightarrow> 'r"
  shows "(\<And>x y. q = (x, y) \<Longrightarrow> keeps low d (at (f x y))) \<Longrightarrow> keeps low d (at (case q of (x, y) \<Rightarrow> f x y))"
  by (cases q) auto

lemma keeps_cases_at:
  "(b \<Longrightarrow> keeps low d (at x)) \<Longrightarrow> (\<not> b \<Longrightarrow> keeps low d (at y)) \<Longrightarrow> keeps low d (at (if b then x else y))"
  "(b \<Longrightarrow> keeps low d (at x)) \<Longrightarrow> (\<not> b \<Longrightarrow> keeps low d (at y)) \<Longrightarrow> keeps low d (at (case b of True \<Rightarrow> x | False \<Rightarrow> y))"
  "(v = None \<Longrightarrow> keeps low d (at x)) \<Longrightarrow> (\<And>z. v = Some z \<Longrightarrow> keeps low d (at (f z))) \<Longrightarrow>
     keeps low d (at (case v of None \<Rightarrow> x | Some z \<Rightarrow> f z))"
  "(\<And>e. r = Inl e \<Longrightarrow> keeps low d (at (g e))) \<Longrightarrow> (\<And>z. r = Inr z \<Longrightarrow> keeps low d (at (f z))) \<Longrightarrow>
     keeps low d (at (case r of Inl e \<Rightarrow> g e | Inr z \<Rightarrow> f z))"
  by (auto split: option.split sum.split bool.split)

lemma keeps_outcomes_at:
  "(\<And>fs. u = UserInvalid fs \<Longrightarrow> keeps low d (at (f1 fs))) \<Longrightarrow> (\<And>a. u = UserCreated a \<Longrightarrow> keeps low d (at (f2 a))) \<Longrightarrow>
     keeps low d (at x1) \<Longrightarrow> keeps low d (at x2) \<Longrightarrow>
     keeps low d (at (case u of UserInvalid fs \<Rightarrow> f1 fs | UserCreated a \<Rightarrow> f2 a | UserDuplicateEmail \<Rightarrow> x1 | SetupCompleted \<Rightarrow> x2))"
  "(\<And>fs. p = ProfileInvalid fs \<Longrightarrow> keeps low d (at (f1 fs))) \<Longrightarrow> keeps low d (at x1) \<Longrightarrow> keeps low d (at x2) \<Longrightarrow>
     (\<And>a. p = ProfileUpdated a \<Longrightarrow> keeps low d (at (f2 a))) \<Longrightarrow>
     keeps low d (at (case p of ProfileInvalid fs \<Rightarrow> f1 fs | ProfileNotFound \<Rightarrow> x1 | ProfileDuplicateEmail \<Rightarrow> x2 | ProfileUpdated a \<Rightarrow> f2 a))"
  "(\<And>fs. v = ProvisionInvalid fs \<Longrightarrow> keeps low d (at (f1 fs))) \<Longrightarrow> (\<And>z. v = ProvisionCreated z \<Longrightarrow> keeps low d (at (f3 z))) \<Longrightarrow>
     keeps low d (at (case v of ProvisionInvalid fs \<Rightarrow> f1 fs | ProvisionCreated z \<Rightarrow> f3 z))"
  "(\<And>fs. n = RenameInvalid fs \<Longrightarrow> keeps low d (at (f1 fs))) \<Longrightarrow> (\<And>z. n = RenameRenamed z \<Longrightarrow> keeps low d (at (f3 z))) \<Longrightarrow>
     keeps low d (at x1) \<Longrightarrow>
     keeps low d (at (case n of RenameInvalid fs \<Rightarrow> f1 fs | RenameRenamed z \<Rightarrow> f3 z | RenameNotFound \<Rightarrow> x1))"
  "keeps low d (at x1) \<Longrightarrow> (\<And>a. t = Authenticated a \<Longrightarrow> keeps low d (at (f2 a))) \<Longrightarrow>
     keeps low d (at (case t of InvalidCredentials \<Rightarrow> x1 | Authenticated a \<Rightarrow> f2 a))"
  by (auto split: create_user_result.split update_user_result.split provision_result.split organization_rename_result.split
      authentication.split)

lemma keeps_done: "keeps low d e \<Longrightarrow> keeps low d (snd (x, e))" "keeps low d (wsDb w) \<Longrightarrow> keeps low d (web_db (x, w))" by simp_all

text \<open>The pairs that are values and not new tables are told by their types.\<close>

lemmas keeps_calls = keeps_call_at [where at = snd] keeps_call_at [where at = web_db]
lemmas keeps_pairs = keeps_pair_at [where at = snd] keeps_pair_at [where at = web_db]
lemmas keeps_values = keeps_pairs [where ?'y = "string \<times> 'z list"] keeps_pairs [where ?'y = "'z list"] keeps_pairs [where ?'y = "string option"]
  keeps_pairs [where ?'y = "string option \<times> string option"] keeps_pairs [where ?'y = session]
lemmas keeps_cases = keeps_cases_at [where at = snd] keeps_cases_at [where at = web_db]
  keeps_outcomes_at [where at = snd] keeps_outcomes_at [where at = web_db]
lemmas keeps_steps = keeps_calls keeps_values keeps_refl keeps_done keeps_cases

section \<open>Use cases\<close>

lemma user_to_create_Inr:
  assumes "user_to_create low hash uuid clock email name password = Inr a"
  shows "new_user low a = Inr a \<and> acCreatedAt a = to_utc clock"
  using assms by (auto simp: user_to_create_def new_user_Inr split: sum.split_asm)

lemma create_user_keeps:
  assumes "\<not> is_zero (db_instant clock)"
  shows "keeps low d (snd (create_user low hash uuid clock email name password d))"
    "keeps low d (snd (setup_administrator low hash uuid clock email name password d))"
proof -
  have a: "new_user low a = Inr a" "\<not> is_zero (db_instant (acCreatedAt a))"
    if "user_to_create low hash uuid clock e n password = Inr a" for e n a
    using user_to_create_Inr [OF that] assms by (auto simp: db_instant_def)
  show "keeps low d (snd (create_user low hash uuid clock email name password d))"
    unfolding create_user_def
    by (intro keeps_steps create_account_keeps(1) a)
  show "keeps low d (snd (setup_administrator low hash uuid clock email name password d))"
    unfolding setup_administrator_def
    by (intro keeps_steps create_account_keeps(2) a)
qed

lemma update_user_keeps:
  assumes "keeps low d (between d)"
  shows "keeps low d (snd (update_user low i email name between d))"
proof -
  have "keeps low d (snd (update_profile i a (between d)))" if "new_user low b = Inr a" for a b
    by (rule keeps_trans [OF assms], rule update_profile_keeps) (use that in \<open>simp add: new_user_Inr\<close>)
  then show ?thesis unfolding update_user_def by (intro keeps_steps)
qed

lemma replace_hash_Inr: "replace_password_hash a h = Inr b \<Longrightarrow> trim_space h \<noteq> ''''"
  by (auto simp: replace_password_hash_def split: if_split_asm)

lemma reset_password_keeps:
  assumes "keeps low d (between d)" and "\<And>p h. hash p = Inr h \<Longrightarrow> trim_space h \<noteq> ''''"
  shows "keeps low d (snd (reset_password low hash email password between d))"
proof -
  have "keeps low d (snd (update_password_hash i h (between d)))" if "hash password = Inr h" for i h
    by (rule keeps_trans [OF assms(1)], rule update_password_keeps, rule assms(2) [OF that])
  then show ?thesis unfolding reset_password_def Let_def by (intro keeps_steps)
qed

lemma authenticate_keeps:
  assumes "authenticate low hash verify email password between d dummy = (res, d', dummy', hs)" and "keeps low d (between d)"
  shows "keeps low d d'"
proof -
  have "d' = d \<or> (\<exists>i h. trim_space h \<noteq> '''' \<and> d' = snd (update_password_hash i h (between d)))"
    using assms(1) by (auto simp: authenticate_def dest: replace_hash_Inr split: option.split_asm if_split_asm sum.split_asm
        prod.split_asm password_verification.split_asm) (metis replace_hash_Inr snd_conv)+
  with keeps_trans [OF assms(2) update_password_keeps] show ?thesis by (auto simp: keeps_refl)
qed

lemma provision_keeps:
  assumes "\<not> is_zero (db_instant clock)" and "keeps low d (between d)"
  shows "keeps low d (snd (provision name creator uuid clock between d))"
proof -
  have "keeps low d (snd (create_organization v ms (between d)))"
    if "creator \<noteq> ''''" "new_organization i n (to_utc clock) = Inr v" "memberships_for_new_organization (ogID v) creator (to_utc clock) ids = Inr ms"
    for i n v ids ms
  proof (rule keeps_trans [OF assms(2)], rule create_organization_keeps, rule provisioned_write_ok [OF _ that(1,2)])
    show "\<not> is_zero (db_instant (to_utc clock))" using assms(1) by (simp add: db_instant_def)
    have "ogID v = i" using that(2) by (auto simp: new_organization_Inr)
    then show "memberships_for_new_organization i creator (to_utc clock) ids = Inr ms" using that(3) by simp
  qed
  then show ?thesis unfolding provision_def by (intro keeps_steps)
qed

lemma add_member_keeps:
  assumes "\<not> is_zero (db_instant clock)" and "keeps low d (between d)"
  shows "keeps low d (snd (add_member_to_all usr clock between d))"
proof -
  have "keeps low d (snd (create_memberships ms (between d)))" if "memberships_of_new_member usr (to_utc clock) d = Inr ms" for ms
    by (rule keeps_trans [OF assms(2)], rule create_memberships_keeps, rule added_write_ok [OF that]) (use assms(1) in \<open>simp add: db_instant_def\<close>)
  then show ?thesis unfolding add_member_to_all_def by (intro keeps_steps)
qed

section \<open>Guards\<close>

lemma load_session_keeps: "keeps low d (snd (load_session sv now r d))"
  unfolding load_session_def by (intro keeps_steps delete_session_keeps)

lemma require_authentication_keeps: "keeps low d (snd (require_authentication sv now r d))"
  unfolding require_authentication_def by (intro keeps_steps load_session_keeps)

lemma require_administrator_keeps: "keeps low d (snd (require_instance_administrator sv now r d))"
  unfolding require_instance_administrator_def by (intro keeps_steps require_authentication_keeps)

lemma require_permission_keeps: "keeps low d (snd (require_organization_permission sv org permission now r d))"
  unfolding require_organization_permission_def by (intro keeps_steps require_authentication_keeps)

lemma browser_checks_keeps: "keeps low d (snd (browser_checks sv p now r d))"
  unfolding browser_checks_def valid_antiforgery_def by (intro keeps_steps delete_antiforgery_keeps)

lemma protect_unsafe_keeps:
  "(\<And>e. keeps low e (snd (authorize now r e))) \<Longrightarrow> keeps low d (snd (protect_unsafe sv authorize now now' r d))"
  unfolding protect_unsafe_def by (intro keeps_steps browser_checks_keeps)

lemma credential_guard_keeps: "keeps low (wsDb w) (web_db (credential_guard sv rp re r w))"
proof -
  have "keeps low d (fst (snd (prepare_credential_unsafe sv rp now now' now'' r d l)))" for now now' now'' d l
  proof (cases "load_session sv now r d")
    case (Pair p e)
    have k: "keeps low d e" using load_session_keeps [of low d sv now r] Pair by simp
    then show ?thesis
      using keeps_trans [OF k] browser_checks_keeps [of low e sv _ now'' r] Pair
      by (auto simp: prepare_credential_unsafe_def split: sum.split prod.split bool.split) (metis snd_conv)+
  qed
  then show ?thesis unfolding credential_guard_def by (auto split: prod.split) (metis fst_conv snd_conv)
qed

lemma create_session_keeps:
  assumes "\<not> is_zero (db_instant (to_utc now))" and "\<not> is_zero (db_instant (time_add (to_utc now) SessionLifetime))"
  shows "keeps low d (snd (create_session sv random now r a d))"
proof -
  have old: "keeps low d (case rqCookies r sessionCookieName of None \<Rightarrow> d | Some cookie \<Rightarrow>
      (case decode_opaque_token cookie of None \<Rightarrow> d | Some raw \<Rightarrow> delete_session (hash_token sv raw) d))" (is "keeps low d ?d1")
    by (auto simp: keeps_refl delete_session_keeps split: option.split)
  have "keeps low ?d1 (snd (insert_session s ?d1))" if "new_session h u (to_utc now) = Inr s" for h u s
    by (rule insert_session_keeps [OF that assms])
  then have "keeps low d (snd (insert_session s ?d1))" if "new_session h u (to_utc now) = Inr s" for h u s
    using keeps_trans [OF old] that by blast
  then show ?thesis unfolding create_session_def Let_def by (intro keeps_steps keeps_pairs [where ?'y = string] old)
qed

lemma anonymous_antiforgery_keeps: "keeps low d (snd (new_anonymous_antiforgery mac random random' t d))"
  unfolding new_anonymous_antiforgery_def Let_def by (intro keeps_steps anonymous_key_keeps)

lemma issue_antiforgery_keeps: "keeps low d (snd (issue_antiforgery sv re r d))"
  unfolding keeps_def
proof
  assume ok: "identity_ok low d"
  obtain p d1 where l: "load_session sv (reClock re 0) r d = (p, d1)" by (metis prod.exhaust)
  have k: "keeps low d d1" using load_session_keeps [of low d sv "reClock re 0" r] l by simp
  have "keeps low d (snd (issue_antiforgery sv re r d))"
  proof (cases "\<exists>a s. p = Inr (Some (a, s))")
    case False
    obtain res d2 where n: "new_anonymous_antiforgery (svMAC sv) (reRandom re 0) (reRandom re 1) (to_utc (reClock re 1)) d1 = (res, d2)"
      by (metis prod.exhaust)
    have k2: "keeps low d d2" using keeps_trans [OF k anonymous_antiforgery_keeps] n by (metis snd_conv)
    have "snd (issue_antiforgery sv re r d) \<in> {d, d1, d2, rotated_antiforgery sv r d2}"
      using False by (auto simp: issue_antiforgery_def rotated_antiforgery_def Let_def l n simp del: One_nat_def split: sum.split option.split)
    with k k2 keeps_trans [OF k2 rotated_keeps] show ?thesis by (auto simp: keeps_refl)
  next
    case True
    then obtain a s where p: "p = Inr (Some (a, s))" by blast
    have d1: "d1 = d" and s: "s \<in> set (idSessions d)"
      using load_session_Some [OF l [unfolded p]] ok unfolding identity_ok_def by metis+
    then have "is_db_instant (snExpiresAt s)" "is_utc (snExpiresAt s)"
      using ok by (auto simp: identity_ok_def sessions_ok_def session_ok_def restore_session_Inr)
    then have e: "\<not> is_zero (db_instant (snExpiresAt s))" by (simp add: db_instant_id is_utc_def)
    have w: "keeps low d (snd (create_session_antiforgery t (rotated_antiforgery sv r d)))"
      if "new_session_antiforgery x y (snTokenHash s) (snExpiresAt s) = Inr t" for x y t
      by (rule keeps_trans [OF rotated_keeps create_antiforgery_keeps [OF that e]])
    have "snd (issue_antiforgery sv re r d) \<in> {d, rotated_antiforgery sv r d} \<or>
      (\<exists>x y t. new_session_antiforgery x y (snTokenHash s) (snExpiresAt s) = Inr t
        \<and> snd (issue_antiforgery sv re r d) = snd (create_session_antiforgery t (rotated_antiforgery sv r d)))"
      unfolding issue_antiforgery_def rotated_antiforgery_def
      by (auto simp: Let_def l p d1 split: sum.split prod.split) (metis snd_conv)+
    with w rotated_keeps show ?thesis by (auto simp: keeps_refl)
  qed
  then show "identity_ok low (snd (issue_antiforgery sv re r d))" using ok by (simp add: keeps_def)
qed

section \<open>Endpoints\<close>

text \<open>The clock stands at no instant that the columns round to the zero value.\<close>

definition clock_ok :: "request_env \<Rightarrow> bool" where
  "clock_ok re \<longleftrightarrow> (\<forall>k. \<not> is_zero (db_instant (to_utc (reClock re k)))
     \<and> \<not> is_zero (db_instant (time_add (to_utc (reClock re k)) SessionLifetime)))"

lemma clock_okD: "clock_ok re \<Longrightarrow> \<not> is_zero (db_instant (reClock re k))"
  by (simp add: clock_ok_def db_instant_def)

lemma endpoints_keep:
  assumes "clock_ok re" and "\<And>d. keeps low d (reBetween re d)" and "low = svLower sv"
  shows "keeps low d (snd (logout_endpoint sv re r d))" "keeps low d (snd (session_endpoint sv re r d))"
    "keeps low d (snd (list_users_endpoint sv re r d))" "keeps low d (snd (create_user_endpoint um1 sv us re r d))"
    "keeps low d (snd (update_user_endpoint um2 sv re r d))" "keeps low d (snd (list_organizations_endpoint sv re r d))"
    "keeps low d (snd (create_organization_endpoint um3 sv re r d))" "keeps low d (snd (organization_item_endpoint sv re r d))"
    "keeps low d (snd (rename_organization_endpoint um3 sv re r d))"
proof -
  note guards = protect_unsafe_keeps require_authentication_keeps require_administrator_keeps require_permission_keeps
  show "keeps low d (snd (logout_endpoint sv re r d))"
    unfolding logout_endpoint_def by (intro keeps_steps guards delete_session_keeps)
  show "keeps low d (snd (session_endpoint sv re r d))"
    unfolding session_endpoint_def by (intro keeps_steps guards)
  show "keeps low d (snd (list_users_endpoint sv re r d))"
    unfolding list_users_endpoint_def by (intro keeps_steps guards)
  show "keeps low d (snd (create_user_endpoint um1 sv us re r d))"
    unfolding create_user_endpoint_def assms(3) [symmetric]
    by (intro keeps_steps guards create_user_keeps add_member_keeps clock_okD [OF assms(1)] assms(2))
  show "keeps low d (snd (update_user_endpoint um2 sv re r d))"
    unfolding update_user_endpoint_def assms(3) [symmetric] by (intro keeps_steps guards update_user_keeps assms(2))
  show "keeps low d (snd (list_organizations_endpoint sv re r d))"
    unfolding list_organizations_endpoint_def by (intro keeps_steps guards)
  show "keeps low d (snd (create_organization_endpoint um3 sv re r d))"
    unfolding create_organization_endpoint_def
    by (intro keeps_steps guards provision_keeps clock_okD [OF assms(1)] assms(2))
  show "keeps low d (snd (organization_item_endpoint sv re r d))"
    unfolding organization_item_endpoint_def by (intro keeps_steps guards)
  have rename: "keeps low d (snd (rename_organization i n d))" for i n d
    by (rule rename_keeps) (rule prod.collapse [symmetric])
  show "keeps low d (snd (rename_organization_endpoint um3 sv re r d))"
    unfolding rename_organization_endpoint_def by (intro keeps_steps guards rename)
qed

lemma keeps_guard:
  "keeps low (wsDb w) (web_db p) \<Longrightarrow> (\<And>q v. p = (q, v) \<Longrightarrow> keeps low (wsDb v) (web_db (f q v))) \<Longrightarrow>
     keeps low (wsDb w) (web_db (case p of (q, v) \<Rightarrow> f q v))"
  by (cases p) (auto intro: keeps_trans)

lemma keeps_authenticate:
  fixes f :: "'q \<Rightarrow> identity_db \<times> string \<times> string list \<Rightarrow> 'r \<times> 'l web_state"
  shows "(\<And>q d dummy hs. p = (q, d, dummy, hs) \<Longrightarrow> keeps low e d \<and> keeps low d (web_db (f q (d, dummy, hs)))) \<Longrightarrow>
     keeps low e (web_db (case p of (q, y) \<Rightarrow> f q y))"
  by (cases p) (auto intro: keeps_trans)

lemma login_keeps:
  assumes "clock_ok re" and "\<And>d. keeps low d (reBetween re d)" and "low = svLower sv"
  shows "keeps low (wsDb w) (web_db (login_endpoint um sv us rp re r w))"
proof -
  have session: "keeps low d (snd (create_session sv (reRandom re 0) (reClock re 3) r a d))" for a d
    using assms(1) by (intro create_session_keeps) (simp_all add: clock_ok_def)
  note authenticated = authenticate_keeps [OF _ assms(2)]
  show ?thesis
    unfolding login_endpoint_def assms(3) [symmetric]
    by (intro keeps_guard keeps_authenticate keeps_steps credential_guard_keeps conjI; (erule authenticated)?)
      (auto simp: keeps_refl split: sum.split authentication.split prod.split intro: session)
qed

lemma setup_keeps:
  assumes "clock_ok re" and "\<And>d. keeps low d (reBetween re d)" and "low = svLower sv"
  shows "keeps low (wsDb w) (web_db (setup_endpoint um sv us rp uuid re r w))"
proof -
  have session: "keeps low d (snd (create_session sv (reRandom re 0) (reClock re 5) r a d))" for a d
    using assms(1) by (intro create_session_keeps) (simp_all add: clock_ok_def)
  have bootstrap: "keeps low d (snd (provision_bootstrap i uuid (reClock re 4) (reBetween re) d))" for i d
    unfolding provision_bootstrap_def by (intro provision_keeps clock_okD [OF assms(1)] assms(2))
  show ?thesis
    unfolding setup_endpoint_def assms(3) [symmetric]
    by (intro keeps_guard keeps_steps credential_guard_keeps create_user_keeps clock_okD [OF assms(1)] bootstrap session; simp add: keeps_refl)
qed

section \<open>Requests\<close>

text \<open>
  What one request does to the tables, where between its steps any number of others run to their
  end. The limiter and the cached hash of the server are whatever they are.
\<close>

inductive request :: "web_server \<Rightarrow> user_service \<Rightarrow> 'l rate_package \<Rightarrow> identity_db \<Rightarrow> identity_db \<Rightarrow> bool" for sv us rp where
  set_up: "clock_ok re \<Longrightarrow> \<forall>d. (request sv us rp)\<^sup>*\<^sup>* d (reBetween re d) \<Longrightarrow>
     request sv us rp (wsDb w) (web_db (setup_endpoint um sv us rp uuid re r w))"
| login: "clock_ok re \<Longrightarrow> \<forall>d. (request sv us rp)\<^sup>*\<^sup>* d (reBetween re d) \<Longrightarrow>
     request sv us rp (wsDb w) (web_db (login_endpoint um' sv us rp re r w))"
| logout: "request sv us rp d (snd (logout_endpoint sv re r d))"
| session: "request sv us rp d (snd (session_endpoint sv re r d))"
| antiforgery: "request sv us rp d (snd (issue_antiforgery sv re r d))"
| list_users: "request sv us rp d (snd (list_users_endpoint sv re r d))"
| create_user: "clock_ok re \<Longrightarrow> \<forall>d. (request sv us rp)\<^sup>*\<^sup>* d (reBetween re d) \<Longrightarrow>
     request sv us rp d (snd (create_user_endpoint um sv us re r d))"
| update_user: "\<forall>d. (request sv us rp)\<^sup>*\<^sup>* d (reBetween re d) \<Longrightarrow> request sv us rp d (snd (update_user_endpoint um' sv re r d))"
| list_organizations: "request sv us rp d (snd (list_organizations_endpoint sv re r d))"
| create_organization: "clock_ok re \<Longrightarrow> \<forall>d. (request sv us rp)\<^sup>*\<^sup>* d (reBetween re d) \<Longrightarrow>
     request sv us rp d (snd (create_organization_endpoint um'' sv re r d))"
| organization: "request sv us rp d (snd (organization_item_endpoint sv re r d))"
| rename: "request sv us rp d (snd (rename_organization_endpoint um'' sv re r d))"
| reset: "\<forall>d. (request sv us rp)\<^sup>*\<^sup>* d (between d) \<Longrightarrow>
     request sv us rp d (snd (reset_password (svLower sv) (usHash us) email password between d))"
monos rtranclp_mono

lemma request_keeps:
  assumes "request sv us rp d d'" and "\<And>p h. usHash us p = Inr h \<Longrightarrow> trim_space h \<noteq> ''''"
  shows "keeps (svLower sv) d d'"
  using assms(1)
proof (induction rule: request.induct)
  have runs: "keeps (svLower sv) x y" if "(\<lambda>x y. request sv us rp x y \<and> keeps (svLower sv) x y)\<^sup>*\<^sup>* x y" for x y
    using that by (induction rule: rtranclp_induct) (auto intro: keeps_refl keeps_trans)
  {
    case set_up
    then show ?case by (intro setup_keeps runs) auto
  next
    case login
    then show ?case by (intro login_keeps runs) auto
  next
    case create_user
    then show ?case by (intro endpoints_keep runs) auto
  next
    case create_organization
    then show ?case by (intro endpoints_keep runs) auto
  next
    case (update_user re um' r d)
    have "keeps (svLower sv) d (snd (update_user (svLower sv) i e n (reBetween re) d))" for i e n d
      using update_user by (intro update_user_keeps runs) auto
    then show ?case unfolding update_user_endpoint_def
      by (intro keeps_steps protect_unsafe_keeps require_administrator_keeps)
  next
    case reset
    then show ?case by (intro reset_password_keeps runs assms(2)) auto
  next
    case (logout re r d)
    show ?case unfolding logout_endpoint_def
      by (intro keeps_steps protect_unsafe_keeps require_authentication_keeps delete_session_keeps)
  next
    case (session re r d)
    show ?case unfolding session_endpoint_def by (intro keeps_steps require_authentication_keeps)
  next
    case (antiforgery re r d)
    show ?case by (rule issue_antiforgery_keeps)
  next
    case (list_users re r d)
    show ?case unfolding list_users_endpoint_def by (intro keeps_steps require_administrator_keeps)
  next
    case (list_organizations re r d)
    show ?case unfolding list_organizations_endpoint_def by (intro keeps_steps require_authentication_keeps)
  next
    case (organization re r d)
    show ?case unfolding organization_item_endpoint_def by (intro keeps_steps require_permission_keeps)
  next
    case (rename um'' re r d)
    have "keeps (svLower sv) d (snd (rename_organization i n d))" for i n d
      by (rule rename_keeps) (rule prod.collapse [symmetric])
    then show ?case unfolding rename_organization_endpoint_def
      by (intro keeps_steps protect_unsafe_keeps require_permission_keeps)
  }
qed


section \<open>Witness\<close>

lemma sample_set_up:
  "\<exists>l. setup_endpoint (\<lambda>_. Some (Some ''a@b'', None, Some ''correct-horse'')) sample_server sample_users counting_rates (Inr ''o1'') sample_env
       anonymous_request (web (keyed empty_identity))
     = (Answered 201 (to_user_response (sample_account ''$h''), default_organization, sample_token),
        (web ((keyed provisioned_identity)\<lparr>idSessions := [sample_session]\<rparr>))\<lparr>wsCredentials := l\<rparr>)"
proof -
  let ?d = "keyed provisioned_identity"
  obtain l where g: "credential_guard sample_server counting_rates sample_env anonymous_request (web (keyed empty_identity))
      = (Inr None, (web (keyed empty_identity))\<lparr>wsCredentials := l\<rparr>)"
    using anonymous_guarded by blast
  have row: "account_row_ok (sample_account ''$h'')" using sample_text(2) sample_email by (simp add: account_row_ok_def sample_account_def)
  note i = sample_input [where hash = "\<lambda>_. Inr ''$h''", OF refl sample_text(1)]
  have s: "setup_administrator (\<lambda>r. r) (\<lambda>_. Inr ''$h'') (Inr ''u1'') sample_instant ''a@b'' '''' ''correct-horse'' (keyed empty_identity)
      = (Inr (UserCreated (sample_account ''$h'')), keyed (sample_identity ''$h''))"
    by (simp add: setup_administrator_def i create_first_administrator_def any_users_exist_def row sample_valid(3) [OF sample_text(1)])
      (simp add: keyed_def sample_identity_def empty_identity_def)
  have p: "provision_bootstrap ''u1'' (Inr ''o1'') sample_instant (\<lambda>d. d) (keyed (sample_identity ''$h'')) = (Inr (ProvisionCreated default_organization), ?d)"
  proof -
    have "list_user_ids (keyed (sample_identity ''$h'')) = [''u1'']" by (simp add: list_user_ids_def keyed_def sample_identity_def sample_account_def)
    moreover have "ogID default_organization = ''o1''" by (simp add: default_organization_def)
    moreover have "create_organization default_organization [default_member ''u1''] (keyed (sample_identity ''$h'')) = (Inr (), ?d)"
      using default_created [of "keyed (sample_identity ''$h'')" "[]"] by (simp add: keyed_def provisioned_identity_def sample_without)
    ultimately show ?thesis
      by (simp add: provision_bootstrap_def provision_def default_new default_name sample_instant_valid(2))
  qed
  have c: "create_session sample_server (reRandom sample_env 0) sample_instant anonymous_request (sample_account ''$h'') ?d
      = (Inr sample_token, ?d\<lparr>idSessions := [sample_session]\<rparr>)"
    by (rule sample_session_created)
      (simp_all add: keyed_def provisioned_identity_def sample_identity_def empty_identity_def anonymous_request_def sessionCookieName_def
        antiforgeryCookieName_def)
  have "svLower sample_server = (\<lambda>r. r)" "usHash sample_users = (\<lambda>_. Inr ''$h'')" "rqMethod anonymous_request = ''POST''"
    "reClock sample_env k = sample_instant" "reUUID sample_env = Inr ''u1''" "reBetween sample_env = (\<lambda>d. d)"
    "acID (sample_account ''$h'') = ''u1''" for k
    by (simp_all add: sample_server_def sample_users_def anonymous_request_def sample_request_def sample_env_def sample_account_def)
  then show ?thesis using s p c by (simp add: setup_endpoint_def g sample_body value_or_empty_def) (simp add: web_def)
qed


end
