(* ===== verification/StatusPage.thy ===== *)
theory StatusPage
  imports Sessions RunStore
begin

text \<open>
  Status pages: \<open>internal/statuspage\<close> and \<open>internal/postgres/statuspage.go\<close>. A draft is replaced under
  its version, published under the hash of a token and revoked; whoever has the token reads the page.
  A use case that reads before its transaction takes what it read as arguments: the tables of
  each statement, which requests may have changed since. The lemmas show that the tables follow an
  abstract record of drafts and tokens, and that no replacement is lost.
\<close>

section \<open>Drafts\<close>

definition MaxComponents :: nat where "MaxComponents = 50"

record publication =
  pbTokenHash :: string
  pbPublishedAt :: go_time

record page_component =
  pcID :: string
  pcMonitorID :: string
  pcLabel :: string
  pcPosition :: int

record page_draft =
  pgID :: string
  pgOrganizationID :: string
  pgTitle :: string
  pgVersion :: int
  pgCreatedAt :: go_time
  pgUpdatedAt :: go_time
  pgComponents :: "page_component list"
  pgPublication :: "publication option"

text \<open>The loop of \<open>restoreDraft\<close> from a position, with the components before it.\<close>

fun component_failure :: "page_component list \<Rightarrow> page_component list \<Rightarrow> string option" where
  "component_failure seen [] = None"
| "component_failure seen (c # cs) =
     (if pcID c = '''' \<or> pcMonitorID c = '''' \<or> pcPosition c \<noteq> int (length seen) then
        Some ''invalid status component identity or position''
      else if normalize_label (pcLabel c) \<noteq> Some (pcLabel c) then Some ''invalid status component label''
      else if pcID c \<in> pcID ` set seen then Some ''duplicate status component identity''
      else if pcMonitorID c \<in> pcMonitorID ` set seen then Some ''duplicate status component Monitor''
      else component_failure (seen @ [c]) cs)"

definition restore_draft :: "page_draft \<Rightarrow> page_draft result" where
  "restore_draft v =
     (if pgID v = '''' \<or> pgOrganizationID v = '''' \<or> pgVersion v < 1 then
        Inl (ErrText ''a status page requires identity, Organization scope, and a positive version'')
      else if normalize_label (pgTitle v) \<noteq> Some (pgTitle v) then Inl (ErrText ''invalid status page title'')
      else if \<not> is_utc_location (pgCreatedAt v) \<or> \<not> is_utc_location (pgUpdatedAt v) \<or> before (pgUpdatedAt v) (pgCreatedAt v) then
        Inl (ErrText ''invalid status page timestamps'')
      else if length (pgComponents v) < 1 \<or> length (pgComponents v) > MaxComponents then
        Inl (ErrText ''invalid status component count'')
      else case component_failure [] (pgComponents v) of
        Some e \<Rightarrow> Inl (ErrText e)
      | None \<Rightarrow>
          (case pgPublication v of
             None \<Rightarrow> Inr v
           | Some p \<Rightarrow>
               if pbTokenHash p = no_hash \<or> \<not> is_utc_location (pbPublishedAt p) then
                 Inl (ErrText ''invalid status page publication'')
               else Inr v))"

definition valid_publication_token :: "string \<Rightarrow> bool" where
  "valid_publication_token value \<longleftrightarrow> decode_opaque_token value \<noteq> None"

definition hash_publication_token :: "hash_function \<Rightarrow> string \<Rightarrow> string option" where
  "hash_publication_token h value = map_option (digest h) (decode_opaque_token value)"

record public_component =
  puLabel :: string
  puState :: health_state
  puUpdatedAt :: go_time
  puMaintenance :: bool

record public_page =
  ppgTitle :: string
  ppgComponents :: "public_component list"

fun public_component_failure :: "public_component list \<Rightarrow> string option" where
  "public_component_failure [] = None"
| "public_component_failure (c # cs) =
     (if normalize_label (puLabel c) \<noteq> Some (puLabel c) then Some ''invalid public status component label''
      else if puState c \<notin> {StateUnknown, StateHealthy, StateDegraded, StateDown} then
        Some ''invalid public status component state''
      else if \<not> is_utc_location (puUpdatedAt c) then Some ''invalid public status component update instant''
      else public_component_failure cs)"

definition restore_public_page :: "public_page \<Rightarrow> public_page result" where
  "restore_public_page v =
     (if normalize_label (ppgTitle v) \<noteq> Some (ppgTitle v) then Inl (ErrText ''invalid public status page title'')
      else if length (ppgComponents v) < 1 \<or> length (ppgComponents v) > MaxComponents then
        Inl (ErrText ''invalid public status component count'')
      else case public_component_failure (ppgComponents v) of Some e \<Rightarrow> Inl (ErrText e) | None \<Rightarrow> Inr v)"

section \<open>The store\<close>

record page_row =
  spID :: string
  spOrganizationID :: string
  spTitle :: string
  spVersion :: int
  spCreatedAt :: go_time
  spUpdatedAt :: go_time
  spTokenHash :: "string option"
  spPublishedAt :: "go_time option"

record component_row =
  cwID :: string
  cwOrganizationID :: string
  cwPageID :: string
  cwMonitorID :: string
  cwLabel :: string
  cwPosition :: int

record page_db =
  pdPages :: "page_row list"
  pdComponents :: "component_row list"

text \<open>The page of an Organization, and the components of a page by position.\<close>

definition page_at :: "string \<Rightarrow> page_db \<Rightarrow> page_row option" where
  "page_at org p = find (\<lambda>r. spOrganizationID r = org) (pdPages p)"

definition page_components :: "string \<Rightarrow> string \<Rightarrow> page_db \<Rightarrow> component_row list" where
  "page_components org page p = sort_key cwPosition (filter (\<lambda>c. cwOrganizationID c = org \<and> cwPageID c = page) (pdComponents p))"

definition scan_component :: "component_row \<Rightarrow> page_component" where
  "scan_component c = \<lparr>pcID = cwID c, pcMonitorID = cwMonitorID c, pcLabel = cwLabel c, pcPosition = cwPosition c\<rparr>"

text \<open>\<open>FindDraft\<close> reads the page and its components in two statements, on the tables \<open>p\<close> and then \<open>p'\<close>.\<close>

definition find_draft :: "string \<Rightarrow> page_db \<Rightarrow> page_db \<Rightarrow> page_draft option result" where
  "find_draft org p p' =
     (case page_at org p of
        None \<Rightarrow> Inr None
      | Some r \<Rightarrow>
          let v = \<lparr>pgID = spID r, pgOrganizationID = org, pgTitle = spTitle r, pgVersion = spVersion r,
            pgCreatedAt = to_utc (spCreatedAt r), pgUpdatedAt = to_utc (spUpdatedAt r),
            pgComponents = map scan_component (page_components org (spID r) p'), pgPublication = None\<rparr>
          in case spTokenHash r of
               None \<Rightarrow> (case restore_draft v of Inl e \<Rightarrow> Inl (Wrapped ''restore status page draft'' e) | Inr v' \<Rightarrow> Inr (Some v'))
             | Some h \<Rightarrow>
                 (case spPublishedAt r of
                    None \<Rightarrow> Inl (ErrText ''restore status page draft: invalid publication state'')
                  | Some t \<Rightarrow>
                      if length h \<noteq> 32 then Inl (ErrText ''restore status page draft: invalid publication state'')
                      else case restore_draft (v\<lparr>pgPublication := Some \<lparr>pbTokenHash = h, pbPublishedAt = to_utc t\<rparr>\<rparr>) of
                        Inl e \<Rightarrow> Inl (Wrapped ''restore status page draft'' e) | Inr v' \<Rightarrow> Inr (Some v')))"

text \<open>The constraints of \<open>status_pages\<close> and \<open>status_page_components\<close> on one row.\<close>

definition trim_blanks :: "string \<Rightarrow> string" where
  "trim_blanks s = rev (dropWhile (\<lambda>c. c = CHR '' '') (rev (dropWhile (\<lambda>c. c = CHR '' '') s)))"

definition pg_label :: "string \<Rightarrow> bool" where
  "pg_label s \<longleftrightarrow> pg_text s \<and> length (runes s) \<le> 100 \<and> trim_blanks s \<noteq> ''''"

definition page_row_ok :: "page_row \<Rightarrow> bool" where
  "page_row_ok r \<longleftrightarrow> pg_label (spTitle r) \<and> 0 < spVersion r \<and> \<not> before (spUpdatedAt r) (spCreatedAt r)
     \<and> (case (spTokenHash r, spPublishedAt r) of (None, None) \<Rightarrow> True | (Some h, Some t) \<Rightarrow> length h = 32 | _ \<Rightarrow> False)"

definition component_row_ok :: "component_row \<Rightarrow> bool" where
  "component_row_ok c \<longleftrightarrow> pg_label (cwLabel c) \<and> 0 \<le> cwPosition c \<and> cwPosition c \<le> 49"

definition publish_page :: "string \<Rightarrow> publication \<Rightarrow> page_db \<Rightarrow> unit result \<times> page_db" where
  "publish_page org v p =
     (case page_at org p of
        None \<Rightarrow> (Inl (ErrIs PageDraftMissing), p)
      | Some r \<Rightarrow>
          if spTokenHash r \<noteq> None then (Inl (ErrIs PageAlreadyPublished), p)
          else if sql_exists (\<lambda>q. spTokenHash q = Some (pbTokenHash v)) (pdPages p) then (Inl (ErrText ''publish status page''), p)
          else (Inr (), p\<lparr>pdPages := sql_update (\<lambda>q. spOrganizationID q = org)
            (\<lambda>q. q\<lparr>spTokenHash := Some (pbTokenHash v), spPublishedAt := Some (db_instant (pbPublishedAt v))\<rparr>) (pdPages p)\<rparr>))"

definition revoke_page :: "string \<Rightarrow> page_db \<Rightarrow> page_db" where
  "revoke_page org p = p\<lparr>pdPages := sql_update (\<lambda>q. spOrganizationID q = org)
     (\<lambda>q. q\<lparr>spTokenHash := None, spPublishedAt := None\<rparr>) (pdPages p)\<rparr>"

text \<open>
  A component with what is shown of its Monitor: the join is inner on the Monitor and outer on its
  health, each at most one row by its primary key.
\<close>

definition public_component_of :: "db \<Rightarrow> go_time \<Rightarrow> component_row \<Rightarrow> public_component option" where
  "public_component_of d now c =
     map_option (\<lambda>m.
         let active = (mrState m = ''active'');
           health = find (\<lambda>h. hwMonitorID h = mrID m \<and> hwOrganizationID h = mrOrganizationID m) (dbHealth d)
         in \<lparr>puLabel = cwLabel c,
              puState = (if active then (case health of None \<Rightarrow> StateUnknown | Some h \<Rightarrow> hwState h) else StateUnknown),
              puUpdatedAt = to_utc (if active then (case health of None \<Rightarrow> mrCreatedAt m | Some h \<Rightarrow> hwUpdatedAt h) else mrUpdatedAt m),
              puMaintenance = (active \<and> sql_exists (\<lambda>w. nwOrganizationID w = cwOrganizationID c \<and> nwMonitorID w = cwMonitorID c
                \<and> nwCancelledAt w = None \<and> nanos (nwStartsAt w) \<le> nanos (db_instant now) \<and> nanos (db_instant now) < nanos (nwEndsAt w))
                (dbWindows d))\<rparr>)
       (find (\<lambda>m. mrID m = cwMonitorID c \<and> mrOrganizationID m = cwOrganizationID c) (dbMonitors d))"

text \<open>The lock on the page keeps its components as they are; the other tables are those of the second statement.\<close>

definition find_public_page :: "string \<Rightarrow> go_time \<Rightarrow> db \<Rightarrow> page_db \<Rightarrow> public_page option result" where
  "find_public_page h now d p =
     (case find (\<lambda>r. spTokenHash r = Some h) (pdPages p) of
        None \<Rightarrow> Inr None
      | Some r \<Rightarrow>
          (case restore_public_page \<lparr>ppgTitle = spTitle r,
             ppgComponents = List.map_filter (public_component_of d now) (page_components (spOrganizationID r) (spID r) p)\<rparr> of
             Inl e \<Rightarrow> Inl (Wrapped ''restore public status page'' e) | Inr v \<Rightarrow> Inr (Some v)))"

definition draft_row :: "page_draft \<Rightarrow> page_row" where
  "draft_row v = \<lparr>spID = pgID v, spOrganizationID = pgOrganizationID v, spTitle = pgTitle v, spVersion = pgVersion v,
     spCreatedAt = db_instant (pgCreatedAt v), spUpdatedAt = db_instant (pgUpdatedAt v), spTokenHash = None, spPublishedAt = None\<rparr>"

definition component_to_row :: "page_draft \<Rightarrow> page_component \<Rightarrow> component_row" where
  "component_to_row v c = \<lparr>cwID = pcID c, cwOrganizationID = pgOrganizationID v, cwPageID = pgID v,
     cwMonitorID = pcMonitorID c, cwLabel = pcLabel c, cwPosition = pcPosition c\<rparr>"

definition monitor_available :: "db \<Rightarrow> string \<Rightarrow> string \<Rightarrow> bool" where
  "monitor_available d org mon \<longleftrightarrow>
     sql_exists (\<lambda>m. mrID m = mon \<and> mrOrganizationID m = org \<and> mrState m \<noteq> ''archived'') (dbMonitors d)"

definition components_collide :: "component_row \<Rightarrow> component_row \<Rightarrow> bool" where
  "components_collide c e \<longleftrightarrow> cwID c = cwID e
     \<or> cwPageID c = cwPageID e \<and> (cwPosition c = cwPosition e \<or> cwMonitorID c = cwMonitorID e)"

fun insert_components :: "db \<Rightarrow> page_draft \<Rightarrow> page_component list \<Rightarrow> page_db \<Rightarrow> page_db result" where
  "insert_components d v [] p = Inr p"
| "insert_components d v (c # cs) p =
     (if \<not> monitor_available d (pgOrganizationID v) (pcMonitorID c) then Inl (ErrIs PageMonitorUnavailable)
      else if \<not> component_row_ok (component_to_row v c) \<or> sql_exists (components_collide (component_to_row v c)) (pdComponents p)
        \<or> \<not> sql_exists (\<lambda>r. spID r = pgID v \<and> spOrganizationID r = pgOrganizationID v) (pdPages p) then
        Inl (ErrText ''insert status component'')
      else insert_components d v cs (p\<lparr>pdComponents := pdComponents p @ [component_to_row v c]\<rparr>))"

definition replaced_row :: "page_draft \<Rightarrow> page_row \<Rightarrow> page_row" where
  "replaced_row v q = q\<lparr>spTitle := pgTitle v, spVersion := pgVersion v, spUpdatedAt := db_instant (pgUpdatedAt v)\<rparr>"

definition write_page_row :: "page_draft \<Rightarrow> int \<Rightarrow> db \<Rightarrow> page_db \<Rightarrow> page_db result" where
  "write_page_row v expected d p =
     (case page_at (pgOrganizationID v) p of
        None \<Rightarrow>
          if expected \<noteq> 0 then Inl (ErrIs PageConcurrentUpdate)
          else if pgOrganizationID v \<notin> set (dbOrganizations d) then Inr p
          else if \<not> page_row_ok (draft_row v) \<or> sql_exists (\<lambda>r. spID r = pgID v) (pdPages p) then Inl (ErrText ''insert status page draft'')
          else Inr (p\<lparr>pdPages := pdPages p @ [draft_row v]\<rparr>)
      | Some r \<Rightarrow>
          if spVersion r \<noteq> expected then Inl (ErrIs PageConcurrentUpdate)
          else if \<not> page_row_ok (replaced_row v r) then Inl (ErrText ''update status page draft'')
          else Inr (p\<lparr>pdPages := sql_update (\<lambda>q. spOrganizationID q = pgOrganizationID v \<and> spVersion q = expected) (replaced_row v) (pdPages p),
            pdComponents := sql_delete (\<lambda>c. cwOrganizationID c = pgOrganizationID v \<and> cwPageID c = pgID v) (pdComponents p)\<rparr>))"

definition replace_draft :: "page_draft \<Rightarrow> int \<Rightarrow> db \<Rightarrow> page_db \<Rightarrow> unit result \<times> page_db" where
  "replace_draft v expected d p =
     (case and_then (write_page_row v expected d p) (insert_components d v (pgComponents v)) of
        Inl e \<Rightarrow> (Inl e, p) | Inr p' \<Rightarrow> (Inr (), p'))"

section \<open>Use cases\<close>

record component_input =
  ciMonitorID :: string
  ciLabel :: string

record replace_command =
  rcOrganizationID :: string
  rcTitle :: string
  rcVersion :: int
  rcComponents :: "component_input list"

datatype replace_result = ReplaceInvalid "validation_failure list" | ReplaceUpdated page_draft | ReplaceConflict string string

definition title_failure :: validation_failure where
  "title_failure = \<lparr>vfCode = ''statusPage.title.invalid'', vfField = ''title'',
     vfMessage = ''A status page title is 1 to 100 characters after trimming.''\<rparr>"

definition components_failure :: validation_failure where
  "components_failure = \<lparr>vfCode = ''statusPage.components.invalid'', vfField = ''components'',
     vfMessage = ''A status page requires from 1 through 50 explicitly selected components.''\<rparr>"

definition component_field :: "nat \<Rightarrow> string \<Rightarrow> string" where
  "component_field i name = ''components['' @ nat_dec i @ ''].'' @ name"

definition component_label_failure :: "nat \<Rightarrow> validation_failure" where
  "component_label_failure i = \<lparr>vfCode = ''statusPage.component.label.invalid'', vfField = component_field i ''label'',
     vfMessage = ''A component label is 1 to 100 characters after trimming.''\<rparr>"

definition component_monitor_failure :: "nat \<Rightarrow> validation_failure" where
  "component_monitor_failure i = \<lparr>vfCode = ''statusPage.component.monitor.invalid'', vfField = component_field i ''monitorId'',
     vfMessage = ''Each component requires a canonical Monitor identifier.''\<rparr>"

definition component_duplicate_failure :: "nat \<Rightarrow> validation_failure" where
  "component_duplicate_failure i = \<lparr>vfCode = ''statusPage.component.monitor.duplicate'', vfField = component_field i ''monitorId'',
     vfMessage = ''A Monitor can appear only once on a status page.''\<rparr>"

definition page_conflict_code :: string where "page_conflict_code = ''statusPage.concurrentUpdate''"
definition page_conflict_detail :: string where
  "page_conflict_detail = ''The status page changed before the update completed. Reload and try again.''"

definition page_version_failure :: validation_failure where
  "page_version_failure = \<lparr>vfCode = page_conflict_code, vfField = ''version'', vfMessage = page_conflict_detail\<rparr>"

definition monitor_unavailable_failure :: validation_failure where
  "monitor_unavailable_failure = \<lparr>vfCode = ''statusPage.component.monitorUnavailable'', vfField = ''components'',
     vfMessage = ''One or more selected Monitors are unavailable for status configuration.''\<rparr>"

text \<open>The loop over the components; \<open>seen\<close> are the Monitors before the component.\<close>

fun input_failures :: "string list \<Rightarrow> component_input list \<Rightarrow> validation_failure list" where
  "input_failures seen [] = []"
| "input_failures seen (c # cs) =
     (if normalize_label (ciLabel c) = None then [component_label_failure (length seen)] else [])
     @ (if ciMonitorID c = '''' then [component_monitor_failure (length seen)]
        else if ciMonitorID c \<in> set seen then [component_duplicate_failure (length seen)] else [])
     @ input_failures (seen @ [ciMonitorID c]) cs"

definition replace_failures :: "replace_command \<Rightarrow> validation_failure list" where
  "replace_failures cmd =
     (if normalize_label (rcTitle cmd) = None then [title_failure] else [])
     @ (if length (rcComponents cmd) < 1 \<or> length (rcComponents cmd) > MaxComponents then [components_failure] else [])
     @ input_failures [] (rcComponents cmd)
     @ (if rcVersion cmd < 0 then [page_version_failure] else [])"

text \<open>A component keeps the identifier its Monitor had on the page, or gets the next of the generator.\<close>

fun assign_components :: "(string \<rightharpoonup> string) \<Rightarrow> (nat \<Rightarrow> string result) \<Rightarrow> nat \<Rightarrow> nat \<Rightarrow> component_input list \<Rightarrow> page_component list result" where
  "assign_components existing uuid i k [] = Inr []"
| "assign_components existing uuid i k (c # cs) =
     (let label = (case normalize_label (ciLabel c) of None \<Rightarrow> trim_space (ciLabel c) | Some l \<Rightarrow> l);
        rest = (\<lambda>n k'. and_then (assign_components existing uuid (i + 1) k' cs)
          (\<lambda>vs. Inr (\<lparr>pcID = n, pcMonitorID = ciMonitorID c, pcLabel = label, pcPosition = int i\<rparr> # vs)))
      in case existing (ciMonitorID c) of
           Some n \<Rightarrow> if n \<noteq> '''' then rest n k else
             (case uuid k of Inl e \<Rightarrow> Inl (Wrapped ''generate status component id'' e) | Inr n' \<Rightarrow> rest n' (k + 1))
         | None \<Rightarrow> (case uuid k of Inl e \<Rightarrow> Inl (Wrapped ''generate status component id'' e) | Inr n' \<Rightarrow> rest n' (k + 1)))"

definition replacement :: "replace_command \<Rightarrow> go_time \<Rightarrow> (nat \<Rightarrow> string result) \<Rightarrow> page_draft option \<Rightarrow> page_draft result" where
  "replacement cmd now uuid current =
     (let title = (case normalize_label (rcTitle cmd) of None \<Rightarrow> trim_space (rcTitle cmd) | Some t \<Rightarrow> t);
        build = (\<lambda>page created version existing pub k.
          and_then (assign_components existing uuid 0 k (rcComponents cmd))
            (\<lambda>cs. restore_draft \<lparr>pgID = page, pgOrganizationID = rcOrganizationID cmd, pgTitle = title, pgVersion = version,
               pgCreatedAt = created, pgUpdatedAt = now, pgComponents = cs, pgPublication = pub\<rparr>))
      in case current of
           Some v \<Rightarrow> build (pgID v) (pgCreatedAt v) (wrap64 (pgVersion v + 1))
             (map_of (map (\<lambda>c. (pcMonitorID c, pcID c)) (rev (pgComponents v)))) (pgPublication v) 0
         | None \<Rightarrow>
             (case uuid 0 of
                Inl e \<Rightarrow> Inl (Wrapped ''generate status page id'' e)
              | Inr i \<Rightarrow> build i now 1 Map.empty None 1))"

text \<open>\<open>p1\<close> and \<open>p2\<close> are the tables the draft was read from, \<open>d\<close> and \<open>p\<close> those of the transaction.\<close>

definition replace_page ::
  "replace_command \<Rightarrow> page_db \<Rightarrow> page_db \<Rightarrow> go_time \<Rightarrow> (nat \<Rightarrow> string result) \<Rightarrow> db \<Rightarrow> page_db \<Rightarrow> replace_result result \<times> page_db" where
  "replace_page cmd p1 p2 clock uuid d p =
     (if replace_failures cmd \<noteq> [] then (Inr (ReplaceInvalid (replace_failures cmd)), p)
      else case find_draft (rcOrganizationID cmd) p1 p2 of
        Inl e \<Rightarrow> (Inl e, p)
      | Inr current \<Rightarrow>
          if (case current of None \<Rightarrow> rcVersion cmd \<noteq> 0 | Some v \<Rightarrow> rcVersion cmd \<noteq> pgVersion v) then
            (Inr (ReplaceConflict page_conflict_code page_conflict_detail), p)
          else case replacement cmd (to_utc clock) uuid current of
            Inl e \<Rightarrow> (Inl e, p)
          | Inr v \<Rightarrow>
              (case replace_draft v (rcVersion cmd) d p of
                 (Inl e, p') \<Rightarrow>
                   (if errors_is e PageMonitorUnavailable then Inr (ReplaceInvalid [monitor_unavailable_failure])
                    else if errors_is e PageConcurrentUpdate then Inr (ReplaceConflict page_conflict_code page_conflict_detail)
                    else Inl e, p')
               | (Inr _, p') \<Rightarrow> (Inr (ReplaceUpdated v), p')))"

datatype publish_result = PublishPublished publication | PublishDraftMissing string string | PublishAlreadyPublished string string

definition publish :: "hash_function \<Rightarrow> string \<Rightarrow> string \<Rightarrow> go_time \<Rightarrow> page_db \<Rightarrow> publish_result result \<times> page_db" where
  "publish h org token clock p =
     (case hash_publication_token h token of
        None \<Rightarrow> (Inl (ErrText ''status page publication requires Organization identity and an opaque token''), p)
      | Some x \<Rightarrow>
          if org = '''' then (Inl (ErrText ''status page publication requires Organization identity and an opaque token''), p)
          else let v = \<lparr>pbTokenHash = x, pbPublishedAt = to_utc clock\<rparr> in
            case publish_page org v p of
              (Inl e, p') \<Rightarrow>
                (if errors_is e PageDraftMissing then
                   Inr (PublishDraftMissing ''statusPage.draftMissing'' ''Save the status page draft before publishing it.'')
                 else if errors_is e PageAlreadyPublished then
                   Inr (PublishAlreadyPublished ''statusPage.alreadyPublished'' ''The status page is already published.'')
                 else Inl e, p')
            | (Inr _, p') \<Rightarrow> (Inr (PublishPublished v), p'))"

definition revoke :: "string \<Rightarrow> page_db \<Rightarrow> unit result \<times> page_db" where
  "revoke org p =
     (if org = '''' then (Inl (ErrText ''status page revocation requires Organization identity''), p) else (Inr (), revoke_page org p))"

definition get_public :: "hash_function \<Rightarrow> string \<Rightarrow> go_time \<Rightarrow> db \<Rightarrow> page_db \<Rightarrow> public_page option result" where
  "get_public h token clock d p =
     (case hash_publication_token h token of None \<Rightarrow> Inr None | Some x \<Rightarrow> find_public_page x (to_utc clock) d p)"

section \<open>What the tables hold\<close>

definition publication_ok :: "page_row \<Rightarrow> bool" where
  "publication_ok r \<longleftrightarrow> (case (spTokenHash r, spPublishedAt r) of (None, None) \<Rightarrow> True
     | (Some x, Some t) \<Rightarrow> length x = 32 \<and> x \<noteq> no_hash \<and> \<not> is_zero t | _ \<Rightarrow> False)"

definition page_row_wf :: "page_row \<Rightarrow> bool" where
  "page_row_wf r \<longleftrightarrow> spID r \<noteq> '''' \<and> spOrganizationID r \<noteq> '''' \<and> 1 \<le> spVersion r \<and> fits64 (spVersion r)
     \<and> normalize_label (spTitle r) = Some (spTitle r) \<and> \<not> is_zero (spCreatedAt r) \<and> \<not> is_zero (spUpdatedAt r)
     \<and> \<not> before (spUpdatedAt r) (spCreatedAt r) \<and> publication_ok r"

definition components_wf :: "page_component list \<Rightarrow> bool" where
  "components_wf cs \<longleftrightarrow> 1 \<le> length cs \<and> length cs \<le> MaxComponents \<and> component_failure [] cs = None"

definition shown_components :: "page_row \<Rightarrow> page_db \<Rightarrow> page_component list" where
  "shown_components r p = map scan_component (page_components (spOrganizationID r) (spID r) p)"

definition pages_ok :: "page_db \<Rightarrow> bool" where
  "pages_ok p \<longleftrightarrow> unique_on (\<lambda>r. Some (spOrganizationID r)) (pdPages p) \<and> unique_on (\<lambda>r. Some (spID r)) (pdPages p)
     \<and> unique_on spTokenHash (pdPages p)
     \<and> (\<forall>r\<in>set (pdPages p). page_row_wf r \<and> components_wf (shown_components r p))
     \<and> (\<forall>c\<in>set (pdComponents p). \<exists>r\<in>set (pdPages p). spID r = cwPageID c \<and> spOrganizationID r = cwOrganizationID c)"

lemma page_at_Some: "pages_ok p \<Longrightarrow> page_at org p = Some r \<longleftrightarrow> r \<in> set (pdPages p) \<and> spOrganizationID r = org"
proof
  assume "page_at org p = Some r"
  then show "r \<in> set (pdPages p) \<and> spOrganizationID r = org" by (auto simp: page_at_def dest: find_holds)
next
  assume "pages_ok p" and "r \<in> set (pdPages p) \<and> spOrganizationID r = org"
  then show "page_at org p = Some r"
    unfolding page_at_def pages_ok_def by (intro find_unique [where key = spOrganizationID]) auto
qed

lemma page_at_None: "page_at org p = None \<longleftrightarrow> (\<forall>r\<in>set (pdPages p). spOrganizationID r \<noteq> org)"
  by (auto simp: page_at_def find_None_iff)

lemma restore_draft_Inr: "restore_draft v = Inr w \<longleftrightarrow> w = v \<and> pgID v \<noteq> '''' \<and> pgOrganizationID v \<noteq> '''' \<and> 1 \<le> pgVersion v
    \<and> normalize_label (pgTitle v) = Some (pgTitle v) \<and> is_utc_location (pgCreatedAt v) \<and> is_utc_location (pgUpdatedAt v)
    \<and> \<not> before (pgUpdatedAt v) (pgCreatedAt v) \<and> components_wf (pgComponents v)
    \<and> (\<forall>x. pgPublication v = Some x \<longrightarrow> pbTokenHash x \<noteq> no_hash \<and> is_utc_location (pbPublishedAt x))"
  by (auto simp: restore_draft_def components_wf_def Suc_le_eq split: if_splits option.splits)

lemma not_before_to_utc: "before (to_utc a) (to_utc b) = before a b"
  by (simp add: before_def)

lemma find_draft_whole:
  assumes "pages_ok p" and "page_at org p = Some r"
  shows "find_draft org p p = Inr (Some \<lparr>pgID = spID r, pgOrganizationID = org, pgTitle = spTitle r, pgVersion = spVersion r,
    pgCreatedAt = to_utc (spCreatedAt r), pgUpdatedAt = to_utc (spUpdatedAt r), pgComponents = shown_components r p,
    pgPublication = (case (spTokenHash r, spPublishedAt r) of (Some x, Some t) \<Rightarrow> Some \<lparr>pbTokenHash = x, pbPublishedAt = to_utc t\<rparr> | _ \<Rightarrow> None)\<rparr>)"
    (is "_ = Inr (Some ?v)")
proof -
  have r: "r \<in> set (pdPages p)" "spOrganizationID r = org" using assms page_at_Some by blast+
  then have wf: "page_row_wf r" "components_wf (shown_components r p)" using assms(1) by (auto simp: pages_ok_def)
  then have "restore_draft ?v = Inr ?v"
    using r by (auto simp: restore_draft_Inr page_row_wf_def publication_ok_def not_before_to_utc split: option.splits)
  then show ?thesis using assms(2) wf(1) r(2)
    by (auto simp: find_draft_def page_row_wf_def publication_ok_def shown_components_def Let_def split: option.splits)
qed

lemma find_draft_none: "page_at org p = None \<Longrightarrow> find_draft org p p' = Inr None"
  by (simp add: find_draft_def)

text \<open>What was read has passed \<open>restoreDraft\<close> and names the page it was read from.\<close>

lemma find_draft_Some:
  assumes "find_draft org p p' = Inr (Some v)"
  obtains r where "page_at org p = Some r" "restore_draft v = Inr v" "pgID v = spID r" "pgOrganizationID v = org"
    "pgVersion v = spVersion r" "pgCreatedAt v = to_utc (spCreatedAt r)"
  using assms by (auto simp: find_draft_def restore_draft_Inr Let_def split: option.splits sum.splits if_splits)

section \<open>Writing\<close>

lemma insert_components_Inr:
  "insert_components d v cs p = Inr p' \<Longrightarrow>
     p' = p\<lparr>pdComponents := pdComponents p @ map (component_to_row v) cs\<rparr>
     \<and> (\<forall>c\<in>set cs. monitor_available d (pgOrganizationID v) (pcMonitorID c))
     \<and> (cs \<noteq> [] \<longrightarrow> (\<exists>r\<in>set (pdPages p). spID r = pgID v \<and> spOrganizationID r = pgOrganizationID v))"
  by (induction cs arbitrary: p) (fastforce split: if_splits)+

lemma component_failure_positions: "component_failure seen cs = None \<Longrightarrow> map pcPosition cs = map int [length seen..<length seen + length cs]"
proof (induction cs arbitrary: seen)
  case (Cons c cs)
  then have "pcPosition c = int (length seen)" "component_failure (seen @ [c]) cs = None" by (simp_all split: if_splits)
  then show ?case using Cons.IH [of "seen @ [c]"] upt_conv_Cons [of "length seen" "length seen + length (c # cs)"] by simp
qed simp

lemma sorted_components: "component_failure [] cs = None \<Longrightarrow> sorted (map pcPosition cs)"
  by (simp add: component_failure_positions sorted_map sorted_wrt_upt [unfolded sorted_wrt_iff_nth_less] sorted_wrt_iff_nth_less)

lemma written_components:
  assumes "components_wf cs" and "\<forall>c\<in>set (pdComponents p). cwOrganizationID c = pgOrganizationID v \<longrightarrow> cwPageID c \<noteq> pgID v"
  shows "map scan_component (page_components (pgOrganizationID v) (pgID v) (p\<lparr>pdComponents := pdComponents p @ map (component_to_row v) cs\<rparr>)) = cs"
proof -
  have "filter (\<lambda>c. cwOrganizationID c = pgOrganizationID v \<and> cwPageID c = pgID v) (pdComponents p) = []"
    using assms(2) by (auto simp: filter_empty_conv)
  moreover have "filter (\<lambda>c. cwOrganizationID c = pgOrganizationID v \<and> cwPageID c = pgID v) (map (component_to_row v) cs) = map (component_to_row v) cs"
    by (simp add: component_to_row_def filter_map comp_def)
  moreover have "sort_key cwPosition (map (component_to_row v) cs) = map (component_to_row v) cs"
    using assms(1) sorted_components by (intro sort_key_id_if_sorted) (simp add: components_wf_def component_to_row_def comp_def)
  moreover have "scan_component \<circ> component_to_row v = id" by (auto simp: scan_component_def component_to_row_def)
  ultimately show ?thesis by (simp add: page_components_def)
qed

lemma other_components:
  assumes "org \<noteq> pgOrganizationID v \<or> i \<noteq> pgID v"
  shows "page_components org i (p\<lparr>pdComponents := pdComponents p @ map (component_to_row v) cs\<rparr>) = page_components org i p"
proof -
  have "filter (\<lambda>c. cwOrganizationID c = org \<and> cwPageID c = i) (map (component_to_row v) cs) = []"
    using assms by (auto simp: filter_empty_conv component_to_row_def)
  then show ?thesis by (simp add: page_components_def)
qed

text \<open>What a page says, apart from identifiers and instants.\<close>

record page_view =
  avTitle :: string
  avComponents :: "(string \<times> string) list"
  avVersion :: int
  avToken :: "string option"

definition row_view :: "page_db \<Rightarrow> page_row \<Rightarrow> page_view" where
  "row_view p r = \<lparr>avTitle = spTitle r, avComponents = map (\<lambda>c. (pcMonitorID c, pcLabel c)) (shown_components r p),
     avVersion = spVersion r, avToken = spTokenHash r\<rparr>"

definition view_of :: "string \<Rightarrow> page_db \<Rightarrow> page_view option" where
  "view_of org p = map_option (row_view p) (page_at org p)"

definition draft_view :: "page_draft \<Rightarrow> page_view" where
  "draft_view v = \<lparr>avTitle = pgTitle v, avComponents = map (\<lambda>c. (pcMonitorID c, pcLabel c)) (pgComponents v),
     avVersion = pgVersion v, avToken = map_option pbTokenHash (pgPublication v)\<rparr>"

lemma find_draft_view: "pages_ok p \<Longrightarrow> \<exists>v. find_draft org p p = Inr v \<and> map_option draft_view v = view_of org p"
proof (cases "page_at org p")
  case (Some r)
  assume ok: "pages_ok p"
  with Some have "page_row_wf r" using page_at_Some by (auto simp: pages_ok_def)
  with Some ok show ?thesis
    by (auto simp: find_draft_whole view_of_def draft_view_def row_view_def page_row_wf_def publication_ok_def split: option.splits)
qed (simp add: find_draft_none view_of_def)

text \<open>A change of nothing but the token of a page.\<close>

lemma token_change:
  fixes p :: page_db and x :: "string option" and t :: "go_time option"
  defines "f \<equiv> \<lambda>q. q\<lparr>spTokenHash := x, spPublishedAt := t\<rparr>"
  assumes ok: "pages_ok p" and p': "p' = p\<lparr>pdPages := sql_update (\<lambda>q. spOrganizationID q = org) f (pdPages p)\<rparr>"
    and pub: "x = None \<and> t = None \<or> (\<exists>y u. x = Some y \<and> t = Some u \<and> length y = 32 \<and> y \<noteq> no_hash \<and> \<not> is_zero u)"
    and fresh: "x \<noteq> None \<Longrightarrow> \<forall>q\<in>set (pdPages p). spTokenHash q \<noteq> x"
  shows "pages_ok p'" and "view_of o' p' = (if o' = org then map_option (\<lambda>a. a\<lparr>avToken := x\<rparr>) (view_of o' p) else view_of o' p)"
    and "\<forall>r\<in>set (pdPages p). \<exists>r'\<in>set (pdPages p'). spID r' = spID r \<and> spOrganizationID r' = spOrganizationID r \<and> spCreatedAt r' = spCreatedAt r"
proof -
  have shown: "shown_components (f r) p' = shown_components r p" "shown_components r p' = shown_components r p" for r
    by (simp_all add: f_def shown_components_def page_components_def p')
  have wf: "page_row_wf (f r)" if "page_row_wf r" for r
    using that pub by (auto simp: f_def page_row_wf_def publication_ok_def)
  have "unique_on spTokenHash (pdPages p')"
  proof (cases x)
    case None
    then show ?thesis using ok unfolding p' by (simp, intro unique_on_sql_update_drop) (simp_all add: pages_ok_def f_def)
  next
    case (Some y)
    have "unique_on spTokenHash (sql_update (\<lambda>q. spOrganizationID q = org) f rows)"
      if "unique_on (\<lambda>r. Some (spOrganizationID r)) rows" "unique_on spTokenHash rows" "\<forall>q\<in>set rows. spTokenHash q \<noteq> x" for rows
      using that Some by (induction rows) (auto simp: sql_update_def f_def split: option.splits)
    then show ?thesis using ok fresh Some by (simp add: p' pages_ok_def)
  qed
  moreover have "unique_on (\<lambda>r. Some (spOrganizationID r)) (pdPages p')" "unique_on (\<lambda>r. Some (spID r)) (pdPages p')"
    using ok unfolding p' by (simp_all, (intro unique_on_sql_update; simp add: pages_ok_def f_def)+)
  moreover have "page_row_wf r \<and> components_wf (shown_components r p')" if "r \<in> set (pdPages p')" for r
    using that ok wf shown by (auto simp: p' in_sql_update pages_ok_def)
  moreover have grow: "\<exists>r'\<in>set (pdPages p'). spID r' = spID r \<and> spOrganizationID r' = spOrganizationID r \<and> spCreatedAt r' = spCreatedAt r"
    if "r \<in> set (pdPages p)" for r
    using that by (intro bexI [of _ "if spOrganizationID r = org then f r else r"]) (auto simp: p' in_sql_update f_def)
  moreover have "\<exists>r\<in>set (pdPages p'). spID r = cwPageID c \<and> spOrganizationID r = cwOrganizationID c" if "c \<in> set (pdComponents p')" for c
  proof -
    from that obtain r where "r \<in> set (pdPages p)" "spID r = cwPageID c" "spOrganizationID r = cwOrganizationID c"
      using ok by (auto simp: p' pages_ok_def)
    with grow show ?thesis by metis
  qed
  ultimately show "pages_ok p'" by (simp add: pages_ok_def)
  show "\<forall>r\<in>set (pdPages p). \<exists>r'\<in>set (pdPages p'). spID r' = spID r \<and> spOrganizationID r' = spOrganizationID r \<and> spCreatedAt r' = spCreatedAt r"
    using grow by blast
  have at: "page_at o' p' = (if o' = org then map_option f (page_at o' p) else page_at o' p)"
  proof (cases "o' = org")
    case True
    have "find (\<lambda>r. spOrganizationID r = org) (sql_update (\<lambda>q. spOrganizationID q = org) f rows)
        = map_option f (find (\<lambda>r. spOrganizationID r = org) rows)" for rows
      by (induction rows) (auto simp: sql_update_def f_def)
    with True show ?thesis by (simp add: page_at_def p')
  next
    case False
    then show ?thesis unfolding page_at_def p' by (simp, intro find_sql_update_outside) (simp add: f_def)
  qed
  have "row_view p' (f r) = (row_view p r)\<lparr>avToken := x\<rparr>" for r
    using shown by (simp add: row_view_def) (simp add: f_def)
  moreover have "row_view p' = row_view p" by (rule ext) (simp add: row_view_def shown)
  ultimately show "view_of o' p' = (if o' = org then map_option (\<lambda>a. a\<lparr>avToken := x\<rparr>) (view_of o' p) else view_of o' p)"
    by (simp add: view_of_def at option.map_comp comp_def)
qed

text \<open>A replacement that the transaction accepted.\<close>

definition persists :: "page_db \<Rightarrow> page_db \<Rightarrow> bool" where
  "persists p p' \<longleftrightarrow> (\<forall>r\<in>set (pdPages p). \<exists>r'\<in>set (pdPages p').
     spID r' = spID r \<and> spOrganizationID r' = spOrganizationID r \<and> spCreatedAt r' = spCreatedAt r)"

lemma write_page_row_Inr:
  "write_page_row v expected d p = Inr p1 \<longleftrightarrow>
     (case page_at (pgOrganizationID v) p of
        None \<Rightarrow> expected = 0 \<and>
          (if pgOrganizationID v \<notin> set (dbOrganizations d) then p1 = p
           else page_row_ok (draft_row v) \<and> (\<forall>r\<in>set (pdPages p). spID r \<noteq> pgID v) \<and> p1 = p\<lparr>pdPages := pdPages p @ [draft_row v]\<rparr>)
      | Some r \<Rightarrow> spVersion r = expected \<and> page_row_ok (replaced_row v r)
          \<and> p1 = p\<lparr>pdPages := sql_update (\<lambda>q. spOrganizationID q = pgOrganizationID v \<and> spVersion q = expected) (replaced_row v) (pdPages p),
              pdComponents := sql_delete (\<lambda>c. cwOrganizationID c = pgOrganizationID v \<and> cwPageID c = pgID v) (pdComponents p)\<rparr>)"
  by (auto simp: write_page_row_def split: option.splits)

lemma replace_draft_Inr:
  assumes "replace_draft v expected d p = (Inr u, p')" and "pgComponents v \<noteq> []"
  obtains p1 where "write_page_row v expected d p = Inr p1"
    "p' = p1\<lparr>pdComponents := pdComponents p1 @ map (component_to_row v) (pgComponents v)\<rparr>"
    "\<exists>r\<in>set (pdPages p1). spID r = pgID v \<and> spOrganizationID r = pgOrganizationID v"
    "\<forall>c\<in>set (pgComponents v). monitor_available d (pgOrganizationID v) (pcMonitorID c)"
  using assms insert_components_Inr [of d v "pgComponents v"] by (auto simp: replace_draft_def and_then_Inr split: sum.splits)

lemma deleted_components: "org \<noteq> org' \<or> i \<noteq> i' \<Longrightarrow>
    page_components org i (p\<lparr>pdComponents := sql_delete (\<lambda>c. cwOrganizationID c = org' \<and> cwPageID c = i') (pdComponents p)\<rparr>) = page_components org i p"
  by (auto simp: page_components_def sql_delete_def intro!: arg_cong [of _ _ "sort_key cwPosition"] filter_cong)

lemma page_components_pages [simp]: "page_components org i (p\<lparr>pdPages := rs\<rparr>) = page_components org i p"
  by (simp add: page_components_def)

lemma written_view:
  assumes "pages_ok p'" and "r' \<in> set (pdPages p')" and "spOrganizationID r' = org"
  shows "view_of org p' = Some (row_view p' r')"
  using assms page_at_Some [OF assms(1), of org r'] by (simp add: view_of_def)

lemma new_page_written:
  assumes ok: "pages_ok p" and v: "restore_draft v = Inr v" and fresh: "\<forall>r\<in>set (pdPages p). spID r \<noteq> pgID v"
    and none: "page_at (pgOrganizationID v) p = None" and row: "page_row_ok (draft_row v)" "fits64 (pgVersion v)"
    and times: "\<not> is_zero (db_instant (pgCreatedAt v))" "\<not> is_zero (db_instant (pgUpdatedAt v))"
    and p': "p' = p\<lparr>pdPages := pdPages p @ [draft_row v], pdComponents := pdComponents p @ map (component_to_row v) (pgComponents v)\<rparr>"
  shows "pages_ok p'" "persists p p'" "o' \<noteq> pgOrganizationID v \<Longrightarrow> view_of o' p' = view_of o' p" "row_view p' (draft_row v) = (draft_view v)\<lparr>avToken := None\<rparr>"
proof -
  let ?row = "draft_row v"
  have id: "spID ?row = pgID v" "spOrganizationID ?row = pgOrganizationID v" "spTokenHash ?row = None" "spPublishedAt ?row = None"
    by (simp_all add: draft_row_def)
  have no: "\<forall>c\<in>set (pdComponents p). cwPageID c \<noteq> pgID v" using ok fresh by (metis pages_ok_def)
  have new: "shown_components ?row p' = pgComponents v"
    using written_components [of "pgComponents v" p v] v no by (simp add: shown_components_def p' id restore_draft_Inr page_components_def)
  have other: "shown_components r p' = shown_components r p" if "r \<in> set (pdPages p)" for r
    using other_components [of "spOrganizationID r" v "spID r" p] that fresh by (simp add: shown_components_def p' page_components_def)
  have "page_row_wf ?row"
    using v row times by (auto simp: page_row_wf_def restore_draft_Inr page_row_ok_def publication_ok_def draft_row_def)
  moreover have "unique_on spTokenHash (pdPages p')" "unique_on (\<lambda>r. Some (spOrganizationID r)) (pdPages p')" "unique_on (\<lambda>r. Some (spID r)) (pdPages p')"
    using ok none fresh id by (auto simp: p' pages_ok_def unique_on_append page_at_None)
  ultimately show wf: "pages_ok p'"
    using ok new other v id by (auto simp: pages_ok_def restore_draft_Inr p' component_to_row_def)
  show "persists p p'" by (auto simp: persists_def p')
  show "row_view p' ?row = (draft_view v)\<lparr>avToken := None\<rparr>" using new by (simp add: row_view_def draft_view_def) (simp add: draft_row_def)
  assume o': "o' \<noteq> pgOrganizationID v"
  then have "page_at o' p' = page_at o' p"
    unfolding page_at_def p' using id by (simp add: find_append_None find_append_Some) (cases "find (\<lambda>r. spOrganizationID r = o') (pdPages p)"; simp add: find_append_None find_append_Some)
  then show "view_of o' p' = view_of o' p"
  proof (cases "page_at o' p")
    case (Some a)
    then have "a \<in> set (pdPages p)" using page_at_Some [OF ok] by blast
    then show ?thesis using other Some \<open>page_at o' p' = page_at o' p\<close> by (simp add: view_of_def row_view_def)
  qed (simp add: view_of_def)
qed

lemma page_rewritten:
  assumes ok: "pages_ok p" and v: "restore_draft v = Inr v" and at: "page_at (pgOrganizationID v) p = Some r" and id: "pgID v = spID r"
    and row: "page_row_ok (replaced_row v r)" "fits64 (pgVersion v)" and time: "\<not> is_zero (db_instant (pgUpdatedAt v))"
    and p': "p' = p\<lparr>pdPages := sql_update (\<lambda>q. spOrganizationID q = pgOrganizationID v \<and> spVersion q = spVersion r) (replaced_row v) (pdPages p),
      pdComponents := sql_delete (\<lambda>c. cwOrganizationID c = pgOrganizationID v \<and> cwPageID c = pgID v) (pdComponents p)
        @ map (component_to_row v) (pgComponents v)\<rparr>"
  shows "pages_ok p'" "persists p p'" "o' \<noteq> pgOrganizationID v \<Longrightarrow> view_of o' p' = view_of o' p"
    "replaced_row v r \<in> set (pdPages p')" "row_view p' (replaced_row v r) = (draft_view v)\<lparr>avToken := spTokenHash r\<rparr>"
proof -
  have r: "r \<in> set (pdPages p)" "spOrganizationID r = pgOrganizationID v" using at page_at_Some [OF ok] by blast+
  have only: "q = r" if "q \<in> set (pdPages p)" "spOrganizationID q = pgOrganizationID v" for q
    using that r ok unique_onD [of "\<lambda>r. Some (spOrganizationID r)" "pdPages p" q r] by (simp add: pages_ok_def)
  have rows: "set (pdPages p') = insert (replaced_row v r) {q \<in> set (pdPages p). spOrganizationID q \<noteq> pgOrganizationID v}"
  proof -
    have "(if spOrganizationID q = pgOrganizationID v \<and> spVersion q = spVersion r then replaced_row v q else q)
        = (if spOrganizationID q = pgOrganizationID v then replaced_row v r else q)" if "q \<in> set (pdPages p)" for q
      using only [OF that] by (cases "spOrganizationID q = pgOrganizationID v") simp_all
    then have "set (pdPages p') = (\<lambda>q. if spOrganizationID q = pgOrganizationID v then replaced_row v r else q) ` set (pdPages p)"
      by (simp add: p' set_sql_update cong: image_cong)
    with r show ?thesis by auto
  qed
  then show mem: "replaced_row v r \<in> set (pdPages p')" by simp
  have same: "spID (replaced_row v q) = spID q" "spOrganizationID (replaced_row v q) = spOrganizationID q" "spTokenHash (replaced_row v q) = spTokenHash q"
    "spPublishedAt (replaced_row v q) = spPublishedAt q" "spCreatedAt (replaced_row v q) = spCreatedAt q" for q
    by (simp_all add: replaced_row_def)
  let ?p1 = "p\<lparr>pdComponents := sql_delete (\<lambda>c. cwOrganizationID c = pgOrganizationID v \<and> cwPageID c = pgID v) (pdComponents p)\<rparr>"
  have new: "shown_components (replaced_row v r) p' = pgComponents v"
    using written_components [of "pgComponents v" ?p1 v] v id r(2) by (simp add: shown_components_def p' same restore_draft_Inr page_components_def)
  have other: "shown_components q p' = shown_components q p" if "spOrganizationID q \<noteq> pgOrganizationID v" for q
    using other_components [of "spOrganizationID q" v "spID q" ?p1 "pgComponents v"] deleted_components [of "spOrganizationID q" "pgOrganizationID v" "spID q" "pgID v" p] that
    by (simp add: shown_components_def p' page_components_def)
  have old: "page_row_wf r" using ok r by (simp add: pages_ok_def)
  then have written: "page_row_wf (replaced_row v r)" "components_wf (shown_components (replaced_row v r) p')"
    unfolding new using v row time by (auto simp: page_row_wf_def restore_draft_Inr page_row_ok_def publication_ok_def replaced_row_def)
  have unique: "unique_on spTokenHash (pdPages p')" "unique_on (\<lambda>r. Some (spOrganizationID r)) (pdPages p')" "unique_on (\<lambda>r. Some (spID r)) (pdPages p')"
    using ok same unfolding p' by (simp_all, (intro unique_on_sql_update; simp add: pages_ok_def)+)
  have fk: "\<exists>q\<in>set (pdPages p'). spID q = spID q0 \<and> spOrganizationID q = spOrganizationID q0 \<and> spCreatedAt q = spCreatedAt q0" if "q0 \<in> set (pdPages p)" for q0
    using that only same mem rows by (cases "spOrganizationID q0 = pgOrganizationID v") auto
  have refs: "\<exists>q\<in>set (pdPages p'). spID q = cwPageID c \<and> spOrganizationID q = cwOrganizationID c" if "c \<in> set (pdComponents p')" for c
  proof (cases "c \<in> set (pdComponents p)")
    case True
    then obtain q0 where "q0 \<in> set (pdPages p)" "spID q0 = cwPageID c" "spOrganizationID q0 = cwOrganizationID c" using ok by (auto simp: pages_ok_def)
    with fk show ?thesis by metis
  next
    case False
    then have "cwPageID c = spID r" "cwOrganizationID c = pgOrganizationID v"
      using that id by (auto simp: p' component_to_row_def)
    then show ?thesis by (intro bexI [OF _ mem]) (simp add: same r(2))
  qed
  have "page_row_wf q \<and> components_wf (shown_components q p')" if "q \<in> set (pdPages p')" for q
  proof (cases "q = replaced_row v r")
    case False
    then have "q \<in> set (pdPages p)" "spOrganizationID q \<noteq> pgOrganizationID v" using that rows by blast+
    then show ?thesis using ok other [of q] by (simp add: pages_ok_def)
  qed (simp add: written)
  with unique refs show "pages_ok p'" by (simp only: pages_ok_def) blast
  show "persists p p'" using fk by (simp add: persists_def)
  show "row_view p' (replaced_row v r) = (draft_view v)\<lparr>avToken := spTokenHash r\<rparr>"
    using new by (simp add: row_view_def draft_view_def) (simp add: replaced_row_def)
  assume o': "o' \<noteq> pgOrganizationID v"
  then have "page_at o' p' = page_at o' p"
    unfolding page_at_def p' by (simp, intro find_sql_update_outside) (simp add: same)
  then show "view_of o' p' = view_of o' p"
  proof (cases "page_at o' p")
    case (Some a)
    then have "spOrganizationID a \<noteq> pgOrganizationID v" using o' by (simp add: page_at_Some [OF ok])
    then have "row_view p' a = row_view p a" using other [of a] by (simp add: row_view_def)
    then show ?thesis unfolding view_of_def \<open>page_at o' p' = page_at o' p\<close> Some by simp
  qed (simp add: view_of_def)
qed

lemma input_failures_none: "input_failures seen cs = [] \<Longrightarrow> c \<in> set cs \<Longrightarrow> \<exists>l. normalize_label (ciLabel c) = Some l"
  by (induction seen cs rule: input_failures.induct) (auto split: if_splits)

lemma assigned_components:
  "assign_components existing uuid i k cs = Inr vs \<Longrightarrow> \<forall>c\<in>set cs. \<exists>l. normalize_label (ciLabel c) = Some l \<Longrightarrow>
     map (\<lambda>c. (pcMonitorID c, Some (pcLabel c))) vs = map (\<lambda>c. (ciMonitorID c, normalize_label (ciLabel c))) cs"
  by (induction existing uuid i k cs arbitrary: vs rule: assign_components.induct)
    (auto simp: Let_def and_then_Inr split: option.splits if_splits sum.splits)

text \<open>What a replacement asks for.\<close>

definition as_commanded :: "replace_command \<Rightarrow> page_draft \<Rightarrow> bool" where
  "as_commanded cmd v \<longleftrightarrow> pgOrganizationID v = rcOrganizationID cmd \<and> normalize_label (rcTitle cmd) = Some (pgTitle v)
     \<and> map (\<lambda>c. (pcMonitorID c, Some (pcLabel c))) (pgComponents v) = map (\<lambda>c. (ciMonitorID c, normalize_label (ciLabel c))) (rcComponents cmd)"

lemma replacement_Inr:
  assumes "replacement cmd now uuid current = Inr v" and "replace_failures cmd = []"
  shows "restore_draft v = Inr v" "as_commanded cmd v" "pgUpdatedAt v = now"
    "current = None \<Longrightarrow> pgVersion v = 1 \<and> pgCreatedAt v = now"
    "current = Some w \<Longrightarrow> pgID v = pgID w \<and> pgCreatedAt v = pgCreatedAt w \<and> pgVersion v = wrap64 (pgVersion w + 1)"
proof -
  have labels: "\<forall>c\<in>set (rcComponents cmd). \<exists>l. normalize_label (ciLabel c) = Some l" "\<exists>t. normalize_label (rcTitle cmd) = Some t"
    using assms(2) input_failures_none by (auto simp: replace_failures_def split: if_splits)
  then obtain t where t: "normalize_label (rcTitle cmd) = Some t" by blast
  note built = assms(1) [unfolded replacement_def t Let_def and_then_Inr option.case]
  show "restore_draft v = Inr v" "as_commanded cmd v" "pgUpdatedAt v = now"
    "current = None \<Longrightarrow> pgVersion v = 1 \<and> pgCreatedAt v = now"
    "current = Some w \<Longrightarrow> pgID v = pgID w \<and> pgCreatedAt v = pgCreatedAt w \<and> pgVersion v = wrap64 (pgVersion w + 1)"
    using built t labels(1)
    by (auto simp: and_then_Inr restore_draft_Inr as_commanded_def dest!: assigned_components split: option.splits sum.splits)
qed

lemma replace_page_updated:
  assumes "replace_page cmd p1 p2 clock uuid d p = (Inr (ReplaceUpdated v), p')"
  obtains current where "replace_failures cmd = []" "find_draft (rcOrganizationID cmd) p1 p2 = Inr current"
    "case current of None \<Rightarrow> rcVersion cmd = 0 | Some w \<Rightarrow> rcVersion cmd = pgVersion w"
    "replacement cmd (to_utc clock) uuid current = Inr v" "replace_draft v (rcVersion cmd) d p = (Inr (), p')"
  using assms by (auto simp: replace_page_def split: if_splits sum.splits prod.splits option.splits)

lemma replace_draft_Inl: "replace_draft v expected d p = (Inl e, p') \<Longrightarrow> p' = p"
  by (auto simp: replace_draft_def split: sum.splits)

lemma replace_page_refused:
  "replace_page cmd p1 p2 clock uuid d p = (r, p') \<Longrightarrow> \<forall>v. r \<noteq> Inr (ReplaceUpdated v) \<Longrightarrow> p' = p"
  by (auto simp: replace_page_def dest!: replace_draft_Inl split: if_splits sum.splits prod.splits)

lemma wrap64_next: "fits64 n \<Longrightarrow> 1 \<le> n \<Longrightarrow> 1 \<le> wrap64 (n + 1) \<Longrightarrow> wrap64 (n + 1) = n + 1"
proof (cases "n + 1 = 2 ^ 63")
  case True
  assume "1 \<le> wrap64 (n + 1)"
  moreover have "wrap64 (2 ^ 63) = - (2 ^ 63)" by (simp add: wrap64_def)
  ultimately show ?thesis unfolding True by simp
next
  case False
  assume "fits64 n"
  with False have "fits64 (n + 1)" by (simp add: fits64_def)
  then show ?thesis by simp
qed

lemma replace_page_effect:
  assumes ok: "pages_ok p" and kept: "persists p1 p" and did: "replace_page cmd p1 p2 clock uuid d p = (Inr (ReplaceUpdated v), p')"
    and time: "\<not> is_zero (db_instant clock)"
  shows "pages_ok p'" "persists p p'" "as_commanded cmd v" "pgVersion v = rcVersion cmd + 1"
    "case view_of (rcOrganizationID cmd) p of None \<Rightarrow> rcVersion cmd = 0 | Some a \<Rightarrow> avVersion a = rcVersion cmd"
    "view_of o' p' = (if o' = rcOrganizationID cmd
       then Some ((draft_view v)\<lparr>avToken := case view_of o' p of None \<Rightarrow> None | Some a \<Rightarrow> avToken a\<rparr>) else view_of o' p)"
    "\<forall>c\<in>set (pgComponents v). monitor_available d (pgOrganizationID v) (pcMonitorID c)"
    "set (pdComponents p') \<subseteq> set (pdComponents p) \<union> component_to_row v ` set (pgComponents v)"
proof -
  obtain current where c: "replace_failures cmd = []" "find_draft (rcOrganizationID cmd) p1 p2 = Inr current"
    "case current of None \<Rightarrow> rcVersion cmd = 0 | Some w \<Rightarrow> rcVersion cmd = pgVersion w"
    "replacement cmd (to_utc clock) uuid current = Inr v" "replace_draft v (rcVersion cmd) d p = (Inr (), p')"
    by (rule replace_page_updated [OF did])
  note built = replacement_Inr [OF c(4,1)]
  then have v: "restore_draft v = Inr v" "pgOrganizationID v = rcOrganizationID cmd" "pgUpdatedAt v = to_utc clock"
    by (simp_all add: as_commanded_def)
  have "pgComponents v \<noteq> []" using v(1) by (auto simp: restore_draft_Inr components_wf_def)
  from replace_draft_Inr [OF c(5) this] obtain q where q: "write_page_row v (rcVersion cmd) d p = Inr q"
    "p' = q\<lparr>pdComponents := pdComponents q @ map (component_to_row v) (pgComponents v)\<rparr>"
    "\<exists>r\<in>set (pdPages q). spID r = pgID v \<and> spOrganizationID r = pgOrganizationID v"
    "\<forall>c\<in>set (pgComponents v). monitor_available d (pgOrganizationID v) (pcMonitorID c)" by metis
  have t: "\<not> is_zero (db_instant (pgUpdatedAt v))" using time v(3) by simp
  show "\<forall>c\<in>set (pgComponents v). monitor_available d (pgOrganizationID v) (pcMonitorID c)" by (rule q(4))
  show "as_commanded cmd v" by (rule built(2))
  have positive: "1 \<le> pgVersion w" if "current = Some w" for w using c(2) that by (auto elim!: find_draft_Some simp: restore_draft_Inr)
  have "pages_ok p' \<and> persists p p' \<and> pgVersion v = rcVersion cmd + 1
    \<and> (case view_of (rcOrganizationID cmd) p of None \<Rightarrow> rcVersion cmd = 0 | Some a \<Rightarrow> avVersion a = rcVersion cmd)
    \<and> view_of o' p' = (if o' = rcOrganizationID cmd
       then Some ((draft_view v)\<lparr>avToken := case view_of o' p of None \<Rightarrow> None | Some a \<Rightarrow> avToken a\<rparr>) else view_of o' p)
    \<and> set (pdComponents p') \<subseteq> set (pdComponents p) \<union> component_to_row v ` set (pgComponents v)"
  proof (cases "page_at (pgOrganizationID v) p")
    case None
    then have w: "rcVersion cmd = 0" "if pgOrganizationID v \<notin> set (dbOrganizations d) then q = p
        else page_row_ok (draft_row v) \<and> (\<forall>r\<in>set (pdPages p). spID r \<noteq> pgID v) \<and> q = p\<lparr>pdPages := pdPages p @ [draft_row v]\<rparr>"
      using q(1) by (simp_all add: write_page_row_Inr)
    then have "current = None" using c(3) positive by (cases current) fastforce+
    then have new: "pgVersion v = 1" "pgCreatedAt v = to_utc clock" using built(4) by simp_all
    have w2: "page_row_ok (draft_row v)" "\<forall>r\<in>set (pdPages p). spID r \<noteq> pgID v" "q = p\<lparr>pdPages := pdPages p @ [draft_row v]\<rparr>"
      using w(2) q(3) None by (auto simp: page_at_None split: if_splits)
    have f: "fits64 (pgVersion v)" "\<not> is_zero (db_instant (pgCreatedAt v))" using new time by (simp_all add: fits64_def)
    have p': "p' = p\<lparr>pdPages := pdPages p @ [draft_row v], pdComponents := pdComponents p @ map (component_to_row v) (pgComponents v)\<rparr>"
      using q(2) w2(3) by simp
    note out = new_page_written [OF ok v(1) w2(2) None w2(1) f(1) f(2) t p']
    have "view_of (pgOrganizationID v) p' = Some (row_view p' (draft_row v))"
      by (rule written_view [OF out(1)]) (simp_all add: p', simp add: draft_row_def)
    moreover have "view_of (pgOrganizationID v) p = None" using None by (simp add: view_of_def)
    ultimately show ?thesis using out new w(1) v(2) p' by (auto simp: view_of_def)
  next
    case (Some r)
    then have w: "spVersion r = rcVersion cmd" "page_row_ok (replaced_row v r)"
      "q = p\<lparr>pdPages := sql_update (\<lambda>q. spOrganizationID q = pgOrganizationID v \<and> spVersion q = spVersion r) (replaced_row v) (pdPages p),
          pdComponents := sql_delete (\<lambda>c. cwOrganizationID c = pgOrganizationID v \<and> cwPageID c = pgID v) (pdComponents p)\<rparr>"
      using q(1) by (simp_all add: write_page_row_Inr)
    have r: "r \<in> set (pdPages p)" "spOrganizationID r = rcOrganizationID cmd" using Some page_at_Some [OF ok] v(2) by simp_all
    then have rw: "1 \<le> spVersion r" "fits64 (spVersion r)" using ok by (auto simp: pages_ok_def page_row_wf_def)
    then obtain x where x: "current = Some x" "pgVersion x = spVersion r" using c(3) w(1) by (cases current) auto
    from c(2) x(1) obtain r1 where r1: "page_at (rcOrganizationID cmd) p1 = Some r1" "pgID x = spID r1" by (auto elim: find_draft_Some)
    then have "r1 \<in> set (pdPages p1)" "spOrganizationID r1 = rcOrganizationID cmd" by (auto simp: page_at_def dest: find_holds)
    then obtain r2 where r2: "r2 \<in> set (pdPages p)" "spID r2 = spID r1" "spOrganizationID r2 = rcOrganizationID cmd" using kept by (auto simp: persists_def)
    then have "page_at (rcOrganizationID cmd) p = Some r2" using page_at_Some [OF ok] by blast
    then have "r2 = r" using Some v(2) by simp
    with r1 r2 built(5) [OF x(1)] have id: "pgID v = spID r" "pgVersion v = wrap64 (spVersion r + 1)" using x(2) by simp_all
    have "1 \<le> pgVersion v" using v(1) by (simp add: restore_draft_Inr)
    then have version: "pgVersion v = rcVersion cmd + 1" using id(2) rw w(1) wrap64_next [of "spVersion r"] by simp
    have fits: "fits64 (pgVersion v)" unfolding id(2) by simp
    have p': "p' = p\<lparr>pdPages := sql_update (\<lambda>q. spOrganizationID q = pgOrganizationID v \<and> spVersion q = spVersion r) (replaced_row v) (pdPages p),
        pdComponents := sql_delete (\<lambda>c. cwOrganizationID c = pgOrganizationID v \<and> cwPageID c = pgID v) (pdComponents p)
          @ map (component_to_row v) (pgComponents v)\<rparr>"
      using q(2) w(3) by simp
    note out = page_rewritten [OF ok v(1) Some id(1) w(2) fits t p']
    have "view_of (pgOrganizationID v) p' = Some (row_view p' (replaced_row v r))"
      by (rule written_view [OF out(1,4)]) (simp add: replaced_row_def r(2) v(2))
    moreover have "view_of (pgOrganizationID v) p = Some (row_view p r)" using Some by (simp add: view_of_def)
    ultimately show ?thesis using out version w(1) v(2) p' by (auto simp: row_view_def)
  qed
  then show "pages_ok p'" "persists p p'" "pgVersion v = rcVersion cmd + 1"
    "case view_of (rcOrganizationID cmd) p of None \<Rightarrow> rcVersion cmd = 0 | Some a \<Rightarrow> avVersion a = rcVersion cmd"
    "view_of o' p' = (if o' = rcOrganizationID cmd
       then Some ((draft_view v)\<lparr>avToken := case view_of o' p of None \<Rightarrow> None | Some a \<Rightarrow> avToken a\<rparr>) else view_of o' p)"
    "set (pdComponents p') \<subseteq> set (pdComponents p) \<union> component_to_row v ` set (pgComponents v)" by blast+
qed

section \<open>Requests on status pages\<close>

datatype page_event = Replaced page_draft | Published string string | Revoked string

text \<open>What the pages should say after some events, the latest first.\<close>

fun page_spec :: "page_event list \<Rightarrow> string \<Rightarrow> page_view option" where
  "page_spec [] org = None"
| "page_spec (Replaced v # es) org =
     (if org = pgOrganizationID v
      then Some ((draft_view v)\<lparr>avToken := case page_spec es org of None \<Rightarrow> None | Some a \<Rightarrow> avToken a\<rparr>) else page_spec es org)"
| "page_spec (Published org' x # es) org =
     (if org = org' then map_option (\<lambda>a. a\<lparr>avToken := Some x\<rparr>) (page_spec es org) else page_spec es org)"
| "page_spec (Revoked org' # es) org =
     (if org = org' then map_option (\<lambda>a. a\<lparr>avToken := None\<rparr>) (page_spec es org) else page_spec es org)"

text \<open>What the other tables keep: Monitors stay where they are, and what is shown of them can be shown.\<close>

definition shown_ok :: "db \<Rightarrow> bool" where
  "shown_ok d \<longleftrightarrow> (\<forall>m\<in>set (dbMonitors d). \<not> is_zero (mrCreatedAt m) \<and> \<not> is_zero (mrUpdatedAt m))
     \<and> (\<forall>h\<in>set (dbHealth d). hwState h \<in> {StateUnknown, StateHealthy, StateDegraded, StateDown} \<and> \<not> is_zero (hwUpdatedAt h))"

definition monitors_kept :: "db \<Rightarrow> db \<Rightarrow> bool" where
  "monitors_kept d d' \<longleftrightarrow> (\<forall>m\<in>set (dbMonitors d). \<exists>m'\<in>set (dbMonitors d'). mrID m' = mrID m \<and> mrOrganizationID m' = mrOrganizationID m)"

text \<open>
  The events so far, the tables of pages at every moment, the latest first, and the other tables now. A
  replacement may have read the draft at any two moments.
\<close>

inductive page_requests :: "hash_function \<Rightarrow> page_event list \<Rightarrow> page_db list \<Rightarrow> db \<Rightarrow> bool" for h where
  none: "shown_ok d \<Longrightarrow> page_requests h [] [\<lparr>pdPages = [], pdComponents = []\<rparr>] d"
| elsewhere: "page_requests h es ps d \<Longrightarrow> monitors_kept d d' \<Longrightarrow> shown_ok d' \<Longrightarrow> page_requests h es ps d'"
| replaced: "page_requests h es (p # ps) d \<Longrightarrow> p1 \<in> set (p # ps) \<Longrightarrow> p2 \<in> set (p # ps) \<Longrightarrow> \<not> is_zero (db_instant clock)
    \<Longrightarrow> replace_page cmd p1 p2 clock uuid d p = (r, p')
    \<Longrightarrow> page_requests h (case r of Inr (ReplaceUpdated v) \<Rightarrow> Replaced v # es | _ \<Rightarrow> es) (p' # p # ps) d"
| published: "page_requests h es (p # ps) d \<Longrightarrow> \<not> is_zero (db_instant clock) \<Longrightarrow> publish h org token clock p = (r, p')
    \<Longrightarrow> page_requests h (case r of Inr (PublishPublished v) \<Rightarrow> Published org (pbTokenHash v) # es | _ \<Rightarrow> es) (p' # p # ps) d"
| revoked: "page_requests h es (p # ps) d \<Longrightarrow> revoke org p = (r, p')
    \<Longrightarrow> page_requests h (case r of Inr _ \<Rightarrow> Revoked org # es | Inl _ \<Rightarrow> es) (p' # p # ps) d"

text \<open>No digest is the one that stands for no hash.\<close>

definition no_zero_digest :: "hash_function \<Rightarrow> bool" where
  "no_zero_digest h \<longleftrightarrow> (\<forall>raw. digest h raw \<noteq> no_hash)"

definition components_have_monitors :: "page_db \<Rightarrow> db \<Rightarrow> bool" where
  "components_have_monitors p d \<longleftrightarrow> (\<forall>c\<in>set (pdComponents p). \<exists>m\<in>set (dbMonitors d). mrID m = cwMonitorID c \<and> mrOrganizationID m = cwOrganizationID c)"

lemma persists_refl [simp]: "persists p p"
  by (auto simp: persists_def)

lemma persists_trans: "persists p q \<Longrightarrow> persists q r \<Longrightarrow> persists p r"
  unfolding persists_def by metis

lemma publish_page_Inr: "publish_page org v p = (Inr u, p') \<Longrightarrow> page_at org p \<noteq> None
    \<and> (\<forall>q\<in>set (pdPages p). spTokenHash q \<noteq> Some (pbTokenHash v))
    \<and> p' = p\<lparr>pdPages := sql_update (\<lambda>q. spOrganizationID q = org)
        (\<lambda>q. q\<lparr>spTokenHash := Some (pbTokenHash v), spPublishedAt := Some (db_instant (pbPublishedAt v))\<rparr>) (pdPages p)\<rparr>"
  by (auto simp: publish_page_def split: option.splits if_splits)

lemma publish_page_Inl: "publish_page org v p = (Inl e, p') \<Longrightarrow> p' = p"
  by (auto simp: publish_page_def split: option.splits if_splits)

lemma publish_refused: "publish h org token clock p = (r, p') \<Longrightarrow> \<forall>v. r \<noteq> Inr (PublishPublished v) \<Longrightarrow> p' = p"
  by (auto simp: publish_def Let_def dest!: publish_page_Inl split: option.splits if_splits prod.splits sum.splits)

lemma publish_published:
  assumes "publish h org token clock p = (Inr (PublishPublished v), p')"
  obtains raw where "decode_opaque_token token = Some raw" "v = \<lparr>pbTokenHash = digest h raw, pbPublishedAt = to_utc clock\<rparr>"
    "publish_page org v p = (Inr (), p')"
  using assms by (auto simp: publish_def hash_publication_token_def Let_def split: option.splits if_splits prod.splits sum.splits)

lemma publish_effect:
  assumes "pages_ok p" and "publish h org token clock p = (Inr (PublishPublished v), p')" and "\<not> is_zero (db_instant clock)" and "no_zero_digest h"
  shows "pages_ok p'" "persists p p'" "pdComponents p' = pdComponents p"
    "view_of o' p' = (if o' = org then map_option (\<lambda>a. a\<lparr>avToken := Some (pbTokenHash v)\<rparr>) (view_of o' p) else view_of o' p)"
proof -
  obtain raw where v: "v = \<lparr>pbTokenHash = digest h raw, pbPublishedAt = to_utc clock\<rparr>" "publish_page org v p = (Inr (), p')"
    by (rule publish_published [OF assms(2)])
  note w = publish_page_Inr [OF v(2)]
  have x: "length (pbTokenHash v) = 32" "pbTokenHash v \<noteq> no_hash" "\<not> is_zero (db_instant (pbPublishedAt v))"
    using v(1) assms(3,4) by (simp_all add: no_zero_digest_def)
  note out = token_change [OF assms(1), where p' = p' and org = org and x = "Some (pbTokenHash v)" and t = "Some (db_instant (pbPublishedAt v))"]
  show "pages_ok p'" by (rule out(1)) (use w x in auto)
  show "persists p p'" unfolding persists_def by (rule out(3)) (use w x in auto)
  show "pdComponents p' = pdComponents p" using w by simp
  show "view_of o' p' = (if o' = org then map_option (\<lambda>a. a\<lparr>avToken := Some (pbTokenHash v)\<rparr>) (view_of o' p) else view_of o' p)"
    by (rule out(2)) (use w x in auto)
qed

lemma revoke_effect:
  assumes "pages_ok p"
  shows "pages_ok (revoke_page org p)" "persists p (revoke_page org p)"
    "view_of o' (revoke_page org p) = (if o' = org then map_option (\<lambda>a. a\<lparr>avToken := None\<rparr>) (view_of o' p) else view_of o' p)"
proof -
  note out = token_change [OF assms revoke_page_def]
  show "pages_ok (revoke_page org p)" by (rule out(1)) simp_all
  show "persists p (revoke_page org p)" unfolding persists_def by (rule out(3)) simp_all
  show "view_of o' (revoke_page org p) = (if o' = org then map_option (\<lambda>a. a\<lparr>avToken := None\<rparr>) (view_of o' p) else view_of o' p)"
    by (rule out(2)) simp_all
qed

definition pages_inv :: "page_event list \<Rightarrow> page_db list \<Rightarrow> db \<Rightarrow> bool" where
  "pages_inv es ps d \<longleftrightarrow> (\<exists>p qs. ps = p # qs \<and> pages_ok p \<and> (\<forall>q\<in>set ps. persists q p)
     \<and> (\<forall>org. view_of org p = page_spec es org) \<and> components_have_monitors p d \<and> shown_ok d)"

lemma pages_inv_same: "pages_inv es (p # ps) d \<Longrightarrow> pages_inv es (p # p # ps) d"
  by (auto simp: pages_inv_def)

lemma pages_inv_next:
  assumes "pages_inv es (p # ps) d" and "pages_ok p'" and "persists p p'" and "components_have_monitors p' d"
    and "\<And>o'. view_of o' p' = page_spec es' o'"
  shows "pages_inv es' (p' # p # ps) d"
  using assms persists_trans unfolding pages_inv_def by (auto intro: persists_trans)

lemma page_requests_inv: "page_requests h es ps d \<Longrightarrow> no_zero_digest h \<Longrightarrow> pages_inv es ps d"
proof (induction rule: page_requests.induct)
  case (none d)
  then show ?case by (simp add: pages_inv_def pages_ok_def view_of_def page_at_def components_have_monitors_def)
next
  case (elsewhere es ps d d')
  then show ?case unfolding pages_inv_def components_have_monitors_def monitors_kept_def by fastforce
next
  case (replaced es p ps d p1 p2 clock cmd uuid r p')
  then have inv: "pages_inv es (p # ps) d" by blast
  then have ok: "pages_ok p" "persists p1 p" "components_have_monitors p d" "\<And>org. view_of org p = page_spec es org"
    using replaced.hyps(2) by (auto simp: pages_inv_def)
  show ?case
  proof (cases "\<exists>v. r = Inr (ReplaceUpdated v)")
    case True
    then obtain v where r: "r = Inr (ReplaceUpdated v)" by blast
    note e = replace_page_effect [OF ok(1,2) replaced.hyps(5) [unfolded r] replaced.hyps(4)]
    have "components_have_monitors p' d" unfolding components_have_monitors_def
    proof
      fix c assume "c \<in> set (pdComponents p')"
      then consider "c \<in> set (pdComponents p)" | x where "x \<in> set (pgComponents v)" "c = component_to_row v x" using e(8) by blast
      then show "\<exists>m\<in>set (dbMonitors d). mrID m = cwMonitorID c \<and> mrOrganizationID m = cwOrganizationID c"
        using ok(3) e(7) by cases (auto simp: components_have_monitors_def component_to_row_def monitor_available_def)
    qed
    then show ?thesis
      using e(3,6) ok(4) by (simp add: r, intro pages_inv_next [OF inv e(1,2)]) (auto simp: as_commanded_def)
  next
    case False
    then have "p' = p" using replace_page_refused [OF replaced.hyps(5)] by blast
    with False inv show ?thesis by (auto simp: pages_inv_same split: sum.split replace_result.split)
  qed
next
  case (published es p ps d clock org token r p')
  then have inv: "pages_inv es (p # ps) d" by blast
  then have ok: "pages_ok p" "components_have_monitors p d" "\<And>org. view_of org p = page_spec es org" by (auto simp: pages_inv_def)
  show ?case
  proof (cases "\<exists>v. r = Inr (PublishPublished v)")
    case True
    then obtain v where r: "r = Inr (PublishPublished v)" by blast
    note e = publish_effect [OF ok(1) published.hyps(3) [unfolded r] published.hyps(2) published.prems]
    show ?thesis using e(3,4) ok(2,3) by (simp add: r, intro pages_inv_next [OF inv e(1,2)]) (auto simp: components_have_monitors_def)
  next
    case False
    then have "p' = p" using publish_refused [OF published.hyps(3)] by blast
    with False inv show ?thesis by (auto simp: pages_inv_same split: sum.split publish_result.split)
  qed
next
  case (revoked es p ps d org r p')
  then have inv: "pages_inv es (p # ps) d" by blast
  then have ok: "pages_ok p" "components_have_monitors p d" "\<And>org. view_of org p = page_spec es org" by (auto simp: pages_inv_def)
  show ?case
  proof (cases "org = ''''")
    case True
    with revoked.hyps(2) inv show ?thesis by (auto simp: revoke_def pages_inv_same)
  next
    case False
    with revoked.hyps(2) have r: "r = Inr ()" "p' = revoke_page org p" by (auto simp: revoke_def)
    note e = revoke_effect [OF ok(1), where org = org]
    have "components_have_monitors (revoke_page org p) d"
      using ok(2) by (simp add: components_have_monitors_def revoke_page_def)
    then have "pages_inv (Revoked org # es) (revoke_page org p # p # ps) d"
      by (rule pages_inv_next [OF inv e(1,2)]) (simp add: e(3) ok(3))
    then show ?thesis by (simp add: r)
  qed
qed

text \<open>C37. However requests interleave, also between the reads of a replacement and its transaction, the draft
  of an Organization is the one the last accepted replacement wrote, published under the last token until that is revoked.\<close>

theorem drafts_follow_requests:
  assumes "page_requests h es (p # ps) d" and "no_zero_digest h"
  shows "\<exists>v. find_draft org p p = Inr v \<and> map_option draft_view v = page_spec es org"
proof -
  have "pages_ok p" "view_of org p = page_spec es org" using page_requests_inv [OF assms] by (auto simp: pages_inv_def)
  then show ?thesis using find_draft_view [of p org] by simp
qed

text \<open>C38. An accepted replacement writes what it asks for over exactly the version that it names: of two
  replacements of one version, whenever they read, one is refused.\<close>

theorem replacement_is_of_latest:
  assumes "page_requests h es (p # ps) d" and "no_zero_digest h" and "p1 \<in> set (p # ps)" and "\<not> is_zero (db_instant clock)"
    and "replace_page cmd p1 p2 clock uuid d p = (Inr (ReplaceUpdated v), p')"
  shows "as_commanded cmd v \<and> pgVersion v = rcVersion cmd + 1
    \<and> (case page_spec es (rcOrganizationID cmd) of None \<Rightarrow> rcVersion cmd = 0 | Some a \<Rightarrow> avVersion a = rcVersion cmd)"
proof -
  have ok: "pages_ok p" "persists p1 p" "view_of (rcOrganizationID cmd) p = page_spec es (rcOrganizationID cmd)"
    using page_requests_inv [OF assms(1,2)] assms(3) by (auto simp: pages_inv_def)
  note e = replace_page_effect [OF ok(1,2) assms(5,4)]
  show ?thesis using e(3,4,5) ok(3) by simp
qed

section \<open>The public page\<close>

lemma public_component_shown:
  assumes "shown_ok d" and "\<exists>m\<in>set (dbMonitors d). mrID m = cwMonitorID c \<and> mrOrganizationID m = cwOrganizationID c"
  shows "\<exists>u. public_component_of d now c = Some u \<and> puLabel u = cwLabel c
    \<and> puState u \<in> {StateUnknown, StateHealthy, StateDegraded, StateDown} \<and> is_utc_location (puUpdatedAt u)"
proof -
  obtain m where m: "find (\<lambda>m. mrID m = cwMonitorID c \<and> mrOrganizationID m = cwOrganizationID c) (dbMonitors d) = Some m"
    using assms(2) by (cases "find (\<lambda>m. mrID m = cwMonitorID c \<and> mrOrganizationID m = cwOrganizationID c) (dbMonitors d)") (auto simp: find_None_iff)
  then have "m \<in> set (dbMonitors d)" by (auto dest: find_holds)
  then show ?thesis using assms(1) m
    by (auto simp: public_component_of_def shown_ok_def Let_def dest!: find_holds split: option.splits)
qed

lemma public_components_shown:
  assumes "shown_ok d" and "\<forall>c\<in>set cs. \<exists>m\<in>set (dbMonitors d). mrID m = cwMonitorID c \<and> mrOrganizationID m = cwOrganizationID c"
    and "\<forall>c\<in>set cs. normalize_label (cwLabel c) = Some (cwLabel c)"
  shows "map puLabel (List.map_filter (public_component_of d now) cs) = map cwLabel cs
    \<and> public_component_failure (List.map_filter (public_component_of d now) cs) = None"
  using assms(2,3)
proof (induction cs)
  case (Cons c cs)
  then obtain u where "public_component_of d now c = Some u" "puLabel u = cwLabel c"
    "puState u \<in> {StateUnknown, StateHealthy, StateDegraded, StateDown}" "is_utc_location (puUpdatedAt u)"
    using public_component_shown [OF assms(1), of c now] by auto
  with Cons show ?case by (simp add: List.map_filter_simps)
qed (simp add: List.map_filter_simps)

lemma component_failure_labels: "component_failure seen cs = None \<Longrightarrow> c \<in> set cs \<Longrightarrow> normalize_label (pcLabel c) = Some (pcLabel c)"
  by (induction seen cs rule: component_failure.induct) (auto split: if_splits)

lemma find_public_page_shown:
  assumes ok: "pages_ok p" and d: "shown_ok d" "components_have_monitors p d" and r: "r \<in> set (pdPages p)" "spTokenHash r = Some x"
  shows "\<exists>page. find_public_page x now d p = Inr (Some page) \<and> ppgTitle page = avTitle (row_view p r)
    \<and> map puLabel (ppgComponents page) = map snd (avComponents (row_view p r))"
proof -
  let ?cs = "page_components (spOrganizationID r) (spID r) p"
  let ?us = "List.map_filter (public_component_of d now) ?cs"
  obtain r' where r': "find (\<lambda>r. spTokenHash r = Some x) (pdPages p) = Some r'"
    using r by (cases "find (\<lambda>r. spTokenHash r = Some x) (pdPages p)") (auto simp: find_None_iff)
  then have "r' = r" using ok r unique_onD [of spTokenHash "pdPages p" r' r x] by (auto simp: pages_ok_def dest: find_holds)
  note found = r' [unfolded this]
  have wf: "page_row_wf r" "components_wf (shown_components r p)" using ok r(1) by (auto simp: pages_ok_def)
  have sub: "set ?cs \<subseteq> set (pdComponents p)" by (auto simp: page_components_def)
  have "\<forall>c\<in>set ?cs. normalize_label (cwLabel c) = Some (cwLabel c)"
  proof
    fix c assume "c \<in> set ?cs"
    then have "scan_component c \<in> set (shown_components r p)" by (simp add: shown_components_def)
    then have "normalize_label (pcLabel (scan_component c)) = Some (pcLabel (scan_component c))"
      using wf(2) by (intro component_failure_labels [of "[]"]) (simp_all add: components_wf_def)
    then show "normalize_label (cwLabel c) = Some (cwLabel c)" by (simp add: scan_component_def)
  qed
  moreover have "\<forall>c\<in>set ?cs. \<exists>m\<in>set (dbMonitors d). mrID m = cwMonitorID c \<and> mrOrganizationID m = cwOrganizationID c"
    using sub d(2) by (auto simp: components_have_monitors_def)
  ultimately have us: "map puLabel ?us = map cwLabel ?cs" "public_component_failure ?us = None"
    using public_components_shown [OF d(1), of ?cs now] by blast+
  then have "length ?us = length (shown_components r p)" by (metis length_map shown_components_def)
  then have "restore_public_page \<lparr>ppgTitle = spTitle r, ppgComponents = ?us\<rparr> = Inr \<lparr>ppgTitle = spTitle r, ppgComponents = ?us\<rparr>"
    using us wf by (auto simp: restore_public_page_def components_wf_def page_row_wf_def)
  moreover have "map snd (avComponents (row_view p r)) = map cwLabel ?cs"
    by (simp add: row_view_def shown_components_def scan_component_def comp_def)
  ultimately show ?thesis using found us(1) by (simp add: find_public_page_def row_view_def)
qed

text \<open>C39. Whoever asks for a public page gets the title and the components of a draft whose Organization last
  published it under that very token and has not revoked it, and gets none for any other token; the read never fails.\<close>

theorem public_page_needs_current_token:
  assumes "page_requests h es (p # ps) d" and "no_zero_digest h"
  shows "case get_public h token clock d p of
      Inl e \<Rightarrow> False
    | Inr None \<Rightarrow> \<forall>org a x. page_spec es org = Some a \<and> avToken a = Some x \<longrightarrow> hash_publication_token h token \<noteq> Some x
    | Inr (Some page) \<Rightarrow> \<exists>org a x. page_spec es org = Some a \<and> avToken a = Some x \<and> hash_publication_token h token = Some x
        \<and> ppgTitle page = avTitle a \<and> map puLabel (ppgComponents page) = map snd (avComponents a)"
proof -
  have inv: "pages_ok p" "components_have_monitors p d" "shown_ok d" "\<And>org. view_of org p = page_spec es org"
    using page_requests_inv [OF assms] by (auto simp: pages_inv_def)
  have view: "page_spec es (spOrganizationID r) = Some (row_view p r)" if "r \<in> set (pdPages p)" for r
    using that inv(4) page_at_Some [OF inv(1)] by (metis option.map(2) view_of_def)
  show ?thesis
  proof (cases "hash_publication_token h token")
    case (Some x)
    show ?thesis
    proof (cases "\<exists>r\<in>set (pdPages p). spTokenHash r = Some x")
      case True
      then obtain r where r: "r \<in> set (pdPages p)" "spTokenHash r = Some x" by blast
      obtain page where "find_public_page x (to_utc clock) d p = Inr (Some page)" "ppgTitle page = avTitle (row_view p r)"
        "map puLabel (ppgComponents page) = map snd (avComponents (row_view p r))"
        using find_public_page_shown [OF inv(1,3,2) r] by blast
      moreover have "avToken (row_view p r) = Some x" using r(2) by (simp add: row_view_def)
      ultimately show ?thesis using Some view [OF r(1)] by (auto simp: get_public_def)
    next
      case False
      then have "find_public_page x (to_utc clock) d p = Inr None" by (simp add: find_public_page_def find_none_same)
      moreover have "avToken a \<noteq> Some x" if "page_spec es org = Some a" for org a
      proof -
        have "view_of org p = Some a" using that inv(4) by simp
        then obtain r where "page_at org p = Some r" "a = row_view p r" by (auto simp: view_of_def)
        then show ?thesis using False page_at_Some [OF inv(1)] by (auto simp: row_view_def)
      qed
      ultimately show ?thesis using Some by (auto simp: get_public_def)
    qed
  qed (simp add: get_public_def)
qed

section \<open>Witnesses\<close>

definition no_pages :: page_db where "no_pages = \<lparr>pdPages = [], pdComponents = []\<rparr>"

definition page_org :: string where "page_org = ''0000002a-0000-7000-8000-00000000002a''"

definition page_tables :: db where
  "page_tables = sample_db\<lparr>dbOrganizations := [page_org], dbMonitors := map (mrOrganizationID_update (\<lambda>_. page_org)) (dbMonitors sample_db)\<rparr>"

definition page_command :: replace_command where
  "page_command = \<lparr>rcOrganizationID = page_org, rcTitle = '' ok '', rcVersion = 0,
     rcComponents = [\<lparr>ciMonitorID = ''mon'', ciLabel = ''Home''\<rparr>]\<rparr>"

definition page_uuid :: "nat \<Rightarrow> string result" where "page_uuid k = Inr (if k = 0 then ''p'' else ''c'')"

definition first_draft :: page_draft where
  "first_draft = \<lparr>pgID = ''p'', pgOrganizationID = page_org, pgTitle = ''ok'', pgVersion = 1, pgCreatedAt = sample_time,
     pgUpdatedAt = sample_time, pgComponents = [\<lparr>pcID = ''c'', pcMonitorID = ''mon'', pcLabel = ''Home'', pcPosition = 0\<rparr>],
     pgPublication = None\<rparr>"

definition first_pages :: page_db where
  "first_pages = \<lparr>pdPages = [draft_row first_draft], pdComponents = [\<lparr>cwID = ''c'', cwOrganizationID = page_org, cwPageID = ''p'',
     cwMonitorID = ''mon'', cwLabel = ''Home'', cwPosition = 0\<rparr>]\<rparr>"

lemma first_replacement: "replace_page page_command no_pages no_pages sample_time page_uuid page_tables no_pages
    = (Inr (ReplaceUpdated first_draft), first_pages)"
  by code_simp

lemma shown_sample: "shown_ok page_tables"
  by (simp add: shown_ok_def page_tables_def sample_db_def)

lemma sample_time_set: "\<not> is_zero (db_instant sample_time)"
  by (simp add: is_zero_def) (simp add: sample_time_def zero_nanos_def)

lemma one_digest_not_zero: "no_zero_digest one_digest"
  by (simp add: no_zero_digest_def no_hash_def)

lemma first_requests: "page_requests one_digest [Replaced first_draft] [first_pages, no_pages] page_tables"
proof -
  have "page_requests one_digest [] [no_pages] page_tables" unfolding no_pages_def by (rule page_requests.none [OF shown_sample])
  from page_requests.replaced [OF this _ _ sample_time_set first_replacement] show ?thesis by simp
qed

theorem drafts_follow_requests_witness:
  "\<exists>v. find_draft page_org first_pages first_pages = Inr v
    \<and> map_option draft_view v = Some \<lparr>avTitle = ''ok'', avComponents = [(''mon'', ''Home'')], avVersion = 1, avToken = None\<rparr>"
  using drafts_follow_requests [OF first_requests one_digest_not_zero, of "page_org"]
  by (simp add: draft_view_def first_draft_def)

theorem replacement_is_of_latest_witness: "as_commanded page_command first_draft \<and> pgVersion first_draft = 1"
proof -
  have "page_requests one_digest [] [no_pages] page_tables" unfolding no_pages_def by (rule page_requests.none [OF shown_sample])
  from replacement_is_of_latest [OF this one_digest_not_zero _ sample_time_set first_replacement] show ?thesis
    by (simp add: page_command_def)
qed

definition page_token :: string where "page_token = raw_encode True (replicate 32 (CHR 0x02))"

definition public_pages :: page_db where "public_pages = snd (publish one_digest page_org page_token sample_time first_pages)"

lemma page_published: "publish one_digest page_org page_token sample_time first_pages
    = (Inr (PublishPublished \<lparr>pbTokenHash = digest one_digest (replicate 32 (CHR 0x02)), pbPublishedAt = sample_time\<rparr>), public_pages)"
proof -
  have "page_at page_org first_pages = Some (draft_row first_draft)" by code_simp
  moreover have "page_org \<noteq> ''''" by (simp add: page_org_def)
  ultimately show ?thesis
    by (simp add: public_pages_def publish_def hash_publication_token_def page_token_def publish_page_def first_pages_def Let_def)
      (simp add: draft_row_def)
qed

text \<open>After the publication the page is shown for the token, and for no other digest.\<close>

theorem public_page_needs_current_token_witness:
  "\<exists>page. get_public one_digest page_token sample_time page_tables public_pages = Inr (Some page)
    \<and> ppgTitle page = ''ok'' \<and> map puLabel (ppgComponents page) = [''Home'']"
proof -
  let ?x = "digest one_digest (replicate 32 (CHR 0x02))"
  have r: "page_requests one_digest [Published page_org ?x, Replaced first_draft] [public_pages, first_pages, no_pages] page_tables"
    using page_requests.published [OF first_requests sample_time_set page_published] by simp
  note T = public_page_needs_current_token [OF r one_digest_not_zero, of page_token sample_time]
  have spec: "page_spec [Published page_org ?x, Replaced first_draft] org
      = (if org = page_org then Some \<lparr>avTitle = ''ok'', avComponents = [(''mon'', ''Home'')], avVersion = 1, avToken = Some ?x\<rparr> else None)" for org
    by (simp add: first_draft_def draft_view_def)
  have h: "hash_publication_token one_digest page_token = Some ?x" by (simp add: hash_publication_token_def page_token_def)
  show ?thesis using T unfolding spec h by (auto split: sum.splits option.splits if_splits)
qed

end
