(* ===== verification/StatusEndpoints.thy ===== *)
theory StatusEndpoints
  imports StatusPage Endpoints
begin

text \<open>
  The endpoints of \<open>internal/httpapi/statuspage.go\<close>: the draft of an Organization and its publication, behind
  the guards of \<open>Access\<close>, and the public page, which needs its token alone and is read at a limited rate.
  The lemmas show that a link handed out opens the page it was handed out for.
\<close>

section \<open>Answers\<close>

record draft_response =
  drsID :: string
  drsOrganizationID :: string
  drsTitle :: string
  drsVersion :: int
  drsComponents :: "page_component list"
  drsPublishedAt :: "go_time option"
  drsCreatedAt :: go_time
  drsUpdatedAt :: go_time

text \<open>The hash of the token stays on the server.\<close>

definition to_draft_response :: "page_draft \<Rightarrow> draft_response" where
  "to_draft_response v = \<lparr>drsID = pgID v, drsOrganizationID = pgOrganizationID v, drsTitle = pgTitle v, drsVersion = pgVersion v,
     drsComponents = pgComponents v, drsPublishedAt = map_option pbPublishedAt (pgPublication v),
     drsCreatedAt = pgCreatedAt v, drsUpdatedAt = pgUpdatedAt v\<rparr>"

record draft_request =
  dqTitle :: "string option"
  dqVersion :: int
  dqComponents :: "(string option \<times> string option) list"

section \<open>Drafts\<close>

text \<open>A component of the request, with the failure of an identifier that is no UUID.\<close>

fun request_components :: "web_server \<Rightarrow> nat \<Rightarrow> (string option \<times> string option) list \<Rightarrow> component_input list \<times> validation_failure list" where
  "request_components sv i [] = ([], [])"
| "request_components sv i ((monitor, label) # cs) =
     (case request_components sv (i + 1) cs of
        (inputs, failures) \<Rightarrow>
          (case canonical_uuid sv (value_or_empty monitor) of
             None \<Rightarrow> (\<lparr>ciMonitorID = '''', ciLabel = value_or_empty label\<rparr> # inputs, component_monitor_failure i # failures)
           | Some m \<Rightarrow> (\<lparr>ciMonitorID = m, ciLabel = value_or_empty label\<rparr> # inputs, failures)))"

definition page_permission ::
  "web_server \<Rightarrow> string \<Rightarrow> go_time \<Rightarrow> web_request \<Rightarrow> identity_db \<Rightarrow> (refusal + principal) \<times> identity_db" where
  "page_permission sv org = require_organization_permission sv org PermissionStatusPageWrite"

text \<open>
  \<open>p1\<close> and \<open>p2\<close> are the tables from which the draft is read, \<open>t\<close> and \<open>p\<close> those of the transaction;
  \<open>uuid\<close> are the identifiers the generator hands out.
\<close>

definition status_page_draft_endpoint ::
  "(string \<Rightarrow> draft_request option) \<Rightarrow> web_server \<Rightarrow> request_env \<Rightarrow> (nat \<Rightarrow> string result) \<Rightarrow> page_db \<Rightarrow> page_db \<Rightarrow> db \<Rightarrow>
     web_request \<Rightarrow> identity_db \<Rightarrow> page_db \<Rightarrow> draft_response option answer \<times> identity_db \<times> page_db" where
  "status_page_draft_endpoint unmarshal sv re uuid p1 p2 t r d p =
     (case canonical_uuid sv (rePath re ''organizationId'') of
        None \<Rightarrow> (Refused (StatusProblem 404), d, p)
      | Some org \<Rightarrow>
          if rqMethod r = ''GET'' then
            (case page_permission sv org (reClock re 0) r d of
               (Inl e, d') \<Rightarrow> (Refused e, d', p)
             | (Inr _, d') \<Rightarrow>
                 (case find_draft org p1 p2 of
                    Inl e \<Rightarrow> (Refused (InternalError ''get status page draft''), d', p)
                  | Inr None \<Rightarrow> (Answered 204 None, d', p)
                  | Inr (Some v) \<Rightarrow> (Answered 200 (Some (to_draft_response v)), d', p)))
          else if rqMethod r = ''PUT'' then
            (case protect_unsafe sv (page_permission sv org) (reClock re 0) (reClock re 1) r d of
               (Inl e, d') \<Rightarrow> (Refused e, d', p)
             | (Inr _, d') \<Rightarrow>
                 (case decode_json unmarshal (reBody re) of
                    Inl e \<Rightarrow> (Refused e, d', p)
                  | Inr q \<Rightarrow>
                      (case request_components sv 0 (dqComponents q) of
                         (inputs, failures) \<Rightarrow>
                           if failures \<noteq> [] then (Refused (ValidationProblem failures), d', p)
                           else case replace_page \<lparr>rcOrganizationID = org, rcTitle = value_or_empty (dqTitle q), rcVersion = dqVersion q,
                               rcComponents = inputs\<rparr> p1 p2 (reClock re 2) uuid t p of
                             (Inl e, p') \<Rightarrow> (Refused (InternalError ''replace status page draft''), d', p')
                           | (Inr (ReplaceUpdated v), p') \<Rightarrow> (Answered 200 (Some (to_draft_response v)), d', p')
                           | (Inr (ReplaceInvalid fs), p') \<Rightarrow> (Refused (ValidationProblem fs), d', p')
                           | (Inr (ReplaceConflict code detail), p') \<Rightarrow> (Refused (CodedProblem 409 code), d', p'))))
          else (Refused (MethodNotAllowed [''GET'', ''PUT'']), d, p))"

section \<open>Publication\<close>

text \<open>The answer to a publication is the public address and the instant.\<close>

definition status_page_publication_endpoint ::
  "web_server \<Rightarrow> request_env \<Rightarrow> web_request \<Rightarrow> identity_db \<Rightarrow> page_db \<Rightarrow> (string \<times> go_time) option answer \<times> identity_db \<times> page_db" where
  "status_page_publication_endpoint sv re r d p =
     (case canonical_uuid sv (rePath re ''organizationId'') of
        None \<Rightarrow> (Refused (StatusProblem 404), d, p)
      | Some org \<Rightarrow>
          if rqMethod r \<noteq> ''POST'' \<and> rqMethod r \<noteq> ''DELETE'' then (Refused (MethodNotAllowed [''POST'', ''DELETE'']), d, p)
          else case protect_unsafe sv (page_permission sv org) (reClock re 0) (reClock re 1) r d of
            (Inl e, d') \<Rightarrow> (Refused e, d', p)
          | (Inr _, d') \<Rightarrow>
              if rqMethod r = ''DELETE'' then
                (case revoke org p of
                   (Inl e, p') \<Rightarrow> (Refused (InternalError ''revoke status page''), d', p')
                 | (Inr _, p') \<Rightarrow> (Answered 204 None, d', p'))
              else case new_opaque_token (reRandom re 0) of
                Inl e \<Rightarrow> (Refused (InternalError ''generate status page publication token''), d', p)
              | Inr (raw, token) \<Rightarrow>
                  (case publish (svSHA256 sv) org token (reClock re 2) p of
                     (Inl e, p') \<Rightarrow> (Refused (InternalError ''publish status page''), d', p')
                   | (Inr (PublishPublished v), p') \<Rightarrow>
                       (Answered 201 (Some (request_origin sv r @ ''/status/'' @ token, pbPublishedAt v)), d', p')
                   | (Inr (PublishDraftMissing code detail), p') \<Rightarrow> (Refused (CodedProblem 409 code), d', p')
                   | (Inr (PublishAlreadyPublished code detail), p') \<Rightarrow> (Refused (CodedProblem 409 code), d', p')))"

definition public_status_page_endpoint ::
  "web_server \<Rightarrow> 'l rate_package \<Rightarrow> request_env \<Rightarrow> web_request \<Rightarrow> db \<Rightarrow> page_db \<Rightarrow> 'l credential_limiter \<Rightarrow>
     public_page answer \<times> 'l credential_limiter" where
  "public_status_page_endpoint sv rp re r t p l =
     (if rqMethod r \<noteq> ''GET'' then (Refused (MethodNotAllowed [''GET'']), l)
      else case limiter_allow rp (credential_partition (svIsIP sv) (rqRemoteAddr r)) (reClock re 0) l of
        (False, l') \<Rightarrow> (Refused (StatusProblem 429), l')
      | (True, l') \<Rightarrow>
          let token = rePath re ''publicationToken'' in
          if token = '''' \<or> CHR ''/'' \<in> set token then (Refused (StatusProblem 404), l')
          else case get_public (svSHA256 sv) token (reClock re 1) t p of
            Inl e \<Rightarrow> (Refused (InternalError ''get public status page''), l')
          | Inr None \<Rightarrow> (Refused (StatusProblem 404), l')
          | Inr (Some v) \<Rightarrow> (Answered 200 v, l'))"

section \<open>Who changes a page\<close>

lemma replace_page_changes: "replace_page cmd p1 p2 clock uuid t p = (r, p') \<Longrightarrow> p' \<noteq> p \<Longrightarrow> \<exists>v. r = Inr (ReplaceUpdated v)"
  using replace_page_refused by metis

text \<open>Whoever changes a page has passed the guard of an unsafe request with the permission to write status pages.\<close>

lemma draft_change_is_permitted:
  assumes "status_page_draft_endpoint unmarshal sv re uuid p1 p2 t r d p = (ans, d', p')" and "p' \<noteq> p"
  shows "\<exists>org a s. canonical_uuid sv (rePath re ''organizationId'') = Some org
    \<and> protect_unsafe sv (page_permission sv org) (reClock re 0) (reClock re 1) r d = (Inr (a, s), d')"
  using assms
  by (auto simp: status_page_draft_endpoint_def split: option.splits if_splits prod.splits sum.splits replace_result.splits)

lemma publication_change_is_permitted:
  assumes "status_page_publication_endpoint sv re r d p = (ans, d', p')" and "p' \<noteq> p"
  shows "\<exists>org a s. canonical_uuid sv (rePath re ''organizationId'') = Some org
    \<and> protect_unsafe sv (page_permission sv org) (reClock re 0) (reClock re 1) r d = (Inr (a, s), d')"
  using assms
  by (auto simp: status_page_publication_endpoint_def split: option.splits if_splits prod.splits sum.splits publish_result.splits)

section \<open>A link opens its page\<close>

lemma opaque_token_text: "new_opaque_token random = Inr (raw, token) \<Longrightarrow>
    decode_opaque_token token = Some raw \<and> token \<noteq> '''' \<and> CHR ''/'' \<notin> set token"
proof -
  assume "new_opaque_token random = Inr (raw, token)"
  then have t: "token = raw_encode True raw" "length raw = 32"
    by (auto simp: new_opaque_token_def and_then_Inr Let_def tokenBytes_def)
  have "CHR ''/'' \<notin> set token"
  proof
    assume "CHR ''/'' \<in> set token"
    then obtain i where "is_sextet i" "byte (CHR ''/'') = sextet_byte True i" using encoded_bytes t(1) by blast
    then show False by (auto simp: sextet_byte_def byte_def split: if_splits)
  qed
  moreover have "length token = 43" using t by simp
  then have "token \<noteq> ''''" by auto
  ultimately show ?thesis using t by simp
qed

lemma published_link:
  assumes "status_page_publication_endpoint sv re r d p = (Answered status (Some (url, at)), d', p')"
  obtains org token v where "canonical_uuid sv (rePath re ''organizationId'') = Some org" "url = request_origin sv r @ ''/status/'' @ token"
    "decode_opaque_token token \<noteq> None" "token \<noteq> ''''" "CHR ''/'' \<notin> set token"
    "publish (svSHA256 sv) org token (reClock re 2) p = (Inr (PublishPublished v), p')" "at = pbPublishedAt v"
  using assms
  by (auto simp: status_page_publication_endpoint_def dest!: opaque_token_text
      split: option.splits if_splits prod.splits sum.splits publish_result.splits)

text \<open>C40. The address that a publication answers with opens the page of its Organization: whoever asks for it
  and is within the rate is shown the title and the components of the draft.\<close>

theorem published_link_opens_page:
  assumes "status_page_publication_endpoint sv re r d p = (Answered status (Some (url, at)), d', p')"
    and "page_requests (svSHA256 sv) es (p # ps) t" and "no_zero_digest (svSHA256 sv)" and "\<not> is_zero (db_instant (reClock re 2))"
    and "url = request_origin sv r @ ''/status/'' @ rePath re2 ''publicationToken''" and "rqMethod r2 = ''GET''"
    and "fst (limiter_allow rp (credential_partition (svIsIP sv) (rqRemoteAddr r2)) (reClock re2 0) l)"
  shows "\<exists>org a page. canonical_uuid sv (rePath re ''organizationId'') = Some org \<and> page_spec es org = Some a
    \<and> fst (public_status_page_endpoint sv rp re2 r2 t p' l) = Answered 200 page
    \<and> ppgTitle page = avTitle a \<and> map puLabel (ppgComponents page) = map snd (avComponents a)"
proof -
  obtain org token v where link: "canonical_uuid sv (rePath re ''organizationId'') = Some org" "url = request_origin sv r @ ''/status/'' @ token"
    "token \<noteq> ''''" "CHR ''/'' \<notin> set token" "publish (svSHA256 sv) org token (reClock re 2) p = (Inr (PublishPublished v), p')"
    by (rule published_link [OF assms(1)])
  then have token: "rePath re2 ''publicationToken'' = token" using assms(5) by simp
  obtain raw where v: "decode_opaque_token token = Some raw" "pbTokenHash v = digest (svSHA256 sv) raw" "publish_page org v p = (Inr (), p')"
    by (rule publish_published [OF link(5)]) auto
  have "pages_inv es (p # ps) t" by (rule page_requests_inv [OF assms(2,3)])
  then have before: "view_of org p = page_spec es org" by (auto simp: pages_inv_def)
  obtain y where "page_at org p = Some y" using publish_page_Inr [OF v(3)] by blast
  then have "view_of org p = Some (row_view p y)" by (simp add: view_of_def)
  with before have "page_spec es org = Some (row_view p y)" by simp
  then obtain a where a: "page_spec es org = Some a" by blast
  have "page_requests (svSHA256 sv) (Published org (pbTokenHash v) # es) (p' # p # ps) t"
    using page_requests.published [OF assms(2,4) link(5)] by simp
  from page_requests_inv [OF this assms(3)] have inv: "pages_ok p'" "components_have_monitors p' t" "shown_ok t"
    "view_of org p' = Some (a\<lparr>avToken := Some (pbTokenHash v)\<rparr>)" using a by (auto simp: pages_inv_def)
  then obtain q where q: "page_at org p' = Some q" "row_view p' q = a\<lparr>avToken := Some (pbTokenHash v)\<rparr>" by (auto simp: view_of_def)
  have "avToken (row_view p' q) = Some (pbTokenHash v)" by (simp add: q(2))
  then have "q \<in> set (pdPages p')" "spTokenHash q = Some (pbTokenHash v)" using q(1) page_at_Some [OF inv(1)] by (simp_all add: row_view_def)
  from find_public_page_shown [OF inv(1,3,2) this] obtain page where
    page: "find_public_page (pbTokenHash v) (to_utc (reClock re2 1)) t p' = Inr (Some page)" "ppgTitle page = avTitle a"
      "map puLabel (ppgComponents page) = map snd (avComponents a)" by (auto simp: q(2))
  have "fst (public_status_page_endpoint sv rp re2 r2 t p' l) = Answered 200 page"
    using assms(6,7) link(3,4) token v(1,2) page(1)
    by (auto simp: public_status_page_endpoint_def get_public_def hash_publication_token_def split: prod.splits bool.splits)
  with link(1) a page(2,3) show ?thesis by blast
qed

section \<open>Witness\<close>

definition page_identity :: identity_db where
  "page_identity = signed_in_identity\<lparr>idMembers := [(default_member ''u1'')\<lparr>msOrganizationID := page_org\<rparr>]\<rparr>"

definition publish_env :: request_env where
  "publish_env = sample_env\<lparr>rePath := \<lambda>_. page_org\<rparr>"

definition visit_env :: request_env where
  "visit_env = sample_env\<lparr>rePath := \<lambda>_. page_token\<rparr>"

lemma page_identity_loads: "load_session sample_server sample_instant sample_request page_identity
    = (Inr (Some (sample_account ''$h'', sample_session)), page_identity)"
proof -
  have "find_session h page_identity = find_session h signed_in_identity" "find_by_id low i page_identity = find_by_id low i signed_in_identity" for h low i
    by (simp_all add: page_identity_def find_session_def find_by_id_def find_account_def)
  then show ?thesis using signed_in_loads by (auto simp: load_session_def split: option.splits sum.splits if_splits)
qed

lemma page_identity_checked: "browser_checks sample_server (Some (sample_account ''$h'', sample_session)) sample_instant sample_request page_identity
    = (Inr (Some (sample_account ''$h'', sample_session)), page_identity)"
proof -
  have "find_session_antiforgery h page_identity = find_session_antiforgery h signed_in_identity" for h
    by (simp add: page_identity_def find_session_antiforgery_def)
  then show ?thesis using signed_in_checked
    by (auto simp: browser_checks_def valid_antiforgery_def split: option.splits sum.splits if_splits prod.splits bool.splits)
qed

lemma page_identity_member: "membership_of page_org ''u1'' page_identity = Inr (Some ((default_member ''u1'')\<lparr>msOrganizationID := page_org\<rparr>))"
proof -
  have "to_utc (msCreatedAt (default_member ''u1'')) = sample_instant" "valid_role RoleAdministrator"
    using sample_instant_valid by (simp_all add: default_member_def valid_role_def BuiltInRoles_def)
  then show ?thesis using sample_instant_valid
    by (simp add: membership_of_def find_membership_def page_identity_def) (simp add: default_member_def new_membership_def page_org_def)
qed

lemma page_org_canonical: "canonical_uuid sample_server page_org = Some page_org"
proof -
  have "length page_org = 36" by (simp add: page_org_def)
  moreover have "list_all (\<lambda>i. page_org ! i = CHR ''-'') [8, 13, 18, 23]" by code_simp
  moreover have "list_all (\<lambda>i. i \<in> {8, 13, 18, 23} \<or> hexadecimal (page_org ! i)) [0..<36]" by code_simp
  moreover have "to_lower low page_org = page_org" for low by (rule to_lower_id) (simp add: page_org_def byte_def)
  ultimately show ?thesis by (simp add: canonical_uuid_def)
qed

lemma sample_publication: "status_page_publication_endpoint sample_server publish_env sample_request page_identity first_pages
    = (Answered 201 (Some (request_origin sample_server sample_request @ ''/status/'' @ page_token, sample_instant)), page_identity,
       snd (publish one_digest page_org page_token sample_instant first_pages))"
proof -
  have "role_permits (msRole ((default_member ''u1'')\<lparr>msOrganizationID := page_org\<rparr>)) PermissionStatusPageWrite"
    by (simp add: default_member_def role_permits_def)
  moreover have "acID (sample_account ''$h'') = ''u1''" by (simp add: sample_account_def)
  ultimately have "protect_unsafe sample_server (page_permission sample_server page_org) sample_instant sample_instant sample_request page_identity
      = (Inr (sample_account ''$h'', sample_session), page_identity)"
    using page_identity_member
    by (simp add: protect_unsafe_def page_permission_def require_organization_permission_def require_authentication_def page_identity_loads page_identity_checked)
  moreover have "new_opaque_token (Inr (\<lambda>_. CHR 0x02)) = Inr (replicate 32 (CHR 0x02), page_token)"
    by (simp add: new_opaque_token_def tokenBytes_def page_token_def map_replicate_trivial Let_def)
  moreover have "page_at page_org first_pages = Some (draft_row first_draft)" by code_simp
  then have "\<exists>p. publish one_digest page_org page_token sample_instant first_pages = (Inr (PublishPublished
      \<lparr>pbTokenHash = digest one_digest (replicate 32 (CHR 0x02)), pbPublishedAt = sample_instant\<rparr>), p)"
    using sample_instant_valid
    by (simp add: publish_def hash_publication_token_def page_token_def publish_page_def first_pages_def Let_def page_org_def)
      (simp add: draft_row_def)
  moreover have "svSHA256 sample_server = one_digest" "rqMethod sample_request = ''POST''" "reClock publish_env k = sample_instant"
    "rePath publish_env x = page_org" "reRandom publish_env k = Inr (\<lambda>_. CHR 0x02)" for k x
    by (simp_all add: sample_server_def sample_request_def publish_env_def sample_env_def)
  ultimately show ?thesis by (auto simp: status_page_publication_endpoint_def page_org_canonical)
qed

theorem published_link_opens_page_witness:
  "\<exists>page. fst (public_status_page_endpoint sample_server counting_rates visit_env (sample_request\<lparr>rqMethod := ''GET''\<rparr>) page_tables
      (snd (publish one_digest page_org page_token sample_instant first_pages)) (new_credential_limiter 5)) = Answered 200 page
    \<and> ppgTitle page = ''ok'' \<and> map puLabel (ppgComponents page) = [''Home'']"
proof -
  have sv: "svSHA256 sample_server = one_digest" "rePath visit_env ''publicationToken'' = page_token" "reClock publish_env 2 = sample_instant"
    "reClock visit_env 0 = sample_instant" "rePath publish_env ''organizationId'' = page_org"
    by (simp_all add: sample_server_def publish_env_def visit_env_def sample_env_def)
  have "fst (limiter_allow counting_rates key sample_instant (new_credential_limiter 5))" for key
    by (simp add: limiter_allow_def new_credential_limiter_def limiter_cleanup_def current_window_def allow_in_def counting_rates_def Let_def
        maxCredentialPartitions_def)
  then have limit: "fst (limiter_allow counting_rates (credential_partition (svIsIP sample_server) (rqRemoteAddr (sample_request\<lparr>rqMethod := ''GET''\<rparr>)))
      (reClock visit_env 0) (new_credential_limiter 5))" by (simp add: sv)
  have "page_spec [Replaced first_draft] page_org = Some \<lparr>avTitle = ''ok'', avComponents = [(''mon'', ''Home'')], avVersion = 1, avToken = None\<rparr>"
    by (simp add: first_draft_def draft_view_def)
  then show ?thesis
    using published_link_opens_page [OF sample_publication, of "[Replaced first_draft]" "[no_pages]" page_tables visit_env
        "sample_request\<lparr>rqMethod := ''GET''\<rparr>" counting_rates "new_credential_limiter 5"] limit
    by (auto simp: sv first_requests one_digest_not_zero sample_instant_valid page_org_canonical)
qed

end
