(* ===== verification/Retention.thy ===== *)
theory Retention
  imports Text "HOL-Library.Char_ord" "HOL-Library.List_Lexorder"
begin

text \<open>
  Monthly partitions of the raw Run tables and their expiry: \<open>internal/run/retention.go\<close>,
  \<open>internal/postgres/partitions.go\<close> and the maintenance of \<open>cmd/probehive/worker.go\<close>. The calendar of
  package \<open>time\<close> is modelled on whole numbers of days since the zero time. The lemmas show that the
  calendar places every instant in its month, that maintenance leaves no instant ahead without a
  partition, and that it never drops one that the window still covers.
\<close>

section \<open>The calendar\<close>

definition day :: duration where "day = 24 * hour"

definition is_leap :: "int \<Rightarrow> bool" where
  "is_leap y \<longleftrightarrow> 4 dvd y \<and> (\<not> 100 dvd y \<or> 400 dvd y)"

text \<open>Days from the first of January of year 1 to that of a year, and within a year to the first of a month.\<close>

definition days_before_year :: "int \<Rightarrow> int" where
  "days_before_year y = (let n = y - 1 in 365 * n + n div 4 - n div 100 + n div 400)"

definition days_before_month :: "bool \<Rightarrow> nat \<Rightarrow> int" where
  "days_before_month leap j = sum_list (take j [31, if leap then 29 else 28, 31, 30, 31, 30, 31, 31, 30, 31, 30, 31])"

text \<open>Months are numbered: January of year 0 is month 0. A month out of range overflows into other years.\<close>

definition month_days :: "int \<Rightarrow> int" where
  "month_days k = days_before_year (k div 12) + days_before_month (is_leap (k div 12)) (nat (k mod 12))"

definition year_of_day :: "int \<Rightarrow> int" where
  "year_of_day d = (let y = 400 * d div 146097 + 1 in if days_before_year (y + 1) \<le> d then y + 1 else y)"

definition month_of_day :: "int \<Rightarrow> int" where
  "month_of_day d =
     (let y = year_of_day d
      in 12 * y + int (length (filter (\<lambda>j. days_before_month (is_leap y) j \<le> d - days_before_year y) [1..<12])))"

definition day_of :: "go_time \<Rightarrow> int" where "day_of t = (nanos t - zero_nanos) div day"

text \<open>\<open>Time.AddDate\<close> on a time in UTC.\<close>

definition add_date :: "go_time \<Rightarrow> int \<Rightarrow> int \<Rightarrow> int \<Rightarrow> go_time" where
  "add_date t years months days =
     (let d = day_of t; k = month_of_day d
      in t\<lparr>nanos := zero_nanos + (month_days (k + 12 * years + months) + (d - month_days k) + days) * day
         + (nanos t - zero_nanos) mod day\<rparr>)"

section \<open>Months\<close>

datatype month = Month (month_year: int) (month_number: int)

instantiation month :: linorder
begin

definition less_eq_month :: "month \<Rightarrow> month \<Rightarrow> bool" where
  "a \<le> b \<longleftrightarrow> month_year a < month_year b \<or> month_year a = month_year b \<and> month_number a \<le> month_number b"

definition less_month :: "month \<Rightarrow> month \<Rightarrow> bool" where
  "a < b \<longleftrightarrow> month_year a < month_year b \<or> month_year a = month_year b \<and> month_number a < month_number b"

instance
  by standard (auto simp: less_eq_month_def less_month_def intro: month.expand)

end

definition month_of_index :: "int \<Rightarrow> month" where "month_of_index k = Month (k div 12) (k mod 12 + 1)"

definition month_index :: "month \<Rightarrow> int" where "month_index m = 12 * month_year m + month_number m - 1"

definition month_of :: "go_time \<Rightarrow> month" where
  "month_of t = month_of_index (month_of_day (day_of t))"

text \<open>\<open>time.Date\<close> of the first of a month.\<close>

definition month_start :: "month \<Rightarrow> go_time" where
  "month_start m = \<lparr>nanos = zero_nanos + month_days (month_index m) * day, zone = UTC\<rparr>"

definition month_next :: "month \<Rightarrow> month" where
  "month_next m = month_of (add_date (month_start m) 0 1 0)"

definition month_end :: "month \<Rightarrow> go_time" where "month_end m = month_start (month_next m)"

text \<open>\<open>fmt.Sprintf\<close> of a whole number with leading zeros to a width.\<close>

definition zero_padded :: "nat \<Rightarrow> int \<Rightarrow> string" where
  "zero_padded w i =
     (let digits = nat_dec (nat \<bar>i\<bar>); sign = (if i < 0 then ''-'' else '''')
      in sign @ replicate (w - length sign - length digits) (CHR ''0'') @ digits)"

definition month_suffix :: "month \<Rightarrow> string" where
  "month_suffix m = zero_padded 4 (month_year m) @ ''_'' @ zero_padded 2 (month_number m)"

text \<open>\<open>strconv.Atoi\<close>.\<close>

definition atoi :: "string \<Rightarrow> int option" where
  "atoi s =
     (case s of
        [] \<Rightarrow> None
      | c # cs \<Rightarrow>
          if c = CHR ''-'' then (case parse_uint 64 cs of None \<Rightarrow> None | Some n \<Rightarrow> if 2 ^ 63 < n then None else Some (- n))
          else case parse_uint 63 (if c = CHR ''+'' then cs else s) of None \<Rightarrow> None | Some n \<Rightarrow> Some n)"

definition parse_month_suffix :: "string \<Rightarrow> month option" where
  "parse_month_suffix suffix =
     (case cut_at (CHR ''_'') suffix of
        None \<Rightarrow> None
      | Some (year, mon) \<Rightarrow>
          if length year \<noteq> 4 \<or> length mon \<noteq> 2 then None
          else case atoi year of
            None \<Rightarrow> None
          | Some y \<Rightarrow>
              if y < 1 then None
              else case atoi mon of
                None \<Rightarrow> None
              | Some n \<Rightarrow> if n < 1 \<or> 12 < n then None else Some (Month y n))"

section \<open>Retention\<close>

definition DefaultRetentionDays :: int where "DefaultRetentionDays = 30"
definition MinRetentionDays :: int where "MinRetentionDays = 1"
definition MaxRetentionDays :: int where "MaxRetentionDays = 730"
definition DefaultPartitionsAhead :: int where "DefaultPartitionsAhead = 2"
definition MaxPartitionsAhead :: int where "MaxPartitionsAhead = 24"

record retention =
  rtDays :: int

definition new_retention :: "int \<Rightarrow> retention result" where
  "new_retention days =
     (if days < MinRetentionDays \<or> days > MaxRetentionDays then Inl (ErrText ''raw retention is 1 to 730 whole days'')
      else Inr \<lparr>rtDays = days\<rparr>)"

definition default_retention :: retention where "default_retention = \<lparr>rtDays = DefaultRetentionDays\<rparr>"

definition retention_cutoff :: "retention \<Rightarrow> go_time \<Rightarrow> go_time" where
  "retention_cutoff rt now = add_date (to_utc now) 0 0 (- rtDays rt)"

definition retention_expired :: "retention \<Rightarrow> month \<Rightarrow> go_time \<Rightarrow> bool" where
  "retention_expired rt m now \<longleftrightarrow> \<not> after (month_end m) (retention_cutoff rt now)"

fun months_from :: "nat \<Rightarrow> month \<Rightarrow> month list" where
  "months_from 0 m = []"
| "months_from (Suc n) m = m # months_from n (month_next m)"

definition partition_plan :: "go_time \<Rightarrow> int \<Rightarrow> month list result" where
  "partition_plan now months_ahead =
     (if months_ahead < 0 \<or> months_ahead > MaxPartitionsAhead then Inl (ErrText ''partition lookahead is 0 to 24 months'')
      else if is_zero now then Inl (ErrText ''a partition plan requires the current instant'')
      else Inr (months_from (nat (months_ahead + 1)) (month_of now)))"

section \<open>The catalogue\<close>

text \<open>
  The partitions of the schema and the names of its other relations. A range is a pair of instants
  that excludes the second.
\<close>

record partition =
  ptTable :: string
  ptName :: string
  ptFrom :: go_time
  ptTo :: go_time

record catalogue =
  ctPartitions :: "partition list"
  ctOthers :: "string list"

definition partitioned_run_tables :: "string list" where "partitioned_run_tables = [''runs'', ''observations'']"

definition partition_name :: "string \<Rightarrow> month \<Rightarrow> string" where
  "partition_name tbl m = tbl @ ''_'' @ month_suffix m"

definition partition_month :: "string \<Rightarrow> string \<Rightarrow> month option" where
  "partition_month tbl name =
     (let prefix = tbl @ ''_''
      in if take (length prefix) name \<noteq> prefix then None else parse_month_suffix (drop (length prefix) name))"

definition relation_present :: "string \<Rightarrow> catalogue \<Rightarrow> bool" where
  "relation_present name c \<longleftrightarrow> name \<in> ptName ` set (ctPartitions c) \<or> name \<in> set (ctOthers c)"

definition ranges_meet :: "partition \<Rightarrow> partition \<Rightarrow> bool" where
  "ranges_meet p q \<longleftrightarrow> before (ptFrom p) (ptTo q) \<and> before (ptFrom q) (ptTo p)"

text \<open>\<open>CREATE TABLE ... PARTITION OF\<close> is refused when the range meets another of the table.\<close>

definition create_partition :: "string \<Rightarrow> month \<Rightarrow> catalogue \<Rightarrow> catalogue result" where
  "create_partition tbl m c =
     (let p = \<lparr>ptTable = tbl, ptName = partition_name tbl m, ptFrom = month_start m, ptTo = month_end m\<rparr>
      in if sql_exists (\<lambda>q. ptTable q = tbl \<and> ranges_meet p q) (ctPartitions c) then Inl (ErrText ''create partition'')
         else Inr (c\<lparr>ctPartitions := ctPartitions c @ [p]\<rparr>))"

fun ensure_each :: "(string \<times> month) list \<Rightarrow> string list \<Rightarrow> catalogue \<Rightarrow> (string list \<times> catalogue) result" where
  "ensure_each [] created c = Inr (created, c)"
| "ensure_each ((tbl, m) # rest) created c =
     (if relation_present (partition_name tbl m) c then ensure_each rest created c
      else and_then (create_partition tbl m c) (ensure_each rest (created @ [partition_name tbl m])))"

definition ensure_partitions :: "go_time \<Rightarrow> int \<Rightarrow> catalogue \<Rightarrow> string list result \<times> catalogue" where
  "ensure_partitions now months_ahead c =
     (case partition_plan now months_ahead of
        Inl e \<Rightarrow> (Inl e, c)
      | Inr months \<Rightarrow>
          (case ensure_each (concat (map (\<lambda>tbl. map (Pair tbl) months) partitioned_run_tables)) [] c of
             Inl e \<Rightarrow> (Inl e, c) | Inr (created, c') \<Rightarrow> (Inr created, c')))"

definition list_partitions :: "string \<Rightarrow> catalogue \<Rightarrow> partition list" where
  "list_partitions tbl c = sort_key ptName (filter (\<lambda>p. ptTable p = tbl) (ctPartitions c))"

text \<open>\<open>needed\<close> tells of which partitions rows that stay refer to, so that they cannot be detached.\<close>

fun drop_each :: "(partition \<Rightarrow> bool) \<Rightarrow> retention \<Rightarrow> go_time \<Rightarrow> partition list \<Rightarrow> string list \<Rightarrow> catalogue \<Rightarrow> (string list \<times> catalogue) result" where
  "drop_each needed rt now [] dropped c = Inr (dropped, c)"
| "drop_each needed rt now (p # ps) dropped c =
     (case partition_month (ptTable p) (ptName p) of
        None \<Rightarrow> drop_each needed rt now ps dropped c
      | Some m \<Rightarrow>
          if \<not> retention_expired rt m now then drop_each needed rt now ps dropped c
          else if needed p then Inl (ErrText ''detach expired partition'')
          else drop_each needed rt now ps (dropped @ [ptName p]) (c\<lparr>ctPartitions := filter (\<lambda>q. q \<noteq> p) (ctPartitions c)\<rparr>))"

definition drop_expired_partitions ::
  "(partition \<Rightarrow> bool) \<Rightarrow> retention \<Rightarrow> go_time \<Rightarrow> catalogue \<Rightarrow> string list result \<times> catalogue" where
  "drop_expired_partitions needed rt now c =
     (case new_retention (rtDays rt) of
        Inl e \<Rightarrow> (Inl e, c)
      | Inr _ \<Rightarrow>
          (case drop_each needed rt now (concat (map (\<lambda>tbl. list_partitions tbl c) (rev partitioned_run_tables))) [] c of
             Inl e \<Rightarrow> (Inl e, c) | Inr (dropped, c') \<Rightarrow> (Inr dropped, c')))"

definition partitionLookahead :: int where "partitionLookahead = DefaultPartitionsAhead"

text \<open>One run of the maintenance of the worker; an error is logged and ends it.\<close>

definition maintain :: "(partition \<Rightarrow> bool) \<Rightarrow> retention \<Rightarrow> go_time \<Rightarrow> catalogue \<Rightarrow> unit result \<times> catalogue" where
  "maintain needed rt clock c =
     (let now = to_utc clock in
      case ensure_partitions now partitionLookahead c of
        (Inl e, c1) \<Rightarrow> (Inl e, c1)
      | (Inr created, c1) \<Rightarrow>
          (case drop_expired_partitions needed rt now c1 of
             (Inl e, c2) \<Rightarrow> (Inl e, c2) | (Inr dropped, c2) \<Rightarrow> (Inr (), c2)))"

section \<open>The calendar places every instant\<close>

lemma div_step:
  fixes y m :: int
  assumes m: "0 < m"
  shows "y div m - (y - 1) div m = (if m dvd y then 1 else 0)"
proof (cases "m dvd y")
  case True
  then obtain k where k: "y = m * k" by blast
  have "y - 1 = (m - 1) + m * (k - 1)" by (simp add: k algebra_simps)
  then have "(y - 1) div m = ((m - 1) + m * (k - 1)) div m" by (rule arg_cong)
  also have "\<dots> = (k - 1) + (m - 1) div m" using m by (intro div_mult_self2) simp
  also have "(m - 1) div m = 0" using m by simp
  finally show ?thesis using m k by simp
next
  case False
  then have r: "0 < y mod m" "y mod m < m" using m by (metis dvd_eq_mod_eq_0 order_less_le pos_mod_sign, simp)
  have "y - 1 = (y mod m - 1) + m * (y div m)" by simp
  then have "(y - 1) div m = ((y mod m - 1) + m * (y div m)) div m" by (rule arg_cong)
  also have "\<dots> = y div m + (y mod m - 1) div m" using m by (intro div_mult_self2) simp
  also have "(y mod m - 1) div m = 0" using r by simp
  finally show ?thesis using False by simp
qed

lemma days_before_next_year: "days_before_year (y + 1) = days_before_year y + (if is_leap y then 366 else 365)"
proof -
  have "4 dvd y" if "100 dvd y" by (rule dvd_trans [OF _ that]) simp
  moreover have "100 dvd y" if "400 dvd y" by (rule dvd_trans [OF _ that]) simp
  moreover have "days_before_year (y + 1) - days_before_year y
      = 365 + (y div 4 - (y - 1) div 4) - (y div 100 - (y - 1) div 100) + (y div 400 - (y - 1) div 400)"
    by (simp add: days_before_year_def Let_def)
  then have "days_before_year (y + 1) - days_before_year y
      = 365 + (if 4 dvd y then 1 else 0) - (if 100 dvd y then 1 else 0) + (if 400 dvd y then 1 else 0)"
    by (simp only: div_step zero_less_numeral)
  ultimately show ?thesis by (cases "4 dvd y"; cases "100 dvd y"; cases "400 dvd y") (simp_all add: is_leap_def)
qed

lemma days_before_year_bounds: "146097 * (y - 1) - 699 \<le> 400 * days_before_year y" "400 * days_before_year y \<le> 146097 * (y - 1) + 396"
proof -
  define n where "n = y - 1"
  obtain a b c a' b' c' where q: "n = 4 * a + a'" "0 \<le> a'" "a' < 4" "n = 100 * b + b'" "0 \<le> b'" "b' < 100"
    "n = 400 * c + c'" "0 \<le> c'" "c' < 400" and e: "days_before_year y = 365 * n + a - b + c"
  proof (rule that)
    show "n = 4 * (n div 4) + n mod 4" "n = 100 * (n div 100) + n mod 100" "n = 400 * (n div 400) + n mod 400" by simp_all
    show "days_before_year y = 365 * n + n div 4 - n div 100 + n div 400" by (simp add: days_before_year_def Let_def n_def)
  qed simp_all
  have "400 * a = 100 * n - 100 * a'" "400 * b = 4 * n - 4 * b'" "400 * c = n - c'" using q by simp_all
  then have "400 * days_before_year y = 146097 * n - 100 * a' + 4 * b' - c'" unfolding e by (simp add: algebra_simps)
  with q(2,3,5,6,8,9) show "146097 * (y - 1) - 699 \<le> 400 * days_before_year y" "400 * days_before_year y \<le> 146097 * (y - 1) + 396"
    unfolding n_def by simp_all
qed

lemma year_of_day_correct: "days_before_year (year_of_day d) \<le> d" "d < days_before_year (year_of_day d + 1)"
proof -
  define n where "n = 400 * d div 146097"
  have "400 * d = 146097 * n + 400 * d mod 146097" "0 \<le> 400 * d mod 146097" "400 * d mod 146097 < 146097" by (simp_all add: n_def)
  then have n: "146097 * n \<le> 400 * d" "400 * d < 146097 * n + 146097" by linarith+
  have "days_before_year (n + 1) \<le> d" using days_before_year_bounds(2) [of "n + 1"] n(1) by simp
  moreover have "d < days_before_year (n + 3)" using days_before_year_bounds(1) [of "n + 3"] n(2) by simp
  moreover have "year_of_day d = (if days_before_year (n + 2) \<le> d then n + 2 else n + 1)"
    by (simp add: year_of_day_def Let_def n_def [symmetric] add.assoc)
  moreover have "n + 2 + 1 = n + 3" "n + 1 + 1 = n + 2" by simp_all
  ultimately show "days_before_year (year_of_day d) \<le> d" "d < days_before_year (year_of_day d + 1)"
    by presburger+
qed

lemma counted_initial_segment:
  fixes f :: "nat \<Rightarrow> int"
  assumes "\<And>i j. i \<le> j \<Longrightarrow> f i \<le> f j" and "g 0 = 0" and "\<And>n. g (Suc n) = g n + (if f (Suc n) \<le> r then 1 else 0 :: nat)"
  shows "g n \<le> n \<and> (\<forall>i. 1 \<le> i \<longrightarrow> i \<le> n \<longrightarrow> (f i \<le> r \<longleftrightarrow> i \<le> g n))"
proof (induction n)
  case 0
  then show ?case using assms(2) by simp
next
  case (Suc n)
  show ?case
  proof (cases "f (Suc n) \<le> r")
    case True
    then have a: "f i \<le> r" if "i \<le> Suc n" for i using assms(1) [OF that] by simp
    have "g n = n"
    proof (cases "n = 0")
      case True
      then show ?thesis using assms(2) by simp
    next
      case False
      then show ?thesis using Suc a [of n] by simp
    qed
    then show ?thesis using a assms(3) [of n] True by simp
  next
    case False
    then have g: "g (Suc n) = g n" using assms(3) by simp
    have "f i \<le> r \<longleftrightarrow> i \<le> g n" if "1 \<le> i" "i \<le> Suc n" for i
      using that False Suc by (cases "i = Suc n") simp_all
    with Suc show ?thesis unfolding g by simp
  qed
qed

lemma length_initial_segment:
  fixes f :: "nat \<Rightarrow> int"
  assumes "\<And>i j. i \<le> j \<Longrightarrow> f i \<le> f j"
  shows "length (filter (\<lambda>j. f j \<le> r) [1..<Suc n]) \<le> n
    \<and> (\<forall>i. 1 \<le> i \<longrightarrow> i \<le> n \<longrightarrow> (f i \<le> r \<longleftrightarrow> i \<le> length (filter (\<lambda>j. f j \<le> r) [1..<Suc n])))"
  by (rule counted_initial_segment [where f = f and g = "\<lambda>n. length (filter (\<lambda>j. f j \<le> r) [1..<Suc n])", OF assms]) simp_all

definition month_lengths :: "bool \<Rightarrow> int list" where
  "month_lengths leap = [31, if leap then 29 else 28, 31, 30, 31, 30, 31, 31, 30, 31, 30, 31]"

lemma days_before_month_alt: "days_before_month leap j = sum_list (take j (month_lengths leap))"
  by (simp add: days_before_month_def month_lengths_def)

lemma days_before_month_Suc: "j < 12 \<Longrightarrow> days_before_month leap (Suc j) = days_before_month leap j + month_lengths leap ! j"
proof -
  assume "j < 12"
  then have "j < length (month_lengths leap)" by (simp add: month_lengths_def)
  then show ?thesis by (simp add: days_before_month_alt take_Suc_conv_app_nth)
qed

lemma month_lengths_pos: "j < 12 \<Longrightarrow> 28 \<le> month_lengths leap ! j"
proof -
  assume "j < 12"
  then have "month_lengths leap ! j \<in> set (month_lengths leap)" by (intro nth_mem) (simp add: month_lengths_def)
  then show ?thesis by (auto simp: month_lengths_def split: if_splits)
qed

lemma days_before_month_mono: "i \<le> j \<Longrightarrow> days_before_month leap i \<le> days_before_month leap j"
proof (induction j)
  case (Suc j)
  have "days_before_month leap j \<le> days_before_month leap (Suc j)"
    using days_before_month_Suc [of j leap] month_lengths_pos [of j leap]
    by (cases "j < 12") (simp_all add: days_before_month_def)
  with Suc show ?case by (cases "i = Suc j") auto
qed simp

lemma days_of_year: "days_before_month leap 12 = (if leap then 366 else 365)" "days_before_month leap 0 = 0"
  by (simp_all add: days_before_month_def)

lemma month_days_at:
  assumes "0 \<le> j" "j \<le> 12"
  shows "month_days (12 * y + j) = days_before_year y + days_before_month (is_leap y) (nat j)"
proof (cases "j = 12")
  case True
  have k: "(12 * y + 12) div 12 = y + 1" "(12 * y + 12) mod 12 = 0" by (simp_all add: ac_simps)
  show ?thesis unfolding True month_days_def k using days_before_next_year [of y] by (simp add: days_of_year)
next
  case False
  then have "(12 * y + j) div 12 = y" "(12 * y + j) mod 12 = j" using assms by simp_all
  then show ?thesis by (simp add: month_days_def)
qed

lemma month_split: obtains y j :: int where "k = 12 * y + j" "0 \<le> j" "j < 12"
  by (rule that [of "k div 12" "k mod 12"]) simp_all

lemma month_days_step: "month_days k + 28 \<le> month_days (k + 1)"
proof -
  obtain y j where k: "k = 12 * y + j" "0 \<le> j" "j < 12" by (rule month_split)
  have "nat (j + 1) = Suc (nat j)" using k by simp
  then show ?thesis
    using month_days_at [of j y] month_days_at [of "j + 1" y] days_before_month_Suc [of "nat j" "is_leap y"]
      month_lengths_pos [of "nat j" "is_leap y"] k by (simp add: add.assoc)
qed

lemma month_days_mono: "k < l \<Longrightarrow> month_days k < month_days l"
proof (induction "nat (l - k)" arbitrary: l)
  case (Suc n)
  show ?case
  proof (cases "k = l - 1")
    case True
    then show ?thesis using month_days_step [of k] by simp
  next
    case False
    then have "month_days k < month_days (l - 1)" using Suc by simp
    then show ?thesis using month_days_step [of "l - 1"] by simp
  qed
qed simp

lemma month_of_day_correct: "month_days (month_of_day d) \<le> d" "d < month_days (month_of_day d + 1)"
proof -
  define y where "y = year_of_day d"
  define r where "r = d - days_before_year y"
  define j where "j = length (filter (\<lambda>j. days_before_month (is_leap y) j \<le> r) [1..<Suc 11])"
  note Y = year_of_day_correct [of d, folded y_def]
  have J: "j \<le> 11" "\<And>i. 1 \<le> i \<Longrightarrow> i \<le> 11 \<Longrightarrow> days_before_month (is_leap y) i \<le> r \<longleftrightarrow> i \<le> j"
    using length_initial_segment [of "days_before_month (is_leap y)" r 11, OF days_before_month_mono] unfolding j_def by blast+
  have "[1..<12] = [1..<Suc 11]" by simp
  then have m: "month_of_day d = 12 * y + int j" unfolding month_of_day_def Let_def y_def [symmetric] r_def [symmetric] j_def by (simp only:)
  have "days_before_month (is_leap y) j \<le> r" using J(1) J(2) [of j] Y(1) by (cases "j = 0") (simp_all add: days_of_year r_def)
  moreover have "r < days_before_month (is_leap y) (Suc j)"
  proof (cases "j = 11")
    case True
    then show ?thesis using Y(2) days_before_next_year [of y] by (simp add: r_def days_of_year)
  next
    case False
    then show ?thesis using J(1) J(2) [of "Suc j"] by simp
  qed
  moreover have "month_days (12 * y + int j) = days_before_year y + days_before_month (is_leap y) j"
    using month_days_at [of "int j" y] J(1) by simp
  moreover have "month_days (12 * y + int j + 1) = days_before_year y + days_before_month (is_leap y) (Suc j)"
  proof -
    have "12 * y + int j + 1 = 12 * y + int (Suc j)" by simp
    then show ?thesis using month_days_at [of "int (Suc j)" y] J(1) by (simp only: nat_int)
  qed
  ultimately show "month_days (month_of_day d) \<le> d" "d < month_days (month_of_day d + 1)"
    unfolding m r_def by linarith+
qed

lemma month_of_day_unique: "month_of_day d = k \<longleftrightarrow> month_days k \<le> d \<and> d < month_days (k + 1)"
proof
  assume r: "month_days k \<le> d \<and> d < month_days (k + 1)"
  note c = month_of_day_correct [of d]
  have "\<not> month_of_day d < k"
    using month_days_mono [of "month_of_day d + 1" k] r c by (cases "month_of_day d + 1 = k") auto
  moreover have "\<not> k < month_of_day d"
    using month_days_mono [of "k + 1" "month_of_day d"] r c by (cases "k + 1 = month_of_day d") auto
  ultimately show "month_of_day d = k" by simp
qed (use month_of_day_correct in auto)

section \<open>Months and their bounds\<close>

definition valid_month :: "month \<Rightarrow> bool" where "valid_month m \<longleftrightarrow> 1 \<le> month_number m \<and> month_number m \<le> 12"

lemma month_index_of_index [simp]: "month_index (month_of_index k) = k" "valid_month (month_of_index k)"
proof -
  have "0 \<le> k mod 12" "k mod 12 < 12" by simp_all
  then show "valid_month (month_of_index k)" unfolding valid_month_def month_of_index_def by simp
qed (simp add: month_index_def month_of_index_def)

lemma month_of_index_index [simp]: "valid_month m \<Longrightarrow> month_of_index (month_index m) = m"
proof -
  assume v: "valid_month m"
  have i: "month_index m = (month_number m - 1) + month_year m * 12" by (simp add: month_index_def)
  have "month_index m div 12 = month_year m" "month_index m mod 12 = month_number m - 1"
    unfolding i using v by (simp_all add: valid_month_def)
  then show "month_of_index (month_index m) = m" by (cases m) (simp add: month_of_index_def)
qed

lemma month_of_index_inj [simp]: "month_of_index k = month_of_index l \<longleftrightarrow> k = l"
  using month_index_of_index(1) by metis

lemma month_less_index: "valid_month a \<Longrightarrow> valid_month b \<Longrightarrow> a \<le> b \<longleftrightarrow> month_index a \<le> month_index b"
  by (auto simp: less_eq_month_def valid_month_def month_index_def)

lemma day_pos: "0 < day" by (simp add: day_def duration_defs)

lemma day_of_start [simp]: "day_of (month_start m) = month_days (month_index m)"
  using day_pos by (simp add: day_of_def month_start_def)

lemma month_next_index: "month_next m = month_of_index (month_index m + 1)"
proof -
  let ?k = "month_index m"
  have k: "month_of_day (month_days ?k) = ?k" using month_days_mono [of ?k "?k + 1"] by (simp add: month_of_day_unique)
  have "(nanos (month_start m) - zero_nanos) mod day = 0" by (simp add: month_start_def)
  then have "nanos (add_date (month_start m) 0 1 0) = zero_nanos + month_days (?k + 1) * day"
    by (simp add: add_date_def Let_def k)
  then have "day_of (add_date (month_start m) 0 1 0) = month_days (?k + 1)" using day_pos by (simp add: day_of_def)
  moreover have "month_of_day (month_days (?k + 1)) = ?k + 1"
    using month_days_mono [of "?k + 1" "?k + 2"] by (simp add: month_of_day_unique add.assoc)
  ultimately show ?thesis by (simp add: month_next_def month_of_def)
qed

lemma month_bounds: "nanos (month_start m) = zero_nanos + month_days (month_index m) * day"
  "nanos (month_end m) = zero_nanos + month_days (month_index m + 1) * day"
  by (simp_all add: month_end_def month_start_def month_next_index)

lemma le_div_iff_mult:
  fixes n a b :: int
  assumes "0 < b"
  shows "n \<le> a div b \<longleftrightarrow> n * b \<le> a"
proof
  assume "n \<le> a div b"
  then have "n * b \<le> a div b * b" using assms by simp
  also have "\<dots> \<le> a" using assms by (simp add: div_times_less_eq_dividend minus_mod_eq_div_mult [symmetric])
  finally show "n * b \<le> a" .
next
  assume "n * b \<le> a"
  also have "a < (a div b + 1) * b"
    using pos_mod_bound [OF assms, of a] div_mult_mod_eq [of a b] unfolding distrib_right by linarith
  finally show "n \<le> a div b" using assms by (simp add: mult_less_cancel_right)
qed

lemma month_of_iff:
  assumes "valid_month m"
  shows "month_of t = m \<longleftrightarrow> nanos (month_start m) \<le> nanos t \<and> nanos t < nanos (month_end m)"
proof -
  let ?d = "day_of t" and ?k = "month_index m"
  have le: "n \<le> ?d \<longleftrightarrow> zero_nanos + n * day \<le> nanos t" for n
    using le_div_iff_mult [OF day_pos, of n "nanos t - zero_nanos"] unfolding day_of_def by linarith
  have "month_of t = m \<longleftrightarrow> month_of_day ?d = ?k" using assms by (metis month_index_of_index(1) month_of_def month_of_index_index)
  also have "\<dots> \<longleftrightarrow> month_days ?k \<le> ?d \<and> \<not> month_days (?k + 1) \<le> ?d" by (auto simp: month_of_day_unique)
  finally show ?thesis by (simp add: le month_bounds not_le)
qed

lemma valid_month_of [simp]: "valid_month (month_of t)"
  by (simp add: month_of_def)

lemma month_of_utc [simp]: "month_of (to_utc t) = month_of t"
  by (simp add: month_of_def day_of_def)

lemma cutoff_nanos: "nanos (retention_cutoff rt now) = nanos now - rtDays rt * day"
proof -
  have "nanos now - zero_nanos = (nanos now - zero_nanos) div day * day + (nanos now - zero_nanos) mod day" by simp
  then show ?thesis by (simp add: retention_cutoff_def add_date_def Let_def day_of_def algebra_simps)
qed

lemma expired_iff: "retention_expired rt m now \<longleftrightarrow> nanos (month_end m) \<le> nanos now - rtDays rt * day"
  by (simp add: retention_expired_def after_def cutoff_nanos not_less)

lemma months_from_set: "valid_month m \<Longrightarrow> set (months_from n m) = (\<lambda>i. month_of_index (month_index m + int i)) ` {..<n}"
proof (induction n arbitrary: m)
  case (Suc n)
  have "set (months_from n (month_next m)) = (\<lambda>i. month_of_index (month_index m + int (Suc i))) ` {..<n}"
    using Suc.IH [of "month_next m"] by (simp add: month_next_index algebra_simps)
  with Suc.prems show ?case by (simp add: lessThan_Suc_eq_insert_0 image_image)
qed simp

text \<open>The plan holds the month of the instant and every month of the lookahead, in order and once.\<close>

lemma months_from_sorted: "valid_month m \<Longrightarrow> sorted_wrt (<) (months_from n m)"
proof (induction n arbitrary: m)
  case (Suc n)
  have "m < x" if x: "x \<in> set (months_from n (month_next m))" for x
  proof -
    obtain i :: nat where "x = month_of_index (month_index m + 1 + int i)"
      using x months_from_set [of "month_next m" n] unfolding month_next_index month_index_of_index by auto
    then have "\<not> x \<le> m" using month_less_index [of x m] Suc.prems by simp
    then show ?thesis by simp
  qed
  then show ?case using Suc.IH [of "month_next m"] by (simp add: month_next_index)
qed simp

section \<open>Names of partitions\<close>

lemma foldl_zeros: "foldl (\<lambda>n c. n * 10 + (byte c - 48)) 0 (replicate k (CHR ''0'') @ s) = foldl (\<lambda>n c. n * 10 + (byte c - 48)) (0 :: int) s"
  by (induction k) (simp_all add: byte_def)

lemma zero_padded_parts:
  assumes "0 \<le> i" and "i < 10 ^ w" and "0 < w"
  shows "length (zero_padded w i) = w" "\<forall>c\<in>set (zero_padded w i). 48 \<le> byte c \<and> byte c \<le> 57"
    "foldl (\<lambda>n c. n * 10 + (byte c - 48)) 0 (zero_padded w i) = i"
proof -
  have e: "zero_padded w i = replicate (w - length (nat_dec (nat i))) (CHR ''0'') @ nat_dec (nat i)"
    using assms(1) by (simp add: zero_padded_def Let_def)
  have "nat i < 10 ^ w" using assms(1,2) by (simp add: nat_less_iff)
  then have "length (nat_dec (nat i)) \<le> w" by (rule nat_dec_length [OF assms(3)])
  then show "length (zero_padded w i) = w" by (simp add: e)
  show "\<forall>c\<in>set (zero_padded w i). 48 \<le> byte c \<and> byte c \<le> 57" using nat_dec_digits by (auto simp: e byte_def)
  show "foldl (\<lambda>n c. n * 10 + (byte c - 48)) 0 (zero_padded w i) = i"
    unfolding e foldl_zeros nat_dec_value using assms(1) by simp
qed

lemma atoi_padded:
  assumes "0 \<le> i" and "i < 10 ^ w" and "0 < w" and "w \<le> 4"
  shows "atoi (zero_padded w i) = Some i"
proof -
  note z = zero_padded_parts [OF assms(1-3)]
  obtain c cs where s: "zero_padded w i = c # cs" using z(1) assms(3) by (cases "zero_padded w i") auto
  have "48 \<le> byte c" using z(2) s by simp
  then have "c \<noteq> CHR ''-''" "c \<noteq> CHR ''+''" by (auto simp: byte_def)
  moreover have "(10 :: int) ^ w \<le> 10 ^ 4" using assms(4) by (intro power_increasing) simp_all
  then have "i < 2 ^ 63" using assms(2) by simp
  then have "parse_uint 63 (zero_padded w i) = Some i"
    using z(2,3) s by (auto simp: parse_uint_def Let_def list_ex_iff)
  ultimately show ?thesis by (simp add: atoi_def s)
qed

definition own_month :: "month \<Rightarrow> bool" where
  "own_month m \<longleftrightarrow> valid_month m \<and> 1 \<le> month_year m \<and> month_year m \<le> 9999"

lemma suffix_parses: "own_month m \<Longrightarrow> parse_month_suffix (month_suffix m) = Some m"
proof -
  assume m: "own_month m"
  let ?y = "zero_padded 4 (month_year m)" and ?n = "zero_padded 2 (month_number m)"
  have b: "0 \<le> month_year m" "month_year m < 10 ^ 4" "0 \<le> month_number m" "month_number m < 10 ^ 2"
    using m by (auto simp: own_month_def valid_month_def)
  note Y = zero_padded_parts [OF b(1,2)] and N = zero_padded_parts [OF b(3,4)]
  have y: "\<forall>c\<in>set ?y. c \<noteq> CHR ''_''" using Y(2) by (auto simp: byte_def)
  have cut: "cut_at c (ys @ c # zs) = Some (ys, zs)" if "\<forall>x\<in>set ys. x \<noteq> c" for c ys and zs :: string
    using that by (induction ys) (auto simp: cut_at_def)
  have "cut_at (CHR ''_'') (month_suffix m) = Some (?y, ?n)" using cut [OF y, of ?n] by (simp add: month_suffix_def)
  moreover have "atoi ?y = Some (month_year m)" "atoi ?n = Some (month_number m)" using b by (simp_all add: atoi_padded)
  ultimately show ?thesis using m Y(1) N(1)
    by (simp add: parse_month_suffix_def own_month_def valid_month_def)
qed

lemma name_parses: "own_month m \<Longrightarrow> partition_month tbl (partition_name tbl m) = Some m"
  using suffix_parses by (simp add: partition_month_def partition_name_def Let_def)

section \<open>Maintenance\<close>

definition own_partition :: "string \<Rightarrow> month \<Rightarrow> partition" where
  "own_partition tbl m = \<lparr>ptTable = tbl, ptName = partition_name tbl m, ptFrom = month_start m, ptTo = month_end m\<rparr>"

definition own_catalogue :: "catalogue \<Rightarrow> bool" where
  "own_catalogue c \<longleftrightarrow> (\<forall>p\<in>set (ctPartitions c). \<exists>tbl\<in>set partitioned_run_tables. \<exists>m. own_month m \<and> p = own_partition tbl m)
     \<and> (\<forall>tbl\<in>set partitioned_run_tables. \<forall>m. partition_name tbl m \<notin> set (ctOthers c))"

lemma partition_name_inj:
  assumes "tbl \<in> set partitioned_run_tables" "tbl' \<in> set partitioned_run_tables" "own_month m" "own_month m'"
  shows "partition_name tbl m = partition_name tbl' m' \<longleftrightarrow> tbl = tbl' \<and> m = m'"
proof
  assume e: "partition_name tbl m = partition_name tbl' m'"
  then have "tbl = tbl'" using assms(1,2) by (auto simp: partitioned_run_tables_def partition_name_def)
  moreover have "m = m'" using e name_parses [OF assms(3)] name_parses [OF assms(4)] \<open>tbl = tbl'\<close> by (metis option.inject)
  ultimately show "tbl = tbl' \<and> m = m'" ..
qed simp

lemma months_apart:
  assumes "valid_month m" "valid_month m'" "m \<noteq> m'"
  shows "nanos (month_end m) \<le> nanos (month_start m') \<or> nanos (month_end m') \<le> nanos (month_start m)"
proof -
  have "month_index m \<noteq> month_index m'" using assms month_of_index_index by metis
  moreover have "month_days (k + 1) * day \<le> month_days l * day" if "k < l" for k l
    using that month_days_mono [of "k + 1" l] day_pos by (cases "k + 1 = l") simp_all
  ultimately show ?thesis unfolding month_bounds by (metis add_left_mono linorder_neqE)
qed

lemma ensure_each_own:
  assumes "own_catalogue c" and "\<forall>(tbl, m)\<in>set xs. tbl \<in> set partitioned_run_tables \<and> own_month m"
  shows "\<exists>created' c'. ensure_each xs created c = Inr (created', c') \<and> own_catalogue c'
    \<and> set (ctPartitions c') = set (ctPartitions c) \<union> (\<lambda>(tbl, m). own_partition tbl m) ` set xs"
  using assms
proof (induction xs arbitrary: created c)
  case (Cons x xs)
  obtain tbl m where x: "x = (tbl, m)" by (cases x)
  have t: "tbl \<in> set partitioned_run_tables" "own_month m" using Cons.prems(2) x by auto
  have present: "relation_present (partition_name tbl m) c \<longleftrightarrow> own_partition tbl m \<in> set (ctPartitions c)"
  proof
    assume "relation_present (partition_name tbl m) c"
    then obtain p where p: "p \<in> set (ctPartitions c)" "ptName p = partition_name tbl m"
      using Cons.prems(1) t(1) by (auto simp: relation_present_def own_catalogue_def)
    then obtain tbl' m' where q: "tbl' \<in> set partitioned_run_tables" "own_month m'" "p = own_partition tbl' m'"
      using Cons.prems(1) by (auto simp: own_catalogue_def)
    then show "own_partition tbl m \<in> set (ctPartitions c)"
    proof -
      have "partition_name tbl m = partition_name tbl' m'" using p(2) q(3) by (simp add: own_partition_def)
      then have "p = own_partition tbl m" using partition_name_inj [OF t(1) q(1) t(2) q(2)] q(3) by blast
      with p(1) show ?thesis by simp
    qed
  qed (force simp: relation_present_def own_partition_def)
  show ?case
  proof (cases "relation_present (partition_name tbl m) c")
    case True
    then show ?thesis using Cons.IH [OF Cons.prems(1)] Cons.prems(2) present x by (fastforce simp: insert_absorb)
  next
    case False
    let ?c = "c\<lparr>ctPartitions := ctPartitions c @ [own_partition tbl m]\<rparr>"
    have "\<not> ranges_meet (own_partition tbl m) q" if p: "q \<in> set (ctPartitions c)" "ptTable q = tbl" for q
    proof -
      obtain tbl' m' where q: "own_month m'" "q = own_partition tbl' m'" using Cons.prems(1) p(1) by (auto simp: own_catalogue_def)
      then have "m \<noteq> m'" using False present p by (auto simp: own_partition_def)
      with months_apart [of m m'] t(2) q show ?thesis
        by (auto simp: ranges_meet_def before_def own_partition_def own_month_def)
    qed
    then have "create_partition tbl m c = Inr ?c"
      by (auto simp: create_partition_def own_partition_def [symmetric] Let_def)
    moreover have "own_catalogue ?c" using Cons.prems(1) t by (auto simp: own_catalogue_def)
    then obtain created' c' where "ensure_each xs (created @ [partition_name tbl m]) ?c = Inr (created', c')" "own_catalogue c'"
      "set (ctPartitions c') = set (ctPartitions ?c) \<union> (\<lambda>(tbl, m). own_partition tbl m) ` set xs"
      using Cons.IH [of ?c] Cons.prems(2) by fastforce
    ultimately show ?thesis using False x by (auto simp: and_then_Inr)
  qed
qed auto

definition stale_partition :: "retention \<Rightarrow> go_time \<Rightarrow> partition \<Rightarrow> bool" where
  "stale_partition rt now p \<longleftrightarrow> (case partition_month (ptTable p) (ptName p) of None \<Rightarrow> False | Some m \<Rightarrow> retention_expired rt m now)"

lemma drop_each_result:
  "drop_each needed rt now ps dropped c = Inr (dropped', c') \<Longrightarrow>
     ctPartitions c' = filter (\<lambda>q. \<not> (q \<in> set ps \<and> stale_partition rt now q)) (ctPartitions c) \<and> ctOthers c' = ctOthers c"
proof (induction ps arbitrary: dropped c)
  case (Cons p ps)
  show ?case
  proof (cases "stale_partition rt now p")
    case True
    then have "drop_each needed rt now ps (dropped @ [ptName p]) (c\<lparr>ctPartitions := filter (\<lambda>q. q \<noteq> p) (ctPartitions c)\<rparr>) = Inr (dropped', c')"
      using Cons.prems by (auto simp: stale_partition_def split: option.splits if_splits)
    from Cons.IH [OF this] True show ?thesis by (auto simp: filter_filter intro!: filter_cong)
  next
    case False
    then have "drop_each needed rt now ps dropped c = Inr (dropped', c')"
      using Cons.prems by (auto simp: stale_partition_def split: option.splits if_splits)
    from Cons.IH [OF this] False show ?thesis by (auto intro!: filter_cong)
  qed
qed simp

lemma ensure_each_grows: "ensure_each xs created c = Inr (created', c') \<Longrightarrow> set (ctPartitions c) \<subseteq> set (ctPartitions c')"
proof (induction xs arbitrary: created c)
  case (Cons x xs)
  obtain tbl m where x: "x = (tbl, m)" by (cases x)
  show ?case
  proof (cases "relation_present (partition_name tbl m) c")
    case True
    then show ?thesis using Cons by (simp add: x)
  next
    case False
    then obtain c1 where c1: "create_partition tbl m c = Inr c1" "ensure_each xs (created @ [partition_name tbl m]) c1 = Inr (created', c')"
      using Cons.prems by (auto simp: x and_then_Inr)
    then have "set (ctPartitions c) \<subseteq> set (ctPartitions c1)" by (auto simp: create_partition_def Let_def split: if_splits)
    then show ?thesis using Cons.IH [OF c1(2)] by blast
  qed
qed simp

lemma ensure_grows: "ensure_partitions now n c = (r, c') \<Longrightarrow> set (ctPartitions c) \<subseteq> set (ctPartitions c')"
  by (auto simp: ensure_partitions_def split: sum.splits prod.splits dest: ensure_each_grows)

lemma drop_result:
  assumes "drop_expired_partitions needed rt now c = (r, c')"
  shows "c' = c \<or> 1 \<le> rtDays rt \<and> rtDays rt \<le> 730
    \<and> ctPartitions c' = filter (\<lambda>q. \<not> (ptTable q \<in> set partitioned_run_tables \<and> stale_partition rt now q)) (ctPartitions c) \<and> ctOthers c' = ctOthers c"
proof -
  let ?ps = "concat (map (\<lambda>tbl. list_partitions tbl c) (rev partitioned_run_tables))"
  have ps: "set ?ps = {p \<in> set (ctPartitions c). ptTable p \<in> set partitioned_run_tables}" by (auto simp: list_partitions_def)
  show ?thesis
  proof (cases "c' = c")
    case False
    then obtain dropped v where d: "drop_each needed rt now ?ps [] c = Inr (dropped, c')" and n: "new_retention (rtDays rt) = Inr v"
      using assms by (auto simp: drop_expired_partitions_def split: sum.splits prod.splits)
    have "1 \<le> rtDays rt" "rtDays rt \<le> 730" using n by (auto simp: new_retention_def MinRetentionDays_def MaxRetentionDays_def split: if_splits)
    moreover have "filter (\<lambda>q. \<not> (q \<in> set ?ps \<and> stale_partition rt now q)) (ctPartitions c)
        = filter (\<lambda>q. \<not> (ptTable q \<in> set partitioned_run_tables \<and> stale_partition rt now q)) (ctPartitions c)"
      using ps by (intro filter_cong) auto
    ultimately show ?thesis using drop_each_result [OF d] by simp
  qed simp
qed


section \<open>No instant ahead is without a partition\<close>

definition clock_in_years :: "go_time \<Rightarrow> bool" where
  "clock_in_years clock \<longleftrightarrow> zero_nanos < nanos clock \<and> month_year (month_of clock) \<le> 9998"

text \<open>A schema whose raw tables started without partitions, after any runs of the maintenance.\<close>

inductive maintained :: "string list \<Rightarrow> catalogue \<Rightarrow> bool" for others where
  fresh: "maintained others \<lparr>ctPartitions = [], ctOthers = others\<rparr>"
| ran: "maintained others c \<Longrightarrow> clock_in_years clock \<Longrightarrow> maintained others (snd (maintain needed rt clock c))"

lemma planned_months:
  assumes "clock_in_years clock" and "month_of clock \<le> m" and "m \<le> month_next (month_next (month_of clock))" and "valid_month m"
  shows "own_month m \<and> m \<in> set (months_from 3 (month_of clock))"
proof -
  let ?k = "month_index (month_of clock)"
  have i: "?k \<le> month_index m" "month_index m \<le> ?k + 2"
    using assms(2-4) month_less_index [of "month_of clock" m] month_less_index [of m "month_next (month_next (month_of clock))"]
    by (simp_all add: month_next_index)
  have "month_days 12 = 0" by code_simp
  moreover have "0 \<le> day_of clock" using assms(1) day_pos by (simp add: clock_in_years_def day_of_def pos_imp_zdiv_nonneg_iff)
  ultimately have "\<not> month_of_day (day_of clock) + 1 \<le> 12"
    using month_of_day_correct(2) [of "day_of clock"] month_days_mono [of "month_of_day (day_of clock) + 1" 12] by fastforce
  then have "12 \<le> ?k" by (simp add: month_of_def)
  moreover have "?k \<le> 12 * 9998 + 11"
    using assms(1) valid_month_of [of clock] by (simp add: clock_in_years_def month_index_def valid_month_def)
  ultimately have "own_month m" using i assms(4) by (auto simp: own_month_def month_index_def valid_month_def)
  moreover have "m = month_of_index (?k + int (nat (month_index m - ?k)))" using i assms(4) by simp
  moreover have "nat (month_index m - ?k) < 3" using i by simp
  ultimately show ?thesis using months_from_set [of "month_of clock" 3] by (metis image_eqI lessThan_iff valid_month_of)
qed

lemma maintain_ensures:
  assumes "own_catalogue c" and "clock_in_years clock"
  shows "\<exists>created c1. ensure_partitions (to_utc clock) partitionLookahead c = (Inr created, c1) \<and> own_catalogue c1
    \<and> (\<forall>tbl\<in>set partitioned_run_tables. \<forall>m\<in>set (months_from 3 (month_of clock)).
        own_month m \<and> month_of clock \<le> m \<and> own_partition tbl m \<in> set (ctPartitions c1))"
proof -
  let ?xs = "concat (map (\<lambda>tbl. map (Pair tbl) (months_from 3 (month_of clock))) partitioned_run_tables)"
  have own: "own_month m \<and> month_of clock \<le> m" if m: "m \<in> set (months_from 3 (month_of clock))" for m
  proof -
    obtain i where i: "i < 3" "m = month_of_index (month_index (month_of clock) + int i)"
      using m months_from_set [of "month_of clock" 3] by auto
    then have "month_of clock \<le> m" "m \<le> month_next (month_next (month_of clock))" "valid_month m"
      by (simp_all add: month_less_index month_next_index)
    with planned_months [OF assms(2)] show ?thesis by blast
  qed
  then have "\<forall>(tbl, m)\<in>set ?xs. tbl \<in> set partitioned_run_tables \<and> own_month m" by auto
  from ensure_each_own [OF assms(1) this, of "[]"] obtain created c1 where
    e: "ensure_each ?xs [] c = Inr (created, c1)" "own_catalogue c1"
      "set (ctPartitions c1) = set (ctPartitions c) \<union> (\<lambda>(tbl, m). own_partition tbl m) ` set ?xs" by blast
  have "\<not> is_zero (to_utc clock)" using assms(2) by (simp add: clock_in_years_def is_zero_def)
  then have "ensure_partitions (to_utc clock) partitionLookahead c = (Inr created, c1)"
    using e(1) by (simp add: ensure_partitions_def partition_plan_def partitionLookahead_def DefaultPartitionsAhead_def MaxPartitionsAhead_def)
  moreover have "own_partition tbl m \<in> set (ctPartitions c1)"
    if "tbl \<in> set partitioned_run_tables" "m \<in> set (months_from 3 (month_of clock))" for tbl m
    using that e(3) by force
  ultimately show ?thesis using e(2) own by blast
qed

lemma maintain_own:
  assumes "own_catalogue c" and "clock_in_years clock" and "maintain needed rt clock c = (r, c')"
  shows "own_catalogue c'" "tbl \<in> set partitioned_run_tables \<Longrightarrow> m \<in> set (months_from 3 (month_of clock)) \<Longrightarrow> own_partition tbl m \<in> set (ctPartitions c')"
proof -
  obtain created c1 where e: "ensure_partitions (to_utc clock) partitionLookahead c = (Inr created, c1)" "own_catalogue c1"
    "\<forall>tbl\<in>set partitioned_run_tables. \<forall>m\<in>set (months_from 3 (month_of clock)).
        own_month m \<and> month_of clock \<le> m \<and> own_partition tbl m \<in> set (ctPartitions c1)"
    using maintain_ensures [OF assms(1,2)] by blast
  then obtain r2 where d: "drop_expired_partitions needed rt (to_utc clock) c1 = (r2, c')"
    using assms(3) e(1) by (auto simp: maintain_def Let_def split: sum.splits prod.splits)
  show "own_catalogue c'" using drop_result [OF d] e(2) by (auto simp: own_catalogue_def)
  assume t: "tbl \<in> set partitioned_run_tables" "m \<in> set (months_from 3 (month_of clock))"
  with e(3) have p: "own_partition tbl m \<in> set (ctPartitions c1)" and own: "own_month m" "month_of clock \<le> m" by blast+
  have "nanos clock < nanos (month_end m)"
  proof -
    have "nanos clock < nanos (month_end (month_of clock))" using month_of_iff [of "month_of clock" clock] by simp
    moreover have "nanos (month_end (month_of clock)) \<le> nanos (month_end m)"
    proof -
      have "month_index (month_of clock) \<le> month_index m" using own month_less_index [of "month_of clock" m] by (simp add: own_month_def)
      then have "month_days (month_index (month_of clock) + 1) \<le> month_days (month_index m + 1)"
        using month_days_mono [of "month_index (month_of clock) + 1" "month_index m + 1"] by (cases "month_index (month_of clock) = month_index m") auto
      then show ?thesis using day_pos by (simp add: month_bounds)
    qed
    ultimately show ?thesis by simp
  qed
  moreover have "partition_month (ptTable (own_partition tbl m)) (ptName (own_partition tbl m)) = Some m"
    using name_parses own by (simp add: own_partition_def)
  ultimately have "\<not> stale_partition rt (to_utc clock) (own_partition tbl m)" if "1 \<le> rtDays rt"
    using that day_pos by (simp add: stale_partition_def expired_iff not_le) (smt (verit) mult_nonneg_nonneg)
  with drop_result [OF d] p show "own_partition tbl m \<in> set (ctPartitions c')" by auto
qed

lemma maintained_own:
  assumes "maintained others c" and "\<forall>tbl\<in>set partitioned_run_tables. \<forall>m. partition_name tbl m \<notin> set others"
  shows "own_catalogue c"
  using assms(1)
proof (induction rule: maintained.induct)
  case fresh
  then show ?case using assms(2) by (simp add: own_catalogue_def)
next
  case (ran c clock needed rt)
  then show ?case using maintain_own(1) [of c clock needed rt "fst (maintain needed rt clock c)"] by simp
qed


text \<open>What has aged out goes, unless rows that stay refer to it.\<close>

lemma drop_each_free: "\<forall>p\<in>set ps. \<not> needed p \<Longrightarrow> \<exists>dropped' c'. drop_each needed rt now ps dropped c = Inr (dropped', c')"
  by (induction ps arbitrary: dropped c) (auto split: option.split)

lemma stale_partitions_go:
  assumes "own_catalogue c" and "clock_in_years clock" and "new_retention (rtDays rt) = Inr v" and "\<forall>p. \<not> needed p"
    and "maintain needed rt clock c = (r, c')" and "p \<in> set (ctPartitions c')"
  shows "\<not> stale_partition rt (to_utc clock) p"
proof
  assume s: "stale_partition rt (to_utc clock) p"
  obtain created c1 where e: "ensure_partitions (to_utc clock) partitionLookahead c = (Inr created, c1)"
    using maintain_ensures [OF assms(1,2)] by blast
  obtain dropped c2 where d: "drop_each needed rt (to_utc clock) (concat (map (\<lambda>tbl. list_partitions tbl c1) (rev partitioned_run_tables))) [] c1 = Inr (dropped, c2)"
    using drop_each_free assms(4) by blast
  then have "c' = c2" using assms(3,5) e by (auto simp: maintain_def Let_def drop_expired_partitions_def)
  then have p: "p \<in> set (ctPartitions c1)" "p \<notin> set (concat (map (\<lambda>tbl. list_partitions tbl c1) (rev partitioned_run_tables)))"
    using drop_each_result [OF d] assms(6) s by auto
  have "own_catalogue c'" by (rule maintain_own(1) [OF assms(1,2,5)])
  then have "ptTable p \<in> set partitioned_run_tables" using assms(6) by (auto simp: own_catalogue_def own_partition_def)
  with p show False by (auto simp: list_partitions_def)
qed

section \<open>What the names hide\<close>

text \<open>
  A relation with the name of a partition counts as the partition, also when it was detached from its
  table, for instance to be archived: its month stays without a partition, and maintenance reports success.
\<close>

lemma detached_partition_hides_month:
  "relation_present (partition_name tbl m) c \<Longrightarrow> ensure_each [(tbl, m)] created c = Inr (created, c)"
  by simp

text \<open>A name with a sign in place of a digit is no name of the maintenance, but it is read as one.\<close>

lemma signed_suffix_is_recognised: "parse_month_suffix ''2026_+7'' = Some (Month 2026 7)"
  by code_simp

section \<open>Witnesses\<close>

definition clock_2023 :: go_time where "clock_2023 = \<lparr>nanos = 1700000000000000000, zone = UTC\<rparr>"

lemma month_2023: "month_of clock_2023 = Month 2023 11" by code_simp

lemma clock_2023_in_years: "clock_in_years clock_2023"
  by (simp add: clock_in_years_def month_2023) (simp add: clock_2023_def zero_nanos_def)


definition old_catalogue :: catalogue where
  "old_catalogue = \<lparr>ctPartitions = [own_partition ''runs'' (Month 2023 1)], ctOthers = []\<rparr>"

lemma old_month: "own_month (Month 2023 1)" by code_simp

lemma old_dropped: "own_partition ''runs'' (Month 2023 1) \<notin> set (ctPartitions (snd (maintain (\<lambda>_. False) default_retention clock_2023 old_catalogue)))"
proof
  let ?p = "own_partition ''runs'' (Month 2023 1)"
  assume p: "?p \<in> set (ctPartitions (snd (maintain (\<lambda>_. False) default_retention clock_2023 old_catalogue)))"
  have "own_catalogue old_catalogue"
    using old_month by (auto simp: own_catalogue_def old_catalogue_def partitioned_run_tables_def)
  moreover have "new_retention (rtDays default_retention) = Inr default_retention" by code_simp
  moreover have "partition_month (ptTable ?p) (ptName ?p) = Some (Month 2023 1)"
    using name_parses [OF old_month] by (simp add: own_partition_def)
  moreover have "retention_expired default_retention (Month 2023 1) (to_utc clock_2023)" by code_simp
  ultimately show False
    using stale_partitions_go [OF _ clock_2023_in_years _ _ prod.collapse [symmetric] p, where v = default_retention]
    by (simp add: stale_partition_def)
qed


end
