(* ===== verification/Spec2Isabelle.thy ===== *)
theory Spec2Isabelle
  imports RunWorker RunQuery Dispatch Monitor Probe Requests StatusEndpoints Retention
begin

text \<open>
  A model of ProbeHive's server, the Go program under \<open>src/\<close>.

  ProbeHive watches Monitors. A worker claims each slot of a Monitor's schedule in PostgreSQL, executes
  the check of the Monitor's revision over a guarded dialer, and records a Run with its Observation. The
  same transaction writes an event to the outbox. The dispatcher hands the event to the health policy,
  which may ask for a confirmation Run or publish a transition; transitions are projected to Incidents,
  Incidents to Alerts, and Alerts are routed to Webhook deliveries, which maintenance windows may
  suppress. Users log in over HTTP and act on Organizations through roles; every unsafe request shows an
  antiforgery token.

  \<^bold>\<open>How Go is modelled.\<close> A function that returns a value and an error is a function into
  \<open>go_error + 'a\<close> (\<open>Prelude\<close>): every early return is a branch, and an error that the program compares with
  \<open>errors.Is\<close> is a constructor of its own. Structs are records, string types with constants are datatypes
  with a constructor for any other text, instants count nanoseconds and keep their zone, and \<open>int64\<close>
  arithmetic wraps where it can. A Go string is a list of bytes. A table is a list of rows in \<open>db\<close>
  (\<open>Database\<close>) or \<open>identity_db\<close> (\<open>Accounts\<close>), and a transaction a function from the database to a result and
  the database, unchanged when it fails; CHECK constraints, keys and references are conditions that the
  statements check. Where the code reads in one transaction and writes in another, the requests between the two are an
  argument or a step of a transition relation. The clock, random bytes, identifiers and what other
  systems answer are arguments too.

  \<^bold>\<open>Which theory models what.\<close>

  \<^item> \<open>Prelude\<close>, \<open>Text\<close>, \<open>Json\<close>, \<open>Base64\<close>, \<open>Paging\<close>, \<open>Consumer\<close>: what the components share. Results, time, integers,
    the tables; UTF-8 and the normalisation of names; documents and how a struct is read from one; the
    encodings of hashes and tokens; keyset pages; and the contract of an event consumer, a locale that
    the health, Incident and Alert stores interpret.
  \<^item> \<open>RunDomain\<close>, \<open>RunSchedule\<close>, \<open>Observation\<close> (\<open>internal/run\<close>: \<open>run.go\<close>, \<open>schedule.go\<close>, \<open>execution_slots.go\<close>,
    \<open>observation.go\<close>, \<open>events.go\<close>): the states of a Run and the operations on one, the slots derived from a
    Monitor's identifier, what is stored of an execution.
  \<^item> \<open>RunPort\<close>, \<open>RunWorker\<close> (\<open>scheduler.go\<close>, \<open>manual.go\<close>, \<open>confirmation.go\<close>) act on a port, the locale \<open>lease_store\<close>;
    \<open>RunStore\<close> (\<open>internal/postgres/run.go\<close>) interprets it. \<open>RunQuery\<close> (\<open>query.go\<close>, \<open>postgres/schedule.go\<close>) reads.
  \<^item> \<open>Retention\<close> (\<open>retention.go\<close>, \<open>postgres/partitions.go\<close>, the maintenance in \<open>cmd/probehive/worker.go\<close>): monthly
    partitions and their expiry.
  \<^item> \<open>Health\<close>, \<open>HealthStore\<close> (\<open>internal/health\<close>, \<open>postgres/health.go\<close>); \<open>IncidentStore\<close> (\<open>internal/incident\<close>,
    \<open>postgres/incident.go\<close>); \<open>AlertStore\<close> (\<open>internal/alert\<close>, \<open>postgres/alert.go\<close>, \<open>webhook_routing.go\<close>);
    \<open>Maintenance\<close> (\<open>internal/maintenance\<close>, \<open>postgres/maintenance.go\<close>); \<open>Events\<close> the events between them.
  \<^item> \<open>Keyring\<close>, \<open>WebhookStore\<close>, \<open>WebhookDelivery\<close> (\<open>internal/webhook\<close> and \<open>postgres/webhook*.go\<close>): Integrations, the
    rotation of their secrets, the attempts of deliveries.
  \<^item> \<open>Outbox\<close>, \<open>Dispatch\<close> (\<open>internal/outbox\<close>, \<open>postgres/outbox.go\<close>, \<open>cmd/probehive/events.go\<close>): leases, retries and
    dead letters; \<open>system_step\<close> is one transaction of any of the stores above.
  \<^item> \<open>Monitor\<close> (\<open>internal/monitor\<close>, \<open>postgres/monitor.go\<close>): Monitors, their revisions and states.
  \<^item> \<open>Address\<close>, \<open>Outbound\<close> (\<open>internal/outbound\<close>), \<open>Check\<close> (\<open>internal/check\<close>), \<open>Probe\<close> (\<open>internal/probe\<close>): which
    addresses may be reached, which configurations are accepted, how a check is executed.
  \<^item> \<open>Passwords\<close>, \<open>Accounts\<close>, \<open>Organizations\<close>, \<open>Sessions\<close>, \<open>Access\<close>, \<open>Endpoints\<close> (\<open>internal/password\<close>, \<open>user\<close>,
    \<open>organization\<close>, \<open>postgres/user.go\<close>, \<open>organization.go\<close>, and \<open>internal/httpapi\<close>: \<open>security.go\<close>, \<open>ratelimit.go\<close>,
    \<open>auth.go\<close>, \<open>users.go\<close>, \<open>organization.go\<close>, \<open>respond.go\<close>): who may do what. \<open>Requests\<close> makes all of it one
    transition relation.

  \<^bold>\<open>What the lemmas show.\<close> Of every component: what its constructors accept is well formed, and every
  operation keeps its tables consistent. Of Runs: a lease protects the execution it was taken for, a recorded
  outcome is final, and what a scheduler counts as claimed is recorded (this theory). Of health and Incidents:
  evaluation implements a small automaton, transitions are numbered without gaps, an unresolved Incident
  exists exactly when the applied transitions say so, and a redelivered event changes nothing. Of the outbox: no
  entry is lost by any transaction, and none is given up without a reason. Of Webhooks: a rotation takes no
  secret away that a delivery needs. Of the network: only allowed addresses are connected to, and an
  execution ends within its redirect budget. Of access: what a request that passes a guard has shown, however
  requests interleave. Of retention: nothing inside the window is dropped, and the months ahead are covered.

  \<^bold>\<open>Bounds.\<close> Recursion follows the data, or a measure. Two definitions take fuel: the decoder of check
  documents has two units for each token and two more, and \<open>Check.decoding_ends\<close> shows that this is enough for
  every sequence of tokens; a reader of Run histories is given one unit for each Run and one more, and
  \<open>RunQuery.history_pages_are_complete\<close> shows that this reads everything. Calendar dates are proved for the
  years 1 to 9998, in which a month has four digits.

  \<^bold>\<open>Parameters.\<close> Code that is not under \<open>src/\<close> is an argument of the definitions that use it: Argon2id, SHA-256,
  HMAC-SHA-256 and AES-GCM (that a digest has 32 bytes and that a sealed text opens again are hypotheses), the JSON
  tokenizer, \<open>url.Parse\<close>, the printing and parsing of addresses, name resolution, sockets, and
  \<open>unicode.ToLower\<close> beyond ASCII. Of PostgreSQL it is assumed that a transaction is atomic and, under its row
  locks and statement snapshots, equivalent to its execution in one step.

  \<^bold>\<open>What is not modelled.\<close> The start of the process, its settings from the environment, tickers, logging and
  shutdown (\<open>cmd/probehive/main.go\<close>, \<open>reset.go\<close>, the rest of \<open>worker.go\<close>); the routing of \<open>httpapi/server.go\<close> and
  the handlers that pass a request on to a use case that is modelled (Runs, Monitors, health, Incidents, maintenance, Alerts
  and Webhooks), with the types of \<open>httpapi/v1\<close>; the read models that join tables for display (overview, the
  inventory of Monitors, the inbox of Incidents); the HTTP client of \<open>webhookhttp\<close>, \<open>uuidv7\<close>, \<open>clock\<close>, the
  runner of migrations, and the status pages of \<open>internal/statuspage\<close>. The web interface and the deployment scripts are
  other programs.

  \<^bold>\<open>What the model showed.\<close> Most of the program does what it means to. Where it does not, a theorem says so:
  a status outside 100 to 599 leaves a Run uncompleted (\<open>Probe.unusual_status_is_not_recorded\<close>), a login that
  overlaps a password reset undoes it (\<open>Accounts.rehash_undoes_reset\<close>), overlapping requests leave a user
  outside an Organization (\<open>Organizations.overlapping_requests_leave_user_outside\<close>), a display name with a null
  character fails (\<open>Accounts.null_display_name_fails\<close>), and a detached partition hides a month that has none
  (\<open>Retention.detached_partition_hides_month\<close>).
\<close>

section \<open>Scheduling on the PostgreSQL store\<close>

text \<open>
  A concrete worker: its executor reports a passed check, its identifiers are texts chosen by
  the number of the call.
\<close>

definition sample_schedulable :: schedulable where
  "sample_schedulable = \<lparr>shOrganizationID = ''org'', shMonitorID = ''mon'', shRevisionNumber = 1,
     shCheckType = ''http'', shCheckSchemaVersion = 1, shCheckConfiguration = ''{}'',
     shInterval = 60 * second, shNotBefore = sample_time\<rparr>"

definition sample_config :: scheduler_config where
  "sample_config = \<lparr>scLocation = ''local'', scMinimumInterval = 0, scExecutionCeiling = 60 * second,
     scTickInterval = DefaultTickInterval, scMaxBackfillSlots = DefaultMaxBackfillSlots,
     scConcurrency = DefaultConcurrency\<rparr>"

definition sample_env :: "db worker_env" where
  "sample_env = \<lparr>weStore = postgres_run_store,
     weUUID = (\<lambda>k t. Inr (if k = 0 then ''holder'' else if k = 1 then ''run'' else ''event'')),
     weExecute = (\<lambda>t v c. \<lparr>exOutcome = OutcomePassed, exStartedAt = sample_time,
       exFinishedAt = sample_time, exObservation = sample_run_observation\<rparr>),
     weMeanwhile = (\<lambda>d. d), weContextDone = (\<lambda>k. False)\<rparr>"



lemma new_run_lease:
  assumes "new_run c uuid m due holder now = Inr v" and "holder \<noteq> ''''"
  shows "rLeaseExpiresAt v = time_add (to_utc now) (lease_duration (scExecutionCeiling c))"
    "rKind v = KindScheduled" "in_flight v"
  using assms
  by (auto simp: new_run_def Let_def run_claim_Inr blank_run_def in_flight_def split: sum.splits)

lemma lease_beyond_ceiling:
  assumes "0 \<le> c" and "c + 1000 \<le> MaxLeaseDuration" and "nanos t' \<le> nanos t + c"
  shows "nanos (db_instant t') < nanos (db_instant (time_add (to_utc t) (lease_duration c)))"
proof -
  have "c < 2 ^ 63 - LeaseMargin"
    using assms(2) by (simp add: MaxLeaseDuration_def LeaseMargin_def duration_defs)
  then have "c + 1000 \<le> lease_duration c"
    using lease_duration_min [OF assms(1)] assms(2)
    by (simp add: MaxLeaseDuration_def LeaseMargin_def duration_defs)
  then have "nanos t' + 1000 \<le> nanos t + lease_duration c" using assms(3) by linarith
  then have "(nanos t' + 1000) div 1000 \<le> (nanos t + lease_duration c) div 1000" by (rule zdiv_mono1) simp
  then show ?thesis by (simp add: db_instant_def)
qed

text \<open>
  C5. A lease outlives the execution it protects: when the scheduler has claimed a slot at an
  instant, every other claim of that slot within the execution ceiling of that instant is
  refused and changes nothing, provided the ceiling stays below the cap on leases.
\<close>

theorem lease_protects_execution:
  assumes inv: "run_db_inv d" and v: "new_run c uuid m due holder now = Inr v" and h: "holder \<noteq> ''''"
    and claim: "claim_slot d v now = (Inr r, d1)"
    and ceiling: "0 \<le> scExecutionCeiling c" "scExecutionCeiling c + 1000 \<le> MaxLeaseDuration"
    and other: "in_flight v'" "rKind v' \<noteq> KindManual" "has_partition d (rwScheduledFor (claimed_row v'))"
      "run_row_ok (claimed_row v')" "slot_key (claimed_row v') = slot_key (claimed_row v)"
    and soon: "nanos now' \<le> nanos now + scExecutionCeiling c"
  shows "claim_slot d1 v' now' = (Inl (ErrIs SlotHeld), d1)"
proof -
  note V = new_run_lease [OF v h]
  obtain w where w: "w \<in> set (dbRuns d1)" "slot_key w = slot_key (claimed_row v')"
    "rwLeaseExpiresAt w = Some (db_instant (time_add (to_utc now) (lease_duration (scExecutionCeiling c))))"
    and p: "dbPartitions d1 = dbPartitions d"
    using claimed_row_in_table [OF claim] V other(5) by auto
  have inv1: "run_db_inv d1" by (rule claim_slot_inv [OF inv claim])
  have "\<not> lease_expired w now'"
    using lease_beyond_ceiling [OF ceiling soon] w(3) by (simp add: lease_expired_def)
  then show ?thesis
    using claim_existing [OF inv1 other(1,2) _ other(4) w(1,2), of now'] other(3) p
    by (simp add: has_partition_def)
qed

definition sample_new_run :: run where
  "sample_new_run = sample_claimed\<lparr>rLeaseExpiresAt := time_add sample_time (lease_duration (60 * second))\<rparr>"

lemma sample_new_run:
  "new_run sample_config (Inr ''run'') sample_schedulable sample_time ''holder'' sample_time = Inr sample_new_run"
  by code_simp

theorem lease_protects_execution_witness:
  "\<exists>d1. claim_slot sample_db sample_new_run sample_time = (Inr sample_new_run, d1)
     \<and> claim_slot d1 sample_claimed (time_add sample_time (60 * second)) = (Inl (ErrIs SlotHeld), d1)"
proof -
  obtain d1 where c: "claim_slot sample_db sample_new_run sample_time = (Inr sample_new_run, d1)"
    by (rule that [of "snd (claim_slot sample_db sample_new_run sample_time)"]) code_simp
  have k: "slot_key (claimed_row sample_claimed) = slot_key (claimed_row sample_new_run)"
    by (simp add: slot_key_def claimed_row_def slot_row_def sample_new_run_def)
  have p: "has_partition sample_db (rwScheduledFor (claimed_row sample_claimed))" by code_simp
  show ?thesis
    using lease_protects_execution [OF sample_db_inv sample_new_run _ c _ _ _ _ p sample_row_ok k,
        of "time_add sample_time (60 * second)"] c
    by (simp add: sample_config_def MaxLeaseDuration_def duration_defs in_flight_def sample_claimed_def
        blank_run_def)
qed

text \<open>
  Delivering a confirmation request again once its Run has an outcome changes nothing, whatever
  the identifiers, the executor and the context do this time: the check does not run again.
\<close>

theorem confirmation_redelivery_changes_nothing:
  assumes inv: "run_db_inv d" and env: "weStore w = postgres_run_store"
    and row: "x \<in> set (dbRuns d)" "rwOutcome x \<noteq> None"
      "slot_key x = Some (crMonitorID q, crRevisionNumber q, crLocation q, db_instant (crRequestedFor q))"
  shows "snd (confirm_execute w ceiling load_confirmation_target find_confirmation now q d) = d"
proof -
  have "claim_slot d v now = (Inl (ErrIs SlotHeld), d) \<or> (\<exists>e. claim_slot d v now = (Inl (Wrapped ''scan Run'' e), d))"
    if v: "run_claim_confirmation i (request_slot q) (request_cause q) holder t = Inr v" for v i holder t
  proof -
    have v': "in_flight v" "rKind v = KindConfirmation" "rSlot v = request_slot q"
      using v by (auto simp: run_claim_confirmation_Inr blank_run_def in_flight_def)
    have k: "slot_key x = slot_key (claimed_row v)"
      using v' row(3) by (simp add: slot_key_def claimed_row_def slot_row_def request_slot_def)
    show ?thesis
    proof (cases "has_partition d (rwScheduledFor (claimed_row v)) \<and> run_row_ok (claimed_row v)")
      case True
      then show ?thesis using claim_existing [OF inv v'(1) _ _ _ row(1) k] v'(2) row(2) by simp
    next
      case False
      then have "insert_run (claimed_row v) d = InsertFailed" by (simp add: insert_run_def)
      then show ?thesis using v' by (simp add: claim_slot_def)
    qed
  qed
  then show ?thesis
    by (auto simp: confirm_execute_def env split: sum.splits option.splits prod.splits) (metis Pair_inject sum.distinct(1))+
qed

definition sample_request :: confirmation_request where
  "sample_request = \<lparr>crEventID = ''event'', crOrganizationID = ''org'', crCandidateID = ''cand'',
     crMonitorID = ''mon'', crRevisionNumber = 1, crLocation = ''local'', crTriggeringRunID = ''run'',
     crTriggeringScheduledFor = sample_time, crRequestedFor = sample_time,
     crExpectedEvidence = ''failing'', crPolicyVersion = ''phase1.v1''\<rparr>"

definition sample_db_pending :: db where
  "sample_db_pending = sample_db_done\<lparr>
     dbRevisions := [\<lparr>rvID = ''rev'', rvMonitorID = ''mon'', rvOrganizationID = ''org'', rvNumber = 1, rvCheckType = ''http'',
       rvCheckSchemaVersion = 1, rvConfiguration = ''{}'', rvCreatedAt = sample_time\<rparr>],
     dbCandidates := [\<lparr>cwCandidate = \<lparr>cdID = ''cand'', cdOrganizationID = ''org'', cdMonitorID = ''mon'',
       cdSourceRevisionNumber = 1, cdDirection = DirectionFailure, cdExpectedEvidence = EvidenceFailing,
       cdState = CandidatePending, cdTriggeringRunID = ''run'', cdTriggeringScheduledFor = sample_time,
       cdTriggeringEventID = ''event'', cdRequestedAt = sample_time\<rparr>,
       cwConfirmation = None, cwCompletedAt = None\<rparr>]\<rparr>"

theorem confirmation_redelivery_changes_nothing_witness:
  "load_confirmation_target sample_db_pending sample_request \<noteq> Inr None
   \<and> snd (confirm_execute sample_env (60 * second) load_confirmation_target find_confirmation
       sample_time sample_request sample_db_pending) = sample_db_pending"
proof -
  have "run_db_inv sample_db_done"
    using complete_run_inv [OF sample_db_claimed_inv sample_complete_run]
    by (simp add: sample_run_observation_def sample_finished_def blank_run_def sample_slot_def)
  then have inv: "run_db_inv sample_db_pending" by (simp add: sample_db_pending_def run_db_inv_def)
  have x: "finish_row sample_finished (claimed_row sample_claimed) \<in> set (dbRuns sample_db_pending)"
    by (simp add: sample_db_pending_def sample_db_done_def)
  have k: "slot_key (finish_row sample_finished (claimed_row sample_claimed))
      = Some (crMonitorID sample_request, crRevisionNumber sample_request, crLocation sample_request,
          db_instant (crRequestedFor sample_request))"
    by (simp add: slot_key_def claimed_row_def slot_row_def sample_claimed_def blank_run_def sample_slot_def
        sample_request_def finish_row_def)
  have "load_confirmation_target sample_db_pending sample_request \<noteq> Inr None" by code_simp
  then show ?thesis
    using confirmation_redelivery_changes_nothing [OF inv _ x _ k, of sample_env "60 * second" sample_time]
    by (simp add: sample_env_def)
qed

end
